(* ===== verification/Go_Prelude.thy ===== *)
theory Go_Prelude
  imports Main "HOL-Library.Word"
begin

text \<open>
  What every component of the model shares.

  \<^item> \<open>outcome\<close>: the result of a Go function that returns \<open>(value, error)\<close> and may panic.
    \<open>Ok v\<close> is a nil error, \<open>Err e\<close> a non-nil error, \<open>Panic\<close> a run-time panic (an index or a
    slice expression out of range, a nil dereference).
  \<^item> \<open>slice\<close>: a Go byte slice with its capacity. \<open>sdata\<close> are the bytes up to the length,
    \<open>sspare\<close> the bytes of the backing array between length and capacity. The slice
    expression \<open>s[i:j]\<close> checks \<open>j\<close> against the capacity, an index \<open>s[i]\<close> against the length.
  \<^item> the fixed-width encodings of \<open>encoding/binary\<close> (big endian, and little endian where a
    component needs it) with their round trips.
  \<^item> the locale \<open>slice_loop\<close>: the shape of every decoding loop \<open>for len(raw) > 0 { ... }\<close> of
    the sources, with the lemmas the codecs use.
\<close>

unbundle bit_operations_syntax

named_theorems go_simps \<open>evaluation of outcomes, slices and byte readers\<close>

type_synonym u8 = "8 word"
type_synonym u16 = "16 word"
type_synonym u32 = "32 word"
type_synonym u64 = "64 word"
type_synonym bytes = "8 word list"

section \<open>Outcomes\<close>

datatype ('e, 'a) outcome = Ok 'a | Err 'e | Panic

primrec obind :: "('e, 'a) outcome \<Rightarrow> ('a \<Rightarrow> ('e, 'b) outcome) \<Rightarrow> ('e, 'b) outcome" where
  "obind (Ok x) f = f x"
| "obind (Err e) f = Err e"
| "obind Panic f = Panic"

primrec omap :: "('a \<Rightarrow> 'b) \<Rightarrow> ('e, 'a) outcome \<Rightarrow> ('e, 'b) outcome" where
  "omap f (Ok x) = Ok (f x)"
| "omap f (Err e) = Err e"
| "omap f Panic = Panic"

primrec wrap_err :: "('e \<Rightarrow> 'f) \<Rightarrow> ('e, 'a) outcome \<Rightarrow> ('f, 'a) outcome" where
  "wrap_err w (Ok x) = Ok x"
| "wrap_err w (Err e) = Err (w e)"
| "wrap_err w Panic = Panic"

lemma obind_cong [fundef_cong]:
  "m = m' \<Longrightarrow> (\<And>x. m' = Ok x \<Longrightarrow> f x = g x) \<Longrightarrow> obind m f = obind m' g"
  by (cases m') auto

lemma obind_eq_Ok [go_simps]: "obind m f = Ok y \<longleftrightarrow> (\<exists>x. m = Ok x \<and> f x = Ok y)"
  by (cases m) auto

lemma obind_eq_Panic [go_simps]:
  "obind m f = Panic \<longleftrightarrow> m = Panic \<or> (\<exists>x. m = Ok x \<and> f x = Panic)"
  by (cases m) auto

lemma obind_eq_Err [go_simps]:
  "obind m f = Err e \<longleftrightarrow> m = Err e \<or> (\<exists>x. m = Ok x \<and> f x = Err e)"
  by (cases m) auto

lemma outcome_Ok_iff: "(\<exists>x. m = Ok x) \<longleftrightarrow> m \<noteq> Panic \<and> (\<forall>e. m \<noteq> Err e)"
  by (cases m) auto

lemma omap_eq_Ok [go_simps]: "omap f m = Ok y \<longleftrightarrow> (\<exists>x. m = Ok x \<and> y = f x)"
  by (cases m) auto

lemma omap_eq_Panic [simp]: "omap f m = Panic \<longleftrightarrow> m = Panic"
  by (cases m) auto

lemma wrap_err_eq_Ok [simp]: "wrap_err w m = Ok y \<longleftrightarrow> m = Ok y"
  by (cases m) auto

lemma wrap_err_eq_Panic [simp]: "wrap_err w m = Panic \<longleftrightarrow> m = Panic"
  by (cases m) auto

text \<open>A \<open>for range\<close> loop that appends one result per element and stops at the first error.\<close>

primrec omapM :: "('a \<Rightarrow> ('e, 'b) outcome) \<Rightarrow> 'a list \<Rightarrow> ('e, 'b list) outcome" where
  "omapM f [] = Ok []"
| "omapM f (x # xs) = obind (f x) (\<lambda>y. obind (omapM f xs) (\<lambda>ys. Ok (y # ys)))"

lemma omapM_Ok: "(\<And>x. x \<in> set xs \<Longrightarrow> f x = Ok (g x)) \<Longrightarrow> omapM f xs = Ok (map g xs)"
  by (induction xs) auto

lemma omapM_eq_Ok_length: "omapM f xs = Ok ys \<Longrightarrow> length ys = length xs"
  by (induction xs arbitrary: ys) (auto simp: go_simps)

lemma omapM_no_panic: "(\<And>x. x \<in> set xs \<Longrightarrow> f x \<noteq> Panic) \<Longrightarrow> omapM f xs \<noteq> Panic"
  by (induction xs) (auto simp: go_simps)

lemma obind_assoc: "obind (obind m f) g = obind m (\<lambda>x. obind (f x) g)"
  by (cases m) auto

section \<open>Slices\<close>

datatype slice = Slice (sdata: bytes) (sspare: bytes)

definition slen :: "slice \<Rightarrow> nat" where
  "slen s = length (sdata s)"

text \<open>The slice expression \<open>s[i:j]\<close>; Go panics unless \<open>i \<le> j \<le> cap(s)\<close>.\<close>

definition sub :: "slice \<Rightarrow> nat \<Rightarrow> nat \<Rightarrow> ('e, slice) outcome" where
  "sub s i j =
     (if i \<le> j \<and> j \<le> length (sdata s @ sspare s)
      then Ok (Slice (take (j - i) (drop i (sdata s @ sspare s))) (drop j (sdata s @ sspare s)))
      else Panic)"

text \<open>The slice expression \<open>s[i:]\<close>, that is \<open>s[i:len(s)]\<close>.\<close>

definition sub_from :: "slice \<Rightarrow> nat \<Rightarrow> ('e, slice) outcome" where
  "sub_from s i = sub s i (slen s)"

text \<open>The index expression \<open>s[i]\<close>; Go panics unless \<open>i < len(s)\<close>.\<close>

definition at :: "slice \<Rightarrow> nat \<Rightarrow> ('e, u8) outcome" where
  "at s i = (if i < slen s then Ok (sdata s ! i) else Panic)"

lemma slen_Slice [simp]: "slen (Slice d sp) = length d"
  by (simp add: slen_def)

lemma sub_in_bounds:
  "i \<le> j \<Longrightarrow> j \<le> length d \<Longrightarrow>
   sub (Slice d sp) i j = Ok (Slice (take (j - i) (drop i d)) (drop j d @ sp))"
  by (simp add: sub_def)

lemma sub_from_in_bounds:
  "i \<le> length d \<Longrightarrow> sub_from (Slice d sp) i = Ok (Slice (drop i d) sp)"
  by (simp add: sub_from_def sub_in_bounds)

lemma at_in_bounds: "i < length d \<Longrightarrow> at (Slice d sp) i = Ok (d ! i)"
  by (simp add: at_def)

lemma sub_not_Err [simp]: "sub s i j \<noteq> Err e"
  by (simp add: sub_def)

lemma sub_from_not_Err [simp]: "sub_from s i \<noteq> Err e"
  by (simp add: sub_from_def)

lemma at_not_Err [simp]: "at s i \<noteq> Err e"
  by (simp add: at_def)

lemma sub_Panic_iff: "sub s i j = Panic \<longleftrightarrow> \<not> (i \<le> j \<and> j \<le> slen s + length (sspare s))"
  by (simp add: sub_def slen_def)

lemma sub_from_Panic_iff: "sub_from s i = Panic \<longleftrightarrow> slen s < i"
  by (auto simp: sub_from_def sub_Panic_iff)

lemma at_Panic_iff: "at s i = Panic \<longleftrightarrow> slen s \<le> i"
  by (auto simp: at_def)

lemma slen_sub: "sub s i j = Ok t \<Longrightarrow> slen t = j - i"
  by (auto simp: sub_def slen_def split: if_splits)

lemma slen_sub_from: "sub_from s i = Ok t \<Longrightarrow> slen t = slen s - i"
  by (auto simp: sub_from_def dest: slen_sub)

end
