(* ===== verification/Smf_Pool.thy ===== *)
theory Smf_Pool
  imports Go_Prelude
begin

text \<open>
  The SMF's identifier pool \<^verbatim>\<open>LazyReusePool\<close>
  (\<^verbatim>\<open>NFs/smf/internal/context/pool/lazyReusePool.go\<close>): the free values as a linked list of
  segments, values handed out from the head segment, freed values returned behind it.

  The linked list \<open>head -> next -> ...\<close> is the list \<open>head\<close> of segments (\<open>nil\<close> is \<open>[]\<close>); a
  method that follows or rewrites \<open>next\<close> pointers is a function on that list. Go's \<open>int\<close> is
  64 bits wide; the values of a pool stay between \<open>first - 1\<close> and \<open>last + 1\<close> (they are IPv4
  addresses, TEIDs or identifiers of configuration ranges), so \<open>int\<close> does not wrap.

  The locale \<open>id_pool\<close> is the contract of an allocator of identifiers, interpreted on the
  model's operations at the end.
\<close>

section \<open>The pool\<close>

record segment =
  seg_first :: int
  seg_last :: int

record LazyReusePool =
  head :: "segment list"
  pool_first :: int
  pool_last :: int
  remain :: int

datatype relativePos =
  withinThisSegment | adjacentToTheFront | adjacentToTheBack | before | after

definition NewLazyReusePool :: "int \<Rightarrow> int \<Rightarrow> LazyReusePool option" where
  "NewLazyReusePool lo hi =
     (if lo > hi then None
      else Some \<lparr>head = [\<lparr>seg_first = lo, seg_last = hi\<rparr>], pool_first = lo, pool_last = hi,
                 remain = hi - lo + 1\<rparr>)"

definition newSingleSegment :: "int \<Rightarrow> segment" where
  "newSingleSegment num = \<lparr>seg_first = num, seg_last = num\<rparr>"

definition relativePosisionOf :: "segment \<Rightarrow> int \<Rightarrow> relativePos" where
  "relativePosisionOf s value =
     (if value < seg_first s - 1 then before
      else if value = seg_first s - 1 then adjacentToTheFront
      else if seg_first s \<le> value \<and> value \<le> seg_last s then withinThisSegment
      else if value = seg_last s + 1 then adjacentToTheBack
      else after)"

text \<open>\<open>split\<close> on a segment: the segments that replace it in the list, and the returned flag.\<close>

definition split_seg :: "segment \<Rightarrow> int \<Rightarrow> segment list \<times> bool" where
  "split_seg s use =
     (if use < seg_first s \<or> use > seg_last s then ([s], False)
      else if use = seg_first s then ([s\<lparr>seg_first := seg_first s + 1\<rparr>], True)
      else if use = seg_last s then ([s\<lparr>seg_last := seg_last s - 1\<rparr>], True)
      else ([s\<lparr>seg_last := use - 1\<rparr>, \<lparr>seg_first = use + 1, seg_last = seg_last s\<rparr>], True))"

text \<open>\<open>extendLast\<close> on the first segment of a list: one more value, joined with the next segment
  when they have become adjacent.\<close>

fun extendLast :: "segment list \<Rightarrow> segment list" where
  "extendLast [] = []"
| "extendLast [s] = [s\<lparr>seg_last := seg_last s + 1\<rparr>]"
| "extendLast (s # n # rest) =
     (let s' = s\<lparr>seg_last := seg_last s + 1\<rparr>
      in if seg_last s' + 1 = seg_first n then s'\<lparr>seg_last := seg_last n\<rparr> # rest
         else s' # n # rest)"

definition Allocate :: "LazyReusePool \<Rightarrow> (int \<times> bool) \<times> LazyReusePool" where
  "Allocate p =
     (case head p of
        [] \<Rightarrow> ((0, False), p)
      | s # rest \<Rightarrow>
          (let res = seg_first s;
               s' = s\<lparr>seg_first := seg_first s + 1\<rparr>;
               hd' = (if seg_first s' > seg_last s' then rest else s' # rest)
           in ((res, True), p\<lparr>head := hd', remain := remain p - 1\<rparr>)))"

text \<open>The loop of \<open>Use\<close>: the first segment that holds the value loses it.\<close>

fun use_loop :: "int \<Rightarrow> segment list \<Rightarrow> segment list option" where
  "use_loop value [] = None"
| "use_loop value (cur # rest) =
     (if relativePosisionOf cur value = withinThisSegment then
        Some (if seg_first cur = seg_last cur then rest else fst (split_seg cur value) @ rest)
      else map_option (Cons cur) (use_loop value rest))"

definition Use :: "LazyReusePool \<Rightarrow> int \<Rightarrow> bool \<times> LazyReusePool" where
  "Use p value =
     (if head p = [] then (False, p)
      else case use_loop value (head p) of
             None \<Rightarrow> (False, p)
           | Some segs \<Rightarrow> (True, p\<lparr>head := segs, remain := remain p - 1\<rparr>))"

text \<open>The loop of \<open>Free\<close> over the segments behind the head; \<open>None\<close> is \<open>return false\<close>. The
  loop ends by \<open>goto success\<close> or at the last segment, so a list that has run out (never
  reached from \<open>Free\<close>) falls through to \<open>success\<close> with nothing changed.\<close>

fun free_loop :: "int \<Rightarrow> segment list \<Rightarrow> segment list option" where
  "free_loop value [] = Some []"
| "free_loop value (cur # rest) =
     (case relativePosisionOf cur value of
        before \<Rightarrow> Some (newSingleSegment value # cur # rest)
      | adjacentToTheFront \<Rightarrow> Some (cur\<lparr>seg_first := value\<rparr> # rest)
      | withinThisSegment \<Rightarrow> None
      | adjacentToTheBack \<Rightarrow> Some (extendLast (cur # rest))
      | after \<Rightarrow> (if rest = [] then Some [cur, newSingleSegment value]
                  else map_option (Cons cur) (free_loop value rest)))"

definition Free :: "LazyReusePool \<Rightarrow> int \<Rightarrow> bool \<times> LazyReusePool" where
  "Free p value =
     (if value < pool_first p \<or> pool_last p < value then (False, p)
      else case head p of
        [] \<Rightarrow> (True, p\<lparr>head := [newSingleSegment value], remain := remain p + 1\<rparr>)
      | h # rest \<Rightarrow>
          (case relativePosisionOf h value of
             withinThisSegment \<Rightarrow> (False, p)
           | adjacentToTheBack \<Rightarrow>
               (True, p\<lparr>head := extendLast (h # rest), remain := remain p + 1\<rparr>)
           | _ \<Rightarrow>
               (if rest = [] then
                  (True, p\<lparr>head := [h, newSingleSegment value], remain := remain p + 1\<rparr>)
                else case free_loop value rest of
                       None \<Rightarrow> (False, p)
                     | Some rest' \<Rightarrow>
                         (True, p\<lparr>head := h # rest', remain := remain p + 1\<rparr>))))"

definition Contains :: "LazyReusePool \<Rightarrow> int \<Rightarrow> int \<Rightarrow> bool" where
  "Contains p lo hi \<longleftrightarrow> lo \<le> hi \<and> pool_first p \<le> lo \<and> pool_last p \<ge> hi"

text \<open>The loop of \<open>Reserve\<close>: the remaining segments and the number of values taken away. In the
  third case the loop goes on with the segment it has just inserted, which the range no longer
  meets.\<close>

fun reserve_loop :: "int \<Rightarrow> int \<Rightarrow> segment list \<Rightarrow> segment list \<times> int" where
  "reserve_loop lo hi [] = ([], 0)"
| "reserve_loop lo hi (cur # rest) =
     (let (rest', n) = reserve_loop lo hi rest in
      if seg_first cur \<ge> lo \<and> seg_first cur \<le> hi \<and> seg_last cur > hi then
        (cur\<lparr>seg_first := hi + 1\<rparr> # rest', n + (hi - seg_first cur + 1))
      else if seg_first cur < lo \<and> seg_last cur \<ge> lo \<and> seg_last cur \<le> hi then
        (cur\<lparr>seg_last := lo - 1\<rparr> # rest', n + (seg_last cur - lo + 1))
      else if seg_first cur < lo \<and> seg_last cur > hi then
        (cur\<lparr>seg_last := lo - 1\<rparr> # \<lparr>seg_first = hi + 1, seg_last = seg_last cur\<rparr> # rest',
         n + (hi - lo + 1))
      else if seg_first cur \<ge> lo \<and> seg_last cur \<le> hi then
        (rest', n + (seg_last cur - seg_first cur + 1))
      else (cur # rest', n))"

definition Reserve :: "LazyReusePool \<Rightarrow> int \<Rightarrow> int \<Rightarrow> LazyReusePool option" where
  "Reserve p lo hi =
     (if \<not> Contains p lo hi then None
      else let (segs, n) = reserve_loop lo hi (head p)
           in Some (p\<lparr>head := segs, remain := remain p - n\<rparr>))"

definition Min_pool :: "LazyReusePool \<Rightarrow> int" where
  "Min_pool p = pool_first p"

definition Max_pool :: "LazyReusePool \<Rightarrow> int" where
  "Max_pool p = pool_last p"

definition Remain :: "LazyReusePool \<Rightarrow> int" where
  "Remain p = remain p"

definition Total_pool :: "LazyReusePool \<Rightarrow> int" where
  "Total_pool p = pool_last p - pool_first p + 1"

definition IsJoint :: "LazyReusePool \<Rightarrow> LazyReusePool \<Rightarrow> bool" where
  "IsJoint p1 p2 \<longleftrightarrow> \<not> (pool_last p2 < pool_first p1 \<or> pool_last p1 < pool_first p2)"

definition Dump :: "LazyReusePool \<Rightarrow> (int \<times> int) list" where
  "Dump p = map (\<lambda>s. (seg_first s, seg_last s)) (head p)"

section \<open>The free values and the invariant\<close>

definition seg_set :: "segment \<Rightarrow> int set" where
  "seg_set s = {seg_first s .. seg_last s}"

definition free_set :: "LazyReusePool \<Rightarrow> int set" where
  "free_set p = \<Union> (seg_set ` set (head p))"

definition apart :: "segment \<Rightarrow> segment \<Rightarrow> bool" where
  "apart s t \<longleftrightarrow> seg_last s < seg_first t \<or> seg_last t < seg_first s"

text \<open>Every segment is a non-empty range of the pool, and no two segments meet. The segments
  behind the head need not be sorted: \<open>Use\<close> and \<open>Reserve\<close> can leave the upper half of a split
  head in front of smaller segments.\<close>

definition segs_ok :: "int \<Rightarrow> int \<Rightarrow> segment list \<Rightarrow> bool" where
  "segs_ok lo hi segs \<longleftrightarrow>
     list_all (\<lambda>s. lo \<le> seg_first s \<and> seg_first s \<le> seg_last s \<and> seg_last s \<le> hi) segs \<and>
     sorted_wrt apart segs"

fun segs_size :: "segment list \<Rightarrow> int" where
  "segs_size [] = 0"
| "segs_size (s # rest) = (seg_last s - seg_first s + 1) + segs_size rest"

definition pool_inv :: "LazyReusePool \<Rightarrow> bool" where
  "pool_inv p \<longleftrightarrow> pool_first p \<le> pool_last p \<and> segs_ok (pool_first p) (pool_last p) (head p) \<and>
     remain p = segs_size (head p)"

abbreviation segs_set :: "segment list \<Rightarrow> int set" where
  "segs_set segs \<equiv> \<Union> (seg_set ` set segs)"

lemma in_seg_set [simp]: "v \<in> seg_set s \<longleftrightarrow> seg_first s \<le> v \<and> v \<le> seg_last s"
  by (simp add: seg_set_def)

lemma segs_ok_Nil [simp]: "segs_ok lo hi []"
  by (simp add: segs_ok_def)

lemma segs_ok_Cons [simp]:
  "segs_ok lo hi (s # rest) \<longleftrightarrow>
     lo \<le> seg_first s \<and> seg_first s \<le> seg_last s \<and> seg_last s \<le> hi \<and>
     (\<forall>t \<in> set rest. seg_last s < seg_first t \<or> seg_last t < seg_first s) \<and> segs_ok lo hi rest"
  by (auto simp: segs_ok_def apart_def)

lemma segs_ok_valid: "segs_ok lo hi segs \<Longrightarrow> t \<in> set segs \<Longrightarrow>
    lo \<le> seg_first t \<and> seg_first t \<le> seg_last t \<and> seg_last t \<le> hi"
  by (auto simp: segs_ok_def list_all_iff)

text \<open>A segment whose values are not among those of a well-formed list is apart from it.\<close>

lemma apart_from_list:
  assumes "segs_ok lo hi segs" and "\<And>v. v \<in> seg_set s \<Longrightarrow> v \<notin> segs_set segs"
    and "seg_first s \<le> seg_last s"
  shows "\<forall>t \<in> set segs. seg_last s < seg_first t \<or> seg_last t < seg_first s"
proof (rule ccontr)
  assume "\<not> ?thesis"
  then obtain t where t: "t \<in> set segs" "seg_first t \<le> seg_last s" "seg_first s \<le> seg_last t"
    by fastforce
  moreover have "seg_first t \<le> seg_last t" using segs_ok_valid [OF assms(1) t(1)] by simp
  ultimately have "max (seg_first s) (seg_first t) \<in> seg_set s \<inter> seg_set t"
    using assms(3) by auto
  with t(1) assms(2) show False by blast
qed

lemma segs_ok_disjoint: "segs_ok lo hi (s # rest) \<Longrightarrow> v \<in> seg_set s \<Longrightarrow> v \<notin> segs_set rest"
  by force

text \<open>Exchanging the tail of a well-formed list for one with no new values.\<close>

lemma segs_ok_tail:
  assumes "segs_ok lo hi (s # rest)" "segs_ok lo hi rest'" "segs_set rest' \<subseteq> segs_set rest"
  shows "segs_ok lo hi (s # rest')"
proof -
  have "\<forall>t \<in> set rest'. seg_last s < seg_first t \<or> seg_last t < seg_first s"
  proof (rule apart_from_list [OF assms(2)])
    show "v \<notin> segs_set rest'" if "v \<in> seg_set s" for v
      using segs_ok_disjoint [OF assms(1) that] assms(3) by blast
    show "seg_first s \<le> seg_last s" using assms(1) by simp
  qed
  with assms(1,2) show ?thesis by simp
qed

lemma finite_segs_set: "finite (segs_set segs)"
  by (induction segs) (auto simp: seg_set_def)

lemma card_segs_set:
  "segs_ok lo hi segs \<Longrightarrow> int (card (segs_set segs)) = segs_size segs"
proof (induction segs)
  case Nil
  then show ?case by simp
next
  case (Cons s rest)
  then have "seg_set s \<inter> segs_set rest = {}"
    by fastforce
  then have "card (seg_set s \<union> segs_set rest) = card (seg_set s) + card (segs_set rest)"
    by (intro card_Un_disjoint) (simp_all add: finite_segs_set seg_set_def)
  with Cons show ?case by (simp add: seg_set_def)
qed

text \<open>\<open>remain\<close> counts the free values.\<close>

lemma remain_card: "pool_inv p \<Longrightarrow> remain p = int (card (free_set p))"
  unfolding pool_inv_def free_set_def by (metis card_segs_set)

lemma segs_ok_range: "segs_ok lo hi segs \<Longrightarrow> v \<in> segs_set segs \<Longrightarrow> lo \<le> v \<and> v \<le> hi"
  by (induction segs) auto

lemma free_set_range: "pool_inv p \<Longrightarrow> v \<in> free_set p \<Longrightarrow> pool_first p \<le> v \<and> v \<le> pool_last p"
  unfolding pool_inv_def free_set_def by (blast dest: segs_ok_range)

section \<open>The operations against the set of free values\<close>

lemma relativePos_simps [simp]:
  "relativePosisionOf s v = withinThisSegment \<longleftrightarrow> seg_first s \<le> v \<and> v \<le> seg_last s"
  "seg_first s \<le> seg_last s \<Longrightarrow> relativePosisionOf s v = adjacentToTheBack \<longleftrightarrow> v = seg_last s + 1"
  "seg_first s \<le> seg_last s \<Longrightarrow> relativePosisionOf s v = adjacentToTheFront \<longleftrightarrow> v = seg_first s - 1"
  by (auto simp: relativePosisionOf_def)

text \<open>Replacing the first segment by segments that cover the same values but \<open>v\<close>.\<close>

lemma split_seg_ok:
  assumes "segs_ok lo hi (s # rest)" and "seg_first s \<le> v" "v \<le> seg_last s" "seg_first s \<noteq> seg_last s"
  shows "segs_ok lo hi (fst (split_seg s v) @ rest)"
    and "segs_set (fst (split_seg s v) @ rest) = segs_set (s # rest) - {v}"
    and "segs_size (fst (split_seg s v) @ rest) = segs_size (s # rest) - 1"
  using assms by (force simp: split_seg_def)+

lemma use_loop_spec:
  assumes "segs_ok lo hi segs"
  shows "case use_loop v segs of
           None \<Rightarrow> v \<notin> segs_set segs
         | Some segs' \<Rightarrow> v \<in> segs_set segs \<and> segs_ok lo hi segs' \<and>
             segs_set segs' = segs_set segs - {v} \<and> segs_size segs' = segs_size segs - 1"
  using assms
proof (induction segs)
  case Nil
  then show ?case by simp
next
  case (Cons s rest)
  show ?case
  proof (cases "seg_first s \<le> v \<and> v \<le> seg_last s")
    case True
    show ?thesis
    proof (cases "seg_first s = seg_last s")
      case eq: True
      with True Cons.prems show ?thesis by force
    next
      case False
      with True split_seg_ok [OF Cons.prems, of v] show ?thesis by auto
    qed
  next
    case False
    show ?thesis
    proof (cases "use_loop v rest")
      case None
      with False Cons show ?thesis by auto
    next
      case (Some segs')
      with Cons have IH: "v \<in> segs_set rest" "segs_ok lo hi segs'"
          "segs_set segs' = segs_set rest - {v}" "segs_size segs' = segs_size rest - 1"
        by auto
      moreover from IH have "segs_ok lo hi (s # segs')"
        by (intro segs_ok_tail [OF Cons.prems]) auto
      ultimately show ?thesis using Some False by auto
    qed
  qed
qed

lemma segs_ok_extend:
  assumes "segs_ok lo hi (s # rest)" "seg_last s \<le> u" "u \<le> hi"
    and "\<And>v. seg_last s < v \<Longrightarrow> v \<le> u \<Longrightarrow> v \<notin> segs_set rest"
  shows "segs_ok lo hi (s\<lparr>seg_last := u\<rparr> # rest)"
proof -
  have "\<forall>t \<in> set rest. seg_last (s\<lparr>seg_last := u\<rparr>) < seg_first t
      \<or> seg_last t < seg_first (s\<lparr>seg_last := u\<rparr>)"
  proof (rule apart_from_list [where lo = lo and hi = hi])
    show "segs_ok lo hi rest" using assms(1) by simp
    show "v \<notin> segs_set rest" if "v \<in> seg_set (s\<lparr>seg_last := u\<rparr>)" for v
      using that assms(4) [of v] segs_ok_disjoint [OF assms(1), of v] by (cases "v \<le> seg_last s") auto
    show "seg_first (s\<lparr>seg_last := u\<rparr>) \<le> seg_last (s\<lparr>seg_last := u\<rparr>)" using assms(1,2) by simp
  qed
  with assms show ?thesis by simp
qed

lemma extendLast_ok:
  assumes "segs_ok lo hi (s # rest)" and "v = seg_last s + 1" "v \<le> hi" "v \<notin> segs_set (s # rest)"
  shows "segs_ok lo hi (extendLast (s # rest))"
proof -
  have s': "segs_ok lo hi (s\<lparr>seg_last := v\<rparr> # rest)"
    using assms by (intro segs_ok_extend) auto
  show ?thesis
  proof (cases rest)
    case Nil
    with s' assms(2) show ?thesis by simp
  next
    case (Cons n r)
    show ?thesis
    proof (cases "v + 1 = seg_first n")
      case True
      have "segs_ok lo hi (s\<lparr>seg_last := v\<rparr> # r)" using s' Cons by simp
      then have "segs_ok lo hi ((s\<lparr>seg_last := v\<rparr>)\<lparr>seg_last := seg_last n\<rparr> # r)"
      proof (rule segs_ok_extend)
        have n: "segs_ok lo hi (n # r)" using s' Cons by simp
        then show "seg_last n \<le> hi" and "seg_last (s\<lparr>seg_last := v\<rparr>) \<le> seg_last n"
          using True by simp_all
        show "w \<notin> segs_set r" if "seg_last (s\<lparr>seg_last := v\<rparr>) < w" "w \<le> seg_last n" for w
          using segs_ok_disjoint [OF n, of w] that True by simp
      qed
      with True Cons assms(2) show ?thesis by (simp add: Let_def)
    next
      case False
      with s' Cons assms(2) show ?thesis by (simp add: Let_def)
    qed
  qed
qed

lemma extendLast_set:
  assumes "segs_ok lo hi (s # rest)" and "v = seg_last s + 1"
  shows "segs_set (extendLast (s # rest)) = insert v (segs_set (s # rest))"
    and "segs_size (extendLast (s # rest)) = segs_size (s # rest) + 1"
  using assms by (cases rest; auto simp: Let_def)+

lemma segs_ok_ConsI:
  assumes "segs_ok lo hi rest" "lo \<le> seg_first s" "seg_first s \<le> seg_last s" "seg_last s \<le> hi"
    and "\<And>v. v \<in> seg_set s \<Longrightarrow> v \<notin> segs_set rest"
  shows "segs_ok lo hi (s # rest)"
  using assms(1-4) apart_from_list [OF assms(1,5,3)] by simp

lemma segs_ok_single:
  "segs_ok lo hi rest \<Longrightarrow> lo \<le> v \<Longrightarrow> v \<le> hi \<Longrightarrow> v \<notin> segs_set rest \<Longrightarrow>
   segs_ok lo hi (newSingleSegment v # rest)"
  by (rule segs_ok_ConsI) (auto simp: newSingleSegment_def)

lemma segs_ok_extend_front:
  assumes "segs_ok lo hi (s # rest)" "v = seg_first s - 1" "lo \<le> v" "v \<notin> segs_set rest"
  shows "segs_ok lo hi (s\<lparr>seg_first := v\<rparr> # rest)"
proof (rule segs_ok_ConsI)
  show "w \<notin> segs_set rest" if "w \<in> seg_set (s\<lparr>seg_first := v\<rparr>)" for w
    using that assms(2,4) segs_ok_disjoint [OF assms(1), of w] by (cases "w = v") auto
qed (use assms in auto)

lemma segs_size_single [simp]: "segs_size (newSingleSegment v # rest) = segs_size rest + 1"
  by (simp add: newSingleSegment_def)

lemma seg_set_single [simp]: "seg_set (newSingleSegment v) = {v}"
  by (auto simp: newSingleSegment_def seg_set_def)

text \<open>What an insertion of \<open>v\<close> into the segments has to do.\<close>

definition inserts :: "int \<Rightarrow> int \<Rightarrow> int \<Rightarrow> segment list \<Rightarrow> segment list \<Rightarrow> bool" where
  "inserts lo hi v segs segs' \<longleftrightarrow> segs_ok lo hi segs' \<and>
     segs_set segs' = insert v (segs_set segs) \<and> segs_size segs' = segs_size segs + 1"

lemma inserts_Cons:
  assumes "segs_ok lo hi (s # rest)" "v \<notin> seg_set s" "inserts lo hi v rest rest'"
  shows "inserts lo hi v (s # rest) (s # rest')"
proof -
  have "segs_ok lo hi (s # rest')"
  proof (rule segs_ok_ConsI)
    show "w \<notin> segs_set rest'" if "w \<in> seg_set s" for w
      using that assms(2,3) segs_ok_disjoint [OF assms(1), of w] by (auto simp: inserts_def)
  qed (use assms in \<open>auto simp: inserts_def\<close>)
  with assms(3) show ?thesis by (auto simp: inserts_def)
qed

lemma inserts_extendLast:
  "segs_ok lo hi (s # rest) \<Longrightarrow> v = seg_last s + 1 \<Longrightarrow> v \<le> hi \<Longrightarrow> v \<notin> segs_set (s # rest) \<Longrightarrow>
   inserts lo hi v (s # rest) (extendLast (s # rest))"
  by (simp only: inserts_def extendLast_ok extendLast_set simp_thms)

lemma inserts_single_front:
  "segs_ok lo hi rest \<Longrightarrow> lo \<le> v \<Longrightarrow> v \<le> hi \<Longrightarrow> v \<notin> segs_set rest \<Longrightarrow>
   inserts lo hi v rest (newSingleSegment v # rest)"
  using segs_ok_single [of lo hi rest v] by (simp del: segs_ok_Cons add: inserts_def) (simp add: newSingleSegment_def)

lemma inserts_extend_front:
  "segs_ok lo hi (s # rest) \<Longrightarrow> v = seg_first s - 1 \<Longrightarrow> lo \<le> v \<Longrightarrow> v \<notin> segs_set (s # rest) \<Longrightarrow>
   inserts lo hi v (s # rest) (s\<lparr>seg_first := v\<rparr> # rest)"
  using segs_ok_extend_front [of lo hi s rest v] by (auto simp: inserts_def)

lemma free_loop_spec:
  assumes "segs_ok lo hi segs" "segs \<noteq> []" "lo \<le> v" "v \<le> hi" "v \<notin> segs_set segs"
  shows "\<exists>segs'. free_loop v segs = Some segs' \<and> inserts lo hi v segs segs'"
  using assms
proof (induction segs)
  case Nil
  then show ?case by simp
next
  case (Cons s rest)
  have rest: "segs_ok lo hi rest" "v \<notin> segs_set rest" "v \<notin> seg_set s" using Cons.prems by auto
  show ?case
  proof (cases "relativePosisionOf s v")
    case withinThisSegment
    with Cons.prems show ?thesis by auto
  next
    case adjacentToTheFront
    moreover from this have "v = seg_first s - 1" using Cons.prems(1) by simp
    ultimately show ?thesis
      using Cons.prems by (simp del: segs_ok_Cons add: inserts_extend_front)
  next
    case adjacentToTheBack
    moreover from this have "v = seg_last s + 1" using Cons.prems(1) by simp
    ultimately show ?thesis
      using Cons.prems by (simp del: segs_ok_Cons extendLast.simps add: inserts_extendLast)
  next
    case before
    with Cons.prems show ?thesis by (simp del: segs_ok_Cons add: inserts_single_front)
  next
    case after
    show ?thesis
    proof (cases "rest = []")
      case True
      have "inserts lo hi v [s] [s, newSingleSegment v]"
        using Cons.prems True rest by (intro inserts_Cons inserts_single_front) auto
      with True after show ?thesis by simp
    next
      case False
      with Cons rest obtain rest' where "free_loop v rest = Some rest'" "inserts lo hi v rest rest'"
        by auto
      with after False Cons.prems(1) rest(3) show ?thesis by (auto intro!: inserts_Cons)
    qed
  qed
qed

lemma reserve_loop_spec:
  assumes "segs_ok lo hi segs" "a \<le> b"
  shows "segs_ok lo hi (fst (reserve_loop a b segs)) \<and>
    segs_set (fst (reserve_loop a b segs)) = segs_set segs - {a..b} \<and>
    segs_size (fst (reserve_loop a b segs)) = segs_size segs - snd (reserve_loop a b segs)"
  using assms(1)
proof (induction segs)
  case Nil
  then show ?case by simp
next
  case (Cons s rest)
  obtain rest' n where rl: "reserve_loop a b rest = (rest', n)" by fastforce
  with Cons have IH: "segs_ok lo hi rest'" "segs_set rest' = segs_set rest - {a..b}"
      "segs_size rest' = segs_size rest - n"
    by auto
  have s: "segs_ok lo hi (s # rest')"
    using IH by (intro segs_ok_tail [OF Cons.prems]) auto
  have "segs_set (fst (reserve_loop a b (s # rest))) = (seg_set s - {a..b}) \<union> segs_set rest'"
    using rl assms(2) by (auto simp: Let_def seg_set_def)
  moreover have "segs_ok lo hi (fst (reserve_loop a b (s # rest)))"
    using s rl assms(2) by (auto simp: Let_def)
  ultimately show ?case
    using IH rl by (auto simp: Let_def)
qed

section \<open>The contract of an identifier pool\<close>

text \<open>
  What the SMF relies on when it draws UE addresses (and other identifiers) from a pool: an
  allocation hands out a free identifier and takes it, a use succeeds exactly on a free
  identifier, and giving back an identifier that is taken succeeds and frees it alone.
\<close>

locale id_pool =
  fixes alloc :: "'p \<Rightarrow> ('i \<times> bool) \<times> 'p"
    and use_id :: "'p \<Rightarrow> 'i \<Rightarrow> bool \<times> 'p"
    and release :: "'p \<Rightarrow> 'i \<Rightarrow> bool \<times> 'p"
    and free_ids :: "'p \<Rightarrow> 'i set"
    and ids :: "'p \<Rightarrow> 'i set"
    and inv :: "'p \<Rightarrow> bool"
  assumes free_subset: "inv p \<Longrightarrow> free_ids p \<subseteq> ids p"
    and alloc_fails: "inv p \<Longrightarrow> alloc p = ((i, False), p') \<Longrightarrow> free_ids p = {} \<and> p' = p"
    and alloc_takes: "inv p \<Longrightarrow> alloc p = ((i, True), p') \<Longrightarrow>
        i \<in> free_ids p \<and> free_ids p' = free_ids p - {i} \<and> ids p' = ids p \<and> inv p'"
    and use_fails: "inv p \<Longrightarrow> use_id p i = (False, p') \<Longrightarrow> i \<notin> free_ids p \<and> p' = p"
    and use_takes: "inv p \<Longrightarrow> use_id p i = (True, p') \<Longrightarrow>
        i \<in> free_ids p \<and> free_ids p' = free_ids p - {i} \<and> ids p' = ids p \<and> inv p'"
    and release_taken: "inv p \<Longrightarrow> i \<in> ids p - free_ids p \<Longrightarrow> release p i = (ok, p') \<Longrightarrow>
        ok \<and> free_ids p' = insert i (free_ids p) \<and> ids p' = ids p \<and> inv p'"
begin

text \<open>The identifiers that are out: those of the pool that are not free.\<close>

definition taken :: "'p \<Rightarrow> 'i set" where
  "taken p = ids p - free_ids p"

lemma alloc_taken:
  "inv p \<Longrightarrow> alloc p = ((i, True), p') \<Longrightarrow> i \<in> ids p \<and> i \<notin> taken p \<and> taken p' = insert i (taken p)"
  using alloc_takes [of p i p'] free_subset [of p] by (auto simp: taken_def)

lemma use_taken:
  "inv p \<Longrightarrow> use_id p i = (True, p') \<Longrightarrow> i \<in> ids p \<and> i \<notin> taken p \<and> taken p' = insert i (taken p)"
  using use_takes [of p i p'] free_subset [of p] by (auto simp: taken_def)

lemma release_then_free:
  "inv p \<Longrightarrow> i \<in> taken p \<Longrightarrow> release p i = (ok, p') \<Longrightarrow> ok \<and> taken p' = taken p - {i}"
  using release_taken [of p i ok p'] by (auto simp: taken_def)

lemma alloc_succeeds_iff:
  "inv p \<Longrightarrow> snd (fst (alloc p)) \<longleftrightarrow> free_ids p \<noteq> {}"
  using alloc_fails [of p] alloc_takes [of p] by (cases "alloc p") (metis empty_iff prod.collapse snd_conv fst_conv)

end

lemma pool_inv_New: "NewLazyReusePool a b = Some p \<Longrightarrow> pool_inv p"
  by (auto simp: NewLazyReusePool_def pool_inv_def split: if_splits)

lemma Allocate_fails: "Allocate p = ((i, False), p') \<Longrightarrow> free_set p = {} \<and> p' = p"
  by (auto simp: Allocate_def free_set_def Let_def split: list.splits)

lemma Allocate_takes:
  assumes "pool_inv p" "Allocate p = ((i, True), p')"
  shows "i \<in> free_set p \<and> free_set p' = free_set p - {i} \<and> pool_inv p' \<and>
    pool_first p' = pool_first p \<and> pool_last p' = pool_last p"
proof -
  from assms(2) obtain s rest where h: "head p = s # rest" and i: "i = seg_first s"
    and p': "p' = p\<lparr>head := (if seg_first s + 1 > seg_last s then rest
                              else s\<lparr>seg_first := seg_first s + 1\<rparr> # rest),
                     remain := remain p - 1\<rparr>"
    by (auto simp: Allocate_def Let_def split: list.splits)
  with assms(1) have ok: "segs_ok (pool_first p) (pool_last p) (s # rest)"
    by (simp add: pool_inv_def)
  then have "free_set p' = free_set p - {i}"
    using segs_ok_disjoint [OF ok, of i] by (auto simp: free_set_def h i p')
  moreover have "pool_inv p'"
    using assms(1) ok by (auto simp: pool_inv_def h p')
  ultimately show ?thesis
    using ok by (auto simp: free_set_def h i p')
qed

lemma free_set_update [simp]: "free_set (p\<lparr>head := segs, remain := n\<rparr>) = segs_set segs"
  by (simp add: free_set_def)

lemma Use_fails: "pool_inv p \<Longrightarrow> Use p v = (False, p') \<Longrightarrow> v \<notin> free_set p \<and> p' = p"
  using use_loop_spec [of "pool_first p" "pool_last p" "head p" v]
  by (auto simp: Use_def free_set_def pool_inv_def split: if_splits option.splits)

lemma Use_takes:
  assumes "pool_inv p" "Use p v = (True, p')"
  shows "v \<in> free_set p \<and> free_set p' = free_set p - {v} \<and> pool_inv p' \<and>
      pool_first p' = pool_first p \<and> pool_last p' = pool_last p"
proof -
  from assms(2) obtain segs where "use_loop v (head p) = Some segs"
    and p': "p' = p\<lparr>head := segs, remain := remain p - 1\<rparr>"
    by (auto simp: Use_def split: if_splits option.splits)
  with assms(1) use_loop_spec [of "pool_first p" "pool_last p" "head p" v]
  have "v \<in> free_set p" "free_set p' = free_set p - {v}" "pool_inv p'"
    unfolding p' free_set_update by (simp_all add: pool_inv_def free_set_def)
  with p' show ?thesis by simp
qed

lemma Free_taken:
  assumes "pool_inv p" "pool_first p \<le> v" "v \<le> pool_last p" "v \<notin> free_set p" "Free p v = (ok, p')"
  shows "ok \<and> free_set p' = insert v (free_set p) \<and> pool_inv p' \<and>
    pool_first p' = pool_first p \<and> pool_last p' = pool_last p"
proof -
  let ?ins = "inserts (pool_first p) (pool_last p) v"
  have "\<exists>segs. ?ins (head p) segs \<and> Free p v = (True, p\<lparr>head := segs, remain := remain p + 1\<rparr>)"
  proof (cases "head p")
    case Nil
    then show ?thesis
      using assms inserts_single_front [of "pool_first p" "pool_last p" "[]" v] by (auto simp: Free_def)
  next
    case (Cons h rest)
    with assms have ok: "segs_ok (pool_first p) (pool_last p) (h # rest)" "v \<notin> segs_set (h # rest)"
      by (auto simp: pool_inv_def free_set_def)
    then have h: "seg_first h \<le> seg_last h" "v \<notin> seg_set h" by auto
    show ?thesis
    proof (cases "v = seg_last h + 1")
      case True
      with h have "relativePosisionOf h v = adjacentToTheBack" by simp
      then show ?thesis
        using assms(2,3) Cons inserts_extendLast [OF ok(1) True assms(3) ok(2)] by (auto simp: Free_def)
    next
      case not_back: False
      then have pos: "relativePosisionOf h v \<in> {before, adjacentToTheFront, after}"
        using h by (cases "relativePosisionOf h v") auto
      have "\<exists>rest'. ?ins rest rest' \<and> (if rest = [] then rest' = [newSingleSegment v]
              else free_loop v rest = Some rest')"
        using ok assms(2,3) free_loop_spec [of "pool_first p" "pool_last p" rest v]
          inserts_single_front [of "pool_first p" "pool_last p" "[]" v] by auto
      then obtain rest' where "?ins rest rest'" "if rest = [] then rest' = [newSingleSegment v]
              else free_loop v rest = Some rest'" by blast
      moreover from this have "?ins (h # rest) (h # rest')"
        using ok h by (intro inserts_Cons) auto
      ultimately show ?thesis
        using pos assms(2,3) Cons by (auto simp: Free_def split: if_splits)
    qed
  qed
  then obtain segs where "?ins (head p) segs" and p': "p' = p\<lparr>head := segs, remain := remain p + 1\<rparr>"
    and "ok" using assms(5) by auto
  then show ?thesis
    using assms(1) unfolding p' free_set_update by (simp add: inserts_def pool_inv_def free_set_def)
qed

interpretation lrp: id_pool Allocate Use Free free_set "\<lambda>p. {pool_first p .. pool_last p}" pool_inv
proof unfold_locales
  fix p p' :: LazyReusePool and i :: int and ok :: bool
  assume inv: "pool_inv p"
  show "free_set p \<subseteq> {pool_first p .. pool_last p}"
    using free_set_range [OF inv] by auto
  show "free_set p = {} \<and> p' = p" if "Allocate p = ((i, False), p')"
    using that by (rule Allocate_fails)
  show "i \<in> free_set p \<and> free_set p' = free_set p - {i} \<and>
      {pool_first p' .. pool_last p'} = {pool_first p .. pool_last p} \<and> pool_inv p'"
    if "Allocate p = ((i, True), p')"
    using Allocate_takes [OF inv that] by simp
  show "i \<notin> free_set p \<and> p' = p" if "Use p i = (False, p')"
    using inv that by (rule Use_fails)
  show "i \<in> free_set p \<and> free_set p' = free_set p - {i} \<and>
      {pool_first p' .. pool_last p'} = {pool_first p .. pool_last p} \<and> pool_inv p'"
    if "Use p i = (True, p')"
    using Use_takes [OF inv that] by simp
  show "ok \<and> free_set p' = insert i (free_set p) \<and>
      {pool_first p' .. pool_last p'} = {pool_first p .. pool_last p} \<and> pool_inv p'"
    if "i \<in> {pool_first p .. pool_last p} - free_set p" "Free p i = (ok, p')"
    using Free_taken [OF inv _ _ _ that(2)] that(1) by simp
qed

section \<open>Runs of a pool and its clients\<close>

text \<open>
  The pool with the set \<open>H\<close> of identifiers its clients hold. A client takes an identifier by
  \<open>Allocate\<close> or \<open>Use\<close>, gives back only one that it holds, and the SMF may withdraw a range by
  \<open>Reserve\<close> (the withdrawn values that were free are then held by the SMF itself). A failed
  call changes nothing.
\<close>

inductive pool_step :: "LazyReusePool \<times> int set \<Rightarrow> LazyReusePool \<times> int set \<Rightarrow> bool" where
  step_alloc: "Allocate p = ((i, True), p') \<Longrightarrow> pool_step (p, H) (p', insert i H)"
| step_alloc_empty: "Allocate p = ((i, False), p') \<Longrightarrow> pool_step (p, H) (p', H)"
| step_use: "Use p v = (True, p') \<Longrightarrow> pool_step (p, H) (p', insert v H)"
| step_use_fails: "Use p v = (False, p') \<Longrightarrow> pool_step (p, H) (p', H)"
| step_free: "v \<in> H \<Longrightarrow> Free p v = (ok, p') \<Longrightarrow> pool_step (p, H) (p', H - {v})"
| step_reserve: "Reserve p a b = Some p' \<Longrightarrow> pool_step (p, H) (p', H \<union> {a..b})"

inductive pool_reachable :: "int \<Rightarrow> int \<Rightarrow> LazyReusePool \<times> int set \<Rightarrow> bool" for lo hi where
  start: "NewLazyReusePool lo hi = Some p \<Longrightarrow> pool_reachable lo hi (p, {})"
| step: "pool_reachable lo hi s \<Longrightarrow> pool_step s t \<Longrightarrow> pool_reachable lo hi t"

inductive_cases pool_stepE: "pool_step (p, H) (p', H')"

lemma Reserve_spec:
  assumes "pool_inv p" "Reserve p a b = Some p'"
  shows "free_set p' = free_set p - {a..b} \<and> pool_inv p' \<and>
    pool_first p' = pool_first p \<and> pool_last p' = pool_last p \<and>
    pool_first p \<le> a \<and> a \<le> b \<and> b \<le> pool_last p"
proof -
  obtain segs n where rl: "reserve_loop a b (head p) = (segs, n)" by fastforce
  with assms have ab: "a \<le> b" "pool_first p \<le> a" "b \<le> pool_last p"
      and p': "p' = p\<lparr>head := segs, remain := remain p - n\<rparr>"
    by (auto simp: Reserve_def Contains_def split: if_splits)
  have "segs_ok (pool_first p) (pool_last p) segs" "segs_set segs = segs_set (head p) - {a..b}"
      "segs_size segs = segs_size (head p) - n"
    using reserve_loop_spec [of "pool_first p" "pool_last p" "head p" a b] assms(1) ab(1) rl
    by (simp_all add: pool_inv_def)
  then have "free_set p' = free_set p - {a..b}" "pool_inv p'"
    using assms(1) unfolding p' free_set_update by (simp_all add: pool_inv_def free_set_def)
  with ab p' show ?thesis by simp
qed

text \<open>The clients hold exactly the values of the pool that are not free.\<close>

definition held_inv :: "int \<Rightarrow> int \<Rightarrow> LazyReusePool \<times> int set \<Rightarrow> bool" where
  "held_inv lo hi s \<longleftrightarrow> pool_inv (fst s) \<and> pool_first (fst s) = lo \<and> pool_last (fst s) = hi \<and>
     snd s = {lo..hi} - free_set (fst s)"

lemma held_inv_taken:
  "held_inv lo hi (p, H) \<longleftrightarrow> pool_inv p \<and> pool_first p = lo \<and> pool_last p = hi \<and> H = lrp.taken p"
  by (auto simp: held_inv_def lrp.taken_def)

lemma pool_step_held:
  assumes "pool_step s t" "held_inv lo hi s"
  shows "held_inv lo hi t"
  using assms
proof (induction rule: pool_step.induct)
  case (step_alloc p i p' H)
  then show ?case
    using Allocate_takes [of p i p'] lrp.alloc_taken [of p i p'] by (simp add: held_inv_taken)
next
  case (step_alloc_empty p i p' H)
  then show ?case using Allocate_fails [of p i p'] by simp
next
  case (step_use p v p' H)
  then show ?case
    using Use_takes [of p v p'] lrp.use_taken [of p v p'] by (simp add: held_inv_taken)
next
  case (step_use_fails p v p' H)
  then show ?case using Use_fails [of p v p'] by (simp add: held_inv_def)
next
  case (step_free v H p ok p')
  then show ?case
    using Free_taken [of p v ok p'] lrp.release_then_free [of p v ok p']
    by (simp add: held_inv_taken) (simp add: lrp.taken_def)
next
  case (step_reserve p a b p' H)
  then have p': "free_set p' = free_set p - {a..b}" "pool_inv p'" "pool_first p' = lo"
      "pool_last p' = hi" and H: "H = {lo..hi} - free_set p" and ab: "{a..b} \<subseteq> {lo..hi}"
    using Reserve_spec [of p a b p'] by (simp_all add: held_inv_def)
  from H ab have "H \<union> {a..b} = {lo..hi} - (free_set p - {a..b})" by blast
  with p' show ?case by (simp add: held_inv_def)
qed

lemma reachable_held: "pool_reachable lo hi s \<Longrightarrow> held_inv lo hi s"
proof (induction rule: pool_reachable.induct)
  case (start p)
  then have "pool_first p = lo" "pool_last p = hi" "free_set p = {lo..hi}"
    by (auto simp: NewLazyReusePool_def free_set_def seg_set_def split: if_splits)
  with start pool_inv_New show ?case by (simp add: held_inv_def)
next
  case (step s t)
  then show ?case by (blast intro: pool_step_held)
qed

text \<open>The steps with the held set given up to an equation, for building concrete runs.\<close>

lemma run_alloc: "pool_reachable lo hi (p, H) \<Longrightarrow> Allocate p = ((i, True), p') \<Longrightarrow> H' = insert i H \<Longrightarrow>
    pool_reachable lo hi (p', H')"
  by (auto intro: pool_reachable.step pool_step.step_alloc)

lemma run_use: "pool_reachable lo hi (p, H) \<Longrightarrow> Use p v = (True, p') \<Longrightarrow> H' = insert v H \<Longrightarrow>
    pool_reachable lo hi (p', H')"
  by (auto intro: pool_reachable.step pool_step.step_use)

lemma run_free: "pool_reachable lo hi (p, H) \<Longrightarrow> v \<in> H \<Longrightarrow> Free p v = (ok, p') \<Longrightarrow> H' = H - {v} \<Longrightarrow>
    pool_reachable lo hi (p', H')"
  by (auto intro: pool_reachable.step pool_step.step_free)

text \<open>A run of a pool of six values that ends with three segments, the one adjacent to the back
  of the head not next to it in the list.\<close>

definition mk_pool :: "int \<Rightarrow> int \<Rightarrow> (int \<times> int) list \<Rightarrow> int \<Rightarrow> LazyReusePool" where
  "mk_pool lo hi segs n = \<lparr>head = map (\<lambda>(a, b). \<lparr>seg_first = a, seg_last = b\<rparr>) segs,
     pool_first = lo, pool_last = hi, remain = n\<rparr>"

lemmas pool_eval = mk_pool_def NewLazyReusePool_def Allocate_def Use_def Free_def Let_def
  relativePosisionOf_def split_seg_def newSingleSegment_def

lemma example_run: "pool_reachable 1 6 (mk_pool 1 6 [(3, 5), (1, 1), (6, 6)] 5, {2})"
proof -
  have "pool_reachable 1 6 (mk_pool 1 6 [(1, 6)] 6, {})"
    by (rule pool_reachable.start) (simp add: pool_eval)
  then have "pool_reachable 1 6 (mk_pool 1 6 [(2, 6)] 5, {1})"
    by (rule run_alloc) (simp_all add: pool_eval)
  then have "pool_reachable 1 6 (mk_pool 1 6 [(3, 6)] 4, {1, 2})"
    by (rule run_alloc [where i = 2]) (auto simp: pool_eval)
  then have "pool_reachable 1 6 (mk_pool 1 6 [(3, 4), (6, 6)] 3, {1, 2, 5})"
    by (rule run_use [where v = 5]) (auto simp: pool_eval)
  then have "pool_reachable 1 6 (mk_pool 1 6 [(3, 4), (1, 1), (6, 6)] 4, {2, 5})"
    by (rule run_free [where v = 1 and ok = True]) (auto simp: pool_eval)
  then show ?thesis
    by (rule run_free [where v = 5 and ok = True]) (auto simp: pool_eval)
qed

fun allocs :: "nat \<Rightarrow> LazyReusePool \<Rightarrow> (int \<times> bool) list" where
  "allocs 0 p = []"
| "allocs (Suc n) p = (let (r, p') = Allocate p in r # allocs n p')"

section \<open>Properties\<close>

text \<open>
  C3. Exclusive allocation. In every state that clients reach from a fresh pool by \<open>Allocate\<close>,
  \<open>Use\<close>, \<open>Reserve\<close> and by freeing only what they hold, the held identifiers are exactly the
  non-free ones, \<open>Remain\<close> counts the rest, and whatever \<open>Allocate\<close> or \<open>Use\<close> hands out next is
  an identifier of the pool that nobody holds.
\<close>

theorem pool_exclusive:
  assumes "pool_reachable lo hi (p, H)"
  shows "H = {lo..hi} - free_set p \<and> Remain p = Total_pool p - int (card H) \<and>
    (\<forall>i p'. Allocate p = ((i, True), p') \<longrightarrow> i \<in> {lo..hi} - H) \<and>
    (\<forall>v p'. Use p v = (True, p') \<longrightarrow> v \<in> {lo..hi} - H)"
proof -
  from assms have inv: "pool_inv p" and lo: "pool_first p = lo" and hi: "pool_last p = hi"
      and H: "H = {lo..hi} - free_set p"
    using reachable_held [OF assms] by (simp_all add: held_inv_def)
  have sub: "free_set p \<subseteq> {lo..hi}" using lrp.free_subset [OF inv] lo hi by simp
  then have fin: "finite (free_set p)" by (rule finite_subset) simp
  have "card (free_set p) \<le> card {lo..hi}" using sub by (intro card_mono) simp
  moreover have "card H = card {lo..hi} - card (free_set p)"
    unfolding H using fin sub by (rule card_Diff_subset)
  ultimately have "Remain p = Total_pool p - int (card H)"
    using inv lo hi remain_card [OF inv] by (simp add: Remain_def Total_pool_def pool_inv_def)
  moreover have "i \<in> {lo..hi} - H" if "Allocate p = ((i, True), p')" for i p'
    using Allocate_takes [OF inv that] sub by (auto simp: H)
  moreover have "v \<in> {lo..hi} - H" if "Use p v = (True, p')" for v p'
    using Use_takes [OF inv that] sub by (auto simp: H)
  ultimately show ?thesis using H by simp
qed

theorem pool_exclusive_witness:
  "\<exists>p. pool_reachable 1 6 (p, {2}) \<and> {2} = {1..6} - free_set p \<and> Remain p = 5 \<and>
     fst (Allocate p) = (3, True) \<and> 3 \<in> {1..6} - {2::int}"
proof -
  let ?p = "mk_pool 1 6 [(3, 5), (1, 1), (6, 6)] 5"
  have al: "Allocate ?p = ((3, True), mk_pool 1 6 [(4, 5), (1, 1), (6, 6)] 4)"
    by (simp add: pool_eval)
  from pool_exclusive [OF example_run] have "Remain ?p = Total_pool ?p - int (card {2::int})"
    by (elim conjE)
  then have r: "Remain ?p = 5" by (simp add: Total_pool_def mk_pool_def)
  from pool_exclusive [OF example_run] have h: "{2} = {1..6} - free_set ?p" by (rule conjunct1)
  from pool_exclusive [OF example_run] al have "3 \<in> {1..6} - {2::int}" by blast
  with example_run h r show ?thesis by (intro exI [of _ ?p] conjI) (assumption | simp only: al fst_conv)+
qed

text \<open>
  Giving back a value. Freeing a value of the pool that is not free succeeds, frees that
  value and no other, keeps the segments well formed, and (the pool being lazy) does not change
  what the next \<open>Allocate\<close> hands out unless the pool was empty.
\<close>

theorem Free_returns:
  assumes "pool_inv p" "v \<in> {pool_first p .. pool_last p}" "v \<notin> free_set p"
  shows "fst (Free p v) \<and> pool_inv (snd (Free p v)) \<and> free_set (snd (Free p v)) = insert v (free_set p) \<and>
    Remain (snd (Free p v)) = Remain p + 1 \<and>
    (head p \<noteq> [] \<longrightarrow> fst (Allocate (snd (Free p v))) = fst (Allocate p))"
proof -
  obtain ok p' where fr: "Free p v = (ok, p')" by fastforce
  have *: "ok" "free_set p' = insert v (free_set p)" "pool_inv p'"
    using Free_taken [OF assms(1) _ _ assms(3) fr] assms(2) by auto
  moreover have "fst (Allocate p') = fst (Allocate p)" if "head p \<noteq> []"
  proof -
    obtain h rest where h: "head p = h # rest" using \<open>head p \<noteq> []\<close> by (cases "head p") auto
    then obtain s segs where "head p' = s # segs" "seg_first s = seg_first h"
      using fr *(1) by (cases rest)
        (auto simp: Free_def Let_def split: if_splits relativePos.splits option.splits)
    with h show ?thesis by (simp add: Allocate_def Let_def)
  qed
  moreover have "Remain p' = Remain p + 1"
    using fr *(1) by (auto simp: Free_def Remain_def
        split: if_splits relativePos.splits option.splits list.splits)
  ultimately show ?thesis using fr by simp
qed

theorem Free_returns_witness:
  "fst (Free (mk_pool 1 6 [(3, 5), (1, 1), (6, 6)] 5) 2) \<and>
   free_set (snd (Free (mk_pool 1 6 [(3, 5), (1, 1), (6, 6)] 5) 2))
     = insert 2 (free_set (mk_pool 1 6 [(3, 5), (1, 1), (6, 6)] 5))"
proof -
  have "held_inv 1 6 (mk_pool 1 6 [(3, 5), (1, 1), (6, 6)] 5, {2})"
    by (rule reachable_held [OF example_run])
  then have "pool_inv (mk_pool 1 6 [(3, 5), (1, 1), (6, 6)] 5)" by (simp add: held_inv_def)
  from Free_returns [OF this, of 2] show ?thesis by (simp add: mk_pool_def free_set_def)
qed

text \<open>
  Claiming a given value. \<open>Use\<close> succeeds exactly on the free values; it then takes that value
  alone, and it changes nothing when it fails.
\<close>

theorem Use_exact:
  assumes "pool_inv p"
  shows "(fst (Use p v) \<longleftrightarrow> v \<in> free_set p) \<and> pool_inv (snd (Use p v)) \<and>
    (if v \<in> free_set p then free_set (snd (Use p v)) = free_set p - {v} else snd (Use p v) = p)"
proof (cases "Use p v")
  case (Pair ok p')
  with Use_fails [OF assms, of v p'] Use_takes [OF assms, of v p'] assms show ?thesis
    by (cases ok) auto
qed

theorem Use_exact_witness:
  "fst (Use (mk_pool 1 6 [(1, 6)] 6) 4) \<longleftrightarrow> 4 \<in> free_set (mk_pool 1 6 [(1, 6)] 6)"
proof -
  have "pool_inv (mk_pool 1 6 [(1, 6)] 6)" by (simp add: pool_inv_def mk_pool_def)
  from Use_exact [OF this, of 4] show ?thesis by simp
qed

text \<open>
  Withdrawing a range. \<open>Reserve\<close> fails exactly when the range is not a range of the pool;
  otherwise every value of the range leaves the free values, all others stay, and \<open>Remain\<close> still
  counts the free values.
\<close>

theorem Reserve_exact:
  assumes "pool_inv p"
  shows "(Reserve p a b = None \<longleftrightarrow> \<not> (pool_first p \<le> a \<and> a \<le> b \<and> b \<le> pool_last p)) \<and>
    (\<forall>p'. Reserve p a b = Some p' \<longrightarrow> pool_inv p' \<and> free_set p' = free_set p - {a..b} \<and>
       Remain p' = int (card (free_set p - {a..b})))"
proof -
  have "Reserve p a b = None \<longleftrightarrow> \<not> (pool_first p \<le> a \<and> a \<le> b \<and> b \<le> pool_last p)"
    by (auto simp: Reserve_def Contains_def split: prod.splits)
  moreover have "pool_inv p' \<and> free_set p' = free_set p - {a..b} \<and>
      Remain p' = int (card (free_set p - {a..b}))" if "Reserve p a b = Some p'" for p'
    using Reserve_spec [OF assms that] remain_card [of p'] by (auto simp: Remain_def)
  ultimately show ?thesis by blast
qed

theorem Reserve_exact_witness:
  "\<exists>p'. Reserve (mk_pool 1 9 [(1, 9)] 9) 3 5 = Some p' \<and>
     free_set p' = free_set (mk_pool 1 9 [(1, 9)] 9) - {3..5}"
proof -
  have "pool_inv (mk_pool 1 9 [(1, 9)] 9)" by (simp add: pool_inv_def mk_pool_def)
  from Reserve_exact [OF this, of 3 5] show ?thesis by (auto simp: mk_pool_def)
qed

text \<open>
  A duplicated free is not always rejected. The source answers \<open>false\<close> to a free of a value
  that is already free ("duplecated free"), but only when it meets the value inside the head or
  on its way through the other segments. Here the clients of a pool \<open>1..6\<close> reach, by correct
  calls, a state in which 6 is free; \<open>Free 6\<close> still answers \<open>true\<close>, \<open>Remain\<close> then counts six free
  values although 2 is held, and six allocations hand out 6 twice.
\<close>

theorem duplicate_free_accepted:
  "\<exists>p p'. pool_reachable 1 6 (p, {2}) \<and> 6 \<in> free_set p \<and> Free p 6 = (True, p') \<and>
     Remain p' = 6 \<and> \<not> pool_inv p' \<and>
     allocs 6 p' = [(3, True), (4, True), (5, True), (6, True), (1, True), (6, True)]"
proof (intro exI conjI)
  show "pool_reachable 1 6 (mk_pool 1 6 [(3, 5), (1, 1), (6, 6)] 5, {2})" by (rule example_run)
  show "6 \<in> free_set (mk_pool 1 6 [(3, 5), (1, 1), (6, 6)] 5)" by (simp add: mk_pool_def free_set_def)
  show "Free (mk_pool 1 6 [(3, 5), (1, 1), (6, 6)] 5) 6
      = (True, mk_pool 1 6 [(3, 6), (1, 1), (6, 6)] 6)"
    by (simp add: pool_eval)
  show "\<not> pool_inv (mk_pool 1 6 [(3, 6), (1, 1), (6, 6)] 6)"
    by (simp add: pool_inv_def mk_pool_def)
  show "Remain (mk_pool 1 6 [(3, 6), (1, 1), (6, 6)] 6) = 6" by (simp add: Remain_def mk_pool_def)
  show "allocs 6 (mk_pool 1 6 [(3, 6), (1, 1), (6, 6)] 6)
      = [(3, True), (4, True), (5, True), (6, True), (1, True), (6, True)]"
    by (simp add: eval_nat_numeral pool_eval)
qed

end
