(* ===== verification/Go_Bytes.thy ===== *)
theory Go_Bytes
  imports Go_Prelude
begin

text \<open>
  The readers and writers of Go's \<open>encoding/binary\<close> on byte slices, and the shape of the
  decoding loops. A reader panics when the slice is shorter than the number it reads, as the
  bounds check in \<open>binary.BigEndian.Uint16\<close> does.
\<close>

section \<open>Fixed-width encodings\<close>

definition put16 :: "u16 \<Rightarrow> bytes" where
  "put16 w = [ucast (drop_bit 8 w), ucast w]"

text \<open>The wider writers emit the high half, then the low half; the readers join two halves.\<close>

definition put32 :: "u32 \<Rightarrow> bytes" where
  "put32 w = put16 (ucast (drop_bit 16 w)) @ put16 (ucast w)"

definition put64 :: "u64 \<Rightarrow> bytes" where
  "put64 w = put32 (ucast (drop_bit 32 w)) @ put32 (ucast w)"

definition be16 :: "u8 \<Rightarrow> u8 \<Rightarrow> u16" where
  "be16 a b = push_bit 8 (ucast a) OR ucast b"

definition be32 :: "u8 \<Rightarrow> u8 \<Rightarrow> u8 \<Rightarrow> u8 \<Rightarrow> u32" where
  "be32 a b c d = push_bit 16 (ucast (be16 a b)) OR ucast (be16 c d)"

definition be64 :: "u8 \<Rightarrow> u8 \<Rightarrow> u8 \<Rightarrow> u8 \<Rightarrow> u8 \<Rightarrow> u8 \<Rightarrow> u8 \<Rightarrow> u8 \<Rightarrow> u64" where
  "be64 a b c d e f g h = push_bit 32 (ucast (be32 a b c d)) OR ucast (be32 e f g h)"

definition get16 :: "slice \<Rightarrow> ('e, u16) outcome" where
  "get16 s = (case sdata s of a # b # _ \<Rightarrow> Ok (be16 a b) | _ \<Rightarrow> Panic)"

definition get32 :: "slice \<Rightarrow> ('e, u32) outcome" where
  "get32 s = (case sdata s of a # b # c # d # _ \<Rightarrow> Ok (be32 a b c d) | _ \<Rightarrow> Panic)"

definition get64 :: "slice \<Rightarrow> ('e, u64) outcome" where
  "get64 s = (case sdata s of a # b # c # d # e # f # g # h # _ \<Rightarrow> Ok (be64 a b c d e f g h)
              | _ \<Rightarrow> Panic)"

text \<open>\<open>binary.BigEndian.Uint16(s[i:i+2])\<close> and its wider versions: the slice expression may reach
  into the capacity, the read itself may not.\<close>

definition read16 :: "slice \<Rightarrow> nat \<Rightarrow> ('e, u16) outcome" where
  "read16 s i = obind (sub s i (i + 2)) get16"

definition read32 :: "slice \<Rightarrow> nat \<Rightarrow> ('e, u32) outcome" where
  "read32 s i = obind (sub s i (i + 4)) get32"

definition read64 :: "slice \<Rightarrow> nat \<Rightarrow> ('e, u64) outcome" where
  "read64 s i = obind (sub s i (i + 8)) get64"

text \<open>\<open>uint16(len(x))\<close> and \<open>uint8(len(x))\<close>: the length reduced to the width of the field.\<close>

definition len16 :: "bytes \<Rightarrow> u16" where
  "len16 xs = word_of_nat (length xs)"

definition len8 :: "'a list \<Rightarrow> u8" where
  "len8 xs = word_of_nat (length xs)"

lemma length_put [simp]: "length (put16 w) = 2" "length (put32 v) = 4" "length (put64 u) = 8"
  by (simp_all add: put16_def put32_def put64_def)

lemma join_split16: "push_bit 8 (ucast (ucast (drop_bit 8 w) :: u8)) OR ucast (ucast w :: u8) = (w :: u16)"
  by (rule bit_word_eqI) (auto simp: bit_simps)

lemma join_split32: "push_bit 16 (ucast (ucast (drop_bit 16 w) :: u16)) OR ucast (ucast w :: u16) = (w :: u32)"
  by (rule bit_word_eqI) (auto simp: bit_simps)

lemma join_split64: "push_bit 32 (ucast (ucast (drop_bit 32 w) :: u32)) OR ucast (ucast w :: u32) = (w :: u64)"
  by (rule bit_word_eqI) (auto simp: bit_simps)

lemma high_join16: "ucast (drop_bit 8 (push_bit 8 (ucast a) OR ucast b :: u16)) = (a :: u8)" for b :: u8
  by (rule bit_word_eqI) (auto simp: bit_simps dest: bit_imp_le_length)

lemma low_join16: "ucast (push_bit 8 (ucast a) OR ucast b :: u16) = (b :: u8)" for a :: u8
  by (rule bit_word_eqI) (auto simp: bit_simps)

lemma high_join32: "ucast (drop_bit 16 (push_bit 16 (ucast a) OR ucast b :: u32)) = (a :: u16)" for b :: u16
  by (rule bit_word_eqI) (auto simp: bit_simps dest: bit_imp_le_length)

lemma low_join32: "ucast (push_bit 16 (ucast a) OR ucast b :: u32) = (b :: u16)" for a :: u16
  by (rule bit_word_eqI) (auto simp: bit_simps)

lemma be16_put16 [simp]: "be16 (ucast (drop_bit 8 w)) (ucast w) = w"
  by (simp add: be16_def join_split16)

lemma put16_be16 [simp]: "put16 (be16 a b) = [a, b]"
  by (simp only: put16_def be16_def high_join16 low_join16)

lemma put32_be32 [simp]: "put32 (be32 a b c d) = [a, b, c, d]"
  by (simp only: put32_def be32_def high_join32 low_join32 put16_be16 append.simps)

lemma get16_put16 [simp]: "get16 (Slice (put16 w @ rest) sp) = Ok w"
  by (simp add: get16_def put16_def)

lemma get32_put32 [simp]: "get32 (Slice (put32 w @ rest) sp) = Ok w"
  by (simp add: get32_def put32_def put16_def be32_def be16_def join_split16 join_split32)

lemma get64_put64 [simp]: "get64 (Slice (put64 w @ rest) sp) = Ok w"
  by (simp add: get64_def put64_def put32_def put16_def be64_def be32_def be16_def join_split16 join_split32 join_split64)

lemma get16_put16' [simp]: "get16 (Slice (put16 w) sp) = Ok w"
  by (simp add: get16_def put16_def)

lemma get32_put32' [simp]: "get32 (Slice (put32 w) sp) = Ok w"
  by (simp add: get32_def put32_def put16_def be32_def be16_def join_split16 join_split32)

lemma get64_put64' [simp]: "get64 (Slice (put64 w) sp) = Ok w"
  by (simp add: get64_def put64_def put32_def put16_def be64_def be32_def be16_def join_split16 join_split32 join_split64)

lemma get16_Panic_iff: "get16 s = Panic \<longleftrightarrow> slen s < 2"
  by (cases s) (auto simp: get16_def split: list.splits)

lemma get32_Panic_iff: "get32 s = Panic \<longleftrightarrow> slen s < 4"
  by (cases s) (auto simp: get32_def split: list.splits)

lemma get64_Panic_iff: "get64 s = Panic \<longleftrightarrow> slen s < 8"
  by (cases s) (auto simp: get64_def split: list.splits)

lemma get16_not_Err [simp]: "get16 s \<noteq> Err e"
  by (auto simp: get16_def split: list.splits)

lemma get32_not_Err [simp]: "get32 s \<noteq> Err e"
  by (auto simp: get32_def split: list.splits)

lemma get64_not_Err [simp]: "get64 s \<noteq> Err e"
  by (auto simp: get64_def split: list.splits)

lemma read_Panic_iff:
  "read16 s i = Panic \<longleftrightarrow> slen s + length (sspare s) < i + 2"
  "read32 s i = Panic \<longleftrightarrow> slen s + length (sspare s) < i + 4"
  "read64 s i = Panic \<longleftrightarrow> slen s + length (sspare s) < i + 8"
  by (auto simp: read16_def read32_def read64_def go_simps sub_Panic_iff get16_Panic_iff
      get32_Panic_iff get64_Panic_iff dest: slen_sub)

lemma read_not_Err [simp]: "read16 s i \<noteq> Err e" "read32 s i \<noteq> Err e" "read64 s i \<noteq> Err e"
  by (simp_all add: read16_def read32_def read64_def go_simps)

text \<open>Reading back a field that stands at its offset.\<close>

lemma read16_field: "length pre = i \<Longrightarrow> read16 (Slice (pre @ put16 w @ rest) sp) i = Ok w"
  by (simp add: read16_def sub_in_bounds)

lemma read32_field: "length pre = i \<Longrightarrow> read32 (Slice (pre @ put32 w @ rest) sp) i = Ok w"
  by (simp add: read32_def sub_in_bounds)

lemma read64_field: "length pre = i \<Longrightarrow> read64 (Slice (pre @ put64 w @ rest) sp) i = Ok w"
  by (simp add: read64_def sub_in_bounds)

lemma unat_len16 [simp]: "length xs < 65536 \<Longrightarrow> unat (len16 xs) = length xs"
  by (simp add: len16_def unat_of_nat)

lemma unat_len8 [simp]: "length xs < 256 \<Longrightarrow> unat (len8 xs) = length xs"
  by (simp add: len8_def unat_of_nat)

lemma unat_u16: "n < 65536 \<Longrightarrow> unat (word_of_nat n :: u16) = n"
  by (simp add: unat_of_nat)

lemma unat_u8: "n < 256 \<Longrightarrow> unat (word_of_nat n :: u8) = n"
  by (simp add: unat_of_nat)

lemma unat_u32: "n < 4294967296 \<Longrightarrow> unat (word_of_nat n :: u32) = n"
  by (simp add: unat_of_nat)

lemma unat_u8_less: "unat (w :: u8) < 256"
  using unsigned_less [of w] by simp

lemma unat_u16_less: "unat (w :: u16) < 65536"
  using unsigned_less [of w] by simp

text \<open>Symbolic evaluation of readers on a buffer whose header bytes are written out.\<close>

lemmas slice_eval = sub_in_bounds sub_from_in_bounds at_in_bounds read16_def get16_def put16_def

lemma drop_header:
  "drop (numeral k + n) xs = drop n (drop (numeral k) xs)"
  "drop (n + numeral k) xs = drop n (drop (numeral k) xs)"
  by (simp_all add: add.commute)

text \<open>When a reader can panic.\<close>

lemmas panic_iffs = sub_Panic_iff sub_from_Panic_iff at_Panic_iff read_Panic_iff

section \<open>Bit fields\<close>

lemma bit_less_exp:
  fixes w :: "'a::len word"
  assumes "w < 2 ^ k" "k < LENGTH('a)" "bit w m"
  shows "m < k"
proof -
  from assms(1,2) have "take_bit k w = w" by (simp add: less_mask_eq take_bit_eq_mask)
  with assms(3) show ?thesis by (metis bit_take_bit_iff)
qed

lemma and_low_bits:
  "w AND 1 = take_bit 1 w" "w AND 31 = take_bit 5 w" "w AND 63 = take_bit 6 w" "w AND 127 = take_bit 7 w" for w :: "'a::len word"
  by (simp_all add: take_bit_eq_mask mask_eq_exp_minus_1)

lemma bit_octet: "bit (32 :: int) m \<longleftrightarrow> m = 5" "bit (128 :: int) m \<longleftrightarrow> m = 7"
  using bit_exp_iff [where 'a = int, of 5 m] bit_exp_iff [where 'a = int, of 7 m] by auto

lemma and_octet_bit: "w AND 32 = 0 \<longleftrightarrow> \<not> bit w 5" "w AND 128 = 0 \<longleftrightarrow> \<not> bit w 7" for w :: u8
proof -
  show "w AND 32 = 0 \<longleftrightarrow> \<not> bit w 5"
    unfolding bit_eq_iff [of "w AND 32" 0] by (auto simp: bit_and_iff bit_octet elim!: allE [of _ 5])
  show "w AND 128 = 0 \<longleftrightarrow> \<not> bit w 7"
    unfolding bit_eq_iff [of "w AND 128" 0] by (auto simp: bit_and_iff bit_octet elim!: allE [of _ 7])
qed

section \<open>Decoding loops\<close>

text \<open>
  The decoders of the sources are loops \<open>for len(raw) > 0 { ... raw = raw[n:] }\<close>. A loop has a
  state (what has been decoded so far, and for the IKE payload chain the type of the next
  payload); its body either fails or hands on a new state and a shorter slice. The locale
  states that contract; the lemmas are proved once for every loop of the codecs.
\<close>

locale slice_loop =
  fixes step :: "'st \<Rightarrow> slice \<Rightarrow> ('e, 'st \<times> slice) outcome"
    and loop :: "'st \<Rightarrow> slice \<Rightarrow> ('e, 'st) outcome"
  assumes loop_unfold: "loop st s =
      (if slen s = 0 then Ok st else obind (step st s) (\<lambda>(st', s'). loop st' s'))"
    and step_shrinks: "step st s = Ok (st', s') \<Longrightarrow> 0 < slen s \<Longrightarrow> slen s' < slen s"
begin

lemma loop_Nil: "loop st (Slice [] sp) = Ok st"
  by (subst loop_unfold) simp

lemma loop_step:
  "b \<noteq> [] \<Longrightarrow> step st (Slice (b @ rest) sp) = Ok (st', Slice rest sp) \<Longrightarrow>
   loop st (Slice (b @ rest) sp) = loop st' (Slice rest sp)"
  by (subst loop_unfold) simp

text \<open>Decoding a concatenation of encodings folds the decoded items into the state.\<close>

lemma loop_concat:
  assumes "\<And>x st rest. x \<in> set xs \<Longrightarrow>
      enc x \<noteq> [] \<and> step st (Slice (enc x @ rest) sp) = Ok (upd x st, Slice rest sp)"
  shows "loop st (Slice (concat (map enc xs)) sp) = Ok (fold upd xs st)"
  using assms
proof (induction xs arbitrary: st)
  case Nil
  then show ?case by (simp add: loop_Nil)
next
  case (Cons x xs)
  then have "loop st (Slice (enc x @ concat (map enc xs)) sp)
      = loop (upd x st) (Slice (concat (map enc xs)) sp)"
    by (intro loop_step) auto
  with Cons show ?case by simp
qed

text \<open>A loop whose body never panics never panics, whatever the input.\<close>

lemma loop_no_panic:
  assumes "\<And>st s. 0 < slen s \<Longrightarrow> step st s \<noteq> Panic"
  shows "loop st s \<noteq> Panic"
proof (induction "slen s" arbitrary: st s rule: less_induct)
  case less
  then show ?case
    using assms by (subst loop_unfold) (auto simp: go_simps dest: step_shrinks)
qed

text \<open>A property of the state that every successful iteration keeps holds at the end.\<close>

lemma loop_invariant:
  assumes "loop st s = Ok st'" and "P st"
    and "\<And>st s st' s'. P st \<Longrightarrow> step st s = Ok (st', s') \<Longrightarrow> P st'"
  shows "P st'"
  using assms(1,2)
proof (induction "slen s" arbitrary: st s rule: less_induct)
  case less
  show ?case
  proof (cases "slen s = 0")
    case True
    with less.prems show ?thesis by (subst (asm) loop_unfold) simp
  next
    case False
    with less.prems(1) obtain st1 s1 where st1: "step st s = Ok (st1, s1)" "loop st1 s1 = Ok st'"
      by (subst (asm) loop_unfold) (auto simp: go_simps)
    moreover from st1 less.prems(2) have "P st1" by (blast intro: assms(3))
    moreover from st1 False have "slen s1 < slen s" by (simp add: step_shrinks)
    ultimately show ?thesis using less.hyps by blast
  qed
qed

end

end
