(* ===== verification/Go_Net.thy ===== *)
theory Go_Net
  imports Go_Prelude
begin

text \<open>
  What the components use of Go's \<^verbatim>\<open>net\<close> package: networks, masks and the test whether a network contains an
  address. A \<open>net.IP\<close> is its bytes, four or sixteen of them. The parsers of addresses and prefixes are the
  fields of \<open>net_api\<close>.
\<close>

record IPNet =
  net_IP :: bytes
  net_Mask :: bytes

record net_api =
  net_ParseCIDR :: "string \<Rightarrow> IPNet option"
  net_ParseIP :: "string \<Rightarrow> bytes option"

text \<open>\<open>net.CIDRMask(ones, bits)\<close> for a number of bits that is a multiple of eight.\<close>

definition CIDRMask :: "nat \<Rightarrow> nat \<Rightarrow> bytes" where
  "CIDRMask ones bits =
     map (\<lambda>i. if 8 * (i + 1) \<le> ones then 255 else if 8 * i < ones then NOT (mask (8 - (ones - 8 * i))) else 0)
       [0 ..< bits div 8]"

definition IPv6zero :: bytes where
  "IPv6zero = replicate 16 0"

text \<open>\<open>ip.To4()\<close>: four octets, or sixteen with the prefix of a mapped IPv4 address.\<close>

definition To4 :: "bytes \<Rightarrow> bytes option" where
  "To4 ip =
     (if length ip = 4 then Some ip
      else if length ip = 16 \<and> take 12 ip = replicate 10 0 @ [255, 255] then Some (drop 12 ip)
      else None)"

text \<open>\<open>networkNumberAndMask\<close> of the package, \<open>None\<close> when the lengths do not fit.\<close>

definition networkNumberAndMask :: "IPNet \<Rightarrow> (bytes \<times> bytes) option" where
  "networkNumberAndMask n =
     (case (case To4 (net_IP n) of Some v4 \<Rightarrow> Some v4 | None \<Rightarrow> if length (net_IP n) = 16 then Some (net_IP n) else None) of
        None \<Rightarrow> None
      | Some ip \<Rightarrow>
          if length (net_Mask n) = length ip then Some (ip, net_Mask n)
          else if length (net_Mask n) = 16 \<and> length ip = 4 then Some (ip, drop 12 (net_Mask n))
          else None)"

definition IPNet_Contains :: "IPNet \<Rightarrow> bytes \<Rightarrow> bool" where
  "IPNet_Contains n addr =
     (let addr = (case To4 addr of Some v4 \<Rightarrow> v4 | None \<Rightarrow> addr) in
      case networkNumberAndMask n of
        None \<Rightarrow> addr = []
      | Some (nn, m) \<Rightarrow>
          length addr = length nn \<and> map2 (AND) nn m = map2 (AND) addr m)"

lemma To4_4 [simp]: "length ip = 4 \<Longrightarrow> To4 ip = Some ip"
  by (simp add: To4_def)

lemma IPNet_Contains_v4:
  "length (net_IP n) = 4 \<Longrightarrow> length (net_Mask n) = 4 \<Longrightarrow> length addr = 4 \<Longrightarrow>
   IPNet_Contains n addr \<longleftrightarrow> map2 (AND) (net_IP n) (net_Mask n) = map2 (AND) addr (net_Mask n)"
  by (simp add: IPNet_Contains_def networkNumberAndMask_def)

end
