(* ===== verification/Smf_UeIPPool.thy ===== *)
theory Smf_UeIPPool
  imports Smf_Pool Go_Bytes Go_Net
begin

text \<open>
  The SMF's pool of UE IPv4 addresses (\<^verbatim>\<open>NFs/smf/internal/context/ue_ip_pool.go\<close>): addresses
  as byte slices in front of a \<^verbatim>\<open>LazyReusePool\<close> of their 32-bit values. \<open>net.ParseCIDR\<close> is the
  argument \<open>parseCIDR\<close>; a \<open>net.IP\<close> is its bytes (\<open>None\<close> is \<open>nil\<close>). A \<open>uint32\<close> converted to Go's
  64-bit \<open>int\<close> is its unsigned value.
\<close>

record UeIPPool =
  ueSubNet :: IPNet
  pool :: LazyReusePool

datatype ueip_error = MaskInvalid | ReserveOutOfRange

definition uint32ToIP :: "u32 \<Rightarrow> bytes" where
  "uint32ToIP intval = put32 intval"

definition calcAddrRange :: "IPNet \<Rightarrow> (ueip_error, u32 \<times> u32) outcome" where
  "calcAddrRange ipNet =
     obind (get32 (Slice (net_Mask ipNet) [])) (\<lambda>maskVal.
     obind (get32 (Slice (net_IP ipNet) [])) (\<lambda>baseIPVal.
       let minAddr = baseIPVal AND maskVal; maxAddr = baseIPVal OR NOT maskVal
       in if minAddr > maxAddr then Err MaskInvalid else Ok (minAddr, maxAddr)))"

text \<open>\<open>None\<close> is the nil pool that every failed step returns after logging.\<close>

definition NewUEIPPool :: "(string \<Rightarrow> IPNet option) \<Rightarrow> string \<Rightarrow> (ueip_error, UeIPPool option) outcome" where
  "NewUEIPPool parseCIDR cidr =
     (case parseCIDR cidr of
        None \<Rightarrow> Ok None
      | Some ipNet \<Rightarrow>
          (case calcAddrRange ipNet of
             Panic \<Rightarrow> Panic
           | Err e \<Rightarrow> Ok None
           | Ok (minAddr, maxAddr) \<Rightarrow>
               (case NewLazyReusePool (uint minAddr) (uint maxAddr) of
                  None \<Rightarrow> Ok None
                | Some newPool \<Rightarrow> Ok (Some \<lparr>ueSubNet = ipNet, pool = newPool\<rparr>))))"

definition UeIP_Allocate :: "UeIPPool \<Rightarrow> bytes option \<Rightarrow> (ueip_error, bytes option \<times> UeIPPool) outcome" where
  "UeIP_Allocate u request =
     (case request of
        Some req \<Rightarrow>
          obind (get32 (Slice req [])) (\<lambda>w.
            let allocVal = uint w; (ok, p') = Use (pool u) allocVal
            in if \<not> ok then Ok (None, u\<lparr>pool := p'\<rparr>)
               else Ok (Some (uint32ToIP (word_of_int allocVal)), u\<lparr>pool := p'\<rparr>))
      | None \<Rightarrow>
          (let ((allocVal, ok), p') = Allocate (pool u)
           in if \<not> ok then Ok (None, u\<lparr>pool := p'\<rparr>)
              else Ok (Some (uint32ToIP (word_of_int allocVal)), u\<lparr>pool := p'\<rparr>)))"

definition UeIP_Exclude :: "UeIPPool \<Rightarrow> UeIPPool \<Rightarrow> (ueip_error, UeIPPool) outcome" where
  "UeIP_Exclude u excludePool =
     (case Reserve (pool u) (Min_pool (pool excludePool)) (Max_pool (pool excludePool)) of
        None \<Rightarrow> Err ReserveOutOfRange
      | Some p' \<Rightarrow> Ok (u\<lparr>pool := p'\<rparr>))"

definition UeIP_Release :: "UeIPPool \<Rightarrow> bytes \<Rightarrow> (ueip_error, UeIPPool) outcome" where
  "UeIP_Release u addr =
     obind (get32 (Slice addr [])) (\<lambda>addrVal.
       let (res, p') = Free (pool u) (uint addrVal) in Ok (u\<lparr>pool := p'\<rparr>))"

fun overlap_row :: "UeIPPool \<Rightarrow> UeIPPool list \<Rightarrow> bool" where
  "overlap_row u [] = False"
| "overlap_row u (v # vs) = (IsJoint (pool u) (pool v) \<or> overlap_row u vs)"

text \<open>The double loop over \<open>i < j\<close>; a list of fewer than two pools has no pair.\<close>

fun isOverlap :: "UeIPPool list \<Rightarrow> bool" where
  "isOverlap [] = False"
| "isOverlap (u # us) = (overlap_row u us \<or> isOverlap us)"

section \<open>Invariant and address arithmetic\<close>

text \<open>The pool's values are 32-bit addresses.\<close>

definition ueip_inv :: "UeIPPool \<Rightarrow> bool" where
  "ueip_inv u \<longleftrightarrow> pool_inv (pool u) \<and> 0 \<le> pool_first (pool u) \<and> pool_last (pool u) < 2 ^ 32"

definition addr_val :: "bytes \<Rightarrow> int" where
  "addr_val addr = (case get32 (Slice addr []) :: (unit, u32) outcome of Ok w \<Rightarrow> uint w | _ \<Rightarrow> -1)"

lemma get32_uint32ToIP [simp]: "get32 (Slice (uint32ToIP w) sp) = Ok w"
  by (simp add: uint32ToIP_def)

lemma addr_val_uint32ToIP [simp]: "addr_val (uint32ToIP w) = uint w"
  by (simp add: addr_val_def)

lemma length_uint32ToIP [simp]: "length (uint32ToIP w) = 4"
  by (simp add: uint32ToIP_def)

lemma uint_of_free:
  assumes "ueip_inv u" "v \<in> free_set (pool u)"
  shows "uint (word_of_int v :: u32) = v"
proof -
  have "0 \<le> v" "v < 2 ^ 32"
    using assms free_set_range [of "pool u" v] by (auto simp: ueip_inv_def)
  then show ?thesis by (simp add: uint_word_of_int)
qed

text \<open>What a successful grant has to do, whichever way it was asked for.\<close>

definition grants :: "UeIPPool \<Rightarrow> bytes \<Rightarrow> UeIPPool \<Rightarrow> bool" where
  "grants u addr u' \<longleftrightarrow> length addr = 4 \<and> addr_val addr \<in> free_set (pool u) \<and>
     free_set (pool u') = free_set (pool u) - {addr_val addr} \<and> ueip_inv u'"

lemma grantsI:
  assumes "ueip_inv u" "v \<in> free_set (pool u)"
    and "free_set p' = free_set (pool u) - {v}" "pool_inv p'"
    and "pool_first p' = pool_first (pool u)" "pool_last p' = pool_last (pool u)"
  shows "grants u (uint32ToIP (word_of_int v)) (u\<lparr>pool := p'\<rparr>)"
  using assms uint_of_free [OF assms(1,2)] by (simp add: grants_def ueip_inv_def)

lemma UeIP_Allocate_grants:
  assumes "ueip_inv u" "UeIP_Allocate u request = Ok (Some addr, u')"
  shows "grants u addr u'"
proof (cases request)
  case None
  with assms(2) obtain v p' where "Allocate (pool u) = ((v, True), p')"
      "addr = uint32ToIP (word_of_int v)" "u' = u\<lparr>pool := p'\<rparr>"
    by (auto simp: UeIP_Allocate_def split: prod.splits if_splits)
  with assms(1) Allocate_takes [of "pool u" v p'] grantsI [OF assms(1), of v p'] show ?thesis
    by (simp add: ueip_inv_def)
next
  case (Some req)
  with assms(2) obtain w where w: "get32 (Slice req []) = (Ok w :: (ueip_error, u32) outcome)"
    by (auto simp: UeIP_Allocate_def go_simps)
  obtain ok p' where "Use (pool u) (uint w) = (ok, p')" by fastforce
  with assms(2) Some w have "Use (pool u) (uint w) = (True, p')"
      "addr = uint32ToIP (word_of_int (uint w))" "u' = u\<lparr>pool := p'\<rparr>"
    by (auto simp: UeIP_Allocate_def split: if_splits)
  with assms(1) Use_takes [of "pool u" "uint w" p'] grantsI [OF assms(1), of "uint w" p']
  show ?thesis by (simp add: ueip_inv_def)
qed

text \<open>Releasing the granted address restores the free addresses.\<close>

lemma UeIP_Release_granted:
  assumes "ueip_inv u" "grants u addr u'" "pool_first (pool u') = pool_first (pool u)"
    "pool_last (pool u') = pool_last (pool u)"
  shows "\<exists>u''. UeIP_Release u' addr = Ok u'' \<and> free_set (pool u'') = free_set (pool u) \<and> ueip_inv u''"
proof -
  from assms(2) obtain w :: u32 where w: "get32 (Slice addr []) = (Ok w :: (ueip_error, u32) outcome)"
      and v: "addr_val addr = uint w"
    by (cases addr rule: remdups_adj.cases) (auto simp: grants_def addr_val_def get32_def split: list.splits)
  obtain ok p' where fr: "Free (pool u') (uint w) = (ok, p')" by fastforce
  have inv: "pool_inv (pool u')" and "uint w \<in> free_set (pool u)" "uint w \<notin> free_set (pool u')"
      and free: "free_set (pool u') = free_set (pool u) - {uint w}"
    using assms(2) v by (auto simp: grants_def ueip_inv_def)
  moreover from this(2) have "uint w \<in> {pool_first (pool u') .. pool_last (pool u')}"
    using assms free_set_range [of "pool u" "uint w"] by (auto simp: ueip_inv_def)
  ultimately have "free_set p' = free_set (pool u) \<and> pool_inv p' \<and>
      pool_first p' = pool_first (pool u') \<and> pool_last p' = pool_last (pool u')"
    using Free_taken [OF inv _ _ _ fr] by auto
  with assms(1,3,4) w fr show ?thesis by (simp add: UeIP_Release_def ueip_inv_def)
qed

lemma overlap_row_iff:
  "overlap_row u us \<longleftrightarrow> (\<exists>v \<in> set us. IsJoint (pool u) (pool v))"
  by (induction us) auto

lemma IsJoint_iff:
  "pool_first p \<le> pool_last p \<Longrightarrow> pool_first q \<le> pool_last q \<Longrightarrow>
   IsJoint p q \<longleftrightarrow> {pool_first p .. pool_last p} \<inter> {pool_first q .. pool_last q} \<noteq> {}"
  by (auto simp: IsJoint_def)

lemma isOverlap_pairs:
  "isOverlap vs \<longleftrightarrow> (\<exists>i j. i < j \<and> j < length vs \<and> IsJoint (pool (vs ! i)) (pool (vs ! j)))"
proof (induction vs)
  case (Cons v vs)
  show ?case (is "_ = ?R")
  proof
    assume "isOverlap (v # vs)"
    then consider j where "j < length vs" "IsJoint (pool v) (pool (vs ! j))"
      | i j where "i < j" "j < length vs" "IsJoint (pool (vs ! i)) (pool (vs ! j))"
      using Cons.IH by (auto simp: overlap_row_iff in_set_conv_nth)
    then show ?R
    proof cases
      case (1 j)
      then show ?thesis by (intro exI [of _ 0] exI [of _ "Suc j"]) simp
    next
      case (2 i j)
      then show ?thesis by (intro exI [of _ "Suc i"] exI [of _ "Suc j"]) simp
    qed
  next
    assume ?R
    then obtain i j where "i < j" "j < Suc (length vs)" "IsJoint (pool ((v # vs) ! i)) (pool ((v # vs) ! j))"
      by auto
    then show "isOverlap (v # vs)"
      using Cons.IH by (cases i; cases j) (auto simp: overlap_row_iff)
  qed
qed simp

lemma word_and_le_or: "(b AND m) \<le> (b OR NOT m)" for b m :: "'a::len word"
proof -
  have "b AND m = (b AND m) AND (b OR NOT m)"
    by (rule bit_word_eqI) (auto simp: bit_simps)
  then show ?thesis by (metis word_and_le1)
qed

lemma drop_bit_word_mono: "a \<le> b \<Longrightarrow> drop_bit k a \<le> drop_bit k b" for a b :: "'a::len word"
  by (simp only: word_le_def unsigned_drop_bit_eq) (simp add: drop_bit_eq_div zdiv_mono1 take_bit_int_eq_self)

lemma drop_bit_prefix:
  "drop_bit k (a AND NOT (mask k)) = drop_bit k a" "drop_bit k (a OR mask k) = drop_bit k a"
  for a :: "'a::len word"
  by (auto simp: bit_simps dest: bit_imp_le_length intro!: bit_word_eqI simp del: drop_bit_and drop_bit_or)

lemma and_not_mask_eq_iff:
  "a AND NOT (mask k) = b AND NOT (mask k) \<longleftrightarrow> drop_bit k a = drop_bit k b" for a b :: "'a::len word"
proof
  assume "a AND NOT (mask k) = b AND NOT (mask k)"
  then show "drop_bit k a = drop_bit k b" by (metis drop_bit_prefix(1))
next
  assume eq: "drop_bit k a = drop_bit k b"
  have "x AND NOT (mask k) = push_bit k (drop_bit k x)" for x :: "'a word"
    by (rule bit_word_eqI) (auto simp: bit_simps)
  with eq show "a AND NOT (mask k) = b AND NOT (mask k)" by metis
qed

text \<open>For a prefix mask the range from the network address to the broadcast address is the
  subnet: the addresses with the same prefix.\<close>

lemma subnet_range:
  fixes a b :: u32
  assumes "m = NOT (mask k)"
  shows "(b AND m) \<le> a \<and> a \<le> (b OR NOT m) \<longleftrightarrow> a AND m = b AND m"
proof
  assume r: "(b AND m) \<le> a \<and> a \<le> (b OR NOT m)"
  have lo: "drop_bit k (b AND m) = drop_bit k b" and hi: "drop_bit k (b OR NOT m) = drop_bit k b"
    unfolding assms bit.double_compl by (rule drop_bit_prefix)+
  have "drop_bit k (b AND m) \<le> drop_bit k a" "drop_bit k a \<le> drop_bit k (b OR NOT m)"
    using r by (simp_all only: drop_bit_word_mono)
  then have "drop_bit k a = drop_bit k b" unfolding lo hi by (rule order_antisym [rotated])
  then show "a AND m = b AND m" unfolding assms and_not_mask_eq_iff .
next
  assume eq: "a AND m = b AND m"
  have "b OR NOT m = (b AND m) OR NOT m" "a OR NOT m = (a AND m) OR NOT m"
    by (rule bit_word_eqI, auto simp: bit_simps)+
  with eq have "b OR NOT m = a OR NOT m" by simp
  moreover have "a \<le> a OR NOT m" by (rule le_word_or2)
  moreover have "b AND m \<le> a" using eq by (metis word_and_le2)
  ultimately show "(b AND m) \<le> a \<and> a \<le> (b OR NOT m)" by simp
qed

lemma get32_4: "length d = 4 \<Longrightarrow> \<exists>w. get32 (Slice d sp) = (Ok w :: ('e, u32) outcome)"
  by (cases "get32 (Slice d sp) :: ('e, u32) outcome") (auto simp: get32_Panic_iff)

lemma calcAddrRange_Ok:
  assumes "get32 (Slice (net_Mask n) []) = (Ok m :: (ueip_error, u32) outcome)"
    "get32 (Slice (net_IP n) []) = (Ok b :: (ueip_error, u32) outcome)"
  shows "calcAddrRange n = Ok (b AND m, b OR NOT m)"
  using assms word_and_le_or [of b m] by (simp add: calcAddrRange_def Let_def not_less)

lemma NewUEIPPool_Ok:
  assumes "parseCIDR c = Some n" "get32 (Slice (net_Mask n) []) = (Ok m :: (ueip_error, u32) outcome)"
    "get32 (Slice (net_IP n) []) = (Ok b :: (ueip_error, u32) outcome)"
  shows "\<exists>u. NewUEIPPool parseCIDR c = Ok (Some u) \<and> ueip_inv u \<and>
    free_set (pool u) = {uint (b AND m) .. uint (b OR NOT m)}"
proof -
  have le: "uint (b AND m) \<le> uint (b OR NOT m)"
    using word_and_le_or [of b m] by (simp add: word_le_def)
  have "uint (b OR NOT m) < 2 ^ 32" using uint_lt2p [of "b OR NOT m"] by simp
  with le assms show ?thesis
    by (auto simp: NewUEIPPool_def calcAddrRange_Ok [OF assms(2,3)] NewLazyReusePool_def
        ueip_inv_def pool_inv_def free_set_def seg_set_def simp del: uint_lt2p)
qed

section \<open>Properties\<close>

text \<open>
  A granted UE address. Whether it was requested or drawn, an address that \<open>Allocate\<close>
  returns is a 4-byte address of the pool that was free, and it alone leaves the free
  addresses; releasing it makes the same addresses free again as before.
\<close>

theorem ue_address_roundtrip:
  assumes "ueip_inv u" "UeIP_Allocate u request = Ok (Some addr, u')"
  shows "length addr = 4 \<and> addr_val addr \<in> free_set (pool u) \<and>
    free_set (pool u') = free_set (pool u) - {addr_val addr} \<and>
    (\<exists>u''. UeIP_Release u' addr = Ok u'' \<and> free_set (pool u'') = free_set (pool u) \<and> ueip_inv u'')"
proof -
  have g: "grants u addr u'" by (rule UeIP_Allocate_grants [OF assms])
  have "pool_first (pool u') = pool_first (pool u) \<and> pool_last (pool u') = pool_last (pool u)"
    using assms(2) by (auto simp: UeIP_Allocate_def Allocate_def Use_def Let_def go_simps
        split: option.splits if_splits list.splits)
  with g UeIP_Release_granted [OF assms(1) g] show ?thesis by (simp add: grants_def)
qed

text \<open>The pool of 10.60.0.0/30, drawn from once.\<close>

definition example_uepool :: UeIPPool where
  "example_uepool = \<lparr>ueSubNet = \<lparr>net_IP = [10, 60, 0, 0], net_Mask = [255, 255, 255, 252]\<rparr>,
     pool = mk_pool 171704320 171704323 [(171704320, 171704323)] 4\<rparr>"

theorem ue_address_roundtrip_witness:
  "\<exists>u'. UeIP_Allocate example_uepool None = Ok (Some [10, 60, 0, 0], u') \<and>
     addr_val [10, 60, 0, 0] \<in> free_set (pool example_uepool)"
proof -
  have inv: "ueip_inv example_uepool"
    by (simp add: ueip_inv_def pool_inv_def example_uepool_def mk_pool_def)
  have al: "\<exists>u'. UeIP_Allocate example_uepool None = Ok (Some [10, 60, 0, 0], u')"
    by (simp add: UeIP_Allocate_def Allocate_def example_uepool_def mk_pool_def uint32ToIP_def
        put32_def put16_def)
  with ue_address_roundtrip [OF inv] show ?thesis by blast
qed

text \<open>
  The configured subnet. Building a pool from a CIDR whose address and mask are four bytes
  long never fails and never panics (the "mask is invalid" branch is unreachable), and when the
  mask is a prefix mask the free addresses of the new pool are exactly the addresses of the
  subnet.
\<close>

theorem new_pool_is_subnet:
  assumes "parseCIDR c = Some n" "length (net_Mask n) = 4" "length (net_IP n) = 4"
  shows "\<exists>u m b. NewUEIPPool parseCIDR c = Ok (Some u) \<and> ueip_inv u \<and>
    get32 (Slice (net_Mask n) []) = (Ok m :: (ueip_error, u32) outcome) \<and>
    get32 (Slice (net_IP n) []) = (Ok b :: (ueip_error, u32) outcome) \<and>
    (\<forall>k. m = NOT (mask k) \<longrightarrow> free_set (pool u) = {uint a | a. a AND m = b AND m})"
proof -
  obtain m b where m: "get32 (Slice (net_Mask n) []) = (Ok m :: (ueip_error, u32) outcome)"
      and b: "get32 (Slice (net_IP n) []) = (Ok b :: (ueip_error, u32) outcome)"
    using get32_4 assms(2,3) by metis
  obtain u where u: "NewUEIPPool parseCIDR c = Ok (Some u)" "ueip_inv u"
      "free_set (pool u) = {uint (b AND m) .. uint (b OR NOT m)}"
    using NewUEIPPool_Ok [where parseCIDR = parseCIDR, OF assms(1) m b] by blast
  have "free_set (pool u) = {uint a | a. a AND m = b AND m}" if k: "m = NOT (mask k)" for k
  proof (rule set_eqI)
    fix x
    have "x \<in> free_set (pool u) \<longleftrightarrow> (\<exists>a. x = uint a \<and> (b AND m) \<le> a \<and> a \<le> (b OR NOT m))"
    proof
      assume "x \<in> free_set (pool u)"
      with uint_of_free [OF u(2), of x] u(3)
      show "\<exists>a. x = uint a \<and> (b AND m) \<le> a \<and> a \<le> (b OR NOT m)"
        by (intro exI [of _ "word_of_int x"]) (simp add: word_le_def)
    qed (auto simp: u(3) word_le_def)
    then show "x \<in> free_set (pool u) \<longleftrightarrow> x \<in> {uint a | a. a AND m = b AND m}"
      using subnet_range [OF k, of b] by blast
  qed
  with u m b show ?thesis by blast
qed

theorem new_pool_is_subnet_witness:
  "\<exists>u. NewUEIPPool (\<lambda>_. Some \<lparr>net_IP = [10, 60, 0, 0], net_Mask = [255, 255, 0, 0]\<rparr>) ''10.60.0.0/16''
      = Ok (Some u) \<and> ueip_inv u"
  using new_pool_is_subnet [of "\<lambda>_. Some \<lparr>net_IP = [10, 60, 0, 0], net_Mask = [255, 255, 0, 0]\<rparr>"
      "''10.60.0.0/16''" "\<lparr>net_IP = [10, 60, 0, 0], net_Mask = [255, 255, 0, 0]\<rparr>"] by auto

text \<open>
  C32. Overlap of configured pools. \<open>isOverlap\<close> answers true exactly when two pools at different
  positions share an address; when it answers false, no address can be granted from two pools.
\<close>

theorem isOverlap_exact:
  assumes "\<And>u. u \<in> set us \<Longrightarrow> ueip_inv u"
  shows "isOverlap us \<longleftrightarrow> (\<exists>i j. i < j \<and> j < length us \<and>
    {pool_first (pool (us ! i)) .. pool_last (pool (us ! i))} \<inter>
    {pool_first (pool (us ! j)) .. pool_last (pool (us ! j))} \<noteq> {})"
proof -
  let ?joint = "\<lambda>i j. IsJoint (pool (us ! i)) (pool (us ! j))"
  have "isOverlap us \<longleftrightarrow> (\<exists>i j. i < j \<and> j < length us \<and> ?joint i j)"
    by (rule isOverlap_pairs)
  moreover have "?joint i j \<longleftrightarrow> {pool_first (pool (us ! i)) .. pool_last (pool (us ! i))} \<inter>
      {pool_first (pool (us ! j)) .. pool_last (pool (us ! j))} \<noteq> {}" if "i < j" "j < length us" for i j
    using assms that by (intro IsJoint_iff) (auto simp: ueip_inv_def pool_inv_def)
  ultimately show ?thesis by blast
qed

theorem isOverlap_exact_witness:
  "isOverlap [example_uepool, example_uepool] \<longleftrightarrow> (\<exists>i j. i < j \<and> j < length [example_uepool, example_uepool] \<and>
    {pool_first (pool ([example_uepool, example_uepool] ! i)) .. pool_last (pool ([example_uepool, example_uepool] ! i))} \<inter>
    {pool_first (pool ([example_uepool, example_uepool] ! j)) .. pool_last (pool ([example_uepool, example_uepool] ! j))} \<noteq> {})"
  by (rule isOverlap_exact) (auto simp: ueip_inv_def pool_inv_def example_uepool_def mk_pool_def)

end
