(* ===== verification/Tngf_Ike_Types.thy ===== *)
theory Tngf_Ike_Types
  imports Go_Bytes
begin

text \<open>
  The data of the TNGF's IKEv2 messages (\<^verbatim>\<open>NFs/tngf/pkg/ike/message/types.go\<close> and the struct
  declarations of \<^verbatim>\<open>message.go\<close>): the constants the codec uses, the payload structs as
  records, and the interface type \<^verbatim>\<open>IKEPayload\<close> as a datatype with one constructor per
  implementing struct. A nil slice and an empty one are both \<open>[]\<close>.
\<close>

section \<open>Constants\<close>

abbreviation NoNext :: u8 where "NoNext \<equiv> 0"
abbreviation TypeSA :: u8 where "TypeSA \<equiv> 33"
abbreviation TypeKE :: u8 where "TypeKE \<equiv> 34"
abbreviation TypeIDi :: u8 where "TypeIDi \<equiv> 35"
abbreviation TypeIDr :: u8 where "TypeIDr \<equiv> 36"
abbreviation TypeCERT :: u8 where "TypeCERT \<equiv> 37"
abbreviation TypeCERTreq :: u8 where "TypeCERTreq \<equiv> 38"
abbreviation TypeAUTH :: u8 where "TypeAUTH \<equiv> 39"
abbreviation TypeNiNr :: u8 where "TypeNiNr \<equiv> 40"
abbreviation TypeN :: u8 where "TypeN \<equiv> 41"
abbreviation TypeD :: u8 where "TypeD \<equiv> 42"
abbreviation TypeV :: u8 where "TypeV \<equiv> 43"
abbreviation TypeTSi :: u8 where "TypeTSi \<equiv> 44"
abbreviation TypeTSr :: u8 where "TypeTSr \<equiv> 45"
abbreviation TypeSK :: u8 where "TypeSK \<equiv> 46"
abbreviation TypeCP :: u8 where "TypeCP \<equiv> 47"
abbreviation TypeEAP :: u8 where "TypeEAP \<equiv> 48"

abbreviation EAPTypeIdentity :: u8 where "EAPTypeIdentity \<equiv> 1"
abbreviation EAPTypeNotification :: u8 where "EAPTypeNotification \<equiv> 2"
abbreviation EAPTypeNak :: u8 where "EAPTypeNak \<equiv> 3"
abbreviation EAPTypeExpanded :: u8 where "EAPTypeExpanded \<equiv> 254"

abbreviation EAPCodeRequest :: u8 where "EAPCodeRequest \<equiv> 1"
abbreviation EAPCodeSuccess :: u8 where "EAPCodeSuccess \<equiv> 3"
abbreviation EAPCodeFailure :: u8 where "EAPCodeFailure \<equiv> 4"

abbreviation TypeEncryptionAlgorithm :: u8 where "TypeEncryptionAlgorithm \<equiv> 1"
abbreviation TypePseudorandomFunction :: u8 where "TypePseudorandomFunction \<equiv> 2"
abbreviation TypeIntegrityAlgorithm :: u8 where "TypeIntegrityAlgorithm \<equiv> 3"
abbreviation TypeDiffieHellmanGroup :: u8 where "TypeDiffieHellmanGroup \<equiv> 4"
abbreviation TypeExtendedSequenceNumbers :: u8 where "TypeExtendedSequenceNumbers \<equiv> 5"

abbreviation AttributeFormatUseTLV :: u8 where "AttributeFormatUseTLV \<equiv> 0"
abbreviation AttributeFormatUseTV :: u8 where "AttributeFormatUseTV \<equiv> 1"

abbreviation TS_IPV4_ADDR_RANGE :: u8 where "TS_IPV4_ADDR_RANGE \<equiv> 7"
abbreviation TS_IPV6_ADDR_RANGE :: u8 where "TS_IPV6_ADDR_RANGE \<equiv> 8"

abbreviation TypeNone :: u8 where "TypeNone \<equiv> 0"
abbreviation VendorID3GPP :: u32 where "VendorID3GPP \<equiv> 10415"
abbreviation VendorTypeEAP5G :: u32 where "VendorTypeEAP5G \<equiv> 3"
abbreviation EAP5GType5GStart :: u8 where "EAP5GType5GStart \<equiv> 1"
abbreviation EAP5GType5GNAS :: u8 where "EAP5GType5GNAS \<equiv> 2"
abbreviation EAP5GSpareValue :: u8 where "EAP5GSpareValue \<equiv> 0"

abbreviation Vendor3GPPNotifyType5G_QOS_INFO :: u16 where "Vendor3GPPNotifyType5G_QOS_INFO \<equiv> 55501"
abbreviation Vendor3GPPNotifyTypeNAS_IP4_ADDRESS :: u16 where "Vendor3GPPNotifyTypeNAS_IP4_ADDRESS \<equiv> 55502"
abbreviation Vendor3GPPNotifyTypeUP_IP4_ADDRESS :: u16 where "Vendor3GPPNotifyTypeUP_IP4_ADDRESS \<equiv> 55504"
abbreviation Vendor3GPPNotifyTypeNAS_TCP_PORT :: u16 where "Vendor3GPPNotifyTypeNAS_TCP_PORT \<equiv> 55506"
abbreviation NotifyType5G_QOS_INFOBitDSCPICheck :: u8 where "NotifyType5G_QOS_INFOBitDSCPICheck \<equiv> 1"
abbreviation NotifyType5G_QOS_INFOBitDCSICheck :: u8 where "NotifyType5G_QOS_INFOBitDCSICheck \<equiv> 2"

section \<open>Errors\<close>

text \<open>One constructor per error message of the codec; the last ones wrap an inner error.\<close>

datatype ike_error =
    BrokenHeader | IllegalMessageLength u32 | MessageLengthMismatch
  | NoBytesForNextPayload | IllegalPayloadLength u16 | PayloadLengthMismatch
  | UnknownPayloadType u8
  | ProposalHasNoTransform | AttributeNotSpecified
  | NoBytesForNextProposal | IllegalProposalLength | ProposalLengthMismatch | NoBytesForProposalSPI
  | NoBytesForNextTransform | IllegalTransformLength | TransformLengthMismatch
  | IllegalAttributeLength u16 u16
  | KeyExchangeTooShort | IdentificationTooShort | CertificateTooShort | CertificateRequestTooShort
  | AuthenticationTooShort | NotificationTooShort | NotificationSPITooShort
  | SPIsLengthWrong | DeleteTooShort | DeleteSPIsTooShort
  | NoTrafficSelector | StartAddressLength | EndAddressLength | UnsupportedTrafficSelector
  | TrafficSelectorHeaderTooShort | TrafficSelectorItemTooShort | TrafficSelectorBadLength
  | TrafficSelectorTruncated
  | ConfigurationTooShort | ConfigurationAttributeTooShort | ConfigurationTLVLength
  | EAPTooShort | EAPLengthTooSmall | EAPLengthMismatch | EAPTypeNotSupported
  | EAPIdentityEmpty | EAPNotificationEmpty | EAPNakEmpty | EAPExpandedTooShort
  | EAPTypeDataMarshalFailed ike_error | EAPTypeDataUnmarshalFailed ike_error
  | MarshalPayloadFailed ike_error | UnmarshalPayloadFailed ike_error
  | EncodePayloadFailed ike_error | DecodePayloadFailed ike_error

section \<open>Structs\<close>

record Transform =
  TransformType :: u8
  TransformID :: u16
  AttributePresent :: bool
  AttributeFormat :: u8
  AttributeType :: u16
  AttributeValue :: u16
  VariableLengthAttributeValue :: bytes

record Proposal =
  ProposalNumber :: u8
  prop_ProtocolID :: u8
  prop_SPI :: bytes
  EncryptionAlgorithm :: "Transform list"
  PseudorandomFunction :: "Transform list"
  IntegrityAlgorithm :: "Transform list"
  DiffieHellmanGroup :: "Transform list"
  ExtendedSequenceNumbers :: "Transform list"

record SecurityAssociation =
  Proposals :: "Proposal list"

record KeyExchange =
  ke_DiffieHellmanGroup :: u16
  KeyExchangeData :: bytes

record Identification =
  IDType :: u8
  IDData :: bytes

record Certificate =
  CertificateEncoding :: u8
  CertificateData :: bytes

record CertificateRequest =
  req_CertificateEncoding :: u8
  CertificationAuthority :: bytes

record Authentication =
  AuthenticationMethod :: u8
  AuthenticationData :: bytes

record Nonce =
  NonceData :: bytes

record Notification =
  ntf_ProtocolID :: u8
  NotifyMessageType :: u16
  ntf_SPI :: bytes
  NotificationData :: bytes

record Delete =
  del_ProtocolID :: u8
  SPISize :: u8
  NumberOfSPI :: u16
  SPIs :: bytes

record VendorID =
  VendorIDData :: bytes

record IndividualTrafficSelector =
  TSType :: u8
  IPProtocolID :: u8
  StartPort :: u16
  EndPort :: u16
  StartAddress :: bytes
  EndAddress :: bytes

record TrafficSelector =
  TrafficSelectors :: "IndividualTrafficSelector list"

record Encrypted =
  NextPayload :: u8
  EncryptedData :: bytes

record IndividualConfigurationAttribute =
  cfg_Type :: u16
  cfg_Value :: bytes

record Configuration =
  ConfigurationType :: u8
  ConfigurationAttribute :: "IndividualConfigurationAttribute list"

text \<open>The four implementations of the interface \<open>EAPTypeFormat\<close>.\<close>

datatype EAPTypeFormat =
    EAPIdentity (IdentityData: bytes)
  | EAPNotification (eap_NotificationData: bytes)
  | EAPNak (NakData: bytes)
  | EAPExpanded (eap_VendorID: u32) (VendorType: u32) (VendorData: bytes)

record EAP =
  Code :: u8
  Identifier :: u8
  EAPTypeData :: "EAPTypeFormat list"

text \<open>The sixteen implementations of the interface \<open>IKEPayload\<close>.\<close>

datatype IKEPayload =
    P_SA SecurityAssociation | P_KE KeyExchange
  | P_IDi Identification | P_IDr Identification
  | P_CERT Certificate | P_CERTreq CertificateRequest
  | P_AUTH Authentication | P_NiNr Nonce
  | P_N Notification | P_D Delete | P_V VendorID
  | P_TSi TrafficSelector | P_TSr TrafficSelector
  | P_SK Encrypted | P_CP Configuration | P_EAP EAP

fun payload_Type :: "IKEPayload \<Rightarrow> u8" where
  "payload_Type (P_SA _) = TypeSA"
| "payload_Type (P_KE _) = TypeKE"
| "payload_Type (P_IDi _) = TypeIDi"
| "payload_Type (P_IDr _) = TypeIDr"
| "payload_Type (P_CERT _) = TypeCERT"
| "payload_Type (P_CERTreq _) = TypeCERTreq"
| "payload_Type (P_AUTH _) = TypeAUTH"
| "payload_Type (P_NiNr _) = TypeNiNr"
| "payload_Type (P_N _) = TypeN"
| "payload_Type (P_D _) = TypeD"
| "payload_Type (P_V _) = TypeV"
| "payload_Type (P_TSi _) = TypeTSi"
| "payload_Type (P_TSr _) = TypeTSr"
| "payload_Type (P_SK _) = TypeSK"
| "payload_Type (P_CP _) = TypeCP"
| "payload_Type (P_EAP _) = TypeEAP"

record IKEMessage =
  InitiatorSPI :: u64
  ResponderSPI :: u64
  Version :: u8
  ExchangeType :: u8
  Flags :: u8
  MessageID :: u32
  Payloads :: "IKEPayload list"

section \<open>Zero values\<close>

text \<open>\<open>new(T)\<close> of the source: every field its zero value.\<close>

definition new_Transform :: Transform where
  "new_Transform = \<lparr>TransformType = 0, TransformID = 0, AttributePresent = False, AttributeFormat = 0,
     AttributeType = 0, AttributeValue = 0, VariableLengthAttributeValue = []\<rparr>"

definition new_Proposal :: Proposal where
  "new_Proposal = \<lparr>ProposalNumber = 0, prop_ProtocolID = 0, prop_SPI = [], EncryptionAlgorithm = [],
     PseudorandomFunction = [], IntegrityAlgorithm = [], DiffieHellmanGroup = [],
     ExtendedSequenceNumbers = []\<rparr>"

definition new_KeyExchange :: KeyExchange where
  "new_KeyExchange = \<lparr>ke_DiffieHellmanGroup = 0, KeyExchangeData = []\<rparr>"

definition new_Identification :: Identification where
  "new_Identification = \<lparr>IDType = 0, IDData = []\<rparr>"

definition new_Certificate :: Certificate where
  "new_Certificate = \<lparr>CertificateEncoding = 0, CertificateData = []\<rparr>"

definition new_CertificateRequest :: CertificateRequest where
  "new_CertificateRequest = \<lparr>req_CertificateEncoding = 0, CertificationAuthority = []\<rparr>"

definition new_Authentication :: Authentication where
  "new_Authentication = \<lparr>AuthenticationMethod = 0, AuthenticationData = []\<rparr>"

definition new_Notification :: Notification where
  "new_Notification = \<lparr>ntf_ProtocolID = 0, NotifyMessageType = 0, ntf_SPI = [], NotificationData = []\<rparr>"

definition new_Delete :: Delete where
  "new_Delete = \<lparr>del_ProtocolID = 0, SPISize = 0, NumberOfSPI = 0, SPIs = []\<rparr>"

definition new_EAP :: EAP where
  "new_EAP = \<lparr>Code = 0, Identifier = 0, EAPTypeData = []\<rparr>"

definition new_Configuration :: Configuration where
  "new_Configuration = \<lparr>ConfigurationType = 0, ConfigurationAttribute = []\<rparr>"

lemmas new_defs = new_Transform_def new_Proposal_def new_KeyExchange_def new_Identification_def
  new_Certificate_def new_CertificateRequest_def new_Authentication_def new_Notification_def
  new_Delete_def new_EAP_def new_Configuration_def

definition new_IKEMessage :: IKEMessage where
  "new_IKEMessage = \<lparr>InitiatorSPI = 0, ResponderSPI = 0, Version = 0, ExchangeType = 0, Flags = 0,
     MessageID = 0, Payloads = []\<rparr>"

end
