(* ===== verification/Tngf_Ike_Payloads.thy ===== *)
theory Tngf_Ike_Payloads
  imports Tngf_Ike_Types
begin

text \<open>
  \<open>marshal\<close> and \<open>unmarshal\<close> of the IKE payloads other than the Security Association
  (\<^verbatim>\<open>NFs/tngf/pkg/ike/message/message.go\<close>). An \<open>unmarshal\<close> method takes the receiver it
  fills and returns it filled; on an error the source drops the partly filled receiver, so
  \<open>Err\<close> carries none. Offsets and lengths that the source computes in \<open>uint8\<close> or \<open>uint16\<close>
  are computed at that width here, wrap-around included.
\<close>

section \<open>Key exchange, identification, certificates, authentication\<close>

definition KeyExchange_marshal :: "KeyExchange \<Rightarrow> bytes" where
  "KeyExchange_marshal k = put16 (ke_DiffieHellmanGroup k) @ [0, 0] @ KeyExchangeData k"

definition KeyExchange_unmarshal :: "KeyExchange \<Rightarrow> slice \<Rightarrow> (ike_error, KeyExchange) outcome" where
  "KeyExchange_unmarshal k raw =
     (if slen raw > 0 then
        if slen raw \<le> 4 then Err KeyExchangeTooShort
        else obind (read16 raw 0) (\<lambda>grp.
             obind (sub_from raw 4) (\<lambda>d.
               Ok (k\<lparr>ke_DiffieHellmanGroup := grp, KeyExchangeData := KeyExchangeData k @ sdata d\<rparr>)))
      else Ok k)"

definition IdentificationInitiator_marshal :: "Identification \<Rightarrow> bytes" where
  "IdentificationInitiator_marshal i = [IDType i, 0, 0, 0] @ IDData i"

definition IdentificationInitiator_unmarshal :: "Identification \<Rightarrow> slice \<Rightarrow> (ike_error, Identification) outcome" where
  "IdentificationInitiator_unmarshal i raw =
     (if slen raw > 0 then
        if slen raw \<le> 4 then Err IdentificationTooShort
        else obind (at raw 0) (\<lambda>t.
             obind (sub_from raw 4) (\<lambda>d. Ok (i\<lparr>IDType := t, IDData := IDData i @ sdata d\<rparr>)))
      else Ok i)"

definition IdentificationResponder_marshal :: "Identification \<Rightarrow> bytes" where
  "IdentificationResponder_marshal i = [IDType i, 0, 0, 0] @ IDData i"

definition IdentificationResponder_unmarshal :: "Identification \<Rightarrow> slice \<Rightarrow> (ike_error, Identification) outcome" where
  "IdentificationResponder_unmarshal i raw =
     (if slen raw > 0 then
        if slen raw \<le> 4 then Err IdentificationTooShort
        else obind (at raw 0) (\<lambda>t.
             obind (sub_from raw 4) (\<lambda>d. Ok (i\<lparr>IDType := t, IDData := IDData i @ sdata d\<rparr>)))
      else Ok i)"

definition Certificate_marshal :: "Certificate \<Rightarrow> bytes" where
  "Certificate_marshal c = [CertificateEncoding c] @ CertificateData c"

definition Certificate_unmarshal :: "Certificate \<Rightarrow> slice \<Rightarrow> (ike_error, Certificate) outcome" where
  "Certificate_unmarshal c raw =
     (if slen raw > 0 then
        if slen raw \<le> 1 then Err CertificateTooShort
        else obind (at raw 0) (\<lambda>e.
             obind (sub_from raw 1) (\<lambda>d.
               Ok (c\<lparr>CertificateEncoding := e, CertificateData := CertificateData c @ sdata d\<rparr>)))
      else Ok c)"

definition CertificateRequest_marshal :: "CertificateRequest \<Rightarrow> bytes" where
  "CertificateRequest_marshal c = [req_CertificateEncoding c] @ CertificationAuthority c"

definition CertificateRequest_unmarshal :: "CertificateRequest \<Rightarrow> slice \<Rightarrow> (ike_error, CertificateRequest) outcome" where
  "CertificateRequest_unmarshal c raw =
     (if slen raw > 0 then
        if slen raw \<le> 1 then Err CertificateRequestTooShort
        else obind (at raw 0) (\<lambda>e.
             obind (sub_from raw 1) (\<lambda>d.
               Ok (c\<lparr>req_CertificateEncoding := e,
                     CertificationAuthority := CertificationAuthority c @ sdata d\<rparr>)))
      else Ok c)"

definition Authentication_marshal :: "Authentication \<Rightarrow> bytes" where
  "Authentication_marshal a = [AuthenticationMethod a, 0, 0, 0] @ AuthenticationData a"

definition Authentication_unmarshal :: "Authentication \<Rightarrow> slice \<Rightarrow> (ike_error, Authentication) outcome" where
  "Authentication_unmarshal a raw =
     (if slen raw > 0 then
        if slen raw \<le> 4 then Err AuthenticationTooShort
        else obind (at raw 0) (\<lambda>m.
             obind (sub_from raw 4) (\<lambda>d.
               Ok (a\<lparr>AuthenticationMethod := m, AuthenticationData := AuthenticationData a @ sdata d\<rparr>)))
      else Ok a)"

definition Nonce_marshal :: "Nonce \<Rightarrow> bytes" where
  "Nonce_marshal n = NonceData n"

definition Nonce_unmarshal :: "Nonce \<Rightarrow> slice \<Rightarrow> (ike_error, Nonce) outcome" where
  "Nonce_unmarshal n raw = (if slen raw > 0 then Ok (n\<lparr>NonceData := NonceData n @ sdata raw\<rparr>) else Ok n)"

definition VendorID_marshal :: "VendorID \<Rightarrow> bytes" where
  "VendorID_marshal v = VendorIDData v"

definition VendorID_unmarshal :: "VendorID \<Rightarrow> slice \<Rightarrow> (ike_error, VendorID) outcome" where
  "VendorID_unmarshal v raw =
     (if slen raw > 0 then Ok (v\<lparr>VendorIDData := VendorIDData v @ sdata raw\<rparr>) else Ok v)"

definition Encrypted_marshal :: "Encrypted \<Rightarrow> bytes" where
  "Encrypted_marshal e = EncryptedData e"

definition Encrypted_unmarshal :: "Encrypted \<Rightarrow> slice \<Rightarrow> (ike_error, Encrypted) outcome" where
  "Encrypted_unmarshal e raw = Ok (e\<lparr>EncryptedData := EncryptedData e @ sdata raw\<rparr>)"

section \<open>Notification and delete\<close>

definition Notification_marshal :: "Notification \<Rightarrow> bytes" where
  "Notification_marshal n =
     [ntf_ProtocolID n, len8 (ntf_SPI n)] @ put16 (NotifyMessageType n) @ ntf_SPI n @ NotificationData n"

text \<open>\<open>4 + spiSize\<close> is an addition of \<open>uint8\<close> values.\<close>

definition Notification_unmarshal :: "Notification \<Rightarrow> slice \<Rightarrow> (ike_error, Notification) outcome" where
  "Notification_unmarshal n raw =
     (if slen raw > 0 then
        if slen raw < 4 then Err NotificationTooShort
        else obind (at raw 1) (\<lambda>spiSize.
             if slen raw < unat (4 + spiSize) then Err NotificationSPITooShort
             else obind (at raw 0) (\<lambda>pid.
                  obind (read16 raw 2) (\<lambda>typ.
                  obind (sub raw 4 (unat (4 + spiSize))) (\<lambda>spi.
                  obind (sub_from raw (unat (4 + spiSize))) (\<lambda>d.
                    Ok (n\<lparr>ntf_ProtocolID := pid, NotifyMessageType := typ,
                          ntf_SPI := ntf_SPI n @ sdata spi,
                          NotificationData := NotificationData n @ sdata d\<rparr>))))))
      else Ok n)"

definition Delete_marshal :: "Delete \<Rightarrow> (ike_error, bytes) outcome" where
  "Delete_marshal d =
     (if length (SPIs d) \<noteq> unat (SPISize d) * unat (NumberOfSPI d) then Err SPIsLengthWrong
      else Ok ([del_ProtocolID d, SPISize d] @ put16 (NumberOfSPI d) @ SPIs d))"

definition Delete_unmarshal :: "Delete \<Rightarrow> slice \<Rightarrow> (ike_error, Delete) outcome" where
  "Delete_unmarshal d raw =
     (if slen raw > 0 then
        if slen raw \<le> 4 then Err DeleteTooShort
        else obind (at raw 1) (\<lambda>spiSize.
             obind (read16 raw 2) (\<lambda>numberOfSPI.
             if slen raw < 4 + unat spiSize * unat numberOfSPI then Err DeleteSPIsTooShort
             else obind (at raw 0) (\<lambda>pid.
                  obind (sub_from raw 4) (\<lambda>r.
                    Ok (d\<lparr>del_ProtocolID := pid, SPISize := spiSize, NumberOfSPI := numberOfSPI,
                          SPIs := SPIs d @ sdata r\<rparr>)))))
      else Ok d)"

section \<open>Traffic selectors\<close>

text \<open>
  One traffic selector as both traffic-selector payloads write it: the eight-byte header, whose
  length field is filled in once the addresses are appended, then the two addresses.
\<close>

definition selector_bytes :: "IndividualTrafficSelector \<Rightarrow> bytes" where
  "selector_bytes t =
     [TSType t, IPProtocolID t]
     @ put16 (word_of_nat (8 + length (StartAddress t) + length (EndAddress t)))
     @ put16 (StartPort t) @ put16 (EndPort t) @ StartAddress t @ EndAddress t"

definition selector_marshal :: "IndividualTrafficSelector \<Rightarrow> (ike_error, bytes) outcome" where
  "selector_marshal t =
     (if TSType t = TS_IPV4_ADDR_RANGE then
        if length (StartAddress t) \<noteq> 4 then Err StartAddressLength
        else if length (EndAddress t) \<noteq> 4 then Err EndAddressLength
        else Ok (selector_bytes t)
      else if TSType t = TS_IPV6_ADDR_RANGE then
        if length (StartAddress t) \<noteq> 16 then Err StartAddressLength
        else if length (EndAddress t) \<noteq> 16 then Err EndAddressLength
        else Ok (selector_bytes t)
      else Err UnsupportedTrafficSelector)"

text \<open>The fields of a selector whose addresses have \<open>n\<close> bytes each, and the bytes after it.\<close>

definition selector_fields :: "slice \<Rightarrow> nat \<Rightarrow> (ike_error, IndividualTrafficSelector \<times> slice) outcome" where
  "selector_fields raw n =
     obind (at raw 0) (\<lambda>ty.
     obind (at raw 1) (\<lambda>pid.
     obind (read16 raw 4) (\<lambda>sport.
     obind (read16 raw 6) (\<lambda>eport.
     obind (sub raw 8 (8 + n)) (\<lambda>sa.
     obind (sub raw (8 + n) (8 + n + n)) (\<lambda>ea.
     obind (sub_from raw (8 + n + n)) (\<lambda>rest.
       Ok (\<lparr>TSType = ty, IPProtocolID = pid, StartPort = sport, EndPort = eport,
             StartAddress = sdata sa, EndAddress = sdata ea\<rparr>, rest))))))))"

text \<open>One iteration of the loop over the announced number of selectors.\<close>

definition selector_unmarshal :: "slice \<Rightarrow> (ike_error, IndividualTrafficSelector \<times> slice) outcome" where
  "selector_unmarshal raw =
     (if slen raw < 4 then Err TrafficSelectorItemTooShort
      else obind (at raw 0) (\<lambda>ty.
        if ty = TS_IPV4_ADDR_RANGE then
          obind (read16 raw 2) (\<lambda>selectorLength.
            if selectorLength \<noteq> 16 then Err TrafficSelectorBadLength
            else if slen raw < unat selectorLength then Err TrafficSelectorTruncated
            else selector_fields raw 4)
        else if ty = TS_IPV6_ADDR_RANGE then
          obind (read16 raw 2) (\<lambda>selectorLength.
            if selectorLength \<noteq> 40 then Err TrafficSelectorBadLength
            else if slen raw < unat selectorLength then Err TrafficSelectorTruncated
            else selector_fields raw 16)
        else Err UnsupportedTrafficSelector))"

fun selectors_loop :: "nat \<Rightarrow> slice \<Rightarrow> (ike_error, IndividualTrafficSelector list) outcome" where
  "selectors_loop 0 raw = Ok []"
| "selectors_loop (Suc n) raw =
     obind (selector_unmarshal raw) (\<lambda>(t, rest).
     obind (selectors_loop n rest) (\<lambda>ts. Ok (t # ts)))"

definition TrafficSelectorInitiator_marshal :: "TrafficSelector \<Rightarrow> (ike_error, bytes) outcome" where
  "TrafficSelectorInitiator_marshal ts =
     (if length (TrafficSelectors ts) > 0 then
        obind (omapM selector_marshal (TrafficSelectors ts)) (\<lambda>items.
          Ok ([len8 (TrafficSelectors ts), 0, 0, 0] @ concat items))
      else Err NoTrafficSelector)"

definition TrafficSelectorInitiator_unmarshal :: "TrafficSelector \<Rightarrow> slice \<Rightarrow> (ike_error, TrafficSelector) outcome" where
  "TrafficSelectorInitiator_unmarshal ts raw =
     (if slen raw > 0 then
        if slen raw < 4 then Err TrafficSelectorHeaderTooShort
        else obind (at raw 0) (\<lambda>numberOfSPI.
             obind (sub_from raw 4) (\<lambda>rest.
             obind (selectors_loop (unat numberOfSPI) rest) (\<lambda>items.
               Ok (ts\<lparr>TrafficSelectors := TrafficSelectors ts @ items\<rparr>))))
      else Ok ts)"

definition TrafficSelectorResponder_marshal :: "TrafficSelector \<Rightarrow> (ike_error, bytes) outcome" where
  "TrafficSelectorResponder_marshal ts =
     (if length (TrafficSelectors ts) > 0 then
        obind (omapM selector_marshal (TrafficSelectors ts)) (\<lambda>items.
          Ok ([len8 (TrafficSelectors ts), 0, 0, 0] @ concat items))
      else Err NoTrafficSelector)"

definition TrafficSelectorResponder_unmarshal :: "TrafficSelector \<Rightarrow> slice \<Rightarrow> (ike_error, TrafficSelector) outcome" where
  "TrafficSelectorResponder_unmarshal ts raw =
     (if slen raw > 0 then
        if slen raw < 4 then Err TrafficSelectorHeaderTooShort
        else obind (at raw 0) (\<lambda>numberOfSPI.
             obind (sub_from raw 4) (\<lambda>rest.
             obind (selectors_loop (unat numberOfSPI) rest) (\<lambda>items.
               Ok (ts\<lparr>TrafficSelectors := TrafficSelectors ts @ items\<rparr>))))
      else Ok ts)"

section \<open>Configuration\<close>

definition config_attribute_bytes :: "IndividualConfigurationAttribute \<Rightarrow> bytes" where
  "config_attribute_bytes a = put16 (cfg_Type a AND 0x7fff) @ put16 (len16 (cfg_Value a)) @ cfg_Value a"

definition Configuration_marshal :: "Configuration \<Rightarrow> bytes" where
  "Configuration_marshal c =
     [ConfigurationType c, 0, 0, 0] @ concat (map config_attribute_bytes (ConfigurationAttribute c))"

text \<open>One iteration of the attribute loop. \<open>4 + length\<close> is an addition of \<open>uint16\<close> values.\<close>

definition config_step :: "Configuration \<Rightarrow> slice \<Rightarrow> (ike_error, Configuration \<times> slice) outcome" where
  "config_step c d =
     (if slen d < 4 then Err ConfigurationAttributeTooShort
      else obind (read16 d 2) (\<lambda>len.
        if slen d < unat (4 + len) then Err ConfigurationTLVLength
        else obind (read16 d 0) (\<lambda>ty.
             obind (sub_from d 4) (\<lambda>d4.
             obind (sub d4 0 (unat len)) (\<lambda>val.
             obind (sub_from d4 (unat len)) (\<lambda>rest.
               Ok (c\<lparr>ConfigurationAttribute := ConfigurationAttribute c @ [\<lparr>cfg_Type = ty, cfg_Value = sdata val\<rparr>]\<rparr>,
                   rest)))))))"

lemma config_step_shrinks: "config_step c d = Ok (c', d') \<Longrightarrow> 0 < slen d \<Longrightarrow> slen d' < slen d"
  by (auto simp: config_step_def go_simps split: if_splits dest!: slen_sub_from)

function config_loop :: "Configuration \<Rightarrow> slice \<Rightarrow> (ike_error, Configuration) outcome" where
  "config_loop c d =
     (if slen d = 0 then Ok c else obind (config_step c d) (\<lambda>(c', d'). config_loop c' d'))"
  by auto
termination
  by (relation "measure (\<lambda>(c, d). slen d)") (auto dest: config_step_shrinks)

declare config_loop.simps [simp del]

definition Configuration_unmarshal :: "Configuration \<Rightarrow> slice \<Rightarrow> (ike_error, Configuration) outcome" where
  "Configuration_unmarshal c raw =
     (if slen raw > 0 then
        if slen raw \<le> 4 then Err ConfigurationTooShort
        else obind (at raw 0) (\<lambda>ty.
             obind (sub_from raw 4) (\<lambda>d. config_loop (c\<lparr>ConfigurationType := ty\<rparr>) d))
      else Ok c)"

interpretation config_attributes: slice_loop config_step config_loop
  by unfold_locales (rule config_loop.simps, erule (1) config_step_shrinks)

section \<open>Round trips\<close>

lemma KeyExchange_roundtrip:
  "KeyExchangeData k \<noteq> [] \<Longrightarrow> KeyExchange_unmarshal new_KeyExchange (Slice (KeyExchange_marshal k) sp) = Ok k"
  by (simp add: KeyExchange_unmarshal_def KeyExchange_marshal_def slice_eval new_defs)

lemma IdentificationInitiator_roundtrip:
  "IDData i \<noteq> [] \<Longrightarrow>
   IdentificationInitiator_unmarshal new_Identification (Slice (IdentificationInitiator_marshal i) sp) = Ok i"
  by (simp add: IdentificationInitiator_unmarshal_def IdentificationInitiator_marshal_def slice_eval new_defs)

lemma IdentificationResponder_roundtrip:
  "IDData i \<noteq> [] \<Longrightarrow>
   IdentificationResponder_unmarshal new_Identification (Slice (IdentificationResponder_marshal i) sp) = Ok i"
  by (simp add: IdentificationResponder_unmarshal_def IdentificationResponder_marshal_def slice_eval new_defs)

lemma Certificate_roundtrip:
  "CertificateData c \<noteq> [] \<Longrightarrow> Certificate_unmarshal new_Certificate (Slice (Certificate_marshal c) sp) = Ok c"
  by (simp add: Certificate_unmarshal_def Certificate_marshal_def slice_eval new_defs)

lemma CertificateRequest_roundtrip:
  "CertificationAuthority c \<noteq> [] \<Longrightarrow>
   CertificateRequest_unmarshal new_CertificateRequest (Slice (CertificateRequest_marshal c) sp) = Ok c"
  by (simp add: CertificateRequest_unmarshal_def CertificateRequest_marshal_def slice_eval new_defs)

lemma Authentication_roundtrip:
  "AuthenticationData a \<noteq> [] \<Longrightarrow>
   Authentication_unmarshal new_Authentication (Slice (Authentication_marshal a) sp) = Ok a"
  by (simp add: Authentication_unmarshal_def Authentication_marshal_def slice_eval new_defs)

lemma Nonce_roundtrip: "Nonce_unmarshal \<lparr>NonceData = []\<rparr> (Slice (Nonce_marshal n) sp) = Ok n"
  by (cases n) (simp add: Nonce_unmarshal_def Nonce_marshal_def)

lemma VendorID_roundtrip: "VendorID_unmarshal \<lparr>VendorIDData = []\<rparr> (Slice (VendorID_marshal v) sp) = Ok v"
  by (cases v) (simp add: VendorID_unmarshal_def VendorID_marshal_def)

lemma Encrypted_roundtrip:
  "Encrypted_unmarshal \<lparr>NextPayload = n, EncryptedData = []\<rparr> (Slice (Encrypted_marshal e) sp) = Ok (e\<lparr>NextPayload := n\<rparr>)"
  by (cases e) (simp add: Encrypted_unmarshal_def Encrypted_marshal_def)

lemma unat_four_plus: "unat (w :: u8) < 252 \<Longrightarrow> unat (4 + w) = 4 + unat w"
  by (subst unat_add_lem [THEN iffD1]) auto

lemma Notification_roundtrip:
  assumes "length (ntf_SPI n) < 252"
  shows "Notification_unmarshal new_Notification (Slice (Notification_marshal n) sp) = Ok n"
proof -
  have "unat (4 + len8 (ntf_SPI n)) = 4 + length (ntf_SPI n)"
    using assms by (simp add: unat_four_plus)
  then show ?thesis
    using assms by (simp add: Notification_unmarshal_def Notification_marshal_def slice_eval new_defs
        drop_header del: drop_drop)
qed

lemma Delete_roundtrip:
  assumes "Delete_marshal d = Ok raw" and "SPIs d \<noteq> []"
  shows "Delete_unmarshal new_Delete (Slice raw sp) = Ok d"
  using assms by (auto simp: Delete_unmarshal_def Delete_marshal_def slice_eval new_defs split: if_splits)

section \<open>Traffic selectors and configuration: round trips\<close>

definition selector_wf :: "IndividualTrafficSelector \<Rightarrow> bool" where
  "selector_wf t \<longleftrightarrow>
     TSType t = TS_IPV4_ADDR_RANGE \<and> length (StartAddress t) = 4 \<and> length (EndAddress t) = 4 \<or>
     TSType t = TS_IPV6_ADDR_RANGE \<and> length (StartAddress t) = 16 \<and> length (EndAddress t) = 16"

lemma selector_marshal_wf: "selector_marshal t = Ok b \<longleftrightarrow> selector_wf t \<and> b = selector_bytes t"
  by (auto simp: selector_marshal_def selector_wf_def)

lemma selector_fields_bytes:
  "length (StartAddress t) = n \<Longrightarrow> length (EndAddress t) = n \<Longrightarrow>
   selector_fields (Slice (selector_bytes t @ rest) sp) n = Ok (t, Slice rest sp)"
  by (simp add: selector_fields_def selector_bytes_def slice_eval drop_header del: drop_drop)

lemma selector_header:
  "at (Slice (selector_bytes t @ rest) sp) 0 = Ok (TSType t)"
  "read16 (Slice (selector_bytes t @ rest) sp) 2 =
     Ok (word_of_nat (8 + length (StartAddress t) + length (EndAddress t)))"
  "length (selector_bytes t) = 8 + length (StartAddress t) + length (EndAddress t)"
  by (simp_all only: selector_bytes_def slice_eval append.simps) (simp_all add: slice_eval)

lemma selector_roundtrip:
  "selector_wf t \<Longrightarrow> selector_unmarshal (Slice (selector_bytes t @ rest) sp) = Ok (t, Slice rest sp)"
  by (auto simp: selector_unmarshal_def selector_wf_def selector_fields_bytes selector_header)

lemma selectors_loop_concat:
  "(\<And>t. t \<in> set ts \<Longrightarrow> selector_wf t) \<Longrightarrow>
   selectors_loop (length ts) (Slice (concat (map selector_bytes ts) @ rest) sp) = Ok ts"
  by (induction ts) (simp_all add: selector_roundtrip)

definition ts_wf :: "TrafficSelector \<Rightarrow> bool" where
  "ts_wf ts \<longleftrightarrow> TrafficSelectors ts \<noteq> [] \<and> length (TrafficSelectors ts) < 256 \<and>
     (\<forall>t \<in> set (TrafficSelectors ts). selector_wf t)"

definition ts_bytes :: "TrafficSelector \<Rightarrow> bytes" where
  "ts_bytes ts = [len8 (TrafficSelectors ts), 0, 0, 0] @ concat (map selector_bytes (TrafficSelectors ts))"

lemma ts_marshal_wf:
  "ts_wf ts \<Longrightarrow> TrafficSelectorInitiator_marshal ts = Ok (ts_bytes ts)"
  "ts_wf ts \<Longrightarrow> TrafficSelectorResponder_marshal ts = Ok (ts_bytes ts)"
  using omapM_Ok [of "TrafficSelectors ts" selector_marshal selector_bytes]
  by (auto simp: TrafficSelectorInitiator_marshal_def TrafficSelectorResponder_marshal_def ts_wf_def
      ts_bytes_def selector_marshal_wf)

lemma ts_roundtrip:
  assumes "ts_wf ts"
  shows "TrafficSelectorInitiator_unmarshal \<lparr>TrafficSelectors = []\<rparr> (Slice (ts_bytes ts) sp) = Ok ts"
    and "TrafficSelectorResponder_unmarshal \<lparr>TrafficSelectors = []\<rparr> (Slice (ts_bytes ts) sp) = Ok ts"
  using assms selectors_loop_concat [of "TrafficSelectors ts" "[]" sp]
  by (auto simp: TrafficSelectorInitiator_unmarshal_def TrafficSelectorResponder_unmarshal_def ts_wf_def
      ts_bytes_def slice_eval)

definition config_wf :: "Configuration \<Rightarrow> bool" where
  "config_wf c \<longleftrightarrow> ConfigurationAttribute c \<noteq> [] \<and>
     (\<forall>a \<in> set (ConfigurationAttribute c). cfg_Type a < 0x8000 \<and> length (cfg_Value a) < 65532)"

lemma mask_15: "(t :: u16) < 0x8000 \<Longrightarrow> t AND 0x7fff = t"
  using bits_ident [of 15 t]
  by (simp add: drop_bit_eq_div div_word_less take_bit_eq_mask mask_eq_exp_minus_1)

lemma unat_four_plus16: "unat (w :: u16) < 65532 \<Longrightarrow> unat (4 + w) = 4 + unat w"
  by (subst unat_add_lem [THEN iffD1]) auto

lemma config_step_attribute:
  assumes "cfg_Type a < 0x8000" and "length (cfg_Value a) < 65532"
  shows "config_step c (Slice (config_attribute_bytes a @ rest) sp) =
    Ok (c\<lparr>ConfigurationAttribute := ConfigurationAttribute c @ [a]\<rparr>, Slice rest sp)"
proof -
  have "unat (4 + len16 (cfg_Value a)) = 4 + length (cfg_Value a)"
    using assms by (simp add: unat_four_plus16)
  with assms show ?thesis
    by (simp add: config_step_def config_attribute_bytes_def slice_eval mask_15)
qed

lemma fold_append_attributes:
  "fold (\<lambda>a c. c\<lparr>ConfigurationAttribute := ConfigurationAttribute c @ [a]\<rparr>) as c =
   c\<lparr>ConfigurationAttribute := ConfigurationAttribute c @ as\<rparr>"
  by (induction as arbitrary: c) simp_all

lemma Configuration_roundtrip:
  assumes "config_wf c"
  shows "Configuration_unmarshal new_Configuration (Slice (Configuration_marshal c) sp) = Ok c"
proof -
  have "config_loop st (Slice (concat (map config_attribute_bytes (ConfigurationAttribute c))) sp) =
      Ok (fold (\<lambda>a c. c\<lparr>ConfigurationAttribute := ConfigurationAttribute c @ [a]\<rparr>) (ConfigurationAttribute c) st)"
    for st
    using assms
    by (intro config_attributes.loop_concat)
       (auto simp: config_wf_def config_step_attribute, simp add: config_attribute_bytes_def put16_def)
  moreover have "concat (map config_attribute_bytes (ConfigurationAttribute c)) \<noteq> []"
    using assms by (cases "ConfigurationAttribute c") (auto simp: config_wf_def config_attribute_bytes_def put16_def)
  ultimately show ?thesis
    by (simp add: Configuration_unmarshal_def Configuration_marshal_def slice_eval new_defs
        fold_append_attributes del: concat_eq_Nil_conv)
qed

section \<open>Panics\<close>

lemma simple_decoders_no_panic:
  "KeyExchange_unmarshal k raw \<noteq> Panic" "IdentificationInitiator_unmarshal i raw \<noteq> Panic"
  "IdentificationResponder_unmarshal i raw \<noteq> Panic" "Certificate_unmarshal ce raw \<noteq> Panic"
  "CertificateRequest_unmarshal cr raw \<noteq> Panic" "Authentication_unmarshal au raw \<noteq> Panic"
  "Nonce_unmarshal n raw \<noteq> Panic" "VendorID_unmarshal v raw \<noteq> Panic"
  "Encrypted_unmarshal e raw \<noteq> Panic" "Delete_unmarshal d raw \<noteq> Panic"
  by (auto simp: KeyExchange_unmarshal_def IdentificationInitiator_unmarshal_def
      IdentificationResponder_unmarshal_def Certificate_unmarshal_def CertificateRequest_unmarshal_def
      Authentication_unmarshal_def Nonce_unmarshal_def VendorID_unmarshal_def Encrypted_unmarshal_def
      Delete_unmarshal_def go_simps panic_iffs)

lemma selector_fields_no_panic: "8 + n + n \<le> slen raw \<Longrightarrow> selector_fields raw n \<noteq> Panic"
  by (auto simp: selector_fields_def go_simps panic_iffs)

lemma selector_unmarshal_no_panic: "selector_unmarshal raw \<noteq> Panic"
  unfolding selector_unmarshal_def
  by (simp add: go_simps panic_iffs selector_fields_no_panic word_unat_eq_iff)

lemma selectors_loop_no_panic: "selectors_loop n raw \<noteq> Panic"
  by (induction n arbitrary: raw) (auto simp: go_simps selector_unmarshal_no_panic split: prod.splits)

lemma ts_unmarshal_no_panic:
  "TrafficSelectorInitiator_unmarshal ts raw \<noteq> Panic" "TrafficSelectorResponder_unmarshal ts raw \<noteq> Panic"
  by (auto simp: TrafficSelectorInitiator_unmarshal_def TrafficSelectorResponder_unmarshal_def go_simps
      panic_iffs selectors_loop_no_panic)

text \<open>The notification decoder panics exactly when \<open>4 + spiSize\<close> overflows its \<open>uint8\<close>.\<close>

lemma Notification_panic_iff:
  "Notification_unmarshal n raw = Panic \<longleftrightarrow> 4 \<le> slen raw \<and> 252 \<le> unat (sdata raw ! 1)"
proof (cases "4 \<le> slen raw")
  case True
  have "unat (4 + sdata raw ! 1) < 4 \<longleftrightarrow> 252 \<le> unat (sdata raw ! 1)"
    using unat_u8_less [of "sdata raw ! 1"]
    by (cases "252 \<le> unat (sdata raw ! 1)") (auto simp: unat_word_ariths mod_if)
  with True show ?thesis
    by (auto simp: Notification_unmarshal_def go_simps panic_iffs at_def outcome_Ok_iff)
qed (auto simp: Notification_unmarshal_def)

end
