(* ===== verification/Tngf_Ike_SA.thy ===== *)
theory Tngf_Ike_SA
  imports Tngf_Ike_Types
begin

text \<open>
  The Security Association payload (\<^verbatim>\<open>SecurityAssociation.marshal\<close> and \<^verbatim>\<open>unmarshal\<close> of
  \<^verbatim>\<open>NFs/tngf/pkg/ike/message/message.go\<close>): nested loops over proposals and transforms. The
  sums \<open>8 + spiSize\<close> (\<open>uint8\<close>) and \<open>12 + attributeLength\<close> (\<open>uint16\<close>) wrap as in the source,
  and slice expressions are checked against the capacity.
\<close>

section \<open>Encoding\<close>

definition attribute_marshal :: "Transform \<Rightarrow> (ike_error, bytes) outcome" where
  "attribute_marshal t =
     (let attributeFormatAndType = push_bit 15 (ucast (AttributeFormat t) AND 1) OR AttributeType t
      in if \<not> AttributePresent t then Ok []
         else if AttributeFormat t = 0 then
           if length (VariableLengthAttributeValue t) = 0 then Err AttributeNotSpecified
           else Ok (put16 attributeFormatAndType @ put16 (len16 (VariableLengthAttributeValue t))
                    @ VariableLengthAttributeValue t)
         else Ok (put16 attributeFormatAndType @ put16 (AttributeValue t)))"

text \<open>One transform; the first octet tells whether it is the last one of its proposal.\<close>

definition transform_bytes :: "u8 \<Rightarrow> Transform \<Rightarrow> bytes \<Rightarrow> bytes" where
  "transform_bytes mark t attributeData =
     [mark, 0] @ put16 (word_of_nat (8 + length attributeData)) @ [TransformType t, 0]
     @ put16 (TransformID t) @ attributeData"

fun transforms_marshal :: "Transform list \<Rightarrow> (ike_error, bytes) outcome" where
  "transforms_marshal [] = Ok []"
| "transforms_marshal (t # ts) =
     obind (attribute_marshal t) (\<lambda>a.
     obind (transforms_marshal ts) (\<lambda>rest.
       Ok (transform_bytes (if ts \<noteq> [] then 3 else 0) t a @ rest)))"

definition transformList :: "Proposal \<Rightarrow> Transform list" where
  "transformList p = EncryptionAlgorithm p @ PseudorandomFunction p @ IntegrityAlgorithm p
     @ DiffieHellmanGroup p @ ExtendedSequenceNumbers p"

definition proposal_bytes :: "u8 \<Rightarrow> Proposal \<Rightarrow> bytes \<Rightarrow> bytes" where
  "proposal_bytes mark p transformData =
     [mark, 0] @ put16 (word_of_nat (8 + length (prop_SPI p) + length transformData))
     @ [ProposalNumber p, prop_ProtocolID p, len8 (prop_SPI p), len8 (transformList p)]
     @ prop_SPI p @ transformData"

fun proposals_marshal :: "Proposal list \<Rightarrow> (ike_error, bytes) outcome" where
  "proposals_marshal [] = Ok []"
| "proposals_marshal (p # ps) =
     (if length (transformList p) = 0 then Err ProposalHasNoTransform
      else obind (transforms_marshal (transformList p)) (\<lambda>td.
           obind (proposals_marshal ps) (\<lambda>rest.
             Ok (proposal_bytes (if ps \<noteq> [] then 2 else 0) p td @ rest))))"

definition SecurityAssociation_marshal :: "SecurityAssociation \<Rightarrow> (ike_error, bytes) outcome" where
  "SecurityAssociation_marshal sa = proposals_marshal (Proposals sa)"

section \<open>Decoding\<close>

text \<open>The switch on the transform type; a transform of an unknown type is dropped.\<close>

definition add_transform :: "Transform \<Rightarrow> Proposal \<Rightarrow> Proposal" where
  "add_transform t p =
     (if TransformType t = TypeEncryptionAlgorithm then
        p\<lparr>EncryptionAlgorithm := EncryptionAlgorithm p @ [t]\<rparr>
      else if TransformType t = TypePseudorandomFunction then
        p\<lparr>PseudorandomFunction := PseudorandomFunction p @ [t]\<rparr>
      else if TransformType t = TypeIntegrityAlgorithm then
        p\<lparr>IntegrityAlgorithm := IntegrityAlgorithm p @ [t]\<rparr>
      else if TransformType t = TypeDiffieHellmanGroup then
        p\<lparr>DiffieHellmanGroup := DiffieHellmanGroup p @ [t]\<rparr>
      else if TransformType t = TypeExtendedSequenceNumbers then
        p\<lparr>ExtendedSequenceNumbers := ExtendedSequenceNumbers p @ [t]\<rparr>
      else p)"

text \<open>
  The attribute part of a transform. In the TLV branch \<^verbatim>\<open>copy\<close> has a nil destination: it copies
  nothing, but its source \<^verbatim>\<open>transformData[12:12+attributeLength]\<close> is still evaluated.
\<close>

definition attribute_unmarshal :: "Transform \<Rightarrow> u16 \<Rightarrow> slice \<Rightarrow> (ike_error, Transform) outcome" where
  "attribute_unmarshal t transformLength d =
     (if transformLength > 8 then
        obind (at d 8) (\<lambda>b8.
        obind (read16 d 8) (\<lambda>ft.
          let format = drop_bit 7 (b8 AND 0x80);
              t' = t\<lparr>AttributePresent := True, AttributeFormat := format, AttributeType := ft AND 0x7f\<rparr>
          in if format = 0 then
               obind (read16 d 10) (\<lambda>attributeLength.
                 if 12 + attributeLength \<noteq> transformLength
                 then Err (IllegalAttributeLength attributeLength transformLength)
                 else obind (sub d 12 (unat (12 + attributeLength))) (\<lambda>_. Ok t'))
             else obind (read16 d 10) (\<lambda>v. Ok (t'\<lparr>AttributeValue := v\<rparr>))))
      else Ok t)"

definition transform_step :: "Proposal \<Rightarrow> slice \<Rightarrow> (ike_error, Proposal \<times> slice) outcome" where
  "transform_step p d =
     (if slen d < 8 then Err NoBytesForNextTransform
      else obind (read16 d 2) (\<lambda>transformLength.
        if transformLength < 8 then Err IllegalTransformLength
        else if slen d < unat transformLength then Err TransformLengthMismatch
        else obind (at d 4) (\<lambda>ty.
             obind (read16 d 6) (\<lambda>ident.
             obind (attribute_unmarshal (new_Transform\<lparr>TransformType := ty, TransformID := ident\<rparr>)
                      transformLength d) (\<lambda>t.
             obind (sub_from d (unat transformLength)) (\<lambda>rest. Ok (add_transform t p, rest)))))))"

lemma transform_step_shrinks: "transform_step p d = Ok (p', d') \<Longrightarrow> 0 < slen d \<Longrightarrow> slen d' < slen d"
  by (auto simp: transform_step_def go_simps word_less_nat_alt split: if_splits dest!: slen_sub_from)

function transform_loop :: "Proposal \<Rightarrow> slice \<Rightarrow> (ike_error, Proposal) outcome" where
  "transform_loop p d =
     (if slen d = 0 then Ok p else obind (transform_step p d) (\<lambda>(p', d'). transform_loop p' d'))"
  by auto
termination
  by (relation "measure (\<lambda>(p, d). slen d)") (auto dest: transform_step_shrinks)

declare transform_loop.simps [simp del]

interpretation sa_transforms: slice_loop transform_step transform_loop
  by unfold_locales (rule transform_loop.simps, erule (1) transform_step_shrinks)

definition proposal_step :: "SecurityAssociation \<Rightarrow> slice \<Rightarrow> (ike_error, SecurityAssociation \<times> slice) outcome" where
  "proposal_step sa raw =
     (if slen raw < 8 then Err NoBytesForNextProposal
      else obind (read16 raw 2) (\<lambda>proposalLength.
        if proposalLength < 8 then Err IllegalProposalLength
        else if slen raw < unat proposalLength then Err ProposalLengthMismatch
        else obind (at raw 4) (\<lambda>num.
             obind (at raw 5) (\<lambda>pid.
             obind (at raw 6) (\<lambda>spiSize.
             obind (if spiSize > 0 then
                      if slen raw < unat (8 + spiSize) then Err NoBytesForProposalSPI
                      else omap sdata (sub raw 8 (unat (8 + spiSize)))
                    else Ok []) (\<lambda>spi.
             obind (sub raw (unat (8 + spiSize)) (unat proposalLength)) (\<lambda>transformData.
             obind (transform_loop
                     (new_Proposal\<lparr>ProposalNumber := num, prop_ProtocolID := pid, prop_SPI := spi\<rparr>)
                     transformData) (\<lambda>p.
             obind (sub_from raw (unat proposalLength)) (\<lambda>rest.
               Ok (sa\<lparr>Proposals := Proposals sa @ [p]\<rparr>, rest))))))))))"

lemma proposal_step_shrinks: "proposal_step sa d = Ok (sa', d') \<Longrightarrow> 0 < slen d \<Longrightarrow> slen d' < slen d"
  by (auto simp: proposal_step_def go_simps word_less_nat_alt split: if_splits dest!: slen_sub_from)

function proposal_loop :: "SecurityAssociation \<Rightarrow> slice \<Rightarrow> (ike_error, SecurityAssociation) outcome" where
  "proposal_loop sa d =
     (if slen d = 0 then Ok sa else obind (proposal_step sa d) (\<lambda>(sa', d'). proposal_loop sa' d'))"
  by auto
termination
  by (relation "measure (\<lambda>(sa, d). slen d)") (auto dest: proposal_step_shrinks)

declare proposal_loop.simps [simp del]

interpretation sa_proposals: slice_loop proposal_step proposal_loop
  by unfold_locales (rule proposal_loop.simps, erule (1) proposal_step_shrinks)

definition SecurityAssociation_unmarshal ::
    "SecurityAssociation \<Rightarrow> slice \<Rightarrow> (ike_error, SecurityAssociation) outcome" where
  "SecurityAssociation_unmarshal sa raw = proposal_loop sa raw"

section \<open>What a security association becomes on the wire\<close>

text \<open>
  A transform the encoder can write: no attribute at all, a TV attribute (16-bit value) or a
  TLV attribute with a non-empty value.
\<close>

definition transform_wf :: "Transform \<Rightarrow> bool" where
  "transform_wf t \<longleftrightarrow>
     (if AttributePresent t then
        AttributeType t < 0x8000 \<and>
        (AttributeFormat t = 1 \<and> VariableLengthAttributeValue t = [] \<or>
         AttributeFormat t = 0 \<and> AttributeValue t = 0 \<and> VariableLengthAttributeValue t \<noteq> [] \<and>
         length (VariableLengthAttributeValue t) < 65524)
      else AttributeFormat t = 0 \<and> AttributeType t = 0 \<and> AttributeValue t = 0 \<and>
        VariableLengthAttributeValue t = [])"

text \<open>
  What the decoder reconstructs of it: the attribute type is cut to seven bits and the value of a
  TLV attribute is lost.
\<close>

definition received_transform :: "Transform \<Rightarrow> Transform" where
  "received_transform t = t\<lparr>AttributeType := AttributeType t AND 0x7f, VariableLengthAttributeValue := []\<rparr>"

definition attribute_bytes :: "Transform \<Rightarrow> bytes" where
  "attribute_bytes t =
     (if \<not> AttributePresent t then []
      else if AttributeFormat t = 0 then
        put16 (AttributeType t) @ put16 (len16 (VariableLengthAttributeValue t)) @ VariableLengthAttributeValue t
      else put16 (0x8000 OR AttributeType t) @ put16 (AttributeValue t))"

lemma attribute_marshal_wf: "transform_wf t \<Longrightarrow> attribute_marshal t = Ok (attribute_bytes t)"
  by (auto simp: attribute_marshal_def attribute_bytes_def transform_wf_def split: if_splits)

lemma high_bit: "drop_bit 7 ((ucast (drop_bit 8 w) :: u8) AND 0x80) = ucast (drop_bit 15 w)" for w :: u16
proof -
  have "drop_bit 7 ((ucast (drop_bit 8 w) :: u8) AND 0x80) = drop_bit 7 (ucast (drop_bit 8 w)) AND 1"
    by simp
  also have "\<dots> = ucast (drop_bit 15 w)"
    by (rule bit_word_eqI) (auto simp: bit_simps bit_1_iff dest: bit_imp_le_length)
  finally show ?thesis .
qed

lemma top_bit_clear: "w < 0x8000 \<Longrightarrow> drop_bit 15 w = 0" for w :: u16
  by (simp add: drop_bit_eq_div div_word_less)

lemma high_bit_TV: "w < 0x8000 \<Longrightarrow> drop_bit 7 ((ucast (drop_bit 8 (0x8000 OR w)) :: u8) AND 0x80) = 1" for w :: u16
  by (subst high_bit) (simp add: top_bit_clear)

lemma high_bit_TLV: "w < 0x8000 \<Longrightarrow> drop_bit 7 ((ucast (drop_bit 8 w) :: u8) AND 0x80) = 0" for w :: u16
  by (subst high_bit) (simp add: top_bit_clear)

lemma type_TV: "(0x8000 OR w) AND 0x7f = (w AND 0x7f :: u16)"
  by (simp add: bit.conj_disj_distrib2)

lemma unat_attribute_sum: "length v < 65524 \<Longrightarrow> unat (12 + len16 v) = 12 + length v"
  by (subst unat_add_lem [THEN iffD1]) auto

lemma transform_header:
  assumes "length a < 65528"
  shows "slen (Slice (transform_bytes m t a @ rest) sp) = 8 + length a + length rest"
    and "read16 (Slice (transform_bytes m t a @ rest) sp) 2 = Ok (word_of_nat (8 + length a))"
    and "at (Slice (transform_bytes m t a @ rest) sp) 4 = Ok (TransformType t)"
    and "read16 (Slice (transform_bytes m t a @ rest) sp) 6 = Ok (TransformID t)"
    and "sub_from (Slice (transform_bytes m t a @ rest) sp) (8 + length a) = Ok (Slice rest sp)"
  by (simp_all add: transform_bytes_def slice_eval drop_header del: drop_drop)

lemma attribute_bytes_length: "transform_wf t \<Longrightarrow> length (attribute_bytes t) < 65528"
  by (auto simp: attribute_bytes_def transform_wf_def split: if_splits)

lemma attribute_unmarshal_bytes:
  assumes wf: "transform_wf t"
  shows "attribute_unmarshal (new_Transform\<lparr>TransformType := TransformType t, TransformID := TransformID t\<rparr>)
      (word_of_nat (8 + length (attribute_bytes t)))
      (Slice (transform_bytes m t (attribute_bytes t) @ rest) sp) = Ok (received_transform t)"
proof -
  let ?n = "word_of_nat (8 + length (attribute_bytes t)) :: u16"
  have n: "unat ?n = 8 + length (attribute_bytes t)"
    by (rule unat_u16) (use attribute_bytes_length [OF wf] in simp)
  consider (none) "\<not> AttributePresent t"
    | (tv) "AttributePresent t" "AttributeFormat t = 1"
    | (tlv) "AttributePresent t" "AttributeFormat t = 0"
    using wf by (auto simp: transform_wf_def split: if_splits)
  then show ?thesis
  proof cases
    case none
    with wf show ?thesis
      by (auto simp: attribute_unmarshal_def attribute_bytes_def transform_wf_def received_transform_def new_defs)
  next
    case tv
    with wf show ?thesis
      by (auto simp: attribute_unmarshal_def attribute_bytes_def transform_bytes_def transform_wf_def
          received_transform_def new_defs slice_eval high_bit_TV type_TV Let_def simp del: drop_bit_or drop_bit_and)
  next
    case tlv
    let ?v = "VariableLengthAttributeValue t"
    from tlv wf have v: "length ?v < 65524" "AttributeType t < 0x8000" "AttributeValue t = 0"
      by (auto simp: transform_wf_def)
    have b: "attribute_bytes t = put16 (AttributeType t) @ put16 (len16 ?v) @ ?v"
      using tlv by (simp add: attribute_bytes_def)
    have "?n = 12 + len16 ?v" "8 < ?n"
      using n v b by (auto simp: word_unat_eq_iff unat_attribute_sum word_less_nat_alt)
    with tlv v b n show ?thesis
      by (simp add: attribute_unmarshal_def transform_bytes_def received_transform_def new_defs slice_eval
          high_bit_TLV Let_def unat_attribute_sum del: drop_bit_and)
  qed
qed

lemma transform_step_bytes:
  assumes wf: "transform_wf t"
  shows "transform_step p (Slice (transform_bytes m t (attribute_bytes t) @ rest) sp) =
    Ok (add_transform (received_transform t) p, Slice rest sp)"
proof -
  let ?n = "word_of_nat (8 + length (attribute_bytes t)) :: u16"
  note len = attribute_bytes_length [OF wf]
  have n: "unat ?n = 8 + length (attribute_bytes t)" by (rule unat_u16) (use len in simp)
  then have "\<not> ?n < 8" by (simp add: word_less_nat_alt)
  with n show ?thesis
    unfolding transform_step_def transform_header [OF len] obind.simps
    by (simp add: attribute_unmarshal_bytes [OF wf, simplified] transform_header [OF len])
qed

fun transforms_bytes :: "Transform list \<Rightarrow> bytes" where
  "transforms_bytes [] = []"
| "transforms_bytes (t # ts) = transform_bytes (if ts \<noteq> [] then 3 else 0) t (attribute_bytes t) @ transforms_bytes ts"

lemma transforms_marshal_wf:
  "(\<And>t. t \<in> set ts \<Longrightarrow> transform_wf t) \<Longrightarrow> transforms_marshal ts = Ok (transforms_bytes ts)"
  by (induction ts) (simp_all add: attribute_marshal_wf)

lemma transform_bytes_nonempty: "transform_bytes m t a \<noteq> []"
  by (simp add: transform_bytes_def)

lemma transform_loop_bytes:
  "(\<And>t. t \<in> set ts \<Longrightarrow> transform_wf t) \<Longrightarrow>
   transform_loop p (Slice (transforms_bytes ts) sp) = Ok (fold add_transform (map received_transform ts) p)"
proof (induction ts arbitrary: p)
  case Nil
  then show ?case by (simp add: sa_transforms.loop_Nil)
next
  case (Cons t ts)
  then show ?case
    by (simp add: sa_transforms.loop_step [OF transform_bytes_nonempty transform_step_bytes])
qed

lemma fold_add_transform:
  "fold add_transform ts p =
   p\<lparr>EncryptionAlgorithm := EncryptionAlgorithm p @ filter (\<lambda>t. TransformType t = TypeEncryptionAlgorithm) ts,
     PseudorandomFunction := PseudorandomFunction p @ filter (\<lambda>t. TransformType t = TypePseudorandomFunction) ts,
     IntegrityAlgorithm := IntegrityAlgorithm p @ filter (\<lambda>t. TransformType t = TypeIntegrityAlgorithm) ts,
     DiffieHellmanGroup := DiffieHellmanGroup p @ filter (\<lambda>t. TransformType t = TypeDiffieHellmanGroup) ts,
     ExtendedSequenceNumbers := ExtendedSequenceNumbers p
       @ filter (\<lambda>t. TransformType t = TypeExtendedSequenceNumbers) ts\<rparr>"
  by (induction ts arbitrary: p) (simp_all add: add_transform_def)

text \<open>A proposal the encoder accepts, with every transform in the container of its type.\<close>

definition proposal_wf :: "Proposal \<Rightarrow> bool" where
  "proposal_wf p \<longleftrightarrow>
     length (prop_SPI p) < 248 \<and> transformList p \<noteq> [] \<and>
     (\<forall>t \<in> set (transformList p). transform_wf t) \<and>
     8 + length (prop_SPI p) + length (transforms_bytes (transformList p)) < 65536 \<and>
     (\<forall>t \<in> set (EncryptionAlgorithm p). TransformType t = TypeEncryptionAlgorithm) \<and>
     (\<forall>t \<in> set (PseudorandomFunction p). TransformType t = TypePseudorandomFunction) \<and>
     (\<forall>t \<in> set (IntegrityAlgorithm p). TransformType t = TypeIntegrityAlgorithm) \<and>
     (\<forall>t \<in> set (DiffieHellmanGroup p). TransformType t = TypeDiffieHellmanGroup) \<and>
     (\<forall>t \<in> set (ExtendedSequenceNumbers p). TransformType t = TypeExtendedSequenceNumbers)"

definition received_proposal :: "Proposal \<Rightarrow> Proposal" where
  "received_proposal p =
     p\<lparr>EncryptionAlgorithm := map received_transform (EncryptionAlgorithm p),
       PseudorandomFunction := map received_transform (PseudorandomFunction p),
       IntegrityAlgorithm := map received_transform (IntegrityAlgorithm p),
       DiffieHellmanGroup := map received_transform (DiffieHellmanGroup p),
       ExtendedSequenceNumbers := map received_transform (ExtendedSequenceNumbers p)\<rparr>"

definition received_sa :: "SecurityAssociation \<Rightarrow> SecurityAssociation" where
  "received_sa sa = sa\<lparr>Proposals := map received_proposal (Proposals sa)\<rparr>"

lemma type_received [simp]: "TransformType (received_transform t) = TransformType t"
  by (simp add: received_transform_def)

lemma filter_map_type:
  "(\<forall>t \<in> set ts. TransformType t = ty) \<Longrightarrow>
   filter (\<lambda>t. TransformType t = k) (map received_transform ts) = (if ty = k then map received_transform ts else [])"
  by (induction ts) auto

lemma fold_received:
  assumes "proposal_wf p"
  shows "fold add_transform (map received_transform (transformList p))
      (new_Proposal\<lparr>ProposalNumber := ProposalNumber p, prop_ProtocolID := prop_ProtocolID p, prop_SPI := prop_SPI p\<rparr>)
    = received_proposal p"
  using assms unfolding proposal_wf_def
  by (simp add: fold_add_transform transformList_def received_proposal_def new_defs filter_map_type del: filter_map)

lemma unat_eight_plus: "unat (w :: u8) < 248 \<Longrightarrow> unat (8 + w) = 8 + unat w"
  by (subst unat_add_lem [THEN iffD1]) auto

lemma proposal_header:
  fixes p :: Proposal and m :: u8 and d rest sp :: bytes
  defines "s \<equiv> Slice (proposal_bytes m p d @ rest) sp"
  shows "slen s = 8 + length (prop_SPI p) + length d + length rest"
    and "read16 s 2 = Ok (word_of_nat (8 + length (prop_SPI p) + length d))"
    and "at s 4 = Ok (ProposalNumber p)" and "at s 5 = Ok (prop_ProtocolID p)"
    and "at s 6 = Ok (len8 (prop_SPI p))"
    and "sub s 8 (8 + length (prop_SPI p)) = Ok (Slice (prop_SPI p) (d @ rest @ sp))"
    and "sub s (8 + length (prop_SPI p)) (8 + length (prop_SPI p) + length d) = Ok (Slice d (rest @ sp))"
    and "sub_from s (8 + length (prop_SPI p) + length d) = Ok (Slice rest sp)"
  unfolding s_def
  by (simp_all add: proposal_bytes_def slice_eval drop_header add.assoc del: drop_drop)

lemma proposal_step_bytes:
  assumes wf: "proposal_wf p"
  shows "proposal_step sa (Slice (proposal_bytes m p (transforms_bytes (transformList p)) @ rest) sp) =
    Ok (sa\<lparr>Proposals := Proposals sa @ [received_proposal p]\<rparr>, Slice rest sp)"
proof -
  let ?d = "transforms_bytes (transformList p)"
  let ?n = "word_of_nat (8 + length (prop_SPI p) + length ?d) :: u16"
  have n: "unat ?n = 8 + length (prop_SPI p) + length ?d"
    by (rule unat_u16) (use wf in \<open>simp add: proposal_wf_def\<close>)
  then have "\<not> ?n < 8" by (simp add: word_less_nat_alt)
  moreover have spi: "unat (8 + len8 (prop_SPI p)) = 8 + length (prop_SPI p)"
    using wf by (simp add: unat_eight_plus proposal_wf_def)
  moreover have "0 < len8 (prop_SPI p) \<longleftrightarrow> prop_SPI p \<noteq> []"
    using wf by (simp add: word_less_nat_alt proposal_wf_def)
  moreover have "transform_loop q (Slice ?d (rest @ sp)) = Ok (fold add_transform (map received_transform (transformList p)) q)" for q
    using wf by (intro transform_loop_bytes) (simp add: proposal_wf_def)
  note facts = n spi \<open>\<not> ?n < 8\<close> calculation(3) this
  show ?thesis
  proof (cases "prop_SPI p = []")
    case True
    note no_spi = proposal_header(7,8) [where p = p, unfolded True, simplified]
    have "fold add_transform (map received_transform (transformList p))
        (new_Proposal\<lparr>ProposalNumber := ProposalNumber p, prop_ProtocolID := prop_ProtocolID p, prop_SPI := []\<rparr>)
      = received_proposal p"
      using fold_received [OF wf] True by simp
    with facts True show ?thesis
      unfolding proposal_step_def proposal_header obind.simps
      by (simp add: no_spi)
  next
    case False
    with facts show ?thesis
      unfolding proposal_step_def proposal_header obind.simps
      by (simp add: proposal_header fold_received [OF wf, simplified])
  qed
qed

section \<open>The whole payload\<close>

fun proposals_bytes :: "Proposal list \<Rightarrow> bytes" where
  "proposals_bytes [] = []"
| "proposals_bytes (p # ps) =
     proposal_bytes (if ps \<noteq> [] then 2 else 0) p (transforms_bytes (transformList p)) @ proposals_bytes ps"

definition sa_wf :: "SecurityAssociation \<Rightarrow> bool" where
  "sa_wf sa \<longleftrightarrow> (\<forall>p \<in> set (Proposals sa). proposal_wf p)"

lemma proposal_wf_transforms:
  "proposal_wf p \<Longrightarrow> transformList p \<noteq> [] \<and> transforms_marshal (transformList p) = Ok (transforms_bytes (transformList p))"
  by (simp add: proposal_wf_def transforms_marshal_wf)

lemma proposals_marshal_wf:
  "(\<And>p. p \<in> set ps \<Longrightarrow> proposal_wf p) \<Longrightarrow> proposals_marshal ps = Ok (proposals_bytes ps)"
  by (induction ps) (simp_all add: proposal_wf_transforms)

lemma SecurityAssociation_marshal_wf:
  "sa_wf sa \<Longrightarrow> SecurityAssociation_marshal sa = Ok (proposals_bytes (Proposals sa))"
  by (simp add: SecurityAssociation_marshal_def sa_wf_def proposals_marshal_wf)

lemma proposal_bytes_nonempty: "proposal_bytes m p d \<noteq> []"
  by (simp add: proposal_bytes_def)

lemma proposal_loop_bytes:
  "(\<And>p. p \<in> set ps \<Longrightarrow> proposal_wf p) \<Longrightarrow>
   proposal_loop sa (Slice (proposals_bytes ps) sp) = Ok (sa\<lparr>Proposals := Proposals sa @ map received_proposal ps\<rparr>)"
proof (induction ps arbitrary: sa)
  case Nil
  then show ?case by (simp add: sa_proposals.loop_Nil)
next
  case (Cons p ps)
  then show ?case
    by (simp add: sa_proposals.loop_step [OF proposal_bytes_nonempty proposal_step_bytes])
qed

lemma SecurityAssociation_received:
  "sa_wf sa \<Longrightarrow>
   SecurityAssociation_unmarshal \<lparr>Proposals = []\<rparr> (Slice (proposals_bytes (Proposals sa)) sp) = Ok (received_sa sa)"
  by (simp add: SecurityAssociation_unmarshal_def sa_wf_def proposal_loop_bytes received_sa_def)

text \<open>Nothing is lost when no transform carries a TLV attribute or a large attribute type.\<close>

definition sa_plain :: "SecurityAssociation \<Rightarrow> bool" where
  "sa_plain sa \<longleftrightarrow> (\<forall>p \<in> set (Proposals sa). \<forall>t \<in> set (transformList p).
     VariableLengthAttributeValue t = [] \<and> AttributeType t < 0x80)"

lemma mask_7: "(t :: u16) < 0x80 \<Longrightarrow> t AND 0x7f = t"
  using bits_ident [of 7 t]
  by (simp add: drop_bit_eq_div div_word_less take_bit_eq_mask mask_eq_exp_minus_1)

lemma received_transform_plain:
  "VariableLengthAttributeValue t = [] \<Longrightarrow> AttributeType t < 0x80 \<Longrightarrow> received_transform t = t"
  by (simp add: received_transform_def mask_7)

lemma received_proposal_plain:
  "(\<And>t. t \<in> set (transformList p) \<Longrightarrow> received_transform t = t) \<Longrightarrow> received_proposal p = p"
  by (simp add: received_proposal_def transformList_def map_idI)

lemma received_sa_plain: "sa_plain sa \<Longrightarrow> received_sa sa = sa"
  by (simp add: received_sa_def sa_plain_def map_idI received_proposal_plain received_transform_plain)

section \<open>Panics\<close>

lemma wrapped_eight_plus: "248 \<le> unat w \<Longrightarrow> unat (8 + w :: u8) < 8"
  using unat_u8_less [of w] by (auto simp: unat_word_ariths mod_if)

text \<open>A first proposal that announces an SPI of 248 octets or more makes the decoder panic.\<close>

lemma proposal_step_spi_panic:
  assumes "8 \<le> slen raw" and "read16 raw 2 = (Ok n :: (ike_error, u16) outcome)" and "8 \<le> n" and "unat n \<le> slen raw"
    and "248 \<le> unat (sdata raw ! 6)"
  shows "proposal_step sa raw = Panic"
proof -
  have "0 < sdata raw ! 6" using assms(5) by (auto simp: word_less_nat_alt)
  moreover have "unat (8 + sdata raw ! 6) < 8" using assms(5) by (rule wrapped_eight_plus)
  ultimately show ?thesis
    using assms by (auto simp: proposal_step_def at_def sub_def not_less)
qed

end
