(* ===== verification/Tngf_Eap.thy ===== *)
theory Tngf_Eap
  imports Tngf_Ike_Types
begin

text \<open>
  The EAP payload of the IKE codec (\<^verbatim>\<open>NFs/tngf/pkg/ike/message/message.go\<close>): the four EAP type
  formats, \<open>EAP.marshal\<close> and \<open>EAP.unmarshal\<close>. Only the first element of the type-data container
  is written; a received packet has at most one.
\<close>

section \<open>Type formats\<close>

definition EAPIdentity_marshal :: "bytes \<Rightarrow> (ike_error, bytes) outcome" where
  "EAPIdentity_marshal identityData =
     (if length identityData = 0 then Err EAPIdentityEmpty else Ok ([EAPTypeIdentity] @ identityData))"

definition EAPIdentity_unmarshal :: "bytes \<Rightarrow> slice \<Rightarrow> (ike_error, bytes) outcome" where
  "EAPIdentity_unmarshal identityData raw =
     (if slen raw > 1 then obind (sub_from raw 1) (\<lambda>d. Ok (identityData @ sdata d)) else Ok identityData)"

definition EAPNotification_marshal :: "bytes \<Rightarrow> (ike_error, bytes) outcome" where
  "EAPNotification_marshal notificationData =
     (if length notificationData = 0 then Err EAPNotificationEmpty
      else Ok ([EAPTypeNotification] @ notificationData))"

definition EAPNotification_unmarshal :: "bytes \<Rightarrow> slice \<Rightarrow> (ike_error, bytes) outcome" where
  "EAPNotification_unmarshal notificationData raw =
     (if slen raw > 1 then obind (sub_from raw 1) (\<lambda>d. Ok (notificationData @ sdata d))
      else Ok notificationData)"

definition EAPNak_marshal :: "bytes \<Rightarrow> (ike_error, bytes) outcome" where
  "EAPNak_marshal nakData =
     (if length nakData = 0 then Err EAPNakEmpty else Ok ([EAPTypeNak] @ nakData))"

definition EAPNak_unmarshal :: "bytes \<Rightarrow> slice \<Rightarrow> (ike_error, bytes) outcome" where
  "EAPNak_unmarshal nakData raw =
     (if slen raw > 1 then obind (sub_from raw 1) (\<lambda>d. Ok (nakData @ sdata d)) else Ok nakData)"

definition EAPExpanded_marshal :: "u32 \<Rightarrow> u32 \<Rightarrow> bytes \<Rightarrow> (ike_error, bytes) outcome" where
  "EAPExpanded_marshal vendorID vendorType vendorData =
     (let typeAndVendorID = push_bit 24 (ucast EAPTypeExpanded) OR (vendorID AND 0x00ffffff);
          eapExpandedData = put32 typeAndVendorID @ put32 vendorType
      in if length vendorData = 0 then Ok eapExpandedData else Ok (eapExpandedData @ vendorData))"

definition EAPExpanded_unmarshal ::
    "u32 \<times> u32 \<times> bytes \<Rightarrow> slice \<Rightarrow> (ike_error, u32 \<times> u32 \<times> bytes) outcome" where
  "EAPExpanded_unmarshal e raw =
     (case e of (vendorID, vendorType, vendorData) \<Rightarrow>
        if slen raw > 0 then
          if slen raw < 8 then Err EAPExpandedTooShort
          else obind (read32 raw 0) (\<lambda>typeAndVendorID.
               obind (read32 raw 4) (\<lambda>vtype.
                 if slen raw > 8 then
                   obind (sub_from raw 8) (\<lambda>d.
                     Ok (typeAndVendorID AND 0x00ffffff, vtype, vendorData @ sdata d))
                 else Ok (typeAndVendorID AND 0x00ffffff, vtype, vendorData)))
        else Ok e)"

text \<open>Dynamic dispatch of the interface method \<open>marshal\<close>.\<close>

fun EAPTypeFormat_marshal :: "EAPTypeFormat \<Rightarrow> (ike_error, bytes) outcome" where
  "EAPTypeFormat_marshal (EAPIdentity d) = EAPIdentity_marshal d"
| "EAPTypeFormat_marshal (EAPNotification d) = EAPNotification_marshal d"
| "EAPTypeFormat_marshal (EAPNak d) = EAPNak_marshal d"
| "EAPTypeFormat_marshal (EAPExpanded i t d) = EAPExpanded_marshal i t d"

text \<open>The switch on the type octet, with \<open>unmarshal\<close> on the fresh value it creates.\<close>

definition EAPTypeFormat_unmarshal :: "u8 \<Rightarrow> slice \<Rightarrow> (ike_error, EAPTypeFormat) outcome" where
  "EAPTypeFormat_unmarshal eapType raw =
     (if eapType = EAPTypeIdentity then omap EAPIdentity (EAPIdentity_unmarshal [] raw)
      else if eapType = EAPTypeNotification then omap EAPNotification (EAPNotification_unmarshal [] raw)
      else if eapType = EAPTypeNak then omap EAPNak (EAPNak_unmarshal [] raw)
      else omap (\<lambda>(i, t, d). EAPExpanded i t d) (EAPExpanded_unmarshal (0, 0, []) raw))"

definition supported_eap_type :: "u8 \<Rightarrow> bool" where
  "supported_eap_type t \<longleftrightarrow>
     t \<in> {EAPTypeIdentity, EAPTypeNotification, EAPTypeNak, EAPTypeExpanded}"

section \<open>EAP\<close>

definition EAP_marshal :: "EAP \<Rightarrow> (ike_error, bytes) outcome" where
  "EAP_marshal eap =
     obind (case EAPTypeData eap of
              [] \<Rightarrow> Ok []
            | td # _ \<Rightarrow> wrap_err EAPTypeDataMarshalFailed (EAPTypeFormat_marshal td)) (\<lambda>d.
       Ok ([Code eap, Identifier eap] @ put16 (word_of_nat (4 + length d)) @ d))"

definition EAP_unmarshal :: "EAP \<Rightarrow> slice \<Rightarrow> (ike_error, EAP) outcome" where
  "EAP_unmarshal eap raw =
     (if slen raw > 0 then
        if slen raw < 4 then Err EAPTooShort
        else obind (read16 raw 2) (\<lambda>eapPayloadLength.
          if eapPayloadLength < 4 then Err EAPLengthTooSmall
          else if slen raw \<noteq> unat eapPayloadLength then Err EAPLengthMismatch
          else obind (at raw 0) (\<lambda>code.
               obind (at raw 1) (\<lambda>ident.
                 if eapPayloadLength = 4 then Ok (eap\<lparr>Code := code, Identifier := ident\<rparr>)
                 else obind (at raw 4) (\<lambda>eapType.
                   if \<not> supported_eap_type eapType then Err EAPTypeNotSupported
                   else obind (sub_from raw 4) (\<lambda>r.
                        obind (wrap_err EAPTypeDataUnmarshalFailed (EAPTypeFormat_unmarshal eapType r)) (\<lambda>td.
                          Ok (eap\<lparr>Code := code, Identifier := ident,
                                  EAPTypeData := EAPTypeData eap @ [td]\<rparr>)))))))
      else Ok eap)"

section \<open>Round trip\<close>

text \<open>The type data that survive the wire: non-empty, and a 24-bit vendor identifier.\<close>

fun eap_type_wf :: "EAPTypeFormat \<Rightarrow> bool" where
  "eap_type_wf (EAPIdentity d) \<longleftrightarrow> d \<noteq> []"
| "eap_type_wf (EAPNotification d) \<longleftrightarrow> d \<noteq> []"
| "eap_type_wf (EAPNak d) \<longleftrightarrow> d \<noteq> []"
| "eap_type_wf (EAPExpanded i t d) \<longleftrightarrow> i < 0x1000000"

fun eap_type_bytes :: "EAPTypeFormat \<Rightarrow> bytes" where
  "eap_type_bytes (EAPIdentity d) = EAPTypeIdentity # d"
| "eap_type_bytes (EAPNotification d) = EAPTypeNotification # d"
| "eap_type_bytes (EAPNak d) = EAPTypeNak # d"
| "eap_type_bytes (EAPExpanded i t d) = put32 (0xfe000000 OR i) @ put32 t @ d"

definition eap_wf :: "EAP \<Rightarrow> bool" where
  "eap_wf e \<longleftrightarrow> length (EAPTypeData e) \<le> 1 \<and>
     (\<forall>td \<in> set (EAPTypeData e). eap_type_wf td \<and> length (eap_type_bytes td) < 65532)"

lemma drop_bit_vendor: "(i::u32) < 0x1000000 \<Longrightarrow> drop_bit 24 i = 0"
  by (simp add: drop_bit_eq_div div_word_less)

lemma vendor_mask: "(i::u32) < 0x1000000 \<Longrightarrow> i AND 0x00ffffff = i"
  using drop_bit_vendor [of i] bits_ident [of 24 i]
  by (simp add: take_bit_eq_mask mask_eq_exp_minus_1)

lemma vendor_masked: "(0xfe000000 OR i) AND 0x00ffffff = (i AND 0x00ffffff :: u32)"
  by (simp add: bit.conj_disj_distrib2)

lemma top_octet: "ucast (drop_bit 8 (ucast (drop_bit 16 w) :: u16)) = (ucast (drop_bit 24 (w :: u32)) :: u8)"
  by (rule bit_word_eqI) (auto simp: bit_simps)

lemma put32_type_octet: "i < 0x1000000 \<Longrightarrow> put32 (0xfe000000 OR i) ! 0 = (254 :: u8)"
  by (simp add: put32_def put16_def top_octet drop_bit_vendor del: drop_bit_or unsigned_or_eq)
     (simp add: drop_bit_vendor)

lemma eap_type_marshal: "eap_type_wf td \<Longrightarrow> EAPTypeFormat_marshal td = Ok (eap_type_bytes td)"
  by (cases td) (auto simp: EAPIdentity_marshal_def EAPNotification_marshal_def EAPNak_marshal_def
      EAPExpanded_marshal_def vendor_mask Let_def)

lemma expanded_fields:
  "read32 (Slice (put32 v @ put32 t @ d) sp) 0 = Ok v"
  "read32 (Slice (put32 v @ put32 t @ d) sp) 4 = Ok t"
  "sub_from (Slice (put32 v @ put32 t @ d) sp) 8 = Ok (Slice d sp)"
  using read32_field [of "[]" 0 v "put32 t @ d" sp] read32_field [of "put32 v" 4 t d sp]
  by (simp_all add: sub_from_in_bounds)

lemma eap_type_roundtrip:
  assumes "eap_type_wf td"
  shows "supported_eap_type (eap_type_bytes td ! 0) \<and>
    EAPTypeFormat_unmarshal (eap_type_bytes td ! 0) (Slice (eap_type_bytes td) sp) = Ok td"
proof (cases td)
  case (EAPExpanded i t d)
  with assms have "eap_type_bytes td ! 0 = 254"
    by (simp add: put32_type_octet nth_append)
  with assms EAPExpanded show ?thesis
    by (simp add: EAPTypeFormat_unmarshal_def supported_eap_type_def EAPExpanded_unmarshal_def
        expanded_fields vendor_masked vendor_mask)
qed (use assms in \<open>auto simp: EAPTypeFormat_unmarshal_def supported_eap_type_def EAPIdentity_unmarshal_def
      EAPNotification_unmarshal_def EAPNak_unmarshal_def sub_from_in_bounds\<close>)

lemma eap_type_bytes_nonempty: "eap_type_bytes td \<noteq> []"
  by (cases td) (auto simp: put32_def put16_def)

lemma EAP_marshal_wf:
  "eap_wf e \<Longrightarrow> EAP_marshal e =
     Ok ([Code e, Identifier e] @ put16 (word_of_nat (4 + length (concat (map eap_type_bytes (EAPTypeData e)))))
         @ concat (map eap_type_bytes (EAPTypeData e)))"
  by (cases "EAPTypeData e") (auto simp: EAP_marshal_def eap_wf_def eap_type_marshal)

lemma EAP_header_fields:
  "read16 (Slice (c # i # put16 n @ d) sp) 2 = Ok n"
  "at (Slice (c # i # put16 n @ d) sp) 0 = Ok c"
  "at (Slice (c # i # put16 n @ d) sp) (Suc 0) = Ok i"
  "d \<noteq> [] \<Longrightarrow> at (Slice (c # i # put16 n @ d) sp) 4 = Ok (d ! 0)"
  "sub_from (Slice (c # i # put16 n @ d) sp) 4 = Ok (Slice d sp)"
  using read16_field [of "[c, i]" 2 n d sp]
  by (simp_all add: at_in_bounds sub_from_in_bounds put16_def)

lemmas EAP_header_only = EAP_header_fields [where d = "[]", simplified]

lemma EAP_roundtrip_bytes:
  assumes wf: "eap_wf e" and raw: "EAP_marshal e = Ok raw"
  shows "EAP_unmarshal new_EAP (Slice raw sp) = Ok e \<and> length raw < 65536 \<and> 4 \<le> length raw"
proof (cases "EAPTypeData e")
  case Nil
  with raw have [simp]: "raw = [Code e, Identifier e] @ put16 4 @ []"
    by (simp add: EAP_marshal_def)
  show ?thesis
    using Nil by (simp add: EAP_unmarshal_def new_EAP_def EAP_header_only)
next
  case (Cons td tds)
  with wf have td: "EAPTypeData e = [td]" "eap_type_wf td" "length (eap_type_bytes td) < 65532"
    by (auto simp: eap_wf_def)
  define n :: u16 where "n = word_of_nat (4 + length (eap_type_bytes td))"
  have n: "unat n = 4 + length (eap_type_bytes td)"
    unfolding n_def by (rule unat_u16) (use td in simp)
  from n have "\<not> n < 4" "n \<noteq> 4" using eap_type_bytes_nonempty [of td]
    by (auto simp: word_less_nat_alt)
  from td EAP_marshal_wf [OF wf] raw have r: "raw = [Code e, Identifier e] @ put16 n @ eap_type_bytes td"
    by (simp add: n_def)
  with td n \<open>\<not> n < 4\<close> \<open>n \<noteq> 4\<close> eap_type_roundtrip [OF td(2), of sp] show ?thesis
    by (simp add: EAP_unmarshal_def new_EAP_def eap_type_bytes_nonempty EAP_header_fields)
qed

text \<open>No input makes the EAP decoder panic.\<close>

lemma EAPTypeFormat_unmarshal_no_panic: "EAPTypeFormat_unmarshal t raw \<noteq> Panic"
  by (auto simp: EAPTypeFormat_unmarshal_def EAPIdentity_unmarshal_def EAPNotification_unmarshal_def
      EAPNak_unmarshal_def EAPExpanded_unmarshal_def go_simps sub_from_Panic_iff read_Panic_iff)

lemma EAP_unmarshal_no_panic: "EAP_unmarshal e raw \<noteq> Panic"
  by (auto simp: EAP_unmarshal_def go_simps sub_from_Panic_iff read_Panic_iff at_Panic_iff
      EAPTypeFormat_unmarshal_no_panic word_less_nat_alt word_unat_eq_iff)

end
