(* ===== verification/Tngf_Ike_Message.thy ===== *)
theory Tngf_Ike_Message
  imports Tngf_Ike_Payloads Tngf_Ike_SA Tngf_Eap
begin

text \<open>
  The payload chain and the message (\<^verbatim>\<open>IKEPayloadContainer\<close> and \<^verbatim>\<open>IKEMessage\<close> of
  \<^verbatim>\<open>NFs/tngf/pkg/ike/message/message.go\<close>) and the builders of \<^verbatim>\<open>build.go\<close>.
\<close>

section \<open>Dispatch of the interface methods\<close>

fun payload_marshal :: "IKEPayload \<Rightarrow> (ike_error, bytes) outcome" where
  "payload_marshal (P_SA x) = SecurityAssociation_marshal x"
| "payload_marshal (P_KE x) = Ok (KeyExchange_marshal x)"
| "payload_marshal (P_IDi x) = Ok (IdentificationInitiator_marshal x)"
| "payload_marshal (P_IDr x) = Ok (IdentificationResponder_marshal x)"
| "payload_marshal (P_CERT x) = Ok (Certificate_marshal x)"
| "payload_marshal (P_CERTreq x) = Ok (CertificateRequest_marshal x)"
| "payload_marshal (P_AUTH x) = Ok (Authentication_marshal x)"
| "payload_marshal (P_NiNr x) = Ok (Nonce_marshal x)"
| "payload_marshal (P_N x) = Ok (Notification_marshal x)"
| "payload_marshal (P_D x) = Delete_marshal x"
| "payload_marshal (P_V x) = Ok (VendorID_marshal x)"
| "payload_marshal (P_TSi x) = TrafficSelectorInitiator_marshal x"
| "payload_marshal (P_TSr x) = TrafficSelectorResponder_marshal x"
| "payload_marshal (P_SK x) = Ok (Encrypted_marshal x)"
| "payload_marshal (P_CP x) = Ok (Configuration_marshal x)"
| "payload_marshal (P_EAP x) = EAP_marshal x"

definition known_payload :: "u8 \<Rightarrow> bool" where
  "known_payload t \<longleftrightarrow>
     t \<in> {TypeSA, TypeKE, TypeIDi, TypeIDr, TypeCERT, TypeCERTreq, TypeAUTH, TypeNiNr, TypeN, TypeD,
          TypeV, TypeTSi, TypeTSr, TypeSK, TypeCP, TypeEAP}"

text \<open>
  The switch of \<^verbatim>\<open>Decode\<close> on a known type: a fresh struct of that type, filled by its
  \<open>unmarshal\<close>. \<open>next\<close> is the first octet of the generic header, kept by the encrypted payload.
\<close>

definition payload_unmarshal :: "u8 \<Rightarrow> u8 \<Rightarrow> slice \<Rightarrow> (ike_error, IKEPayload) outcome" where
  "payload_unmarshal t next d =
     (if t = TypeSA then omap P_SA (SecurityAssociation_unmarshal \<lparr>Proposals = []\<rparr> d)
      else if t = TypeKE then omap P_KE (KeyExchange_unmarshal new_KeyExchange d)
      else if t = TypeIDi then omap P_IDi (IdentificationInitiator_unmarshal new_Identification d)
      else if t = TypeIDr then omap P_IDr (IdentificationResponder_unmarshal new_Identification d)
      else if t = TypeCERT then omap P_CERT (Certificate_unmarshal new_Certificate d)
      else if t = TypeCERTreq then omap P_CERTreq (CertificateRequest_unmarshal new_CertificateRequest d)
      else if t = TypeAUTH then omap P_AUTH (Authentication_unmarshal new_Authentication d)
      else if t = TypeNiNr then omap P_NiNr (Nonce_unmarshal \<lparr>NonceData = []\<rparr> d)
      else if t = TypeN then omap P_N (Notification_unmarshal new_Notification d)
      else if t = TypeD then omap P_D (Delete_unmarshal new_Delete d)
      else if t = TypeV then omap P_V (VendorID_unmarshal \<lparr>VendorIDData = []\<rparr> d)
      else if t = TypeTSi then omap P_TSi (TrafficSelectorInitiator_unmarshal \<lparr>TrafficSelectors = []\<rparr> d)
      else if t = TypeTSr then omap P_TSr (TrafficSelectorResponder_unmarshal \<lparr>TrafficSelectors = []\<rparr> d)
      else if t = TypeSK then
        omap P_SK (Encrypted_unmarshal \<lparr>NextPayload = next, EncryptedData = []\<rparr> d)
      else if t = TypeCP then omap P_CP (Configuration_unmarshal new_Configuration d)
      else omap P_EAP (EAP_unmarshal new_EAP d))"

section \<open>The payload chain\<close>

text \<open>The type octet a payload announces: the next payload's type, or for a last encrypted
  payload the type of its first inner payload.\<close>

definition next_octet :: "IKEPayload \<Rightarrow> IKEPayload list \<Rightarrow> u8" where
  "next_octet p ps =
     (case ps of
        q # _ \<Rightarrow> payload_Type q
      | [] \<Rightarrow> (case p of P_SK e \<Rightarrow> NextPayload e | _ \<Rightarrow> NoNext))"

definition generic_payload :: "u8 \<Rightarrow> bytes \<Rightarrow> bytes" where
  "generic_payload nxt d = [nxt, 0] @ put16 (word_of_nat (4 + length d)) @ d"

fun IKEPayloadContainer_Encode :: "IKEPayload list \<Rightarrow> (ike_error, bytes) outcome" where
  "IKEPayloadContainer_Encode [] = Ok []"
| "IKEPayloadContainer_Encode (p # ps) =
     obind (wrap_err MarshalPayloadFailed (payload_marshal p)) (\<lambda>d.
     obind (IKEPayloadContainer_Encode ps) (\<lambda>rest.
       Ok (generic_payload (next_octet p ps) d @ rest)))"

text \<open>One iteration of \<^verbatim>\<open>IKEPayloadContainer.Decode\<close>: the state is the container and the type of
  the payload to come.\<close>

definition payload_step ::
    "IKEPayload list \<times> u8 \<Rightarrow> slice \<Rightarrow> (ike_error, (IKEPayload list \<times> u8) \<times> slice) outcome" where
  "payload_step st raw =
     (case st of (container, nextPayload) \<Rightarrow>
       if slen raw < 4 then Err NoBytesForNextPayload
       else obind (read16 raw 2) (\<lambda>payloadLength.
         if payloadLength < 4 then Err (IllegalPayloadLength payloadLength)
         else if slen raw < unat payloadLength then Err PayloadLengthMismatch
         else obind (at raw 0) (\<lambda>b0.
              obind (at raw 1) (\<lambda>b1.
                let criticalBit = drop_bit 7 (b1 AND 0x80)
                in if known_payload nextPayload then
                     obind (sub raw 4 (unat payloadLength)) (\<lambda>d.
                     obind (wrap_err UnmarshalPayloadFailed (payload_unmarshal nextPayload b0 d)) (\<lambda>p.
                     obind (sub_from raw (unat payloadLength)) (\<lambda>rest.
                       Ok ((container @ [p], b0), rest))))
                   else if criticalBit = 0 then
                     obind (sub_from raw (unat payloadLength)) (\<lambda>rest. Ok ((container, b0), rest))
                   else Err (UnknownPayloadType nextPayload)))))"

lemma payload_step_shrinks: "payload_step st d = Ok (st', d') \<Longrightarrow> 0 < slen d \<Longrightarrow> slen d' < slen d"
  by (cases st)
     (auto simp: payload_step_def go_simps word_less_nat_alt Let_def split: if_splits dest!: slen_sub_from)

function payload_loop :: "IKEPayload list \<times> u8 \<Rightarrow> slice \<Rightarrow> (ike_error, IKEPayload list \<times> u8) outcome" where
  "payload_loop st d =
     (if slen d = 0 then Ok st else obind (payload_step st d) (\<lambda>(st', d'). payload_loop st' d'))"
  by auto
termination
  by (relation "measure (\<lambda>(st, d). slen d)") (auto dest: payload_step_shrinks)

declare payload_loop.simps [simp del]

interpretation ike_payloads: slice_loop payload_step payload_loop
  by unfold_locales (rule payload_loop.simps, erule (1) payload_step_shrinks)

definition IKEPayloadContainer_Decode ::
    "IKEPayload list \<Rightarrow> u8 \<Rightarrow> slice \<Rightarrow> (ike_error, IKEPayload list) outcome" where
  "IKEPayloadContainer_Decode container nextPayload raw = omap fst (payload_loop (container, nextPayload) raw)"

section \<open>The message\<close>

definition ike_header :: "IKEMessage \<Rightarrow> u8 \<Rightarrow> u32 \<Rightarrow> bytes" where
  "ike_header m nextPayload len =
     put64 (InitiatorSPI m) @ put64 (ResponderSPI m) @ [nextPayload, Version m, ExchangeType m, Flags m]
     @ put32 (MessageID m) @ put32 len"

definition first_octet :: "IKEPayload list \<Rightarrow> u8" where
  "first_octet ps = (case ps of p # _ \<Rightarrow> payload_Type p | [] \<Rightarrow> NoNext)"

definition IKEMessage_Encode :: "IKEMessage \<Rightarrow> (ike_error, bytes) outcome" where
  "IKEMessage_Encode m =
     obind (wrap_err EncodePayloadFailed (IKEPayloadContainer_Encode (Payloads m))) (\<lambda>d.
       Ok (ike_header m (first_octet (Payloads m)) (word_of_nat (28 + length d)) @ d))"

definition IKEMessage_Decode :: "IKEMessage \<Rightarrow> slice \<Rightarrow> (ike_error, IKEMessage) outcome" where
  "IKEMessage_Decode m raw =
     (if slen raw < 28 then Err BrokenHeader
      else obind (read32 raw 24) (\<lambda>ikeMessageLength.
        if ikeMessageLength < 28 then Err (IllegalMessageLength ikeMessageLength)
        else if slen raw \<noteq> unat ikeMessageLength then Err MessageLengthMismatch
        else obind (at raw 16) (\<lambda>nextPayload.
             obind (read64 raw 0) (\<lambda>ispi.
             obind (read64 raw 8) (\<lambda>rspi.
             obind (at raw 17) (\<lambda>ver.
             obind (at raw 18) (\<lambda>ex.
             obind (at raw 19) (\<lambda>fl.
             obind (read32 raw 20) (\<lambda>mid.
             obind (sub_from raw 28) (\<lambda>rest.
             obind (wrap_err DecodePayloadFailed (IKEPayloadContainer_Decode (Payloads m) nextPayload rest)) (\<lambda>ps.
               Ok (m\<lparr>InitiatorSPI := ispi, ResponderSPI := rspi, Version := ver, ExchangeType := ex,
                     Flags := fl, MessageID := mid, Payloads := ps\<rparr>))))))))))))"

section \<open>Round trip\<close>

text \<open>A payload that the encoder accepts and that fits its length field.\<close>

fun payload_wf :: "IKEPayload \<Rightarrow> bool" where
  "payload_wf (P_SA x) \<longleftrightarrow> sa_wf x"
| "payload_wf (P_KE x) \<longleftrightarrow> KeyExchangeData x \<noteq> []"
| "payload_wf (P_IDi x) \<longleftrightarrow> IDData x \<noteq> []"
| "payload_wf (P_IDr x) \<longleftrightarrow> IDData x \<noteq> []"
| "payload_wf (P_CERT x) \<longleftrightarrow> CertificateData x \<noteq> []"
| "payload_wf (P_CERTreq x) \<longleftrightarrow> CertificationAuthority x \<noteq> []"
| "payload_wf (P_AUTH x) \<longleftrightarrow> AuthenticationData x \<noteq> []"
| "payload_wf (P_N x) \<longleftrightarrow> length (ntf_SPI x) < 252"
| "payload_wf (P_D x) \<longleftrightarrow> SPIs x \<noteq> []"
| "payload_wf (P_TSi x) \<longleftrightarrow> ts_wf x"
| "payload_wf (P_TSr x) \<longleftrightarrow> ts_wf x"
| "payload_wf (P_CP x) \<longleftrightarrow> config_wf x"
| "payload_wf (P_EAP x) \<longleftrightarrow> eap_wf x"
| "payload_wf _ \<longleftrightarrow> True"

text \<open>What arrives of a payload: the security association loses its TLV attribute values.\<close>

fun received :: "IKEPayload \<Rightarrow> IKEPayload" where
  "received (P_SA x) = P_SA (received_sa x)"
| "received p = p"

fun sk_next :: "IKEPayload \<Rightarrow> u8 \<Rightarrow> bool" where
  "sk_next (P_SK e) nxt \<longleftrightarrow> nxt = NextPayload e"
| "sk_next _ _ \<longleftrightarrow> True"

lemma payload_roundtrip:
  assumes "payload_wf p" and "payload_marshal p = Ok d" and "sk_next p nxt"
  shows "payload_unmarshal (payload_Type p) nxt (Slice d sp) = Ok (received p)"
  using assms
  by (cases p)
     (auto simp: payload_unmarshal_def SecurityAssociation_marshal_wf SecurityAssociation_received
       KeyExchange_roundtrip IdentificationInitiator_roundtrip IdentificationResponder_roundtrip
       Certificate_roundtrip CertificateRequest_roundtrip Authentication_roundtrip Nonce_roundtrip
       Notification_roundtrip Delete_roundtrip VendorID_roundtrip ts_marshal_wf ts_roundtrip
       Encrypted_roundtrip Configuration_roundtrip EAP_roundtrip_bytes)

lemma known_payload_Type: "known_payload (payload_Type p)"
  by (cases p) (simp_all add: known_payload_def)

text \<open>A payload with its header: the type of the next one, the octet of the critical bit, the length.\<close>

definition payload_frame :: "u8 \<Rightarrow> u8 \<Rightarrow> bytes \<Rightarrow> bytes" where
  "payload_frame n b d = [n, b] @ put16 (word_of_nat (4 + length d)) @ d"

lemma frame_header:
  "slen (Slice (payload_frame n b d @ rest) sp) = 4 + length d + length rest"
  "read16 (Slice (payload_frame n b d @ rest) sp) 2 = Ok (word_of_nat (4 + length d))"
  "at (Slice (payload_frame n b d @ rest) sp) 0 = Ok n" "at (Slice (payload_frame n b d @ rest) sp) 1 = Ok b"
  "sub (Slice (payload_frame n b d @ rest) sp) 4 (4 + length d) = Ok (Slice d (rest @ sp))"
  "sub_from (Slice (payload_frame n b d @ rest) sp) (4 + length d) = Ok (Slice rest sp)"
  by (simp_all add: payload_frame_def slice_eval drop_header del: drop_drop)

text \<open>One iteration on a payload whose length field is right.\<close>

lemma payload_step_frame:
  assumes "length d < 65532"
  shows "payload_step (c, t) (Slice (payload_frame n b d @ rest) sp) =
    (if known_payload t then obind (wrap_err UnmarshalPayloadFailed (payload_unmarshal t n (Slice d (rest @ sp))))
       (\<lambda>p. Ok ((c @ [p], n), Slice rest sp))
     else if drop_bit 7 (b AND 0x80) = 0 then Ok ((c, n), Slice rest sp) else Err (UnknownPayloadType t))"
proof -
  let ?n = "word_of_nat (4 + length d) :: u16"
  have n: "unat ?n = 4 + length d" by (rule unat_u16) (use assms in simp)
  then have "\<not> ?n < 4" by (simp add: word_less_nat_alt)
  with n assms show ?thesis
    unfolding payload_step_def prod.case frame_header obind.simps
    by (simp add: frame_header Let_def)
qed

lemma payload_step_generic:
  assumes "length d < 65532" and "known_payload t"
  shows "payload_step (c, t) (Slice (generic_payload n d @ rest) sp) =
    obind (wrap_err UnmarshalPayloadFailed (payload_unmarshal t n (Slice d (rest @ sp))))
      (\<lambda>p. Ok ((c @ [p], n), Slice rest sp))"
  using payload_step_frame [OF assms(1), of c t n 0 rest sp] assms(2)
  by (simp add: payload_frame_def generic_payload_def)

text \<open>A chain whose payloads are well-formed and fit; an inner encrypted payload must already
  carry the type of its successor.\<close>

fun chain_wf :: "IKEPayload list \<Rightarrow> bool" where
  "chain_wf [] \<longleftrightarrow> True"
| "chain_wf (p # ps) \<longleftrightarrow>
     payload_wf p \<and> (case payload_marshal p of Ok d \<Rightarrow> length d < 65532 | _ \<Rightarrow> False) \<and>
     sk_next p (next_octet p ps) \<and> chain_wf ps"

lemma chain_encodes: "chain_wf ps \<Longrightarrow> \<exists>raw. IKEPayloadContainer_Encode ps = Ok raw"
  by (induction ps) (auto split: outcome.splits)

lemma generic_payload_nonempty: "generic_payload n d \<noteq> []"
  by (simp add: generic_payload_def)

lemma chain_loop:
  "chain_wf ps \<Longrightarrow> IKEPayloadContainer_Encode ps = Ok raw \<Longrightarrow> (ps \<noteq> [] \<longrightarrow> np = payload_Type (hd ps)) \<Longrightarrow>
   \<exists>np'. payload_loop (c, np) (Slice raw sp) = Ok (c @ map received ps, np')"
proof (induction ps arbitrary: c np raw)
  case Nil
  then show ?case by (simp add: ike_payloads.loop_Nil)
next
  case (Cons p ps)
  from Cons.prems obtain d rest where d: "payload_marshal p = Ok d" "length d < 65532"
      "IKEPayloadContainer_Encode ps = Ok rest" "raw = generic_payload (next_octet p ps) d @ rest"
      and ps: "payload_wf p" "sk_next p (next_octet p ps)" "chain_wf ps" "np = payload_Type p"
    by (auto simp: go_simps)
  have "payload_step (c, np) (Slice raw sp) = Ok ((c @ [received p], next_octet p ps), Slice rest sp)"
    by (simp add: d ps payload_step_generic known_payload_Type payload_roundtrip)
  then have "payload_loop (c, np) (Slice raw sp) = payload_loop (c @ [received p], next_octet p ps) (Slice rest sp)"
    unfolding d by (rule ike_payloads.loop_step [OF generic_payload_nonempty])
  moreover have "ps \<noteq> [] \<longrightarrow> next_octet p ps = payload_Type (hd ps)"
    by (cases ps) (simp_all add: next_octet_def)
  ultimately show ?case
    using Cons.IH [OF ps(3) d(3), of "next_octet p ps" "c @ [received p]"] by simp
qed

lemma length_ike_header [simp]: "length (ike_header m n l) = 28"
  by (simp add: ike_header_def)

lemma ike_header_fields:
  fixes m :: IKEMessage and n :: u8 and l :: u32 and d sp :: bytes
  defines "s \<equiv> Slice (ike_header m n l @ d) sp"
  shows "slen s = 28 + length d" and "read32 s 24 = Ok l" and "at s 16 = Ok n"
    and "read64 s 0 = Ok (InitiatorSPI m)" and "read64 s 8 = Ok (ResponderSPI m)"
    and "at s 17 = Ok (Version m)" and "at s 18 = Ok (ExchangeType m)" and "at s 19 = Ok (Flags m)"
    and "read32 s 20 = Ok (MessageID m)" and "sub_from s 28 = Ok (Slice d sp)"
  unfolding s_def
  using read32_field [of "put64 (InitiatorSPI m) @ put64 (ResponderSPI m) @ [n, Version m, ExchangeType m, Flags m] @ put32 (MessageID m)" 24 l d sp]
    read32_field [of "put64 (InitiatorSPI m) @ put64 (ResponderSPI m) @ [n, Version m, ExchangeType m, Flags m]" 20 "MessageID m" "put32 l @ d" sp]
    read64_field [of "[]" 0 "InitiatorSPI m"] read64_field [of "put64 (InitiatorSPI m)" 8 "ResponderSPI m"]
  by (simp_all add: ike_header_def at_def sub_from_in_bounds nth_append)

text \<open>Decoding a message whose header is right is decoding its chain.\<close>

lemma IKEMessage_Decode_header:
  assumes "28 + length d < 4294967296"
  shows "IKEMessage_Decode m0 (Slice (ike_header m n (word_of_nat (28 + length d)) @ d) sp) =
    obind (wrap_err DecodePayloadFailed (IKEPayloadContainer_Decode (Payloads m0) n (Slice d sp)))
      (\<lambda>ps. Ok (m0\<lparr>InitiatorSPI := InitiatorSPI m, ResponderSPI := ResponderSPI m, Version := Version m,
        ExchangeType := ExchangeType m, Flags := Flags m, MessageID := MessageID m, Payloads := ps\<rparr>))"
proof -
  let ?n = "word_of_nat (28 + length d) :: u32"
  have n: "unat ?n = 28 + length d" using assms by (rule unat_u32)
  then have "\<not> ?n < 28" by (simp add: word_less_nat_alt)
  with n show ?thesis
    unfolding IKEMessage_Decode_def ike_header_fields obind.simps by simp
qed

lemma message_received:
  assumes "chain_wf (Payloads m)" and "IKEMessage_Encode m = Ok raw" and "length raw < 4294967296"
  shows "IKEMessage_Decode new_IKEMessage (Slice raw sp) = Ok (m\<lparr>Payloads := map received (Payloads m)\<rparr>)"
proof -
  obtain d where d: "IKEPayloadContainer_Encode (Payloads m) = Ok d"
      "raw = ike_header m (first_octet (Payloads m)) (word_of_nat (28 + length d)) @ d"
    using assms(2) by (auto simp: IKEMessage_Encode_def go_simps)
  have "Payloads m \<noteq> [] \<longrightarrow> first_octet (Payloads m) = payload_Type (hd (Payloads m))"
    by (cases "Payloads m") (simp_all add: first_octet_def)
  with chain_loop [OF assms(1) d(1), of "first_octet (Payloads m)" "[]" sp] obtain np' where
      "payload_loop ([], first_octet (Payloads m)) (Slice d sp) = Ok (map received (Payloads m), np')"
    by auto
  with assms(3) d(2) show ?thesis
    by (simp add: IKEMessage_Decode_header [simplified] IKEPayloadContainer_Decode_def new_IKEMessage_def)
qed

text \<open>Payloads that lose nothing.\<close>

fun payload_plain :: "IKEPayload \<Rightarrow> bool" where
  "payload_plain (P_SA x) \<longleftrightarrow> sa_plain x"
| "payload_plain _ \<longleftrightarrow> True"

lemma received_plain: "payload_plain p \<Longrightarrow> received p = p"
  by (cases p) (simp_all add: received_sa_plain)

section \<open>Panics\<close>

text \<open>Only three payload decoders can panic.\<close>

lemma payload_unmarshal_panic:
  "payload_unmarshal t nxt d = Panic \<Longrightarrow> t \<in> {TypeSA, TypeN, TypeCP}"
  by (auto simp: payload_unmarshal_def simple_decoders_no_panic ts_unmarshal_no_panic EAP_unmarshal_no_panic
      split: if_splits)

text \<open>Every input begins with a payload whose length field is right, or is refused.\<close>

lemma payload_frame_cases:
  assumes "bs \<noteq> []"
  obtains e where "payload_step st (Slice bs sp) = Err e"
  | n b d rest where "bs = payload_frame n b d @ rest" and "length d < 65532"
proof -
  have "4 \<le> length bs \<Longrightarrow> \<exists>n b x y r. bs = n # b # x # y # r"
    by (auto simp: numeral_eq_Suc Suc_le_length_iff)
  then consider "length bs < 4" | n b x y r where "bs = n # b # x # y # r"
    by (meson not_less)
  then show thesis
  proof cases
    case 1
    then show thesis
      by (intro that(1) [of NoBytesForNextPayload]) (simp add: payload_step_def split: prod.split)
  next
    case 2
    have r: "read16 (Slice bs sp) 2 = (Ok (be16 x y) :: (ike_error, u16) outcome)"
      using read16_field [of "[n, b]" 2 "be16 x y" r sp] by (simp add: 2)
    show thesis
    proof (cases "be16 x y < 4 \<or> length bs < unat (be16 x y)")
      case True
      then have "\<exists>e. payload_step st (Slice bs sp) = Err e"
        by (auto simp: payload_step_def r [unfolded 2] 2 split: prod.split)
      with that(1) show thesis by blast
    next
      case False
      let ?k = "unat (be16 x y) - 4"
      have k: "4 \<le> unat (be16 x y)" "length (take ?k r) = ?k" "?k < 65532"
        using False unat_u16_less [of "be16 x y"] by (auto simp: 2 word_less_nat_alt)
      then have "word_of_nat (4 + length (take ?k r)) = be16 x y"
        by simp
      then have "bs = payload_frame n b (take ?k r) @ drop ?k r"
        by (simp add: payload_frame_def 2)
      moreover have "length (take ?k r) < 65532" unfolding k(2) by (rule k(3))
      ultimately show thesis by (rule that(2))
    qed
  qed
qed

lemma payload_loop_frame:
  assumes "length d < 65532"
  shows "payload_loop st (Slice (payload_frame n b d @ rest) sp) =
    obind (payload_step st (Slice (payload_frame n b d @ rest) sp)) (\<lambda>(st', s'). payload_loop st' s')"
  by (subst payload_loop.simps) (simp add: payload_frame_def)

lemma payload_loop_prefix:
  assumes "payload_loop st (Slice pre (post @ sp)) = Ok st'"
  shows "payload_loop st (Slice (pre @ post) sp) = payload_loop st' (Slice post sp)"
  using assms
proof (induction "length pre" arbitrary: pre st rule: less_induct)
  case less
  show ?case
  proof (cases "pre = []")
    case True
    with less.prems show ?thesis by (simp add: ike_payloads.loop_Nil)
  next
    case False
    then show ?thesis
    proof (rule payload_frame_cases [where st = st and sp = "post @ sp"])
      fix e assume "payload_step st (Slice pre (post @ sp)) = Err e"
      with False less.prems show ?thesis by (subst (asm) payload_loop.simps) simp
    next
      fix n b d rest assume 1: "pre = payload_frame n b d @ rest" and d: "length d < 65532"
      obtain c t where st: "st = (c, t)" by (cases st)
      have shorter: "length rest < length pre" by (simp add: 1 payload_frame_def)
      show ?thesis
        using less.prems less.hyps [OF shorter] unfolding 1 append_assoc st payload_loop_frame [OF d] payload_step_frame [OF d]
        by (auto simp: go_simps split: if_splits)
    qed
  qed
qed

text \<open>A panic of the loop is a panic of the decoder of a payload, after all the payloads before it have been decoded.\<close>

lemma payload_loop_panic:
  "payload_loop (c, t) (Slice bs sp) = Panic \<longleftrightarrow>
   (\<exists>pre n b d rest c' t'. bs = pre @ payload_frame n b d @ rest \<and> length d < 65532 \<and>
      payload_loop (c, t) (Slice pre (payload_frame n b d @ rest @ sp)) = Ok (c', t') \<and>
      t' \<in> {TypeSA, TypeN, TypeCP} \<and> payload_unmarshal t' n (Slice d (rest @ sp)) = Panic)"
  (is "_ \<longleftrightarrow> ?panics c t bs")
proof
  show "payload_loop (c, t) (Slice bs sp) = Panic \<Longrightarrow> ?panics c t bs"
  proof (induction "length bs" arbitrary: bs c t rule: less_induct)
    case less
    then have "bs \<noteq> []" by (auto simp: ike_payloads.loop_Nil)
    then show ?case
    proof (rule payload_frame_cases [where st = "(c, t)" and sp = sp])
      fix e assume "payload_step (c, t) (Slice bs sp) = Err e"
      with \<open>bs \<noteq> []\<close> less.prems show ?thesis by (subst (asm) payload_loop.simps) simp
    next
      fix n b d rest assume bs: "bs = payload_frame n b d @ rest" and d: "length d < 65532"
      note step = payload_step_frame [OF d] and loop = payload_loop_frame [OF d]
      show ?thesis
      proof (cases "known_payload t \<and> payload_unmarshal t n (Slice d (rest @ sp)) = Panic")
        case True
        moreover have "bs = [] @ payload_frame n b d @ rest" by (simp add: bs)
        moreover have "payload_loop (c, t) (Slice [] (payload_frame n b d @ rest @ sp)) = Ok (c, t)"
          by (rule ike_payloads.loop_Nil)
        ultimately show ?thesis
          using d payload_unmarshal_panic [of t n "Slice d (rest @ sp)"] by blast
      next
        case False
        with less.prems obtain c1 where
          on: "payload_step (c, t) (Slice (payload_frame n b d @ r) sp') = Ok ((c1, n), Slice r sp')" if "r @ sp' = rest @ sp" for r sp'
          unfolding bs loop step by (auto simp: go_simps step split: if_splits)
        have "payload_loop (c1, n) (Slice rest sp) = Panic"
          using less.prems unfolding bs loop on [OF refl] by simp
        moreover have "length rest < length bs" by (simp add: bs payload_frame_def)
        ultimately obtain pre n' b' d' rest' c' t' where IH: "rest = pre @ payload_frame n' b' d' @ rest'" "length d' < 65532"
          "payload_loop (c1, n) (Slice pre (payload_frame n' b' d' @ rest' @ sp)) = Ok (c', t')" "t' \<in> {TypeSA, TypeN, TypeCP}"
          "payload_unmarshal t' n' (Slice d' (rest' @ sp)) = Panic"
          using less.hyps by blast
        have "payload_loop (c, t) (Slice (payload_frame n b d @ pre) (payload_frame n' b' d' @ rest' @ sp)) = Ok (c', t')"
          unfolding loop by (subst on) (simp_all add: IH)
        moreover have "bs = (payload_frame n b d @ pre) @ payload_frame n' b' d' @ rest'"
          by (simp add: bs IH)
        ultimately show ?thesis
          using IH by blast
      qed
    qed
  qed
next
  assume "?panics c t bs"
  then obtain pre n b d rest c' t' where 1: "bs = pre @ payload_frame n b d @ rest" "length d < 65532"
    "payload_loop (c, t) (Slice pre (payload_frame n b d @ rest @ sp)) = Ok (c', t')" "t' \<in> {TypeSA, TypeN, TypeCP}"
    "payload_unmarshal t' n (Slice d (rest @ sp)) = Panic"
    by blast
  then have "payload_loop (c, t) (Slice bs sp) = payload_loop (c', t') (Slice (payload_frame n b d @ rest) sp)"
    using payload_loop_prefix [of "(c, t)" pre "payload_frame n b d @ rest" sp] by simp
  also have "\<dots> = Panic"
    using 1(4,5) unfolding payload_loop_frame [OF 1(2)] payload_step_frame [OF 1(2)]
    by (auto simp: go_simps known_payload_def)
  finally show "payload_loop (c, t) (Slice bs sp) = Panic" .
qed

section \<open>Properties\<close>

text \<open>
  C11. Whole-message round trip. For a message whose payloads are well-formed and fit their
  length fields (and whose transforms carry no variable-length attribute), \<^verbatim>\<open>Encode\<close> succeeds,
  and \<^verbatim>\<open>Decode\<close> of the produced bytes into a fresh message gives back exactly the message: every
  header field and every payload of all sixteen kinds, in order.
\<close>

theorem ike_message_roundtrip:
  assumes "chain_wf (Payloads m)" and "\<forall>p \<in> set (Payloads m). payload_plain p"
  shows "\<exists>raw. IKEMessage_Encode m = Ok raw \<and>
    (length raw < 4294967296 \<longrightarrow> IKEMessage_Decode new_IKEMessage (Slice raw sp) = Ok m)"
proof -
  obtain raw where raw: "IKEMessage_Encode m = Ok raw"
    using chain_encodes [OF assms(1)] by (auto simp: IKEMessage_Encode_def)
  have "map received (Payloads m) = Payloads m"
    using assms(2) by (simp add: map_idI received_plain)
  with message_received [OF assms(1) raw, of sp] raw show ?thesis by auto
qed

definition example_transform :: Transform where
  "example_transform = new_Transform\<lparr>TransformType := 1, TransformID := 12, AttributePresent := True,
     AttributeFormat := 1, AttributeType := 14, AttributeValue := 256\<rparr>"

definition example_message :: IKEMessage where
  "example_message = \<lparr>InitiatorSPI = 0x1122334455667788, ResponderSPI = 0, Version = 0x20, ExchangeType = 34,
     Flags = 8, MessageID = 1, Payloads =
       [P_SA \<lparr>Proposals = [new_Proposal\<lparr>ProposalNumber := 1, prop_ProtocolID := 1,
                EncryptionAlgorithm := [example_transform]\<rparr>]\<rparr>,
        P_NiNr \<lparr>NonceData = [1, 2, 3]\<rparr>,
        P_TSi \<lparr>TrafficSelectors = [\<lparr>TSType = 7, IPProtocolID = 0, StartPort = 0, EndPort = 65535,
                StartAddress = [10, 0, 0, 0], EndAddress = [10, 0, 0, 255]\<rparr>]\<rparr>,
        P_SK \<lparr>NextPayload = 35, EncryptedData = [9, 9]\<rparr>]\<rparr>"

lemma example_message_wf:
  "chain_wf (Payloads example_message)" "\<forall>p \<in> set (Payloads example_message). payload_plain p"
  by (simp_all add: example_message_def example_transform_def new_defs sa_wf_def proposal_wf_def transformList_def
      transform_wf_def transform_bytes_def attribute_bytes_def SecurityAssociation_marshal_def attribute_marshal_def
      proposal_bytes_def Nonce_marshal_def ts_wf_def selector_wf_def selector_bytes_def selector_marshal_def
      TrafficSelectorInitiator_marshal_def Encrypted_marshal_def next_octet_def sa_plain_def)

theorem ike_message_roundtrip_witness:
  "\<exists>raw. IKEMessage_Encode example_message = Ok raw \<and>
    (length raw < 4294967296 \<longrightarrow> IKEMessage_Decode new_IKEMessage (Slice raw []) = Ok example_message)"
  by (rule ike_message_roundtrip [OF example_message_wf])

text \<open>
  What a security association loses. For every well-formed security association, TLV
  attributes included, the encoder succeeds and the decoder returns the same proposals, SPIs and
  transforms except that every attribute type is cut to its seven low bits and the value of every
  variable-length attribute is empty.
\<close>

theorem sa_attribute_values_lost:
  assumes "sa_wf sa"
  shows "\<exists>raw. SecurityAssociation_marshal sa = Ok raw \<and>
    SecurityAssociation_unmarshal \<lparr>Proposals = []\<rparr> (Slice raw sp) = Ok (received_sa sa)"
  using SecurityAssociation_marshal_wf [OF assms] SecurityAssociation_received [OF assms] by blast

definition example_tlv_sa :: SecurityAssociation where
  "example_tlv_sa = \<lparr>Proposals = [new_Proposal\<lparr>EncryptionAlgorithm :=
     [new_Transform\<lparr>TransformType := 1, TransformID := 20, AttributePresent := True, AttributeType := 300,
        VariableLengthAttributeValue := [1, 2, 3, 4]\<rparr>]\<rparr>]\<rparr>"

theorem sa_attribute_values_lost_witness:
  "\<exists>raw. SecurityAssociation_marshal example_tlv_sa = Ok raw \<and>
    SecurityAssociation_unmarshal \<lparr>Proposals = []\<rparr> (Slice raw []) = Ok (received_sa example_tlv_sa)"
  by (rule sa_attribute_values_lost)
     (simp add: example_tlv_sa_def new_defs sa_wf_def proposal_wf_def transformList_def transform_wf_def
       transform_bytes_def attribute_bytes_def)

text \<open>
  A payload of an unknown type is skipped when its critical bit is clear, so that decoding
  continues with the next payload and leaves the container as it was, and is refused with the
  unknown-type error when the bit is set.
\<close>

theorem unknown_payload_skipped_or_refused:
  assumes "\<not> known_payload t" and "length d < 65532"
  shows "IKEPayloadContainer_Decode c t (Slice ([n, b] @ put16 (word_of_nat (4 + length d)) @ d @ rest) sp) =
    (if drop_bit 7 (b AND 0x80) = 0 then IKEPayloadContainer_Decode c n (Slice rest sp)
     else Err (UnknownPayloadType t))"
  using payload_step_frame [OF assms(2), of c t n b rest sp] assms(1)
  unfolding IKEPayloadContainer_Decode_def payload_frame_def by (subst payload_loop.simps) simp

theorem unknown_payload_skipped_or_refused_witness:
  "\<not> known_payload 99 \<and>
   IKEPayloadContainer_Decode [] 99 (Slice ([40, 0] @ put16 (word_of_nat (4 + length [7])) @ [7] @ []) []) =
     (if drop_bit 7 ((0::u8) AND 0x80) = 0 then IKEPayloadContainer_Decode [] 40 (Slice [] [])
      else Err (UnknownPayloadType 99))"
  using unknown_payload_skipped_or_refused [of 99 "[7]" "[]" 40 0 "[]" "[]"]
  by (simp add: known_payload_def)

text \<open>
  C40. Where the decoder panics. Thirteen of the sixteen payload decoders never panic, whatever bytes and capacity the
  slice has. The message decoder panics exactly on a message whose length field is right and in which some payload, a security
  association, a notification or a configuration payload, makes its decoder panic after all the payloads before it have been decoded.
\<close>

theorem ike_panic_sources:
  "(t \<notin> {TypeSA, TypeN, TypeCP} \<longrightarrow> payload_unmarshal t nxt d \<noteq> Panic) \<and>
   (IKEMessage_Decode m (Slice raw sp) = Panic \<longleftrightarrow>
     28 \<le> length raw \<and> read32 (Slice raw sp) 24 = (Ok (word_of_nat (length raw)) :: (ike_error, u32) outcome) \<and> length raw < 2 ^ 32 \<and>
     (\<exists>pre n b d rest ps t. drop 28 raw = pre @ payload_frame n b d @ rest \<and> length d < 65532 \<and>
        payload_loop (Payloads m, raw ! 16) (Slice pre (payload_frame n b d @ rest @ sp)) = Ok (ps, t) \<and>
        t \<in> {TypeSA, TypeN, TypeCP} \<and> payload_unmarshal t n (Slice d (rest @ sp)) = Panic))"
proof -
  have "IKEMessage_Decode m (Slice raw sp) = Panic \<longleftrightarrow> 28 \<le> length raw \<and>
      read32 (Slice raw sp) 24 = (Ok (word_of_nat (length raw)) :: (ike_error, u32) outcome) \<and> length raw < 2 ^ 32 \<and>
      payload_loop (Payloads m, raw ! 16) (Slice (drop 28 raw) sp) = Panic"
  proof (cases "28 \<le> length raw")
    case True
    obtain w where w: "read32 (Slice raw sp) 24 = (Ok w :: (ike_error, u32) outcome)"
      using True read_Panic_iff(2) [of "Slice raw sp" 24] read_not_Err(2) by (cases "read32 (Slice raw sp) 24 :: (ike_error, u32) outcome") auto
    have len: "length raw = unat w \<longleftrightarrow> w = word_of_nat (length raw) \<and> length raw < 2 ^ 32"
      using unsigned_less [of w] by (auto simp: unat_u32)
    have rest: "sub_from (Slice raw sp) 28 = (Ok (Slice (drop 28 raw) sp) :: (ike_error, slice) outcome)"
      using True by (simp add: sub_from_def sub_def)
    show ?thesis
      using True len by (auto simp: IKEMessage_Decode_def w rest go_simps panic_iffs IKEPayloadContainer_Decode_def at_def word_less_nat_alt outcome_Ok_iff)
  qed (simp add: IKEMessage_Decode_def)
  then show ?thesis
    using payload_loop_panic [of "Payloads m" "raw ! 16" "drop 28 raw" sp] payload_unmarshal_panic by blast
qed

theorem ike_panic_sources_witness:
  "payload_unmarshal TypeKE 0 (Slice [0, 14, 0] [1]) \<noteq> Panic \<and> IKEMessage_Decode new_IKEMessage (Slice [0, 14, 0] []) \<noteq> Panic"
  using ike_panic_sources [of TypeKE 0 "Slice [0, 14, 0] [1]" new_IKEMessage "[0, 14, 0]" "[]"] by simp

text \<open>
  A received message with one notification payload makes the decoder panic exactly when the
  notification has its four header octets and announces an SPI of 252 octets or more; the sender
  needs no security association for it.
\<close>

theorem notification_spi_overflow_panics:
  assumes "length d < 65532"
  shows "IKEMessage_Decode new_IKEMessage
      (Slice (ike_header m TypeN (word_of_nat (28 + length (generic_payload NoNext d))) @ generic_payload NoNext d) sp)
      = Panic \<longleftrightarrow> 4 \<le> length d \<and> 252 \<le> unat (d ! 1)"
proof -
  have "payload_loop ([], TypeN) (Slice (generic_payload NoNext d) sp) = Panic \<longleftrightarrow>
      Notification_unmarshal new_Notification (Slice d sp) = Panic"
    using payload_step_generic [of d TypeN "[]" NoNext "[]" sp] assms
    by (subst payload_loop.simps)
       (auto simp: known_payload_def generic_payload_def payload_unmarshal_def go_simps
         ike_payloads.loop_Nil)
  moreover have "28 + length (generic_payload NoNext d) < 4294967296"
    using assms by (simp add: generic_payload_def)
  ultimately show ?thesis
    by (simp only: IKEMessage_Decode_header)
       (auto simp: go_simps IKEPayloadContainer_Decode_def Notification_panic_iff new_IKEMessage_def)
qed

theorem notification_spi_overflow_panics_witness:
  "IKEMessage_Decode new_IKEMessage
      (Slice (ike_header new_IKEMessage TypeN (word_of_nat (28 + length (generic_payload NoNext [1, 252, 0, 14])))
              @ generic_payload NoNext [1, 252, 0, 14]) []) = Panic"
  using notification_spi_overflow_panics [of "[1, 252, 0, 14]" new_IKEMessage "[]"] by simp

text \<open>
  The delete payload of an IKE SA (RFC 7296: no SPI, SPI size and count zero) is encoded by
  the TNGF but refused by its own decoder, for every protocol identifier; so is a configuration
  payload without attributes.
\<close>

theorem empty_delete_and_configuration_refused:
  "(\<exists>raw. Delete_marshal \<lparr>del_ProtocolID = p, SPISize = 0, NumberOfSPI = 0, SPIs = []\<rparr> = Ok raw \<and>
      Delete_unmarshal new_Delete (Slice raw sp) = Err DeleteTooShort) \<and>
   Configuration_unmarshal new_Configuration
      (Slice (Configuration_marshal \<lparr>ConfigurationType = t, ConfigurationAttribute = []\<rparr>) sp) = Err ConfigurationTooShort"
  by (simp add: Delete_marshal_def Delete_unmarshal_def Configuration_marshal_def Configuration_unmarshal_def)

end
