(* ===== verification/Tngf_Ike_Build.thy ===== *)
theory Tngf_Ike_Build
  imports Tngf_Ike_Message
begin

text \<open>
  The builders of \<^verbatim>\<open>NFs/tngf/pkg/ike/message/build.go\<close>. A builder with a pointer receiver takes
  the container and returns the extended one. Builders that also return a pointer to the payload
  they appended let the caller go on filling it in place; \<open>on_last_EAP\<close> is that aliasing: it
  updates the payload at the end of the container. \<open>parseIP4\<close> stands for
  \<^verbatim>\<open>net.ParseIP(s).To4()\<close>.
\<close>

definition BuildIKEHeader :: "IKEMessage \<Rightarrow> u64 \<Rightarrow> u64 \<Rightarrow> u8 \<Rightarrow> u8 \<Rightarrow> u32 \<Rightarrow> IKEMessage" where
  "BuildIKEHeader m initiatorSPI responsorSPI exchangeType flags messageID =
     m\<lparr>InitiatorSPI := initiatorSPI, ResponderSPI := responsorSPI, Version := 0x20,
       ExchangeType := exchangeType, Flags := flags, MessageID := messageID\<rparr>"

definition Reset_payloads :: "IKEPayload list \<Rightarrow> IKEPayload list" where
  "Reset_payloads container = []"

definition BuildNotification :: "IKEPayload list \<Rightarrow> u8 \<Rightarrow> u16 \<Rightarrow> bytes \<Rightarrow> bytes \<Rightarrow> IKEPayload list" where
  "BuildNotification container protocolID notifyMessageType spi notificationData =
     container @ [P_N \<lparr>ntf_ProtocolID = protocolID, NotifyMessageType = notifyMessageType,
                       ntf_SPI = spi, NotificationData = notificationData\<rparr>]"

definition BuildCertificate :: "IKEPayload list \<Rightarrow> u8 \<Rightarrow> bytes \<Rightarrow> IKEPayload list" where
  "BuildCertificate container certificateEncode certificateData =
     container @ [P_CERT \<lparr>CertificateEncoding = certificateEncode, CertificateData = certificateData\<rparr>]"

definition BuildEncrypted :: "IKEPayload list \<Rightarrow> u8 \<Rightarrow> bytes \<Rightarrow> IKEPayload list" where
  "BuildEncrypted container nextPayload encryptedData =
     container @ [P_SK \<lparr>NextPayload = nextPayload, EncryptedData = encryptedData\<rparr>]"

definition BUildKeyExchange :: "IKEPayload list \<Rightarrow> u16 \<Rightarrow> bytes \<Rightarrow> IKEPayload list" where
  "BUildKeyExchange container diffiehellmanGroup keyExchangeData =
     container @ [P_KE \<lparr>ke_DiffieHellmanGroup = diffiehellmanGroup, KeyExchangeData = keyExchangeData\<rparr>]"

definition BuildIdentificationInitiator :: "IKEPayload list \<Rightarrow> u8 \<Rightarrow> bytes \<Rightarrow> IKEPayload list" where
  "BuildIdentificationInitiator container idType idData = container @ [P_IDi \<lparr>IDType = idType, IDData = idData\<rparr>]"

definition BuildIdentificationResponder :: "IKEPayload list \<Rightarrow> u8 \<Rightarrow> bytes \<Rightarrow> IKEPayload list" where
  "BuildIdentificationResponder container idType idData = container @ [P_IDr \<lparr>IDType = idType, IDData = idData\<rparr>]"

definition BuildAuthentication :: "IKEPayload list \<Rightarrow> u8 \<Rightarrow> bytes \<Rightarrow> IKEPayload list" where
  "BuildAuthentication container authenticationMethod authenticationData =
     container @ [P_AUTH \<lparr>AuthenticationMethod = authenticationMethod, AuthenticationData = authenticationData\<rparr>]"

definition BuildConfiguration :: "IKEPayload list \<Rightarrow> u8 \<Rightarrow> IKEPayload list" where
  "BuildConfiguration container configurationType =
     container @ [P_CP \<lparr>ConfigurationType = configurationType, ConfigurationAttribute = []\<rparr>]"

definition BuildConfigurationAttribute ::
    "IndividualConfigurationAttribute list \<Rightarrow> u16 \<Rightarrow> bytes \<Rightarrow> IndividualConfigurationAttribute list" where
  "BuildConfigurationAttribute container attributeType attributeValue =
     container @ [\<lparr>cfg_Type = attributeType, cfg_Value = attributeValue\<rparr>]"

definition BuildNonce :: "IKEPayload list \<Rightarrow> bytes \<Rightarrow> IKEPayload list" where
  "BuildNonce container nonceData = container @ [P_NiNr \<lparr>NonceData = nonceData\<rparr>]"

definition BuildTrafficSelectorInitiator :: "IKEPayload list \<Rightarrow> IKEPayload list" where
  "BuildTrafficSelectorInitiator container = container @ [P_TSi \<lparr>TrafficSelectors = []\<rparr>]"

definition BuildTrafficSelectorResponder :: "IKEPayload list \<Rightarrow> IKEPayload list" where
  "BuildTrafficSelectorResponder container = container @ [P_TSr \<lparr>TrafficSelectors = []\<rparr>]"

definition BuildIndividualTrafficSelector ::
    "IndividualTrafficSelector list \<Rightarrow> u8 \<Rightarrow> u8 \<Rightarrow> u16 \<Rightarrow> u16 \<Rightarrow> bytes \<Rightarrow> bytes \<Rightarrow> IndividualTrafficSelector list" where
  "BuildIndividualTrafficSelector container tsType ipProtocolID startPort endPort startAddr endAddr =
     container @ [\<lparr>TSType = tsType, IPProtocolID = ipProtocolID, StartPort = startPort, EndPort = endPort,
                   StartAddress = startAddr, EndAddress = endAddr\<rparr>]"

definition BuildSecurityAssociation :: "IKEPayload list \<Rightarrow> IKEPayload list" where
  "BuildSecurityAssociation container = container @ [P_SA \<lparr>Proposals = []\<rparr>]"

definition BuildProposal :: "Proposal list \<Rightarrow> u8 \<Rightarrow> u8 \<Rightarrow> bytes \<Rightarrow> Proposal list" where
  "BuildProposal container proposalNumber protocolID spi =
     container @ [new_Proposal\<lparr>ProposalNumber := proposalNumber, prop_ProtocolID := protocolID, prop_SPI := spi\<rparr>]"

text \<open>An attribute type without any value makes \<^verbatim>\<open>BuildTransform\<close> return without appending.\<close>

definition BuildTransform ::
    "Transform list \<Rightarrow> u8 \<Rightarrow> u16 \<Rightarrow> u16 option \<Rightarrow> u16 option \<Rightarrow> bytes \<Rightarrow> Transform list" where
  "BuildTransform container transformType transformID attributeType attributeValue variableLengthAttributeValue =
     (let t = new_Transform\<lparr>TransformType := transformType, TransformID := transformID\<rparr>
      in case attributeType of
           None \<Rightarrow> container @ [t\<lparr>AttributePresent := False\<rparr>]
         | Some aty \<Rightarrow>
             let t = t\<lparr>AttributePresent := True, AttributeType := aty\<rparr>
             in case attributeValue of
                  Some v \<Rightarrow> container @ [t\<lparr>AttributeFormat := AttributeFormatUseTV, AttributeValue := v\<rparr>]
                | None \<Rightarrow>
                    if length variableLengthAttributeValue \<noteq> 0
                    then container @ [t\<lparr>AttributeFormat := AttributeFormatUseTLV,
                                        VariableLengthAttributeValue := variableLengthAttributeValue\<rparr>]
                    else container)"

section \<open>EAP builders\<close>

definition BuildEAP :: "IKEPayload list \<Rightarrow> u8 \<Rightarrow> u8 \<Rightarrow> IKEPayload list" where
  "BuildEAP container code identifier =
     container @ [P_EAP (new_EAP\<lparr>Code := code, Identifier := identifier\<rparr>)]"

definition BuildEAPSuccess :: "IKEPayload list \<Rightarrow> u8 \<Rightarrow> IKEPayload list" where
  "BuildEAPSuccess container identifier =
     container @ [P_EAP (new_EAP\<lparr>Code := EAPCodeSuccess, Identifier := identifier\<rparr>)]"

definition BuildEAPfailure :: "IKEPayload list \<Rightarrow> u8 \<Rightarrow> IKEPayload list" where
  "BuildEAPfailure container identifier =
     container @ [P_EAP (new_EAP\<lparr>Code := EAPCodeFailure, Identifier := identifier\<rparr>)]"

definition BuildEAPExpanded :: "EAPTypeFormat list \<Rightarrow> u32 \<Rightarrow> u32 \<Rightarrow> bytes \<Rightarrow> EAPTypeFormat list" where
  "BuildEAPExpanded container vendorID vendorType vendorData =
     container @ [EAPExpanded vendorID vendorType vendorData]"

fun on_last_EAP :: "(EAP \<Rightarrow> EAP) \<Rightarrow> IKEPayload list \<Rightarrow> IKEPayload list" where
  "on_last_EAP f [] = []"
| "on_last_EAP f [p] = (case p of P_EAP e \<Rightarrow> [P_EAP (f e)] | _ \<Rightarrow> [p])"
| "on_last_EAP f (p # q # ps) = p # on_last_EAP f (q # ps)"

definition BuildEAP5GStart :: "IKEPayload list \<Rightarrow> u8 \<Rightarrow> IKEPayload list" where
  "BuildEAP5GStart container identifier =
     on_last_EAP
       (\<lambda>eap. eap\<lparr>EAPTypeData := BuildEAPExpanded (EAPTypeData eap) VendorID3GPP VendorTypeEAP5G
                                  [EAP5GType5GStart, EAP5GSpareValue]\<rparr>)
       (BuildEAP container EAPCodeRequest identifier)"

definition BuildEAP5GNAS :: "IKEPayload list \<Rightarrow> u8 \<Rightarrow> bytes \<Rightarrow> IKEPayload list" where
  "BuildEAP5GNAS container identifier nasPDU =
     (if length nasPDU = 0 then container
      else let vendorData = [EAP5GType5GNAS, 0] @ put16 (len16 nasPDU) @ nasPDU
           in on_last_EAP
                (\<lambda>eap. eap\<lparr>EAPTypeData := BuildEAPExpanded (EAPTypeData eap) VendorID3GPP VendorTypeEAP5G vendorData\<rparr>)
                (BuildEAP container EAPCodeRequest identifier))"

section \<open>Notifications of 3GPP TS 24.502\<close>

definition BuildNotify5G_QOS_INFO ::
    "IKEPayload list \<Rightarrow> u8 \<Rightarrow> u8 list \<Rightarrow> bool \<Rightarrow> bool \<Rightarrow> u8 \<Rightarrow> IKEPayload list" where
  "BuildNotify5G_QOS_INFO container pduSessionID qfiList isDefault isDSCPSpecified dscp =
     (let flags = (if isDefault then NotifyType5G_QOS_INFOBitDCSICheck else 0)
                  OR (if isDSCPSpecified then NotifyType5G_QOS_INFOBitDSCPICheck else 0);
          body = [pduSessionID, len8 qfiList] @ qfiList @ [flags] @ (if isDSCPSpecified then [dscp] else []);
          notifyData = word_of_nat (1 + length body) # body
      in BuildNotification container TypeNone Vendor3GPPNotifyType5G_QOS_INFO [] notifyData)"

definition BuildNotifyNAS_IP4_ADDRESS :: "(string \<Rightarrow> bytes) \<Rightarrow> IKEPayload list \<Rightarrow> string \<Rightarrow> IKEPayload list" where
  "BuildNotifyNAS_IP4_ADDRESS parseIP4 container nasIPAddr =
     (if nasIPAddr = [] then container
      else BuildNotification container TypeNone Vendor3GPPNotifyTypeNAS_IP4_ADDRESS [] (parseIP4 nasIPAddr))"

definition BuildNotifyUP_IP4_ADDRESS :: "(string \<Rightarrow> bytes) \<Rightarrow> IKEPayload list \<Rightarrow> string \<Rightarrow> IKEPayload list" where
  "BuildNotifyUP_IP4_ADDRESS parseIP4 container upIPAddr =
     (if upIPAddr = [] then container
      else BuildNotification container TypeNone Vendor3GPPNotifyTypeUP_IP4_ADDRESS [] (parseIP4 upIPAddr))"

definition BuildNotifyNAS_TCP_PORT :: "IKEPayload list \<Rightarrow> u16 \<Rightarrow> IKEPayload list" where
  "BuildNotifyNAS_TCP_PORT container port =
     (if port = 0 then container
      else BuildNotification container TypeNone Vendor3GPPNotifyTypeNAS_TCP_PORT [] (put16 port))"

section \<open>What the builders build is well-formed\<close>

lemma on_last_EAP_append: "on_last_EAP f (ps @ [P_EAP e]) = ps @ [P_EAP (f e)]"
  by (induction f ps rule: on_last_EAP.induct) simp_all

lemma BuildEAP5GNAS_built:
  "nasPDU \<noteq> [] \<Longrightarrow> BuildEAP5GNAS c i nasPDU = c @ [P_EAP \<lparr>Code = EAPCodeRequest, Identifier = i,
     EAPTypeData = [EAPExpanded VendorID3GPP VendorTypeEAP5G (EAP5GType5GNAS # 0 # put16 (len16 nasPDU) @ nasPDU)]\<rparr>]"
  by (simp add: BuildEAP5GNAS_def BuildEAP_def on_last_EAP_append BuildEAPExpanded_def new_EAP_def)

lemma BuildTransform_wf:
  "(\<And>a. aty = Some a \<Longrightarrow> a < 0x8000) \<Longrightarrow> length var < 65524 \<Longrightarrow>
   BuildTransform ts ty ident aty val var = ts \<or>
   (\<exists>t. BuildTransform ts ty ident aty val var = ts @ [t] \<and> transform_wf t \<and> TransformType t = ty)"
  by (auto simp: BuildTransform_def transform_wf_def new_defs Let_def split: option.splits)

section \<open>Properties\<close>

text \<open>
  C39. An EAP-5G NAS message built for a NAS PDU of at most 65515 octets survives the wire: the
  message with the built payload encodes, and decoding gives back the same EAP packet, whose
  vendor data are the EAP-5G header followed by exactly that PDU.
\<close>

theorem eap5g_nas_delivered:
  assumes "nasPDU \<noteq> []" and "length nasPDU \<le> 65515"
  shows "\<exists>raw. IKEMessage_Encode (m\<lparr>Payloads := BuildEAP5GNAS [] i nasPDU\<rparr>) = Ok raw \<and>
    IKEMessage_Decode new_IKEMessage (Slice raw sp) =
      Ok (m\<lparr>Payloads := [P_EAP \<lparr>Code = EAPCodeRequest, Identifier = i,
        EAPTypeData = [EAPExpanded VendorID3GPP VendorTypeEAP5G
          (EAP5GType5GNAS # 0 # put16 (len16 nasPDU) @ nasPDU)]\<rparr>]\<rparr>)"
proof -
  let ?e = "\<lparr>Code = EAPCodeRequest, Identifier = i, EAPTypeData = [EAPExpanded VendorID3GPP VendorTypeEAP5G
     (EAP5GType5GNAS # 0 # put16 (len16 nasPDU) @ nasPDU)]\<rparr>"
  have wf: "eap_wf ?e" using assms by (simp add: eap_wf_def)
  obtain d where d: "EAP_marshal ?e = Ok d" "length d = 16 + length nasPDU"
    using EAP_marshal_wf [OF wf] by simp
  let ?m = "m\<lparr>Payloads := [P_EAP ?e]\<rparr>"
  have chain: "chain_wf (Payloads ?m)"
    using wf d assms(2) by simp
  obtain raw where raw: "IKEMessage_Encode ?m = Ok raw" "length raw = 32 + length d"
    using d by (auto simp: IKEMessage_Encode_def generic_payload_def)
  with message_received [OF chain raw(1), of sp] d assms show ?thesis
    by (simp add: BuildEAP5GNAS_built)
qed

theorem eap5g_nas_delivered_witness:
  "\<exists>raw. IKEMessage_Encode (new_IKEMessage\<lparr>Payloads := BuildEAP5GNAS [] 7 [0x7e, 0, 0x41]\<rparr>) = Ok raw \<and>
    IKEMessage_Decode new_IKEMessage (Slice raw []) =
      Ok (new_IKEMessage\<lparr>Payloads := [P_EAP \<lparr>Code = EAPCodeRequest, Identifier = 7,
        EAPTypeData = [EAPExpanded VendorID3GPP VendorTypeEAP5G
          (EAP5GType5GNAS # 0 # put16 (len16 [0x7e, 0, 0x41]) @ [0x7e, 0, 0x41])]\<rparr>]\<rparr>)"
  by (rule eap5g_nas_delivered) simp_all

end
