(* ===== verification/Tngf_Radius.thy ===== *)
theory Tngf_Radius
  imports Tngf_Eap
begin

text \<open>
  The TNGF's RADIUS codec (\<^verbatim>\<open>NFs/tngf/pkg/radius/message/message.go\<close>, \<^verbatim>\<open>build.go\<close>) and the
  cryptographic helpers of \<^verbatim>\<open>NFs/tngf/pkg/radius/handler/security.go\<close> that do not draw random
  numbers. The package carries its own copy of the EAP codec, modelled here as such and shown
  equal to the IKE package's. \<open>md5\<close> and \<open>hmac\<close> stand for \<^verbatim>\<open>md5.Sum\<close> and \<^verbatim>\<open>hmac.New(md5.New, key)\<close>;
  \<open>secret\<close> is \<^verbatim>\<open>RadiusSecret\<close> of the TNGF context.
\<close>

abbreviation TypeVendorSpecific :: u8 where "TypeVendorSpecific \<equiv> 26"
abbreviation TypeEAPMessage :: u8 where "TypeEAPMessage \<equiv> 79"
abbreviation EAP5GType5GNotification :: u8 where "EAP5GType5GNotification \<equiv> 3"

record RadiusPayload =
  rp_Type :: u8
  rp_Length :: u8
  rp_Val :: bytes

record RadiusMessage =
  rad_Code :: u8
  PktID :: u8
  rad_Length :: u16
  rad_Auth :: bytes
  rad_Payloads :: "RadiusPayload list"

datatype radius_error =
    RadiusBrokenHeader | RadiusNoBytes | RadiusIllegalLength u8 | RadiusLengthMismatch
  | RadiusDecodePayloadFailed radius_error

section \<open>Attributes\<close>

definition RadiusPayload_marshal :: "RadiusPayload \<Rightarrow> bytes" where
  "RadiusPayload_marshal p = [rp_Type p, word_of_nat (2 + length (rp_Val p))] @ rp_Val p"

definition RadiusPayloadContainer_Encode :: "RadiusPayload list \<Rightarrow> bytes" where
  "RadiusPayloadContainer_Encode ps = concat (map RadiusPayload_marshal ps)"

definition radius_step :: "RadiusPayload list \<Rightarrow> slice \<Rightarrow> (radius_error, RadiusPayload list \<times> slice) outcome" where
  "radius_step container raw =
     (if slen raw \<le> 2 then Err RadiusNoBytes
      else obind (at raw 0) (\<lambda>payloadType.
           obind (at raw 1) (\<lambda>payloadLength.
             if payloadLength < 4 then Err (RadiusIllegalLength payloadLength)
             else if slen raw < unat payloadLength then Err RadiusLengthMismatch
             else obind (sub raw 2 (unat payloadLength)) (\<lambda>val.
                  obind (sub_from raw (unat payloadLength)) (\<lambda>rest.
                    Ok (container @ [\<lparr>rp_Type = payloadType, rp_Length = payloadLength, rp_Val = sdata val\<rparr>],
                        rest))))))"

lemma radius_step_shrinks: "radius_step c d = Ok (c', d') \<Longrightarrow> 0 < slen d \<Longrightarrow> slen d' < slen d"
  by (auto simp: radius_step_def go_simps word_less_nat_alt split: if_splits dest!: slen_sub_from)

function radius_loop :: "RadiusPayload list \<Rightarrow> slice \<Rightarrow> (radius_error, RadiusPayload list) outcome" where
  "radius_loop c d =
     (if slen d = 0 then Ok c else obind (radius_step c d) (\<lambda>(c', d'). radius_loop c' d'))"
  by auto
termination
  by (relation "measure (\<lambda>(c, d). slen d)") (auto dest: radius_step_shrinks)

declare radius_loop.simps [simp del]

interpretation radius_attributes: slice_loop radius_step radius_loop
  by unfold_locales (rule radius_loop.simps, erule (1) radius_step_shrinks)

definition RadiusPayloadContainer_Decode :: "RadiusPayload list \<Rightarrow> slice \<Rightarrow> (radius_error, RadiusPayload list) outcome" where
  "RadiusPayloadContainer_Decode container raw = radius_loop container raw"

section \<open>Messages\<close>

definition GetResponseAuth :: "(bytes \<Rightarrow> bytes) \<Rightarrow> bytes \<Rightarrow> bytes \<Rightarrow> bytes" where
  "GetResponseAuth md5 secret message = md5 (message @ secret)"

text \<open>\<^verbatim>\<open>copy(d[off:], src)\<close>: as many octets as fit.\<close>

definition copy_at :: "nat \<Rightarrow> bytes \<Rightarrow> bytes \<Rightarrow> bytes" where
  "copy_at off src d = take off d @ take (length d - off) src @ drop (off + length src) d"

text \<open>Code, identifier, the length filled in last, the authenticator and the attributes.\<close>

definition radius_packet :: "RadiusMessage \<Rightarrow> bytes" where
  "radius_packet m =
     [rad_Code m, PktID m]
     @ put16 (word_of_nat (4 + length (rad_Auth m) + length (RadiusPayloadContainer_Encode (rad_Payloads m))))
     @ rad_Auth m @ RadiusPayloadContainer_Encode (rad_Payloads m)"

text \<open>\<^verbatim>\<open>Encode\<close> also stores the response authenticator in the message it encodes.\<close>

definition RadiusMessage_Encode :: "(bytes \<Rightarrow> bytes) \<Rightarrow> bytes \<Rightarrow> RadiusMessage \<Rightarrow> bytes \<times> RadiusMessage" where
  "RadiusMessage_Encode md5 secret m =
     (let data = radius_packet m;
          auth = GetResponseAuth md5 secret data
      in (copy_at 4 auth data, m\<lparr>rad_Auth := auth\<rparr>))"

definition RadiusMessage_Decode :: "RadiusMessage \<Rightarrow> slice \<Rightarrow> (radius_error, RadiusMessage) outcome" where
  "RadiusMessage_Decode m raw =
     (if slen raw < 20 then Err RadiusBrokenHeader
      else obind (at raw 0) (\<lambda>code.
           obind (at raw 1) (\<lambda>ident.
           obind (read16 raw 2) (\<lambda>len.
           obind (sub raw 4 20) (\<lambda>auth.
           obind (sub_from raw 20) (\<lambda>rest.
           obind (wrap_err RadiusDecodePayloadFailed (RadiusPayloadContainer_Decode (rad_Payloads m) rest)) (\<lambda>ps.
             Ok (m\<lparr>rad_Code := code, PktID := ident, rad_Length := len, rad_Auth := sdata auth,
                   rad_Payloads := ps\<rparr>))))))))"

definition new_RadiusMessage :: RadiusMessage where
  "new_RadiusMessage = \<lparr>rad_Code = 0, PktID = 0, rad_Length = 0, rad_Auth = [], rad_Payloads = []\<rparr>"

section \<open>The package's EAP codec\<close>

definition rEAPIdentity_marshal :: "bytes \<Rightarrow> (ike_error, bytes) outcome" where
  "rEAPIdentity_marshal identityData =
     (if length identityData = 0 then Err EAPIdentityEmpty else Ok ([EAPTypeIdentity] @ identityData))"

definition rEAPIdentity_unmarshal :: "bytes \<Rightarrow> slice \<Rightarrow> (ike_error, bytes) outcome" where
  "rEAPIdentity_unmarshal identityData raw =
     (if slen raw > 1 then obind (sub_from raw 1) (\<lambda>d. Ok (identityData @ sdata d)) else Ok identityData)"

definition rEAPNotification_marshal :: "bytes \<Rightarrow> (ike_error, bytes) outcome" where
  "rEAPNotification_marshal notificationData =
     (if length notificationData = 0 then Err EAPNotificationEmpty
      else Ok ([EAPTypeNotification] @ notificationData))"

definition rEAPNotification_unmarshal :: "bytes \<Rightarrow> slice \<Rightarrow> (ike_error, bytes) outcome" where
  "rEAPNotification_unmarshal notificationData raw =
     (if slen raw > 1 then obind (sub_from raw 1) (\<lambda>d. Ok (notificationData @ sdata d))
      else Ok notificationData)"

definition rEAPNak_marshal :: "bytes \<Rightarrow> (ike_error, bytes) outcome" where
  "rEAPNak_marshal nakData =
     (if length nakData = 0 then Err EAPNakEmpty else Ok ([EAPTypeNak] @ nakData))"

definition rEAPNak_unmarshal :: "bytes \<Rightarrow> slice \<Rightarrow> (ike_error, bytes) outcome" where
  "rEAPNak_unmarshal nakData raw =
     (if slen raw > 1 then obind (sub_from raw 1) (\<lambda>d. Ok (nakData @ sdata d)) else Ok nakData)"

definition rEAPExpanded_marshal :: "u32 \<Rightarrow> u32 \<Rightarrow> bytes \<Rightarrow> (ike_error, bytes) outcome" where
  "rEAPExpanded_marshal vendorID vendorType vendorData =
     (let typeAndVendorID = push_bit 24 (ucast EAPTypeExpanded) OR (vendorID AND 0x00ffffff);
          eapExpandedData = put32 typeAndVendorID @ put32 vendorType
      in if length vendorData = 0 then Ok eapExpandedData else Ok (eapExpandedData @ vendorData))"

definition rEAPExpanded_unmarshal ::
    "u32 \<times> u32 \<times> bytes \<Rightarrow> slice \<Rightarrow> (ike_error, u32 \<times> u32 \<times> bytes) outcome" where
  "rEAPExpanded_unmarshal e raw =
     (case e of (vendorID, vendorType, vendorData) \<Rightarrow>
        if slen raw > 0 then
          if slen raw < 8 then Err EAPExpandedTooShort
          else obind (read32 raw 0) (\<lambda>typeAndVendorID.
               obind (read32 raw 4) (\<lambda>vtype.
                 if slen raw > 8 then
                   obind (sub_from raw 8) (\<lambda>d.
                     Ok (typeAndVendorID AND 0x00ffffff, vtype, vendorData @ sdata d))
                 else Ok (typeAndVendorID AND 0x00ffffff, vtype, vendorData)))
        else Ok e)"

fun rEAPTypeFormat_marshal :: "EAPTypeFormat \<Rightarrow> (ike_error, bytes) outcome" where
  "rEAPTypeFormat_marshal (EAPIdentity d) = rEAPIdentity_marshal d"
| "rEAPTypeFormat_marshal (EAPNotification d) = rEAPNotification_marshal d"
| "rEAPTypeFormat_marshal (EAPNak d) = rEAPNak_marshal d"
| "rEAPTypeFormat_marshal (EAPExpanded i t d) = rEAPExpanded_marshal i t d"

definition rEAP_Marshal :: "EAP \<Rightarrow> (ike_error, bytes) outcome" where
  "rEAP_Marshal eap =
     obind (case EAPTypeData eap of
              [] \<Rightarrow> Ok []
            | td # _ \<Rightarrow> wrap_err EAPTypeDataMarshalFailed (rEAPTypeFormat_marshal td)) (\<lambda>d.
       Ok ([Code eap, Identifier eap] @ put16 (word_of_nat (4 + length d)) @ d))"

definition rEAPTypeFormat_unmarshal :: "u8 \<Rightarrow> slice \<Rightarrow> (ike_error, EAPTypeFormat) outcome" where
  "rEAPTypeFormat_unmarshal eapType raw =
     (if eapType = EAPTypeIdentity then omap EAPIdentity (rEAPIdentity_unmarshal [] raw)
      else if eapType = EAPTypeNotification then omap EAPNotification (rEAPNotification_unmarshal [] raw)
      else if eapType = EAPTypeNak then omap EAPNak (rEAPNak_unmarshal [] raw)
      else omap (\<lambda>(i, t, d). EAPExpanded i t d) (rEAPExpanded_unmarshal (0, 0, []) raw))"

definition rEAP_Unmarshal :: "EAP \<Rightarrow> slice \<Rightarrow> (ike_error, EAP) outcome" where
  "rEAP_Unmarshal eap raw =
     (if slen raw > 0 then
        if slen raw < 4 then Err EAPTooShort
        else obind (read16 raw 2) (\<lambda>eapPayloadLength.
          if eapPayloadLength < 4 then Err EAPLengthTooSmall
          else if slen raw \<noteq> unat eapPayloadLength then Err EAPLengthMismatch
          else obind (at raw 0) (\<lambda>code.
               obind (at raw 1) (\<lambda>ident.
                 if eapPayloadLength = 4 then Ok (eap\<lparr>Code := code, Identifier := ident\<rparr>)
                 else obind (at raw 4) (\<lambda>eapType.
                   if eapType \<notin> {EAPTypeIdentity, EAPTypeNotification, EAPTypeNak, EAPTypeExpanded}
                   then Err EAPTypeNotSupported
                   else obind (sub_from raw 4) (\<lambda>r.
                        obind (wrap_err EAPTypeDataUnmarshalFailed (rEAPTypeFormat_unmarshal eapType r)) (\<lambda>td.
                          Ok (eap\<lparr>Code := code, Identifier := ident,
                                  EAPTypeData := EAPTypeData eap @ [td]\<rparr>)))))))
      else Ok eap)"

section \<open>Builders\<close>

definition BuildRadiusHeader :: "RadiusMessage \<Rightarrow> u8 \<Rightarrow> u8 \<Rightarrow> bytes \<Rightarrow> RadiusMessage" where
  "BuildRadiusHeader m code pktID auth = m\<lparr>rad_Code := code, PktID := pktID, rad_Auth := auth\<rparr>"

definition Reset_radius :: "RadiusPayload list \<Rightarrow> RadiusPayload list" where
  "Reset_radius container = []"

text \<open>The tail that the EAP builders share: marshal, and on success append one EAP-Message
  attribute (its \<^verbatim>\<open>Length\<close> field stays zero).\<close>

definition append_eap :: "RadiusPayload list \<Rightarrow> EAP \<Rightarrow> RadiusPayload list" where
  "append_eap container eap =
     (case rEAP_Marshal eap of
        Ok eapPayload \<Rightarrow> container @ [\<lparr>rp_Type = TypeEAPMessage, rp_Length = 0, rp_Val = eapPayload\<rparr>]
      | _ \<Rightarrow> container)"

definition rBuildEAP :: "RadiusPayload list \<Rightarrow> u8 \<Rightarrow> u8 \<Rightarrow> RadiusPayload list" where
  "rBuildEAP container code identifier =
     append_eap container (new_EAP\<lparr>Code := code, Identifier := identifier\<rparr>)"

definition rBuildEAPSuccess :: "RadiusPayload list \<Rightarrow> u8 \<Rightarrow> RadiusPayload list" where
  "rBuildEAPSuccess container identifier =
     append_eap container (new_EAP\<lparr>Code := EAPCodeSuccess, Identifier := identifier\<rparr>)"

definition rBuildEAPfailure :: "RadiusPayload list \<Rightarrow> u8 \<Rightarrow> RadiusPayload list" where
  "rBuildEAPfailure container identifier =
     append_eap container (new_EAP\<lparr>Code := EAPCodeFailure, Identifier := identifier\<rparr>)"

definition rBuildEAPExpanded :: "EAPTypeFormat list \<Rightarrow> u32 \<Rightarrow> u32 \<Rightarrow> bytes \<Rightarrow> EAPTypeFormat list" where
  "rBuildEAPExpanded container vendorID vendorType vendorData =
     container @ [EAPExpanded vendorID vendorType vendorData]"

definition rBuildEAP5GStart :: "RadiusPayload list \<Rightarrow> u8 \<Rightarrow> RadiusPayload list" where
  "rBuildEAP5GStart container identifier =
     append_eap container
       (new_EAP\<lparr>Code := EAPCodeRequest, Identifier := identifier,
          EAPTypeData := rBuildEAPExpanded [] VendorID3GPP VendorTypeEAP5G [EAP5GType5GStart, EAP5GSpareValue]\<rparr>)"

definition rBuildEAP5GNAS :: "RadiusPayload list \<Rightarrow> u8 \<Rightarrow> bytes \<Rightarrow> RadiusPayload list" where
  "rBuildEAP5GNAS container identifier nasPDU =
     (if length nasPDU = 0 then container
      else append_eap container
             (new_EAP\<lparr>Code := EAPCodeRequest, Identifier := identifier,
                EAPTypeData := rBuildEAPExpanded [] VendorID3GPP VendorTypeEAP5G
                                 ([EAP5GType5GNAS, 0] @ put16 (len16 nasPDU) @ nasPDU)\<rparr>))"

text \<open>\<^verbatim>\<open>big.Int.SetBytes(bs).Uint64()\<close>.\<close>

definition big_uint64 :: "bytes \<Rightarrow> u64" where
  "big_uint64 bs = fold (\<lambda>b acc. acc * 256 + ucast b) bs 0"

definition rBuildEAP5GNotification ::
    "(string \<Rightarrow> bytes) \<Rightarrow> RadiusPayload list \<Rightarrow> u8 \<Rightarrow> string \<Rightarrow> RadiusPayload list" where
  "rBuildEAP5GNotification parseIP4 container identifier ip =
     (let ipv4ContactInfo = big_uint64 (parseIP4 ip);
          anParameters = [1, 4] @ put32 (ucast ipv4ContactInfo);
          vendorData = [EAP5GType5GNotification, 0] @ put16 (len16 anParameters) @ anParameters
      in append_eap container
           (new_EAP\<lparr>Code := EAPCodeRequest, Identifier := identifier,
              EAPTypeData := rBuildEAPExpanded [] VendorID3GPP VendorTypeEAP5G vendorData\<rparr>))"

definition MicrosoftVendorSpecific_marshal :: "u8 \<Rightarrow> bytes \<Rightarrow> bytes" where
  "MicrosoftVendorSpecific_marshal ty str = [ty, word_of_nat (2 + length str)] @ str"

definition BuildMicrosoftVendorSpecific :: "RadiusPayload list \<Rightarrow> u8 \<Rightarrow> bytes \<Rightarrow> RadiusPayload list" where
  "BuildMicrosoftVendorSpecific container vendorType data =
     container @ [\<lparr>rp_Type = TypeVendorSpecific, rp_Length = 0,
                   rp_Val = put32 311 @ MicrosoftVendorSpecific_marshal vendorType data\<rparr>]"

definition BuildTLVPayload :: "RadiusPayload list \<Rightarrow> u8 \<Rightarrow> bytes \<Rightarrow> RadiusPayload list" where
  "BuildTLVPayload container attType val = container @ [\<lparr>rp_Type = attType, rp_Length = 0, rp_Val = val\<rparr>]"

section \<open>Message authenticator and key encryption\<close>

definition GetMessageAuthenticator :: "(bytes \<Rightarrow> bytes \<Rightarrow> bytes) \<Rightarrow> bytes \<Rightarrow> RadiusMessage \<Rightarrow> bytes" where
  "GetMessageAuthenticator hmac secret m = hmac secret (radius_packet m)"

abbreviation md5_Size :: nat where "md5_Size \<equiv> 16"

definition xor_bytes :: "bytes \<Rightarrow> bytes \<Rightarrow> bytes" where
  "xor_bytes xs ys = map2 (\<lambda>a b. a XOR b) xs ys"

text \<open>The block loop: \<open>prev\<close> is what follows the secret in the hashed block (authenticator and
  salt at first, then the previous ciphertext block).\<close>

function mppe_blocks :: "(bytes \<Rightarrow> bytes) \<Rightarrow> bytes \<Rightarrow> bytes \<Rightarrow> bytes \<Rightarrow> bytes" where
  "mppe_blocks md5 secret prev plain =
     (if plain = [] then []
      else let c = xor_bytes (md5 (secret @ prev)) (take md5_Size plain)
           in c @ mppe_blocks md5 secret c (drop md5_Size plain))"
  by auto
termination
  by (relation "measure (\<lambda>(h, s, p, plain). length plain)") auto

declare mppe_blocks.simps [simp del]

definition mppe_plain :: "bytes \<Rightarrow> bytes" where
  "mppe_plain key =
     [word_of_nat (length key)] @ key
     @ replicate ((md5_Size - (length key + 1) mod md5_Size) mod md5_Size) 0"

definition EncryptMppeKey :: "(bytes \<Rightarrow> bytes) \<Rightarrow> bytes \<Rightarrow> bytes \<Rightarrow> bytes \<Rightarrow> u16 \<Rightarrow> bytes" where
  "EncryptMppeKey md5 key secret authenticator saltVal =
     mppe_blocks md5 secret (authenticator @ put16 saltVal) (mppe_plain key)"

section \<open>Attribute and message round trips\<close>

definition radius_payload_wf :: "RadiusPayload \<Rightarrow> bool" where
  "radius_payload_wf p \<longleftrightarrow> 2 \<le> length (rp_Val p) \<and> length (rp_Val p) \<le> 253"

text \<open>The decoder fills the length field that the builders leave at zero.\<close>

definition received_attribute :: "RadiusPayload \<Rightarrow> RadiusPayload" where
  "received_attribute p = p\<lparr>rp_Length := word_of_nat (2 + length (rp_Val p))\<rparr>"

lemma RadiusPayload_marshal_nonempty: "RadiusPayload_marshal p \<noteq> []"
  by (simp add: RadiusPayload_marshal_def)

lemma radius_step_marshal:
  assumes "radius_payload_wf p"
  shows "radius_step c (Slice (RadiusPayload_marshal p @ rest) sp) = Ok (c @ [received_attribute p], Slice rest sp)"
proof -
  let ?n = "word_of_nat (2 + length (rp_Val p)) :: u8"
  have n: "unat ?n = 2 + length (rp_Val p)"
    by (rule unat_u8) (use assms in \<open>simp add: radius_payload_wf_def\<close>)
  then have "\<not> ?n < 4" using assms by (simp add: word_less_nat_alt radius_payload_wf_def)
  moreover have "at (Slice (RadiusPayload_marshal p @ rest) sp) 0 = (Ok (rp_Type p) :: (radius_error, u8) outcome)"
      "at (Slice (RadiusPayload_marshal p @ rest) sp) 1 = (Ok ?n :: (radius_error, u8) outcome)"
      "sub (Slice (RadiusPayload_marshal p @ rest) sp) 2 (2 + length (rp_Val p))
        = (Ok (Slice (rp_Val p) (rest @ sp)) :: (radius_error, slice) outcome)"
      "sub_from (Slice (RadiusPayload_marshal p @ rest) sp) (2 + length (rp_Val p))
        = (Ok (Slice rest sp) :: (radius_error, slice) outcome)"
    by (simp_all add: RadiusPayload_marshal_def slice_eval)
  moreover have "\<not> slen (Slice (RadiusPayload_marshal p @ rest) sp) \<le> 2"
      "\<not> slen (Slice (RadiusPayload_marshal p @ rest) sp) < 2 + length (rp_Val p)"
    using assms by (auto simp: RadiusPayload_marshal_def radius_payload_wf_def)
  ultimately show ?thesis
    using n by (simp only: radius_step_def obind.simps if_False) (simp add: received_attribute_def)
qed

lemma radius_chain:
  "(\<And>p. p \<in> set ps \<Longrightarrow> radius_payload_wf p) \<Longrightarrow>
   radius_loop c (Slice (RadiusPayloadContainer_Encode ps) sp) = Ok (c @ map received_attribute ps)"
proof -
  assume wf: "\<And>p. p \<in> set ps \<Longrightarrow> radius_payload_wf p"
  have "radius_loop c (Slice (RadiusPayloadContainer_Encode ps) sp) =
      Ok (fold (\<lambda>p c. c @ [received_attribute p]) ps c)"
    unfolding RadiusPayloadContainer_Encode_def
    by (rule radius_attributes.loop_concat)
       (simp add: RadiusPayload_marshal_nonempty radius_step_marshal wf)
  also have "fold (\<lambda>p c. c @ [received_attribute p]) ps c = c @ map received_attribute ps"
    by (induction ps arbitrary: c) simp_all
  finally show ?thesis .
qed

lemma copy_at_header: "length a = n \<Longrightarrow> length h = 4 \<Longrightarrow> length b = n \<Longrightarrow> copy_at 4 b (h @ a @ d) = h @ b @ d"
  by (simp add: copy_at_def)

lemma radius_fields:
  fixes c i :: u8 and n :: u16 and a d sp :: bytes
  defines "s \<equiv> Slice ([c, i] @ put16 n @ a @ d) sp"
  assumes "length a = 16"
  shows "slen s = 20 + length d" and "at s 0 = Ok c" and "at s 1 = Ok i" and "read16 s 2 = Ok n"
    and "sub s 4 20 = Ok (Slice a (d @ sp))" and "sub_from s 20 = Ok (Slice d sp)"
  using assms unfolding s_def by (simp_all add: slice_eval)

lemma RadiusMessage_Decode_packet:
  assumes "length a = 16"
  shows "RadiusMessage_Decode m (Slice ([c, i] @ put16 n @ a @ d) sp) =
    obind (wrap_err RadiusDecodePayloadFailed (RadiusPayloadContainer_Decode (rad_Payloads m) (Slice d sp)))
      (\<lambda>ps. Ok (m\<lparr>rad_Code := c, PktID := i, rad_Length := n, rad_Auth := a, rad_Payloads := ps\<rparr>))"
  unfolding RadiusMessage_Decode_def radius_fields [OF assms] obind.simps by simp

lemma RadiusMessage_Encode_packet:
  assumes "\<And>x. length (md5 x) = 16" and "length (rad_Auth m) = 16"
  shows "RadiusMessage_Encode md5 secret m =
    ([rad_Code m, PktID m] @ put16 (word_of_nat (20 + length (RadiusPayloadContainer_Encode (rad_Payloads m))))
       @ GetResponseAuth md5 secret (radius_packet m) @ RadiusPayloadContainer_Encode (rad_Payloads m),
     m\<lparr>rad_Auth := GetResponseAuth md5 secret (radius_packet m)\<rparr>)"
  using assms copy_at_header [of "rad_Auth m" 16 "[rad_Code m, PktID m] @ put16 (word_of_nat (20 + length (RadiusPayloadContainer_Encode (rad_Payloads m))))"]
  by (simp add: RadiusMessage_Encode_def radius_packet_def GetResponseAuth_def Let_def)

lemma radius_step_no_panic: "radius_step c d \<noteq> Panic"
  by (auto simp: radius_step_def go_simps panic_iffs word_less_nat_alt)

section \<open>The two EAP codecs\<close>

lemma rEAP_type_functions:
  "rEAPTypeFormat_marshal = EAPTypeFormat_marshal" "rEAPTypeFormat_unmarshal = EAPTypeFormat_unmarshal"
proof -
  show "rEAPTypeFormat_marshal = EAPTypeFormat_marshal"
  proof
    fix td show "rEAPTypeFormat_marshal td = EAPTypeFormat_marshal td"
      by (cases td) (simp_all add: rEAPIdentity_marshal_def EAPIdentity_marshal_def rEAPNotification_marshal_def
          EAPNotification_marshal_def rEAPNak_marshal_def EAPNak_marshal_def rEAPExpanded_marshal_def
          EAPExpanded_marshal_def)
  qed
  show "rEAPTypeFormat_unmarshal = EAPTypeFormat_unmarshal"
    by (simp add: fun_eq_iff rEAPTypeFormat_unmarshal_def EAPTypeFormat_unmarshal_def rEAPIdentity_unmarshal_def
        EAPIdentity_unmarshal_def rEAPNotification_unmarshal_def EAPNotification_unmarshal_def
        rEAPNak_unmarshal_def EAPNak_unmarshal_def rEAPExpanded_unmarshal_def EAPExpanded_unmarshal_def)
qed

lemma rEAP_functions: "rEAP_Marshal = EAP_marshal" "rEAP_Unmarshal = EAP_unmarshal"
  unfolding fun_eq_iff rEAP_Marshal_def EAP_marshal_def rEAP_Unmarshal_def EAP_unmarshal_def
    rEAP_type_functions supported_eap_type_def
  by simp_all

section \<open>Key encryption\<close>

text \<open>The receiver's side of RFC 2548, section 2.4.2: the same key stream, keyed by the previous
  ciphertext block.\<close>

function mppe_decrypt :: "(bytes \<Rightarrow> bytes) \<Rightarrow> bytes \<Rightarrow> bytes \<Rightarrow> bytes \<Rightarrow> bytes" where
  "mppe_decrypt md5 secret prev c =
     (if c = [] then []
      else xor_bytes (md5 (secret @ prev)) (take md5_Size c)
           @ mppe_decrypt md5 secret (take md5_Size c) (drop md5_Size c))"
  by auto
termination
  by (relation "measure (\<lambda>(h, s, p, c). length c)") auto

declare mppe_decrypt.simps [simp del]

lemma length_xor_bytes [simp]: "length (xor_bytes xs ys) = min (length xs) (length ys)"
  by (simp add: xor_bytes_def)

lemma xor_bytes_cancel: "length xs = length ys \<Longrightarrow> xor_bytes xs (xor_bytes xs ys) = ys"
  by (induction xs ys rule: list_induct2) (simp_all add: xor_bytes_def xor.assoc [symmetric])

lemma mppe_blocks_decrypt:
  assumes h: "\<And>x. length (md5 x) = md5_Size"
  shows "length plain mod md5_Size = 0 \<Longrightarrow>
    mppe_decrypt md5 secret prev (mppe_blocks md5 secret prev plain) = plain \<and>
    length (mppe_blocks md5 secret prev plain) = length plain"
proof (induction plain arbitrary: prev rule: length_induct)
  case (1 plain)
  show ?case
  proof (cases "plain = []")
    case True
    then show ?thesis by (simp add: mppe_blocks.simps mppe_decrypt.simps)
  next
    case False
    with "1.prems" have len: "md5_Size \<le> length plain"
      by (metis dvd_imp_le length_greater_0_conv mod_0_imp_dvd)
    let ?c = "xor_bytes (md5 (secret @ prev)) (take md5_Size plain)"
    let ?r = "mppe_blocks md5 secret ?c (drop md5_Size plain)"
    have e: "mppe_blocks md5 secret prev plain = ?c @ ?r"
      using False by (subst mppe_blocks.simps) (simp add: Let_def)
    have c: "length ?c = md5_Size" using len h by simp
    have "length (drop md5_Size plain) mod md5_Size = 0"
      using "1.prems" len by (simp add: le_mod_geq)
    with "1.IH" False len have "mppe_decrypt md5 secret ?c ?r = drop md5_Size plain"
        and r: "length ?r = length plain - md5_Size"
      by auto
    then have "mppe_decrypt md5 secret prev (?c @ ?r) = plain"
      using c h len by (subst mppe_decrypt.simps) (force simp: xor_bytes_cancel simp del: length_xor_bytes)
    with e c r len show ?thesis by simp
  qed
qed

lemma length_mppe_plain: "length (mppe_plain key) mod md5_Size = 0"
proof -
  have "(n + (16 - n mod 16) mod 16) mod 16 = 0" for n :: nat
  proof (cases "n mod 16 = 0")
    case False
    have "(n + (16 - n mod 16) mod 16) mod 16 = (n mod 16 + (16 - n mod 16)) mod 16"
      by (simp only: mod_add_left_eq mod_add_right_eq)
    also have "n mod 16 + (16 - n mod 16) = 16"
      using mod_less_divisor [of 16 n] by linarith
    finally show ?thesis by simp
  qed simp
  from this [of "length key + 1"] show ?thesis by (simp add: mppe_plain_def)
qed

lemma rBuildEAP5GNAS_single:
  "nas \<noteq> [] \<Longrightarrow> \<exists>p. rBuildEAP5GNAS [] ident nas = [p] \<and> length (rp_Val p) = 16 + length nas"
  by (simp add: rBuildEAP5GNAS_def append_eap_def rEAP_Marshal_def rBuildEAPExpanded_def
      rEAPExpanded_marshal_def new_EAP_def Let_def)

section \<open>Properties\<close>

text \<open>
  C37. RADIUS round trip and response authenticator. For a reply whose request authenticator has
  16 octets and whose attributes hold 2 to 253 octets, \<^verbatim>\<open>Encode\<close> puts in octets 4 to 19 the MD5 of
  the packet with the request authenticator followed by the shared secret (RFC 2865), stores it in
  the message, and the peer's \<^verbatim>\<open>Decode\<close> yields that message with its length fields filled in.
\<close>

theorem radius_roundtrip:
  assumes "\<And>x. length (md5 x) = 16" and "length (rad_Auth m) = 16"
    and "\<And>p. p \<in> set (rad_Payloads m) \<Longrightarrow> radius_payload_wf p"
  shows "\<exists>raw m'. RadiusMessage_Encode md5 secret m = (raw, m') \<and>
    m' = m\<lparr>rad_Auth := md5 (radius_packet m @ secret)\<rparr> \<and>
    take 16 (drop 4 raw) = md5 (radius_packet m @ secret) \<and>
    RadiusMessage_Decode new_RadiusMessage (Slice raw sp) =
      Ok (m'\<lparr>rad_Length := word_of_nat (length raw), rad_Payloads := map received_attribute (rad_Payloads m)\<rparr>)"
proof -
  let ?a = "md5 (radius_packet m @ secret)" and ?d = "RadiusPayloadContainer_Encode (rad_Payloads m)"
  let ?raw = "[rad_Code m, PktID m] @ put16 (word_of_nat (20 + length ?d)) @ ?a @ ?d"
  have enc: "RadiusMessage_Encode md5 secret m = (?raw, m\<lparr>rad_Auth := ?a\<rparr>)"
    using RadiusMessage_Encode_packet [OF assms(1,2)] by (simp add: GetResponseAuth_def)
  have "length ?raw = 20 + length ?d" using assms(1) by simp
  moreover have "RadiusMessage_Decode new_RadiusMessage (Slice ?raw sp) =
      Ok (m\<lparr>rad_Auth := ?a, rad_Length := word_of_nat (20 + length ?d),
            rad_Payloads := map received_attribute (rad_Payloads m)\<rparr>)"
    by (simp only: RadiusMessage_Decode_packet [OF assms(1)])
       (simp add: RadiusPayloadContainer_Decode_def radius_chain assms(3) new_RadiusMessage_def)
  moreover have "take 16 (drop 4 ?raw) = ?a" using assms(1) by (simp add: put16_def)
  ultimately show ?thesis using enc by simp
qed

definition example_reply :: RadiusMessage where
  "example_reply = \<lparr>rad_Code = 11, PktID = 5, rad_Length = 0, rad_Auth = replicate 16 7,
     rad_Payloads = rBuildEAP5GStart (BuildTLVPayload [] 24 [1, 2, 3, 4]) 9\<rparr>"

theorem radius_roundtrip_witness:
  "\<exists>raw m'. RadiusMessage_Encode (\<lambda>x. replicate 16 (len8 x)) [0x73] example_reply = (raw, m') \<and>
    m' = example_reply\<lparr>rad_Auth := replicate 16 (len8 (radius_packet example_reply @ [0x73]))\<rparr> \<and>
    take 16 (drop 4 raw) = replicate 16 (len8 (radius_packet example_reply @ [0x73])) \<and>
    RadiusMessage_Decode new_RadiusMessage (Slice raw []) =
      Ok (m'\<lparr>rad_Length := word_of_nat (length raw),
             rad_Payloads := map received_attribute (rad_Payloads example_reply)\<rparr>)"
  by (rule radius_roundtrip)
     (auto simp: example_reply_def rBuildEAP5GStart_def append_eap_def rEAP_Marshal_def rBuildEAPExpanded_def
       rEAPExpanded_marshal_def BuildTLVPayload_def new_EAP_def radius_payload_wf_def)

text \<open>
  The RADIUS decoder never panics: for every slice, of any content, length and capacity, it
  returns a message or an error.
\<close>

theorem radius_decode_total: "RadiusMessage_Decode m raw \<noteq> Panic"
  by (auto simp: RadiusMessage_Decode_def RadiusPayloadContainer_Decode_def go_simps panic_iffs
      radius_attributes.loop_no_panic radius_step_no_panic)

text \<open>
  What the attribute coding cannot carry. A reply with a single attribute of one octet
  (legal in RFC 2865) is encoded but refused by the decoder, and so is the EAP-5G message for a
  NAS PDU of 238 to 241 octets: the builder puts the whole EAP packet into one attribute, whose
  length octet wraps around.
\<close>

theorem radius_unencodable_attributes:
  assumes "\<And>x. length (md5 x) = 16" and "length auth = 16"
    and "length val = 1 \<and> ps = BuildTLVPayload [] ty val \<or>
         238 \<le> length nas \<and> length nas \<le> 241 \<and> ps = rBuildEAP5GNAS [] ident nas"
  shows "\<exists>n. RadiusMessage_Decode new_RadiusMessage
      (Slice (fst (RadiusMessage_Encode md5 secret
        \<lparr>rad_Code = c, PktID = i, rad_Length = 0, rad_Auth = auth, rad_Payloads = ps\<rparr>)) sp)
    = Err (RadiusDecodePayloadFailed (RadiusIllegalLength n))"
proof -
  obtain p where p: "ps = [p]" "1 \<le> length (rp_Val p)"
      and n: "(word_of_nat (2 + length (rp_Val p)) :: u8) < 4"
  proof -
    from assms(3) consider (short) "length val = 1" "ps = BuildTLVPayload [] ty val"
      | (long) "238 \<le> length nas" "length nas \<le> 241" "ps = rBuildEAP5GNAS [] ident nas" by blast
    then show thesis
    proof cases
      case short
      then show thesis
        using that [of "\<lparr>rp_Type = ty, rp_Length = 0, rp_Val = val\<rparr>"] by (simp add: BuildTLVPayload_def)
    next
      case long
      then obtain p where "ps = [p]" "length (rp_Val p) = 16 + length nas"
        using rBuildEAP5GNAS_single [of nas ident] by fastforce
      moreover have "unat (word_of_nat (18 + length nas) :: u8) < 4"
        using long by (auto simp: unat_of_nat mod_if simp del: of_nat_add)
      ultimately show thesis
        using that [of p] by (simp add: word_less_nat_alt)
    qed
  qed
  have step: "radius_step [] (Slice (RadiusPayload_marshal p) sp) =
      Err (RadiusIllegalLength (word_of_nat (2 + length (rp_Val p))))"
    using p(2) n by (auto simp: radius_step_def RadiusPayload_marshal_def at_in_bounds)
  then have "radius_loop [] (Slice (RadiusPayloadContainer_Encode ps) sp) =
      Err (RadiusIllegalLength (word_of_nat (2 + length (rp_Val p))))"
    using p by (subst radius_loop.simps)
      (simp add: RadiusPayloadContainer_Encode_def RadiusPayload_marshal_nonempty)
  then show ?thesis
    using assms(1,2)
    by (simp only: RadiusMessage_Encode_packet RadiusMessage.simps fst_conv GetResponseAuth_def
        RadiusMessage_Decode_packet)
       (simp add: RadiusPayloadContainer_Decode_def new_RadiusMessage_def)
qed

theorem radius_unencodable_attributes_witness:
  "\<exists>n. RadiusMessage_Decode new_RadiusMessage
      (Slice (fst (RadiusMessage_Encode (\<lambda>x. replicate 16 0) [1]
        \<lparr>rad_Code = 11, PktID = 2, rad_Length = 0, rad_Auth = replicate 16 3,
          rad_Payloads = rBuildEAP5GNAS [] 4 (replicate 240 0x7e)\<rparr>)) [])
    = Err (RadiusDecodePayloadFailed (RadiusIllegalLength n))"
  by (rule radius_unencodable_attributes [where nas = "replicate 240 0x7e" and ident = 4]) simp_all

text \<open>
  The RADIUS package's copy of the EAP codec is the IKE package's codec, function for
  function, and a well-formed EAP packet written by one is read back by the other.
\<close>

theorem radius_eap_is_ike_eap:
  "rEAP_Marshal = EAP_marshal \<and> rEAP_Unmarshal = EAP_unmarshal \<and>
   (eap_wf e \<longrightarrow> obind (rEAP_Marshal e) (\<lambda>raw. EAP_unmarshal new_EAP (Slice raw sp)) = Ok e)"
  using EAP_roundtrip_bytes [of e _ sp] EAP_marshal_wf [of e] by (simp add: rEAP_functions)

theorem radius_eap_is_ike_eap_witness:
  "obind (rEAP_Marshal \<lparr>Code = 2, Identifier = 1, EAPTypeData = [EAPNak [3]]\<rparr>)
     (\<lambda>raw. EAP_unmarshal new_EAP (Slice raw [])) = Ok \<lparr>Code = 2, Identifier = 1, EAPTypeData = [EAPNak [3]]\<rparr>"
  by (rule radius_eap_is_ike_eap [THEN conjunct2, THEN conjunct2, THEN mp]) (simp add: eap_wf_def)

text \<open>
  C38. \<^verbatim>\<open>EncryptMppeKey\<close> is invertible by the receiver of RFC 2548: decrypting with the same
  secret, authenticator and salt gives a length octet, exactly the key, and zero padding; the
  ciphertext is a whole number of 16-octet blocks.
\<close>

theorem mppe_key_recovered:
  assumes "\<And>x. length (md5 x) = 16" and "length key < 256"
  shows "(let c = EncryptMppeKey md5 key secret auth salt;
              plain = mppe_decrypt md5 secret (auth @ put16 salt) c
          in length c mod 16 = 0 \<and> plain \<noteq> [] \<and> take (unat (hd plain)) (tl plain) = key \<and>
             set (drop (1 + unat (hd plain)) plain) \<subseteq> {0})"
  using mppe_blocks_decrypt [where secret = secret and prev = "auth @ put16 salt",
      OF assms(1) length_mppe_plain [of key]]
    length_mppe_plain [of key] unat_u8 [OF assms(2)]
  by (simp add: EncryptMppeKey_def Let_def) (auto simp: mppe_plain_def)

theorem mppe_key_recovered_witness:
  "(let c = EncryptMppeKey (\<lambda>x. replicate 16 (len8 x)) [1, 2, 3] [9] [8, 7] 0x8001;
        plain = mppe_decrypt (\<lambda>x. replicate 16 (len8 x)) [9] ([8, 7] @ put16 0x8001) c
    in length c mod 16 = 0 \<and> plain \<noteq> [] \<and> take (unat (hd plain)) (tl plain) = [1, 2, 3] \<and>
       set (drop (1 + unat (hd plain)) plain) \<subseteq> {0})"
  by (rule mppe_key_recovered) simp_all

end
