(* ===== verification/Upf_Report.thy ===== *)
theory Upf_Report
  imports Go_Bytes
begin

text \<open>
  The UPF's usage reports (\<^verbatim>\<open>NFs/upf/internal/report/report.go\<close>): trigger flags, measurements and
  the lists of information elements a report contributes to a message. An information element is
  modelled by the constructor call that builds it (\<^verbatim>\<open>ie.NewURRID(x)\<close> is \<open>IE_URRID x\<close>).
\<close>

section \<open>Flag bits\<close>

abbreviation RPT_TRIG_PERIO :: u32 where "RPT_TRIG_PERIO \<equiv> 1"
abbreviation RPT_TRIG_VOLTH :: u32 where "RPT_TRIG_VOLTH \<equiv> 2"
abbreviation RPT_TRIG_TIMTH :: u32 where "RPT_TRIG_TIMTH \<equiv> 4"
abbreviation RPT_TRIG_QUHTI :: u32 where "RPT_TRIG_QUHTI \<equiv> 8"
abbreviation RPT_TRIG_START :: u32 where "RPT_TRIG_START \<equiv> 16"
abbreviation RPT_TRIG_STOPT :: u32 where "RPT_TRIG_STOPT \<equiv> 32"
abbreviation RPT_TRIG_DROTH :: u32 where "RPT_TRIG_DROTH \<equiv> 64"
abbreviation RPT_TRIG_LIUSA :: u32 where "RPT_TRIG_LIUSA \<equiv> 128"
abbreviation RPT_TRIG_VOLQU :: u32 where "RPT_TRIG_VOLQU \<equiv> 256"
abbreviation RPT_TRIG_TIMQU :: u32 where "RPT_TRIG_TIMQU \<equiv> 512"
abbreviation RPT_TRIG_ENVCL :: u32 where "RPT_TRIG_ENVCL \<equiv> 1024"
abbreviation RPT_TRIG_MACAR :: u32 where "RPT_TRIG_MACAR \<equiv> 2048"
abbreviation RPT_TRIG_EVETH :: u32 where "RPT_TRIG_EVETH \<equiv> 4096"
abbreviation RPT_TRIG_EVEQU :: u32 where "RPT_TRIG_EVEQU \<equiv> 8192"
abbreviation RPT_TRIG_IPMJL :: u32 where "RPT_TRIG_IPMJL \<equiv> 16384"
abbreviation RPT_TRIG_QUVTI :: u32 where "RPT_TRIG_QUVTI \<equiv> 32768"
abbreviation RPT_TRIG_REEMR :: u32 where "RPT_TRIG_REEMR \<equiv> 65536"
abbreviation RPT_TRIG_UPINT :: u32 where "RPT_TRIG_UPINT \<equiv> 131072"

abbreviation USAR_TRIG_PERIO :: u32 where "USAR_TRIG_PERIO \<equiv> 1"
abbreviation USAR_TRIG_VOLTH :: u32 where "USAR_TRIG_VOLTH \<equiv> 2"
abbreviation USAR_TRIG_TIMTH :: u32 where "USAR_TRIG_TIMTH \<equiv> 4"
abbreviation USAR_TRIG_QUHTI :: u32 where "USAR_TRIG_QUHTI \<equiv> 8"
abbreviation USAR_TRIG_START :: u32 where "USAR_TRIG_START \<equiv> 16"
abbreviation USAR_TRIG_STOPT :: u32 where "USAR_TRIG_STOPT \<equiv> 32"
abbreviation USAR_TRIG_DROTH :: u32 where "USAR_TRIG_DROTH \<equiv> 64"
abbreviation USAR_TRIG_IMMER :: u32 where "USAR_TRIG_IMMER \<equiv> 128"
abbreviation USAR_TRIG_VOLQU :: u32 where "USAR_TRIG_VOLQU \<equiv> 256"
abbreviation USAR_TRIG_TIMQU :: u32 where "USAR_TRIG_TIMQU \<equiv> 512"
abbreviation USAR_TRIG_LIUSA :: u32 where "USAR_TRIG_LIUSA \<equiv> 1024"
abbreviation USAR_TRIG_TERMR :: u32 where "USAR_TRIG_TERMR \<equiv> 2048"
abbreviation USAR_TRIG_MONIT :: u32 where "USAR_TRIG_MONIT \<equiv> 4096"
abbreviation USAR_TRIG_ENVCL :: u32 where "USAR_TRIG_ENVCL \<equiv> 8192"
abbreviation USAR_TRIG_MACAR :: u32 where "USAR_TRIG_MACAR \<equiv> 16384"
abbreviation USAR_TRIG_EVETH :: u32 where "USAR_TRIG_EVETH \<equiv> 32768"
abbreviation USAR_TRIG_EVEQU :: u32 where "USAR_TRIG_EVEQU \<equiv> 65536"
abbreviation USAR_TRIG_TEBUR :: u32 where "USAR_TRIG_TEBUR \<equiv> 131072"
abbreviation USAR_TRIG_IPMJL :: u32 where "USAR_TRIG_IPMJL \<equiv> 262144"
abbreviation USAR_TRIG_QUVTI :: u32 where "USAR_TRIG_QUVTI \<equiv> 524288"
abbreviation USAR_TRIG_EMRRE :: u32 where "USAR_TRIG_EMRRE \<equiv> 1048576"
abbreviation USAR_TRIG_UPINT :: u32 where "USAR_TRIG_UPINT \<equiv> 2097152"

abbreviation APPLY_ACT_DROP :: u16 where "APPLY_ACT_DROP \<equiv> 1"
abbreviation APPLY_ACT_FORW :: u16 where "APPLY_ACT_FORW \<equiv> 2"
abbreviation APPLY_ACT_BUFF :: u16 where "APPLY_ACT_BUFF \<equiv> 4"
abbreviation APPLY_ACT_NOCP :: u16 where "APPLY_ACT_NOCP \<equiv> 8"
abbreviation APPLY_ACT_DUPL :: u16 where "APPLY_ACT_DUPL \<equiv> 16"
abbreviation APPLY_ACT_IPMA :: u16 where "APPLY_ACT_IPMA \<equiv> 32"
abbreviation APPLY_ACT_IPMD :: u16 where "APPLY_ACT_IPMD \<equiv> 64"
abbreviation APPLY_ACT_DFRT :: u16 where "APPLY_ACT_DFRT \<equiv> 128"
abbreviation APPLY_ACT_EDRT :: u16 where "APPLY_ACT_EDRT \<equiv> 256"
abbreviation APPLY_ACT_BDPN :: u16 where "APPLY_ACT_BDPN \<equiv> 512"
abbreviation APPLY_ACT_DDPN :: u16 where "APPLY_ACT_DDPN \<equiv> 1024"
abbreviation APPLY_ACT_FSSM :: u16 where "APPLY_ACT_FSSM \<equiv> 2048"
abbreviation APPLY_ACT_MBSU :: u16 where "APPLY_ACT_MBSU \<equiv> 4096"

abbreviation TOVOL :: u8 where "TOVOL \<equiv> 1"
abbreviation ULVOL :: u8 where "ULVOL \<equiv> 2"
abbreviation DLVOL :: u8 where "DLVOL \<equiv> 4"
abbreviation TONOP :: u8 where "TONOP \<equiv> 8"
abbreviation ULNOP :: u8 where "ULNOP \<equiv> 16"
abbreviation DLNOP :: u8 where "DLNOP \<equiv> 32"

text \<open>Little-endian \<^verbatim>\<open>Uint32\<close>, \<^verbatim>\<open>Uint16\<close> and \<^verbatim>\<open>PutUint32\<close>.\<close>

definition le32 :: "bytes \<Rightarrow> u32" where
  "le32 v = be32 (v ! 3) (v ! 2) (v ! 1) (v ! 0)"

definition le16 :: "bytes \<Rightarrow> u16" where
  "le16 v = be16 (v ! 1) (v ! 0)"

definition put32le :: "u32 \<Rightarrow> bytes" where
  "put32le w = rev (put32 w)"

section \<open>Reporting triggers\<close>

datatype report_error = TooShort

record ReportingTrigger =
  rpt_Flags :: u32

definition ReportingTrigger_Unmarshal :: "ReportingTrigger \<Rightarrow> bytes \<Rightarrow> (report_error, ReportingTrigger) outcome" where
  "ReportingTrigger_Unmarshal r b =
     (if length b < 2 then Err TooShort else Ok (r\<lparr>rpt_Flags := le32 (b @ [0, 0])\<rparr>))"

text \<open>The octets that \<^verbatim>\<open>IE()\<close> passes to \<^verbatim>\<open>ie.NewReportingTriggers\<close>.\<close>

definition ReportingTrigger_IE :: "ReportingTrigger \<Rightarrow> bytes" where
  "ReportingTrigger_IE r = take 3 (put32le (rpt_Flags r))"

definition rpt_PERIO :: "ReportingTrigger \<Rightarrow> bool" where "rpt_PERIO r \<longleftrightarrow> rpt_Flags r AND RPT_TRIG_PERIO \<noteq> 0"
definition rpt_VOLTH :: "ReportingTrigger \<Rightarrow> bool" where "rpt_VOLTH r \<longleftrightarrow> rpt_Flags r AND RPT_TRIG_VOLTH \<noteq> 0"
definition rpt_TIMTH :: "ReportingTrigger \<Rightarrow> bool" where "rpt_TIMTH r \<longleftrightarrow> rpt_Flags r AND RPT_TRIG_TIMTH \<noteq> 0"
definition rpt_QUHTI :: "ReportingTrigger \<Rightarrow> bool" where "rpt_QUHTI r \<longleftrightarrow> rpt_Flags r AND RPT_TRIG_QUHTI \<noteq> 0"
definition rpt_START :: "ReportingTrigger \<Rightarrow> bool" where "rpt_START r \<longleftrightarrow> rpt_Flags r AND RPT_TRIG_START \<noteq> 0"
definition rpt_STOPT :: "ReportingTrigger \<Rightarrow> bool" where "rpt_STOPT r \<longleftrightarrow> rpt_Flags r AND RPT_TRIG_STOPT \<noteq> 0"
definition rpt_DROTH :: "ReportingTrigger \<Rightarrow> bool" where "rpt_DROTH r \<longleftrightarrow> rpt_Flags r AND RPT_TRIG_DROTH \<noteq> 0"
definition rpt_LIUSA :: "ReportingTrigger \<Rightarrow> bool" where "rpt_LIUSA r \<longleftrightarrow> rpt_Flags r AND RPT_TRIG_LIUSA \<noteq> 0"
definition rpt_VOLQU :: "ReportingTrigger \<Rightarrow> bool" where "rpt_VOLQU r \<longleftrightarrow> rpt_Flags r AND RPT_TRIG_VOLQU \<noteq> 0"
definition rpt_TIMQU :: "ReportingTrigger \<Rightarrow> bool" where "rpt_TIMQU r \<longleftrightarrow> rpt_Flags r AND RPT_TRIG_TIMQU \<noteq> 0"
definition rpt_ENVCL :: "ReportingTrigger \<Rightarrow> bool" where "rpt_ENVCL r \<longleftrightarrow> rpt_Flags r AND RPT_TRIG_ENVCL \<noteq> 0"
definition rpt_MACAR :: "ReportingTrigger \<Rightarrow> bool" where "rpt_MACAR r \<longleftrightarrow> rpt_Flags r AND RPT_TRIG_MACAR \<noteq> 0"
definition rpt_EVETH :: "ReportingTrigger \<Rightarrow> bool" where "rpt_EVETH r \<longleftrightarrow> rpt_Flags r AND RPT_TRIG_EVETH \<noteq> 0"
definition rpt_EVEQU :: "ReportingTrigger \<Rightarrow> bool" where "rpt_EVEQU r \<longleftrightarrow> rpt_Flags r AND RPT_TRIG_EVEQU \<noteq> 0"
definition rpt_IPMJL :: "ReportingTrigger \<Rightarrow> bool" where "rpt_IPMJL r \<longleftrightarrow> rpt_Flags r AND RPT_TRIG_IPMJL \<noteq> 0"
definition rpt_QUVTI :: "ReportingTrigger \<Rightarrow> bool" where "rpt_QUVTI r \<longleftrightarrow> rpt_Flags r AND RPT_TRIG_QUVTI \<noteq> 0"
definition rpt_REEMR :: "ReportingTrigger \<Rightarrow> bool" where "rpt_REEMR r \<longleftrightarrow> rpt_Flags r AND RPT_TRIG_REEMR \<noteq> 0"
definition rpt_UPINT :: "ReportingTrigger \<Rightarrow> bool" where "rpt_UPINT r \<longleftrightarrow> rpt_Flags r AND RPT_TRIG_UPINT \<noteq> 0"

section \<open>Usage report triggers\<close>

record UsageReportTrigger =
  usar_Flags :: u32

text \<open>The switch of \<^verbatim>\<open>SetReportingTrigger\<close> compares the whole word, so only a single trigger is
  translated; \<^verbatim>\<open>RPT_TRIG_REEMR\<close> has no case.\<close>

definition SetReportingTrigger :: "UsageReportTrigger \<Rightarrow> u32 \<Rightarrow> UsageReportTrigger" where
  "SetReportingTrigger t r =
     t\<lparr>usar_Flags := usar_Flags t OR
       (if r = RPT_TRIG_PERIO then USAR_TRIG_PERIO else
       (if r = RPT_TRIG_VOLTH then USAR_TRIG_VOLTH else
       (if r = RPT_TRIG_TIMTH then USAR_TRIG_TIMTH else
       (if r = RPT_TRIG_QUHTI then USAR_TRIG_QUHTI else
       (if r = RPT_TRIG_START then USAR_TRIG_START else
       (if r = RPT_TRIG_STOPT then USAR_TRIG_STOPT else
       (if r = RPT_TRIG_DROTH then USAR_TRIG_DROTH else
       (if r = RPT_TRIG_LIUSA then USAR_TRIG_LIUSA else
       (if r = RPT_TRIG_VOLQU then USAR_TRIG_VOLQU else
       (if r = RPT_TRIG_TIMQU then USAR_TRIG_TIMQU else
       (if r = RPT_TRIG_ENVCL then USAR_TRIG_ENVCL else
       (if r = RPT_TRIG_MACAR then USAR_TRIG_MACAR else
       (if r = RPT_TRIG_EVETH then USAR_TRIG_EVETH else
       (if r = RPT_TRIG_EVEQU then USAR_TRIG_EVEQU else
       (if r = RPT_TRIG_IPMJL then USAR_TRIG_IPMJL else
       (if r = RPT_TRIG_QUVTI then USAR_TRIG_QUVTI else
       (if r = RPT_TRIG_UPINT then USAR_TRIG_UPINT else
        0)))))))))))))))))\<rparr>"

definition UsageReportTrigger_IE :: "UsageReportTrigger \<Rightarrow> bytes" where
  "UsageReportTrigger_IE t = take 3 (put32le (usar_Flags t))"

definition usar_PERIO :: "UsageReportTrigger \<Rightarrow> bool" where "usar_PERIO t \<longleftrightarrow> usar_Flags t AND USAR_TRIG_PERIO \<noteq> 0"
definition usar_VOLTH :: "UsageReportTrigger \<Rightarrow> bool" where "usar_VOLTH t \<longleftrightarrow> usar_Flags t AND USAR_TRIG_VOLTH \<noteq> 0"
definition usar_TIMTH :: "UsageReportTrigger \<Rightarrow> bool" where "usar_TIMTH t \<longleftrightarrow> usar_Flags t AND USAR_TRIG_TIMTH \<noteq> 0"
definition usar_QUHTI :: "UsageReportTrigger \<Rightarrow> bool" where "usar_QUHTI t \<longleftrightarrow> usar_Flags t AND USAR_TRIG_QUHTI \<noteq> 0"
definition usar_START :: "UsageReportTrigger \<Rightarrow> bool" where "usar_START t \<longleftrightarrow> usar_Flags t AND USAR_TRIG_START \<noteq> 0"
definition usar_STOPT :: "UsageReportTrigger \<Rightarrow> bool" where "usar_STOPT t \<longleftrightarrow> usar_Flags t AND USAR_TRIG_STOPT \<noteq> 0"
definition usar_DROTH :: "UsageReportTrigger \<Rightarrow> bool" where "usar_DROTH t \<longleftrightarrow> usar_Flags t AND USAR_TRIG_DROTH \<noteq> 0"
definition usar_IMMER :: "UsageReportTrigger \<Rightarrow> bool" where "usar_IMMER t \<longleftrightarrow> usar_Flags t AND USAR_TRIG_IMMER \<noteq> 0"
definition usar_VOLQU :: "UsageReportTrigger \<Rightarrow> bool" where "usar_VOLQU t \<longleftrightarrow> usar_Flags t AND USAR_TRIG_VOLQU \<noteq> 0"
definition usar_TIMQU :: "UsageReportTrigger \<Rightarrow> bool" where "usar_TIMQU t \<longleftrightarrow> usar_Flags t AND USAR_TRIG_TIMQU \<noteq> 0"
definition usar_LIUSA :: "UsageReportTrigger \<Rightarrow> bool" where "usar_LIUSA t \<longleftrightarrow> usar_Flags t AND USAR_TRIG_LIUSA \<noteq> 0"
definition usar_TERMR :: "UsageReportTrigger \<Rightarrow> bool" where "usar_TERMR t \<longleftrightarrow> usar_Flags t AND USAR_TRIG_TERMR \<noteq> 0"
definition usar_MONIT :: "UsageReportTrigger \<Rightarrow> bool" where "usar_MONIT t \<longleftrightarrow> usar_Flags t AND USAR_TRIG_MONIT \<noteq> 0"
definition usar_ENVCL :: "UsageReportTrigger \<Rightarrow> bool" where "usar_ENVCL t \<longleftrightarrow> usar_Flags t AND USAR_TRIG_ENVCL \<noteq> 0"
definition usar_MACAR :: "UsageReportTrigger \<Rightarrow> bool" where "usar_MACAR t \<longleftrightarrow> usar_Flags t AND USAR_TRIG_MACAR \<noteq> 0"
definition usar_EVETH :: "UsageReportTrigger \<Rightarrow> bool" where "usar_EVETH t \<longleftrightarrow> usar_Flags t AND USAR_TRIG_EVETH \<noteq> 0"
definition usar_EVEQU :: "UsageReportTrigger \<Rightarrow> bool" where "usar_EVEQU t \<longleftrightarrow> usar_Flags t AND USAR_TRIG_EVEQU \<noteq> 0"
definition usar_TEBUR :: "UsageReportTrigger \<Rightarrow> bool" where "usar_TEBUR t \<longleftrightarrow> usar_Flags t AND USAR_TRIG_TEBUR \<noteq> 0"
definition usar_IPMJL :: "UsageReportTrigger \<Rightarrow> bool" where "usar_IPMJL t \<longleftrightarrow> usar_Flags t AND USAR_TRIG_IPMJL \<noteq> 0"
definition usar_QUVTI :: "UsageReportTrigger \<Rightarrow> bool" where "usar_QUVTI t \<longleftrightarrow> usar_Flags t AND USAR_TRIG_QUVTI \<noteq> 0"
definition usar_EMRRE :: "UsageReportTrigger \<Rightarrow> bool" where "usar_EMRRE t \<longleftrightarrow> usar_Flags t AND USAR_TRIG_EMRRE \<noteq> 0"
definition usar_UPINT :: "UsageReportTrigger \<Rightarrow> bool" where "usar_UPINT t \<longleftrightarrow> usar_Flags t AND USAR_TRIG_UPINT \<noteq> 0"

section \<open>Apply action\<close>

record ApplyAction =
  act_Flags :: u16

definition ApplyAction_Unmarshal :: "ApplyAction \<Rightarrow> bytes \<Rightarrow> (report_error, ApplyAction) outcome" where
  "ApplyAction_Unmarshal a b =
     (if length b < 1 then Err TooShort
      else Ok (a\<lparr>act_Flags := le16 (b @ replicate (max 2 (length b) - length b) 0)\<rparr>))"

definition act_DROP :: "ApplyAction \<Rightarrow> bool" where "act_DROP a \<longleftrightarrow> act_Flags a AND APPLY_ACT_DROP \<noteq> 0"
definition act_FORW :: "ApplyAction \<Rightarrow> bool" where "act_FORW a \<longleftrightarrow> act_Flags a AND APPLY_ACT_FORW \<noteq> 0"
definition act_BUFF :: "ApplyAction \<Rightarrow> bool" where "act_BUFF a \<longleftrightarrow> act_Flags a AND APPLY_ACT_BUFF \<noteq> 0"
definition act_NOCP :: "ApplyAction \<Rightarrow> bool" where "act_NOCP a \<longleftrightarrow> act_Flags a AND APPLY_ACT_NOCP \<noteq> 0"
definition act_DUPL :: "ApplyAction \<Rightarrow> bool" where "act_DUPL a \<longleftrightarrow> act_Flags a AND APPLY_ACT_DUPL \<noteq> 0"
definition act_IPMA :: "ApplyAction \<Rightarrow> bool" where "act_IPMA a \<longleftrightarrow> act_Flags a AND APPLY_ACT_IPMA \<noteq> 0"
definition act_IPMD :: "ApplyAction \<Rightarrow> bool" where "act_IPMD a \<longleftrightarrow> act_Flags a AND APPLY_ACT_IPMD \<noteq> 0"
definition act_DFRT :: "ApplyAction \<Rightarrow> bool" where "act_DFRT a \<longleftrightarrow> act_Flags a AND APPLY_ACT_DFRT \<noteq> 0"
definition act_EDRT :: "ApplyAction \<Rightarrow> bool" where "act_EDRT a \<longleftrightarrow> act_Flags a AND APPLY_ACT_EDRT \<noteq> 0"
definition act_BDPN :: "ApplyAction \<Rightarrow> bool" where "act_BDPN a \<longleftrightarrow> act_Flags a AND APPLY_ACT_BDPN \<noteq> 0"
definition act_DDPN :: "ApplyAction \<Rightarrow> bool" where "act_DDPN a \<longleftrightarrow> act_Flags a AND APPLY_ACT_DDPN \<noteq> 0"
definition act_FSSM :: "ApplyAction \<Rightarrow> bool" where "act_FSSM a \<longleftrightarrow> act_Flags a AND APPLY_ACT_FSSM \<noteq> 0"
definition act_MBSU :: "ApplyAction \<Rightarrow> bool" where "act_MBSU a \<longleftrightarrow> act_Flags a AND APPLY_ACT_MBSU \<noteq> 0"

section \<open>Measurements and reports\<close>

record VolumeMeasure =
  vm_Flags :: u8
  TotalVolume :: u64
  UplinkVolume :: u64
  DownlinkVolume :: u64
  TotalPktNum :: u64
  UplinkPktNum :: u64
  DownlinkPktNum :: u64

definition VolumeMeasure_SetFlags :: "VolumeMeasure \<Rightarrow> bool \<Rightarrow> VolumeMeasure" where
  "VolumeMeasure_SetFlags v mnop =
     (let v = v\<lparr>vm_Flags := vm_Flags v OR (TOVOL OR ULVOL OR DLVOL)\<rparr>
      in if mnop then v\<lparr>vm_Flags := vm_Flags v OR (TONOP OR ULNOP OR DLNOP)\<rparr> else v)"

record MeasureMethod =
  DURAT :: bool
  VOLUM :: bool
  EVENT :: bool

record MeasureInformation =
  MBQE :: bool
  INAM :: bool
  RADI :: bool
  ISTM :: bool
  MNOP :: bool
  SSPOC :: bool
  ASPOC :: bool
  CIAM :: bool

text \<open>Times are opaque instants; \<open>DuratMeasure\<close> is the field of the struct of that name.\<close>

record USAReport =
  usar_URRID :: u32
  URSEQN :: u32
  USARTrigger :: UsageReportTrigger
  VolumMeasure :: VolumeMeasure
  DuratMeasure :: u64
  QueryUrrRef :: u32
  StartTime :: int
  EndTime :: int

datatype report_ie =
    IE_URRID u32 | IE_URSEQN u32 | IE_UsageReportTrigger bytes | IE_StartTime int | IE_EndTime int
  | IE_VolumeMeasurement u8 u64 u64 u64 u64 u64 u64 | IE_DurationMeasurement u64

definition VolumeMeasure_IE :: "VolumeMeasure \<Rightarrow> report_ie" where
  "VolumeMeasure_IE v =
     IE_VolumeMeasurement (vm_Flags v) (TotalVolume v) (UplinkVolume v) (DownlinkVolume v)
       (TotalPktNum v) (UplinkPktNum v) (DownlinkPktNum v)"

definition IEsWithinSessReportReq :: "USAReport \<Rightarrow> MeasureMethod \<Rightarrow> MeasureInformation \<Rightarrow> report_ie list" where
  "IEsWithinSessReportReq r method info =
     (let t = USARTrigger r
      in [IE_URRID (usar_URRID r), IE_URSEQN (URSEQN r), IE_UsageReportTrigger (UsageReportTrigger_IE t)]
         @ (if \<not> usar_START t \<and> \<not> usar_STOPT t \<and> \<not> usar_MACAR t
            then [IE_StartTime (StartTime r), IE_EndTime (EndTime r)] else [])
         @ (if VOLUM method then [VolumeMeasure_IE (VolumeMeasure_SetFlags (VolumMeasure r) (MNOP info))] else [])
         @ (if DURAT method then [IE_DurationMeasurement (DuratMeasure r)] else []))"

definition IEsWithinSessModRsp :: "USAReport \<Rightarrow> MeasureMethod \<Rightarrow> MeasureInformation \<Rightarrow> report_ie list" where
  "IEsWithinSessModRsp r method info =
     (let t = USARTrigger r
      in [IE_URRID (usar_URRID r), IE_URSEQN (URSEQN r), IE_UsageReportTrigger (UsageReportTrigger_IE t)]
         @ (if \<not> usar_START t \<and> \<not> usar_STOPT t \<and> \<not> usar_MACAR t
            then [IE_StartTime (StartTime r), IE_EndTime (EndTime r)] else [])
         @ (if VOLUM method then [VolumeMeasure_IE (VolumeMeasure_SetFlags (VolumMeasure r) (MNOP info))] else [])
         @ (if DURAT method then [IE_DurationMeasurement (DuratMeasure r)] else []))"

definition IEsWithinSessDelRsp :: "USAReport \<Rightarrow> MeasureMethod \<Rightarrow> MeasureInformation \<Rightarrow> report_ie list" where
  "IEsWithinSessDelRsp r method info =
     (let t = USARTrigger r
      in [IE_URRID (usar_URRID r), IE_URSEQN (URSEQN r), IE_UsageReportTrigger (UsageReportTrigger_IE t)]
         @ (if \<not> usar_START t \<and> \<not> usar_STOPT t \<and> \<not> usar_MACAR t
            then [IE_StartTime (StartTime r), IE_EndTime (EndTime r)] else [])
         @ (if VOLUM method then [VolumeMeasure_IE (VolumeMeasure_SetFlags (VolumMeasure r) (MNOP info))] else [])
         @ (if DURAT method then [IE_DurationMeasurement (DuratMeasure r)] else []))"

text \<open>The reports the data plane sends to the PFCP server.\<close>

datatype Report = DLDReport (dld_PDRID: u16) (dld_Action: u16) (dld_BufPkt: bytes) | USAReport_r USAReport

record SessReport =
  sr_SEID :: u64
  sr_Reports :: "Report list"

section \<open>Round trips of the flag words\<close>

lemma le32_put32le: "le32 (put32le w) = w"
proof -
  have "be32 (put32 w ! 0) (put32 w ! 1) (put32 w ! 2) (put32 w ! 3) = w"
    using get32_put32' [of w "[]"] by (simp add: get32_def put32_def put16_def)
  then show ?thesis by (simp add: le32_def put32le_def put32_def put16_def)
qed

lemma top_octet_small: "w < 0x1000000 \<Longrightarrow> ucast (drop_bit 8 (ucast (drop_bit 16 w) :: u16)) = (0 :: u8)" for w :: u32
proof -
  assume "w < 0x1000000"
  then have "drop_bit 24 w = 0" by (simp add: drop_bit_eq_div div_word_less)
  moreover have "ucast (drop_bit 8 (ucast (drop_bit 16 w) :: u16)) = (ucast (drop_bit 24 w) :: u8)"
    by (rule bit_word_eqI) (auto simp: bit_simps)
  ultimately show ?thesis by simp
qed

lemma put32le_small: "w < 0x1000000 \<Longrightarrow> take 3 (put32le w) @ [0] = put32le w"
  by (simp add: put32le_def put32_def put16_def top_octet_small)

lemma le32_first_four: "4 \<le> length v \<Longrightarrow> le32 (v @ rest) = le32 v"
  by (auto simp: le32_def nth_append)

lemma flags_read_back: "w < 0x1000000 \<Longrightarrow> le32 (take 3 (put32le w) @ [0, 0]) = w"
  using le32_first_four [of "put32le w" "[0]"] put32le_small [of w]
  by (metis append.assoc append_Cons append_Nil le32_put32le length_put(2) length_rev order_refl put32le_def)

lemmas rpt_defs = rpt_PERIO_def rpt_VOLTH_def rpt_TIMTH_def rpt_QUHTI_def rpt_START_def
  rpt_STOPT_def rpt_DROTH_def rpt_LIUSA_def rpt_VOLQU_def rpt_TIMQU_def rpt_ENVCL_def rpt_MACAR_def
  rpt_EVETH_def rpt_EVEQU_def rpt_IPMJL_def rpt_QUVTI_def rpt_REEMR_def rpt_UPINT_def

lemmas usar_defs = usar_PERIO_def usar_VOLTH_def usar_TIMTH_def usar_QUHTI_def usar_START_def
  usar_STOPT_def usar_DROTH_def usar_IMMER_def usar_VOLQU_def usar_TIMQU_def usar_LIUSA_def
  usar_TERMR_def usar_MONIT_def usar_ENVCL_def usar_MACAR_def usar_EVETH_def usar_EVEQU_def
  usar_TEBUR_def usar_IPMJL_def usar_QUVTI_def usar_EMRRE_def usar_UPINT_def

section \<open>Properties\<close>

text \<open>
  The trigger flags survive the wire: the three octets a reporting trigger writes are read
  back as the same flags, for every flag word of 24 bits; and the two-octet form of older peers
  is read as the low sixteen flags.
\<close>

theorem trigger_flags_roundtrip:
  assumes "rpt_Flags r < 0x1000000"
  shows "ReportingTrigger_Unmarshal r0 (ReportingTrigger_IE r) = Ok (r0\<lparr>rpt_Flags := rpt_Flags r\<rparr>) \<and>
    ReportingTrigger_Unmarshal r0 [a, b] = Ok (r0\<lparr>rpt_Flags := ucast (be16 b a)\<rparr>)"
proof
  show "ReportingTrigger_Unmarshal r0 (ReportingTrigger_IE r) = Ok (r0\<lparr>rpt_Flags := rpt_Flags r\<rparr>)"
    using flags_read_back [OF assms]
    by (simp add: ReportingTrigger_Unmarshal_def ReportingTrigger_IE_def put32le_def)
  have "le32 [a, b, 0, 0] = ucast (be16 b a)"
    by (simp add: le32_def be32_def be16_def)
  then show "ReportingTrigger_Unmarshal r0 [a, b] = Ok (r0\<lparr>rpt_Flags := ucast (be16 b a)\<rparr>)"
    by (simp add: ReportingTrigger_Unmarshal_def)
qed

theorem trigger_flags_roundtrip_witness:
  "ReportingTrigger_Unmarshal \<lparr>rpt_Flags = 0\<rparr> (ReportingTrigger_IE \<lparr>rpt_Flags = 0x20101\<rparr>) = Ok \<lparr>rpt_Flags = 0x20101\<rparr>"
  using trigger_flags_roundtrip [of "\<lparr>rpt_Flags = 0x20101\<rparr>" "\<lparr>rpt_Flags = 0\<rparr>" 0 0] by simp

text \<open>
  \<^verbatim>\<open>SetReportingTrigger\<close> is faithful to the names of the flags although the two words number
  their bits differently: for each of the seventeen single triggers it knows, on a report without
  flags, the usage-report accessors answer as the reporting-trigger accessors of the same name
  do; the trigger REEMR and every other word set nothing.
\<close>

theorem reporting_trigger_names_kept:
  "(let t = SetReportingTrigger \<lparr>usar_Flags = 0\<rparr> r; s = \<lparr>rpt_Flags = r\<rparr> in
    if r \<in> {1, 2, 4, 8, 16, 32, 64, 128, 256, 512, 1024, 2048, 4096, 8192, 16384, 32768, 131072}
    then [usar_PERIO t, usar_VOLTH t, usar_TIMTH t, usar_QUHTI t, usar_START t, usar_STOPT t, usar_DROTH t,
          usar_LIUSA t, usar_VOLQU t, usar_TIMQU t, usar_ENVCL t, usar_MACAR t, usar_EVETH t, usar_EVEQU t,
          usar_IPMJL t, usar_QUVTI t, usar_UPINT t]
       = [rpt_PERIO s, rpt_VOLTH s, rpt_TIMTH s, rpt_QUHTI s, rpt_START s, rpt_STOPT s, rpt_DROTH s,
          rpt_LIUSA s, rpt_VOLQU s, rpt_TIMQU s, rpt_ENVCL s, rpt_MACAR s, rpt_EVETH s, rpt_EVEQU s,
          rpt_IPMJL s, rpt_QUVTI s, rpt_UPINT s]
    else t = \<lparr>usar_Flags = 0\<rparr>)"
proof (cases "r \<in> {1, 2, 4, 8, 16, 32, 64, 128, 256, 512, 1024, 2048, 4096, 8192, 16384, 32768, 131072}")
  case True
  then show ?thesis
    by (elim insertE emptyE) (simp_all add: SetReportingTrigger_def rpt_defs usar_defs)
next
  case False
  then show ?thesis by (simp add: SetReportingTrigger_def)
qed

end
