(* ===== verification/Upf_Session.thy ===== *)
theory Upf_Session
  imports Upf_Report "HOL-Library.AList"
begin

text \<open>
  PFCP sessions of the UPF (\<^verbatim>\<open>Sess\<close> and its methods in \<^verbatim>\<open>NFs/upf/internal/pfcp/node.go\<close>).

  Code outside the repository enters as arguments: \<open>ie_api\<close> are the accessors and constructors of
  the go-pfcp information elements (a type variable \<open>'ie\<close>), and \<open>Driver\<close> is the interface
  \<^verbatim>\<open>forwarder.Driver\<close>, whose operations act on a data-plane state \<open>'d\<close>. Go maps are association
  lists with distinct keys (sets: lists without duplicates); the order of the list is the order in
  which \<open>range\<close> visits the map, so a statement about all lists covers every iteration order.
  Pointers to the values of a map (\<^verbatim>\<open>*URRInfo\<close>, \<^verbatim>\<open>*PDRInfo\<close>) are only reached through the map and
  an update through the pointer is an update of the map.
\<close>

section \<open>Interfaces\<close>

datatype pfcp_error =
    IEError nat | DriverError nat | PDRNotFound u16 | FARNotFound u32 | QERNotFound u32
  | URRNotFound u32 | BARNotFound u8 | InvalidSEID | SessNotFound u64 | RemoteSessNotFound u64 string
  | InvalidMsgType | UnknownMsgType | RxtrNotFound string | MarshalError | WriteError

datatype ie_kind =
    K_PDRID | K_URRID | K_MeasurementMethod | K_MeasurementInformation | K_PDI | K_UEIPAddress | K_other

record 'ie ie_api =
  kind_of :: "'ie \<Rightarrow> ie_kind"
  ChildIEs :: "'ie \<Rightarrow> 'ie list"
  ie_CreatePDR :: "'ie \<Rightarrow> pfcp_error + 'ie list"
  ie_UpdatePDR :: "'ie \<Rightarrow> pfcp_error + 'ie list"
  ie_PDRID :: "'ie \<Rightarrow> pfcp_error + u16"
  ie_FARID :: "'ie \<Rightarrow> pfcp_error + u32"
  ie_QERID :: "'ie \<Rightarrow> pfcp_error + u32"
  ie_URRID :: "'ie \<Rightarrow> pfcp_error + u32"
  ie_BARID :: "'ie \<Rightarrow> pfcp_error + u8"
  HasDURAT :: "'ie \<Rightarrow> bool"
  HasVOLUM :: "'ie \<Rightarrow> bool"
  HasEVENT :: "'ie \<Rightarrow> bool"
  HasMBQE :: "'ie \<Rightarrow> bool"
  HasINAM :: "'ie \<Rightarrow> bool"
  HasRADI :: "'ie \<Rightarrow> bool"
  HasISTM :: "'ie \<Rightarrow> bool"
  HasMNOP :: "'ie \<Rightarrow> bool"
  empty_IE :: 'ie
  NewRemovePDR :: "u16 \<Rightarrow> 'ie"
  NewRemoveFAR :: "u32 \<Rightarrow> 'ie"
  NewRemoveQER :: "u32 \<Rightarrow> 'ie"
  NewRemoveURR :: "u32 \<Rightarrow> 'ie"
  NewRemoveBAR :: "u8 \<Rightarrow> 'ie"

text \<open>What the code relies on of go-pfcp: an element built from an identifier gives it back.\<close>

definition ie_laws :: "'ie ie_api \<Rightarrow> bool" where
  "ie_laws api \<longleftrightarrow>
     (\<forall>i. ie_PDRID api (NewRemovePDR api i) = Inr i) \<and> (\<forall>i. ie_FARID api (NewRemoveFAR api i) = Inr i) \<and>
     (\<forall>i. ie_QERID api (NewRemoveQER api i) = Inr i) \<and> (\<forall>i. ie_URRID api (NewRemoveURR api i) = Inr i) \<and>
     (\<forall>i. ie_BARID api (NewRemoveBAR api i) = Inr i)"

type_synonym ('d, 'ie) rule_op = "'d \<Rightarrow> u64 \<Rightarrow> 'ie \<Rightarrow> pfcp_error option \<times> 'd"

record ('d, 'ie) Driver =
  drv_CreatePDR :: "('d, 'ie) rule_op"
  drv_UpdatePDR :: "('d, 'ie) rule_op"
  drv_RemovePDR :: "('d, 'ie) rule_op"
  drv_CreateFAR :: "('d, 'ie) rule_op"
  drv_UpdateFAR :: "('d, 'ie) rule_op"
  drv_RemoveFAR :: "('d, 'ie) rule_op"
  drv_CreateQER :: "('d, 'ie) rule_op"
  drv_UpdateQER :: "('d, 'ie) rule_op"
  drv_RemoveQER :: "('d, 'ie) rule_op"
  drv_CreateURR :: "('d, 'ie) rule_op"
  drv_UpdateURR :: "'d \<Rightarrow> u64 \<Rightarrow> 'ie \<Rightarrow> (pfcp_error + USAReport list) \<times> 'd"
  drv_RemoveURR :: "'d \<Rightarrow> u64 \<Rightarrow> 'ie \<Rightarrow> (pfcp_error + USAReport list) \<times> 'd"
  drv_QueryURR :: "'d \<Rightarrow> u64 \<Rightarrow> u32 \<Rightarrow> (pfcp_error + USAReport list) \<times> 'd"
  drv_CreateBAR :: "('d, 'ie) rule_op"
  drv_UpdateBAR :: "('d, 'ie) rule_op"
  drv_RemoveBAR :: "('d, 'ie) rule_op"

text \<open>The driver without a data plane (\<^verbatim>\<open>forwarder.Empty\<close>).\<close>

definition Empty :: "(unit, 'ie) Driver" where
  "Empty = (let ok = (\<lambda>d _ _. (None, d)); none = (\<lambda>d _ _. (Inr [], d)) in
     \<lparr>drv_CreatePDR = ok, drv_UpdatePDR = ok, drv_RemovePDR = ok,
      drv_CreateFAR = ok, drv_UpdateFAR = ok, drv_RemoveFAR = ok,
      drv_CreateQER = ok, drv_UpdateQER = ok, drv_RemoveQER = ok,
      drv_CreateURR = ok, drv_UpdateURR = none, drv_RemoveURR = none, drv_QueryURR = (\<lambda>d _ _. (Inr [], d)),
      drv_CreateBAR = ok, drv_UpdateBAR = ok, drv_RemoveBAR = ok\<rparr>)"

section \<open>State\<close>

record PDRInfo =
  RelatedURRIDs :: "u32 list"

record URRInfo =
  removed :: bool
  SEQN :: u32
  urr_Method :: MeasureMethod
  urr_Information :: MeasureInformation
  refPdrNum :: u16

text \<open>A buffered Go channel.\<close>

record chan =
  chan_buf :: "bytes list"
  chan_closed :: bool

record Sess =
  sess_rnode :: "nat option"
  LocalID :: u64
  RemoteID :: u64
  PDRIDs :: "(u16 \<times> PDRInfo) list"
  FARIDs :: "u32 list"
  QERIDs :: "u32 list"
  URRIDs :: "(u32 \<times> URRInfo) list"
  BARIDs :: "u8 list"
  sess_q :: "(u16 \<times> chan) list"
  qlen :: nat

section \<open>Rules without reports\<close>

definition CreateFAR :: "'ie ie_api \<Rightarrow> ('d, 'ie) Driver \<Rightarrow> Sess \<Rightarrow> 'd \<Rightarrow> 'ie \<Rightarrow> pfcp_error option \<times> Sess \<times> 'd" where
  "CreateFAR api drv s d req =
     (case ie_FARID api req of
        Inl e \<Rightarrow> (Some e, s, d)
      | Inr i \<Rightarrow> let s = s\<lparr>FARIDs := List.insert i (FARIDs s)\<rparr>; (e, d) = drv_CreateFAR drv d (LocalID s) req
                in (e, s, d))"

definition UpdateFAR :: "'ie ie_api \<Rightarrow> ('d, 'ie) Driver \<Rightarrow> Sess \<Rightarrow> 'd \<Rightarrow> 'ie \<Rightarrow> pfcp_error option \<times> Sess \<times> 'd" where
  "UpdateFAR api drv s d req =
     (case ie_FARID api req of
        Inl e \<Rightarrow> (Some e, s, d)
      | Inr i \<Rightarrow> if i \<notin> set (FARIDs s) then (Some (FARNotFound i), s, d)
                else let (e, d) = drv_UpdateFAR drv d (LocalID s) req in (e, s, d))"

definition RemoveFAR :: "'ie ie_api \<Rightarrow> ('d, 'ie) Driver \<Rightarrow> Sess \<Rightarrow> 'd \<Rightarrow> 'ie \<Rightarrow> pfcp_error option \<times> Sess \<times> 'd" where
  "RemoveFAR api drv s d req =
     (case ie_FARID api req of
        Inl e \<Rightarrow> (Some e, s, d)
      | Inr i \<Rightarrow> if i \<notin> set (FARIDs s) then (Some (FARNotFound i), s, d)
                else let (e, d) = drv_RemoveFAR drv d (LocalID s) req
                     in case e of Some err \<Rightarrow> (Some err, s, d)
                        | None \<Rightarrow> (None, s\<lparr>FARIDs := removeAll i (FARIDs s)\<rparr>, d))"

definition CreateQER :: "'ie ie_api \<Rightarrow> ('d, 'ie) Driver \<Rightarrow> Sess \<Rightarrow> 'd \<Rightarrow> 'ie \<Rightarrow> pfcp_error option \<times> Sess \<times> 'd" where
  "CreateQER api drv s d req =
     (case ie_QERID api req of
        Inl e \<Rightarrow> (Some e, s, d)
      | Inr i \<Rightarrow> let s = s\<lparr>QERIDs := List.insert i (QERIDs s)\<rparr>; (e, d) = drv_CreateQER drv d (LocalID s) req
                in (e, s, d))"

definition UpdateQER :: "'ie ie_api \<Rightarrow> ('d, 'ie) Driver \<Rightarrow> Sess \<Rightarrow> 'd \<Rightarrow> 'ie \<Rightarrow> pfcp_error option \<times> Sess \<times> 'd" where
  "UpdateQER api drv s d req =
     (case ie_QERID api req of
        Inl e \<Rightarrow> (Some e, s, d)
      | Inr i \<Rightarrow> if i \<notin> set (QERIDs s) then (Some (QERNotFound i), s, d)
                else let (e, d) = drv_UpdateQER drv d (LocalID s) req in (e, s, d))"

definition RemoveQER :: "'ie ie_api \<Rightarrow> ('d, 'ie) Driver \<Rightarrow> Sess \<Rightarrow> 'd \<Rightarrow> 'ie \<Rightarrow> pfcp_error option \<times> Sess \<times> 'd" where
  "RemoveQER api drv s d req =
     (case ie_QERID api req of
        Inl e \<Rightarrow> (Some e, s, d)
      | Inr i \<Rightarrow> if i \<notin> set (QERIDs s) then (Some (QERNotFound i), s, d)
                else let (e, d) = drv_RemoveQER drv d (LocalID s) req
                     in case e of Some err \<Rightarrow> (Some err, s, d)
                        | None \<Rightarrow> (None, s\<lparr>QERIDs := removeAll i (QERIDs s)\<rparr>, d))"

definition CreateBAR :: "'ie ie_api \<Rightarrow> ('d, 'ie) Driver \<Rightarrow> Sess \<Rightarrow> 'd \<Rightarrow> 'ie \<Rightarrow> pfcp_error option \<times> Sess \<times> 'd" where
  "CreateBAR api drv s d req =
     (case ie_BARID api req of
        Inl e \<Rightarrow> (Some e, s, d)
      | Inr i \<Rightarrow> let s = s\<lparr>BARIDs := List.insert i (BARIDs s)\<rparr>; (e, d) = drv_CreateBAR drv d (LocalID s) req
                in (e, s, d))"

definition UpdateBAR :: "'ie ie_api \<Rightarrow> ('d, 'ie) Driver \<Rightarrow> Sess \<Rightarrow> 'd \<Rightarrow> 'ie \<Rightarrow> pfcp_error option \<times> Sess \<times> 'd" where
  "UpdateBAR api drv s d req =
     (case ie_BARID api req of
        Inl e \<Rightarrow> (Some e, s, d)
      | Inr i \<Rightarrow> if i \<notin> set (BARIDs s) then (Some (BARNotFound i), s, d)
                else let (e, d) = drv_UpdateBAR drv d (LocalID s) req in (e, s, d))"

definition RemoveBAR :: "'ie ie_api \<Rightarrow> ('d, 'ie) Driver \<Rightarrow> Sess \<Rightarrow> 'd \<Rightarrow> 'ie \<Rightarrow> pfcp_error option \<times> Sess \<times> 'd" where
  "RemoveBAR api drv s d req =
     (case ie_BARID api req of
        Inl e \<Rightarrow> (Some e, s, d)
      | Inr i \<Rightarrow> if i \<notin> set (BARIDs s) then (Some (BARNotFound i), s, d)
                else let (e, d) = drv_RemoveBAR drv d (LocalID s) req
                     in case e of Some err \<Rightarrow> (Some err, s, d)
                        | None \<Rightarrow> (None, s\<lparr>BARIDs := removeAll i (BARIDs s)\<rparr>, d))"

section \<open>Usage reporting rules\<close>

definition set_trigger :: "u32 \<Rightarrow> USAReport \<Rightarrow> USAReport" where
  "set_trigger f r = r\<lparr>USARTrigger := (USARTrigger r)\<lparr>usar_Flags := usar_Flags (USARTrigger r) OR f\<rparr>\<rparr>"

definition CreateURR :: "'ie ie_api \<Rightarrow> ('d, 'ie) Driver \<Rightarrow> Sess \<Rightarrow> 'd \<Rightarrow> 'ie \<Rightarrow> pfcp_error option \<times> Sess \<times> 'd" where
  "CreateURR api drv s d req =
     (case ie_URRID api req of
        Inl e \<Rightarrow> (Some e, s, d)
      | Inr i \<Rightarrow>
          let mInfo = (case find (\<lambda>x. kind_of api x = K_MeasurementInformation) (ChildIEs api req) of
                         Some x \<Rightarrow> x | None \<Rightarrow> empty_IE api);
              info = \<lparr>removed = False, SEQN = 0,
                      urr_Method = \<lparr>DURAT = HasDURAT api req, VOLUM = HasVOLUM api req, EVENT = HasEVENT api req\<rparr>,
                      urr_Information = \<lparr>MBQE = HasMBQE api mInfo, INAM = HasINAM api mInfo, RADI = HasRADI api mInfo,
                        ISTM = HasISTM api mInfo, MNOP = HasMNOP api mInfo, SSPOC = False, ASPOC = False, CIAM = False\<rparr>,
                      refPdrNum = 0\<rparr>;
              s = s\<lparr>URRIDs := AList.update i info (URRIDs s)\<rparr>;
              (e, d) = drv_CreateURR drv d (LocalID s) req
          in (e, s, d))"

text \<open>The child elements of an update overwrite method and information, in their order; the
  three flags SSPOC, ASPOC and CIAM are not assigned.\<close>

definition update_child :: "'ie ie_api \<Rightarrow> 'ie \<Rightarrow> URRInfo \<Rightarrow> URRInfo" where
  "update_child api x info =
     (case kind_of api x of
        K_MeasurementMethod \<Rightarrow>
          info\<lparr>urr_Method := \<lparr>DURAT = HasDURAT api x, VOLUM = HasVOLUM api x, EVENT = HasEVENT api x\<rparr>\<rparr>
      | K_MeasurementInformation \<Rightarrow>
          info\<lparr>urr_Information := (urr_Information info)
            \<lparr>MBQE := HasMBQE api x, INAM := HasINAM api x, RADI := HasRADI api x, ISTM := HasISTM api x,
             MNOP := HasMNOP api x\<rparr>\<rparr>
      | _ \<Rightarrow> info)"

definition UpdateURR ::
    "'ie ie_api \<Rightarrow> ('d, 'ie) Driver \<Rightarrow> Sess \<Rightarrow> 'd \<Rightarrow> 'ie \<Rightarrow> (pfcp_error + USAReport list) \<times> Sess \<times> 'd" where
  "UpdateURR api drv s d req =
     (case ie_URRID api req of
        Inl e \<Rightarrow> (Inl e, s, d)
      | Inr i \<Rightarrow>
          (case map_of (URRIDs s) i of
             None \<Rightarrow> (Inl (URRNotFound i), s, d)
           | Some info \<Rightarrow>
               let s = s\<lparr>URRIDs := AList.update i (fold (update_child api) (ChildIEs api req) info) (URRIDs s)\<rparr>;
                   (r, d) = drv_UpdateURR drv d (LocalID s) req
               in (r, s, d)))"

definition RemoveURR ::
    "'ie ie_api \<Rightarrow> ('d, 'ie) Driver \<Rightarrow> Sess \<Rightarrow> 'd \<Rightarrow> 'ie \<Rightarrow> (pfcp_error + USAReport list) \<times> Sess \<times> 'd" where
  "RemoveURR api drv s d req =
     (case ie_URRID api req of
        Inl e \<Rightarrow> (Inl e, s, d)
      | Inr i \<Rightarrow>
          (case map_of (URRIDs s) i of
             None \<Rightarrow> (Inl (URRNotFound i), s, d)
           | Some info \<Rightarrow>
               let s = s\<lparr>URRIDs := AList.update i (info\<lparr>removed := True\<rparr>) (URRIDs s)\<rparr>;
                   (r, d) = drv_RemoveURR drv d (LocalID s) req
               in (map_sum id (map (set_trigger USAR_TRIG_TERMR)) r, s, d)))"

definition QueryURR ::
    "'ie ie_api \<Rightarrow> ('d, 'ie) Driver \<Rightarrow> Sess \<Rightarrow> 'd \<Rightarrow> 'ie \<Rightarrow> (pfcp_error + USAReport list) \<times> Sess \<times> 'd" where
  "QueryURR api drv s d req =
     (case ie_URRID api req of
        Inl e \<Rightarrow> (Inl e, s, d)
      | Inr i \<Rightarrow>
          (case map_of (URRIDs s) i of
             None \<Rightarrow> (Inl (URRNotFound i), s, d)
           | Some info \<Rightarrow>
               let (r, d) = drv_QueryURR drv d (LocalID s) i
               in (map_sum id (map (set_trigger USAR_TRIG_IMMER)) r, s, d)))"

section \<open>Packet detection rules\<close>

text \<open>The scan of the elements of a Create PDR: the last PDR identifier, the set of URR
  identifiers, and one more reference for every occurrence of a known URR.\<close>

definition pdr_scan_step ::
    "'ie ie_api \<Rightarrow> 'ie \<Rightarrow> u16 \<times> u32 list \<times> (u32 \<times> URRInfo) list \<Rightarrow> u16 \<times> u32 list \<times> (u32 \<times> URRInfo) list" where
  "pdr_scan_step api x st =
     (case st of (pdrid, urrids, infos) \<Rightarrow>
       (case kind_of api x of
          K_PDRID \<Rightarrow> (case ie_PDRID api x of Inl _ \<Rightarrow> st | Inr v \<Rightarrow> (v, urrids, infos))
        | K_URRID \<Rightarrow>
            (case ie_URRID api x of
               Inl _ \<Rightarrow> st
             | Inr v \<Rightarrow>
                 (pdrid, List.insert v urrids,
                  (case map_of infos v of
                     Some info \<Rightarrow> AList.update v (info\<lparr>refPdrNum := refPdrNum info + 1\<rparr>) infos
                   | None \<Rightarrow> infos)))
        | _ \<Rightarrow> st))"

definition CreatePDR :: "'ie ie_api \<Rightarrow> ('d, 'ie) Driver \<Rightarrow> Sess \<Rightarrow> 'd \<Rightarrow> 'ie \<Rightarrow> pfcp_error option \<times> Sess \<times> 'd" where
  "CreatePDR api drv s d req =
     (case ie_CreatePDR api req of
        Inl e \<Rightarrow> (Some e, s, d)
      | Inr ies \<Rightarrow>
          let (pdrid, urrids, infos) = fold (pdr_scan_step api) ies (0, [], URRIDs s);
              s = s\<lparr>URRIDs := infos, PDRIDs := AList.update pdrid \<lparr>RelatedURRIDs = urrids\<rparr> (PDRIDs s)\<rparr>;
              (e, d) = drv_CreatePDR drv d (LocalID s) req
          in (e, s, d))"

definition diassociateURR ::
    "('d, 'ie) Driver \<Rightarrow> Sess \<Rightarrow> 'd \<Rightarrow> u32 \<Rightarrow> USAReport list \<times> Sess \<times> 'd" where
  "diassociateURR drv s d urrid =
     (case map_of (URRIDs s) urrid of
        None \<Rightarrow> ([], s, d)
      | Some info \<Rightarrow>
          if refPdrNum info > 0 then
            let s = s\<lparr>URRIDs := AList.update urrid (info\<lparr>refPdrNum := refPdrNum info - 1\<rparr>) (URRIDs s)\<rparr>
            in if refPdrNum info - 1 = 0 then
                 let (r, d) = drv_QueryURR drv d (LocalID s) urrid
                 in (case r of Inl _ \<Rightarrow> ([], s, d) | Inr usars \<Rightarrow> (map (set_trigger USAR_TRIG_TERMR) usars, s, d))
               else ([], s, d)
          else ([], s, d))"

text \<open>The loop over related URRs, collecting the reports.\<close>

fun diassociate_all ::
    "('d, 'ie) Driver \<Rightarrow> u32 list \<Rightarrow> Sess \<Rightarrow> 'd \<Rightarrow> USAReport list \<times> Sess \<times> 'd" where
  "diassociate_all drv [] s d = ([], s, d)"
| "diassociate_all drv (u # us) s d =
     (let (r, s, d) = diassociateURR drv s d u; (rs, s, d) = diassociate_all drv us s d in (r @ rs, s, d))"

definition update_scan_step :: "'ie ie_api \<Rightarrow> 'ie \<Rightarrow> u16 \<times> u32 list \<Rightarrow> u16 \<times> u32 list" where
  "update_scan_step api x st =
     (case st of (pdrid, urrids) \<Rightarrow>
       (case kind_of api x of
          K_PDRID \<Rightarrow> (case ie_PDRID api x of Inl _ \<Rightarrow> st | Inr v \<Rightarrow> (v, urrids))
        | K_URRID \<Rightarrow> (case ie_URRID api x of Inl _ \<Rightarrow> st | Inr v \<Rightarrow> (pdrid, List.insert v urrids))
        | _ \<Rightarrow> st))"

definition UpdatePDR ::
    "'ie ie_api \<Rightarrow> ('d, 'ie) Driver \<Rightarrow> Sess \<Rightarrow> 'd \<Rightarrow> 'ie \<Rightarrow> (pfcp_error + USAReport list) \<times> Sess \<times> 'd" where
  "UpdatePDR api drv s d req =
     (case ie_UpdatePDR api req of
        Inl e \<Rightarrow> (Inl e, s, d)
      | Inr ies \<Rightarrow>
          let (pdrid, newUrrids) = fold (update_scan_step api) ies (0, [])
          in (case map_of (PDRIDs s) pdrid of
                None \<Rightarrow> (Inl (PDRNotFound pdrid), s, d)
              | Some pdrInfo \<Rightarrow>
                  let (e, d) = drv_UpdatePDR drv d (LocalID s) req
                  in (case e of
                        Some err \<Rightarrow> (Inl err, s, d)
                      | None \<Rightarrow>
                          let (usars, s, d) = diassociate_all drv
                                (filter (\<lambda>u. u \<notin> set newUrrids) (RelatedURRIDs pdrInfo)) s d
                          in (Inr usars,
                              s\<lparr>PDRIDs := AList.update pdrid (pdrInfo\<lparr>RelatedURRIDs := newUrrids\<rparr>) (PDRIDs s)\<rparr>, d))))"

definition RemovePDR ::
    "'ie ie_api \<Rightarrow> ('d, 'ie) Driver \<Rightarrow> Sess \<Rightarrow> 'd \<Rightarrow> 'ie \<Rightarrow> (pfcp_error + USAReport list) \<times> Sess \<times> 'd" where
  "RemovePDR api drv s d req =
     (case ie_PDRID api req of
        Inl e \<Rightarrow> (Inl e, s, d)
      | Inr pdrid \<Rightarrow>
          (case map_of (PDRIDs s) pdrid of
             None \<Rightarrow> (Inl (PDRNotFound pdrid), s, d)
           | Some pdrInfo \<Rightarrow>
               let (e, d) = drv_RemovePDR drv d (LocalID s) req
               in (case e of
                     Some err \<Rightarrow> (Inl err, s, d)
                   | None \<Rightarrow>
                       let (usars, s, d) = diassociate_all drv (RelatedURRIDs pdrInfo) s d
                       in (Inr usars, s\<lparr>PDRIDs := AList.delete pdrid (PDRIDs s)\<rparr>, d))))"

section \<open>Closing a session\<close>

text \<open>The loops of \<^verbatim>\<open>Close\<close> and of the session handlers: an error is logged and the loop goes on.\<close>

definition apply_each ::
    "(Sess \<Rightarrow> 'd \<Rightarrow> 'k \<Rightarrow> pfcp_error option \<times> Sess \<times> 'd) \<Rightarrow> 'k list \<Rightarrow> Sess \<times> 'd \<Rightarrow> Sess \<times> 'd" where
  "apply_each rm ids st = fold (\<lambda>i (s, d). let (e, s, d) = rm s d i in (s, d)) ids st"

fun report_each ::
    "(Sess \<Rightarrow> 'd \<Rightarrow> 'k \<Rightarrow> (pfcp_error + USAReport list) \<times> Sess \<times> 'd) \<Rightarrow> 'k list \<Rightarrow> Sess \<Rightarrow> 'd
      \<Rightarrow> USAReport list \<times> Sess \<times> 'd" where
  "report_each rm [] s d = ([], s, d)"
| "report_each rm (i # is) s d =
     (let (r, s, d) = rm s d i; (rs, s, d) = report_each rm is s d
      in ((case r of Inl _ \<Rightarrow> [] | Inr us \<Rightarrow> us) @ rs, s, d))"

text \<open>Closing a channel twice panics.\<close>

definition Sess_Close ::
    "'ie ie_api \<Rightarrow> ('d, 'ie) Driver \<Rightarrow> Sess \<Rightarrow> 'd \<Rightarrow> (pfcp_error, USAReport list \<times> Sess \<times> 'd) outcome" where
  "Sess_Close api drv s d =
     (let (s, d) = apply_each (\<lambda>s d i. RemoveFAR api drv s d (NewRemoveFAR api i)) (FARIDs s) (s, d);
          (s, d) = apply_each (\<lambda>s d i. RemoveQER api drv s d (NewRemoveQER api i)) (QERIDs s) (s, d);
          (us, s, d) = report_each (\<lambda>s d i. RemoveURR api drv s d (NewRemoveURR api i)) (map fst (URRIDs s)) s d;
          (s, d) = apply_each (\<lambda>s d i. RemoveBAR api drv s d (NewRemoveBAR api i)) (BARIDs s) (s, d);
          (ps, s, d) = report_each (\<lambda>s d i. RemovePDR api drv s d (NewRemovePDR api i)) (map fst (PDRIDs s)) s d
      in if \<exists>(k, c) \<in> set (sess_q s). chan_closed c then Panic
         else Ok (us @ ps, s\<lparr>sess_q := map (\<lambda>(k, c). (k, c\<lparr>chan_closed := True\<rparr>)) (sess_q s)\<rparr>, d))"

section \<open>Buffered packets and sequence numbers\<close>

text \<open>Sending on a closed channel panics; on a full one the packet is dropped.\<close>

definition Sess_Push :: "Sess \<Rightarrow> u16 \<Rightarrow> bytes \<Rightarrow> (pfcp_error, Sess) outcome" where
  "Sess_Push s pdrid p =
     (let c = (case map_of (sess_q s) pdrid of Some c \<Rightarrow> c | None \<Rightarrow> \<lparr>chan_buf = [], chan_closed = False\<rparr>)
      in if chan_closed c then Panic
         else if length (chan_buf c) < qlen s
         then Ok (s\<lparr>sess_q := AList.update pdrid (c\<lparr>chan_buf := chan_buf c @ [p]\<rparr>) (sess_q s)\<rparr>)
         else Ok (s\<lparr>sess_q := AList.update pdrid c (sess_q s)\<rparr>))"

definition Sess_Len :: "Sess \<Rightarrow> u16 \<Rightarrow> nat" where
  "Sess_Len s pdrid = (case map_of (sess_q s) pdrid of None \<Rightarrow> 0 | Some c \<Rightarrow> length (chan_buf c))"

text \<open>Receiving from a closed empty channel yields nil with success.\<close>

definition Sess_Pop :: "Sess \<Rightarrow> u16 \<Rightarrow> (bytes \<times> bool) \<times> Sess" where
  "Sess_Pop s pdrid =
     (case map_of (sess_q s) pdrid of
        None \<Rightarrow> (([], False), s)
      | Some c \<Rightarrow>
          (case chan_buf c of
             p # ps \<Rightarrow> ((p, True), s\<lparr>sess_q := AList.update pdrid (c\<lparr>chan_buf := ps\<rparr>) (sess_q s)\<rparr>)
           | [] \<Rightarrow> (([], chan_closed c), s)))"

definition URRSeq :: "Sess \<Rightarrow> u32 \<Rightarrow> u32 \<times> Sess" where
  "URRSeq s urrid =
     (case map_of (URRIDs s) urrid of
        None \<Rightarrow> (0, s)
      | Some info \<Rightarrow>
          (SEQN info, s\<lparr>URRIDs := AList.update urrid (info\<lparr>SEQN := SEQN info + 1\<rparr>) (URRIDs s)\<rparr>))"

section \<open>Well-formed sessions\<close>

text \<open>Keys are unique and no queue is longer than its capacity.\<close>

definition sess_wf :: "Sess \<Rightarrow> bool" where
  "sess_wf s \<longleftrightarrow> distinct (map fst (PDRIDs s)) \<and> distinct (FARIDs s) \<and> distinct (QERIDs s) \<and>
     distinct (map fst (URRIDs s)) \<and> distinct (BARIDs s) \<and> distinct (map fst (sess_q s)) \<and>
     (\<forall>(k, c) \<in> set (sess_q s). length (chan_buf c) \<le> qlen s)"

text \<open>\<open>same_id\<close>: an operation keeps the session's identity (identifiers, node, queue capacity).\<close>

definition same_id :: "Sess \<Rightarrow> Sess \<Rightarrow> bool" where
  "same_id s s' \<longleftrightarrow> LocalID s' = LocalID s \<and> RemoteID s' = RemoteID s \<and> sess_rnode s' = sess_rnode s \<and> qlen s' = qlen s"

text \<open>\<open>live\<close>: no queue of the session is closed.\<close>

definition live :: "Sess \<Rightarrow> bool" where
  "live s \<longleftrightarrow> (\<forall>(k, c) \<in> set (sess_q s). \<not> chan_closed c)"

definition keeps :: "Sess \<Rightarrow> Sess \<Rightarrow> bool" where
  "keeps s s' \<longleftrightarrow> (sess_wf s \<longrightarrow> sess_wf s') \<and> same_id s s' \<and> (live s \<longrightarrow> live s')"

lemma keeps_refl [simp]: "keeps s s"
  by (simp add: keeps_def same_id_def)

lemma keeps_trans [trans]: "keeps s s' \<Longrightarrow> keeps s' s'' \<Longrightarrow> keeps s s''"
  by (simp add: keeps_def same_id_def)

lemma keeps_fields [simp]:
  "distinct xs \<Longrightarrow> keeps s (s\<lparr>FARIDs := xs\<rparr>)" "distinct ys \<Longrightarrow> keeps s (s\<lparr>QERIDs := ys\<rparr>)"
  "distinct zs \<Longrightarrow> keeps s (s\<lparr>BARIDs := zs\<rparr>)"
  by (simp_all add: keeps_def same_id_def sess_wf_def live_def)

lemma rule_ops_keep:
  "CreateFAR api drv s d req = (e, s', d') \<Longrightarrow> keeps s s'"
  "UpdateFAR api drv s d req = (e, s', d') \<Longrightarrow> keeps s s'"
  "RemoveFAR api drv s d req = (e, s', d') \<Longrightarrow> keeps s s'"
  "CreateQER api drv s d req = (e, s', d') \<Longrightarrow> keeps s s'"
  "UpdateQER api drv s d req = (e, s', d') \<Longrightarrow> keeps s s'"
  "RemoveQER api drv s d req = (e, s', d') \<Longrightarrow> keeps s s'"
  "CreateBAR api drv s d req = (e, s', d') \<Longrightarrow> keeps s s'"
  "UpdateBAR api drv s d req = (e, s', d') \<Longrightarrow> keeps s s'"
  "RemoveBAR api drv s d req = (e, s', d') \<Longrightarrow> keeps s s'"
  by (auto simp: CreateFAR_def UpdateFAR_def RemoveFAR_def CreateQER_def UpdateQER_def RemoveQER_def
      CreateBAR_def UpdateBAR_def RemoveBAR_def Let_def keeps_def same_id_def sess_wf_def live_def distinct_removeAll
      split: sum.splits prod.splits if_splits option.splits)

lemma keeps_URRIDs: "distinct (map fst (URRIDs s)) \<longrightarrow> distinct (map fst us) \<Longrightarrow> keeps s (s\<lparr>URRIDs := us\<rparr>)"
  by (auto simp: keeps_def same_id_def sess_wf_def live_def)

lemma keeps_PDRIDs: "distinct (map fst (PDRIDs s)) \<longrightarrow> distinct (map fst ps) \<Longrightarrow> keeps s (s\<lparr>PDRIDs := ps\<rparr>)"
  by (auto simp: keeps_def same_id_def sess_wf_def live_def)

lemma keeps_PDRIDs_update:
  "keeps s t \<Longrightarrow> keeps s (t\<lparr>PDRIDs := AList.update k v (PDRIDs t)\<rparr>)"
  "keeps s t \<Longrightarrow> keeps s (t\<lparr>PDRIDs := AList.delete k (PDRIDs t)\<rparr>)"
  by (auto intro!: keeps_trans [OF _ keeps_PDRIDs] distinct_update distinct_delete)

lemma urr_ops_keep:
  "CreateURR api drv s d req = (e, s', d') \<Longrightarrow> keeps s s'"
  "UpdateURR api drv s d req = (r, s', d') \<Longrightarrow> keeps s s'"
  "RemoveURR api drv s d req = (r, s', d') \<Longrightarrow> keeps s s'"
  "QueryURR api drv s d req = (r, s', d') \<Longrightarrow> keeps s s'"
  by (auto simp: CreateURR_def UpdateURR_def RemoveURR_def QueryURR_def Let_def distinct_update
      intro!: keeps_URRIDs split: sum.splits prod.splits option.splits)

lemma diassociateURR_keeps: "diassociateURR drv s d u = (r, s', d') \<Longrightarrow> keeps s s'"
  by (auto simp: diassociateURR_def Let_def distinct_update intro!: keeps_URRIDs
      split: option.splits if_splits prod.splits sum.splits)

lemma diassociate_all_keeps: "diassociate_all drv us s d = (r, s', d') \<Longrightarrow> keeps s s'"
  by (induction drv us s d arbitrary: r s' d' rule: diassociate_all.induct)
     (auto split: prod.splits dest: diassociateURR_keeps intro: keeps_trans)

lemma pdr_scan_distinct:
  "fold (pdr_scan_step api) ies (p, us, infos) = (p', us', infos') \<Longrightarrow>
   distinct (map fst infos) \<Longrightarrow> distinct (map fst infos')"
proof (induction ies arbitrary: p us infos)
  case (Cons x ies)
  obtain p1 us1 infos1 where step: "pdr_scan_step api x (p, us, infos) = (p1, us1, infos1)"
    by (metis prod_cases3)
  then have "distinct (map fst infos1)"
    using Cons.prems(2) by (auto simp: pdr_scan_step_def distinct_update split: ie_kind.splits sum.splits option.splits)
  with Cons step show ?case by simp
qed simp

lemma CreatePDR_cases:
  assumes "CreatePDR api drv s d req = (e, s', d')"
  shows "s' = s \<or> (\<exists>ies p us infos. ie_CreatePDR api req = Inr ies \<and>
    fold (pdr_scan_step api) ies (0, [], URRIDs s) = (p, us, infos) \<and>
    s' = s\<lparr>URRIDs := infos, PDRIDs := AList.update p \<lparr>RelatedURRIDs = us\<rparr> (PDRIDs s)\<rparr>)"
proof (cases "ie_CreatePDR api req")
  case (Inr ies)
  obtain p us infos where "fold (pdr_scan_step api) ies (0, [], URRIDs s) = (p, us, infos)"
    by (metis prod_cases3)
  with Inr assms show ?thesis by (auto simp: CreatePDR_def Let_def split: prod.splits)
qed (use assms in \<open>simp add: CreatePDR_def\<close>)

lemma pdr_ops_keep:
  "CreatePDR api drv s d req = (e, s', d') \<Longrightarrow> keeps s s'"
  "UpdatePDR api drv s d req = (r, s', d') \<Longrightarrow> keeps s s'"
  "RemovePDR api drv s d req = (r, s', d') \<Longrightarrow> keeps s s'"
proof -
  assume "CreatePDR api drv s d req = (e, s', d')"
  from CreatePDR_cases [OF this] show "keeps s s'"
    by (auto simp: keeps_def same_id_def sess_wf_def live_def distinct_update dest: pdr_scan_distinct)
next
  assume "UpdatePDR api drv s d req = (r, s', d')"
  then show "keeps s s'"
    by (auto simp: UpdatePDR_def Let_def distinct_update split: sum.splits prod.splits option.splits
        dest!: diassociate_all_keeps intro: keeps_PDRIDs_update)
next
  assume "RemovePDR api drv s d req = (r, s', d')"
  then show "keeps s s'"
    by (auto simp: RemovePDR_def Let_def distinct_delete split: sum.splits prod.splits option.splits
        dest!: diassociate_all_keeps intro: keeps_PDRIDs_update)
qed


section \<open>Closing releases everything\<close>

lemma apply_each_filter:
  assumes step: "\<And>s d i. \<exists>e d'. rm s d i = (e, upd (removeAll i (get s)) s, d')"
    and "\<And>xs s. get (upd xs s) = xs" and "\<And>xs ys s. upd xs (upd ys s) = upd xs s" and "\<And>s. upd (get s) s = s"
  shows "\<exists>d'. apply_each rm is (s, d) = (upd (filter (\<lambda>i. i \<notin> set is) (get s)) s, d')"
proof (induction "is" arbitrary: s d)
  case Nil
  then show ?case by (simp add: apply_each_def assms)
next
  case (Cons i "is")
  obtain e d1 where "rm s d i = (e, upd (removeAll i (get s)) s, d1)" using step by blast
  moreover have "filter (\<lambda>j. j \<notin> set is) (removeAll i xs) = filter (\<lambda>j. j \<notin> set (i # is)) xs" for xs
    by (induction xs) auto
  ultimately show ?case
    using Cons.IH [of "upd (removeAll i (get s)) s" d1] by (simp add: apply_each_def assms)
qed

text \<open>
  The contract of a driver whose removals succeed. The lemmas describe each loop of \<^verbatim>\<open>Close\<close> over
  such a driver; \<^verbatim>\<open>forwarder.Empty\<close> provides it.
\<close>

locale removing_driver =
  fixes drv :: "('d, 'ie) Driver"
  assumes far_removed: "fst (drv_RemoveFAR drv d i r) = None"
    and qer_removed: "fst (drv_RemoveQER drv d i r) = None"
    and bar_removed: "fst (drv_RemoveBAR drv d i r) = None"
    and pdr_removed: "fst (drv_RemovePDR drv d i r) = None"
begin

lemma far_step:
  assumes "ie_laws api"
  shows "\<exists>e d'. RemoveFAR api drv s d (NewRemoveFAR api i) = (e, s\<lparr>FARIDs := removeAll i (FARIDs s)\<rparr>, d')"
  using far_removed [of d "LocalID s" "NewRemoveFAR api i"] assms
  by (cases "drv_RemoveFAR drv d (LocalID s) (NewRemoveFAR api i)") (simp add: RemoveFAR_def ie_laws_def)

lemma qer_step:
  assumes "ie_laws api"
  shows "\<exists>e d'. RemoveQER api drv s d (NewRemoveQER api i) = (e, s\<lparr>QERIDs := removeAll i (QERIDs s)\<rparr>, d')"
  using qer_removed [of d "LocalID s" "NewRemoveQER api i"] assms
  by (cases "drv_RemoveQER drv d (LocalID s) (NewRemoveQER api i)") (simp add: RemoveQER_def ie_laws_def)

lemma bar_step:
  assumes "ie_laws api"
  shows "\<exists>e d'. RemoveBAR api drv s d (NewRemoveBAR api i) = (e, s\<lparr>BARIDs := removeAll i (BARIDs s)\<rparr>, d')"
  using bar_removed [of d "LocalID s" "NewRemoveBAR api i"] assms
  by (cases "drv_RemoveBAR drv d (LocalID s) (NewRemoveBAR api i)") (simp add: RemoveBAR_def ie_laws_def)

lemma far_loop:
  "ie_laws api \<Longrightarrow> \<exists>d'. apply_each (\<lambda>s d i. RemoveFAR api drv s d (NewRemoveFAR api i)) is (s, d) =
     (s\<lparr>FARIDs := filter (\<lambda>i. i \<notin> set is) (FARIDs s)\<rparr>, d')"
  by (rule apply_each_filter [where get = FARIDs and upd = "\<lambda>xs s. s\<lparr>FARIDs := xs\<rparr>"])
     (use far_step in simp_all)

lemma qer_loop:
  "ie_laws api \<Longrightarrow> \<exists>d'. apply_each (\<lambda>s d i. RemoveQER api drv s d (NewRemoveQER api i)) is (s, d) =
     (s\<lparr>QERIDs := filter (\<lambda>i. i \<notin> set is) (QERIDs s)\<rparr>, d')"
  by (rule apply_each_filter [where get = QERIDs and upd = "\<lambda>xs s. s\<lparr>QERIDs := xs\<rparr>"])
     (use qer_step in simp_all)

lemma bar_loop:
  "ie_laws api \<Longrightarrow> \<exists>d'. apply_each (\<lambda>s d i. RemoveBAR api drv s d (NewRemoveBAR api i)) is (s, d) =
     (s\<lparr>BARIDs := filter (\<lambda>i. i \<notin> set is) (BARIDs s)\<rparr>, d')"
  by (rule apply_each_filter [where get = BARIDs and upd = "\<lambda>xs s. s\<lparr>BARIDs := xs\<rparr>"])
     (use bar_step in simp_all)

text \<open>Removing URRs marks them, whatever the driver reports.\<close>

lemma urr_loop:
  assumes "ie_laws api" and "report_each (\<lambda>s d i. RemoveURR api drv s d (NewRemoveURR api i)) is s d = (us, s', d')"
  shows "\<exists>m. s' = s\<lparr>URRIDs := m\<rparr> \<and>
    (\<forall>k. map_of m k = map_option (\<lambda>info. if k \<in> set is then info\<lparr>removed := True\<rparr> else info) (map_of (URRIDs s) k))"
  using assms(2)
proof (induction "is" arbitrary: s d us s' d')
  case Nil
  then show ?case by (auto simp: option.map_ident intro!: exI [of _ "URRIDs s"])
next
  case (Cons i "is")
  obtain r s1 d1 where one: "RemoveURR api drv s d (NewRemoveURR api i) = (r, s1, d1)" by (metis prod_cases3)
  obtain us2 s2 d2 where rest: "report_each (\<lambda>s d i. RemoveURR api drv s d (NewRemoveURR api i)) is s1 d1 = (us2, s2, d2)"
    by (metis prod_cases3)
  have s1: "\<exists>m1. s1 = s\<lparr>URRIDs := m1\<rparr> \<and>
      (\<forall>k. map_of m1 k = map_option (\<lambda>info. if k = i then info\<lparr>removed := True\<rparr> else info) (map_of (URRIDs s) k))"
  proof (cases "map_of (URRIDs s) i")
    case None
    then have "map_option (\<lambda>info. if k = i then info\<lparr>removed := True\<rparr> else info) (map_of (URRIDs s) k) = map_of (URRIDs s) k" for k
      by (cases "k = i") (auto simp: option.map_ident)
    with None one assms(1) show ?thesis
      by (auto simp: RemoveURR_def ie_laws_def intro!: exI [of _ "URRIDs s"])
  next
    case (Some info)
    with one assms(1) show ?thesis
      by (auto simp: RemoveURR_def ie_laws_def Let_def update_conv' option.map_ident split: prod.splits
          intro!: exI [of _ "URRIDs s1"])
  qed
  then obtain m1 where m1: "s1 = s\<lparr>URRIDs := m1\<rparr>"
      "\<And>k. map_of m1 k = map_option (\<lambda>info. if k = i then info\<lparr>removed := True\<rparr> else info) (map_of (URRIDs s) k)"
    by blast
  obtain m where m: "s2 = s1\<lparr>URRIDs := m\<rparr>"
      "\<And>k. map_of m k = map_option (\<lambda>info. if k \<in> set is then info\<lparr>removed := True\<rparr> else info) (map_of (URRIDs s1) k)"
    using Cons.IH [OF rest] by blast
  have "map_of m k = map_option (\<lambda>info. if k \<in> set (i # is) then info\<lparr>removed := True\<rparr> else info) (map_of (URRIDs s) k)" for k
    using m m1 by (cases "map_of (URRIDs s) k") auto
  moreover have "s' = s\<lparr>URRIDs := m\<rparr>" using one rest Cons.prems m m1 by simp
  ultimately show ?case by blast
qed

text \<open>Dissociation only touches reference counts.\<close>

lemma diassociateURR_frame:
  assumes "diassociateURR drv s d u = (r, s', d')"
  shows "\<exists>m. s' = s\<lparr>URRIDs := m\<rparr> \<and> (\<forall>k. map_option removed (map_of m k) = map_option removed (map_of (URRIDs s) k))"
proof (cases "s' = s")
  case True
  then show ?thesis by (auto intro!: exI [of _ "URRIDs s"])
next
  case False
  with assms obtain info where "map_of (URRIDs s) u = Some info"
      "s' = s\<lparr>URRIDs := AList.update u (info\<lparr>refPdrNum := refPdrNum info - 1\<rparr>) (URRIDs s)\<rparr>"
    by (auto simp: diassociateURR_def Let_def split: option.splits if_splits prod.splits sum.splits)
  then show ?thesis by (auto simp: update_conv')
qed

lemma diassociate_all_frame:
  "diassociate_all drv us s d = (r, s', d') \<Longrightarrow>
   \<exists>m. s' = s\<lparr>URRIDs := m\<rparr> \<and> (\<forall>k. map_option removed (map_of m k) = map_option removed (map_of (URRIDs s) k))"
proof (induction us arbitrary: s d r s' d')
  case Nil
  then show ?case by (auto intro!: exI [of _ "URRIDs s"])
next
  case (Cons u us)
  obtain r1 s1 d1 where one: "diassociateURR drv s d u = (r1, s1, d1)" by (metis prod_cases3)
  obtain r2 s2 d2 where rest: "diassociate_all drv us s1 d1 = (r2, s2, d2)" by (metis prod_cases3)
  from diassociateURR_frame [OF one] Cons.IH [OF rest] one rest Cons.prems show ?case by auto
qed

lemma pdr_loop:
  assumes "ie_laws api" and "report_each (\<lambda>s d i. RemovePDR api drv s d (NewRemovePDR api i)) is s d = (us, s', d')"
  shows "\<exists>m. s' = s\<lparr>PDRIDs := filter (\<lambda>(k, v). k \<notin> set is) (PDRIDs s), URRIDs := m\<rparr> \<and>
    (\<forall>k. map_option removed (map_of m k) = map_option removed (map_of (URRIDs s) k))"
  using assms(2)
proof (induction "is" arbitrary: s d us s' d')
  case Nil
  then show ?case by (auto intro!: exI [of _ "URRIDs s"])
next
  case (Cons i "is")
  obtain r s1 d1 where one: "RemovePDR api drv s d (NewRemovePDR api i) = (r, s1, d1)" by (metis prod_cases3)
  obtain us2 s2 d2 where rest: "report_each (\<lambda>s d i. RemovePDR api drv s d (NewRemovePDR api i)) is s1 d1 = (us2, s2, d2)"
    by (metis prod_cases3)
  have s1: "\<exists>m. s1 = s\<lparr>PDRIDs := filter (\<lambda>(k, v). k \<noteq> i) (PDRIDs s), URRIDs := m\<rparr> \<and>
      (\<forall>k. map_option removed (map_of m k) = map_option removed (map_of (URRIDs s) k))"
  proof (cases "map_of (PDRIDs s) i")
    case None
    then have "filter (\<lambda>(k, v). k \<noteq> i) (PDRIDs s) = PDRIDs s"
      by (force simp: map_of_eq_None_iff filter_id_conv)
    with None one assms(1) show ?thesis
      by (auto simp: RemovePDR_def ie_laws_def intro!: exI [of _ "URRIDs s"])
  next
    case (Some info)
    obtain d3 where "drv_RemovePDR drv d (LocalID s) (NewRemovePDR api i) = (None, d3)"
      using pdr_removed by (metis prod.collapse)
    moreover obtain r4 s4 d4 where all: "diassociate_all drv (RelatedURRIDs info) s d3 = (r4, s4, d4)"
      by (metis prod_cases3)
    moreover have "AList.delete i (PDRIDs s) = filter (\<lambda>(k, v). k \<noteq> i) (PDRIDs s)"
      by (auto simp: fun_eq_iff AList.delete_eq intro!: filter_cong)
    moreover obtain m where "s4 = s\<lparr>URRIDs := m\<rparr>"
        "\<forall>k. map_option removed (map_of m k) = map_option removed (map_of (URRIDs s) k)"
      using diassociate_all_frame [OF all] by blast
    ultimately have "s1 = s\<lparr>PDRIDs := filter (\<lambda>(k, v). k \<noteq> i) (PDRIDs s), URRIDs := m\<rparr> \<and>
        (\<forall>k. map_option removed (map_of m k) = map_option removed (map_of (URRIDs s) k))"
      using Some one assms(1) by (auto simp: RemovePDR_def ie_laws_def)
    then show ?thesis ..
  qed
  have "filter (\<lambda>(k, v). k \<notin> set is) (filter (\<lambda>(k, v). k \<noteq> i) xs) = filter (\<lambda>(k, v). k \<notin> set (i # is)) xs"
    for xs :: "(u16 \<times> PDRInfo) list"
    by (induction xs) auto
  with Cons.IH [OF rest] s1 one rest Cons.prems show ?case by auto
qed

lemma close_releases:
  assumes laws: "ie_laws api" and close: "Sess_Close api drv s d = Ok (us, s', d')"
  shows "FARIDs s' = [] \<and> QERIDs s' = [] \<and> BARIDs s' = [] \<and> PDRIDs s' = [] \<and>
    (\<forall>k info. map_of (URRIDs s') k = Some info \<longrightarrow> removed info) \<and> (\<forall>(k, c) \<in> set (sess_q s'). chan_closed c)"
proof -
  obtain d1 where 1: "apply_each (\<lambda>s d i. RemoveFAR api drv s d (NewRemoveFAR api i)) (FARIDs s) (s, d) = (s\<lparr>FARIDs := []\<rparr>, d1)"
    using far_loop [OF laws, of "FARIDs s" s d] by auto
  obtain d2 where 2: "apply_each (\<lambda>s d i. RemoveQER api drv s d (NewRemoveQER api i)) (QERIDs s) (s\<lparr>FARIDs := []\<rparr>, d1)
      = (s\<lparr>FARIDs := [], QERIDs := []\<rparr>, d2)"
    using qer_loop [OF laws, of "QERIDs s" "s\<lparr>FARIDs := []\<rparr>" d1] by auto
  obtain us3 s3 d3 where 3: "report_each (\<lambda>s d i. RemoveURR api drv s d (NewRemoveURR api i)) (map fst (URRIDs s))
      (s\<lparr>FARIDs := [], QERIDs := []\<rparr>) d2 = (us3, s3, d3)" by (metis prod_cases3)
  obtain m where m: "s3 = s\<lparr>FARIDs := [], QERIDs := [], URRIDs := m\<rparr>"
      "\<And>k. map_of m k = map_option (\<lambda>info. if k \<in> set (map fst (URRIDs s)) then info\<lparr>removed := True\<rparr> else info) (map_of (URRIDs s) k)"
    using urr_loop [OF laws 3] by auto
  obtain d4 where 4: "apply_each (\<lambda>s d i. RemoveBAR api drv s d (NewRemoveBAR api i)) (BARIDs s3) (s3, d3) = (s3\<lparr>BARIDs := []\<rparr>, d4)"
    using bar_loop [OF laws, of "BARIDs s3" s3 d3] by auto
  obtain us5 s5 d5 where 5: "report_each (\<lambda>s d i. RemovePDR api drv s d (NewRemovePDR api i)) (map fst (PDRIDs s3))
      (s3\<lparr>BARIDs := []\<rparr>) d4 = (us5, s5, d5)" by (metis prod_cases3)
  have none: "filter (\<lambda>(k, v). k \<notin> set (map fst xs)) xs = []" for xs :: "(u16 \<times> PDRInfo) list"
    by (force simp: filter_empty_conv)
  obtain m' where m': "s5 = s3\<lparr>BARIDs := [], PDRIDs := [], URRIDs := m'\<rparr>"
      "\<And>k. map_option removed (map_of m' k) = map_option removed (map_of m k)"
    using pdr_loop [OF laws 5] m(1) none by auto
  have "removed info" if "map_of m' k = Some info" for k info
  proof -
    from that m'(2) [of k] obtain i where i: "map_of m k = Some i" "removed i = removed info"
      by (cases "map_of m k") auto
    with m(2) [of k] obtain j where "map_of (URRIDs s) k = Some j" by (cases "map_of (URRIDs s) k") auto
    moreover from this have "k \<in> fst ` set (URRIDs s)" by (force dest: map_of_SomeD)
    ultimately show ?thesis using i m(2) [of k] by auto
  qed
  with close 1 2 3 4 5 m(1) m'(1) show ?thesis
    by (auto simp: Sess_Close_def split: if_splits)
qed

end

interpretation empty_driver: removing_driver Empty
  by unfold_locales (simp_all add: Empty_def Let_def)

section \<open>Reference counts of usage reporting rules\<close>

text \<open>How many PDRs of the session relate to a URR, and the sessions whose counters say so.\<close>

definition refs :: "Sess \<Rightarrow> u32 \<Rightarrow> nat" where
  "refs s u = length (filter (\<lambda>(k, p). u \<in> set (RelatedURRIDs p)) (PDRIDs s))"

definition ref_ok :: "Sess \<Rightarrow> bool" where
  "ref_ok s \<longleftrightarrow> (\<forall>u info. map_of (URRIDs s) u = Some info \<longrightarrow> unat (refPdrNum info) = refs s u) \<and>
     (\<forall>(k, p) \<in> set (PDRIDs s). distinct (RelatedURRIDs p))"

text \<open>The URR identifiers a Create PDR lists, and its PDR identifier.\<close>

definition listed_urrs :: "'ie ie_api \<Rightarrow> 'ie list \<Rightarrow> u32 list" where
  "listed_urrs api ies = List.map_filter
     (\<lambda>x. if kind_of api x = K_URRID then (case ie_URRID api x of Inr v \<Rightarrow> Some v | Inl _ \<Rightarrow> None) else None) ies"

lemma listed_urrs_simps [simp]:
  "listed_urrs api [] = []"
  "listed_urrs api (x # xs) =
     (if kind_of api x = K_URRID then (case ie_URRID api x of Inr v \<Rightarrow> [v] | Inl _ \<Rightarrow> []) else []) @ listed_urrs api xs"
  by (simp_all add: listed_urrs_def map_filter_simps split: sum.splits)

lemma or_and_absorb: "(f OR m) AND m = (m :: u32)"
  by (rule bit_word_eqI) (auto simp: bit_and_iff bit_or_iff)

lemma pdr_scan_urrs:
  "fold (pdr_scan_step api) ies (p, us, infos) = (p', us', infos') \<Longrightarrow>
   us' = fold List.insert (listed_urrs api ies) us \<and>
   (\<forall>u. map_of infos' u =
      map_option (\<lambda>info. info\<lparr>refPdrNum := refPdrNum info + word_of_nat (count_list (listed_urrs api ies) u)\<rparr>) (map_of infos u))"
proof (induction ies arbitrary: p us infos)
  case Nil
  then show ?case by (auto simp: option.map_ident)
next
  case (Cons x ies)
  obtain p1 us1 infos1 where step: "pdr_scan_step api x (p, us, infos) = (p1, us1, infos1)"
    by (metis prod_cases3)
  have rest: "us' = fold List.insert (listed_urrs api ies) us1"
      "\<And>u. map_of infos' u =
      map_option (\<lambda>info. info\<lparr>refPdrNum := refPdrNum info + word_of_nat (count_list (listed_urrs api ies) u)\<rparr>) (map_of infos1 u)"
    using Cons.IH [of p1 us1 infos1] Cons.prems step by auto
  show ?case
  proof (cases "kind_of api x = K_URRID \<and> (\<exists>v. ie_URRID api x = Inr v)")
    case True
    then obtain v where v: "kind_of api x = K_URRID" "ie_URRID api x = Inr v" by blast
    then have "us1 = List.insert v us"
      using step by (auto simp: pdr_scan_step_def)
    moreover have "map_of infos1 u =
        map_option (\<lambda>info. if u = v then info\<lparr>refPdrNum := refPdrNum info + 1\<rparr> else info) (map_of infos u)" for u
      using step v
      by (cases "u = v") (auto simp: pdr_scan_step_def update_conv' option.map_ident split: option.splits)
    ultimately show ?thesis using rest v
      by (auto simp: option.map_comp o_def algebra_simps intro!: option.map_cong)
  next
    case False
    then have "us1 = us" "infos1 = infos" "listed_urrs api (x # ies) = listed_urrs api ies"
      using step by (auto simp: pdr_scan_step_def split: ie_kind.splits sum.splits)
    with rest show ?thesis by auto
  qed
qed

lemma fold_insert_set: "set (fold List.insert xs ys) = set xs \<union> set ys"
  by (induction xs arbitrary: ys) auto

lemma fold_insert_distinct: "distinct ys \<Longrightarrow> distinct (fold List.insert xs ys)"
  by (induction xs arbitrary: ys) auto

lemma update_fresh: "map_of al k = None \<Longrightarrow> AList.update k v al = al @ [(k, v)]"
  by (induction al) (auto split: if_splits)

lemma count_distinct: "distinct xs \<Longrightarrow> count_list xs x = (if x \<in> set xs then 1 else 0)"
  by (induction xs) auto

lemma CreatePDR_ref_ok:
  assumes ok: "ref_ok s" and create: "CreatePDR api drv s d req = (e, s', d')"
    and ies: "ie_CreatePDR api req = Inr ies" "distinct (listed_urrs api ies)"
    and fresh: "map_of (PDRIDs s) (fst (fold (pdr_scan_step api) ies (0, [], URRIDs s))) = None"
    and few: "length (PDRIDs s) < 65535"
  shows "ref_ok s'"
proof -
  obtain p us infos where scan: "fold (pdr_scan_step api) ies (0, [], URRIDs s) = (p, us, infos)"
    by (metis prod_cases3)
  have us: "us = fold List.insert (listed_urrs api ies) []" and infos: "\<And>u. map_of infos u =
      map_option (\<lambda>info. info\<lparr>refPdrNum := refPdrNum info + word_of_nat (count_list (listed_urrs api ies) u)\<rparr>) (map_of (URRIDs s) u)"
    using pdr_scan_urrs [OF scan] by auto
  have s': "s' = s\<lparr>URRIDs := infos, PDRIDs := PDRIDs s @ [(p, \<lparr>RelatedURRIDs = us\<rparr>)]\<rparr>"
    using CreatePDR_cases [OF create] create ies(1) scan fresh
    by (auto simp: CreatePDR_def update_fresh Let_def split: prod.splits)
  have refs': "refs s' u = refs s u + (if u \<in> set us then 1 else 0)" for u
    by (simp add: refs_def s')
  have "unat (refPdrNum info) = refs s' u" if "map_of infos u = Some info" for u info
  proof -
    from that infos [of u] obtain i where i: "map_of (URRIDs s) u = Some i"
        "info = i\<lparr>refPdrNum := refPdrNum i + word_of_nat (count_list (listed_urrs api ies) u)\<rparr>"
      by (cases "map_of (URRIDs s) u") auto
    have "unat (refPdrNum i) = refs s u" using ok i by (simp add: ref_ok_def)
    moreover have "refs s u < 65535" using few
      by (simp add: refs_def order.strict_trans1 [OF length_filter_le])
    moreover have "set us = set (listed_urrs api ies)" by (simp add: us fold_insert_set)
    ultimately show ?thesis
      using i ies(2) by (auto simp: refs' count_distinct unat_word_ariths)
  qed
  with ok show ?thesis by (auto simp: ref_ok_def s' us fold_insert_distinct)
qed

text \<open>Dissociation of a list of distinct URRs lowers each counter that is not zero by one.\<close>

lemma diassociateURR_count:
  assumes "diassociateURR drv s d u = (r, s', d')"
  shows "map_of (URRIDs s') k = map_option (\<lambda>info. if k = u \<and> refPdrNum info > 0
     then info\<lparr>refPdrNum := refPdrNum info - 1\<rparr> else info) (map_of (URRIDs s) k)"
    and "PDRIDs s' = PDRIDs s" and "\<forall>x \<in> set r. usar_TERMR (USARTrigger x)"
proof -
  show "map_of (URRIDs s') k = map_option (\<lambda>info. if k = u \<and> refPdrNum info > 0
     then info\<lparr>refPdrNum := refPdrNum info - 1\<rparr> else info) (map_of (URRIDs s) k)"
    using assms
    by (cases "k = u") (auto simp: diassociateURR_def Let_def update_conv' option.map_ident
        split: option.splits if_splits prod.splits sum.splits)
  show "PDRIDs s' = PDRIDs s"
    using assms by (auto simp: diassociateURR_def Let_def split: option.splits if_splits prod.splits sum.splits)
  show "\<forall>x \<in> set r. usar_TERMR (USARTrigger x)"
    using assms by (auto simp: diassociateURR_def Let_def set_trigger_def usar_TERMR_def or_and_absorb
        split: option.splits if_splits prod.splits sum.splits)
qed

lemma diassociate_all_count:
  "diassociate_all drv us s d = (r, s', d') \<Longrightarrow> distinct us \<Longrightarrow>
   (\<forall>k. map_of (URRIDs s') k = map_option (\<lambda>info. if k \<in> set us \<and> refPdrNum info > 0
     then info\<lparr>refPdrNum := refPdrNum info - 1\<rparr> else info) (map_of (URRIDs s) k)) \<and>
   PDRIDs s' = PDRIDs s \<and> (\<forall>x \<in> set r. usar_TERMR (USARTrigger x))"
proof (induction us arbitrary: s d r s' d')
  case Nil
  then show ?case by (auto simp: option.map_ident)
next
  case (Cons u us)
  obtain r1 s1 d1 where one: "diassociateURR drv s d u = (r1, s1, d1)" by (metis prod_cases3)
  obtain r2 s2 d2 where rest: "diassociate_all drv us s1 d1 = (r2, s2, d2)" by (metis prod_cases3)
  from Cons.prems one rest have eq: "r = r1 @ r2" "s' = s2" by simp_all
  note IH = Cons.IH [OF rest] diassociateURR_count [OF one]
  have "map_of (URRIDs s') k = map_option (\<lambda>info. if k \<in> set (u # us) \<and> refPdrNum info > 0
      then info\<lparr>refPdrNum := refPdrNum info - 1\<rparr> else info) (map_of (URRIDs s) k)" for k
    using IH Cons.prems(2) by (cases "map_of (URRIDs s) k") (auto simp: eq)
  with IH Cons.prems(2) show ?case by (auto simp: eq)
qed

lemma refs_delete:
  assumes "distinct (map fst (PDRIDs s))" and "map_of (PDRIDs s) p = Some info"
  shows "length (filter (\<lambda>(k, q). u \<in> set (RelatedURRIDs q)) (PDRIDs s)) =
    length (filter (\<lambda>(k, q). u \<in> set (RelatedURRIDs q)) (AList.delete p (PDRIDs s)))
      + (if u \<in> set (RelatedURRIDs info) then 1 else 0)"
  using assms
proof (induction "PDRIDs s" arbitrary: s)
  case (Cons x xs)
  obtain k q where x: "x = (k, q)" by (cases x)
  have xs: "PDRIDs s = (k, q) # xs" using Cons.hyps(2) x by simp
  show ?case
  proof (cases "k = p")
    case True
    with Cons.prems xs have "p \<notin> fst ` set xs" "q = info" by auto
    then have "AList.delete p xs = xs" by simp
    with True \<open>q = info\<close> show ?thesis by (simp add: xs)
  next
    case False
    with Cons.hyps(1) [of "s\<lparr>PDRIDs := xs\<rparr>"] Cons.prems xs show ?thesis by (auto simp: xs)
  qed
qed simp

lemma RemovePDR_ref_ok:
  assumes ok: "ref_ok s" and wf: "sess_wf s" and remove: "RemovePDR api drv s d req = (Inr us, s', d')"
  shows "ref_ok s' \<and> (\<forall>x \<in> set us. usar_TERMR (USARTrigger x))"
proof -
  from remove obtain p info d1 s1 where p: "map_of (PDRIDs s) p = Some info"
      and all: "diassociate_all drv (RelatedURRIDs info) s d1 = (us, s1, d')"
      and s': "s' = s1\<lparr>PDRIDs := AList.delete p (PDRIDs s1)\<rparr>"
    by (auto simp: RemovePDR_def Let_def split: sum.splits option.splits prod.splits)
  have "distinct (RelatedURRIDs info)"
    using ok map_of_SomeD [OF p] by (auto simp: ref_ok_def)
  with diassociate_all_count [OF all] have count: "\<And>k. map_of (URRIDs s1) k =
      map_option (\<lambda>i. if k \<in> set (RelatedURRIDs info) \<and> refPdrNum i > 0
        then i\<lparr>refPdrNum := refPdrNum i - 1\<rparr> else i) (map_of (URRIDs s) k)"
      and pdrs: "PDRIDs s1 = PDRIDs s" and flagged: "\<forall>x \<in> set us. usar_TERMR (USARTrigger x)" by auto
  have "unat (refPdrNum i') = refs s' u" if "map_of (URRIDs s1) u = Some i'" for u i'
  proof -
    from that count [of u] obtain i where i: "map_of (URRIDs s) u = Some i"
        "i' = (if u \<in> set (RelatedURRIDs info) \<and> refPdrNum i > 0 then i\<lparr>refPdrNum := refPdrNum i - 1\<rparr> else i)"
      by (cases "map_of (URRIDs s) u") auto
    have r: "refs s u = refs s' u + (if u \<in> set (RelatedURRIDs info) then 1 else 0)"
      using refs_delete [OF _ p, of u] wf by (simp add: refs_def s' pdrs sess_wf_def)
    have "unat (refPdrNum i) = refs s u" using ok i by (simp add: ref_ok_def)
    with r i(2) show ?thesis
      by (auto simp: unat_minus_one word_gt_0 unat_gt_0 split: if_splits)
  qed
  moreover have "(\<forall>(k, q) \<in> set (PDRIDs s'). distinct (RelatedURRIDs q))"
    using ok by (auto simp: ref_ok_def s' pdrs AList.delete_eq)
  ultimately show ?thesis using flagged by (auto simp: ref_ok_def s')
qed

text \<open>\<^verbatim>\<open>UpdatePDR\<close> replaces the related URRs of the PDR and lowers counters, but never raises one.\<close>

lemma refs_update:
  assumes "map_of ps p = Some (info :: PDRInfo)"
  shows "length (filter (\<lambda>(k, q). u \<in> set (RelatedURRIDs q)) (AList.update p info' ps)) + (if u \<in> set (RelatedURRIDs info) then 1 else 0)
    = length (filter (\<lambda>(k, q). u \<in> set (RelatedURRIDs q)) ps) + (if u \<in> set (RelatedURRIDs info') then 1 else 0)"
  using assms by (induction ps) (auto split: if_splits)

lemma UpdatePDR_shape:
  assumes update: "UpdatePDR api drv s d req = (Inr us, s', d')" and ok: "ref_ok s"
  obtains p new info where "fold (update_scan_step api) (projr (ie_UpdatePDR api req)) (0, []) = (p, new)"
    and "map_of (PDRIDs s) p = Some info"
    and "PDRIDs s' = AList.update p (info\<lparr>RelatedURRIDs := new\<rparr>) (PDRIDs s)"
    and "\<And>k. map_of (URRIDs s') k = map_option (\<lambda>i. if k \<in> set (RelatedURRIDs info) \<and> k \<notin> set new \<and> refPdrNum i > 0
          then i\<lparr>refPdrNum := refPdrNum i - 1\<rparr> else i) (map_of (URRIDs s) k)"
proof -
  from update obtain ies p new info d1 s1 where ies: "ie_UpdatePDR api req = Inr ies"
      and scan: "fold (update_scan_step api) ies (0, []) = (p, new)" and p: "map_of (PDRIDs s) p = Some info"
      and all: "diassociate_all drv (filter (\<lambda>u. u \<notin> set new) (RelatedURRIDs info)) s d1 = (us, s1, d')"
      and s': "s' = s1\<lparr>PDRIDs := AList.update p (info\<lparr>RelatedURRIDs := new\<rparr>) (PDRIDs s1)\<rparr>"
    by (auto simp: UpdatePDR_def Let_def split: sum.splits option.splits prod.splits)
  have "distinct (filter (\<lambda>u. u \<notin> set new) (RelatedURRIDs info))"
    using ok map_of_SomeD [OF p] by (auto simp: ref_ok_def)
  with diassociate_all_count [OF all] that ies scan p s' show thesis by auto
qed

section \<open>Queues, sequence numbers and closing keep the invariant\<close>

lemma apply_each_keeps:
  assumes "\<And>s d i e s' d'. rm s d i = (e, s', d') \<Longrightarrow> keeps s s'"
  shows "apply_each rm is (s, d) = (s', d') \<Longrightarrow> keeps s s'"
proof (induction "is" arbitrary: s d)
  case (Cons i "is")
  obtain e s1 d1 where one: "rm s d i = (e, s1, d1)" by (metis prod_cases3)
  with Cons.prems have "apply_each rm is (s1, d1) = (s', d')" by (simp add: apply_each_def)
  from Cons.IH [OF this] assms [OF one] show ?case by (blast intro: keeps_trans)
qed (simp add: apply_each_def)

lemma report_each_keeps:
  assumes "\<And>s d i r s' d'. rm s d i = (r, s', d') \<Longrightarrow> keeps s s'"
  shows "report_each rm is s d = (us, s', d') \<Longrightarrow> keeps s s'"
proof (induction "is" arbitrary: s d us s' d')
  case (Cons i "is")
  obtain r s1 d1 where one: "rm s d i = (r, s1, d1)" by (metis prod_cases3)
  obtain us2 s2 d2 where rest: "report_each rm is s1 d1 = (us2, s2, d2)" by (metis prod_cases3)
  from Cons.IH [OF rest] assms [OF one] Cons.prems one rest show ?case
    by (auto intro: keeps_trans)
qed simp

lemma close_queues_wf:
  "sess_wf (s\<lparr>sess_q := map (\<lambda>(k, c). (k, c\<lparr>chan_closed := True\<rparr>)) (sess_q s)\<rparr>) \<longleftrightarrow> sess_wf s"
proof -
  have "map fst (map (\<lambda>(k, c). (k, c\<lparr>chan_closed := True\<rparr>)) xs) = map fst xs" for xs :: "(u16 \<times> chan) list"
    by (induction xs) auto
  then show ?thesis by (auto simp: sess_wf_def simp del: map_map)
qed

lemma Sess_Close_keeps:
  shows "Sess_Close api drv s d = Ok (us, s', d') \<Longrightarrow> (sess_wf s \<longrightarrow> sess_wf s') \<and> same_id s s'"
    and "live s \<Longrightarrow> Sess_Close api drv s d \<noteq> Panic"
proof -
  obtain s1 d1 where 1: "apply_each (\<lambda>s d i. RemoveFAR api drv s d (NewRemoveFAR api i)) (FARIDs s) (s, d) = (s1, d1)"
    by (metis prod.exhaust)
  obtain s2 d2 where 2: "apply_each (\<lambda>s d i. RemoveQER api drv s d (NewRemoveQER api i)) (QERIDs s1) (s1, d1) = (s2, d2)"
    by (metis prod.exhaust)
  obtain us3 s3 d3 where 3: "report_each (\<lambda>s d i. RemoveURR api drv s d (NewRemoveURR api i)) (map fst (URRIDs s2)) s2 d2 = (us3, s3, d3)"
    by (metis prod_cases3)
  obtain s4 d4 where 4: "apply_each (\<lambda>s d i. RemoveBAR api drv s d (NewRemoveBAR api i)) (BARIDs s3) (s3, d3) = (s4, d4)"
    by (metis prod.exhaust)
  obtain us5 s5 d5 where 5: "report_each (\<lambda>s d i. RemovePDR api drv s d (NewRemovePDR api i)) (map fst (PDRIDs s4)) s4 d4 = (us5, s5, d5)"
    by (metis prod_cases3)
  have "keeps s s1" by (rule apply_each_keeps [OF _ 1]) (rule rule_ops_keep(3))
  also have "keeps s1 s2" by (rule apply_each_keeps [OF _ 2]) (rule rule_ops_keep(6))
  also have "keeps s2 s3" by (rule report_each_keeps [OF _ 3]) (rule urr_ops_keep(3))
  also have "keeps s3 s4" by (rule apply_each_keeps [OF _ 4]) (rule rule_ops_keep(9))
  also have "keeps s4 s5" by (rule report_each_keeps [OF _ 5]) (rule pdr_ops_keep(3))
  finally have k: "keeps s s5" .
  note close = Sess_Close_def 1 2 3 4 5
  show "(sess_wf s \<longrightarrow> sess_wf s') \<and> same_id s s'" if "Sess_Close api drv s d = Ok (us, s', d')"
    using that k close_queues_wf [of s5] by (auto simp: close keeps_def same_id_def split: if_splits)
  show "Sess_Close api drv s d \<noteq> Panic" if "live s"
    using that k by (auto simp: close keeps_def live_def)
qed

lemma Sess_Close_not_Err [simp]: "Sess_Close api drv s d \<noteq> Err e"
  by (simp add: Sess_Close_def Let_def split: prod.splits)

lemma set_update_subset: "set (AList.update k v al) \<subseteq> insert (k, v) (set al)"
  by (induction al) auto

lemma queue_ops_keep:
  "Sess_Push s k p = Ok s' \<Longrightarrow> keeps s s'" "Sess_Pop s k = (r, s') \<Longrightarrow> keeps s s'" "URRSeq s u = (n, s') \<Longrightarrow> keeps s s'"
proof -
  have bound: "length (chan_buf c) \<le> qlen s" if "sess_wf s" "map_of (sess_q s) k = Some c" for c
  proof -
    have "(k, c) \<in> set (sess_q s)" using that(2) by (rule map_of_SomeD)
    with that(1) show ?thesis by (fastforce simp: sess_wf_def)
  qed
  have opened: "\<not> chan_closed c" if "live s" "map_of (sess_q s) k = Some c" for c
    using that map_of_SomeD [OF that(2)] by (auto simp: live_def)
  have upd: "keeps s (s\<lparr>sess_q := AList.update k c (sess_q s)\<rparr>)"
    if "sess_wf s \<longrightarrow> length (chan_buf c) \<le> qlen s" "live s \<longrightarrow> \<not> chan_closed c" for c
    using that set_update_subset [of k c "sess_q s"]
    by (auto simp: keeps_def same_id_def sess_wf_def live_def distinct_update)
  show "Sess_Push s k p = Ok s' \<Longrightarrow> keeps s s'"
    by (auto simp: Sess_Push_def Let_def bound split: if_splits option.splits intro!: upd)
  show "Sess_Pop s k = (r, s') \<Longrightarrow> keeps s s'"
    by (auto simp: Sess_Pop_def split: option.splits list.splits intro!: upd dest: bound opened)
  show "URRSeq s u = (n, s') \<Longrightarrow> keeps s s'"
    by (auto simp: URRSeq_def distinct_update split: option.splits intro!: keeps_URRIDs)
qed

lemma live_Push: "live s \<Longrightarrow> \<exists>s'. Sess_Push s k p = Ok s'"
  by (auto simp: live_def Sess_Push_def Let_def split: option.splits dest!: map_of_SomeD)

section \<open>A concrete set of information elements\<close>

text \<open>Elements that carry one identifier, and groups of them: an instance of \<open>ie_api\<close> on which the
  statements about arbitrary elements can be evaluated.\<close>

datatype sample_ie =
    S_PDRID u16 | S_FARID u32 | S_QERID u32 | S_URRID u32 | S_BARID u8 | S_group "sample_ie list"

definition sample_api :: "sample_ie ie_api" where
  "sample_api =
     \<lparr>kind_of = (\<lambda>x. case x of S_PDRID _ \<Rightarrow> K_PDRID | S_URRID _ \<Rightarrow> K_URRID | _ \<Rightarrow> K_other),
      ChildIEs = (\<lambda>x. case x of S_group l \<Rightarrow> l | _ \<Rightarrow> []),
      ie_CreatePDR = (\<lambda>x. case x of S_group l \<Rightarrow> Inr l | _ \<Rightarrow> Inl (IEError 0)),
      ie_UpdatePDR = (\<lambda>x. case x of S_group l \<Rightarrow> Inr l | _ \<Rightarrow> Inl (IEError 0)),
      ie_PDRID = (\<lambda>x. case x of S_PDRID i \<Rightarrow> Inr i | _ \<Rightarrow> Inl (IEError 1)),
      ie_FARID = (\<lambda>x. case x of S_FARID i \<Rightarrow> Inr i | _ \<Rightarrow> Inl (IEError 1)),
      ie_QERID = (\<lambda>x. case x of S_QERID i \<Rightarrow> Inr i | _ \<Rightarrow> Inl (IEError 1)),
      ie_URRID = (\<lambda>x. case x of S_URRID i \<Rightarrow> Inr i | _ \<Rightarrow> Inl (IEError 1)),
      ie_BARID = (\<lambda>x. case x of S_BARID i \<Rightarrow> Inr i | _ \<Rightarrow> Inl (IEError 1)),
      HasDURAT = (\<lambda>_. False), HasVOLUM = (\<lambda>_. True), HasEVENT = (\<lambda>_. False), HasMBQE = (\<lambda>_. False),
      HasINAM = (\<lambda>_. False), HasRADI = (\<lambda>_. False), HasISTM = (\<lambda>_. False), HasMNOP = (\<lambda>_. False),
      empty_IE = S_group [],
      NewRemovePDR = S_PDRID, NewRemoveFAR = S_FARID, NewRemoveQER = S_QERID, NewRemoveURR = S_URRID,
      NewRemoveBAR = S_BARID\<rparr>"

lemma sample_laws: "ie_laws sample_api"
  by (simp add: ie_laws_def sample_api_def)

definition sample_urr :: URRInfo where
  "sample_urr = \<lparr>removed = False, SEQN = 4294967295, urr_Method = \<lparr>DURAT = False, VOLUM = True, EVENT = False\<rparr>,
     urr_Information = \<lparr>MBQE = False, INAM = False, RADI = False, ISTM = False, MNOP = False, SSPOC = False,
       ASPOC = False, CIAM = False\<rparr>, refPdrNum = 1\<rparr>"

text \<open>Two PDRs; only the first relates to the URR 7.\<close>

definition sample_sess :: Sess where
  "sample_sess = \<lparr>sess_rnode = Some 0, LocalID = 1, RemoteID = 9,
     PDRIDs = [(1, \<lparr>RelatedURRIDs = [7]\<rparr>), (2, \<lparr>RelatedURRIDs = []\<rparr>)], FARIDs = [3, 4], QERIDs = [5],
     URRIDs = [(7, sample_urr)], BARIDs = [6],
     sess_q = [(1, \<lparr>chan_buf = [[1], [2]], chan_closed = False\<rparr>)], qlen = 2\<rparr>"

lemmas sample_defs = sample_sess_def sample_urr_def sample_api_def

lemma sample_sess_ok: "sess_wf sample_sess" "ref_ok sample_sess" "live sample_sess"
  by (auto simp: sess_wf_def live_def ref_ok_def refs_def sample_sess_def sample_urr_def)

section \<open>Properties\<close>

text \<open>
  C25. Closing a session releases everything: over a driver whose removals succeed, \<^verbatim>\<open>Close\<close> of a
  live session returns, and then no FAR, QER, BAR or PDR is left in the session, every URR is
  marked removed and every packet queue is closed, in whatever order the maps are visited.
\<close>

theorem session_close_releases:
  assumes "ie_laws api" and "removing_driver drv" and "live s"
  shows "\<exists>us s' d'. Sess_Close api drv s d = Ok (us, s', d') \<and>
    FARIDs s' = [] \<and> QERIDs s' = [] \<and> BARIDs s' = [] \<and> PDRIDs s' = [] \<and>
    (\<forall>k info. map_of (URRIDs s') k = Some info \<longrightarrow> removed info) \<and> (\<forall>(k, c) \<in> set (sess_q s'). chan_closed c)"
proof -
  obtain us s' d' where close: "Sess_Close api drv s d = Ok (us, s', d')"
    using Sess_Close_keeps(2) [OF assms(3)] Sess_Close_not_Err by (metis outcome.exhaust prod_cases3)
  with removing_driver.close_releases [OF assms(2,1) close] show ?thesis by blast
qed

theorem session_close_releases_witness:
  "\<exists>us s' d'. Sess_Close sample_api Empty sample_sess () = Ok (us, s', d') \<and> FARIDs s' = [] \<and> PDRIDs s' = [] \<and>
     FARIDs sample_sess = [3, 4] \<and> map fst (PDRIDs sample_sess) = [1, 2]"
  using session_close_releases [OF sample_laws empty_driver.removing_driver_axioms sample_sess_ok(3), of "()"]
  by (auto simp: sample_sess_def)

definition queue :: "Sess \<Rightarrow> u16 \<Rightarrow> bytes list" where
  "queue s p = (case map_of (sess_q s) p of None \<Rightarrow> [] | Some c \<Rightarrow> chan_buf c)"

definition queue_open :: "Sess \<Rightarrow> u16 \<Rightarrow> bool" where
  "queue_open s p \<longleftrightarrow> (case map_of (sess_q s) p of None \<Rightarrow> True | Some c \<Rightarrow> \<not> chan_closed c)"

text \<open>
  C26. The packet queues are bounded first-in-first-out queues, one per PDR: pushing on a queue
  that is not closed appends the packet if there is room and otherwise drops it, popping returns
  the oldest packet, and neither touches the queue of another PDR.
\<close>

theorem packet_queue_fifo:
  "(queue_open s p \<longrightarrow> (\<exists>s'. Sess_Push s p pkt = Ok s' \<and> queue_open s' p \<and>
      queue s' = (queue s)(p := (if length (queue s p) < qlen s then queue s p @ [pkt] else queue s p)))) \<and>
   (\<not> queue_open s p \<longrightarrow> Sess_Push s p pkt = Panic) \<and>
   (queue s p = [] \<longrightarrow> queue (snd (Sess_Pop s p)) = queue s) \<and>
   (queue s p \<noteq> [] \<longrightarrow> fst (Sess_Pop s p) = (hd (queue s p), True) \<and>
      queue (snd (Sess_Pop s p)) = (queue s)(p := tl (queue s p))) \<and>
   Sess_Len s p = length (queue s p)"
  by (auto simp: queue_def queue_open_def Sess_Push_def Sess_Pop_def Sess_Len_def Let_def fun_eq_iff update_conv'
      split: option.splits list.splits)

theorem packet_queue_fifo_witness:
  "queue_open sample_sess 1 \<and>
   (\<exists>s'. Sess_Push sample_sess 1 [3] = Ok s' \<and> queue s' = (queue sample_sess)(1 := [[1], [2]])) \<and>
   fst (Sess_Pop sample_sess 1) = ([1], True)"
  using packet_queue_fifo [of sample_sess 1 "[3]"]
  by (auto simp: queue_def queue_open_def sample_sess_def)

fun urr_seqs :: "nat \<Rightarrow> Sess \<Rightarrow> u32 \<Rightarrow> u32 list \<times> Sess" where
  "urr_seqs 0 s u = ([], s)"
| "urr_seqs (Suc n) s u = (let (q, s) = URRSeq s u; (qs, s) = urr_seqs n s u in (q # qs, s))"

text \<open>
  The sequence numbers of the reports of a URR are consecutive: \<open>n\<close> calls of \<^verbatim>\<open>URRSeq\<close>
  return the stored number and its successors, wrapping at 32 bits, and the counters of the other
  URRs do not move.
\<close>

theorem urr_sequence_numbers:
  assumes "map_of (URRIDs s) u = Some info"
  shows "fst (urr_seqs n s u) = map (\<lambda>i. SEQN info + word_of_nat i) [0..<n] \<and>
    (\<forall>v. v \<noteq> u \<longrightarrow> map_of (URRIDs (snd (urr_seqs n s u))) v = map_of (URRIDs s) v)"
  using assms
proof (induction n arbitrary: s info)
  case (Suc n)
  let ?s = "s\<lparr>URRIDs := AList.update u (info\<lparr>SEQN := SEQN info + 1\<rparr>) (URRIDs s)\<rparr>"
  have "map_of (URRIDs ?s) u = Some (info\<lparr>SEQN := SEQN info + 1\<rparr>)" by (simp add: update_conv')
  note IH = Suc.IH [OF this]
  have "map (\<lambda>i. SEQN info + word_of_nat i) [0..<Suc n] =
      SEQN info # map (\<lambda>i. SEQN info + 1 + word_of_nat i) [0..<n]"
    by (rule nth_equalityI) (auto simp: nth_Cons' algebra_simps of_nat_diff simp del: upt_Suc)
  with IH Suc.prems show ?case
    by (auto simp: URRSeq_def Let_def update_conv' split: prod.splits simp del: upt_Suc)
qed simp

theorem urr_sequence_numbers_witness:
  "fst (urr_seqs 3 sample_sess 7) = map (\<lambda>i. 4294967295 + word_of_nat i) [0..<3]"
  using urr_sequence_numbers [of sample_sess 7 sample_urr 3] by (simp add: sample_sess_def sample_urr_def)

text \<open>
  C27. The counters of the URRs are the numbers of PDRs that relate to them, and stay so when a PDR
  with a new identifier and no repeated URR is created and when a PDR is removed; the reports that
  a removal returns all carry the termination trigger.
\<close>

theorem pdr_reference_counts:
  assumes "ref_ok s" and "sess_wf s"
  shows "(ie_CreatePDR api req = Inr ies \<and> distinct (listed_urrs api ies) \<and>
      map_of (PDRIDs s) (fst (fold (pdr_scan_step api) ies (0, [], URRIDs s))) = None \<and> length (PDRIDs s) < 65535
      \<longrightarrow> ref_ok (fst (snd (CreatePDR api drv s d req)))) \<and>
    (\<forall>us s' d'. RemovePDR api drv s d req = (Inr us, s', d') \<longrightarrow>
      ref_ok s' \<and> (\<forall>r \<in> set us. usar_TERMR (USARTrigger r)))"
proof (intro conjI impI allI)
  show "ref_ok (fst (snd (CreatePDR api drv s d req)))"
    if "ie_CreatePDR api req = Inr ies \<and> distinct (listed_urrs api ies) \<and>
      map_of (PDRIDs s) (fst (fold (pdr_scan_step api) ies (0, [], URRIDs s))) = None \<and> length (PDRIDs s) < 65535"
  proof -
    obtain e s' d' where create: "CreatePDR api drv s d req = (e, s', d')" by (metis prod_cases3)
    with CreatePDR_ref_ok [OF assms(1) create] that show ?thesis by simp
  qed
qed (simp_all add: RemovePDR_ref_ok [OF assms])

theorem pdr_reference_counts_witness:
  "\<exists>us s' d'. RemovePDR sample_api Empty sample_sess () (S_PDRID 1) = (Inr us, s', d') \<and> ref_ok s' \<and>
     map_option refPdrNum (map_of (URRIDs s') 7) = Some 0"
proof -
  obtain us s' d' where r: "RemovePDR sample_api Empty sample_sess () (S_PDRID 1) = (Inr us, s', d')"
      and c: "map_option refPdrNum (map_of (URRIDs s') 7) = Some 0"
    by (simp add: RemovePDR_def sample_defs Empty_def diassociateURR_def Let_def)
  with pdr_reference_counts [OF sample_sess_ok(2,1), of sample_api "S_PDRID 1" "[]" Empty "()"] show ?thesis by blast
qed

text \<open>
  \<^verbatim>\<open>UpdatePDR\<close> loses references: when a successful update relates a PDR to a known URR it was
  not related to before, the counter of that URR is not raised, so afterwards it no longer is the
  number of PDRs, and removing the PDR will not produce the final usage report.
\<close>

theorem update_pdr_loses_reference:
  assumes "ref_ok s" and "UpdatePDR api drv s d req = (Inr us, s', d')"
    and "fold (update_scan_step api) (projr (ie_UpdatePDR api req)) (0, []) = (p, new)"
    and "map_of (PDRIDs s) p = Some info" and "u \<in> set new" and "u \<notin> set (RelatedURRIDs info)"
    and "map_of (URRIDs s) u = Some i"
  shows "map_of (URRIDs s') u = Some i \<and> refs s' u = unat (refPdrNum i) + 1 \<and> \<not> ref_ok s'"
proof -
  obtain p' new' info' where shape: "fold (update_scan_step api) (projr (ie_UpdatePDR api req)) (0, []) = (p', new')"
      "map_of (PDRIDs s) p' = Some info'" "PDRIDs s' = AList.update p' (info'\<lparr>RelatedURRIDs := new'\<rparr>) (PDRIDs s)"
      "\<And>k. map_of (URRIDs s') k = map_option (\<lambda>i. if k \<in> set (RelatedURRIDs info') \<and> k \<notin> set new' \<and> refPdrNum i > 0
          then i\<lparr>refPdrNum := refPdrNum i - 1\<rparr> else i) (map_of (URRIDs s) k)"
    by (rule UpdatePDR_shape [OF assms(2,1)]) iprover
  with assms have eq: "p' = p" "new' = new" "info' = info" by auto
  have u: "map_of (URRIDs s') u = Some i" using shape(4) [of u] assms(5,6,7) by (simp add: eq)
  have "unat (refPdrNum i) = refs s u" using assms(1,7) by (simp add: ref_ok_def)
  moreover have "refs s' u = refs s u + 1"
    using refs_update [OF shape(2), of u "info\<lparr>RelatedURRIDs := new\<rparr>"] assms(5,6) shape(3)
    by (simp add: refs_def eq)
  ultimately show ?thesis using u by (auto simp: ref_ok_def)
qed

theorem update_pdr_loses_reference_witness:
  "\<exists>us s' d'. UpdatePDR sample_api Empty sample_sess () (S_group [S_PDRID 2, S_URRID 7]) = (Inr us, s', d') \<and>
     refs s' 7 = 2 \<and> map_option refPdrNum (map_of (URRIDs s') 7) = Some 1"
proof -
  obtain us s' d' where r: "UpdatePDR sample_api Empty sample_sess () (S_group [S_PDRID 2, S_URRID 7]) = (Inr us, s', d')"
    by (simp add: UpdatePDR_def sample_defs Empty_def update_scan_step_def Let_def)
  have "map_of (URRIDs s') 7 = Some sample_urr \<and> refs s' 7 = unat (refPdrNum sample_urr) + 1 \<and> \<not> ref_ok s'"
    by (rule update_pdr_loses_reference [OF sample_sess_ok(2) r, where p = 2 and new = "[7]" and info = "\<lparr>RelatedURRIDs = []\<rparr>"])
       (simp_all add: sample_sess_def sample_api_def update_scan_step_def)
  with r show ?thesis by (simp add: sample_urr_def)
qed

end
