(* ===== verification/Upf_Node.thy ===== *)
theory Upf_Node
  imports Upf_Session
begin

text \<open>
  The local and remote PFCP nodes of the UPF (\<^verbatim>\<open>LocalNode\<close> and \<^verbatim>\<open>RemoteNode\<close> in
  \<^verbatim>\<open>NFs/upf/internal/pfcp/node.go\<close>): the table of sessions, indexed by the local SEID, with its
  list of free SEIDs, and per SMF the set of the SEIDs it owns.

  A \<^verbatim>\<open>*RemoteNode\<close> is an address in the store \<open>remotes\<close>, because sessions and the server's node map
  alias it; a \<^verbatim>\<open>*Sess\<close> of the table is its entry, and \<open>None\<close> is nil. \<^verbatim>\<open>net.Addr\<close> is its string.
  All nodes use the driver of the server, an argument of the operations. The session object a
  caller still holds after the table dropped it is returned beside the result.
\<close>

section \<open>State\<close>

record RemoteNode =
  rn_ID :: string
  rn_addr :: string
  rn_sess :: "u64 list"

record LocalNode =
  ln_sess :: "Sess option list"
  ln_free :: "u64 list"

record Nodes =
  lnode :: LocalNode
  remotes :: "RemoteNode list"

abbreviation BUFFQ_LEN :: nat where "BUFFQ_LEN \<equiv> 512"

section \<open>The local node\<close>

text \<open>The index \<^verbatim>\<open>int(lSeid) - 1\<close> is signed: it is negative for SEIDs above \<open>2^63\<close>, and indexing
  with a negative number panics.\<close>

definition LocalNode_Sess :: "LocalNode \<Rightarrow> u64 \<Rightarrow> (pfcp_error, Sess) outcome" where
  "LocalNode_Sess n lSeid =
     (if lSeid = 0 then Err InvalidSEID
      else let i = sint (lSeid - 1)
           in if i \<ge> int (length (ln_sess n)) then Err (SessNotFound lSeid)
              else if i < 0 then Panic
              else (case ln_sess n ! nat i of None \<Rightarrow> Err (SessNotFound lSeid) | Some s \<Rightarrow> Ok s))"

text \<open>The scan for a remote SEID. It reads a field of every entry up to the one it returns, so an
  entry that is nil ends it with a nil dereference.\<close>

fun remote_sess_loop :: "RemoteNode list \<Rightarrow> u64 \<Rightarrow> string \<Rightarrow> Sess option list \<Rightarrow> (pfcp_error, Sess) outcome" where
  "remote_sess_loop rs rSeid addr [] = Err (RemoteSessNotFound rSeid addr)"
| "remote_sess_loop rs rSeid addr (None # ss) = Panic"
| "remote_sess_loop rs rSeid addr (Some s # ss) =
     (if RemoteID s = rSeid then
        (case sess_rnode s of
           None \<Rightarrow> Panic
         | Some a \<Rightarrow> if a < length rs \<and> rn_addr (rs ! a) = addr then Ok s
                    else remote_sess_loop rs rSeid addr ss)
      else remote_sess_loop rs rSeid addr ss)"

definition LocalNode_RemoteSess :: "Nodes \<Rightarrow> u64 \<Rightarrow> string \<Rightarrow> (pfcp_error, Sess) outcome" where
  "LocalNode_RemoteSess nd rSeid addr = remote_sess_loop (remotes nd) rSeid addr (ln_sess (lnode nd))"

definition fresh_sess :: "u64 \<Rightarrow> nat \<Rightarrow> Sess" where
  "fresh_sess rSeid ql =
     \<lparr>sess_rnode = None, LocalID = 0, RemoteID = rSeid, PDRIDs = [], FARIDs = [], QERIDs = [], URRIDs = [],
      BARIDs = [], sess_q = [], qlen = ql\<rparr>"

definition LocalNode_NewSess :: "LocalNode \<Rightarrow> u64 \<Rightarrow> nat \<Rightarrow> (pfcp_error, Sess \<times> LocalNode) outcome" where
  "LocalNode_NewSess n rSeid ql =
     (if ln_free n \<noteq> [] then
        let s = (fresh_sess rSeid ql)\<lparr>LocalID := last (ln_free n)\<rparr>; i = unat (LocalID s - 1)
        in if i < length (ln_sess n)
           then Ok (s, n\<lparr>ln_free := butlast (ln_free n), ln_sess := (ln_sess n)[i := Some s]\<rparr>)
           else Panic
      else
        let s = (fresh_sess rSeid ql)\<lparr>LocalID := word_of_nat (length (ln_sess n) + 1)\<rparr>
        in Ok (s, n\<lparr>ln_sess := ln_sess n @ [Some s]\<rparr>))"

definition LocalNode_DeleteSess ::
    "'ie ie_api \<Rightarrow> ('d, 'ie) Driver \<Rightarrow> LocalNode \<Rightarrow> 'd \<Rightarrow> u64
      \<Rightarrow> (pfcp_error, USAReport list \<times> Sess \<times> LocalNode \<times> 'd) outcome" where
  "LocalNode_DeleteSess api drv n d lSeid =
     (if lSeid = 0 then Err InvalidSEID
      else let i = sint (lSeid - 1)
           in if i \<ge> int (length (ln_sess n)) then Err (SessNotFound lSeid)
              else if i < 0 then Panic
              else (case ln_sess n ! nat i of
                      None \<Rightarrow> Err (SessNotFound lSeid)
                    | Some s \<Rightarrow>
                        obind (Sess_Close api drv s d) (\<lambda>(usars, s, d).
                          Ok (usars, s, n\<lparr>ln_sess := (ln_sess n)[nat i := None], ln_free := ln_free n @ [lSeid]\<rparr>, d))))"

fun close_each ::
    "'ie ie_api \<Rightarrow> ('d, 'ie) Driver \<Rightarrow> Sess option list \<Rightarrow> 'd \<Rightarrow> (pfcp_error, 'd) outcome" where
  "close_each api drv [] d = Ok d"
| "close_each api drv (None # ss) d = close_each api drv ss d"
| "close_each api drv (Some s # ss) d =
     obind (Sess_Close api drv s d) (\<lambda>(usars, s, d). close_each api drv ss d)"

definition LocalNode_Reset ::
    "'ie ie_api \<Rightarrow> ('d, 'ie) Driver \<Rightarrow> LocalNode \<Rightarrow> 'd \<Rightarrow> (pfcp_error, LocalNode \<times> 'd) outcome" where
  "LocalNode_Reset api drv n d =
     obind (close_each api drv (ln_sess n) d) (\<lambda>d. Ok (n\<lparr>ln_sess := [], ln_free := []\<rparr>, d))"

section \<open>Remote nodes\<close>

definition NewRemoteNode :: "string \<Rightarrow> string \<Rightarrow> RemoteNode" where
  "NewRemoteNode i addr = \<lparr>rn_ID = i, rn_addr = addr, rn_sess = []\<rparr>"

text \<open>The update of the fields of the node at an address, and of the session object at an index.\<close>

definition set_remote :: "nat \<Rightarrow> (RemoteNode \<Rightarrow> RemoteNode) \<Rightarrow> Nodes \<Rightarrow> Nodes" where
  "set_remote a f nd = nd\<lparr>remotes := (remotes nd)[a := f (remotes nd ! a)]\<rparr>"

definition put_sess :: "Sess \<Rightarrow> LocalNode \<Rightarrow> LocalNode" where
  "put_sess s n = n\<lparr>ln_sess := (ln_sess n)[unat (LocalID s - 1) := Some s]\<rparr>"

definition RemoteNode_Sess :: "Nodes \<Rightarrow> nat \<Rightarrow> u64 \<Rightarrow> (pfcp_error, Sess) outcome" where
  "RemoteNode_Sess nd a lSeid =
     (if lSeid \<notin> set (rn_sess (remotes nd ! a)) then Err (SessNotFound lSeid)
      else LocalNode_Sess (lnode nd) lSeid)"

definition RemoteNode_NewSess :: "Nodes \<Rightarrow> nat \<Rightarrow> u64 \<Rightarrow> (pfcp_error, Sess \<times> Nodes) outcome" where
  "RemoteNode_NewSess nd a rSeid =
     obind (LocalNode_NewSess (lnode nd) rSeid BUFFQ_LEN) (\<lambda>(s, n).
       let nd = set_remote a (\<lambda>r. r\<lparr>rn_sess := List.insert (LocalID s) (rn_sess r)\<rparr>) (nd\<lparr>lnode := n\<rparr>);
           s = s\<lparr>sess_rnode := Some a\<rparr>
       in Ok (s, nd\<lparr>lnode := put_sess s (lnode nd)\<rparr>))"

definition RemoteNode_DeleteSess ::
    "'ie ie_api \<Rightarrow> ('d, 'ie) Driver \<Rightarrow> Nodes \<Rightarrow> 'd \<Rightarrow> nat \<Rightarrow> u64
      \<Rightarrow> (pfcp_error, USAReport list \<times> Sess option \<times> Nodes \<times> 'd) outcome" where
  "RemoteNode_DeleteSess api drv nd d a lSeid =
     (if lSeid \<notin> set (rn_sess (remotes nd ! a)) then Ok ([], None, nd, d)
      else let nd = set_remote a (\<lambda>r. r\<lparr>rn_sess := removeAll lSeid (rn_sess r)\<rparr>) nd
           in (case LocalNode_DeleteSess api drv (lnode nd) d lSeid of
                 Panic \<Rightarrow> Panic
               | Err _ \<Rightarrow> Ok ([], None, nd, d)
               | Ok (usars, s, n, d) \<Rightarrow> Ok (usars, Some s, nd\<lparr>lnode := n\<rparr>, d)))"

fun delete_each ::
    "'ie ie_api \<Rightarrow> ('d, 'ie) Driver \<Rightarrow> nat \<Rightarrow> u64 list \<Rightarrow> Nodes \<Rightarrow> 'd \<Rightarrow> (pfcp_error, Nodes \<times> 'd) outcome" where
  "delete_each api drv a [] nd d = Ok (nd, d)"
| "delete_each api drv a (i # is) nd d =
     obind (RemoteNode_DeleteSess api drv nd d a i) (\<lambda>(usars, s, nd, d). delete_each api drv a is nd d)"

definition RemoteNode_Reset ::
    "'ie ie_api \<Rightarrow> ('d, 'ie) Driver \<Rightarrow> Nodes \<Rightarrow> 'd \<Rightarrow> nat \<Rightarrow> (pfcp_error, Nodes \<times> 'd) outcome" where
  "RemoteNode_Reset api drv nd d a =
     obind (delete_each api drv a (rn_sess (remotes nd ! a)) nd d)
       (\<lambda>(nd, d). Ok (set_remote a (\<lambda>r. r\<lparr>rn_sess := []\<rparr>) nd, d))"

section \<open>The session table as a map\<close>

definition sess_at :: "LocalNode \<Rightarrow> u64 \<Rightarrow> Sess option" where
  "sess_at n i = (if i \<noteq> 0 \<and> unat (i - 1) < length (ln_sess n) then ln_sess n ! unat (i - 1) else None)"

text \<open>The free SEIDs are exactly the empty entries, without repetition; every session is stored
  under its own SEID, well-formed and live; the table fits the signed index.\<close>

definition lnode_ok :: "LocalNode \<Rightarrow> bool" where
  "lnode_ok n \<longleftrightarrow> length (ln_sess n) < 2 ^ 63 \<and> distinct (ln_free n) \<and>
     set (ln_free n) = {i. i \<noteq> 0 \<and> unat (i - 1) < length (ln_sess n) \<and> sess_at n i = None} \<and>
     (\<forall>i s. sess_at n i = Some s \<longrightarrow> LocalID s = i \<and> sess_wf s \<and> live s)"

lemma signed_index:
  fixes i :: u64
  shows "sint i = (if i < 2 ^ 63 then int (unat i) else int (unat i) - 2 ^ 64)"
proof -
  have b: "bit (uint i) 63 \<longleftrightarrow> \<not> uint i < 2 ^ 63"
  proof -
    have u: "0 \<le> uint i" "uint i < 2 ^ 64" using uint_lt2p [of i] by simp_all
    have "bit (uint i) 63 \<longleftrightarrow> odd (uint i div 2 ^ 63)" by (simp add: bit_iff_odd)
    also have "uint i div 2 ^ 63 = (if uint i < 2 ^ 63 then 0 else 1)"
      using u by (simp add: div_pos_pos_trivial int_div_pos_eq [of _ _ 1 "uint i - 2 ^ 63"])
    finally show ?thesis by simp
  qed
  have "sint i = take_bit 64 (uint i) - 2 ^ 64 * of_bool (bit (uint i) 63)"
    by (simp add: sint_uint signed_take_bit_eq_take_bit_minus)
  moreover have "take_bit 64 (uint i) = uint i" using uint_lt2p [of i] by (simp add: take_bit_int_eq_self)
  ultimately show ?thesis by (simp add: b word_less_def)
qed

lemma index_inject: "unat (i - 1 :: u64) = unat (j - 1) \<longleftrightarrow> i = j"
  by (metis diff_add_cancel word_unat_eq_iff)

lemma index_of_nat: "k < 2 ^ 64 \<Longrightarrow> unat (word_of_nat (k + 1) - 1 :: u64) = k"
  by (simp add: unsigned_of_nat take_bit_nat_eq_self)

lemma large_seid: "i \<noteq> 0 \<Longrightarrow> i - 1 < 2 ^ 63 \<longleftrightarrow> \<not> 2 ^ 63 < (i :: u64)"
proof -
  assume "i \<noteq> 0"
  then have "unat (i - 1) = unat i - 1" "0 < unat i" by (simp_all add: unat_minus_one unat_gt_0)
  then show ?thesis by (simp add: word_less_nat_alt) linarith
qed

lemma seid_index:
  assumes "i \<noteq> 0"
  shows "2 ^ 63 < i \<Longrightarrow> sint (i - 1 :: u64) < 0"
    and "\<not> 2 ^ 63 < i \<Longrightarrow> nat (sint (i - 1)) = unat (i - 1)"
    and "\<not> 2 ^ 63 < i \<Longrightarrow> \<not> sint (i - 1) < 0"
    and "\<not> 2 ^ 63 < i \<Longrightarrow> int m \<le> sint (i - 1) \<longleftrightarrow> \<not> unat (i - 1) < m"
proof -
  have lt: "uint (i - 1) < 2 ^ 64" using uint_lt2p [of "i - 1"] by simp
  show "2 ^ 63 < i \<Longrightarrow> sint (i - 1) < 0"
    using lt large_seid [OF assms] by (simp add: signed_index)
  have small: "\<not> 2 ^ 63 < i \<Longrightarrow> sint (i - 1) = int (unat (i - 1))"
    using large_seid [OF assms] by (simp add: signed_index)
  show "\<not> 2 ^ 63 < i \<Longrightarrow> nat (sint (i - 1)) = unat (i - 1)"
    by (simp only: small nat_int simp_thms)
  show "\<not> 2 ^ 63 < i \<Longrightarrow> \<not> sint (i - 1) < 0"
    by (simp only: small of_nat_less_0_iff simp_thms)
  show "\<not> 2 ^ 63 < i \<Longrightarrow> int m \<le> sint (i - 1) \<longleftrightarrow> \<not> unat (i - 1) < m"
    by (simp only: small of_nat_le_iff not_less simp_thms)
qed

text \<open>Lookup and deletion in terms of the map.\<close>

lemma Sess_spec:
  "LocalNode_Sess n i =
     (if i = 0 then Err InvalidSEID else if i > 2 ^ 63 then Panic
      else (case sess_at n i of None \<Rightarrow> Err (SessNotFound i) | Some s \<Rightarrow> Ok s))"
  using seid_index(1) [of i] seid_index(2,3,4) [of i]
  by (cases "i = 0"; cases "2 ^ 63 < i") (simp_all add: LocalNode_Sess_def sess_at_def Let_def)

lemma Delete_spec:
  "LocalNode_DeleteSess api drv n d i =
     (if i = 0 then Err InvalidSEID else if i > 2 ^ 63 then Panic
      else (case sess_at n i of None \<Rightarrow> Err (SessNotFound i)
            | Some s \<Rightarrow> obind (Sess_Close api drv s d) (\<lambda>(usars, s, d). Ok (usars, s,
                n\<lparr>ln_sess := (ln_sess n)[unat (i - 1) := None], ln_free := ln_free n @ [i]\<rparr>, d))))"
  using seid_index(1) [of i] seid_index(2,3,4) [of i]
  by (cases "i = 0"; cases "2 ^ 63 < i") (simp_all add: LocalNode_DeleteSess_def sess_at_def Let_def split: option.split)

text \<open>The three ways the table changes.\<close>

lemma sess_at_update:
  "i \<noteq> 0 \<Longrightarrow> unat (i - 1) < length (ln_sess n) \<Longrightarrow>
   sess_at (n\<lparr>ln_sess := (ln_sess n)[unat (i - 1) := x]\<rparr>) = (sess_at n)(i := x)"
  by (rule ext) (auto simp: sess_at_def nth_list_update index_inject)

lemma sess_at_free [simp]: "sess_at (n\<lparr>ln_free := f\<rparr>) = sess_at n"
  by (rule ext) (simp add: sess_at_def)

lemma sess_at_append:
  assumes "length (ln_sess n) < 2 ^ 63" and "i = word_of_nat (length (ln_sess n) + 1)"
  shows "sess_at (n\<lparr>ln_sess := ln_sess n @ [x]\<rparr>) = (sess_at n)(i := x)"
    and "i \<noteq> 0" and "unat (i - 1) = length (ln_sess n)"
proof -
  show u: "unat (i - 1) = length (ln_sess n)" using index_of_nat [of "length (ln_sess n)"] assms by simp
  show nz: "i \<noteq> 0"
  proof
    assume "i = 0"
    then have "unat (word_of_nat (length (ln_sess n) + 1) :: u64) = 0" using assms(2) by simp
    moreover have "unat (word_of_nat (length (ln_sess n) + 1) :: u64) = length (ln_sess n) + 1"
      using assms(1) by (simp only: unsigned_of_nat) (simp add: take_bit_nat_eq_self)
    ultimately show False by linarith
  qed
  show "sess_at (n\<lparr>ln_sess := ln_sess n @ [x]\<rparr>) = (sess_at n)(i := x)"
  proof
    fix j
    show "sess_at (n\<lparr>ln_sess := ln_sess n @ [x]\<rparr>) j = ((sess_at n)(i := x)) j"
      using nz u index_inject [of j i] by (auto simp: sess_at_def nth_append less_Suc_eq)
  qed
qed

lemma fresh_sess_ok [simp]:
  "sess_wf ((fresh_sess r q)\<lparr>LocalID := i\<rparr>)" "live ((fresh_sess r q)\<lparr>LocalID := i\<rparr>)"
  "sess_wf ((fresh_sess r q)\<lparr>LocalID := i, sess_rnode := a\<rparr>)" "live ((fresh_sess r q)\<lparr>LocalID := i, sess_rnode := a\<rparr>)"
  by (simp_all add: fresh_sess_def sess_wf_def live_def)

lemma sess_at_SomeD: "sess_at n i = Some s \<Longrightarrow> i \<noteq> 0 \<and> unat (i - 1) < length (ln_sess n)"
  by (auto simp: sess_at_def split: if_splits)

lemma sess_at_small: "lnode_ok n \<Longrightarrow> sess_at n i = Some s \<Longrightarrow> \<not> 2 ^ 63 < i"
proof -
  assume "lnode_ok n" "sess_at n i = Some s"
  then have "i \<noteq> 0" "unat (i - 1) < 2 ^ 63" using sess_at_SomeD [of n i s] by (auto simp: lnode_ok_def)
  moreover from this have "i - 1 < 2 ^ 63" by (simp add: word_less_nat_alt)
  ultimately show ?thesis using large_seid by blast
qed

text \<open>Replacing a session under its SEID keeps the table in order.\<close>

lemma lnode_ok_put:
  assumes "lnode_ok n" and "sess_at n (LocalID s) = Some s0" and "sess_wf s" and "live s"
  shows "lnode_ok (put_sess s n)" and "sess_at (put_sess s n) = (sess_at n)(LocalID s \<mapsto> s)"
proof -
  note i = sess_at_SomeD [OF assms(2)]
  then show at: "sess_at (put_sess s n) = (sess_at n)(LocalID s \<mapsto> s)"
    by (simp add: put_sess_def sess_at_update)
  have len: "length (ln_sess (put_sess s n)) = length (ln_sess n)" "ln_free (put_sess s n) = ln_free n"
    by (simp_all add: put_sess_def)
  have none: "sess_at (put_sess s n) j = None \<longleftrightarrow> sess_at n j = None" for j
    using assms(2) by (simp add: at)
  show "lnode_ok (put_sess s n)"
    using assms(1,3,4) unfolding lnode_ok_def len none by (auto simp: at)
qed

lemma NewSess_spec:
  assumes ok: "lnode_ok n" and room: "length (ln_sess n) + 1 < 2 ^ 63"
  shows "\<exists>i n'. LocalNode_NewSess n r q = Ok ((fresh_sess r q)\<lparr>LocalID := i\<rparr>, n') \<and> i \<noteq> 0 \<and> sess_at n i = None \<and>
    sess_at n' = (sess_at n)(i \<mapsto> (fresh_sess r q)\<lparr>LocalID := i\<rparr>) \<and> lnode_ok n'"
proof (cases "ln_free n = []")
  case True
  define i :: u64 where "i = word_of_nat (length (ln_sess n) + 1)"
  define n' where "n' = n\<lparr>ln_sess := ln_sess n @ [Some ((fresh_sess r q)\<lparr>LocalID := i\<rparr>)]\<rparr>"
  have len: "length (ln_sess n) < 2 ^ 63" using room by simp
  note app = sess_at_append(1) [OF len i_def, where x = "Some ((fresh_sess r q)\<lparr>LocalID := i\<rparr>)", folded n'_def]
    sess_at_append(2,3) [OF len i_def]
  have none: "sess_at n i = None" using app(3) by (simp add: sess_at_def)
  have "{j. j \<noteq> 0 \<and> unat (j - 1) < length (ln_sess n') \<and> sess_at n' j = None} = {}"
  proof -
    have "{j. j \<noteq> 0 \<and> unat (j - 1) < length (ln_sess n) \<and> sess_at n j = None} = {}"
      using ok True by (simp add: lnode_ok_def)
    then show ?thesis using app(1,3) index_inject [of _ i] by (auto simp: n'_def less_Suc_eq)
  qed
  then have "lnode_ok n'"
    using ok room True app(1) by (auto simp: lnode_ok_def n'_def)
  moreover have "LocalNode_NewSess n r q = Ok ((fresh_sess r q)\<lparr>LocalID := i\<rparr>, n')"
    using True by (simp add: LocalNode_NewSess_def n'_def i_def Let_def)
  ultimately show ?thesis using app none by blast
next
  case False
  define i where "i = last (ln_free n)"
  define n' where "n' = n\<lparr>ln_free := butlast (ln_free n), ln_sess := (ln_sess n)[unat (i - 1) := Some ((fresh_sess r q)\<lparr>LocalID := i\<rparr>)]\<rparr>"
  have mem: "i \<in> set (ln_free n)" using False by (simp add: i_def)
  then have i: "i \<noteq> 0" "unat (i - 1) < length (ln_sess n)" "sess_at n i = None"
    using ok by (auto simp: lnode_ok_def)
  have at: "sess_at n' = (sess_at n)(i \<mapsto> (fresh_sess r q)\<lparr>LocalID := i\<rparr>)"
    using sess_at_update [of i "n\<lparr>ln_free := butlast (ln_free n)\<rparr>"] i(1,2) by (simp add: n'_def)
  have "set (butlast (ln_free n)) = set (ln_free n) - {i}"
    using ok False by (cases "ln_free n" rule: rev_cases) (auto simp: i_def lnode_ok_def)
  then have "lnode_ok n'"
    using ok at by (auto simp: lnode_ok_def n'_def distinct_butlast)
  moreover have "LocalNode_NewSess n r q = Ok ((fresh_sess r q)\<lparr>LocalID := i\<rparr>, n')"
    using False i(2) by (simp add: LocalNode_NewSess_def n'_def i_def Let_def fresh_sess_def)
  ultimately show ?thesis using at i by blast
qed

lemma DeleteSess_spec:
  assumes ok: "lnode_ok n" and s: "sess_at n i = Some s"
  shows "\<exists>us s' n' d'. LocalNode_DeleteSess api drv n d i = Ok (us, s', n', d') \<and> Sess_Close api drv s d = Ok (us, s', d') \<and>
    sess_at n' = (sess_at n)(i := None) \<and> lnode_ok n' \<and> length (ln_sess n') = length (ln_sess n)"
proof -
  note i = sess_at_SomeD [OF s] sess_at_small [OF ok s]
  have live: "live s" using ok s by (auto simp: lnode_ok_def)
  obtain us s' d' where close: "Sess_Close api drv s d = Ok (us, s', d')"
    using Sess_Close_keeps(2) [OF live] Sess_Close_not_Err by (metis outcome.exhaust prod_cases3)
  define n' where "n' = n\<lparr>ln_sess := (ln_sess n)[unat (i - 1) := None], ln_free := ln_free n @ [i]\<rparr>"
  have at: "sess_at n' = (sess_at n)(i := None)"
    using sess_at_free [where n = "n\<lparr>ln_sess := (ln_sess n)[unat (i - 1) := None]\<rparr>" and f = "ln_free n @ [i]"] i(1)
    by (simp add: n'_def sess_at_update)
  have "i \<notin> set (ln_free n)" using ok s by (simp add: lnode_ok_def)
  moreover have "{j. j \<noteq> 0 \<and> unat (j - 1) < length (ln_sess n') \<and> sess_at n' j = None} =
      insert i {j. j \<noteq> 0 \<and> unat (j - 1) < length (ln_sess n) \<and> sess_at n j = None}"
    unfolding at using i(1) by (auto simp: n'_def)
  ultimately have "lnode_ok n'"
    using ok at by (auto simp: lnode_ok_def n'_def)
  moreover have "LocalNode_DeleteSess api drv n d i = Ok (us, s', n', d')"
    using i s close by (simp add: Delete_spec n'_def)
  ultimately show ?thesis using at close by (auto simp: n'_def)
qed

section \<open>Ownership of sessions\<close>

text \<open>Every session of the table belongs to exactly one remote node, whose set of SEIDs lists it.\<close>

definition nodes_ok :: "Nodes \<Rightarrow> bool" where
  "nodes_ok nd \<longleftrightarrow> lnode_ok (lnode nd) \<and>
     (\<forall>i s. sess_at (lnode nd) i = Some s \<longrightarrow> (\<exists>a < length (remotes nd). sess_rnode s = Some a)) \<and>
     (\<forall>a < length (remotes nd). distinct (rn_sess (remotes nd ! a)) \<and>
        set (rn_sess (remotes nd ! a)) = {i. \<exists>s. sess_at (lnode nd) i = Some s \<and> sess_rnode s = Some a})"

definition node_room :: "Nodes \<Rightarrow> bool" where
  "node_room nd \<longleftrightarrow> length (ln_sess (lnode nd)) + 1 < 2 ^ 63"

lemma set_remote_simps [simp]:
  "lnode (set_remote a f nd) = lnode nd" "length (remotes (set_remote a f nd)) = length (remotes nd)"
  "b < length (remotes nd) \<Longrightarrow> remotes (set_remote a f nd) ! b = (if b = a then f (remotes nd ! a) else remotes nd ! b)"
  by (auto simp: set_remote_def)

lemma NewSess_owned:
  assumes ok: "nodes_ok nd" and a: "a < length (remotes nd)" and room: "node_room nd"
  shows "\<exists>i nd'. RemoteNode_NewSess nd a r = Ok ((fresh_sess r BUFFQ_LEN)\<lparr>LocalID := i, sess_rnode := Some a\<rparr>, nd') \<and>
    i \<noteq> 0 \<and> sess_at (lnode nd) i = None \<and>
    sess_at (lnode nd') = (sess_at (lnode nd))(i \<mapsto> (fresh_sess r BUFFQ_LEN)\<lparr>LocalID := i, sess_rnode := Some a\<rparr>) \<and>
    nodes_ok nd' \<and> map rn_ID (remotes nd') = map rn_ID (remotes nd) \<and> map rn_addr (remotes nd') = map rn_addr (remotes nd)"
proof -
  have lok: "lnode_ok (lnode nd)" using ok by (simp add: nodes_ok_def)
  obtain i n where new: "LocalNode_NewSess (lnode nd) r BUFFQ_LEN = Ok ((fresh_sess r BUFFQ_LEN)\<lparr>LocalID := i\<rparr>, n)"
      and i: "i \<noteq> 0" "sess_at (lnode nd) i = None"
      and at: "sess_at n = (sess_at (lnode nd))(i \<mapsto> (fresh_sess r BUFFQ_LEN)\<lparr>LocalID := i\<rparr>)" and nok: "lnode_ok n"
    using NewSess_spec [OF lok, of r BUFFQ_LEN] room by (auto simp: node_room_def)
  define s where "s = (fresh_sess r BUFFQ_LEN)\<lparr>LocalID := i, sess_rnode := Some a\<rparr>"
  have s: "LocalID s = i" "sess_rnode s = Some a" "sess_wf s" "live s" by (simp_all add: s_def)
  define nd1 where "nd1 = set_remote a (\<lambda>x. x\<lparr>rn_sess := List.insert i (rn_sess x)\<rparr>) (nd\<lparr>lnode := n\<rparr>)"
  define nd' where "nd' = nd1\<lparr>lnode := put_sess s n\<rparr>"
  have "sess_at n (LocalID s) = Some ((fresh_sess r BUFFQ_LEN)\<lparr>LocalID := i\<rparr>)" by (simp add: at s)
  note put = lnode_ok_put [OF nok this s(3,4)]
  have at': "sess_at (lnode nd') = (sess_at (lnode nd))(i \<mapsto> s)"
    using put(2) by (simp add: nd'_def at s)
  have len: "length (remotes nd') = length (remotes nd)" by (simp add: nd'_def nd1_def)
  have rem: "remotes nd' ! b = (if b = a then (remotes nd ! a)\<lparr>rn_sess := List.insert i (rn_sess (remotes nd ! a))\<rparr> else remotes nd ! b)"
    if "b < length (remotes nd)" for b using that by (simp add: nd'_def nd1_def)
  have "nodes_ok nd'"
    unfolding nodes_ok_def len at'
  proof (intro conjI allI impI)
    show "lnode_ok (lnode nd')" using put(1) by (simp add: nd'_def)
    show "\<exists>a < length (remotes nd). sess_rnode t = Some a" if "((sess_at (lnode nd))(i \<mapsto> s)) j = Some t" for j t
      using that ok a s(2) by (auto simp: nodes_ok_def split: if_splits)
    fix b assume b: "b < length (remotes nd)"
    then have owned: "distinct (rn_sess (remotes nd ! b))"
        "set (rn_sess (remotes nd ! b)) = {j. \<exists>s. sess_at (lnode nd) j = Some s \<and> sess_rnode s = Some b}"
      using ok by (auto simp: nodes_ok_def)
    show "distinct (rn_sess (remotes nd' ! b))"
      using rem [OF b] owned(1) by auto
    show "set (rn_sess (remotes nd' ! b)) = {j. \<exists>t. ((sess_at (lnode nd))(i \<mapsto> s)) j = Some t \<and> sess_rnode t = Some b}"
      using rem [OF b] owned(2) i(2) s(2) by auto
  qed
  moreover have "RemoteNode_NewSess nd a r = Ok (s, nd')"
    by (simp add: RemoteNode_NewSess_def new nd'_def nd1_def s_def Let_def)
  moreover have "map rn_ID (remotes nd') = map rn_ID (remotes nd)" "map rn_addr (remotes nd') = map rn_addr (remotes nd)"
    using len rem by (auto intro!: nth_equalityI)
  ultimately show ?thesis using i at' unfolding s_def by blast
qed

lemma DeleteSess_owned:
  assumes ok: "nodes_ok nd" and a: "a < length (remotes nd)" and i: "i \<in> set (rn_sess (remotes nd ! a))"
  shows "\<exists>us s s' nd' d'. RemoteNode_DeleteSess api drv nd d a i = Ok (us, Some s', nd', d') \<and>
    sess_at (lnode nd) i = Some s \<and> Sess_Close api drv s d = Ok (us, s', d') \<and>
    sess_at (lnode nd') = (sess_at (lnode nd))(i := None) \<and> nodes_ok nd' \<and>
    remotes nd' = (remotes nd)[a := (remotes nd ! a)\<lparr>rn_sess := removeAll i (rn_sess (remotes nd ! a))\<rparr>]"
proof -
  have lok: "lnode_ok (lnode nd)" using ok by (simp add: nodes_ok_def)
  obtain s where s: "sess_at (lnode nd) i = Some s" "sess_rnode s = Some a"
    using ok a i by (auto simp: nodes_ok_def)
  obtain us s' n' d' where del: "LocalNode_DeleteSess api drv (lnode nd) d i = Ok (us, s', n', d')"
      and close: "Sess_Close api drv s d = Ok (us, s', d')"
      and at: "sess_at n' = (sess_at (lnode nd))(i := None)" and nok: "lnode_ok n'"
    using DeleteSess_spec [OF lok s(1), of api drv d] by blast
  define nd' where "nd' = (set_remote a (\<lambda>r. r\<lparr>rn_sess := removeAll i (rn_sess r)\<rparr>) nd)\<lparr>lnode := n'\<rparr>"
  have rem: "remotes nd' ! b = (if b = a then (remotes nd ! a)\<lparr>rn_sess := removeAll i (rn_sess (remotes nd ! a))\<rparr> else remotes nd ! b)"
    if "b < length (remotes nd)" for b using that by (simp add: nd'_def)
  have len: "length (remotes nd') = length (remotes nd)" "lnode nd' = n'" by (simp_all add: nd'_def)
  have "nodes_ok nd'"
    unfolding nodes_ok_def len at
  proof (intro conjI allI impI)
    show "\<exists>a < length (remotes nd). sess_rnode t = Some a" if "((sess_at (lnode nd))(i := None)) j = Some t" for j t
      using that ok by (auto simp: nodes_ok_def split: if_splits)
    fix b assume b: "b < length (remotes nd)"
    then have owned: "distinct (rn_sess (remotes nd ! b))"
        "set (rn_sess (remotes nd ! b)) = {j. \<exists>s. sess_at (lnode nd) j = Some s \<and> sess_rnode s = Some b}"
      using ok by (auto simp: nodes_ok_def)
    show "distinct (rn_sess (remotes nd' ! b))"
      using rem [OF b] owned(1) by (auto simp: distinct_removeAll)
    show "set (rn_sess (remotes nd' ! b)) = {j. \<exists>t. ((sess_at (lnode nd))(i := None)) j = Some t \<and> sess_rnode t = Some b}"
      using rem [OF b] owned(2) s by auto
  qed (rule nok)
  moreover have "RemoteNode_DeleteSess api drv nd d a i = Ok (us, Some s', nd', d')"
    using i del by (simp add: RemoteNode_DeleteSess_def nd'_def)
  ultimately show ?thesis using s(1) close at by (auto simp: len nd'_def set_remote_def)
qed

lemma delete_each_owned:
  assumes "nodes_ok nd" and "a < length (remotes nd)" and "set is \<subseteq> set (rn_sess (remotes nd ! a))" and "distinct is"
  shows "\<exists>nd' d'. delete_each api drv a is nd d = Ok (nd', d') \<and> nodes_ok nd' \<and>
    sess_at (lnode nd') = (\<lambda>j. if j \<in> set is then None else sess_at (lnode nd) j) \<and>
    remotes nd' = (remotes nd)[a := (remotes nd ! a)\<lparr>rn_sess := filter (\<lambda>j. j \<notin> set is) (rn_sess (remotes nd ! a))\<rparr>]"
  using assms
proof (induction "is" arbitrary: nd d)
  case (Cons i "is")
  obtain us s s' nd1 d1 where one: "RemoteNode_DeleteSess api drv nd d a i = Ok (us, Some s', nd1, d1)"
      and at: "sess_at (lnode nd1) = (sess_at (lnode nd))(i := None)" and ok: "nodes_ok nd1"
      and rem: "remotes nd1 = (remotes nd)[a := (remotes nd ! a)\<lparr>rn_sess := removeAll i (rn_sess (remotes nd ! a))\<rparr>]"
    using DeleteSess_owned [OF Cons.prems(1,2), of i api drv d] Cons.prems(3) by auto
  have "set is \<subseteq> set (rn_sess (remotes nd1 ! a))" using Cons.prems by (auto simp: rem)
  then obtain nd' d' where rest: "delete_each api drv a is nd1 d1 = Ok (nd', d')" "nodes_ok nd'"
      and at': "sess_at (lnode nd') = (\<lambda>j. if j \<in> set is then None else sess_at (lnode nd1) j)"
      and rem': "remotes nd' = (remotes nd1)[a := (remotes nd1 ! a)\<lparr>rn_sess := filter (\<lambda>j. j \<notin> set is) (rn_sess (remotes nd1 ! a))\<rparr>]"
    using Cons.IH [OF ok, of d1] Cons.prems by (auto simp: rem)
  have "filter (\<lambda>j. j \<notin> set is) (removeAll i xs) = filter (\<lambda>j. j \<notin> set (i # is)) xs" for xs :: "u64 list"
    by (induction xs) auto
  with one rest at at' rem rem' Cons.prems(2) show ?case by (auto simp: fun_eq_iff)
qed simp

lemma Reset_spec:
  assumes ok: "nodes_ok nd" and a: "a < length (remotes nd)"
  shows "\<exists>nd' d'. RemoteNode_Reset api drv nd d a = Ok (nd', d') \<and> nodes_ok nd' \<and>
    sess_at (lnode nd') = (\<lambda>j. case sess_at (lnode nd) j of None \<Rightarrow> None
       | Some s \<Rightarrow> if sess_rnode s = Some a then None else Some s) \<and>
    remotes nd' = (remotes nd)[a := (remotes nd ! a)\<lparr>rn_sess := []\<rparr>]"
proof -
  let ?is = "rn_sess (remotes nd ! a)"
  have own: "distinct ?is" "set ?is = {i. \<exists>s. sess_at (lnode nd) i = Some s \<and> sess_rnode s = Some a}"
    using ok a by (auto simp: nodes_ok_def)
  obtain nd1 d' where del: "delete_each api drv a ?is nd d = Ok (nd1, d')" "nodes_ok nd1"
      and at: "sess_at (lnode nd1) = (\<lambda>j. if j \<in> set ?is then None else sess_at (lnode nd) j)"
      and rem: "remotes nd1 = (remotes nd)[a := (remotes nd ! a)\<lparr>rn_sess := []\<rparr>]"
    using delete_each_owned [OF ok a order_refl own(1), of api drv d] by auto
  have "set_remote a (\<lambda>r. r\<lparr>rn_sess := []\<rparr>) nd1 = nd1" using a by (simp add: set_remote_def rem)
  with del have "RemoteNode_Reset api drv nd d a = Ok (nd1, d')" by (simp add: RemoteNode_Reset_def)
  moreover have "(\<lambda>j. if j \<in> set ?is then None else sess_at (lnode nd) j) =
      (\<lambda>j. case sess_at (lnode nd) j of None \<Rightarrow> None | Some s \<Rightarrow> if sess_rnode s = Some a then None else Some s)"
    by (auto simp: own(2) fun_eq_iff split: option.split)
  ultimately show ?thesis using del(2) at rem by auto
qed

section \<open>The contract of a table of sessions\<close>

text \<open>
  What the server relies on, whether it goes through the local node or through a remote one: a new
  session has an identifier that was free and is not zero, and is found under it; deleting one
  frees exactly its identifier; neither disturbs another session.
\<close>

locale seid_table =
  fixes inv :: "'t \<Rightarrow> bool" and room :: "'t \<Rightarrow> bool" and get :: "'t \<Rightarrow> u64 \<Rightarrow> Sess option"
    and new :: "'t \<Rightarrow> u64 \<Rightarrow> (pfcp_error, Sess \<times> 't) outcome"
    and del :: "'t \<Rightarrow> u64 \<Rightarrow> (pfcp_error, 't) outcome"
  assumes new_law: "inv t \<Longrightarrow> room t \<Longrightarrow> \<exists>s t'. new t r = Ok (s, t') \<and> RemoteID s = r \<and> LocalID s \<noteq> 0 \<and>
      get t (LocalID s) = None \<and> get t' = (get t)(LocalID s \<mapsto> s) \<and> inv t'"
    and del_law: "inv t \<Longrightarrow> get t i = Some s \<Longrightarrow> \<exists>t'. del t i = Ok t' \<and> get t' = (get t)(i := None) \<and> inv t'"
begin

lemma new_then_delete:
  assumes "inv t" and "room t"
  shows "\<exists>s t1 t2. new t r = Ok (s, t1) \<and> get t1 (LocalID s) = Some s \<and> del t1 (LocalID s) = Ok t2 \<and>
    get t2 = get t \<and> inv t2"
proof -
  obtain s t1 where new: "new t r = Ok (s, t1)" "get t (LocalID s) = None" "get t1 = (get t)(LocalID s \<mapsto> s)" "inv t1"
    using new_law [OF assms, of r] by blast
  then obtain t2 where "del t1 (LocalID s) = Ok t2" "get t2 = (get t1)(LocalID s := None)" "inv t2"
    using del_law [of t1 "LocalID s" s] by auto
  with new show ?thesis by (auto simp: fun_eq_iff)
qed

lemma new_are_distinct:
  assumes "inv t" and "room t" and "new t r = Ok (s, t1)" and "room t1" and "new t1 r' = Ok (s', t2)"
  shows "LocalID s \<noteq> LocalID s' \<and> get t2 (LocalID s) = Some s \<and> get t2 (LocalID s') = Some s' \<and> inv t2"
proof -
  have 1: "get t1 = (get t)(LocalID s \<mapsto> s)" "inv t1" using new_law [OF assms(1,2), of r] assms(3) by auto
  have 2: "get t1 (LocalID s') = None" "get t2 = (get t1)(LocalID s' \<mapsto> s')" "inv t2"
    using new_law [OF 1(2) assms(4), of r'] assms(5) by auto
  with 1 show ?thesis by (auto split: if_splits)
qed

end

interpretation local_table: seid_table lnode_ok "\<lambda>n. length (ln_sess n) + 1 < 2 ^ 63" sess_at
    "\<lambda>n r. LocalNode_NewSess n r BUFFQ_LEN" "\<lambda>n i. omap (\<lambda>(us, s, n', d'). n') (LocalNode_DeleteSess api drv n d i)"
  for api :: "'ie ie_api" and drv :: "('d, 'ie) Driver" and d
proof unfold_locales
  show "\<exists>s n'. LocalNode_NewSess n r BUFFQ_LEN = Ok (s, n') \<and> RemoteID s = r \<and> LocalID s \<noteq> 0 \<and>
      sess_at n (LocalID s) = None \<and> sess_at n' = (sess_at n)(LocalID s \<mapsto> s) \<and> lnode_ok n'"
    if "lnode_ok n" "length (ln_sess n) + 1 < 2 ^ 63" for n r
    using NewSess_spec [OF that, of r BUFFQ_LEN] by (fastforce simp: fresh_sess_def)
  show "\<exists>n'. omap (\<lambda>(us, s, n', d'). n') (LocalNode_DeleteSess api drv n d i) = Ok n' \<and>
      sess_at n' = (sess_at n)(i := None) \<and> lnode_ok n'" if "lnode_ok n" "sess_at n i = Some s" for n i s
    using DeleteSess_spec [OF that, of api drv d] by auto
qed

text \<open>Through the remote node at address \<open>a\<close>, the table holds the sessions that node owns.\<close>

definition owned_at :: "nat \<Rightarrow> Nodes \<Rightarrow> u64 \<Rightarrow> Sess option" where
  "owned_at a nd i = (if i \<in> set (rn_sess (remotes nd ! a)) then sess_at (lnode nd) i else None)"

lemma owned_at_iff:
  "nodes_ok nd \<Longrightarrow> a < length (remotes nd) \<Longrightarrow>
   owned_at a nd i = Some s \<longleftrightarrow> sess_at (lnode nd) i = Some s \<and> sess_rnode s = Some a"
  by (auto simp: owned_at_def nodes_ok_def)

lemma owned_at_None:
  "nodes_ok nd \<Longrightarrow> a < length (remotes nd) \<Longrightarrow> sess_at (lnode nd) i = None \<Longrightarrow> owned_at a nd i = None"
  by (auto simp: owned_at_def)

lemma owned_at_eqI:
  assumes "nodes_ok nd" and "a < length (remotes nd)"
    and "\<And>s. m i = Some s \<longleftrightarrow> sess_at (lnode nd) i = Some s \<and> sess_rnode s = Some a"
  shows "owned_at a nd i = m i"
  using owned_at_iff [OF assms(1,2)] assms(3) by (metis not_None_eq)

interpretation remote_table: seid_table "\<lambda>nd. nodes_ok nd \<and> a < length (remotes nd)" node_room "owned_at a"
    "\<lambda>nd r. RemoteNode_NewSess nd a r"
    "\<lambda>nd i. omap (\<lambda>(us, s, nd', d'). nd') (RemoteNode_DeleteSess api drv nd d a i)"
  for a and api :: "'ie ie_api" and drv :: "('d, 'ie) Driver" and d
proof unfold_locales
  fix nd r assume inv: "nodes_ok nd \<and> a < length (remotes nd)" and "node_room nd"
  then obtain i nd' where new: "RemoteNode_NewSess nd a r = Ok ((fresh_sess r BUFFQ_LEN)\<lparr>LocalID := i, sess_rnode := Some a\<rparr>, nd')"
      "i \<noteq> 0" "sess_at (lnode nd) i = None" "nodes_ok nd'" "map rn_ID (remotes nd') = map rn_ID (remotes nd)"
      "sess_at (lnode nd') = (sess_at (lnode nd))(i \<mapsto> (fresh_sess r BUFFQ_LEN)\<lparr>LocalID := i, sess_rnode := Some a\<rparr>)"
    using NewSess_owned by blast
  have a: "a < length (remotes nd')" using new(5) inv by (metis length_map)
  have "owned_at a nd' = (owned_at a nd)(i \<mapsto> (fresh_sess r BUFFQ_LEN)\<lparr>LocalID := i, sess_rnode := Some a\<rparr>)"
    by (rule ext, rule owned_at_eqI [OF new(4) a]) (use owned_at_iff inv in \<open>auto simp: new(6)\<close>)
  with new inv a owned_at_None [of nd a i] show "\<exists>s nd'. RemoteNode_NewSess nd a r = Ok (s, nd') \<and> RemoteID s = r \<and> LocalID s \<noteq> 0 \<and>
      owned_at a nd (LocalID s) = None \<and> owned_at a nd' = (owned_at a nd)(LocalID s \<mapsto> s) \<and>
      nodes_ok nd' \<and> a < length (remotes nd')"
    by (fastforce simp: fresh_sess_def)
next
  fix nd i s assume inv: "nodes_ok nd \<and> a < length (remotes nd)" and own: "owned_at a nd i = Some s"
  then have "i \<in> set (rn_sess (remotes nd ! a))" by (auto simp: owned_at_def split: if_splits)
  then obtain us s' nd' d' where del: "RemoteNode_DeleteSess api drv nd d a i = Ok (us, Some s', nd', d')" "nodes_ok nd'"
      "sess_at (lnode nd') = (sess_at (lnode nd))(i := None)"
      "remotes nd' = (remotes nd)[a := (remotes nd ! a)\<lparr>rn_sess := removeAll i (rn_sess (remotes nd ! a))\<rparr>]"
    using DeleteSess_owned [of nd a i api drv d] inv by blast
  then have a: "a < length (remotes nd')" using inv by simp
  have "owned_at a nd' = (owned_at a nd)(i := None)"
    by (rule ext, rule owned_at_eqI [OF del(2) a]) (use owned_at_iff inv in \<open>auto simp: del(3)\<close>)
  with del a show "\<exists>nd'. omap (\<lambda>(us, s, nd', d'). nd') (RemoteNode_DeleteSess api drv nd d a i) = Ok nd' \<and>
      owned_at a nd' = (owned_at a nd)(i := None) \<and> nodes_ok nd' \<and> a < length (remotes nd')" by auto
qed

section \<open>Concrete nodes\<close>

text \<open>One SMF without sessions, and the same after it has set up one session.\<close>

definition sample_nodes :: Nodes where
  "sample_nodes = \<lparr>lnode = \<lparr>ln_sess = [], ln_free = []\<rparr>, remotes = [NewRemoteNode ''smf'' ''10.0.0.1:8805'']\<rparr>"

definition sample_nodes1 :: Nodes where
  "sample_nodes1 = \<lparr>lnode = \<lparr>ln_sess = [Some ((fresh_sess 9 BUFFQ_LEN)\<lparr>LocalID := 1, sess_rnode := Some 0\<rparr>)], ln_free = []\<rparr>,
     remotes = [\<lparr>rn_ID = ''smf'', rn_addr = ''10.0.0.1:8805'', rn_sess = [1]\<rparr>]\<rparr>"

lemma sample_nodes_ok: "nodes_ok sample_nodes" "node_room sample_nodes"
  by (simp_all add: sample_nodes_def nodes_ok_def lnode_ok_def sess_at_def NewRemoteNode_def node_room_def)

lemma sample_nodes_new:
  "RemoteNode_NewSess sample_nodes 0 9 = Ok ((fresh_sess 9 BUFFQ_LEN)\<lparr>LocalID := 1, sess_rnode := Some 0\<rparr>, sample_nodes1)"
  by (simp add: RemoteNode_NewSess_def LocalNode_NewSess_def sample_nodes_def sample_nodes1_def NewRemoteNode_def
      set_remote_def put_sess_def Let_def)

lemma sample_nodes1_ok: "nodes_ok sample_nodes1"
  using NewSess_owned [OF sample_nodes_ok(1) _ sample_nodes_ok(2), of 0 9] sample_nodes_new
  by (auto simp: sample_nodes_def)

lemma entry_of_seid:
  assumes "lnode_ok n"
  shows "Some s \<in> set (ln_sess n) \<longleftrightarrow> (\<exists>i. sess_at n i = Some s)"
proof
  assume "Some s \<in> set (ln_sess n)"
  then obtain k where k: "k < length (ln_sess n)" "ln_sess n ! k = Some s" by (auto simp: in_set_conv_nth)
  then have small: "k < 2 ^ 63" using assms by (simp add: lnode_ok_def)
  let ?n = "n\<lparr>ln_sess := take k (ln_sess n)\<rparr>"
  have "length (ln_sess ?n) = k" using k(1) by simp
  then have "word_of_nat (k + 1) \<noteq> (0 :: u64)" "unat (word_of_nat (k + 1) - 1 :: u64) = k"
    using sess_at_append(2,3) [of ?n] small by simp_all
  with k show "\<exists>i. sess_at n i = Some s" by (intro exI [of _ "word_of_nat (k + 1)"]) (simp add: sess_at_def)
next
  assume "\<exists>i. sess_at n i = Some s"
  then show "Some s \<in> set (ln_sess n)" by (auto simp: sess_at_def split: if_splits) (metis nth_mem)
qed

lemma free_entry: "lnode_ok n \<Longrightarrow> ln_free n \<noteq> [] \<Longrightarrow> None \<in> set (ln_sess n)"
proof -
  assume "lnode_ok n" "ln_free n \<noteq> []"
  then have "hd (ln_free n) \<in> {i. i \<noteq> 0 \<and> unat (i - 1) < length (ln_sess n) \<and> sess_at n i = None}"
    using hd_in_set [of "ln_free n"] by (simp only: lnode_ok_def simp_thms)
  then obtain i where "i \<noteq> 0" "unat (i - 1) < length (ln_sess n)" "sess_at n i = None" by blast
  then show ?thesis by (auto simp: sess_at_def) (metis nth_mem)
qed

text \<open>The session deleted again: its entry is empty and its SEID free.\<close>

definition sample_nodes2 :: Nodes where
  "sample_nodes2 = \<lparr>lnode = \<lparr>ln_sess = [None], ln_free = [1]\<rparr>, remotes = [NewRemoteNode ''smf'' ''10.0.0.1:8805'']\<rparr>"

lemma sample_nodes2_ok: "nodes_ok sample_nodes2"
proof -
  have "unat (i - 1) = 0 \<longleftrightarrow> i = 1" for i :: u64 by (simp add: unat_eq_0)
  then show ?thesis by (auto simp: sample_nodes2_def nodes_ok_def lnode_ok_def sess_at_def NewRemoteNode_def)
qed

section \<open>Properties\<close>

text \<open>
  Sessions are set up under fresh identifiers and can be taken down again: a new session of a
  remote node has a local SEID that no session had, is found under it, and no other lookup changes;
  deleting it restores every lookup to what it was before. Both keep the tables in order.
\<close>

theorem session_setup_and_deletion:
  assumes "nodes_ok nd" and "a < length (remotes nd)" and "node_room nd"
  shows "\<exists>s nd1. RemoteNode_NewSess nd a r = Ok (s, nd1) \<and> nodes_ok nd1 \<and>
    RemoteID s = r \<and> sess_rnode s = Some a \<and>
    LocalNode_Sess (lnode nd) (LocalID s) = Err (SessNotFound (LocalID s)) \<and>
    LocalNode_Sess (lnode nd1) (LocalID s) = Ok s \<and> RemoteNode_Sess nd1 a (LocalID s) = Ok s \<and>
    (\<forall>i. i \<noteq> LocalID s \<longrightarrow> LocalNode_Sess (lnode nd1) i = LocalNode_Sess (lnode nd) i) \<and>
    (\<exists>us s' nd2 d'. RemoteNode_DeleteSess api drv nd1 d a (LocalID s) = Ok (us, Some s', nd2, d') \<and> nodes_ok nd2 \<and>
       (\<forall>i. LocalNode_Sess (lnode nd2) i = LocalNode_Sess (lnode nd) i))"
proof -
  obtain i nd1 where new: "RemoteNode_NewSess nd a r = Ok ((fresh_sess r BUFFQ_LEN)\<lparr>LocalID := i, sess_rnode := Some a\<rparr>, nd1)"
      "i \<noteq> 0" "sess_at (lnode nd) i = None" "nodes_ok nd1" "map rn_ID (remotes nd1) = map rn_ID (remotes nd)"
      "sess_at (lnode nd1) = (sess_at (lnode nd))(i \<mapsto> (fresh_sess r BUFFQ_LEN)\<lparr>LocalID := i, sess_rnode := Some a\<rparr>)"
    using NewSess_owned [OF assms] by blast
  have a: "a < length (remotes nd1)" using new(5) assms(2) by (metis length_map)
  have small: "\<not> 2 ^ 63 < i"
    using sess_at_small [of "lnode nd1" i] new(4,6) by (simp add: nodes_ok_def)
  have mem: "i \<in> set (rn_sess (remotes nd1 ! a))" using new(4,6) a by (auto simp: nodes_ok_def)
  obtain us s' nd2 d' where del: "RemoteNode_DeleteSess api drv nd1 d a i = Ok (us, Some s', nd2, d')" "nodes_ok nd2"
      "sess_at (lnode nd2) = (sess_at (lnode nd1))(i := None)"
    using DeleteSess_owned [OF new(4) a mem, of api drv d] by blast
  have "sess_at (lnode nd2) = sess_at (lnode nd)" using new(3,6) del(3) by (auto simp: fun_eq_iff)
  then have "LocalNode_Sess (lnode nd2) j = LocalNode_Sess (lnode nd) j" for j by (simp add: Sess_spec)
  moreover have "LocalNode_Sess (lnode nd1) j = LocalNode_Sess (lnode nd) j" if "j \<noteq> i" for j
    using that new(6) by (simp add: Sess_spec)
  ultimately show ?thesis using new del small mem
    by (simp add: Sess_spec RemoteNode_Sess_def fresh_sess_def)
qed

theorem session_setup_and_deletion_witness:
  "\<exists>us s' nd2 d'. RemoteNode_DeleteSess sample_api Empty sample_nodes1 () 0 1 = Ok (us, Some s', nd2, d') \<and>
     LocalNode_Sess (lnode nd2) 1 = Err (SessNotFound 1)"
proof -
  have "0 < length (remotes sample_nodes)" by (simp add: sample_nodes_def)
  from session_setup_and_deletion [OF sample_nodes_ok(1) this sample_nodes_ok(2), of 9 sample_api Empty "()"]
  show ?thesis unfolding sample_nodes_new by auto
qed

text \<open>
  C28. Resetting a remote node, as a repeated association setup does, never panics and deletes
  exactly the sessions of that node: afterwards a lookup finds the sessions of the other nodes,
  unchanged, and none of this node.
\<close>

theorem node_reset_deletes_own_sessions:
  assumes "nodes_ok nd" and "a < length (remotes nd)"
  shows "\<exists>nd' d'. RemoteNode_Reset api drv nd d a = Ok (nd', d') \<and> nodes_ok nd' \<and> rn_sess (remotes nd' ! a) = [] \<and>
    (\<forall>b. b \<noteq> a \<longrightarrow> remotes nd' ! b = remotes nd ! b) \<and>
    (\<forall>i. LocalNode_Sess (lnode nd') i = (case LocalNode_Sess (lnode nd) i of
        Ok s \<Rightarrow> if sess_rnode s = Some a then Err (SessNotFound i) else Ok s | r \<Rightarrow> r))"
proof -
  obtain nd' d' where reset: "RemoteNode_Reset api drv nd d a = Ok (nd', d')" "nodes_ok nd'"
      "sess_at (lnode nd') = (\<lambda>j. case sess_at (lnode nd) j of None \<Rightarrow> None
         | Some s \<Rightarrow> if sess_rnode s = Some a then None else Some s)"
      "remotes nd' = (remotes nd)[a := (remotes nd ! a)\<lparr>rn_sess := []\<rparr>]"
    using Reset_spec [OF assms, of api drv d] by blast
  have "LocalNode_Sess (lnode nd') i = (case LocalNode_Sess (lnode nd) i of
        Ok s \<Rightarrow> if sess_rnode s = Some a then Err (SessNotFound i) else Ok s | r \<Rightarrow> r)" for i
    by (simp add: Sess_spec reset(3) split: option.split)
  with reset(1,2,4) assms(2) show ?thesis by simp
qed

theorem node_reset_deletes_own_sessions_witness:
  "\<exists>nd' d'. RemoteNode_Reset sample_api Empty sample_nodes1 () 0 = Ok (nd', d') \<and>
     LocalNode_Sess (lnode nd') 1 = Err (SessNotFound 1)"
proof -
  have one: "LocalNode_Sess (lnode sample_nodes1) 1 = Ok ((fresh_sess 9 BUFFQ_LEN)\<lparr>LocalID := 1, sess_rnode := Some 0\<rparr>)"
    by (simp add: Sess_spec sess_at_def sample_nodes1_def)
  have "0 < length (remotes sample_nodes1)" by (simp add: sample_nodes1_def)
  from node_reset_deletes_own_sessions [OF sample_nodes1_ok this, of sample_api Empty "()"] one show ?thesis by force
qed

text \<open>
  The exact panic condition of a session lookup and of a deletion: the SEID of a request is
  taken from the network, and the node panics exactly on the SEIDs above \<open>2^63\<close>, whose signed index
  is negative; every other SEID gives a session or an error.
\<close>

theorem seid_lookup_panics:
  "(LocalNode_Sess n i = Panic \<longleftrightarrow> 2 ^ 63 < i) \<and>
   (LocalNode_DeleteSess api drv n d i = Panic \<longleftrightarrow>
      2 ^ 63 < i \<or> (\<exists>s. LocalNode_Sess n i = Ok s \<and> Sess_Close api drv s d = Panic))"
  by (auto simp: Sess_spec Delete_spec go_simps split: option.splits)

text \<open>
  The scan for a remote SEID returns the first session with that SEID whose node has the
  given address, but an empty entry before it ends the scan with a nil dereference; so once any
  session has been deleted, the scan for a SEID that is not there panics instead of returning the
  error.
\<close>

theorem remote_sess_scan:
  assumes "nodes_ok nd"
  shows "LocalNode_RemoteSess nd r addr =
      (case find (\<lambda>x. case x of None \<Rightarrow> True
          | Some s \<Rightarrow> RemoteID s = r \<and> rn_addr (remotes nd ! the (sess_rnode s)) = addr) (ln_sess (lnode nd)) of
         None \<Rightarrow> Err (RemoteSessNotFound r addr) | Some None \<Rightarrow> Panic | Some (Some s) \<Rightarrow> Ok s) \<and>
    (ln_free (lnode nd) \<noteq> [] \<longrightarrow> LocalNode_RemoteSess nd r addr \<noteq> Err e)"
proof -
  have ok: "lnode_ok (lnode nd)" using assms by (simp add: nodes_ok_def)
  have "remote_sess_loop (remotes nd) r addr xs =
      (case find (\<lambda>x. case x of None \<Rightarrow> True
          | Some s \<Rightarrow> RemoteID s = r \<and> rn_addr (remotes nd ! the (sess_rnode s)) = addr) xs of
         None \<Rightarrow> Err (RemoteSessNotFound r addr) | Some None \<Rightarrow> Panic | Some (Some s) \<Rightarrow> Ok s)"
    if "\<forall>s. Some s \<in> set xs \<longrightarrow> (\<exists>a < length (remotes nd). sess_rnode s = Some a)" for xs
    using that by (induction "remotes nd" r addr xs rule: remote_sess_loop.induct) auto
  moreover have "\<exists>a < length (remotes nd). sess_rnode s = Some a" if "Some s \<in> set (ln_sess (lnode nd))" for s
    using that assms entry_of_seid [OF ok] by (auto simp: nodes_ok_def)
  ultimately have scan: "LocalNode_RemoteSess nd r addr =
      (case find (\<lambda>x. case x of None \<Rightarrow> True
          | Some s \<Rightarrow> RemoteID s = r \<and> rn_addr (remotes nd ! the (sess_rnode s)) = addr) (ln_sess (lnode nd)) of
         None \<Rightarrow> Err (RemoteSessNotFound r addr) | Some None \<Rightarrow> Panic | Some (Some s) \<Rightarrow> Ok s)"
    by (simp add: LocalNode_RemoteSess_def)
  have "find (\<lambda>x. case x of None \<Rightarrow> True
      | Some s \<Rightarrow> RemoteID s = r \<and> rn_addr (remotes nd ! the (sess_rnode s)) = addr) (ln_sess (lnode nd)) \<noteq> None"
    if "ln_free (lnode nd) \<noteq> []"
    using free_entry [OF ok that] by (auto simp: find_None_iff)
  with scan show ?thesis by (auto split: option.splits)
qed

theorem remote_sess_scan_witness:
  "LocalNode_RemoteSess sample_nodes2 5 ''10.0.0.1:8805'' = Panic \<and> ln_free (lnode sample_nodes2) \<noteq> []"
  using remote_sess_scan [OF sample_nodes2_ok, of 5 "''10.0.0.1:8805''" InvalidSEID] by (simp add: sample_nodes2_def)

end
