(* ===== verification/Upf_Transaction.thy ===== *)
theory Upf_Transaction
  imports Upf_Node
begin

text \<open>
  PFCP messages and transactions of the UPF (\<^verbatim>\<open>NFs/upf/internal/pfcp/transaction.go\<close>, and the
  sending half of \<^verbatim>\<open>pfcp.go\<close>): the server's state, the identifiers of transactions, the request
  transactions with their retransmissions, the response transactions that answer duplicates.

  A message is the go-pfcp struct reduced to the fields the server reads or sets. What lies outside
  the repository is the record \<open>pfcp_env\<close>: parsing and marshalling of messages, the accessors of
  further information elements, the socket (whether a write succeeds) and the address functions of
  package \<^verbatim>\<open>net\<close>. The datagrams written are collected in \<open>sent\<close>, oldest first; a timer is whether
  the field is set, and its firing is an event of the server. Durations are 64-bit words.
\<close>

section \<open>Messages\<close>

datatype nodeid = NodeID_v4 string | NodeID_v6 string | NodeID_fqdn string

datatype cause = CauseRequestAccepted | CauseSessionContextNotFound

datatype rsp_ie =
    R_NodeID nodeid | R_Cause cause | R_RecoveryTimeStamp int | R_FSEID u64 "string option"
  | R_CreatedPDR u16 string | R_ReportType "nat list" | R_DownlinkDataReport u16 | R_UsageReport "report_ie list"

record 'ie est_req =
  est_NodeID :: "'ie option"
  est_CPFSEID :: "'ie option"
  est_CreateFAR :: "'ie list"
  est_CreateQER :: "'ie list"
  est_CreateURR :: "'ie list"
  est_CreateBAR :: "'ie option"
  est_CreatePDR :: "'ie list"

record 'ie mod_req =
  mod_NodeID :: "'ie option"
  mod_CreateFAR :: "'ie list"
  mod_CreateQER :: "'ie list"
  mod_CreateURR :: "'ie list"
  mod_CreateBAR :: "'ie option"
  mod_CreatePDR :: "'ie list"
  mod_RemoveFAR :: "'ie list"
  mod_RemoveQER :: "'ie list"
  mod_RemoveURR :: "'ie list"
  mod_RemoveBAR :: "'ie option"
  mod_RemovePDR :: "'ie list"
  mod_UpdateFAR :: "'ie list"
  mod_UpdateQER :: "'ie list"
  mod_UpdateURR :: "'ie list"
  mod_UpdateBAR :: "'ie option"
  mod_UpdatePDR :: "'ie list"
  mod_QueryURR :: "'ie list"

datatype 'ie msg_body =
    HeartbeatRequest | PFDManagementRequest | AssociationSetupRequest "'ie option"
  | AssociationUpdateRequest | AssociationReleaseRequest | NodeReportRequest | SessionSetDeletionRequest
  | SessionEstablishmentRequest "'ie est_req" | SessionModificationRequest "'ie mod_req"
  | SessionDeletionRequest | SessionReportRequest "rsp_ie list"
  | HeartbeatResponse "rsp_ie list" | PFDManagementResponse | AssociationSetupResponse "rsp_ie list"
  | AssociationUpdateResponse | AssociationReleaseResponse | NodeReportResponse | SessionSetDeletionResponse
  | SessionEstablishmentResponse "rsp_ie list" | SessionModificationResponse "rsp_ie list"
  | SessionDeletionResponse "rsp_ie list" | SessionReportResponse
  | OtherMessage

record 'ie pfcp_msg =
  msg_SEID :: u64
  msg_Seq :: u32
  msg_body :: "'ie msg_body"

definition isRequest :: "'ie pfcp_msg \<Rightarrow> bool" where
  "isRequest m \<longleftrightarrow> (case msg_body m of
     HeartbeatRequest \<Rightarrow> True | PFDManagementRequest \<Rightarrow> True | AssociationSetupRequest _ \<Rightarrow> True
   | AssociationUpdateRequest \<Rightarrow> True | AssociationReleaseRequest \<Rightarrow> True | NodeReportRequest \<Rightarrow> True
   | SessionSetDeletionRequest \<Rightarrow> True | SessionEstablishmentRequest _ \<Rightarrow> True
   | SessionModificationRequest _ \<Rightarrow> True | SessionDeletionRequest \<Rightarrow> True | SessionReportRequest _ \<Rightarrow> True
   | _ \<Rightarrow> False)"

definition isResponse :: "'ie pfcp_msg \<Rightarrow> bool" where
  "isResponse m \<longleftrightarrow> (case msg_body m of
     HeartbeatResponse _ \<Rightarrow> True | PFDManagementResponse \<Rightarrow> True | AssociationSetupResponse _ \<Rightarrow> True
   | AssociationUpdateResponse \<Rightarrow> True | AssociationReleaseResponse \<Rightarrow> True | NodeReportResponse \<Rightarrow> True
   | SessionSetDeletionResponse \<Rightarrow> True | SessionEstablishmentResponse _ \<Rightarrow> True
   | SessionModificationResponse _ \<Rightarrow> True | SessionDeletionResponse _ \<Rightarrow> True | SessionReportResponse \<Rightarrow> True
   | _ \<Rightarrow> False)"

definition setReqSeq :: "'ie pfcp_msg \<Rightarrow> u32 \<Rightarrow> 'ie pfcp_msg" where
  "setReqSeq m seq = (case msg_body m of
     HeartbeatRequest \<Rightarrow> m\<lparr>msg_Seq := seq\<rparr> | PFDManagementRequest \<Rightarrow> m\<lparr>msg_Seq := seq\<rparr>
   | AssociationSetupRequest _ \<Rightarrow> m\<lparr>msg_Seq := seq\<rparr> | AssociationUpdateRequest \<Rightarrow> m\<lparr>msg_Seq := seq\<rparr>
   | AssociationReleaseRequest \<Rightarrow> m\<lparr>msg_Seq := seq\<rparr> | NodeReportRequest \<Rightarrow> m\<lparr>msg_Seq := seq\<rparr>
   | SessionSetDeletionRequest \<Rightarrow> m\<lparr>msg_Seq := seq\<rparr> | SessionEstablishmentRequest _ \<Rightarrow> m\<lparr>msg_Seq := seq\<rparr>
   | SessionModificationRequest _ \<Rightarrow> m\<lparr>msg_Seq := seq\<rparr> | SessionDeletionRequest \<Rightarrow> m\<lparr>msg_Seq := seq\<rparr>
   | SessionReportRequest _ \<Rightarrow> m\<lparr>msg_Seq := seq\<rparr>
   | _ \<Rightarrow> m)"

record 'ie pfcp_env =
  Parse :: "bytes \<Rightarrow> 'ie pfcp_msg option"
  Marshal :: "'ie pfcp_msg \<Rightarrow> bytes option"
  WriteTo :: "bytes \<Rightarrow> string \<Rightarrow> bool"
  ie_NodeID :: "'ie \<Rightarrow> pfcp_error + string"
  ie_FSEID :: "'ie \<Rightarrow> pfcp_error + u64"
  ie_PDI :: "'ie \<Rightarrow> pfcp_error + 'ie list"
  ie_UEIPAddress :: "'ie \<Rightarrow> pfcp_error + string"
  ParseIP_is4 :: "string \<Rightarrow> bool option"
  ResolveIP4 :: "string \<Rightarrow> string option"
  ResolveUDPAddr :: "string \<Rightarrow> string option"

section \<open>Server state\<close>

record 'ie TxTransaction =
  tx_raddr :: string
  tx_seq :: u32
  tx_id :: string
  retransTimeout :: u64
  maxRetrans :: u8
  tx_req :: "'ie pfcp_msg option"
  tx_msgBuf :: bytes
  tx_timer :: bool
  retransCount :: u8

record RxTransaction =
  rx_raddr :: string
  rx_seq :: u32
  rx_id :: string
  rx_timeout :: u64
  rx_msgBuf :: bytes
  rx_timer :: bool

record ('d, 'ie) PfcpServer =
  cfg_RetransTimeout :: u64
  cfg_MaxRetrans :: u8
  nodeID :: string
  recoveryTime :: int
  dataplane :: 'd
  nodes :: Nodes
  rnodes :: "(string \<times> nat) list"
  txTrans :: "(string \<times> 'ie TxTransaction) list"
  rxTrans :: "(string \<times> RxTransaction) list"
  txSeq :: u32
  sent :: "(bytes \<times> string) list"

definition NewPfcpServer :: "u64 \<Rightarrow> u8 \<Rightarrow> string \<Rightarrow> int \<Rightarrow> 'd \<Rightarrow> ('d, 'ie) PfcpServer" where
  "NewPfcpServer timeout retrans nid now d =
     \<lparr>cfg_RetransTimeout = timeout, cfg_MaxRetrans = retrans, nodeID = nid, recoveryTime = now, dataplane = d,
      nodes = \<lparr>lnode = \<lparr>ln_sess = [], ln_free = []\<rparr>, remotes = []\<rparr>, rnodes = [], txTrans = [], rxTrans = [],
      txSeq = 0, sent = []\<rparr>"

section \<open>Identifiers of transactions\<close>

text \<open>The verb \<^verbatim>\<open>%d\<close> of an unsigned number, and the identifier \<^verbatim>\<open>fmt.Sprintf("%s-%d", addr, seq)\<close>.\<close>

fun dec :: "nat \<Rightarrow> string" where
  "dec n = (if n < 10 then [char_of (48 + n)] else dec (n div 10) @ [char_of (48 + n mod 10)])"

declare dec.simps [simp del]

definition trID :: "string \<Rightarrow> u32 \<Rightarrow> string" where
  "trID addr seq = addr @ ''-'' @ dec (unat seq)"

section \<open>Writing to the socket\<close>

definition conn_write :: "'ie pfcp_env \<Rightarrow> bytes \<Rightarrow> string \<Rightarrow> ('d, 'ie) PfcpServer \<Rightarrow> pfcp_error option \<times> ('d, 'ie) PfcpServer" where
  "conn_write env b addr srv =
     (if WriteTo env b addr then (None, srv\<lparr>sent := sent srv @ [(b, addr)]\<rparr>) else (Some WriteError, srv))"

section \<open>Request transactions\<close>

definition NewTxTransaction :: "('d, 'ie) PfcpServer \<Rightarrow> string \<Rightarrow> u32 \<Rightarrow> 'ie TxTransaction" where
  "NewTxTransaction srv raddr seq =
     \<lparr>tx_raddr = raddr, tx_seq = seq, tx_id = trID raddr seq, retransTimeout = cfg_RetransTimeout srv,
      maxRetrans = cfg_MaxRetrans srv, tx_req = None, tx_msgBuf = [], tx_timer = False, retransCount = 0\<rparr>"

text \<open>The server keeps a pointer to the transaction; a change of its fields is a change of the map.\<close>

definition put_tx :: "'ie TxTransaction \<Rightarrow> ('d, 'ie) PfcpServer \<Rightarrow> ('d, 'ie) PfcpServer" where
  "put_tx tx srv = srv\<lparr>txTrans := AList.update (tx_id tx) tx (txTrans srv)\<rparr>"

definition tx_send ::
    "'ie pfcp_env \<Rightarrow> 'ie TxTransaction \<Rightarrow> 'ie pfcp_msg \<Rightarrow> ('d, 'ie) PfcpServer \<Rightarrow> pfcp_error option \<times> ('d, 'ie) PfcpServer" where
  "tx_send env tx req srv =
     (let req = setReqSeq req (tx_seq tx)
      in (case Marshal env req of
            None \<Rightarrow> (Some MarshalError, srv)
          | Some b \<Rightarrow>
              let tx = tx\<lparr>tx_req := Some req, tx_msgBuf := b, tx_timer := True\<rparr>
              in conn_write env b (tx_raddr tx) (put_tx tx srv)))"

text \<open>The response arrived: the timer is stopped (a method call on a nil timer panics) and the
  transaction is forgotten.\<close>

definition tx_recv :: "'ie TxTransaction \<Rightarrow> ('d, 'ie) PfcpServer \<Rightarrow> (pfcp_error, 'ie pfcp_msg option \<times> ('d, 'ie) PfcpServer) outcome" where
  "tx_recv tx srv =
     (if \<not> tx_timer tx then Panic
      else Ok (tx_req tx, srv\<lparr>txTrans := AList.delete (tx_id tx) (txTrans srv)\<rparr>))"

text \<open>What happens when no response came: \<^verbatim>\<open>txtoDispacher\<close> only knows session report requests, and
  their handler only logs.\<close>

definition handleSessionReportRequestTimeout :: "('d, 'ie) PfcpServer \<Rightarrow> ('d, 'ie) PfcpServer" where
  "handleSessionReportRequestTimeout srv = srv"

definition txtoDispacher :: "'ie pfcp_msg option \<Rightarrow> ('d, 'ie) PfcpServer \<Rightarrow> pfcp_error option \<times> ('d, 'ie) PfcpServer" where
  "txtoDispacher m srv =
     (case map_option msg_body m of
        Some (SessionReportRequest _) \<Rightarrow> (None, handleSessionReportRequestTimeout srv)
      | _ \<Rightarrow> (Some UnknownMsgType, srv))"

definition tx_handleTimeout :: "'ie pfcp_env \<Rightarrow> 'ie TxTransaction \<Rightarrow> ('d, 'ie) PfcpServer \<Rightarrow> ('d, 'ie) PfcpServer" where
  "tx_handleTimeout env tx srv =
     (if retransCount tx < maxRetrans tx then
        let tx = tx\<lparr>retransCount := retransCount tx + 1\<rparr>;
            (e, srv) = conn_write env (tx_msgBuf tx) (tx_raddr tx) srv
        in put_tx (tx\<lparr>tx_timer := True\<rparr>) srv
      else snd (txtoDispacher (tx_req tx) (srv\<lparr>txTrans := AList.delete (tx_id tx) (txTrans srv)\<rparr>)))"

definition sendReqTo ::
    "'ie pfcp_env \<Rightarrow> 'ie pfcp_msg \<Rightarrow> string \<Rightarrow> ('d, 'ie) PfcpServer \<Rightarrow> pfcp_error option \<times> ('d, 'ie) PfcpServer" where
  "sendReqTo env m addr srv =
     (if \<not> isRequest m then (Some InvalidMsgType, srv)
      else let txtr = NewTxTransaction srv addr (txSeq srv);
               srv = put_tx txtr (srv\<lparr>txSeq := txSeq srv + 1\<rparr>)
           in tx_send env txtr m srv)"

section \<open>Response transactions\<close>

text \<open>The life time is computed with an 8-bit number of transmissions, which wraps.\<close>

definition NewRxTransaction :: "('d, 'ie) PfcpServer \<Rightarrow> string \<Rightarrow> u32 \<Rightarrow> RxTransaction" where
  "NewRxTransaction srv raddr seq =
     \<lparr>rx_raddr = raddr, rx_seq = seq, rx_id = trID raddr seq,
      rx_timeout = cfg_RetransTimeout srv * ucast (cfg_MaxRetrans srv + 1), rx_msgBuf = [], rx_timer = True\<rparr>"

definition put_rx :: "RxTransaction \<Rightarrow> ('d, 'ie) PfcpServer \<Rightarrow> ('d, 'ie) PfcpServer" where
  "put_rx rx srv = srv\<lparr>rxTrans := AList.update (rx_id rx) rx (rxTrans srv)\<rparr>"

definition rx_send ::
    "'ie pfcp_env \<Rightarrow> RxTransaction \<Rightarrow> 'ie pfcp_msg \<Rightarrow> ('d, 'ie) PfcpServer \<Rightarrow> pfcp_error option \<times> ('d, 'ie) PfcpServer" where
  "rx_send env rx rsp srv =
     (case Marshal env rsp of
        None \<Rightarrow> (Some MarshalError, srv)
      | Some b \<Rightarrow> conn_write env b (rx_raddr rx) (put_rx (rx\<lparr>rx_msgBuf := b\<rparr>) srv))"

text \<open>Whether the request needs to be handled; a duplicate is answered with the stored response.\<close>

definition rx_recv ::
    "'ie pfcp_env \<Rightarrow> RxTransaction \<Rightarrow> bool \<Rightarrow> ('d, 'ie) PfcpServer \<Rightarrow> bool \<times> pfcp_error option \<times> ('d, 'ie) PfcpServer" where
  "rx_recv env rx rxTrFound srv =
     (if \<not> rxTrFound then (True, None, srv)
      else if rx_msgBuf rx = [] then (False, None, srv)
      else (False, conn_write env (rx_msgBuf rx) (rx_raddr rx) srv))"

definition rx_handleTimeout :: "RxTransaction \<Rightarrow> ('d, 'ie) PfcpServer \<Rightarrow> ('d, 'ie) PfcpServer" where
  "rx_handleTimeout rx srv = srv\<lparr>rxTrans := AList.delete (rx_id rx) (rxTrans srv)\<rparr>"

definition sendRspTo ::
    "'ie pfcp_env \<Rightarrow> 'ie pfcp_msg \<Rightarrow> string \<Rightarrow> ('d, 'ie) PfcpServer \<Rightarrow> pfcp_error option \<times> ('d, 'ie) PfcpServer" where
  "sendRspTo env m addr srv =
     (if \<not> isResponse m then (Some InvalidMsgType, srv)
      else (case map_of (rxTrans srv) (trID addr (msg_Seq m)) of
              None \<Rightarrow> (Some (RxtrNotFound (trID addr (msg_Seq m))), srv)
            | Some rxtr \<Rightarrow> rx_send env rxtr m srv))"

definition stopTrTimers :: "('d, 'ie) PfcpServer \<Rightarrow> ('d, 'ie) PfcpServer" where
  "stopTrTimers srv =
     srv\<lparr>txTrans := map (\<lambda>(k, tx). (k, tx\<lparr>tx_timer := False\<rparr>)) (txTrans srv),
         rxTrans := map (\<lambda>(k, rx). (k, rx\<lparr>rx_timer := False\<rparr>)) (rxTrans srv)\<rparr>"

end
