(* ===== verification/Upf_Server.thy ===== *)
theory Upf_Server
  imports Upf_Transaction
begin

text \<open>
  The PFCP server of the UPF: the handlers of \<^verbatim>\<open>session.go\<close>, \<^verbatim>\<open>association.go\<close>, \<^verbatim>\<open>heartbeat.go\<close> and
  \<^verbatim>\<open>report.go\<close>, the dispatchers of \<^verbatim>\<open>dispacher.go\<close>, and one turn of the loop of \<^verbatim>\<open>PfcpServer.main\<close>
  (all under \<^verbatim>\<open>NFs/upf/internal/pfcp\<close>).

  A handler maps the server to \<open>Ok\<close> of the server, or to \<open>Panic\<close>; errors it only logs leave no
  trace. The three channels the loop selects from are the constructors of \<open>event\<close>: the loop takes
  whichever is ready, so statements are about every event in every state.
\<close>

type_synonym ('d, 'ie) handler = "('d, 'ie) PfcpServer \<Rightarrow> (pfcp_error, ('d, 'ie) PfcpServer) outcome"

section \<open>Sending a response\<close>

text \<open>Every handler ends by sending its response and logging the error, if any.\<close>

definition respond :: "'ie pfcp_env \<Rightarrow> u64 \<Rightarrow> u32 \<Rightarrow> 'ie msg_body \<Rightarrow> string \<Rightarrow> ('d, 'ie) PfcpServer \<Rightarrow> ('d, 'ie) PfcpServer" where
  "respond env seid seq body addr srv =
     snd (sendRspTo env \<lparr>msg_SEID = seid, msg_Seq = seq, msg_body = body\<rparr> addr srv)"

definition newIeNodeID :: "'ie pfcp_env \<Rightarrow> string \<Rightarrow> nodeid" where
  "newIeNodeID env nid =
     (case ParseIP_is4 env nid of
        Some True \<Rightarrow> NodeID_v4 nid
      | Some False \<Rightarrow> NodeID_v6 nid
      | None \<Rightarrow> NodeID_fqdn nid)"

definition handleHeartbeatRequest :: "'ie pfcp_env \<Rightarrow> u32 \<Rightarrow> string \<Rightarrow> ('d, 'ie) handler" where
  "handleHeartbeatRequest env seq addr srv =
     Ok (respond env 0 seq (HeartbeatResponse [R_RecoveryTimeStamp (recoveryTime srv)]) addr srv)"

section \<open>Associations\<close>

text \<open>A new \<^verbatim>\<open>RemoteNode\<close> is a new address of the store.\<close>

definition NewNode :: "string \<Rightarrow> string \<Rightarrow> ('d, 'ie) PfcpServer \<Rightarrow> nat \<times> ('d, 'ie) PfcpServer" where
  "NewNode i addr srv =
     (length (remotes (nodes srv)),
      srv\<lparr>nodes := (nodes srv)\<lparr>remotes := remotes (nodes srv) @ [NewRemoteNode i addr]\<rparr>\<rparr>)"

definition UpdateNodeID :: "nat \<Rightarrow> string \<Rightarrow> ('d, 'ie) PfcpServer \<Rightarrow> ('d, 'ie) PfcpServer" where
  "UpdateNodeID a newId srv =
     (let srv = srv\<lparr>rnodes := AList.delete (rn_ID (remotes (nodes srv) ! a)) (rnodes srv)\<rparr>;
          srv = srv\<lparr>nodes := set_remote a (\<lambda>r. r\<lparr>rn_ID := newId\<rparr>) (nodes srv)\<rparr>
      in srv\<lparr>rnodes := AList.update newId a (rnodes srv)\<rparr>)"

definition handleAssociationSetupRequest ::
    "'ie ie_api \<Rightarrow> ('d, 'ie) Driver \<Rightarrow> 'ie pfcp_env \<Rightarrow> 'ie option \<Rightarrow> u32 \<Rightarrow> string \<Rightarrow> ('d, 'ie) handler" where
  "handleAssociationSetupRequest api drv env NodeID seq addr srv =
     (case NodeID of
        None \<Rightarrow> Ok srv
      | Some x \<Rightarrow>
          (case ie_NodeID env x of
             Inl _ \<Rightarrow> Ok srv
           | Inr rnodeid \<Rightarrow>
               obind
                 (case map_of (rnodes srv) rnodeid of
                    None \<Rightarrow> Ok srv
                  | Some a \<Rightarrow>
                      obind (RemoteNode_Reset api drv (nodes srv) (dataplane srv) a) (\<lambda>(nd, d).
                        Ok (srv\<lparr>nodes := nd, dataplane := d, rnodes := AList.delete rnodeid (rnodes srv)\<rparr>)))
                 (\<lambda>srv.
                   let (a, srv) = NewNode rnodeid addr srv;
                       srv = srv\<lparr>rnodes := AList.update rnodeid a (rnodes srv)\<rparr>
                   in Ok (respond env 0 seq
                        (AssociationSetupResponse
                          [R_NodeID (newIeNodeID env (nodeID srv)), R_Cause CauseRequestAccepted,
                           R_RecoveryTimeStamp (recoveryTime srv)]) addr srv))))"

definition handleAssociationUpdateRequest :: "('d, 'ie) handler" where
  "handleAssociationUpdateRequest srv = Ok srv"

definition handleAssociationReleaseRequest :: "('d, 'ie) handler" where
  "handleAssociationReleaseRequest srv = Ok srv"

section \<open>Session establishment\<close>

text \<open>The first UE address in the PDIs of a PDR; an element that cannot be read ends the search.\<close>

fun pdi_address :: "'ie ie_api \<Rightarrow> 'ie pfcp_env \<Rightarrow> 'ie list \<Rightarrow> (string option) option" where
  "pdi_address api env [] = None"
| "pdi_address api env (x # xs) =
     (if kind_of api x = K_UEIPAddress
      then (case ie_UEIPAddress env x of Inl _ \<Rightarrow> Some None | Inr ip \<Rightarrow> Some (Some ip))
      else pdi_address api env xs)"

fun ue_address_loop :: "'ie ie_api \<Rightarrow> 'ie pfcp_env \<Rightarrow> 'ie list \<Rightarrow> string option" where
  "ue_address_loop api env [] = None"
| "ue_address_loop api env (i # ies) =
     (if kind_of api i = K_PDI
      then (case ie_PDI env i of
              Inl _ \<Rightarrow> None
            | Inr xs \<Rightarrow> (case pdi_address api env xs of
                          Some r \<Rightarrow> r
                        | None \<Rightarrow> ue_address_loop api env ies))
      else ue_address_loop api env ies)"

definition getUEAddressFromPDR :: "'ie ie_api \<Rightarrow> 'ie pfcp_env \<Rightarrow> 'ie \<Rightarrow> string option" where
  "getUEAddressFromPDR api env pdr =
     (case ie_CreatePDR api pdr of Inl _ \<Rightarrow> None | Inr ies \<Rightarrow> ue_address_loop api env ies)"

definition getPDRIDFromPDR :: "'ie ie_api \<Rightarrow> 'ie \<Rightarrow> u16" where
  "getPDRIDFromPDR api pdr =
     (case ie_CreatePDR api pdr of
        Inl _ \<Rightarrow> 0
      | Inr ies \<Rightarrow> (case find (\<lambda>i. kind_of api i = K_PDRID) ies of
                     None \<Rightarrow> 0
                   | Some i \<Rightarrow> (case ie_PDRID api i of Inl _ \<Rightarrow> 0 | Inr v \<Rightarrow> v)))"

definition created_pdr :: "'ie ie_api \<Rightarrow> 'ie pfcp_env \<Rightarrow> 'ie \<Rightarrow> rsp_ie list" where
  "created_pdr api env i =
     (case getUEAddressFromPDR api env i of None \<Rightarrow> [] | Some v4 \<Rightarrow> [R_CreatedPDR (getPDRIDFromPDR api i) v4])"

text \<open>The rules of an establishment request, in the order of the code, on the new session.\<close>

definition establish_rules :: "'ie ie_api \<Rightarrow> ('d, 'ie) Driver \<Rightarrow> 'ie est_req \<Rightarrow> Sess \<times> 'd \<Rightarrow> Sess \<times> 'd" where
  "establish_rules api drv req st =
     (let st = apply_each (CreateFAR api drv) (est_CreateFAR req) st;
          st = apply_each (CreateQER api drv) (est_CreateQER req) st;
          st = apply_each (CreateURR api drv) (est_CreateURR req) st;
          st = apply_each (CreateBAR api drv) (case est_CreateBAR req of None \<Rightarrow> [] | Some b \<Rightarrow> [b]) st
      in apply_each (CreatePDR api drv) (est_CreatePDR req) st)"

text \<open>The session pointer of a handler is the entry of the table: writing it back is \<open>set_sess\<close>.\<close>

definition set_sess :: "Sess \<Rightarrow> 'd \<Rightarrow> ('d, 'ie) PfcpServer \<Rightarrow> ('d, 'ie) PfcpServer" where
  "set_sess s d srv = srv\<lparr>nodes := (nodes srv)\<lparr>lnode := put_sess s (lnode (nodes srv))\<rparr>, dataplane := d\<rparr>"

definition handleSessionEstablishmentRequest ::
    "'ie ie_api \<Rightarrow> ('d, 'ie) Driver \<Rightarrow> 'ie pfcp_env \<Rightarrow> 'ie est_req \<Rightarrow> u32 \<Rightarrow> string \<Rightarrow> ('d, 'ie) handler" where
  "handleSessionEstablishmentRequest api drv env req seq addr srv =
     (case est_NodeID req of
        None \<Rightarrow> Ok srv
      | Some x \<Rightarrow>
          (case ie_NodeID env x of
             Inl _ \<Rightarrow> Ok srv
           | Inr rnodeid \<Rightarrow>
               (case map_of (rnodes srv) rnodeid of
                  None \<Rightarrow> Ok srv
                | Some a \<Rightarrow>
                    (case est_CPFSEID req of
                       None \<Rightarrow> Ok srv
                     | Some y \<Rightarrow>
                         (case ie_FSEID env y of
                            Inl _ \<Rightarrow> Ok srv
                          | Inr fseid \<Rightarrow>
                              obind (RemoteNode_NewSess (nodes srv) a fseid) (\<lambda>(sess, nd).
                                let (sess, d) = establish_rules api drv req (sess, dataplane srv);
                                    srv = set_sess sess d (srv\<lparr>nodes := nd\<rparr>);
                                    created = concat (map (created_pdr api env) (est_CreatePDR req));
                                    v4 = ResolveIP4 env (nodeID srv)
                                in Ok (respond env (RemoteID sess) seq
                                     (SessionEstablishmentResponse
                                       (created @ [R_NodeID (newIeNodeID env (nodeID srv)),
                                          R_Cause CauseRequestAccepted, R_FSEID (LocalID sess) v4])) addr srv)))))))"

section \<open>Session modification and deletion\<close>

text \<open>
  The usage reports of a response: each is numbered with \<^verbatim>\<open>URRSeq\<close>, a report of an unknown URR is
  skipped, and a URR that is marked removed is forgotten after its report. \<open>forget\<close> is false in a
  session report request, where removed URRs stay.
\<close>

fun usage_reports ::
    "(USAReport \<Rightarrow> MeasureMethod \<Rightarrow> MeasureInformation \<Rightarrow> report_ie list) \<Rightarrow> bool \<Rightarrow> USAReport list \<Rightarrow> Sess \<Rightarrow> rsp_ie list \<times> Sess" where
  "usage_reports ies forget [] s = ([], s)"
| "usage_reports ies forget (r # rs) s =
     (case map_of (URRIDs s) (usar_URRID r) of
        None \<Rightarrow> usage_reports ies forget rs s
      | Some urrInfo \<Rightarrow>
          let (seqn, s) = URRSeq s (usar_URRID r);
              r = r\<lparr>URSEQN := seqn\<rparr>;
              x = R_UsageReport (ies r (urr_Method urrInfo) (urr_Information urrInfo));
              s = (if forget \<and> removed urrInfo
                   then s\<lparr>URRIDs := AList.delete (usar_URRID r) (URRIDs s)\<rparr> else s);
              (xs, s) = usage_reports ies forget rs s
          in (x # xs, s))"

definition modify_rules ::
    "'ie ie_api \<Rightarrow> ('d, 'ie) Driver \<Rightarrow> 'ie mod_req \<Rightarrow> Sess \<times> 'd \<Rightarrow> USAReport list \<times> Sess \<times> 'd" where
  "modify_rules api drv req st =
     (let opt = (\<lambda>x. case x of None \<Rightarrow> [] | Some b \<Rightarrow> [b]);
          st = apply_each (CreateFAR api drv) (mod_CreateFAR req) st;
          st = apply_each (CreateQER api drv) (mod_CreateQER req) st;
          st = apply_each (CreateURR api drv) (mod_CreateURR req) st;
          st = apply_each (CreateBAR api drv) (opt (mod_CreateBAR req)) st;
          st = apply_each (CreatePDR api drv) (mod_CreatePDR req) st;
          st = apply_each (RemoveFAR api drv) (mod_RemoveFAR req) st;
          (s, d) = apply_each (RemoveQER api drv) (mod_RemoveQER req) st;
          (u1, s, d) = report_each (RemoveURR api drv) (mod_RemoveURR req) s d;
          (s, d) = apply_each (RemoveBAR api drv) (opt (mod_RemoveBAR req)) (s, d);
          (u2, s, d) = report_each (RemovePDR api drv) (mod_RemovePDR req) s d;
          st = apply_each (UpdateFAR api drv) (mod_UpdateFAR req) (s, d);
          (s, d) = apply_each (UpdateQER api drv) (mod_UpdateQER req) st;
          (u3, s, d) = report_each (UpdateURR api drv) (mod_UpdateURR req) s d;
          (s, d) = apply_each (UpdateBAR api drv) (opt (mod_UpdateBAR req)) (s, d);
          (u4, s, d) = report_each (UpdatePDR api drv) (mod_UpdatePDR req) s d;
          (u5, s, d) = report_each (QueryURR api drv) (mod_QueryURR req) s d
      in (u1 @ u2 @ u3 @ u4 @ u5, s, d))"

definition handleSessionModificationRequest ::
    "'ie ie_api \<Rightarrow> ('d, 'ie) Driver \<Rightarrow> 'ie pfcp_env \<Rightarrow> 'ie mod_req \<Rightarrow> u64 \<Rightarrow> u32 \<Rightarrow> string \<Rightarrow> ('d, 'ie) handler" where
  "handleSessionModificationRequest api drv env req seid seq addr srv =
     (case LocalNode_Sess (lnode (nodes srv)) seid of
        Panic \<Rightarrow> Panic
      | Err _ \<Rightarrow> Ok (respond env 0 seq (SessionModificationResponse [R_Cause CauseSessionContextNotFound]) addr srv)
      | Ok sess \<Rightarrow>
          let proceed = (\<lambda>srv.
            let (usars, sess, d) = modify_rules api drv req (sess, dataplane srv);
                (reports, sess) = usage_reports IEsWithinSessModRsp True usars sess
            in Ok (respond env (RemoteID sess) seq
                 (SessionModificationResponse (R_Cause CauseRequestAccepted # reports)) addr (set_sess sess d srv)))
          in (case mod_NodeID req of
                None \<Rightarrow> proceed srv
              | Some x \<Rightarrow>
                  (case ie_NodeID env x of
                     Inl _ \<Rightarrow> Ok srv
                   | Inr rnodeid \<Rightarrow>
                       (case sess_rnode sess of
                          None \<Rightarrow> Panic
                        | Some a \<Rightarrow> proceed (UpdateNodeID a rnodeid srv)))))"

definition handleSessionDeletionRequest ::
    "'ie ie_api \<Rightarrow> ('d, 'ie) Driver \<Rightarrow> 'ie pfcp_env \<Rightarrow> u64 \<Rightarrow> u32 \<Rightarrow> string \<Rightarrow> ('d, 'ie) handler" where
  "handleSessionDeletionRequest api drv env lSeid seq addr srv =
     (case LocalNode_Sess (lnode (nodes srv)) lSeid of
        Panic \<Rightarrow> Panic
      | Err _ \<Rightarrow> Ok (respond env 0 seq
                   (SessionDeletionResponse [R_Cause CauseSessionContextNotFound, R_ReportType [0, 0, 1, 0]]) addr srv)
      | Ok sess \<Rightarrow>
          (case sess_rnode sess of
             None \<Rightarrow> Panic
           | Some a \<Rightarrow>
               obind (RemoteNode_DeleteSess api drv (nodes srv) (dataplane srv) a lSeid) (\<lambda>(usars, closed, nd, d).
                 let sess = (case closed of None \<Rightarrow> sess | Some s \<Rightarrow> s);
                     (reports, _) = usage_reports (\<lambda>r. IEsWithinSessDelRsp (set_trigger USAR_TRIG_TERMR r)) True usars sess
                 in Ok (respond env (RemoteID sess) seq
                      (SessionDeletionResponse (R_Cause CauseRequestAccepted # reports)) addr
                      (srv\<lparr>nodes := nd, dataplane := d\<rparr>)))))"

text \<open>A response with SEID 0 says that the SMF does not know the session: it is deleted.\<close>

definition handleSessionReportResponse ::
    "'ie ie_api \<Rightarrow> ('d, 'ie) Driver \<Rightarrow> u64 \<Rightarrow> u64 \<Rightarrow> string \<Rightarrow> ('d, 'ie) handler" where
  "handleSessionReportResponse api drv rsp_seid req_seid addr srv =
     (if rsp_seid = 0 then
        (case LocalNode_RemoteSess (nodes srv) req_seid addr of
           Panic \<Rightarrow> Panic
         | Err _ \<Rightarrow> Ok srv
         | Ok sess \<Rightarrow>
             (case sess_rnode sess of
                None \<Rightarrow> Panic
              | Some a \<Rightarrow>
                  obind (RemoteNode_DeleteSess api drv (nodes srv) (dataplane srv) a (LocalID sess))
                    (\<lambda>(usars, closed, nd, d). Ok (srv\<lparr>nodes := nd, dataplane := d\<rparr>))))
      else (case LocalNode_Sess (lnode (nodes srv)) rsp_seid of Panic \<Rightarrow> Panic | _ \<Rightarrow> Ok srv))"

section \<open>Reports of the data plane\<close>

definition report_request :: "Sess \<Rightarrow> rsp_ie list \<Rightarrow> 'ie pfcp_msg" where
  "report_request sess ies = \<lparr>msg_SEID = RemoteID sess, msg_Seq = 0, msg_body = SessionReportRequest ies\<rparr>"

definition serveDLDReport :: "'ie pfcp_env \<Rightarrow> string \<Rightarrow> u64 \<Rightarrow> u16 \<Rightarrow> ('d, 'ie) handler" where
  "serveDLDReport env addr lSeid pdrid srv =
     (case LocalNode_Sess (lnode (nodes srv)) lSeid of
        Panic \<Rightarrow> Panic
      | Err _ \<Rightarrow> Ok srv
      | Ok sess \<Rightarrow>
          Ok (snd (sendReqTo env (report_request sess [R_ReportType [0, 0, 0, 1], R_DownlinkDataReport pdrid]) addr srv)))"

definition serveUSAReport :: "'ie pfcp_env \<Rightarrow> string \<Rightarrow> u64 \<Rightarrow> USAReport list \<Rightarrow> ('d, 'ie) handler" where
  "serveUSAReport env addr lSeid usars srv =
     (case LocalNode_Sess (lnode (nodes srv)) lSeid of
        Panic \<Rightarrow> Panic
      | Err _ \<Rightarrow> Ok srv
      | Ok sess \<Rightarrow>
          let (reports, sess') = usage_reports IEsWithinSessReportReq False usars sess;
              srv = set_sess sess' (dataplane srv) srv
          in Ok (snd (sendReqTo env (report_request sess' (R_ReportType [0, 0, 1, 0] # reports)) addr srv)))"

text \<open>The loop over the reports: \<open>None\<close> is the \<^verbatim>\<open>return\<close> on a downlink report that asks for no
  notification, otherwise the usage reports collected so far go on to the end of the loop.\<close>

fun report_loop ::
    "'ie pfcp_env \<Rightarrow> string \<Rightarrow> u64 \<Rightarrow> Report list \<Rightarrow> USAReport list \<Rightarrow> ('d, 'ie) PfcpServer
      \<Rightarrow> (pfcp_error, USAReport list option \<times> ('d, 'ie) PfcpServer) outcome" where
  "report_loop env laddr seid [] usars srv = Ok (Some usars, srv)"
| "report_loop env laddr seid (USAReport_r r # rs) usars srv = report_loop env laddr seid rs (usars @ [r]) srv"
| "report_loop env laddr seid (DLDReport pdrid action pkt # rs) usars srv =
     obind
       (if action AND APPLY_ACT_BUFF \<noteq> 0 \<and> pkt \<noteq> []
        then (case LocalNode_Sess (lnode (nodes srv)) seid of
                Ok sess \<Rightarrow> obind (Sess_Push sess pdrid pkt) (\<lambda>sess. Ok (set_sess sess (dataplane srv) srv))
              | _ \<Rightarrow> Panic)
        else Ok srv)
       (\<lambda>srv.
         if action AND APPLY_ACT_NOCP = 0 then Ok (None, srv)
         else obind (serveDLDReport env laddr seid pdrid srv) (report_loop env laddr seid rs usars))"

definition ServeReport :: "'ie pfcp_env \<Rightarrow> SessReport \<Rightarrow> ('d, 'ie) handler" where
  "ServeReport env sr srv =
     (case LocalNode_Sess (lnode (nodes srv)) (sr_SEID sr) of
        Panic \<Rightarrow> Panic
      | Err _ \<Rightarrow> Ok srv
      | Ok sess \<Rightarrow>
          (case sess_rnode sess of
             None \<Rightarrow> Panic
           | Some a \<Rightarrow>
               (case ResolveUDPAddr env (rn_ID (remotes (nodes srv) ! a) @ '':'' @ dec 8805) of
                  None \<Rightarrow> Ok srv
                | Some laddr \<Rightarrow>
                    obind (report_loop env laddr (sr_SEID sr) (sr_Reports sr) [] srv) (\<lambda>(usars, srv).
                      case usars of
                        None \<Rightarrow> Ok srv
                      | Some us \<Rightarrow> if us = [] then Ok srv else serveUSAReport env laddr (sr_SEID sr) us srv))))"

definition PopBufPkt :: "u64 \<Rightarrow> u16 \<Rightarrow> ('d, 'ie) PfcpServer \<Rightarrow> (pfcp_error, (bytes \<times> bool) \<times> ('d, 'ie) PfcpServer) outcome" where
  "PopBufPkt seid pdrid srv =
     (case LocalNode_Sess (lnode (nodes srv)) seid of
        Panic \<Rightarrow> Panic
      | Err _ \<Rightarrow> Ok (([], False), srv)
      | Ok sess \<Rightarrow> let (r, sess) = Sess_Pop sess pdrid in Ok (r, set_sess sess (dataplane srv) srv))"

section \<open>Dispatch and the server loop\<close>

definition reqDispacher ::
    "'ie ie_api \<Rightarrow> ('d, 'ie) Driver \<Rightarrow> 'ie pfcp_env \<Rightarrow> 'ie pfcp_msg \<Rightarrow> string \<Rightarrow> ('d, 'ie) handler" where
  "reqDispacher api drv env m addr srv =
     (case msg_body m of
        HeartbeatRequest \<Rightarrow> handleHeartbeatRequest env (msg_Seq m) addr srv
      | AssociationSetupRequest nid \<Rightarrow> handleAssociationSetupRequest api drv env nid (msg_Seq m) addr srv
      | AssociationUpdateRequest \<Rightarrow> handleAssociationUpdateRequest srv
      | AssociationReleaseRequest \<Rightarrow> handleAssociationReleaseRequest srv
      | SessionEstablishmentRequest req \<Rightarrow> handleSessionEstablishmentRequest api drv env req (msg_Seq m) addr srv
      | SessionModificationRequest req \<Rightarrow> handleSessionModificationRequest api drv env req (msg_SEID m) (msg_Seq m) addr srv
      | SessionDeletionRequest \<Rightarrow> handleSessionDeletionRequest api drv env (msg_SEID m) (msg_Seq m) addr srv
      | _ \<Rightarrow> Err UnknownMsgType)"

definition rspDispacher ::
    "'ie ie_api \<Rightarrow> ('d, 'ie) Driver \<Rightarrow> 'ie pfcp_msg \<Rightarrow> string \<Rightarrow> 'ie pfcp_msg option \<Rightarrow> ('d, 'ie) handler" where
  "rspDispacher api drv m addr req srv =
     (case msg_body m of
        SessionReportResponse \<Rightarrow>
          (case req of
             None \<Rightarrow> (if msg_SEID m = 0 then Panic else handleSessionReportResponse api drv (msg_SEID m) 0 addr srv)
           | Some q \<Rightarrow> handleSessionReportResponse api drv (msg_SEID m) (msg_SEID q) addr srv)
      | _ \<Rightarrow> Err UnknownMsgType)"

text \<open>An error of a dispatcher is logged; the message had no effect.\<close>

definition logged :: "('d, 'ie) PfcpServer \<Rightarrow> (pfcp_error, ('d, 'ie) PfcpServer) outcome \<Rightarrow> (pfcp_error, ('d, 'ie) PfcpServer) outcome" where
  "logged srv r = (case r of Ok s \<Rightarrow> Ok s | Err _ \<Rightarrow> Ok srv | Panic \<Rightarrow> Panic)"

definition serve_request ::
    "'ie ie_api \<Rightarrow> ('d, 'ie) Driver \<Rightarrow> 'ie pfcp_env \<Rightarrow> 'ie pfcp_msg \<Rightarrow> string \<Rightarrow> ('d, 'ie) handler" where
  "serve_request api drv env m addr srv =
     (let i = trID addr (msg_Seq m);
          found = (map_of (rxTrans srv) i \<noteq> None);
          rx = (case map_of (rxTrans srv) i of Some rx \<Rightarrow> rx | None \<Rightarrow> NewRxTransaction srv addr (msg_Seq m));
          srv = (if found then srv else srv\<lparr>rxTrans := AList.update i rx (rxTrans srv)\<rparr>);
          (needDispatch, err, srv) = rx_recv env rx found srv
      in if err \<noteq> None \<or> \<not> needDispatch then Ok srv
         else logged srv (reqDispacher api drv env m addr srv))"

definition serve_response ::
    "'ie ie_api \<Rightarrow> ('d, 'ie) Driver \<Rightarrow> 'ie pfcp_msg \<Rightarrow> string \<Rightarrow> ('d, 'ie) handler" where
  "serve_response api drv m addr srv =
     (case map_of (txTrans srv) (trID addr (msg_Seq m)) of
        None \<Rightarrow> Ok srv
      | Some tx \<Rightarrow> obind (tx_recv tx srv) (\<lambda>(req, srv). logged srv (rspDispacher api drv m addr req srv)))"

datatype event = Report_event SessReport | Packet string bytes | TxTimeout string | RxTimeout string

text \<open>One turn of the loop; the flag says whether the loop goes on. An empty packet is how the
  receiver announces that the socket is closed: the loop ends and the timers are stopped.\<close>

definition main_step ::
    "'ie ie_api \<Rightarrow> ('d, 'ie) Driver \<Rightarrow> 'ie pfcp_env \<Rightarrow> event \<Rightarrow> ('d, 'ie) PfcpServer
      \<Rightarrow> (pfcp_error, bool \<times> ('d, 'ie) PfcpServer) outcome" where
  "main_step api drv env ev srv =
     (case ev of
        Report_event sr \<Rightarrow> obind (ServeReport env sr srv) (\<lambda>srv. Ok (True, srv))
      | Packet addr buf \<Rightarrow>
          if buf = [] then Ok (False, stopTrTimers srv)
          else (case Parse env buf of
                  None \<Rightarrow> Ok (True, srv)
                | Some m \<Rightarrow>
                    if isRequest m then obind (serve_request api drv env m addr srv) (\<lambda>srv. Ok (True, srv))
                    else if isResponse m then obind (serve_response api drv m addr srv) (\<lambda>srv. Ok (True, srv))
                    else Ok (True, srv))
      | TxTimeout i \<Rightarrow>
          (case map_of (txTrans srv) i of
             None \<Rightarrow> Ok (True, srv)
           | Some tx \<Rightarrow> Ok (True, tx_handleTimeout env tx srv))
      | RxTimeout i \<Rightarrow>
          (case map_of (rxTrans srv) i of
             None \<Rightarrow> Ok (True, srv)
           | Some rx \<Rightarrow> Ok (True, rx_handleTimeout rx srv)))"

text \<open>The histories of a server: sequences of events from its start, counted, as long as none
  panics and the loop has not ended.\<close>

inductive reachable ::
    "'ie ie_api \<Rightarrow> ('d, 'ie) Driver \<Rightarrow> 'ie pfcp_env \<Rightarrow> nat \<Rightarrow> ('d, 'ie) PfcpServer \<Rightarrow> bool"
  for api drv env where
  start: "reachable api drv env 0 (NewPfcpServer timeout retrans nid now d)"
| turn: "reachable api drv env k srv \<Longrightarrow> main_step api drv env ev srv = Ok (True, srv') \<Longrightarrow>
    reachable api drv env (Suc k) srv'"

end
