(* ===== verification/Upf_Server_Inv.thy ===== *)
theory Upf_Server_Inv
  imports Upf_Server
begin

text \<open>
  The invariant of the PFCP server and what it gives: identifiers of transactions are unique, every
  handler keeps sessions, nodes and transactions in order, and a turn of the loop panics only in
  the ways that are listed. The handlers are those of \<^verbatim>\<open>Upf_Server\<close>.
\<close>

section \<open>Identifiers of transactions are unique\<close>

fun undec :: "string \<Rightarrow> nat" where
  "undec [] = 0"
| "undec (c # cs) = undec cs + (of_char c - 48) * 10 ^ length cs"

lemma undec_snoc: "undec (cs @ [c]) = 10 * undec cs + (of_char c - 48)"
  by (induction cs) (auto simp: algebra_simps)

lemma digit_char: "n < 10 \<Longrightarrow> of_char (char_of (48 + n) :: char) = (48 + n :: nat)"
  by simp

lemma undec_dec: "undec (dec n) = n"
proof (induction n rule: dec.induct)
  case (1 n)
  then show ?case
  proof (cases "n < 10")
    case False
    then show ?thesis using 1 by (subst dec.simps) (simp add: undec_snoc)
  qed (subst dec.simps, simp)
qed

lemma no_dash: "char_of (48 + n) \<noteq> CHR ''-''" if "n < 10" for n :: nat
proof
  assume "char_of (48 + n) = CHR ''-''"
  then have "of_char (char_of (48 + n) :: char) = (of_char CHR ''-'' :: nat)" by simp
  with that show False by simp
qed

lemma dec_no_dash: "CHR ''-'' \<notin> set (dec n)"
proof (induction n rule: dec.induct)
  case (1 n)
  show ?case using 1 no_dash [of "n mod 10"] no_dash [of n] by (subst dec.simps) auto
qed

lemma split_at_last: "x \<notin> set bs \<Longrightarrow> x \<notin> set ds \<Longrightarrow> as @ x # bs = cs @ x # ds \<longleftrightarrow> as = cs \<and> bs = ds"
  by (induction as cs rule: list_induct2') (auto simp: Cons_eq_append_conv append_eq_Cons_conv)

lemma trID_inject [simp]: "trID a s = trID b t \<longleftrightarrow> a = b \<and> s = t"
proof -
  have "dec (unat s) = dec (unat t) \<longleftrightarrow> s = t" by (metis undec_dec word_unat_eq_iff)
  then show ?thesis by (simp add: trID_def split_at_last dec_no_dash)
qed

section \<open>What sending leaves alone\<close>

lemma sendRspTo_frame:
  assumes "sendRspTo env m addr srv = (e, srv')"
  shows "nodes srv' = nodes srv" "rnodes srv' = rnodes srv" "dataplane srv' = dataplane srv" "txTrans srv' = txTrans srv"
    "txSeq srv' = txSeq srv" "nodeID srv' = nodeID srv" "recoveryTime srv' = recoveryTime srv"
    "cfg_RetransTimeout srv' = cfg_RetransTimeout srv" "cfg_MaxRetrans srv' = cfg_MaxRetrans srv"
  using assms
  by (auto simp: sendRspTo_def rx_send_def conn_write_def put_rx_def split: if_splits option.splits)

lemma respond_frame [simp]:
  "nodes (respond env seid seq body addr srv) = nodes srv" "rnodes (respond env seid seq body addr srv) = rnodes srv"
  "dataplane (respond env seid seq body addr srv) = dataplane srv" "txTrans (respond env seid seq body addr srv) = txTrans srv"
  "txSeq (respond env seid seq body addr srv) = txSeq srv"
  unfolding respond_def
  by (metis prod.collapse sendRspTo_frame(1), metis prod.collapse sendRspTo_frame(2), metis prod.collapse sendRspTo_frame(3),
      metis prod.collapse sendRspTo_frame(4), metis prod.collapse sendRspTo_frame(5))

text \<open>A response is written to the transaction it answers, to the address of the request.\<close>

definition rx_ok :: "(string \<times> RxTransaction) list \<Rightarrow> bool" where
  "rx_ok rxs \<longleftrightarrow> distinct (map fst rxs) \<and>
     (\<forall>(k, rx) \<in> set rxs. k = trID (rx_raddr rx) (rx_seq rx) \<and> rx_id rx = k \<and> rx_timer rx)"

definition tx_ok :: "(string \<times> 'ie TxTransaction) list \<Rightarrow> bool" where
  "tx_ok txs \<longleftrightarrow> distinct (map fst txs) \<and>
     (\<forall>(k, tx) \<in> set txs. k = trID (tx_raddr tx) (tx_seq tx) \<and> tx_id tx = k)"

lemma rx_ok_update: "rx_ok rxs \<Longrightarrow> rx_id rx = trID (rx_raddr rx) (rx_seq rx) \<Longrightarrow> rx_timer rx \<Longrightarrow> rx_ok (AList.update (rx_id rx) rx rxs)"
  using set_update_subset [of "rx_id rx" rx rxs] by (fastforce simp: rx_ok_def distinct_update)

lemma tx_ok_update: "tx_ok txs \<Longrightarrow> tx_id tx = trID (tx_raddr tx) (tx_seq tx) \<Longrightarrow> tx_ok (AList.update (tx_id tx) tx txs)"
  using set_update_subset [of "tx_id tx" tx txs] by (fastforce simp: tx_ok_def distinct_update)

lemma respond_rx:
  assumes "rx_ok (rxTrans srv)"
  shows "rx_ok (rxTrans (respond env seid seq body addr srv))"
    and "i \<noteq> trID addr seq \<Longrightarrow> map_of (rxTrans (respond env seid seq body addr srv)) i = map_of (rxTrans srv) i"
    and "map_of (rxTrans srv) (trID addr seq) = Some rx \<Longrightarrow>
      \<exists>b. map_of (rxTrans (respond env seid seq body addr srv)) (trID addr seq) = Some (rx\<lparr>rx_msgBuf := b\<rparr>) \<and>
        (sent (respond env seid seq body addr srv) = sent srv \<or>
         sent (respond env seid seq body addr srv) = sent srv @ [(b, addr)])"
proof -
  have ent: "rx_id rx = trID (rx_raddr rx) (rx_seq rx)" "rx_raddr rx = addr" "rx_seq rx = seq" "rx_timer rx"
    if "map_of (rxTrans srv) (trID addr seq) = Some rx" for rx
    using map_of_SomeD [OF that] assms by (auto simp: rx_ok_def)
  have same: "\<exists>b. r = r\<lparr>rx_msgBuf := b\<rparr>" for r :: RxTransaction by (rule exI [of _ "rx_msgBuf r"]) simp
  note defs = respond_def sendRspTo_def rx_send_def conn_write_def put_rx_def
  show "rx_ok (rxTrans (respond env seid seq body addr srv))"
  proof (cases "map_of (rxTrans srv) (trID addr seq)")
    case (Some rx)
    have "rx_ok (AList.update (rx_id rx) (rx\<lparr>rx_msgBuf := b\<rparr>) (rxTrans srv))" for b
      using rx_ok_update [OF assms, of "rx\<lparr>rx_msgBuf := b\<rparr>"] ent [OF Some] by simp
    with Some assms show ?thesis by (simp add: defs split: option.split)
  qed (simp add: defs assms)
  show "i \<noteq> trID addr seq \<Longrightarrow> map_of (rxTrans (respond env seid seq body addr srv)) i = map_of (rxTrans srv) i"
    by (cases "map_of (rxTrans srv) (trID addr seq)") (use ent in \<open>simp_all add: defs update_conv' split: option.split\<close>)
  show "map_of (rxTrans srv) (trID addr seq) = Some rx \<Longrightarrow>
      \<exists>b. map_of (rxTrans (respond env seid seq body addr srv)) (trID addr seq) = Some (rx\<lparr>rx_msgBuf := b\<rparr>) \<and>
        (sent (respond env seid seq body addr srv) = sent srv \<or>
         sent (respond env seid seq body addr srv) = sent srv @ [(b, addr)])"
    using ent [of rx] same by (auto simp: defs update_conv' split: option.splits)
qed

section \<open>The invariant of the server\<close>

definition rnodes_ok :: "(string \<times> nat) list \<Rightarrow> RemoteNode list \<Rightarrow> bool" where
  "rnodes_ok rn rs \<longleftrightarrow> distinct (map fst rn) \<and> (\<forall>(i, a) \<in> set rn. a < length rs \<and> rn_ID (rs ! a) = i)"

definition srv_ok :: "('d, 'ie) PfcpServer \<Rightarrow> bool" where
  "srv_ok srv \<longleftrightarrow> nodes_ok (nodes srv) \<and> rnodes_ok (rnodes srv) (remotes (nodes srv)) \<and>
     rx_ok (rxTrans srv) \<and> tx_ok (txTrans srv)"

lemma rnodes_okD: "rnodes_ok rn rs \<Longrightarrow> map_of rn i = Some a \<Longrightarrow> a < length rs \<and> rn_ID (rs ! a) = i"
  by (auto simp: rnodes_ok_def dest!: map_of_SomeD)

lemma rnodes_ok_ids:
  assumes "rnodes_ok rn rs" and "map rn_ID rs' = map rn_ID rs"
  shows "rnodes_ok rn rs'"
proof -
  have "length rs' = length rs" using assms(2) by (metis length_map)
  moreover have "rn_ID (rs' ! a) = rn_ID (rs ! a)" if "a < length rs" for a
    using that assms(2) \<open>length rs' = length rs\<close> by (metis nth_map)
  ultimately show ?thesis using assms(1) by (fastforce simp: rnodes_ok_def)
qed

lemma rnodes_ok_delete: "rnodes_ok rn rs \<Longrightarrow> rnodes_ok (AList.delete i rn) rs"
  using distinct_delete [of rn i] by (auto simp: rnodes_ok_def AList.delete_eq)

lemma rnodes_ok_new: "rnodes_ok rn rs \<Longrightarrow> rnodes_ok (AList.update i (length rs) rn) (rs @ [NewRemoteNode i addr])"
  using set_update_subset [of i "length rs" rn]
  by (fastforce simp: rnodes_ok_def distinct_update NewRemoteNode_def nth_append)

lemma nodes_ok_new: "nodes_ok nd \<Longrightarrow> nodes_ok (nd\<lparr>remotes := remotes nd @ [NewRemoteNode i addr]\<rparr>)"
  by (force simp: nodes_ok_def nth_append less_Suc_eq NewRemoteNode_def)

lemma nodes_ok_id: "nodes_ok nd \<Longrightarrow> a < length (remotes nd) \<Longrightarrow> nodes_ok (set_remote a (\<lambda>r. r\<lparr>rn_ID := i\<rparr>) nd)"
  by (auto simp: nodes_ok_def)

lemma rnodes_ok_takeover:
  assumes ok: "rnodes_ok rn rs" and a: "a < length rs"
  shows "rnodes_ok (AList.update i a (AList.delete (rn_ID (rs ! a)) rn)) (rs[a := (rs ! a)\<lparr>rn_ID := i\<rparr>])"
proof -
  let ?rn = "AList.delete (rn_ID (rs ! a)) rn"
  have dist: "distinct (map fst (AList.update i a ?rn))"
    using ok by (simp add: rnodes_ok_def distinct_update distinct_delete)
  have "b < length rs \<and> rn_ID (rs[a := (rs ! a)\<lparr>rn_ID := i\<rparr>] ! b) = j" if "(j, b) \<in> set (AList.update i a ?rn)" for j b
  proof (cases "j = i")
    case True
    have "map_of (AList.update i a ?rn) i = Some b" using that True dist by (simp add: map_of_eq_Some_iff)
    then show ?thesis using True a by (simp add: update_conv')
  next
    case False
    with that have "(j, b) \<in> set ?rn" using set_update_subset [of i a ?rn] by auto
    then have "(j, b) \<in> set rn" "j \<noteq> rn_ID (rs ! a)" by (auto simp: AList.delete_eq)
    with ok have "b < length rs" "rn_ID (rs ! b) = j" by (auto simp: rnodes_ok_def)
    moreover from this \<open>j \<noteq> rn_ID (rs ! a)\<close> have "b \<noteq> a" by auto
    ultimately show ?thesis by simp
  qed
  with dist show ?thesis by (auto simp: rnodes_ok_def)
qed

lemma UpdateNodeID_ok: "srv_ok srv \<Longrightarrow> a < length (remotes (nodes srv)) \<Longrightarrow> srv_ok (UpdateNodeID a i srv)"
  using rnodes_ok_takeover [of "rnodes srv" "remotes (nodes srv)" a i] nodes_ok_id [of "nodes srv" a i]
  by (simp add: srv_ok_def UpdateNodeID_def Let_def) (simp add: set_remote_def)

text \<open>Writing back a session that keeps its identity.\<close>

lemma nodes_ok_set_sess:
  assumes ok: "nodes_ok nd" and at: "sess_at (lnode nd) i = Some s0" and keep: "keeps s0 s"
  shows "nodes_ok (nd\<lparr>lnode := put_sess s (lnode nd)\<rparr>)"
    and "sess_at (put_sess s (lnode nd)) = (sess_at (lnode nd))(i \<mapsto> s)"
proof -
  have lok: "lnode_ok (lnode nd)" using ok by (simp add: nodes_ok_def)
  then have s0: "LocalID s0 = i" "sess_wf s0" "live s0" using at by (auto simp: lnode_ok_def)
  then have s: "LocalID s = i" "sess_wf s" "live s" "sess_rnode s = sess_rnode s0"
    using keep by (auto simp: keeps_def same_id_def)
  note put = lnode_ok_put [OF lok, of s s0, unfolded s(1), OF at s(2,3)]
  then show "sess_at (put_sess s (lnode nd)) = (sess_at (lnode nd))(i \<mapsto> s)" by simp
  with put(1) ok at s(4) show "nodes_ok (nd\<lparr>lnode := put_sess s (lnode nd)\<rparr>)"
    by (auto simp: nodes_ok_def)
qed

lemma apply_each_rules_keep:
  "apply_each (CreateFAR api drv) xs st = st' \<Longrightarrow> keeps (fst st) (fst st')"
  "apply_each (UpdateFAR api drv) xs st = st' \<Longrightarrow> keeps (fst st) (fst st')"
  "apply_each (RemoveFAR api drv) xs st = st' \<Longrightarrow> keeps (fst st) (fst st')"
  "apply_each (CreateQER api drv) xs st = st' \<Longrightarrow> keeps (fst st) (fst st')"
  "apply_each (UpdateQER api drv) xs st = st' \<Longrightarrow> keeps (fst st) (fst st')"
  "apply_each (RemoveQER api drv) xs st = st' \<Longrightarrow> keeps (fst st) (fst st')"
  "apply_each (CreateBAR api drv) xs st = st' \<Longrightarrow> keeps (fst st) (fst st')"
  "apply_each (UpdateBAR api drv) xs st = st' \<Longrightarrow> keeps (fst st) (fst st')"
  "apply_each (RemoveBAR api drv) xs st = st' \<Longrightarrow> keeps (fst st) (fst st')"
  "apply_each (CreateURR api drv) xs st = st' \<Longrightarrow> keeps (fst st) (fst st')"
  "apply_each (CreatePDR api drv) xs st = st' \<Longrightarrow> keeps (fst st) (fst st')"
  by (cases st; cases st'; simp, erule apply_each_keeps [rotated],
      (erule rule_ops_keep | erule urr_ops_keep | erule pdr_ops_keep))+

lemma report_each_rules_keep:
  "report_each (RemoveURR api drv) xs s d = (us, s', d') \<Longrightarrow> keeps s s'"
  "report_each (UpdateURR api drv) xs s d = (us, s', d') \<Longrightarrow> keeps s s'"
  "report_each (QueryURR api drv) xs s d = (us, s', d') \<Longrightarrow> keeps s s'"
  "report_each (RemovePDR api drv) xs s d = (us, s', d') \<Longrightarrow> keeps s s'"
  "report_each (UpdatePDR api drv) xs s d = (us, s', d') \<Longrightarrow> keeps s s'"
  by (erule report_each_keeps [rotated], (erule urr_ops_keep | erule pdr_ops_keep))+

lemma establish_rules_keeps: "keeps (fst st) (fst (establish_rules api drv req st))"
  unfolding establish_rules_def Let_def
  by (rule keeps_trans [OF keeps_trans [OF keeps_trans [OF keeps_trans
        [OF apply_each_rules_keep(1) [OF refl] apply_each_rules_keep(4) [OF refl]] apply_each_rules_keep(10) [OF refl]]
        apply_each_rules_keep(7) [OF refl]] apply_each_rules_keep(11) [OF refl]])

lemma usage_reports_keeps: "usage_reports ies f rs s = (xs, s') \<Longrightarrow> keeps s s'"
proof (induction rs arbitrary: s xs)
  case (Cons r rs)
  show ?case
  proof (cases "map_of (URRIDs s) (usar_URRID r)")
    case None
    with Cons show ?thesis by simp
  next
    case (Some info)
    obtain n s1 where seq: "URRSeq s (usar_URRID r) = (n, s1)" by (metis prod.exhaust)
    define s2 where "s2 = (if f \<and> removed info then s1\<lparr>URRIDs := AList.delete (usar_URRID r) (URRIDs s1)\<rparr> else s1)"
    obtain ys where rest: "usage_reports ies f rs s2 = (ys, s')"
      using Cons.prems Some seq by (cases "f \<and> removed info") (auto simp: s2_def Let_def split: prod.splits)
    have "keeps s s1" by (rule queue_ops_keep(3) [OF seq])
    also have "keeps s1 s2" by (simp add: s2_def keeps_URRIDs distinct_delete)
    also have "keeps s2 s'" by (rule Cons.IH [OF rest])
    finally show ?thesis .
  qed
qed simp

lemma keeps_applyI:
  "keeps s (fst st) \<Longrightarrow> keeps s (fst (apply_each (CreateFAR api drv) xs st))"
  "keeps s (fst st) \<Longrightarrow> keeps s (fst (apply_each (RemoveFAR api drv) xs st))"
  "keeps s (fst st) \<Longrightarrow> keeps s (fst (apply_each (CreateQER api drv) xs st))"
  "keeps s (fst st) \<Longrightarrow> keeps s (fst (apply_each (CreateBAR api drv) xs st))"
  "keeps s (fst st) \<Longrightarrow> keeps s (fst (apply_each (CreateURR api drv) xs st))"
  "keeps s (fst st) \<Longrightarrow> keeps s (fst (apply_each (CreatePDR api drv) xs st))"
  by (erule keeps_trans, rule apply_each_rules_keep, rule refl)+

lemma modify_rules_keeps:
  assumes "modify_rules api drv req (s, d) = (us, s', d')"
  shows "keeps s s'"
proof -
  let ?opt = "\<lambda>x. case x of None \<Rightarrow> [] | Some b \<Rightarrow> [b]"
  define st where "st = apply_each (RemoveFAR api drv) (mod_RemoveFAR req)
     (apply_each (CreatePDR api drv) (mod_CreatePDR req) (apply_each (CreateBAR api drv) (?opt (mod_CreateBAR req))
     (apply_each (CreateURR api drv) (mod_CreateURR req) (apply_each (CreateQER api drv) (mod_CreateQER req)
     (apply_each (CreateFAR api drv) (mod_CreateFAR req) (s, d))))))"
  obtain s1 d1 where 1: "apply_each (RemoveQER api drv) (mod_RemoveQER req) st = (s1, d1)" by (metis prod.exhaust)
  obtain u1 s2 d2 where 2: "report_each (RemoveURR api drv) (mod_RemoveURR req) s1 d1 = (u1, s2, d2)" by (metis prod_cases3)
  obtain s3 d3 where 3: "apply_each (RemoveBAR api drv) (?opt (mod_RemoveBAR req)) (s2, d2) = (s3, d3)" by (metis prod.exhaust)
  obtain u2 s4 d4 where 4: "report_each (RemovePDR api drv) (mod_RemovePDR req) s3 d3 = (u2, s4, d4)" by (metis prod_cases3)
  obtain s5 d5 where 5: "apply_each (UpdateFAR api drv) (mod_UpdateFAR req) (s4, d4) = (s5, d5)" by (metis prod.exhaust)
  obtain s6 d6 where 6: "apply_each (UpdateQER api drv) (mod_UpdateQER req) (s5, d5) = (s6, d6)" by (metis prod.exhaust)
  obtain u3 s7 d7 where 7: "report_each (UpdateURR api drv) (mod_UpdateURR req) s6 d6 = (u3, s7, d7)" by (metis prod_cases3)
  obtain s8 d8 where 8: "apply_each (UpdateBAR api drv) (?opt (mod_UpdateBAR req)) (s7, d7) = (s8, d8)" by (metis prod.exhaust)
  obtain u4 s9 d9 where 9: "report_each (UpdatePDR api drv) (mod_UpdatePDR req) s8 d8 = (u4, s9, d9)" by (metis prod_cases3)
  obtain u5 s10 d10 where 10: "report_each (QueryURR api drv) (mod_QueryURR req) s9 d9 = (u5, s10, d10)" by (metis prod_cases3)
  have "s' = s10"
    using assms unfolding modify_rules_def Let_def st_def [symmetric] by (simp add: 1 2 3 4 5 6 7 8 9 10)
  have "keeps s (fst st)" unfolding st_def by (intro keeps_applyI) simp
  also have "keeps (fst st) s1" using apply_each_rules_keep(6) [OF 1] by simp
  also note report_each_rules_keep(1) [OF 2]
  also have "keeps s2 s3" using apply_each_rules_keep(9) [OF 3] by simp
  also note report_each_rules_keep(4) [OF 4]
  also have "keeps s4 s5" using apply_each_rules_keep(2) [OF 5] by simp
  also have "keeps s5 s6" using apply_each_rules_keep(5) [OF 6] by simp
  also note report_each_rules_keep(2) [OF 7]
  also have "keeps s7 s8" using apply_each_rules_keep(8) [OF 8] by simp
  also note report_each_rules_keep(5) [OF 9]
  also note report_each_rules_keep(3) [OF 10]
  finally show ?thesis using \<open>s' = s10\<close> by simp
qed

section \<open>Every handler keeps the invariant\<close>

definition srv_len :: "('d, 'ie) PfcpServer \<Rightarrow> nat" where
  "srv_len srv = length (ln_sess (lnode (nodes srv)))"

text \<open>What a handler does to a well-formed server with room for one more session: it returns a
  well-formed server whose table has grown by at most one entry, or panics.\<close>

definition good :: "('d, 'ie) PfcpServer \<Rightarrow> (pfcp_error, ('d, 'ie) PfcpServer) outcome \<Rightarrow> bool" where
  "good srv r \<longleftrightarrow> (\<forall>srv'. r = Ok srv' \<longrightarrow> srv_ok srv' \<and> srv_len srv' \<le> srv_len srv + 1)"

lemma respond_ok [simp]:
  "srv_ok srv \<Longrightarrow> srv_ok (respond env seid seq body addr srv)" "srv_len (respond env seid seq body addr srv) = srv_len srv"
  by (simp_all add: srv_ok_def respond_rx(1) srv_len_def)

lemma set_sess_ok:
  assumes "srv_ok srv" and "LocalNode_Sess (lnode (nodes srv)) i = Ok s0" and "keeps s0 s"
  shows "srv_ok (set_sess s d srv)" and "srv_len (set_sess s d srv) = srv_len srv"
proof -
  have "sess_at (lnode (nodes srv)) i = Some s0" using assms(2) by (auto simp: Sess_spec split: if_splits option.splits)
  with assms(1,3) show "srv_ok (set_sess s d srv)"
    using nodes_ok_set_sess(1) [of "nodes srv" i s0 s] by (simp add: srv_ok_def set_sess_def)
  show "srv_len (set_sess s d srv) = srv_len srv" by (simp add: srv_len_def set_sess_def put_sess_def)
qed

lemma Sess_rnode:
  assumes "nodes_ok nd" and "LocalNode_Sess (lnode nd) i = Ok s"
  shows "\<exists>a < length (remotes nd). sess_rnode s = Some a \<and> i \<in> set (rn_sess (remotes nd ! a)) \<and> LocalID s = i"
proof -
  have at: "sess_at (lnode nd) i = Some s" using assms(2) by (auto simp: Sess_spec split: if_splits option.splits)
  with assms(1) obtain a where "a < length (remotes nd)" "sess_rnode s = Some a" unfolding nodes_ok_def by blast
  with assms(1) at show ?thesis by (auto simp: nodes_ok_def lnode_ok_def)
qed

text \<open>The sizes of the table.\<close>

lemma NewSess_len: "RemoteNode_NewSess nd a r = Ok (s, nd') \<Longrightarrow> length (ln_sess (lnode nd')) \<le> length (ln_sess (lnode nd)) + 1"
  by (auto simp: RemoteNode_NewSess_def LocalNode_NewSess_def set_remote_def put_sess_def Let_def go_simps split: if_splits)

lemma DeleteSess_len:
  "RemoteNode_DeleteSess api drv nd d a i = Ok (us, s, nd', d') \<Longrightarrow> length (ln_sess (lnode nd')) = length (ln_sess (lnode nd))"
  by (auto simp: RemoteNode_DeleteSess_def Let_def Delete_spec go_simps split: if_splits outcome.splits option.splits)

lemma delete_each_len:
  "delete_each api drv a is nd d = Ok (nd', d') \<Longrightarrow> length (ln_sess (lnode nd')) = length (ln_sess (lnode nd))"
proof (induction "is" arbitrary: nd d)
  case (Cons i "is")
  then obtain us s nd1 d1 where "RemoteNode_DeleteSess api drv nd d a i = Ok (us, s, nd1, d1)"
      "delete_each api drv a is nd1 d1 = Ok (nd', d')" by (auto simp: go_simps)
  with Cons.IH DeleteSess_len show ?case by metis
qed simp

lemma Reset_len: "RemoteNode_Reset api drv nd d a = Ok (nd', d') \<Longrightarrow> length (ln_sess (lnode nd')) = length (ln_sess (lnode nd))"
  by (auto simp: RemoteNode_Reset_def go_simps dest!: delete_each_len)

lemma DeleteSess_srv_ok:
  assumes ok: "srv_ok srv" and sess: "LocalNode_Sess (lnode (nodes srv)) i = Ok s" and a: "sess_rnode s = Some a"
  obtains us s' nd d where "RemoteNode_DeleteSess api drv (nodes srv) (dataplane srv) a i = Ok (us, Some s', nd, d)"
    and "srv_ok (srv\<lparr>nodes := nd, dataplane := d\<rparr>)" and "length (ln_sess (lnode nd)) = srv_len srv"
    and "sess_at (lnode nd) = (sess_at (lnode (nodes srv)))(i := None)"
    and "Sess_Close api drv s (dataplane srv) = Ok (us, s', d)"
proof -
  have nok: "nodes_ok (nodes srv)" using ok by (simp add: srv_ok_def)
  have lt: "a < length (remotes (nodes srv))" and mem: "i \<in> set (rn_sess (remotes (nodes srv) ! a))"
    using Sess_rnode [OF nok sess] a by auto
  obtain us s' nd d where del: "RemoteNode_DeleteSess api drv (nodes srv) (dataplane srv) a i = Ok (us, Some s', nd, d)"
      "nodes_ok nd" "sess_at (lnode nd) = (sess_at (lnode (nodes srv)))(i := None)"
      and rem: "remotes nd = (remotes (nodes srv))[a := (remotes (nodes srv) ! a)\<lparr>rn_sess := removeAll i (rn_sess (remotes (nodes srv) ! a))\<rparr>]"
      and close: "\<exists>s. sess_at (lnode (nodes srv)) i = Some s \<and> Sess_Close api drv s (dataplane srv) = Ok (us, s', d)"
    using DeleteSess_owned [OF nok lt mem, of api drv "dataplane srv"] by blast
  have "map rn_ID (remotes nd) = map rn_ID (remotes (nodes srv))"
    using lt by (auto simp: rem map_update intro!: list_update_same_conv [THEN iffD2])
  then have "srv_ok (srv\<lparr>nodes := nd, dataplane := d\<rparr>)"
    using ok del(2) rnodes_ok_ids by (auto simp: srv_ok_def)
  moreover have "Sess_Close api drv s (dataplane srv) = Ok (us, s', d)"
    using close sess by (auto simp: Sess_spec split: if_splits option.splits)
  ultimately show thesis using that del DeleteSess_len [OF del(1)] by (simp add: srv_len_def)
qed

lemma heartbeat_good: "srv_ok srv \<Longrightarrow> good srv (handleHeartbeatRequest env seq addr srv)"
  by (simp add: good_def handleHeartbeatRequest_def)

lemma association_good:
  assumes ok: "srv_ok srv"
  shows "good srv (handleAssociationSetupRequest api drv env nid seq addr srv)"
    and "handleAssociationSetupRequest api drv env nid seq addr srv \<noteq> Panic"
proof -
  have new: "srv_ok (srv1\<lparr>nodes := (nodes srv1)\<lparr>remotes := remotes (nodes srv1) @ [NewRemoteNode i addr]\<rparr>,
      rnodes := AList.update i (length (remotes (nodes srv1))) (rnodes srv1)\<rparr>)"
    if "srv_ok srv1" for srv1 :: "('a, 'b) PfcpServer" and i
    using that nodes_ok_new [of "nodes srv1"] rnodes_ok_new [of "rnodes srv1" "remotes (nodes srv1)"] by (simp add: srv_ok_def)
  have reset: "\<exists>nd d. RemoteNode_Reset api drv (nodes srv) (dataplane srv) a = Ok (nd, d) \<and>
      srv_ok (srv\<lparr>nodes := nd, dataplane := d, rnodes := AList.delete i (rnodes srv)\<rparr>) \<and> length (ln_sess (lnode nd)) = srv_len srv"
    if "map_of (rnodes srv) i = Some a" for i a
  proof -
    have a: "a < length (remotes (nodes srv))" using rnodes_okD ok that by (auto simp: srv_ok_def)
    have nok: "nodes_ok (nodes srv)" using ok by (simp add: srv_ok_def)
    obtain nd d where reset: "RemoteNode_Reset api drv (nodes srv) (dataplane srv) a = Ok (nd, d)" "nodes_ok nd"
        "remotes nd = (remotes (nodes srv))[a := (remotes (nodes srv) ! a)\<lparr>rn_sess := []\<rparr>]"
      using Reset_spec [OF nok a, of api drv "dataplane srv"] by blast
    have "map rn_ID (remotes nd) = map rn_ID (remotes (nodes srv))"
      using a by (auto simp: reset(3) map_update intro!: list_update_same_conv [THEN iffD2])
    then have "rnodes_ok (AList.delete i (rnodes srv)) (remotes nd)"
      using ok rnodes_ok_ids rnodes_ok_delete by (auto simp: srv_ok_def)
    with reset ok show ?thesis using Reset_len [OF reset(1)] by (auto simp: srv_ok_def srv_len_def)
  qed
  note defs = handleAssociationSetupRequest_def NewNode_def Let_def
  show "handleAssociationSetupRequest api drv env nid seq addr srv \<noteq> Panic"
    using reset by (fastforce simp: defs go_simps split: option.splits sum.splits)
  show "good srv (handleAssociationSetupRequest api drv env nid seq addr srv)"
    unfolding good_def
  proof (intro allI impI)
    fix srv' assume h: "handleAssociationSetupRequest api drv env nid seq addr srv = Ok srv'"
    show "srv_ok srv' \<and> srv_len srv' \<le> srv_len srv + 1"
    proof (cases "\<exists>x i. nid = Some x \<and> ie_NodeID env x = Inr i")
      case False
      with h ok show ?thesis by (auto simp: defs split: option.splits sum.splits)
    next
      case True
      then obtain x i where x: "nid = Some x" "ie_NodeID env x = Inr i" by blast
      show ?thesis
      proof (cases "map_of (rnodes srv) i")
        case None
        with h x new [OF ok, of i] show ?thesis by (auto simp: defs) (simp add: srv_len_def)
      next
        case (Some a)
        obtain nd d where r: "RemoteNode_Reset api drv (nodes srv) (dataplane srv) a = Ok (nd, d)"
            "srv_ok (srv\<lparr>nodes := nd, dataplane := d, rnodes := AList.delete i (rnodes srv)\<rparr>)" "length (ln_sess (lnode nd)) = srv_len srv"
          using reset [OF Some] by blast
        with h x Some new [OF r(2), of i] show ?thesis by (auto simp: defs) (simp add: srv_len_def)
      qed
    qed
  qed
qed

lemma establish_spec:
  assumes ok: "srv_ok srv" and room: "srv_len srv + 1 < 2 ^ 63" and a: "map_of (rnodes srv) i = Some a"
  obtains s nd s' d' where "RemoteNode_NewSess (nodes srv) a r = Ok (s, nd)"
    and "establish_rules api drv req (s, dataplane srv) = (s', d')"
    and "srv_ok (set_sess s' d' (srv\<lparr>nodes := nd\<rparr>))" and "srv_len (set_sess s' d' (srv\<lparr>nodes := nd\<rparr>)) \<le> srv_len srv + 1"
    and "sess_at (lnode (nodes srv)) (LocalID s') = None" and "RemoteID s' = r" and "LocalID s' \<noteq> 0" and "\<not> 2 ^ 63 < LocalID s'"
    and "sess_at (lnode (nodes (set_sess s' d' (srv\<lparr>nodes := nd\<rparr>)))) = (sess_at (lnode (nodes srv)))(LocalID s' \<mapsto> s')"
    and "sess_rnode s' = Some a"
proof -
  have nok: "nodes_ok (nodes srv)" using ok by (simp add: srv_ok_def)
  have lt: "a < length (remotes (nodes srv))" using rnodes_okD a ok by (auto simp: srv_ok_def)
  have rm: "node_room (nodes srv)" using room by (simp add: node_room_def srv_len_def)
  obtain j nd where new: "RemoteNode_NewSess (nodes srv) a r = Ok ((fresh_sess r BUFFQ_LEN)\<lparr>LocalID := j, sess_rnode := Some a\<rparr>, nd)"
      "j \<noteq> 0" "sess_at (lnode (nodes srv)) j = None" "nodes_ok nd" "map rn_ID (remotes nd) = map rn_ID (remotes (nodes srv))"
      "sess_at (lnode nd) = (sess_at (lnode (nodes srv)))(j \<mapsto> (fresh_sess r BUFFQ_LEN)\<lparr>LocalID := j, sess_rnode := Some a\<rparr>)"
    using NewSess_owned [OF nok lt rm, of r] by blast
  define s where "s = (fresh_sess r BUFFQ_LEN)\<lparr>LocalID := j, sess_rnode := Some a\<rparr>"
  note new = new [folded s_def]
  obtain s' d' where est: "establish_rules api drv req (s, dataplane srv) = (s', d')" by (metis prod.exhaust)
  have keep: "keeps s s'" using establish_rules_keeps [of "(s, dataplane srv)" api drv req] est by simp
  then have ids: "LocalID s' = j" "RemoteID s' = r" "sess_rnode s' = Some a" by (simp_all add: keeps_def same_id_def s_def fresh_sess_def)
  have ok1: "srv_ok (srv\<lparr>nodes := nd\<rparr>)" using ok new(4,5) rnodes_ok_ids by (auto simp: srv_ok_def)
  have small: "\<not> 2 ^ 63 < j" using sess_at_small [of "lnode nd" j] new(4,6) by (simp add: nodes_ok_def)
  have look: "LocalNode_Sess (lnode (nodes (srv\<lparr>nodes := nd\<rparr>))) j = Ok s" using new(2,6) small by (simp add: Sess_spec)
  note set = set_sess_ok [OF ok1 look keep, of d']
  have "sess_at (lnode nd) j = Some s" by (simp add: new(6))
  note put = nodes_ok_set_sess(2) [OF new(4) this keep]
  have "sess_at (lnode (nodes (set_sess s' d' (srv\<lparr>nodes := nd\<rparr>)))) = (sess_at (lnode (nodes srv)))(j \<mapsto> s')"
    using put by (simp add: set_sess_def new(6))
  moreover have "srv_len (set_sess s' d' (srv\<lparr>nodes := nd\<rparr>)) \<le> srv_len srv + 1"
    using set(2) NewSess_len [OF new(1)] by (simp add: srv_len_def)
  ultimately show thesis using that [OF new(1) est set(1)] ids new(2,3) small by simp
qed

lemma establishment_good:
  assumes ok: "srv_ok srv" and room: "srv_len srv + 1 < 2 ^ 63"
  shows "good srv (handleSessionEstablishmentRequest api drv env req seq addr srv)"
    and "handleSessionEstablishmentRequest api drv env req seq addr srv \<noteq> Panic"
proof -
  have "\<exists>srv'. handleSessionEstablishmentRequest api drv env req seq addr srv = Ok srv' \<and> srv_ok srv' \<and> srv_len srv' \<le> srv_len srv + 1"
  proof (cases "\<exists>x i a y r. est_NodeID req = Some x \<and> ie_NodeID env x = Inr i \<and> map_of (rnodes srv) i = Some a \<and>
      est_CPFSEID req = Some y \<and> ie_FSEID env y = Inr r")
    case False
    with ok show ?thesis by (auto simp: handleSessionEstablishmentRequest_def split: option.splits sum.splits)
  next
    case True
    then obtain x i a y r where c: "est_NodeID req = Some x" "ie_NodeID env x = Inr i" "map_of (rnodes srv) i = Some a"
        "est_CPFSEID req = Some y" "ie_FSEID env y = Inr r" by blast
    obtain s nd s' d' where e: "RemoteNode_NewSess (nodes srv) a r = Ok (s, nd)"
        "establish_rules api drv req (s, dataplane srv) = (s', d')"
        "srv_ok (set_sess s' d' (srv\<lparr>nodes := nd\<rparr>))" "srv_len (set_sess s' d' (srv\<lparr>nodes := nd\<rparr>)) \<le> srv_len srv + 1"
      by (rule establish_spec [OF ok room c(3), of r api drv req]) iprover
    then show ?thesis using c by (simp add: handleSessionEstablishmentRequest_def Let_def)
  qed
  then show "good srv (handleSessionEstablishmentRequest api drv env req seq addr srv)"
    "handleSessionEstablishmentRequest api drv env req seq addr srv \<noteq> Panic" by (auto simp: good_def)
qed

lemma modification_good:
  assumes ok: "srv_ok srv"
  shows "good srv (handleSessionModificationRequest api drv env req seid seq addr srv)"
    and "handleSessionModificationRequest api drv env req seid seq addr srv = Panic \<longleftrightarrow> 2 ^ 63 < seid"
proof -
  have nok: "nodes_ok (nodes srv)" using ok by (simp add: srv_ok_def)
  have "good srv (handleSessionModificationRequest api drv env req seid seq addr srv) \<and>
    (handleSessionModificationRequest api drv env req seid seq addr srv = Panic \<longleftrightarrow> 2 ^ 63 < seid)"
  proof (cases "LocalNode_Sess (lnode (nodes srv)) seid")
    case (Ok s)
    obtain a where a: "a < length (remotes (nodes srv))" "sess_rnode s = Some a" using Sess_rnode [OF nok Ok] by blast
    obtain us s1 d1 where m: "modify_rules api drv req (s, dataplane srv) = (us, s1, d1)" by (metis prod_cases3)
    obtain rp s2 where u: "usage_reports IEsWithinSessModRsp True us s1 = (rp, s2)" by (metis prod.exhaust)
    have keep: "keeps s s2" using modify_rules_keeps [OF m] usage_reports_keeps [OF u] by (rule keeps_trans)
    have take: "srv_ok (UpdateNodeID a i srv)" "lnode (nodes (UpdateNodeID a i srv)) = lnode (nodes srv)"
        "srv_len (UpdateNodeID a i srv) = srv_len srv" "dataplane (UpdateNodeID a i srv) = dataplane srv" for i
      using UpdateNodeID_ok [OF ok a(1)] by (simp_all add: UpdateNodeID_def Let_def srv_len_def)
    have "\<not> 2 ^ 63 < seid" using Ok by (auto simp: Sess_spec split: if_splits)
    then show ?thesis
      using Ok ok a(2) m u set_sess_ok [OF ok Ok keep] set_sess_ok [OF take(1) _ keep, unfolded take(2), OF Ok] take(3,4)
      by (auto simp: handleSessionModificationRequest_def Let_def good_def split: option.splits sum.splits)
  next
    case (Err e)
    then show ?thesis using ok by (auto simp: handleSessionModificationRequest_def good_def Sess_spec split: if_splits option.splits)
  next
    case Panic
    then show ?thesis by (auto simp: handleSessionModificationRequest_def good_def Sess_spec split: if_splits option.splits)
  qed
  then show "good srv (handleSessionModificationRequest api drv env req seid seq addr srv)"
    "handleSessionModificationRequest api drv env req seid seq addr srv = Panic \<longleftrightarrow> 2 ^ 63 < seid" by simp_all
qed

lemma deletion_good:
  assumes ok: "srv_ok srv"
  shows "good srv (handleSessionDeletionRequest api drv env seid seq addr srv)"
    and "handleSessionDeletionRequest api drv env seid seq addr srv = Panic \<longleftrightarrow> 2 ^ 63 < seid"
proof -
  have nok: "nodes_ok (nodes srv)" using ok by (simp add: srv_ok_def)
  note def = handleSessionDeletionRequest_def Let_def good_def
  have "good srv (handleSessionDeletionRequest api drv env seid seq addr srv) \<and>
    (handleSessionDeletionRequest api drv env seid seq addr srv = Panic \<longleftrightarrow> 2 ^ 63 < seid)"
  proof (cases "LocalNode_Sess (lnode (nodes srv)) seid")
    case (Ok s)
    obtain a where a: "sess_rnode s = Some a" using Sess_rnode [OF nok Ok] by blast
    obtain us s' nd d where del: "RemoteNode_DeleteSess api drv (nodes srv) (dataplane srv) a seid = Ok (us, Some s', nd, d)"
        "srv_ok (srv\<lparr>nodes := nd, dataplane := d\<rparr>)" "length (ln_sess (lnode nd)) = srv_len srv"
      by (rule DeleteSess_srv_ok [OF ok Ok a, of api drv]) iprover
    have "\<not> 2 ^ 63 < seid" using Ok by (auto simp: Sess_spec split: if_splits)
    with Ok a del show ?thesis by (auto simp: def split: prod.splits) (simp add: srv_len_def)
  next
    case (Err e)
    with ok show ?thesis by (auto simp: def Sess_spec split: if_splits option.splits)
  next
    case Panic
    then show ?thesis by (auto simp: def Sess_spec split: if_splits option.splits)
  qed
  then show "good srv (handleSessionDeletionRequest api drv env seid seq addr srv)"
    "handleSessionDeletionRequest api drv env seid seq addr srv = Panic \<longleftrightarrow> 2 ^ 63 < seid" by simp_all
qed

text \<open>The handler of a report response panics on a large SEID and where the scan of the table does.\<close>

lemma report_response_good:
  assumes ok: "srv_ok srv"
  shows "good srv (handleSessionReportResponse api drv rs qs addr srv)"
    and "handleSessionReportResponse api drv rs qs addr srv = Panic \<longleftrightarrow>
      (if rs = 0 then LocalNode_RemoteSess (nodes srv) qs addr = Panic else 2 ^ 63 < rs)"
proof -
  have nok: "nodes_ok (nodes srv)" and lok: "lnode_ok (lnode (nodes srv))" using ok by (simp_all add: srv_ok_def nodes_ok_def)
  note def = handleSessionReportResponse_def good_def
  have "good srv (handleSessionReportResponse api drv rs qs addr srv) \<and>
    (handleSessionReportResponse api drv rs qs addr srv = Panic \<longleftrightarrow>
      (if rs = 0 then LocalNode_RemoteSess (nodes srv) qs addr = Panic else 2 ^ 63 < rs))"
  proof (cases "rs = 0 \<and> (\<exists>s. LocalNode_RemoteSess (nodes srv) qs addr = Ok s)")
    case True
    then obtain s where s: "rs = 0" "LocalNode_RemoteSess (nodes srv) qs addr = Ok s" by blast
    have "remote_sess_loop rms r ad xs = Ok s \<Longrightarrow> Some s \<in> set xs" for rms r ad xs
      by (induction rms r ad xs rule: remote_sess_loop.induct) (auto split: if_splits option.splits)
    with s(2) have "Some s \<in> set (ln_sess (lnode (nodes srv)))" by (auto simp: LocalNode_RemoteSess_def)
    then obtain i where i: "sess_at (lnode (nodes srv)) i = Some s" using entry_of_seid [OF lok] by blast
    have "i \<noteq> 0" using sess_at_SomeD [OF i] by simp
    with i have look: "LocalNode_Sess (lnode (nodes srv)) i = Ok s"
      using sess_at_small [OF lok i] by (simp add: Sess_spec)
    obtain a where a: "sess_rnode s = Some a" "LocalID s = i" using Sess_rnode [OF nok look] by blast
    obtain us s' nd d where del: "RemoteNode_DeleteSess api drv (nodes srv) (dataplane srv) a i = Ok (us, Some s', nd, d)"
        "srv_ok (srv\<lparr>nodes := nd, dataplane := d\<rparr>)" "length (ln_sess (lnode nd)) = srv_len srv"
      by (rule DeleteSess_srv_ok [OF ok look a(1), of api drv]) iprover
    with s a show ?thesis by (simp add: def) (simp add: srv_len_def)
  next
    case False
    with ok show ?thesis
      by (cases "LocalNode_RemoteSess (nodes srv) qs addr") (auto simp: def Sess_spec split: outcome.splits if_splits option.splits)
  qed
  then show "good srv (handleSessionReportResponse api drv rs qs addr srv)"
    "handleSessionReportResponse api drv rs qs addr srv = Panic \<longleftrightarrow>
      (if rs = 0 then LocalNode_RemoteSess (nodes srv) qs addr = Panic else 2 ^ 63 < rs)" by simp_all
qed

lemma sendReqTo_ok:
  assumes "srv_ok srv"
  shows "srv_ok (snd (sendReqTo env m addr srv))" and "nodes (snd (sendReqTo env m addr srv)) = nodes srv"
    and "rxTrans (snd (sendReqTo env m addr srv)) = rxTrans srv"
proof -
  note defs = sendReqTo_def tx_send_def put_tx_def conn_write_def NewTxTransaction_def Let_def
  have upd: "tx_ok (AList.update (trID a q) tx (AList.update (trID a q) tx' (txTrans srv)))"
    if "tx_raddr tx = a" "tx_seq tx = q" "tx_id tx = trID a q" "tx_raddr tx' = a" "tx_seq tx' = q" "tx_id tx' = trID a q" for a q tx tx'
    using tx_ok_update [of "AList.update (trID a q) tx' (txTrans srv)" tx] tx_ok_update [of "txTrans srv" tx'] that assms
    by (simp add: srv_ok_def)
  have upd1: "tx_ok (AList.update (trID a q) tx' (txTrans srv))" if "tx_raddr tx' = a" "tx_seq tx' = q" "tx_id tx' = trID a q" for a q tx'
    using tx_ok_update [of "txTrans srv" tx'] that assms by (simp add: srv_ok_def)
  show "srv_ok (snd (sendReqTo env m addr srv))"
    using assms by (auto simp: srv_ok_def defs intro!: upd upd1 split: option.split)
  show "nodes (snd (sendReqTo env m addr srv)) = nodes srv" "rxTrans (snd (sendReqTo env m addr srv)) = rxTrans srv"
    by (auto simp: defs split: option.split)
qed

lemma dld_good:
  assumes "srv_ok srv" and "LocalNode_Sess (lnode (nodes srv)) seid = Ok s"
  shows "\<exists>srv'. serveDLDReport env addr seid p srv = Ok srv' \<and> srv_ok srv' \<and> nodes srv' = nodes srv"
  using assms sendReqTo_ok [OF assms(1)] by (simp add: serveDLDReport_def)

lemma push_ok:
  assumes ok: "srv_ok srv" and look: "LocalNode_Sess (lnode (nodes srv)) seid = Ok s"
  obtains s' where "Sess_Push s p pkt = Ok s'" and "srv_ok (set_sess s' (dataplane srv) srv)"
    and "srv_len (set_sess s' (dataplane srv) srv) = srv_len srv"
    and "LocalNode_Sess (lnode (nodes (set_sess s' (dataplane srv) srv))) seid = Ok s'"
proof -
  have at: "sess_at (lnode (nodes srv)) seid = Some s" and small: "seid \<noteq> 0" "\<not> 2 ^ 63 < seid"
    using look by (auto simp: Sess_spec split: if_splits option.splits)
  have nok: "nodes_ok (nodes srv)" using ok by (simp add: srv_ok_def)
  then have "live s" using at by (auto simp: nodes_ok_def lnode_ok_def)
  then obtain s' where push: "Sess_Push s p pkt = Ok s'" using live_Push by blast
  have keep: "keeps s s'" by (rule queue_ops_keep(1) [OF push])
  have "sess_at (lnode (nodes (set_sess s' (dataplane srv) srv))) seid = Some s'"
    using nodes_ok_set_sess(2) [OF nok at keep] by (simp add: set_sess_def)
  with small have "LocalNode_Sess (lnode (nodes (set_sess s' (dataplane srv) srv))) seid = Ok s'" by (simp add: Sess_spec)
  then show thesis using that push set_sess_ok [OF ok look keep] by simp
qed

lemma report_loop_good:
  "srv_ok srv \<Longrightarrow> LocalNode_Sess (lnode (nodes srv)) seid = Ok s \<Longrightarrow>
   \<exists>r srv' s'. report_loop env laddr seid rs us srv = Ok (r, srv') \<and> srv_ok srv' \<and> srv_len srv' = srv_len srv \<and>
     LocalNode_Sess (lnode (nodes srv')) seid = Ok s'"
proof (induction env laddr seid rs us srv arbitrary: s rule: report_loop.induct)
  case (3 env laddr seid p act pkt rs us srv)
  define r where "r = (if act AND APPLY_ACT_BUFF \<noteq> 0 \<and> pkt \<noteq> []
      then (case LocalNode_Sess (lnode (nodes srv)) seid of
              Ok sess \<Rightarrow> obind (Sess_Push sess p pkt) (\<lambda>sess. Ok (set_sess sess (dataplane srv) srv)) | _ \<Rightarrow> Panic)
      else Ok srv)"
  obtain srv1 s1 where one: "r = Ok srv1" "srv_ok srv1" "srv_len srv1 = srv_len srv" "LocalNode_Sess (lnode (nodes srv1)) seid = Ok s1"
  proof (cases "act AND APPLY_ACT_BUFF \<noteq> 0 \<and> pkt \<noteq> []")
    case True
    obtain s' where "Sess_Push s p pkt = Ok s'" "srv_ok (set_sess s' (dataplane srv) srv)"
        "srv_len (set_sess s' (dataplane srv) srv) = srv_len srv"
        "LocalNode_Sess (lnode (nodes (set_sess s' (dataplane srv) srv))) seid = Ok s'"
      by (rule push_ok [OF 3(2,3), of p pkt]) iprover
    with True 3(3) show ?thesis by (intro that [of "set_sess s' (dataplane srv) srv" s']) (auto simp: r_def)
  next
    case False
    with 3(2,3) show ?thesis by (intro that [of srv s]) (auto simp: r_def)
  qed
  have loop: "report_loop env laddr seid (DLDReport p act pkt # rs) us srv =
      (if act AND APPLY_ACT_NOCP = 0 then Ok (None, srv1)
       else obind (serveDLDReport env laddr seid p srv1) (report_loop env laddr seid rs us))"
    using one(1) by (simp add: r_def [symmetric])
  show ?case
  proof (cases "act AND APPLY_ACT_NOCP = 0")
    case True
    with loop one show ?thesis by simp
  next
    case False
    obtain srv2 where two: "serveDLDReport env laddr seid p srv1 = Ok srv2" "srv_ok srv2" "nodes srv2 = nodes srv1"
      using dld_good [OF one(2,4)] by blast
    have "LocalNode_Sess (lnode (nodes srv2)) seid = Ok s1" "srv_len srv2 = srv_len srv" using two(3) one(3,4) by (simp_all add: srv_len_def)
    with 3(1) [OF one(1) [unfolded r_def] False, of srv2 s1] two(2) loop False two(1) show ?thesis by simp
  qed
qed auto

lemma ServeReport_good:
  assumes ok: "srv_ok srv"
  shows "good srv (ServeReport env sr srv)" and "ServeReport env sr srv = Panic \<longleftrightarrow> 2 ^ 63 < sr_SEID sr"
proof -
  have nok: "nodes_ok (nodes srv)" using ok by (simp add: srv_ok_def)
  note def = ServeReport_def good_def
  have "good srv (ServeReport env sr srv) \<and> (ServeReport env sr srv = Panic \<longleftrightarrow> 2 ^ 63 < sr_SEID sr)"
  proof (cases "LocalNode_Sess (lnode (nodes srv)) (sr_SEID sr)")
    case (Ok s)
    obtain a where a: "sess_rnode s = Some a" using Sess_rnode [OF nok Ok] by blast
    have small: "\<not> 2 ^ 63 < sr_SEID sr" using Ok by (auto simp: Sess_spec split: if_splits)
    have usa: "\<exists>srv'. serveUSAReport env laddr (sr_SEID sr) us srv1 = Ok srv' \<and> srv_ok srv' \<and> srv_len srv' = srv_len srv1"
      if "srv_ok srv1" "LocalNode_Sess (lnode (nodes srv1)) (sr_SEID sr) = Ok s1" for srv1 :: "('a, 'b) PfcpServer" and s1 laddr us
    proof -
      obtain rp s2 where u: "usage_reports IEsWithinSessReportReq False us s1 = (rp, s2)" by (metis prod.exhaust)
      note set = set_sess_ok [OF that usage_reports_keeps [OF u], of "dataplane srv1"]
      with that(2) u sendReqTo_ok(1,2) [OF set(1)] show ?thesis by (simp add: serveUSAReport_def srv_len_def)
    qed
    show ?thesis
    proof (cases "ResolveUDPAddr env (rn_ID (remotes (nodes srv) ! a) @ '':'' @ dec 8805)")
      case None
      with Ok a small ok show ?thesis by (simp add: def)
    next
      case (Some laddr)
      obtain r srv1 s1 where loop: "report_loop env laddr (sr_SEID sr) (sr_Reports sr) [] srv = Ok (r, srv1)" "srv_ok srv1"
          "srv_len srv1 = srv_len srv" "LocalNode_Sess (lnode (nodes srv1)) (sr_SEID sr) = Ok s1"
        using report_loop_good [OF ok Ok] by blast
      then have eq: "ServeReport env sr srv = (case r of None \<Rightarrow> Ok srv1
          | Some us \<Rightarrow> if us = [] then Ok srv1 else serveUSAReport env laddr (sr_SEID sr) us srv1)"
        using Ok a Some by (simp add: ServeReport_def)
      obtain srv2 where "serveUSAReport env laddr (sr_SEID sr) (the r) srv1 = Ok srv2" "srv_ok srv2" "srv_len srv2 = srv_len srv1"
        using usa [OF loop(2,4), of laddr "the r"] by blast
      with eq loop(2,3) have "\<exists>srv'. ServeReport env sr srv = Ok srv' \<and> srv_ok srv' \<and> srv_len srv' = srv_len srv"
        by (cases r) auto
      with small show ?thesis by (auto simp: good_def)
    qed
  next
    case (Err e)
    with ok show ?thesis by (auto simp: def Sess_spec split: if_splits option.splits)
  next
    case Panic
    then show ?thesis by (auto simp: def Sess_spec split: if_splits option.splits)
  qed
  then show "good srv (ServeReport env sr srv)" "ServeReport env sr srv = Panic \<longleftrightarrow> 2 ^ 63 < sr_SEID sr" by simp_all
qed

section \<open>A turn of the loop\<close>

text \<open>The requests whose handler looks up the SEID of the message header.\<close>

definition seid_request :: "'ie pfcp_msg \<Rightarrow> bool" where
  "seid_request m \<longleftrightarrow> (case msg_body m of SessionModificationRequest _ \<Rightarrow> True | SessionDeletionRequest \<Rightarrow> True | _ \<Rightarrow> False)"

definition panicking_request :: "'ie pfcp_msg \<Rightarrow> bool" where
  "panicking_request m \<longleftrightarrow> seid_request m \<and> 2 ^ 63 < msg_SEID m"

definition panicking_response :: "'ie pfcp_msg \<Rightarrow> string \<Rightarrow> 'ie TxTransaction \<Rightarrow> Nodes \<Rightarrow> bool" where
  "panicking_response m addr tx nd \<longleftrightarrow> \<not> tx_timer tx \<or>
     (msg_body m = SessionReportResponse \<and>
        (if msg_SEID m = 0 then tx_req tx = None \<or> LocalNode_RemoteSess nd (msg_SEID (the (tx_req tx))) addr = Panic
         else 2 ^ 63 < msg_SEID m))"

lemma reqDispacher_good:
  assumes ok: "srv_ok srv" and room: "srv_len srv + 1 < 2 ^ 63"
  shows "good srv (reqDispacher api drv env m addr srv)" and "reqDispacher api drv env m addr srv = Panic \<longleftrightarrow> panicking_request m"
proof -
  note g = heartbeat_good [OF ok] association_good [OF ok] establishment_good [OF ok room] modification_good [OF ok] deletion_good [OF ok]
  show "good srv (reqDispacher api drv env m addr srv)"
    using ok by (cases "msg_body m")
      (simp_all add: reqDispacher_def g, simp_all add: good_def handleAssociationUpdateRequest_def handleAssociationReleaseRequest_def)
  show "reqDispacher api drv env m addr srv = Panic \<longleftrightarrow> panicking_request m"
    by (cases "msg_body m")
      (simp_all add: reqDispacher_def g panicking_request_def seid_request_def handleHeartbeatRequest_def
        handleAssociationUpdateRequest_def handleAssociationReleaseRequest_def)
qed

lemma logged_simps [simp]: "logged srv r = Panic \<longleftrightarrow> r = Panic" "logged srv r = Ok x \<longleftrightarrow> r = Ok x \<or> ((\<exists>e. r = Err e) \<and> x = srv)"
  by (auto simp: logged_def split: outcome.splits)

lemma conn_write_simps [simp]:
  "conn_write env b addr srv = (e, srv') \<Longrightarrow> srv_ok srv' = srv_ok srv" "conn_write env b addr srv = (e, srv') \<Longrightarrow> srv_len srv' = srv_len srv"
  by (auto simp: conn_write_def srv_ok_def srv_len_def split: if_splits)

lemma new_rx_ok: "srv_ok srv \<Longrightarrow> srv_ok (srv\<lparr>rxTrans := AList.update (trID addr q) (NewRxTransaction srv addr q) (rxTrans srv)\<rparr>)"
  using rx_ok_update [of "rxTrans srv" "NewRxTransaction srv addr q"] by (simp add: srv_ok_def NewRxTransaction_def)

text \<open>The first request of a transaction is dispatched, a duplicate is answered from the store.\<close>

lemma serve_request_cases:
  "serve_request api drv env m addr srv =
     (case map_of (rxTrans srv) (trID addr (msg_Seq m)) of
        Some rx \<Rightarrow> Ok (if rx_msgBuf rx = [] then srv else snd (conn_write env (rx_msgBuf rx) (rx_raddr rx) srv))
      | None \<Rightarrow> let srv1 = srv\<lparr>rxTrans := AList.update (trID addr (msg_Seq m)) (NewRxTransaction srv addr (msg_Seq m)) (rxTrans srv)\<rparr>
                in logged srv1 (reqDispacher api drv env m addr srv1))"
  by (auto simp: serve_request_def rx_recv_def Let_def split: option.split prod.split)

lemma serve_request_good:
  assumes ok: "srv_ok srv" and room: "srv_len srv + 1 < 2 ^ 63"
  shows "good srv (serve_request api drv env m addr srv)"
    and "serve_request api drv env m addr srv = Panic \<longleftrightarrow>
      map_of (rxTrans srv) (trID addr (msg_Seq m)) = None \<and> panicking_request m"
proof -
  let ?srv1 = "srv\<lparr>rxTrans := AList.update (trID addr (msg_Seq m)) (NewRxTransaction srv addr (msg_Seq m)) (rxTrans srv)\<rparr>"
  have one: "srv_ok ?srv1" "srv_len ?srv1 = srv_len srv" using new_rx_ok [OF ok] by (simp_all add: srv_len_def)
  have room1: "srv_len ?srv1 + 1 < 2 ^ 63" using one(2) room by simp
  note disp = reqDispacher_good [OF one(1) room1, of api drv env m addr]
  show "serve_request api drv env m addr srv = Panic \<longleftrightarrow>
      map_of (rxTrans srv) (trID addr (msg_Seq m)) = None \<and> panicking_request m"
    using disp(2) by (auto simp: serve_request_cases Let_def split: option.split)
  show "good srv (serve_request api drv env m addr srv)"
  proof (cases "map_of (rxTrans srv) (trID addr (msg_Seq m))")
    case None
    with disp(1) one show ?thesis by (auto simp: serve_request_cases good_def Let_def)
  next
    case (Some rx)
    obtain e srv' where w: "conn_write env (rx_msgBuf rx) (rx_raddr rx) srv = (e, srv')" by (metis prod.exhaust)
    with Some ok conn_write_simps [OF w] show ?thesis by (auto simp: serve_request_cases good_def)
  qed
qed

lemma tx_ok_delete: "tx_ok txs \<Longrightarrow> tx_ok (AList.delete i txs)"
  using distinct_delete [of txs i] by (auto simp: tx_ok_def AList.delete_eq)

lemma rx_ok_delete: "rx_ok rxs \<Longrightarrow> rx_ok (AList.delete i rxs)"
  using distinct_delete [of rxs i] by (auto simp: rx_ok_def AList.delete_eq)

lemma srv_len_frame [simp]:
  "srv_len (srv\<lparr>txTrans := t\<rparr>) = srv_len srv" "srv_len (srv\<lparr>rxTrans := r\<rparr>) = srv_len srv" "srv_len (srv\<lparr>sent := w\<rparr>) = srv_len srv"
  by (simp_all add: srv_len_def)

lemma rspDispacher_good:
  assumes "srv_ok srv"
  shows "good srv (rspDispacher api drv m addr req srv)"
    and "rspDispacher api drv m addr req srv = Panic \<longleftrightarrow> msg_body m = SessionReportResponse \<and>
      (if msg_SEID m = 0 then req = None \<or> LocalNode_RemoteSess (nodes srv) (msg_SEID (the req)) addr = Panic
       else 2 ^ 63 < msg_SEID m)"
proof -
  note rr = report_response_good [OF assms]
  show "good srv (rspDispacher api drv m addr req srv)"
    by (cases "msg_body m"; cases req) (simp_all add: rspDispacher_def rr, simp_all add: good_def)
  show "rspDispacher api drv m addr req srv = Panic \<longleftrightarrow> msg_body m = SessionReportResponse \<and>
      (if msg_SEID m = 0 then req = None \<or> LocalNode_RemoteSess (nodes srv) (msg_SEID (the req)) addr = Panic
       else 2 ^ 63 < msg_SEID m)"
    by (cases "msg_body m"; cases req) (simp_all add: rspDispacher_def rr)
qed

lemma serve_response_good:
  assumes ok: "srv_ok srv"
  shows "good srv (serve_response api drv m addr srv)"
    and "serve_response api drv m addr srv = Panic \<longleftrightarrow>
      (\<exists>tx. map_of (txTrans srv) (trID addr (msg_Seq m)) = Some tx \<and> panicking_response m addr tx (nodes srv))"
proof -
  let ?srv1 = "\<lambda>tx. srv\<lparr>txTrans := AList.delete (tx_id tx) (txTrans srv)\<rparr>"
  have one: "srv_ok (?srv1 tx)" for tx using ok tx_ok_delete by (auto simp: srv_ok_def)
  have "good srv (serve_response api drv m addr srv) \<and> (serve_response api drv m addr srv = Panic \<longleftrightarrow>
      (\<exists>tx. map_of (txTrans srv) (trID addr (msg_Seq m)) = Some tx \<and> panicking_response m addr tx (nodes srv)))"
  proof (cases "map_of (txTrans srv) (trID addr (msg_Seq m))")
    case None
    with ok show ?thesis by (simp add: serve_response_def good_def)
  next
    case (Some tx)
    then show ?thesis
      using one [of tx] rspDispacher_good [OF one [of tx], of api drv m addr "tx_req tx"]
      by (auto simp: serve_response_def tx_recv_def good_def panicking_response_def)
  qed
  then show "good srv (serve_response api drv m addr srv)"
    "serve_response api drv m addr srv = Panic \<longleftrightarrow>
      (\<exists>tx. map_of (txTrans srv) (trID addr (msg_Seq m)) = Some tx \<and> panicking_response m addr tx (nodes srv))" by simp_all
qed

lemma tx_timeout_ok:
  assumes ok: "srv_ok srv" and tx: "map_of (txTrans srv) i = Some tx"
  shows "srv_ok (tx_handleTimeout env tx srv)" and "srv_len (tx_handleTimeout env tx srv) = srv_len srv"
proof -
  have id: "tx_id tx = trID (tx_raddr tx) (tx_seq tx)" using ok map_of_SomeD [OF tx] by (auto simp: srv_ok_def tx_ok_def)
  have upd: "tx_ok (AList.update (tx_id tx) t (txTrans srv))" if "tx_id t = tx_id tx" "tx_raddr t = tx_raddr tx" "tx_seq t = tx_seq tx" for t
    using ok tx_ok_update [of "txTrans srv" t] that id by (simp add: srv_ok_def)
  note defs = tx_handleTimeout_def conn_write_def put_tx_def txtoDispacher_def handleSessionReportRequestTimeout_def Let_def
  show "srv_ok (tx_handleTimeout env tx srv)"
    using ok upd tx_ok_delete [of "txTrans srv" "tx_id tx"] by (auto simp: defs srv_ok_def split: option.splits msg_body.splits)
  show "srv_len (tx_handleTimeout env tx srv) = srv_len srv"
    by (auto simp: defs srv_len_def split: option.splits msg_body.splits)
qed

text \<open>The events that panic the server in a given state: a SEID above \<open>2^63\<close> in a data plane report, in
  a request that opens a transaction or in a report response; a report response with SEID 0 when
  the scan of the session table meets an empty entry; a response to a transaction without timer,
  that is, to a request that could not be marshalled.\<close>

definition panicking :: "'ie pfcp_env \<Rightarrow> event \<Rightarrow> ('d, 'ie) PfcpServer \<Rightarrow> bool" where
  "panicking env ev srv \<longleftrightarrow>
     (case ev of
        Report_event sr \<Rightarrow> 2 ^ 63 < sr_SEID sr
      | Packet addr buf \<Rightarrow>
          (case Parse env buf of
             None \<Rightarrow> False
           | Some m \<Rightarrow> buf \<noteq> [] \<and>
               (if isRequest m
                then map_of (rxTrans srv) (trID addr (msg_Seq m)) = None \<and> panicking_request m
                else isResponse m \<and>
                  (\<exists>tx. map_of (txTrans srv) (trID addr (msg_Seq m)) = Some tx \<and> panicking_response m addr tx (nodes srv))))
      | _ \<Rightarrow> False)"

lemma main_step_good:
  assumes ok: "srv_ok srv" and room: "srv_len srv + 1 < 2 ^ 63"
  shows "main_step api drv env ev srv = Ok (True, srv') \<Longrightarrow> srv_ok srv' \<and> srv_len srv' \<le> srv_len srv + 1"
    and "main_step api drv env ev srv = Panic \<longleftrightarrow> panicking env ev srv"
proof -
  note g = ServeReport_good [OF ok] serve_request_good [OF ok room] serve_response_good [OF ok]
  show "main_step api drv env ev srv = Ok (True, srv') \<Longrightarrow> srv_ok srv' \<and> srv_len srv' \<le> srv_len srv + 1"
  proof (cases ev)
    case (Report_event sr)
    then show "main_step api drv env ev srv = Ok (True, srv') \<Longrightarrow> srv_ok srv' \<and> srv_len srv' \<le> srv_len srv + 1"
      using g(1) [of env sr] by (auto simp: main_step_def good_def go_simps)
  next
    case (Packet addr buf)
    then show "main_step api drv env ev srv = Ok (True, srv') \<Longrightarrow> srv_ok srv' \<and> srv_len srv' \<le> srv_len srv + 1"
      using ok g(3,5) by (auto simp: main_step_def good_def go_simps split: if_splits option.splits)
  next
    case (TxTimeout i)
    then show "main_step api drv env ev srv = Ok (True, srv') \<Longrightarrow> srv_ok srv' \<and> srv_len srv' \<le> srv_len srv + 1"
      using ok tx_timeout_ok [OF ok] by (auto simp: main_step_def split: option.splits)
  next
    case (RxTimeout i)
    then show "main_step api drv env ev srv = Ok (True, srv') \<Longrightarrow> srv_ok srv' \<and> srv_len srv' \<le> srv_len srv + 1"
      using ok by (auto simp: main_step_def rx_handleTimeout_def srv_ok_def rx_ok_delete split: option.splits)
  qed
  show "main_step api drv env ev srv = Panic \<longleftrightarrow> panicking env ev srv"
    using g by (cases ev) (auto simp: main_step_def panicking_def go_simps split: option.split)
qed

lemma reachable_ok:
  "reachable api drv env k srv \<Longrightarrow> k < 2 ^ 63 - 1 \<Longrightarrow> srv_ok srv \<and> srv_len srv \<le> k"
proof (induction rule: reachable.induct)
  case (start timeout retrans nid now d)
  then show ?case
    by (simp add: srv_ok_def srv_len_def NewPfcpServer_def nodes_ok_def lnode_ok_def sess_at_def rnodes_ok_def rx_ok_def tx_ok_def)
next
  case (turn k srv ev srv')
  then have "srv_ok srv" "srv_len srv \<le> k" by simp_all
  moreover from this turn.prems have "srv_len srv + 1 < 2 ^ 63" by simp
  ultimately show ?case using main_step_good(1) [OF _ _ turn.hyps(2)] by fastforce
qed

end
