(* ===== verification/Upf_Server_Props.thy ===== *)
theory Upf_Server_Props
  imports Upf_Server_Inv
begin

text \<open>
  What the PFCP server of the UPF promises: its invariant and its exact panic conditions over all
  histories, at-most-once handling of requests, bounded retransmission, the matching of responses,
  the life of a session, and the fate of data plane reports.
\<close>

section \<open>What handlers leave alone\<close>

lemma frame_simps [simp]:
  "rxTrans (set_sess s d srv) = rxTrans srv" "txTrans (set_sess s d srv) = txTrans srv" "sent (set_sess s d srv) = sent srv"
  "rxTrans (UpdateNodeID a i srv) = rxTrans srv" "txTrans (UpdateNodeID a i srv) = txTrans srv" "sent (UpdateNodeID a i srv) = sent srv"
  by (simp_all add: set_sess_def UpdateNodeID_def Let_def)

lemma respond_has_rx: "map_of (rxTrans srv) i \<noteq> None \<Longrightarrow> map_of (rxTrans (respond env seid seq body addr srv)) i \<noteq> None"
  by (auto simp: respond_def sendRspTo_def rx_send_def conn_write_def put_rx_def update_conv' split: option.split)

text \<open>What is sent in answer to the request of the transaction \<open>i\<close> is what the transaction stores.\<close>

definition answered :: "string \<Rightarrow> string \<Rightarrow> ('d, 'ie) PfcpServer \<Rightarrow> ('d, 'ie) PfcpServer \<Rightarrow> bool" where
  "answered addr i srv srv' \<longleftrightarrow> (\<forall>rx. map_of (rxTrans srv) i = Some rx \<and> rx_id rx = i \<and> rx_raddr rx = addr \<longrightarrow>
     (\<exists>rx' out. map_of (rxTrans srv') i = Some rx' \<and> sent srv' = sent srv @ out \<and> (out = [] \<or> out = [(rx_msgBuf rx', addr)])))"

lemma answered_respond:
  "rxTrans srv1 = rxTrans srv \<Longrightarrow> sent srv1 = sent srv \<Longrightarrow> answered addr (trID addr seq) srv (respond env seid seq body addr srv1)"
  by (auto simp: answered_def respond_def sendRspTo_def rx_send_def conn_write_def put_rx_def update_conv' split: option.split)

text \<open>
  A request handler never touches the request transactions, keeps every response transaction and stores what it answers.
\<close>

definition rx_tx_kept :: "string \<Rightarrow> string \<Rightarrow> ('d, 'ie) PfcpServer \<Rightarrow> (pfcp_error, ('d, 'ie) PfcpServer) outcome \<Rightarrow> bool" where
  "rx_tx_kept addr i srv r \<longleftrightarrow> (\<forall>srv'. r = Ok srv' \<longrightarrow> txTrans srv' = txTrans srv \<and>
     (\<forall>i. map_of (rxTrans srv) i \<noteq> None \<longrightarrow> map_of (rxTrans srv') i \<noteq> None) \<and> answered addr i srv srv')"

lemma rx_tx_kept_same [simp]:
  "txTrans srv' = txTrans srv \<Longrightarrow> rxTrans srv' = rxTrans srv \<Longrightarrow> sent srv' = sent srv \<Longrightarrow> rx_tx_kept addr i srv (Ok srv')"
  "rx_tx_kept addr i srv (Err e)" "rx_tx_kept addr i srv Panic"
  by (auto simp: rx_tx_kept_def answered_def)

lemma rx_tx_kept_respond [simp]:
  "txTrans srv1 = txTrans srv \<Longrightarrow> rxTrans srv1 = rxTrans srv \<Longrightarrow> sent srv1 = sent srv \<Longrightarrow>
   rx_tx_kept addr (trID addr seq) srv (Ok (respond env seid seq body addr srv1))"
  using respond_has_rx [of srv1] answered_respond [of srv1 srv addr seq env seid body] by (auto simp: rx_tx_kept_def)

lemma rx_tx_kept_bind: "(\<And>x. m = Ok x \<Longrightarrow> rx_tx_kept addr i srv (f x)) \<Longrightarrow> rx_tx_kept addr i srv (obind m f)"
  by (cases m) auto

lemma handlers_keep_rx_tx:
  "rx_tx_kept addr (trID addr seq) srv (handleHeartbeatRequest env seq addr srv)"
  "rx_tx_kept addr (trID addr seq) srv (handleAssociationSetupRequest api drv env nid seq addr srv)"
  "rx_tx_kept addr (trID addr seq) srv (handleSessionEstablishmentRequest api drv env req seq addr srv)"
  "rx_tx_kept addr (trID addr seq) srv (handleSessionModificationRequest api drv env mreq seid seq addr srv)"
  "rx_tx_kept addr (trID addr seq) srv (handleSessionDeletionRequest api drv env seid seq addr srv)"
  "rx_tx_kept addr (trID addr seq) srv (handleSessionReportResponse api drv rs qs addr srv)"
proof -
  note simps = handleHeartbeatRequest_def handleAssociationSetupRequest_def handleSessionEstablishmentRequest_def
    handleSessionModificationRequest_def handleSessionDeletionRequest_def handleSessionReportResponse_def NewNode_def Let_def
  show "rx_tx_kept addr (trID addr seq) srv (handleHeartbeatRequest env seq addr srv)" by (simp add: simps)
  show "rx_tx_kept addr (trID addr seq) srv (handleAssociationSetupRequest api drv env nid seq addr srv)"
    by (auto simp: simps go_simps intro!: rx_tx_kept_bind rx_tx_kept_respond split: option.splits sum.splits)
  show "rx_tx_kept addr (trID addr seq) srv (handleSessionEstablishmentRequest api drv env req seq addr srv)"
    by (auto simp: simps intro!: rx_tx_kept_bind rx_tx_kept_respond split: option.splits sum.splits prod.splits)
  show "rx_tx_kept addr (trID addr seq) srv (handleSessionModificationRequest api drv env mreq seid seq addr srv)"
    by (auto simp: simps intro!: rx_tx_kept_bind rx_tx_kept_respond split: outcome.splits option.splits sum.splits prod.splits)
  show "rx_tx_kept addr (trID addr seq) srv (handleSessionDeletionRequest api drv env seid seq addr srv)"
    by (auto simp: simps intro!: rx_tx_kept_bind rx_tx_kept_respond split: outcome.splits option.splits sum.splits prod.splits)
  show "rx_tx_kept addr (trID addr seq) srv (handleSessionReportResponse api drv rs qs addr srv)"
    by (auto simp: simps intro!: rx_tx_kept_bind split: outcome.splits option.splits)
qed

lemma dispatchers_keep_rx_tx:
  "rx_tx_kept addr (trID addr (msg_Seq m)) srv (reqDispacher api drv env m addr srv)" "rx_tx_kept addr (trID addr seq) srv (rspDispacher api drv m addr req srv)"
  by (cases "msg_body m";
      simp add: reqDispacher_def handlers_keep_rx_tx handleAssociationUpdateRequest_def handleAssociationReleaseRequest_def)
     (cases "msg_body m"; simp add: rspDispacher_def handlers_keep_rx_tx split: option.split)

lemma logged_keeps: "rx_tx_kept addr i srv r \<Longrightarrow> logged srv r = Ok srv' \<Longrightarrow>
  txTrans srv' = txTrans srv \<and> (\<forall>i. map_of (rxTrans srv) i \<noteq> None \<longrightarrow> map_of (rxTrans srv') i \<noteq> None) \<and> answered addr i srv srv'"
  by (auto simp: rx_tx_kept_def logged_def answered_def split: outcome.splits)

lemma respond_sends:
  assumes "rx_ok (rxTrans srv)" and "map_of (rxTrans srv) (trID addr seq) \<noteq> None" and "\<And>m. Marshal env m \<noteq> None" and "\<And>b a. WriteTo env b a"
    and "isResponse \<lparr>msg_SEID = seid, msg_Seq = seq, msg_body = body\<rparr>"
  shows "sent (respond env seid seq body addr srv) =
    sent srv @ [(the (Marshal env \<lparr>msg_SEID = seid, msg_Seq = seq, msg_body = body\<rparr>), addr)]"
proof -
  obtain rx where rx: "map_of (rxTrans srv) (trID addr seq) = Some rx" using assms(2) by blast
  then have "rx_raddr rx = addr" using assms(1) map_of_SomeD [OF rx] by (auto simp: rx_ok_def)
  with rx assms(3-5) show ?thesis
    by (auto simp: respond_def sendRspTo_def rx_send_def conn_write_def put_rx_def split: option.split)
qed

lemma heartbeat_step:
  assumes "Parse env buf = Some m" and "msg_body m = HeartbeatRequest" and "buf \<noteq> []"
    and "map_of (rxTrans srv) (trID addr (msg_Seq m)) = None"
  shows "main_step api drv env (Packet addr buf) srv =
    Ok (True, respond env 0 (msg_Seq m) (HeartbeatResponse [R_RecoveryTimeStamp (recoveryTime srv)]) addr
      (srv\<lparr>rxTrans := AList.update (trID addr (msg_Seq m)) (NewRxTransaction srv addr (msg_Seq m)) (rxTrans srv)\<rparr>))"
  using assms
  by (simp add: main_step_def isRequest_def serve_request_cases Let_def reqDispacher_def handleHeartbeatRequest_def logged_def)

section \<open>A concrete environment\<close>

text \<open>Messages are encoded in one octet each; every write succeeds.\<close>

definition sample_env :: "sample_ie pfcp_env" where
  "sample_env =
     \<lparr>Parse = (\<lambda>b. if b = [1] then Some \<lparr>msg_SEID = 0, msg_Seq = 5, msg_body = HeartbeatRequest\<rparr>
        else if b = [2] then Some \<lparr>msg_SEID = 0, msg_Seq = 7, msg_body = SessionReportResponse\<rparr>
        else if b = [3] then Some \<lparr>msg_SEID = 2 ^ 63 + 1, msg_Seq = 6, msg_body = SessionDeletionRequest\<rparr>
        else None),
      Marshal = (\<lambda>m. Some [9]), WriteTo = (\<lambda>b a. True),
      ie_NodeID = (\<lambda>_. Inr ''smf''), ie_FSEID = (\<lambda>_. Inr 9), ie_PDI = (\<lambda>_. Inl (IEError 0)),
      ie_UEIPAddress = (\<lambda>_. Inl (IEError 0)), ParseIP_is4 = (\<lambda>_. None), ResolveIP4 = (\<lambda>_. None),
      ResolveUDPAddr = Some\<rparr>"

text \<open>A server that knows one node with one session, with one request waiting for its response and
  one transaction for an establishment request.\<close>

definition sample_tx :: "sample_ie TxTransaction" where
  "sample_tx = \<lparr>tx_raddr = ''smf:8805'', tx_seq = 7, tx_id = trID ''smf:8805'' 7, retransTimeout = 1000, maxRetrans = 2,
     tx_req = Some \<lparr>msg_SEID = 9, msg_Seq = 7, msg_body = SessionReportRequest []\<rparr>, tx_msgBuf = [9], tx_timer = True, retransCount = 0\<rparr>"

definition sample_srv :: "(unit, sample_ie) PfcpServer" where
  "sample_srv = (NewPfcpServer 1000 2 ''upf'' 0 ())
     \<lparr>nodes := sample_nodes1, rnodes := [(''smf'', 0)], txTrans := [(trID ''smf:8805'' 7, sample_tx)], txSeq := 8,
      rxTrans := [(trID ''smf:8805'' 20, \<lparr>rx_raddr = ''smf:8805'', rx_seq = 20, rx_id = trID ''smf:8805'' 20,
        rx_timeout = 3000, rx_msgBuf = [], rx_timer = True\<rparr>)]\<rparr>"

lemma sample_srv_ok: "srv_ok sample_srv" "srv_len sample_srv + 1 < 2 ^ 63"
  using sample_nodes1_ok
  by (simp_all add: srv_ok_def srv_len_def sample_srv_def sample_tx_def rnodes_ok_def rx_ok_def tx_ok_def)
     (simp_all add: sample_nodes1_def)

lemma sample_heartbeat:
  "Parse sample_env [1] = Some \<lparr>msg_SEID = 0, msg_Seq = 5, msg_body = HeartbeatRequest\<rparr>"
  "isRequest (\<lparr>msg_SEID = 0, msg_Seq = 5, msg_body = HeartbeatRequest\<rparr> :: sample_ie pfcp_msg)"
  "Marshal sample_env m = Some [9]" "WriteTo sample_env b a"
  by (simp_all add: sample_env_def isRequest_def)

section \<open>Properties\<close>

text \<open>
  C1. The server stays in order. Whatever packets, data plane reports and timeouts arrive, in
  whatever order, and whatever the driver answers: in every reachable state every session is stored
  under its own SEID, well-formed and live; it belongs to exactly one remote node, which lists it;
  the free SEIDs are the empty entries; every known node name leads to the node with that
  identifier; every transaction is stored under its own identifier. (The count of events bounds the
  size of the session table, which must fit a signed index.)
\<close>

theorem server_invariant:
  assumes "reachable api drv env k srv" and "k < 2 ^ 63 - 1"
  shows "nodes_ok (nodes srv) \<and> rnodes_ok (rnodes srv) (remotes (nodes srv)) \<and> rx_ok (rxTrans srv) \<and>
    tx_ok (txTrans srv) \<and> length (ln_sess (lnode (nodes srv))) \<le> k"
  using reachable_ok [OF assms] by (simp add: srv_ok_def srv_len_def)

theorem server_invariant_witness:
  "\<exists>srv. reachable sample_api Empty sample_env 1 srv \<and> nodes_ok (nodes srv) \<and> sent srv = [([9], ''smf:8805'')]"
proof -
  let ?srv0 = "NewPfcpServer 1000 2 ''upf'' 0 () :: (unit, sample_ie) PfcpServer"
  let ?srv1 = "?srv0\<lparr>rxTrans := AList.update (trID ''smf:8805'' 5) (NewRxTransaction ?srv0 ''smf:8805'' 5) (rxTrans ?srv0)\<rparr>"
  define srv where "srv = respond sample_env 0 5 (HeartbeatResponse [R_RecoveryTimeStamp (recoveryTime ?srv0)]) ''smf:8805'' ?srv1"
  have empty: "rxTrans ?srv0 = []" "sent ?srv0 = []" by (simp_all add: NewPfcpServer_def)
  have "main_step sample_api Empty sample_env (Packet ''smf:8805'' [1]) ?srv0 = Ok (True, srv)"
    using heartbeat_step [OF sample_heartbeat(1), where srv = ?srv0 and addr = "''smf:8805''"] empty by (simp add: srv_def)
  from reachable.turn [OF reachable.start this] have reach: "reachable sample_api Empty sample_env 1 srv" by simp
  have "rx_ok (rxTrans ?srv1)" by (simp add: empty rx_ok_def NewRxTransaction_def)
  then have "sent srv = [([9], ''smf:8805'')]"
    unfolding srv_def by (subst respond_sends) (simp_all add: empty sample_heartbeat isResponse_def)
  with reach server_invariant [OF reach] show ?thesis by auto
qed

text \<open>
  C2. Exactly these events panic the server in a reachable state: a SEID above \<open>2^63\<close> in a data
  plane report, in a modification or deletion request that is not a duplicate, or in a report
  response; a report response with SEID 0 when the scan of the session table meets an empty entry;
  and a response to a transaction whose request could not be marshalled. Every other event is
  served.
\<close>

theorem server_panics_exactly:
  assumes "reachable api drv env k srv" and "k < 2 ^ 63 - 1"
  shows "main_step api drv env ev srv = Panic \<longleftrightarrow> panicking env ev srv"
proof -
  have "srv_ok srv" "srv_len srv \<le> k" using reachable_ok [OF assms] by simp_all
  moreover from this assms(2) have "srv_len srv + 1 < 2 ^ 63" by simp
  ultimately show ?thesis using main_step_good(2) by blast
qed

theorem server_panics_exactly_witness:
  "main_step sample_api Empty sample_env (Packet ''smf:8805'' [3]) (NewPfcpServer 1000 2 ''upf'' 0 ()) = Panic \<and>
   main_step sample_api Empty sample_env (Packet ''smf:8805'' [1]) (NewPfcpServer 1000 2 ''upf'' 0 ()) \<noteq> Panic"
  using server_panics_exactly [OF reachable.start, where api = sample_api and drv = Empty and env = sample_env]
  by (simp add: panicking_def sample_env_def isRequest_def panicking_request_def seid_request_def NewPfcpServer_def)

text \<open>
  C22. Requests are handled at most once. What is sent while a request is served for the first time is the response
  that its transaction stores, or nothing. A retransmission of the request changes nothing but the outgoing datagrams: the
  stored response is sent again, to the same address, if there is one and the connection takes it.
\<close>

theorem duplicate_request_answered_from_store:
  assumes ok: "srv_ok srv" "srv_len srv + 1 < 2 ^ 63" and m: "Parse env buf = Some m" "isRequest m" "buf \<noteq> []"
    and first: "main_step api drv env (Packet addr buf) srv = Ok (True, srv1)"
  shows "\<exists>rx out. map_of (rxTrans srv1) (trID addr (msg_Seq m)) = Some rx \<and>
    sent srv1 = sent srv @ out \<and> (out = [] \<or> out = [(rx_msgBuf rx, addr)]) \<and>
    main_step api drv env (Packet addr buf) srv1 = Ok (True, srv1\<lparr>sent := sent srv1 @
      (if rx_msgBuf rx \<noteq> [] \<and> WriteTo env (rx_msgBuf rx) addr then [(rx_msgBuf rx, addr)] else [])\<rparr>)"
proof -
  let ?i = "trID addr (msg_Seq m)"
  have ok1: "srv_ok srv1" using main_step_good(1) [OF ok first] by simp
  have raddr: "rx_raddr rx = addr" if "map_of (rxTrans s) ?i = Some rx" "srv_ok s" for rx and s :: "('a, 'b) PfcpServer"
    using that map_of_SomeD [OF that(1)] by (auto simp: srv_ok_def rx_ok_def)
  have serve: "serve_request api drv env m addr srv = Ok srv1" using first m by (auto simp: main_step_def go_simps)
  have "\<exists>rx out. map_of (rxTrans srv1) ?i = Some rx \<and> sent srv1 = sent srv @ out \<and> (out = [] \<or> out = [(rx_msgBuf rx, addr)])"
  proof (cases "map_of (rxTrans srv) ?i")
    case None
    let ?srv0 = "srv\<lparr>rxTrans := AList.update ?i (NewRxTransaction srv addr (msg_Seq m)) (rxTrans srv)\<rparr>"
    have "logged ?srv0 (reqDispacher api drv env m addr ?srv0) = Ok srv1" using serve None by (simp add: serve_request_cases Let_def)
    from logged_keeps [OF dispatchers_keep_rx_tx(1) this] show ?thesis
      by (simp add: answered_def update_conv' NewRxTransaction_def)
  next
    case (Some rx)
    with serve raddr [OF Some ok(1)] show ?thesis by (auto simp: serve_request_cases conn_write_def split: if_splits)
  qed
  then obtain rx out where rx: "map_of (rxTrans srv1) ?i = Some rx"
    and out: "sent srv1 = sent srv @ out" "out = [] \<or> out = [(rx_msgBuf rx, addr)]" by blast
  have "serve_request api drv env m addr srv1 = Ok (srv1\<lparr>sent := sent srv1 @
      (if rx_msgBuf rx \<noteq> [] \<and> WriteTo env (rx_msgBuf rx) addr then [(rx_msgBuf rx, addr)] else [])\<rparr>)"
    using rx raddr [OF rx ok1] by (simp add: serve_request_cases conn_write_def)
  then show ?thesis
    using m rx out by (auto simp: main_step_def)
qed

theorem duplicate_request_answered_from_store_witness:
  "\<exists>srv1. main_step sample_api Empty sample_env (Packet ''smf:8805'' [1]) sample_srv = Ok (True, srv1) \<and>
     main_step sample_api Empty sample_env (Packet ''smf:8805'' [1]) srv1 = Ok (True, srv1\<lparr>sent := sent srv1 @ [([9], ''smf:8805'')]\<rparr>)"
proof -
  let ?srv1 = "respond sample_env 0 5 (HeartbeatResponse [R_RecoveryTimeStamp (recoveryTime sample_srv)]) ''smf:8805''
    (sample_srv\<lparr>rxTrans := AList.update (trID ''smf:8805'' 5) (NewRxTransaction sample_srv ''smf:8805'' 5) (rxTrans sample_srv)\<rparr>)"
  have "map_of (rxTrans sample_srv) (trID ''smf:8805'' 5) = None" by (simp add: sample_srv_def)
  then have step: "main_step sample_api Empty sample_env (Packet ''smf:8805'' [1]) sample_srv = Ok (True, ?srv1)"
    using heartbeat_step [OF sample_heartbeat(1), where srv = sample_srv and addr = "''smf:8805''"] by simp
  have "sent ?srv1 = sent sample_srv @ [([9], ''smf:8805'')]"
    by (simp add: respond_def sendRspTo_def isResponse_def rx_send_def conn_write_def put_rx_def update_conv' NewRxTransaction_def sample_env_def)
  then show ?thesis
    using duplicate_request_answered_from_store [OF sample_srv_ok sample_heartbeat(1,2) _ step] step
    by (auto simp: sample_env_def)
qed

text \<open>The events \<open>TxTimeout i\<close>, \<open>n\<close> times.\<close>

fun fire :: "'ie pfcp_env \<Rightarrow> nat \<Rightarrow> string \<Rightarrow> ('d, 'ie) PfcpServer \<Rightarrow> ('d, 'ie) PfcpServer" where
  "fire env 0 i srv = srv"
| "fire env (Suc n) i srv =
     (case map_of (txTrans srv) i of None \<Rightarrow> srv | Some tx \<Rightarrow> fire env n i (tx_handleTimeout env tx srv))"

lemma tx_timeout_cases:
  assumes "tx_id tx = i" and "\<And>b a. WriteTo env b a"
  shows "retransCount tx < maxRetrans tx \<Longrightarrow> tx_handleTimeout env tx srv =
      srv\<lparr>sent := sent srv @ [(tx_msgBuf tx, tx_raddr tx)],
          txTrans := AList.update i (tx\<lparr>retransCount := retransCount tx + 1, tx_timer := True\<rparr>) (txTrans srv)\<rparr>"
    and "\<not> retransCount tx < maxRetrans tx \<Longrightarrow> tx_handleTimeout env tx srv = srv\<lparr>txTrans := AList.delete i (txTrans srv)\<rparr>"
  using assms
  by (auto simp: tx_handleTimeout_def conn_write_def put_tx_def txtoDispacher_def handleSessionReportRequestTimeout_def
      split: option.split msg_body.split)

text \<open>
  C23. Retransmission is bounded and ends: while its timer keeps firing, a request that was sent
  is written again on each of the first \<^verbatim>\<open>maxRetrans\<close> timeouts, exactly the same octets to the same
  address, and the next timeout forgets the transaction; after that further timeouts do nothing.
\<close>

theorem retransmission_bounded:
  assumes "map_of (txTrans srv) i = Some tx" and "tx_id tx = i" and "retransCount tx \<le> maxRetrans tx"
    and "\<And>b a. WriteTo env b a"
  shows "(let k = unat (maxRetrans tx) - unat (retransCount tx); srv' = fire env n i srv in
    sent srv' = sent srv @ replicate (min n k) (tx_msgBuf tx, tx_raddr tx) \<and>
    (map_of (txTrans srv') i = None \<longleftrightarrow> k < n))"
  using assms(1-3)
proof (induction n arbitrary: srv tx)
  case (Suc n)
  show ?case
  proof (cases "retransCount tx < maxRetrans tx")
    case True
    let ?tx = "tx\<lparr>retransCount := retransCount tx + 1, tx_timer := True\<rparr>"
    let ?srv = "srv\<lparr>sent := sent srv @ [(tx_msgBuf tx, tx_raddr tx)], txTrans := AList.update i ?tx (txTrans srv)\<rparr>"
    have u: "unat (retransCount tx + 1) = unat (retransCount tx) + 1" "unat (retransCount tx) < unat (maxRetrans tx)"
      using True unat_u8_less [of "maxRetrans tx"] by (simp_all add: word_less_nat_alt unat_word_ariths)
    have "retransCount ?tx \<le> maxRetrans ?tx" using u by (simp add: word_le_nat_alt)
    with Suc.IH [of ?srv ?tx] Suc.prems u tx_timeout_cases(1) [OF Suc.prems(2) assms(4) True, of srv] show ?thesis
      by (simp add: Let_def update_conv' min_def) (cases "unat (maxRetrans tx) - unat (retransCount tx)"; auto)
  next
    case False
    then have eq: "retransCount tx = maxRetrans tx" using Suc.prems(3) by simp
    have "fire env m i (srv\<lparr>txTrans := AList.delete i (txTrans srv)\<rparr>) = srv\<lparr>txTrans := AList.delete i (txTrans srv)\<rparr>" for m
      by (cases m) (simp_all add: delete_conv')
    with Suc.prems tx_timeout_cases(2) [OF Suc.prems(2) assms(4) False, of srv] eq show ?thesis by (simp add: delete_conv')
  qed
qed (simp add: Let_def)

theorem retransmission_bounded_witness:
  "sent (fire sample_env 5 (trID ''smf:8805'' 7) sample_srv) = [([9], ''smf:8805''), ([9], ''smf:8805'')] \<and>
   map_of (txTrans (fire sample_env 5 (trID ''smf:8805'' 7) sample_srv)) (trID ''smf:8805'' 7) = None"
proof -
  have t: "map_of (txTrans sample_srv) (trID ''smf:8805'' 7) = Some sample_tx" "tx_id sample_tx = trID ''smf:8805'' 7"
      "retransCount sample_tx \<le> maxRetrans sample_tx"
    by (simp_all add: sample_srv_def sample_tx_def)
  have "WriteTo sample_env b a" for b a by (simp add: sample_env_def)
  moreover have "sent sample_srv = []" "maxRetrans sample_tx = 2" "retransCount sample_tx = 0" "tx_msgBuf sample_tx = [9]"
      "tx_raddr sample_tx = ''smf:8805''" by (simp_all add: sample_srv_def sample_tx_def NewPfcpServer_def)
  moreover have "replicate 2 x = [x, x]" for x :: "bytes \<times> string" by (simp add: numeral_2_eq_2)
  ultimately show ?thesis using retransmission_bounded [OF t, of sample_env 5] by (simp add: Let_def)
qed

text \<open>
  C29. Responses complete exactly their own transaction: a response ends the transaction of the
  sender's address and the response's sequence number, if there is one, and no other. Since PFCP
  carries sequence numbers of 24 bits while the server counts its requests with 32 bits, no response
  ever ends a transaction numbered \<open>2^24\<close> or more.
\<close>

theorem response_ends_own_transaction:
  assumes ok: "srv_ok srv" and m: "Parse env buf = Some m" "isResponse m" "\<not> isRequest m" "buf \<noteq> []"
    and bits: "\<And>b m. Parse env b = Some m \<Longrightarrow> msg_Seq m < 2 ^ 24"
    and step: "main_step api drv env (Packet addr buf) srv = Ok (True, srv')"
  shows "(\<forall>i. map_of (txTrans srv') i = (if i = trID addr (msg_Seq m) then None else map_of (txTrans srv) i)) \<and>
    (\<forall>a q. 2 ^ 24 \<le> q \<longrightarrow> map_of (txTrans srv') (trID a q) = map_of (txTrans srv) (trID a q))"
proof -
  have serve: "serve_response api drv m addr srv = Ok srv'" using step m by (auto simp: main_step_def go_simps)
  have "map_of (txTrans srv') i = (if i = trID addr (msg_Seq m) then None else map_of (txTrans srv) i)" for i
  proof (cases "map_of (txTrans srv) (trID addr (msg_Seq m))")
    case None
    with serve show ?thesis by (auto simp: serve_response_def)
  next
    case (Some tx)
    let ?srv1 = "srv\<lparr>txTrans := AList.delete (tx_id tx) (txTrans srv)\<rparr>"
    have "tx_id tx = trID addr (msg_Seq m)" using ok map_of_SomeD [OF Some] by (auto simp: srv_ok_def tx_ok_def)
    moreover have "logged ?srv1 (rspDispacher api drv m addr (tx_req tx) ?srv1) = Ok srv'"
      using serve Some by (simp add: serve_response_def tx_recv_def split: if_splits)
    from logged_keeps [OF dispatchers_keep_rx_tx(2) this] have "txTrans srv' = AList.delete (tx_id tx) (txTrans srv)" by simp
    ultimately show ?thesis by (simp add: delete_conv')
  qed
  moreover have "msg_Seq m \<noteq> q" if "2 ^ 24 \<le> q" for q using bits [OF m(1)] that by auto
  ultimately show ?thesis by auto
qed

theorem response_ends_own_transaction_witness:
  "\<exists>srv'. main_step sample_api Empty sample_env (Packet ''smf:8805'' [2]) sample_srv = Ok (True, srv') \<and>
     map_of (txTrans sample_srv) (trID ''smf:8805'' 7) = Some sample_tx \<and> map_of (txTrans srv') (trID ''smf:8805'' 7) = None"
proof -
  have p: "Parse sample_env [2] = Some \<lparr>msg_SEID = 0, msg_Seq = 7, msg_body = SessionReportResponse\<rparr>"
      "isResponse (\<lparr>msg_SEID = 0, msg_Seq = 7, msg_body = SessionReportResponse\<rparr> :: sample_ie pfcp_msg)"
      "\<not> isRequest (\<lparr>msg_SEID = 0, msg_Seq = 7, msg_body = SessionReportResponse\<rparr> :: sample_ie pfcp_msg)"
    by (simp_all add: sample_env_def isRequest_def isResponse_def)
  have bits: "msg_Seq m < 2 ^ 24" if "Parse sample_env b = Some m" for b m
    using that by (auto simp: sample_env_def split: if_splits)
  have tx: "map_of (txTrans sample_srv) (trID ''smf:8805'' 7) = Some sample_tx" by (simp add: sample_srv_def)
  have scan: "LocalNode_RemoteSess (nodes sample_srv) 9 ''smf:8805'' = Err (RemoteSessNotFound 9 ''smf:8805'')"
    by (simp add: sample_srv_def sample_nodes1_def LocalNode_RemoteSess_def fresh_sess_def)
  have "tx_timer sample_tx" "tx_req sample_tx = Some \<lparr>msg_SEID = 9, msg_Seq = 7, msg_body = SessionReportRequest []\<rparr>"
    by (simp_all add: sample_tx_def)
  then obtain srv' where step: "main_step sample_api Empty sample_env (Packet ''smf:8805'' [2]) sample_srv = Ok (True, srv')"
    using p tx scan by (simp add: main_step_def serve_response_def tx_recv_def rspDispacher_def handleSessionReportResponse_def logged_def)
  from response_ends_own_transaction [OF sample_srv_ok(1) p _ bits step] step tx show ?thesis by simp
qed

text \<open>
  C21. The life of a session over PFCP: an establishment request of an associated node sets up one
  session under a SEID that was free, with the rules of the request, and is answered with exactly
  that SEID; a deletion request with it, from anyone, is accepted and restores every lookup to what
  it was before the session. An establishment request of a node without association changes
  nothing and is not even answered.
\<close>

theorem session_lifecycle:
  assumes ok: "srv_ok srv" "srv_len srv + 1 < 2 ^ 63"
    and req: "est_NodeID req = Some x" "ie_NodeID env x = Inr i" "est_CPFSEID req = Some y" "ie_FSEID env y = Inr r"
    and rx: "map_of (rxTrans srv) (trID addr q) \<noteq> None" and net: "\<And>m. Marshal env m \<noteq> None" "\<And>b a. WriteTo env b a"
  shows "if map_of (rnodes srv) i = None then handleSessionEstablishmentRequest api drv env req q addr srv = Ok srv
    else \<exists>s s0 d srv1 ies. handleSessionEstablishmentRequest api drv env req q addr srv = Ok srv1 \<and>
      LocalNode_Sess (lnode (nodes srv)) (LocalID s) = Err (SessNotFound (LocalID s)) \<and>
      LocalNode_Sess (lnode (nodes srv1)) (LocalID s) = Ok s \<and> RemoteID s = r \<and>
      PDRIDs s0 = [] \<and> FARIDs s0 = [] \<and> URRIDs s0 = [] \<and> fst (establish_rules api drv req (s0, d)) = s \<and>
      sent srv1 = sent srv @ [(the (Marshal env \<lparr>msg_SEID = r, msg_Seq = q,
        msg_body = SessionEstablishmentResponse (ies @ [R_Cause CauseRequestAccepted, R_FSEID (LocalID s) (ResolveIP4 env (nodeID srv))])\<rparr>), addr)] \<and>
      (\<exists>srv2. handleSessionDeletionRequest api drv env (LocalID s) q' addr' srv1 = Ok srv2 \<and>
        (\<forall>j. LocalNode_Sess (lnode (nodes srv2)) j = LocalNode_Sess (lnode (nodes srv)) j))"
proof (cases "map_of (rnodes srv) i")
  case None
  with req show ?thesis by (simp add: handleSessionEstablishmentRequest_def)
next
  case (Some a)
  obtain s0 nd s d where e: "RemoteNode_NewSess (nodes srv) a r = Ok (s0, nd)"
      "establish_rules api drv req (s0, dataplane srv) = (s, d)" "srv_ok (set_sess s d (srv\<lparr>nodes := nd\<rparr>))"
      "sess_at (lnode (nodes srv)) (LocalID s) = None" "RemoteID s = r" "LocalID s \<noteq> 0" "\<not> 2 ^ 63 < LocalID s"
      and at: "sess_at (lnode (nodes (set_sess s d (srv\<lparr>nodes := nd\<rparr>)))) = (sess_at (lnode (nodes srv)))(LocalID s \<mapsto> s)"
      and rn: "sess_rnode s = Some a"
    by (rule establish_spec [OF ok Some, of r api drv req]) iprover
  let ?srv = "set_sess s d (srv\<lparr>nodes := nd\<rparr>)"
  let ?ies = "concat (map (created_pdr api env) (est_CreatePDR req)) @ [R_NodeID (newIeNodeID env (nodeID srv))]"
  define srv1 where "srv1 = respond env r q (SessionEstablishmentResponse (?ies @
      [R_Cause CauseRequestAccepted, R_FSEID (LocalID s) (ResolveIP4 env (nodeID srv))])) addr ?srv"
  have est: "handleSessionEstablishmentRequest api drv env req q addr srv = Ok srv1"
    using req Some e(1,2,5) by (simp add: handleSessionEstablishmentRequest_def srv1_def Let_def set_sess_def)
  have "sent srv1 = sent srv @ [(the (Marshal env \<lparr>msg_SEID = r, msg_Seq = q,
      msg_body = SessionEstablishmentResponse (?ies @ [R_Cause CauseRequestAccepted, R_FSEID (LocalID s) (ResolveIP4 env (nodeID srv))])\<rparr>), addr)]"
    unfolding srv1_def using rx net e(3) by (subst respond_sends) (simp_all add: isResponse_def srv_ok_def)
  moreover have look1: "LocalNode_Sess (lnode (nodes srv1)) (LocalID s) = Ok s"
    using e(6,7) at by (simp add: srv1_def Sess_spec)
  have ok1: "srv_ok srv1" using e(3) by (simp add: srv1_def)
  obtain us s' nd' d' where del: "RemoteNode_DeleteSess api drv (nodes srv1) (dataplane srv1) a (LocalID s) = Ok (us, Some s', nd', d')"
      and at': "sess_at (lnode nd') = (sess_at (lnode (nodes srv1)))(LocalID s := None)"
    by (rule DeleteSess_srv_ok [OF ok1 look1 rn, of api drv]) iprover
  obtain rp s2 where rp: "usage_reports (\<lambda>r. IEsWithinSessDelRsp (set_trigger USAR_TRIG_TERMR r)) True us s' = (rp, s2)"
    by (metis prod.exhaust)
  obtain srv2 where two: "handleSessionDeletionRequest api drv env (LocalID s) q' addr' srv1 = Ok srv2" "nodes srv2 = nd'"
    using look1 rn del rp by (auto simp: handleSessionDeletionRequest_def Let_def)
  have "sess_at (lnode nd') = sess_at (lnode (nodes srv))" using at at' e(4) by (auto simp: srv1_def fun_eq_iff)
  then have "LocalNode_Sess (lnode (nodes srv2)) j = LocalNode_Sess (lnode (nodes srv)) j" for j by (simp add: two(2) Sess_spec)
  moreover have "LocalNode_Sess (lnode (nodes srv)) (LocalID s) = Err (SessNotFound (LocalID s))" using e(4,6,7) by (simp add: Sess_spec)
  moreover have "PDRIDs s0 = [] \<and> FARIDs s0 = [] \<and> URRIDs s0 = []"
    using e(1) by (auto simp: RemoteNode_NewSess_def LocalNode_NewSess_def Let_def fresh_sess_def go_simps split: if_splits)
  ultimately show ?thesis using Some est look1 e(2,5) two(1) by (simp del: append_assoc) (metis fst_conv)
qed

definition sample_est :: "sample_ie est_req" where
  "sample_est = \<lparr>est_NodeID = Some (S_PDRID 0), est_CPFSEID = Some (S_PDRID 0), est_CreateFAR = [S_FARID 1], est_CreateQER = [],
     est_CreateURR = [S_URRID 7], est_CreateBAR = None, est_CreatePDR = [S_group [S_PDRID 1, S_URRID 7]]\<rparr>"

theorem session_lifecycle_witness:
  "\<exists>s srv1. handleSessionEstablishmentRequest sample_api Empty sample_env sample_est 20 ''smf:8805'' sample_srv = Ok srv1 \<and>
     LocalNode_Sess (lnode (nodes srv1)) (LocalID s) = Ok s \<and> RemoteID s = 9 \<and> sent srv1 = [([9], ''smf:8805'')]"
proof -
  have req: "est_NodeID sample_est = Some (S_PDRID 0)" "ie_NodeID sample_env (S_PDRID 0) = Inr ''smf''"
      "est_CPFSEID sample_est = Some (S_PDRID 0)" "ie_FSEID sample_env (S_PDRID 0) = Inr 9"
    by (simp_all add: sample_est_def sample_env_def)
  have env: "map_of (rxTrans sample_srv) (trID ''smf:8805'' 20) \<noteq> None" "Marshal sample_env m = Some [9]" "WriteTo sample_env b a" for m b a
    by (simp_all add: sample_srv_def sample_env_def)
  have "map_of (rnodes sample_srv) ''smf'' = Some 0" "sent sample_srv = []" by (simp_all add: sample_srv_def NewPfcpServer_def)
  with session_lifecycle [OF sample_srv_ok req env(1), of sample_api Empty 1 "''x''"] env(2,3) show ?thesis by auto
qed

lemma report_loop_usage:
  "report_loop env laddr i (map USAReport_r us @ rest) acc srv = report_loop env laddr i rest (acc @ us) srv"
  by (induction us arbitrary: acc) auto

text \<open>
  C30. Reports of the data plane: usage reports of a known session leave in one session report
  request, to the address of the session's node, with the next sequence number. But when a downlink
  data report that asks for no notification follows in the same batch, the whole batch is
  abandoned: the usage reports before it are lost and nothing is sent.
\<close>

theorem data_plane_reports:
  assumes ok: "srv_ok srv" and s: "LocalNode_Sess (lnode (nodes srv)) (sr_SEID sr) = Ok s" "sess_rnode s = Some a"
    and laddr: "ResolveUDPAddr env (rn_ID (remotes (nodes srv) ! a) @ '':'' @ dec 8805) = Some laddr"
    and net: "\<And>m. Marshal env m \<noteq> None" "\<And>b a. WriteTo env b a"
    and us: "us \<noteq> []" "sr_Reports sr = map USAReport_r us @ rest"
    and rest: "rest = [] \<or> (\<exists>p act pkt rs. rest = DLDReport p act pkt # rs \<and> act AND APPLY_ACT_NOCP = 0)"
  shows "\<exists>srv'. ServeReport env sr srv = Ok srv' \<and>
    (if rest = []
     then sent srv' = sent srv @ [(the (Marshal env \<lparr>msg_SEID = RemoteID s, msg_Seq = txSeq srv,
         msg_body = SessionReportRequest (R_ReportType [0, 0, 1, 0] # fst (usage_reports IEsWithinSessReportReq False us s))\<rparr>), laddr)] \<and>
       txSeq srv' = txSeq srv + 1 \<and> map_of (txTrans srv') (trID laddr (txSeq srv)) \<noteq> None
     else sent srv' = sent srv \<and> txSeq srv' = txSeq srv \<and> txTrans srv' = txTrans srv)"
proof (cases rest)
  case Nil
  obtain rp s2 where u: "usage_reports IEsWithinSessReportReq False us s = (rp, s2)" by (metis prod.exhaust)
  have "RemoteID s2 = RemoteID s" using usage_reports_keeps [OF u] by (simp add: keeps_def same_id_def)
  moreover obtain b where "Marshal env \<lparr>msg_SEID = RemoteID s, msg_Seq = txSeq srv,
      msg_body = SessionReportRequest (R_ReportType [0, 0, 1, 0] # rp)\<rparr> = Some b" using net(1) by blast
  ultimately show ?thesis
    using Nil s laddr us net(2) u report_loop_usage [of env laddr "sr_SEID sr" us "[]" "[]" srv]
    by (simp add: ServeReport_def serveUSAReport_def report_request_def sendReqTo_def isRequest_def NewTxTransaction_def tx_send_def
        setReqSeq_def conn_write_def put_tx_def set_sess_def update_conv' Let_def)
next
  case (Cons x rs)
  with rest obtain p act pkt where x: "x = DLDReport p act pkt" "act AND APPLY_ACT_NOCP = 0" by auto
  obtain s' where "Sess_Push s p pkt = Ok s'" by (rule push_ok [OF ok s(1), of p pkt])
  then show ?thesis
    using Cons x s laddr us report_loop_usage [of env laddr "sr_SEID sr" us "x # rs" "[]" srv]
    by (auto simp: ServeReport_def set_sess_def)
qed

definition sample_report :: USAReport where
  "sample_report = \<lparr>usar_URRID = 7, URSEQN = 0, USARTrigger = \<lparr>usar_Flags = 1\<rparr>,
     VolumMeasure = \<lparr>vm_Flags = 0, TotalVolume = 1, UplinkVolume = 1, DownlinkVolume = 0, TotalPktNum = 1, UplinkPktNum = 1, DownlinkPktNum = 0\<rparr>,
     DuratMeasure = 0, QueryUrrRef = 0, StartTime = 0, EndTime = 1\<rparr>"

theorem data_plane_reports_witness:
  "\<exists>srv'. ServeReport sample_env \<lparr>sr_SEID = 1, sr_Reports = [USAReport_r sample_report, DLDReport 1 4 [0]]\<rparr> sample_srv = Ok srv' \<and> sent srv' = []"
proof -
  have s: "LocalNode_Sess (lnode (nodes sample_srv)) (sr_SEID \<lparr>sr_SEID = 1, sr_Reports = [USAReport_r sample_report, DLDReport 1 4 [0]]\<rparr>) =
      Ok ((fresh_sess 9 BUFFQ_LEN)\<lparr>LocalID := 1, sess_rnode := Some 0\<rparr>)"
      "sess_rnode ((fresh_sess 9 BUFFQ_LEN)\<lparr>LocalID := 1, sess_rnode := Some 0\<rparr>) = Some 0" "sent sample_srv = []"
    by (simp_all add: Sess_spec sess_at_def sample_srv_def sample_nodes1_def NewPfcpServer_def)
  have env: "ResolveUDPAddr sample_env x = Some x" "Marshal sample_env m \<noteq> None" "WriteTo sample_env b a" for x m b a
    by (simp_all add: sample_env_def)
  show ?thesis
    using data_plane_reports [OF sample_srv_ok(1) s(1,2) env, of "[sample_report]" "[DLDReport 1 4 [0]]"] s(3) by auto
qed

end
