(* ===== verification/Chf_CdrFile.thy ===== *)
theory Chf_CdrFile
  imports Go_Bytes
begin

text \<open>
  The charging data record files of the CHF (\<open>NFs/chf/cdr/cdrFile/cdrFile.go\<close>, TS 32.297): the file
  header, the record headers, \<open>Encoding\<close> and \<open>Decoding\<close>. A record is the Go struct of the same name;
  named integer types (\<open>FileClosureTriggerReasonType\<close>, \<open>ReleaseIdentifierType\<close>, ...) are their
  underlying \<open>uint8\<close>. The file system is left out: \<open>CDRFile_Encoding\<close> is the buffer that
  \<open>os.WriteFile\<close> receives, \<open>CDRFile_Decoding\<close> starts from the slice that \<open>os.ReadFile\<close> returned, with
  whatever spare capacity it has; it returns no error value, so the error type is \<open>unit\<close>. The warnings the code prints change nothing else.

  The sums \<open>50 + lengthOfCdrRouteingFilter\<close> and \<open>xy + 2 + LengthOfPrivateExtension\<close> are of type
  \<open>uint16\<close> and wrap, as does the 32-bit cursor \<open>tail\<close>; the model keeps both widths.
\<close>

section \<open>Data\<close>

record CdrHdrTimeStamp =
  MonthLocal :: u8
  DateLocal :: u8
  HourLocal :: u8
  MinuteLocal :: u8
  SignOfTheLocalTimeDifferentialFromUtc :: u8
  HourDeviation :: u8
  MinuteDeviation :: u8

record CdrFileHeader =
  FileLength :: u32
  HeaderLength :: u32
  HighReleaseIdentifier :: u8
  HighVersionIdentifier :: u8
  LowReleaseIdentifier :: u8
  LowVersionIdentifier :: u8
  FileOpeningTimestamp :: CdrHdrTimeStamp
  TimestampWhenLastCdrWasAppendedToFIle :: CdrHdrTimeStamp
  NumberOfCdrsInFile :: u32
  FileSequenceNumber :: u32
  FileClosureTriggerReason :: u8
  IpAddressOfNodeThatGeneratedFile :: bytes
  LostCdrIndicator :: u8
  LengthOfCdrRouteingFilter :: u16
  CDRRouteingFilter :: bytes
  LengthOfPrivateExtension :: u16
  PrivateExtension :: bytes
  HighReleaseIdentifierExtension :: u8
  LowReleaseIdentifierExtension :: u8

record CdrHeader =
  CdrLength :: u16
  ReleaseIdentifier :: u8
  VersionIdentifier :: u8
  DataRecordFormat :: u8
  TsNumber :: u8
  ReleaseIdentifierExtension :: u8

record CDR =
  cdr_Hdr :: CdrHeader
  CdrByte :: bytes

record CDRFile =
  file_Hdr :: CdrFileHeader
  CdrList :: "CDR list"

section \<open>Encoding\<close>

text \<open>The packed time stamp, written out twice in the source.\<close>

definition timestamp_word :: "CdrHdrTimeStamp \<Rightarrow> u32" where
  "timestamp_word t =
     push_bit 28 (ucast (MonthLocal t)) OR push_bit 23 (ucast (DateLocal t)) OR
     push_bit 18 (ucast (HourLocal t)) OR push_bit 12 (ucast (MinuteLocal t)) OR
     push_bit 11 (ucast (SignOfTheLocalTimeDifferentialFromUtc t)) OR
     push_bit 6 (ucast (HourDeviation t)) OR ucast (MinuteDeviation t)"

definition CdrFileHeader_Encoding :: "CdrFileHeader \<Rightarrow> bytes" where
  "CdrFileHeader_Encoding h =
     put32 (FileLength h) @ put32 (HeaderLength h) @
     [push_bit 5 (HighReleaseIdentifier h) OR HighVersionIdentifier h] @
     [push_bit 5 (LowReleaseIdentifier h) OR LowVersionIdentifier h] @
     put32 (timestamp_word (FileOpeningTimestamp h)) @
     put32 (timestamp_word (TimestampWhenLastCdrWasAppendedToFIle h)) @
     put32 (NumberOfCdrsInFile h) @ put32 (FileSequenceNumber h) @
     [FileClosureTriggerReason h] @ IpAddressOfNodeThatGeneratedFile h @ [LostCdrIndicator h] @
     put16 (LengthOfCdrRouteingFilter h) @ CDRRouteingFilter h @
     put16 (LengthOfPrivateExtension h) @ PrivateExtension h @
     (if HighReleaseIdentifier h = 7 then [HighReleaseIdentifierExtension h] else []) @
     (if LowReleaseIdentifier h = 7 then [LowReleaseIdentifierExtension h] else [])"

definition CdrHeader_Encoding :: "CdrHeader \<Rightarrow> bytes" where
  "CdrHeader_Encoding h =
     put16 (CdrLength h) @ [push_bit 5 (ReleaseIdentifier h) OR VersionIdentifier h] @
     [push_bit 5 (DataRecordFormat h) OR TsNumber h] @
     (if ReleaseIdentifier h = 7 then [ReleaseIdentifierExtension h] else [])"

definition CDRFile_Encoding :: "CDRFile \<Rightarrow> bytes" where
  "CDRFile_Encoding f =
     CdrFileHeader_Encoding (file_Hdr f) @
     concat (map (\<lambda>c. CdrHeader_Encoding (cdr_Hdr c) @ CdrByte c) (CdrList f))"

section \<open>Decoding\<close>

definition decode_timestamp :: "u32 \<Rightarrow> CdrHdrTimeStamp" where
  "decode_timestamp ts =
     \<lparr>MonthLocal = ucast (drop_bit 28 ts), DateLocal = ucast (drop_bit 23 ts AND 31),
      HourLocal = ucast (drop_bit 18 ts AND 31), MinuteLocal = ucast (drop_bit 12 ts AND 63),
      SignOfTheLocalTimeDifferentialFromUtc = ucast (drop_bit 11 ts AND 1),
      HourDeviation = ucast (drop_bit 6 ts AND 31), MinuteDeviation = ucast (ts AND 63)\<rparr>"

text \<open>The file header up to the private extension, with \<open>n\<close>, the offset behind it.\<close>

definition decode_file_header :: "slice \<Rightarrow> (unit, CdrFileHeader \<times> u16) outcome" where
  "decode_file_header data =
     obind (read32 data 10) (\<lambda>opening.
     obind (read32 data 14) (\<lambda>lastAppend.
     obind (read32 data 18) (\<lambda>numberOfCdrsInFile.
     obind (read16 data 48) (\<lambda>lengthOfCdrRouteingFilter.
     let xy = 50 + lengthOfCdrRouteingFilter in
     obind (obind (sub data (unat xy) (unat (xy + 2))) get16) (\<lambda>lengthOfPrivateExtension.
     let n = xy + 2 + lengthOfPrivateExtension in
     obind (sub data 27 47) (\<lambda>ip.
     obind (read32 data 0) (\<lambda>fileLength.
     obind (read32 data 4) (\<lambda>headerLength.
     obind (at data 8) (\<lambda>high.
     obind (at data 9) (\<lambda>low.
     obind (read32 data 22) (\<lambda>fileSequenceNumber.
     obind (at data 26) (\<lambda>reason.
     obind (at data 47) (\<lambda>lost.
     obind (sub data 50 (unat xy)) (\<lambda>filter.
     obind (sub data (unat (xy + 2)) (unat n)) (\<lambda>ext.
     Ok (\<lparr>FileLength = fileLength, HeaderLength = headerLength,
          HighReleaseIdentifier = drop_bit 5 high, HighVersionIdentifier = high AND 31,
          LowReleaseIdentifier = drop_bit 5 low, LowVersionIdentifier = low AND 31,
          FileOpeningTimestamp = decode_timestamp opening,
          TimestampWhenLastCdrWasAppendedToFIle = decode_timestamp lastAppend,
          NumberOfCdrsInFile = numberOfCdrsInFile, FileSequenceNumber = fileSequenceNumber,
          FileClosureTriggerReason = reason, IpAddressOfNodeThatGeneratedFile = sdata ip,
          LostCdrIndicator = lost, LengthOfCdrRouteingFilter = lengthOfCdrRouteingFilter,
          CDRRouteingFilter = sdata filter, LengthOfPrivateExtension = lengthOfPrivateExtension,
          PrivateExtension = sdata ext, HighReleaseIdentifierExtension = 0,
          LowReleaseIdentifierExtension = 0\<rparr>, n))))))))))))))))"

text \<open>The two release extensions and the offset of the first record.\<close>

definition decode_extensions :: "slice \<Rightarrow> u16 \<Rightarrow> CdrFileHeader \<Rightarrow> (unit, CdrFileHeader \<times> u32) outcome" where
  "decode_extensions data n h =
     (let tail = ucast n in
      obind (if HighReleaseIdentifier h = 7
             then obind (at data (unat n)) (\<lambda>b. Ok (h\<lparr>HighReleaseIdentifierExtension := b\<rparr>, tail + 1))
             else Ok (h, tail)) (\<lambda>(h, tail).
      if LowReleaseIdentifier h = 7
      then obind (at data (unat (n + 1))) (\<lambda>b. Ok (h\<lparr>LowReleaseIdentifierExtension := b\<rparr>, tail + 1))
      else Ok (h, tail)))"

text \<open>One turn of the loop over the records: the record at \<open>tail\<close> and the next \<open>tail\<close>.\<close>

definition decode_cdr :: "slice \<Rightarrow> u32 \<Rightarrow> (unit, CDR \<times> u32) outcome" where
  "decode_cdr data tail =
     obind (obind (sub data (unat tail) (unat (tail + 2))) get16) (\<lambda>cdrLength.
     obind (at data (unat (tail + 2))) (\<lambda>oct3.
     obind (at data (unat (tail + 3))) (\<lambda>oct4.
     obind (if drop_bit 5 oct3 = 7
            then obind (at data (unat (tail + 4))) (\<lambda>b. Ok (b, 5))
            else Ok (0, 4)) (\<lambda>(ext, i).
     obind (sub data (unat (tail + i)) (unat (tail + i + ucast cdrLength))) (\<lambda>body.
     Ok (\<lparr>cdr_Hdr = \<lparr>CdrLength = cdrLength, ReleaseIdentifier = drop_bit 5 oct3,
                     VersionIdentifier = oct3 AND 31, DataRecordFormat = drop_bit 5 oct4,
                     TsNumber = oct4 AND 31, ReleaseIdentifierExtension = ext\<rparr>,
          CdrByte = sdata body\<rparr>,
         tail + (i + ucast cdrLength)))))))"

fun decode_cdrs :: "nat \<Rightarrow> slice \<Rightarrow> u32 \<Rightarrow> CDR list \<Rightarrow> (unit, CDR list) outcome" where
  "decode_cdrs 0 data tail cdrs = Ok cdrs"
| "decode_cdrs (Suc k) data tail cdrs =
     obind (decode_cdr data tail) (\<lambda>(cdr, tail). decode_cdrs k data tail (cdrs @ [cdr]))"

definition CDRFile_Decoding :: "CDRFile \<Rightarrow> slice \<Rightarrow> (unit, CDRFile) outcome" where
  "CDRFile_Decoding f data =
     obind (decode_file_header data) (\<lambda>(h, n).
     obind (decode_extensions data n h) (\<lambda>(h, tail).
     obind (decode_cdrs (unat (NumberOfCdrsInFile h)) data tail (CdrList f)) (\<lambda>cdrs.
     Ok \<lparr>file_Hdr = h, CdrList = cdrs\<rparr>)))"

section \<open>Well-formed files\<close>

text \<open>The Go types bound every field by its width; a well-formed time stamp, header and record also
  respect the bit fields of TS 32.297 and announce the lengths they have.\<close>

definition ts_ok :: "CdrHdrTimeStamp \<Rightarrow> bool" where
  "ts_ok t \<longleftrightarrow> MonthLocal t < 16 \<and> DateLocal t < 32 \<and> HourLocal t < 32 \<and> MinuteLocal t < 64 \<and>
     SignOfTheLocalTimeDifferentialFromUtc t < 2 \<and> HourDeviation t < 32 \<and> MinuteDeviation t < 64"

definition file_header_ok :: "CdrFileHeader \<Rightarrow> bool" where
  "file_header_ok h \<longleftrightarrow>
     HighReleaseIdentifier h < 8 \<and> HighVersionIdentifier h < 32 \<and>
     LowReleaseIdentifier h < 8 \<and> LowVersionIdentifier h < 32 \<and>
     ts_ok (FileOpeningTimestamp h) \<and> ts_ok (TimestampWhenLastCdrWasAppendedToFIle h) \<and>
     length (IpAddressOfNodeThatGeneratedFile h) = 20 \<and>
     unat (LengthOfCdrRouteingFilter h) = length (CDRRouteingFilter h) \<and>
     unat (LengthOfPrivateExtension h) = length (PrivateExtension h)"

definition cdr_ok :: "CDR \<Rightarrow> bool" where
  "cdr_ok c \<longleftrightarrow>
     ReleaseIdentifier (cdr_Hdr c) < 8 \<and> VersionIdentifier (cdr_Hdr c) < 32 \<and>
     DataRecordFormat (cdr_Hdr c) < 8 \<and> TsNumber (cdr_Hdr c) < 32 \<and>
     (ReleaseIdentifier (cdr_Hdr c) \<noteq> 7 \<longrightarrow> ReleaseIdentifierExtension (cdr_Hdr c) = 0) \<and>
     unat (CdrLength (cdr_Hdr c)) = length (CdrByte c)"

definition cdr_file_ok :: "CDRFile \<Rightarrow> bool" where
  "cdr_file_ok f \<longleftrightarrow> file_header_ok (file_Hdr f) \<and> list_all cdr_ok (CdrList f) \<and>
     unat (NumberOfCdrsInFile (file_Hdr f)) = length (CdrList f) \<and>
     length (CDRFile_Encoding f) < 2 ^ 32"

section \<open>Bit fields\<close>

lemmas bit_less_u8 =
  bit_less_exp [where 'a = 8 and k = 1, simplified] bit_less_exp [where 'a = 8 and k = 3, simplified]
  bit_less_exp [where 'a = 8 and k = 4, simplified] bit_less_exp [where 'a = 8 and k = 5, simplified]
  bit_less_exp [where 'a = 8 and k = 6, simplified]

lemma split_octet:
  fixes a b :: u8
  assumes "a < 8" "b < 32"
  shows "drop_bit 5 (push_bit 5 a OR b) = a" "(push_bit 5 a OR b) AND 31 = b"
proof -
  have bits: "bit a m \<Longrightarrow> m < 3" "bit b m \<Longrightarrow> m < 5" for m
    using bit_less_u8(2) [OF assms(1)] bit_less_u8(4) [OF assms(2)] by blast+
  show "drop_bit 5 (push_bit 5 a OR b) = a"
    by (rule bit_word_eqI) (auto simp: bit_simps dest: bits)
  show "(push_bit 5 a OR b) AND 31 = b"
    unfolding and_low_bits by (rule bit_word_eqI) (auto simp: bit_simps dest: bits)
qed

lemma decode_timestamp_word:
  assumes "ts_ok t"
  shows "decode_timestamp (timestamp_word t) = t"
proof -
  note ok = assms [unfolded ts_ok_def]
  have bits: "bit (MonthLocal t) m \<Longrightarrow> m < 4" "bit (DateLocal t) m \<Longrightarrow> m < 5"
    "bit (HourLocal t) m \<Longrightarrow> m < 5" "bit (MinuteLocal t) m \<Longrightarrow> m < 6"
    "bit (SignOfTheLocalTimeDifferentialFromUtc t) m \<Longrightarrow> m < 1"
    "bit (HourDeviation t) m \<Longrightarrow> m < 5" "bit (MinuteDeviation t) m \<Longrightarrow> m < 6" for m
    using ok bit_less_u8 by blast+
  note splits = bit_word_eqI [where 'a = 8]
  have
    "ucast (drop_bit 28 (timestamp_word t)) = MonthLocal t"
    "ucast (take_bit 5 (drop_bit 23 (timestamp_word t))) = DateLocal t"
    "ucast (take_bit 5 (drop_bit 18 (timestamp_word t))) = HourLocal t"
    "ucast (take_bit 6 (drop_bit 12 (timestamp_word t))) = MinuteLocal t"
    "ucast (take_bit 1 (drop_bit 11 (timestamp_word t))) = SignOfTheLocalTimeDifferentialFromUtc t"
    "ucast (take_bit 5 (drop_bit 6 (timestamp_word t))) = HourDeviation t"
    "ucast (take_bit 6 (timestamp_word t)) = MinuteDeviation t"
    unfolding timestamp_word_def
    by (rule splits; auto simp: bit_simps even_drop_bit_iff_not_bit dest: bits)+
  then show ?thesis by (simp add: decode_timestamp_def and_low_bits)
qed
section \<open>Fields at their offsets\<close>

text \<open>A buffer seen as the concatenation of its fields: a slice expression or an index at the
  offset of a field gives that field.\<close>

lemma sub_piece:
  assumes "k < length xs" and "length (concat (take k xs)) = i" and "i + length (xs ! k) = j"
  shows "sub (Slice (concat xs @ rest) sp) i j = Ok (Slice (xs ! k) (concat (drop (Suc k) xs) @ rest @ sp))"
proof -
  have "concat xs = concat (take k xs) @ xs ! k @ concat (drop (Suc k) xs)"
    using assms(1) by (metis append_assoc concat.simps(2) concat_append id_take_nth_drop)
  with assms(2,3) show ?thesis by (auto simp: sub_in_bounds)
qed

lemma at_piece:
  assumes "k < length xs" and "length (concat (take k xs)) = i" and "xs ! k = [b]"
  shows "at (Slice (concat xs @ rest) sp) i = Ok b"
proof -
  have "concat xs = concat (take k xs) @ xs ! k @ concat (drop (Suc k) xs)"
    using assms(1) by (metis append_assoc concat.simps(2) concat_append id_take_nth_drop)
  with assms(2,3) show ?thesis by (auto simp: at_def nth_append)
qed

lemma read32_piece:
  "k < length xs \<Longrightarrow> length (concat (take k xs)) = i \<Longrightarrow> xs ! k = put32 w \<Longrightarrow>
   read32 (Slice (concat xs @ rest) sp) i = Ok w"
  by (simp add: read32_def sub_piece [where k = k])

lemma read16_piece:
  "k < length xs \<Longrightarrow> length (concat (take k xs)) = i \<Longrightarrow> xs ! k = put16 w \<Longrightarrow>
   read16 (Slice (concat xs @ rest) sp) i = Ok w"
  by (simp add: read16_def sub_piece [where k = k])

definition header_pieces :: "CdrFileHeader \<Rightarrow> bytes list" where
  "header_pieces h =
     [put32 (FileLength h), put32 (HeaderLength h),
      [push_bit 5 (HighReleaseIdentifier h) OR HighVersionIdentifier h],
      [push_bit 5 (LowReleaseIdentifier h) OR LowVersionIdentifier h],
      put32 (timestamp_word (FileOpeningTimestamp h)),
      put32 (timestamp_word (TimestampWhenLastCdrWasAppendedToFIle h)),
      put32 (NumberOfCdrsInFile h), put32 (FileSequenceNumber h), [FileClosureTriggerReason h],
      IpAddressOfNodeThatGeneratedFile h, [LostCdrIndicator h],
      put16 (LengthOfCdrRouteingFilter h), CDRRouteingFilter h,
      put16 (LengthOfPrivateExtension h), PrivateExtension h]"

definition extension_octets :: "CdrFileHeader \<Rightarrow> bytes" where
  "extension_octets h =
     (if HighReleaseIdentifier h = 7 then [HighReleaseIdentifierExtension h] else []) @
     (if LowReleaseIdentifier h = 7 then [LowReleaseIdentifierExtension h] else [])"

lemma CdrFileHeader_Encoding_pieces:
  "CdrFileHeader_Encoding h = concat (header_pieces h) @ extension_octets h"
  by (simp add: CdrFileHeader_Encoding_def header_pieces_def extension_octets_def)

lemma length_header_pieces:
  "file_header_ok h \<Longrightarrow>
   length (concat (header_pieces h)) = 52 + length (CDRRouteingFilter h) + length (PrivateExtension h)"
  by (simp add: header_pieces_def file_header_ok_def)

lemma header_fields:
  fixes h :: CdrFileHeader and rest sp :: bytes
  defines "data \<equiv> Slice (concat (header_pieces h) @ rest) sp"
  assumes ok: "file_header_ok h"
  shows "read32 data 0 = Ok (FileLength h)" "read32 data 4 = Ok (HeaderLength h)"
    "at data 8 = Ok (push_bit 5 (HighReleaseIdentifier h) OR HighVersionIdentifier h)"
    "at data 9 = Ok (push_bit 5 (LowReleaseIdentifier h) OR LowVersionIdentifier h)"
    "read32 data 10 = Ok (timestamp_word (FileOpeningTimestamp h))"
    "read32 data 14 = Ok (timestamp_word (TimestampWhenLastCdrWasAppendedToFIle h))"
    "read32 data 18 = Ok (NumberOfCdrsInFile h)" "read32 data 22 = Ok (FileSequenceNumber h)"
    "at data 26 = Ok (FileClosureTriggerReason h)"
    "sub data 27 47 = Ok (Slice (IpAddressOfNodeThatGeneratedFile h) (concat (drop 10 (header_pieces h)) @ rest @ sp))"
    "at data 47 = Ok (LostCdrIndicator h)" "read16 data 48 = Ok (LengthOfCdrRouteingFilter h)"
proof -
  have ip: "length (IpAddressOfNodeThatGeneratedFile h) = 20" using ok by (simp add: file_header_ok_def)
  note at = at_piece [where xs = "header_pieces h" and rest = rest and sp = sp, folded data_def]
    and r32 = read32_piece [where xs = "header_pieces h" and rest = rest and sp = sp, folded data_def]
    and r16 = read16_piece [where xs = "header_pieces h" and rest = rest and sp = sp, folded data_def]
  show "read32 data 0 = Ok (FileLength h)" by (rule r32 [where k = 0]) (simp_all add: header_pieces_def)
  show "read32 data 4 = Ok (HeaderLength h)" by (rule r32 [where k = 1]) (simp_all add: header_pieces_def)
  show "at data 8 = Ok (push_bit 5 (HighReleaseIdentifier h) OR HighVersionIdentifier h)"
    by (rule at [where k = 2]) (simp_all add: header_pieces_def)
  show "at data 9 = Ok (push_bit 5 (LowReleaseIdentifier h) OR LowVersionIdentifier h)"
    by (rule at [where k = 3]) (simp_all add: header_pieces_def)
  show "read32 data 10 = Ok (timestamp_word (FileOpeningTimestamp h))"
    by (rule r32 [where k = 4]) (simp_all add: header_pieces_def)
  show "read32 data 14 = Ok (timestamp_word (TimestampWhenLastCdrWasAppendedToFIle h))"
    by (rule r32 [where k = 5]) (simp_all add: header_pieces_def)
  show "read32 data 18 = Ok (NumberOfCdrsInFile h)" by (rule r32 [where k = 6]) (simp_all add: header_pieces_def)
  show "read32 data 22 = Ok (FileSequenceNumber h)" by (rule r32 [where k = 7]) (simp_all add: header_pieces_def)
  show "at data 26 = Ok (FileClosureTriggerReason h)" by (rule at [where k = 8]) (simp_all add: header_pieces_def)
  show "sub data 27 47 = Ok (Slice (IpAddressOfNodeThatGeneratedFile h) (concat (drop 10 (header_pieces h)) @ rest @ sp))"
    unfolding data_def by (subst sub_piece [where k = 9]) (simp_all add: header_pieces_def ip)
  show "at data 47 = Ok (LostCdrIndicator h)" by (rule at [where k = 10]) (simp_all add: header_pieces_def ip)
  show "read16 data 48 = Ok (LengthOfCdrRouteingFilter h)"
    by (rule r16 [where k = 11]) (simp_all add: header_pieces_def ip)
qed

text \<open>The fields of variable length, for a header of fewer than \<open>2^16\<close> octets: no \<open>uint16\<close> sum wraps.\<close>

lemma header_tail:
  fixes h :: CdrFileHeader and rest sp :: bytes
  defines "data \<equiv> Slice (concat (header_pieces h) @ rest) sp"
    and "xy \<equiv> 50 + LengthOfCdrRouteingFilter h"
  defines "n \<equiv> xy + 2 + LengthOfPrivateExtension h"
  assumes ok: "file_header_ok h"
    and short: "52 + length (CDRRouteingFilter h) + length (PrivateExtension h) < 65536"
  shows "obind (sub data (unat xy) (unat (xy + 2))) get16 = Ok (LengthOfPrivateExtension h)"
    "sub data 50 (unat xy) = Ok (Slice (CDRRouteingFilter h) (concat (drop 13 (header_pieces h)) @ rest @ sp))"
    "sub data (unat (xy + 2)) (unat n) = Ok (Slice (PrivateExtension h) (rest @ sp))"
    "unat n = length (concat (header_pieces h))"
proof -
  have lens: "length (IpAddressOfNodeThatGeneratedFile h) = 20"
    "unat (LengthOfCdrRouteingFilter h) = length (CDRRouteingFilter h)"
    "unat (LengthOfPrivateExtension h) = length (PrivateExtension h)"
    using ok by (simp_all add: file_header_ok_def)
  have xy: "unat xy = 50 + length (CDRRouteingFilter h)"
    using short by (simp add: xy_def unat_word_ariths lens)
  have xy2: "unat (xy + 2) = 52 + length (CDRRouteingFilter h)"
    using short by (simp add: unat_word_ariths xy)
  have n: "unat n = 52 + length (CDRRouteingFilter h) + length (PrivateExtension h)"
    using short by (simp add: n_def unat_word_ariths xy lens del: add_2_eq_Suc')
  show "unat n = length (concat (header_pieces h))" by (simp add: n length_header_pieces ok)
  show "obind (sub data (unat xy) (unat (xy + 2))) get16 = Ok (LengthOfPrivateExtension h)"
    unfolding data_def xy xy2 by (subst sub_piece [where k = 13]) (simp_all add: header_pieces_def lens)
  show "sub data 50 (unat xy) = Ok (Slice (CDRRouteingFilter h) (concat (drop 13 (header_pieces h)) @ rest @ sp))"
    unfolding data_def xy by (subst sub_piece [where k = 12]) (simp_all add: header_pieces_def lens)
  show "sub data (unat (xy + 2)) (unat n) = Ok (Slice (PrivateExtension h) (rest @ sp))"
    unfolding data_def xy2 n by (subst sub_piece [where k = 14]) (simp_all add: header_pieces_def lens)
qed

lemma decode_file_header_encoded:
  assumes ok: "file_header_ok h"
    and short: "52 + length (CDRRouteingFilter h) + length (PrivateExtension h) < 65536"
  shows "decode_file_header (Slice (concat (header_pieces h) @ rest) sp) =
    Ok (h\<lparr>HighReleaseIdentifierExtension := 0, LowReleaseIdentifierExtension := 0\<rparr>,
        word_of_nat (length (concat (header_pieces h))))"
proof -
  let ?n = "50 + LengthOfCdrRouteingFilter h + 2 + LengthOfPrivateExtension h"
  note tail = header_tail [OF assms]
  have n: "?n = word_of_nat (length (concat (header_pieces h)))"
    unfolding tail(4) [symmetric] by simp
  have "HighReleaseIdentifier h < 8" "HighVersionIdentifier h < 32" "LowReleaseIdentifier h < 8"
    "LowVersionIdentifier h < 32" "ts_ok (FileOpeningTimestamp h)" "ts_ok (TimestampWhenLastCdrWasAppendedToFIle h)"
    using ok by (simp_all add: file_header_ok_def)
  then show ?thesis
    unfolding decode_file_header_def Let_def
    by (simp only: header_fields [OF ok] tail(1-3) obind.simps slice.sel split_octet decode_timestamp_word) (simp add: n [simplified])
qed
section \<open>Records\<close>

lemma unat_add_u32:
  "unat w + k < 2 ^ 32 \<Longrightarrow> unat (w + word_of_nat k) = unat w + k" for w :: u32
  by (simp add: unat_word_ariths unat_of_nat)

lemma unat_tail:
  fixes w :: u32
  assumes "unat w + 4 < 2 ^ 32"
  shows "unat (w + 2) = unat w + 2" "unat (w + 3) = unat w + 3" "unat (w + 4) = unat w + 4"
  using assms unat_add_u32 [of w 2] unat_add_u32 [of w 3] unat_add_u32 [of w 4] by simp_all

definition cdr_octets :: "CDR \<Rightarrow> bytes" where
  "cdr_octets c = CdrHeader_Encoding (cdr_Hdr c) @ CdrByte c"

lemma decode_cdr_encoded:
  assumes c: "cdr_ok c" and tail: "unat tail = length pre"
    and short: "length (pre @ cdr_octets c) < 2 ^ 32"
  shows "decode_cdr (Slice (pre @ cdr_octets c @ rest) sp) tail =
    Ok (c, tail + word_of_nat (length (cdr_octets c)))"
proof -
  define i :: nat where "i = (if ReleaseIdentifier (cdr_Hdr c) = 7 then 5 else 4)"
  let ?oct3 = "push_bit 5 (ReleaseIdentifier (cdr_Hdr c)) OR VersionIdentifier (cdr_Hdr c)"
  let ?oct4 = "push_bit 5 (DataRecordFormat (cdr_Hdr c)) OR TsNumber (cdr_Hdr c)"
  let ?ext = "if ReleaseIdentifier (cdr_Hdr c) = 7 then [ReleaseIdentifierExtension (cdr_Hdr c)] else []"
  let ?xs = "[pre, put16 (CdrLength (cdr_Hdr c)), [?oct3], [?oct4], ?ext, CdrByte c]"
  let ?data = "Slice (pre @ cdr_octets c @ rest) sp"
  note fs = c [unfolded cdr_ok_def]
  have data: "?data = Slice (concat ?xs @ rest) sp" by (simp add: cdr_octets_def CdrHeader_Encoding_def)
  have len: "length (cdr_octets c) = i + length (CdrByte c)" by (simp add: cdr_octets_def CdrHeader_Encoding_def i_def)
  have i: "4 \<le> i" "i \<le> 5" by (simp_all add: i_def)
  have bnd: "unat tail + i + length (CdrByte c) < 2 ^ 32" using short len tail by simp
  with i have offs: "unat (tail + 2) = unat tail + 2" "unat (tail + 3) = unat tail + 3" "unat (tail + 4) = unat tail + 4"
    by (simp_all add: unat_tail)
  have ti: "unat (tail + word_of_nat i) = unat tail + i" using bnd by (simp add: unat_add_u32)
  have cl: "ucast (CdrLength (cdr_Hdr c)) = (word_of_nat (length (CdrByte c)) :: u32)"
  proof -
    have "unat (CdrLength (cdr_Hdr c)) = length (CdrByte c)" using fs by blast
    then show ?thesis by (metis of_nat_unat)
  qed
  have tib: "unat (tail + word_of_nat i + ucast (CdrLength (cdr_Hdr c))) = unat tail + i + length (CdrByte c)"
    unfolding cl using bnd ti by (simp add: unat_add_u32)
  have reads: "obind (sub ?data (unat tail) (unat (tail + 2))) get16 = Ok (CdrLength (cdr_Hdr c))"
    unfolding data offs tail by (subst sub_piece [where k = 1]) simp_all
  have oct3: "at ?data (unat (tail + 2)) = Ok ?oct3" unfolding data offs tail by (rule at_piece [where k = 2]) simp_all
  have oct4: "at ?data (unat (tail + 3)) = Ok ?oct4" unfolding data offs tail by (rule at_piece [where k = 3]) simp_all
  have ext: "ReleaseIdentifier (cdr_Hdr c) = 7 \<Longrightarrow> at ?data (unat (tail + 4)) = Ok (ReleaseIdentifierExtension (cdr_Hdr c))"
    unfolding data offs tail by (rule at_piece [where k = 4]) simp_all
  have body: "sub ?data (unat (tail + word_of_nat i)) (unat (tail + word_of_nat i + ucast (CdrLength (cdr_Hdr c)))) = Ok (Slice (CdrByte c) (rest @ sp))"
    unfolding ti tib data tail by (subst sub_piece [where k = 5]) (simp_all add: i_def)
  have nxt: "tail + (word_of_nat i + ucast (CdrLength (cdr_Hdr c))) = tail + word_of_nat (length (cdr_octets c))"
    unfolding len cl by simp
  have octs: "drop_bit 5 ?oct3 = ReleaseIdentifier (cdr_Hdr c)" "?oct3 AND 31 = VersionIdentifier (cdr_Hdr c)"
    "drop_bit 5 ?oct4 = DataRecordFormat (cdr_Hdr c)" "?oct4 AND 31 = TsNumber (cdr_Hdr c)"
    using fs by (simp_all only: split_octet)
  have rel: "(if ReleaseIdentifier (cdr_Hdr c) = 7 then obind (at ?data (unat (tail + 4))) (\<lambda>b. Ok (b, 5))
      else Ok (0, 4)) = Ok (ReleaseIdentifierExtension (cdr_Hdr c), word_of_nat i)"
    using fs by (simp add: ext i_def)
  show ?thesis
    unfolding decode_cdr_def reads oct3 oct4 obind.simps octs rel prod.case body nxt slice.sel by simp
qed

lemma decode_cdrs_encoded:
  assumes "list_all cdr_ok cs" and "unat tail = length pre"
    and "length (pre @ concat (map cdr_octets cs)) < 2 ^ 32"
  shows "decode_cdrs (length cs) (Slice (pre @ concat (map cdr_octets cs)) sp) tail acc = Ok (acc @ cs)"
  using assms
proof (induction cs arbitrary: pre tail acc)
  case Nil
  then show ?case by simp
next
  case (Cons c cs)
  have one: "decode_cdr (Slice (pre @ cdr_octets c @ concat (map cdr_octets cs)) sp) tail =
      Ok (c, tail + word_of_nat (length (cdr_octets c)))"
    using Cons.prems by (intro decode_cdr_encoded) simp_all
  have "unat (tail + word_of_nat (length (cdr_octets c))) = length (pre @ cdr_octets c)"
    using Cons.prems by (simp add: unat_add_u32)
  with Cons.prems Cons.IH [of "tail + word_of_nat (length (cdr_octets c))" "pre @ cdr_octets c" "acc @ [c]"]
  show ?case by (simp add: one)
qed

section \<open>Files\<close>

text \<open>The release extensions as the decoder reads them: the low one from the octet behind the
  position of the high one, whether or not the high one is present.\<close>

lemma decode_extensions_encoded:
  assumes n: "unat n = length pre" "length pre + 1 < 65536"
    and ext: "LowReleaseIdentifier h = 7 \<longrightarrow> HighReleaseIdentifier h = 7"
  shows "decode_extensions (Slice (pre @ extension_octets h @ rest) sp) n
      (h\<lparr>HighReleaseIdentifierExtension := 0, LowReleaseIdentifierExtension := 0\<rparr>) =
    Ok (h\<lparr>HighReleaseIdentifierExtension := if HighReleaseIdentifier h = 7 then HighReleaseIdentifierExtension h else 0,
          LowReleaseIdentifierExtension := if LowReleaseIdentifier h = 7 then LowReleaseIdentifierExtension h else 0\<rparr>,
        word_of_nat (length (pre @ extension_octets h)))"
proof -
  have n1: "unat (n + 1) = length pre + 1" using n by (simp add: unat_word_ariths)
  have tail: "(ucast n :: u32) = word_of_nat (length pre)" using n(1) by (metis of_nat_unat)
  show ?thesis
    using ext n unfolding decode_extensions_def Let_def n1 n(1) tail extension_octets_def
    by (auto simp: at_def nth_append)
qed
lemma CDRFile_Encoding_pieces:
  "CDRFile_Encoding f = concat (header_pieces (file_Hdr f)) @ extension_octets (file_Hdr f) @
     concat (map cdr_octets (CdrList f))"
  by (simp add: CDRFile_Encoding_def CdrFileHeader_Encoding_pieces cdr_octets_def [abs_def])

lemma header_offset:
  assumes "file_header_ok h"
    and "53 + length (CDRRouteingFilter h) + length (PrivateExtension h) < 65536"
  defines "n \<equiv> word_of_nat (length (concat (header_pieces h))) :: u16"
  shows "unat n = length (concat (header_pieces h))" "length (concat (header_pieces h)) + 1 < 65536"
    "(ucast n :: u32) = word_of_nat (length (concat (header_pieces h)))"
proof -
  show len: "length (concat (header_pieces h)) + 1 < 65536" using assms(1,2) by (simp add: length_header_pieces)
  then show n: "unat n = length (concat (header_pieces h))" unfolding n_def by (simp add: unat_u16 del: length_concat)
  show "(ucast n :: u32) = word_of_nat (length (concat (header_pieces h)))" using n by (metis of_nat_unat)
qed

lemma decode_file_records:
  assumes "cdr_file_ok f" and "length (concat (header_pieces (file_Hdr f)) @ extension_octets (file_Hdr f)) = k"
  shows "decode_cdrs (unat (NumberOfCdrsInFile (file_Hdr f))) (Slice (CDRFile_Encoding f) sp) (word_of_nat k) acc =
    Ok (acc @ CdrList f)"
proof -
  have "k < 2 ^ 32" using assms by (auto simp: cdr_file_ok_def CDRFile_Encoding_pieces)
  then have "unat (word_of_nat k :: u32) = k" by (simp add: unat_u32)
  with assms show ?thesis
    using decode_cdrs_encoded [of "CdrList f" "word_of_nat k" "concat (header_pieces (file_Hdr f)) @ extension_octets (file_Hdr f)"]
    by (simp add: cdr_file_ok_def CDRFile_Encoding_pieces)
qed

lemma sub_Ok_le: "sub s i j = Ok t \<Longrightarrow> i \<le> j"
  by (auto simp: sub_def split: if_splits)

lemma decode_file_header_bounds:
  fixes data :: slice and l e :: u16
  assumes "decode_file_header data = Ok r" and "read16 data 48 = (Ok l :: (unit, _) outcome)"
  shows "50 \<le> 50 + l" and "50 + l \<le> 50 + l + 2"
    and "obind (sub data (unat (50 + l)) (unat (50 + l + 2))) get16 = (Ok e :: (unit, _) outcome)
      \<Longrightarrow> 50 + l + 2 \<le> 50 + l + 2 + e"
  using assms by (auto simp: decode_file_header_def go_simps Let_def word_le_nat_alt dest: sub_Ok_le)

lemma decode_file_header_not_Err: "decode_file_header data \<noteq> Err e"
  by (auto simp: decode_file_header_def go_simps Let_def)

lemma decode_file_header_long:
  assumes ok: "file_header_ok h"
    and long: "65536 \<le> 52 + length (CDRRouteingFilter h) + length (PrivateExtension h)"
  shows "decode_file_header (Slice (concat (header_pieces h) @ rest) sp) = Panic"
proof (cases "decode_file_header (Slice (concat (header_pieces h) @ rest) sp)")
  case (Ok r)
  let ?xy = "50 + LengthOfCdrRouteingFilter h"
  note b = decode_file_header_bounds [OF Ok header_fields(12) [OF ok]]
  have lens: "length (IpAddressOfNodeThatGeneratedFile h) = 20"
    "unat (LengthOfCdrRouteingFilter h) = length (CDRRouteingFilter h)"
    "unat (LengthOfPrivateExtension h) = length (PrivateExtension h)"
    using ok by (simp_all add: file_header_ok_def)
  have xy: "unat ?xy = 50 + length (CDRRouteingFilter h)"
    using b(1) [unfolded unat_plus_simple] lens by simp
  have xy2: "unat (?xy + 2) = 52 + length (CDRRouteingFilter h)"
    using b(2) [unfolded unat_plus_simple] xy by simp
  have "obind (sub (Slice (concat (header_pieces h) @ rest) sp) (unat ?xy) (unat (?xy + 2))) get16
      = (Ok (LengthOfPrivateExtension h))"
    unfolding xy xy2 by (subst sub_piece [where k = 13]) (simp_all add: header_pieces_def lens)
  from b(3) [OF this, unfolded unat_plus_simple xy2 lens]
  show ?thesis using long unat_u16_less [of "?xy + 2 + LengthOfPrivateExtension h"] by linarith
qed (simp_all add: decode_file_header_not_Err)

text \<open>
  C36. A charging data record file comes back from the disk as it was written. For a file whose fields
  respect the bit fields and lengths of TS 32.297, whose header has fewer than \<open>2^16\<close> octets and that
  has a low release extension only beside a high one, \<open>Decoding\<close> of what \<open>Encoding\<close> wrote, into a file
  object that already holds some records, gives exactly the header and appends exactly the records,
  whatever the spare capacity of the buffer.
\<close>

theorem cdr_file_roundtrip:
  assumes ok: "cdr_file_ok f"
    and short: "53 + length (CDRRouteingFilter (file_Hdr f)) + length (PrivateExtension (file_Hdr f)) < 65536"
    and ext: "LowReleaseIdentifier (file_Hdr f) = 7 \<longrightarrow> HighReleaseIdentifier (file_Hdr f) = 7"
    and high: "HighReleaseIdentifier (file_Hdr f) \<noteq> 7 \<longrightarrow> HighReleaseIdentifierExtension (file_Hdr f) = 0"
    and low: "LowReleaseIdentifier (file_Hdr f) \<noteq> 7 \<longrightarrow> LowReleaseIdentifierExtension (file_Hdr f) = 0"
  shows "CDRFile_Decoding f0 (Slice (CDRFile_Encoding f) sp) =
    Ok \<lparr>file_Hdr = file_Hdr f, CdrList = CdrList f0 @ CdrList f\<rparr>"
proof -
  let ?h = "file_Hdr f" and ?p = "concat (header_pieces (file_Hdr f))"
  have hok: "file_header_ok ?h" using ok by (simp add: cdr_file_ok_def)
  have same: "?h\<lparr>HighReleaseIdentifierExtension := if HighReleaseIdentifier ?h = 7 then HighReleaseIdentifierExtension ?h else 0,
      LowReleaseIdentifierExtension := if LowReleaseIdentifier ?h = 7 then LowReleaseIdentifierExtension ?h else 0\<rparr> = ?h"
    using high low by simp
  have hdr: "decode_file_header (Slice (CDRFile_Encoding f) sp) =
      Ok (?h\<lparr>HighReleaseIdentifierExtension := 0, LowReleaseIdentifierExtension := 0\<rparr>, word_of_nat (length ?p))"
    unfolding CDRFile_Encoding_pieces using hok short by (intro decode_file_header_encoded) simp_all
  have exts: "decode_extensions (Slice (CDRFile_Encoding f) sp) (word_of_nat (length ?p))
      (?h\<lparr>HighReleaseIdentifierExtension := 0, LowReleaseIdentifierExtension := 0\<rparr>) =
      Ok (?h, word_of_nat (length (?p @ extension_octets ?h)))"
    using decode_extensions_encoded [OF header_offset(1,2) [OF hok short] ext] unfolding same CDRFile_Encoding_pieces .
  show ?thesis
    unfolding CDRFile_Decoding_def hdr obind.simps prod.case exts decode_file_records [OF ok refl] ..
qed
definition sample_header :: CdrFileHeader where
  "sample_header =
     \<lparr>FileLength = 61, HeaderLength = 54, HighReleaseIdentifier = 7, HighVersionIdentifier = 3,
      LowReleaseIdentifier = 7, LowVersionIdentifier = 5,
      FileOpeningTimestamp = \<lparr>MonthLocal = 4, DateLocal = 28, HourLocal = 17, MinuteLocal = 18,
        SignOfTheLocalTimeDifferentialFromUtc = 1, HourDeviation = 8, MinuteDeviation = 0\<rparr>,
      TimestampWhenLastCdrWasAppendedToFIle = \<lparr>MonthLocal = 4, DateLocal = 28, HourLocal = 17, MinuteLocal = 19,
        SignOfTheLocalTimeDifferentialFromUtc = 1, HourDeviation = 8, MinuteDeviation = 0\<rparr>,
      NumberOfCdrsInFile = 1, FileSequenceNumber = 11, FileClosureTriggerReason = 4,
      IpAddressOfNodeThatGeneratedFile = replicate 20 1, LostCdrIndicator = 4,
      LengthOfCdrRouteingFilter = 0, CDRRouteingFilter = [], LengthOfPrivateExtension = 0,
      PrivateExtension = [], HighReleaseIdentifierExtension = 2, LowReleaseIdentifierExtension = 3\<rparr>"

definition sample_cdr :: CDR where
  "sample_cdr = \<lparr>cdr_Hdr = \<lparr>CdrLength = 3, ReleaseIdentifier = 3, VersionIdentifier = 3, DataRecordFormat = 1,
      TsNumber = 19, ReleaseIdentifierExtension = 0\<rparr>, CdrByte = [97, 98, 99]\<rparr>"

lemma sample_ok:
  "file_header_ok sample_header" "cdr_ok sample_cdr" "file_header_ok (sample_header\<lparr>HighReleaseIdentifier := 6\<rparr>)"
  by (simp_all add: file_header_ok_def cdr_ok_def ts_ok_def sample_header_def sample_cdr_def)

lemma length_sample: "length (CDRFile_Encoding \<lparr>file_Hdr = sample_header, CdrList = [sample_cdr]\<rparr>) = 61"
  by (simp add: CDRFile_Encoding_def CdrFileHeader_Encoding_def CdrHeader_Encoding_def sample_header_def sample_cdr_def)

theorem cdr_file_roundtrip_witness:
  "CDRFile_Decoding \<lparr>file_Hdr = sample_header, CdrList = []\<rparr>
     (Slice (CDRFile_Encoding \<lparr>file_Hdr = sample_header, CdrList = [sample_cdr]\<rparr>) (replicate 451 0)) =
   (Ok \<lparr>file_Hdr = sample_header, CdrList = [sample_cdr]\<rparr>)"
proof -
  have "cdr_file_ok \<lparr>file_Hdr = sample_header, CdrList = [sample_cdr]\<rparr>"
    by (simp add: cdr_file_ok_def sample_ok length_sample) (simp add: sample_header_def)
  then show ?thesis by (subst cdr_file_roundtrip) (simp_all add: sample_header_def)
qed

text \<open>
  Two kinds of well-formed files do not come back. When the low release identifier is 7 and the high
  one is not, only one extension octet is in the file but the decoder takes the octet after it: the
  extension it reports is the high octet of the first record's length, and a file without records
  makes it panic. And when the file header is longer than \<open>2^16 - 1\<close> octets, which its two 16-bit
  lengths allow, an offset computed in \<open>uint16\<close> wraps and the decoder panics.
\<close>

theorem cdr_file_misread:
  assumes ok: "cdr_file_ok f"
  shows "(LowReleaseIdentifier (file_Hdr f) = 7 \<and> HighReleaseIdentifier (file_Hdr f) \<noteq> 7 \<and>
      HighReleaseIdentifierExtension (file_Hdr f) = 0 \<and>
      53 + length (CDRRouteingFilter (file_Hdr f)) + length (PrivateExtension (file_Hdr f)) < 65536 \<longrightarrow>
      CDRFile_Decoding f0 (Slice (CDRFile_Encoding f) sp) =
      (case CdrList f of
         [] \<Rightarrow> Panic
       | c # _ \<Rightarrow> Ok \<lparr>file_Hdr = (file_Hdr f)\<lparr>LowReleaseIdentifierExtension := ucast (drop_bit 8 (CdrLength (cdr_Hdr c)))\<rparr>,
                     CdrList = CdrList f0 @ CdrList f\<rparr>)) \<and>
    (65536 \<le> 52 + length (CDRRouteingFilter (file_Hdr f)) + length (PrivateExtension (file_Hdr f)) \<longrightarrow>
      CDRFile_Decoding f0 (Slice (CDRFile_Encoding f) sp) = Panic)"
proof (intro conjI impI)
  let ?h = "file_Hdr f" and ?p = "concat (header_pieces (file_Hdr f))"
  have hok: "file_header_ok ?h" using ok by (simp add: cdr_file_ok_def)
  {
    assume "65536 \<le> 52 + length (CDRRouteingFilter ?h) + length (PrivateExtension ?h)"
    from decode_file_header_long [OF hok this] show "CDRFile_Decoding f0 (Slice (CDRFile_Encoding f) sp) = Panic"
      by (simp add: CDRFile_Decoding_def CDRFile_Encoding_pieces)
  }
  assume *: "LowReleaseIdentifier ?h = 7 \<and> HighReleaseIdentifier ?h \<noteq> 7 \<and> HighReleaseIdentifierExtension ?h = 0 \<and>
      53 + length (CDRRouteingFilter ?h) + length (PrivateExtension ?h) < 65536"
  then have short: "53 + length (CDRRouteingFilter ?h) + length (PrivateExtension ?h) < 65536" by blast
  note n = header_offset [OF hok short]
  let ?n = "word_of_nat (length ?p) :: u16"
  have n1: "unat (?n + 1) = length ?p + 1" using n(1,2) by (simp add: unat_word_ariths)
  have octs: "extension_octets ?h = [LowReleaseIdentifierExtension ?h]" using * by (simp add: extension_octets_def)
  have hdr: "decode_file_header (Slice (CDRFile_Encoding f) sp) =
      Ok (?h\<lparr>HighReleaseIdentifierExtension := 0, LowReleaseIdentifierExtension := 0\<rparr>, ?n)"
    unfolding CDRFile_Encoding_pieces using hok short by (intro decode_file_header_encoded) simp_all
  have at: "at (Slice (CDRFile_Encoding f) sp) (unat (?n + 1)) =
      (case CdrList f of [] \<Rightarrow> Panic | c # _ \<Rightarrow> Ok (ucast (drop_bit 8 (CdrLength (cdr_Hdr c)))))"
    unfolding n1 CDRFile_Encoding_pieces octs
    by (simp add: at_def nth_append cdr_octets_def CdrHeader_Encoding_def put16_def split: list.split del: length_concat)
  have exts: "decode_extensions (Slice (CDRFile_Encoding f) sp) ?n
      (?h\<lparr>HighReleaseIdentifierExtension := 0, LowReleaseIdentifierExtension := 0\<rparr>) =
    (case CdrList f of [] \<Rightarrow> Panic
      | c # _ \<Rightarrow> Ok (?h\<lparr>LowReleaseIdentifierExtension := ucast (drop_bit 8 (CdrLength (cdr_Hdr c)))\<rparr>,
                   word_of_nat (length (?p @ extension_octets ?h))))"
    unfolding decode_extensions_def Let_def at n(3) octs using * by (simp split: list.split)
  show "CDRFile_Decoding f0 (Slice (CDRFile_Encoding f) sp) =
    (case CdrList f of
       [] \<Rightarrow> Panic
     | c # _ \<Rightarrow> Ok \<lparr>file_Hdr = ?h\<lparr>LowReleaseIdentifierExtension := ucast (drop_bit 8 (CdrLength (cdr_Hdr c)))\<rparr>,
                   CdrList = CdrList f0 @ CdrList f\<rparr>)"
    unfolding CDRFile_Decoding_def hdr obind.simps prod.case exts
    by (cases "CdrList f") (simp_all add: decode_file_records [OF ok refl] del: length_append)
qed

text \<open>The sample file once with a low release extension only, and once with a routeing filter of
  65535 octets.\<close>

definition low_only :: CDRFile where
  "low_only = \<lparr>file_Hdr = sample_header\<lparr>HighReleaseIdentifier := 6, HighReleaseIdentifierExtension := 0\<rparr>, CdrList = [sample_cdr]\<rparr>"

definition long_filter :: CDRFile where
  "long_filter = \<lparr>file_Hdr = sample_header\<lparr>LengthOfCdrRouteingFilter := 65535, CDRRouteingFilter := replicate 65535 0\<rparr>, CdrList = [sample_cdr]\<rparr>"

lemma low_only_ok: "cdr_file_ok low_only"
  by (simp add: cdr_file_ok_def low_only_def sample_ok CDRFile_Encoding_def CdrFileHeader_Encoding_def)
     (simp add: file_header_ok_def ts_ok_def CdrHeader_Encoding_def sample_header_def sample_cdr_def)

lemma long_filter_ok: "cdr_file_ok long_filter"
  by (simp add: cdr_file_ok_def long_filter_def sample_ok CDRFile_Encoding_def CdrFileHeader_Encoding_def)
     (simp add: file_header_ok_def ts_ok_def CdrHeader_Encoding_def sample_header_def sample_cdr_def)

theorem cdr_file_misread_witness:
  "LowReleaseIdentifierExtension (file_Hdr low_only) = 3 \<and>
   CDRFile_Decoding \<lparr>file_Hdr = sample_header, CdrList = []\<rparr> (Slice (CDRFile_Encoding low_only) []) =
     (Ok \<lparr>file_Hdr = (file_Hdr low_only)\<lparr>LowReleaseIdentifierExtension := 0\<rparr>, CdrList = [sample_cdr]\<rparr>) \<and>
   CDRFile_Decoding \<lparr>file_Hdr = sample_header, CdrList = []\<rparr> (Slice (CDRFile_Encoding long_filter) []) =
     (Panic)"
proof -
  have "drop_bit 8 (CdrLength (cdr_Hdr sample_cdr)) = 0" by (simp add: sample_cdr_def)
  moreover have "LowReleaseIdentifier (file_Hdr low_only) = 7" "HighReleaseIdentifier (file_Hdr low_only) = 6"
    "HighReleaseIdentifierExtension (file_Hdr low_only) = 0" "CDRRouteingFilter (file_Hdr low_only) = []"
    "PrivateExtension (file_Hdr low_only) = []" "LowReleaseIdentifierExtension (file_Hdr low_only) = 3"
    "CdrList low_only = [sample_cdr]" "length (CDRRouteingFilter (file_Hdr long_filter)) = 65535"
    by (simp_all add: low_only_def long_filter_def sample_header_def)
  ultimately show ?thesis
    using cdr_file_misread [OF low_only_ok, of "\<lparr>file_Hdr = sample_header, CdrList = []\<rparr>" "[]"]
      cdr_file_misread [OF long_filter_ok, of "\<lparr>file_Hdr = sample_header, CdrList = []\<rparr>" "[]"]
    by simp
qed

end
