(* ===== verification/Chf_Ber.thy ===== *)
theory Chf_Ber
  imports Go_Bytes
begin

text \<open>
  The BER codec of the CHF's charging records (\<open>NFs/chf/cdr/asn\<close>), which is driven by reflection:
  \<open>common.go\<close> (field parameters), \<open>ber_marshal.go\<close> (encoders) and \<open>ber_unmarshal.go\<close> (parsers).

  What \<open>reflect\<close> gives the code is data here. A \<open>gotype\<close> is what \<open>reflect.Type\<close> tells the code of a
  type, a \<open>goval\<close> what \<open>reflect.Value\<close> tells of a value; a struct carries the name and the \<open>ber\<close> tag
  of every field. The types of the package that the code compares with (\<open>BitStringType\<close>, ...) have
  constructors of their own; the remaining constructors are kinds. A slice has a flag for nil.
  \<open>V_Other\<close> is a value of any kind the code has no case for.

  \<open>int64\<close> values are 64-bit words read as signed numbers. The length in \<open>tagAndLen\<close> is an \<open>int64\<close> that
  is never negative and stays far below the width, so it is a natural number.
\<close>

section \<open>Values\<close>

type_synonym i64 = "64 word"

datatype goval =
    V_BitString bytes u64
  | V_ObjectIdentifier bool bytes
  | V_OctetString bool bytes
  | V_Enumerated i64
  | V_Null bool
  | V_Bool bool
  | V_Int i64
  | V_Int32 u32
  | V_String bytes
  | V_Slice bool "goval list"
  | V_Ptr "goval option"
  | V_Interface "goval option"
  | V_Struct "(string \<times> string \<times> goval) list"
  | V_Other

datatype gotype =
    T_BitString
  | T_ObjectIdentifier
  | T_OctetString
  | T_Enumerated
  | T_Null
  | T_Bool
  | T_Int
  | T_Int32
  | T_String
  | T_Slice gotype
  | T_Ptr gotype
  | T_Interface
  | T_Struct "(string \<times> string \<times> gotype) list"
  | T_Other

datatype ber_error =
    CannotMarshalNil
  | UnsupportedObjectIdentifier
  | PresentIsZero
  | OpenTypeNotImplemented
  | IterateSubtype
  | TagNumberTooLarge
  | HeaderTruncated
  | LengthTooLarge
  | Int64OutOfRange
  | ValueOutOfRange
  | UnexportedFields
  | TypeNotFound
  | Unsupported

section \<open>Field parameters\<close>

record fieldParameters =
  fp_optional :: bool
  sizeLowerBound :: "int option"
  sizeUpperBound :: "int option"
  valueLowerBound :: "int option"
  valueUpperBound :: "int option"
  defaultValue :: "int option"
  openType :: bool
  referenceFieldName :: string
  referenceFieldValue :: "int option"
  fp_tagNumber :: "u64 option"
  explicitTag :: bool
  fp_set :: bool
  fp_choice :: bool
  stringType :: u64
  fp_null :: bool

definition no_params :: fieldParameters where
  "no_params = \<lparr>fp_optional = False, sizeLowerBound = None, sizeUpperBound = None, valueLowerBound = None,
     valueUpperBound = None, defaultValue = None, openType = False, referenceFieldName = '''',
     referenceFieldValue = None, fp_tagNumber = None, explicitTag = False, fp_set = False,
     fp_choice = False, stringType = 0, fp_null = False\<rparr>"

text \<open>\<open>strings.Split(str, sep)\<close> for a separator of one character, and \<open>strings.HasPrefix\<close> with the
  slice expression behind the prefix.\<close>

fun split_at :: "char \<Rightarrow> string \<Rightarrow> string list" where
  "split_at c [] = [[]]"
| "split_at c (x # xs) =
     (if x = c then [] # split_at c xs
      else case split_at c xs of [] \<Rightarrow> [[x]] | y # ys \<Rightarrow> (x # y) # ys)"

definition after :: "string \<Rightarrow> string \<Rightarrow> string option" where
  "after pre s = (if take (length pre) s = pre then Some (drop (length pre) s) else None)"

text \<open>\<open>strconv.ParseInt(s, 10, 64)\<close>: an optional sign, one or more digits, in the range of \<open>int64\<close>;
  None is the error.\<close>

definition digit :: "char \<Rightarrow> int option" where
  "digit c = (let n = int (of_char c) in if 48 \<le> n \<and> n \<le> 57 then Some (n - 48) else None)"

fun digits :: "string \<Rightarrow> int \<Rightarrow> int option" where
  "digits [] acc = Some acc"
| "digits (c # cs) acc = (case digit c of None \<Rightarrow> None | Some d \<Rightarrow> digits cs (10 * acc + d))"

definition ParseInt :: "string \<Rightarrow> int option" where
  "ParseInt s =
     (let (neg, ds) = (case s of [] \<Rightarrow> (False, []) | c # cs \<Rightarrow>
            if c = CHR ''-'' then (True, cs) else if c = CHR ''+'' then (False, cs) else (False, c # cs))
      in if ds = [] then None
         else case digits ds 0 of
                None \<Rightarrow> None
              | Some n \<Rightarrow> let i = (if neg then - n else n)
                          in if - (2 ^ 63) \<le> i \<and> i < 2 ^ 63 then Some i else None)"

definition set_int :: "(int \<Rightarrow> fieldParameters \<Rightarrow> fieldParameters) \<Rightarrow> string \<Rightarrow> fieldParameters \<Rightarrow> fieldParameters" where
  "set_int upd s p = (case ParseInt s of None \<Rightarrow> p | Some i \<Rightarrow> upd i p)"

text \<open>The cases of the switch that test a prefix, in their order; the others compare the whole part.\<close>

definition prefix_case :: "string \<Rightarrow> fieldParameters \<Rightarrow> fieldParameters option" where
  "prefix_case part p =
     (case after ''sizeLB:'' part of Some r \<Rightarrow> Some (set_int (\<lambda>i p. p\<lparr>sizeLowerBound := Some i\<rparr>) r p) | None \<Rightarrow>
     (case after ''sizeUB:'' part of Some r \<Rightarrow> Some (set_int (\<lambda>i p. p\<lparr>sizeUpperBound := Some i\<rparr>) r p) | None \<Rightarrow>
     (case after ''valueLB:'' part of Some r \<Rightarrow> Some (set_int (\<lambda>i p. p\<lparr>valueLowerBound := Some i\<rparr>) r p) | None \<Rightarrow>
     (case after ''valueUB:'' part of Some r \<Rightarrow> Some (set_int (\<lambda>i p. p\<lparr>valueUpperBound := Some i\<rparr>) r p) | None \<Rightarrow>
     (case after ''default:'' part of Some r \<Rightarrow> Some (set_int (\<lambda>i p. p\<lparr>defaultValue := Some i\<rparr>) r p) | None \<Rightarrow>
     (case after ''referenceFieldName:'' part of Some r \<Rightarrow> Some (p\<lparr>referenceFieldName := r\<rparr>) | None \<Rightarrow>
     (case after ''referenceFieldValue:'' part of Some r \<Rightarrow> Some (set_int (\<lambda>i p. p\<lparr>referenceFieldValue := Some i\<rparr>) r p) | None \<Rightarrow>
     (case after ''tagNum:'' part of Some r \<Rightarrow> Some (set_int (\<lambda>i p. p\<lparr>fp_tagNumber := Some (word_of_int i)\<rparr>) r p) | None \<Rightarrow>
      None))))))))"

definition parameter_step :: "string \<Rightarrow> fieldParameters \<Rightarrow> fieldParameters" where
  "parameter_step part p =
     (if part = ''optional'' then p\<lparr>fp_optional := True\<rparr>
      else case prefix_case part p of
        Some p' \<Rightarrow> p'
      | None \<Rightarrow>
          if part = ''openType'' then p\<lparr>openType := True\<rparr>
          else if part = ''explicit'' then p\<lparr>explicitTag := True\<rparr>
          else if part = ''set'' then p\<lparr>fp_set := True\<rparr>
          else if part = ''choice'' then p\<lparr>fp_choice := True\<rparr>
          else if part = ''utf8'' then p\<lparr>stringType := 12\<rparr>
          else if part = ''ia5'' then p\<lparr>stringType := 22\<rparr>
          else if part = ''graphic'' then p\<lparr>stringType := 25\<rparr>
          else if part = ''null'' then p\<lparr>fp_null := True\<rparr>
          else p)"

definition parseFieldParameters :: "string \<Rightarrow> fieldParameters" where
  "parseFieldParameters str = fold parameter_step (split_at (CHR '','') str) no_params"

section \<open>Headers\<close>

record tagAndLen =
  tal_class :: nat
  constructed :: bool
  tagNumber :: u64
  tal_len :: nat

text \<open>The loops that count octets: \<open>for tmp > 127 { n++; tmp >>= 7 }\<close> on the tag number, and
  \<open>for tmp > 255 { n++; tmp >>= 8 }\<close> on the length.\<close>

function septets :: "u64 \<Rightarrow> nat \<Rightarrow> nat" where
  "septets tmp n = (if tmp > 127 then septets (drop_bit 7 tmp) (n + 1) else n)"
  by auto
termination
proof (relation "measure (\<lambda>(tmp, n). unat tmp)", goal_cases)
  case (2 tmp n)
  then have "0 < unat tmp" by (simp add: word_less_nat_alt)
  then show ?case by (simp add: drop_bit_eq_div unat_div)
qed simp

fun length_octets :: "nat \<Rightarrow> nat \<Rightarrow> nat" where
  "length_octets tmp n = (if tmp > 255 then length_octets (tmp div 256) (n + 1) else n)"

text \<open>The loops that fill the octets from the back.\<close>

fun tag_octets :: "nat \<Rightarrow> u64 \<Rightarrow> bytes" where
  "tag_octets 0 t = []"
| "tag_octets (Suc n) t = tag_octets n (drop_bit 7 t) @ [ucast t OR 0x80]"

fun len_octets :: "nat \<Rightarrow> nat \<Rightarrow> bytes" where
  "len_octets 0 l = []"
| "len_octets (Suc n) l = len_octets n (l div 256) @ [word_of_nat l]"

definition clear_last :: "bytes \<Rightarrow> bytes" where
  "clear_last xs = butlast xs @ [last xs AND 0x7f]"

definition appendTagAndLen :: "tagAndLen \<Rightarrow> bytes" where
  "appendTagAndLen t =
     (let firstByte = push_bit 6 (word_of_nat (tal_class t)) OR (if constructed t then 0x20 else 0)
      in (if tagNumber t \<le> 30 then [firstByte OR ucast (tagNumber t)]
          else (firstByte OR 31) # clear_last (tag_octets (septets (tagNumber t) 1) (tagNumber t))) @
         (if tal_len t \<le> 127 then [word_of_nat (tal_len t)]
          else let n = length_octets (tal_len t) 1
               in (word_of_nat n OR 0x80) # len_octets n (tal_len t)))"

section \<open>Encoders\<close>

text \<open>The implementations of the interface \<open>encoder\<close>; a Go string is its octets.\<close>

datatype encoder =
    byteEncoder u8
  | bytesEncoder bytes
  | stringEncoder bytes
  | structEncoder "encoder list"
  | berTypeEncoder encoder encoder
  | int64Encoder i64
  | bitStringEncoder bytes u64

text \<open>\<open>int64Encoder.Len\<close>: the two loops, on the signed value (\<open>>>=\<close> of a signed number rounds down).\<close>

fun int64_pos_loop :: "int \<Rightarrow> nat \<Rightarrow> int \<times> nat" where
  "int64_pos_loop i n = (if i > 127 then int64_pos_loop (i div 256) (n + 1) else (i, n))"

function int64_neg_loop :: "int \<Rightarrow> nat \<Rightarrow> nat" where
  "int64_neg_loop i n = (if i < -128 then int64_neg_loop (i div 256) (n + 1) else n)"
  by auto
termination by (relation "measure (\<lambda>(i, n). nat (- i))") auto

definition int64_Len :: "i64 \<Rightarrow> nat" where
  "int64_Len i = (let (i', n) = int64_pos_loop (sint i) 1 in int64_neg_loop i' n)"

fun int64_octets :: "nat \<Rightarrow> i64 \<Rightarrow> bytes" where
  "int64_octets 0 i = []"
| "int64_octets (Suc n) i = int64_octets n (signed_drop_bit 8 i) @ [ucast i]"

primrec Len :: "encoder \<Rightarrow> nat" where
  "Len (byteEncoder b) = 1"
| "Len (bytesEncoder bs) = length bs"
| "Len (stringEncoder s) = length s"
| "Len (structEncoder es) = sum_list (map Len es)"
| "Len (berTypeEncoder tal v) = Len tal + Len v"
| "Len (int64Encoder i) = int64_Len i"
| "Len (bitStringEncoder bs n) = length bs + 1"

text \<open>\<open>Encode(dst)\<close> overwrites the front of \<open>dst\<close>; the result is \<open>dst\<close> afterwards. \<open>copy\<close> copies as
  much as fits, an assignment behind the end panics.\<close>

definition go_copy :: "bytes \<Rightarrow> bytes \<Rightarrow> bytes" where
  "go_copy dst src = take (length dst) src @ drop (length src) dst"

text \<open>Encode behind the first \<open>n\<close> octets, as in \<open>e.Encode(dst[n:])\<close>.\<close>

definition encode_behind :: "nat \<Rightarrow> (bytes \<Rightarrow> (ber_error, bytes) outcome) \<Rightarrow> bytes \<Rightarrow> (ber_error, bytes) outcome" where
  "encode_behind n f dst =
     (if length dst < n then Panic else omap (\<lambda>rest. take n dst @ rest) (f (drop n dst)))"

fun encode_seq :: "nat list \<Rightarrow> (bytes \<Rightarrow> (ber_error, bytes) outcome) list \<Rightarrow> bytes \<Rightarrow> (ber_error, bytes) outcome" where
  "encode_seq (n # ns) (f # fs) dst = obind (f dst) (encode_behind n (encode_seq ns fs))"
| "encode_seq _ _ dst = Ok dst"

primrec Encode :: "encoder \<Rightarrow> bytes \<Rightarrow> (ber_error, bytes) outcome" where
  "Encode (byteEncoder b) dst = (if dst = [] then Panic else Ok (dst[0 := b]))"
| "Encode (bytesEncoder bs) dst = Ok (go_copy dst bs)"
| "Encode (stringEncoder s) dst = Ok (go_copy dst s)"
| "Encode (structEncoder es) dst = encode_seq (map Len es) (map Encode es) dst"
| "Encode (berTypeEncoder tal v) dst = obind (Encode tal dst) (encode_behind (Len tal) (Encode v))"
| "Encode (int64Encoder i) dst =
     (let n = int64_Len i in if length dst < n then Panic else Ok (int64_octets n i @ drop n dst))"
| "Encode (bitStringEncoder bs n) dst =
     (case dst of [] \<Rightarrow> Panic | _ # rest \<Rightarrow> Ok ((8 - ucast (n mod 8)) # go_copy rest bs))"

section \<open>Marshalling\<close>

definition TagBoolean :: u64 where "TagBoolean = 1"
definition TagInteger :: u64 where "TagInteger = 2"
definition TagBitString :: u64 where "TagBitString = 3"
definition TagOctetString :: u64 where "TagOctetString = 4"
definition TagNull :: u64 where "TagNull = 5"
definition TagEnumerated :: u64 where "TagEnumerated = 10"
definition TagSequence :: u64 where "TagSequence = 16"
definition TagSet :: u64 where "TagSet = 17"

text \<open>\<open>v.IsNil()\<close>, which panics for kinds that have no nil.\<close>

primrec IsNil :: "goval \<Rightarrow> (ber_error, bool) outcome" where
  "IsNil (V_BitString bs n) = Panic"
| "IsNil (V_ObjectIdentifier z bs) = Ok z"
| "IsNil (V_OctetString z bs) = Ok z"
| "IsNil (V_Enumerated i) = Panic"
| "IsNil (V_Null b) = Panic"
| "IsNil (V_Bool b) = Panic"
| "IsNil (V_Int i) = Panic"
| "IsNil (V_Int32 i) = Panic"
| "IsNil (V_String s) = Panic"
| "IsNil (V_Slice z vs) = Ok z"
| "IsNil (V_Ptr x) = Ok (x = None)"
| "IsNil (V_Interface x) = Ok (x = None)"
| "IsNil (V_Struct fs) = Panic"
| "IsNil V_Other = Panic"

text \<open>The end of \<open>makeField\<close>: the length, the explicit or implicit context-specific tag, the header.
  A value that was never set is a nil interface, whose \<open>Len\<close> panics.\<close>

definition finish_field :: "fieldParameters \<Rightarrow> bool \<Rightarrow> u64 \<Rightarrow> encoder option \<Rightarrow> (ber_error, encoder) outcome" where
  "finish_field p constr number value =
     (case value of
        None \<Rightarrow> Panic
      | Some v \<Rightarrow>
          let tag = \<lparr>tal_class = 0, constructed = constr, tagNumber = number, tal_len = Len v\<rparr>
          in case fp_tagNumber p of
               None \<Rightarrow> Ok (berTypeEncoder (bytesEncoder (appendTagAndLen tag)) v)
             | Some t \<Rightarrow>
                 let (v, tag) =
                   (if explicitTag p
                    then let v' = berTypeEncoder (bytesEncoder (appendTagAndLen tag)) v
                         in (v', tag\<lparr>constructed := True, tal_len := Len v'\<rparr>)
                    else (v, tag));
                   tag = tag\<lparr>tal_class := 2, tagNumber := t\<rparr>
                 in Ok (berTypeEncoder (bytesEncoder (appendTagAndLen tag)) v))"

type_synonym maker = "fieldParameters \<Rightarrow> (ber_error, encoder) outcome"

text \<open>A pointer or an empty interface: its element, which is not valid when it is nil.\<close>

definition make_elem :: "maker option \<Rightarrow> maker" where
  "make_elem x p = (case x of None \<Rightarrow> Err CannotMarshalNil | Some f \<Rightarrow> f p)"

text \<open>A CHOICE: \<open>present\<close> is the index of the field that is set. An error in a tagged choice is only
  printed, and the encoder that came with it is used: nil, or an empty one for an object identifier.\<close>

definition choice_index :: "goval \<Rightarrow> (ber_error, int) outcome" where
  "choice_index v = (case v of V_Int i \<Rightarrow> Ok (sint i) | V_Int32 i \<Rightarrow> Ok (sint i) | V_Enumerated i \<Rightarrow> Ok (sint i) | _ \<Rightarrow> Panic)"

definition swallow_error :: "(ber_error, encoder) outcome \<Rightarrow> (ber_error, encoder option) outcome" where
  "swallow_error r =
     (case r of
        Ok e \<Rightarrow> Ok (Some e)
      | Err e \<Rightarrow> Ok (if e = UnsupportedObjectIdentifier then Some (bytesEncoder []) else None)
      | Panic \<Rightarrow> Panic)"

definition make_choice :: "(string \<times> string \<times> goval) list \<Rightarrow> (string \<times> string \<times> maker) list \<Rightarrow> maker" where
  "make_choice fs makers p =
     obind (choice_index (snd (snd (hd fs)))) (\<lambda>present.
       if present < 0 \<or> int (length fs) \<le> present then Panic
       else if present = 0 then Err PresentIsZero
       else if openType p then Err OpenTypeNotImplemented
       else let (_, tag, f) = makers ! nat present; r = f (parseFieldParameters tag)
            in if fp_tagNumber p = None then r
               else obind (swallow_error r) (finish_field p True 0))"

text \<open>The fields of a SEQUENCE or SET. The value is set only in a turn that encodes a field.\<close>

fun make_fields :: "(string \<times> string \<times> goval) list \<Rightarrow> (string \<times> string \<times> maker) list \<Rightarrow> encoder list \<Rightarrow> bool
    \<Rightarrow> (ber_error, encoder option) outcome" where
  "make_fields ((_, _, v) # fs) ((_, tag, f) # ms) done_fields any =
     (let tp = parseFieldParameters tag in
      obind (if fp_optional tp then IsNil v else Ok False) (\<lambda>absent.
        if absent then make_fields fs ms (done_fields @ [bytesEncoder []]) any
        else if openType tp then Err OpenTypeNotImplemented
        else case f tp of
               Ok e \<Rightarrow> make_fields fs ms (done_fields @ [e]) True
             | Err _ \<Rightarrow> Err IterateSubtype
             | Panic \<Rightarrow> Panic))"
| "make_fields _ _ done_fields any = Ok (if any then Some (structEncoder done_fields) else None)"

definition seq_number :: "fieldParameters \<Rightarrow> u64" where
  "seq_number p = (if fp_set p then TagSet else TagSequence)"

definition make_struct :: "(string \<times> string \<times> goval) list \<Rightarrow> (string \<times> string \<times> maker) list \<Rightarrow> maker" where
  "make_struct fs makers p =
     (case makers of
        [] \<Rightarrow> Panic
      | (name, _, f) # _ \<Rightarrow>
          if name = ''Value'' \<or> name = ''List'' then f p
          else if name = ''Present'' then make_choice fs makers p
          else obind (make_fields fs makers [] False) (finish_field p True (seq_number p)))"

definition make_slice :: "maker list \<Rightarrow> maker" where
  "make_slice makers p =
     (case omapM (\<lambda>f. f (p\<lparr>fp_tagNumber := None\<rparr>)) makers of
        Ok es \<Rightarrow> finish_field p True (seq_number p) (Some (structEncoder es))
      | Err _ \<Rightarrow> Err IterateSubtype
      | Panic \<Rightarrow> Panic)"

primrec makeField :: "goval \<Rightarrow> maker" where
  "makeField (V_BitString bs n) = (\<lambda>p. finish_field p False TagBitString (Some (bitStringEncoder bs n)))"
| "makeField (V_ObjectIdentifier z bs) = (\<lambda>p. Err UnsupportedObjectIdentifier)"
| "makeField (V_OctetString z bs) = (\<lambda>p. finish_field p False TagOctetString (Some (bytesEncoder bs)))"
| "makeField (V_Enumerated i) = (\<lambda>p. finish_field p False TagEnumerated (Some (int64Encoder i)))"
| "makeField (V_Null b) = (\<lambda>p. finish_field p False TagNull (Some (bytesEncoder [])))"
| "makeField (V_Bool b) = (\<lambda>p. finish_field p False TagBoolean (Some (byteEncoder (if b then 0xff else 0))))"
| "makeField (V_Int i) = (\<lambda>p. finish_field p False TagInteger (Some (int64Encoder i)))"
| "makeField (V_Int32 i) = (\<lambda>p. finish_field p False TagInteger (Some (int64Encoder (scast i))))"
| "makeField (V_String s) = (\<lambda>p. finish_field p False (stringType p) (Some (stringEncoder s)))"
| "makeField (V_Slice z vs) = make_slice (map makeField vs)"
| "makeField (V_Ptr x) = make_elem (map_option makeField x)"
| "makeField (V_Interface x) = make_elem (map_option makeField x)"
| "makeField (V_Struct fs) = make_struct fs (map (map_prod id (map_prod id makeField)) fs)"
| "makeField V_Other = (\<lambda>p. finish_field p False 0 None)"

definition BerMarshalWithParams :: "goval \<Rightarrow> string \<Rightarrow> (ber_error, bytes) outcome" where
  "BerMarshalWithParams val params =
     obind (makeField val (parseFieldParameters params)) (\<lambda>e. Encode e (replicate (Len e) 0))"

definition BerMarshal :: "goval \<Rightarrow> (ber_error, bytes) outcome" where
  "BerMarshal val = BerMarshalWithParams val ''''"

end
