(* ===== verification/Chf_Ber_Decode.thy ===== *)
theory Chf_Ber_Decode
  imports Chf_Ber
begin

text \<open>
  The parser of the BER codec (\<open>NFs/chf/cdr/asn/ber_unmarshal.go\<close>). \<open>ParseField\<close> writes into a settable
  \<open>reflect.Value\<close>; here it takes the type and the current value and returns the new value. What a failed
  parse leaves behind in the target is not modelled. A slice keeps its capacity, because the length
  octets of a header are read with a slice expression that may reach beyond the slice's end.
\<close>

section \<open>Headers and primitive values\<close>

text \<open>The loop over the octets of a long tag number, on the octets from offset 1 on.\<close>

fun tag_loop :: "bytes \<Rightarrow> u64 \<Rightarrow> nat \<Rightarrow> u64 \<times> nat" where
  "tag_loop [] t off = (t, off)"
| "tag_loop (b # bs) t off =
     (let t = push_bit 7 t OR ucast (b AND 0x7f)
      in if b AND 0x80 = 0 then (t, off + 1) else tag_loop bs t (off + 1))"

definition parseInt64 :: "bytes \<Rightarrow> (ber_error, i64) outcome" where
  "parseInt64 bs =
     (if length bs > 8 then Err Int64OutOfRange
      else Ok (foldl (\<lambda>r b. push_bit 8 r OR ucast b) 0 bs))"

text \<open>The length that starts at \<open>off\<close>, and the offset behind it.\<close>

definition parse_length :: "slice \<Rightarrow> nat \<Rightarrow> (ber_error, nat \<times> nat) outcome" where
  "parse_length s off =
     (if off \<ge> slen s then Err HeaderTruncated
      else obind (at s off) (\<lambda>b.
        if b \<le> 127 then Ok (unat b, off + 1)
        else let n = unat (b AND 0x7f)
             in if n > 3 then Err LengthTooLarge
                else obind (sub s (off + 1) (off + 1 + n)) (\<lambda>ls.
                     obind (parseInt64 (sdata ls)) (\<lambda>val. Ok (unat val, off + 1 + n)))))"

text \<open>The tag number in the first octet or behind it, and the offset of the length.\<close>

definition parse_tag :: "slice \<Rightarrow> u8 \<Rightarrow> u64 \<times> nat" where
  "parse_tag s b0 = (if b0 AND 0x1f \<noteq> 0x1f then (ucast (b0 AND 0x1f), 1) else tag_loop (drop 1 (sdata s)) 0 1)"

definition parseTagAndLength :: "slice \<Rightarrow> (ber_error, tagAndLen \<times> nat) outcome" where
  "parseTagAndLength s =
     obind (at s 0) (\<lambda>b0.
       case parse_tag s b0 of (number, off) \<Rightarrow>
         if b0 AND 0x1f = 0x1f \<and> off > 10 then Err TagNumberTooLarge
         else obind (parse_length s off) (\<lambda>(l, off).
              Ok (\<lparr>tal_class = unat (drop_bit 6 b0), constructed = (b0 AND 0x20 \<noteq> 0),
                   tagNumber = number, tal_len = l\<rparr>, off)))"

definition parseBitString :: "bytes \<Rightarrow> (ber_error, goval) outcome" where
  "parseBitString bs =
     (case bs of
        [] \<Rightarrow> Panic
      | b # rest \<Rightarrow> Ok (V_BitString rest (word_of_int (int (length bs - 1) * 8 - int (unat b)))))"

definition parseBool :: "u8 \<Rightarrow> bool" where
  "parseBool b = (b \<noteq> 0)"

section \<open>Structures and lists\<close>

type_synonym field_parser = "goval \<Rightarrow> slice \<Rightarrow> fieldParameters \<Rightarrow> (ber_error, goval) outcome"

text \<open>Every parse starts with the header and the check of the announced length.\<close>

definition with_header :: "slice \<Rightarrow> (tagAndLen \<Rightarrow> nat \<Rightarrow> (ber_error, 'a) outcome) \<Rightarrow> (ber_error, 'a) outcome" where
  "with_header s f =
     obind (parseTagAndLength s) (\<lambda>(tal, off).
       if off + tal_len tal > slen s then Err ValueOutOfRange else f tal off)"

text \<open>A struct field is exported, \<open>PkgPath\<close> is empty, when its name starts with an upper-case letter.\<close>

definition exported :: "string \<Rightarrow> bool" where
  "exported name = (case name of [] \<Rightarrow> False | c # _ \<Rightarrow> let n = (of_char c :: nat) in 65 \<le> n \<and> n \<le> 90)"

definition set_field :: "nat \<Rightarrow> goval \<Rightarrow> (string \<times> string \<times> goval) list \<Rightarrow> (string \<times> string \<times> goval) list" where
  "set_field k v fs = fs[k := (fst (fs ! k), fst (snd (fs ! k)), v)]"

definition SetInt :: "i64 \<Rightarrow> goval \<Rightarrow> (ber_error, goval) outcome" where
  "SetInt i v =
     (case v of V_Int _ \<Rightarrow> Ok (V_Int i) | V_Int32 _ \<Rightarrow> Ok (V_Int32 (ucast i)) | V_Enumerated _ \<Rightarrow> Ok (V_Enumerated i)
      | _ \<Rightarrow> Panic)"

text \<open>The loop that looks for the alternative of a CHOICE; 0 when there is none.\<close>

fun find_present :: "fieldParameters list \<Rightarrow> u64 \<Rightarrow> nat \<Rightarrow> nat" where
  "find_present [] number i = 0"
| "find_present (sp # sps) number i = (if fp_tagNumber sp = Some number then i else find_present sps number (i + 1))"

definition parse_choice ::
    "field_parser list \<Rightarrow> fieldParameters list \<Rightarrow> (string \<times> string \<times> goval) list \<Rightarrow> slice \<Rightarrow> tagAndLen \<Rightarrow> nat
      \<Rightarrow> fieldParameters \<Rightarrow> (ber_error, goval) outcome" where
  "parse_choice parsers sps cur s tal talOff p =
     (if openType p then Err OpenTypeNotImplemented
      else obind
        (if fp_tagNumber p = None then Ok (tal, 0)
         else obind (sub_from s talOff) (\<lambda>inner.
              obind (parseTagAndLength inner) (\<lambda>(tal, off).
                if off + tal_len tal > slen s then Err ValueOutOfRange else Ok (tal, off))))
        (\<lambda>(tal, offset).
          let present = find_present (tl sps) (tagNumber tal) 1
          in obind (SetInt (word_of_nat present) (snd (snd (cur ! 0)))) (\<lambda>v0.
             if present = 0 then Err PresentIsZero
             else obind (sub_from s offset) (\<lambda>s'.
                  obind ((parsers ! present) (snd (snd (cur ! present))) s' (sps ! present)) (\<lambda>v.
                  Ok (V_Struct (set_field present v (set_field 0 v0 cur))))))))"

text \<open>The loop \<open>for ; current < NumField(); current++\<close> that looks for the field with a tag number; the
  result is the number of fields when there is none. A field without tag number is a nil dereference.\<close>

fun scan_fields :: "bool \<Rightarrow> u64 \<Rightarrow> fieldParameters list \<Rightarrow> nat \<Rightarrow> (ber_error, nat) outcome" where
  "scan_fields isOpen number [] current = Ok current"
| "scan_fields isOpen number (sp # sps) current =
     (if isOpen then Err OpenTypeNotImplemented
      else case fp_tagNumber sp of
             None \<Rightarrow> Panic
           | Some t \<Rightarrow> if t = number then Ok current else scan_fields isOpen number sps (current + 1))"

lemma tag_loop_off: "off \<le> snd (tag_loop bs t off)"
  by (induction bs t off rule: tag_loop.induct) (auto simp: Let_def)

lemma parse_length_off: "parse_length s off = Ok r \<Longrightarrow> off < snd r"
  by (auto simp: parse_length_def go_simps Let_def split: if_splits)

lemma parseTagAndLength_pos: "parseTagAndLength s = Ok (tal, off) \<Longrightarrow> 0 < off"
  by (auto simp: parseTagAndLength_def go_simps case_prod_beta split: if_splits dest: parse_length_off)

text \<open>The fields of a SEQUENCE (searched from the one behind the last found) or of a SET (searched
  from the first). A header has at least one octet, so the offset grows and the branch of the source
  for \<open>offset >= next\<close> is never taken.\<close>

function struct_loop ::
    "fieldParameters \<Rightarrow> field_parser list \<Rightarrow> fieldParameters list \<Rightarrow> slice \<Rightarrow> nat \<Rightarrow> nat
      \<Rightarrow> (string \<times> string \<times> goval) list \<Rightarrow> (ber_error, (string \<times> string \<times> goval) list) outcome" where
  "struct_loop p parsers sps s offset current cur =
     (if slen s \<le> offset then Ok cur
      else obind (sub_from s offset) (\<lambda>s'.
           obind (parseTagAndLength s') (\<lambda>(talNow, talOffNow).
             let nxt = offset + talOffNow + tal_len talNow; start = (if fp_set p then 0 else current)
             in if nxt > slen s then Err ValueOutOfRange
                else obind (scan_fields (openType p) (tagNumber talNow) (drop start sps) start) (\<lambda>k.
                     if length sps \<le> k then Err TypeNotFound
                     else obind (sub s offset nxt) (\<lambda>field.
                          obind ((parsers ! k) (snd (snd (cur ! k))) field (sps ! k)) (\<lambda>v.
                          struct_loop p parsers sps s nxt (k + 1) (set_field k v cur)))))))"
  by pat_completeness auto
termination
  by (relation "measure (\<lambda>(p, parsers, sps, s, offset, current, cur). slen s - offset)")
     (auto dest: parseTagAndLength_pos)

definition parse_struct ::
    "(string \<times> string \<times> field_parser) list \<Rightarrow> field_parser" where
  "parse_struct fields_of v s p =
     with_header s (\<lambda>tal talOff.
       case v of
         V_Struct cur \<Rightarrow>
           (case fields_of of
              [] \<Rightarrow> Panic
            | (name, _, f) # _ \<Rightarrow>
                if name = ''Value'' \<or> name = ''List''
                then obind (f (snd (snd (cur ! 0))) s p) (\<lambda>w. Ok (V_Struct (set_field 0 w cur)))
                else if \<not> list_all (\<lambda>(n, _, _). exported n) fields_of then Err UnexportedFields
                else let parsers = map (\<lambda>(_, _, f). f) fields_of;
                         sps = map (\<lambda>(_, tag, _). parseFieldParameters tag) fields_of
                     in if name = ''Present'' then parse_choice parsers sps cur s tal talOff p
                        else omap V_Struct (struct_loop p parsers sps s talOff 0 cur))
       | _ \<Rightarrow> Panic)"

text \<open>The elements of a SEQUENCE OF or SET OF: first the loop that collects their octets, then one
  parse each, with the parameters of the list itself.\<close>

function list_items :: "slice \<Rightarrow> nat \<Rightarrow> (ber_error, slice list) outcome" where
  "list_items s offset =
     (if slen s \<le> offset then Ok []
      else obind (sub_from s offset) (\<lambda>s'.
           obind (parseTagAndLength s') (\<lambda>(talNow, talOffNow).
             let nxt = offset + talOffNow + tal_len talNow
             in if nxt > slen s then Err ValueOutOfRange
                else obind (sub s offset nxt) (\<lambda>item. obind (list_items s nxt) (\<lambda>items. Ok (item # items))))))"
  by pat_completeness auto
termination
  by (relation "measure (\<lambda>(s, offset). slen s - offset)") (auto dest: parseTagAndLength_pos)

definition parse_slice :: "goval \<Rightarrow> field_parser \<Rightarrow> field_parser" where
  "parse_slice z f v s p =
     with_header s (\<lambda>tal talOff.
       obind (list_items s talOff) (\<lambda>items.
       obind (omapM (\<lambda>item. f z item p) items) (\<lambda>vs. Ok (V_Slice False vs))))"

section \<open>Unmarshalling\<close>

text \<open>The zero value of a type.\<close>

primrec zero_value :: "gotype \<Rightarrow> goval" where
  "zero_value T_BitString = V_BitString [] 0"
| "zero_value T_ObjectIdentifier = V_ObjectIdentifier True []"
| "zero_value T_OctetString = V_OctetString True []"
| "zero_value T_Enumerated = V_Enumerated 0"
| "zero_value T_Null = V_Null False"
| "zero_value T_Bool = V_Bool False"
| "zero_value T_Int = V_Int 0"
| "zero_value T_Int32 = V_Int32 0"
| "zero_value T_String = V_String []"
| "zero_value (T_Slice t) = V_Slice True []"
| "zero_value (T_Ptr t) = V_Ptr None"
| "zero_value T_Interface = V_Interface None"
| "zero_value (T_Struct fs) = V_Struct (map (map_prod id (map_prod id zero_value)) fs)"
| "zero_value T_Other = V_Other"

text \<open>\<open>v.Set(reflect.ValueOf(true))\<close> on a field of type \<open>NULL\<close>: both types are defined types with
  different names, so \<open>reflect\<close> panics.\<close>

primrec ParseField :: "gotype \<Rightarrow> field_parser" where
  "ParseField T_BitString = (\<lambda>v s p. with_header s (\<lambda>tal off. obind (sub_from s off) (\<lambda>b. parseBitString (sdata b))))"
| "ParseField T_ObjectIdentifier = (\<lambda>v s p. with_header s (\<lambda>tal off. Err UnsupportedObjectIdentifier))"
| "ParseField T_OctetString = (\<lambda>v s p. with_header s (\<lambda>tal off. obind (sub_from s off) (\<lambda>b. Ok (V_OctetString False (sdata b)))))"
| "ParseField T_Enumerated = (\<lambda>v s p. with_header s (\<lambda>tal off.
     obind (sub_from s off) (\<lambda>b. omap V_Enumerated (parseInt64 (sdata b)))))"
| "ParseField T_Null = (\<lambda>v s p. with_header s (\<lambda>tal off. Panic))"
| "ParseField T_Bool = (\<lambda>v s p. with_header s (\<lambda>tal off. obind (at s off) (\<lambda>b. Ok (V_Bool (parseBool b)))))"
| "ParseField T_Int = (\<lambda>v s p. with_header s (\<lambda>tal off.
     obind (sub_from s off) (\<lambda>b. omap V_Int (parseInt64 (sdata b)))))"
| "ParseField T_Int32 = (\<lambda>v s p. with_header s (\<lambda>tal off.
     obind (sub_from s off) (\<lambda>b. omap (\<lambda>i. V_Int32 (ucast i)) (parseInt64 (sdata b)))))"
| "ParseField T_String = (\<lambda>v s p. with_header s (\<lambda>tal off. obind (sub_from s off) (\<lambda>b. Ok (V_String (sdata b)))))"
| "ParseField (T_Slice t) = parse_slice (zero_value t) (ParseField t)"
| "ParseField (T_Ptr t) = (\<lambda>v s p. omap (\<lambda>w. V_Ptr (Some w)) (ParseField t (zero_value t) s p))"
| "ParseField T_Interface = (\<lambda>v s p. with_header s (\<lambda>tal off. Err Unsupported))"
| "ParseField (T_Struct fs) = parse_struct (map (map_prod id (map_prod id ParseField)) fs)"
| "ParseField T_Other = (\<lambda>v s p. with_header s (\<lambda>tal off. Err Unsupported))"

definition UnmarshalWithParams :: "slice \<Rightarrow> gotype \<Rightarrow> goval \<Rightarrow> string \<Rightarrow> (ber_error, goval) outcome" where
  "UnmarshalWithParams b t v params = ParseField t v b (parseFieldParameters params)"

definition Unmarshal :: "slice \<Rightarrow> gotype \<Rightarrow> goval \<Rightarrow> (ber_error, goval) outcome" where
  "Unmarshal b t v = UnmarshalWithParams b t v ''''"

end
