(* ===== verification/Chf_Ber_Primitives.thy ===== *)
theory Chf_Ber_Primitives
  imports Chf_Ber_Decode
begin

text \<open>
  Lemmas on the parts of the BER codec that do not depend on reflection: what an encoder writes
  (\<open>Encode_octets\<close>: the code's in-place writes produce the concatenation \<open>octets\<close>), the octets of
  integers, and the header (\<open>parse_header\<close>: \<open>parseTagAndLength\<close> reads back what
  \<open>appendTagAndLen\<close> wrote).
\<close>

section \<open>What an encoder writes\<close>

primrec octets :: "encoder \<Rightarrow> bytes" where
  "octets (byteEncoder b) = [b]"
| "octets (bytesEncoder bs) = bs"
| "octets (stringEncoder s) = s"
| "octets (structEncoder es) = concat (map octets es)"
| "octets (berTypeEncoder tal v) = octets tal @ octets v"
| "octets (int64Encoder i) = int64_octets (int64_Len i) i"
| "octets (bitStringEncoder bs n) = (8 - ucast (n mod 8)) # bs"

lemma length_int64_octets [simp]: "length (int64_octets n i) = n"
  by (induction n arbitrary: i) auto

lemma length_octets_Len [simp]: "length (octets e) = Len e"
  by (induction e) (auto simp: length_concat comp_def intro!: arg_cong [where f = sum_list] map_cong)

lemma go_copy_append: "go_copy (replicate (length src) x @ rest) src = src @ rest" for x
  by (simp add: go_copy_def)

lemma go_copy_fits: "length src \<le> length dst \<Longrightarrow> go_copy dst src = src @ drop (length src) dst"
  by (simp add: go_copy_def)

lemma encode_seq_octets:
  assumes "\<And>e dst. e \<in> set es \<Longrightarrow> Len e \<le> length dst \<Longrightarrow> Encode e dst = Ok (octets e @ drop (Len e) dst)"
    and "sum_list (map Len es) \<le> length dst"
  shows "encode_seq (map Len es) (map Encode es) dst =
    Ok (concat (map octets es) @ drop (sum_list (map Len es)) dst)"
  using assms
proof (induction es arbitrary: dst)
  case (Cons e es)
  then have "Encode e dst = Ok (octets e @ drop (Len e) dst)" by simp
  with Cons show ?case by (simp add: encode_behind_def add.commute)
qed simp

lemma Encode_octets: "Len e \<le> length dst \<Longrightarrow> Encode e dst = Ok (octets e @ drop (Len e) dst)"
proof (induction e arbitrary: dst)
  case (byteEncoder b)
  then show ?case by (cases dst) auto
next
  case (structEncoder es)
  then show ?case by (simp add: encode_seq_octets)
next
  case (berTypeEncoder tal v)
  then show ?case by (simp add: encode_behind_def add.commute)
next
  case (bitStringEncoder bs n)
  then show ?case by (cases dst) (auto simp: go_copy_fits)
qed (simp_all add: go_copy_fits Let_def)

lemma BerMarshalWithParams_octets:
  "BerMarshalWithParams v ps = omap octets (makeField v (parseFieldParameters ps))"
  by (cases "makeField v (parseFieldParameters ps)") (simp_all add: BerMarshalWithParams_def Encode_octets)

section \<open>Integers\<close>

declare int64_pos_loop.simps [simp del] int64_neg_loop.simps [simp del] septets.simps [simp del] length_octets.simps [simp del]

lemma foldl_octets:
  "n \<le> 8 \<Longrightarrow> foldl (\<lambda>r b. push_bit 8 r OR ucast b) 0 (int64_octets n i) = take_bit (8 * n) i" for i :: i64
proof (induction n arbitrary: i)
  case (Suc n)
  have "push_bit 8 (take_bit (8 * n) (signed_drop_bit 8 i)) OR ucast (ucast i :: u8) = take_bit (8 * Suc n) i"
    using Suc.prems
    by (intro bit_word_eqI) (auto simp: bit_simps bit_signed_drop_bit_iff)
  with Suc show ?case by simp
qed simp

lemma int64_pos_loop_bound:
  assumes "int64_pos_loop i n = (i', n')" and "0 \<le> i"
  shows "0 \<le> i' \<and> i' \<le> 127 \<and> n \<le> n' \<and> i < 128 * 256 ^ (n' - n)"
  using assms
proof (induction i n rule: int64_pos_loop.induct)
  case (1 i n)
  show ?case
  proof (cases "i > 127")
    case True
    with 1 have *: "0 \<le> i'" "i' \<le> 127" "n + 1 \<le> n'" "i div 256 < 128 * 256 ^ (n' - (n + 1))"
      by (auto simp: int64_pos_loop.simps [of i])
    then have "i < 256 * (128 * 256 ^ (n' - (n + 1)))" by linarith
    moreover from * have "(256 :: int) * 256 ^ (n' - (n + 1)) = 256 ^ (n' - n)" by (simp flip: power_Suc add: Suc_diff_Suc)
    ultimately show ?thesis using * by simp
  next
    case False
    with 1 show ?thesis by (auto simp: int64_pos_loop.simps [of i])
  qed
qed

lemma int64_pos_loop_le: "i < 128 * 256 ^ k \<Longrightarrow> snd (int64_pos_loop i n) \<le> n + k"
proof (induction k arbitrary: i n)
  case (Suc k)
  then have "i div 256 < 128 * 256 ^ k" by auto
  from Suc.IH [OF this, of "n + 1"] show ?case by (simp add: int64_pos_loop.simps [of i])
qed (simp add: int64_pos_loop.simps)

lemma int64_neg_loop_le: "- 128 * 256 ^ k \<le> i \<Longrightarrow> int64_neg_loop i n \<le> n + k"
proof (induction k arbitrary: i n)
  case (Suc k)
  then have "- 128 * 256 ^ k \<le> i div 256" by auto
  from Suc.IH [OF this, of "n + 1"] show ?case by (simp add: int64_neg_loop.simps [of i])
qed (simp add: int64_neg_loop.simps)

lemma int64_neg_loop_ge: "n \<le> int64_neg_loop i n"
proof (induction i n rule: int64_neg_loop.induct)
  case (1 i n)
  then show ?case by (cases "i < - 128") (auto simp: int64_neg_loop.simps [of i])
qed

lemma sint_i64: "- (2 ^ 63) \<le> sint i" "sint i < 2 ^ 63" for i :: i64
  using sint_ge [of i] sint_lt [of i] by simp_all

lemma int64_Len_le: "int64_Len i \<le> 8"
proof (cases "0 \<le> sint i")
  case True
  obtain i' n where loop: "int64_pos_loop (sint i) 1 = (i', n)" by fastforce
  with True have "0 \<le> i'" using int64_pos_loop_bound by blast
  moreover have "n \<le> 1 + 7" using int64_pos_loop_le [of "sint i" 7 1] sint_i64(2) [of i] loop by simp
  ultimately show ?thesis by (simp add: int64_Len_def loop [simplified] int64_neg_loop.simps)
next
  case False
  then have "int64_pos_loop (sint i) 1 = (sint i, 1)" by (simp add: int64_pos_loop.simps)
  with int64_neg_loop_le [of 7 "sint i" 1] sint_i64(1) [of i] show ?thesis by (simp add: int64_Len_def)
qed

lemma int64_Len_nonneg:
  assumes "0 \<le> sint i"
  shows "take_bit (8 * int64_Len i) i = i"
proof -
  obtain i' n where loop: "int64_pos_loop (sint i) 1 = (i', n)" by fastforce
  then have i': "0 \<le> i'" "1 \<le> n" "sint i < 128 * 256 ^ (n - 1)" using int64_pos_loop_bound assms by blast+
  then have n: "int64_Len i = n" by (simp add: int64_Len_def loop [simplified] int64_neg_loop.simps)
  have "(128 :: int) * 256 ^ (n - 1) \<le> 2 ^ (8 * n)"
    using i'(2) by (cases n) (simp_all add: power_mult power_add)
  then have "sint i < 2 ^ (8 * n)" using i'(3) by linarith
  with assms have self: "take_bit (8 * n) (sint i) = sint i" by (simp add: take_bit_int_eq_self_iff)
  have "m < 8 * n" if "bit i m" for m
  proof -
    have "bit (sint i) m" using that by (simp add: bit_sint_iff)
    then show ?thesis using self by (metis bit_take_bit_iff)
  qed
  then show ?thesis unfolding n by (intro bit_word_eqI) (auto simp: bit_simps)
qed

lemma parseInt64_octets: "parseInt64 (int64_octets (int64_Len i) i) = Ok (take_bit (8 * int64_Len i) i)"
  using int64_Len_le [of i] by (simp add: parseInt64_def foldl_octets)

section \<open>Headers\<close>

lemma tag_loop_octets:
  "tag_loop (tag_octets n t @ bs) acc off = tag_loop bs (push_bit (7 * n) acc OR take_bit (7 * n) t) (off + n)"
proof (induction n arbitrary: t bs)
  case (Suc n)
  have "push_bit 7 (push_bit (7 * n) acc OR take_bit (7 * n) (drop_bit 7 t)) OR ucast ((ucast t OR 0x80 :: u8) AND 0x7f)
      = push_bit (7 * Suc n) acc OR take_bit (7 * Suc n) t"
    unfolding and_low_bits by (rule bit_word_eqI) (auto simp: bit_simps bit_octet)
  moreover have "(ucast t OR 0x80 :: u8) AND 0x80 \<noteq> 0" by (simp add: and_octet_bit bit_simps bit_octet)
  ultimately show ?case by (simp add: Suc.IH Let_def)
qed simp

lemma tag_loop_clear_last:
  "tag_loop (clear_last (tag_octets (Suc n) t) @ bs) 0 off = (take_bit (7 * Suc n) t, off + Suc n)"
proof -
  have "push_bit 7 (take_bit (7 * n) (drop_bit 7 t)) OR ucast (((ucast t OR 0x80 :: u8) AND 0x7f) AND 0x7f)
      = take_bit (7 * Suc n) t"
    unfolding and_low_bits by (rule bit_word_eqI) (auto simp: bit_simps bit_octet)
  moreover have "((ucast t OR 0x80 :: u8) AND 0x7f) AND 0x80 = 0" by (simp add: and_octet_bit and_low_bits bit_simps)
  ultimately show ?thesis by (simp add: clear_last_def tag_loop_octets Let_def)
qed

lemma septets_bound: "n \<le> septets t n \<and> unat t < 128 ^ (septets t n - n + 1)"
proof (induction t n rule: septets.induct)
  case (1 t n)
  show ?case
  proof (cases "t > 127")
    case True
    with 1 have *: "n + 1 \<le> septets t n" "unat (drop_bit 7 t) < 128 ^ (septets t n - (n + 1) + 1)"
      by (simp_all add: septets.simps [of t n])
    have "unat t < 128 * (128 ^ (septets t n - (n + 1) + 1))"
      using *(2) by (simp add: drop_bit_eq_div unat_div)
    also have "\<dots> = 128 ^ (septets t n - n + 1)" using *(1) by (simp flip: power_Suc add: Suc_diff_Suc)
    finally show ?thesis using *(1) by simp
  next
    case False
    then have "unat t < 128" by (simp add: word_less_nat_alt not_less word_le_nat_alt)
    with False show ?thesis by (simp add: septets.simps [of t n])
  qed
qed

lemma septets_le: "unat t < 128 ^ (k + 1) \<Longrightarrow> septets t n \<le> n + k"
proof (induction k arbitrary: t n)
  case 0
  then show ?case by (simp add: septets.simps word_less_nat_alt)
next
  case (Suc k)
  then have "unat (drop_bit 7 t) < 128 ^ (k + 1)" by (simp add: drop_bit_eq_div unat_div)
  from Suc.IH [OF this, of "n + 1"] show ?case by (simp add: septets.simps [of t n])
qed

lemma take_bit_septets: "take_bit (7 * septets t 1) t = t"
proof -
  have "unat t < 128 ^ septets t 1" using septets_bound [of 1 t] by (cases "septets t 1") auto
  then have "unat t < 2 ^ (7 * septets t 1)" by (simp add: power_mult)
  then have "take_bit (7 * septets t 1) (unat t) = unat t" by (simp add: take_bit_nat_eq_self_iff)
  then have "unat (take_bit (7 * septets t 1) t) = unat t" by (simp add: unsigned_take_bit_eq)
  then show ?thesis by (simp only: word_unat_eq_iff)
qed

lemma length_octets_bound: "n \<le> length_octets l n \<and> l < 256 ^ (length_octets l n - n + 1)"
proof (induction l n rule: length_octets.induct)
  case (1 l n)
  show ?case
  proof (cases "l > 255")
    case True
    with 1 have *: "n + 1 \<le> length_octets l n" "l div 256 < 256 ^ (length_octets l n - (n + 1) + 1)"
      by (simp_all add: length_octets.simps [of l n])
    have "l < 256 * (256 ^ (length_octets l n - (n + 1) + 1))" using *(2) by simp
    also have "\<dots> = 256 ^ (length_octets l n - n + 1)" using *(1) by (simp flip: power_Suc add: Suc_diff_Suc)
    finally show ?thesis using *(1) by simp
  next
    case False
    then show ?thesis by (simp add: length_octets.simps [of l n])
  qed
qed

lemma length_octets_le: "l < 256 ^ (k + 1) \<Longrightarrow> length_octets l n \<le> n + k"
proof (induction k arbitrary: l n)
  case 0
  then show ?case by (simp add: length_octets.simps)
next
  case (Suc k)
  then have "l div 256 < 256 ^ (k + 1)" by simp
  from Suc.IH [OF this, of "n + 1"] show ?case by (simp add: length_octets.simps [of l n])
qed


lemma sint_small: "l < 2 ^ 63 \<Longrightarrow> sint (word_of_nat l :: i64) = int l"
  by (simp add: signed_of_nat signed_take_bit_int_eq_self)

lemma len_octets_int64: "l < 2 ^ 63 \<Longrightarrow> len_octets n l = int64_octets n (word_of_nat l)"
proof (induction n arbitrary: l)
  case (Suc n)
  have "signed_drop_bit 8 (word_of_nat l :: i64) = word_of_nat (l div 256)"
    using sint_small [OF Suc.prems] sint_small [of "l div 256"] Suc.prems
    by (intro signed_word_eqI [where 'a = int]) (simp add: sint_signed_drop_bit_eq drop_bit_eq_div zdiv_int)
  moreover have "ucast (word_of_nat l :: i64) = (word_of_nat l :: u8)" 
    by (rule bit_word_eqI) (simp add: bit_ucast_iff bit_of_nat_iff)
  ultimately show ?case using Suc by simp
qed simp

lemma parse_length_encoded:
  assumes "l < 2 ^ 24" and pre: "length pre = off"
    and enc: "enc = (if l \<le> 127 then [word_of_nat l] else (word_of_nat (length_octets l 1) OR 0x80) # len_octets (length_octets l 1) l)"
  shows "parse_length (Slice (pre @ enc @ rest) sp) off = Ok (l, off + length enc)"
proof (cases "l \<le> 127")
  case True
  then have "unat (word_of_nat l :: u8) = l" by (simp add: unat_u8)
  with True pre enc show ?thesis by (simp add: parse_length_def at_def nth_append word_le_nat_alt)
next
  case False
  define n where "n = length_octets l 1"
  have n: "1 \<le> n" "n \<le> 3" "l < 256 ^ n"
    using length_octets_bound [of 1 l] length_octets_le [of l 2 1] assms(1) by (cases n; simp add: n_def)+
  then have "n = 1 \<or> n = 2 \<or> n = 3" by linarith
  then have first: "\<not> (word_of_nat n OR 0x80 :: u8) \<le> 127" "unat ((word_of_nat n OR 0x80 :: u8) AND 0x7f) = n"
    by (elim disjE; simp)+
  have len: "len_octets n l = int64_octets n (word_of_nat l)" using assms(1) by (simp add: len_octets_int64)
  have "l < 2 ^ (8 * n)" using n(3) by (simp add: power_mult)
  then have "take_bit (8 * n) (word_of_nat l :: i64) = word_of_nat l"
    by (simp add: take_bit_of_nat take_bit_nat_eq_self)
  then have val: "parseInt64 (int64_octets n (word_of_nat l)) = Ok (word_of_nat l)"
    using n(2) by (simp add: parseInt64_def foldl_octets)
  have l: "unat (word_of_nat l :: i64) = l" using assms(1) by (simp add: unat_of_nat)
  have "at (Slice (pre @ enc @ rest) sp) off = (Ok (word_of_nat n OR 0x80) :: (ber_error, _) outcome)"
    using False pre enc by (simp add: at_def nth_append n_def)
  moreover have "sub (Slice (pre @ enc @ rest) sp) (off + 1) (off + 1 + n) = (Ok (Slice (len_octets n l) (rest @ sp)) :: (ber_error, _) outcome)"
    using False pre enc len by (simp add: sub_in_bounds n_def)
  moreover have "off < slen (Slice (pre @ enc @ rest) sp)" "length enc = Suc n" using False pre enc len by (simp_all add: n_def)
  ultimately show ?thesis using first n(2) val len l by (simp add: parse_length_def)
qed

text \<open>A header as the encoder writes it: class below 4, tag number below \<open>2^63\<close>, length below \<open>2^24\<close>.\<close>

definition header_ok :: "tagAndLen \<Rightarrow> bool" where
  "header_ok t \<longleftrightarrow> tal_class t < 4 \<and> unat (tagNumber t) < 2 ^ 63 \<and> tal_len t < 2 ^ 24"

lemma first_octet:
  fixes c x :: u8
  assumes "c < 4" and "x < 32"
  shows "drop_bit 6 (push_bit 6 c OR (if k then 0x20 else 0) OR x) = c"
    "(push_bit 6 c OR (if k then 0x20 else 0) OR x) AND 0x20 \<noteq> 0 \<longleftrightarrow> k"
    "(push_bit 6 c OR (if k then 0x20 else 0) OR x) AND 0x1f = x"
proof -
  have bits: "bit c m \<Longrightarrow> m < 2" "bit x m \<Longrightarrow> m < 5" for m
    using bit_less_exp [of c 2 m] bit_less_exp [of x 5 m] assms by simp_all
  show "drop_bit 6 (push_bit 6 c OR (if k then 0x20 else 0) OR x) = c"
    by (rule bit_word_eqI) (auto simp: bit_simps bit_octet dest: bits)
  show "(push_bit 6 c OR (if k then 0x20 else 0) OR x) AND 0x20 \<noteq> 0 \<longleftrightarrow> k"
    unfolding and_octet_bit by (auto simp: bit_simps bit_octet dest: bits)
  show "(push_bit 6 c OR (if k then 0x20 else 0) OR x) AND 0x1f = x"
    unfolding and_low_bits by (rule bit_word_eqI) (auto simp: bit_simps bit_octet dest: bits)
qed


definition first_byte :: "tagAndLen \<Rightarrow> u8" where
  "first_byte t = push_bit 6 (word_of_nat (tal_class t)) OR (if constructed t then 0x20 else 0) OR
     (if tagNumber t \<le> 30 then ucast (tagNumber t) else 31)"

definition tag_rest :: "tagAndLen \<Rightarrow> bytes" where
  "tag_rest t = (if tagNumber t \<le> 30 then [] else clear_last (tag_octets (septets (tagNumber t) 1) (tagNumber t)))"

definition len_part :: "nat \<Rightarrow> bytes" where
  "len_part l = (if l \<le> 127 then [word_of_nat l] else (word_of_nat (length_octets l 1) OR 0x80) # len_octets (length_octets l 1) l)"

lemma appendTagAndLen_parts: "appendTagAndLen t = first_byte t # tag_rest t @ len_part (tal_len t)"
  by (simp add: appendTagAndLen_def first_byte_def tag_rest_def len_part_def Let_def or.assoc)

lemma length_tag_octets [simp]: "length (tag_octets n t) = n"
  by (induction n arbitrary: t) auto

lemma tag_rest_long: "\<not> tagNumber t \<le> 30 \<Longrightarrow> length (tag_rest t) = septets (tagNumber t) 1"
  using septets_bound [of 1 "tagNumber t"] by (cases "septets (tagNumber t) 1") (auto simp: tag_rest_def clear_last_def)

lemma parse_tag_encoded:
  fixes t :: tagAndLen and rest sp :: bytes
  assumes "header_ok t"
  defines "data \<equiv> Slice (first_byte t # tag_rest t @ rest) sp"
  shows "parse_tag data (first_byte t) = (tagNumber t, 1 + length (tag_rest t))"
    "first_byte t AND 0x1f = 0x1f \<Longrightarrow> 1 + length (tag_rest t) \<le> 10"
    "unat (drop_bit 6 (first_byte t)) = tal_class t" "first_byte t AND 0x20 \<noteq> 0 \<longleftrightarrow> constructed t"
proof -
  have c: "(word_of_nat (tal_class t) :: u8) < 4" "unat (word_of_nat (tal_class t) :: u8) = tal_class t"
    using assms(1) by (simp_all add: header_ok_def word_less_nat_alt unat_u8)
  let ?x = "if tagNumber t \<le> 30 then ucast (tagNumber t) else (31 :: u8)"
  have small: "unat (tagNumber t) \<le> 30" if "tagNumber t \<le> 30" using that by (simp add: word_le_nat_alt)
  then have num: "unat (ucast (tagNumber t) :: u8) = unat (tagNumber t)" if "tagNumber t \<le> 30"
    using that by (simp add: unsigned_ucast_eq take_bit_nat_eq_self)
  have x: "?x < 32" using num small by (cases "tagNumber t \<le> 30") (simp_all add: word_less_nat_alt)
  note fo = first_octet [OF c(1) x, of "constructed t", folded first_byte_def]
  show "unat (drop_bit 6 (first_byte t)) = tal_class t" by (simp only: fo c)
  show "first_byte t AND 0x20 \<noteq> 0 \<longleftrightarrow> constructed t" by (rule fo)
  show "first_byte t AND 0x1f = 0x1f \<Longrightarrow> 1 + length (tag_rest t) \<le> 10"
  proof (cases "tagNumber t \<le> 30")
    case False
    have "unat (tagNumber t) < 128 ^ (8 + 1)" using assms(1) by (simp add: header_ok_def)
    from septets_le [OF this, of 1] show ?thesis by (simp add: tag_rest_long [OF False])
  qed (simp add: tag_rest_def)
  show "parse_tag data (first_byte t) = (tagNumber t, 1 + length (tag_rest t))"
  proof (cases "tagNumber t \<le> 30")
    case True
    have "ucast (ucast (tagNumber t) :: u8) = tagNumber t" using num [OF True] by (metis of_nat_unat ucast_id)
    moreover have "(ucast (tagNumber t) :: u8) \<noteq> 31" using num [OF True] small [OF True] by (auto simp: word_unat_eq_iff)
    ultimately show ?thesis using fo(3) True by (simp add: parse_tag_def tag_rest_def)
  next
    case False
    then obtain n where n: "septets (tagNumber t) 1 = Suc n" using septets_bound [of 1 "tagNumber t"] by (cases "septets (tagNumber t) 1") auto
    with False fo(3) take_bit_septets [of "tagNumber t"] show ?thesis
      by (simp add: parse_tag_def tag_rest_long data_def) (simp add: tag_rest_def n [simplified] tag_loop_clear_last del: tag_octets.simps)
  qed
qed

lemma parse_header:
  assumes "header_ok t"
  shows "parseTagAndLength (Slice (appendTagAndLen t @ rest) sp) = Ok (t, length (appendTagAndLen t))"
proof -
  note pt = parse_tag_encoded [OF assms]
  have len: "parse_length (Slice (first_byte t # tag_rest t @ len_part (tal_len t) @ rest) sp) (1 + length (tag_rest t))
      = Ok (tal_len t, 1 + length (tag_rest t) + length (len_part (tal_len t)))"
    using parse_length_encoded [OF _ _ len_part_def, of "tal_len t" "first_byte t # tag_rest t"] assms by (simp add: header_ok_def)
  show ?thesis
    using pt(2-4) unfolding parseTagAndLength_def appendTagAndLen_parts
    by (auto simp: at_def pt(1) len [simplified] not_less)
qed

lemma appendTagAndLen_not_Nil [simp]: "appendTagAndLen t \<noteq> []"
  by (simp add: appendTagAndLen_parts)
end
