(* ===== verification/Chf_Ber_Roundtrip.thy ===== *)
theory Chf_Ber_Roundtrip
  imports Chf_Ber_Primitives
begin

text \<open>
  The round trip of the BER codec through reflection: \<open>codable\<close> describes the values and types that
  come back, and rule induction on it shows that \<open>ParseField\<close> inverts \<open>makeField\<close>; the properties at
  the end state this for the exported functions, and what does not come back.
\<close>

section \<open>Values that come back\<close>

definition tag_ok :: "fieldParameters \<Rightarrow> bool" where
  "tag_ok p \<longleftrightarrow> (\<forall>t. fp_tagNumber p = Some t \<longrightarrow> unat t < 2 ^ 63 \<and> \<not> explicitTag p)"

definition field_absent :: "string \<Rightarrow> goval \<Rightarrow> bool" where
  "field_absent tag v \<longleftrightarrow> fp_optional (parseFieldParameters tag) \<and> IsNil v = Ok True"

text \<open>The octets of the header in front of an encoded value.\<close>

definition header_Len :: "encoder \<Rightarrow> nat" where
  "header_Len e = (case e of berTypeEncoder tal _ \<Rightarrow> Len tal | _ \<Rightarrow> 0)"

text \<open>The header of a tagged CHOICE is as long as the header of the alternative in it.\<close>

definition choice_headers_agree :: "fieldParameters \<Rightarrow> (ber_error, encoder) outcome \<Rightarrow> bool" where
  "choice_headers_agree p r \<longleftrightarrow>
     (\<forall>u e. fp_tagNumber p = Some u \<longrightarrow> r = Ok e \<longrightarrow>
        length (appendTagAndLen \<lparr>tal_class = 2, constructed = True, tagNumber = u, tal_len = Len e\<rparr>) = header_Len e)"

definition field_params :: "string \<times> string \<times> 'a \<Rightarrow> fieldParameters" where
  "field_params f = parseFieldParameters (fst (snd f))"

definition zero_field :: "string \<times> string \<times> gotype \<Rightarrow> string \<times> string \<times> goval" where
  "zero_field f = (fst f, fst (snd f), zero_value (snd (snd f)))"

text \<open>
  \<open>codable t v pe pd\<close>: the value \<open>v\<close> has type \<open>t\<close> and is of the kind that the parser, started with the
  parameters \<open>pd\<close>, gives back after the encoder was started with \<open>pe\<close>. The two differ only inside
  lists, whose elements are encoded without the list's tag number but parsed with it.
\<close>

inductive codable :: "gotype \<Rightarrow> goval \<Rightarrow> fieldParameters \<Rightarrow> fieldParameters \<Rightarrow> bool"
  and codable_fields :: "(string \<times> string \<times> gotype) list \<Rightarrow> (string \<times> string \<times> goval) list \<Rightarrow> bool"
  and codable_elems :: "gotype \<Rightarrow> goval list \<Rightarrow> fieldParameters \<Rightarrow> fieldParameters \<Rightarrow> bool"
where
  bit_string: "tag_ok pe \<Longrightarrow> unat n mod 8 \<noteq> 0 \<Longrightarrow> length bs = unat n div 8 + 1 \<Longrightarrow>
     codable T_BitString (V_BitString bs n) pe pd"
| octet_string: "tag_ok pe \<Longrightarrow> codable T_OctetString (V_OctetString False bs) pe pd"
| enumerated: "tag_ok pe \<Longrightarrow> 0 \<le> sint i \<Longrightarrow> codable T_Enumerated (V_Enumerated i) pe pd"
| boolean: "tag_ok pe \<Longrightarrow> codable T_Bool (V_Bool b) pe pd"
| integer: "tag_ok pe \<Longrightarrow> 0 \<le> sint i \<Longrightarrow> codable T_Int (V_Int i) pe pd"
| string: "tag_ok pe \<Longrightarrow> unat (stringType pe) < 2 ^ 63 \<Longrightarrow> codable T_String (V_String s) pe pd"
| pointer: "codable t v pe pd \<Longrightarrow> codable (T_Ptr t) (V_Ptr (Some v)) pe pd"
| wrapper: "codable t v pe pd \<Longrightarrow> name = ''Value'' \<or> name = ''List'' \<Longrightarrow>
     codable (T_Struct ((name, tag, t) # fs)) (V_Struct ((name, tag, v) # map zero_field fs)) pe pd"
| choice: "codable t v (parseFieldParameters tag) (parseFieldParameters tag) \<Longrightarrow>
     k < length fs \<Longrightarrow> fs ! k = (name, tag, t) \<Longrightarrow> length fs < 2 ^ 31 \<Longrightarrow>
     fp_tagNumber (parseFieldParameters tag) \<noteq> None \<Longrightarrow>
     (\<And>j. j < k \<Longrightarrow> fp_tagNumber (field_params (fs ! j)) \<noteq> fp_tagNumber (parseFieldParameters tag)) \<Longrightarrow>
     list_all (exported \<circ> fst) fs \<Longrightarrow> \<not> openType pe \<Longrightarrow> \<not> openType pd \<Longrightarrow>
     fp_tagNumber pd = fp_tagNumber pe \<Longrightarrow> tag_ok pe \<Longrightarrow>
     choice_headers_agree pe (makeField v (parseFieldParameters tag)) \<Longrightarrow>
     codable (T_Struct ((''Present'', ptag, T_Int) # fs))
       (V_Struct ((''Present'', ptag, V_Int (word_of_nat (k + 1))) # (map zero_field fs)[k := (name, tag, v)])) pe pd"
| sequence: "codable_fields fs vs \<Longrightarrow> fs \<noteq> [] \<Longrightarrow> fst (hd fs) \<notin> {''Value'', ''List'', ''Present''} \<Longrightarrow>
     list_all (exported \<circ> fst) fs \<Longrightarrow> distinct (map (fp_tagNumber \<circ> field_params) fs) \<Longrightarrow>
     None \<notin> set (map (fp_tagNumber \<circ> field_params) fs) \<Longrightarrow>
     \<not> list_all (\<lambda>(_, tag, v). field_absent tag v) vs \<Longrightarrow>
     fp_set pd = fp_set pe \<Longrightarrow> \<not> openType pd \<Longrightarrow> tag_ok pe \<Longrightarrow>
     codable (T_Struct fs) (V_Struct vs) pe pd"
| sequence_of: "codable_elems t vs (pe\<lparr>fp_tagNumber := None\<rparr>) pd \<Longrightarrow> tag_ok pe \<Longrightarrow>
     codable (T_Slice t) (V_Slice False vs) pe pd"
| no_fields: "codable_fields [] []"
| absent_field: "codable_fields fs vs \<Longrightarrow> field_absent tag (zero_value t) \<Longrightarrow>
     codable_fields ((name, tag, t) # fs) ((name, tag, zero_value t) # vs)"
| present_field: "codable_fields fs vs \<Longrightarrow> codable t v (parseFieldParameters tag) (parseFieldParameters tag) \<Longrightarrow>
     fp_optional (parseFieldParameters tag) \<longrightarrow> IsNil v = Ok False \<Longrightarrow> \<not> openType (parseFieldParameters tag) \<Longrightarrow>
     codable_fields ((name, tag, t) # fs) ((name, tag, v) # vs)"
| no_elems: "codable_elems t [] pe pd"
| more_elems: "codable_elems t vs pe pd \<Longrightarrow> codable t v pe pd \<Longrightarrow> codable_elems t (v # vs) pe pd"

text \<open>What is shown of such a value: it is encoded as a header and contents, with its tag number, and
  parsed to itself as long as the octets are fewer than \<open>2^24\<close>.\<close>

definition tlv :: "encoder \<Rightarrow> tagAndLen \<Rightarrow> encoder \<Rightarrow> bool" where
  "tlv e tal val \<longleftrightarrow> e = berTypeEncoder (bytesEncoder (appendTagAndLen tal)) val \<and> tal_len tal = Len val \<and>
     tal_class tal < 4 \<and> unat (tagNumber tal) < 2 ^ 63"

definition comes_back :: "gotype \<Rightarrow> goval \<Rightarrow> fieldParameters \<Rightarrow> fieldParameters \<Rightarrow> encoder \<Rightarrow> bool" where
  "comes_back t v pe pd e \<longleftrightarrow> makeField v pe = Ok e \<and>
     (\<exists>tal val. tlv e tal val \<and> (\<forall>u. fp_tagNumber pe = Some u \<longrightarrow> tagNumber tal = u)) \<and>
     (Len e < 2 ^ 24 \<longrightarrow> (\<forall>sp. ParseField t (zero_value t) (Slice (octets e) sp) pd = Ok v))"

lemma tlv_header:
  assumes "tlv e tal val" "Len e < 2 ^ 24"
  shows "parseTagAndLength (Slice (octets e @ rest) sp) = Ok (tal, header_Len e)"
    "header_Len e + tal_len tal = Len e" "octets e \<noteq> []" "drop (header_Len e) (octets e) = octets val"
    "header_Len e = length (appendTagAndLen tal)"
proof -
  have "header_ok tal" using assms by (simp add: tlv_def header_ok_def)
  from parse_header [OF this, of "octets val @ rest"] assms(1)
  show "parseTagAndLength (Slice (octets e @ rest) sp) = Ok (tal, header_Len e)" by (simp add: tlv_def header_Len_def)
qed (use assms(1) in \<open>auto simp: tlv_def header_Len_def\<close>)

lemma tlv_with_header:
  assumes "tlv e tal val" "Len e < 2 ^ 24"
  shows "with_header (Slice (octets e) sp) f = f tal (header_Len e)"
  using tlv_header(1) [OF assms, of "[]"] tlv_header(2) [OF assms] by (simp add: with_header_def)

lemma finish_field_tlv:
  assumes "tag_ok p" "unat num < 2 ^ 63"
  obtains e tal where "finish_field p k num (Some val) = Ok e" "tlv e tal val"
    "\<And>u. fp_tagNumber p = Some u \<Longrightarrow> tagNumber tal = u"
    "e = berTypeEncoder (bytesEncoder (appendTagAndLen tal)) val"
    "fp_tagNumber p \<noteq> None \<Longrightarrow> tal_class tal = 2" "constructed tal = k"
proof
  let ?tal = "\<lparr>tal_class = (case fp_tagNumber p of None \<Rightarrow> 0 | Some _ \<Rightarrow> 2), constructed = k,
     tagNumber = (case fp_tagNumber p of None \<Rightarrow> num | Some t \<Rightarrow> t), tal_len = Len val\<rparr>"
  show "finish_field p k num (Some val) = Ok (berTypeEncoder (bytesEncoder (appendTagAndLen ?tal)) val)"
    using assms(1) by (simp add: finish_field_def tag_ok_def split: option.split)
  show "tlv (berTypeEncoder (bytesEncoder (appendTagAndLen ?tal)) val) ?tal val"
    using assms by (simp add: tlv_def tag_ok_def split: option.split)
qed (use assms in \<open>auto simp: tag_ok_def\<close>)


section \<open>Primitive values\<close>

lemma comes_back_primitive:
  assumes "tag_ok pe" "unat num < 2 ^ 63"
    and mk: "makeField v pe = finish_field pe k num (Some val)"
    and pf: "\<And>s. ParseField t (zero_value t) s pd = with_header s (\<lambda>_. g s)"
    and g: "\<And>hdr sp. g (Slice (hdr @ octets val) sp) (length hdr) = Ok v"
  shows "\<exists>e. comes_back t v pe pd e"
proof -
  from assms(1,2) obtain e tal where e: "finish_field pe k num (Some val) = Ok e" "tlv e tal val"
    "\<And>u. fp_tagNumber pe = Some u \<Longrightarrow> tagNumber tal = u"
    "e = berTypeEncoder (bytesEncoder (appendTagAndLen tal)) val"
    by (rule finish_field_tlv [where k = k and val = val]) iprover
  have "ParseField t (zero_value t) (Slice (octets e) sp) pd = Ok v" if "Len e < 2 ^ 24" for sp
    using g [of "appendTagAndLen tal" sp]
    unfolding pf tlv_with_header [OF e(2) that] by (simp add: e(4) header_Len_def)
  with e(1-3) mk show ?thesis unfolding comes_back_def by auto
qed

lemma parseInt64_nonneg: "0 \<le> sint i \<Longrightarrow> parseInt64 (octets (int64Encoder i)) = Ok i"
  by (simp add: parseInt64_octets int64_Len_nonneg)

lemma bit_string_back:
  assumes "unat n mod 8 \<noteq> 0" "length bs = unat n div 8 + 1"
  shows "parseBitString (octets (bitStringEncoder bs n)) = Ok (V_BitString bs n)"
proof -
  have "unat (ucast (n mod 8) :: u8) = unat n mod 8"
    by (simp add: unsigned_ucast_eq unat_mod take_bit_nat_eq_self)
  then have "unat (8 - ucast (n mod 8) :: u8) = 8 - unat n mod 8"
    by (simp add: unat_sub word_le_nat_alt)
  moreover have "int (length bs) * 8 - int (8 - unat n mod 8) = int (unat n)"
  proof -
    have "unat n = 8 * (unat n div 8) + unat n mod 8" by simp
    moreover have "int (8 - unat n mod 8) = 8 - int (unat n mod 8)" by simp
    ultimately show ?thesis using assms(2) by linarith
  qed
  ultimately show ?thesis by (simp add: parseBitString_def)
qed

lemma primitives_come_back:
  "tag_ok pe \<Longrightarrow> unat n mod 8 \<noteq> 0 \<Longrightarrow> length bs = unat n div 8 + 1 \<Longrightarrow> \<exists>e. comes_back T_BitString (V_BitString bs n) pe pd e"
  "tag_ok pe \<Longrightarrow> \<exists>e. comes_back T_OctetString (V_OctetString False bs) pe pd e"
  "tag_ok pe \<Longrightarrow> 0 \<le> sint i \<Longrightarrow> \<exists>e. comes_back T_Enumerated (V_Enumerated i) pe pd e"
  "tag_ok pe \<Longrightarrow> \<exists>e. comes_back T_Bool (V_Bool b) pe pd e"
  "tag_ok pe \<Longrightarrow> 0 \<le> sint i \<Longrightarrow> \<exists>e. comes_back T_Int (V_Int i) pe pd e"
  "tag_ok pe \<Longrightarrow> unat (stringType pe) < 2 ^ 63 \<Longrightarrow> \<exists>e. comes_back T_String (V_String s) pe pd e"
proof -
  show "\<exists>e. comes_back T_BitString (V_BitString bs n) pe pd e"
    if "tag_ok pe" "unat n mod 8 \<noteq> 0" "length bs = unat n div 8 + 1"
    by (rule comes_back_primitive [where g = "\<lambda>s off. obind (sub_from s off) (\<lambda>b. parseBitString (sdata b))" and val = "bitStringEncoder bs n"])
      (use that in \<open>simp_all add: TagBitString_def sub_from_in_bounds bit_string_back [simplified]\<close>)
  show "\<exists>e. comes_back T_OctetString (V_OctetString False bs) pe pd e" if "tag_ok pe"
    by (rule comes_back_primitive [where g = "\<lambda>s off. obind (sub_from s off) (\<lambda>b. Ok (V_OctetString False (sdata b)))" and val = "bytesEncoder bs"])
      (use that in \<open>simp_all add: TagOctetString_def sub_from_in_bounds\<close>)
  show "\<exists>e. comes_back T_Enumerated (V_Enumerated i) pe pd e" if "tag_ok pe" "0 \<le> sint i"
    by (rule comes_back_primitive [where g = "\<lambda>s off. obind (sub_from s off) (\<lambda>b. omap V_Enumerated (parseInt64 (sdata b)))" and val = "int64Encoder i"])
      (use that in \<open>simp_all add: TagEnumerated_def sub_from_in_bounds parseInt64_nonneg del: octets.simps\<close>)
  show "\<exists>e. comes_back T_Bool (V_Bool b) pe pd e" if "tag_ok pe"
    by (rule comes_back_primitive [where g = "\<lambda>s off. obind (at s off) (\<lambda>b. Ok (V_Bool (parseBool b)))" and val = "byteEncoder (if b then 0xff else 0)"])
      (use that in \<open>simp_all add: TagBoolean_def at_def nth_append parseBool_def\<close>)
  show "\<exists>e. comes_back T_Int (V_Int i) pe pd e" if "tag_ok pe" "0 \<le> sint i"
    by (rule comes_back_primitive [where g = "\<lambda>s off. obind (sub_from s off) (\<lambda>b. omap V_Int (parseInt64 (sdata b)))" and val = "int64Encoder i"])
      (use that in \<open>simp_all add: TagInteger_def sub_from_in_bounds parseInt64_nonneg del: octets.simps\<close>)
  show "\<exists>e. comes_back T_String (V_String s) pe pd e" if "tag_ok pe" "unat (stringType pe) < 2 ^ 63"
    by (rule comes_back_primitive [where g = "\<lambda>s off. obind (sub_from s off) (\<lambda>b. Ok (V_String (sdata b)))" and val = "stringEncoder s"])
      (use that in \<open>simp_all add: sub_from_in_bounds\<close>)
qed


section \<open>Lists\<close>

declare list_items.simps [simp del] struct_loop.simps [simp del]

lemma list_items_octets:
  assumes "\<And>e. e \<in> set es \<Longrightarrow> \<exists>tal val. tlv e tal val" and "Len (structEncoder es) < 2 ^ 24"
  shows "\<exists>items. list_items (Slice (pre @ concat (map octets es)) sp) (length pre) = Ok items \<and>
    list_all2 (\<lambda>item e. sdata item = octets e) items es"
  using assms
proof (induction es arbitrary: pre)
  case Nil
  then show ?case by (subst list_items.simps) simp
next
  case (Cons e es)
  let ?s = "Slice (pre @ octets e @ concat (map octets es)) sp"
  from Cons.prems(1) [of e] obtain tal val where e: "tlv e tal val" by auto
  have small: "Len e < 2 ^ 24" using Cons.prems(2) by simp
  note h = tlv_header [OF e small]
  have "\<exists>items. list_items ?s (length (pre @ octets e)) = Ok items \<and> list_all2 (\<lambda>item e. sdata item = octets e) items es"
    using Cons.IH [of "pre @ octets e"] Cons.prems by auto
  then obtain items where items: "list_items ?s (length pre + Len e) = Ok items" "list_all2 (\<lambda>item e. sdata item = octets e) items es"
    by auto
  have from_e: "sub_from ?s (length pre) = (Ok (Slice (octets e @ concat (map octets es)) sp) :: (ber_error, _) outcome)"
    by (simp add: sub_from_in_bounds)
  have item: "sub ?s (length pre) (length pre + Len e) = (Ok (Slice (octets e) (concat (map octets es) @ sp)) :: (ber_error, _) outcome)"
    by (simp add: sub_in_bounds)
  have pos: "0 < Len e" using h(3) by (metis length_greater_0_conv length_octets_Len)
  have "list_items ?s (length pre) = Ok (Slice (octets e) (concat (map octets es) @ sp) # items)"
    using pos by (subst list_items.simps) (simp add: from_e h(1) h(2) add.assoc item items Let_def)
  with items(2) show ?case by auto
qed

lemma omapM_items:
  assumes "list_all2 (\<lambda>item e. sdata item = octets e) items es"
    and "list_all2 (\<lambda>v e. \<forall>sp. f (Slice (octets e) sp) = Ok v) vs es"
  shows "omapM f items = Ok vs"
  using assms
proof (induction items es arbitrary: vs rule: list_all2_induct)
  case (Cons item items e es)
  then obtain v vs' where "vs = v # vs'" "f item = Ok v" "omapM f items = Ok vs'"
    by (cases item) (auto simp: list_all2_Cons2)
  then show ?case by simp
qed simp

lemma elems_make: "list_all2 (\<lambda>v e. makeField v p = Ok e) vs es \<Longrightarrow> omapM (\<lambda>f. f p) (map makeField vs) = Ok es"
  by (induction rule: list_all2_induct) simp_all

lemma seq_number_small: "unat (seq_number p) < 2 ^ 63"
  by (simp add: seq_number_def TagSet_def TagSequence_def)

lemma member_Len: "e \<in> set es \<Longrightarrow> Len e \<le> Len (structEncoder es)"
  by (simp add: member_le_sum_list)

lemma list_comes_back:
  assumes "list_all2 (\<lambda>v e. comes_back t v (pe\<lparr>fp_tagNumber := None\<rparr>) pd e) vs es" and "tag_ok pe"
  shows "\<exists>e. comes_back (T_Slice t) (V_Slice False vs) pe pd e"
proof -
  obtain e tal where e: "finish_field pe True (seq_number pe) (Some (structEncoder es)) = Ok e"
    "tlv e tal (structEncoder es)" "\<And>u. fp_tagNumber pe = Some u \<Longrightarrow> tagNumber tal = u"
    "e = berTypeEncoder (bytesEncoder (appendTagAndLen tal)) (structEncoder es)"
    by (rule finish_field_tlv [OF assms(2) seq_number_small [of pe], where k = True and val = "structEncoder es"]) iprover
  have makes: "list_all2 (\<lambda>v e. makeField v (pe\<lparr>fp_tagNumber := None\<rparr>) = Ok e) vs es"
    using assms(1) by (rule list_all2_mono) (simp add: comes_back_def)
  have "makeField (V_Slice False vs) pe = Ok e"
    by (simp add: make_slice_def elems_make [OF makes] e(1))
  moreover have "ParseField (T_Slice t) (zero_value (T_Slice t)) (Slice (octets e) sp) pd = Ok (V_Slice False vs)"
    if small: "Len e < 2 ^ 24" for sp
  proof -
    have tlvs: "\<exists>tal val. tlv x tal val" if "x \<in> set es" for x
      using assms(1) that by (auto simp: list_all2_conv_all_nth in_set_conv_nth comes_back_def)
    have less: "Len (structEncoder es) < 2 ^ 24" using small e(4) by simp
    obtain items where items: "list_items (Slice (octets e) sp) (header_Len e) = Ok items"
      "list_all2 (\<lambda>item x. sdata item = octets x) items es"
      using list_items_octets [OF tlvs less, where pre = "appendTagAndLen tal" and sp = sp] e(4) by (auto simp: header_Len_def)
    have "list_all2 (\<lambda>v x. \<forall>sp. ParseField t (zero_value t) (Slice (octets x) sp) pd = Ok v) vs es"
      unfolding list_all2_conv_all_nth
    proof (intro conjI allI impI)
      fix i sp assume i: "i < length vs"
      with assms(1) have "comes_back t (vs ! i) (pe\<lparr>fp_tagNumber := None\<rparr>) pd (es ! i)" "i < length es"
        by (auto simp: list_all2_conv_all_nth)
      moreover have "Len (es ! i) < 2 ^ 24" using member_Len [of "es ! i" es] less calculation(2) by simp
      ultimately show "ParseField t (zero_value t) (Slice (octets (es ! i)) sp) pd = Ok (vs ! i)"
        by (simp add: comes_back_def)
    qed (use assms(1) in \<open>simp add: list_all2_lengthD\<close>)
    with items show ?thesis
      by (simp add: parse_slice_def tlv_with_header [OF e(2) small] omapM_items)
  qed
  ultimately show ?thesis using e(2,3) by (auto simp: comes_back_def)
qed


section \<open>Structures\<close>

definition field_coded :: "string \<times> string \<times> gotype \<Rightarrow> string \<times> string \<times> goval \<Rightarrow> encoder \<Rightarrow> bool" where
  "field_coded f w e \<longleftrightarrow> fst w = fst f \<and> fst (snd w) = fst (snd f) \<and>
     (if field_absent (fst (snd f)) (snd (snd w)) then w = zero_field f \<and> e = bytesEncoder []
      else (fp_optional (field_params f) \<longrightarrow> IsNil (snd (snd w)) = Ok False) \<and> \<not> openType (field_params f) \<and>
           comes_back (snd (snd f)) (snd (snd w)) (field_params f) (field_params f) e)"

fun fields_coded :: "(string \<times> string \<times> gotype) list \<Rightarrow> (string \<times> string \<times> goval) list \<Rightarrow> encoder list \<Rightarrow> bool" where
  "fields_coded [] [] [] = True"
| "fields_coded (f # fs) (w # ws) (e # es) = (field_coded f w e \<and> fields_coded fs ws es)"
| "fields_coded _ _ _ = False"

lemma fields_coded_length: "fields_coded fs ws es \<Longrightarrow> length ws = length fs"
  by (induction fs ws es rule: fields_coded.induct) auto

abbreviation makers :: "(string \<times> string \<times> goval) list \<Rightarrow> (string \<times> string \<times> maker) list" where
  "makers ws \<equiv> map (map_prod id (map_prod id makeField)) ws"

lemma make_fields_coded:
  "fields_coded fs ws es \<Longrightarrow>
   make_fields ws (makers ws) acc any =
     Ok (if any \<or> \<not> list_all (\<lambda>(_, tag, v). field_absent tag v) ws then Some (structEncoder (acc @ es)) else None)"
proof (induction fs ws es arbitrary: acc any rule: fields_coded.induct)
  case (2 f fs w ws e es)
  obtain n tag t v where f: "f = (n, tag, t)" and w: "w = (n, tag, v)"
    using "2.prems" by (cases f; cases w) (auto simp: field_coded_def)
  show ?case
  proof (cases "field_absent tag v")
    case True
    then have "(if fp_optional (parseFieldParameters tag) then IsNil v else Ok False) = Ok True" by (simp add: field_absent_def)
    moreover have "e = bytesEncoder []" "fields_coded fs ws es" using "2.prems" f w True by (auto simp: field_coded_def)
    ultimately show ?thesis using "2.IH" True by (simp add: w Let_def)
  next
    case False
    then have "(if fp_optional (parseFieldParameters tag) then IsNil v else Ok False) = Ok False"
      and "makeField v (parseFieldParameters tag) = Ok e" "\<not> openType (parseFieldParameters tag)"
      using "2.prems" f w by (auto simp: field_coded_def field_params_def comes_back_def)
    with False 2 f w show ?thesis by (simp add: Let_def)
  qed
qed simp_all

text \<open>The scan finds the one field with the tag number, from any start not behind it.\<close>

lemma scan_fields_find:
  assumes "start \<le> k" "k < length sps" "fp_tagNumber (sps ! k) = Some u"
    and "None \<notin> set (map fp_tagNumber sps)" "distinct (map fp_tagNumber sps)"
  shows "scan_fields False u (drop start sps) start = Ok k"
  using assms(1)
proof (induction "k - start" arbitrary: start)
  case 0
  then have "drop start sps = sps ! k # drop (Suc k) sps" using assms(2) by (simp add: Cons_nth_drop_Suc)
  with 0 assms(3) show ?case by simp
next
  case (Suc d)
  then have lt: "start < k" by simp
  have d: "drop start sps = sps ! start # drop (Suc start) sps" using lt assms(2) by (simp add: Cons_nth_drop_Suc)
  have "map fp_tagNumber sps ! start \<noteq> map fp_tagNumber sps ! k"
    using lt assms(2,5) by (subst nth_eq_iff_index_eq) auto
  then have ne: "fp_tagNumber (sps ! start) \<noteq> Some u" using lt assms(2,3) by simp
  have "fp_tagNumber (sps ! start) \<noteq> None" using assms(4) lt assms(2) by (metis length_map less_trans nth_map nth_mem)
  with ne obtain u' where "fp_tagNumber (sps ! start) = Some u'" "u' \<noteq> u" by auto
  with Suc.hyps(1) [of "Suc start"] Suc.hyps(2) lt d show ?case by simp
qed

abbreviation parsers_of :: "(string \<times> string \<times> gotype) list \<Rightarrow> field_parser list" where
  "parsers_of fs \<equiv> map (\<lambda>f. ParseField (snd (snd f))) fs"

lemma set_field_middle: "set_field (length xs) v (xs @ (n, tag, z) # ys) = xs @ (n, tag, v) # ys"
  by (simp add: set_field_def)

lemma struct_loop_coded:
  assumes "fields_coded fs ws es"
    and "None \<notin> set (map fp_tagNumber (map field_params (gs @ fs)))"
    and "distinct (map fp_tagNumber (map field_params (gs @ fs)))"
    and "\<not> openType p" "current \<le> length gs" "length us = length gs" "Len (structEncoder es) < 2 ^ 24"
  shows "struct_loop p (parsers_of (gs @ fs)) (map field_params (gs @ fs)) (Slice (pre @ concat (map octets es)) sp)
     (length pre) current (us @ map zero_field fs) = Ok (us @ ws)"
  using assms
proof (induction fs ws es arbitrary: gs us pre current rule: fields_coded.induct)
  case 1
  then show ?case by (simp add: struct_loop.simps)
next
  case (2 f fs w ws e es)
  obtain n tag t v where f: "f = (n, tag, t)" and w: "w = (n, tag, v)"
    using "2.prems"(1) by (cases f; cases w) (auto simp: field_coded_def)
  show ?case
  proof (cases "field_absent tag v")
    case True
    then have "w = zero_field f" "e = bytesEncoder []" using "2.prems"(1) f w by (auto simp: field_coded_def)
    with "2.IH" [of "gs @ [f]" current "us @ [w]" pre] "2.prems" show ?thesis by simp
  next
    case False
    then have cb: "comes_back t v (field_params f) (field_params f) e"
      using "2.prems"(1) f w by (simp add: field_coded_def)
    have small: "Len e < 2 ^ 24" using "2.prems"(7) by simp
    from cb obtain tal val where e: "tlv e tal val" "\<And>u. fp_tagNumber (field_params f) = Some u \<Longrightarrow> tagNumber tal = u"
      by (auto simp: comes_back_def)
    note h = tlv_header [OF e(1) small]
    have pos: "0 < Len e" using h(3) by (metis length_greater_0_conv length_octets_Len)
    have num: "fp_tagNumber (field_params f) = Some (tagNumber tal)"
      using e(2) "2.prems"(2) by (cases "fp_tagNumber (field_params f)") auto
    let ?s = "Slice (pre @ octets e @ concat (map octets es)) sp" and ?sps = "map field_params (gs @ f # fs)"
    have scan: "scan_fields False (tagNumber tal) (drop start ?sps) start = Ok (length gs)" if "start \<le> length gs" for start
      using "2.prems"(2,3) num that by (intro scan_fields_find) (simp_all add: nth_append)
    have from_e: "sub_from ?s (length pre) = (Ok (Slice (octets e @ concat (map octets es)) sp) :: (ber_error, _) outcome)"
      by (simp add: sub_from_in_bounds)
    have item: "sub ?s (length pre) (length pre + Len e) = (Ok (Slice (octets e) (concat (map octets es) @ sp)) :: (ber_error, _) outcome)"
      by (simp add: sub_in_bounds)
    have parse: "ParseField t (zero_value t) (Slice (octets e) sp') (field_params f) = Ok v" for sp'
      using cb small by (simp add: comes_back_def)
    have "struct_loop p (parsers_of (gs @ f # fs)) ?sps ?s (length pre) current (us @ map zero_field (f # fs)) =
       struct_loop p (parsers_of (gs @ f # fs)) ?sps ?s (length pre + Len e) (length gs + 1) (us @ w # map zero_field fs)"
      using pos "2.prems"(4-6) scan [of 0] scan [of current] set_field_middle [of us v n tag "zero_value t" "map zero_field fs"]
      by (subst struct_loop.simps) (simp add: from_e h(1,2) add.assoc item Let_def nth_append zero_field_def f w parse [unfolded f])
    moreover have "struct_loop p (parsers_of ((gs @ [f]) @ fs)) (map field_params ((gs @ [f]) @ fs))
       (Slice ((pre @ octets e) @ concat (map octets es)) sp) (length (pre @ octets e)) (length gs + 1) ((us @ [w]) @ map zero_field fs)
        = Ok ((us @ [w]) @ ws)"
      using "2.prems" by (intro "2.IH") simp_all
    ultimately show ?thesis by simp
  qed
qed simp_all


lemma zero_struct: "zero_value (T_Struct fs) = V_Struct (map zero_field fs)"
  by (simp add: zero_field_def [abs_def] map_prod_def case_prod_beta')

lemma fields_coded_hd: "fields_coded fs ws es \<Longrightarrow> fs \<noteq> [] \<Longrightarrow> ws \<noteq> [] \<and> fst (hd ws) = fst (hd fs)"
  by (cases "(fs, ws, es)" rule: fields_coded.cases) (auto simp: field_coded_def)

lemma struct_comes_back:
  assumes fs: "fields_coded fs ws es" "fs \<noteq> []" "fst (hd fs) \<notin> {''Value'', ''List'', ''Present''}"
    and exp: "list_all (exported \<circ> fst) fs"
    and tags: "distinct (map (fp_tagNumber \<circ> field_params) fs)" "None \<notin> set (map (fp_tagNumber \<circ> field_params) fs)"
    and some: "\<not> list_all (\<lambda>(_, tag, v). field_absent tag v) ws"
    and p: "fp_set pd = fp_set pe" "\<not> openType pd" "tag_ok pe"
  shows "\<exists>e. comes_back (T_Struct fs) (V_Struct ws) pe pd e"
proof -
  obtain e tal where e: "finish_field pe True (seq_number pe) (Some (structEncoder es)) = Ok e"
    "tlv e tal (structEncoder es)" "\<And>u. fp_tagNumber pe = Some u \<Longrightarrow> tagNumber tal = u"
    "e = berTypeEncoder (bytesEncoder (appendTagAndLen tal)) (structEncoder es)"
    by (rule finish_field_tlv [OF p(3) seq_number_small [of pe], where k = True and val = "structEncoder es"]) iprover
  obtain n tag v ws' where ws: "ws = (n, tag, v) # ws'" and n: "n = fst (hd fs)"
    using fields_coded_hd [OF fs(1,2)] by (cases ws) auto
  have "makeField (V_Struct ws) pe = Ok e"
    using fs(3) make_fields_coded [OF fs(1), of "[]" False] some e(1) n unfolding makeField.simps
    by (simp add: make_struct_def ws)
  moreover have "ParseField (T_Struct fs) (zero_value (T_Struct fs)) (Slice (octets e) sp) pd = Ok (V_Struct ws)"
    if small: "Len e < 2 ^ 24" for sp
  proof -
    have loop: "struct_loop pd (parsers_of fs) (map field_params fs) (Slice (octets e) sp) (header_Len e) 0 (map zero_field fs) = Ok ws"
      using struct_loop_coded [OF fs(1), of "[]" pd 0 "[]" "appendTagAndLen tal" sp] tags p(2) small e(4)
      by (simp add: header_Len_def comp_def)
    obtain m tg t fs' where f: "fs = (m, tg, t) # fs'" using fs(2) by (cases fs) auto
    have lists: "map (\<lambda>(_, _, f). f) (map (map_prod id (map_prod id ParseField)) fs) = parsers_of fs"
      "map (\<lambda>(_, tag, _). parseFieldParameters tag) (map (map_prod id (map_prod id ParseField)) fs) = map field_params fs"
      "list_all (\<lambda>(n, _, _). exported n) (map (map_prod id (map_prod id ParseField)) fs)"
      using exp by (auto simp: field_params_def list_all_iff)
    show ?thesis
      unfolding zero_struct ParseField.simps parse_struct_def tlv_with_header [OF e(2) small] lists goval.case
      using fs(3) loop lists(3) by (simp add: f Let_def)
  qed
  ultimately show ?thesis using e(2,3) by (auto simp: comes_back_def)
qed

lemma wrapper_comes_back:
  assumes "comes_back t v pe pd e" and "name = ''Value'' \<or> name = ''List''"
  shows "comes_back (T_Struct ((name, tag, t) # fs)) (V_Struct ((name, tag, v) # map zero_field fs)) pe pd e"
proof -
  from assms(1) obtain tal val where e: "makeField v pe = Ok e" "tlv e tal val"
    "\<And>u. fp_tagNumber pe = Some u \<Longrightarrow> tagNumber tal = u"
    "\<And>sp. Len e < 2 ^ 24 \<Longrightarrow> ParseField t (zero_value t) (Slice (octets e) sp) pd = Ok v"
    by (auto simp: comes_back_def)
  have "ParseField (T_Struct ((name, tag, t) # fs)) (zero_value (T_Struct ((name, tag, t) # fs))) (Slice (octets e) sp) pd =
      Ok (V_Struct ((name, tag, v) # map zero_field fs))" if small: "Len e < 2 ^ 24" for sp
    unfolding zero_struct using assms(2) e(4) [OF small]
    by (auto simp: parse_struct_def tlv_with_header [OF e(2) small] set_field_def zero_field_def)
  moreover have "makeField (V_Struct ((name, tag, v) # map zero_field fs)) pe = Ok e"
    using assms(2) e(1) by (auto simp: make_struct_def)
  ultimately show ?thesis using e(2,3) by (auto simp: comes_back_def)
qed

lemma pointer_comes_back:
  "comes_back t v pe pd e \<Longrightarrow> comes_back (T_Ptr t) (V_Ptr (Some v)) pe pd e"
  by (auto simp: comes_back_def make_elem_def)


lemma find_present_at:
  "k < length sps \<Longrightarrow> fp_tagNumber (sps ! k) = Some u \<Longrightarrow> (\<And>j. j < k \<Longrightarrow> fp_tagNumber (sps ! j) \<noteq> Some u) \<Longrightarrow>
   find_present sps u i = i + k"
proof (induction sps arbitrary: k i)
  case (Cons sp sps)
  show ?case
  proof (cases k)
    case 0
    with Cons.prems show ?thesis by simp
  next
    case (Suc k')
    with Cons.prems(3) [of 0] have "fp_tagNumber sp \<noteq> Some u" by simp
    moreover have "fp_tagNumber (sps ! j) \<noteq> Some u" if "j < k'" for j
      using Cons.prems(3) [of "Suc j"] Suc that by simp
    then have "find_present sps u (i + 1) = (i + 1) + k'"
      using Cons.prems(1,2) Suc by (intro Cons.IH) simp_all
    ultimately show ?thesis using Suc by simp
  qed
qed simp

lemma choice_comes_back:
  fixes fs :: "(string \<times> string \<times> gotype) list" and ptag :: string
  assumes inner: "comes_back t v (parseFieldParameters tag) (parseFieldParameters tag) x"
    and k: "k < length fs" "fs ! k = (name, tag, t)" "length fs < 2 ^ 31"
    and num: "fp_tagNumber (parseFieldParameters tag) \<noteq> None"
      "\<And>j. j < k \<Longrightarrow> fp_tagNumber (field_params (fs ! j)) \<noteq> fp_tagNumber (parseFieldParameters tag)"
    and exp: "list_all (exported \<circ> fst) fs"
    and p: "\<not> openType pe" "\<not> openType pd" "fp_tagNumber pd = fp_tagNumber pe" "tag_ok pe"
    and agree: "choice_headers_agree pe (makeField v (parseFieldParameters tag))"
  defines "T \<equiv> T_Struct ((''Present'', ptag, T_Int) # fs)"
    and "W \<equiv> V_Struct ((''Present'', ptag, V_Int (word_of_nat (k + 1))) # (map zero_field fs)[k := (name, tag, v)])"
  shows "\<exists>e. comes_back T W pe pd e"
proof -
  let ?p = "parseFieldParameters tag"
  from num(1) obtain u where u: "fp_tagNumber ?p = Some u" by blast
  from inner u obtain tal val where x: "makeField v ?p = Ok x" "tlv x tal val" "tagNumber tal = u"
    and parse: "\<And>sp. Len x < 2 ^ 24 \<Longrightarrow> ParseField t (zero_value t) (Slice (octets x) sp) ?p = Ok v"
    by (auto simp: comes_back_def)
  have present: "sint (word_of_nat (Suc k) :: i64) = int (Suc k)" using k by (intro sint_small) simp
  have find: "find_present (map field_params fs) u 1 = Suc k"
    using k u num(2) by (subst find_present_at [where k = k]) (auto simp: field_params_def)
  have make: "makeField W pe = (if fp_tagNumber pe = None then Ok x else finish_field pe True 0 (Some x))"
    using k p(1) by (simp add: W_def make_struct_def make_choice_def choice_index_def present [simplified] nat_add_distrib x(1) swallow_error_def Let_def)
  have rest: "parse_choice (parsers_of ((''Present'', ptag, T_Int) # fs)) (map field_params ((''Present'', ptag, T_Int) # fs))
      (zero_field (''Present'', ptag, T_Int) # map zero_field fs) s tal' off pd = Ok W"
    if "(if fp_tagNumber pd = None then Ok (tal', 0)
         else obind (sub_from s off) (\<lambda>inner.
              obind (parseTagAndLength inner) (\<lambda>(tal, off).
                if off + tal_len tal > slen s then Err ValueOutOfRange else Ok (tal, off)))) = Ok (tal, from_x)"
      and "sub_from s from_x = (Ok (Slice (octets x) sp) :: (ber_error, _) outcome)" and "Len x < 2 ^ 24" for s tal' off from_x sp
    unfolding parse_choice_def that(1) using p(2) k that(2) parse [OF that(3), of sp]
    by (simp add: find [simplified] x(3) Let_def SetInt_def zero_field_def set_field_def W_def field_params_def)
  have fields: "ParseField T (zero_value T) s pd = with_header s (\<lambda>tal' off.
      parse_choice (parsers_of ((''Present'', ptag, T_Int) # fs)) (map field_params ((''Present'', ptag, T_Int) # fs))
        (zero_field (''Present'', ptag, T_Int) # map zero_field fs) s tal' off pd)" for s
  proof -
    have lists: "map (\<lambda>(_, _, f). f) (map (map_prod id (map_prod id ParseField)) gs) = parsers_of gs"
      "map (\<lambda>(_, tag, _). parseFieldParameters tag) (map (map_prod id (map_prod id ParseField)) gs) = map field_params gs"
      for gs :: "(string \<times> string \<times> gotype) list"
      by (auto simp: field_params_def)
    have "list_all (\<lambda>(n, _, _). exported n) (map (map_prod id (map_prod id ParseField)) ((''Present'', ptag, T_Int) # fs))"
      using exp by (auto simp: list_all_iff exported_def)
    then show ?thesis
      unfolding T_def zero_struct ParseField.simps parse_struct_def lists goval.case by simp
  qed
  show ?thesis
  proof (cases "fp_tagNumber pe")
    case None
    have "ParseField T (zero_value T) (Slice (octets x) sp) pd = Ok W" if small: "Len x < 2 ^ 24" for sp
      unfolding fields tlv_with_header [OF x(2) small]
      by (rule rest [where from_x = 0 and sp = sp]) (use None p(3) small in \<open>simp_all add: sub_from_in_bounds\<close>)
    with None make x(2) show ?thesis by (auto simp: comes_back_def)
  next
    case (Some w)
    obtain e tal' where e: "finish_field pe True 0 (Some x) = Ok e" "tlv e tal' x"
      "\<And>u. fp_tagNumber pe = Some u \<Longrightarrow> tagNumber tal' = u"
      "e = berTypeEncoder (bytesEncoder (appendTagAndLen tal')) x" "tal_class tal' = 2" "constructed tal' = True"
      by (rule finish_field_tlv [OF p(4), where k = True and val = x and num = 0]) (use Some in auto)
    have "tal' = \<lparr>tal_class = 2, constructed = True, tagNumber = w, tal_len = Len x\<rparr>"
      using e(2,3,5,6) Some by (cases tal') (simp add: tlv_def)
    with agree Some x(1) e(4) have same: "header_Len e = header_Len x"
      by (simp add: choice_headers_agree_def header_Len_def)
    have "ParseField T (zero_value T) (Slice (octets e) sp) pd = Ok W" if small: "Len e < 2 ^ 24" for sp
    proof -
      have smallx: "Len x < 2 ^ 24" using small e(4) by simp
      note hx = tlv_header [OF x(2) smallx] and he = tlv_header [OF e(2) small]
      have off: "octets e = appendTagAndLen tal' @ octets x" "length (appendTagAndLen tal') = header_Len e"
        using e(4) by (simp_all add: header_Len_def)
      have sub: "sub_from (Slice (octets e) sp) (header_Len e) = (Ok (Slice (octets x) sp) :: (ber_error, _) outcome)"
        by (simp add: off(1) off(2) [symmetric] sub_from_in_bounds)
      moreover have "Len x \<le> Len e" using e(4) by simp
      ultimately show ?thesis
        unfolding fields tlv_with_header [OF e(2) small]
        by (intro rest [where from_x = "header_Len x" and sp = sp])
          (use Some p(3) smallx hx(1) [of "[]"] hx(2) in \<open>simp_all add: same\<close>)
    qed
    with Some make e(1-3) show ?thesis by (auto simp: comes_back_def)
  qed
qed

lemma codable_comes_back:
  "codable t v pe pd \<Longrightarrow> \<exists>e. comes_back t v pe pd e"
  "codable_fields fs ws \<Longrightarrow> \<exists>es. fields_coded fs ws es"
  "codable_elems t vs pe pd \<Longrightarrow> \<exists>es. list_all2 (\<lambda>v e. comes_back t v pe pd e) vs es"
proof (induction rule: codable_codable_fields_codable_elems.inducts)
  case (pointer t v pe pd)
  then show ?case by (blast intro: pointer_comes_back)
next
  case (wrapper t v pe pd name tag fs)
  then show ?case by (blast intro: wrapper_comes_back)
next
  case (choice t v tag k fs name pe pd ptag)
  then show ?case using choice_comes_back by blast
next
  case (sequence fs vs pe pd)
  then show ?case using struct_comes_back by blast
next
  case (sequence_of t vs pe pd)
  then show ?case by (blast intro: list_comes_back)
next
  case no_fields
  then show ?case by (intro exI [of _ "[]"]) simp
next
  case (absent_field fs vs tag t name)
  then obtain es where "fields_coded fs vs es" by blast
  with absent_field show ?case
    by (intro exI [of _ "bytesEncoder [] # es"]) (simp add: field_coded_def zero_field_def)
next
  case (present_field fs vs t v tag name)
  then obtain es e where "fields_coded fs vs es" "comes_back t v (parseFieldParameters tag) (parseFieldParameters tag) e" by blast
  with present_field show ?case
    by (intro exI [of _ "e # es"]) (auto simp: field_coded_def field_absent_def field_params_def)
next
  case (no_elems t pe pd)
  then show ?case by (intro exI [of _ "[]"]) simp
next
  case (more_elems t vs pe pd v)
  then show ?case by (metis list.rel_intros(2))
qed (simp_all add: primitives_come_back)

section \<open>Properties\<close>

text \<open>
  C10. A value comes back from its BER encoding. For every codable value (integers and enumerations that are not negative, booleans, octet strings, strings, bit strings
  that do not fill their last octet, pointers, wrapper structs, sequences and sets whose fields have
  distinct tag numbers below \<open>2^63\<close> and are not all absent, choices, lists), nested in any way,
  marshalling succeeds, and unmarshalling the octets, if they are fewer than \<open>2^24\<close>, into a zero value
  of the type gives exactly the value. For a choice with a tag of its own the two headers have to be
  equally long, and list elements are choices only where the list has no tag number. Values outside these
  conditions, such as NULL, negative integers, bit strings that fill their last octet and the tagged lists of choices of some charging
  records, are not covered; \<open>ber_misread\<close> shows some that do not come back.
\<close>

theorem ber_roundtrip:
  assumes "codable t v (parseFieldParameters params) (parseFieldParameters params)"
  shows "\<exists>b. BerMarshalWithParams v params = Ok b \<and>
    (length b < 2 ^ 24 \<longrightarrow> (\<forall>sp. UnmarshalWithParams (Slice b sp) t (zero_value t) params = Ok v))"
proof -
  from codable_comes_back(1) [OF assms] obtain e where
    e: "comes_back t v (parseFieldParameters params) (parseFieldParameters params) e" ..
  then show ?thesis
    by (intro exI [of _ "octets e"]) (simp add: comes_back_def BerMarshalWithParams_octets UnmarshalWithParams_def)
qed

text \<open>A record with a number, a tagged choice, a list of octet strings and an absent optional field.\<close>

definition party_type :: gotype where
  "party_type = T_Struct [(''Present'', '''', T_Int), (''SIPURI'', ''tagNum:0'', T_Ptr T_String), (''URN'', ''tagNum:2'', T_Ptr T_String)]"

definition party :: goval where
  "party = V_Struct [(''Present'', '''', V_Int 2), (''SIPURI'', ''tagNum:0'', V_Ptr None), (''URN'', ''tagNum:2'', V_Ptr (Some (V_String [117, 114, 110])))]"

definition record_type :: gotype where
  "record_type = T_Struct [(''RecordType'', ''tagNum:0'', T_Int), (''Party'', ''tagNum:1'', party_type),
     (''Diagnostics'', ''tagNum:10,optional'', T_Ptr T_Enumerated), (''Areas'', ''tagNum:200,optional'', T_Slice T_OctetString)]"

definition sample_record :: goval where
  "sample_record = V_Struct [(''RecordType'', ''tagNum:0'', V_Int 200), (''Party'', ''tagNum:1'', party),
     (''Diagnostics'', ''tagNum:10,optional'', V_Ptr None),
     (''Areas'', ''tagNum:200,optional'', V_Slice False [V_OctetString False [1, 2], V_OctetString False []])]"

lemma sample_params:
  "parseFieldParameters '''' = no_params"
  "parseFieldParameters ''tagNum:0'' = no_params\<lparr>fp_tagNumber := Some 0\<rparr>"
  "parseFieldParameters ''tagNum:1'' = no_params\<lparr>fp_tagNumber := Some 1\<rparr>"
  "parseFieldParameters ''tagNum:2'' = no_params\<lparr>fp_tagNumber := Some 2\<rparr>"
  "parseFieldParameters ''tagNum:10,optional'' = no_params\<lparr>fp_optional := True, fp_tagNumber := Some 10\<rparr>"
  "parseFieldParameters ''tagNum:200,optional'' = no_params\<lparr>fp_optional := True, fp_tagNumber := Some 200\<rparr>"
  "parseFieldParameters ''tagNum:0,optional'' = no_params\<lparr>fp_optional := True, fp_tagNumber := Some 0\<rparr>"
  "parseFieldParameters ''tagNum:4,optional'' = no_params\<lparr>fp_optional := True, fp_tagNumber := Some 4\<rparr>"
  by code_simp+

lemma party_codable: "codable party_type party (no_params\<lparr>fp_tagNumber := Some 1\<rparr>) (no_params\<lparr>fp_tagNumber := Some 1\<rparr>)"
proof -
  let ?p = "parseFieldParameters ''tagNum:2''" and ?v = "V_Ptr (Some (V_String [117, 114, 110]))"
  have inner: "codable (T_Ptr T_String) ?v ?p ?p"
    by (intro pointer string) (simp_all add: sample_params tag_ok_def no_params_def)
  have agree: "choice_headers_agree (no_params\<lparr>fp_tagNumber := Some 1\<rparr>) (makeField ?v ?p)"
    by (simp add: choice_headers_agree_def make_elem_def finish_field_def sample_params no_params_def header_Len_def
        appendTagAndLen_def)
  have "codable (T_Struct ((''Present'', '''', T_Int) # [(''SIPURI'', ''tagNum:0'', T_Ptr T_String), (''URN'', ''tagNum:2'', T_Ptr T_String)]))
     (V_Struct ((''Present'', '''', V_Int (word_of_nat (1 + 1))) #
       (map zero_field [(''SIPURI'', ''tagNum:0'', T_Ptr T_String), (''URN'', ''tagNum:2'', T_Ptr T_String)])[1 := (''URN'', ''tagNum:2'', ?v)]))
     (no_params\<lparr>fp_tagNumber := Some 1\<rparr>) (no_params\<lparr>fp_tagNumber := Some 1\<rparr>)"
    by (rule choice [OF inner _ _ _ _ _ _ _ _ _ _ agree])
      (simp_all add: sample_params field_params_def no_params_def tag_ok_def exported_def)
  then show ?thesis by (simp add: party_type_def party_def zero_field_def)
qed

lemma sample_record_codable: "codable record_type sample_record no_params no_params"
proof -
  have "codable_elems T_OctetString [V_OctetString False [1, 2], V_OctetString False []]
      (no_params\<lparr>fp_optional := True, fp_tagNumber := None\<rparr>) (no_params\<lparr>fp_optional := True, fp_tagNumber := Some 200\<rparr>)"
    by (intro more_elems no_elems octet_string) (simp_all add: tag_ok_def)
  then have "codable (T_Slice T_OctetString) (V_Slice False [V_OctetString False [1, 2], V_OctetString False []])
      (no_params\<lparr>fp_optional := True, fp_tagNumber := Some 200\<rparr>) (no_params\<lparr>fp_optional := True, fp_tagNumber := Some 200\<rparr>)"
    by (intro sequence_of) (simp_all add: tag_ok_def no_params_def)
  then have "codable_fields [(''Areas'', ''tagNum:200,optional'', T_Slice T_OctetString)]
      [(''Areas'', ''tagNum:200,optional'', V_Slice False [V_OctetString False [1, 2], V_OctetString False []])]"
    by (intro present_field no_fields) (simp_all add: sample_params no_params_def)
  then have "codable_fields [(''Diagnostics'', ''tagNum:10,optional'', T_Ptr T_Enumerated), (''Areas'', ''tagNum:200,optional'', T_Slice T_OctetString)]
      [(''Diagnostics'', ''tagNum:10,optional'', V_Ptr None), (''Areas'', ''tagNum:200,optional'', V_Slice False [V_OctetString False [1, 2], V_OctetString False []])]"
    using absent_field [where t = "T_Ptr T_Enumerated" and tag = "''tagNum:10,optional''"]
    by (simp add: sample_params field_absent_def)
  then have "codable_fields [(''Party'', ''tagNum:1'', party_type),
      (''Diagnostics'', ''tagNum:10,optional'', T_Ptr T_Enumerated), (''Areas'', ''tagNum:200,optional'', T_Slice T_OctetString)]
      [(''Party'', ''tagNum:1'', party), (''Diagnostics'', ''tagNum:10,optional'', V_Ptr None),
       (''Areas'', ''tagNum:200,optional'', V_Slice False [V_OctetString False [1, 2], V_OctetString False []])]"
    by (rule present_field) (simp_all only: sample_params party_codable, simp_all add: no_params_def)
  moreover have "codable T_Int (V_Int 200) (no_params\<lparr>fp_tagNumber := Some 0\<rparr>) (no_params\<lparr>fp_tagNumber := Some 0\<rparr>)"
    by (intro integer) (simp_all add: tag_ok_def no_params_def)
  ultimately have fields_ok: "codable_fields [(''RecordType'', ''tagNum:0'', T_Int), (''Party'', ''tagNum:1'', party_type),
      (''Diagnostics'', ''tagNum:10,optional'', T_Ptr T_Enumerated), (''Areas'', ''tagNum:200,optional'', T_Slice T_OctetString)]
      [(''RecordType'', ''tagNum:0'', V_Int 200), (''Party'', ''tagNum:1'', party), (''Diagnostics'', ''tagNum:10,optional'', V_Ptr None),
       (''Areas'', ''tagNum:200,optional'', V_Slice False [V_OctetString False [1, 2], V_OctetString False []])]"
    by (intro present_field [where tag = "''tagNum:0''"]) (simp_all add: sample_params, simp_all add: no_params_def)
  show ?thesis
    unfolding record_type_def sample_record_def
    by (rule sequence [OF fields_ok])
      (simp_all add: sample_params field_params_def exported_def field_absent_def no_params_def tag_ok_def)
qed

theorem ber_roundtrip_witness:
  "\<exists>b. BerMarshalWithParams sample_record '''' = Ok b \<and> length b = 23 \<and>
     UnmarshalWithParams (Slice b []) record_type (zero_value record_type) '''' = Ok sample_record"
proof -
  from sample_record_codable obtain b where b: "BerMarshalWithParams sample_record '''' = Ok b"
    "length b < 2 ^ 24 \<longrightarrow> (\<forall>sp. UnmarshalWithParams (Slice b sp) record_type (zero_value record_type) '''' = Ok sample_record)"
    using ber_roundtrip [of record_type sample_record "''''"] by (auto simp: sample_params)
  have "omap length (BerMarshalWithParams sample_record '''') = Ok 23" by code_simp
  with b show ?thesis by auto
qed


text \<open>A CHOICE in a list that is a tagged field, as \<open>ChargingRecord.Triggers\<close> is.\<close>

definition trigger_type :: gotype where
  "trigger_type = T_Struct [(''Present'', '''', T_Int), (''SMFTrigger'', ''tagNum:0'', T_Ptr T_Int)]"

definition triggers_type :: gotype where
  "triggers_type = T_Struct [(''Triggers'', ''tagNum:4,optional'', T_Slice trigger_type)]"

definition triggers :: goval where
  "triggers = V_Struct [(''Triggers'', ''tagNum:4,optional'',
     V_Slice False [V_Struct [(''Present'', '''', V_Int 1), (''SMFTrigger'', ''tagNum:0'', V_Ptr (Some (V_Int 5)))]])]"

text \<open>A tagged CHOICE whose outer header is longer than the inner one.\<close>

definition tagged_party :: "bytes \<Rightarrow> goval" where
  "tagged_party urn = V_Struct [(''Party'', ''tagNum:200'', V_Struct [(''Present'', '''', V_Int 2), (''SIPURI'', ''tagNum:0'', V_Ptr None),
     (''URN'', ''tagNum:2'', V_Ptr (Some (V_String urn)))])]"

definition tagged_party_type :: gotype where
  "tagged_party_type = T_Struct [(''Party'', ''tagNum:200'', party_type)]"

lemma primitive_back:
  assumes "makeField v no_params = finish_field no_params k num (Some val)" "num \<le> 30" "Len val \<le> 127"
    and "\<And>s. ParseField t z s no_params = with_header s (\<lambda>_. g s)"
    and "\<And>hdr. length hdr = 2 \<Longrightarrow> g (Slice (hdr @ octets val) sp) 2 = r"
  shows "obind (BerMarshal v) (\<lambda>b. Unmarshal (Slice b sp) t z) = r"
proof -
  define tal where "tal = \<lparr>tal_class = 0, constructed = k, tagNumber = num, tal_len = Len val\<rparr>"
  define e where "e = berTypeEncoder (bytesEncoder (appendTagAndLen tal)) val"
  have len: "length (appendTagAndLen tal) = 2" using assms(2,3) by (simp add: appendTagAndLen_def tal_def Let_def)
  have e: "tlv e tal val" "Len e < 2 ^ 24" using assms(2,3) len by (auto simp: tlv_def e_def tal_def word_le_nat_alt)
  have "header_Len e = 2" using len by (simp add: e_def header_Len_def)
  moreover have "makeField v no_params = Ok e"
    unfolding assms(1) by (simp add: finish_field_def no_params_def e_def tal_def)
  moreover have "octets e = appendTagAndLen tal @ octets val" by (simp add: e_def)
  ultimately show ?thesis
    using assms(5) [OF len] tlv_with_header [OF e, of sp "\<lambda>_. g (Slice (octets e) sp)"]
    by (simp add: BerMarshal_def BerMarshalWithParams_octets Unmarshal_def UnmarshalWithParams_def sample_params assms(4))
qed

text \<open>
  What does not come back. An integer is read without its sign: unmarshalling the encoding of any
  \<open>int64\<close> gives its two's complement cut to the octets it was encoded in, so \<open>-1\<close> comes back as 255. A
  bit string of eight bits comes back empty. The encoding of a NULL makes the parser panic. A struct
  whose fields are all optional and absent makes the encoder panic. A list of choices under a tag
  number, such as the triggers of a charging record, is encoded but refused by the parser. A choice under
  a tag number above 30, whose header is longer than that of the alternative in it, comes back with
  the wrong contents: the string gets the octets of its own header in front.
\<close>

theorem ber_misread:
  "obind (BerMarshal (V_Int i)) (\<lambda>b. Unmarshal (Slice b sp) T_Int z) = Ok (V_Int (take_bit (8 * int64_Len i) i)) \<and>
   obind (BerMarshal (V_Int (- 1))) (\<lambda>b. Unmarshal (Slice b sp) T_Int z) = Ok (V_Int 255) \<and>
   obind (BerMarshal (V_BitString [b] 8)) (\<lambda>b. Unmarshal (Slice b sp) T_BitString z) = Ok (V_BitString [b] 0) \<and>
   obind (BerMarshal (V_Null n)) (\<lambda>b. Unmarshal (Slice b sp) T_Null z) = Panic \<and>
   BerMarshal (V_Struct [(''A'', ''tagNum:0,optional'', V_Ptr None)]) = Panic \<and>
   obind (BerMarshal triggers) (\<lambda>b. Unmarshal (Slice b []) triggers_type (zero_value triggers_type)) = Err HeaderTruncated \<and>
   obind (BerMarshal (tagged_party [117, 114, 110])) (\<lambda>b. Unmarshal (Slice b []) tagged_party_type (zero_value tagged_party_type)) =
     Ok (tagged_party [130, 3, 117, 114, 110])"
proof (intro conjI)
  have int: "obind (BerMarshal (V_Int i)) (\<lambda>b. Unmarshal (Slice b sp) T_Int z) = Ok (V_Int (take_bit (8 * int64_Len i) i))" for i
    by (rule primitive_back [where k = False and num = TagInteger and val = "int64Encoder i" and g = "\<lambda>s off. obind (sub_from s off) (\<lambda>b. omap V_Int (parseInt64 (sdata b)))"])
      (use int64_Len_le [of i] in \<open>simp_all add: TagInteger_def sub_from_in_bounds parseInt64_octets\<close>)
  show "obind (BerMarshal (V_Int i)) (\<lambda>b. Unmarshal (Slice b sp) T_Int z) = Ok (V_Int (take_bit (8 * int64_Len i) i))" by (rule int)
  have "int64_Len (- 1) = 1" by code_simp
  then show "obind (BerMarshal (V_Int (- 1))) (\<lambda>b. Unmarshal (Slice b sp) T_Int z) = Ok (V_Int 255)"
    by (simp add: int mask_eq_exp_minus_1)
  show "obind (BerMarshal (V_BitString [b] 8)) (\<lambda>b. Unmarshal (Slice b sp) T_BitString z) = Ok (V_BitString [b] 0)"
    by (rule primitive_back [where k = False and num = TagBitString and val = "bitStringEncoder [b] 8" and g = "\<lambda>s off. obind (sub_from s off) (\<lambda>b. parseBitString (sdata b))"])
      (simp_all add: TagBitString_def sub_from_in_bounds parseBitString_def)
  show "obind (BerMarshal (V_Null n)) (\<lambda>b. Unmarshal (Slice b sp) T_Null z) = Panic"
    by (rule primitive_back [where k = False and num = TagNull and val = "bytesEncoder []" and g = "\<lambda>_ _. Panic"]) (simp_all add: TagNull_def)
  show "BerMarshal (V_Struct [(''A'', ''tagNum:0,optional'', V_Ptr None)]) = Panic" by code_simp
  show "obind (BerMarshal triggers) (\<lambda>b. Unmarshal (Slice b []) triggers_type (zero_value triggers_type)) = Err HeaderTruncated"
    by code_simp
  show "obind (BerMarshal (tagged_party [117, 114, 110])) (\<lambda>b. Unmarshal (Slice b []) tagged_party_type (zero_value tagged_party_type)) =
     Ok (tagged_party [130, 3, 117, 114, 110])"
    by code_simp
qed

end
