(* ===== verification/Go_Range.thy ===== *)
theory Go_Range
  imports Go_Prelude
begin

text \<open>
  Pointers and the \<open>for range\<close> loops of Go with an early exit, over outcomes: a nil pointer is
  \<open>None\<close> and dereferencing it panics. The lemmas reduce such a loop to the function of the list
  library it computes whenever no element panics.
\<close>

definition deref :: "'a option \<Rightarrow> ('e, 'a) outcome" where
  "deref p = (case p of Some x \<Rightarrow> Ok x | None \<Rightarrow> Panic)"

text \<open>\<open>for _, x := range xs { if p(x) { return x } }\<close>\<close>

primrec ofind :: "('a \<Rightarrow> ('e, bool) outcome) \<Rightarrow> 'a list \<Rightarrow> ('e, 'a option) outcome" where
  "ofind p [] = Ok None"
| "ofind p (x # xs) = obind (p x) (\<lambda>b. if b then Ok (Some x) else ofind p xs)"

text \<open>\<open>for _, x := range xs { if p(x) { return true } }; return false\<close>\<close>

primrec oexists :: "('a \<Rightarrow> ('e, bool) outcome) \<Rightarrow> 'a list \<Rightarrow> ('e, bool) outcome" where
  "oexists p [] = Ok False"
| "oexists p (x # xs) = obind (p x) (\<lambda>b. if b then Ok True else oexists p xs)"

text \<open>\<open>for _, x := range xs { if !p(x) { return false } }; return true\<close>\<close>

primrec oall :: "('a \<Rightarrow> ('e, bool) outcome) \<Rightarrow> 'a list \<Rightarrow> ('e, bool) outcome" where
  "oall p [] = Ok True"
| "oall p (x # xs) = obind (p x) (\<lambda>b. if b then oall p xs else Ok False)"

text \<open>\<open>for _, x := range xs { if p(x) { ys = append(ys, x) } }\<close>\<close>

primrec oselect :: "('a \<Rightarrow> ('e, bool) outcome) \<Rightarrow> 'a list \<Rightarrow> ('e, 'a list) outcome" where
  "oselect p [] = Ok []"
| "oselect p (x # xs) = obind (p x) (\<lambda>b. omap (\<lambda>ys. if b then x # ys else ys) (oselect p xs))"

text \<open>\<open>for _, x := range xs { s = f(x, s) }\<close>\<close>

primrec ofold :: "('a \<Rightarrow> 's \<Rightarrow> ('e, 's) outcome) \<Rightarrow> 'a list \<Rightarrow> 's \<Rightarrow> ('e, 's) outcome" where
  "ofold f [] s = Ok s"
| "ofold f (x # xs) s = obind (f x s) (ofold f xs)"

section \<open>Loops that do not panic\<close>

lemma deref_Some [simp]: "deref (Some x) = Ok x"
  by (simp add: deref_def)

lemma deref_None [simp]: "deref None = Panic"
  by (simp add: deref_def)

lemma deref_the: "p \<noteq> None \<Longrightarrow> deref p = Ok (the p)"
  by (auto simp: deref_def)

lemma deref_eq_Ok [go_simps]: "deref p = Ok x \<longleftrightarrow> p = Some x"
  by (cases p) auto

lemma deref_Panic [simp]: "deref p = Panic \<longleftrightarrow> p = None"
  by (cases p) auto

lemma deref_not_Err [simp]: "deref p \<noteq> Err e"
  by (cases p) auto

lemma ofind_Ok: "(\<And>x. x \<in> set xs \<Longrightarrow> p x = Ok (q x)) \<Longrightarrow> ofind p xs = Ok (List.find q xs)"
  by (induction xs) auto

lemma oexists_Ok: "(\<And>x. x \<in> set xs \<Longrightarrow> p x = Ok (q x)) \<Longrightarrow> oexists p xs = Ok (list_ex q xs)"
  by (induction xs) auto

lemma oall_Ok: "(\<And>x. x \<in> set xs \<Longrightarrow> p x = Ok (q x)) \<Longrightarrow> oall p xs = Ok (list_all q xs)"
  by (induction xs) auto

lemma oselect_Ok: "(\<And>x. x \<in> set xs \<Longrightarrow> p x = Ok (q x)) \<Longrightarrow> oselect p xs = Ok (filter q xs)"
  by (induction xs) auto

lemma oselect_subset: "oselect p xs = Ok ys \<Longrightarrow> y \<in> set ys \<Longrightarrow> y \<in> set xs \<and> p y = Ok True"
  by (induction xs arbitrary: ys) (auto simp: go_simps split: if_splits)

lemma oselect_total: "(\<And>x. x \<in> set xs \<Longrightarrow> \<exists>b. p x = Ok b) \<Longrightarrow> \<exists>ys. oselect p xs = Ok ys"
proof (induction xs)
  case (Cons x xs)
  from Cons.prems [of x] obtain b where "p x = Ok b" by auto
  with Cons show ?case by fastforce
qed simp

lemma ofold_Ok:
  "(\<And>x s. x \<in> set xs \<Longrightarrow> f x s = Ok (g x s)) \<Longrightarrow> ofold f xs s = Ok (fold g xs s)"
  by (induction xs arbitrary: s) auto

lemma ofold_append: "ofold f (xs @ ys) s = obind (ofold f xs s) (ofold f ys)"
  by (induction xs arbitrary: s) (auto simp: obind_assoc intro!: obind_cong)

text \<open>An invariant of the body is an invariant of the loop.\<close>

lemma ofold_invariant:
  assumes "ofold f xs s = Ok t" and "I s"
    and "\<And>x u v. x \<in> set xs \<Longrightarrow> I u \<Longrightarrow> f x u = Ok v \<Longrightarrow> I v"
  shows "I t"
  using assms by (induction xs arbitrary: s) (auto simp: go_simps)

lemma ofold_total: "(\<And>x u. x \<in> set xs \<Longrightarrow> \<exists>t. f x u = Ok t) \<Longrightarrow> \<exists>t. ofold f xs s = Ok t"
proof (induction xs arbitrary: s)
  case (Cons x xs)
  then obtain t where "f x s = Ok t"
    by (metis list.set_intros(1))
  with Cons show ?case
    by simp
qed simp

lemma find_Some_in: "List.find p xs = Some x \<Longrightarrow> x \<in> set xs \<and> p x"
  by (auto simp: find_Some_iff)

lemma find_None_iff_list_ex: "List.find p xs = None \<longleftrightarrow> \<not> list_ex p xs"
  by (auto simp: find_None_iff list_ex_iff)

end
