(* ===== verification/Go_Strings.thy ===== *)
theory Go_Strings
  imports Go_Prelude
begin

text \<open>
  The functions of Go's \<^verbatim>\<open>strings\<close> and \<^verbatim>\<open>strconv\<close> packages that the components use, on strings of
  ASCII characters.
\<close>

section \<open>Comparison\<close>

text \<open>
  \<open>strings.EqualFold\<close> on ASCII strings; slice differentiators are hexadecimal digits.
\<close>

definition fold_char :: "char \<Rightarrow> nat" where
  "fold_char c = (let n = of_char c in if 65 \<le> n \<and> n \<le> 90 then n + 32 else n)"

definition EqualFold :: "string \<Rightarrow> string \<Rightarrow> bool" where
  "EqualFold s t \<longleftrightarrow> map fold_char s = map fold_char t"

section \<open>Numbers\<close>

text \<open>\<open>strconv.Atoi\<close>: an optional sign and decimal digits, in the range of a 64-bit integer.\<close>

primrec digits :: "nat \<Rightarrow> string \<Rightarrow> nat option" where
  "digits n [] = Some n"
| "digits n (c # cs) =
     (let d = of_char c in if 48 \<le> d \<and> d \<le> 57 then digits (10 * n + (d - 48)) cs else None)"

definition Atoi :: "string \<Rightarrow> int option" where
  "Atoi s =
     (let (neg, ds) = (case s of c # cs \<Rightarrow> if c = CHR ''-'' then (True, cs) else if c = CHR ''+'' then (False, cs)
                                 else (False, s) | [] \<Rightarrow> (False, []))
      in case (if ds = [] then None else digits 0 ds) of
           None \<Rightarrow> None
         | Some n \<Rightarrow>
             let i = (if neg then - int n else int n)
             in if - (2 ^ 63) \<le> i \<and> i < 2 ^ 63 then Some i else None)"

text \<open>\<open>strconv.Itoa\<close> of a non-negative integer\<close>

fun Itoa :: "nat \<Rightarrow> string" where
  "Itoa n = (if n < 10 then [char_of (48 + n)] else Itoa (n div 10) @ [char_of (48 + n mod 10)])"

declare Itoa.simps [simp del]

text \<open>\<open>strconv.ParseUint(s, 10, bits)\<close>; an error is \<open>None\<close>.\<close>

definition ParseUint :: "nat \<Rightarrow> string \<Rightarrow> nat option" where
  "ParseUint bits s =
     (if s = [] then None
      else case digits 0 s of None \<Rightarrow> None | Some n \<Rightarrow> if n < 2 ^ bits then Some n else None)"

section \<open>Splitting\<close>

definition is_space :: "char \<Rightarrow> bool" where
  "is_space c \<longleftrightarrow> (of_char c :: nat) \<in> {9, 10, 11, 12, 13, 32}"

primrec fields_from :: "string \<Rightarrow> string \<Rightarrow> string list" where
  "fields_from acc [] = (if acc = [] then [] else [acc])"
| "fields_from acc (c # cs) =
     (if is_space c then (if acc = [] then fields_from [] cs else acc # fields_from [] cs)
      else fields_from (acc @ [c]) cs)"

definition Fields :: "string \<Rightarrow> string list" where
  "Fields s = fields_from [] s"

primrec split_from :: "char \<Rightarrow> string \<Rightarrow> string \<Rightarrow> string list" where
  "split_from sep acc [] = [acc]"
| "split_from sep acc (c # cs) =
     (if c = sep then acc # split_from sep [] cs else split_from sep (acc @ [c]) cs)"

definition Split :: "string \<Rightarrow> char \<Rightarrow> string list" where
  "Split s sep = split_from sep [] s"

text \<open>\<open>strings.SplitN(s, sep, 2)\<close>\<close>

definition SplitN2 :: "string \<Rightarrow> char \<Rightarrow> string list" where
  "SplitN2 s sep =
     (if sep \<in> set s then [takeWhile (\<lambda>c. c \<noteq> sep) s, drop 1 (dropWhile (\<lambda>c. c \<noteq> sep) s)] else [s])"

section \<open>Round trips\<close>

lemma digits_append: "digits n (xs @ ys) = Option.bind (digits n xs) (\<lambda>m. digits m ys)"
  by (induction xs arbitrary: n) (simp_all add: Let_def)

lemma of_char_digit: "k < 10 \<Longrightarrow> (of_char (char_of (48 + k) :: char) :: nat) = 48 + k"
  by simp

lemma digits_Itoa: "digits 0 (Itoa n) = Some n"
proof (induction n rule: Itoa.induct)
  case (1 n)
  then show ?case
    by (subst Itoa.simps) (auto simp: digits_append Let_def)
qed

lemma Itoa_hd: "\<exists>c cs. Itoa n = c # cs \<and> 48 \<le> (of_char c :: nat)"
proof (induction n rule: Itoa.induct)
  case (1 n)
  then show ?case
    by (cases "n < 10") (auto simp: Itoa.simps [of n])
qed

lemma Atoi_Itoa: "n < 2 ^ 63 \<Longrightarrow> Atoi (Itoa n) = Some (int n)"
proof -
  assume "n < 2 ^ 63"
  moreover obtain c cs where c: "Itoa n = c # cs" "48 \<le> (of_char c :: nat)"
    using Itoa_hd by blast
  moreover have "c \<noteq> CHR ''-''" "c \<noteq> CHR ''+''"
    using c(2) by auto
  ultimately show ?thesis
    using digits_Itoa [of n] by (simp add: Atoi_def)
qed

lemma Itoa_inj: "Itoa m = Itoa n \<longleftrightarrow> m = n"
  by (metis digits_Itoa option.inject)

lemma Itoa_digits: "c \<in> set (Itoa n) \<Longrightarrow> 48 \<le> (of_char c :: nat) \<and> (of_char c :: nat) \<le> 57"
proof (induction n rule: Itoa.induct)
  case (1 n)
  show ?case
  proof (cases "n < 10")
    case True
    with 1(2) show ?thesis
      by (simp add: Itoa.simps [of n])
  next
    case False
    with 1 show ?thesis
      by (auto simp: Itoa.simps [of n])
  qed
qed

lemma Itoa_nonempty [simp]: "Itoa n \<noteq> []"
  using Itoa_hd [of n] by auto

lemma ParseUint_Itoa: "n < 2 ^ bits \<Longrightarrow> ParseUint bits (Itoa n) = Some n"
  by (simp add: ParseUint_def digits_Itoa)

text \<open>A text of words separated by single spaces.\<close>

primrec unwords :: "string list \<Rightarrow> string" where
  "unwords [] = []"
| "unwords (w # ws) = w @ (if ws = [] then [] else CHR '' '' # unwords ws)"

definition is_word :: "string \<Rightarrow> bool" where
  "is_word w \<longleftrightarrow> w \<noteq> [] \<and> list_all (\<lambda>c. \<not> is_space c) w"

lemma fields_from_word:
  "list_all (\<lambda>c. \<not> is_space c) w \<Longrightarrow> fields_from acc (w @ s) = fields_from (acc @ w) s"
  by (induction w arbitrary: acc) simp_all

lemma Fields_unwords: "list_all is_word ws \<Longrightarrow> Fields (unwords ws) = ws"
proof (induction ws)
  case (Cons w ws)
  moreover have "is_space (CHR '' '')"
    by (simp add: is_space_def)
  ultimately show ?case
    by (cases ws) (auto simp: Fields_def is_word_def fields_from_word fields_from_word [where s = "[]", simplified])
qed (simp add: Fields_def)

primrec join :: "char \<Rightarrow> string list \<Rightarrow> string" where
  "join sep [] = []"
| "join sep (w # ws) = w @ (if ws = [] then [] else sep # join sep ws)"

lemma split_from_word: "sep \<notin> set w \<Longrightarrow> split_from sep acc (w @ s) = split_from sep (acc @ w) s"
  by (induction w arbitrary: acc) auto

lemma Split_join:
  assumes "ws \<noteq> []" and "\<forall>w\<in>set ws. sep \<notin> set w"
  shows "Split (join sep ws) sep = ws"
  using assms
proof (induction ws)
  case (Cons w ws)
  then show ?case
    by (cases ws) (auto simp: Split_def split_from_word split_from_word [where s = "[]", simplified])
qed simp

lemma SplitN2_one: "sep \<notin> set s \<Longrightarrow> SplitN2 s sep = [s]"
  by (simp add: SplitN2_def)

lemma SplitN2_two: "sep \<notin> set s \<Longrightarrow> SplitN2 (s @ sep # t) sep = [s, t]"
proof -
  assume "sep \<notin> set s"
  then have "takeWhile (\<lambda>c. c \<noteq> sep) (s @ sep # t) = s" "dropWhile (\<lambda>c. c \<noteq> sep) (s @ sep # t) = sep # t"
    by (induction s) auto
  then show ?thesis
    by (simp add: SplitN2_def)
qed

end
