(* ===== verification/Nssf_Config.thy ===== *)
theory Nssf_Config
  imports Go_Range Go_Strings
begin

text \<open>
  The configuration of the NSSF (\<^verbatim>\<open>NFs/nssf/pkg/factory/config.go\<close>) and the functions over it
  (\<^verbatim>\<open>NFs/nssf/internal/util/util.go\<close>).

  The structs of the \<^verbatim>\<open>openapi/models\<close> package appear with the fields this program reads or
  writes. A pointer is an option, and reading through a nil pointer panics. A slice is a list;
  where the code asks whether a slice is nil it is an option of a list.
  \<^verbatim>\<open>openapi.SnssaiEqualFold\<close> is not part of the repository: it is the argument \<open>eqf\<close>.
  The read and write locks of the configuration make every function atomic.
\<close>

section \<open>Data\<close>

record PlmnId =
  Mcc :: string
  Mnc :: string

record Snssai =
  Sst :: int
  Sd :: string

text \<open>\<open>SdRanges\<close> and \<open>WildcardSd\<close> of an \<open>ExtSnssai\<close> are never read.\<close>

record ExtSnssai =
  ext_Sst :: int
  ext_Sd :: string

record Tai =
  tai_PlmnId :: "PlmnId option"
  Tac :: string

record RestrictedSnssai =
  rs_HomePlmnId :: "PlmnId option"
  rs_SNssaiList :: "ExtSnssai list"

record MappingOfSnssai =
  ServingSnssai :: "Snssai option"
  HomeSnssai :: "Snssai option"

record NsiInformation =
  NrfId :: string
  NsiId :: string

record SupportedNssaiAvailabilityData =
  sup_Tai :: "Tai option"
  sup_SupportedSnssaiList :: "ExtSnssai list"

record AuthorizedNssaiAvailabilityData =
  auth_Tai :: "Tai option"
  auth_SupportedSnssaiList :: "ExtSnssai list"
  auth_RestrictedSnssaiList :: "RestrictedSnssai list"

record AmfConfig =
  amf_NfId :: string
  amf_Data :: "SupportedNssaiAvailabilityData list"

record TaConfig =
  ta_Tai :: "Tai option"
  ta_AccessType :: "string option"
  ta_SupportedSnssaiList :: "ExtSnssai list"
  ta_RestrictedSnssaiList :: "RestrictedSnssai list"

record SupportedNssaiInPlmn =
  plmn_PlmnId :: "PlmnId option"
  plmn_SupportedSnssaiList :: "Snssai list"

record NsiConfig =
  nsi_Snssai :: "Snssai option"
  nsi_NsiInformationList :: "NsiInformation list option"

record AmfSetConfig =
  AmfSetId :: string
  set_AmfList :: "string list"
  set_NrfAmfSet :: string
  set_Data :: "SupportedNssaiAvailabilityData list"

record MappingFromPlmnConfig =
  map_HomePlmnId :: "PlmnId option"
  map_MappingOfSnssai :: "MappingOfSnssai list option"

text \<open>A \<open>time.Time\<close> is its distance from the zero time.\<close>

record NssfEventSubscriptionCreateData =
  TaiList :: "Tai list"
  Expiry :: "int option"

record Subscription =
  SubscriptionId :: string
  SubscriptionData :: "NssfEventSubscriptionCreateData option"

text \<open>The part of \<open>Configuration\<close> that describes slices, with the subscriptions of \<open>Config\<close>.\<close>

record NssfConfig =
  SupportedNssaiInPlmnList :: "SupportedNssaiInPlmn list"
  NsiList :: "NsiConfig list"
  AmfSetList :: "AmfSetConfig list"
  AmfList :: "AmfConfig list"
  TaList :: "TaConfig list"
  MappingListFromPlmn :: "MappingFromPlmnConfig list"
  Subscriptions :: "Subscription list"

record AllowedSnssai =
  as_AllowedSnssai :: "Snssai option"
  as_NsiInformationList :: "NsiInformation list"
  as_MappedHomeSnssai :: "Snssai option"

record AllowedNssai =
  an_AllowedSnssaiList :: "AllowedSnssai list"
  an_AccessType :: string

record ConfiguredSnssai =
  cs_ConfiguredSnssai :: "Snssai option"
  cs_MappedHomeSnssai :: "Snssai option"

record AuthorizedNetworkSliceInfo =
  AllowedNssaiList :: "AllowedNssai list"
  ConfiguredNssai :: "ConfiguredSnssai list"
  TargetAmfSet :: string
  CandidateAmfList :: "string list"
  RejectedNssaiInPlmn :: "Snssai list"
  RejectedNssaiInTa :: "Snssai list"
  info_NsiInformation :: "NsiInformation option"
  NrfAmfSet :: string

definition emptyInfo :: AuthorizedNetworkSliceInfo where
  "emptyInfo = \<lparr>AllowedNssaiList = [], ConfiguredNssai = [], TargetAmfSet = [], CandidateAmfList = [],
     RejectedNssaiInPlmn = [], RejectedNssaiInTa = [], info_NsiInformation = None, NrfAmfSet = []\<rparr>"

definition AccessType_3GPP :: string where
  "AccessType_3GPP = ''3GPP_ACCESS''"

text \<open>The argument of \<open>CheckSupportedNssaiInPlmn\<close> has type \<open>any\<close>.\<close>

datatype nssai = NssaiExt "ExtSnssai list" | Nssai "Snssai list" | NssaiOther

datatype nssf_error =
    NoAmfConfiguration string
  | NoSupportedSnssaiList string Tai
  | AtoiError string
  | NoAvailableSubscriptionID

type_synonym 'a nssf = "(nssf_error, 'a) outcome"

type_synonym snssai_eq = "Snssai \<Rightarrow> Snssai \<Rightarrow> bool"

section \<open>Comparison of S-NSSAIs\<close>

definition SnssaiEqualFold :: "ExtSnssai \<Rightarrow> Snssai \<Rightarrow> bool" where
  "SnssaiEqualFold s t \<longleftrightarrow> ext_Sst s = Sst t \<and> EqualFold (ext_Sd s) (Sd t)"

definition CheckStandardSnssai :: "Snssai \<Rightarrow> bool" where
  "CheckStandardSnssai s \<longleftrightarrow> 1 \<le> Sst s \<and> Sst s \<le> 3 \<and> Sd s = []"

definition CheckSnssaiInNssai :: "Snssai \<Rightarrow> ExtSnssai list \<Rightarrow> bool" where
  "CheckSnssaiInNssai target l \<longleftrightarrow> list_ex (\<lambda>s. SnssaiEqualFold s target) l"

section \<open>Checks against the configuration\<close>

text \<open>\<open>*p == v\<close> and \<open>reflect.DeepEqual(*p, v)\<close> for a pointer \<open>p\<close>\<close>

definition points_to :: "'a option \<Rightarrow> 'a \<Rightarrow> bool nssf" where
  "points_to p v = omap (\<lambda>x. x = v) (deref p)"

definition CheckSupportedHplmn :: "NssfConfig \<Rightarrow> PlmnId \<Rightarrow> bool nssf" where
  "CheckSupportedHplmn cfg homePlmnId =
     oexists (\<lambda>m. points_to (map_HomePlmnId m) homePlmnId) (MappingListFromPlmn cfg)"

definition CheckSupportedTa :: "NssfConfig \<Rightarrow> Tai \<Rightarrow> bool nssf" where
  "CheckSupportedTa cfg tai = oexists (\<lambda>t. points_to (ta_Tai t) tai) (TaList cfg)"

definition CheckSupportedSnssaiInPlmn ::
    "snssai_eq \<Rightarrow> NssfConfig \<Rightarrow> Snssai \<Rightarrow> PlmnId \<Rightarrow> bool nssf" where
  "CheckSupportedSnssaiInPlmn eqf cfg snssai plmnId =
     (if CheckStandardSnssai snssai then Ok True
      else obind (ofind (\<lambda>p. points_to (plmn_PlmnId p) plmnId) (SupportedNssaiInPlmnList cfg)) (\<lambda>r.
        case r of
          None \<Rightarrow> Ok False
        | Some p \<Rightarrow> Ok (list_ex (eqf snssai) (plmn_SupportedSnssaiList p))))"

definition CheckSupportedNssaiInPlmn ::
    "snssai_eq \<Rightarrow> NssfConfig \<Rightarrow> nssai \<Rightarrow> PlmnId \<Rightarrow> bool nssf" where
  "CheckSupportedNssaiInPlmn eqf cfg nssai plmnId =
     obind (ofind (\<lambda>p. points_to (plmn_PlmnId p) plmnId) (SupportedNssaiInPlmnList cfg)) (\<lambda>r.
       case r of
         None \<Rightarrow> Ok False
       | Some p \<Rightarrow>
           (case nssai of
              NssaiExt n \<Rightarrow> Ok (list_all (\<lambda>s.
                CheckStandardSnssai \<lparr>Sst = ext_Sst s, Sd = ext_Sd s\<rparr> \<or>
                list_ex (SnssaiEqualFold s) (plmn_SupportedSnssaiList p)) n)
            | Nssai n \<Rightarrow> Ok (list_all (\<lambda>s.
                CheckStandardSnssai s \<or> list_ex (eqf s) (plmn_SupportedSnssaiList p)) n)
            | NssaiOther \<Rightarrow> Ok False))"

definition CheckSupportedSnssaiInTa :: "NssfConfig \<Rightarrow> Snssai \<Rightarrow> Tai \<Rightarrow> bool nssf" where
  "CheckSupportedSnssaiInTa cfg snssai tai =
     obind (ofind (\<lambda>t. points_to (ta_Tai t) tai) (TaList cfg)) (\<lambda>r.
       case r of
         None \<Rightarrow> Ok False
       | Some t \<Rightarrow> Ok (list_ex (\<lambda>s. SnssaiEqualFold s snssai) (ta_SupportedSnssaiList t)))"

definition CheckSupportedNssaiAvailabilityData ::
    "Snssai \<Rightarrow> Tai \<Rightarrow> SupportedNssaiAvailabilityData list \<Rightarrow> bool nssf" where
  "CheckSupportedNssaiAvailabilityData snssai tai l =
     oexists (\<lambda>d. obind (points_to (sup_Tai d) tai) (\<lambda>b.
       Ok (b \<and> CheckSnssaiInNssai snssai (sup_SupportedSnssaiList d)))) l"

definition CheckSupportedSnssaiInAmfTa ::
    "NssfConfig \<Rightarrow> Snssai \<Rightarrow> string \<Rightarrow> Tai \<Rightarrow> bool nssf" where
  "CheckSupportedSnssaiInAmfTa cfg snssai nfId tai =
     (case List.find (\<lambda>a. amf_NfId a = nfId) (AmfList cfg) of
        None \<Rightarrow> Ok False
      | Some a \<Rightarrow> CheckSupportedNssaiAvailabilityData snssai tai (amf_Data a))"

definition CheckAllowedNssaiInAmfTa ::
    "NssfConfig \<Rightarrow> AllowedNssai list \<Rightarrow> string \<Rightarrow> Tai \<Rightarrow> bool nssf" where
  "CheckAllowedNssaiInAmfTa cfg allowedNssaiList nfId tai =
     oall (\<lambda>n. oall (\<lambda>a. obind (deref (as_AllowedSnssai a)) (\<lambda>s.
       CheckSupportedSnssaiInAmfTa cfg s nfId tai)) (an_AllowedSnssaiList n)) allowedNssaiList"

section \<open>Lookups in the configuration\<close>

definition GetMappingOfPlmnFromConfig ::
    "NssfConfig \<Rightarrow> PlmnId \<Rightarrow> MappingOfSnssai list option nssf" where
  "GetMappingOfPlmnFromConfig cfg homePlmnId =
     obind (ofind (\<lambda>m. points_to (map_HomePlmnId m) homePlmnId) (MappingListFromPlmn cfg)) (\<lambda>r.
       Ok (case r of None \<Rightarrow> None | Some m \<Rightarrow> map_MappingOfSnssai m))"

definition GetNsiInformationListFromConfig ::
    "snssai_eq \<Rightarrow> NssfConfig \<Rightarrow> Snssai \<Rightarrow> NsiInformation list option nssf" where
  "GetNsiInformationListFromConfig eqf cfg snssai =
     obind (ofind (\<lambda>n. omap (\<lambda>s. eqf s snssai) (deref (nsi_Snssai n))) (NsiList cfg)) (\<lambda>r.
       Ok (case r of None \<Rightarrow> None | Some n \<Rightarrow> nsi_NsiInformationList n))"

definition GetAccessTypeFromConfig :: "NssfConfig \<Rightarrow> Tai \<Rightarrow> string nssf" where
  "GetAccessTypeFromConfig cfg tai =
     obind (ofind (\<lambda>t. points_to (ta_Tai t) tai) (TaList cfg)) (\<lambda>r.
       case r of None \<Rightarrow> Ok AccessType_3GPP | Some t \<Rightarrow> deref (ta_AccessType t))"

definition GetRestrictedSnssaiListFromConfig ::
    "NssfConfig \<Rightarrow> Tai \<Rightarrow> RestrictedSnssai list nssf" where
  "GetRestrictedSnssaiListFromConfig cfg tai =
     obind (ofind (\<lambda>t. points_to (ta_Tai t) tai) (TaList cfg)) (\<lambda>r.
       Ok (case r of None \<Rightarrow> [] | Some t \<Rightarrow> ta_RestrictedSnssaiList t))"

definition AuthorizeOfAmfTaFromConfig ::
    "NssfConfig \<Rightarrow> string \<Rightarrow> Tai \<Rightarrow> AuthorizedNssaiAvailabilityData nssf" where
  "AuthorizeOfAmfTaFromConfig cfg nfId tai =
     (case List.find (\<lambda>a. amf_NfId a = nfId) (AmfList cfg) of
        None \<Rightarrow> Err (NoAmfConfiguration nfId)
      | Some a \<Rightarrow>
          obind (ofind (\<lambda>d. points_to (sup_Tai d) tai) (amf_Data a)) (\<lambda>r.
            case r of
              None \<Rightarrow> Err (NoSupportedSnssaiList nfId tai)
            | Some d \<Rightarrow>
                obind (GetRestrictedSnssaiListFromConfig cfg tai) (\<lambda>restricted.
                  Ok \<lparr>auth_Tai = Some tai, auth_SupportedSnssaiList = sup_SupportedSnssaiList d,
                      auth_RestrictedSnssaiList = restricted\<rparr>)))"

definition AuthorizeOfAmfFromConfig ::
    "NssfConfig \<Rightarrow> string \<Rightarrow> AuthorizedNssaiAvailabilityData list nssf" where
  "AuthorizeOfAmfFromConfig cfg nfId =
     (case List.find (\<lambda>a. amf_NfId a = nfId) (AmfList cfg) of
        None \<Rightarrow> Err (NoAmfConfiguration nfId)
      | Some a \<Rightarrow>
          omapM (\<lambda>d.
            obind (deref (sup_Tai d)) (\<lambda>tai.
            obind (GetRestrictedSnssaiListFromConfig cfg tai) (\<lambda>restricted.
              Ok \<lparr>auth_Tai = Some tai, auth_SupportedSnssaiList = sup_SupportedSnssaiList d,
                  auth_RestrictedSnssaiList = restricted\<rparr>))) (amf_Data a))"

definition AuthorizeOfTaListFromConfig ::
    "NssfConfig \<Rightarrow> Tai list \<Rightarrow> AuthorizedNssaiAvailabilityData list nssf" where
  "AuthorizeOfTaListFromConfig cfg taiList =
     ofold (\<lambda>t acc. ofold (\<lambda>tai acc.
         obind (points_to (ta_Tai t) tai) (\<lambda>b.
           if b then
             obind (GetRestrictedSnssaiListFromConfig cfg tai) (\<lambda>restricted.
               Ok (acc @ [\<lparr>auth_Tai = Some tai, auth_SupportedSnssaiList = ta_SupportedSnssaiList t,
                           auth_RestrictedSnssaiList = restricted\<rparr>]))
           else Ok acc)) taiList acc) (TaList cfg) []"

definition GetSupportedSnssaiListFromConfig ::
    "NssfConfig \<Rightarrow> string \<Rightarrow> Tai \<Rightarrow> ExtSnssai list nssf" where
  "GetSupportedSnssaiListFromConfig cfg nfId tai =
     (case List.find (\<lambda>a. amf_NfId a = nfId) (AmfList cfg) of
        None \<Rightarrow> Ok []
      | Some a \<Rightarrow>
          obind (ofind (\<lambda>d. points_to (sup_Tai d) tai) (amf_Data a)) (\<lambda>r.
            Ok (case r of None \<Rightarrow> [] | Some d \<Rightarrow> sup_SupportedSnssaiList d)))"

definition FindMappingWithServingSnssai ::
    "snssai_eq \<Rightarrow> Snssai \<Rightarrow> MappingOfSnssai list \<Rightarrow> MappingOfSnssai option nssf" where
  "FindMappingWithServingSnssai eqf snssai mappings =
     ofind (\<lambda>m. omap (\<lambda>s. eqf s snssai) (deref (ServingSnssai m))) mappings"

definition FindMappingWithHomeSnssai ::
    "snssai_eq \<Rightarrow> Snssai \<Rightarrow> MappingOfSnssai list \<Rightarrow> MappingOfSnssai option nssf" where
  "FindMappingWithHomeSnssai eqf snssai mappings =
     ofind (\<lambda>m. omap (\<lambda>s. eqf s snssai) (deref (HomeSnssai m))) mappings"

section \<open>Filling the answer\<close>

definition MAX_ALLOWED_SNSSAI :: nat where
  "MAX_ALLOWED_SNSSAI = 8"

text \<open>The loop of \<open>AddAllowedSnssai\<close> over the entries of the list, by access type.\<close>

primrec add_allowed :: "AllowedSnssai \<Rightarrow> string \<Rightarrow> AllowedNssai list \<Rightarrow> AllowedNssai list" where
  "add_allowed a accessType [] = [\<lparr>an_AllowedSnssaiList = [a], an_AccessType = accessType\<rparr>]"
| "add_allowed a accessType (n # ns) =
     (if an_AccessType n = accessType
      then (if length (an_AllowedSnssaiList n) = MAX_ALLOWED_SNSSAI then n
            else n\<lparr>an_AllowedSnssaiList := an_AllowedSnssaiList n @ [a]\<rparr>) # ns
      else n # add_allowed a accessType ns)"

definition AddAllowedSnssai ::
    "AllowedSnssai \<Rightarrow> string \<Rightarrow> AuthorizedNetworkSliceInfo \<Rightarrow> AuthorizedNetworkSliceInfo" where
  "AddAllowedSnssai a accessType info =
     info\<lparr>AllowedNssaiList := add_allowed a accessType (AllowedNssaiList info)\<rparr>"

text \<open>Whether all allowed S-NSSAIs are in the availability data (the two inner loops).\<close>

definition serves ::
    "AllowedNssai list \<Rightarrow> Tai \<Rightarrow> SupportedNssaiAvailabilityData list \<Rightarrow> bool nssf" where
  "serves allowed tai l =
     oall (\<lambda>n. oall (\<lambda>a. obind (deref (as_AllowedSnssai a)) (\<lambda>s.
       CheckSupportedNssaiAvailabilityData s tai l)) (an_AllowedSnssaiList n)) allowed"

definition AddAmfInformation ::
    "NssfConfig \<Rightarrow> Tai \<Rightarrow> AuthorizedNetworkSliceInfo \<Rightarrow> AuthorizedNetworkSliceInfo nssf" where
  "AddAmfInformation cfg tai info =
     (if AllowedNssaiList info = [] then Ok info
      else
        obind (ofind (\<lambda>s. serves (AllowedNssaiList info) tai (set_Data s)) (AmfSetList cfg)) (\<lambda>r.
          case r of
            Some s \<Rightarrow>
              Ok (if set_AmfList s \<noteq> []
                  then info\<lparr>CandidateAmfList := CandidateAmfList info @ set_AmfList s\<rparr>
                  else info\<lparr>TargetAmfSet := AmfSetId s, NrfAmfSet := set_NrfAmfSet s\<rparr>)
          | None \<Rightarrow>
              ofold (\<lambda>a info'.
                obind (serves (AllowedNssaiList info) tai (amf_Data a)) (\<lambda>b.
                  Ok (if b then info'\<lparr>CandidateAmfList := CandidateAmfList info' @ [amf_NfId a]\<rparr>
                      else info'))) (AmfList cfg) info))"

section \<open>Configurations without nil pointers\<close>

definition mapping_ok :: "MappingOfSnssai \<Rightarrow> bool" where
  "mapping_ok m \<longleftrightarrow> ServingSnssai m \<noteq> None \<and> HomeSnssai m \<noteq> None"

definition data_ok :: "SupportedNssaiAvailabilityData \<Rightarrow> bool" where
  "data_ok d \<longleftrightarrow> sup_Tai d \<noteq> None"

definition ta_ok :: "TaConfig \<Rightarrow> bool" where
  "ta_ok t \<longleftrightarrow> ta_AccessType t \<noteq> None \<and>
     (case ta_Tai t of None \<Rightarrow> False | Some tai \<Rightarrow> tai_PlmnId tai \<noteq> None)"

definition home_ok :: "MappingFromPlmnConfig \<Rightarrow> bool" where
  "home_ok m \<longleftrightarrow> map_HomePlmnId m \<noteq> None \<and>
     (case map_MappingOfSnssai m of None \<Rightarrow> True | Some l \<Rightarrow> list_all mapping_ok l)"

definition config_ok :: "NssfConfig \<Rightarrow> bool" where
  "config_ok cfg \<longleftrightarrow>
     list_all (\<lambda>p. plmn_PlmnId p \<noteq> None) (SupportedNssaiInPlmnList cfg) \<and>
     list_all (\<lambda>n. nsi_Snssai n \<noteq> None) (NsiList cfg) \<and>
     list_all (\<lambda>s. list_all data_ok (set_Data s)) (AmfSetList cfg) \<and>
     list_all (\<lambda>a. list_all data_ok (amf_Data a)) (AmfList cfg) \<and>
     list_all ta_ok (TaList cfg) \<and> list_all home_ok (MappingListFromPlmn cfg)"

text \<open>What the checks compute then: the first matching entry of a list decides.\<close>

definition ta_of :: "NssfConfig \<Rightarrow> Tai \<Rightarrow> TaConfig option" where
  "ta_of cfg tai = List.find (\<lambda>t. ta_Tai t = Some tai) (TaList cfg)"

definition plmn_of :: "NssfConfig \<Rightarrow> PlmnId \<Rightarrow> SupportedNssaiInPlmn option" where
  "plmn_of cfg plmn = List.find (\<lambda>p. plmn_PlmnId p = Some plmn) (SupportedNssaiInPlmnList cfg)"

definition mappings_of :: "NssfConfig \<Rightarrow> PlmnId \<Rightarrow> MappingOfSnssai list option" where
  "mappings_of cfg h =
     Option.bind (List.find (\<lambda>m. map_HomePlmnId m = Some h) (MappingListFromPlmn cfg)) map_MappingOfSnssai"

definition nsi_of :: "snssai_eq \<Rightarrow> NssfConfig \<Rightarrow> Snssai \<Rightarrow> NsiInformation list option" where
  "nsi_of eqf cfg s =
     Option.bind (List.find (\<lambda>n. eqf (the (nsi_Snssai n)) s) (NsiList cfg)) nsi_NsiInformationList"

definition amf_of :: "NssfConfig \<Rightarrow> string \<Rightarrow> SupportedNssaiAvailabilityData list option" where
  "amf_of cfg nfId = map_option amf_Data (List.find (\<lambda>a. amf_NfId a = nfId) (AmfList cfg))"

definition snssai_in_ta :: "NssfConfig \<Rightarrow> Tai \<Rightarrow> Snssai \<Rightarrow> bool" where
  "snssai_in_ta cfg tai s \<longleftrightarrow>
     (case ta_of cfg tai of None \<Rightarrow> False | Some t \<Rightarrow> CheckSnssaiInNssai s (ta_SupportedSnssaiList t))"

definition snssai_in_plmn :: "snssai_eq \<Rightarrow> NssfConfig \<Rightarrow> PlmnId \<Rightarrow> Snssai \<Rightarrow> bool" where
  "snssai_in_plmn eqf cfg plmn s \<longleftrightarrow>
     CheckStandardSnssai s \<or>
     (case plmn_of cfg plmn of None \<Rightarrow> False | Some p \<Rightarrow> list_ex (eqf s) (plmn_SupportedSnssaiList p))"

definition available :: "Tai \<Rightarrow> SupportedNssaiAvailabilityData list \<Rightarrow> Snssai \<Rightarrow> bool" where
  "available tai l s \<longleftrightarrow>
     list_ex (\<lambda>d. sup_Tai d = Some tai \<and> CheckSnssaiInNssai s (sup_SupportedSnssaiList d)) l"

text \<open>The S-NSSAIs of a list of allowed NSSAIs.\<close>

definition allowed_snssais :: "AllowedNssai list \<Rightarrow> Snssai option list" where
  "allowed_snssais l = concat (map (\<lambda>n. map as_AllowedSnssai (an_AllowedSnssaiList n)) l)"

lemma points_to_Ok: "p \<noteq> None \<Longrightarrow> points_to p v = Ok (p = Some v)"
  by (auto simp: points_to_def)

lemma config_ok_parts:
  assumes "config_ok cfg"
  shows "t \<in> set (TaList cfg) \<Longrightarrow> ta_ok t"
    and "m \<in> set (MappingListFromPlmn cfg) \<Longrightarrow> home_ok m"
  using assms unfolding config_ok_def list_all_iff by blast+

lemma config_okD:
  assumes "config_ok cfg"
  shows "p \<in> set (SupportedNssaiInPlmnList cfg) \<Longrightarrow> plmn_PlmnId p \<noteq> None"
    and "n \<in> set (NsiList cfg) \<Longrightarrow> nsi_Snssai n \<noteq> None"
    and "s \<in> set (AmfSetList cfg) \<Longrightarrow> list_all data_ok (set_Data s)"
    and "a \<in> set (AmfList cfg) \<Longrightarrow> list_all data_ok (amf_Data a)"
  using assms unfolding config_ok_def list_all_iff by blast+

lemma config_ok_taD:
  assumes "config_ok cfg" and "t \<in> set (TaList cfg)"
  shows "ta_Tai t \<noteq> None" and "ta_AccessType t \<noteq> None"
    and "ta_Tai t = Some tai \<Longrightarrow> tai_PlmnId tai \<noteq> None"
  using config_ok_parts(1) [OF assms] by (auto simp: ta_ok_def split: option.splits)

lemma config_ok_homeD:
  assumes "config_ok cfg" and "m \<in> set (MappingListFromPlmn cfg)"
  shows "map_HomePlmnId m \<noteq> None"
    and "map_MappingOfSnssai m = Some l \<Longrightarrow> list_all mapping_ok l"
  using config_ok_parts(2) [OF assms] by (auto simp: home_ok_def split: option.splits)

lemma ta_of_PlmnId: "config_ok cfg \<Longrightarrow> ta_of cfg t \<noteq> None \<Longrightarrow> tai_PlmnId t \<noteq> None"
  unfolding ta_of_def by (auto dest!: find_Some_in dest: config_ok_taD(3))

lemma CheckSupportedHplmn_eq:
  "config_ok cfg \<Longrightarrow>
   CheckSupportedHplmn cfg h = Ok (list_ex (\<lambda>m. map_HomePlmnId m = Some h) (MappingListFromPlmn cfg))"
  unfolding CheckSupportedHplmn_def by (rule oexists_Ok) (simp add: points_to_Ok config_ok_homeD)

lemma CheckSupportedTa_eq: "config_ok cfg \<Longrightarrow> CheckSupportedTa cfg t = Ok (ta_of cfg t \<noteq> None)"
  unfolding CheckSupportedTa_def ta_of_def
  by (subst oexists_Ok [where q = "\<lambda>x. ta_Tai x = Some t"])
    (auto simp: points_to_Ok config_ok_taD find_None_iff_list_ex)

lemma find_ta_eq:
  "config_ok cfg \<Longrightarrow> ofind (\<lambda>x. points_to (ta_Tai x) t) (TaList cfg) = Ok (ta_of cfg t)"
  unfolding ta_of_def by (rule ofind_Ok) (simp add: points_to_Ok config_ok_taD)

lemma find_plmn_eq:
  "config_ok cfg \<Longrightarrow>
   ofind (\<lambda>p. points_to (plmn_PlmnId p) plmn) (SupportedNssaiInPlmnList cfg) = Ok (plmn_of cfg plmn)"
  unfolding plmn_of_def by (rule ofind_Ok) (simp add: points_to_Ok config_okD)

lemma CheckSupportedSnssaiInPlmn_eq:
  "config_ok cfg \<Longrightarrow> CheckSupportedSnssaiInPlmn eqf cfg s plmn = Ok (snssai_in_plmn eqf cfg plmn s)"
  by (simp add: CheckSupportedSnssaiInPlmn_def find_plmn_eq snssai_in_plmn_def split: option.splits)

lemma CheckSupportedNssaiInPlmn_eq:
  "config_ok cfg \<Longrightarrow> CheckSupportedNssaiInPlmn eqf cfg (Nssai l) plmn =
     Ok (plmn_of cfg plmn \<noteq> None \<and> list_all (snssai_in_plmn eqf cfg plmn) l)"
  by (simp add: CheckSupportedNssaiInPlmn_def find_plmn_eq snssai_in_plmn_def list_all_iff
        split: option.splits)

lemma CheckSupportedSnssaiInTa_eq:
  "config_ok cfg \<Longrightarrow> CheckSupportedSnssaiInTa cfg s t = Ok (snssai_in_ta cfg t s)"
  by (simp add: CheckSupportedSnssaiInTa_def find_ta_eq snssai_in_ta_def CheckSnssaiInNssai_def
        split: option.splits)

lemma CheckSupportedNssaiAvailabilityData_eq:
  "list_all data_ok l \<Longrightarrow> CheckSupportedNssaiAvailabilityData s t l = Ok (available t l s)"
  unfolding CheckSupportedNssaiAvailabilityData_def available_def
  by (rule oexists_Ok) (simp add: list_all_iff data_ok_def points_to_Ok)

lemma CheckSupportedSnssaiInAmfTa_eq:
  assumes "config_ok cfg"
  shows "CheckSupportedSnssaiInAmfTa cfg s nfId t =
     Ok (case amf_of cfg nfId of None \<Rightarrow> False | Some l \<Rightarrow> available t l s)"
proof (cases "List.find (\<lambda>a. amf_NfId a = nfId) (AmfList cfg)")
  case (Some a)
  then have "list_all data_ok (amf_Data a)"
    using find_Some_in assms config_okD(4) by metis
  with Some show ?thesis
    by (simp add: CheckSupportedSnssaiInAmfTa_def amf_of_def CheckSupportedNssaiAvailabilityData_eq)
qed (simp add: CheckSupportedSnssaiInAmfTa_def amf_of_def)

lemma GetMappingOfPlmnFromConfig_eq:
  "config_ok cfg \<Longrightarrow> GetMappingOfPlmnFromConfig cfg h = Ok (mappings_of cfg h)"
  unfolding GetMappingOfPlmnFromConfig_def mappings_of_def
  by (subst ofind_Ok [where q = "\<lambda>m. map_HomePlmnId m = Some h"])
    (auto simp: points_to_Ok config_ok_homeD split: option.splits)

lemma mappings_of_ok: "config_ok cfg \<Longrightarrow> mappings_of cfg h = Some l \<Longrightarrow> list_all mapping_ok l"
  by (auto simp: mappings_of_def bind_eq_Some_conv dest!: find_Some_in config_ok_homeD(2))

lemma GetNsiInformationListFromConfig_eq:
  "config_ok cfg \<Longrightarrow> GetNsiInformationListFromConfig eqf cfg s = Ok (nsi_of eqf cfg s)"
  unfolding GetNsiInformationListFromConfig_def nsi_of_def
  by (subst ofind_Ok [where q = "\<lambda>n. eqf (the (nsi_Snssai n)) s"])
    (auto simp: deref_the config_okD split: option.splits)

lemma GetAccessTypeFromConfig_eq:
  assumes "config_ok cfg"
  shows "GetAccessTypeFromConfig cfg t =
     Ok (case ta_of cfg t of None \<Rightarrow> AccessType_3GPP | Some x \<Rightarrow> the (ta_AccessType x))"
proof -
  have "ta_of cfg t = Some x \<Longrightarrow> ta_AccessType x \<noteq> None" for x
    using assms unfolding ta_of_def by (auto dest!: find_Some_in config_ok_taD(2))
  with assms show ?thesis
    by (auto simp: GetAccessTypeFromConfig_def find_ta_eq deref_the split: option.splits)
qed

lemma find_mapping_eq:
  "list_all mapping_ok l \<Longrightarrow> FindMappingWithServingSnssai eqf s l =
     Ok (List.find (\<lambda>m. eqf (the (ServingSnssai m)) s) l)"
  "list_all mapping_ok l \<Longrightarrow> FindMappingWithHomeSnssai eqf s l =
     Ok (List.find (\<lambda>m. eqf (the (HomeSnssai m)) s) l)"
  unfolding FindMappingWithServingSnssai_def FindMappingWithHomeSnssai_def
  by (rule ofind_Ok, simp add: list_all_iff mapping_ok_def deref_the)+

lemma serves_eq:
  assumes "list_all data_ok l" and "None \<notin> set (allowed_snssais as)"
  shows "serves as t l = Ok (list_all (\<lambda>s. available t l (the s)) (allowed_snssais as))"
proof -
  have "oall (\<lambda>a. obind (deref (as_AllowedSnssai a)) (\<lambda>s. CheckSupportedNssaiAvailabilityData s t l))
      (an_AllowedSnssaiList n) = Ok (list_all (\<lambda>a. available t l (the (as_AllowedSnssai a))) (an_AllowedSnssaiList n))"
    if "n \<in> set as" for n
    by (rule oall_Ok, subst deref_the, use that assms in \<open>force simp: allowed_snssais_def\<close>)
      (simp add: CheckSupportedNssaiAvailabilityData_eq assms(1))
  then have "serves as t l =
      Ok (list_all (\<lambda>n. list_all (\<lambda>a. available t l (the (as_AllowedSnssai a))) (an_AllowedSnssaiList n)) as)"
    unfolding serves_def by (rule oall_Ok)
  then show ?thesis
    by (simp add: allowed_snssais_def list_all_iff)
qed

lemmas config_eqs = CheckSupportedHplmn_eq CheckSupportedTa_eq CheckSupportedSnssaiInPlmn_eq
  CheckSupportedNssaiInPlmn_eq CheckSupportedSnssaiInTa_eq CheckSupportedSnssaiInAmfTa_eq
  GetMappingOfPlmnFromConfig_eq GetNsiInformationListFromConfig_eq GetAccessTypeFromConfig_eq

end
