(* ===== verification/Nssf_Selection.thy ===== *)
theory Nssf_Selection
  imports Nssf_Config
begin

text \<open>
  Network slice selection
  (\<^verbatim>\<open>NFs/nssf/internal/sbi/processor/nsselection_network_slice_information.go\<close>). A handler
  takes the configuration and the bound query and returns the HTTP answer. The pseudo random number
  of \<^verbatim>\<open>rand.Intn\<close> is the argument \<open>rnd\<close>. Log output and trace attributes are left out.
\<close>

section \<open>Queries and answers\<close>

record SubscribedSnssai =
  ss_SubscribedSnssai :: "Snssai option"
  DefaultIndication :: bool

record SliceInfoForRegistration =
  SubscribedNssai :: "SubscribedSnssai list"
  RequestedNssai :: "Snssai list"
  MappingOfNssai :: "MappingOfSnssai list"
  SNssaiForMapping :: "Snssai list"
  RequestMapping :: bool
  DefaultConfiguredSnssaiInd :: bool

record SliceInfoForPduSession =
  pdu_SNssai :: "Snssai option"
  RoamingIndication :: string

text \<open>The query; the slice information for a configuration update is never read.\<close>

record NetworkSliceInformationGetQuery =
  NfType :: string
  NfId :: string
  SliceInfoRequestForRegistration :: "SliceInfoForRegistration option"
  SliceInfoRequestForPduSession :: "SliceInfoForPduSession option"
  q_HomePlmnId :: "PlmnId option"
  q_Tai :: "Tai option"

record ProblemDetails =
  pd_Title :: string
  pd_Status :: nat
  pd_Detail :: string
  pd_Cause :: string
  pd_InvalidParams :: "(string \<times> string) list"

type_synonym selection = "nat \<times> AuthorizedNetworkSliceInfo option \<times> ProblemDetails option"

datatype answer = ProblemJson ProblemDetails | InfoJson nat AuthorizedNetworkSliceInfo

definition StatusOK :: nat where "StatusOK = 200"
definition StatusBadRequest :: nat where "StatusBadRequest = 400"
definition StatusForbidden :: nat where "StatusForbidden = 403"
definition StatusInternalServerError :: nat where "StatusInternalServerError = 500"

definition INTERNAL_ERROR :: string where "INTERNAL_ERROR = ''Internal server error''"
definition INVALID_REQUEST :: string where "INVALID_REQUEST = ''Invalid request message framing''"
definition MANDATORY_IE_MISSING :: string where "MANDATORY_IE_MISSING = ''Mandatory IEs are missing''"
definition UNAUTHORIZED_CONSUMER :: string where
  "UNAUTHORIZED_CONSUMER = ''Unauthorized NF service consumer''"
definition UNSUPPORTED_RESOURCE :: string where
  "UNSUPPORTED_RESOURCE = ''Unsupported request resources''"

definition RoamingIndication_NON_ROAMING :: string where
  "RoamingIndication_NON_ROAMING = ''NON_ROAMING''"

definition snssai_not_supported :: ProblemDetails where
  "snssai_not_supported = \<lparr>pd_Title = UNSUPPORTED_RESOURCE, pd_Status = StatusForbidden,
     pd_Detail = ''S-NSSAI in Requested NSSAI is not supported in PLMN'',
     pd_Cause = ''SNSSAI_NOT_SUPPORTED'', pd_InvalidParams = []\<rparr>"

definition invalid_home_plmn :: "string \<Rightarrow> ProblemDetails" where
  "invalid_home_plmn detail = \<lparr>pd_Title = INVALID_REQUEST, pd_Status = StatusBadRequest,
     pd_Detail = detail, pd_Cause = [], pd_InvalidParams = [(''home-plmn-id'', detail)]\<rparr>"

definition home_plmn_contradicts :: ProblemDetails where
  "home_plmn_contradicts = invalid_home_plmn
     (''`home-plmn-id` is provided, which contradicts `roamingIndication`:'' @
      CHR 0x27 # RoamingIndication_NON_ROAMING @ [CHR 0x27])"

definition home_plmn_missing :: "string \<Rightarrow> ProblemDetails" where
  "home_plmn_missing roaming = invalid_home_plmn
     (''`home-plmn-id` is not provided, which contradicts `roamingIndication`:'' @
      CHR 0x27 # roaming @ [CHR 0x27])"

definition home_plmn_for_mapping :: ProblemDetails where
  "home_plmn_for_mapping = invalid_home_plmn
     (''[Query Parameter] `home-plmn-id` should be provided'' @
      '' when requesting VPLMN specific mapped S-NSSAI values'')"

section \<open>Parts shared by the procedures\<close>

text \<open>The access type of the given tracking area, 3GPP access without one.\<close>

definition access_type :: "NssfConfig \<Rightarrow> NetworkSliceInformationGetQuery \<Rightarrow> string nssf" where
  "access_type cfg param =
     (case q_Tai param of None \<Rightarrow> Ok AccessType_3GPP | Some t \<Rightarrow> GetAccessTypeFromConfig cfg t)"

text \<open>\<open>param.Tai == nil || util.CheckSupportedSnssaiInTa(s, *param.Tai)\<close>\<close>

definition supported_in_ta ::
    "NssfConfig \<Rightarrow> NetworkSliceInformationGetQuery \<Rightarrow> Snssai \<Rightarrow> bool nssf" where
  "supported_in_ta cfg param s =
     (case q_Tai param of None \<Rightarrow> Ok True | Some t \<Rightarrow> CheckSupportedSnssaiInTa cfg s t)"

definition needs_mapping :: "NetworkSliceInformationGetQuery \<Rightarrow> Snssai \<Rightarrow> bool" where
  "needs_mapping param s \<longleftrightarrow> q_HomePlmnId param \<noteq> None \<and> \<not> CheckStandardSnssai s"

text \<open>The configured mappings of the home PLMN; no home PLMN needs none, \<open>None\<close> is nil.\<close>

definition home_mappings ::
    "NssfConfig \<Rightarrow> NetworkSliceInformationGetQuery \<Rightarrow> MappingOfSnssai list option nssf" where
  "home_mappings cfg param =
     (case q_HomePlmnId param of None \<Rightarrow> Ok (Some []) | Some h \<Rightarrow> GetMappingOfPlmnFromConfig cfg h)"

text \<open>The S-NSSAI of the serving PLMN for a subscribed one, \<open>None\<close> when there is no mapping.\<close>

definition serving_snssai ::
    "snssai_eq \<Rightarrow> NetworkSliceInformationGetQuery \<Rightarrow> MappingOfSnssai list \<Rightarrow> Snssai \<Rightarrow>
     Snssai option nssf" where
  "serving_snssai eqf param mappings s =
     (if needs_mapping param s
      then obind (FindMappingWithHomeSnssai eqf s mappings) (\<lambda>r.
        case r of None \<Rightarrow> Ok None | Some m \<Rightarrow> omap Some (deref (ServingSnssai m)))
      else Ok (Some s))"

definition nsi_list :: "snssai_eq \<Rightarrow> NssfConfig \<Rightarrow> Snssai \<Rightarrow> NsiInformation list nssf" where
  "nsi_list eqf cfg s =
     omap (\<lambda>r. case r of None \<Rightarrow> [] | Some l \<Rightarrow> l) (GetNsiInformationListFromConfig eqf cfg s)"

section \<open>Default and configured slices\<close>

definition default_step ::
    "snssai_eq \<Rightarrow> NssfConfig \<Rightarrow> NetworkSliceInformationGetQuery \<Rightarrow> MappingOfSnssai list \<Rightarrow>
     SubscribedSnssai \<Rightarrow> AuthorizedNetworkSliceInfo \<Rightarrow> AuthorizedNetworkSliceInfo nssf" where
  "default_step eqf cfg param mappings subscribed info =
     (if \<not> DefaultIndication subscribed then Ok info
      else
        obind (deref (ss_SubscribedSnssai subscribed)) (\<lambda>s.
        obind (serving_snssai eqf param mappings s) (\<lambda>r.
          case r of
            None \<Rightarrow> Ok info
          | Some m \<Rightarrow>
              obind (supported_in_ta cfg param m) (\<lambda>ok.
                if \<not> ok then Ok info
                else
                  obind (nsi_list eqf cfg m) (\<lambda>nsi.
                  obind (access_type cfg param) (\<lambda>access.
                    Ok (AddAllowedSnssai
                          \<lparr>as_AllowedSnssai = Some m, as_NsiInformationList = nsi,
                           as_MappedHomeSnssai = (if needs_mapping param s then Some s else None)\<rparr>
                          access info)))))))"

definition useDefaultSubscribedSnssai ::
    "snssai_eq \<Rightarrow> NssfConfig \<Rightarrow> NetworkSliceInformationGetQuery \<Rightarrow> SliceInfoForRegistration \<Rightarrow>
     AuthorizedNetworkSliceInfo \<Rightarrow> AuthorizedNetworkSliceInfo nssf" where
  "useDefaultSubscribedSnssai eqf cfg param reg info =
     obind (home_mappings cfg param) (\<lambda>r.
       case r of
         None \<Rightarrow> Ok info
       | Some mappings \<Rightarrow> ofold (default_step eqf cfg param mappings) (SubscribedNssai reg) info)"

definition useDefaultConfiguredNssai ::
    "snssai_eq \<Rightarrow> SliceInfoForRegistration \<Rightarrow> AuthorizedNetworkSliceInfo \<Rightarrow>
     AuthorizedNetworkSliceInfo nssf" where
  "useDefaultConfiguredNssai eqf reg info =
     ofold (\<lambda>s info.
       if \<not> CheckStandardSnssai s then Ok info
       else
         obind (oexists (\<lambda>subscribed. omap (eqf s) (deref (ss_SubscribedSnssai subscribed))) (SubscribedNssai reg)) (\<lambda>hit.
           Ok (if hit
               then info\<lparr>ConfiguredNssai := ConfiguredNssai info @
                      [\<lparr>cs_ConfiguredSnssai = Some s, cs_MappedHomeSnssai = None\<rparr>]\<rparr>
               else info))) (RequestedNssai reg) info"

definition configured_step ::
    "snssai_eq \<Rightarrow> NssfConfig \<Rightarrow> NetworkSliceInformationGetQuery \<Rightarrow> MappingOfSnssai list \<Rightarrow>
     SubscribedSnssai \<Rightarrow> AuthorizedNetworkSliceInfo \<Rightarrow> AuthorizedNetworkSliceInfo nssf" where
  "configured_step eqf cfg param mappings subscribed info =
     obind (deref (ss_SubscribedSnssai subscribed)) (\<lambda>s.
     obind (serving_snssai eqf param mappings s) (\<lambda>r.
       case r of
         None \<Rightarrow> Ok info
       | Some m \<Rightarrow>
           obind (deref (q_Tai param)) (\<lambda>tai.
           obind (deref (tai_PlmnId tai)) (\<lambda>plmn.
           obind (CheckSupportedSnssaiInPlmn eqf cfg m plmn) (\<lambda>ok.
             Ok (if ok
                 then info\<lparr>ConfiguredNssai := ConfiguredNssai info @
                        [\<lparr>cs_ConfiguredSnssai = Some m,
                          cs_MappedHomeSnssai = (if needs_mapping param s then Some s else None)\<rparr>]\<rparr>
                 else info))))))"

definition setConfiguredNssai ::
    "snssai_eq \<Rightarrow> NssfConfig \<Rightarrow> NetworkSliceInformationGetQuery \<Rightarrow> SliceInfoForRegistration \<Rightarrow>
     AuthorizedNetworkSliceInfo \<Rightarrow> AuthorizedNetworkSliceInfo nssf" where
  "setConfiguredNssai eqf cfg param reg info =
     obind (home_mappings cfg param) (\<lambda>r.
       case r of
         None \<Rightarrow> Ok info
       | Some mappings \<Rightarrow> ofold (configured_step eqf cfg param mappings) (SubscribedNssai reg) info)"

section \<open>Registration\<close>

text \<open>One entry of the mapping request: a home S-NSSAI with its S-NSSAI in the serving PLMN.\<close>

definition mapping_step ::
    "snssai_eq \<Rightarrow> NssfConfig \<Rightarrow> NetworkSliceInformationGetQuery \<Rightarrow> MappingOfSnssai list \<Rightarrow> Snssai \<Rightarrow>
     AuthorizedNetworkSliceInfo \<Rightarrow> AuthorizedNetworkSliceInfo nssf" where
  "mapping_step eqf cfg param mappings s info =
     (if CheckStandardSnssai s then Ok info
      else
        obind (FindMappingWithHomeSnssai eqf s mappings) (\<lambda>r.
          case r of
            None \<Rightarrow> Ok info
          | Some m \<Rightarrow>
              obind (deref (ServingSnssai m)) (\<lambda>serving.
              obind (access_type cfg param) (\<lambda>access.
                Ok (AddAllowedSnssai
                      \<lparr>as_AllowedSnssai = Some serving, as_NsiInformationList = [],
                       as_MappedHomeSnssai = Some s\<rparr> access info)))))"

definition request_mapping ::
    "snssai_eq \<Rightarrow> NssfConfig \<Rightarrow> NetworkSliceInformationGetQuery \<Rightarrow> SliceInfoForRegistration \<Rightarrow>
     AuthorizedNetworkSliceInfo \<Rightarrow> selection nssf" where
  "request_mapping eqf cfg param reg info =
     (case q_HomePlmnId param of
        None \<Rightarrow>
          Ok (StatusBadRequest, None, Some home_plmn_for_mapping)
      | Some h \<Rightarrow>
          obind (GetMappingOfPlmnFromConfig cfg h) (\<lambda>r.
            case r of
              None \<Rightarrow> Ok (StatusOK, Some info, None)
            | Some mappings \<Rightarrow>
                obind (ofold (\<lambda>subscribed info.
                  obind (deref (ss_SubscribedSnssai subscribed)) (\<lambda>s. mapping_step eqf cfg param mappings s info))
                  (SubscribedNssai reg) info) (\<lambda>info.
                obind (ofold (mapping_step eqf cfg param mappings) (SNssaiForMapping reg) info) (\<lambda>info.
                  Ok (StatusOK, Some info, None)))))"

text \<open>The home S-NSSAI of a requested one, by the mapping the UE provides.\<close>

definition home_snssai ::
    "snssai_eq \<Rightarrow> NetworkSliceInformationGetQuery \<Rightarrow> SliceInfoForRegistration \<Rightarrow> Snssai \<Rightarrow>
     Snssai option nssf" where
  "home_snssai eqf param reg s =
     (if needs_mapping param s
      then obind (FindMappingWithServingSnssai eqf s (MappingOfNssai reg)) (\<lambda>r.
        case r of None \<Rightarrow> Ok None | Some m \<Rightarrow> omap Some (deref (HomeSnssai m)))
      else Ok (Some s))"

text \<open>
  One requested S-NSSAI. The state holds the answer, \<open>checkIfRequestAllowed\<close> and
  \<open>checkInvalidRequestedNssai\<close>.
\<close>

definition requested_step ::
    "snssai_eq \<Rightarrow> NssfConfig \<Rightarrow> NetworkSliceInformationGetQuery \<Rightarrow> SliceInfoForRegistration \<Rightarrow> Snssai \<Rightarrow>
     AuthorizedNetworkSliceInfo \<times> bool \<times> bool \<Rightarrow>
     (AuthorizedNetworkSliceInfo \<times> bool \<times> bool) nssf" where
  "requested_step eqf cfg param reg s st =
     (case st of (info, allowed, invalid) \<Rightarrow>
        obind (supported_in_ta cfg param s) (\<lambda>ok.
          if \<not> ok
          then Ok (info\<lparr>RejectedNssaiInTa := RejectedNssaiInTa info @ [s]\<rparr>, allowed, invalid)
          else
            obind (home_snssai eqf param reg s) (\<lambda>r.
              case r of
                None \<Rightarrow>
                  Ok (info\<lparr>RejectedNssaiInPlmn := RejectedNssaiInPlmn info @ [s]\<rparr>, allowed, True)
              | Some h \<Rightarrow>
                  obind (ofind (\<lambda>subscribed. omap (eqf h) (deref (ss_SubscribedSnssai subscribed))) (SubscribedNssai reg))
                    (\<lambda>hit.
                    case hit of
                      None \<Rightarrow>
                        Ok (info\<lparr>RejectedNssaiInPlmn := RejectedNssaiInPlmn info @ [s]\<rparr>, allowed, True)
                    | Some subscribed \<Rightarrow>
                        obind (nsi_list eqf cfg s) (\<lambda>nsi.
                        obind (if needs_mapping param s then omap Some (deref (ss_SubscribedSnssai subscribed))
                               else Ok None) (\<lambda>mapped.
                        obind (access_type cfg param) (\<lambda>access.
                          Ok (AddAllowedSnssai
                                \<lparr>as_AllowedSnssai = Some s, as_NsiInformationList = nsi,
                                 as_MappedHomeSnssai = mapped\<rparr> access info, True, invalid))))))))"

text \<open>The part after the checks of the query: allowed slices, then AMFs, then configured slices.\<close>

definition add_amfs ::
    "NssfConfig \<Rightarrow> NetworkSliceInformationGetQuery \<Rightarrow> AuthorizedNetworkSliceInfo \<Rightarrow>
     AuthorizedNetworkSliceInfo nssf" where
  "add_amfs cfg param info =
     (case q_Tai param of
        None \<Rightarrow> Ok info
      | Some tai \<Rightarrow>
          obind (CheckAllowedNssaiInAmfTa cfg (AllowedNssaiList info) (NfId param) tai) (\<lambda>ok.
            if ok then Ok info else AddAmfInformation cfg tai info))"

definition add_configured ::
    "snssai_eq \<Rightarrow> NssfConfig \<Rightarrow> NetworkSliceInformationGetQuery \<Rightarrow> SliceInfoForRegistration \<Rightarrow> bool \<Rightarrow>
     AuthorizedNetworkSliceInfo \<Rightarrow> AuthorizedNetworkSliceInfo nssf" where
  "add_configured eqf cfg param reg invalid info =
     (if DefaultConfiguredSnssaiInd reg then useDefaultConfiguredNssai eqf reg info
      else if invalid \<and> q_Tai param \<noteq> None then setConfiguredNssai eqf cfg param reg info
      else Ok info)"

definition select_allowed ::
    "snssai_eq \<Rightarrow> NssfConfig \<Rightarrow> NetworkSliceInformationGetQuery \<Rightarrow> SliceInfoForRegistration \<Rightarrow>
     AuthorizedNetworkSliceInfo \<Rightarrow> (AuthorizedNetworkSliceInfo \<times> bool) nssf" where
  "select_allowed eqf cfg param reg info =
     (if RequestedNssai reg \<noteq> []
      then
        obind (ofold (requested_step eqf cfg param reg) (RequestedNssai reg) (info, False, False)) (\<lambda>st.
          case st of (info, allowed, invalid) \<Rightarrow>
            if allowed then Ok (info, invalid)
            else omap (\<lambda>info. (info, invalid)) (useDefaultSubscribedSnssai eqf cfg param reg info))
      else omap (\<lambda>info. (info, True)) (useDefaultSubscribedSnssai eqf cfg param reg info))"

definition nsselectionForRegistration ::
    "snssai_eq \<Rightarrow> NssfConfig \<Rightarrow> NetworkSliceInformationGetQuery \<Rightarrow> selection nssf" where
  "nsselectionForRegistration eqf cfg param =
     obind (deref (SliceInfoRequestForRegistration param)) (\<lambda>reg.
     obind (case q_HomePlmnId param of None \<Rightarrow> Ok True | Some h \<Rightarrow> CheckSupportedHplmn cfg h) (\<lambda>hplmn.
       if \<not> hplmn
       then Ok (StatusOK, Some (emptyInfo\<lparr>RejectedNssaiInPlmn := RequestedNssai reg\<rparr>), None)
       else
     obind (case q_Tai param of None \<Rightarrow> Ok True | Some t \<Rightarrow> CheckSupportedTa cfg t) (\<lambda>ta.
       if \<not> ta
       then Ok (StatusOK, Some (emptyInfo\<lparr>RejectedNssaiInTa := RequestedNssai reg\<rparr>), None)
       else if RequestMapping reg then request_mapping eqf cfg param reg emptyInfo
       else
     obind (case q_Tai param of
              None \<Rightarrow> Ok True
            | Some t \<Rightarrow>
                if RequestedNssai reg = [] then Ok True
                else obind (deref (tai_PlmnId t)) (\<lambda>plmn.
                  CheckSupportedNssaiInPlmn eqf cfg (Nssai (RequestedNssai reg)) plmn)) (\<lambda>plmn_ok.
       if \<not> plmn_ok then Ok (StatusForbidden, None, Some snssai_not_supported)
       else
     obind (select_allowed eqf cfg param reg emptyInfo) (\<lambda>r.
       case r of (info, invalid) \<Rightarrow>
     obind (add_amfs cfg param info) (\<lambda>info.
     obind (add_configured eqf cfg param reg invalid info) (\<lambda>info.
       Ok (StatusOK, Some info, None))))))))"

section \<open>PDU sessions\<close>

text \<open>\<open>rand.Intn(n)\<close> panics for \<open>n = 0\<close>, and an index out of range panics.\<close>

definition selectNsiInformation :: "(nat \<Rightarrow> nat) \<Rightarrow> NsiInformation list \<Rightarrow> NsiInformation nssf" where
  "selectNsiInformation rnd l =
     (if l = [] then Panic
      else if rnd (length l) < length l then Ok (l ! rnd (length l)) else Panic)"

definition nsselectionForPduSession ::
    "snssai_eq \<Rightarrow> (nat \<Rightarrow> nat) \<Rightarrow> NssfConfig \<Rightarrow> NetworkSliceInformationGetQuery \<Rightarrow> selection nssf" where
  "nsselectionForPduSession eqf rnd cfg param =
     (let snssai = obind (deref (SliceInfoRequestForPduSession param)) (\<lambda>i. deref (pdu_SNssai i)) in
     obind (case q_HomePlmnId param of None \<Rightarrow> Ok True | Some h \<Rightarrow> CheckSupportedHplmn cfg h) (\<lambda>hplmn.
       if \<not> hplmn
       then obind snssai (\<lambda>s. Ok (StatusOK, Some (emptyInfo\<lparr>RejectedNssaiInPlmn := [s]\<rparr>), None))
       else
     obind (case q_Tai param of None \<Rightarrow> Ok True | Some t \<Rightarrow> CheckSupportedTa cfg t) (\<lambda>ta.
       if \<not> ta
       then obind snssai (\<lambda>s. Ok (StatusOK, Some (emptyInfo\<lparr>RejectedNssaiInTa := [s]\<rparr>), None))
       else
     obind (case q_Tai param of
              None \<Rightarrow> Ok True
            | Some t \<Rightarrow> obind snssai (\<lambda>s. obind (deref (tai_PlmnId t)) (\<lambda>plmn.
                CheckSupportedSnssaiInPlmn eqf cfg s plmn))) (\<lambda>plmn_ok.
       if \<not> plmn_ok then Ok (StatusForbidden, None, Some snssai_not_supported)
       else
     obind (deref (SliceInfoRequestForPduSession param)) (\<lambda>i.
       if q_HomePlmnId param \<noteq> None \<and> RoamingIndication i = RoamingIndication_NON_ROAMING
       then Ok (StatusBadRequest, None, Some home_plmn_contradicts)
       else if q_HomePlmnId param = None \<and> RoamingIndication i \<noteq> RoamingIndication_NON_ROAMING
       then Ok (StatusBadRequest, None, Some (home_plmn_missing (RoamingIndication i)))
       else
     obind (case q_Tai param of None \<Rightarrow> Ok True | Some t \<Rightarrow> obind snssai (\<lambda>s. CheckSupportedSnssaiInTa cfg s t)) (\<lambda>ok.
     obind snssai (\<lambda>s.
       if \<not> ok then Ok (StatusOK, Some (emptyInfo\<lparr>RejectedNssaiInTa := [s]\<rparr>), None)
       else
     obind (nsi_list eqf cfg s) (\<lambda>nsi.
       if nsi = [] then Ok (StatusOK, Some emptyInfo, None)
       else obind (selectNsiInformation rnd nsi) (\<lambda>n.
         Ok (StatusOK, Some (emptyInfo\<lparr>info_NsiInformation := Some n\<rparr>), None))))))))))"

section \<open>The handler\<close>

definition checkNfServiceConsumer :: "string \<Rightarrow> bool" where
  "checkNfServiceConsumer nfType \<longleftrightarrow> nfType = ''AMF'' \<or> nfType = ''NSSF''"

definition NSSelectionSliceInformationGet ::
    "snssai_eq \<Rightarrow> (nat \<Rightarrow> nat) \<Rightarrow> NssfConfig \<Rightarrow> NetworkSliceInformationGetQuery \<Rightarrow> answer nssf" where
  "NSSelectionSliceInformationGet eqf rnd cfg param =
     (if \<not> checkNfServiceConsumer (NfType param)
      then Ok (ProblemJson \<lparr>pd_Title = UNAUTHORIZED_CONSUMER, pd_Status = StatusForbidden,
             pd_Detail = ''`nf-type`:'' @ CHR 0x27 # NfType param @ CHR 0x27 #
               '' is not authorized to retrieve the slice selection information'',
             pd_Cause = [], pd_InvalidParams = []\<rparr>)
      else if q_Tai param = None \<and> q_HomePlmnId param = None
      then Ok (ProblemJson \<lparr>pd_Title = MANDATORY_IE_MISSING, pd_Status = StatusBadRequest,
             pd_Detail = ''Either `tai` or `home-plmn-id` should be provided'',
             pd_Cause = ''MANDATORY_IE_MISSING'',
             pd_InvalidParams = [(''tai'', []), (''home-plmn-id'', [])]\<rparr>)
      else
        obind (if SliceInfoRequestForRegistration param \<noteq> None
               then nsselectionForRegistration eqf cfg param
               else nsselectionForPduSession eqf rnd cfg param) (\<lambda>r.
          case r of (status, response, problem) \<Rightarrow>
            (case problem of
               Some p \<Rightarrow> Ok (ProblemJson p)
             | None \<Rightarrow>
                 (case response of
                    None \<Rightarrow> Ok (ProblemJson \<lparr>pd_Title = INTERNAL_ERROR, pd_Status = StatusInternalServerError,
                      pd_Detail = [], pd_Cause = [], pd_InvalidParams = []\<rparr>)
                  | Some info \<Rightarrow> Ok (InfoJson status info)))))"

end
