(* ===== verification/Nssf_Availability.thy ===== *)
theory Nssf_Availability
  imports Nssf_Selection Go_Strings
begin

text \<open>
  The NSSAI availability service of the NSSF
  (\<^verbatim>\<open>NFs/nssf/internal/sbi/processor/nssaiavailability_store.go\<close> and
  \<^verbatim>\<open>nssaiavailability_subscription.go\<close>): AMFs replace, patch and delete what they support per
  tracking area, and subscribe to changes. Every handler takes the configuration and returns the
  configuration it leaves and the HTTP answer.

  Encoding and decoding of JSON and the JSON patch library are the fields of \<open>json_env\<close>.
\<close>

section \<open>Answers\<close>

text \<open>A \<open>SubscriptionProblem\<close> has the text of the error as its detail.\<close>

datatype availability_answer =
    NoContent
  | AuthorizedInfo "AuthorizedNssaiAvailabilityData list"
  | SubscriptionCreated string "int option" "AuthorizedNssaiAvailabilityData list"
  | AvailabilityProblem ProblemDetails
  | SubscriptionProblem string nat nssf_error

definition StatusNotFound :: nat where "StatusNotFound = 404"
definition StatusConflict :: nat where "StatusConflict = 409"
definition MALFORMED_REQUEST :: string where "MALFORMED_REQUEST = ''Malformed request syntax''"

definition quoted :: "string \<Rightarrow> string" where
  "quoted s = CHR 0x27 # s @ [CHR 0x27]"

definition unknown_amf :: "string \<Rightarrow> ProblemDetails" where
  "unknown_amf nfId = \<lparr>pd_Title = UNSUPPORTED_RESOURCE, pd_Status = StatusNotFound,
     pd_Detail = ''AMF ID '' @ quoted nfId @ '' does not exist'', pd_Cause = [], pd_InvalidParams = []\<rparr>"

section \<open>Deleting and replacing\<close>

text \<open>\<open>append(l[:i], l[i+1:]...)\<close> at the first element that satisfies the condition, \<open>None\<close> without one.\<close>

primrec remove_first :: "('a \<Rightarrow> bool) \<Rightarrow> 'a list \<Rightarrow> 'a list option" where
  "remove_first p [] = None"
| "remove_first p (x # xs) = (if p x then Some xs else map_option ((#) x) (remove_first p xs))"

definition NssaiAvailabilityNfInstanceDelete ::
    "NssfConfig \<Rightarrow> string \<Rightarrow> NssfConfig \<times> availability_answer" where
  "NssaiAvailabilityNfInstanceDelete cfg nfId =
     (case remove_first (\<lambda>a. amf_NfId a = nfId) (AmfList cfg) of
        Some l \<Rightarrow> (cfg\<lparr>AmfList := l\<rparr>, NoContent)
      | None \<Rightarrow> (cfg, AvailabilityProblem (unknown_amf nfId)))"

text \<open>Assignment to the first AMF with the identifier, \<open>None\<close> without one.\<close>

primrec update_amf ::
    "string \<Rightarrow> (AmfConfig \<Rightarrow> AmfConfig) \<Rightarrow> AmfConfig list \<Rightarrow> AmfConfig list option" where
  "update_amf nfId f [] = None"
| "update_amf nfId f (a # as) =
     (if amf_NfId a = nfId then Some (f a # as) else map_option ((#) a) (update_amf nfId f as))"

definition NssaiAvailabilityNfInstanceUpdate ::
    "snssai_eq \<Rightarrow> NssfConfig \<Rightarrow> SupportedNssaiAvailabilityData list \<Rightarrow> string \<Rightarrow>
     (NssfConfig \<times> availability_answer) nssf" where
  "NssaiAvailabilityNfInstanceUpdate eqf cfg data nfId =
     obind (oall (\<lambda>d. obind (deref (sup_Tai d)) (\<lambda>t. obind (deref (tai_PlmnId t)) (\<lambda>plmn.
        CheckSupportedNssaiInPlmn eqf cfg (NssaiExt (sup_SupportedSnssaiList d)) plmn))) data) (\<lambda>ok.
       if \<not> ok then Ok (cfg, AvailabilityProblem snssai_not_supported)
       else
         let cfg' = cfg\<lparr>AmfList :=
               (case update_amf nfId (\<lambda>a. a\<lparr>amf_Data := data\<rparr>) (AmfList cfg) of
                  Some l \<Rightarrow> l
                | None \<Rightarrow> AmfList cfg @ [\<lparr>amf_NfId = nfId, amf_Data = data\<rparr>])\<rparr>
         in obind (ofold (\<lambda>d acc. obind (deref (sup_Tai d)) (\<lambda>t.
               (case AuthorizeOfAmfTaFromConfig cfg' nfId t of
                  Ok r \<Rightarrow> Ok (acc @ [r])
                | Err _ \<Rightarrow> Ok acc
                | Panic \<Rightarrow> Panic))) data []) (\<lambda>l.
           Ok (cfg', AuthorizedInfo l)))"

section \<open>Patching\<close>

datatype json = JNull | JBool bool | JNumber int | JString string | JArray "json list"
  | JMap "(string \<times> json) list"

record PatchItem =
  patch_Op :: string
  patch_Path :: string
  patch_From :: string
  patch_Value :: json

record 'p json_env =
  MarshalData :: "SupportedNssaiAvailabilityData list \<Rightarrow> string"
  DecodePatch :: "PatchItem list \<Rightarrow> string + 'p"
  Apply :: "'p \<Rightarrow> string \<Rightarrow> string + string"
  UnmarshalData :: "string \<Rightarrow> SupportedNssaiAvailabilityData list \<Rightarrow>
    SupportedNssaiAvailabilityData list \<times> string option"

definition dummyString :: string where "dummyString = ''DUMMY''"

text \<open>The placeholder that replaces an empty slice differentiator in the stored data.\<close>

definition fill_dummy :: "SupportedNssaiAvailabilityData \<Rightarrow> SupportedNssaiAvailabilityData" where
  "fill_dummy d = d\<lparr>sup_SupportedSnssaiList := map (\<lambda>s. if ext_Sd s = [] then s\<lparr>ext_Sd := dummyString\<rparr> else s)
     (sup_SupportedSnssaiList d)\<rparr>"

text \<open>\<open>bytes.ReplaceAll(s, old, "")\<close> for a non-empty \<open>old\<close>\<close>

function remove_all :: "string \<Rightarrow> string \<Rightarrow> string" where
  "remove_all pat s =
     (case s of
        [] \<Rightarrow> []
      | c # cs \<Rightarrow>
          if pat \<noteq> [] \<and> take (length pat) s = pat then remove_all pat (drop (length pat) s)
          else c # remove_all pat cs)"
  by pat_completeness auto
termination
  by (relation "measure (\<lambda>(_, s). length s)") auto

declare remove_all.simps [simp del]

definition add_empty_sd :: "PatchItem \<Rightarrow> PatchItem" where
  "add_empty_sd item =
     (case patch_Value item of
        JMap m \<Rightarrow>
          if map_of m ''sst'' \<noteq> None \<and> map_of m ''sd'' = None
          then item\<lparr>patch_Value := JMap (m @ [(''sd'', JString [])])\<rparr> else item
      | _ \<Rightarrow> item)"

definition patch_problem :: "string \<Rightarrow> nat \<Rightarrow> string \<Rightarrow> ProblemDetails" where
  "patch_problem title status detail =
     \<lparr>pd_Title = title, pd_Status = status, pd_Detail = detail, pd_Cause = [], pd_InvalidParams = []\<rparr>"

text \<open>
  The loop variable \<open>amfIdx\<close> shadows the variable of the same name, so the latter is still 0
  where the patched data are stored.
\<close>

definition NssaiAvailabilityNfInstancePatch ::
    "'p json_env \<Rightarrow> NssfConfig \<Rightarrow> PatchItem list \<Rightarrow> string \<Rightarrow> (NssfConfig \<times> availability_answer) nssf" where
  "NssaiAvailabilityNfInstancePatch env cfg items nfId =
     (case List.find (\<lambda>a. amf_NfId a = nfId) (AmfList cfg) of
        None \<Rightarrow> Ok (cfg, AvailabilityProblem (unknown_amf nfId))
      | Some a \<Rightarrow>
          let filled = map fill_dummy (amf_Data a);
              original = remove_all dummyString (MarshalData env filled);
              cfg' = cfg\<lparr>AmfList := the (update_amf nfId (\<lambda>a. a\<lparr>amf_Data := filled\<rparr>) (AmfList cfg))\<rparr>
          in (case DecodePatch env (map add_empty_sd items) of
                Inl e \<Rightarrow> Ok (cfg', AvailabilityProblem (patch_problem MALFORMED_REQUEST StatusBadRequest e))
              | Inr patch \<Rightarrow>
                  (case Apply env patch original of
                     Inl e \<Rightarrow> Ok (cfg', AvailabilityProblem (patch_problem INVALID_REQUEST StatusConflict e))
                   | Inr modified \<Rightarrow>
                       (case AmfList cfg' of
                          [] \<Rightarrow> Panic
                        | a0 # as \<Rightarrow>
                            (case UnmarshalData env modified (amf_Data a0) of (d, err) \<Rightarrow>
                               let cfg'' = cfg'\<lparr>AmfList := a0\<lparr>amf_Data := d\<rparr> # as\<rparr>
                               in (case err of
                                     Some e \<Rightarrow> Ok (cfg'', AvailabilityProblem
                                       (patch_problem INVALID_REQUEST StatusBadRequest e))
                                   | None \<Rightarrow>
                                       (case AuthorizeOfAmfFromConfig cfg'' nfId of
                                          Ok l \<Rightarrow> Ok (cfg'', AuthorizedInfo l)
                                        | Err _ \<Rightarrow> Ok (cfg'', AuthorizedInfo [])
                                        | Panic \<Rightarrow> Panic)))))))"

section \<open>Subscriptions\<close>

primrec unused_id :: "Subscription list \<Rightarrow> u32 \<Rightarrow> string nssf" where
  "unused_id [] idx = Ok (Itoa (unat idx))"
| "unused_id (s # ss) idx =
     (case Atoi (SubscriptionId s) of
        None \<Rightarrow> Err (AtoiError (SubscriptionId s))
      | Some i \<Rightarrow>
          if word_of_int i = idx
          then (if idx = - 1 then Err NoAvailableSubscriptionID else unused_id ss (idx + 1))
          else Ok (Itoa (unat idx)))"

definition getUnusedSubscriptionID :: "NssfConfig \<Rightarrow> string nssf" where
  "getUnusedSubscriptionID cfg = unused_id (Subscriptions cfg) 1"

definition NssaiAvailabilitySubscriptionCreate ::
    "NssfConfig \<Rightarrow> NssfEventSubscriptionCreateData \<Rightarrow> (NssfConfig \<times> availability_answer) nssf" where
  "NssaiAvailabilitySubscriptionCreate cfg createData =
     (case getUnusedSubscriptionID cfg of
        Err e \<Rightarrow> Ok (cfg, SubscriptionProblem UNSUPPORTED_RESOURCE StatusNotFound e)
      | Panic \<Rightarrow> Panic
      | Ok tempID \<Rightarrow>
          let cfg' = cfg\<lparr>Subscriptions := Subscriptions cfg @
                [\<lparr>SubscriptionId = tempID, SubscriptionData = Some createData\<rparr>]\<rparr>
          in obind (AuthorizeOfTaListFromConfig cfg' (TaiList createData)) (\<lambda>l.
               Ok (cfg', SubscriptionCreated tempID
                 (case Expiry createData of None \<Rightarrow> None | Some t \<Rightarrow> if t = 0 then None else Some t) l)))"

definition NssaiAvailabilitySubscriptionUnsubscribe ::
    "NssfConfig \<Rightarrow> string \<Rightarrow> NssfConfig \<times> availability_answer" where
  "NssaiAvailabilitySubscriptionUnsubscribe cfg subscriptionId =
     (case remove_first (\<lambda>s. SubscriptionId s = subscriptionId) (Subscriptions cfg) of
        Some l \<Rightarrow> (cfg\<lparr>Subscriptions := l\<rparr>, NoContent)
      | None \<Rightarrow> (cfg, AvailabilityProblem \<lparr>pd_Title = UNSUPPORTED_RESOURCE, pd_Status = StatusNotFound,
          pd_Detail = ''Subscription ID '' @ quoted subscriptionId @ '' is not available'',
          pd_Cause = [], pd_InvalidParams = []\<rparr>))"

section \<open>The availability data as a map\<close>

lemma find_update_amf:
  assumes "update_amf nfId f l = Some l'" and "\<And>a. amf_NfId (f a) = amf_NfId a"
  shows "List.find (\<lambda>a. amf_NfId a = k) l' =
    (if k = nfId then map_option f (List.find (\<lambda>a. amf_NfId a = nfId) l) else List.find (\<lambda>a. amf_NfId a = k) l)"
  using assms(1) by (induction l arbitrary: l') (auto simp: assms(2) split: if_splits)

lemma update_amf_None_iff: "update_amf nfId f l = None \<longleftrightarrow> List.find (\<lambda>a. amf_NfId a = nfId) l = None"
  by (induction l) auto

lemma update_amf_NfId:
  "update_amf nfId f l = Some l' \<Longrightarrow> (\<And>a. amf_NfId (f a) = amf_NfId a) \<Longrightarrow> map amf_NfId l' = map amf_NfId l"
  by (induction l arbitrary: l') (auto split: if_splits)

lemma update_amf_set:
  "update_amf nfId f l = Some l' \<Longrightarrow> b \<in> set l' \<Longrightarrow> b \<in> set l \<or> (\<exists>a\<in>set l. b = f a)"
  by (induction l arbitrary: l') (auto split: if_splits)

lemma remove_first_None_iff: "remove_first p l = None \<longleftrightarrow> \<not> list_ex p l"
  by (induction l) auto

lemma remove_first_Some:
  "remove_first p l = Some l' \<Longrightarrow> \<exists>xs x ys. l = xs @ x # ys \<and> p x \<and> \<not> list_ex p xs \<and> l' = xs @ ys"
proof (induction l arbitrary: l')
  case (Cons y l)
  show ?case
  proof (cases "p y")
    case True
    with Cons.prems have "y # l = [] @ y # l \<and> p y \<and> \<not> list_ex p [] \<and> l' = [] @ l"
      by simp
    then show ?thesis by blast
  next
    case False
    with Cons.prems obtain l'' where "remove_first p l = Some l''" "l' = y # l''"
      by auto
    with Cons.IH False obtain xs x ys where
      "y # l = (y # xs) @ x # ys \<and> p x \<and> \<not> list_ex p (y # xs) \<and> l' = (y # xs) @ ys"
      by fastforce
    then show ?thesis by blast
  qed
qed simp

lemma find_append: "List.find p (xs @ ys) = (case List.find p xs of None \<Rightarrow> List.find p ys | Some x \<Rightarrow> Some x)"
  by (induction xs) auto

lemma find_key_None: "k \<notin> f ` set l \<Longrightarrow> List.find (\<lambda>a. f a = k) l = None"
  by (induction l) auto

definition put_amf :: "NssfConfig \<Rightarrow> string \<Rightarrow> SupportedNssaiAvailabilityData list \<Rightarrow> NssfConfig" where
  "put_amf cfg nfId data = cfg\<lparr>AmfList :=
     (case update_amf nfId (\<lambda>a. a\<lparr>amf_Data := data\<rparr>) (AmfList cfg) of
        Some l \<Rightarrow> l | None \<Rightarrow> AmfList cfg @ [\<lparr>amf_NfId = nfId, amf_Data = data\<rparr>])\<rparr>"

definition delete_amf :: "NssfConfig \<Rightarrow> string \<Rightarrow> NssfConfig" where
  "delete_amf cfg nfId = fst (NssaiAvailabilityNfInstanceDelete cfg nfId)"

definition amfs_distinct :: "NssfConfig \<Rightarrow> bool" where
  "amfs_distinct cfg \<longleftrightarrow> distinct (map amf_NfId (AmfList cfg))"

lemma amf_of_put: "amf_of (put_amf cfg nfId data) = (amf_of cfg)(nfId \<mapsto> data)"
proof (cases "update_amf nfId (\<lambda>a. a\<lparr>amf_Data := data\<rparr>) (AmfList cfg)")
  case None
  then have "List.find (\<lambda>a. amf_NfId a = nfId) (AmfList cfg) = None"
    by (simp only: update_amf_None_iff)
  with None show ?thesis
    by (auto simp: put_amf_def amf_of_def fun_eq_iff find_append split: option.split)
next
  case (Some l)
  then have "List.find (\<lambda>a. amf_NfId a = nfId) (AmfList cfg) \<noteq> None"
    using update_amf_None_iff by (metis option.distinct(1))
  with Some find_update_amf [OF Some] show ?thesis
    by (auto simp: put_amf_def amf_of_def fun_eq_iff)
qed

lemma put_amf_distinct: "amfs_distinct cfg \<Longrightarrow> amfs_distinct (put_amf cfg nfId data)"
proof (cases "update_amf nfId (\<lambda>a. a\<lparr>amf_Data := data\<rparr>) (AmfList cfg)")
  case None
  then have "nfId \<notin> amf_NfId ` set (AmfList cfg)"
    unfolding update_amf_None_iff find_None_iff by auto
  moreover assume "amfs_distinct cfg"
  ultimately show ?thesis
    using None by (simp add: put_amf_def amfs_distinct_def)
next
  case (Some l)
  moreover assume "amfs_distinct cfg"
  ultimately show ?thesis
    using update_amf_NfId [OF Some] by (simp add: put_amf_def amfs_distinct_def)
qed

lemma delete_amf_cases:
  obtains "amf_of cfg nfId = None" and "delete_amf cfg nfId = cfg"
  | xs a ys where "AmfList cfg = xs @ a # ys" and "amf_NfId a = nfId"
      and "\<not> list_ex (\<lambda>a. amf_NfId a = nfId) xs" and "delete_amf cfg nfId = cfg\<lparr>AmfList := xs @ ys\<rparr>"
proof (cases "remove_first (\<lambda>a. amf_NfId a = nfId) (AmfList cfg)")
  case None
  then have "amf_of cfg nfId = None"
    unfolding remove_first_None_iff by (simp add: amf_of_def find_None_iff_list_ex)
  with None that(1) show ?thesis
    by (simp add: delete_amf_def NssaiAvailabilityNfInstanceDelete_def)
next
  case (Some l)
  with remove_first_Some [OF this] that(2) show ?thesis
    by (auto simp: delete_amf_def NssaiAvailabilityNfInstanceDelete_def)
qed

lemma amf_of_delete: "amfs_distinct cfg \<Longrightarrow> amf_of (delete_amf cfg nfId) = (amf_of cfg)(nfId := None)"
proof (cases rule: delete_amf_cases [of cfg nfId])
  case (2 xs a ys)
  moreover assume "amfs_distinct cfg"
  ultimately have "List.find (\<lambda>a. amf_NfId a = nfId) xs = None" "List.find (\<lambda>a. amf_NfId a = nfId) ys = None"
    by (simp_all add: amfs_distinct_def find_key_None)
  with 2 show ?thesis
    by (auto simp: amf_of_def fun_eq_iff find_append split: option.split)
qed auto

lemma delete_amf_distinct: "amfs_distinct cfg \<Longrightarrow> amfs_distinct (delete_amf cfg nfId)"
  by (cases rule: delete_amf_cases [of cfg nfId]) (auto simp: amfs_distinct_def)

end
