(* ===== verification/Nssf_Selection_Props.thy ===== *)
theory Nssf_Selection_Props
  imports Nssf_Selection
begin

text \<open>
  What slice selection grants. The requested S-NSSAIs are split without loss into allowed and
  rejected ones; only supported and subscribed S-NSSAIs are allowed; AMFs that are named can serve
  all of them. The statements are over \<open>in_ta\<close>, \<open>subscription\<close> and the other functions of the first
  section, which say in terms of the lists of the configuration what the loops of the code look for.
\<close>

section \<open>What the loops look for\<close>

type_synonym query = NetworkSliceInformationGetQuery

definition in_ta :: "NssfConfig \<Rightarrow> query \<Rightarrow> Snssai \<Rightarrow> bool" where
  "in_ta cfg param s \<longleftrightarrow> (case q_Tai param of None \<Rightarrow> True | Some t \<Rightarrow> snssai_in_ta cfg t s)"

definition access_of :: "NssfConfig \<Rightarrow> query \<Rightarrow> string" where
  "access_of cfg param =
     (case Option.bind (q_Tai param) (ta_of cfg) of
        None \<Rightarrow> AccessType_3GPP | Some t \<Rightarrow> the (ta_AccessType t))"

definition nsis :: "snssai_eq \<Rightarrow> NssfConfig \<Rightarrow> Snssai \<Rightarrow> NsiInformation list" where
  "nsis eqf cfg s = (case nsi_of eqf cfg s of None \<Rightarrow> [] | Some l \<Rightarrow> l)"

definition subscribed_snssais :: "SliceInfoForRegistration \<Rightarrow> Snssai list" where
  "subscribed_snssais reg = map (\<lambda>x. the (ss_SubscribedSnssai x)) (SubscribedNssai reg)"

text \<open>The home S-NSSAI of a requested one, and the subscribed S-NSSAI it stands for.\<close>

definition home_of :: "snssai_eq \<Rightarrow> query \<Rightarrow> SliceInfoForRegistration \<Rightarrow> Snssai \<Rightarrow> Snssai option" where
  "home_of eqf param reg s =
     (if needs_mapping param s
      then Option.bind (List.find (\<lambda>m. eqf (the (ServingSnssai m)) s) (MappingOfNssai reg)) HomeSnssai
      else Some s)"

definition subscription :: "snssai_eq \<Rightarrow> query \<Rightarrow> SliceInfoForRegistration \<Rightarrow> Snssai \<Rightarrow> Snssai option" where
  "subscription eqf param reg s =
     Option.bind (home_of eqf param reg s) (\<lambda>h. List.find (eqf h) (subscribed_snssais reg))"

definition grant :: "snssai_eq \<Rightarrow> NssfConfig \<Rightarrow> query \<Rightarrow> SliceInfoForRegistration \<Rightarrow> Snssai \<Rightarrow> AllowedSnssai option" where
  "grant eqf cfg param reg s =
     (if in_ta cfg param s
      then map_option (\<lambda>h. \<lparr>as_AllowedSnssai = Some s, as_NsiInformationList = nsis eqf cfg s,
                            as_MappedHomeSnssai = (if needs_mapping param s then Some h else None)\<rparr>)
             (subscription eqf param reg s)
      else None)"

text \<open>The serving S-NSSAI of a subscribed one, and what a subscription marked as default grants.\<close>

definition serving_of :: "snssai_eq \<Rightarrow> query \<Rightarrow> MappingOfSnssai list \<Rightarrow> Snssai \<Rightarrow> Snssai option" where
  "serving_of eqf param mappings s =
     (if needs_mapping param s
      then Option.bind (List.find (\<lambda>m. eqf (the (HomeSnssai m)) s) mappings) ServingSnssai
      else Some s)"

definition default_grant ::
    "snssai_eq \<Rightarrow> NssfConfig \<Rightarrow> query \<Rightarrow> MappingOfSnssai list \<Rightarrow> SubscribedSnssai \<Rightarrow> AllowedSnssai option" where
  "default_grant eqf cfg param mappings x =
     (let s = the (ss_SubscribedSnssai x) in
      if DefaultIndication x
      then Option.bind (serving_of eqf param mappings s) (\<lambda>m.
        if in_ta cfg param m
        then Some \<lparr>as_AllowedSnssai = Some m, as_NsiInformationList = nsis eqf cfg m,
                   as_MappedHomeSnssai = (if needs_mapping param s then Some s else None)\<rparr>
        else None)
      else None)"

definition query_mappings :: "NssfConfig \<Rightarrow> query \<Rightarrow> MappingOfSnssai list option" where
  "query_mappings cfg param =
     (case q_HomePlmnId param of None \<Rightarrow> Some [] | Some h \<Rightarrow> mappings_of cfg h)"

definition granted :: "snssai_eq \<Rightarrow> NssfConfig \<Rightarrow> query \<Rightarrow> SliceInfoForRegistration \<Rightarrow> AllowedSnssai list" where
  "granted eqf cfg param reg = List.map_filter (grant eqf cfg param reg) (RequestedNssai reg)"

definition defaults :: "snssai_eq \<Rightarrow> NssfConfig \<Rightarrow> query \<Rightarrow> SliceInfoForRegistration \<Rightarrow> AllowedSnssai list" where
  "defaults eqf cfg param reg =
     (case query_mappings cfg param of
        None \<Rightarrow> []
      | Some mappings \<Rightarrow> List.map_filter (default_grant eqf cfg param mappings) (SubscribedNssai reg))"

text \<open>All slices of an answer have one access type; the first eight are kept.\<close>

definition allowed_list :: "string \<Rightarrow> AllowedSnssai list \<Rightarrow> AllowedNssai list" where
  "allowed_list access as =
     (if as = [] then []
      else [\<lparr>an_AllowedSnssaiList = take MAX_ALLOWED_SNSSAI as, an_AccessType = access\<rparr>])"

lemma add_allowed_list:
  "add_allowed a access (allowed_list access as) = allowed_list access (as @ [a])"
  by (auto simp: allowed_list_def MAX_ALLOWED_SNSSAI_def min_def)

section \<open>Queries without nil pointers\<close>

definition registration_ok :: "SliceInfoForRegistration \<Rightarrow> bool" where
  "registration_ok reg \<longleftrightarrow>
     list_all (\<lambda>x. ss_SubscribedSnssai x \<noteq> None) (SubscribedNssai reg) \<and>
     list_all mapping_ok (MappingOfNssai reg)"

lemma supported_in_ta_eq: "config_ok cfg \<Longrightarrow> supported_in_ta cfg param s = Ok (in_ta cfg param s)"
  by (simp add: supported_in_ta_def in_ta_def CheckSupportedSnssaiInTa_eq split: option.splits)

lemma access_type_eq: "config_ok cfg \<Longrightarrow> access_type cfg param = Ok (access_of cfg param)"
  by (simp add: access_type_def access_of_def GetAccessTypeFromConfig_eq split: option.splits)

lemma nsi_list_eq: "config_ok cfg \<Longrightarrow> nsi_list eqf cfg s = Ok (nsis eqf cfg s)"
  by (simp add: nsi_list_def nsis_def GetNsiInformationListFromConfig_eq)

lemma home_mappings_eq: "config_ok cfg \<Longrightarrow> home_mappings cfg param = Ok (query_mappings cfg param)"
  by (simp add: home_mappings_def query_mappings_def GetMappingOfPlmnFromConfig_eq split: option.splits)

lemma query_mappings_ok:
  "config_ok cfg \<Longrightarrow> query_mappings cfg param = Some l \<Longrightarrow> list_all mapping_ok l"
  by (auto simp: query_mappings_def mappings_of_ok split: option.splits)

lemma find_mapping_ok:
  "list_all mapping_ok l \<Longrightarrow> List.find p l = Some m \<Longrightarrow> ServingSnssai m \<noteq> None \<and> HomeSnssai m \<noteq> None"
  by (auto simp: list_all_iff mapping_ok_def dest!: find_Some_in)

lemma serving_snssai_eq:
  "list_all mapping_ok l \<Longrightarrow> serving_snssai eqf param l s = Ok (serving_of eqf param l s)"
  by (auto simp: serving_snssai_def serving_of_def find_mapping_eq deref_the
      dest: find_mapping_ok split: option.splits)

lemma home_snssai_eq:
  "registration_ok reg \<Longrightarrow> home_snssai eqf param reg s = Ok (home_of eqf param reg s)"
  by (auto simp: home_snssai_def home_of_def registration_ok_def find_mapping_eq deref_the
      dest: find_mapping_ok split: option.splits)

lemma find_subscribed_eq:
  assumes "registration_ok reg"
  shows "ofind (\<lambda>x. omap (eqf h) (deref (ss_SubscribedSnssai x))) (SubscribedNssai reg) =
    Ok (List.find (\<lambda>x. eqf h (the (ss_SubscribedSnssai x))) (SubscribedNssai reg))"
  by (rule ofind_Ok) (use assms in \<open>simp add: registration_ok_def list_all_iff deref_the\<close>)

lemma find_map: "List.find p (map f xs) = map_option f (List.find (\<lambda>x. p (f x)) xs)"
  by (induction xs) auto

lemmas selection_eqs = supported_in_ta_eq access_type_eq nsi_list_eq home_mappings_eq
  serving_snssai_eq home_snssai_eq find_subscribed_eq

section \<open>The requested S-NSSAIs\<close>

text \<open>The answer after some requested S-NSSAIs, as a function of the ones seen.\<close>

definition after_requests ::
    "snssai_eq \<Rightarrow> NssfConfig \<Rightarrow> query \<Rightarrow> SliceInfoForRegistration \<Rightarrow> Snssai list \<Rightarrow>
     AuthorizedNetworkSliceInfo \<times> bool \<times> bool" where
  "after_requests eqf cfg param reg l =
     (emptyInfo\<lparr>AllowedNssaiList := allowed_list (access_of cfg param) (List.map_filter (grant eqf cfg param reg) l),
        RejectedNssaiInTa := filter (\<lambda>s. \<not> in_ta cfg param s) l,
        RejectedNssaiInPlmn := filter (\<lambda>s. in_ta cfg param s \<and> subscription eqf param reg s = None) l\<rparr>,
      list_ex (\<lambda>s. grant eqf cfg param reg s \<noteq> None) l,
      list_ex (\<lambda>s. in_ta cfg param s \<and> subscription eqf param reg s = None) l)"

lemma requested_step_eq:
  assumes "config_ok cfg" and "registration_ok reg"
  shows "requested_step eqf cfg param reg s (after_requests eqf cfg param reg l) =
    Ok (after_requests eqf cfg param reg (l @ [s]))"
proof (cases "in_ta cfg param s")
  case False
  then show ?thesis
    using assms by (simp add: requested_step_def after_requests_def selection_eqs grant_def List.map_filter_def)
next
  case in_ta: True
  show ?thesis
  proof (cases "home_of eqf param reg s")
    case None
    with in_ta show ?thesis
      using assms by (simp add: requested_step_def after_requests_def selection_eqs grant_def
          subscription_def List.map_filter_def)
  next
    case h: (Some h)
    show ?thesis
    proof (cases "List.find (\<lambda>x. eqf h (the (ss_SubscribedSnssai x))) (SubscribedNssai reg)")
      case None
      with in_ta h show ?thesis
        using assms by (simp add: requested_step_def after_requests_def selection_eqs grant_def
            subscription_def subscribed_snssais_def find_map List.map_filter_def)
    next
      case (Some x)
      then have "ss_SubscribedSnssai x \<noteq> None"
        using assms(2) by (auto simp: registration_ok_def list_all_iff dest!: find_Some_in)
      with in_ta h Some show ?thesis
        using assms by (auto simp: requested_step_def after_requests_def selection_eqs grant_def
            subscription_def subscribed_snssais_def find_map List.map_filter_def
            AddAllowedSnssai_def add_allowed_list)
    qed
  qed
qed

lemma requested_loop_eq:
  assumes "config_ok cfg" and "registration_ok reg"
  shows "ofold (requested_step eqf cfg param reg) l' (after_requests eqf cfg param reg l) =
    Ok (after_requests eqf cfg param reg (l @ l'))"
  by (induction l' arbitrary: l) (simp_all add: requested_step_eq [OF assms])

lemma after_requests_Nil: "after_requests eqf cfg param reg [] = (emptyInfo, False, False)"
  by (simp add: after_requests_def allowed_list_def emptyInfo_def List.map_filter_def)

section \<open>Default, AMF and configured parts\<close>

lemma default_step_eq:
  assumes "config_ok cfg" and "list_all mapping_ok mappings" and "ss_SubscribedSnssai x \<noteq> None"
  shows "default_step eqf cfg param mappings x (info\<lparr>AllowedNssaiList := allowed_list (access_of cfg param) as\<rparr>) =
    Ok (info\<lparr>AllowedNssaiList := allowed_list (access_of cfg param)
          (as @ List.map_filter (default_grant eqf cfg param mappings) [x])\<rparr>)"
  using assms
  by (auto simp: default_step_def selection_eqs default_grant_def List.map_filter_def deref_the
      AddAllowedSnssai_def add_allowed_list Let_def split: option.splits)

lemma default_loop_eq:
  assumes "config_ok cfg" and "list_all mapping_ok mappings"
    and "list_all (\<lambda>x. ss_SubscribedSnssai x \<noteq> None) xs"
  shows "ofold (default_step eqf cfg param mappings) xs
      (info\<lparr>AllowedNssaiList := allowed_list (access_of cfg param) as\<rparr>) =
    Ok (info\<lparr>AllowedNssaiList := allowed_list (access_of cfg param)
          (as @ List.map_filter (default_grant eqf cfg param mappings) xs)\<rparr>)"
  using assms(3)
proof (induction xs arbitrary: as)
  case (Cons x xs)
  then show ?case
    by (simp add: default_step_eq [OF assms(1,2)] del: not_None_eq split: option.split)
qed simp

lemma useDefaultSubscribedSnssai_eq:
  assumes "config_ok cfg" and "registration_ok reg"
    and "AllowedNssaiList info = allowed_list (access_of cfg param) as"
  shows "useDefaultSubscribedSnssai eqf cfg param reg info =
    Ok (info\<lparr>AllowedNssaiList := allowed_list (access_of cfg param) (as @ defaults eqf cfg param reg)\<rparr>)"
proof (cases "query_mappings cfg param")
  case None
  with assms show ?thesis
    by (simp add: useDefaultSubscribedSnssai_def selection_eqs defaults_def)
next
  case (Some mappings)
  have "info\<lparr>AllowedNssaiList := allowed_list (access_of cfg param) as\<rparr> = info"
    using assms(3) by simp
  then show ?thesis
    using Some assms(1,2) default_loop_eq [OF assms(1) query_mappings_ok [OF assms(1) Some],
        where xs = "SubscribedNssai reg" and as = as and info = info and eqf = eqf and param = param]
    by (simp add: useDefaultSubscribedSnssai_def selection_eqs defaults_def registration_ok_def)
qed

definition configured_grant ::
    "snssai_eq \<Rightarrow> NssfConfig \<Rightarrow> query \<Rightarrow> PlmnId \<Rightarrow> MappingOfSnssai list \<Rightarrow> SubscribedSnssai \<Rightarrow> ConfiguredSnssai option" where
  "configured_grant eqf cfg param plmn mappings x =
     (let s = the (ss_SubscribedSnssai x) in
      Option.bind (serving_of eqf param mappings s) (\<lambda>m.
        if snssai_in_plmn eqf cfg plmn m
        then Some \<lparr>cs_ConfiguredSnssai = Some m,
                   cs_MappedHomeSnssai = (if needs_mapping param s then Some s else None)\<rparr>
        else None))"

lemma configured_loop_eq:
  assumes "config_ok cfg" and "list_all mapping_ok mappings"
    and "q_Tai param = Some tai" and "tai_PlmnId tai = Some plmn"
    and "list_all (\<lambda>x. ss_SubscribedSnssai x \<noteq> None) xs"
  shows "ofold (configured_step eqf cfg param mappings) xs info =
    Ok (info\<lparr>ConfiguredNssai := ConfiguredNssai info @
          List.map_filter (configured_grant eqf cfg param plmn mappings) xs\<rparr>)"
  using assms(5)
proof (induction xs arbitrary: info)
  case (Cons x xs)
  have "configured_step eqf cfg param mappings x info =
    Ok (info\<lparr>ConfiguredNssai := ConfiguredNssai info @
          List.map_filter (configured_grant eqf cfg param plmn mappings) [x]\<rparr>)"
    using assms(1-4) Cons.prems
    by (auto simp: configured_step_def selection_eqs configured_grant_def List.map_filter_def deref_the
      CheckSupportedSnssaiInPlmn_eq Let_def split: option.splits)
  with Cons show ?case
    by (cases "configured_grant eqf cfg param plmn mappings x") simp_all
qed simp

definition configured ::
    "snssai_eq \<Rightarrow> NssfConfig \<Rightarrow> query \<Rightarrow> SliceInfoForRegistration \<Rightarrow> bool \<Rightarrow> ConfiguredSnssai list" where
  "configured eqf cfg param reg invalid =
     (if DefaultConfiguredSnssaiInd reg
      then map (\<lambda>s. \<lparr>cs_ConfiguredSnssai = Some s, cs_MappedHomeSnssai = None\<rparr>)
             (filter (\<lambda>s. CheckStandardSnssai s \<and> list_ex (eqf s) (subscribed_snssais reg)) (RequestedNssai reg))
      else if invalid \<and> q_Tai param \<noteq> None
      then (case query_mappings cfg param of
              None \<Rightarrow> []
            | Some mappings \<Rightarrow>
                List.map_filter (configured_grant eqf cfg param (the (tai_PlmnId (the (q_Tai param)))) mappings)
                  (SubscribedNssai reg))
      else [])"

lemma useDefaultConfiguredNssai_eq:
  assumes "registration_ok reg"
  shows "useDefaultConfiguredNssai eqf reg info = Ok (info\<lparr>ConfiguredNssai := ConfiguredNssai info @
      map (\<lambda>s. \<lparr>cs_ConfiguredSnssai = Some s, cs_MappedHomeSnssai = None\<rparr>)
        (filter (\<lambda>s. CheckStandardSnssai s \<and> list_ex (eqf s) (subscribed_snssais reg)) (RequestedNssai reg))\<rparr>)"
proof -
  have hit: "oexists (\<lambda>x. omap (eqf s) (deref (ss_SubscribedSnssai x))) (SubscribedNssai reg) =
      Ok (list_ex (eqf s) (subscribed_snssais reg))" for s
    using assms by (subst oexists_Ok [where q = "\<lambda>x. eqf s (the (ss_SubscribedSnssai x))"])
      (auto simp: registration_ok_def list_all_iff deref_the subscribed_snssais_def list_ex_iff)
  have "ofold (\<lambda>s info. if \<not> CheckStandardSnssai s then Ok info
      else obind (oexists (\<lambda>x. omap (eqf s) (deref (ss_SubscribedSnssai x))) (SubscribedNssai reg)) (\<lambda>hit.
        Ok (if hit then info\<lparr>ConfiguredNssai := ConfiguredNssai info @
              [\<lparr>cs_ConfiguredSnssai = Some s, cs_MappedHomeSnssai = None\<rparr>]\<rparr> else info))) l info =
    Ok (info\<lparr>ConfiguredNssai := ConfiguredNssai info @
      map (\<lambda>s. \<lparr>cs_ConfiguredSnssai = Some s, cs_MappedHomeSnssai = None\<rparr>)
        (filter (\<lambda>s. CheckStandardSnssai s \<and> list_ex (eqf s) (subscribed_snssais reg)) l)\<rparr>)" for l
    by (induction l arbitrary: info) (simp_all add: hit)
  then show ?thesis
    unfolding useDefaultConfiguredNssai_def .
qed

lemma add_configured_eq:
  assumes "config_ok cfg" and "registration_ok reg"
    and "\<And>tai. q_Tai param = Some tai \<Longrightarrow> tai_PlmnId tai \<noteq> None"
  shows "add_configured eqf cfg param reg invalid info =
    Ok (info\<lparr>ConfiguredNssai := ConfiguredNssai info @ configured eqf cfg param reg invalid\<rparr>)"
proof (cases "\<not> DefaultConfiguredSnssaiInd reg \<and> invalid \<and> q_Tai param \<noteq> None")
  case False
  then show ?thesis
    using useDefaultConfiguredNssai_eq [OF assms(2)] by (auto simp: add_configured_def configured_def)
next
  case True
  then obtain tai plmn where tai: "q_Tai param = Some tai" "tai_PlmnId tai = Some plmn"
    using assms(3) by blast
  show ?thesis
  proof (cases "query_mappings cfg param")
    case (Some mappings)
    from configured_loop_eq [OF assms(1) query_mappings_ok [OF assms(1) Some] tai] Some assms(1,2) True tai
    show ?thesis
      by (simp add: add_configured_def configured_def setConfiguredNssai_def selection_eqs registration_ok_def)
  qed (use True assms in \<open>auto simp: add_configured_def configured_def setConfiguredNssai_def selection_eqs\<close>)
qed

text \<open>The AMF part: the first AMF set that can serve the UE, or else all AMFs that can.\<close>

definition can_serve :: "AuthorizedNetworkSliceInfo \<Rightarrow> Tai \<Rightarrow> SupportedNssaiAvailabilityData list \<Rightarrow> bool" where
  "can_serve info tai l \<longleftrightarrow> list_all (\<lambda>s. available tai l (the s)) (allowed_snssais (AllowedNssaiList info))"

definition amf_choice :: "NssfConfig \<Rightarrow> Tai \<Rightarrow> AuthorizedNetworkSliceInfo \<Rightarrow> AuthorizedNetworkSliceInfo" where
  "amf_choice cfg tai info =
     (if AllowedNssaiList info = [] then info
      else case List.find (\<lambda>s. can_serve info tai (set_Data s)) (AmfSetList cfg) of
        Some s \<Rightarrow>
          if set_AmfList s \<noteq> [] then info\<lparr>CandidateAmfList := CandidateAmfList info @ set_AmfList s\<rparr>
          else info\<lparr>TargetAmfSet := AmfSetId s, NrfAmfSet := set_NrfAmfSet s\<rparr>
      | None \<Rightarrow>
          info\<lparr>CandidateAmfList := CandidateAmfList info @
            map amf_NfId (filter (\<lambda>a. can_serve info tai (amf_Data a)) (AmfList cfg))\<rparr>)"

lemma candidate_loop_eq:
  assumes "\<And>a. a \<in> set l \<Longrightarrow> serves allowed tai (amf_Data a) = Ok (p a)"
  shows "ofold (\<lambda>a info'. obind (serves allowed tai (amf_Data a)) (\<lambda>b.
        Ok (if b then info'\<lparr>CandidateAmfList := CandidateAmfList info' @ [amf_NfId a]\<rparr> else info'))) l info =
    Ok (info\<lparr>CandidateAmfList := CandidateAmfList info @ map amf_NfId (filter p l)\<rparr>)"
  using assms
proof (induction l arbitrary: info)
  case (Cons a l)
  then have "serves allowed tai (amf_Data a) = Ok (p a)"
    by simp
  with Cons show ?case
    by simp
qed simp

lemma AddAmfInformation_eq:
  assumes "config_ok cfg" and "None \<notin> set (allowed_snssais (AllowedNssaiList info))"
  shows "AddAmfInformation cfg tai info = Ok (amf_choice cfg tai info)"
proof -
  have sets: "ofind (\<lambda>s. serves (AllowedNssaiList info) tai (set_Data s)) (AmfSetList cfg) =
      Ok (List.find (\<lambda>s. can_serve info tai (set_Data s)) (AmfSetList cfg))"
    by (rule ofind_Ok) (simp add: serves_eq config_okD(3) [OF assms(1)] assms(2) can_serve_def)
  have "serves (AllowedNssaiList info) tai (amf_Data a) = Ok (can_serve info tai (amf_Data a))"
    if "a \<in> set (AmfList cfg)" for a
    using that by (simp add: serves_eq config_okD(4) [OF assms(1)] assms(2) can_serve_def)
  note amfs = candidate_loop_eq [OF this]
  show ?thesis
    by (simp add: AddAmfInformation_def amf_choice_def sets amfs split: option.split)
qed

lemma CheckAllowedNssaiInAmfTa_eq:
  assumes "config_ok cfg" and "None \<notin> set (allowed_snssais as)"
  shows "CheckAllowedNssaiInAmfTa cfg as nfId tai =
    Ok (list_all (\<lambda>s. case amf_of cfg nfId of None \<Rightarrow> False | Some l \<Rightarrow> available tai l (the s)) (allowed_snssais as))"
proof -
  let ?p = "\<lambda>s. case amf_of cfg nfId of None \<Rightarrow> False | Some l \<Rightarrow> available tai l (the s)"
  have "oall (\<lambda>a. obind (deref (as_AllowedSnssai a)) (\<lambda>s. CheckSupportedSnssaiInAmfTa cfg s nfId tai))
      (an_AllowedSnssaiList n) = Ok (list_all (\<lambda>a. ?p (as_AllowedSnssai a)) (an_AllowedSnssaiList n))"
    if "n \<in> set as" for n
    by (rule oall_Ok, subst deref_the, use that assms in \<open>force simp: allowed_snssais_def\<close>)
      (simp add: CheckSupportedSnssaiInAmfTa_eq assms(1))
  then have "CheckAllowedNssaiInAmfTa cfg as nfId tai =
      Ok (list_all (\<lambda>n. list_all (\<lambda>a. ?p (as_AllowedSnssai a)) (an_AllowedSnssaiList n)) as)"
    unfolding CheckAllowedNssaiInAmfTa_def by (rule oall_Ok)
  then show ?thesis
    by (simp add: allowed_snssais_def list_all_iff)
qed

definition own_amf_serves :: "NssfConfig \<Rightarrow> query \<Rightarrow> AuthorizedNetworkSliceInfo \<Rightarrow> bool" where
  "own_amf_serves cfg param info \<longleftrightarrow>
     (case q_Tai param of None \<Rightarrow> True
      | Some tai \<Rightarrow> list_all (\<lambda>s. case amf_of cfg (NfId param) of None \<Rightarrow> False
                     | Some l \<Rightarrow> available tai l (the s)) (allowed_snssais (AllowedNssaiList info)))"

lemma add_amfs_eq:
  assumes "config_ok cfg" and "None \<notin> set (allowed_snssais (AllowedNssaiList info))"
  shows "add_amfs cfg param info =
    Ok (if own_amf_serves cfg param info then info else amf_choice cfg (the (q_Tai param)) info)"
  using assms
  by (simp add: add_amfs_def own_amf_serves_def CheckAllowedNssaiInAmfTa_eq AddAmfInformation_eq
      split: option.split)

section \<open>Requests for mappings\<close>

definition mapping_grant :: "snssai_eq \<Rightarrow> MappingOfSnssai list \<Rightarrow> Snssai \<Rightarrow> AllowedSnssai option" where
  "mapping_grant eqf mappings s =
     (if CheckStandardSnssai s then None
      else map_option (\<lambda>m. \<lparr>as_AllowedSnssai = ServingSnssai m, as_NsiInformationList = [],
                            as_MappedHomeSnssai = Some s\<rparr>)
             (List.find (\<lambda>m. eqf (the (HomeSnssai m)) s) mappings))"

lemma mapping_step_eq:
  assumes "config_ok cfg" and "list_all mapping_ok mappings"
  shows "mapping_step eqf cfg param mappings s (info\<lparr>AllowedNssaiList := allowed_list (access_of cfg param) as\<rparr>) =
    Ok (info\<lparr>AllowedNssaiList := allowed_list (access_of cfg param)
          (as @ List.map_filter (mapping_grant eqf mappings) [s])\<rparr>)"
  using assms
  by (auto simp: mapping_step_def find_mapping_eq access_type_eq mapping_grant_def AddAllowedSnssai_def
      add_allowed_list dest: find_mapping_ok split: option.splits)

lemma mapping_loop_eq:
  assumes "config_ok cfg" and "list_all mapping_ok mappings"
  shows "ofold (mapping_step eqf cfg param mappings) l
      (info\<lparr>AllowedNssaiList := allowed_list (access_of cfg param) as\<rparr>) =
    Ok (info\<lparr>AllowedNssaiList := allowed_list (access_of cfg param)
          (as @ List.map_filter (mapping_grant eqf mappings) l)\<rparr>)"
proof (induction l arbitrary: as)
  case (Cons s l)
  then show ?case
    by (simp add: mapping_step_eq [OF assms] split: option.split)
qed simp

lemma ofold_deref:
  "list_all (\<lambda>x. p x \<noteq> None) l \<Longrightarrow> ofold (\<lambda>x s. obind (deref (p x)) (\<lambda>y. f y s)) l s = ofold f (map (\<lambda>x. the (p x)) l) s"
proof (induction l arbitrary: s)
  case (Cons x l)
  then have "ofold (\<lambda>x s. obind (deref (p x)) (\<lambda>y. f y s)) l = ofold f (map (\<lambda>x. the (p x)) l)"
    by auto
  with Cons.prems show ?case
    by (auto simp: deref_the)
qed simp

definition mapping_answer ::
    "snssai_eq \<Rightarrow> NssfConfig \<Rightarrow> query \<Rightarrow> SliceInfoForRegistration \<Rightarrow> AuthorizedNetworkSliceInfo" where
  "mapping_answer eqf cfg param reg =
     (case Option.bind (q_HomePlmnId param) (mappings_of cfg) of
        None \<Rightarrow> emptyInfo
      | Some mappings \<Rightarrow> emptyInfo\<lparr>AllowedNssaiList := allowed_list (access_of cfg param)
          (List.map_filter (mapping_grant eqf mappings) (subscribed_snssais reg @ SNssaiForMapping reg))\<rparr>)"

lemma map_filter_append: "List.map_filter f (xs @ ys) = List.map_filter f xs @ List.map_filter f ys"
  by (induction xs) (simp_all split: option.split)

lemma request_mapping_eq:
  assumes "config_ok cfg" and "registration_ok reg" and "q_HomePlmnId param = Some h"
  shows "request_mapping eqf cfg param reg emptyInfo =
    Ok (StatusOK, Some (mapping_answer eqf cfg param reg), None)"
proof (cases "mappings_of cfg h")
  case None
  then show ?thesis
    using assms by (simp add: request_mapping_def GetMappingOfPlmnFromConfig_eq mapping_answer_def)
next
  case (Some mappings)
  then have ok: "list_all mapping_ok mappings"
    using assms(1) by (simp add: mappings_of_ok)
  have start: "emptyInfo = emptyInfo\<lparr>AllowedNssaiList := allowed_list (access_of cfg param) []\<rparr>"
    by (simp add: emptyInfo_def allowed_list_def)
  have first: "ofold (\<lambda>x info. obind (deref (ss_SubscribedSnssai x)) (\<lambda>s. mapping_step eqf cfg param mappings s info))
      (SubscribedNssai reg) emptyInfo = Ok (emptyInfo\<lparr>AllowedNssaiList := allowed_list (access_of cfg param)
        (List.map_filter (mapping_grant eqf mappings) (subscribed_snssais reg))\<rparr>)"
    using assms(2) mapping_loop_eq [OF assms(1) ok, where as = "[]" and info = emptyInfo]
    by (subst start, subst ofold_deref) (simp_all add: registration_ok_def subscribed_snssais_def)
  from Some assms(3) show ?thesis
    by (simp add: request_mapping_def GetMappingOfPlmnFromConfig_eq assms(1) first
        mapping_loop_eq [OF assms(1) ok] mapping_answer_def map_filter_append)
qed

definition mapping_selection :: "snssai_eq \<Rightarrow> NssfConfig \<Rightarrow> query \<Rightarrow> SliceInfoForRegistration \<Rightarrow> selection" where
  "mapping_selection eqf cfg param reg =
     (case q_HomePlmnId param of
        None \<Rightarrow> (StatusBadRequest, None, Some home_plmn_for_mapping)
      | Some _ \<Rightarrow> (StatusOK, Some (mapping_answer eqf cfg param reg), None))"

lemma request_mapping_selection:
  "config_ok cfg \<Longrightarrow> registration_ok reg \<Longrightarrow>
   request_mapping eqf cfg param reg emptyInfo = Ok (mapping_selection eqf cfg param reg)"
  by (cases "q_HomePlmnId param") (simp_all add: mapping_selection_def request_mapping_eq, simp add: request_mapping_def)

section \<open>Registration\<close>

definition request_invalid :: "snssai_eq \<Rightarrow> NssfConfig \<Rightarrow> query \<Rightarrow> SliceInfoForRegistration \<Rightarrow> bool" where
  "request_invalid eqf cfg param reg \<longleftrightarrow> RequestedNssai reg = [] \<or>
     list_ex (\<lambda>s. in_ta cfg param s \<and> subscription eqf param reg s = None) (RequestedNssai reg)"

definition selected_info ::
    "snssai_eq \<Rightarrow> NssfConfig \<Rightarrow> query \<Rightarrow> SliceInfoForRegistration \<Rightarrow> AuthorizedNetworkSliceInfo" where
  "selected_info eqf cfg param reg =
     emptyInfo\<lparr>AllowedNssaiList := allowed_list (access_of cfg param)
          (if granted eqf cfg param reg = [] then defaults eqf cfg param reg else granted eqf cfg param reg),
        RejectedNssaiInTa := filter (\<lambda>s. \<not> in_ta cfg param s) (RequestedNssai reg),
        RejectedNssaiInPlmn :=
          filter (\<lambda>s. in_ta cfg param s \<and> subscription eqf param reg s = None) (RequestedNssai reg)\<rparr>"

lemma map_filter_empty_iff: "List.map_filter f l = [] \<longleftrightarrow> \<not> list_ex (\<lambda>x. f x \<noteq> None) l"
  by (induction l) (auto split: option.splits)

lemma select_allowed_eq:
  assumes "config_ok cfg" and "registration_ok reg"
  shows "select_allowed eqf cfg param reg emptyInfo =
    Ok (selected_info eqf cfg param reg, request_invalid eqf cfg param reg)"
proof (cases "RequestedNssai reg = []")
  case True
  have "AllowedNssaiList emptyInfo = allowed_list (access_of cfg param) []"
    by (simp add: emptyInfo_def allowed_list_def)
  from useDefaultSubscribedSnssai_eq [OF assms this] True show ?thesis
    by (simp add: select_allowed_def selected_info_def request_invalid_def granted_def emptyInfo_def)
next
  case False
  have loop: "ofold (requested_step eqf cfg param reg) (RequestedNssai reg) (emptyInfo, False, False) =
      Ok (after_requests eqf cfg param reg (RequestedNssai reg))"
    using requested_loop_eq [OF assms, where l = "[]"] by (simp add: after_requests_Nil)
  obtain info allowed invalid where after:
    "after_requests eqf cfg param reg (RequestedNssai reg) = (info, allowed, invalid)"
    by (metis prod_cases3)
  then have info: "AllowedNssaiList info = allowed_list (access_of cfg param) (granted eqf cfg param reg)"
    and rest: "allowed \<longleftrightarrow> granted eqf cfg param reg \<noteq> []" "invalid \<longleftrightarrow> request_invalid eqf cfg param reg"
    and "info = emptyInfo\<lparr>AllowedNssaiList := AllowedNssaiList info,
        RejectedNssaiInTa := filter (\<lambda>s. \<not> in_ta cfg param s) (RequestedNssai reg),
        RejectedNssaiInPlmn :=
          filter (\<lambda>s. in_ta cfg param s \<and> subscription eqf param reg s = None) (RequestedNssai reg)\<rparr>"
    using False by (auto simp: after_requests_def granted_def map_filter_empty_iff request_invalid_def)
  with useDefaultSubscribedSnssai_eq [OF assms info] False loop after show ?thesis
    by (cases "granted eqf cfg param reg = []") (simp_all add: select_allowed_def selected_info_def emptyInfo_def)
qed

definition registration_answer ::
    "snssai_eq \<Rightarrow> NssfConfig \<Rightarrow> query \<Rightarrow> SliceInfoForRegistration \<Rightarrow> AuthorizedNetworkSliceInfo" where
  "registration_answer eqf cfg param reg =
     (let info = selected_info eqf cfg param reg;
          info' = (if own_amf_serves cfg param info then info else amf_choice cfg (the (q_Tai param)) info)
      in info'\<lparr>ConfiguredNssai := configured eqf cfg param reg (request_invalid eqf cfg param reg)\<rparr>)"

text \<open>The checks of the query before slices are selected.\<close>

definition home_plmn_supported :: "NssfConfig \<Rightarrow> query \<Rightarrow> bool" where
  "home_plmn_supported cfg param \<longleftrightarrow>
     (case q_HomePlmnId param of None \<Rightarrow> True
      | Some h \<Rightarrow> list_ex (\<lambda>m. map_HomePlmnId m = Some h) (MappingListFromPlmn cfg))"

definition ta_supported :: "NssfConfig \<Rightarrow> query \<Rightarrow> bool" where
  "ta_supported cfg param \<longleftrightarrow> (case q_Tai param of None \<Rightarrow> True | Some t \<Rightarrow> ta_of cfg t \<noteq> None)"

definition requested_in_plmn :: "snssai_eq \<Rightarrow> NssfConfig \<Rightarrow> query \<Rightarrow> SliceInfoForRegistration \<Rightarrow> bool" where
  "requested_in_plmn eqf cfg param reg \<longleftrightarrow>
     (case q_Tai param of None \<Rightarrow> True
      | Some t \<Rightarrow> RequestedNssai reg = [] \<or>
          plmn_of cfg (the (tai_PlmnId t)) \<noteq> None \<and>
          list_all (snssai_in_plmn eqf cfg (the (tai_PlmnId t))) (RequestedNssai reg))"

lemma ta_supported_PlmnId:
  "config_ok cfg \<Longrightarrow> ta_supported cfg param \<Longrightarrow> q_Tai param = Some t \<Longrightarrow> tai_PlmnId t \<noteq> None"
  by (simp add: ta_supported_def ta_of_PlmnId)

lemma allowed_snssais_allowed_list:
  "s \<in> set (allowed_snssais (allowed_list access as)) \<Longrightarrow> \<exists>a\<in>set as. s = as_AllowedSnssai a"
  by (auto simp: allowed_snssais_def allowed_list_def dest: in_set_takeD split: if_splits)

lemma set_map_filter: "set (List.map_filter f l) = {y. \<exists>x\<in>set l. f x = Some y}"
  by (induction l) (auto split: option.splits)

lemma selected_info_no_nil: "None \<notin> set (allowed_snssais (AllowedNssaiList (selected_info eqf cfg param reg)))"
  by (auto simp: selected_info_def granted_def defaults_def grant_def default_grant_def Let_def set_map_filter
      bind_eq_Some_conv dest!: allowed_snssais_allowed_list split: if_splits option.splits)

lemma amf_choice_keeps [simp]:
  "ConfiguredNssai (amf_choice cfg tai info) = ConfiguredNssai info"
  "AllowedNssaiList (amf_choice cfg tai info) = AllowedNssaiList info"
  "RejectedNssaiInTa (amf_choice cfg tai info) = RejectedNssaiInTa info"
  "RejectedNssaiInPlmn (amf_choice cfg tai info) = RejectedNssaiInPlmn info"
  by (simp_all add: amf_choice_def split: option.split)

lemma selected_info_ConfiguredNssai [simp]: "ConfiguredNssai (selected_info eqf cfg param reg) = []"
  by (simp add: selected_info_def emptyInfo_def)

lemma nsselectionForRegistration_eq:
  assumes "config_ok cfg" and "SliceInfoRequestForRegistration param = Some reg"
    and "registration_ok reg"
  shows "nsselectionForRegistration eqf cfg param =
    Ok (if \<not> home_plmn_supported cfg param
        then (StatusOK, Some (emptyInfo\<lparr>RejectedNssaiInPlmn := RequestedNssai reg\<rparr>), None)
        else if \<not> ta_supported cfg param
        then (StatusOK, Some (emptyInfo\<lparr>RejectedNssaiInTa := RequestedNssai reg\<rparr>), None)
        else if RequestMapping reg then mapping_selection eqf cfg param reg
        else if \<not> requested_in_plmn eqf cfg param reg then (StatusForbidden, None, Some snssai_not_supported)
        else (StatusOK, Some (registration_answer eqf cfg param reg), None))"
proof -
  have home: "(case q_HomePlmnId param of None \<Rightarrow> Ok True | Some h \<Rightarrow> CheckSupportedHplmn cfg h) =
      Ok (home_plmn_supported cfg param)"
    by (simp add: home_plmn_supported_def CheckSupportedHplmn_eq assms(1) split: option.split)
  have ta: "(case q_Tai param of None \<Rightarrow> Ok True | Some t \<Rightarrow> CheckSupportedTa cfg t) = Ok (ta_supported cfg param)"
    by (simp add: ta_supported_def CheckSupportedTa_eq assms(1) split: option.split)
  have plmn: "(case q_Tai param of None \<Rightarrow> Ok True
      | Some t \<Rightarrow> if RequestedNssai reg = [] then Ok True
          else obind (deref (tai_PlmnId t)) (\<lambda>plmn.
            CheckSupportedNssaiInPlmn eqf cfg (Nssai (RequestedNssai reg)) plmn)) =
      Ok (requested_in_plmn eqf cfg param reg)" if "ta_supported cfg param"
    using ta_supported_PlmnId [OF assms(1) that]
    by (simp add: requested_in_plmn_def CheckSupportedNssaiInPlmn_eq assms(1) deref_the split: option.split
        del: not_None_eq)
  have conf: "add_configured eqf cfg param reg invalid info =
      Ok (info\<lparr>ConfiguredNssai := ConfiguredNssai info @ configured eqf cfg param reg invalid\<rparr>)"
    if "ta_supported cfg param" for invalid info
    using add_configured_eq [OF assms(1,3)] ta_supported_PlmnId [OF assms(1) that] by simp
  note amfs = add_amfs_eq [OF assms(1) selected_info_no_nil]
  show ?thesis
    unfolding nsselectionForRegistration_def assms(2) deref_Some obind.simps home ta
    by (auto simp: plmn conf amfs select_allowed_eq [OF assms(1,3)] registration_answer_def Let_def
        request_mapping_selection [OF assms(1,3)])
qed


section \<open>PDU sessions\<close>

lemma nsselectionForPduSession_eq:
  assumes "config_ok cfg" and "SliceInfoRequestForPduSession param = Some i" and "pdu_SNssai i = Some s"
    and "\<forall>n>0. rnd n < n"
  shows "nsselectionForPduSession eqf rnd cfg param =
    Ok (if \<not> home_plmn_supported cfg param
        then (StatusOK, Some (emptyInfo\<lparr>RejectedNssaiInPlmn := [s]\<rparr>), None)
        else if \<not> ta_supported cfg param
        then (StatusOK, Some (emptyInfo\<lparr>RejectedNssaiInTa := [s]\<rparr>), None)
        else if \<not> (case q_Tai param of None \<Rightarrow> True | Some t \<Rightarrow> snssai_in_plmn eqf cfg (the (tai_PlmnId t)) s)
        then (StatusForbidden, None, Some snssai_not_supported)
        else if q_HomePlmnId param \<noteq> None \<and> RoamingIndication i = RoamingIndication_NON_ROAMING
        then (StatusBadRequest, None, Some home_plmn_contradicts)
        else if q_HomePlmnId param = None \<and> RoamingIndication i \<noteq> RoamingIndication_NON_ROAMING
        then (StatusBadRequest, None, Some (home_plmn_missing (RoamingIndication i)))
        else if \<not> in_ta cfg param s
        then (StatusOK, Some (emptyInfo\<lparr>RejectedNssaiInTa := [s]\<rparr>), None)
        else (StatusOK, Some (emptyInfo\<lparr>info_NsiInformation :=
               (if nsis eqf cfg s = [] then None
                else Some (nsis eqf cfg s ! rnd (length (nsis eqf cfg s))))\<rparr>), None))"
proof -
  have home: "(case q_HomePlmnId param of None \<Rightarrow> Ok True | Some h \<Rightarrow> CheckSupportedHplmn cfg h) =
      Ok (home_plmn_supported cfg param)"
    by (simp add: home_plmn_supported_def CheckSupportedHplmn_eq assms(1) split: option.split)
  have ta: "(case q_Tai param of None \<Rightarrow> Ok True | Some t \<Rightarrow> CheckSupportedTa cfg t) = Ok (ta_supported cfg param)"
    by (simp add: ta_supported_def CheckSupportedTa_eq assms(1) split: option.split)
  have plmn: "(case q_Tai param of None \<Rightarrow> Ok True
      | Some t \<Rightarrow> obind (deref (tai_PlmnId t)) (\<lambda>plmn. CheckSupportedSnssaiInPlmn eqf cfg s plmn)) =
      Ok (case q_Tai param of None \<Rightarrow> True | Some t \<Rightarrow> snssai_in_plmn eqf cfg (the (tai_PlmnId t)) s)"
    if "ta_supported cfg param"
    using ta_supported_PlmnId [OF assms(1) that]
    by (simp add: CheckSupportedSnssaiInPlmn_eq assms(1) deref_the split: option.split del: not_None_eq)
  have in_ta: "(case q_Tai param of None \<Rightarrow> Ok True | Some t \<Rightarrow> CheckSupportedSnssaiInTa cfg s t) =
      Ok (in_ta cfg param s)"
    by (simp add: in_ta_def CheckSupportedSnssaiInTa_eq assms(1) split: option.split)
  have pick: "selectNsiInformation rnd l = Ok (l ! rnd (length l))" if "l \<noteq> []" for l
    using that assms(4) by (simp add: selectNsiInformation_def)
  have empty: "emptyInfo\<lparr>info_NsiInformation := None\<rparr> = emptyInfo"
    by (simp add: emptyInfo_def)
  show ?thesis
    unfolding nsselectionForPduSession_def Let_def assms(2,3) deref_Some obind.simps home ta in_ta
    by (simp add: plmn nsi_list_eq [OF assms(1)] pick empty)
qed

lemma granted_entitled:
  "a \<in> set (granted eqf cfg param reg) \<Longrightarrow>
   \<exists>s h. as_AllowedSnssai a = Some s \<and> in_ta cfg param s \<and> subscription eqf param reg s = Some h"
  by (auto simp: granted_def set_map_filter grant_def split: if_splits)

lemma defaults_entitled:
  assumes "registration_ok reg" and "a \<in> set (defaults eqf cfg param reg)"
  shows "\<exists>s h. as_AllowedSnssai a = Some s \<and> in_ta cfg param s \<and>
      \<lparr>ss_SubscribedSnssai = Some h, DefaultIndication = True\<rparr> \<in> set (SubscribedNssai reg) \<and>
      (\<exists>mappings. query_mappings cfg param = Some mappings \<and> serving_of eqf param mappings h = Some s)"
proof (cases "query_mappings cfg param")
  case (Some mappings)
  with assms(2) obtain x where x: "x \<in> set (SubscribedNssai reg)" "default_grant eqf cfg param mappings x = Some a"
    by (auto simp: defaults_def set_map_filter)
  moreover from this have "DefaultIndication x"
    by (simp add: default_grant_def Let_def split: if_splits)
  moreover obtain h where "ss_SubscribedSnssai x = Some h"
    using x(1) assms(1) by (auto simp: registration_ok_def list_all_iff)
  ultimately have "x = \<lparr>ss_SubscribedSnssai = Some h, DefaultIndication = True\<rparr>"
    by (intro SubscribedSnssai.equality) simp_all
  with x Some show ?thesis
    by (auto simp: default_grant_def Let_def bind_eq_Some_conv split: if_splits)
qed (use assms in \<open>simp add: defaults_def\<close>)

section \<open>A concrete configuration\<close>

definition demo_eq :: snssai_eq where
  "demo_eq s t \<longleftrightarrow> Sst s = Sst t \<and> EqualFold (Sd s) (Sd t)"

definition demo_plmn :: PlmnId where
  "demo_plmn = \<lparr>Mcc = ''466'', Mnc = ''92''\<rparr>"

definition demo_tai :: Tai where
  "demo_tai = \<lparr>tai_PlmnId = Some demo_plmn, Tac = ''33456''\<rparr>"

definition slice_a :: Snssai where "slice_a = \<lparr>Sst = 1, Sd = ''0a''\<rparr>"
definition slice_b :: Snssai where "slice_b = \<lparr>Sst = 1, Sd = ''0b''\<rparr>"
definition slice_c :: Snssai where "slice_c = \<lparr>Sst = 2, Sd = ''''\<rparr>"

definition demo_data :: "SupportedNssaiAvailabilityData list" where
  "demo_data = [\<lparr>sup_Tai = Some demo_tai, sup_SupportedSnssaiList = [\<lparr>ext_Sst = 1, ext_Sd = ''0A''\<rparr>]\<rparr>]"

definition demo_config :: NssfConfig where
  "demo_config =
     \<lparr>SupportedNssaiInPlmnList = [\<lparr>plmn_PlmnId = Some demo_plmn, plmn_SupportedSnssaiList = [slice_a, slice_b]\<rparr>],
      NsiList = [\<lparr>nsi_Snssai = Some slice_a, nsi_NsiInformationList = Some [\<lparr>NrfId = ''nrf'', NsiId = ''10''\<rparr>]\<rparr>],
      AmfSetList = [],
      AmfList = [\<lparr>amf_NfId = ''amf1'', amf_Data = demo_data\<rparr>],
      TaList = [\<lparr>ta_Tai = Some demo_tai, ta_AccessType = Some ''3GPP_ACCESS'',
                 ta_SupportedSnssaiList = [\<lparr>ext_Sst = 1, ext_Sd = ''0A''\<rparr>, \<lparr>ext_Sst = 2, ext_Sd = ''''\<rparr>],
                 ta_RestrictedSnssaiList = []\<rparr>],
      MappingListFromPlmn = [], Subscriptions = []\<rparr>"

definition demo_registration :: SliceInfoForRegistration where
  "demo_registration =
     \<lparr>SubscribedNssai = [\<lparr>ss_SubscribedSnssai = Some slice_a, DefaultIndication = True\<rparr>],
      RequestedNssai = [slice_a, slice_b, slice_c], MappingOfNssai = [], SNssaiForMapping = [],
      RequestMapping = False, DefaultConfiguredSnssaiInd = False\<rparr>"

definition demo_query :: query where
  "demo_query = \<lparr>NfType = ''AMF'', NfId = ''amf2'',
     SliceInfoRequestForRegistration = Some demo_registration, SliceInfoRequestForPduSession = None,
     q_HomePlmnId = None, q_Tai = Some demo_tai\<rparr>"

definition demo_pdu :: query where
  "demo_pdu = \<lparr>NfType = ''AMF'', NfId = ''amf2'', SliceInfoRequestForRegistration = None,
     SliceInfoRequestForPduSession = Some \<lparr>pdu_SNssai = Some slice_a, RoamingIndication = ''NON_ROAMING''\<rparr>,
     q_HomePlmnId = None, q_Tai = Some demo_tai\<rparr>"

lemma demo_config_ok: "config_ok demo_config"
  by code_simp

lemma demo_registration_ok: "registration_ok demo_registration"
  by code_simp

lemma demo_checks:
  "home_plmn_supported demo_config demo_query" "ta_supported demo_config demo_query"
  "requested_in_plmn demo_eq demo_config demo_query demo_registration"
  by code_simp+

section \<open>Properties\<close>

text \<open>
  C12. A registration whose home PLMN, tracking area and requested slices pass the checks is
  answered, and every requested S-NSSAI is accounted for: those not supported in the tracking area
  are rejected there, those of the others without a subscription are rejected in the PLMN, and the
  rest is allowed, up to eight, for the access type of the tracking area. If none is left the
  subscriptions marked as default are allowed. The configured S-NSSAIs are those of the
  subscription that the PLMN supports, given when a requested one is not valid, or the requested
  standard ones when the request was built from the default configuration.
\<close>

theorem requested_slices_accounted_for:
  assumes "config_ok cfg" and "SliceInfoRequestForRegistration param = Some reg"
    and "registration_ok reg" and "\<not> RequestMapping reg"
    and "home_plmn_supported cfg param" and "ta_supported cfg param"
    and "requested_in_plmn eqf cfg param reg"
  shows "\<exists>info. nsselectionForRegistration eqf cfg param = Ok (StatusOK, Some info, None) \<and>
    RejectedNssaiInTa info = filter (\<lambda>s. \<not> in_ta cfg param s) (RequestedNssai reg) \<and>
    RejectedNssaiInPlmn info =
      filter (\<lambda>s. in_ta cfg param s \<and> subscription eqf param reg s = None) (RequestedNssai reg) \<and>
    AllowedNssaiList info = allowed_list (access_of cfg param)
      (if granted eqf cfg param reg = [] then defaults eqf cfg param reg else granted eqf cfg param reg) \<and>
    ConfiguredNssai info = configured eqf cfg param reg (request_invalid eqf cfg param reg)"
  using assms by (simp add: nsselectionForRegistration_eq registration_answer_def Let_def selected_info_def)

theorem requested_slices_accounted_for_witness:
  "\<exists>info. nsselectionForRegistration demo_eq demo_config demo_query = Ok (StatusOK, Some info, None) \<and>
    RejectedNssaiInTa info = [slice_b] \<and> RejectedNssaiInPlmn info = [slice_c] \<and>
    map an_AccessType (AllowedNssaiList info) = [''3GPP_ACCESS''] \<and>
    map cs_ConfiguredSnssai (ConfiguredNssai info) = [Some slice_a]"
proof -
  have "filter (\<lambda>s. \<not> in_ta demo_config demo_query s) (RequestedNssai demo_registration) = [slice_b]"
    and "filter (\<lambda>s. in_ta demo_config demo_query s \<and> subscription demo_eq demo_query demo_registration s = None)
      (RequestedNssai demo_registration) = [slice_c]"
    and "map an_AccessType (allowed_list (access_of demo_config demo_query)
      (if granted demo_eq demo_config demo_query demo_registration = []
       then defaults demo_eq demo_config demo_query demo_registration
       else granted demo_eq demo_config demo_query demo_registration)) = [''3GPP_ACCESS'']"
    and "map cs_ConfiguredSnssai (configured demo_eq demo_config demo_query demo_registration
      (request_invalid demo_eq demo_config demo_query demo_registration)) = [Some slice_a]"
    by code_simp+
  moreover have "SliceInfoRequestForRegistration demo_query = Some demo_registration"
      "\<not> RequestMapping demo_registration"
    by (simp_all add: demo_query_def demo_registration_def)
  ultimately show ?thesis
    using requested_slices_accounted_for [OF demo_config_ok _ demo_registration_ok _ demo_checks] by auto
qed

text \<open>
  C13. Only slices the UE is entitled to are allowed. In the answer to a registration query that does not ask for a mapping
  (\<open>requestMapping\<close> is not set) and whose subscribed S-NSSAIs and mappings are set, an allowed S-NSSAI is supported in the tracking
  area, and there is a subscribed S-NSSAI it stands for, either because the requested one matches it
  (through the mapping the UE gave, for a roaming UE) or, when no requested one was granted, because
  it is the serving S-NSSAI of a subscription marked as default. There are at most eight for
  the access type of the tracking area.
\<close>

theorem allowed_slices_entitled:
  assumes "config_ok cfg" and "SliceInfoRequestForRegistration param = Some reg"
    and "registration_ok reg" and "\<not> RequestMapping reg"
    and "nsselectionForRegistration eqf cfg param = Ok (status, Some info, problem)"
    and "n \<in> set (AllowedNssaiList info)"
  shows "length (an_AllowedSnssaiList n) \<le> 8 \<and> an_AccessType n = access_of cfg param \<and>
    (\<forall>a\<in>set (an_AllowedSnssaiList n). \<exists>s h. as_AllowedSnssai a = Some s \<and> in_ta cfg param s \<and>
       (subscription eqf param reg s = Some h \<or>
        granted eqf cfg param reg = [] \<and>
        \<lparr>ss_SubscribedSnssai = Some h, DefaultIndication = True\<rparr> \<in> set (SubscribedNssai reg) \<and>
        (\<exists>mappings. query_mappings cfg param = Some mappings \<and> serving_of eqf param mappings h = Some s)))"
proof -
  have "info = registration_answer eqf cfg param reg \<or> AllowedNssaiList info = []"
    using assms(5) by (auto simp: nsselectionForRegistration_eq [OF assms(1-3)] assms(4) emptyInfo_def split: if_splits)
  then have "AllowedNssaiList info = AllowedNssaiList (selected_info eqf cfg param reg)"
    using assms(6) by (auto simp: registration_answer_def Let_def)
  then have n: "n = \<lparr>an_AllowedSnssaiList = take 8 (if granted eqf cfg param reg = []
      then defaults eqf cfg param reg else granted eqf cfg param reg), an_AccessType = access_of cfg param\<rparr>"
    using assms(6) by (auto simp: selected_info_def allowed_list_def MAX_ALLOWED_SNSSAI_def split: if_splits)
  show ?thesis
    unfolding n
    by (auto dest!: in_set_takeD granted_entitled defaults_entitled [OF assms(3)] split: if_splits)
qed

theorem allowed_slices_entitled_witness:
  "(\<exists>info n. nsselectionForRegistration demo_eq demo_config demo_query = Ok (StatusOK, Some info, None) \<and>
     AllowedNssaiList info = [n] \<and> length (an_AllowedSnssaiList n) \<le> 8 \<and>
     (\<forall>a\<in>set (an_AllowedSnssaiList n). \<exists>s. as_AllowedSnssai a = Some s \<and> in_ta demo_config demo_query s))"
proof -
  let ?n = "\<lparr>an_AllowedSnssaiList = [\<lparr>as_AllowedSnssai = Some slice_a,
      as_NsiInformationList = [\<lparr>NrfId = ''nrf'', NsiId = ''10''\<rparr>], as_MappedHomeSnssai = None\<rparr>],
      an_AccessType = ''3GPP_ACCESS''\<rparr>"
  let ?info = "emptyInfo\<lparr>AllowedNssaiList := [?n], CandidateAmfList := [''amf1''],
      RejectedNssaiInPlmn := [slice_c], RejectedNssaiInTa := [slice_b],
      ConfiguredNssai := [\<lparr>cs_ConfiguredSnssai = Some slice_a, cs_MappedHomeSnssai = None\<rparr>]\<rparr>"
  have "nsselectionForRegistration demo_eq demo_config demo_query = Ok (StatusOK, Some ?info, None)"
    by code_simp
  moreover from allowed_slices_entitled [OF demo_config_ok _ demo_registration_ok _ this, of ?n]
  have "length (an_AllowedSnssaiList ?n) \<le> 8 \<and>
      (\<forall>a\<in>set (an_AllowedSnssaiList ?n). \<exists>s. as_AllowedSnssai a = Some s \<and> in_ta demo_config demo_query s)"
    by (simp add: demo_query_def demo_registration_def)
  ultimately show ?thesis
    by (intro exI [of _ ?info] exI [of _ ?n]) (simp add: emptyInfo_def)
qed

text \<open>
  C33. Candidate AMFs in the answer to a registration query that does not ask for a mapping (\<open>requestMapping\<close> is not set), whose
  subscribed S-NSSAIs and mappings are set and that names a tracking area. An AMF that is named as a candidate is a member of an AMF set
  whose availability data contain every allowed S-NSSAI in the tracking area, or is a configured AMF whose own data do. When slices are allowed,
  the data of the AMF that asks do not contain them and no AMF set's data do, then the candidates are exactly the configured AMFs
  whose data do.
\<close>

theorem candidate_amfs_serve:
  assumes "config_ok cfg" and "SliceInfoRequestForRegistration param = Some reg"
    and "registration_ok reg" and "\<not> RequestMapping reg" and "q_Tai param = Some tai"
    and "nsselectionForRegistration eqf cfg param = Ok (status, Some info, problem)"
  shows "(\<forall>amf\<in>set (CandidateAmfList info).
      (\<exists>s\<in>set (AmfSetList cfg). amf \<in> set (set_AmfList s) \<and> can_serve info tai (set_Data s)) \<or>
      (\<exists>a\<in>set (AmfList cfg). amf = amf_NfId a \<and> can_serve info tai (amf_Data a))) \<and>
    (AllowedNssaiList info \<noteq> [] \<and> \<not> own_amf_serves cfg param info \<and>
     (\<forall>s\<in>set (AmfSetList cfg). \<not> can_serve info tai (set_Data s)) \<longrightarrow>
     CandidateAmfList info = map amf_NfId (filter (\<lambda>a. can_serve info tai (amf_Data a)) (AmfList cfg)))"
proof -
  consider "info = registration_answer eqf cfg param reg"
    | "AllowedNssaiList info = []" "CandidateAmfList info = []"
    using assms(6) by (auto simp: nsselectionForRegistration_eq [OF assms(1-3)] assms(4) emptyInfo_def split: if_splits)
  then show ?thesis
  proof cases
    case 1
    let ?sel = "selected_info eqf cfg param reg"
    have allowed: "AllowedNssaiList info = AllowedNssaiList ?sel"
      by (simp add: 1 registration_answer_def Let_def)
    then have same: "can_serve info = can_serve ?sel" "own_amf_serves cfg param info = own_amf_serves cfg param ?sel"
      by (simp_all add: can_serve_def own_amf_serves_def fun_eq_iff split: option.split)
    have cand: "CandidateAmfList info = (if own_amf_serves cfg param ?sel then []
        else CandidateAmfList (amf_choice cfg tai ?sel))"
      using assms(5) by (simp add: 1 registration_answer_def Let_def) (simp add: selected_info_def emptyInfo_def)
    have none: "CandidateAmfList ?sel = []"
      by (simp add: selected_info_def emptyInfo_def)
    have find: "List.find (\<lambda>s. can_serve ?sel tai (set_Data s)) (AmfSetList cfg) = Some s \<Longrightarrow>
        s \<in> set (AmfSetList cfg) \<and> can_serve ?sel tai (set_Data s)" for s
      by (rule find_Some_in)
    show ?thesis
      unfolding cand same allowed
      by (cases "List.find (\<lambda>s. can_serve ?sel tai (set_Data s)) (AmfSetList cfg)")
        (auto simp: amf_choice_def none dest: find)
  qed auto
qed

theorem candidate_amfs_serve_witness:
  "\<exists>info. nsselectionForRegistration demo_eq demo_config demo_query = Ok (StatusOK, Some info, None) \<and>
     CandidateAmfList info = [''amf1''] \<and>
     (\<forall>amf\<in>set (CandidateAmfList info). \<exists>a\<in>set (AmfList demo_config). amf = amf_NfId a \<and>
        can_serve info demo_tai (amf_Data a))"
proof -
  let ?info = "emptyInfo\<lparr>AllowedNssaiList := [\<lparr>an_AllowedSnssaiList = [\<lparr>as_AllowedSnssai = Some slice_a,
      as_NsiInformationList = [\<lparr>NrfId = ''nrf'', NsiId = ''10''\<rparr>], as_MappedHomeSnssai = None\<rparr>],
      an_AccessType = ''3GPP_ACCESS''\<rparr>], CandidateAmfList := [''amf1''],
      RejectedNssaiInPlmn := [slice_c], RejectedNssaiInTa := [slice_b],
      ConfiguredNssai := [\<lparr>cs_ConfiguredSnssai = Some slice_a, cs_MappedHomeSnssai = None\<rparr>]\<rparr>"
  have run: "nsselectionForRegistration demo_eq demo_config demo_query = Ok (StatusOK, Some ?info, None)"
    by code_simp
  have "AmfSetList demo_config = []" and "CandidateAmfList ?info = [''amf1'']"
    by code_simp+
  with candidate_amfs_serve [OF demo_config_ok _ demo_registration_ok _ _ run, of demo_tai]
  have "\<forall>amf\<in>set (CandidateAmfList ?info). \<exists>a\<in>set (AmfList demo_config). amf = amf_NfId a \<and>
        can_serve ?info demo_tai (amf_Data a)"
    by (simp add: demo_query_def demo_registration_def)
  with run \<open>CandidateAmfList ?info = [''amf1'']\<close> show ?thesis
    by (intro exI [of _ ?info] conjI)
qed

text \<open>
  A request for mappings by a roaming UE is answered with the serving S-NSSAI of every non-standard
  S-NSSAI of the subscription and of the list to be mapped that the configuration maps for the home
  PLMN, in this order, each with the home S-NSSAI it maps; the first eight are kept.
\<close>

theorem mapping_request_answered:
  assumes "config_ok cfg" and "SliceInfoRequestForRegistration param = Some reg"
    and "registration_ok reg" and "RequestMapping reg" and "q_HomePlmnId param = Some h"
    and "home_plmn_supported cfg param" and "ta_supported cfg param"
  shows "nsselectionForRegistration eqf cfg param = Ok (StatusOK, Some (mapping_answer eqf cfg param reg), None)"
  using assms by (simp add: nsselectionForRegistration_eq mapping_selection_def)

definition demo_home :: PlmnId where
  "demo_home = \<lparr>Mcc = ''310'', Mnc = ''560''\<rparr>"

definition demo_roaming_config :: NssfConfig where
  "demo_roaming_config = demo_config\<lparr>MappingListFromPlmn := [\<lparr>map_HomePlmnId = Some demo_home,
     map_MappingOfSnssai = Some [\<lparr>ServingSnssai = Some slice_a, HomeSnssai = Some slice_b\<rparr>]\<rparr>]\<rparr>"

definition demo_mapping_registration :: SliceInfoForRegistration where
  "demo_mapping_registration = demo_registration\<lparr>RequestMapping := True, SNssaiForMapping := [slice_b, slice_c]\<rparr>"

definition demo_mapping_query :: query where
  "demo_mapping_query = demo_query\<lparr>q_HomePlmnId := Some demo_home,
     SliceInfoRequestForRegistration := Some demo_mapping_registration\<rparr>"

theorem mapping_request_answered_witness:
  "nsselectionForRegistration demo_eq demo_roaming_config demo_mapping_query =
     Ok (StatusOK, Some (emptyInfo\<lparr>AllowedNssaiList := [\<lparr>an_AllowedSnssaiList = [\<lparr>as_AllowedSnssai = Some slice_a,
       as_NsiInformationList = [], as_MappedHomeSnssai = Some slice_b\<rparr>], an_AccessType = ''3GPP_ACCESS''\<rparr>]\<rparr>), None)"
proof -
  have "config_ok demo_roaming_config" "registration_ok demo_mapping_registration"
    "home_plmn_supported demo_roaming_config demo_mapping_query" "ta_supported demo_roaming_config demo_mapping_query"
    "mapping_answer demo_eq demo_roaming_config demo_mapping_query demo_mapping_registration =
      emptyInfo\<lparr>AllowedNssaiList := [\<lparr>an_AllowedSnssaiList = [\<lparr>as_AllowedSnssai = Some slice_a,
       as_NsiInformationList = [], as_MappedHomeSnssai = Some slice_b\<rparr>], an_AccessType = ''3GPP_ACCESS''\<rparr>]\<rparr>"
    by code_simp+
  moreover have "SliceInfoRequestForRegistration demo_mapping_query = Some demo_mapping_registration"
    "RequestMapping demo_mapping_registration" "q_HomePlmnId demo_mapping_query = Some demo_home"
    by (simp_all add: demo_mapping_query_def demo_mapping_registration_def)
  ultimately show ?thesis
    using mapping_request_answered [of demo_roaming_config demo_mapping_query demo_mapping_registration demo_home demo_eq]
    by simp
qed

text \<open>
  The slice instance given for a PDU session is one that is configured for the requested S-NSSAI,
  and the S-NSSAI is supported in the PLMN and the tracking area of the UE; the home PLMN is given
  exactly when the roaming indication says so.
\<close>

theorem pdu_session_instance:
  assumes "config_ok cfg" and "SliceInfoRequestForPduSession param = Some i" and "pdu_SNssai i = Some s"
    and "\<forall>n>0. rnd n < n"
    and "nsselectionForPduSession eqf rnd cfg param = Ok (status, Some info, problem)"
    and "info_NsiInformation info = Some nsi"
  shows "nsi \<in> set (nsis eqf cfg s) \<and> in_ta cfg param s \<and> home_plmn_supported cfg param \<and>
    (q_HomePlmnId param = None \<longleftrightarrow> RoamingIndication i = RoamingIndication_NON_ROAMING) \<and>
    (case q_Tai param of None \<Rightarrow> True
     | Some t \<Rightarrow> ta_of cfg t \<noteq> None \<and> snssai_in_plmn eqf cfg (the (tai_PlmnId t)) s)"
proof -
  have "nsis eqf cfg s ! rnd (length (nsis eqf cfg s)) \<in> set (nsis eqf cfg s)" if "nsis eqf cfg s \<noteq> []"
    using that assms(4) by simp
  moreover note assms(5) [unfolded nsselectionForPduSession_eq [OF assms(1-4)]]
  ultimately show ?thesis
    using assms(6) by (auto simp: emptyInfo_def ta_supported_def split: if_splits option.splits)
qed

theorem pdu_session_instance_witness:
  "\<exists>info nsi. nsselectionForPduSession demo_eq (\<lambda>n. n - 1) demo_config demo_pdu = Ok (StatusOK, Some info, None) \<and>
     info_NsiInformation info = Some nsi \<and> nsi \<in> set (nsis demo_eq demo_config slice_a) \<and>
     in_ta demo_config demo_pdu slice_a"
proof -
  let ?nsi = "\<lparr>NrfId = ''nrf'', NsiId = ''10''\<rparr>"
  let ?info = "emptyInfo\<lparr>info_NsiInformation := Some ?nsi\<rparr>"
  have "nsselectionForPduSession demo_eq (\<lambda>n. n - 1) demo_config demo_pdu = Ok (StatusOK, Some ?info, None)"
    by code_simp
  moreover from pdu_session_instance [OF demo_config_ok _ _ _ this, of _ slice_a ?nsi]
  have "?nsi \<in> set (nsis demo_eq demo_config slice_a) \<and> in_ta demo_config demo_pdu slice_a"
    by (simp add: demo_pdu_def RoamingIndication_NON_ROAMING_def)
  ultimately show ?thesis
    by (intro exI [of _ ?info] exI [of _ ?nsi]) simp
qed

text \<open>
  C34. Neither configuration nor query having nil pointers, the query is answered without a panic: a query for a registration in which
  every subscribed S-NSSAI and both sides of every mapping are set, and a query for a PDU session whose S-NSSAI is set.
\<close>

theorem selection_answers:
  assumes "config_ok cfg" and "\<forall>n>0. rnd n < n"
    and "case SliceInfoRequestForRegistration param of Some reg \<Rightarrow> registration_ok reg
         | None \<Rightarrow> (case SliceInfoRequestForPduSession param of None \<Rightarrow> False | Some i \<Rightarrow> pdu_SNssai i \<noteq> None)"
  shows "\<exists>a. NSSelectionSliceInformationGet eqf rnd cfg param = Ok a"
proof -
  obtain r where "(if SliceInfoRequestForRegistration param \<noteq> None then nsselectionForRegistration eqf cfg param
      else nsselectionForPduSession eqf rnd cfg param) = Ok r"
  proof (cases "SliceInfoRequestForRegistration param")
    case None
    with assms(3) obtain i s where "SliceInfoRequestForPduSession param = Some i" "pdu_SNssai i = Some s"
      by (auto split: option.splits)
    from nsselectionForPduSession_eq [OF assms(1) this assms(2)] None that show ?thesis
      by simp
  next
    case (Some reg)
    with assms(3) nsselectionForRegistration_eq [OF assms(1) Some] that show ?thesis
      by simp
  qed
  then show ?thesis
    by (cases r) (simp add: NSSelectionSliceInformationGet_def split: option.split)
qed

theorem selection_answers_witness:
  "\<exists>a. NSSelectionSliceInformationGet demo_eq (\<lambda>n. n - 1) demo_config demo_query = Ok a"
  by (rule selection_answers [OF demo_config_ok])
    (simp_all add: demo_query_def demo_registration_ok)

text \<open>
  A query of an AMF or NSSF that carries slice information neither for a registration nor for
  a PDU session, which the binding of the query accepts, makes the handler dereference a nil
  pointer: it panics instead of answering with problem details.
\<close>

theorem selection_panics_without_slice_info:
  assumes "config_ok cfg" and "checkNfServiceConsumer (NfType param)"
    and "q_Tai param \<noteq> None \<or> q_HomePlmnId param \<noteq> None"
    and "SliceInfoRequestForRegistration param = None" and "SliceInfoRequestForPduSession param = None"
  shows "NSSelectionSliceInformationGet eqf rnd cfg param = Panic"
proof -
  have "nsselectionForPduSession eqf rnd cfg param = Panic"
    by (cases "q_HomePlmnId param"; cases "q_Tai param")
      (simp_all add: nsselectionForPduSession_def assms(1,5) CheckSupportedHplmn_eq CheckSupportedTa_eq)
  with assms(2-4) show ?thesis
    by (auto simp: NSSelectionSliceInformationGet_def)
qed

theorem selection_panics_without_slice_info_witness:
  "NSSelectionSliceInformationGet demo_eq (\<lambda>n. n - 1) demo_config
     (demo_pdu\<lparr>SliceInfoRequestForPduSession := None\<rparr>) = Panic"
  by (rule selection_panics_without_slice_info [OF demo_config_ok])
    (simp_all add: demo_pdu_def checkNfServiceConsumer_def)

end
