(* ===== verification/Nssf_Availability_Props.thy ===== *)
theory Nssf_Availability_Props
  imports Nssf_Availability Nssf_Selection_Props
begin

text \<open>
  What the NSSAI availability service promises: the AMF list behaves as a map from AMFs to their
  availability data under replacement and deletion, the configuration stays free of nil pointers,
  and the identifiers of subscriptions; and where patches and identifiers go wrong.
\<close>

section \<open>The contract of a store of availability data\<close>

datatype ('k, 'v) store_op = Put 'k 'v | Del 'k

locale amf_store =
  fixes inv :: "'s \<Rightarrow> bool" and lookup :: "'s \<Rightarrow> 'k \<Rightarrow> 'v option"
    and put :: "'s \<Rightarrow> 'k \<Rightarrow> 'v \<Rightarrow> 's" and del :: "'s \<Rightarrow> 'k \<Rightarrow> 's"
  assumes lookup_put: "inv s \<Longrightarrow> lookup (put s k v) = (lookup s)(k \<mapsto> v)"
    and lookup_del: "inv s \<Longrightarrow> lookup (del s k) = (lookup s)(k := None)"
    and inv_put: "inv s \<Longrightarrow> inv (put s k v)"
    and inv_del: "inv s \<Longrightarrow> inv (del s k)"
begin

definition perform :: "('k, 'v) store_op \<Rightarrow> 's \<Rightarrow> 's" where
  "perform p s = (case p of Put k v \<Rightarrow> put s k v | Del k \<Rightarrow> del s k)"

definition effect :: "('k, 'v) store_op \<Rightarrow> ('k \<rightharpoonup> 'v) \<Rightarrow> ('k \<rightharpoonup> 'v)" where
  "effect p m = (case p of Put k v \<Rightarrow> m(k \<mapsto> v) | Del k \<Rightarrow> m(k := None))"

lemma effect_simps: "effect (Put k v) m = m(k \<mapsto> v)" "effect (Del k) m = m(k := None)"
  by (simp_all add: effect_def)

lemma run_refines:
  assumes "inv s"
  shows "inv (fold perform ps s) \<and> lookup (fold perform ps s) = fold effect ps (lookup s)"
  using assms
  by (induction ps arbitrary: s)
    (simp_all add: perform_def effect_def lookup_put lookup_del inv_put inv_del split: store_op.split)

lemma last_put_wins:
  assumes "inv s" and "\<forall>p\<in>set ps. p \<noteq> Del k \<and> (\<forall>v. p \<noteq> Put k v)"
  shows "lookup (fold perform ps (put s k v)) k = Some v"
proof -
  have "fold effect ps m k = m k" for m
    using assms(2) by (induction ps arbitrary: m) (auto simp: effect_def split: store_op.split)
  with run_refines [OF inv_put [OF assms(1)], of ps k v] show ?thesis
    by (simp add: lookup_put assms(1))
qed

end

interpretation amf_list: amf_store amfs_distinct amf_of put_amf delete_amf
  by unfold_locales (simp_all add: amf_of_put amf_of_delete put_amf_distinct delete_amf_distinct)

section \<open>Replacing availability data\<close>

definition data_full :: "SupportedNssaiAvailabilityData \<Rightarrow> bool" where
  "data_full d \<longleftrightarrow> (case sup_Tai d of None \<Rightarrow> False | Some t \<Rightarrow> tai_PlmnId t \<noteq> None)"

definition ext_in_plmn :: "NssfConfig \<Rightarrow> PlmnId \<Rightarrow> ExtSnssai \<Rightarrow> bool" where
  "ext_in_plmn cfg plmn s \<longleftrightarrow> CheckStandardSnssai \<lparr>Sst = ext_Sst s, Sd = ext_Sd s\<rparr> \<or>
     (case plmn_of cfg plmn of None \<Rightarrow> False | Some p \<Rightarrow> list_ex (SnssaiEqualFold s) (plmn_SupportedSnssaiList p))"

definition data_accepted :: "NssfConfig \<Rightarrow> SupportedNssaiAvailabilityData list \<Rightarrow> bool" where
  "data_accepted cfg data \<longleftrightarrow> list_all (\<lambda>d. let plmn = the (tai_PlmnId (the (sup_Tai d))) in
     plmn_of cfg plmn \<noteq> None \<and> list_all (ext_in_plmn cfg plmn) (sup_SupportedSnssaiList d)) data"

definition restricted_of :: "NssfConfig \<Rightarrow> Tai \<Rightarrow> RestrictedSnssai list" where
  "restricted_of cfg t = (case ta_of cfg t of None \<Rightarrow> [] | Some x \<Rightarrow> ta_RestrictedSnssaiList x)"

definition authorized ::
    "NssfConfig \<Rightarrow> SupportedNssaiAvailabilityData list \<Rightarrow> SupportedNssaiAvailabilityData \<Rightarrow> AuthorizedNssaiAvailabilityData" where
  "authorized cfg data d =
     \<lparr>auth_Tai = sup_Tai d,
      auth_SupportedSnssaiList = sup_SupportedSnssaiList (the (List.find (\<lambda>x. sup_Tai x = sup_Tai d) data)),
      auth_RestrictedSnssaiList = restricted_of cfg (the (sup_Tai d))\<rparr>"

lemma CheckSupportedNssaiInPlmn_ext_eq:
  "config_ok cfg \<Longrightarrow> CheckSupportedNssaiInPlmn eqf cfg (NssaiExt l) plmn =
     Ok (plmn_of cfg plmn \<noteq> None \<and> list_all (ext_in_plmn cfg plmn) l)"
  by (simp add: CheckSupportedNssaiInPlmn_def find_plmn_eq ext_in_plmn_def list_all_iff split: option.split)

lemma data_full_ok: "list_all data_full data \<Longrightarrow> list_all data_ok data"
  by (auto simp: list_all_iff data_full_def data_ok_def split: option.splits)

lemma GetRestrictedSnssaiListFromConfig_eq:
  "config_ok cfg \<Longrightarrow> GetRestrictedSnssaiListFromConfig cfg t = Ok (restricted_of cfg t)"
  by (simp add: GetRestrictedSnssaiListFromConfig_def find_ta_eq restricted_of_def)

lemma config_ok_amfs:
  "config_ok cfg \<Longrightarrow> config_ok (cfg\<lparr>AmfList := l\<rparr>) \<longleftrightarrow> list_all (\<lambda>a. list_all data_ok (amf_Data a)) l"
  by (simp add: config_ok_def)

lemma put_amf_config_ok:
  assumes "config_ok cfg" and "list_all data_ok data"
  shows "config_ok (put_amf cfg nfId data)"
proof (cases "update_amf nfId (\<lambda>a. a\<lparr>amf_Data := data\<rparr>) (AmfList cfg)")
  case None
  then show ?thesis
    using assms config_okD(4) [OF assms(1)] by (simp add: put_amf_def config_ok_amfs list_all_iff)
next
  case (Some l)
  have "list_all data_ok (amf_Data b)" if "b \<in> set l" for b
    using update_amf_set [OF Some that] config_okD(4) [OF assms(1)] assms(2) by auto
  with Some assms(1) show ?thesis
    by (simp add: put_amf_def config_ok_amfs list_all_iff)
qed

lemma delete_amf_config_ok: "config_ok cfg \<Longrightarrow> config_ok (delete_amf cfg nfId)"
  by (cases rule: delete_amf_cases [of cfg nfId]) (auto simp: config_ok_def)

lemma put_amf_ta [simp]: "restricted_of (put_amf cfg nfId data) t = restricted_of cfg t"
  by (simp add: restricted_of_def ta_of_def put_amf_def)

lemma AuthorizeOfAmfTaFromConfig_put:
  assumes "config_ok cfg" and "list_all data_ok data" and "d \<in> set data" and "sup_Tai d = Some t"
  shows "AuthorizeOfAmfTaFromConfig (put_amf cfg nfId data) nfId t = Ok (authorized cfg data d)"
proof -
  have "amf_of (put_amf cfg nfId data) nfId = Some data"
    by (simp add: amf_of_put)
  then obtain a where a: "List.find (\<lambda>a. amf_NfId a = nfId) (AmfList (put_amf cfg nfId data)) = Some a" "amf_Data a = data"
    by (auto simp: amf_of_def)
  have "ofind (\<lambda>x. points_to (sup_Tai x) t) data = (Ok (List.find (\<lambda>x. sup_Tai x = Some t) data) :: _ nssf)"
    by (rule ofind_Ok) (use assms(2) in \<open>simp add: list_all_iff data_ok_def points_to_Ok\<close>)
  moreover have "List.find (\<lambda>x. sup_Tai x = Some t) data \<noteq> None"
    using assms(3,4) unfolding find_None_iff by blast
  then obtain d' where "List.find (\<lambda>x. sup_Tai x = Some t) data = Some d'"
    by blast
  ultimately show ?thesis
    using a assms(4) by (simp add: AuthorizeOfAmfTaFromConfig_def authorized_def
        GetRestrictedSnssaiListFromConfig_eq put_amf_config_ok assms(1,2))
qed

lemma authorize_loop_eq:
  assumes "config_ok cfg" and "list_all data_ok data" and "set l \<subseteq> set data"
  shows "ofold (\<lambda>d acc. obind (deref (sup_Tai d)) (\<lambda>t.
      (case AuthorizeOfAmfTaFromConfig (put_amf cfg nfId data) nfId t of
         Ok r \<Rightarrow> Ok (acc @ [r]) | Err _ \<Rightarrow> Ok acc | Panic \<Rightarrow> Panic))) l acc =
    (Ok (acc @ map (authorized cfg data) l) :: _ nssf)"
  using assms(3)
proof (induction l arbitrary: acc)
  case (Cons d l)
  then obtain t where "sup_Tai d = Some t"
    using assms(2) by (auto simp: list_all_iff data_ok_def)
  with Cons AuthorizeOfAmfTaFromConfig_put [OF assms(1,2), of d t nfId] show ?case
    by simp
qed simp

lemma NssaiAvailabilityNfInstanceUpdate_eq:
  assumes "config_ok cfg" and "list_all data_full data"
  shows "NssaiAvailabilityNfInstanceUpdate eqf cfg data nfId =
    Ok (if data_accepted cfg data then (put_amf cfg nfId data, AuthorizedInfo (map (authorized cfg data) data))
        else (cfg, AvailabilityProblem snssai_not_supported))"
proof -
  have "oall (\<lambda>d. obind (deref (sup_Tai d)) (\<lambda>t. obind (deref (tai_PlmnId t)) (\<lambda>plmn.
        CheckSupportedNssaiInPlmn eqf cfg (NssaiExt (sup_SupportedSnssaiList d)) plmn))) data =
      Ok (data_accepted cfg data)"
    unfolding data_accepted_def
  proof (rule oall_Ok)
    fix d
    assume "d \<in> set data"
    then obtain t plmn where "sup_Tai d = Some t" "tai_PlmnId t = Some plmn"
      using assms(2) by (fastforce simp: list_all_iff data_full_def split: option.splits)
    then show "obind (deref (sup_Tai d)) (\<lambda>t. obind (deref (tai_PlmnId t)) (\<lambda>plmn.
        CheckSupportedNssaiInPlmn eqf cfg (NssaiExt (sup_SupportedSnssaiList d)) plmn)) =
      Ok (let plmn = the (tai_PlmnId (the (sup_Tai d))) in
        plmn_of cfg plmn \<noteq> None \<and> list_all (ext_in_plmn cfg plmn) (sup_SupportedSnssaiList d))"
      by (simp add: CheckSupportedNssaiInPlmn_ext_eq assms(1))
  qed
  then show ?thesis
    using authorize_loop_eq [OF assms(1) data_full_ok [OF assms(2)], of data nfId "[]"]
    by (simp add: NssaiAvailabilityNfInstanceUpdate_def Let_def flip: put_amf_def)
qed

section \<open>Patches\<close>

lemma fill_dummy_data_ok: "list_all data_ok data \<Longrightarrow> list_all data_ok (map fill_dummy data)"
  by (simp add: list_all_iff data_ok_def fill_dummy_def)

lemma fill_dummy_hides:
  assumes "Sd s = []"
  shows "\<not> available t (map fill_dummy data) s"
proof -
  have "\<not> SnssaiEqualFold x s" if "x \<in> set (sup_SupportedSnssaiList (fill_dummy d))" for x d
    using that assms by (auto simp: fill_dummy_def SnssaiEqualFold_def EqualFold_def dummyString_def split: if_splits)
  then show ?thesis
    by (auto simp: available_def list_ex_iff CheckSnssaiInNssai_def)
qed

lemma update_amf_put:
  "List.find (\<lambda>a. amf_NfId a = nfId) (AmfList cfg) \<noteq> None \<Longrightarrow>
   cfg\<lparr>AmfList := the (update_amf nfId (\<lambda>a. a\<lparr>amf_Data := data\<rparr>) (AmfList cfg))\<rparr> = put_amf cfg nfId data"
  by (auto simp: put_amf_def update_amf_None_iff split: option.split
      dest: update_amf_None_iff [THEN iffD1])

section \<open>Identifiers of subscriptions\<close>

lemma unused_id_consecutive:
  assumes "map SubscriptionId ss = map Itoa [m ..< m + length ss]" and "m + length ss < 2 ^ 32"
  shows "unused_id ss (of_nat m) = Ok (Itoa (m + length ss))"
  using assms
proof (induction ss arbitrary: m)
  case Nil
  then show ?case
    by (simp add: unsigned_of_nat take_bit_nat_eq_self)
next
  case (Cons s ss)
  then have "SubscriptionId s = Itoa m" "map SubscriptionId ss = map Itoa [Suc m ..< Suc m + length ss]"
    by (simp_all add: upt_rec)
  moreover have "(of_nat m :: u32) \<noteq> - 1"
  proof
    assume "(of_nat m :: u32) = - 1"
    then have "unat (of_nat m :: u32) = unat (- 1 :: u32)"
      by simp
    then show False
      using Cons.prems(2) by (simp add: unsigned_of_nat take_bit_nat_eq_self unsigned_minus_1_eq_mask mask_eq_exp_minus_1)
  qed
  ultimately show ?case
    using Cons.IH [of "Suc m"] Cons.prems(2) by (simp add: Atoi_Itoa add.commute)
qed

section \<open>Sequences of requests\<close>

datatype availability_request =
    PutRequest string "SupportedNssaiAvailabilityData list"
  | DeleteRequest string

definition handle_request :: "snssai_eq \<Rightarrow> availability_request \<Rightarrow> NssfConfig \<Rightarrow> NssfConfig nssf" where
  "handle_request eqf req cfg =
     (case req of
        PutRequest nfId data \<Rightarrow> omap fst (NssaiAvailabilityNfInstanceUpdate eqf cfg data nfId)
      | DeleteRequest nfId \<Rightarrow> Ok (fst (NssaiAvailabilityNfInstanceDelete cfg nfId)))"

primrec request_full :: "availability_request \<Rightarrow> bool" where
  "request_full (PutRequest nfId data) = list_all data_full data"
| "request_full (DeleteRequest nfId) = True"

definition request_effect ::
    "NssfConfig \<Rightarrow> availability_request \<Rightarrow> (string \<rightharpoonup> SupportedNssaiAvailabilityData list) \<Rightarrow>
     (string \<rightharpoonup> SupportedNssaiAvailabilityData list)" where
  "request_effect cfg req m =
     (case req of
        PutRequest nfId data \<Rightarrow> if data_accepted cfg data then m(nfId \<mapsto> data) else m
      | DeleteRequest nfId \<Rightarrow> m(nfId := None))"

primrec op_of :: "NssfConfig \<Rightarrow> availability_request \<Rightarrow> (string, SupportedNssaiAvailabilityData list) store_op option" where
  "op_of cfg (PutRequest nfId data) = (if data_accepted cfg data then Some (Put nfId data) else None)"
| "op_of cfg (DeleteRequest nfId) = Some (Del nfId)"

lemma data_accepted_cong:
  "SupportedNssaiInPlmnList cfg' = SupportedNssaiInPlmnList cfg \<Longrightarrow> data_accepted cfg' = data_accepted cfg"
proof -
  assume "SupportedNssaiInPlmnList cfg' = SupportedNssaiInPlmnList cfg"
  then have "plmn_of cfg' = plmn_of cfg"
    by (simp add: fun_eq_iff plmn_of_def)
  moreover from this have "ext_in_plmn cfg' = ext_in_plmn cfg"
    by (simp add: fun_eq_iff ext_in_plmn_def)
  ultimately show ?thesis
    unfolding data_accepted_def [abs_def] by (simp only:)
qed

lemma op_of_cong:
  "SupportedNssaiInPlmnList cfg' = SupportedNssaiInPlmnList cfg \<Longrightarrow> op_of cfg' = op_of cfg"
proof
  fix req
  assume "SupportedNssaiInPlmnList cfg' = SupportedNssaiInPlmnList cfg"
  note same = data_accepted_cong [OF this]
  show "op_of cfg' req = op_of cfg req"
    by (cases req) (simp_all add: same)
qed

lemma amf_ops_keep_plmns [simp]:
  "SupportedNssaiInPlmnList (put_amf cfg nfId data) = SupportedNssaiInPlmnList cfg"
  "SupportedNssaiInPlmnList (delete_amf cfg nfId) = SupportedNssaiInPlmnList cfg"
  by (simp_all add: put_amf_def delete_amf_def NssaiAvailabilityNfInstanceDelete_def split: option.split)

lemma handle_request_eq:
  assumes "config_ok cfg" and "request_full req"
  shows "handle_request eqf req cfg =
    Ok (case op_of cfg req of None \<Rightarrow> cfg | Some p \<Rightarrow> amf_list.perform p cfg)"
  using assms
  by (cases req) (simp_all add: handle_request_def NssaiAvailabilityNfInstanceUpdate_eq amf_list.perform_def
      delete_amf_def)

lemma perform_keeps:
  assumes "config_ok cfg" and "request_full req" and "op_of cfg req = Some p"
  shows "config_ok (amf_list.perform p cfg)"
    and "SupportedNssaiInPlmnList (amf_list.perform p cfg) = SupportedNssaiInPlmnList cfg"
  using assms by (cases req; auto simp: amf_list.perform_def put_amf_config_ok data_full_ok delete_amf_config_ok
      split: if_splits)+

lemma handle_requests_eq:
  assumes "config_ok cfg" and "list_all request_full reqs"
  shows "ofold (handle_request eqf) reqs cfg = Ok (fold amf_list.perform (List.map_filter (op_of cfg) reqs) cfg) \<and>
    config_ok (fold amf_list.perform (List.map_filter (op_of cfg) reqs) cfg)"
  using assms
proof (induction reqs arbitrary: cfg)
  case (Cons req reqs)
  show ?case
  proof (cases "op_of cfg req")
    case None
    with Cons show ?thesis
      by (simp add: handle_request_eq)
  next
    case (Some p)
    have "request_full req"
      using Cons.prems by simp
    note keeps = perform_keeps [OF Cons.prems(1) this Some]
    from Cons.IH [OF keeps(1)] Cons.prems Some op_of_cong [OF keeps(2)] show ?thesis
      by (simp add: handle_request_eq)
  qed
qed simp

lemma fold_request_effect:
  "fold (request_effect cfg) reqs m = fold amf_list.effect (List.map_filter (op_of cfg) reqs) m"
proof (induction reqs arbitrary: m)
  case (Cons req reqs)
  then show ?case
    by (cases req) (simp_all add: request_effect_def amf_list.effect_simps fun_upd_def)
qed simp

lemma fold_perform_total:
  assumes "config_ok cfg" and "amfs_distinct cfg" and "list_all request_full reqs"
  shows "\<exists>cfg'. ofold (handle_request eqf) reqs cfg = Ok cfg' \<and> config_ok cfg' \<and> amfs_distinct cfg' \<and>
    amf_of cfg' = fold (request_effect cfg) reqs (amf_of cfg)"
  using handle_requests_eq [OF assms(1,3)] amf_list.run_refines [OF assms(2)] by (simp add: fold_request_effect)

section \<open>Answers that do not panic\<close>

lemma AuthorizeOfAmfFromConfig_total:
  assumes "config_ok cfg" and "amf_of cfg nfId = Some data"
  shows "\<exists>l. AuthorizeOfAmfFromConfig cfg nfId = Ok l"
proof -
  from assms(2) obtain a where a: "List.find (\<lambda>a. amf_NfId a = nfId) (AmfList cfg) = Some a"
    by (auto simp: amf_of_def)
  then have "list_all data_ok (amf_Data a)"
    using config_okD(4) [OF assms(1)] find_Some_in [OF a] by simp
  then have "omapM (\<lambda>d. obind (deref (sup_Tai d)) (\<lambda>tai. obind (GetRestrictedSnssaiListFromConfig cfg tai) (\<lambda>restricted.
      Ok \<lparr>auth_Tai = Some tai, auth_SupportedSnssaiList = sup_SupportedSnssaiList d,
          auth_RestrictedSnssaiList = restricted\<rparr>))) (amf_Data a) =
    Ok (map (\<lambda>d. \<lparr>auth_Tai = sup_Tai d, auth_SupportedSnssaiList = sup_SupportedSnssaiList d,
          auth_RestrictedSnssaiList = restricted_of cfg (the (sup_Tai d))\<rparr>) (amf_Data a))"
    by (intro omapM_Ok) (auto simp: list_all_iff data_ok_def GetRestrictedSnssaiListFromConfig_eq assms(1))
  with a show ?thesis
    by (simp add: AuthorizeOfAmfFromConfig_def)
qed

lemma AuthorizeOfTaListFromConfig_total:
  assumes "config_ok cfg"
  shows "\<exists>l. AuthorizeOfTaListFromConfig cfg tais = Ok l"
proof -
  have "\<exists>r. (obind (points_to (ta_Tai t) tai) (\<lambda>b. if b then
      obind (GetRestrictedSnssaiListFromConfig cfg tai) (\<lambda>restricted.
        Ok (acc @ [\<lparr>auth_Tai = Some tai, auth_SupportedSnssaiList = ta_SupportedSnssaiList t,
          auth_RestrictedSnssaiList = restricted\<rparr>])) else Ok acc) :: _ nssf) = Ok r"
    if "t \<in> set (TaList cfg)" for t tai acc
    using config_ok_taD(1) [OF assms that] by (simp add: points_to_Ok GetRestrictedSnssaiListFromConfig_eq assms)
  then show ?thesis
    unfolding AuthorizeOfTaListFromConfig_def by (intro ofold_total) blast
qed

lemma config_ok_subscriptions [simp]: "config_ok (cfg\<lparr>Subscriptions := l\<rparr>) \<longleftrightarrow> config_ok cfg"
  by (simp add: config_ok_def)

lemma create_with_id:
  assumes "config_ok cfg" and "getUnusedSubscriptionID cfg = Ok sid"
  shows "\<exists>expiry l. NssaiAvailabilitySubscriptionCreate cfg d =
    Ok (cfg\<lparr>Subscriptions := Subscriptions cfg @ [\<lparr>SubscriptionId = sid, SubscriptionData = Some d\<rparr>]\<rparr>,
        SubscriptionCreated sid expiry l)"
proof -
  obtain l where "AuthorizeOfTaListFromConfig
      (cfg\<lparr>Subscriptions := Subscriptions cfg @ [\<lparr>SubscriptionId = sid, SubscriptionData = Some d\<rparr>]\<rparr>) (TaiList d) = Ok l"
    using AuthorizeOfTaListFromConfig_total assms(1) config_ok_subscriptions by blast
  then show ?thesis
    by (simp add: NssaiAvailabilitySubscriptionCreate_def assms(2) Let_def)
qed

section \<open>Properties\<close>

text \<open>
  C17. Requests that replace (PUT) and delete availability data, in any sequence and with the tracking area and its PLMN set in all data
  that are put, are answered one after the other without a panic, and the AMF list stays a map from AMF identifiers to data: an accepted replacement
  overwrites or adds the entry of its AMF, a rejected one changes nothing, a deletion removes the
  entry. No identifier appears twice and no nil pointer enters the configuration. Changes by PATCH are not among these requests: they
  do not implement a map, as \<open>patch_updates_first_amf\<close> shows.
\<close>

theorem availability_refines_map:
  assumes "config_ok cfg" and "amfs_distinct cfg" and "list_all request_full reqs"
  shows "\<exists>cfg'. ofold (handle_request eqf) reqs cfg = Ok cfg' \<and> config_ok cfg' \<and> amfs_distinct cfg' \<and>
    amf_of cfg' = fold (request_effect cfg) reqs (amf_of cfg)"
  using assms by (rule fold_perform_total)

theorem availability_refines_map_witness:
  "\<exists>cfg'. ofold (handle_request demo_eq) [PutRequest ''amf2'' demo_data, DeleteRequest ''amf1''] demo_config = Ok cfg' \<and>
     config_ok cfg' \<and> amfs_distinct cfg' \<and> amf_of cfg' ''amf2'' = Some demo_data \<and> amf_of cfg' ''amf1'' = None"
proof -
  have "amfs_distinct demo_config" "list_all request_full [PutRequest ''amf2'' demo_data, DeleteRequest ''amf1'']"
    "data_accepted demo_config demo_data"
    by code_simp+
  with availability_refines_map [OF demo_config_ok, of "[PutRequest ''amf2'' demo_data, DeleteRequest ''amf1'']" demo_eq]
  show ?thesis
    by (auto simp: request_effect_def)
qed

text \<open>
  C24. What an AMF has last declared is what slice selection checks: after an accepted replacement (PUT) of its data and
  any later PUT and DELETE requests about other AMFs, all with the tracking area and its PLMN set, \<open>CheckSupportedSnssaiInAmfTa\<close> holds for exactly the S-NSSAIs
  of the declared data in that tracking area.
\<close>

theorem selection_sees_last_update:
  assumes "config_ok cfg" and "amfs_distinct cfg" and "list_all data_full data" and "data_accepted cfg data"
    and "list_all request_full reqs"
    and "\<forall>req\<in>set reqs. case req of PutRequest k _ \<Rightarrow> k \<noteq> nfId | DeleteRequest k \<Rightarrow> k \<noteq> nfId"
  shows "\<exists>cfg'. ofold (handle_request eqf) (PutRequest nfId data # reqs) cfg = Ok cfg' \<and>
    CheckSupportedSnssaiInAmfTa cfg' s nfId t = Ok (available t data s)"
proof -
  have "request_effect cfg req m nfId = m nfId" if "req \<in> set reqs" for req m
    using bspec [OF assms(6) that] by (simp add: request_effect_def split: availability_request.splits)
  then have "fold (request_effect cfg) reqs m nfId = m nfId" for m
    by (induction reqs arbitrary: m) simp_all
  then have eff: "fold (request_effect cfg) (PutRequest nfId data # reqs) (amf_of cfg) nfId = Some data"
    using assms(4) by (simp add: request_effect_def)
  obtain cfg' where "ofold (handle_request eqf) (PutRequest nfId data # reqs) cfg = Ok cfg'" "config_ok cfg'"
      "amf_of cfg' nfId = Some data"
    using fold_perform_total [OF assms(1,2), of "PutRequest nfId data # reqs" eqf] assms(3,5) eff by auto
  then show ?thesis
    by (auto simp: CheckSupportedSnssaiInAmfTa_eq)
qed

theorem selection_sees_last_update_witness:
  "\<exists>cfg'. ofold (handle_request demo_eq) [PutRequest ''amf2'' demo_data, DeleteRequest ''amf1''] demo_config = Ok cfg' \<and>
     CheckSupportedSnssaiInAmfTa cfg' slice_a ''amf2'' demo_tai = Ok True"
proof -
  have "amfs_distinct demo_config" "list_all data_full demo_data" "data_accepted demo_config demo_data"
    "available demo_tai demo_data slice_a"
    by code_simp+
  with selection_sees_last_update [OF demo_config_ok, of demo_data "[DeleteRequest ''amf1'']" "''amf2''" demo_eq slice_a demo_tai]
  show ?thesis
    by simp
qed

text \<open>
  A patch for an AMF that is not the first of the list is stored at the first one: its data become
  the result of the patch, and the addressed AMF keeps its data, with the placeholder in the
  place of its empty slice differentiators. The answer is nevertheless that of a successful patch.
\<close>

theorem patch_updates_first_amf:
  assumes "config_ok cfg" and "AmfList cfg = a0 # as" and "amf_NfId a0 \<noteq> nfId" and "amf_of cfg nfId = Some data"
    and "DecodePatch env (map add_empty_sd items) = Inr patch"
    and "Apply env patch (remove_all dummyString (MarshalData env (map fill_dummy data))) = Inr modified"
    and "UnmarshalData env modified (amf_Data a0) = (d, None)" and "list_all data_ok d"
  shows "\<exists>cfg' l. NssaiAvailabilityNfInstancePatch env cfg items nfId = Ok (cfg', AuthorizedInfo l) \<and>
    amf_of cfg' nfId = Some (map fill_dummy data) \<and> amf_of cfg' (amf_NfId a0) = Some d"
proof -
  obtain a where a: "List.find (\<lambda>a. amf_NfId a = nfId) (AmfList cfg) = Some a" "amf_Data a = data"
    using assms(4) by (auto simp: amf_of_def)
  then have data: "list_all data_ok data"
    using config_okD(4) [OF assms(1)] find_Some_in by metis
  let ?c = "put_amf cfg nfId (map fill_dummy data)"
  have c: "cfg\<lparr>AmfList := the (update_amf nfId (\<lambda>a. a\<lparr>amf_Data := map fill_dummy data\<rparr>) (AmfList cfg))\<rparr> = ?c"
    by (rule update_amf_put) (simp add: a)
  obtain as' where as': "AmfList ?c = a0 # as'"
    using assms(2,3) by (cases "update_amf nfId (\<lambda>a. a\<lparr>amf_Data := map fill_dummy data\<rparr>) as")
      (simp_all add: put_amf_def)
  let ?c' = "?c\<lparr>AmfList := a0\<lparr>amf_Data := d\<rparr> # as'\<rparr>"
  have ok: "config_ok ?c'"
    using put_amf_config_ok [OF assms(1) fill_dummy_data_ok [OF data], of nfId] as' assms(8)
    by (simp add: config_ok_def)
  have nf: "amf_of ?c' nfId = Some (map fill_dummy data)"
    using fun_cong [OF amf_of_put [of cfg nfId "map fill_dummy data"], of nfId] as' assms(3)
    by (simp add: amf_of_def)
  obtain l where "AuthorizeOfAmfFromConfig ?c' nfId = Ok l"
    using AuthorizeOfAmfFromConfig_total [OF ok nf] by blast
  then have "NssaiAvailabilityNfInstancePatch env cfg items nfId = Ok (?c', AuthorizedInfo l)"
    using a assms(5-7) c as' by (simp add: NssaiAvailabilityNfInstancePatch_def Let_def)
  with nf show ?thesis
    by (intro exI [of _ ?c'] exI [of _ l]) (simp add: amf_of_def)
qed

definition demo_env :: "unit json_env" where
  "demo_env = \<lparr>MarshalData = (\<lambda>_. ''[]''), DecodePatch = (\<lambda>items. if items = [] then Inl ''empty'' else Inr ()),
     Apply = (\<lambda>_ s. Inr s), UnmarshalData = (\<lambda>s l. ([], None))\<rparr>"

definition demo_item :: PatchItem where
  "demo_item = \<lparr>patch_Op = ''remove'', patch_Path = ''/0'', patch_From = [], patch_Value = JNull\<rparr>"

definition two_amfs :: NssfConfig where
  "two_amfs = demo_config\<lparr>AmfList := [\<lparr>amf_NfId = ''amf1'', amf_Data = demo_data\<rparr>,
     \<lparr>amf_NfId = ''amf2'', amf_Data = demo_data\<rparr>]\<rparr>"

theorem patch_updates_first_amf_witness:
  "\<exists>cfg' l. NssaiAvailabilityNfInstancePatch demo_env two_amfs [demo_item] ''amf2'' = Ok (cfg', AuthorizedInfo l) \<and>
     amf_of cfg' ''amf2'' = Some (map fill_dummy demo_data) \<and> amf_of cfg' ''amf1'' = Some []"
proof -
  have ok: "config_ok two_amfs" "amf_of two_amfs ''amf2'' = Some demo_data"
    by code_simp+
  have "AmfList two_amfs = \<lparr>amf_NfId = ''amf1'', amf_Data = demo_data\<rparr> # [\<lparr>amf_NfId = ''amf2'', amf_Data = demo_data\<rparr>]"
    by (simp add: two_amfs_def)
  from patch_updates_first_amf [OF ok(1) this _ ok(2), of demo_env "[demo_item]" "()"] show ?thesis
    by (simp add: demo_env_def)
qed

text \<open>
  A patch that cannot be applied is answered with a conflict, but it leaves the placeholder in the
  stored data: from then on no S-NSSAI without a slice differentiator is supported by that AMF.
\<close>

theorem failed_patch_hides_slices:
  assumes "config_ok cfg" and "amf_of cfg nfId = Some data"
    and "DecodePatch env (map add_empty_sd items) = Inr patch"
    and "Apply env patch (remove_all dummyString (MarshalData env (map fill_dummy data))) = Inl e"
  shows "\<exists>cfg'. NssaiAvailabilityNfInstancePatch env cfg items nfId =
      Ok (cfg', AvailabilityProblem (patch_problem INVALID_REQUEST StatusConflict e)) \<and>
    (\<forall>s t. Sd s = [] \<longrightarrow> CheckSupportedSnssaiInAmfTa cfg' s nfId t = Ok False)"
proof -
  obtain a where a: "List.find (\<lambda>a. amf_NfId a = nfId) (AmfList cfg) = Some a" "amf_Data a = data"
    using assms(2) by (auto simp: amf_of_def)
  then have data: "list_all data_ok data"
    using config_okD(4) [OF assms(1)] find_Some_in by metis
  let ?c = "put_amf cfg nfId (map fill_dummy data)"
  have "cfg\<lparr>AmfList := the (update_amf nfId (\<lambda>a. a\<lparr>amf_Data := map fill_dummy data\<rparr>) (AmfList cfg))\<rparr> = ?c"
    by (rule update_amf_put) (simp add: a)
  then have "NssaiAvailabilityNfInstancePatch env cfg items nfId =
      Ok (?c, AvailabilityProblem (patch_problem INVALID_REQUEST StatusConflict e))"
    using a assms(3,4) by (simp add: NssaiAvailabilityNfInstancePatch_def Let_def)
  moreover have "config_ok ?c"
    using put_amf_config_ok [OF assms(1) fill_dummy_data_ok [OF data]] .
  ultimately show ?thesis
    by (auto simp: CheckSupportedSnssaiInAmfTa_eq amf_of_put fill_dummy_hides)
qed

theorem failed_patch_hides_slices_witness:
  "\<exists>cfg'. NssaiAvailabilityNfInstancePatch (demo_env\<lparr>Apply := \<lambda>_ _. Inl ''missing path''\<rparr>) demo_config [demo_item] ''amf1'' =
      Ok (cfg', AvailabilityProblem (patch_problem INVALID_REQUEST StatusConflict ''missing path'')) \<and>
     CheckSupportedSnssaiInAmfTa cfg' slice_c ''amf1'' demo_tai = Ok False"
proof -
  have "amf_of demo_config ''amf1'' = Some demo_data"
    by code_simp
  from failed_patch_hides_slices [OF demo_config_ok this, of "demo_env\<lparr>Apply := \<lambda>_ _. Inl ''missing path''\<rparr>" "[demo_item]" "()"]
  show ?thesis
    by (auto simp: demo_env_def slice_c_def)
qed

text \<open>
  As long as subscriptions are only added, their identifiers are the numbers from 1 on in order: the
  next subscription gets the next number, which no other one has.
\<close>

theorem subscription_ids_in_order:
  assumes "config_ok cfg" and "map SubscriptionId (Subscriptions cfg) = map Itoa [1 ..< Suc n]" and "Suc n < 2 ^ 32"
  shows "\<exists>cfg' expiry l. NssaiAvailabilitySubscriptionCreate cfg d =
      Ok (cfg', SubscriptionCreated (Itoa (Suc n)) expiry l) \<and>
    map SubscriptionId (Subscriptions cfg') = map Itoa [1 ..< Suc (Suc n)] \<and>
    Itoa (Suc n) \<notin> set (map SubscriptionId (Subscriptions cfg))"
proof -
  have len: "length (Subscriptions cfg) = n"
    using arg_cong [OF assms(2), of length] by simp
  have "getUnusedSubscriptionID cfg = Ok (Itoa (Suc n))"
    using unused_id_consecutive [of "Subscriptions cfg" 1] assms(2,3) len by (simp add: getUnusedSubscriptionID_def)
  from create_with_id [OF assms(1) this, of d] obtain expiry l where
    "NssaiAvailabilitySubscriptionCreate cfg d =
      Ok (cfg\<lparr>Subscriptions := Subscriptions cfg @ [\<lparr>SubscriptionId = Itoa (Suc n), SubscriptionData = Some d\<rparr>]\<rparr>,
        SubscriptionCreated (Itoa (Suc n)) expiry l)"
    by blast
  moreover have "Itoa (Suc n) \<notin> set (map Itoa [1 ..< Suc n])"
    by (auto simp: Itoa_inj simp del: upt_Suc)
  moreover have "[1 ..< Suc (Suc n)] = [1 ..< Suc n] @ [Suc n]"
    by simp
  ultimately show ?thesis
    using assms(2) by (simp del: upt_Suc)
qed

definition demo_subscription :: NssfEventSubscriptionCreateData where
  "demo_subscription = \<lparr>TaiList = [demo_tai], Expiry = None\<rparr>"

theorem subscription_ids_in_order_witness:
  "\<exists>cfg' expiry l. NssaiAvailabilitySubscriptionCreate demo_config demo_subscription =
     Ok (cfg', SubscriptionCreated (Itoa 1) expiry l)"
  using subscription_ids_in_order [OF demo_config_ok, of 0 demo_subscription]
  by (auto simp: demo_config_def)

text \<open>
  Once the first subscription of the list is not number 1, which one cancellation is enough for,
  every new subscription gets the identifier 1: two new subscriptions share it.
\<close>

theorem subscription_id_reused:
  assumes "config_ok cfg" and "Subscriptions cfg = s # ss" and "Atoi (SubscriptionId s) = Some i"
    and "word_of_int i \<noteq> (1 :: u32)"
  shows "\<exists>cfg1 cfg2 e1 e2 l1 l2.
    NssaiAvailabilitySubscriptionCreate cfg d1 = Ok (cfg1, SubscriptionCreated (Itoa 1) e1 l1) \<and>
    NssaiAvailabilitySubscriptionCreate cfg1 d2 = Ok (cfg2, SubscriptionCreated (Itoa 1) e2 l2) \<and>
    \<not> distinct (map SubscriptionId (Subscriptions cfg2))"
proof -
  have one: "getUnusedSubscriptionID (cfg\<lparr>Subscriptions := s # l\<rparr>) = Ok (Itoa 1)" for l
    using assms(3,4) by (simp add: getUnusedSubscriptionID_def)
  have "getUnusedSubscriptionID cfg = Ok (Itoa 1)"
    using assms(2,3,4) by (simp add: getUnusedSubscriptionID_def)
  from create_with_id [OF assms(1) this, of d1]
    create_with_id [of "cfg\<lparr>Subscriptions := s # ss @ [\<lparr>SubscriptionId = Itoa 1, SubscriptionData = Some d1\<rparr>]\<rparr>" "Itoa 1" d2]
    one assms(1,2)
  show ?thesis
    by auto
qed

theorem subscription_id_reused_witness:
  "\<exists>cfg1 cfg2 e1 e2 l1 l2.
    NssaiAvailabilitySubscriptionCreate (demo_config\<lparr>Subscriptions := [\<lparr>SubscriptionId = ''2'', SubscriptionData = None\<rparr>]\<rparr>)
      demo_subscription = Ok (cfg1, SubscriptionCreated (Itoa 1) e1 l1) \<and>
    NssaiAvailabilitySubscriptionCreate cfg1 demo_subscription = Ok (cfg2, SubscriptionCreated (Itoa 1) e2 l2) \<and>
    \<not> distinct (map SubscriptionId (Subscriptions cfg2))"
proof -
  have "Atoi ''2'' = Some 2"
    by code_simp
  with subscription_id_reused [of "demo_config\<lparr>Subscriptions := [\<lparr>SubscriptionId = ''2'', SubscriptionData = None\<rparr>]\<rparr>"
      "\<lparr>SubscriptionId = ''2'', SubscriptionData = None\<rparr>" "[]" 2 demo_subscription demo_subscription]
  show ?thesis
    by (simp add: demo_config_ok)
qed

end
