(* ===== verification/Upf_Perio.thy ===== *)
theory Upf_Perio
  imports Upf_Report "HOL-Library.AList"
begin

text \<open>
  Periodic usage reporting of the UPF (\<^verbatim>\<open>NFs/upf/internal/forwarder/perio/server.go\<close>): one server
  goroutine that reads events from a buffered channel, and one ticker goroutine per period.

  The goroutines are the rules of \<open>perio_step\<close>: a producer or a ticker sends on the channel when
  it has room, the server takes an event when it is idle, and the unbuffered send on \<open>stopCh\<close> of
  \<open>stopTicker\<close> meets the ticker only while the ticker waits in its \<open>select\<close>. Go maps are association lists with
  distinct keys; the order in which \<open>range\<close> visits a map is an argument. The answer of
  \<open>queryURR\<close>, a function of the driver, is an argument of the event that asks for it. An event is served in one step, up to
  the point where the server waits in \<open>stopTicker\<close>; that \<open>queryURR\<close> and \<open>NotifySessReport\<close> may themselves block is left out.
\<close>

section \<open>State\<close>

datatype EventType = TYPE_PERIO_ADD | TYPE_PERIO_DEL | TYPE_PERIO_TIMEOUT | TYPE_SERVER_CLOSE

record Event =
  eType :: EventType
  ev_lSeid :: u64
  ev_urrid :: u32
  ev_period :: int

record PERIOGroup =
  urrids :: "(u64 \<times> u32 list) list"
  group_period :: int

definition EVENT_CHANNEL_LEN :: nat where "EVENT_CHANNEL_LEN = 512"

text \<open>Where a ticker goroutine stands: in its \<open>select\<close>, or sending a time-out on the channel.\<close>

datatype ticker_state = Waiting | Sending

text \<open>
  Where the server stands: at the receive, in \<open>stopTicker\<close> for one group, in the loop of the close event,
  or returned, with the channel closed.
\<close>

datatype server_state = Idle | Stopping int | Closing | Stopped

type_synonym urr_query = "(u64 \<times> u32 list) list"
type_synonym urr_answer = "(u64 \<times> USAReport list) list option"

record perio =
  evtCh :: "Event list"
  perioList :: "(int \<times> PERIOGroup) list"
  tickers :: "(int \<times> ticker_state) list"
  server :: server_state
  queries :: "urr_query list"
  notified :: "(u64 \<times> USAReport list) list"
  send_panicked :: bool

definition OpenServer :: perio where
  "OpenServer = \<lparr>evtCh = [], perioList = [], tickers = [], server = Idle, queries = [], notified = [],
     send_panicked = False\<rparr>"

section \<open>Events\<close>

text \<open>\<open>newTicker\<close> of a new group; \<open>time.NewTicker\<close> panics for a period that is not positive.\<close>

definition newTicker :: "int \<Rightarrow> perio \<Rightarrow> (unit, perio) outcome" where
  "newTicker p s = (if p \<le> 0 then Panic else Ok (s\<lparr>tickers := AList.update p Waiting (tickers s)\<rparr>))"

definition add_urr :: "u64 \<Rightarrow> u32 \<Rightarrow> PERIOGroup \<Rightarrow> PERIOGroup" where
  "add_urr seid urr g =
     (case map_of (urrids g) seid of
        None \<Rightarrow> g\<lparr>urrids := AList.update seid [urr] (urrids g)\<rparr>
      | Some l \<Rightarrow> if urr \<in> set l then g else g\<lparr>urrids := AList.update seid (l @ [urr]) (urrids g)\<rparr>)"

definition perio_add :: "Event \<Rightarrow> perio \<Rightarrow> (unit, perio) outcome" where
  "perio_add e s =
     (case map_of (perioList s) (ev_period e) of
        Some g \<Rightarrow> Ok (s\<lparr>perioList := AList.update (ev_period e) (add_urr (ev_lSeid e) (ev_urrid e) g) (perioList s)\<rparr>)
      | None \<Rightarrow>
          obind (newTicker (ev_period e) s) (\<lambda>s.
            Ok (s\<lparr>perioList := AList.update (ev_period e)
                   (add_urr (ev_lSeid e) (ev_urrid e) \<lparr>urrids = [], group_period = ev_period e\<rparr>) (perioList s)\<rparr>)))"

definition has_urr :: "u64 \<Rightarrow> u32 \<Rightarrow> PERIOGroup \<Rightarrow> bool" where
  "has_urr seid urr g \<longleftrightarrow> (case map_of (urrids g) seid of None \<Rightarrow> False | Some l \<Rightarrow> urr \<in> set l)"

definition del_urr :: "u64 \<Rightarrow> u32 \<Rightarrow> PERIOGroup \<Rightarrow> PERIOGroup" where
  "del_urr seid urr g =
     (let l = filter (\<lambda>u. u \<noteq> urr) (case map_of (urrids g) seid of None \<Rightarrow> [] | Some l \<Rightarrow> l)
      in g\<lparr>urrids := (if l = [] then AList.delete seid (urrids g) else AList.update seid l (urrids g))\<rparr>)"

text \<open>
  The delete event with the order of its \<open>range\<close> loop over the groups. When the last rule of a
  group is gone the server enters \<open>stopTicker\<close>; the group is removed from the map after it.
\<close>

definition perio_del :: "int list \<Rightarrow> Event \<Rightarrow> perio \<Rightarrow> perio" where
  "perio_del order e s =
     (case List.find (\<lambda>p. case map_of (perioList s) p of None \<Rightarrow> False
                         | Some g \<Rightarrow> has_urr (ev_lSeid e) (ev_urrid e) g) order of
        None \<Rightarrow> s
      | Some p \<Rightarrow>
          let g = del_urr (ev_lSeid e) (ev_urrid e) (the (map_of (perioList s) p));
              s = s\<lparr>perioList := AList.update p g (perioList s)\<rparr>
          in if urrids g = [] then s\<lparr>server := Stopping p\<rparr> else s)"

definition stop_ticker :: "int \<Rightarrow> perio \<Rightarrow> perio" where
  "stop_ticker p s = s\<lparr>tickers := AList.delete p (tickers s), perioList := AList.delete p (perioList s)\<rparr>"

definition set_perio_flag :: "USAReport \<Rightarrow> USAReport" where
  "set_perio_flag r =
     r\<lparr>USARTrigger := (USARTrigger r)\<lparr>usar_Flags := usar_Flags (USARTrigger r) OR USAR_TRIG_PERIO\<rparr>\<rparr>"

definition perio_timeout :: "urr_answer \<Rightarrow> Event \<Rightarrow> perio \<Rightarrow> perio" where
  "perio_timeout answer e s =
     (case map_of (perioList s) (ev_period e) of
        None \<Rightarrow> s
      | Some g \<Rightarrow>
          let s = s\<lparr>queries := queries s @ [urrids g]\<rparr>
          in (case answer of
                None \<Rightarrow> s
              | Some l \<Rightarrow> s\<lparr>notified := notified s @ map (\<lambda>(seid, rs). (seid, map set_perio_flag rs)) l\<rparr>))"

text \<open>One turn of the loop of \<open>Serve\<close>, up to the point where it is idle again or waits in \<open>stopTicker\<close>.\<close>

definition Serve :: "int list \<Rightarrow> urr_answer \<Rightarrow> Event \<Rightarrow> perio \<Rightarrow> (unit, perio) outcome" where
  "Serve order answer e s =
     (case eType e of
        TYPE_PERIO_ADD \<Rightarrow> perio_add e s
      | TYPE_PERIO_DEL \<Rightarrow> Ok (perio_del order e s)
      | TYPE_PERIO_TIMEOUT \<Rightarrow> Ok (perio_timeout answer e s)
      | TYPE_SERVER_CLOSE \<Rightarrow> Ok (s\<lparr>server := Closing\<rparr>))"

definition AddPeriodReportTimer :: "u64 \<Rightarrow> u32 \<Rightarrow> int \<Rightarrow> Event" where
  "AddPeriodReportTimer seid urr p = \<lparr>eType = TYPE_PERIO_ADD, ev_lSeid = seid, ev_urrid = urr, ev_period = p\<rparr>"

definition DelPeriodReportTimer :: "u64 \<Rightarrow> u32 \<Rightarrow> Event" where
  "DelPeriodReportTimer seid urr = \<lparr>eType = TYPE_PERIO_DEL, ev_lSeid = seid, ev_urrid = urr, ev_period = 0\<rparr>"

definition CloseEvent :: Event where
  "CloseEvent = \<lparr>eType = TYPE_SERVER_CLOSE, ev_lSeid = 0, ev_urrid = 0, ev_period = 0\<rparr>"

definition TimeoutEvent :: "int \<Rightarrow> Event" where
  "TimeoutEvent p = \<lparr>eType = TYPE_PERIO_TIMEOUT, ev_lSeid = 0, ev_urrid = 0, ev_period = p\<rparr>"

text \<open>The events producers send: the callers of the driver guard that a period is positive.\<close>

inductive produced :: "Event \<Rightarrow> bool" where
  "0 < p \<Longrightarrow> produced (AddPeriodReportTimer seid urr p)"
| "produced (DelPeriodReportTimer seid urr)"
| "produced CloseEvent"

section \<open>Steps of the goroutines\<close>

inductive perio_step :: "perio \<Rightarrow> perio \<Rightarrow> bool" where
  send: "produced e \<Longrightarrow> server s \<noteq> Stopped \<Longrightarrow> length (evtCh s) < EVENT_CHANNEL_LEN \<Longrightarrow>
    perio_step s (s\<lparr>evtCh := evtCh s @ [e]\<rparr>)"
| send_closed: "produced e \<Longrightarrow> server s = Stopped \<Longrightarrow> perio_step s (s\<lparr>send_panicked := True\<rparr>)"
| tick: "map_of (tickers s) p = Some Waiting \<Longrightarrow>
    perio_step s (s\<lparr>tickers := AList.update p Sending (tickers s)\<rparr>)"
| ticker_send: "map_of (tickers s) p = Some Sending \<Longrightarrow> server s \<noteq> Stopped \<Longrightarrow>
    length (evtCh s) < EVENT_CHANNEL_LEN \<Longrightarrow>
    perio_step s (s\<lparr>tickers := AList.update p Waiting (tickers s), evtCh := evtCh s @ [TimeoutEvent p]\<rparr>)"
| serve: "server s = Idle \<Longrightarrow> evtCh s = e # es \<Longrightarrow> set order = set (map fst (perioList s)) \<Longrightarrow>
    Serve order answer e (s\<lparr>evtCh := es\<rparr>) = Ok s' \<Longrightarrow> perio_step s s'"
| stop: "server s = Stopping p \<Longrightarrow> map_of (tickers s) p = Some Waiting \<Longrightarrow>
    perio_step s ((stop_ticker p s)\<lparr>server := Idle\<rparr>)"
| close_group: "server s = Closing \<Longrightarrow> map_of (tickers s) p = Some Waiting \<Longrightarrow>
    perio_step s (stop_ticker p s)"
| close_channel: "server s = Closing \<Longrightarrow> perioList s = [] \<Longrightarrow> perio_step s (s\<lparr>server := Stopped\<rparr>)"

inductive perio_reachable :: "perio \<Rightarrow> bool" where
  start: "perio_reachable OpenServer"
| step: "perio_reachable s \<Longrightarrow> perio_step s s' \<Longrightarrow> perio_reachable s'"

inductive_cases perio_stepE: "perio_step s s'"

section \<open>The invariant\<close>

definition group_ok :: "int \<Rightarrow> PERIOGroup \<Rightarrow> bool" where
  "group_ok p g \<longleftrightarrow> group_period g = p \<and> distinct (map fst (urrids g)) \<and>
     (\<forall>seid l. map_of (urrids g) seid = Some l \<longrightarrow> l \<noteq> [] \<and> distinct l)"

definition perio_inv :: "perio \<Rightarrow> bool" where
  "perio_inv s \<longleftrightarrow>
     distinct (map fst (perioList s)) \<and> distinct (map fst (tickers s)) \<and>
     dom (map_of (tickers s)) = dom (map_of (perioList s)) \<and>
     (\<forall>p g. map_of (perioList s) p = Some g \<longrightarrow> 0 < p \<and> group_ok p g \<and> (urrids g = [] \<longleftrightarrow> server s = Stopping p)) \<and>
     (\<forall>p. server s = Stopping p \<longrightarrow> p \<in> dom (map_of (perioList s))) \<and>
     (server s = Stopped \<longrightarrow> perioList s = []) \<and>
     (\<forall>e\<in>set (evtCh s). eType e = TYPE_PERIO_ADD \<longrightarrow> 0 < ev_period e) \<and>
     length (evtCh s) \<le> EVENT_CHANNEL_LEN"

lemma perio_invI:
  assumes "distinct (map fst (perioList s))" and "distinct (map fst (tickers s))"
    and "dom (map_of (tickers s)) = dom (map_of (perioList s))"
    and "\<And>p g. map_of (perioList s) p = Some g \<Longrightarrow> 0 < p \<and> group_ok p g \<and> (urrids g = [] \<longleftrightarrow> server s = Stopping p)"
    and "\<And>p. server s = Stopping p \<Longrightarrow> p \<in> dom (map_of (perioList s))"
    and "server s = Stopped \<Longrightarrow> perioList s = []"
    and "\<And>e. e \<in> set (evtCh s) \<Longrightarrow> eType e = TYPE_PERIO_ADD \<Longrightarrow> 0 < ev_period e"
    and "length (evtCh s) \<le> EVENT_CHANNEL_LEN"
  shows "perio_inv s"
  using assms unfolding perio_inv_def by blast

lemma perio_invD:
  assumes "perio_inv s"
  shows "distinct (map fst (perioList s))" and "distinct (map fst (tickers s))"
    and "dom (map_of (tickers s)) = dom (map_of (perioList s))"
    and "map_of (perioList s) p = Some g \<Longrightarrow> 0 < p"
    and "map_of (perioList s) p = Some g \<Longrightarrow> group_ok p g"
    and "map_of (perioList s) p = Some g \<Longrightarrow> urrids g = [] \<longleftrightarrow> server s = Stopping p"
    and "server s = Stopping p \<Longrightarrow> p \<in> dom (map_of (perioList s))"
    and "server s = Stopped \<Longrightarrow> perioList s = []"
    and "e \<in> set (evtCh s) \<Longrightarrow> eType e = TYPE_PERIO_ADD \<Longrightarrow> 0 < ev_period e"
    and "length (evtCh s) \<le> EVENT_CHANNEL_LEN"
  using assms unfolding perio_inv_def by blast+

lemma distinct_alist_update: "distinct (map fst al) \<Longrightarrow> distinct (map fst (AList.update k v al))"
  by (rule distinct_update)

lemma distinct_alist_delete: "distinct (map fst al) \<Longrightarrow> distinct (map fst (AList.delete k al))"
  by (rule distinct_delete)

declare map_of_eq_Some_iff [simp del]

lemmas alist_simps = update_conv delete_conv' distinct_alist_update distinct_alist_delete

lemma produced_period: "produced e \<Longrightarrow> eType e = TYPE_PERIO_ADD \<Longrightarrow> 0 < ev_period e"
  by (induction rule: produced.induct)
    (simp_all add: AddPeriodReportTimer_def DelPeriodReportTimer_def CloseEvent_def)

text \<open>What the group operations do to the rules of a group.\<close>

definition group_rules :: "PERIOGroup \<Rightarrow> (u64 \<times> u32) set" where
  "group_rules g = {(seid, urr). has_urr seid urr g}"

lemma add_urr_ok: "group_ok p g \<Longrightarrow> group_ok p (add_urr seid urr g)"
  by (auto simp: group_ok_def add_urr_def alist_simps split: option.split)

lemma add_urr_rules: "group_rules (add_urr seid urr g) = insert (seid, urr) (group_rules g)"
  by (auto simp: group_rules_def has_urr_def add_urr_def alist_simps split: option.splits if_splits)

lemma add_urr_nonempty: "urrids (add_urr seid urr g) \<noteq> []"
proof
  assume "urrids (add_urr seid urr g) = []"
  then have "\<not> has_urr seid urr (add_urr seid urr g)"
    by (simp add: has_urr_def)
  with add_urr_rules [of seid urr g] show False
    by (auto simp: group_rules_def)
qed

lemma del_urr_ok: "group_ok p g \<Longrightarrow> group_ok p (del_urr seid urr g)"
  by (auto simp: group_ok_def del_urr_def alist_simps Let_def split: option.split)

lemma del_urr_rules:
  "distinct (map fst (urrids g)) \<Longrightarrow> group_rules (del_urr seid urr g) = group_rules g - {(seid, urr)}"
  by (cases "map_of (urrids g) seid")
    (auto simp: group_rules_def has_urr_def del_urr_def alist_simps Let_def filter_empty_conv
      split: option.splits if_splits)

lemma group_rules_empty_iff: "group_ok p g \<Longrightarrow> group_rules g = {} \<longleftrightarrow> urrids g = []"
proof
  assume "group_ok p g" and "group_rules g = {}"
  then show "urrids g = []"
    by (cases "urrids g") (force simp: group_ok_def group_rules_def has_urr_def split: option.splits if_splits)+
qed (auto simp: group_rules_def has_urr_def)

section \<open>Every step keeps it\<close>

lemma dom_alist [simp]:
  "dom (map_of (AList.update k v al)) = insert k (dom (map_of al))"
  "dom (map_of (AList.delete k al)) = dom (map_of al) - {k}"
  by (simp_all add: update_conv' delete_conv')

lemma perio_inv_evtCh:
  assumes "perio_inv s" and "\<forall>e\<in>set es. eType e = TYPE_PERIO_ADD \<longrightarrow> 0 < ev_period e"
    and "length es \<le> EVENT_CHANNEL_LEN"
  shows "perio_inv (s\<lparr>evtCh := es\<rparr>)"
  using assms by (simp add: perio_inv_def)

lemma perio_inv_ticker:
  assumes "perio_inv s" and "map_of (tickers s) p \<noteq> None"
  shows "perio_inv (s\<lparr>tickers := AList.update p t (tickers s)\<rparr>)"
proof -
  have "insert p (dom (map_of (tickers s))) = dom (map_of (tickers s))"
    using assms(2) by (auto simp: dom_def)
  then show ?thesis
    using assms(1) by (simp add: perio_inv_def distinct_alist_update)
qed

lemma perio_inv_irrelevant:
  "perio_inv s \<Longrightarrow> perio_inv (s\<lparr>queries := q\<rparr>)"
  "perio_inv s \<Longrightarrow> perio_inv (s\<lparr>notified := n\<rparr>)"
  "perio_inv s \<Longrightarrow> perio_inv (s\<lparr>send_panicked := b\<rparr>)"
  by (simp_all add: perio_inv_def)

lemma perio_inv_group:
  assumes "perio_inv s" and "server s = Idle" and "map_of (perioList s) p = Some g"
    and "group_ok p g'" and "urrids g' \<noteq> []"
  shows "perio_inv (s\<lparr>perioList := AList.update p g' (perioList s)\<rparr>)"
proof (rule perio_invI)
  fix q h
  assume "map_of (perioList (s\<lparr>perioList := AList.update p g' (perioList s)\<rparr>)) q = Some h"
  then show "0 < q \<and> group_ok q h \<and>
      (urrids h = [] \<longleftrightarrow> server (s\<lparr>perioList := AList.update p g' (perioList s)\<rparr>) = Stopping q)"
    using perio_invD(4,5,6) [OF assms(1)] assms(2-5) by (simp add: update_conv split: if_splits)
qed (use assms perio_invD [OF assms(1)] in \<open>auto simp: distinct_alist_update\<close>)

lemma perio_add_inv:
  assumes "perio_inv s" and "server s = Idle" and "0 < ev_period e" and "perio_add e s = Ok s'"
  shows "perio_inv s'"
proof (cases "map_of (perioList s) (ev_period e)")
  case (Some g)
  with assms(4) have "s' = s\<lparr>perioList := AList.update (ev_period e) (add_urr (ev_lSeid e) (ev_urrid e) g) (perioList s)\<rparr>"
    by (simp add: perio_add_def)
  with perio_inv_group [OF assms(1,2) Some add_urr_ok [OF perio_invD(5) [OF assms(1) Some]] add_urr_nonempty]
  show ?thesis by simp
next
  case None
  let ?p = "ev_period e" and ?g = "add_urr (ev_lSeid e) (ev_urrid e) \<lparr>urrids = [], group_period = ev_period e\<rparr>"
  have s': "s' = s\<lparr>tickers := AList.update ?p Waiting (tickers s), perioList := AList.update ?p ?g (perioList s)\<rparr>"
    using None assms(3,4) by (simp add: perio_add_def newTicker_def)
  have ok: "group_ok ?p ?g" "urrids ?g \<noteq> []"
    by (rule add_urr_ok, simp add: group_ok_def) (rule add_urr_nonempty)
  show ?thesis
  proof (rule perio_invI)
    fix q h
    assume "map_of (perioList s') q = Some h"
    then show "0 < q \<and> group_ok q h \<and> (urrids h = [] \<longleftrightarrow> server s' = Stopping q)"
      using perio_invD(4,5,6) [OF assms(1)] assms(2,3) ok by (simp add: s' update_conv split: if_splits)
  qed (use assms(2) perio_invD [OF assms(1)] in \<open>auto simp: s' distinct_alist_update\<close>)
qed

lemma perio_del_cases:
  assumes "perio_inv s"
  obtains "perio_del order e s = s" "\<forall>p\<in>set order. \<forall>g. map_of (perioList s) p = Some g \<longrightarrow> \<not> has_urr (ev_lSeid e) (ev_urrid e) g"
  | p g where "map_of (perioList s) p = Some g" "has_urr (ev_lSeid e) (ev_urrid e) g"
      "urrids (del_urr (ev_lSeid e) (ev_urrid e) g) \<noteq> []"
      "perio_del order e s = s\<lparr>perioList := AList.update p (del_urr (ev_lSeid e) (ev_urrid e) g) (perioList s)\<rparr>"
  | p g where "map_of (perioList s) p = Some g" "has_urr (ev_lSeid e) (ev_urrid e) g"
      "urrids (del_urr (ev_lSeid e) (ev_urrid e) g) = []"
      "perio_del order e s = s\<lparr>perioList := AList.update p (del_urr (ev_lSeid e) (ev_urrid e) g) (perioList s), server := Stopping p\<rparr>"
proof (cases "List.find (\<lambda>p. case map_of (perioList s) p of None \<Rightarrow> False | Some g \<Rightarrow> has_urr (ev_lSeid e) (ev_urrid e) g) order")
  case None
  then have "\<forall>p\<in>set order. \<forall>g. map_of (perioList s) p = Some g \<longrightarrow> \<not> has_urr (ev_lSeid e) (ev_urrid e) g"
    unfolding find_None_iff by (auto split: option.splits)
  with None that(1) show ?thesis
    by (simp add: perio_del_def)
next
  case (Some p)
  then obtain g where g: "map_of (perioList s) p = Some g" "has_urr (ev_lSeid e) (ev_urrid e) g"
    by (auto simp: find_Some_iff split: option.splits)
  with Some that(2,3) show ?thesis
    by (cases "urrids (del_urr (ev_lSeid e) (ev_urrid e) g) = []") (simp_all add: perio_del_def Let_def)
qed

lemma perio_del_inv:
  assumes "perio_inv s" and "server s = Idle"
  shows "perio_inv (perio_del order e s)"
proof (cases rule: perio_del_cases [OF assms(1), of order e])
  case 1
  with assms(1) show ?thesis by simp
next
  case (2 p g)
  with perio_inv_group [OF assms 2(1) del_urr_ok [OF perio_invD(5) [OF assms(1) 2(1)]]] show ?thesis
    by simp
next
  case (3 p g)
  show ?thesis
    unfolding 3(4)
  proof (rule perio_invI, goal_cases)
    case (4 q h)
    then show ?case
      using perio_invD(4,5,6) [OF assms(1)] assms(2) 3 del_urr_ok [OF perio_invD(5) [OF assms(1) 3(1)], of "ev_lSeid e" "ev_urrid e"]
      by (auto simp: update_conv split: if_splits)
  qed (use assms(2) 3(1) perio_invD [OF assms(1)] in \<open>auto simp: distinct_alist_update\<close>)
qed

lemma stop_ticker_inv:
  assumes "perio_inv s" and "server s = Stopping p \<and> t = Idle \<or> server s = Closing \<and> t = Closing"
  shows "perio_inv ((stop_ticker p s)\<lparr>server := t\<rparr>)"
proof (rule perio_invI, goal_cases)
  case (4 q h)
  then show ?case
    using perio_invD(4,5,6) [OF assms(1)] assms(2) by (auto simp: stop_ticker_def delete_conv' split: if_splits)
qed (use assms(2) perio_invD [OF assms(1)] in \<open>auto simp: stop_ticker_def distinct_alist_delete\<close>)

lemma Serve_inv:
  assumes "perio_inv s" and "server s = Idle" and "eType e = TYPE_PERIO_ADD \<Longrightarrow> 0 < ev_period e"
    and "Serve order answer e s = Ok s'"
  shows "perio_inv s'"
proof (cases "eType e")
  case TYPE_PERIO_ADD
  with assms perio_add_inv show ?thesis
    by (simp add: Serve_def)
next
  case TYPE_PERIO_DEL
  with assms perio_del_inv show ?thesis
    by (auto simp: Serve_def)
next
  case TYPE_PERIO_TIMEOUT
  with assms show ?thesis
    by (auto simp: Serve_def perio_timeout_def perio_inv_irrelevant Let_def split: option.splits)
next
  case TYPE_SERVER_CLOSE
  with assms(4) have "s' = s\<lparr>server := Closing\<rparr>"
    by (simp add: Serve_def)
  then show ?thesis
    using assms(1,2) by (simp add: perio_inv_def)
qed

lemma perio_step_inv:
  assumes "perio_step s s'" and "perio_inv s"
  shows "perio_inv s'"
  using assms(1)
proof cases
  case (send e)
  then show ?thesis
    using perio_invD(9) [OF assms(2)] produced_period by (auto intro!: perio_inv_evtCh assms(2))
next
  case (ticker_send p)
  have "perio_inv (s\<lparr>tickers := AList.update p Waiting (tickers s)\<rparr>)"
    using ticker_send by (intro perio_inv_ticker assms(2)) simp
  from perio_inv_evtCh [OF this, of "evtCh s @ [TimeoutEvent p]"] ticker_send show ?thesis
    using perio_invD(9) [OF assms(2)] by (auto simp: TimeoutEvent_def)
next
  case (serve e es order answer)
  have "perio_inv (s\<lparr>evtCh := es\<rparr>)"
    using perio_invD(9,10) [OF assms(2)] serve by (intro perio_inv_evtCh assms(2)) auto
  from Serve_inv [OF this _ _ serve(4)] serve perio_invD(9) [OF assms(2)] show ?thesis
    by simp
next
  case (stop p)
  with stop_ticker_inv [OF assms(2), of p Idle] show ?thesis by simp
next
  case (close_group p)
  then have "(stop_ticker p s)\<lparr>server := Closing\<rparr> = s'"
    by (intro perio.equality) (simp_all add: stop_ticker_def)
  with close_group stop_ticker_inv [OF assms(2), of p Closing] show ?thesis
    by simp
next
  case close_channel
  then show ?thesis
    using assms(2) by (auto simp: perio_inv_def)
qed (use assms(2) in \<open>simp_all add: perio_inv_ticker perio_inv_irrelevant\<close>)

lemma perio_reachable_inv: "perio_reachable s \<Longrightarrow> perio_inv s"
  by (induction rule: perio_reachable.induct)
    (simp_all add: perio_step_inv, simp add: OpenServer_def perio_inv_def)

section \<open>Registered rules\<close>

definition registered :: "perio \<Rightarrow> (int \<times> u64 \<times> u32) set" where
  "registered s = {(p, seid, urr). \<exists>g. map_of (perioList s) p = Some g \<and> (seid, urr) \<in> group_rules g}"

definition query_rules :: "urr_query \<Rightarrow> (u64 \<times> u32) set" where
  "query_rules q = {(seid, urr). \<exists>l. (seid, l) \<in> set q \<and> urr \<in> set l}"

lemma registered_simps [simp]:
  "registered (s\<lparr>evtCh := es\<rparr>) = registered s" "registered (s\<lparr>tickers := t\<rparr>) = registered s"
  "registered (s\<lparr>server := v\<rparr>) = registered s" "registered (s\<lparr>queries := q\<rparr>) = registered s"
  "registered (s\<lparr>notified := n\<rparr>) = registered s"
  by (simp_all add: registered_def)

lemma perio_add_registered:
  assumes "perio_add e s = Ok s'"
  shows "registered s' = insert (ev_period e, ev_lSeid e, ev_urrid e) (registered s)"
proof (cases "map_of (perioList s) (ev_period e)")
  case (Some g)
  with assms show ?thesis
    by (auto simp: perio_add_def registered_def update_conv add_urr_rules split: if_splits)
next
  case None
  have "group_rules \<lparr>urrids = [], group_period = ev_period e\<rparr> = {}"
    by (simp add: group_rules_def has_urr_def)
  with None assms show ?thesis
    by (auto simp: perio_add_def newTicker_def registered_def update_conv add_urr_rules split: if_splits)
qed

lemma perio_del_registered:
  assumes "perio_inv s" and "set order = set (map fst (perioList s))"
  shows "(\<exists>p. (p, ev_lSeid e, ev_urrid e) \<in> registered s \<and>
      registered (perio_del order e s) = registered s - {(p, ev_lSeid e, ev_urrid e)}) \<or>
    (\<forall>p. (p, ev_lSeid e, ev_urrid e) \<notin> registered s) \<and> registered (perio_del order e s) = registered s"
proof -
  have del: "registered (s\<lparr>perioList := AList.update p (del_urr (ev_lSeid e) (ev_urrid e) g) (perioList s)\<rparr>) =
      registered s - {(p, ev_lSeid e, ev_urrid e)}" if "map_of (perioList s) p = Some g" for p g
    using that perio_invD(5) [OF assms(1) that]
    by (auto simp: registered_def update_conv del_urr_rules group_ok_def split: if_splits)
  show ?thesis
  proof (cases rule: perio_del_cases [OF assms(1), of order e])
    case 1
    then have "\<forall>p. (p, ev_lSeid e, ev_urrid e) \<notin> registered s"
      unfolding assms(2) by (auto simp: registered_def group_rules_def dest: map_of_SomeD) (metis fst_conv imageI map_of_SomeD)
    with 1 show ?thesis by simp
  next
    case (2 p g)
    with del [OF 2(1)] show ?thesis
      by (auto simp: registered_def group_rules_def)
  next
    case (3 p g)
    with del [OF 3(1)] show ?thesis
      by (auto simp: registered_def group_rules_def)
  qed
qed

lemma query_rules_group:
  assumes "perio_inv s" and "map_of (perioList s) p = Some g"
  shows "query_rules (urrids g) = {r. (p, r) \<in> registered s}"
proof -
  have "(seid, l) \<in> set (urrids g) \<longleftrightarrow> map_of (urrids g) seid = Some l" for seid l
    using perio_invD(5) [OF assms] by (simp add: group_ok_def map_of_eq_Some_iff)
  then show ?thesis
    using assms(2) by (auto simp: query_rules_def registered_def group_rules_def has_urr_def split: option.splits)
qed

lemma set_perio_flag_PERIO: "usar_PERIO (USARTrigger (set_perio_flag r))"
proof -
  have "(f OR USAR_TRIG_PERIO) AND USAR_TRIG_PERIO = USAR_TRIG_PERIO" for f
    by (rule bit_word_eqI) (auto simp: bit_simps)
  then show ?thesis
    by (simp add: usar_PERIO_def set_perio_flag_def)
qed

section \<open>When nothing moves\<close>

lemma Serve_total:
  assumes "eType e = TYPE_PERIO_ADD \<Longrightarrow> 0 < ev_period e"
  shows "\<exists>s'. Serve order answer e s = Ok s'"
  using assms by (auto simp: Serve_def perio_add_def newTicker_def split: EventType.splits option.split)

lemma stuck_iff:
  assumes "perio_inv s" and "server s \<noteq> Stopped"
  shows "(\<nexists>s'. perio_step s s') \<longleftrightarrow>
    length (evtCh s) = EVENT_CHANNEL_LEN \<and> (\<forall>p. map_of (tickers s) p \<noteq> Some Waiting) \<and>
    server s \<noteq> Idle \<and> perioList s \<noteq> []"
proof
  assume none: "\<nexists>s'. perio_step s s'"
  have len: "length (evtCh s) = EVENT_CHANNEL_LEN"
    using none perio_step.send [OF produced.intros(3) assms(2)] perio_invD(10) [OF assms(1)]
    by (metis le_neq_implies_less)
  have "server s \<noteq> Idle"
  proof
    assume idle: "server s = Idle"
    obtain e es where e: "evtCh s = e # es"
      using len by (cases "evtCh s") (auto simp: EVENT_CHANNEL_LEN_def)
    then obtain s' where "Serve (map fst (perioList s)) None e (s\<lparr>evtCh := es\<rparr>) = Ok s'"
      using Serve_total perio_invD(9) [OF assms(1)] by (metis list.set_intros(1))
    with perio_step.serve [OF idle e] none show False
      by blast
  qed
  moreover have "perioList s \<noteq> []"
  proof
    assume empty: "perioList s = []"
    then have "server s = Closing"
      using assms calculation perio_invD(7) [OF assms(1)] by (cases "server s") auto
    with empty none show False
      using perio_step.close_channel by blast
  qed
  ultimately show "length (evtCh s) = EVENT_CHANNEL_LEN \<and> (\<forall>p. map_of (tickers s) p \<noteq> Some Waiting) \<and>
    server s \<noteq> Idle \<and> perioList s \<noteq> []"
    using len none perio_step.tick by blast
next
  assume stuck: "length (evtCh s) = EVENT_CHANNEL_LEN \<and> (\<forall>p. map_of (tickers s) p \<noteq> Some Waiting) \<and>
    server s \<noteq> Idle \<and> perioList s \<noteq> []"
  show "\<nexists>s'. perio_step s s'"
  proof
    assume "\<exists>s'. perio_step s s'"
    then obtain s' where "perio_step s s'" ..
    then show False
      by cases (use stuck assms(2) in auto)
  qed
qed

section \<open>Properties\<close>

text \<open>
  C14. In every reachable state there is exactly one ticker per group of rules with the same period;
  every group has a rule, but for the one whose ticker is being stopped; every rule is registered once
  in its group; the channel never holds more than its capacity; and when the server has returned there
  is no ticker left that could send on the closed channel.
\<close>

theorem perio_invariant:
  assumes "perio_reachable s"
  shows "dom (map_of (tickers s)) = dom (map_of (perioList s)) \<and>
    distinct (map fst (tickers s)) \<and> distinct (map fst (perioList s)) \<and>
    (\<forall>p g. map_of (perioList s) p = Some g \<longrightarrow>
       0 < p \<and> group_ok p g \<and> (urrids g = [] \<longleftrightarrow> server s = Stopping p)) \<and>
    length (evtCh s) \<le> EVENT_CHANNEL_LEN \<and> (server s = Stopped \<longrightarrow> tickers s = [])"
proof -
  note inv = perio_invD [OF perio_reachable_inv [OF assms]]
  have "tickers s = []" if "server s = Stopped"
    using inv(3) inv(8) [OF that] by (cases "tickers s") auto
  with inv show ?thesis
    by blast
qed

text \<open>
  C15. What the server does with an event, in terms of the rules registered per period: an add event registers the
  rule for its period, a delete event removes the rule from one period it is registered for, if there is one,
  whatever the order in which the groups are visited, and a time-out leaves the registrations alone and
  queries exactly the rules registered for its period. The reports it passes on have the periodic
  trigger set.
\<close>

theorem perio_serves_registrations:
  assumes "perio_reachable s" and "evtCh s = e # es" and "set order = set (map fst (perioList s))"
    and "Serve order answer e (s\<lparr>evtCh := es\<rparr>) = Ok s'"
  shows "(eType e = TYPE_PERIO_ADD \<longrightarrow>
      registered s' = insert (ev_period e, ev_lSeid e, ev_urrid e) (registered s)) \<and>
    (eType e = TYPE_PERIO_DEL \<longrightarrow>
      (\<exists>p. (p, ev_lSeid e, ev_urrid e) \<in> registered s \<and>
        registered s' = registered s - {(p, ev_lSeid e, ev_urrid e)}) \<or>
      (\<forall>p. (p, ev_lSeid e, ev_urrid e) \<notin> registered s) \<and> registered s' = registered s) \<and>
    (eType e = TYPE_PERIO_TIMEOUT \<longrightarrow> registered s' = registered s \<and>
      (ev_period e \<in> dom (map_of (perioList s)) \<longrightarrow>
        (\<exists>q. queries s' = queries s @ [q] \<and> query_rules q = {r. (ev_period e, r) \<in> registered s})) \<and>
      (\<forall>x\<in>set (notified s') - set (notified s). \<forall>r\<in>set (snd x). usar_PERIO (USARTrigger r)))"
proof -
  have inv: "perio_inv (s\<lparr>evtCh := es\<rparr>)"
    using perio_invD(9,10) [OF perio_reachable_inv [OF assms(1)]] assms(2)
    by (intro perio_inv_evtCh perio_reachable_inv assms(1)) auto
  have "eType e = TYPE_PERIO_ADD \<longrightarrow>
      registered s' = insert (ev_period e, ev_lSeid e, ev_urrid e) (registered s)"
    using assms(4) perio_add_registered [of e "s\<lparr>evtCh := es\<rparr>" s'] by (auto simp: Serve_def)
  moreover have "eType e = TYPE_PERIO_DEL \<longrightarrow> s' = perio_del order e (s\<lparr>evtCh := es\<rparr>)"
    using assms(4) by (auto simp: Serve_def)
  moreover have "registered s' = registered s \<and>
      (ev_period e \<in> dom (map_of (perioList s)) \<longrightarrow>
        (\<exists>q. queries s' = queries s @ [q] \<and> query_rules q = {r. (ev_period e, r) \<in> registered s})) \<and>
      (\<forall>x\<in>set (notified s') - set (notified s). \<forall>r\<in>set (snd x). usar_PERIO (USARTrigger r))"
    if "eType e = TYPE_PERIO_TIMEOUT"
    using that assms(4) query_rules_group [OF inv]
    by (auto simp: Serve_def perio_timeout_def Let_def set_perio_flag_PERIO split: option.splits)
  ultimately show ?thesis
    using perio_del_registered [OF inv, of order e] assms(3) by simp
qed

text \<open>While the channel is full and the ticker is sending, nothing changes that the server waits for.\<close>

lemma stop_blocked:
  assumes "perio_step\<^sup>*\<^sup>* s s'" and "server s = Stopping p" and "length (evtCh s) = EVENT_CHANNEL_LEN" and "map_of (tickers s) p = Some Sending"
  shows "server s' = Stopping p \<and> length (evtCh s') = EVENT_CHANNEL_LEN \<and> map_of (tickers s') p = Some Sending"
  using assms(1)
proof (induction rule: rtranclp_induct)
  case base
  with assms(2-4) show ?case by simp
next
  case (step t u)
  from step.hyps(2) show ?case
    by cases (use step.IH in \<open>auto simp: update_conv'\<close>)
qed

text \<open>
  C16. Stopping a ticker. When the last rule of a period has been deleted, the server waits in \<open>stopTicker\<close> until the
  ticker of the period takes the stop signal. It can get out of there, by steps of the ticker and its own, exactly as long
  as the event channel is not full with the ticker blocked sending its time-out on it. In that case no sequence of steps
  of the server, of the tickers and of those who add and delete rules ever brings it back to serving events.
\<close>

theorem perio_stop_completes_exactly:
  assumes "perio_reachable s" and "server s = Stopping p"
  shows "(\<exists>s'. perio_step\<^sup>*\<^sup>* s s' \<and> server s' = Idle) \<longleftrightarrow>
    \<not> (length (evtCh s) = EVENT_CHANNEL_LEN \<and> map_of (tickers s) p = Some Sending)"
proof
  assume "\<exists>s'. perio_step\<^sup>*\<^sup>* s s' \<and> server s' = Idle"
  then show "\<not> (length (evtCh s) = EVENT_CHANNEL_LEN \<and> map_of (tickers s) p = Some Sending)"
    using stop_blocked [OF _ assms(2)] by fastforce
next
  assume free: "\<not> (length (evtCh s) = EVENT_CHANNEL_LEN \<and> map_of (tickers s) p = Some Sending)"
  have inv: "perio_inv s"
    by (rule perio_reachable_inv [OF assms(1)])
  have out: "\<exists>t'. perio_step t t' \<and> server t' = Idle" if "server t = Stopping p" "map_of (tickers t) p = Some Waiting" for t
    using perio_step.stop [OF that] by (intro exI [of _ "(stop_ticker p t)\<lparr>server := Idle\<rparr>"]) simp
  have "map_of (tickers s) p \<noteq> None"
    using perio_invD(3,7) [OF inv] assms(2) by blast
  then consider "map_of (tickers s) p = Some Waiting" | "map_of (tickers s) p = Some Sending"
    by (metis option.exhaust ticker_state.exhaust)
  then show "\<exists>s'. perio_step\<^sup>*\<^sup>* s s' \<and> server s' = Idle"
  proof cases
    case 1
    with out [OF assms(2)] show ?thesis
      by (meson r_into_rtranclp)
  next
    case 2
    let ?t = "s\<lparr>tickers := AList.update p Waiting (tickers s), evtCh := evtCh s @ [TimeoutEvent p]\<rparr>"
    have "perio_step s ?t"
      using perio_step.ticker_send [OF 2] free 2 perio_invD(10) [OF inv] assms(2) by auto
    moreover have "\<exists>t'. perio_step ?t t' \<and> server t' = Idle"
      by (rule out) (simp_all add: assms(2) update_conv')
    ultimately show ?thesis
      by (meson converse_rtranclp_into_rtranclp r_into_rtranclp)
  qed
qed

text \<open>The channel can be filled from any state in which the server has not returned.\<close>

lemma fill_channel:
  assumes "perio_reachable s" and "server s \<noteq> Stopped" and "length (evtCh s) + n \<le> EVENT_CHANNEL_LEN"
  shows "perio_reachable (s\<lparr>evtCh := evtCh s @ replicate n (DelPeriodReportTimer 1 1)\<rparr>)"
  using assms(3)
proof (induction n)
  case 0
  with assms(1) show ?case by simp
next
  case (Suc n)
  let ?s = "s\<lparr>evtCh := evtCh s @ replicate n (DelPeriodReportTimer 1 1)\<rparr>"
  have "perio_step ?s (?s\<lparr>evtCh := evtCh ?s @ [DelPeriodReportTimer 1 1]\<rparr>)"
    using Suc.prems assms(2) by (intro perio_step.send produced.intros) simp_all
  moreover have "perio_reachable ?s"
    using Suc by simp
  ultimately have "perio_reachable (?s\<lparr>evtCh := evtCh ?s @ [DelPeriodReportTimer 1 1]\<rparr>)"
    by (rule perio_reachable.step [rotated])
  then show ?case
    by (simp add: replicate_append_same)
qed

definition one_rule :: PERIOGroup where
  "one_rule = \<lparr>urrids = [(1, [1])], group_period = 1\<rparr>"

definition stopping :: perio where
  "stopping = \<lparr>evtCh = [], perioList = [(1, \<lparr>urrids = [], group_period = 1\<rparr>)], tickers = [(1, Waiting)],
     server = Stopping 1, queries = [], notified = [], send_panicked = False\<rparr>"

lemma stopping_reachable: "perio_reachable stopping"
proof -
  let ?add = "AddPeriodReportTimer 1 1 1" and ?del = "DelPeriodReportTimer 1 1"
  let ?s1 = "OpenServer\<lparr>evtCh := [?add]\<rparr>"
  let ?s2 = "OpenServer\<lparr>perioList := [(1, one_rule)], tickers := [(1, Waiting)]\<rparr>"
  have "perio_step OpenServer ?s1"
    using perio_step.send [OF produced.intros(1), of 1 OpenServer 1 1]
    by (simp add: OpenServer_def EVENT_CHANNEL_LEN_def)
  moreover have "Serve [] None ?add (?s1\<lparr>evtCh := []\<rparr>) = Ok ?s2"
    by (simp add: Serve_def perio_add_def newTicker_def add_urr_def OpenServer_def AddPeriodReportTimer_def one_rule_def)
  then have "perio_step ?s1 ?s2"
    by (intro perio_step.serve [where e = ?add and es = "[]" and order = "[]"]) (simp_all add: OpenServer_def)
  moreover have "perio_step ?s2 (?s2\<lparr>evtCh := [?del]\<rparr>)"
    using perio_step.send [OF produced.intros(2), of ?s2 1 1] by (simp add: OpenServer_def EVENT_CHANNEL_LEN_def)
  moreover have "Serve [1] None ?del ((?s2\<lparr>evtCh := [?del]\<rparr>)\<lparr>evtCh := []\<rparr>) = Ok stopping"
    by (simp add: Serve_def perio_del_def del_urr_def has_urr_def OpenServer_def DelPeriodReportTimer_def one_rule_def
        stopping_def Let_def)
  then have "perio_step (?s2\<lparr>evtCh := [?del]\<rparr>) stopping"
    by (intro perio_step.serve [where e = ?del and es = "[]" and order = "[1]"]) (simp_all add: OpenServer_def)
  ultimately show ?thesis
    by (meson perio_reachable.intros)
qed

text \<open>
  Such a state is reachable: a rule with a period is added and deleted, and while the server is in
  \<open>stopTicker\<close> the channel fills up and the ticker fires. From then on periodic reporting, and every
  caller that adds or deletes a rule, is blocked for good.
\<close>

theorem perio_deadlock_reachable: "\<exists>s. perio_reachable s \<and> server s = Stopping 1 \<and> (\<nexists>s'. perio_step s s')"
proof -
  let ?full = "stopping\<lparr>evtCh := replicate 512 (DelPeriodReportTimer 1 1)\<rparr>"
  let ?stuck = "?full\<lparr>tickers := AList.update 1 Sending (tickers ?full)\<rparr>"
  have "perio_reachable ?full"
    using fill_channel [OF stopping_reachable, of 512] by (simp add: stopping_def EVENT_CHANNEL_LEN_def)
  moreover have "perio_step ?full ?stuck"
    by (rule perio_step.tick) (simp add: stopping_def)
  ultimately have reach: "perio_reachable ?stuck"
    by (rule perio_reachable.step)
  have stuck: "\<nexists>s'. perio_step ?stuck s'"
    by (subst stuck_iff [OF perio_reachable_inv [OF reach]])
      (auto simp: stopping_def EVENT_CHANNEL_LEN_def split: if_splits)
  have "server ?stuck = Stopping 1"
    by (simp add: stopping_def)
  with reach stuck show ?thesis
    by blast
qed

theorem perio_invariant_witness:
  "dom (map_of (tickers stopping)) = dom (map_of (perioList stopping)) \<and> length (evtCh stopping) \<le> EVENT_CHANNEL_LEN"
  using perio_invariant [OF stopping_reachable] by blast

theorem perio_serves_registrations_witness:
  "\<exists>s'. Serve [] None (AddPeriodReportTimer 1 1 1) OpenServer = Ok s' \<and> registered s' = {(1, 1, 1)}"
proof -
  let ?e = "AddPeriodReportTimer 1 1 1" and ?s = "OpenServer\<lparr>evtCh := [AddPeriodReportTimer 1 1 1]\<rparr>"
  have "perio_step OpenServer ?s"
    using perio_step.send [OF produced.intros(1), of 1 OpenServer 1 1]
    by (simp add: OpenServer_def EVENT_CHANNEL_LEN_def)
  then have reach: "perio_reachable ?s"
    by (rule perio_reachable.step [OF perio_reachable.start])
  have same: "?s\<lparr>evtCh := []\<rparr> = OpenServer"
    by (simp add: OpenServer_def)
  obtain s' where s': "Serve [] None ?e (?s\<lparr>evtCh := []\<rparr>) = Ok s'"
    using Serve_total [of ?e "[]" None "?s\<lparr>evtCh := []\<rparr>"] by (auto simp: AddPeriodReportTimer_def)
  from perio_serves_registrations [OF reach _ _ this] have "registered s' = insert (1, 1, 1) (registered ?s)"
    by (simp add: AddPeriodReportTimer_def OpenServer_def)
  with s' show ?thesis
    unfolding same by (auto simp: registered_def OpenServer_def)
qed

theorem perio_stop_completes_exactly_witness: "\<exists>s'. perio_step\<^sup>*\<^sup>* stopping s' \<and> server s' = Idle"
  using perio_stop_completes_exactly [OF stopping_reachable, of 1] by (simp add: stopping_def EVENT_CHANNEL_LEN_def)

end
