(* ===== verification/Upf_FlowDesc.thy ===== *)
theory Upf_FlowDesc
  imports Go_Strings Go_Net
begin

text \<open>
  Flow descriptions of packet filters (\<^verbatim>\<open>NFs/upf/internal/forwarder/flowdesc.go\<close>): the parser of
  IP filter rules such as \<open>permit out ip from 10.0.0.0/8 80,443 to assigned\<close>.
  \<^verbatim>\<open>net.ParseCIDR\<close> and \<^verbatim>\<open>net.ParseIP\<close> are the fields of \<open>net_api\<close>.
\<close>

section \<open>Data\<close>

record FlowDesc =
  Action :: string
  Dir :: string
  Proto :: u8
  Src :: IPNet
  Dst :: IPNet
  SrcPorts :: "u16 list list"
  DstPorts :: "u16 list list"

datatype flow_error =
    TooFewFields nat
  | UnknownAction string
  | UnknownDirection string
  | NumError string
  | NotMatchFrom
  | NotMatchTo
  | InvalidAddress string

type_synonym 'a flow = "(flow_error, 'a) outcome"

section \<open>Addresses and ports\<close>

definition ParseFlowDescIPNet :: "net_api \<Rightarrow> string \<Rightarrow> IPNet flow" where
  "ParseFlowDescIPNet api s =
     (if s = ''any'' \<or> s = ''assigned'' then Ok \<lparr>net_IP = IPv6zero, net_Mask = CIDRMask 0 128\<rparr>
      else case net_ParseCIDR api s of
        Some n \<Rightarrow> Ok n
      | None \<Rightarrow>
          (case net_ParseIP api s of
             None \<Rightarrow> Err (InvalidAddress s)
           | Some ip \<Rightarrow>
               let ip = (case To4 ip of Some v4 \<Rightarrow> v4 | None \<Rightarrow> ip); n = length ip * 8
               in Ok \<lparr>net_IP = ip, net_Mask = CIDRMask n n\<rparr>))"

definition parse_port :: "string \<Rightarrow> u16 flow" where
  "parse_port s = (case ParseUint 16 s of None \<Rightarrow> Err (NumError s) | Some n \<Rightarrow> Ok (of_nat n))"

definition parse_port_range :: "string \<Rightarrow> u16 list flow" where
  "parse_port_range port =
     (case SplitN2 port (CHR ''-'') of
        [d] \<Rightarrow> obind (parse_port d) (\<lambda>v. Ok [v])
      | [d, e] \<Rightarrow> obind (parse_port d) (\<lambda>start. obind (parse_port e) (\<lambda>end. Ok [start, end]))
      | _ \<Rightarrow> Err (NumError port))"

definition ParseFlowDescPorts :: "string \<Rightarrow> u16 list list flow" where
  "ParseFlowDescPorts s = omapM parse_port_range (Split s (CHR '',''))"

section \<open>The parser\<close>

definition parse_proto :: "string \<Rightarrow> u8 flow" where
  "parse_proto p = (if p = ''ip'' then Ok 0xff
     else case ParseUint 8 p of None \<Rightarrow> Err (NumError p) | Some v \<Rightarrow> Ok (of_nat v))"

definition ParseFlowDesc :: "net_api \<Rightarrow> string \<Rightarrow> FlowDesc flow" where
  "ParseFlowDesc api s =
     (let token = Fields s;
          field = (\<lambda>pos. if length token \<le> pos then Err (TooFewFields (length token)) else Ok (token ! pos))
      in
      obind (field 0) (\<lambda>action. if action \<noteq> ''permit'' then Err (UnknownAction action) else
      obind (field 1) (\<lambda>dir. if dir \<noteq> ''in'' \<and> dir \<noteq> ''out'' then Err (UnknownDirection dir) else
      obind (field 2) (\<lambda>p.
      obind (parse_proto p) (\<lambda>proto.
      obind (field 3) (\<lambda>f. if f \<noteq> ''from'' then Err NotMatchFrom else
      obind (field 4) (\<lambda>a.
      obind (ParseFlowDescIPNet api a) (\<lambda>src.
      obind (field 5) (\<lambda>sp.
        let (sports, pos) = (case ParseFlowDescPorts sp of Ok l \<Rightarrow> (l, 6) | _ \<Rightarrow> ([], 5)) in
      obind (field pos) (\<lambda>t. if t \<noteq> ''to'' then Err NotMatchTo else
      obind (field (pos + 1)) (\<lambda>a.
      obind (ParseFlowDescIPNet api a) (\<lambda>dst.
        let dports = (if pos + 2 < length token
                      then case ParseFlowDescPorts (token ! (pos + 2)) of Ok l \<Rightarrow> l | _ \<Rightarrow> []
                      else [])
        in Ok \<lparr>Action = action, Dir = dir, Proto = proto, Src = src, Dst = dst,
               SrcPorts = sports, DstPorts = dports\<rparr>))))))))))))"

section \<open>Printing\<close>

text \<open>
  The fields of a rule, by the grammar at the head of the file: \<open>None\<close> as protocol is \<open>ip\<close>, ports are left
  out when there are none. Addresses are given as texts. \<open>print_flow\<close> is the text of a \<open>permit\<close> rule with single spaces.
\<close>

datatype port_range = Port u16 | Ports u16 u16

primrec range_ports :: "port_range \<Rightarrow> u16 list" where
  "range_ports (Port a) = [a]"
| "range_ports (Ports a b) = [a, b]"

primrec print_range :: "port_range \<Rightarrow> string" where
  "print_range (Port a) = Itoa (unat a)"
| "print_range (Ports a b) = Itoa (unat a) @ CHR ''-'' # Itoa (unat b)"

definition print_ports :: "port_range list \<Rightarrow> string list" where
  "print_ports l = (if l = [] then [] else [join (CHR '','') (map print_range l)])"

definition flow_tokens ::
    "bool \<Rightarrow> bool \<Rightarrow> u8 option \<Rightarrow> string \<Rightarrow> port_range list \<Rightarrow> string \<Rightarrow> port_range list \<Rightarrow> string list" where
  "flow_tokens deny uplink proto src sports dst dports =
     [if deny then ''deny'' else ''permit'', if uplink then ''in'' else ''out'',
      case proto of None \<Rightarrow> ''ip'' | Some p \<Rightarrow> Itoa (unat p), ''from'', src] @
     print_ports sports @ [''to'', dst] @ print_ports dports"

definition print_flow ::
    "bool \<Rightarrow> u8 option \<Rightarrow> string \<Rightarrow> port_range list \<Rightarrow> string \<Rightarrow> port_range list \<Rightarrow> string" where
  "print_flow uplink proto src sports dst dports = unwords (flow_tokens False uplink proto src sports dst dports)"

section \<open>Ports come back\<close>

lemma Itoa_no_char: "(of_char c :: nat) < 48 \<Longrightarrow> c \<notin> set (Itoa n)"
  using Itoa_digits [of c n] by auto

lemma unat_bound: "unat (w :: 'a::len word) < 2 ^ LENGTH('a)"
  by (rule unsigned_less)

lemma parse_port_Itoa: "parse_port (Itoa (unat (a :: u16))) = Ok a"
  using unat_bound [of a] by (simp add: parse_port_def ParseUint_Itoa)

lemma parse_port_range_print: "parse_port_range (print_range r) = Ok (range_ports r)"
proof -
  have "CHR ''-'' \<notin> set (Itoa n)" for n
    by (rule Itoa_no_char) simp
  then show ?thesis
    by (cases r) (simp_all add: parse_port_range_def SplitN2_one SplitN2_two parse_port_Itoa)
qed

lemma print_range_no_comma: "CHR '','' \<notin> set (print_range r)"
  by (cases r) (simp_all add: Itoa_no_char)

lemma ParseFlowDescPorts_print:
  assumes "l \<noteq> []"
  shows "ParseFlowDescPorts (join (CHR '','') (map print_range l)) = Ok (map range_ports l)"
proof -
  have "Split (join (CHR '','') (map print_range l)) (CHR '','') = map print_range l"
    using assms by (intro Split_join) (auto simp: print_range_no_comma)
  moreover have "omapM parse_port_range (map print_range l) = Ok (map range_ports l)"
    by (induction l) (simp_all add: parse_port_range_print)
  ultimately show ?thesis
    by (simp add: ParseFlowDescPorts_def)
qed

lemma ParseFlowDescPorts_to: "ParseFlowDescPorts ''to'' = Err (NumError ''to'')"
  by code_simp

lemma word_append: "is_word v \<Longrightarrow> is_word w \<Longrightarrow> is_word (v @ w)"
  by (simp add: is_word_def)

lemma Itoa_word: "is_word (Itoa n)"
proof -
  have "\<not> is_space c" if "c \<in> set (Itoa n)" for c
    using Itoa_digits [OF that] by (auto simp: is_space_def)
  then show ?thesis
    by (simp add: is_word_def list_all_iff)
qed

lemma print_range_word: "is_word (print_range r)"
proof -
  have "is_word (CHR ''-'' # w)" if "is_word w" for w
    using that by (simp add: is_word_def is_space_def)
  then show ?thesis
    by (cases r) (simp_all add: Itoa_word word_append)
qed

lemma print_ports_words: "list_all is_word (print_ports l)"
proof -
  have "is_word (join (CHR '','') (map print_range l))" if "l \<noteq> []"
    using that
  proof (induction l)
    case (Cons r l)
    have "is_word (CHR '','' # w)" if "is_word w" for w
      using that by (simp add: is_word_def is_space_def)
    with Cons show ?case
      by (cases l) (simp_all add: print_range_word word_append)
  qed simp
  then show ?thesis
    by (simp add: print_ports_def)
qed

section \<open>Properties\<close>

text \<open>The tokens of a printed rule, and what the protocol field gives.\<close>

lemma print_flow_tokens:
  assumes "is_word src" and "is_word dst"
  shows "Fields (print_flow uplink proto src sports dst dports) =
    [''permit'', if uplink then ''in'' else ''out'', case proto of None \<Rightarrow> ''ip'' | Some p \<Rightarrow> Itoa (unat p), ''from'', src] @
    print_ports sports @ [''to'', dst] @ print_ports dports"
proof -
  have words: "is_word ''permit''" "is_word ''in''" "is_word ''out''" "is_word ''ip''" "is_word ''from''" "is_word ''to''"
    by code_simp+
  then have "is_word (case proto of None \<Rightarrow> ''ip'' | Some p \<Rightarrow> Itoa (unat p))"
    by (auto simp: Itoa_word split: option.split)
  then show ?thesis
    unfolding print_flow_def flow_tokens_def using words assms by (subst Fields_unwords) (simp_all add: print_ports_words)
qed

lemma Itoa_not_ip: "Itoa n \<noteq> ''ip''"
proof
  assume "Itoa n = ''ip''"
  then have "CHR ''i'' \<in> set (Itoa n)"
    by simp
  from Itoa_digits [OF this] show False
    by simp
qed

lemma parse_proto_print: "parse_proto (case proto of None \<Rightarrow> ''ip'' | Some p \<Rightarrow> Itoa (unat p)) =
    Ok (case proto of None \<Rightarrow> 0xff | Some p \<Rightarrow> p)"
proof (cases proto)
  case (Some p)
  then show ?thesis
    using unat_bound [of p] by (simp add: parse_proto_def ParseUint_Itoa Itoa_not_ip)
qed (simp add: parse_proto_def)

text \<open>A rule with readable head is its two addresses and what the last field gives.\<close>

lemma ParseFlowDesc_tokens:
  assumes "Fields s = [''permit'', dir, p, ''from'', src] @ print_ports sports @ [''to'', dst] @ ws"
    and "dir = ''in'' \<or> dir = ''out''" and "parse_proto p = Ok proto"
  shows "ParseFlowDesc api s =
    obind (ParseFlowDescIPNet api src) (\<lambda>a. obind (ParseFlowDescIPNet api dst) (\<lambda>b.
      Ok \<lparr>Action = ''permit'', Dir = dir, Proto = proto, Src = a, Dst = b, SrcPorts = map range_ports sports,
          DstPorts = (case ws of [] \<Rightarrow> [] | w # _ \<Rightarrow> case ParseFlowDescPorts w of Ok l \<Rightarrow> l | _ \<Rightarrow> [])\<rparr>))"
proof (cases "sports = []")
  case True
  with assms(2,3) show ?thesis
    unfolding ParseFlowDesc_def assms(1) Let_def
    by (cases ws) (auto simp: print_ports_def ParseFlowDescPorts_to)
next
  case False
  with assms(2,3) show ?thesis
    unfolding ParseFlowDesc_def assms(1) Let_def
    by (cases ws) (auto simp: print_ports_def ParseFlowDescPorts_print)
qed

text \<open>
  C35. The rules of the grammar at the head of the file. A text whose fields, with any spaces between them, are those of a
  \<open>permit\<close> rule, in either direction, for any protocol or all of them, with any lists of ports and port ranges at source and
  destination, is parsed to exactly these. The addresses are texts that the address parser accepts. A \<open>deny\<close> rule, which the grammar
  has as well, is refused. The text that \<open>print_flow\<close> gives for a \<open>permit\<close> rule is one of these texts, so it is read back.
\<close>

theorem flow_desc_roundtrip:
  assumes "ParseFlowDescIPNet api src = Ok s" and "ParseFlowDescIPNet api dst = Ok d"
    and "Fields rule = flow_tokens deny uplink proto src sports dst dports \<or>
      \<not> deny \<and> is_word src \<and> is_word dst \<and> rule = print_flow uplink proto src sports dst dports"
  shows "ParseFlowDesc api rule =
    (if deny then Err (UnknownAction ''deny'')
     else Ok \<lparr>Action = ''permit'', Dir = (if uplink then ''in'' else ''out''),
        Proto = (case proto of None \<Rightarrow> 0xff | Some p \<Rightarrow> p), Src = s, Dst = d,
        SrcPorts = map range_ports sports, DstPorts = map range_ports dports\<rparr>)"
proof -
  have tokens: "Fields rule = flow_tokens deny uplink proto src sports dst dports"
    using assms(3) print_flow_tokens by (auto simp: flow_tokens_def)
  show ?thesis
  proof (cases deny)
    case True
    then show ?thesis
      by (simp add: ParseFlowDesc_def tokens flow_tokens_def)
  next
    case False
    then show ?thesis
      using ParseFlowDesc_tokens [OF _ _ parse_proto_print, of rule "if uplink then ''in'' else ''out''" proto src sports dst "print_ports dports" api]
        tokens assms(1,2) by (simp add: flow_tokens_def print_ports_def ParseFlowDescPorts_print)
  qed
qed

text \<open>A model of the address parser that knows one prefix and one host.\<close>

definition demo_net :: net_api where
  "demo_net =
     \<lparr>net_ParseCIDR = (\<lambda>s. if s = ''10.60.0.0/16'' then Some \<lparr>net_IP = [10, 60, 0, 0], net_Mask = CIDRMask 16 32\<rparr> else None),
      net_ParseIP = (\<lambda>s. if s = ''8.8.8.8'' then Some (replicate 10 0 @ [255, 255, 8, 8, 8, 8]) else None)\<rparr>"

theorem flow_desc_roundtrip_witness:
  "ParseFlowDesc demo_net (print_flow False (Some 17) ''8.8.8.8'' [Port 53, Ports 8000 8080] ''10.60.0.0/16'' []) =
     Ok \<lparr>Action = ''permit'', Dir = ''out'', Proto = 17,
         Src = \<lparr>net_IP = [8, 8, 8, 8], net_Mask = [255, 255, 255, 255]\<rparr>,
         Dst = \<lparr>net_IP = [10, 60, 0, 0], net_Mask = [255, 255, 0, 0]\<rparr>,
         SrcPorts = [[53], [8000, 8080]], DstPorts = []\<rparr> \<and>
   ParseFlowDesc demo_net ''deny  out 17 from 8.8.8.8 53 to 10.60.0.0/16'' = Err (UnknownAction ''deny'')"
proof -
  have words: "is_word ''8.8.8.8''" "is_word ''10.60.0.0/16''"
    by code_simp+
  have addrs: "ParseFlowDescIPNet demo_net ''8.8.8.8'' = Ok \<lparr>net_IP = [8, 8, 8, 8], net_Mask = [255, 255, 255, 255]\<rparr>"
    "ParseFlowDescIPNet demo_net ''10.60.0.0/16'' = Ok \<lparr>net_IP = [10, 60, 0, 0], net_Mask = [255, 255, 0, 0]\<rparr>"
    by code_simp+
  have "Fields ''deny  out 17 from 8.8.8.8 53 to 10.60.0.0/16'' = flow_tokens True False (Some 17) ''8.8.8.8'' [Port 53] ''10.60.0.0/16'' []"
    by code_simp
  then show ?thesis
    using flow_desc_roundtrip [OF addrs, of _ False False "Some 17" "[Port 53, Ports 8000 8080]" "[]"] words
      flow_desc_roundtrip [OF addrs, of _ True False "Some 17" "[Port 53]" "[]"] by simp
qed

text \<open>
  A destination port list that cannot be read is not an error: the rule is accepted as if it had no
  destination ports, so that the filter matches every port. Anything after the destination ports is ignored as well.
\<close>

theorem bad_destination_ports_widen:
  assumes "is_word src" and "is_word dst" and "list_all is_word ws"
    and "ws = [] \<or> (\<forall>l. ParseFlowDescPorts (hd ws) \<noteq> Ok l)"
  shows "ParseFlowDesc api (unwords (Fields (print_flow uplink proto src sports dst []) @ ws)) =
         ParseFlowDesc api (print_flow uplink proto src sports dst [])"
proof -
  let ?ts = "Fields (print_flow uplink proto src sports dst [])"
  have "list_all is_word ?ts"
    unfolding print_flow_tokens [OF assms(1,2)] using assms(1,2) print_ports_words
    by (auto simp: Itoa_word print_ports_def split: option.split; code_simp)
  then have tokens: "Fields (unwords (?ts @ ws)) = ?ts @ ws"
    using assms(3) by (intro Fields_unwords) simp
  have "(case ws of [] \<Rightarrow> [] | w # _ \<Rightarrow> case ParseFlowDescPorts w of Ok l \<Rightarrow> l | _ \<Rightarrow> []) = []"
    using assms(4) by (cases ws) (auto split: outcome.split)
  moreover have "?ts = [''permit'', if uplink then ''in'' else ''out'', case proto of None \<Rightarrow> ''ip'' | Some p \<Rightarrow> Itoa (unat p),
      ''from'', src] @ print_ports sports @ [''to'', dst]"
    by (simp add: print_flow_tokens [OF assms(1,2)] print_ports_def)
  ultimately show ?thesis
    using ParseFlowDesc_tokens [OF _ _ parse_proto_print, of _ "if uplink then ''in'' else ''out''" proto src sports dst ws api]
      ParseFlowDesc_tokens [OF _ _ parse_proto_print, of _ "if uplink then ''in'' else ''out''" proto src sports dst "[]" api]
      tokens by simp
qed

theorem bad_destination_ports_widen_witness:
  "(\<forall>l. ParseFlowDescPorts ''443x'' \<noteq> Ok l) \<and>
   ParseFlowDesc demo_net ''permit out 6 from any to 10.60.0.0/16 443x'' =
   ParseFlowDesc demo_net ''permit out 6 from any to 10.60.0.0/16''"
proof -
  have words: "is_word ''any''" "is_word ''10.60.0.0/16''" "list_all is_word [''443x'']"
    by code_simp+
  have "ParseFlowDescPorts ''443x'' = Err (NumError ''443x'')"
    by code_simp
  then have bad: "\<forall>l. ParseFlowDescPorts ''443x'' \<noteq> Ok l"
    by simp
  have texts: "print_flow False (Some 6) ''any'' [] ''10.60.0.0/16'' [] = ''permit out 6 from any to 10.60.0.0/16''"
    "unwords (Fields ''permit out 6 from any to 10.60.0.0/16'' @ [''443x'']) = ''permit out 6 from any to 10.60.0.0/16 443x''"
    by code_simp+
  show ?thesis
    using bad_destination_ports_widen [OF words, of demo_net False "Some 6" "[]"] bad by (simp add: texts)
qed

end
