(* ===== verification/Smf_UserPlane.thy ===== *)
theory Smf_UserPlane
  imports Smf_UeIPPool Go_Range Go_Strings "HOL-Library.AList"
begin

text \<open>
  The user plane topology of the SMF (\<^verbatim>\<open>NFs/smf/internal/context/user_plane_information.go\<close>, with what
  it uses of \<^verbatim>\<open>upf.go\<close> and \<^verbatim>\<open>snssai.go\<close>): the nodes with their links, the search for a data path, the
  selection of an anchor UPF and of a UE address.

  A \<open>*UPNode\<close> is an address in the list \<open>upi_store\<close>, a \<open>*UeIPPool\<close> an address in \<open>ue_pools\<close>, so that links,
  paths, caches and address pools are shared as in the code. Go maps are association lists in which a key stands
  once; the order in which \<open>range\<close> visits one is the argument \<open>rng\<close>. \<open>pfcpType.NodeID\<close>, its resolution to an
  address, the text of an address and fresh UUIDs are the fields of \<open>up_env\<close>, and \<open>rand.Intn\<close> is the argument
  \<open>rnd\<close>. \<open>logger.Fatalf\<close> ends the process and is an error.
\<close>

section \<open>Data\<close>

record SNssai =
  sn_Sst :: int
  sn_Sd :: string

record DnnUPFInfoItem =
  di_Dnn :: string
  DnaiList :: "string list"
  PduSessionTypes :: "string list"
  UeIPPools :: "nat list"
  StaticIPPools :: "nat list"

record SnssaiUPFInfo =
  si_SNssai :: SNssai
  DnnList :: "DnnUPFInfoItem list"

record NodeID =
  NodeIdType :: nat
  nid_IP :: "bytes option"
  FQDN :: string

definition NodeIdTypeIpv4Address :: nat where "NodeIdTypeIpv4Address = 0"
definition NodeIdTypeIpv6Address :: nat where "NodeIdTypeIpv6Address = 1"
definition NodeIdTypeFqdn :: nat where "NodeIdTypeFqdn = 2"

record UPFInterfaceInfo =
  NetworkInstances :: "string list"
  IPv4EndPointAddresses :: "bytes list"
  IPv6EndPointAddresses :: "bytes list"
  EndpointFQDN :: string

text \<open>\<open>upf_associated\<close> is that \<open>AssociationContext\<close> is not done.\<close>

record UPF =
  upf_uuid :: string
  upf_NodeID :: NodeID
  upf_Addr :: string
  upf_associated :: bool
  SNssaiInfos :: "SnssaiUPFInfo list"
  N3Interfaces :: "UPFInterfaceInfo list"
  N9Interfaces :: "UPFInterfaceInfo list"

definition UPNODE_UPF :: string where "UPNODE_UPF = ''UPF''"
definition UPNODE_AN :: string where "UPNODE_AN = ''AN''"

record UPNode =
  un_Name :: string
  un_Type :: string
  un_NodeID :: NodeID
  un_ANIP :: "bytes option"
  Links :: "nat list"
  un_UPF :: "UPF option"

record UPFSelectionParams =
  sel_Dnn :: string
  sel_SNssai :: "SNssai option"
  sel_Dnai :: string
  sel_PDUAddress :: "bytes option"

record UserPlaneInformation =
  upi_store :: "UPNode list"
  ue_pools :: "UeIPPool list"
  upfPool :: "(string \<times> nat) list"
  UPNodes :: "(string \<times> nat) list"
  UPFs :: "(string \<times> nat) list"
  AccessNetwork :: "(string \<times> nat) list"
  UPFIPToName :: "(string \<times> string) list"
  UPFsID :: "(string \<times> string) list"
  UPFsIPtoID :: "(string \<times> string) list"
  DefaultUserPlanePath :: "(string \<times> nat list) list"
  DefaultUserPlanePathToUPF :: "(string \<times> (string \<times> nat list) list) list"

record up_env = net_api +
  ResolveNodeIdToIp :: "NodeID \<Rightarrow> bytes option"
  IP_String :: "bytes option \<Rightarrow> string"
  uuid_New :: "nat \<Rightarrow> string"

datatype upi_error = FatalPool string | FatalExclude | FatalOverlap | ANNotFound | NotAssociated | NoMatchedIP

type_synonym 'a upi = "(upi_error, 'a) outcome"

type_synonym range_order = "(string \<times> nat) list \<Rightarrow> (string \<times> nat) list"

text \<open>Reading through a node pointer.\<close>

definition node_at :: "UserPlaneInformation \<Rightarrow> nat \<Rightarrow> UPNode upi" where
  "node_at upi a = (if a < length (upi_store upi) then Ok (upi_store upi ! a) else Panic)"

definition upf_at :: "UserPlaneInformation \<Rightarrow> nat \<Rightarrow> UPF upi" where
  "upf_at upi a = obind (node_at upi a) (\<lambda>n. deref (un_UPF n))"

definition node_ip :: "up_env \<Rightarrow> UPNode \<Rightarrow> string" where
  "node_ip env n = IP_String env (ResolveNodeIdToIp env (un_NodeID n))"

section \<open>Slices and data networks\<close>

definition SNssai_Equal :: "SNssai \<Rightarrow> SNssai option \<Rightarrow> bool upi" where
  "SNssai_Equal s target =
     obind (deref target) (\<lambda>t. Ok (sn_Sst s = sn_Sst t \<and> EqualFold (sn_Sd s) (sn_Sd t)))"

definition ContainsDNAI :: "DnnUPFInfoItem \<Rightarrow> string \<Rightarrow> bool" where
  "ContainsDNAI d targetDnai =
     (if targetDnai = [] then DnaiList d = [] else targetDnai \<in> set (DnaiList d))"

definition ContainsIPPool :: "UserPlaneInformation \<Rightarrow> DnnUPFInfoItem \<Rightarrow> bytes option \<Rightarrow> bool" where
  "ContainsIPPool upi d ip =
     (case ip of None \<Rightarrow> True
      | Some ip \<Rightarrow> list_ex (\<lambda>a. IPNet_Contains (ueSubNet (ue_pools upi ! a)) ip) (UeIPPools d))"

definition isSupportSnssai :: "UPF \<Rightarrow> SNssai option \<Rightarrow> bool upi" where
  "isSupportSnssai upf snssai = oexists (\<lambda>info. SNssai_Equal (si_SNssai info) snssai) (SNssaiInfos upf)"

definition dnn_matches :: "UPFSelectionParams \<Rightarrow> DnnUPFInfoItem \<Rightarrow> bool" where
  "dnn_matches selection d \<longleftrightarrow>
     di_Dnn d = sel_Dnn selection \<and> (sel_Dnai selection = [] \<or> ContainsDNAI d (sel_Dnai selection))"

definition MatchedSelection :: "UPNode \<Rightarrow> UPFSelectionParams \<Rightarrow> bool upi" where
  "MatchedSelection u selection =
     obind (deref (un_UPF u)) (\<lambda>upf.
       oexists (\<lambda>info. obind (SNssai_Equal (si_SNssai info) (sel_SNssai selection)) (\<lambda>eq.
         Ok (eq \<and> list_ex (dnn_matches selection) (DnnList info)))) (SNssaiInfos upf))"

definition IsAssociated :: "UPF \<Rightarrow> unit upi" where
  "IsAssociated upf = (if upf_associated upf then Ok () else Err NotAssociated)"

definition selection_String :: "up_env \<Rightarrow> UPFSelectionParams \<Rightarrow> string" where
  "selection_String env p =
     (if sel_Dnn p \<noteq> [] then ''Dnn: '' @ sel_Dnn p @ [CHR 0x0A] else []) @
     (case sel_SNssai p of None \<Rightarrow> []
      | Some s \<Rightarrow> ''Sst: '' @ (if sn_Sst s < 0 then CHR ''-'' # Itoa (nat (- sn_Sst s)) else Itoa (nat (sn_Sst s))) @
          '', Sd: '' @ sn_Sd s @ [CHR 0x0A]) @
     (if sel_Dnai p \<noteq> [] then ''DNAI: '' @ sel_Dnai p @ [CHR 0x0A] else []) @
     (case sel_PDUAddress p of None \<Rightarrow> []
      | Some a \<Rightarrow> ''PDUAddress: '' @ IP_String env (Some a) @ [CHR 0x0A])"

section \<open>Interfaces of a UPF\<close>

record InterfaceUpfInfoItem =
  if_Type :: string
  if_Endpoints :: "string list"
  if_NetworkInstances :: "string list"

definition add_endpoint :: "up_env \<Rightarrow> string \<Rightarrow> UPFInterfaceInfo \<Rightarrow> UPFInterfaceInfo" where
  "add_endpoint env endpoint info =
     (case net_ParseIP env endpoint of
        None \<Rightarrow> info\<lparr>EndpointFQDN := endpoint\<rparr>
      | Some ip \<Rightarrow>
          (case To4 ip of
             None \<Rightarrow> info\<lparr>IPv6EndPointAddresses := IPv6EndPointAddresses info @ [ip]\<rparr>
           | Some v4 \<Rightarrow> info\<lparr>IPv4EndPointAddresses := IPv4EndPointAddresses info @ [v4]\<rparr>))"

definition NewUPFInterfaceInfo :: "up_env \<Rightarrow> InterfaceUpfInfoItem \<Rightarrow> UPFInterfaceInfo" where
  "NewUPFInterfaceInfo env i =
     (fold (add_endpoint env) (if_Endpoints i)
        \<lparr>NetworkInstances = [], IPv4EndPointAddresses = [], IPv6EndPointAddresses = [], EndpointFQDN = []\<rparr>)
     \<lparr>NetworkInstances := if_NetworkInstances i\<rparr>"

definition NewUPF :: "up_env \<Rightarrow> string \<Rightarrow> NodeID \<Rightarrow> InterfaceUpfInfoItem list \<Rightarrow> UPF" where
  "NewUPF env uuid nodeID ifaces =
     \<lparr>upf_uuid = uuid, upf_NodeID = nodeID, upf_Addr = [], upf_associated = False, SNssaiInfos = [],
      N3Interfaces = map (NewUPFInterfaceInfo env) (filter (\<lambda>i. if_Type i = ''N3'') ifaces),
      N9Interfaces = map (NewUPFInterfaceInfo env) (filter (\<lambda>i. if_Type i = ''N9'') ifaces)\<rparr>"

definition GetInterface :: "UPF \<Rightarrow> string \<Rightarrow> string \<Rightarrow> UPFInterfaceInfo option" where
  "GetInterface upf interfaceType dnn =
     (if interfaceType = ''N3'' then List.find (\<lambda>i. dnn \<in> set (NetworkInstances i)) (N3Interfaces upf)
      else if interfaceType = ''N9'' then List.find (\<lambda>i. dnn \<in> set (NetworkInstances i)) (N9Interfaces upf)
      else None)"

section \<open>Links\<close>

definition nodeInLink :: "nat \<Rightarrow> nat list \<Rightarrow> nat option" where
  "nodeInLink upNode links = (if upNode \<in> set links then Some (length (takeWhile (\<lambda>n. n \<noteq> upNode) links)) else None)"

definition removeNodeFromLink :: "nat list \<Rightarrow> nat \<Rightarrow> nat list" where
  "removeNodeFromLink links index = butlast (links[index := last links])"

definition set_links :: "nat \<Rightarrow> (nat list \<Rightarrow> nat list) \<Rightarrow> UserPlaneInformation \<Rightarrow> UserPlaneInformation" where
  "set_links a f upi =
     upi\<lparr>upi_store := (upi_store upi)[a := (upi_store upi ! a)\<lparr>Links := f (Links (upi_store upi ! a))\<rparr>]\<rparr>"

text \<open>One turn of the loop over the configured links.\<close>

definition add_link :: "string \<times> string \<Rightarrow> UserPlaneInformation \<Rightarrow> UserPlaneInformation" where
  "add_link link upi =
     (case (map_of (UPNodes upi) (fst link), map_of (UPNodes upi) (snd link)) of
        (Some a, Some b) \<Rightarrow>
          if nodeInLink b (Links (upi_store upi ! a)) \<noteq> None \<or> nodeInLink a (Links (upi_store upi ! b)) \<noteq> None then upi
          else set_links b (\<lambda>l. l @ [a]) (set_links a (\<lambda>l. l @ [b]) upi)
      | _ \<Rightarrow> upi)"

definition LinksFromConfiguration :: "(string \<times> string) list \<Rightarrow> UserPlaneInformation \<Rightarrow> UserPlaneInformation" where
  "LinksFromConfiguration links upi = fold add_link links upi"

text \<open>The first UPF of the pool, in the order of \<open>Range\<close>, with the same node identifier.\<close>

definition same_node :: "up_env \<Rightarrow> NodeID \<Rightarrow> NodeID \<Rightarrow> bool" where
  "same_node env cur nodeID =
     (if NodeIdType cur \<noteq> NodeIdType nodeID \<and> (NodeIdType cur = NodeIdTypeFqdn \<or> NodeIdType nodeID = NodeIdTypeFqdn)
      then Option.bind (ResolveNodeIdToIp env cur) To4 = Option.bind (ResolveNodeIdToIp env nodeID) To4
      else cur = nodeID)"

definition RemoveUPFNodeByNodeID ::
    "up_env \<Rightarrow> range_order \<Rightarrow> NodeID \<Rightarrow> UserPlaneInformation \<Rightarrow> UserPlaneInformation upi" where
  "RemoveUPFNodeByNodeID env rng nodeID upi =
     obind (ofind (\<lambda>(uuid, a). omap (\<lambda>upf. same_node env (upf_NodeID upf) nodeID) (upf_at upi a)) (rng (upfPool upi))) (\<lambda>r.
       Ok (case r of None \<Rightarrow> upi | Some (uuid, a) \<Rightarrow> upi\<lparr>upfPool := AList.delete uuid (upfPool upi)\<rparr>))"

text \<open>The loop that takes the links to a deleted node out of the remaining ones.\<close>

definition without :: "nat \<Rightarrow> nat list \<Rightarrow> nat list" where
  "without a links = (case nodeInLink a links of None \<Rightarrow> links | Some i \<Rightarrow> removeNodeFromLink links i)"

definition unlink :: "nat \<Rightarrow> nat list \<Rightarrow> UserPlaneInformation \<Rightarrow> UserPlaneInformation" where
  "unlink a nodes upi = fold (\<lambda>n. set_links n (without a)) nodes upi"

definition UpNodeDelete ::
    "up_env \<Rightarrow> range_order \<Rightarrow> string \<Rightarrow> UserPlaneInformation \<Rightarrow> UserPlaneInformation upi" where
  "UpNodeDelete env rng upNodeName upi =
     (case map_of (UPNodes upi) upNodeName of
        None \<Rightarrow> Ok upi
      | Some a \<Rightarrow>
          obind (node_at upi a) (\<lambda>upNode.
          obind (if un_Type upNode = UPNODE_UPF
                 then
                   obind (deref (un_UPF upNode)) (\<lambda>upf.
                   obind (RemoveUPFNodeByNodeID env rng (upf_NodeID upf) upi) (\<lambda>upi.
                     Ok (upi\<lparr>UPFs := AList.delete upNodeName (UPFs upi),
                             DefaultUserPlanePathToUPF :=
                               map (\<lambda>(sel, dests). (sel, filter (\<lambda>(ip, path). a \<notin> set path) dests))
                                 (DefaultUserPlanePathToUPF upi)\<rparr>)))
                 else Ok upi) (\<lambda>upi.
            let upi = (if un_Type upNode = UPNODE_AN
                       then upi\<lparr>AccessNetwork := AList.delete upNodeName (AccessNetwork upi)\<rparr> else upi);
                upi = upi\<lparr>UPNodes := AList.delete upNodeName (UPNodes upi)\<rparr>
            in Ok (unlink a (map snd (UPNodes upi)) upi))))"

section \<open>The configuration\<close>

record DnnUpfInfoItem =
  cd_Dnn :: string
  cd_DnaiList :: "string list"
  cd_PduSessionTypes :: "string list"
  cd_Pools :: "string list"
  cd_StaticPools :: "string list"

record SnssaiUpfInfoItem =
  cs_SNssai :: "SNssai option"
  cs_DnnUpfInfoList :: "DnnUpfInfoItem list"

record UPNodeConfig =
  cn_Type :: string
  cn_NodeID :: string
  cn_Addr :: string
  cn_ANIP :: string
  cn_SNssaiInfos :: "SnssaiUpfInfoItem list"
  cn_Interfaces :: "InterfaceUpfInfoItem list"

definition new_pool :: "up_env \<Rightarrow> string \<Rightarrow> UeIPPool upi" where
  "new_pool env cidr =
     (case NewUEIPPool (net_ParseCIDR env) cidr of
        Ok (Some p) \<Rightarrow> Ok p
      | Ok None \<Rightarrow> Err (FatalPool cidr)
      | Err _ \<Rightarrow> Err (FatalPool cidr)
      | Panic \<Rightarrow> Panic)"

text \<open>A static pool is taken out of every dynamic pool whose subnet contains its network address.\<close>

definition exclude_static :: "UeIPPool \<Rightarrow> UeIPPool \<Rightarrow> UeIPPool upi" where
  "exclude_static static dynamic =
     (if IPNet_Contains (ueSubNet dynamic) (net_IP (ueSubNet static))
      then wrap_err (\<lambda>_. FatalExclude) (UeIP_Exclude dynamic static)
      else Ok dynamic)"

definition add_static ::
    "up_env \<Rightarrow> string \<Rightarrow> UeIPPool list \<times> UeIPPool list \<Rightarrow> (UeIPPool list \<times> UeIPPool list) upi" where
  "add_static env cidr st =
     (case st of (dynamics, statics) \<Rightarrow>
        obind (new_pool env cidr) (\<lambda>static.
        obind (omapM (exclude_static static) dynamics) (\<lambda>dynamics.
          Ok (dynamics, statics @ [static]))))"

text \<open>The network and the broadcast address leave the pool; a failed reservation is only logged.\<close>

definition try_reserve :: "int \<Rightarrow> LazyReusePool \<Rightarrow> LazyReusePool" where
  "try_reserve v p = (case Reserve p v v of None \<Rightarrow> p | Some p' \<Rightarrow> p')"

definition reserve_edges :: "UeIPPool \<Rightarrow> UeIPPool" where
  "reserve_edges u =
     (let p = pool u in
      if Min_pool p \<noteq> Max_pool p
      then u\<lparr>pool := (let p = try_reserve (Min_pool p) p in try_reserve (Max_pool p) p)\<rparr>
      else u)"

text \<open>The pools of a data network. \<open>edges\<close> is what is done to the dynamic pools at the end.\<close>

definition dnn_pools ::
    "up_env \<Rightarrow> (UeIPPool \<Rightarrow> UeIPPool) \<Rightarrow> DnnUpfInfoItem \<Rightarrow> (UeIPPool list \<times> UeIPPool list) upi" where
  "dnn_pools env edges d =
     obind (omapM (new_pool env) (cd_Pools d)) (\<lambda>dynamics.
     obind (ofold (add_static env) (cd_StaticPools d) (dynamics, [])) (\<lambda>(dynamics, statics).
       Ok (map edges dynamics, statics)))"

text \<open>The pools get the next addresses of the store, the dynamic ones first.\<close>

definition add_dnn ::
    "up_env \<Rightarrow> (UeIPPool \<Rightarrow> UeIPPool) \<Rightarrow> DnnUpfInfoItem \<Rightarrow>
     UeIPPool list \<times> DnnUPFInfoItem list \<Rightarrow> (UeIPPool list \<times> DnnUPFInfoItem list) upi" where
  "add_dnn env edges d st =
     (case st of (pools, dnns) \<Rightarrow>
        obind (dnn_pools env edges d) (\<lambda>(dynamics, statics).
          let n = length pools; k = n + length dynamics in
          Ok (pools @ dynamics @ statics,
              dnns @ [\<lparr>di_Dnn = cd_Dnn d, DnaiList = cd_DnaiList d, PduSessionTypes = cd_PduSessionTypes d,
                       UeIPPools = [n ..< k], StaticIPPools = [k ..< k + length statics]\<rparr>])))"

definition add_snssai ::
    "up_env \<Rightarrow> (UeIPPool \<Rightarrow> UeIPPool) \<Rightarrow> SnssaiUpfInfoItem \<Rightarrow>
     UeIPPool list \<times> SnssaiUPFInfo list \<Rightarrow> (UeIPPool list \<times> SnssaiUPFInfo list) upi" where
  "add_snssai env edges s st =
     (case st of (pools, infos) \<Rightarrow>
        obind (deref (cs_SNssai s)) (\<lambda>sn.
        obind (ofold (add_dnn env edges) (cs_DnnUpfInfoList s) (pools, [])) (\<lambda>(pools, dnns).
          Ok (pools, infos @ [\<lparr>si_SNssai = sn, DnnList = dnns\<rparr>]))))"

text \<open>An address that is not one is a host name.\<close>

definition node_id :: "up_env \<Rightarrow> string \<Rightarrow> NodeID" where
  "node_id env text =
     (case net_ParseIP env text of
        Some ip \<Rightarrow>
          (case To4 ip of
             Some v4 \<Rightarrow> \<lparr>NodeIdType = NodeIdTypeIpv4Address, nid_IP = Some v4, FQDN = []\<rparr>
           | None \<Rightarrow>
               if length ip = 16 then \<lparr>NodeIdType = NodeIdTypeIpv6Address, nid_IP = Some ip, FQDN = []\<rparr>
               else \<lparr>NodeIdType = NodeIdTypeFqdn, nid_IP = None, FQDN = text\<rparr>)
      | None \<Rightarrow> \<lparr>NodeIdType = NodeIdTypeFqdn, nid_IP = None, FQDN = text\<rparr>)"

definition no_node_id :: NodeID where
  "no_node_id = \<lparr>NodeIdType = 0, nid_IP = None, FQDN = []\<rparr>"

text \<open>
  One turn of the loop over the configured nodes. The two constructors differ in the name and the address
  they keep, in the treatment of the pools' edges and in the identifiers the second one also enters.
\<close>

definition add_node ::
    "up_env \<Rightarrow> (UeIPPool \<Rightarrow> UeIPPool) \<Rightarrow> bool \<Rightarrow> string \<times> UPNodeConfig \<Rightarrow> UserPlaneInformation \<Rightarrow>
     UserPlaneInformation upi" where
  "add_node env edges initial entry upi =
     (case entry of (name, node) \<Rightarrow>
        let a = length (upi_store upi);
            blank = \<lparr>un_Name = (if initial then name else []), un_Type = cn_Type node, un_NodeID = no_node_id,
                     un_ANIP = None, Links = [], un_UPF = None\<rparr>
        in
        obind (if cn_Type node = UPNODE_AN
               then Ok (upi\<lparr>upi_store := upi_store upi @ [blank\<lparr>un_ANIP := net_ParseIP env (cn_ANIP node)\<rparr>],
                            AccessNetwork := AList.update name a (AccessNetwork upi)\<rparr>)
               else if cn_Type node = UPNODE_UPF
               then
                 let nid = node_id env (cn_NodeID node);
                     uuid = uuid_New env a;
                     upf = (NewUPF env uuid nid (cn_Interfaces node))
                             \<lparr>upf_Addr := (if initial then cn_Addr node else [])\<rparr>
                 in
                 obind (ofold (add_snssai env edges) (cn_SNssaiInfos node) (ue_pools upi, [])) (\<lambda>(pools, infos).
                   let upNode = blank\<lparr>un_NodeID := nid, un_UPF := Some (upf\<lparr>SNssaiInfos := infos\<rparr>)\<rparr>;
                       upi = upi\<lparr>upi_store := upi_store upi @ [upNode], ue_pools := pools,
                                 upfPool := AList.update uuid a (upfPool upi), UPFs := AList.update name a (UPFs upi)\<rparr>
                   in Ok (if initial then upi
                          else upi\<lparr>UPFsID := AList.update name uuid (UPFsID upi),
                                   UPFsIPtoID := AList.update (node_ip env upNode) uuid (UPFsIPtoID upi)\<rparr>))
               else Ok (upi\<lparr>upi_store := upi_store upi @ [blank]\<rparr>)) (\<lambda>upi.
          Ok (upi\<lparr>UPNodes := AList.update name a (UPNodes upi),
                  UPFIPToName := AList.update (node_ip env (upi_store upi ! a)) name (UPFIPToName upi)\<rparr>)))"

text \<open>The dynamic pools of all UPFs, whose overlap is fatal.\<close>

definition dynamic_pools :: "UserPlaneInformation \<Rightarrow> (string \<times> nat) list \<Rightarrow> UeIPPool list" where
  "dynamic_pools upi upfs =
     concat (map (\<lambda>(name, a). case un_UPF (upi_store upi ! a) of None \<Rightarrow> []
       | Some upf \<Rightarrow> concat (map (\<lambda>info. concat (map (\<lambda>d. map ((!) (ue_pools upi)) (UeIPPools d)) (DnnList info)))
           (SNssaiInfos upf))) upfs)"

definition empty_upi :: UserPlaneInformation where
  "empty_upi = \<lparr>upi_store = [], ue_pools = [], upfPool = [], UPNodes = [], UPFs = [], AccessNetwork = [],
     UPFIPToName = [], UPFsID = [], UPFsIPtoID = [], DefaultUserPlanePath = [], DefaultUserPlanePathToUPF = []\<rparr>"

definition NewUserPlaneInformation ::
    "up_env \<Rightarrow> (string \<times> UPNodeConfig) list \<Rightarrow> (string \<times> string) list \<Rightarrow> UserPlaneInformation upi" where
  "NewUserPlaneInformation env nodes links =
     obind (ofold (add_node env reserve_edges True) nodes empty_upi) (\<lambda>upi.
       if isOverlap (dynamic_pools upi (UPFs upi)) then Err FatalOverlap
       else Ok (fold add_link links upi))"

definition UpNodesFromConfiguration ::
    "up_env \<Rightarrow> (string \<times> UPNodeConfig) list \<Rightarrow> UserPlaneInformation \<Rightarrow> UserPlaneInformation upi" where
  "UpNodesFromConfiguration env nodes upi =
     obind (ofold (\<lambda>entry upi. if map_of (UPNodes upi) (fst entry) \<noteq> None then Ok upi
                               else add_node env (\<lambda>p. p) False entry upi) nodes upi) (\<lambda>upi.
       if isOverlap (dynamic_pools upi (UPFs upi)) then Err FatalOverlap else Ok upi)"

text \<open>\<open>AllocateUPFID\<close>, which fills the tables of identifiers of the initial UPFs.\<close>

definition AllocateUPFID :: "up_env \<Rightarrow> range_order \<Rightarrow> UserPlaneInformation \<Rightarrow> UserPlaneInformation upi" where
  "AllocateUPFID env rng upi =
     ofold (\<lambda>(name, a) upi.
       obind (node_at upi a) (\<lambda>n.
       obind (deref (un_UPF n)) (\<lambda>upf.
         Ok (upi\<lparr>UPFsID := AList.update name (upf_uuid upf) (UPFsID upi),
                 UPFsIPtoID := AList.update (node_ip env n) (upf_uuid upf) (UPFsIPtoID upi)\<rparr>))))
       (rng (UPFs upi)) upi"

end
