(* ===== verification/Smf_Paths.thy ===== *)
theory Smf_Paths
  imports Smf_UserPlane
begin

text \<open>
  Data paths through the topology (\<^verbatim>\<open>getPathBetween\<close>, \<^verbatim>\<open>GenerateDefaultPath\<close>, \<^verbatim>\<open>GenerateDefaultPathToUPF\<close> and
  the caches in \<^verbatim>\<open>user_plane_information.go\<close>): a depth-first search over the links that marks nodes as visited,
  with the proof that it ends, finds a path exactly when there is one, and what path it finds.

  \<open>reflect.DeepEqual(*cur, *dest)\<close> is equality of the addresses: a destination is a UPF, and no two nodes have
  UPFs with the same UUID.
\<close>

section \<open>The search\<close>

definition unvisited :: "UserPlaneInformation \<Rightarrow> nat list \<Rightarrow> nat set" where
  "unvisited upi visited = {..< length (upi_store upi)} - set visited"

definition supports :: "UserPlaneInformation \<Rightarrow> UPFSelectionParams \<Rightarrow> nat \<Rightarrow> bool upi" where
  "supports upi selection a = obind (upf_at upi a) (\<lambda>upf. isSupportSnssai upf (sel_SNssai selection))"

text \<open>
  \<open>path_loop\<close> is the loop over the links of \<open>cur\<close>. Both return the path, if there is one, and the nodes
  visited.
\<close>

function (sequential) getPathBetween ::
    "UserPlaneInformation \<Rightarrow> UPFSelectionParams \<Rightarrow> nat \<Rightarrow> nat \<Rightarrow> nat list \<Rightarrow> (nat list option \<times> nat list) upi"
  and path_loop ::
    "UserPlaneInformation \<Rightarrow> UPFSelectionParams \<Rightarrow> nat \<Rightarrow> nat \<Rightarrow> nat list \<Rightarrow> nat list \<Rightarrow> (nat list option \<times> nat list) upi"
where
  "getPathBetween upi selection cur dest visited =
     (let visited = cur # visited in
      if cur = dest then Ok (Some [cur], visited)
      else obind (node_at upi cur) (\<lambda>n. path_loop upi selection cur dest (Links n) visited))"
| "path_loop upi selection cur dest [] visited = Ok (None, visited)"
| "path_loop upi selection cur dest (node # links) visited =
     (if node \<in> set visited then path_loop upi selection cur dest links visited
      else
        obind (supports upi selection node) (\<lambda>ok.
          if \<not> ok then path_loop upi selection cur dest links (node # visited)
          else
            obind (getPathBetween upi selection node dest visited) (\<lambda>r.
              case fst r of
                Some path_tail \<Rightarrow> Ok (Some (cur # path_tail), snd r)
              | None \<Rightarrow> path_loop upi selection cur dest links (snd r))))"
  by pat_completeness auto

lemma node_at_Ok: "node_at upi a = Ok n \<longleftrightarrow> a < length (upi_store upi) \<and> n = upi_store upi ! a"
  by (auto simp: node_at_def)

lemma supports_in_store: "supports upi selection a = Ok b \<Longrightarrow> a < length (upi_store upi)"
  by (auto simp: supports_def upf_at_def node_at_Ok go_simps)

lemma visited_grows:
  "getPathBetween_path_loop_dom (Inl (upi, selection, cur, dest, visited)) \<Longrightarrow>
     getPathBetween upi selection cur dest visited = Ok r \<Longrightarrow> insert cur (set visited) \<subseteq> set (snd r)"
  "getPathBetween_path_loop_dom (Inr (upi, selection, cur, dest, links, visited)) \<Longrightarrow>
     path_loop upi selection cur dest links visited = Ok r \<Longrightarrow> set visited \<subseteq> set (snd r)"
proof (induction upi selection cur dest visited and upi selection cur dest links visited arbitrary: r and r
    rule: getPathBetween_path_loop.pinduct)
  case (1 upi selection cur dest visited)
  note eq = getPathBetween.psimps [OF 1(1), unfolded Let_def]
  show ?case
  proof (cases "cur = dest")
    case True
    with 1(3) show ?thesis unfolding eq by auto
  next
    case False
    with 1(3) obtain n where n: "node_at upi cur = Ok n" "path_loop upi selection cur dest (Links n) (cur # visited) = Ok r"
      unfolding eq by (auto simp: obind_eq_Ok)
    from 1(2) [OF refl False n] show ?thesis by simp
  qed
next
  case (2 upi selection cur dest visited)
  then show ?case
    by (auto simp: path_loop.psimps(1))
next
  case (3 upi selection cur dest node links visited)
  note eq = path_loop.psimps(2) [OF 3(1)]
  show ?case
  proof (cases "node \<in> set visited")
    case True
    with 3 show ?thesis by (simp add: eq)
  next
    case False
    with 3(6) obtain ok where ok: "supports upi selection node = Ok ok"
      by (auto simp: eq go_simps)
    show ?thesis
    proof (cases ok)
      case False
      with 3(3) [OF \<open>node \<notin> set visited\<close> ok False] 3(6) ok \<open>node \<notin> set visited\<close> show ?thesis
        by (auto simp: eq)
    next
      case True
      with 3(6) ok False obtain q where q: "getPathBetween upi selection node dest visited = Ok q"
        by (auto simp: eq go_simps)
      from 3(4) [OF False ok _ q] True have "set visited \<subseteq> set (snd q)"
        by simp
      with 3(5) [OF False ok _ q] 3(6) ok q False True show ?thesis
        by (cases "fst q") (auto simp: eq)
    qed
  qed
qed

lemma card_unvisited:
  "a < length (upi_store upi) \<Longrightarrow> a \<notin> set visited \<Longrightarrow> card (unvisited upi (a # visited)) < card (unvisited upi visited)"
  "set visited \<subseteq> set visited' \<Longrightarrow> card (unvisited upi visited') \<le> card (unvisited upi visited)"
  unfolding unvisited_def by (rule psubset_card_mono; force) (rule card_mono; force)

lemma search_terminates: "All getPathBetween_path_loop_dom"
  apply (rule "getPathBetween_path_loop.termination" [of "measures
    [\<lambda>x. case x of Inl (upi, selection, cur, dest, visited) \<Rightarrow> card (unvisited upi (cur # visited))
       | Inr (upi, selection, cur, dest, links, visited) \<Rightarrow> card (unvisited upi visited),
     \<lambda>x. case x of Inl _ \<Rightarrow> 1 | Inr _ \<Rightarrow> 0,
     \<lambda>x. case x of Inl _ \<Rightarrow> 0 | Inr (upi, selection, cur, dest, links, visited) \<Rightarrow> length links]"])
  subgoal by simp
  subgoal by simp
  subgoal by simp
  subgoal for upi selection cur dest node links visited ok
    using card_unvisited(1) [of node upi visited] supports_in_store [of upi selection node ok] by simp
  subgoal for upi selection cur dest node links visited ok
    using card_unvisited(1) [of node upi visited] supports_in_store [of upi selection node ok] by simp
  subgoal for upi selection cur dest node links visited ok r
    using card_unvisited(2) [of visited "snd r" upi] visited_grows(1) [of upi selection node dest visited r] by (auto simp: le_less)
  done

termination getPathBetween
  by (rule search_terminates)

lemmas visited_kept = visited_grows [OF search_terminates [rule_format]]

section \<open>What the search finds\<close>

text \<open>A hop of a data path: a link to a UPF that supports the slice.\<close>

definition hop :: "UserPlaneInformation \<Rightarrow> UPFSelectionParams \<Rightarrow> nat \<Rightarrow> nat \<Rightarrow> bool" where
  "hop upi selection a b \<longleftrightarrow>
     a < length (upi_store upi) \<and> b \<in> set (Links (upi_store upi ! a)) \<and> supports upi selection b = Ok True"

text \<open>A simple path to the destination that avoids the nodes visited before.\<close>

definition leads_to ::
    "UserPlaneInformation \<Rightarrow> UPFSelectionParams \<Rightarrow> nat \<Rightarrow> nat \<Rightarrow> nat list \<Rightarrow> nat list \<Rightarrow> bool" where
  "leads_to upi selection cur dest visited p \<longleftrightarrow>
     p \<noteq> [] \<and> hd p = cur \<and> last p = dest \<and> distinct p \<and> successively (hop upi selection) p \<and> set (tl p) \<inter> set visited = {}"

lemma leads_to_Cons:
  assumes "leads_to upi selection node dest visited p" and "hop upi selection cur node"
    and "cur \<in> set visited" and "node \<notin> set visited"
  shows "leads_to upi selection cur dest visited (cur # p)"
  using assms by (cases p) (auto simp: leads_to_def)

lemma found_path:
  "getPathBetween upi selection cur dest visited = Ok r \<Longrightarrow> fst r = Some p \<Longrightarrow> cur \<notin> set visited \<Longrightarrow>
     leads_to upi selection cur dest visited p"
  "path_loop upi selection cur dest links visited = Ok r \<Longrightarrow> fst r = Some p \<Longrightarrow> cur \<in> set visited \<Longrightarrow>
     cur < length (upi_store upi) \<Longrightarrow> set links \<subseteq> set (Links (upi_store upi ! cur)) \<Longrightarrow>
     leads_to upi selection cur dest visited p"
proof (induction upi selection cur dest visited and upi selection cur dest links visited arbitrary: r p and r p
    rule: getPathBetween_path_loop.induct)
  case (1 upi selection cur dest visited)
  show ?case
  proof (cases "cur = dest")
    case True
    with 1(2,3) show ?thesis by (auto simp: leads_to_def)
  next
    case False
    with 1(2) obtain n where n: "node_at upi cur = Ok n" "path_loop upi selection cur dest (Links n) (cur # visited) = Ok r"
      by (auto simp: Let_def obind_eq_Ok)
    from n(1) have "cur < length (upi_store upi)" "n = upi_store upi ! cur"
      by (simp_all add: node_at_Ok)
    with 1(1) [OF refl False n(1) n(2) 1(3)] show ?thesis
      by (auto simp: leads_to_def)
  qed
next
  case (3 upi selection cur dest node links visited)
  show ?case
  proof (cases "node \<in> set visited")
    case True
    with 3 show ?thesis by simp
  next
    case False
    with 3(5) obtain ok where ok: "supports upi selection node = Ok ok"
      by (auto simp: obind_eq_Ok)
    show ?thesis
    proof (cases ok)
      case False
      with 3(2) [OF \<open>node \<notin> set visited\<close> ok] 3(5-9) ok \<open>node \<notin> set visited\<close> show ?thesis
        by (auto simp: leads_to_def)
    next
      case True
      with 3(5) ok False obtain q where q: "getPathBetween upi selection node dest visited = Ok q"
        by (auto simp: obind_eq_Ok)
      have h: "hop upi selection cur node"
        using 3(8,9) ok True by (simp add: hop_def)
      show ?thesis
      proof (cases "fst q")
        case (Some t)
        with 3(5,6) q ok True False have "p = cur # t" by auto
        with leads_to_Cons [OF 3(3) [OF False ok _ q Some False] h 3(7) False] True show ?thesis by simp
      next
        case None
        have grow: "insert node (set visited) \<subseteq> set (snd q)"
          using visited_kept(1) [OF q] by simp
        have "path_loop upi selection cur dest links (snd q) = Ok r"
          using 3(5) q ok True False None by simp
        with 3(4) [OF False ok _ q None this 3(6)] 3(7-9) grow True show ?thesis
          by (auto simp: leads_to_def)
      qed
    qed
  qed
qed auto

text \<open>
  When no path is found, every node visited by the search that supports the slice has its own hops visited
  and is not the destination.
\<close>

definition searched :: "UserPlaneInformation \<Rightarrow> UPFSelectionParams \<Rightarrow> nat \<Rightarrow> nat set \<Rightarrow> nat set \<Rightarrow> bool" where
  "searched upi selection dest new visited \<longleftrightarrow>
     (\<forall>x\<in>new. x \<noteq> dest \<and> (\<forall>y. hop upi selection x y \<longrightarrow> y \<in> visited))"

lemma searched_mono: "searched upi selection dest new v \<Longrightarrow> v \<subseteq> v' \<Longrightarrow> searched upi selection dest new v'"
  by (auto simp: searched_def)

definition supported_in :: "UserPlaneInformation \<Rightarrow> UPFSelectionParams \<Rightarrow> nat set \<Rightarrow> nat set" where
  "supported_in upi selection v = {x \<in> v. supports upi selection x = Ok True}"

lemma searched_Un: "searched upi selection dest (A \<union> B) v \<longleftrightarrow> searched upi selection dest A v \<and> searched upi selection dest B v"
  by (auto simp: searched_def)

lemma no_path:
  "getPathBetween upi selection cur dest visited = Ok r \<Longrightarrow> fst r = None \<Longrightarrow>
     searched upi selection dest (insert cur (supported_in upi selection (set (snd r) - set visited))) (set (snd r))"
  "path_loop upi selection cur dest links visited = Ok r \<Longrightarrow> fst r = None \<Longrightarrow>
     supported_in upi selection (set links) \<subseteq> set (snd r) \<and>
     searched upi selection dest (supported_in upi selection (set (snd r) - set visited)) (set (snd r))"
proof (induction upi selection cur dest visited and upi selection cur dest links visited arbitrary: r and r
    rule: getPathBetween_path_loop.induct)
  case (1 upi selection cur dest visited)
  show ?case
  proof (cases "cur = dest")
    case True
    with 1(2,3) show ?thesis by auto
  next
    case False
    with 1(2) obtain n where n: "node_at upi cur = Ok n" "path_loop upi selection cur dest (Links n) (cur # visited) = Ok r"
      by (auto simp: Let_def obind_eq_Ok)
    note IH = 1(1) [OF refl False n 1(3)]
    then have "searched upi selection dest {cur} (set (snd r))"
      using n(1) False by (auto simp: searched_def hop_def supported_in_def node_at_Ok)
    moreover have "insert cur (supported_in upi selection (set (snd r) - set visited)) =
        {cur} \<union> supported_in upi selection (set (snd r) - set (cur # visited))"
      by (auto simp: supported_in_def)
    ultimately show ?thesis
      using IH by (simp only: searched_Un simp_thms)
  qed
next
  case (3 upi selection cur dest node links visited)
  show ?case
  proof (cases "node \<in> set visited")
    case True
    with 3(5) have "path_loop upi selection cur dest links visited = Ok r" by simp
    with 3(1) [OF True this 3(6)] visited_kept(2) [OF this] True show ?thesis
      by (auto simp: supported_in_def)
  next
    case False
    with 3(5) obtain ok where ok: "supports upi selection node = Ok ok"
      by (auto simp: obind_eq_Ok)
    show ?thesis
    proof (cases ok)
      case no: False
      with 3(5) ok False have l: "path_loop upi selection cur dest links (node # visited) = Ok r" by simp
      have "supported_in upi selection (set (snd r) - set visited) = supported_in upi selection (set (snd r) - set (node # visited))"
        using ok no by (auto simp: supported_in_def)
      with 3(2) [OF False ok no l 3(6)] ok no show ?thesis
        by (auto simp: supported_in_def)
    next
      case True
      with 3(5) ok False obtain q where q: "getPathBetween upi selection node dest visited = Ok q"
        by (auto simp: obind_eq_Ok)
      with 3(5,6) ok True False have none: "fst q = None" and l: "path_loop upi selection cur dest links (snd q) = Ok r"
        by (auto split: option.splits)
      have grow: "insert node (set visited) \<subseteq> set (snd q)" "set (snd q) \<subseteq> set (snd r)"
        using visited_kept(1) [OF q] visited_kept(2) [OF l] by simp_all
      have "searched upi selection dest (insert node (supported_in upi selection (set (snd q) - set visited))) (set (snd r))"
        using 3(3) [OF False ok _ q none] True grow(2) searched_mono by blast
      moreover have "supported_in upi selection (set (snd r) - set visited) \<subseteq>
          insert node (supported_in upi selection (set (snd q) - set visited)) \<union> supported_in upi selection (set (snd r) - set (snd q))"
        by (auto simp: supported_in_def)
      ultimately show ?thesis
        using 3(4) [OF False ok _ q none l 3(6)] True grow by (auto simp: supported_in_def searched_def)
    qed
  qed
qed (auto simp: supported_in_def searched_def)

text \<open>The search ends without a panic when every node linked to, but for the source, is a UPF.\<close>

definition links_to_upfs :: "UserPlaneInformation \<Rightarrow> nat \<Rightarrow> bool" where
  "links_to_upfs upi source \<longleftrightarrow>
     (\<forall>n\<in>set (upi_store upi). \<forall>b\<in>set (Links n). b < length (upi_store upi) \<and>
        (b = source \<or> un_UPF (upi_store upi ! b) \<noteq> None))"

definition upf_supports :: "SNssai \<Rightarrow> UPF \<Rightarrow> bool" where
  "upf_supports sn upf \<longleftrightarrow>
     list_ex (\<lambda>i. sn_Sst (si_SNssai i) = sn_Sst sn \<and> EqualFold (sn_Sd (si_SNssai i)) (sn_Sd sn)) (SNssaiInfos upf)"

lemma isSupportSnssai_Ok: "isSupportSnssai upf (Some sn) = Ok (upf_supports sn upf)"
  unfolding isSupportSnssai_def upf_supports_def by (rule oexists_Ok) (simp add: SNssai_Equal_def)

lemma supports_Ok:
  "a < length (upi_store upi) \<Longrightarrow> un_UPF (upi_store upi ! a) = Some upf \<Longrightarrow> sel_SNssai selection = Some sn \<Longrightarrow>
   supports upi selection a = Ok (upf_supports sn upf)"
  by (simp add: supports_def upf_at_def node_at_def isSupportSnssai_Ok)

lemma search_ends:
  assumes "links_to_upfs upi source" and "sel_SNssai selection = Some sn"
  shows "cur < length (upi_store upi) \<Longrightarrow> source \<in> insert cur (set visited) \<Longrightarrow>
      \<exists>r. getPathBetween upi selection cur dest visited = Ok r"
    and "set links \<subseteq> set (Links (upi_store upi ! cur)) \<Longrightarrow> cur < length (upi_store upi) \<Longrightarrow> source \<in> set visited \<Longrightarrow>
      \<exists>r. path_loop upi selection cur dest links visited = Ok r"
  using assms
proof (induction upi selection cur dest visited and upi selection cur dest links visited
    rule: getPathBetween_path_loop.induct)
  case (1 upi selection cur dest visited)
  show ?case
  proof (cases "cur = dest")
    case False
    have n: "node_at upi cur = Ok (upi_store upi ! cur)"
      using 1(2) by (simp add: node_at_Ok)
    from 1(1) [OF refl False n] 1(2-5) have "\<exists>r. path_loop upi selection cur dest (Links (upi_store upi ! cur)) (cur # visited) = Ok r"
      by simp
    with n False show ?thesis by simp
  qed simp
next
  case (3 upi selection cur dest node links visited)
  show ?case
  proof (cases "node \<in> set visited")
    case True
    with 3 show ?thesis by simp
  next
    case False
    have "upi_store upi ! cur \<in> set (upi_store upi)"
      using 3(6) by simp
    then have node: "node < length (upi_store upi)" "un_UPF (upi_store upi ! node) \<noteq> None"
      using 3(5,7,8) False unfolding links_to_upfs_def by (force, force)
    then obtain ok where ok: "supports upi selection node = Ok ok"
      using supports_Ok 3(9) by blast
    show ?thesis
    proof (cases ok)
      case no: False
      with 3(2) [OF False ok] 3(5-9) ok False show ?thesis by simp
    next
      case True
      with 3(3) [OF False ok] node(1) 3(7-9) obtain q where q: "getPathBetween upi selection node dest visited = Ok q"
        by auto
      have "source \<in> set (snd q)"
        using visited_kept(1) [OF q] 3(7) by auto
      with 3(4) [OF False ok _ q] 3(5-9) True have "fst q = None \<Longrightarrow> \<exists>r. path_loop upi selection cur dest links (snd q) = Ok r"
        by simp
      with ok True False q show ?thesis
        by (cases "fst q") simp_all
    qed
  qed
qed simp

lemma hops_of_path: "successively (hop upi selection) p \<Longrightarrow> p \<noteq> [] \<Longrightarrow> (hop upi selection)\<^sup>*\<^sup>* (hd p) (last p)"
  by (induction p rule: induct_list012) (auto intro: converse_rtranclp_into_rtranclp)

lemma path_exists_iff:
  assumes "getPathBetween upi selection source dest [] = Ok r"
  shows "(fst r = None \<longleftrightarrow> \<not> (hop upi selection)\<^sup>*\<^sup>* source dest) \<and>
    (\<forall>p. fst r = Some p \<longrightarrow> leads_to upi selection source dest [] p)"
proof (cases "fst r")
  case None
  note closed = no_path(1) [OF assms None]
  have "y = source \<or> y \<in> supported_in upi selection (set (snd r))" if "(hop upi selection)\<^sup>*\<^sup>* source y" for y
    using that
  proof induction
    case (step y z)
    then show ?case using closed by (auto simp: searched_def supported_in_def hop_def)
  qed simp
  with closed None show ?thesis by (auto simp: searched_def)
next
  case (Some p)
  with found_path(1) [OF assms Some] hops_of_path [of upi selection p] show ?thesis
    by (auto simp: leads_to_def)
qed

declare getPathBetween.simps [simp del]

section \<open>Default paths and their caches\<close>

definition selectMatchUPF ::
    "range_order \<Rightarrow> UPFSelectionParams \<Rightarrow> UserPlaneInformation \<Rightarrow> nat list upi" where
  "selectMatchUPF rng selection upi =
     omap concat (omapM (\<lambda>(name, a).
       obind (upf_at upi a) (\<lambda>upf.
         omap concat (omapM (\<lambda>info.
           obind (SNssai_Equal (si_SNssai info) (sel_SNssai selection)) (\<lambda>eq.
             Ok (if eq \<and> list_ex (\<lambda>d. di_Dnn d = sel_Dnn selection \<and> ContainsDNAI d (sel_Dnai selection)) (DnnList info)
                 then [a] else []))) (SNssaiInfos upf)))) (rng (UPFs upi)))"

text \<open>A path as it is kept: without the access node at its head.\<close>

definition drop_an :: "UserPlaneInformation \<Rightarrow> nat list \<Rightarrow> nat list upi" where
  "drop_an upi path =
     (case path of [] \<Rightarrow> Panic
      | a # rest \<Rightarrow> obind (node_at upi a) (\<lambda>n. Ok (if un_Type n = UPNODE_AN then rest else path)))"

text \<open>The loop over the access nodes, up to the first one with a path.\<close>

primrec access_loop ::
    "UserPlaneInformation \<Rightarrow> UPFSelectionParams \<Rightarrow> nat \<Rightarrow> (string \<times> nat) list \<Rightarrow> nat list option upi" where
  "access_loop upi selection dest [] = Ok None"
| "access_loop upi selection dest (an # ans) =
     obind (node_at upi (snd an)) (\<lambda>n.
       if un_Type n \<noteq> UPNODE_AN then access_loop upi selection dest ans
       else
         obind (getPathBetween upi selection (snd an) dest []) (\<lambda>r.
           case fst r of
             Some path \<Rightarrow> omap Some (drop_an upi path)
           | None \<Rightarrow> access_loop upi selection dest ans))"

definition GenerateDefaultPath ::
    "up_env \<Rightarrow> range_order \<Rightarrow> UPFSelectionParams \<Rightarrow> UserPlaneInformation \<Rightarrow> (bool \<times> UserPlaneInformation) upi" where
  "GenerateDefaultPath env rng selection upi =
     obind (selectMatchUPF rng selection upi) (\<lambda>destinations.
     obind (deref (sel_SNssai selection)) (\<lambda>_.
       case destinations of
         [] \<Rightarrow> Ok (False, upi)
       | dest # _ \<Rightarrow>
           obind (access_loop upi selection dest (rng (AccessNetwork upi))) (\<lambda>r.
             Ok (case r of
                   None \<Rightarrow> (False, upi)
                 | Some path \<Rightarrow>
                     (True, upi\<lparr>DefaultUserPlanePath :=
                        AList.update (selection_String env selection) path (DefaultUserPlanePath upi)\<rparr>)))))"

definition GetDefaultUserPlanePathByDNN ::
    "up_env \<Rightarrow> range_order \<Rightarrow> UPFSelectionParams \<Rightarrow> UserPlaneInformation \<Rightarrow>
     (nat list option \<times> UserPlaneInformation) upi" where
  "GetDefaultUserPlanePathByDNN env rng selection upi =
     (case map_of (DefaultUserPlanePath upi) (selection_String env selection) of
        Some path \<Rightarrow> Ok (Some path, upi)
      | None \<Rightarrow>
          obind (GenerateDefaultPath env rng selection upi) (\<lambda>(pathExist, upi).
            Ok (if pathExist then map_of (DefaultUserPlanePath upi) (selection_String env selection) else None, upi)))"

definition selectUPPathSource :: "range_order \<Rightarrow> UserPlaneInformation \<Rightarrow> nat upi" where
  "selectUPPathSource rng upi =
     obind (ofind (\<lambda>(name, a). omap (\<lambda>n. un_Type n = UPNODE_AN) (node_at upi a)) (rng (AccessNetwork upi))) (\<lambda>r.
       case r of None \<Rightarrow> Err ANNotFound | Some (name, a) \<Rightarrow> Ok a)"

definition cached_path :: "string \<Rightarrow> string \<Rightarrow> UserPlaneInformation \<Rightarrow> nat list option" where
  "cached_path key ip upi = Option.bind (map_of (DefaultUserPlanePathToUPF upi) key) (\<lambda>m. map_of m ip)"

definition GenerateDefaultPathToUPF ::
    "up_env \<Rightarrow> range_order \<Rightarrow> UPFSelectionParams \<Rightarrow> nat \<Rightarrow> UserPlaneInformation \<Rightarrow>
     (bool \<times> UserPlaneInformation) upi" where
  "GenerateDefaultPathToUPF env rng selection destination upi =
     (case selectUPPathSource rng upi of
        Err _ \<Rightarrow> Ok (False, upi)
      | Panic \<Rightarrow> Panic
      | Ok source \<Rightarrow>
          obind (getPathBetween upi selection source destination []) (\<lambda>r.
            case fst r of
              None \<Rightarrow> Ok (False, upi)
            | Some path \<Rightarrow>
                obind (drop_an upi path) (\<lambda>path.
                obind (node_at upi destination) (\<lambda>n.
                  let key = selection_String env selection;
                      dests = (case map_of (DefaultUserPlanePathToUPF upi) key of None \<Rightarrow> [] | Some m \<Rightarrow> m)
                  in Ok (True, upi\<lparr>DefaultUserPlanePathToUPF :=
                       AList.update key (AList.update (node_ip env n) path dests) (DefaultUserPlanePathToUPF upi)\<rparr>)))))"

definition GetDefaultUserPlanePathByDNNAndUPF ::
    "up_env \<Rightarrow> range_order \<Rightarrow> UPFSelectionParams \<Rightarrow> nat \<Rightarrow> UserPlaneInformation \<Rightarrow>
     (nat list option \<times> UserPlaneInformation) upi" where
  "GetDefaultUserPlanePathByDNNAndUPF env rng selection upf upi =
     obind (node_at upi upf) (\<lambda>n.
       let key = selection_String env selection in
       case cached_path key (node_ip env n) upi of
         Some path \<Rightarrow> Ok (Some path, upi)
       | None \<Rightarrow>
           obind (GenerateDefaultPathToUPF env rng selection upf upi) (\<lambda>(pathExist, upi).
             Ok (if pathExist then cached_path key (node_ip env n) upi else None, upi)))"

definition ExistDefaultPath :: "string \<Rightarrow> UserPlaneInformation \<Rightarrow> bool" where
  "ExistDefaultPath dnn upi \<longleftrightarrow> map_of (DefaultUserPlanePath upi) dnn \<noteq> None"

section \<open>Properties\<close>

lemma rng_source:
  assumes "set (rng (AccessNetwork upi)) = set (AccessNetwork upi)" and "AccessNetwork upi \<noteq> []"
    and "\<forall>x\<in>set (AccessNetwork upi). snd x = an" and "an < length (upi_store upi)" and "un_Type (upi_store upi ! an) = UPNODE_AN"
  shows "selectUPPathSource rng upi = Ok an"
proof -
  obtain x xs where "rng (AccessNetwork upi) = x # xs" "snd x = an"
    using assms(1-3) by (cases "rng (AccessNetwork upi)") auto
  with assms(4,5) show ?thesis
    by (cases x) (simp add: selectUPPathSource_def node_at_def)
qed

lemma leads_to_drop_an:
  assumes "leads_to upi selection an dest [] p" and "an < length (upi_store upi)" and "un_Type (upi_store upi ! an) = UPNODE_AN"
  shows "drop_an upi p = Ok (tl p) \<and> p = an # tl p"
  using assms by (cases p) (auto simp: leads_to_def drop_an_def node_at_def)

text \<open>
  C18. The default data path to a UPF. With one access node, and every linked node other than it a UPF
  (a second access node panics the search, as \<open>second_access_node_panics\<close> shows),
  the request for the path to a UPF that is not cached yet is answered, never panics and never runs on: it is a path
  exactly when the UPF can be reached from the access node over UPFs that support the slice, and then it is
  a chain of different, linked, supporting UPFs that ends at the requested one. A second request is answered
  with the same path.
\<close>

theorem data_path_found:
  assumes "links_to_upfs upi an" and "sel_SNssai selection = Some sn"
    and "set (rng (AccessNetwork upi)) = set (AccessNetwork upi)" and "AccessNetwork upi \<noteq> []"
    and "\<forall>x\<in>set (AccessNetwork upi). snd x = an" and "an < length (upi_store upi)" and "un_Type (upi_store upi ! an) = UPNODE_AN"
    and "upf < length (upi_store upi)"
    and "cached_path (selection_String env selection) (node_ip env (upi_store upi ! upf)) upi = None"
  shows "\<exists>path upi'. GetDefaultUserPlanePathByDNNAndUPF env rng selection upf upi = Ok (path, upi') \<and>
    (path = None \<longleftrightarrow> \<not> (hop upi selection)\<^sup>*\<^sup>* an upf) \<and>
    (\<forall>p. path = Some p \<longrightarrow> leads_to upi selection an upf [] (an # p) \<and>
       GetDefaultUserPlanePathByDNNAndUPF env rng selection upf upi' = Ok (Some p, upi'))"
proof -
  obtain r where r: "getPathBetween upi selection an upf [] = Ok r"
    using search_ends(1) [OF assms(1,2,6), of "[]" upf] by auto
  note found = path_exists_iff [OF r]
  note source = rng_source [where an = an and upi = upi and rng = rng, OF assms(3-7)]
  have n: "node_at upi upf = Ok (upi_store upi ! upf)"
    using assms(8) by (simp add: node_at_def)
  show ?thesis
  proof (cases "fst r")
    case None
    with found r source n assms(9) show ?thesis
      by (simp add: GetDefaultUserPlanePathByDNNAndUPF_def GenerateDefaultPathToUPF_def)
  next
    case (Some p)
    with found have l: "leads_to upi selection an upf [] p" "(hop upi selection)\<^sup>*\<^sup>* an upf" by auto
    from leads_to_drop_an [OF l(1) assms(6,7)] have d: "drop_an upi p = Ok (tl p)" "an # tl p = p" by auto
    with r source n assms(8,9) Some l show ?thesis
      by (auto simp: GetDefaultUserPlanePathByDNNAndUPF_def GenerateDefaultPathToUPF_def cached_path_def
          Let_def node_at_def update_conv')
  qed
qed

text \<open>
  A small topology: an access node, a branching UPF, an anchor and a UPF that serves another slice.
\<close>

definition demo_slice :: SNssai where
  "demo_slice = \<lparr>sn_Sst = 1, sn_Sd = ''010203''\<rparr>"

definition demo_upf :: "string \<Rightarrow> SNssai \<Rightarrow> UPF" where
  "demo_upf uuid sn = \<lparr>upf_uuid = uuid, upf_NodeID = no_node_id, upf_Addr = [], upf_associated = True,
     SNssaiInfos = [\<lparr>si_SNssai = sn, DnnList = []\<rparr>], N3Interfaces = [], N9Interfaces = []\<rparr>"

definition demo_node :: "string \<Rightarrow> string \<Rightarrow> nat list \<Rightarrow> UPF option \<Rightarrow> UPNode" where
  "demo_node name type links upf =
     \<lparr>un_Name = name, un_Type = type, un_NodeID = no_node_id\<lparr>FQDN := name\<rparr>, un_ANIP = None, Links = links, un_UPF = upf\<rparr>"

definition demo_topology :: UserPlaneInformation where
  "demo_topology = empty_upi\<lparr>upi_store :=
     [demo_node ''gNB'' ''AN'' [3, 1] None,
      demo_node ''I-UPF'' ''UPF'' [0, 2] (Some (demo_upf ''u1'' demo_slice)),
      demo_node ''PSA'' ''UPF'' [1, 3] (Some (demo_upf ''u2'' demo_slice)),
      demo_node ''Other'' ''UPF'' [2, 0] (Some (demo_upf ''u3'' \<lparr>sn_Sst = 2, sn_Sd = []\<rparr>))],
     UPNodes := [(''gNB'', 0), (''I-UPF'', 1), (''PSA'', 2), (''Other'', 3)],
     UPFs := [(''I-UPF'', 1), (''PSA'', 2), (''Other'', 3)], AccessNetwork := [(''gNB'', 0)]\<rparr>"

definition demo_env :: up_env where
  "demo_env = \<lparr>net_ParseCIDR = (\<lambda>_. None), net_ParseIP = (\<lambda>_. None), ResolveNodeIdToIp = (\<lambda>_. None),
     IP_String = (\<lambda>_. []), uuid_New = (\<lambda>n. Itoa n)\<rparr>"

definition demo_selection :: UPFSelectionParams where
  "demo_selection = \<lparr>sel_Dnn = ''internet'', sel_SNssai = Some demo_slice, sel_Dnai = [], sel_PDUAddress = None\<rparr>"

theorem data_path_found_witness:
  "\<exists>upi'. GetDefaultUserPlanePathByDNNAndUPF demo_env rev demo_selection 2 demo_topology = Ok (Some [1, 2], upi') \<and>
     (hop demo_topology demo_selection)\<^sup>*\<^sup>* 0 2 \<and> leads_to demo_topology demo_selection 0 2 [] [0, 1, 2]"
proof -
  have pre: "links_to_upfs demo_topology 0" "sel_SNssai demo_selection = Some demo_slice"
    "set (rev (AccessNetwork demo_topology)) = set (AccessNetwork demo_topology)" "AccessNetwork demo_topology \<noteq> []"
    "\<forall>x\<in>set (AccessNetwork demo_topology). snd x = 0" "0 < length (upi_store demo_topology)"
    "un_Type (upi_store demo_topology ! 0) = UPNODE_AN" "2 < length (upi_store demo_topology)"
    "cached_path (selection_String demo_env demo_selection) (node_ip demo_env (upi_store demo_topology ! 2)) demo_topology = None"
    by (simp_all add: links_to_upfs_def demo_topology_def demo_node_def demo_selection_def UPNODE_AN_def cached_path_def
        empty_upi_def)
  have "getPathBetween demo_topology demo_selection 0 2 [] = Ok (Some [0, 1, 2], [2, 1, 3, 0])"
    by code_simp
  then have "GetDefaultUserPlanePathByDNNAndUPF demo_env rev demo_selection 2 demo_topology =
      Ok (Some [1, 2], demo_topology\<lparr>DefaultUserPlanePathToUPF :=
        [(selection_String demo_env demo_selection, [([], [1, 2])])]\<rparr>)"
    by (simp add: GetDefaultUserPlanePathByDNNAndUPF_def GenerateDefaultPathToUPF_def selectUPPathSource_def node_at_def
        drop_an_def cached_path_def node_ip_def demo_env_def demo_topology_def demo_node_def empty_upi_def UPNODE_AN_def Let_def)
  with data_path_found [where rng = rev, OF pre] show ?thesis
    by auto
qed

lemma unlink_fields [simp]:
  "UPNodes (unlink a l u) = UPNodes u" "UPFs (unlink a l u) = UPFs u"
  "DefaultUserPlanePath (unlink a l u) = DefaultUserPlanePath u"
  "DefaultUserPlanePathToUPF (unlink a l u) = DefaultUserPlanePathToUPF u"
  unfolding unlink_def by (induction l arbitrary: u) (auto simp: set_links_def)

text \<open>
  Deleting a UPF removes it from the topology and from the cached paths to UPFs, but not from
  the cache of default paths: a session of a cached selection is still given a path through the deleted UPF.
\<close>

theorem deleted_upf_on_default_path:
  assumes "map_of (UPNodes upi) name = Some a" and "un_Type (upi_store upi ! a) = UPNODE_UPF"
    and "map_of (DefaultUserPlanePath upi) (selection_String env selection) = Some path" and "a \<in> set path"
    and "UpNodeDelete env rng name upi = Ok upi'"
  shows "map_of (UPNodes upi') name = None \<and> map_of (UPFs upi') name = None \<and>
    (\<forall>key ip q. cached_path key ip upi' = Some q \<longrightarrow> a \<notin> set q) \<and>
    GetDefaultUserPlanePathByDNN env rng' selection upi' = Ok (Some path, upi')"
proof -
  obtain n where n: "node_at upi a = Ok n"
    using assms(1,5) by (auto simp: UpNodeDelete_def go_simps)
  then have type: "un_Type n = UPNODE_UPF" "UPNODE_UPF \<noteq> UPNODE_AN"
    using assms(2) by (auto simp: node_at_Ok UPNODE_UPF_def UPNODE_AN_def)
  obtain upf where upf: "un_UPF n = Some upf"
    using assms(1,5) n type by (auto simp: UpNodeDelete_def go_simps)
  obtain u where u: "RemoveUPFNodeByNodeID env rng (upf_NodeID upf) upi = Ok u"
    using assms(1,5) n type upf by (auto simp: UpNodeDelete_def go_simps)
  have upi': "upi' = unlink a (map snd (AList.delete name (UPNodes u)))
      (u\<lparr>UPFs := AList.delete name (UPFs u),
         DefaultUserPlanePathToUPF :=
           map (\<lambda>(sel, dests). (sel, filter (\<lambda>(ip, path). a \<notin> set path) dests)) (DefaultUserPlanePathToUPF u),
         UPNodes := AList.delete name (UPNodes u)\<rparr>)"
    using assms(1,5) n type upf u by (simp add: UpNodeDelete_def Let_def)
  have same: "UPNodes u = UPNodes upi" "UPFs u = UPFs upi" "DefaultUserPlanePath u = DefaultUserPlanePath upi"
    "DefaultUserPlanePathToUPF u = DefaultUserPlanePathToUPF upi"
    using u by (auto simp: RemoveUPFNodeByNodeID_def go_simps split: option.splits)
  have "a \<notin> set q" if "cached_path key ip upi' = Some q" for key ip q
    using that by (auto simp: cached_path_def upi' bind_eq_Some_conv dest!: map_of_SomeD)
  moreover have "UPNodes upi' = AList.delete name (UPNodes upi)" "UPFs upi' = AList.delete name (UPFs upi)"
      "DefaultUserPlanePath upi' = DefaultUserPlanePath upi"
    by (simp_all add: upi' same)
  ultimately show ?thesis
    using assms(3) by (simp add: GetDefaultUserPlanePathByDNN_def delete_conv')
qed

theorem deleted_upf_on_default_path_witness:
  "\<exists>upi'. UpNodeDelete demo_env rev ''PSA''
      (demo_topology\<lparr>DefaultUserPlanePath := [(selection_String demo_env demo_selection, [1, 2])]\<rparr>) = Ok upi' \<and>
    GetDefaultUserPlanePathByDNN demo_env rev demo_selection upi' = Ok (Some [1, 2], upi')"
proof -
  let ?upi = "demo_topology\<lparr>DefaultUserPlanePath := [(selection_String demo_env demo_selection, [1, 2])]\<rparr>"
  have pre: "map_of (UPNodes ?upi) ''PSA'' = Some 2" "un_Type (upi_store ?upi ! 2) = UPNODE_UPF"
    "map_of (DefaultUserPlanePath ?upi) (selection_String demo_env demo_selection) = Some [1, 2]" "2 \<in> set [1, 2 :: nat]"
    by (simp_all add: demo_topology_def demo_node_def UPNODE_UPF_def empty_upi_def)
  obtain upi' where "UpNodeDelete demo_env rev ''PSA'' ?upi = Ok upi'"
    by (simp add: UpNodeDelete_def RemoveUPFNodeByNodeID_def node_at_def demo_topology_def demo_node_def empty_upi_def
        UPNODE_UPF_def UPNODE_AN_def)
  with deleted_upf_on_default_path [OF pre this] show ?thesis
    by blast
qed

text \<open>
  A second access node on the same UPF makes the search dereference its missing UPF: the request for a
  default path panics.
\<close>

theorem second_access_node_panics:
  "GetDefaultUserPlanePathByDNNAndUPF demo_env (\<lambda>l. l) demo_selection 2
     (empty_upi\<lparr>upi_store :=
        [demo_node ''gNB1'' ''AN'' [1] None,
         demo_node ''I-UPF'' ''UPF'' [0, 3, 2] (Some (demo_upf ''u1'' demo_slice)),
         demo_node ''PSA'' ''UPF'' [1] (Some (demo_upf ''u2'' demo_slice)),
         demo_node ''gNB2'' ''AN'' [1] None],
        AccessNetwork := [(''gNB1'', 0), (''gNB2'', 3)]\<rparr>) = Panic"
  by code_simp

end
