(* ===== verification/Smf_Topology.thy ===== *)
theory Smf_Topology
  imports Smf_Paths "HOL-Library.Multiset"
begin

text \<open>
  The invariant of the topology under the operations that change it: construction from the configuration,
  nodes and links added at run time, deletion of a node. Links are symmetric, join registered nodes only and
  are not doubled; the tables of UPFs and access nodes are parts of the table of nodes.
\<close>

definition links_of :: "UserPlaneInformation \<Rightarrow> nat \<Rightarrow> nat list" where
  "links_of upi a = Links (upi_store upi ! a)"

definition nodes_of :: "UserPlaneInformation \<Rightarrow> nat set" where
  "nodes_of upi = snd ` set (UPNodes upi)"

definition node_type :: "UserPlaneInformation \<Rightarrow> nat \<Rightarrow> string" where
  "node_type upi a = un_Type (upi_store upi ! a)"

definition topology_ok :: "UserPlaneInformation \<Rightarrow> bool" where
  "topology_ok upi \<longleftrightarrow>
     distinct (map fst (UPNodes upi)) \<and> distinct (map snd (UPNodes upi)) \<and>
     nodes_of upi \<subseteq> {..< length (upi_store upi)} \<and>
     (\<forall>a\<in>nodes_of upi. \<forall>b\<in>set (links_of upi a). b \<in> nodes_of upi \<and> a \<in> set (links_of upi b)) \<and>
     (\<forall>a\<in>nodes_of upi. \<forall>b. b \<noteq> a \<longrightarrow> count (mset (links_of upi a)) b \<le> 1)"

lemma topology_okD:
  assumes "topology_ok upi"
  shows "distinct (map fst (UPNodes upi))" "distinct (map snd (UPNodes upi))"
    and "a \<in> nodes_of upi \<Longrightarrow> a < length (upi_store upi)"
    and "a \<in> nodes_of upi \<Longrightarrow> b \<in> set (links_of upi a) \<Longrightarrow> b \<in> nodes_of upi"
    and "a \<in> nodes_of upi \<Longrightarrow> b \<in> set (links_of upi a) \<Longrightarrow> a \<in> set (links_of upi b)"
    and "a \<in> nodes_of upi \<Longrightarrow> b \<noteq> a \<Longrightarrow> count (mset (links_of upi a)) b \<le> 1"
  using assms unfolding topology_ok_def by blast+

lemma topology_okI:
  assumes "distinct (map fst (UPNodes upi))" "distinct (map snd (UPNodes upi))"
    and "\<And>a. a \<in> nodes_of upi \<Longrightarrow> a < length (upi_store upi)"
    and "\<And>a b. a \<in> nodes_of upi \<Longrightarrow> b \<in> set (links_of upi a) \<Longrightarrow> b \<in> nodes_of upi \<and> a \<in> set (links_of upi b)"
    and "\<And>a b. a \<in> nodes_of upi \<Longrightarrow> b \<noteq> a \<Longrightarrow> count (mset (links_of upi a)) b \<le> 1"
  shows "topology_ok upi"
  using assms unfolding topology_ok_def by blast

definition tables_ok :: "UserPlaneInformation \<Rightarrow> bool" where
  "tables_ok upi \<longleftrightarrow>
     distinct (map fst (UPFs upi)) \<and> distinct (map fst (AccessNetwork upi)) \<and>
     set (UPFs upi) = {x \<in> set (UPNodes upi). node_type upi (snd x) = UPNODE_UPF} \<and>
     set (AccessNetwork upi) = {x \<in> set (UPNodes upi). node_type upi (snd x) = UPNODE_AN} \<and>
     (\<forall>a\<in>nodes_of upi. node_type upi a = UPNODE_UPF \<longleftrightarrow> un_UPF (upi_store upi ! a) \<noteq> None)"

section \<open>Links\<close>

lemma set_links_fields [simp]:
  "UPNodes (set_links a f u) = UPNodes u" "UPFs (set_links a f u) = UPFs u" "AccessNetwork (set_links a f u) = AccessNetwork u"
  "nodes_of (set_links a f u) = nodes_of u" "length (upi_store (set_links a f u)) = length (upi_store u)"
  by (simp_all add: set_links_def nodes_of_def)

lemma links_of_set_links:
  "a < length (upi_store u) \<Longrightarrow> links_of (set_links a f u) b = (if b = a then f (links_of u a) else links_of u b)"
  by (auto simp: links_of_def set_links_def nth_list_update)

lemma node_set_links:
  "un_UPF (upi_store (set_links a f u) ! b) = un_UPF (upi_store u ! b)" "node_type (set_links a f u) b = node_type u b"
  unfolding set_links_def node_type_def
  by (cases "a < length (upi_store u)"; simp add: nth_list_update list_update_beyond)+

lemma nodeInLink_None [simp]: "nodeInLink a l = None \<longleftrightarrow> a \<notin> set l"
  by (simp add: nodeInLink_def)

lemma mset_removeNodeFromLink:
  assumes "i < length l"
  shows "mset (removeNodeFromLink l i) = mset l - {#l ! i#}"
proof -
  have ne: "l[i := last l] \<noteq> []"
    using assms by auto
  have "last (l[i := last l]) = last l"
    using assms last_list_update [of l i "last l"] by (cases "l = []") simp_all
  then have "mset (butlast (l[i := last l])) = mset (l[i := last l]) - {#last l#}"
    by (metis add_diff_cancel_right' append_butlast_last_id mset.simps mset_append ne)
  also have "mset (l[i := last l]) = add_mset (last l) (mset l - {#l ! i#})"
    by (rule mset_update) (rule assms)
  finally show ?thesis
    by (simp add: removeNodeFromLink_def)
qed

lemma first_index: "a \<in> set l \<Longrightarrow> length (takeWhile (\<lambda>n. n \<noteq> a) l) < length l \<and> l ! length (takeWhile (\<lambda>n. n \<noteq> a) l) = a"
  by (induction l) auto

lemma mset_without: "mset (without a l) = mset l - {#a#}"
proof (cases "a \<in> set l")
  case True
  with first_index [OF True] mset_removeNodeFromLink show ?thesis
    by (simp add: nodeInLink_def without_def)
next
  case False
  then show ?thesis
    by (simp add: nodeInLink_def without_def)
qed

lemma set_without:
  assumes "count (mset l) a \<le> 1"
  shows "set (without a l) = set l - {a}"
proof (rule set_eqI)
  fix x
  have "x \<in> set (without a l) \<longleftrightarrow> x \<in># mset (without a l)"
    by simp
  also have "\<dots> \<longleftrightarrow> count {#a#} x < count (mset l) x"
    unfolding mset_without by (rule in_diff_count)
  also have "\<dots> \<longleftrightarrow> x \<in> set l - {a}"
    using assms count_greater_zero_iff [of "mset l" x] by (cases "x = a") auto
  finally show "x \<in> set (without a l) \<longleftrightarrow> x \<in> set l - {a}" .
qed

lemma links_of_unlink:
  "set ns \<subseteq> {..< length (upi_store u)} \<Longrightarrow> distinct ns \<Longrightarrow>
   links_of (unlink a ns u) b = (if b \<in> set ns then without a (links_of u b) else links_of u b) \<and>
   length (upi_store (unlink a ns u)) = length (upi_store u) \<and>
   un_UPF (upi_store (unlink a ns u) ! b) = un_UPF (upi_store u ! b) \<and> node_type (unlink a ns u) b = node_type u b"
  unfolding unlink_def
  by (induction ns arbitrary: u) (auto simp: links_of_set_links node_set_links)

lemma node_unlink:
  "un_UPF (upi_store (unlink a ns u) ! b) = un_UPF (upi_store u ! b) \<and> node_type (unlink a ns u) b = node_type u b"
  unfolding unlink_def by (induction ns arbitrary: u) (simp_all add: node_set_links)

lemma unlink_AccessNetwork [simp]: "AccessNetwork (unlink a l u) = AccessNetwork u"
  unfolding unlink_def by (induction l arbitrary: u) auto

lemma registered_node: "map_of (UPNodes upi) name = Some a \<Longrightarrow> a \<in> nodes_of upi"
  unfolding nodes_of_def by (metis image_eqI map_of_SomeD snd_conv)

lemma topology_add_link:
  assumes "topology_ok upi"
  shows "topology_ok (add_link l upi)"
proof (cases "\<exists>a b. map_of (UPNodes upi) (fst l) = Some a \<and> map_of (UPNodes upi) (snd l) = Some b \<and>
    b \<notin> set (links_of upi a) \<and> a \<notin> set (links_of upi b)")
  case True
  then obtain a b where ab: "map_of (UPNodes upi) (fst l) = Some a" "map_of (UPNodes upi) (snd l) = Some b"
    "b \<notin> set (links_of upi a)" "a \<notin> set (links_of upi b)" by blast
  let ?u = "set_links b (\<lambda>l. l @ [a]) (set_links a (\<lambda>l. l @ [b]) upi)"
  have N: "a \<in> nodes_of upi" "b \<in> nodes_of upi"
    using ab(1,2) by (auto intro: registered_node)
  with assms have lt: "a < length (upi_store upi)" "b < length (upi_store upi)"
    using topology_okD(3) by blast+
  then have links: "mset (links_of ?u c) = mset (links_of upi c) + (if c = a then {#b#} else {#}) + (if c = b then {#a#} else {#})" for c
    by (simp add: links_of_set_links)
  have set_links: "set (links_of ?u c) = set (links_of upi c) \<union> (if c = a then {b} else {}) \<union> (if c = b then {a} else {})" for c
    using lt by (simp add: links_of_set_links)
  have "topology_ok ?u"
  proof (rule topology_okI)
    fix c d
    assume c: "c \<in> nodes_of ?u"
    then have c': "c \<in> nodes_of upi"
      by simp
    show "c < length (upi_store ?u)"
      using topology_okD(3) [OF assms c'] by simp
    show "d \<in> nodes_of ?u \<and> c \<in> set (links_of ?u d)" if "d \<in> set (links_of ?u c)"
    proof (cases "d \<in> set (links_of upi c)")
      case True
      with topology_okD(4,5) [OF assms c' True] show ?thesis
        by (simp add: set_links)
    next
      case False
      with that N show ?thesis
        by (auto simp: set_links split: if_splits)
    qed
    show "count (mset (links_of ?u c)) d \<le> 1" if "d \<noteq> c"
    proof -
      have "count (mset (links_of upi c)) d \<le> 1" "d \<notin> set (links_of upi c) \<Longrightarrow> count (mset (links_of upi c)) d = 0"
        using topology_okD(6) [OF assms c' that] by (simp_all add: count_mset_0_iff)
      with ab(3,4) that show ?thesis
        by (auto simp: links)
    qed
  qed (simp_all add: topology_okD(1,2) [OF assms])
  moreover have "add_link l upi = ?u"
    using ab by (simp add: add_link_def links_of_def)
  ultimately show ?thesis
    by simp
next
  case False
  then have "add_link l upi = upi"
    by (auto simp: add_link_def links_of_def split: option.splits)
  with assms show ?thesis by simp
qed

section \<open>New nodes\<close>

text \<open>What a turn of the loop over the nodes does to the tables.\<close>

lemma add_node_effect:
  assumes "add_node env edges initial (name, node) upi = Ok upi'"
  shows "\<exists>n. upi_store upi' = upi_store upi @ [n] \<and> Links n = [] \<and> un_Type n = cn_Type node \<and>
    (un_UPF n \<noteq> None \<longleftrightarrow> cn_Type node = UPNODE_UPF) \<and>
    UPNodes upi' = AList.update name (length (upi_store upi)) (UPNodes upi) \<and>
    UPFs upi' = (if cn_Type node = UPNODE_UPF then AList.update name (length (upi_store upi)) (UPFs upi) else UPFs upi) \<and>
    AccessNetwork upi' = (if cn_Type node = UPNODE_AN then AList.update name (length (upi_store upi)) (AccessNetwork upi)
                          else AccessNetwork upi)"
  using assms
  by (auto simp: add_node_def Let_def go_simps UPNODE_UPF_def UPNODE_AN_def split: if_splits)

lemma update_new: "map_of l k = None \<Longrightarrow> AList.update k v l = l @ [(k, v)]"
  by (induction l) (auto split: if_splits)

lemma not_in_table: "k \<notin> fst ` set l \<Longrightarrow> map_of l k = None"
  by (simp add: map_of_eq_None_iff)

lemma links_of_append:
  "upi_store upi' = upi_store upi @ [n] \<Longrightarrow> a < length (upi_store upi) \<Longrightarrow> links_of upi' a = links_of upi a"
  "upi_store upi' = upi_store upi @ [n] \<Longrightarrow> links_of upi' (length (upi_store upi)) = Links n"
  by (simp_all add: links_of_def nth_append)

lemma topology_add_node:
  assumes ok: "topology_ok upi" and new: "map_of (UPNodes upi) (fst entry) = None"
    and add: "add_node env edges initial entry upi = Ok upi'"
  shows "topology_ok upi'"
proof -
  obtain name node where entry: "entry = (name, node)" by (cases entry)
  from add_node_effect [OF add [unfolded entry]] obtain n where n: "upi_store upi' = upi_store upi @ [n]" "Links n = []"
    and nodes: "UPNodes upi' = AList.update name (length (upi_store upi)) (UPNodes upi)" by blast
  let ?a = "length (upi_store upi)"
  have nodes': "UPNodes upi' = UPNodes upi @ [(name, ?a)]"
    using new entry by (simp add: nodes update_new)
  then have N: "nodes_of upi' = insert ?a (nodes_of upi)"
    by (simp add: nodes_of_def)
  have old: "?a \<notin> nodes_of upi" "b \<in> nodes_of upi \<Longrightarrow> links_of upi' b = links_of upi b" for b
    using topology_okD(3) [OF ok] links_of_append(1) [OF n(1)] by auto
  have new_links: "links_of upi' ?a = []"
    using links_of_append(2) [OF n(1)] n(2) by simp
  show ?thesis
  proof (rule topology_okI)
    show "distinct (map fst (UPNodes upi'))"
      using topology_okD(1) [OF ok] new entry by (auto simp: nodes' map_of_eq_None_iff)
    show "distinct (map snd (UPNodes upi'))"
      using topology_okD(2) [OF ok] old(1) by (simp add: nodes' nodes_of_def)
    fix c d
    assume c: "c \<in> nodes_of upi'"
    show "c < length (upi_store upi')"
      using c topology_okD(3) [OF ok, of c] by (auto simp: N n(1))
    show "d \<in> nodes_of upi' \<and> c \<in> set (links_of upi' d)" if "d \<in> set (links_of upi' c)"
    proof -
      have "c \<in> nodes_of upi"
        using c that new_links by (auto simp: N)
      with that topology_okD(4,5) [OF ok this, of d] show ?thesis
        by (simp add: old(2) N)
    qed
    show "count (mset (links_of upi' c)) d \<le> 1" if "d \<noteq> c"
      using c topology_okD(6) [OF ok _ that] by (auto simp: N new_links old(2))
  qed
qed

lemma tables_add_node:
  assumes ok: "topology_ok upi" and tab: "tables_ok upi" and new: "map_of (UPNodes upi) (fst entry) = None"
    and add: "add_node env edges initial entry upi = Ok upi'"
  shows "tables_ok upi'"
proof -
  obtain name node where entry: "entry = (name, node)" by (cases entry)
  let ?a = "length (upi_store upi)"
  from add_node_effect [OF add [unfolded entry]] obtain n where n: "upi_store upi' = upi_store upi @ [n]"
      "un_Type n = cn_Type node" "un_UPF n \<noteq> None \<longleftrightarrow> cn_Type node = UPNODE_UPF"
    and u: "UPNodes upi' = AList.update name ?a (UPNodes upi)"
      "UPFs upi' = (if cn_Type node = UPNODE_UPF then AList.update name ?a (UPFs upi) else UPFs upi)"
      "AccessNetwork upi' = (if cn_Type node = UPNODE_AN then AList.update name ?a (AccessNetwork upi) else AccessNetwork upi)"
    by blast
  have fresh: "name \<notin> fst ` set (UPNodes upi)"
    using new entry by (simp add: map_of_eq_None_iff)
  then have fresh': "name \<notin> fst ` set (UPFs upi)" "name \<notin> fst ` set (AccessNetwork upi)"
    using tab by (auto simp: tables_ok_def)
  note upd = update_new [OF not_in_table [OF fresh]] update_new [OF not_in_table [OF fresh'(1)]]
    update_new [OF not_in_table [OF fresh'(2)]]
  have type: "b \<in> nodes_of upi \<Longrightarrow> node_type upi' b = node_type upi b \<and> upi_store upi' ! b = upi_store upi ! b"
      "node_type upi' ?a = cn_Type node" for b
    using topology_okD(3) [OF ok, of b] n(1,2) by (simp_all add: node_type_def nth_append)
  have old: "{x \<in> set (UPNodes upi). node_type upi' (snd x) = t} = {x \<in> set (UPNodes upi). node_type upi (snd x) = t}" for t
    using type(1) by (intro Collect_cong conj_cong refl) (simp add: nodes_of_def)
  have N: "nodes_of upi' = insert ?a (nodes_of upi)" "upi_store upi' ! ?a = n"
    by (simp_all add: nodes_of_def u(1) upd n(1))
  have "set (UPFs upi') = {x \<in> set (UPNodes upi'). node_type upi' (snd x) = UPNODE_UPF}"
    using tab old [of UPNODE_UPF] type(2) unfolding tables_ok_def u upd by auto
  moreover have "set (AccessNetwork upi') = {x \<in> set (UPNodes upi'). node_type upi' (snd x) = UPNODE_AN}"
    using tab old [of UPNODE_AN] type(2) unfolding tables_ok_def u upd by auto
  moreover have "\<forall>b\<in>nodes_of upi'. node_type upi' b = UPNODE_UPF \<longleftrightarrow> un_UPF (upi_store upi' ! b) \<noteq> None"
    using tab type n(3) by (auto simp: N tables_ok_def)
  moreover have "distinct (map fst (UPFs upi'))" "distinct (map fst (AccessNetwork upi'))"
    using tab fresh' by (auto simp: tables_ok_def u upd)
  ultimately show ?thesis
    by (simp add: tables_ok_def)
qed

lemma topology_add_links: "topology_ok upi \<Longrightarrow> topology_ok (fold add_link links upi)"
  by (induction links arbitrary: upi) (auto intro: topology_add_link)

lemma tables_links:
  assumes "tables_ok upi" and "UPNodes upi' = UPNodes upi" "UPFs upi' = UPFs upi" "AccessNetwork upi' = AccessNetwork upi"
    and "\<And>b. node_type upi' b = node_type upi b" "\<And>b. un_UPF (upi_store upi' ! b) = un_UPF (upi_store upi ! b)"
  shows "tables_ok upi'"
  using assms by (simp add: tables_ok_def nodes_of_def)

lemma tables_add_link: "tables_ok upi \<Longrightarrow> tables_ok (add_link l upi)"
  by (erule tables_links) (auto simp: add_link_def node_set_links split: option.splits)

lemma tables_add_links: "tables_ok upi \<Longrightarrow> tables_ok (fold add_link links upi)"
  by (induction links arbitrary: upi) (auto intro: tables_add_link)

section \<open>Deletion\<close>

text \<open>What a deletion does, apart from the caches.\<close>

lemma UpNodeDelete_effect:
  assumes "UpNodeDelete env rng name upi = Ok upi'" and "map_of (UPNodes upi) name = Some a"
  shows "\<exists>u. upi' = unlink a (map snd (AList.delete name (UPNodes upi))) u \<and> upi_store u = upi_store upi \<and>
    UPNodes u = AList.delete name (UPNodes upi) \<and>
    UPFs u = (if node_type upi a = UPNODE_UPF then AList.delete name (UPFs upi) else UPFs upi) \<and>
    AccessNetwork u = (if node_type upi a = UPNODE_AN then AList.delete name (AccessNetwork upi) else AccessNetwork upi) \<and>
    DefaultUserPlanePathToUPF u = (if node_type upi a = UPNODE_UPF
      then map (\<lambda>(sel, dests). (sel, filter (\<lambda>(ip, path). a \<notin> set path) dests)) (DefaultUserPlanePathToUPF upi)
      else DefaultUserPlanePathToUPF upi)"
proof -
  have R: "RemoveUPFNodeByNodeID env rng i upi = Ok v \<Longrightarrow> upi_store v = upi_store upi \<and> UPNodes v = UPNodes upi \<and>
      UPFs v = UPFs upi \<and> AccessNetwork v = AccessNetwork upi \<and>
      DefaultUserPlanePathToUPF v = DefaultUserPlanePathToUPF upi" for i v
    by (auto simp: RemoveUPFNodeByNodeID_def go_simps split: option.splits)
  obtain n where n: "node_at upi a = Ok n" "node_type upi a = un_Type n"
    using assms by (auto simp: UpNodeDelete_def go_simps node_at_Ok node_type_def)
  have ne: "UPNODE_UPF \<noteq> UPNODE_AN"
    by (simp add: UPNODE_UPF_def UPNODE_AN_def)
  show ?thesis
  proof (cases "un_Type n = UPNODE_UPF")
    case True
    with assms n obtain upf v where v: "un_UPF n = Some upf" "RemoveUPFNodeByNodeID env rng (upf_NodeID upf) upi = Ok v"
      unfolding UpNodeDelete_def by (auto simp: obind_eq_Ok deref_eq_Ok)
    from R [OF v(2)] assms n v True ne show ?thesis
      by (force simp: UpNodeDelete_def Let_def)
  next
    case False
    with assms n show ?thesis
      by (force simp: UpNodeDelete_def Let_def)
  qed
qed

lemma delete_set: "set (AList.delete k l) = {x \<in> set l. fst x \<noteq> k}"
  by (auto simp: AList.delete_eq)

lemma distinct_snd:
  assumes "distinct (map snd l)" and "map_of l k = Some a" and "distinct (map fst l)"
  shows "snd ` {x \<in> set l. fst x \<noteq> k} = snd ` set l - {a}"
proof -
  have "(k, a) \<in> set l"
    by (rule map_of_SomeD) (rule assms(2))
  moreover have "x = (k, a)" if "x \<in> set l" "snd x = a" for x
    using assms(1) that calculation by (metis distinct_map inj_onD snd_conv)
  moreover have "x = (k, a)" if "x \<in> set l" "fst x = k" for x
    using assms(3) that calculation(1) by (metis distinct_map inj_onD fst_conv)
  ultimately have "{x \<in> set l. fst x \<noteq> k} = {x \<in> set l. snd x \<noteq> a}"
    by (metis (no_types, lifting) fst_conv snd_conv)
  then show ?thesis
    by auto
qed

lemma deleted_links:
  assumes ok: "topology_ok upi" and del: "UpNodeDelete env rng name upi = Ok upi'" and Some: "map_of (UPNodes upi) name = Some a"
  shows "nodes_of upi' = nodes_of upi - {a} \<and> UPNodes upi' = AList.delete name (UPNodes upi) \<and>
    length (upi_store upi') = length (upi_store upi) \<and>
    (\<forall>c\<in>nodes_of upi - {a}. mset (links_of upi' c) = mset (links_of upi c) - {#a#} \<and>
       set (links_of upi' c) = set (links_of upi c) - {a})"
proof -
  let ?ns = "map snd (AList.delete name (UPNodes upi))"
  from UpNodeDelete_effect [OF del Some] obtain u where upi': "upi' = unlink a ?ns u" and u: "upi_store u = upi_store upi"
      "UPNodes u = AList.delete name (UPNodes upi)" by blast
  have N: "nodes_of upi' = nodes_of upi - {a}" "set ?ns = nodes_of upi - {a}"
    using distinct_snd [OF topology_okD(2) [OF ok] Some topology_okD(1) [OF ok]]
    by (simp_all add: nodes_of_def upi' u delete_set)
  have dist: "distinct ?ns" "set ?ns \<subseteq> {..< length (upi_store u)}"
    using topology_okD(2) [OF ok] topology_okD(3) [OF ok] N(2)
    by (simp add: AList.delete_eq distinct_map_filter, auto simp: u(1))
  have "links_of upi' c = without a (links_of upi c)" if "c \<in> nodes_of upi - {a}" for c
    using links_of_unlink [OF dist(2,1), of a c] N(2) that by (simp add: upi' links_of_def u(1))
  moreover have "set (without a (links_of upi c)) = set (links_of upi c) - {a}" if "c \<in> nodes_of upi - {a}" for c
    using set_without topology_okD(6) [OF ok, of c a] that by blast
  moreover have "length (upi_store upi') = length (upi_store upi)"
    using links_of_unlink [OF dist(2,1), of a] by (simp add: upi' u(1))
  ultimately show ?thesis
    using N(1) by (simp add: mset_without upi' u(2))
qed

lemma topology_delete:
  assumes ok: "topology_ok upi" and del: "UpNodeDelete env rng name upi = Ok upi'"
  shows "topology_ok upi'"
proof (cases "map_of (UPNodes upi) name")
  case None
  with ok del show ?thesis by (simp add: UpNodeDelete_def)
next
  case (Some a)
  note del' = deleted_links [OF ok del Some]
  show ?thesis
  proof (rule topology_okI)
    show "distinct (map fst (UPNodes upi'))" "distinct (map snd (UPNodes upi'))"
      using del' topology_okD(1,2) [OF ok] by (simp_all add: AList.delete_eq distinct_map_filter)
    fix c d
    assume "c \<in> nodes_of upi'"
    then have c: "c \<in> nodes_of upi - {a}" "c \<in> nodes_of upi"
      using del' by auto
    show "c < length (upi_store upi')"
      using topology_okD(3) [OF ok c(2)] del' by simp
    show "count (mset (links_of upi' c)) d \<le> 1" if "d \<noteq> c"
      using topology_okD(6) [OF ok c(2) that] del' c(1) by simp
    show "d \<in> nodes_of upi' \<and> c \<in> set (links_of upi' d)" if "d \<in> set (links_of upi' c)"
    proof -
      have d: "d \<in> set (links_of upi c)" "d \<noteq> a"
        using that del' c(1) by auto
      with topology_okD(4,5) [OF ok c(2) d(1)] del' c(1) show ?thesis
        by auto
    qed
  qed
qed

lemma deleted_cache:
  assumes "UpNodeDelete env rng name upi = Ok upi'" and "map_of (UPNodes upi) name = Some a"
    and "(key, dests) \<in> set (DefaultUserPlanePathToUPF upi')" and "(ip, p) \<in> set dests"
  shows "(\<exists>dests'. (key, dests') \<in> set (DefaultUserPlanePathToUPF upi) \<and> (ip, p) \<in> set dests') \<and>
    (node_type upi a = UPNODE_UPF \<longrightarrow> a \<notin> set p)"
  using UpNodeDelete_effect [OF assms(1,2)] assms(3,4) by (auto split: if_splits) blast+

lemma tables_delete:
  assumes ok: "topology_ok upi" and tab: "tables_ok upi" and del: "UpNodeDelete env rng name upi = Ok upi'"
  shows "tables_ok upi'"
proof (cases "map_of (UPNodes upi) name")
  case None
  with tab del show ?thesis by (simp add: UpNodeDelete_def)
next
  case (Some a)
  from UpNodeDelete_effect [OF del Some] obtain u where
    upi': "upi' = unlink a (map snd (AList.delete name (UPNodes upi))) u" and u: "upi_store u = upi_store upi"
      "UPNodes u = AList.delete name (UPNodes upi)"
      "UPFs u = (if node_type upi a = UPNODE_UPF then AList.delete name (UPFs upi) else UPFs upi)"
      "AccessNetwork u = (if node_type upi a = UPNODE_AN then AList.delete name (AccessNetwork upi) else AccessNetwork upi)"
    by blast
  have named: "x = (name, a)" if "x \<in> set (UPNodes upi)" "fst x = name" for x
  proof -
    have "map_of (UPNodes upi) (fst x) = Some (snd x)"
      using that(1) topology_okD(1) [OF ok] by (metis map_of_is_SomeI prod.collapse)
    with Some that(2) show ?thesis
      by (simp add: prod_eq_iff)
  qed
  have type: "node_type u = node_type upi"
    by (simp add: fun_eq_iff node_type_def u(1))
  have kept: "{x \<in> set (UPNodes u). node_type u (snd x) = t} =
      (if node_type upi a = t then {x \<in> set (UPNodes upi). node_type upi (snd x) = t \<and> fst x \<noteq> name}
       else {x \<in> set (UPNodes upi). node_type upi (snd x) = t})" for t
  proof -
    have "fst x \<noteq> name" if "x \<in> set (UPNodes upi)" "node_type upi (snd x) = t" "node_type upi a \<noteq> t" for x
      using named [OF that(1)] that(2,3) by (metis snd_conv)
    then show ?thesis
      by (auto simp: type u(2) delete_set)
  qed
  have "set (UPFs u) = {x \<in> set (UPNodes u). node_type u (snd x) = UPNODE_UPF}"
    using tab unfolding kept by (simp add: tables_ok_def u(3) delete_set)
  moreover have "set (AccessNetwork u) = {x \<in> set (UPNodes u). node_type u (snd x) = UPNODE_AN}"
    using tab unfolding kept by (simp add: tables_ok_def u(4) delete_set)
  moreover have "distinct (map fst (UPFs u))" "distinct (map fst (AccessNetwork u))"
    using tab by (auto simp: tables_ok_def u AList.delete_eq distinct_map_filter)
  moreover have "\<forall>b\<in>nodes_of u. node_type u b = UPNODE_UPF \<longleftrightarrow> un_UPF (upi_store u ! b) \<noteq> None"
    using tab by (auto simp: type tables_ok_def nodes_of_def u delete_set)
  ultimately have "tables_ok u"
    by (simp add: tables_ok_def)
  then show ?thesis
    by (rule tables_links) (simp_all add: upi' node_unlink)
qed

section \<open>Cached paths\<close>

definition chain :: "UserPlaneInformation \<Rightarrow> nat list \<Rightarrow> bool" where
  "chain upi p \<longleftrightarrow> set p \<subseteq> {a \<in> nodes_of upi. node_type upi a = UPNODE_UPF} \<and> successively (\<lambda>a b. b \<in> set (links_of upi a)) p"

definition cache_ok :: "UserPlaneInformation \<Rightarrow> bool" where
  "cache_ok upi \<longleftrightarrow> (\<forall>(key, dests)\<in>set (DefaultUserPlanePathToUPF upi). \<forall>(ip, p)\<in>set dests. chain upi p)"

text \<open>A chain stays one as long as its nodes stay registered and keep their links to each other.\<close>

lemma chain_mono:
  assumes "chain upi p" and "\<And>a. a \<in> set p \<Longrightarrow> a \<in> nodes_of upi \<Longrightarrow> a \<in> nodes_of upi' \<and> node_type upi' a = node_type upi a"
    and "\<And>a b. a \<in> set p \<Longrightarrow> b \<in> set p \<Longrightarrow> b \<in> set (links_of upi a) \<Longrightarrow> b \<in> set (links_of upi' a)"
  shows "chain upi' p"
  using assms unfolding chain_def by (auto intro: successively_mono)

lemma cache_mono:
  assumes "cache_ok upi" and "DefaultUserPlanePathToUPF upi' = DefaultUserPlanePathToUPF upi"
    and "\<And>p. chain upi p \<Longrightarrow> chain upi' p"
  shows "cache_ok upi'"
  using assms unfolding cache_ok_def by fastforce

definition upi_inv :: "UserPlaneInformation \<Rightarrow> bool" where
  "upi_inv upi \<longleftrightarrow> topology_ok upi \<and> tables_ok upi \<and> cache_ok upi"

lemma set_links_grow: "set (links_of u b) \<subseteq> set (links_of (set_links a (\<lambda>l. l @ [c]) u) b)"
  by (cases "a < length (upi_store u)") (auto simp: links_of_set_links, simp add: set_links_def links_of_def list_update_beyond)

lemma inv_add_link: "upi_inv upi \<Longrightarrow> upi_inv (add_link l upi)"
proof -
  assume inv: "upi_inv upi"
  have links: "set (links_of upi a) \<subseteq> set (links_of (add_link l upi) a)" for a
    using order_trans [OF set_links_grow set_links_grow] by (auto simp: add_link_def split: option.splits)
  have "chain (add_link l upi) p" if "chain upi p" for p
  proof (rule chain_mono [OF that])
    show "a \<in> nodes_of (add_link l upi) \<and> node_type (add_link l upi) a = node_type upi a" if "a \<in> nodes_of upi" for a
      using that by (auto simp: add_link_def node_set_links split: option.splits)
  qed (use links in blast)
  moreover have "DefaultUserPlanePathToUPF (add_link l upi) = DefaultUserPlanePathToUPF upi"
    by (auto simp: add_link_def set_links_def split: option.splits)
  ultimately show ?thesis
    using inv cache_mono topology_add_link tables_add_link unfolding upi_inv_def by blast
qed

lemma inv_add_links: "upi_inv upi \<Longrightarrow> upi_inv (fold add_link links upi)"
  by (induction links arbitrary: upi) (auto intro: inv_add_link)

lemma inv_add_node:
  assumes inv: "upi_inv upi" and new: "map_of (UPNodes upi) (fst entry) = None"
    and add: "add_node env edges initial entry upi = Ok upi'"
  shows "upi_inv upi'"
proof -
  obtain name node where entry: "entry = (name, node)" by (cases entry)
  from add_node_effect [OF add [unfolded entry]] obtain n where n: "upi_store upi' = upi_store upi @ [n]"
    and nodes: "UPNodes upi' = AList.update name (length (upi_store upi)) (UPNodes upi)" by blast
  have ok: "topology_ok upi"
    using inv by (simp add: upi_inv_def)
  have N: "nodes_of upi \<subseteq> nodes_of upi'"
    using new entry by (auto simp: nodes_of_def nodes update_new)
  have "chain upi' p" if "chain upi p" for p
  proof (rule chain_mono [OF that])
    show "a \<in> nodes_of upi' \<and> node_type upi' a = node_type upi a" if "a \<in> nodes_of upi" for a
      using that N topology_okD(3) [OF ok that] by (auto simp: node_type_def n nth_append)
    show "b \<in> set (links_of upi' a)" if "a \<in> set p" "b \<in> set (links_of upi a)" for a b
      using that \<open>chain upi p\<close> links_of_append(1) [OF n, of a] topology_okD(3) [OF ok, of a] by (auto simp: chain_def)
  qed
  moreover have "DefaultUserPlanePathToUPF upi' = DefaultUserPlanePathToUPF upi"
    using add by (auto simp: add_node_def entry Let_def go_simps split: if_splits)
  ultimately show ?thesis
    using inv cache_mono topology_add_node [OF ok new add] tables_add_node [OF ok _ new add] unfolding upi_inv_def by blast
qed

lemma inv_delete:
  assumes inv: "upi_inv upi" and del: "UpNodeDelete env rng name upi = Ok upi'"
  shows "upi_inv upi'"
proof -
  have ok: "topology_ok upi" "tables_ok upi" "cache_ok upi"
    using inv by (simp_all add: upi_inv_def)
  have "cache_ok upi'"
  proof (cases "map_of (UPNodes upi) name")
    case None
    with ok(3) del show ?thesis by (simp add: UpNodeDelete_def)
  next
    case (Some a)
    have del_links: "\<And>c d. c \<in> nodes_of upi - {a} \<Longrightarrow> d \<noteq> a \<Longrightarrow> d \<in> set (links_of upi c) \<Longrightarrow> d \<in> set (links_of upi' c)"
      and N: "nodes_of upi' = nodes_of upi - {a}"
      using deleted_links [OF ok(1) del Some] by auto
    have cached: "chain upi p \<and> a \<notin> set p"
      if "(key, dests) \<in> set (DefaultUserPlanePathToUPF upi')" "(ip, p) \<in> set dests" for key dests ip p
    proof -
      from deleted_cache [OF del Some that] ok(3) have c: "chain upi p" "node_type upi a = UPNODE_UPF \<longrightarrow> a \<notin> set p"
        unfolding cache_ok_def by auto
      then show ?thesis
        by (auto simp: chain_def)
    qed
    have type: "node_type upi' = node_type upi"
      using UpNodeDelete_effect [OF del Some] node_unlink by (auto simp: node_type_def fun_eq_iff)
    have "chain upi' p" if "chain upi p" "a \<notin> set p" for p
      using that(1)
    proof (rule chain_mono)
      show "c \<in> nodes_of upi' \<and> node_type upi' c = node_type upi c" if "c \<in> set p" "c \<in> nodes_of upi" for c
        using that \<open>a \<notin> set p\<close> by (auto simp: N type)
      show "d \<in> set (links_of upi' c)" if "c \<in> set p" "d \<in> set p" "d \<in> set (links_of upi c)" for c d
        using that \<open>chain upi p\<close> \<open>a \<notin> set p\<close> by (intro del_links) (auto simp: chain_def)
    qed
    with cached show ?thesis
      unfolding cache_ok_def by blast
  qed
  with topology_delete [OF ok(1) del] tables_delete [OF ok(1,2) del] show ?thesis
    by (simp add: upi_inv_def)
qed

section \<open>Paths that are looked up\<close>

lemma hop_linked: "hop upi selection a b \<Longrightarrow> b \<in> set (links_of upi a) \<and> un_UPF (upi_store upi ! b) \<noteq> None"
  by (auto simp: hop_def links_of_def supports_def upf_at_def node_at_Ok go_simps)

lemma hops_chain:
  assumes inv: "upi_inv upi" and "a \<in> nodes_of upi" and "successively (hop upi selection) (a # p)"
  shows "chain upi p \<and> (node_type upi a = UPNODE_UPF \<longrightarrow> chain upi (a # p))"
  using assms(2,3)
proof (induction p arbitrary: a)
  case Nil
  then show ?case by (simp add: chain_def)
next
  case (Cons b p)
  then have h: "b \<in> set (links_of upi a)" "un_UPF (upi_store upi ! b) \<noteq> None"
    using hop_linked by auto
  have ok: "topology_ok upi" "tables_ok upi"
    using inv by (simp_all add: upi_inv_def)
  have b: "b \<in> nodes_of upi"
    by (rule topology_okD(4) [OF ok(1) Cons.prems(1) h(1)])
  then have "node_type upi b = UPNODE_UPF"
    using ok(2) h(2) by (simp add: tables_ok_def)
  with Cons b have c: "chain upi (b # p)"
    by simp
  with Cons.prems(1) h(1) show ?case
    by (auto simp: chain_def)
qed

lemma selectUPPathSource_registered:
  assumes "upi_inv upi" and "\<forall>l. set (rng l) = set l" and "selectUPPathSource rng upi = Ok a"
  shows "a \<in> nodes_of upi \<and> node_type upi a = UPNODE_AN"
proof -
  have "\<exists>x\<in>set l. snd x = b" if "ofind f l = Ok (Some (n, b))" for f n b and l :: "(string \<times> nat) list"
    using that by (induction l) (force simp: obind_eq_Ok split: if_splits)+
  then have "\<exists>x\<in>set (AccessNetwork upi). snd x = a"
    using assms(2,3) by (fastforce simp: selectUPPathSource_def obind_eq_Ok split: option.splits)
  then obtain x where x: "x \<in> set (AccessNetwork upi)" "snd x = a" by blast
  then have "x \<in> set (UPNodes upi)" "node_type upi (snd x) = UPNODE_AN"
    using assms(1) by (auto simp: upi_inv_def tables_ok_def)
  with x(2) show ?thesis
    unfolding nodes_of_def by blast
qed

lemma inv_cache_update:
  assumes "upi_inv upi" and "chain upi p"
  shows "upi_inv (upi\<lparr>DefaultUserPlanePathToUPF := AList.update key (AList.update ip p
    (case map_of (DefaultUserPlanePathToUPF upi) key of None \<Rightarrow> [] | Some m \<Rightarrow> m)) (DefaultUserPlanePathToUPF upi)\<rparr>)"
    (is "upi_inv (upi\<lparr>DefaultUserPlanePathToUPF := ?c\<rparr>)")
proof -
  let ?u = "upi\<lparr>DefaultUserPlanePathToUPF := ?c\<rparr>"
  have same: "nodes_of ?u = nodes_of upi" "links_of ?u = links_of upi" "node_type ?u = node_type upi"
    by (simp_all add: nodes_of_def links_of_def node_type_def fun_eq_iff)
  then have chain: "chain ?u q = chain upi q" for q
    by (simp add: chain_def)
  have upd: "set (AList.update k v l) \<subseteq> insert (k, v) (set l)" for k and v :: 'v and l
    by (induction l) auto
  have "\<forall>(i, q)\<in>set m. chain upi q" if "map_of (DefaultUserPlanePathToUPF upi) key = Some m" for m
    using assms(1) map_of_SomeD [OF that] by (auto simp: upi_inv_def cache_ok_def)
  then have "\<forall>(i, q)\<in>set (AList.update ip p (case map_of (DefaultUserPlanePathToUPF upi) key of None \<Rightarrow> [] | Some m \<Rightarrow> m)). chain upi q"
    using assms(2) upd by (fastforce split: option.splits)
  then have "cache_ok ?u"
    using assms(1) upd unfolding cache_ok_def upi_inv_def chain by (fastforce split: option.splits)
  moreover have "topology_ok ?u = topology_ok upi" "tables_ok ?u = tables_ok upi"
    unfolding topology_ok_def tables_ok_def same by simp_all
  ultimately show ?thesis
    using assms(1) by (simp add: upi_inv_def)
qed

lemma inv_same_topology:
  assumes "upi_inv upi" and "upi_store u = upi_store upi" "UPNodes u = UPNodes upi" "UPFs u = UPFs upi"
    "AccessNetwork u = AccessNetwork upi" "DefaultUserPlanePathToUPF u = DefaultUserPlanePathToUPF upi"
  shows "upi_inv u"
proof -
  have same: "nodes_of u = nodes_of upi" "links_of u = links_of upi" "node_type u = node_type upi"
    using assms by (simp_all add: nodes_of_def links_of_def node_type_def fun_eq_iff)
  have "topology_ok u = topology_ok upi" "tables_ok u = tables_ok upi" "cache_ok u = cache_ok upi"
    unfolding topology_ok_def tables_ok_def cache_ok_def chain_def same assms(2-6) by simp_all
  with assms(1) show ?thesis
    by (simp add: upi_inv_def)
qed

lemma inv_get_path_to_upf:
  assumes "upi_inv upi" and "\<forall>l. set (rng l) = set l"
    and "GetDefaultUserPlanePathByDNNAndUPF env rng selection upf upi = Ok (path, upi')"
  shows "upi_inv upi' \<and> (\<forall>p. path = Some p \<longrightarrow> chain upi' p)"
proof -
  have cached: "chain u p" if "upi_inv u" "cached_path key ip u = Some p" for key ip p u
    using that by (fastforce simp: cached_path_def upi_inv_def cache_ok_def bind_eq_Some_conv dest!: map_of_SomeD)
  have gen: "upi_inv u" if g: "GenerateDefaultPathToUPF env rng selection upf upi = Ok (b, u)" for b u
  proof (cases "selectUPPathSource rng upi")
    case (Ok a)
    note a = selectUPPathSource_registered [OF assms(1,2) Ok]
    from g Ok obtain r where r: "getPathBetween upi selection a upf [] = Ok r"
      by (auto simp: GenerateDefaultPathToUPF_def obind_eq_Ok)
    show ?thesis
    proof (cases "fst r")
      case None
      with g Ok r assms(1) show ?thesis by (simp add: GenerateDefaultPathToUPF_def)
    next
      case (Some p)
      with path_exists_iff [OF r] have p: "leads_to upi selection a upf [] p" by blast
      have "a < length (upi_store upi)"
        using topology_okD(3) a assms(1) by (simp add: upi_inv_def)
      with leads_to_drop_an [OF p] a have d: "drop_an upi p = Ok (tl p)" "p = a # tl p"
        by (simp_all add: node_type_def)
      have "chain upi (tl p)"
        using hops_chain [OF assms(1), of a selection "tl p"] a p d(2) by (simp add: leads_to_def)
      from inv_cache_update [OF assms(1) this] g Ok r Some d(1) show ?thesis
        by (auto simp: GenerateDefaultPathToUPF_def obind_eq_Ok Let_def)
    qed
  qed (use g assms(1) in \<open>simp_all add: GenerateDefaultPathToUPF_def\<close>)
  have "upi_inv upi'"
    using assms(1,3) gen
    by (auto simp: GetDefaultUserPlanePathByDNNAndUPF_def obind_eq_Ok Let_def split: option.splits)
  with cached assms(3) show ?thesis
    by (auto simp: GetDefaultUserPlanePathByDNNAndUPF_def obind_eq_Ok Let_def split: option.splits if_splits)
qed

lemma GenerateDefaultPath_frame:
  assumes "GenerateDefaultPath env rng selection upi = Ok (b, u)"
  shows "\<exists>c. u = upi\<lparr>DefaultUserPlanePath := c\<rparr>"
proof -
  have same: "\<exists>c. upi = upi\<lparr>DefaultUserPlanePath := c\<rparr>"
    by (rule exI [of _ "DefaultUserPlanePath upi"]) simp
  obtain ds where ds: "selectMatchUPF rng selection upi = Ok ds" "sel_SNssai selection \<noteq> None"
    using assms by (auto simp: GenerateDefaultPath_def obind_eq_Ok deref_eq_Ok)
  show ?thesis
  proof (cases ds)
    case Nil
    with assms ds same show ?thesis by (auto simp: GenerateDefaultPath_def)
  next
    case (Cons d ds')
    with assms ds obtain r where "access_loop upi selection d (rng (AccessNetwork upi)) = Ok r"
      by (auto simp: GenerateDefaultPath_def obind_eq_Ok)
    with assms ds same Cons show ?thesis
      by (cases r) (auto simp: GenerateDefaultPath_def)
  qed
qed

lemma inv_get_path:
  assumes "upi_inv upi" and "GetDefaultUserPlanePathByDNN env rng selection upi = Ok (path, upi')"
  shows "upi_inv upi'"
proof (cases "map_of (DefaultUserPlanePath upi) (selection_String env selection)")
  case None
  with assms(2) obtain b where "GenerateDefaultPath env rng selection upi = Ok (b, upi')"
    by (auto simp: GetDefaultUserPlanePathByDNN_def obind_eq_Ok)
  from GenerateDefaultPath_frame [OF this] show ?thesis
    by (auto intro: inv_same_topology [OF assms(1)])
next
  case (Some p)
  with assms show ?thesis by (simp add: GetDefaultUserPlanePathByDNN_def)
qed

section \<open>Properties\<close>

text \<open>
  The states of the topology: built from the configuration, extended and reduced through the management
  interface, and read, with the caches filled, by the sessions. Names are keys of a map in the configuration.
\<close>

inductive upi_reachable :: "up_env \<Rightarrow> UserPlaneInformation \<Rightarrow> bool" for env where
  start: "distinct (map fst nodes) \<Longrightarrow> NewUserPlaneInformation env nodes links = Ok upi \<Longrightarrow> upi_reachable env upi"
| extend: "upi_reachable env upi \<Longrightarrow> UpNodesFromConfiguration env nodes upi = Ok upi' \<Longrightarrow>
    upi_reachable env (LinksFromConfiguration links upi')"
| delete: "upi_reachable env upi \<Longrightarrow> \<forall>l. set (rng l) = set l \<Longrightarrow> UpNodeDelete env rng name upi = Ok upi' \<Longrightarrow>
    upi_reachable env upi'"
| path_to_upf: "upi_reachable env upi \<Longrightarrow> \<forall>l. set (rng l) = set l \<Longrightarrow>
    GetDefaultUserPlanePathByDNNAndUPF env rng selection upf upi = Ok (path, upi') \<Longrightarrow> upi_reachable env upi'"
| path_by_dnn: "upi_reachable env upi \<Longrightarrow> \<forall>l. set (rng l) = set l \<Longrightarrow>
    GetDefaultUserPlanePathByDNN env rng selection upi = Ok (path, upi') \<Longrightarrow> upi_reachable env upi'"

lemma add_node_names:
  "add_node env edges initial entry upi = Ok upi' \<Longrightarrow> dom (map_of (UPNodes upi')) = insert (fst entry) (dom (map_of (UPNodes upi)))"
  using add_node_effect [of env edges initial "fst entry" "snd entry" upi upi'] by (auto simp: update_conv')

lemma inv_new_nodes:
  "ofold (add_node env edges initial) nodes upi = Ok upi' \<Longrightarrow> upi_inv upi \<Longrightarrow> distinct (map fst nodes) \<Longrightarrow>
   fst ` set nodes \<inter> dom (map_of (UPNodes upi)) = {} \<Longrightarrow> upi_inv upi'"
proof (induction nodes arbitrary: upi)
  case (Cons entry nodes)
  then obtain u where u: "add_node env edges initial entry upi = Ok u" "ofold (add_node env edges initial) nodes u = Ok upi'"
    by (auto simp: obind_eq_Ok)
  have "map_of (UPNodes upi) (fst entry) = None"
    using Cons.prems(4) by auto
  from inv_add_node [OF Cons.prems(2) this u(1)] Cons.IH [OF u(2)] add_node_names [OF u(1)] Cons.prems(3,4)
  show ?case
    by auto
qed simp

lemma inv_reachable: "upi_reachable env upi \<Longrightarrow> upi_inv upi"
proof (induction rule: upi_reachable.induct)
  case (start nodes links upi)
  from start(2) obtain u where u: "ofold (add_node env reserve_edges True) nodes empty_upi = Ok u" "upi = fold add_link links u"
    by (auto simp: NewUserPlaneInformation_def obind_eq_Ok split: if_splits)
  have "upi_inv empty_upi"
    by (simp add: upi_inv_def topology_ok_def tables_ok_def cache_ok_def nodes_of_def empty_upi_def)
  from inv_new_nodes [OF u(1) this start(1)] u(2) inv_add_links show ?case
    by (simp add: empty_upi_def)
next
  case (extend upi nodes upi' links)
  from extend(2) obtain u where u: "ofold (\<lambda>entry upi. if map_of (UPNodes upi) (fst entry) \<noteq> None then Ok upi
      else add_node env (\<lambda>p. p) False entry upi) nodes upi = Ok u" "upi' = u"
    by (auto simp: UpNodesFromConfiguration_def obind_eq_Ok split: if_splits)
  have "upi_inv u"
    by (rule ofold_invariant [where I = upi_inv, OF u(1) extend(3)]) (auto split: if_splits intro: inv_add_node)
  with u(2) show ?case
    by (simp add: LinksFromConfiguration_def inv_add_links)
next
  case (delete upi rng name upi')
  from inv_delete [OF delete(4,3)] show ?case .
next
  case (path_to_upf upi rng selection upf path upi')
  from inv_get_path_to_upf [OF path_to_upf(4,2,3)] show ?case ..
next
  case (path_by_dnn upi rng selection path upi')
  from inv_get_path [OF path_by_dnn(4,3)] show ?case .
qed

text \<open>
  C5. In every reachable state the topology is a graph without dangling or one-sided links: a link leads to a
  registered node, which has the link back, and no two nodes are linked twice. The tables of UPFs and access
  nodes are exactly the registered nodes of these types, and exactly the UPFs have a UPF context.
\<close>

theorem topology_invariant:
  assumes "upi_reachable env upi"
  shows "(\<forall>a\<in>nodes_of upi. a < length (upi_store upi) \<and>
      (\<forall>b\<in>set (links_of upi a). b \<in> nodes_of upi \<and> a \<in> set (links_of upi b)) \<and>
      (\<forall>b. b \<noteq> a \<longrightarrow> count (mset (links_of upi a)) b \<le> 1) \<and>
      (node_type upi a = UPNODE_UPF \<longleftrightarrow> un_UPF (upi_store upi ! a) \<noteq> None)) \<and>
    distinct (map fst (UPNodes upi)) \<and> distinct (map snd (UPNodes upi)) \<and>
    set (UPFs upi) = {x \<in> set (UPNodes upi). node_type upi (snd x) = UPNODE_UPF} \<and>
    set (AccessNetwork upi) = {x \<in> set (UPNodes upi). node_type upi (snd x) = UPNODE_AN}"
  using inv_reachable [OF assms] unfolding upi_inv_def topology_ok_def tables_ok_def by blast

text \<open>
  C20. A data path to a UPF that is looked up in any reachable state, from the cache or newly found, is a chain
  of registered UPFs each linked to the next, whatever was deleted or added since it was cached.
\<close>

theorem looked_up_path_is_current:
  assumes "upi_reachable env upi" and "\<forall>l. set (rng l) = set l"
    and "GetDefaultUserPlanePathByDNNAndUPF env rng selection upf upi = Ok (Some p, upi')"
  shows "(\<forall>a\<in>set p. a \<in> nodes_of upi' \<and> node_type upi' a = UPNODE_UPF) \<and>
    (\<forall>i. i + 1 < length p \<longrightarrow> p ! (i + 1) \<in> set (links_of upi' (p ! i)))"
  using inv_get_path_to_upf [OF inv_reachable [OF assms(1)] assms(2,3)]
  by (auto simp: chain_def successively_conv_nth)

text \<open>Two UPFs behind an access node, as configured and built.\<close>

definition demo_nodes :: "(string \<times> UPNodeConfig) list" where
  "demo_nodes =
     (let upf = \<lparr>cn_Type = ''UPF'', cn_NodeID = ''upf.local'', cn_Addr = [], cn_ANIP = [],
                 cn_SNssaiInfos = [\<lparr>cs_SNssai = Some demo_slice, cs_DnnUpfInfoList = []\<rparr>], cn_Interfaces = []\<rparr>
      in [(''gNB'', upf\<lparr>cn_Type := ''AN''\<rparr>), (''I-UPF'', upf), (''PSA'', upf\<lparr>cn_NodeID := ''psa.local''\<rparr>)])"

definition demo_built :: UserPlaneInformation where
  "demo_built = (case NewUserPlaneInformation demo_env demo_nodes [(''gNB'', ''I-UPF''), (''I-UPF'', ''PSA''), (''PSA'', ''I-UPF'')] of
     Ok upi \<Rightarrow> upi | _ \<Rightarrow> empty_upi)"

lemma demo_reachable: "upi_reachable demo_env demo_built"
proof (rule upi_reachable.start)
  show "NewUserPlaneInformation demo_env demo_nodes [(''gNB'', ''I-UPF''), (''I-UPF'', ''PSA''), (''PSA'', ''I-UPF'')] = Ok demo_built"
    by code_simp
  show "distinct (map fst demo_nodes)"
    by code_simp
qed

theorem topology_invariant_witness:
  "nodes_of demo_built = {0, 1, 2} \<and> links_of demo_built 1 = [0, 2] \<and>
   1 \<in> set (links_of demo_built 0) \<and> 1 \<in> set (links_of demo_built 2)"
proof -
  have nodes: "nodes_of demo_built = {0, 1, 2}" and links: "links_of demo_built 1 = [0, 2]"
    by code_simp+
  have "\<forall>b\<in>set (links_of demo_built 1). 1 \<in> set (links_of demo_built b)"
    using topology_invariant [OF demo_reachable] nodes by blast
  with nodes links show ?thesis
    by simp
qed

theorem looked_up_path_is_current_witness:
  "\<exists>upi'. GetDefaultUserPlanePathByDNNAndUPF demo_env rev demo_selection 2 demo_built = Ok (Some [1, 2], upi') \<and>
     2 \<in> set (links_of upi' 1)"
proof -
  have "case GetDefaultUserPlanePathByDNNAndUPF demo_env rev demo_selection 2 demo_built of
      Ok (path, upi') \<Rightarrow> path = Some [1, 2] | _ \<Rightarrow> False"
    by code_simp
  then obtain upi' where "GetDefaultUserPlanePathByDNNAndUPF demo_env rev demo_selection 2 demo_built = Ok (Some [1, 2], upi')"
    by (auto split: outcome.splits)
  with looked_up_path_is_current [OF demo_reachable _ this] show ?thesis
    by (auto dest: spec [of _ 0])
qed

end
