(* ===== verification/Smf_UeSelection.thy ===== *)
theory Smf_UeSelection
  imports Smf_Topology "HOL-Library.List_Lexorder" "HOL-Library.Char_ord"
begin

text \<open>
  The selection of the anchor UPF and of the UE address (\<^verbatim>\<open>selectAnchorUPF\<close>, \<^verbatim>\<open>SelectUPFAndAllocUEIP\<close>,
  \<^verbatim>\<open>ReleaseUEIP\<close> and their helpers in \<^verbatim>\<open>user_plane_information.go\<close>). The search runs over a queue and
  marks a node as visited when it leaves the queue, so that a node may be queued more than once. The addresses come
  from the pools in \<open>ue_pools\<close>. \<open>rnd i n\<close> is the value of the \<open>i\<close>-th call of \<open>rand.Intn(n)\<close>.
\<close>

section \<open>The anchor\<close>

definition selection_for_iupf :: "UPFSelectionParams \<Rightarrow> UPFSelectionParams" where
  "selection_for_iupf selection =
     \<lparr>sel_Dnn = sel_Dnn selection, sel_SNssai = sel_SNssai selection, sel_Dnai = [], sel_PDUAddress = None\<rparr>"

definition matches :: "UserPlaneInformation \<Rightarrow> UPFSelectionParams \<Rightarrow> nat \<Rightarrow> bool upi" where
  "matches upi selection a = obind (node_at upi a) (\<lambda>n. MatchedSelection n selection)"

text \<open>The links that the loop body puts into the queue.\<close>

definition new_links :: "UserPlaneInformation \<Rightarrow> UPFSelectionParams \<Rightarrow> nat list \<Rightarrow> nat list \<Rightarrow> nat list upi" where
  "new_links upi selection visited links =
     oselect (\<lambda>link. if link \<in> set visited then Ok False else matches upi (selection_for_iupf selection) link) links"

function (sequential) anchor_loop ::
    "UserPlaneInformation \<Rightarrow> UPFSelectionParams \<Rightarrow> nat list \<Rightarrow> nat list \<Rightarrow> nat list \<Rightarrow> nat list upi" where
  "anchor_loop upi selection [] visited upList = Ok upList"
| "anchor_loop upi selection (node # queue) visited upList =
     obind (node_at upi node) (\<lambda>n.
     obind (new_links upi selection (node # visited) (Links n)) (\<lambda>new.
     obind (if new = [] \<and> un_Type n = UPNODE_UPF then MatchedSelection n selection else Ok False) (\<lambda>found.
       anchor_loop upi selection (queue @ new) (node # visited) (if found then upList @ [node] else upList))))"
  by pat_completeness auto

lemma new_links_unvisited: "new_links upi selection visited links = Ok new \<Longrightarrow> set new \<inter> set visited = {}"
  unfolding new_links_def by (fastforce dest: oselect_subset split: if_splits)

termination anchor_loop
proof (relation "measures
    [\<lambda>(upi, selection, queue, visited, upList). card (unvisited upi visited),
     \<lambda>(upi, selection, queue, visited, upList). length (filter (\<lambda>a. a \<in> set visited) queue)]")
  fix upi selection node queue visited upList n new found
  assume "node_at upi node = Ok n"
  then have range: "node < length (upi_store upi)"
    by (simp add: node_at_Ok)
  assume new: "new_links upi selection (node # visited) (Links n) = Ok new"
  have "filter (\<lambda>a. a \<in> set visited) new = []"
    using new_links_unvisited [OF new] by (auto simp: filter_empty_conv)
  moreover have "insert node (set visited) = set visited" if "node \<in> set visited"
    using that by auto
  moreover have "unvisited upi (node # visited) = unvisited upi visited" if "node \<in> set visited"
    using that by (auto simp: unvisited_def)
  ultimately show "((upi, selection, queue @ new, node # visited, if found then upList @ [node] else upList),
      upi, selection, node # queue, visited, upList) \<in> measures
    [\<lambda>(upi, selection, queue, visited, upList). card (unvisited upi visited),
     \<lambda>(upi, selection, queue, visited, upList). length (filter (\<lambda>a. a \<in> set visited) queue)]"
    using card_unvisited(1) [OF range] by (cases "node \<in> set visited") simp_all
qed simp

declare anchor_loop.simps [simp del]

definition selectAnchorUPF :: "nat \<Rightarrow> UPFSelectionParams \<Rightarrow> UserPlaneInformation \<Rightarrow> nat list upi" where
  "selectAnchorUPF source selection upi = anchor_loop upi selection [source] [] []"

section \<open>Order of the candidates\<close>

definition GetUPFNameByIp :: "string \<Rightarrow> UserPlaneInformation \<Rightarrow> string" where
  "GetUPFNameByIp ip upi = (case map_of (UPFIPToName upi) ip of None \<Rightarrow> [] | Some name \<Rightarrow> name)"

definition GetUPFNodeIDByName :: "string \<Rightarrow> UserPlaneInformation \<Rightarrow> NodeID upi" where
  "GetUPFNodeIDByName name upi =
     obind (deref (map_of (UPFs upi) name)) (\<lambda>a. omap un_NodeID (node_at upi a))"

definition GetUPFNodeByIP :: "string \<Rightarrow> UserPlaneInformation \<Rightarrow> nat option" where
  "GetUPFNodeByIP ip upi = map_of (UPFs upi) (GetUPFNameByIp ip upi)"

definition GetUPFIDByIP :: "string \<Rightarrow> UserPlaneInformation \<Rightarrow> string" where
  "GetUPFIDByIP ip upi = (case map_of (UPFsIPtoID upi) ip of None \<Rightarrow> [] | Some uuid \<Rightarrow> uuid)"

definition sortUPFListByName :: "up_env \<Rightarrow> UserPlaneInformation \<Rightarrow> nat list \<Rightarrow> nat list upi" where
  "sortUPFListByName env upi upfList =
     omap concat (omapM (\<lambda>name.
       oselect (\<lambda>a. omap (\<lambda>n. name = GetUPFNameByIp (node_ip env n) upi) (node_at upi a)) upfList)
       (sort (map fst (UPFs upi))))"

text \<open>\<open>createUPFListForSelection\<close> and \<open>createPoolListForSelection\<close>: \<open>rand.Intn(0)\<close> panics.\<close>

definition createListForSelection :: "(nat \<Rightarrow> nat) \<Rightarrow> 'a list \<Rightarrow> 'a list upi" where
  "createListForSelection intn inputList =
     (if inputList = [] then Panic
      else let offset = intn (length inputList) in Ok (drop offset inputList @ take offset inputList))"

section \<open>The address\<close>

definition pool_contains :: "UserPlaneInformation \<Rightarrow> bytes \<Rightarrow> nat \<Rightarrow> bool" where
  "pool_contains upi addr p = IPNet_Contains (ueSubNet (ue_pools upi ! p)) addr"

definition dnn_choice :: "UserPlaneInformation \<Rightarrow> UPFSelectionParams \<Rightarrow> DnnUPFInfoItem \<Rightarrow> nat list \<times> bool" where
  "dnn_choice upi selection d =
     (case sel_PDUAddress selection of
        None \<Rightarrow> (UeIPPools d, False)
      | Some addr \<Rightarrow>
          (case List.find (pool_contains upi addr) (StaticIPPools d) of
             Some p \<Rightarrow> ([p], True)
           | None \<Rightarrow>
               (case List.find (pool_contains upi addr) (UeIPPools d) of
                  Some p \<Rightarrow> ([p], False)
                | None \<Rightarrow> ([], False))))"

primrec snssai_loop ::
    "UserPlaneInformation \<Rightarrow> UPFSelectionParams \<Rightarrow> SnssaiUPFInfo list \<Rightarrow> (nat list \<times> bool) upi" where
  "snssai_loop upi selection [] = Ok ([], False)"
| "snssai_loop upi selection (info # infos) =
     obind (SNssai_Equal (si_SNssai info) (sel_SNssai selection)) (\<lambda>eq.
       case (if eq then List.find (dnn_matches selection) (DnnList info) else None) of
         Some d \<Rightarrow> Ok (dnn_choice upi selection d)
       | None \<Rightarrow> snssai_loop upi selection infos)"

definition getUEIPPool :: "nat \<Rightarrow> UPFSelectionParams \<Rightarrow> UserPlaneInformation \<Rightarrow> (nat list \<times> bool) upi" where
  "getUEIPPool upNode selection upi =
     obind (upf_at upi upNode) (\<lambda>upf. snssai_loop upi selection (SNssaiInfos upf))"

definition pool_Allocate :: "nat \<Rightarrow> bytes option \<Rightarrow> UserPlaneInformation \<Rightarrow> (bytes option \<times> UserPlaneInformation) upi" where
  "pool_Allocate p request upi =
     (if length (ue_pools upi) \<le> p then Panic
      else case UeIP_Allocate (ue_pools upi ! p) request of
        Ok (addr, u) \<Rightarrow> Ok (addr, upi\<lparr>ue_pools := (ue_pools upi)[p := u]\<rparr>)
      | Err _ \<Rightarrow> Panic
      | Panic \<Rightarrow> Panic)"

primrec pool_loop ::
    "bytes option \<Rightarrow> nat list \<Rightarrow> UserPlaneInformation \<Rightarrow> (bytes option \<times> UserPlaneInformation) upi" where
  "pool_loop request [] upi = Ok (None, upi)"
| "pool_loop request (p # ps) upi =
     obind (pool_Allocate p request upi) (\<lambda>r.
       case fst r of Some addr \<Rightarrow> Ok r | None \<Rightarrow> pool_loop request ps (snd r))"

text \<open>The loop over the candidate UPFs; the pool list of the \<open>i\<close>-th one is rotated by the \<open>i\<close>-th draw.\<close>

primrec upf_loop ::
    "(nat \<Rightarrow> nat \<Rightarrow> nat) \<Rightarrow> UPFSelectionParams \<Rightarrow> nat \<Rightarrow> nat list \<Rightarrow> UserPlaneInformation \<Rightarrow>
     ((nat \<times> bytes \<times> bool) option \<times> UserPlaneInformation) upi" where
  "upf_loop rnd selection i [] upi = Ok (None, upi)"
| "upf_loop rnd selection i (upf # upfs) upi =
     obind (upf_at upi upf) (\<lambda>u.
       if \<not> upf_associated u then upf_loop rnd selection (i + 1) upfs upi
       else
         obind (getUEIPPool upf selection upi) (\<lambda>pools.
           if fst pools = [] then upf_loop rnd selection (i + 1) upfs upi
           else
             obind (createListForSelection (rnd i) (fst pools)) (\<lambda>sorted.
             obind (pool_loop (sel_PDUAddress selection) sorted upi) (\<lambda>r.
               case fst r of
                 Some addr \<Rightarrow> Ok (Some (upf, addr, snd pools), snd r)
               | None \<Rightarrow> upf_loop rnd selection (i + 1) upfs (snd r)))))"

definition SelectUPFAndAllocUEIP ::
    "up_env \<Rightarrow> range_order \<Rightarrow> (nat \<Rightarrow> nat \<Rightarrow> nat) \<Rightarrow> UPFSelectionParams \<Rightarrow> UserPlaneInformation \<Rightarrow>
     ((nat \<times> bytes \<times> bool) option \<times> UserPlaneInformation) upi" where
  "SelectUPFAndAllocUEIP env rng rnd selection upi =
     (case selectUPPathSource rng upi of
        Err _ \<Rightarrow> Ok (None, upi)
      | Panic \<Rightarrow> Panic
      | Ok source \<Rightarrow>
          obind (selectAnchorUPF source selection upi) (\<lambda>upfList.
            if upfList = [] then omap (\<lambda>_. (None, upi)) (deref (sel_SNssai selection))
            else
              obind (sortUPFListByName env upi upfList) (\<lambda>upfList.
              obind (createListForSelection (rnd 0) upfList) (\<lambda>sorted.
              obind (upf_loop rnd selection 1 sorted upi) (\<lambda>r.
                if fst r = None then omap (\<lambda>_. r) (deref (sel_SNssai selection)) else Ok r)))))"

definition upf_pools :: "bool \<Rightarrow> UPF \<Rightarrow> nat list" where
  "upf_pools static upf =
     concat (map (\<lambda>info. concat (map (\<lambda>d. if static then StaticIPPools d else UeIPPools d) (DnnList info))) (SNssaiInfos upf))"

definition findPoolByAddr :: "nat \<Rightarrow> bytes \<Rightarrow> bool \<Rightarrow> UserPlaneInformation \<Rightarrow> nat option upi" where
  "findPoolByAddr upf addr static upi =
     obind (upf_at upi upf) (\<lambda>u. Ok (List.find (pool_contains upi addr) (upf_pools static u)))"

definition ReleaseUEIP :: "nat \<Rightarrow> bytes \<Rightarrow> bool \<Rightarrow> UserPlaneInformation \<Rightarrow> UserPlaneInformation upi" where
  "ReleaseUEIP upf addr static upi =
     obind (findPoolByAddr upf addr static upi) (\<lambda>r.
       case r of
         None \<Rightarrow> Ok upi
       | Some p \<Rightarrow>
           if length (ue_pools upi) \<le> p then Panic
           else (case UeIP_Release (ue_pools upi ! p) addr of
                   Ok u \<Rightarrow> Ok (upi\<lparr>ue_pools := (ue_pools upi)[p := u]\<rparr>)
                 | Err _ \<Rightarrow> Panic
                 | Panic \<Rightarrow> Panic))"

end
