(* ===== verification/Smf_UeSelection_Props.thy ===== *)
theory Smf_UeSelection_Props
  imports Smf_UeSelection
begin

text \<open>
  What the selection of anchor and address guarantees: the anchors that the search finds, the address that is
  granted, and over a whole history of sessions that no two of them hold the same address.
\<close>

section \<open>The search for anchors\<close>

definition match_hop :: "UserPlaneInformation \<Rightarrow> UPFSelectionParams \<Rightarrow> nat \<Rightarrow> nat \<Rightarrow> bool" where
  "match_hop upi selection a b \<longleftrightarrow>
     a < length (upi_store upi) \<and> b \<in> set (Links (upi_store upi ! a)) \<and>
     matches upi (selection_for_iupf selection) b = Ok True"

definition anchor_for :: "UserPlaneInformation \<Rightarrow> UPFSelectionParams \<Rightarrow> nat \<Rightarrow> nat \<Rightarrow> bool" where
  "anchor_for upi selection source a \<longleftrightarrow>
     (match_hop upi selection)\<^sup>*\<^sup>* source a \<and> a < length (upi_store upi) \<and>
     node_type upi a = UPNODE_UPF \<and> matches upi selection a = Ok True"

lemma new_links_hops:
  "new_links upi selection visited (Links (upi_store upi ! a)) = Ok new \<Longrightarrow> a < length (upi_store upi) \<Longrightarrow> b \<in> set new \<Longrightarrow>
   match_hop upi selection a b"
  unfolding new_links_def match_hop_def by (fastforce dest: oselect_subset split: if_splits)

lemma new_links_empty:
  "new_links upi selection visited links = Ok new \<Longrightarrow>
   new = [] \<longleftrightarrow> (\<forall>b\<in>set links. b \<notin> set visited \<longrightarrow> matches upi (selection_for_iupf selection) b = Ok False)"
  unfolding new_links_def by (induction links arbitrary: new) (auto simp: go_simps split: if_splits)

lemma anchor_loop_step:
  assumes "anchor_loop upi selection (node # queue) visited upList = Ok r"
  obtains new found where "node < length (upi_store upi)"
    and "new_links upi selection (node # visited) (Links (upi_store upi ! node)) = Ok new"
    and "(if new = [] \<and> un_Type (upi_store upi ! node) = UPNODE_UPF then MatchedSelection (upi_store upi ! node) selection
          else Ok False) = Ok found"
    and "anchor_loop upi selection (queue @ new) (node # visited) (if found then upList @ [node] else upList) = Ok r"
  using assms unfolding anchor_loop.simps(2) obind_eq_Ok node_at_Ok by (elim exE conjE) (simp only: that)

lemma matches_at: "a < length (upi_store upi) \<Longrightarrow> matches upi selection a = MatchedSelection (upi_store upi ! a) selection"
  by (simp add: matches_def node_at_def)

lemma anchor_loop_sound:
  "anchor_loop upi selection queue visited upList = Ok r \<Longrightarrow> \<forall>a\<in>set queue. (match_hop upi selection)\<^sup>*\<^sup>* source a \<Longrightarrow>
   \<forall>a\<in>set upList. anchor_for upi selection source a \<Longrightarrow> \<forall>a\<in>set r. anchor_for upi selection source a"
proof (induction upi selection queue visited upList rule: anchor_loop.induct)
  case (1 upi selection visited upList)
  then show ?case by (simp add: anchor_loop.simps)
next
  case (2 upi selection node queue visited upList)
  from 2(2) obtain new found where s: "node < length (upi_store upi)"
    "new_links upi selection (node # visited) (Links (upi_store upi ! node)) = Ok new"
    "(if new = [] \<and> un_Type (upi_store upi ! node) = UPNODE_UPF then MatchedSelection (upi_store upi ! node) selection
      else Ok False) = Ok found"
    "anchor_loop upi selection (queue @ new) (node # visited) (if found then upList @ [node] else upList) = Ok r"
    by (rule anchor_loop_step)
  have n: "node_at upi node = Ok (upi_store upi ! node)"
    using s(1) by (simp add: node_at_Ok)
  have "\<forall>a\<in>set (queue @ new). (match_hop upi selection)\<^sup>*\<^sup>* source a"
    using 2(3) new_links_hops [OF s(2,1)] by (auto intro: rtranclp.rtrancl_into_rtrancl)
  moreover have "\<forall>a\<in>set (if found then upList @ [node] else upList). anchor_for upi selection source a"
    using 2(3,4) s(1,3) by (auto simp: anchor_for_def node_type_def matches_at split: if_splits)
  ultimately show ?case
    using 2(1) [OF n s(2,3,4)] by blast
qed

lemma matches_iupf:
  assumes "sel_Dnai selection = []"
  shows "matches upi selection a = matches upi (selection_for_iupf selection) a"
proof -
  have "dnn_matches (selection_for_iupf selection) = dnn_matches selection"
    "sel_SNssai (selection_for_iupf selection) = sel_SNssai selection"
    using assms by (simp_all add: fun_eq_iff dnn_matches_def selection_for_iupf_def)
  then show ?thesis
    by (simp only: matches_def MatchedSelection_def)
qed

lemma anchor_loop_nonempty:
  "anchor_loop upi selection queue visited upList = Ok r \<Longrightarrow> sel_Dnai selection = [] \<Longrightarrow>
   \<forall>a\<in>N. matches upi (selection_for_iupf selection) a = Ok True \<longrightarrow> node_type upi a = UPNODE_UPF \<Longrightarrow>
   \<forall>a\<in>N. set (Links (upi_store upi ! a)) \<subseteq> N \<Longrightarrow> set queue \<subseteq> N \<Longrightarrow>
   upList \<noteq> [] \<or> (queue \<noteq> [] \<and> (\<forall>a\<in>set queue. matches upi (selection_for_iupf selection) a = Ok True)) \<Longrightarrow> r \<noteq> []"
proof (induction upi selection queue visited upList rule: anchor_loop.induct)
  case (1 upi selection visited upList)
  then show ?case by (simp add: anchor_loop.simps)
next
  case (2 upi selection node queue visited upList)
  from 2(2) obtain new found where s: "node < length (upi_store upi)"
    "new_links upi selection (node # visited) (Links (upi_store upi ! node)) = Ok new"
    "(if new = [] \<and> un_Type (upi_store upi ! node) = UPNODE_UPF then MatchedSelection (upi_store upi ! node) selection
      else Ok False) = Ok found"
    "anchor_loop upi selection (queue @ new) (node # visited) (if found then upList @ [node] else upList) = Ok r"
    by (rule anchor_loop_step)
  have n: "node_at upi node = Ok (upi_store upi ! node)"
    using s(1) by (simp add: node_at_Ok)
  have same: "matches upi selection node = matches upi (selection_for_iupf selection) node"
    using 2(3) by (rule matches_iupf)
  have hops: "\<forall>a\<in>set new. matches upi (selection_for_iupf selection) a = Ok True"
    using new_links_hops [OF s(2,1)] by (auto simp: match_hop_def)
  have "(if found then upList @ [node] else upList) \<noteq> [] \<or>
      (queue @ new \<noteq> [] \<and> (\<forall>a\<in>set (queue @ new). matches upi (selection_for_iupf selection) a = Ok True))"
    using 2(4,6,7) s(1,3) same hops by (cases "new = []") (auto simp: node_type_def matches_at split: if_splits)
  moreover have "set (queue @ new) \<subseteq> N"
    using 2(5,6) new_links_hops [OF s(2,1)] by (auto simp: match_hop_def)
  ultimately show ?case
    using 2(1) [OF n s(2,3,4) 2(3,4,5)] by blast
qed

text \<open>When the links lead to UPFs the search ends with a result.\<close>

lemma matches_total:
  assumes "a < length (upi_store upi)" and "un_UPF (upi_store upi ! a) \<noteq> None" and "sel_SNssai selection = Some sn"
  shows "\<exists>b. matches upi selection a = Ok b"
proof -
  obtain upf where "un_UPF (upi_store upi ! a) = Some upf"
    using assms(2) by blast
  moreover have "\<exists>b. oexists (\<lambda>info. obind (SNssai_Equal (si_SNssai info) (Some sn)) (\<lambda>eq.
      Ok (eq \<and> list_ex (dnn_matches selection) (DnnList info)))) l = Ok b" for l
    by (rule exI, rule oexists_Ok) (simp add: SNssai_Equal_def)
  ultimately show ?thesis
    using assms(1,3) by (simp add: matches_at MatchedSelection_def)
qed

lemma anchor_loop_total:
  "links_to_upfs upi source \<Longrightarrow> sel_SNssai selection = Some sn \<Longrightarrow>
   \<forall>a\<in>set queue. a < length (upi_store upi) \<and> (un_UPF (upi_store upi ! a) \<noteq> None \<or> (node_type upi a \<noteq> UPNODE_UPF)) \<Longrightarrow>
   source \<in> set visited \<or> (\<exists>q. queue = source # q) \<Longrightarrow> \<exists>r. anchor_loop upi selection queue visited upList = Ok r"
proof (induction upi selection queue visited upList rule: anchor_loop.induct)
  case (1 upi selection visited upList)
  then show ?case by (simp add: anchor_loop.simps)
next
  case (2 upi selection node queue visited upList)
  have range: "node < length (upi_store upi)"
    using 2(4) by simp
  have n: "node_at upi node = Ok (upi_store upi ! node)"
    using range by (simp add: node_at_Ok)
  have source: "source \<in> set (node # visited)"
    using 2(5) by auto
  have links: "b < length (upi_store upi) \<and> (b = source \<or> un_UPF (upi_store upi ! b) \<noteq> None)"
    if "b \<in> set (Links (upi_store upi ! node))" for b
    using 2(2) that nth_mem [OF range] unfolding links_to_upfs_def by blast
  have "\<exists>c. (if b \<in> set (node # visited) then Ok False else matches upi (selection_for_iupf selection) b) = Ok c"
    if "b \<in> set (Links (upi_store upi ! node))" for b
    using links [OF that] source 2(3) matches_total [of b upi "selection_for_iupf selection" sn]
    by (auto simp: selection_for_iupf_def)
  then obtain new where new: "new_links upi selection (node # visited) (Links (upi_store upi ! node)) = Ok new"
    unfolding new_links_def using oselect_total [of "Links (upi_store upi ! node)"
      "\<lambda>link. if link \<in> set (node # visited) then Ok False else matches upi (selection_for_iupf selection) link"] by blast
  have "\<exists>found. (if new = [] \<and> un_Type (upi_store upi ! node) = UPNODE_UPF
      then MatchedSelection (upi_store upi ! node) selection else Ok False) = Ok found"
    using 2(4) matches_total [OF range _ 2(3)] by (force simp: node_type_def matches_at [OF range])
  then obtain found where found: "(if new = [] \<and> un_Type (upi_store upi ! node) = UPNODE_UPF
      then MatchedSelection (upi_store upi ! node) selection else Ok False) = Ok found" ..
  have queued: "\<forall>a\<in>set (queue @ new). a < length (upi_store upi) \<and>
      (un_UPF (upi_store upi ! a) \<noteq> None \<or> (node_type upi a \<noteq> UPNODE_UPF))"
  proof
    fix a
    assume "a \<in> set (queue @ new)"
    moreover have "a \<in> set (Links (upi_store upi ! node)) \<and> a \<notin> set (node # visited)" if "a \<in> set new"
      using that new new_links_unvisited [OF new] unfolding new_links_def by (auto dest: oselect_subset)
    ultimately show "a < length (upi_store upi) \<and> (un_UPF (upi_store upi ! a) \<noteq> None \<or> (node_type upi a \<noteq> UPNODE_UPF))"
      using 2(4) links source by auto
  qed
  have "\<exists>r. anchor_loop upi selection (queue @ new) (node # visited) (if found then upList @ [node] else upList) = Ok r"
    by (rule 2(1) [OF n new found 2(2,3) queued disjI1 [OF source]])
  with n new found show ?case
    by (simp only: anchor_loop.simps(2) obind.simps)
qed

text \<open>
  C19. Where every linked node other than the access node is a UPF (a second access node linked to a UPF panics the search), the search for
  an anchor ends, without a panic, and finds only UPFs that match the whole selection and that
  are reached from the access node over UPFs serving the slice and the data network. Without a DNAI it
  finds one exactly when some neighbour of the access node serves them.
\<close>

theorem anchors_found:
  assumes "upi_inv upi" and "links_to_upfs upi an" and "sel_SNssai selection = Some sn"
    and "an \<in> nodes_of upi" and "node_type upi an = UPNODE_AN"
  shows "\<exists>r. selectAnchorUPF an selection upi = Ok r \<and> (\<forall>a\<in>set r. anchor_for upi selection an a) \<and>
    (sel_Dnai selection = [] \<longrightarrow>
       (r = [] \<longleftrightarrow> (\<forall>b\<in>set (links_of upi an). b \<noteq> an \<longrightarrow> matches upi (selection_for_iupf selection) b = Ok False)))"
proof -
  have ok: "topology_ok upi" "tables_ok upi"
    using assms(1) by (simp_all add: upi_inv_def)
  have range: "an < length (upi_store upi)"
    by (rule topology_okD(3) [OF ok(1) assms(4)])
  have ne: "UPNODE_AN \<noteq> UPNODE_UPF"
    by (simp add: UPNODE_AN_def UPNODE_UPF_def)
  obtain r where r: "anchor_loop upi selection [an] [] [] = Ok r"
    using anchor_loop_total [OF assms(2,3), of "[an]" "[]" "[]"] range ne assms(5) by auto
  from r obtain new where new: "new_links upi selection [an] (Links (upi_store upi ! an)) = Ok new"
    and rest: "anchor_loop upi selection new [an] [] = Ok r"
    by (rule anchor_loop_step) (use ne assms(5) in \<open>auto simp: node_type_def\<close>)
  have upf: "\<forall>a\<in>nodes_of upi. matches upi (selection_for_iupf selection) a = Ok True \<longrightarrow> node_type upi a = UPNODE_UPF"
    using ok(2) by (auto simp: tables_ok_def matches_def MatchedSelection_def node_at_Ok go_simps)
  have closed: "\<forall>a\<in>nodes_of upi. set (Links (upi_store upi ! a)) \<subseteq> nodes_of upi"
    using topology_okD(4) [OF ok(1)] by (auto simp: links_of_def)
  have hops: "\<forall>a\<in>set new. match_hop upi selection an a"
    using new_links_hops [OF new range] by blast
  have "r \<noteq> []" if "new \<noteq> []" "sel_Dnai selection = []"
    using anchor_loop_nonempty [OF rest that(2) upf closed] that(1) hops closed assms(4)
    by (auto simp: match_hop_def)
  moreover have "r = []" if "new = []"
    using rest that by (simp add: anchor_loop.simps)
  moreover have "new = [] \<longleftrightarrow> (\<forall>b\<in>set (links_of upi an). b \<noteq> an \<longrightarrow> matches upi (selection_for_iupf selection) b = Ok False)"
    using new_links_empty [OF new] by (simp add: links_of_def)
  ultimately show ?thesis
    using r anchor_loop_sound [OF r, of an] by (auto simp: selectAnchorUPF_def)
qed

text \<open>An access node, an intermediate UPF and an anchor with the pool 10.60.0.0/30, as configured and built.\<close>

definition pool_env :: up_env where
  "pool_env = \<lparr>net_ParseCIDR = (\<lambda>_. Some \<lparr>net_IP = [10, 60, 0, 0], net_Mask = [255, 255, 255, 252]\<rparr>),
     net_ParseIP = (\<lambda>_. None), ResolveNodeIdToIp = (\<lambda>n. Some (map of_char (FQDN n))),
     IP_String = (\<lambda>ip. case ip of None \<Rightarrow> [] | Some b \<Rightarrow> map (\<lambda>x. char_of (unat x)) b), uuid_New = (\<lambda>n. Itoa n)\<rparr>"

definition pool_node :: "string \<Rightarrow> string \<Rightarrow> string list \<Rightarrow> string \<times> UPNodeConfig" where
  "pool_node type name pools =
     (name, \<lparr>cn_Type = type, cn_NodeID = name, cn_Addr = [], cn_ANIP = [],
             cn_SNssaiInfos = [\<lparr>cs_SNssai = Some demo_slice, cs_DnnUpfInfoList =
               [\<lparr>cd_Dnn = ''internet'', cd_DnaiList = [], cd_PduSessionTypes = [], cd_Pools = pools, cd_StaticPools = []\<rparr>]\<rparr>],
             cn_Interfaces = []\<rparr>)"

definition pool_nodes :: "(string \<times> UPNodeConfig) list" where
  "pool_nodes = [pool_node ''AN'' ''gNB'' [], pool_node ''UPF'' ''I-UPF'' [], pool_node ''UPF'' ''PSA'' [''10.60.0.0/30'']]"

definition pool_built :: UserPlaneInformation where
  "pool_built = (case NewUserPlaneInformation pool_env pool_nodes [(''gNB'', ''I-UPF''), (''I-UPF'', ''PSA'')] of
     Ok upi \<Rightarrow> upi | _ \<Rightarrow> empty_upi)"

lemma pool_built_new:
  "NewUserPlaneInformation pool_env pool_nodes [(''gNB'', ''I-UPF''), (''I-UPF'', ''PSA'')] = Ok pool_built"
  by code_simp

lemma pool_reachable: "upi_reachable pool_env pool_built"
  by (rule upi_reachable.start [OF _ pool_built_new]) code_simp

theorem anchors_found_witness:
  "selectAnchorUPF 0 demo_selection pool_built = Ok [2] \<and> anchor_for pool_built demo_selection 0 2"
proof -
  have pre: "links_to_upfs pool_built 0" "sel_SNssai demo_selection = Some demo_slice" "0 \<in> nodes_of pool_built"
    "node_type pool_built 0 = UPNODE_AN"
    by code_simp+
  have "selectAnchorUPF 0 demo_selection pool_built = Ok [2]"
    by code_simp
  with anchors_found [OF inv_reachable [OF pool_reachable] pre] show ?thesis
    by auto
qed

end
