(* ===== verification/Smf_UeAddresses.thy ===== *)
theory Smf_UeAddresses
  imports Smf_UeSelection_Props
begin

text \<open>
  The UE addresses over a whole history of sessions: \<^verbatim>\<open>SelectUPFAndAllocUEIP\<close> draws them from the pools of the
  configuration and \<^verbatim>\<open>ReleaseUEIP\<close> looks the pool up again by the address. The pools of all UPFs do not overlap,
  so that the lookup finds the pool the address came from and the books balance.
\<close>

section \<open>Pools and their subnets\<close>

text \<open>The range of a pool is the subnet that \<open>findPoolByAddr\<close> compares an address with.\<close>

definition net_pool :: "UeIPPool \<Rightarrow> bool" where
  "net_pool u \<longleftrightarrow> ueip_inv u \<and>
     (\<forall>addr. length addr = 4 \<longrightarrow>
        (IPNet_Contains (ueSubNet u) addr \<longleftrightarrow> addr_val addr \<in> {pool_first (pool u) .. pool_last (pool u)}))"

definition same_net :: "UeIPPool \<Rightarrow> UeIPPool \<Rightarrow> bool" where
  "same_net u v \<longleftrightarrow> ueSubNet v = ueSubNet u \<and> pool_first (pool v) = pool_first (pool u) \<and> pool_last (pool v) = pool_last (pool u)"

text \<open>What is relied on of \<open>net.ParseCIDR\<close> for IPv4 prefixes: four octets and a mask of leading ones.\<close>

definition v4_prefixes :: "up_env \<Rightarrow> bool" where
  "v4_prefixes env \<longleftrightarrow>
     (\<forall>c n. net_ParseCIDR env c = Some n \<longrightarrow> length (net_IP n) = 4 \<and> (\<exists>k\<le>32. net_Mask n = CIDRMask k 32))"

lemma same_net_refl [simp]: "same_net u u"
  by (simp add: same_net_def)

lemma same_net_trans: "same_net u v \<Longrightarrow> same_net v w \<Longrightarrow> same_net u w"
  by (simp add: same_net_def)

lemma net_pool_same: "net_pool u \<Longrightarrow> same_net u v \<Longrightarrow> ueip_inv v \<Longrightarrow> net_pool v"
  by (simp add: net_pool_def same_net_def)

lemma CIDRMask_prefix:
  assumes "k \<le> 32"
  shows "get32 (Slice (CIDRMask k 32) []) = (Ok (NOT (mask (32 - k))) :: ('e, u32) outcome)"
proof -
  have "list_all (\<lambda>k. get32 (Slice (CIDRMask k 32) []) = (Ok (NOT (mask (32 - k))) :: (unit, u32) outcome)) [0 ..< 33]"
    by code_simp
  with assms have "get32 (Slice (CIDRMask k 32) []) = (Ok (NOT (mask (32 - k))) :: (unit, u32) outcome)"
    by (auto simp: list_all_iff)
  then show ?thesis
    by (simp add: get32_def split: list.splits)
qed

lemma length4E:
  assumes "length addr = 4"
  obtains a b c d where "addr = [a, b, c, d :: 'a]"
  using assms by (auto simp: numeral_eq_Suc length_Suc_conv)

lemma bit_short: "LENGTH('a) \<le> i \<Longrightarrow> \<not> bit (x :: 'a::len word) i"
  using bit_imp_le_length [of x i] by auto

lemma be16_AND: "be16 (a AND a') (b AND b') = be16 a b AND be16 a' b'"
proof (rule bit_word_eqI)
  fix i
  show "bit (be16 (a AND a') (b AND b')) i \<longleftrightarrow> bit (be16 a b AND be16 a' b') i"
    unfolding be16_def using bit_short [of i b] bit_short [of i b'] by (cases "i < 8") (auto simp: bit_simps)
qed

lemma be32_AND: "be32 (a AND a') (b AND b') (c AND c') (d AND d') = be32 a b c d AND be32 a' b' c' d'"
proof (rule bit_word_eqI)
  fix i
  show "bit (be32 (a AND a') (b AND b') (c AND c') (d AND d')) i \<longleftrightarrow> bit (be32 a b c d AND be32 a' b' c' d') i"
    unfolding be32_def be16_AND using bit_short [of i "be16 c d"] bit_short [of i "be16 c' d'"]
    by (cases "i < 16") (auto simp: bit_simps)
qed

lemma be32_inj: "be32 a b c d = be32 a' b' c' d' \<longleftrightarrow> [a, b, c, d] = [a', b', c', d']"
  using arg_cong [of "be32 a b c d" "be32 a' b' c' d'" put32, unfolded put32_be32] by auto

lemma IPNet_Contains_words:
  assumes "length (net_IP n) = 4" "length (net_Mask n) = 4" "length addr = 4"
    and "get32 (Slice (net_IP n) []) = (Ok b :: (ueip_error, u32) outcome)"
    and "get32 (Slice (net_Mask n) []) = (Ok m :: (ueip_error, u32) outcome)"
    and "get32 (Slice addr []) = (Ok a :: (ueip_error, u32) outcome)"
  shows "IPNet_Contains n addr \<longleftrightarrow> a AND m = b AND m"
proof -
  obtain i j k l i' j' k' l' i'' j'' k'' l'' where "net_IP n = [i, j, k, l]" "net_Mask n = [i', j', k', l']" "addr = [i'', j'', k'', l'']"
    using assms(1-3) by (metis length4E)
  with assms show ?thesis
    by (auto simp: IPNet_Contains_v4 get32_def be32_AND [symmetric] be32_inj)
qed

lemma addr_val_word: "get32 (Slice addr []) = (Ok a :: (ueip_error, u32) outcome) \<Longrightarrow> addr_val addr = uint a"
  by (auto simp: addr_val_def get32_def split: list.splits)

lemma new_pool_net:
  assumes "v4_prefixes env" and "new_pool env c = Ok u"
  shows "net_pool u"
proof -
  obtain n where n: "net_ParseCIDR env c = Some n"
    using assms(2) by (cases "net_ParseCIDR env c") (auto simp: new_pool_def NewUEIPPool_def)
  then obtain k where k: "length (net_IP n) = 4" "k \<le> 32" "net_Mask n = CIDRMask k 32"
    using assms(1) by (auto simp: v4_prefixes_def)
  then have len: "length (net_Mask n) = 4"
    by (simp add: CIDRMask_def)
  let ?m = "NOT (mask (32 - k)) :: u32"
  have m: "get32 (Slice (net_Mask n) []) = (Ok ?m :: (ueip_error, u32) outcome)"
    using CIDRMask_prefix [OF k(2)] k(3) by simp
  obtain b where b: "get32 (Slice (net_IP n) []) = (Ok b :: (ueip_error, u32) outcome)"
    using get32_4 [OF k(1)] by blast
  obtain v where v: "NewUEIPPool (net_ParseCIDR env) c = Ok (Some v)" "ueip_inv v"
    using NewUEIPPool_Ok [where parseCIDR = "net_ParseCIDR env", OF n m b] by blast
  with assms(2) have "u = v"
    by (simp add: new_pool_def)
  have fields: "ueSubNet v = n" "pool_first (pool v) = uint (b AND ?m)" "pool_last (pool v) = uint (b OR NOT ?m)"
    using v(1) n by (auto simp: NewUEIPPool_def calcAddrRange_Ok [OF m b] NewLazyReusePool_def split: if_splits)
  have "IPNet_Contains n addr \<longleftrightarrow> addr_val addr \<in> {uint (b AND ?m) .. uint (b OR NOT ?m)}" if l: "length addr = 4" for addr
  proof -
    obtain a where a: "get32 (Slice addr []) = (Ok a :: (ueip_error, u32) outcome)"
      using get32_4 [OF l] by blast
    from IPNet_Contains_words [OF k(1) len l b m a] subnet_range [OF refl, of b "32 - k" a] show ?thesis
      by (simp add: addr_val_word [OF a] word_le_def del: bit.double_compl)
  qed
  with v(2) show ?thesis
    unfolding net_pool_def \<open>u = v\<close> fields by simp
qed

text \<open>What is done to a pool of the configuration keeps its range.\<close>

lemma Exclude_net: "net_pool u \<Longrightarrow> UeIP_Exclude u v = Ok w \<Longrightarrow> net_pool w"
  using Reserve_spec [of "pool u"]
  by (auto simp: UeIP_Exclude_def net_pool_def ueip_inv_def split: option.splits)

lemma exclude_static_net: "net_pool u \<Longrightarrow> exclude_static s u = Ok w \<Longrightarrow> net_pool w"
  by (auto simp: exclude_static_def intro: Exclude_net split: if_splits)

lemma reserve_edges_net: "net_pool u \<Longrightarrow> net_pool (reserve_edges u)"
proof -
  assume u: "net_pool u"
  have "net_pool (v\<lparr>pool := try_reserve x (pool v)\<rparr>)" if "net_pool v" for x v
    using that Reserve_spec [of "pool v" x x] by (auto simp: try_reserve_def net_pool_def ueip_inv_def split: option.splits)
  from this [OF this [OF u]] u show ?thesis
    by (simp add: reserve_edges_def Let_def)
qed

section \<open>The pools of the nodes\<close>

definition node_pools :: "bool \<Rightarrow> UserPlaneInformation \<Rightarrow> nat \<Rightarrow> nat list" where
  "node_pools static upi a = (case un_UPF (upi_store upi ! a) of None \<Rightarrow> [] | Some upf \<Rightarrow> upf_pools static upf)"

definition dynamic_set :: "UserPlaneInformation \<Rightarrow> nat set" where
  "dynamic_set upi = (\<Union>x\<in>set (UPFs upi). set (node_pools False upi (snd x)))"

text \<open>Pool addresses are those of existing pools, and no pool is both a static and a dynamic one.\<close>

definition pools_built :: "UserPlaneInformation \<Rightarrow> bool" where
  "pools_built upi \<longleftrightarrow> (\<forall>u\<in>set (ue_pools upi). net_pool u) \<and>
     (\<forall>a < length (upi_store upi). \<forall>static. set (node_pools static upi a) \<subseteq> {..< length (ue_pools upi)}) \<and>
     (\<forall>a < length (upi_store upi). \<forall>b < length (upi_store upi). set (node_pools True upi a) \<inter> set (node_pools False upi b) = {})"

definition infos_pools :: "bool \<Rightarrow> SnssaiUPFInfo list \<Rightarrow> nat set" where
  "infos_pools static infos =
     (\<Union>info\<in>set infos. \<Union>d\<in>set (DnnList info). set (if static then StaticIPPools d else UeIPPools d))"

definition dnns_pools :: "bool \<Rightarrow> DnnUPFInfoItem list \<Rightarrow> nat set" where
  "dnns_pools static dnns = (\<Union>d\<in>set dnns. set (if static then StaticIPPools d else UeIPPools d))"

lemma set_upf_pools: "set (upf_pools static upf) = infos_pools static (SNssaiInfos upf)"
  by (auto simp: upf_pools_def infos_pools_def)

text \<open>What a loop of the construction does: it appends pools, and what it collects points to them.\<close>

definition appends :: "nat \<Rightarrow> UeIPPool list \<Rightarrow> (bool \<Rightarrow> nat set) \<Rightarrow> bool" where
  "appends n pools R \<longleftrightarrow> n \<le> length pools \<and> (\<forall>u\<in>set pools. net_pool u) \<and>
     R True \<subseteq> {n ..< length pools} \<and> R False \<subseteq> {n ..< length pools} \<and> R True \<inter> R False = {}"

lemma omapM_net:
  "omapM f xs = Ok ys \<Longrightarrow> \<forall>x\<in>set xs. \<forall>y. f x = Ok y \<longrightarrow> net_pool y \<Longrightarrow> \<forall>y\<in>set ys. net_pool y"
  by (induction xs arbitrary: ys) (auto simp: go_simps)

lemma dnn_pools_net:
  assumes "v4_prefixes env" and "\<And>u. net_pool u \<Longrightarrow> net_pool (edges u)" and "dnn_pools env edges d = Ok (dynamics, statics)"
  shows "\<forall>u\<in>set (dynamics @ statics). net_pool u"
proof -
  let ?I = "\<lambda>(ds, ss). \<forall>u\<in>set (ds @ ss). net_pool u"
  from assms(3) obtain ds ds' ss where
    ds: "omapM (new_pool env) (cd_Pools d) = Ok ds" "ofold (add_static env) (cd_StaticPools d) (ds, []) = Ok (ds', ss)"
    and r: "dynamics = map edges ds'" "statics = ss"
    by (auto simp: dnn_pools_def go_simps)
  have "?I (ds, [])"
    using omapM_net [OF ds(1)] new_pool_net [OF assms(1)] by auto
  then have "?I (ds', ss)"
  proof (rule ofold_invariant [where I = ?I, OF ds(2)])
    fix x u v
    assume "?I u" "add_static env x u = Ok v"
    then obtain p q r s where u: "u = (p, q)" "v = (r, q @ [s])" and s: "new_pool env x = Ok s" "omapM (exclude_static s) p = Ok r"
      by (auto simp: add_static_def go_simps split: prod.splits)
    have "\<forall>y\<in>set r. net_pool y"
      by (rule omapM_net [OF s(2)]) (use \<open>?I u\<close> u(1) exclude_static_net in auto)
    with \<open>?I u\<close> u new_pool_net [OF assms(1) s(1)] show "?I v"
      by auto
  qed
  with assms(2) r show ?thesis
    by auto
qed

lemma add_dnn_appends:
  assumes "v4_prefixes env" and "\<And>u. net_pool u \<Longrightarrow> net_pool (edges u)" and "appends n (fst st) (\<lambda>s. R s \<union> dnns_pools s (snd st))"
    and "add_dnn env edges d st = Ok st'"
  shows "appends n (fst st') (\<lambda>s. R s \<union> dnns_pools s (snd st'))"
proof -
  from assms(4) obtain dynamics statics where "dnn_pools env edges d = Ok (dynamics, statics)"
    and st': "st' = (fst st @ dynamics @ statics, snd st @ [\<lparr>di_Dnn = cd_Dnn d, DnaiList = cd_DnaiList d,
      PduSessionTypes = cd_PduSessionTypes d, UeIPPools = [length (fst st) ..< length (fst st) + length dynamics],
      StaticIPPools = [length (fst st) + length dynamics ..< length (fst st) + length dynamics + length statics]\<rparr>])"
    by (auto simp: add_dnn_def go_simps Let_def split: prod.splits)
  from dnn_pools_net [OF assms(1,2) this(1)] assms(3) show ?thesis
    unfolding appends_def st' dnns_pools_def by (fastforce split: if_splits)
qed

lemma add_snssai_appends:
  assumes "v4_prefixes env" and "\<And>u. net_pool u \<Longrightarrow> net_pool (edges u)" and "appends n (fst st) (\<lambda>s. infos_pools s (snd st))"
    and "add_snssai env edges sn st = Ok st'"
  shows "appends n (fst st') (\<lambda>s. infos_pools s (snd st'))"
proof -
  from assms(4) obtain x pools dnns where f: "ofold (add_dnn env edges) (cs_DnnUpfInfoList sn) (fst st, []) = Ok (pools, dnns)"
    and st': "st' = (pools, snd st @ [\<lparr>si_SNssai = x, DnnList = dnns\<rparr>])"
    by (auto simp: add_snssai_def go_simps split: prod.splits)
  have "appends n (fst (pools, dnns)) (\<lambda>s. infos_pools s (snd st) \<union> dnns_pools s (snd (pools, dnns)))"
    by (rule ofold_invariant [where I = "\<lambda>st'. appends n (fst st') (\<lambda>s. infos_pools s (snd st) \<union> dnns_pools s (snd st'))", OF f])
      (use assms(3) add_dnn_appends [OF assms(1,2)] in \<open>auto simp: dnns_pools_def\<close>)
  moreover have "infos_pools s (snd st') = infos_pools s (snd st) \<union> dnns_pools s dnns" for s
    by (auto simp: st' infos_pools_def dnns_pools_def)
  ultimately show ?thesis
    by (simp add: st')
qed

lemma add_node_pools:
  assumes "add_node env edges initial entry upi = Ok upi'"
  shows "\<exists>n. upi_store upi' = upi_store upi @ [n] \<and>
    (un_UPF n = None \<and> ue_pools upi' = ue_pools upi \<or>
     (\<exists>upf. un_UPF n = Some upf \<and>
        ofold (add_snssai env edges) (cn_SNssaiInfos (snd entry)) (ue_pools upi, []) = Ok (ue_pools upi', SNssaiInfos upf)))"
  using assms by (auto simp: add_node_def Let_def go_simps split: prod.splits if_splits)

lemma pools_built_add_node:
  assumes "v4_prefixes env" and "\<And>u. net_pool u \<Longrightarrow> net_pool (edges u)" and "pools_built upi"
    and "add_node env edges initial entry upi = Ok upi'"
  shows "pools_built upi'"
proof -
  obtain n where n: "upi_store upi' = upi_store upi @ [n]"
    and c: "un_UPF n = None \<and> ue_pools upi' = ue_pools upi \<or>
     (\<exists>upf. un_UPF n = Some upf \<and>
        ofold (add_snssai env edges) (cn_SNssaiInfos (snd entry)) (ue_pools upi, []) = Ok (ue_pools upi', SNssaiInfos upf))"
    using add_node_pools [OF assms(4)] by blast
  let ?m = "length (ue_pools upi)" and ?k = "length (upi_store upi)"
  have old: "node_pools s upi' a = node_pools s upi a" if "a < ?k" for s a
    using that by (simp add: node_pools_def n nth_append)
  have new: "appends ?m (ue_pools upi') (\<lambda>s. set (node_pools s upi' ?k))"
    using c
  proof
    assume "un_UPF n = None \<and> ue_pools upi' = ue_pools upi"
    then show ?thesis
      using assms(3) by (simp add: appends_def pools_built_def node_pools_def n)
  next
    assume "\<exists>upf. un_UPF n = Some upf \<and>
      ofold (add_snssai env edges) (cn_SNssaiInfos (snd entry)) (ue_pools upi, []) = Ok (ue_pools upi', SNssaiInfos upf)"
    then obtain upf where upf: "un_UPF n = Some upf"
      and f: "ofold (add_snssai env edges) (cn_SNssaiInfos (snd entry)) (ue_pools upi, []) = Ok (ue_pools upi', SNssaiInfos upf)"
      by blast
    have "appends ?m (fst (ue_pools upi', SNssaiInfos upf)) (\<lambda>s. infos_pools s (snd (ue_pools upi', SNssaiInfos upf)))"
    proof (rule ofold_invariant [where I = "\<lambda>st. appends ?m (fst st) (\<lambda>s. infos_pools s (snd st))", OF f])
      show "appends ?m (fst (ue_pools upi, [])) (\<lambda>s. infos_pools s (snd (ue_pools upi, [])))"
        using assms(3) by (simp add: appends_def pools_built_def infos_pools_def)
    qed (rule add_snssai_appends [OF assms(1,2)])
    then show ?thesis
      by (simp add: node_pools_def n upf set_upf_pools)
  qed
  have range: "set (node_pools s upi' a) \<subseteq> (if a < ?k then {..< ?m} else {?m ..< length (ue_pools upi')})"
    if "a < length (upi_store upi')" for s a
  proof (cases "a < ?k")
    case True
    with assms(3) old show ?thesis
      by (simp add: pools_built_def)
  next
    case False
    with that n have "a = ?k" by simp
    with new show ?thesis
      by (cases s) (simp_all add: appends_def)
  qed
  have "set (node_pools True upi' a) \<inter> set (node_pools False upi' b) = {}"
    if "a < length (upi_store upi')" "b < length (upi_store upi')" for a b
  proof (cases "a < ?k \<longleftrightarrow> b < ?k")
    case True
    show ?thesis
    proof (cases "a < ?k")
      case lt: True
      with assms(3) old True show ?thesis
        by (simp add: pools_built_def)
    next
      case False
      with that n True have "a = ?k" "b = ?k" by simp_all
      with new show ?thesis
        by (simp add: appends_def)
    qed
  next
    case False
    with range [OF that(1), of True] range [OF that(2), of False] show ?thesis
      by (fastforce split: if_splits)
  qed
  moreover have "set (node_pools s upi' a) \<subseteq> {..< length (ue_pools upi')}" if "a < length (upi_store upi')" for s a
    using range [OF that, of s] new by (fastforce simp: appends_def split: if_splits)
  ultimately show ?thesis
    using new by (auto simp: pools_built_def appends_def)
qed

text \<open>Links leave the pools alone.\<close>

lemma node_pools_add_link:
  "node_pools s (add_link l upi) a = node_pools s upi a" "ue_pools (add_link l upi) = ue_pools upi"
  "UPFs (add_link l upi) = UPFs upi" "length (upi_store (add_link l upi)) = length (upi_store upi)"
  by (auto simp: add_link_def node_pools_def node_set_links split: option.splits) (simp add: set_links_def)

lemma node_pools_add_links:
  "node_pools s (fold add_link links upi) a = node_pools s upi a" "ue_pools (fold add_link links upi) = ue_pools upi"
  "UPFs (fold add_link links upi) = UPFs upi" "length (upi_store (fold add_link links upi)) = length (upi_store upi)"
  by (induction links arbitrary: upi) (simp_all add: node_pools_add_link)

definition disjoint_ranges :: "UserPlaneInformation \<Rightarrow> bool" where
  "disjoint_ranges upi \<longleftrightarrow>
     (\<forall>p\<in>dynamic_set upi. \<forall>q\<in>dynamic_set upi. p \<noteq> q \<longrightarrow>
        {pool_first (pool (ue_pools upi ! p)) .. pool_last (pool (ue_pools upi ! p))} \<inter>
        {pool_first (pool (ue_pools upi ! q)) .. pool_last (pool (ue_pools upi ! q))} = {})"

lemma dynamic_pools_nth:
  "dynamic_pools upi l = map ((!) (ue_pools upi)) (concat (map (\<lambda>x. node_pools False upi (snd x)) l))"
  unfolding dynamic_pools_def node_pools_def upf_pools_def
  by (auto simp: map_concat comp_def split: option.splits intro!: arg_cong [of _ _ concat])

lemma built_disjoint:
  assumes "pools_built upi" and "\<forall>x\<in>set (UPFs upi). snd x < length (upi_store upi)"
    and "\<not> isOverlap (dynamic_pools upi (UPFs upi))"
  shows "disjoint_ranges upi"
proof -
  let ?l = "concat (map (\<lambda>x. node_pools False upi (snd x)) (UPFs upi))" and ?P = "\<lambda>p. pool (ue_pools upi ! p)"
  have D: "dynamic_set upi = set ?l"
    by (simp add: dynamic_set_def)
  have le: "pool_first (?P p) \<le> pool_last (?P p)" if "p \<in> set ?l" for p
    using that assms(1,2) by (force simp: pools_built_def net_pool_def ueip_inv_def pool_inv_def)
  have "\<not> IsJoint (?P p) (?P q)" if "p \<in> set ?l" "q \<in> set ?l" "p \<noteq> q" for p q
  proof -
    from that(1,2) obtain i j where ij: "i < length ?l" "j < length ?l" "?l ! i = p" "?l ! j = q"
      by (meson in_set_conv_nth)
    have sym: "IsJoint (?P p) (?P q) \<longleftrightarrow> IsJoint (?P q) (?P p)"
      by (auto simp: IsJoint_def)
    from ij that(3) have "i < j \<or> j < i"
      by (metis linorder_neqE_nat)
    with ij assms(3) sym show ?thesis
      unfolding dynamic_pools_nth isOverlap_pairs by (auto simp del: nth_map simp: nth_map [of _ ?l])
  qed
  then show ?thesis
    unfolding disjoint_ranges_def D using IsJoint_iff le by blast
qed

lemma upf_entry:
  assumes "upi_inv upi" and "x \<in> set (UPFs upi)"
  shows "snd x \<in> nodes_of upi" "snd x < length (upi_store upi)" "un_UPF (upi_store upi ! snd x) \<noteq> None"
proof -
  have x: "x \<in> set (UPNodes upi)" "node_type upi (snd x) = UPNODE_UPF"
    using assms by (auto simp: upi_inv_def tables_ok_def)
  then show n: "snd x \<in> nodes_of upi"
    by (simp add: nodes_of_def)
  then show "snd x < length (upi_store upi)"
    using assms(1) topology_okD(3) by (simp add: upi_inv_def)
  show "un_UPF (upi_store upi ! snd x) \<noteq> None"
    using n x(2) assms(1) by (simp add: upi_inv_def tables_ok_def)
qed

lemma new_topology:
  assumes "v4_prefixes env" and "distinct (map fst nodes)" and "NewUserPlaneInformation env nodes links = Ok upi"
  shows "upi_inv upi" "pools_built upi" "disjoint_ranges upi"
proof -
  from assms(3) obtain u where u: "ofold (add_node env reserve_edges True) nodes empty_upi = Ok u" "upi = fold add_link links u"
    and ov: "\<not> isOverlap (dynamic_pools u (UPFs u))"
    by (auto simp: NewUserPlaneInformation_def obind_eq_Ok split: if_splits)
  show inv: "upi_inv upi"
    by (rule inv_reachable [OF upi_reachable.start [OF assms(2,3)]])
  have e: "upi_inv empty_upi" "pools_built empty_upi"
    by (simp_all add: upi_inv_def topology_ok_def tables_ok_def cache_ok_def nodes_of_def empty_upi_def pools_built_def)
  have built: "pools_built u"
    by (rule ofold_invariant [where I = pools_built, OF u(1) e(2)])
      (rule pools_built_add_node [where edges = reserve_edges, OF assms(1) reserve_edges_net])
  then show "pools_built upi"
    by (simp add: u(2) pools_built_def node_pools_add_links)
  have "disjoint_ranges u"
    by (rule built_disjoint [OF built _ ov]) (use upf_entry(2) [OF inv] in \<open>simp add: u(2) node_pools_add_links\<close>)
  then show "disjoint_ranges upi"
    by (simp add: u(2) disjoint_ranges_def dynamic_set_def node_pools_add_links)
qed

section \<open>What an allocation changes\<close>

text \<open>\<open>r\<close> is the pool and the address that were taken, if any; \<open>D\<close> are the pools that are observed.\<close>

definition taken_from :: "(nat \<times> bytes) option \<Rightarrow> nat \<Rightarrow> int set" where
  "taken_from r p = (case r of None \<Rightarrow> {} | Some (q, addr) \<Rightarrow> if q = p then {addr_val addr} else {})"

definition pools_ok :: "nat set \<Rightarrow> UserPlaneInformation \<Rightarrow> bool" where
  "pools_ok D upi \<longleftrightarrow> (\<forall>p\<in>D. p < length (ue_pools upi) \<and> net_pool (ue_pools upi ! p))"

definition draws :: "nat set \<Rightarrow> UserPlaneInformation \<Rightarrow> (nat \<times> bytes) option \<Rightarrow> UserPlaneInformation \<Rightarrow> bool" where
  "draws D upi r upi' \<longleftrightarrow> (\<exists>pools. upi' = upi\<lparr>ue_pools := pools\<rparr> \<and> length pools = length (ue_pools upi)) \<and> pools_ok D upi' \<and>
     (\<forall>p\<in>D. same_net (ue_pools upi ! p) (ue_pools upi' ! p) \<and> taken_from r p \<subseteq> free_set (pool (ue_pools upi ! p)) \<and>
        free_set (pool (ue_pools upi' ! p)) = free_set (pool (ue_pools upi ! p)) - taken_from r p)"

lemma draws_none: "pools_ok D upi \<Longrightarrow> draws D upi None upi"
  by (auto simp: draws_def taken_from_def intro: exI [of _ "ue_pools upi"])

lemma draws_trans: "draws D upi None u \<Longrightarrow> draws D u r v \<Longrightarrow> draws D upi r v"
  by (auto simp: draws_def taken_from_def same_net_def)

lemma UeIP_Allocate_same_net: "UeIP_Allocate u request = Ok (r, u') \<Longrightarrow> same_net u u'"
  by (auto simp: UeIP_Allocate_def Allocate_def Use_def Let_def same_net_def go_simps
      split: option.splits if_splits list.splits)

lemma UeIP_Allocate_eq:
  "UeIP_Allocate u None = Ok (if snd (fst (Allocate (pool u))) then Some (uint32ToIP (word_of_int (fst (fst (Allocate (pool u)))))) else None,
     u\<lparr>pool := snd (Allocate (pool u))\<rparr>)"
  "UeIP_Allocate u (Some req) = obind (get32 (Slice req [])) (\<lambda>w.
     Ok (if fst (Use (pool u) (uint w)) then Some (uint32ToIP w) else None, u\<lparr>pool := snd (Use (pool u) (uint w))\<rparr>))"
  by (auto simp: UeIP_Allocate_def Let_def split_beta intro!: obind_cong)

lemma UeIP_Allocate_length: "UeIP_Allocate u request = Ok (Some addr, u') \<Longrightarrow> length addr = 4"
  by (cases request) (auto simp: UeIP_Allocate_eq go_simps split: if_splits)

lemma UeIP_Allocate_fails:
  assumes "ueip_inv u" and "UeIP_Allocate u request = Ok (None, u')"
  shows "u' = u"
proof (cases request)
  case None
  with assms(2) have "\<not> snd (fst (Allocate (pool u)))" "u' = u\<lparr>pool := snd (Allocate (pool u))\<rparr>"
    by (auto simp: UeIP_Allocate_eq split: if_splits)
  with Allocate_fails [of "pool u" "fst (fst (Allocate (pool u)))" "snd (Allocate (pool u))"] show ?thesis
    by (simp add: prod_eq_iff)
next
  case (Some req)
  with assms(2) obtain w :: u32 where "\<not> fst (Use (pool u) (uint w))" "u' = u\<lparr>pool := snd (Use (pool u) (uint w))\<rparr>"
    by (auto simp: UeIP_Allocate_eq go_simps split: if_splits)
  with Use_fails [of "pool u" "uint w" "snd (Use (pool u) (uint w))"] assms(1) show ?thesis
    by (simp add: ueip_inv_def prod_eq_iff)
qed

lemma pool_Allocate_draws:
  assumes "pools_ok D upi" and "pool_Allocate p request upi = Ok (x, upi')"
  shows "draws D upi (map_option (\<lambda>addr. (p, addr)) x) upi' \<and> (\<forall>addr. x = Some addr \<longrightarrow> length addr = 4)"
proof -
  let ?u = "ue_pools upi ! p"
  from assms(2) obtain u where u: "p < length (ue_pools upi)" "UeIP_Allocate ?u request = Ok (x, u)"
    and upi': "upi' = upi\<lparr>ue_pools := (ue_pools upi)[p := u]\<rparr>"
    by (auto simp: pool_Allocate_def split: if_splits outcome.splits prod.splits)
  note same = UeIP_Allocate_same_net [OF u(2)]
  have "net_pool u \<and> taken_from (map_option (\<lambda>addr. (p, addr)) x) p \<subseteq> free_set (pool ?u) \<and>
      free_set (pool u) = free_set (pool ?u) - taken_from (map_option (\<lambda>addr. (p, addr)) x) p" if "p \<in> D"
  proof -
    have net: "net_pool ?u" "ueip_inv ?u"
      using that assms(1) by (auto simp: pools_ok_def net_pool_def)
    show ?thesis
    proof (cases x)
      case None
      with UeIP_Allocate_fails [OF net(2), of request u] u(2) net show ?thesis by (simp add: taken_from_def)
    next
      case (Some addr)
      with UeIP_Allocate_grants [OF net(2)] u(2) have "grants ?u addr u" by simp
      with net_pool_same [OF net(1) same] Some show ?thesis by (simp add: grants_def taken_from_def)
    qed
  qed
  then have "draws D upi (map_option (\<lambda>addr. (p, addr)) x) upi'"
    using assms(1) same u(1)
    by (auto simp: draws_def pools_ok_def upi' nth_list_update taken_from_def split: option.splits)
  with UeIP_Allocate_length u(2) show ?thesis by blast
qed

lemma pool_loop_draws:
  "pools_ok D upi \<Longrightarrow> pool_loop request ps upi = Ok (x, upi') \<Longrightarrow>
   \<exists>q. draws D upi (map_option (\<lambda>addr. (q, addr)) x) upi' \<and> (\<forall>addr. x = Some addr \<longrightarrow> q \<in> set ps \<and> length addr = 4)"
proof (induction ps arbitrary: upi)
  case Nil
  then show ?case by (auto intro: draws_none)
next
  case (Cons p ps)
  from Cons.prems(2) obtain yu where "pool_Allocate p request upi = Ok yu"
    "(case fst yu of Some addr \<Rightarrow> Ok yu | None \<Rightarrow> pool_loop request ps (snd yu)) = Ok (x, upi')"
    by (auto simp: obind_eq_Ok)
  then obtain y u where a: "pool_Allocate p request upi = Ok (y, u)"
    and r: "(case y of Some addr \<Rightarrow> Ok (y, u) | None \<Rightarrow> pool_loop request ps u) = Ok (x, upi')"
    by (metis prod.collapse)
  note d = pool_Allocate_draws [OF Cons.prems(1) a]
  show ?case
  proof (cases y)
    case None
    with d have n: "draws D upi None u" by simp
    then have "pools_ok D u" by (simp add: draws_def)
    from Cons.IH [OF this] r None obtain q where "draws D u (map_option (\<lambda>addr. (q, addr)) x) upi'"
      "\<forall>addr. x = Some addr \<longrightarrow> q \<in> set ps \<and> length addr = 4" by auto
    with draws_trans [OF n] show ?thesis by auto
  next
    case (Some addr)
    with d r show ?thesis by auto
  qed
qed

lemma dnn_choice_pools: "set (fst (dnn_choice upi selection d)) \<subseteq> set (if snd (dnn_choice upi selection d) then StaticIPPools d else UeIPPools d)"
  by (auto simp: dnn_choice_def dest: find_Some_in split: option.splits)

lemma snssai_loop_pools:
  "snssai_loop upi selection infos = Ok r \<Longrightarrow> set (fst r) \<subseteq> infos_pools (snd r) infos"
proof (induction infos)
  case (Cons info infos)
  from Cons.prems obtain eq where e: "(case (if eq then List.find (dnn_matches selection) (DnnList info) else None) of
      Some d \<Rightarrow> Ok (dnn_choice upi selection d) | None \<Rightarrow> snssai_loop upi selection infos) = Ok r"
    by (auto simp: obind_eq_Ok)
  show ?case
  proof (cases "if eq then List.find (dnn_matches selection) (DnnList info) else None")
    case None
    with Cons.IH e show ?thesis by (auto simp: infos_pools_def)
  next
    case (Some d)
    then have "d \<in> set (DnnList info)" by (auto dest: find_Some_in split: if_splits)
    moreover have "r = dnn_choice upi selection d" using e Some by simp
    ultimately show ?thesis using dnn_choice_pools [of upi selection d] by (fastforce simp: infos_pools_def)
  qed
qed auto

lemma getUEIPPool_pools: "getUEIPPool a selection upi = Ok r \<Longrightarrow> set (fst r) \<subseteq> set (node_pools (snd r) upi a)"
  unfolding getUEIPPool_def upf_at_def obind_eq_Ok node_at_Ok deref_eq_Ok
  by (elim exE conjE) (drule snssai_loop_pools, simp add: node_pools_def set_upf_pools)

lemma createListForSelection_set: "createListForSelection intn l = Ok l' \<Longrightarrow> set l' = set l"
  by (auto simp: createListForSelection_def Let_def split: if_splits dest: in_set_takeD in_set_dropD)
    (metis UnE append_take_drop_id set_append)

text \<open>The anchor that is granted is one of the candidates and the address is from one of its pools.\<close>

definition granted :: "nat set \<Rightarrow> UserPlaneInformation \<Rightarrow> nat set \<Rightarrow> (nat \<times> bytes \<times> bool) option \<Rightarrow> UserPlaneInformation \<Rightarrow> bool" where
  "granted D upi A x upi' \<longleftrightarrow>
     (\<exists>q. draws D upi (map_option (\<lambda>s. (q, fst (snd s))) x) upi' \<and>
        (\<forall>a addr st. x = Some (a, addr, st) \<longrightarrow> a \<in> A \<and> q \<in> set (node_pools st upi a) \<and> length addr = 4))"

lemma granted_none: "draws D upi None u \<Longrightarrow> granted D u A x v \<Longrightarrow> granted D upi A x v"
proof -
  assume n: "draws D upi None u" and g: "granted D u A x v"
  then have "node_pools st u a = node_pools st upi a" for st a
    by (auto simp: draws_def node_pools_def)
  with g draws_trans [OF n] show ?thesis
    unfolding granted_def by auto
qed

lemma granted_mono: "granted D upi A x v \<Longrightarrow> A \<subseteq> B \<Longrightarrow> granted D upi B x v"
  unfolding granted_def by (elim exE, rule exI) auto

lemma upf_loop_granted:
  "pools_ok D upi \<Longrightarrow> upf_loop rnd selection i upfs upi = Ok (x, upi') \<Longrightarrow> granted D upi (set upfs) x upi'"
proof (induction upfs arbitrary: i upi)
  case Nil
  then show ?case by (auto simp: granted_def intro: draws_none)
next
  case (Cons a upfs)
  have next_upf: "granted D upi (set (a # upfs)) x upi'"
    if "upf_loop rnd selection (i + 1) upfs u = Ok (x, upi')" "draws D upi None u" for u
  proof -
    have "pools_ok D u"
      using that(2) by (simp add: draws_def)
    from granted_none [OF that(2) granted_mono [OF Cons.IH [OF this that(1)]]] show ?thesis
      by auto
  qed
  from Cons.prems(2) obtain f where f: "upf_at upi a = Ok f" by (auto simp: obind_eq_Ok)
  show ?case
  proof (cases "upf_associated f")
    case False
    with Cons.prems(2) f next_upf [OF _ draws_none [OF Cons.prems(1)]] show ?thesis by simp
  next
    case True
    with Cons.prems(2) f obtain pools where pools: "getUEIPPool a selection upi = Ok pools" by (auto simp: obind_eq_Ok)
    show ?thesis
    proof (cases "fst pools = []")
      case True
      with Cons.prems(2) f pools \<open>upf_associated f\<close> next_upf [OF _ draws_none [OF Cons.prems(1)]] show ?thesis by simp
    next
      case False
      with Cons.prems(2) f pools \<open>upf_associated f\<close> obtain sorted yu where
        sorted: "createListForSelection (rnd i) (fst pools) = Ok sorted"
        and yu: "pool_loop (sel_PDUAddress selection) sorted upi = Ok yu"
        and r: "(case fst yu of Some addr \<Rightarrow> Ok (Some (a, addr, snd pools), snd yu)
            | None \<Rightarrow> upf_loop rnd selection (i + 1) upfs (snd yu)) = Ok (x, upi')"
        by (auto simp: obind_eq_Ok)
      obtain y u where y: "yu = (y, u)" by (cases yu)
      from pool_loop_draws [OF Cons.prems(1) yu [unfolded y]] obtain q where
        q: "draws D upi (map_option (\<lambda>addr. (q, addr)) y) u" "\<forall>addr. y = Some addr \<longrightarrow> q \<in> set sorted \<and> length addr = 4" by blast
      show ?thesis
      proof (cases y)
        case None
        with q(1) r y next_upf show ?thesis by simp
      next
        case (Some addr)
        with q r y getUEIPPool_pools [OF pools] createListForSelection_set [OF sorted] show ?thesis
          unfolding granted_def by (intro exI [of _ q]) auto
      qed
    qed
  qed
qed

lemma anchors_registered:
  assumes "upi_inv upi" and "source \<in> nodes_of upi" and "selectAnchorUPF source selection upi = Ok l" and "a \<in> set l"
  shows "a \<in> snd ` set (UPFs upi)"
proof -
  have a: "anchor_for upi selection source a"
    using anchor_loop_sound [of upi selection "[source]" "[]" "[]" l source] assms(3,4) by (simp add: selectAnchorUPF_def)
  have "(match_hop upi selection)\<^sup>*\<^sup>* source a"
    using a by (simp add: anchor_for_def)
  then have "a \<in> nodes_of upi"
  proof (induction rule: rtranclp_induct)
    case base
    show ?case by (rule assms(2))
  next
    case (step b c)
    with assms(1) topology_okD(4) [of upi b c] show ?case
      by (auto simp: match_hop_def links_of_def upi_inv_def)
  qed
  then obtain name where "(name, a) \<in> set (UPNodes upi)"
    by (auto simp: nodes_of_def)
  with a assms(1) have "(name, a) \<in> set (UPFs upi)"
    by (simp add: anchor_for_def upi_inv_def tables_ok_def)
  then show ?thesis
    by force
qed

lemma sortUPFListByName_subset:
  assumes "sortUPFListByName env upi l = Ok l'"
  shows "set l' \<subseteq> set l"
proof -
  have "\<forall>ys\<in>set yss. set ys \<subseteq> set l" if "omapM (\<lambda>name. oselect (p name) l) xs = Ok yss" for p and xs :: "string list" and yss
    using that by (induction xs arbitrary: yss) (fastforce simp: go_simps dest: oselect_subset)+
  with assms show ?thesis
    by (fastforce simp: sortUPFListByName_def go_simps)
qed

lemma SelectUPFAndAllocUEIP_granted:
  assumes "upi_inv upi" and "pools_ok D upi" and "\<forall>l. set (rng l) = set l"
    and "SelectUPFAndAllocUEIP env rng rnd selection upi = Ok (x, upi')"
  shows "granted D upi (snd ` set (UPFs upi)) x upi'"
proof -
  have none: "granted D upi B None upi" for B
    using draws_none [OF assms(2)] by (simp add: granted_def)
  show ?thesis
  proof (cases "selectUPPathSource rng upi")
    case (Ok source)
    with assms(4) obtain l where l: "selectAnchorUPF source selection upi = Ok l"
      by (auto simp: SelectUPFAndAllocUEIP_def obind_eq_Ok)
    show ?thesis
    proof (cases "l = []")
      case True
      with assms(4) Ok l none show ?thesis by (auto simp: SelectUPFAndAllocUEIP_def go_simps)
    next
      case False
      with assms(4) Ok l obtain l' sorted where l': "sortUPFListByName env upi l = Ok l'"
        "createListForSelection (rnd 0) l' = Ok sorted" "upf_loop rnd selection 1 sorted upi = Ok (x, upi')"
        by (auto simp: SelectUPFAndAllocUEIP_def go_simps split: if_splits)
      have "set sorted \<subseteq> snd ` set (UPFs upi)"
        using createListForSelection_set [OF l'(2)] sortUPFListByName_subset [OF l'(1)]
          anchors_registered [OF assms(1) _ l] selectUPPathSource_registered [OF assms(1,3) Ok] by blast
      with upf_loop_granted [OF assms(2) l'(3)] granted_mono show ?thesis by blast
    qed
  qed (use assms(4) none in \<open>auto simp: SelectUPFAndAllocUEIP_def\<close>)
qed

section \<open>Histories of sessions\<close>

text \<open>
  The PFCP association of a UPF comes and goes, sessions are granted an anchor and an address or are refused,
  and a session gives its address back. A session is its anchor, its address and whether the address is a static one.
\<close>

definition set_associated :: "nat \<Rightarrow> bool \<Rightarrow> UserPlaneInformation \<Rightarrow> UserPlaneInformation" where
  "set_associated a up upi =
     upi\<lparr>upi_store := (upi_store upi)[a := (upi_store upi ! a)
       \<lparr>un_UPF := map_option (\<lambda>f. f\<lparr>upf_associated := up\<rparr>) (un_UPF (upi_store upi ! a))\<rparr>]\<rparr>"

inductive ue_history ::
    "up_env \<Rightarrow> UserPlaneInformation \<Rightarrow> UserPlaneInformation \<Rightarrow> (nat \<times> bytes \<times> bool) list \<Rightarrow> bool" for env upi0 where
  start: "ue_history env upi0 upi0 []"
| associate: "ue_history env upi0 upi held \<Longrightarrow> ue_history env upi0 (set_associated a up upi) held"
| grant: "ue_history env upi0 upi held \<Longrightarrow> \<forall>l. set (rng l) = set l \<Longrightarrow>
    SelectUPFAndAllocUEIP env rng rnd selection upi = Ok (Some s, upi') \<Longrightarrow> ue_history env upi0 upi' (s # held)"
| refuse: "ue_history env upi0 upi held \<Longrightarrow> \<forall>l. set (rng l) = set l \<Longrightarrow>
    SelectUPFAndAllocUEIP env rng rnd selection upi = Ok (None, upi') \<Longrightarrow> ue_history env upi0 upi' held"
| release: "ue_history env upi0 upi held \<Longrightarrow> (a, addr, st) \<in> set held \<Longrightarrow>
    ReleaseUEIP a addr st upi = Ok upi' \<Longrightarrow> ue_history env upi0 upi' (remove1 (a, addr, st) held)"

definition dynamic_addrs :: "(nat \<times> bytes \<times> bool) list \<Rightarrow> bytes list" where
  "dynamic_addrs held = map (fst \<circ> snd) (filter (\<lambda>s. \<not> snd (snd s)) held)"

definition books :: "UserPlaneInformation \<Rightarrow> UserPlaneInformation \<Rightarrow> (nat \<times> bytes \<times> bool) list \<Rightarrow> bool" where
  "books upi0 upi held \<longleftrightarrow>
     upi_inv upi \<and> pools_ok (dynamic_set upi0) upi \<and> UPFs upi = UPFs upi0 \<and>
     length (ue_pools upi) = length (ue_pools upi0) \<and> (\<forall>st a. node_pools st upi a = node_pools st upi0 a) \<and>
     (\<forall>p\<in>dynamic_set upi0. same_net (ue_pools upi0 ! p) (ue_pools upi ! p) \<and>
        free_set (pool (ue_pools upi ! p)) = free_set (pool (ue_pools upi0 ! p)) - addr_val ` set (dynamic_addrs held)) \<and>
     (\<forall>(a, addr, st)\<in>set held. a \<in> snd ` set (UPFs upi0) \<and> length addr = 4 \<and>
        (st \<or> (\<exists>p\<in>set (node_pools False upi0 a). addr_val addr \<in> free_set (pool (ue_pools upi0 ! p))))) \<and>
     distinct (dynamic_addrs held)"

lemma booksD:
  assumes "books upi0 upi held"
  shows "pools_ok (dynamic_set upi0) upi" "distinct (dynamic_addrs held)"
    and "p \<in> dynamic_set upi0 \<Longrightarrow>
      free_set (pool (ue_pools upi ! p)) = free_set (pool (ue_pools upi0 ! p)) - addr_val ` set (dynamic_addrs held)"
    and "(a, addr, st) \<in> set held \<Longrightarrow> length addr = 4"
    and "(a, addr, False) \<in> set held \<Longrightarrow> \<exists>p\<in>set (node_pools False upi0 a). addr_val addr \<in> free_set (pool (ue_pools upi0 ! p))"
  using assms by (auto simp: books_def)

lemma addr_val_inj: "length a = 4 \<Longrightarrow> length b = 4 \<Longrightarrow> addr_val a = addr_val b \<longleftrightarrow> a = b"
  by (elim length4E) (simp add: addr_val_def get32_def word_uint_eq_iff [symmetric] be32_inj)

lemma dynamic_addrs_Cons [simp]: "dynamic_addrs ((a, addr, st) # held) = (if st then dynamic_addrs held else addr # dynamic_addrs held)"
  by (simp add: dynamic_addrs_def)

lemma dynamic_addrs_remove1:
  "(a, addr, st) \<in> set held \<Longrightarrow> distinct (dynamic_addrs held) \<Longrightarrow>
   set (dynamic_addrs (remove1 (a, addr, st) held)) = set (dynamic_addrs held) - (if st then {} else {addr}) \<and>
   distinct (dynamic_addrs (remove1 (a, addr, st) held))"
proof (induction held)
  case (Cons s held)
  obtain b addr' st' where "s = (b, addr', st')" by (cases s)
  moreover have "addr \<in> set (dynamic_addrs held)" if "(a, addr, False) \<in> set held"
    using that by (force simp: dynamic_addrs_def)
  ultimately show ?case
    using Cons by (cases "s = (a, addr, st)"; cases st; cases st') auto
qed simp

lemma in_dynamic_addrs: "addr \<in> set (dynamic_addrs held) \<longleftrightarrow> (\<exists>a. (a, addr, False) \<in> set held)"
  by (force simp: dynamic_addrs_def)

lemma held_addr_length: "books upi0 upi held \<Longrightarrow> addr \<in> set (dynamic_addrs held) \<Longrightarrow> length addr = 4"
  by (fastforce simp: in_dynamic_addrs books_def)

lemma set_associated_node:
  "Links (upi_store (set_associated a up upi) ! b) = Links (upi_store upi ! b)"
  "un_Type (upi_store (set_associated a up upi) ! b) = un_Type (upi_store upi ! b)"
  "un_UPF (upi_store (set_associated a up upi) ! b) = None \<longleftrightarrow> un_UPF (upi_store upi ! b) = None"
  "node_pools st (set_associated a up upi) b = node_pools st upi b"
  by (cases "b = a"; cases "a < length (upi_store upi)";
      simp add: set_associated_def node_pools_def upf_pools_def list_update_beyond split: option.splits)+

lemma set_associated_inv: "upi_inv upi \<Longrightarrow> upi_inv (set_associated a up upi)"
proof -
  assume inv: "upi_inv upi"
  let ?u = "set_associated a up upi"
  have same: "nodes_of ?u = nodes_of upi" "links_of ?u = links_of upi" "node_type ?u = node_type upi"
    "length (upi_store ?u) = length (upi_store upi)"
    by (simp_all add: nodes_of_def links_of_def node_type_def fun_eq_iff set_associated_node) (simp_all add: set_associated_def)
  have tables: "UPNodes ?u = UPNodes upi" "UPFs ?u = UPFs upi" "AccessNetwork ?u = AccessNetwork upi"
    "DefaultUserPlanePathToUPF ?u = DefaultUserPlanePathToUPF upi"
    by (simp_all add: set_associated_def)
  have "topology_ok ?u = topology_ok upi" "tables_ok ?u = tables_ok upi" "cache_ok ?u = cache_ok upi"
    unfolding topology_ok_def tables_ok_def cache_ok_def chain_def same tables set_associated_node by simp_all
  with inv show ?thesis
    by (simp add: upi_inv_def)
qed

lemma books_associate: "books upi0 upi held \<Longrightarrow> books upi0 (set_associated a up upi) held"
proof -
  have "UPFs (set_associated a up upi) = UPFs upi" "ue_pools (set_associated a up upi) = ue_pools upi"
    by (simp_all add: set_associated_def)
  moreover assume "books upi0 upi held"
  ultimately show ?thesis
    using set_associated_inv [of upi a up] unfolding books_def pools_ok_def set_associated_node by (simp, metis)
qed

text \<open>The state after an allocation agrees with the one before in all but the pools.\<close>

lemma draws_inv: "draws D upi r upi' \<Longrightarrow> upi_inv upi \<Longrightarrow> upi_inv upi'"
  by (auto simp: draws_def intro: inv_same_topology)

lemma draws_fields:
  "draws D upi r upi' \<Longrightarrow> UPFs upi' = UPFs upi \<and> length (ue_pools upi') = length (ue_pools upi) \<and> node_pools st upi' a = node_pools st upi a"
  by (auto simp: draws_def node_pools_def)

lemma books_refuse:
  assumes "books upi0 upi held" and "draws (dynamic_set upi0) upi None upi'"
  shows "books upi0 upi' held"
proof -
  have "same_net (ue_pools upi0 ! p) (ue_pools upi' ! p) \<and> free_set (pool (ue_pools upi' ! p)) = free_set (pool (ue_pools upi ! p))"
    if "p \<in> dynamic_set upi0" for p
    using assms that by (auto simp: books_def draws_def taken_from_def intro: same_net_trans)
  with assms draws_inv [OF assms(2)] draws_fields [OF assms(2)] show ?thesis
    unfolding books_def by (simp add: draws_def)
qed

definition configured :: "UserPlaneInformation \<Rightarrow> bool" where
  "configured upi0 \<longleftrightarrow> upi_inv upi0 \<and> pools_built upi0 \<and> disjoint_ranges upi0"

lemma configuredD: "configured upi0 \<Longrightarrow> upi_inv upi0" "configured upi0 \<Longrightarrow> pools_built upi0" "configured upi0 \<Longrightarrow> disjoint_ranges upi0"
  by (simp_all add: configured_def)

lemma node_pools_dynamic: "a \<in> snd ` set (UPFs upi0) \<Longrightarrow> set (node_pools False upi0 a) \<subseteq> dynamic_set upi0"
  by (auto simp: dynamic_set_def)

lemma node_pools_static: "configured upi0 \<Longrightarrow> a \<in> snd ` set (UPFs upi0) \<Longrightarrow> q \<in> set (node_pools True upi0 a) \<Longrightarrow> q \<notin> dynamic_set upi0"
  using upf_entry(2) [of upi0] unfolding configured_def dynamic_set_def pools_built_def by blast

lemma node_pools_range: "configured upi0 \<Longrightarrow> a \<in> snd ` set (UPFs upi0) \<Longrightarrow> q \<in> set (node_pools st upi0 a) \<Longrightarrow> q < length (ue_pools upi0)"
  using upf_entry(2) [of upi0] unfolding configured_def pools_built_def by blast

lemma dynamic_ok: "configured upi0 \<Longrightarrow> pools_ok (dynamic_set upi0) upi0"
  using configuredD(2) node_pools_range by (fastforce simp: pools_ok_def pools_built_def dynamic_set_def)

lemma books_start: "configured upi0 \<Longrightarrow> books upi0 upi0 []"
  using configuredD(1) dynamic_ok by (simp add: books_def dynamic_addrs_def)

text \<open>An address lies in the range of one dynamic pool only.\<close>

lemma pool_unique:
  assumes conf: "configured upi0" and "books upi0 upi held" and "p \<in> dynamic_set upi0" "q \<in> dynamic_set upi0" and "length addr = 4"
    and "pool_contains upi addr p" "pool_contains upi addr q"
  shows "p = q"
proof (rule ccontr)
  assume "p \<noteq> q"
  moreover have "addr_val addr \<in> {pool_first (pool (ue_pools upi0 ! r)) .. pool_last (pool (ue_pools upi0 ! r))}"
    if "r \<in> {p, q}" for r
    using that assms by (auto simp: books_def pools_ok_def pool_contains_def net_pool_def same_net_def)
  ultimately show False
    using configuredD(3) [OF conf] assms(3,4) unfolding disjoint_ranges_def by blast
qed

lemma free_contained:
  assumes conf: "configured upi0" and "books upi0 upi held" and "p \<in> dynamic_set upi0" and "length addr = 4"
    and "addr_val addr \<in> free_set (pool (ue_pools upi0 ! p))"
  shows "pool_contains upi addr p"
  using assms dynamic_ok [OF conf] free_set_range [of "pool (ue_pools upi0 ! p)" "addr_val addr"]
  by (auto simp: books_def pools_ok_def pool_contains_def net_pool_def same_net_def ueip_inv_def)

lemma books_grant:
  assumes conf: "configured upi0" and "books upi0 upi held" and "granted (dynamic_set upi0) upi (snd ` set (UPFs upi)) (Some (a, addr, st)) upi'"
  shows "books upi0 upi' ((a, addr, st) # held)"
proof -
  from assms(3) obtain q where d: "draws (dynamic_set upi0) upi (Some (q, addr)) upi'"
    and a: "a \<in> snd ` set (UPFs upi0)" "q \<in> set (node_pools st upi0 a)" "length addr = 4"
    using assms(2) by (auto simp: granted_def books_def)
  show ?thesis
  proof (cases st)
    case True
    with node_pools_static [OF conf] a have "q \<notin> dynamic_set upi0" by simp
    then have "taken_from (Some (q, addr)) p = taken_from None p" if "p \<in> dynamic_set upi0" for p
      using that by (auto simp: taken_from_def)
    with d have "draws (dynamic_set upi0) upi None upi'"
      by (simp add: draws_def)
    from books_refuse [OF assms(2) this] True a show ?thesis
      by (simp add: books_def)
  next
    case False
    then have q: "q \<in> dynamic_set upi0"
      using node_pools_dynamic a by auto
    with d have free: "addr_val addr \<in> free_set (pool (ue_pools upi ! q))"
      by (force simp: draws_def taken_from_def)
    then have free0: "addr_val addr \<in> free_set (pool (ue_pools upi0 ! q))" and new: "addr_val addr \<notin> addr_val ` set (dynamic_addrs held)"
      using assms(2) q by (auto simp: books_def)
    have other: "addr_val addr \<notin> free_set (pool (ue_pools upi0 ! p))" if "p \<in> dynamic_set upi0" "p \<noteq> q" for p
      using pool_unique [OF conf assms(2) that(1) q a(3)] free_contained [OF conf assms(2) _ a(3)] that q free0 by blast
    have "same_net (ue_pools upi0 ! p) (ue_pools upi' ! p) \<and> free_set (pool (ue_pools upi' ! p)) =
        free_set (pool (ue_pools upi0 ! p)) - addr_val ` set (dynamic_addrs ((a, addr, st) # held))" if "p \<in> dynamic_set upi0" for p
    proof
      show "same_net (ue_pools upi0 ! p) (ue_pools upi' ! p)"
        using assms(2) d that by (auto simp: books_def draws_def intro: same_net_trans)
      have "free_set (pool (ue_pools upi' ! p)) =
          free_set (pool (ue_pools upi0 ! p)) - addr_val ` set (dynamic_addrs held) - taken_from (Some (q, addr)) p"
        using assms(2) d that by (simp add: books_def draws_def)
      then show "free_set (pool (ue_pools upi' ! p)) =
          free_set (pool (ue_pools upi0 ! p)) - addr_val ` set (dynamic_addrs ((a, addr, st) # held))"
        using other [OF that] False by (cases "p = q") (auto simp: taken_from_def)
    qed
    moreover have "distinct (dynamic_addrs ((a, addr, st) # held))"
      using assms(2) new False by (auto simp: books_def)
    ultimately show ?thesis
      using assms(2) d draws_inv [OF d] draws_fields [OF d] a free0 False unfolding books_def draws_def
      by simp blast
  qed
qed

lemma upf_at_registered:
  "books upi0 upi held \<Longrightarrow> a \<in> snd ` set (UPFs upi0) \<Longrightarrow> \<exists>f. upf_at upi a = Ok f \<and> upf_pools st f = node_pools st upi0 a"
proof -
  assume b: "books upi0 upi held" and "a \<in> snd ` set (UPFs upi0)"
  then obtain x where "x \<in> set (UPFs upi)" "a = snd x" by (auto simp: books_def)
  with upf_entry [of upi x] b obtain f where "a < length (upi_store upi)" "un_UPF (upi_store upi ! a) = Some f"
    by (auto simp: books_def)
  moreover from this have "upf_pools st f = node_pools st upi a"
    by (simp add: node_pools_def)
  moreover have "node_pools st upi a = node_pools st upi0 a"
    using b by (simp add: books_def)
  ultimately show ?thesis
    by (simp add: upf_at_def node_at_def)
qed

lemma UeIP_Release_total:
  assumes "length addr = 4"
  shows "\<exists>u'. UeIP_Release u addr = Ok u'"
proof -
  obtain w where "get32 (Slice addr []) = (Ok w :: (ueip_error, u32) outcome)"
    using get32_4 [OF assms] by blast
  then show ?thesis
    by (simp add: UeIP_Release_def split_beta)
qed

lemma ReleaseUEIP_eq:
  assumes "configured upi0" and "books upi0 upi held" and "(a, addr, st) \<in> set held"
  shows "case List.find (pool_contains upi addr) (node_pools st upi0 a) of
      None \<Rightarrow> ReleaseUEIP a addr st upi = Ok upi
    | Some p \<Rightarrow> p < length (ue_pools upi) \<and> p \<in> set (node_pools st upi0 a) \<and>
        (\<exists>u. UeIP_Release (ue_pools upi ! p) addr = Ok u \<and>
           ReleaseUEIP a addr st upi = Ok (upi\<lparr>ue_pools := (ue_pools upi)[p := u]\<rparr>))"
proof -
  have a: "a \<in> snd ` set (UPFs upi0)" "length addr = 4"
    using assms(2,3) by (auto simp: books_def)
  obtain f where f: "upf_at upi a = Ok f" "upf_pools st f = node_pools st upi0 a"
    using upf_at_registered [OF assms(2) a(1)] by blast
  show ?thesis
  proof (cases "List.find (pool_contains upi addr) (node_pools st upi0 a)")
    case None
    with f show ?thesis by (simp add: ReleaseUEIP_def findPoolByAddr_def)
  next
    case (Some p)
    then have "p \<in> set (node_pools st upi0 a)" by (simp add: find_Some_in)
    moreover from this have "p < length (ue_pools upi)"
      using node_pools_range [OF assms(1) a(1)] assms(2) by (simp add: books_def)
    ultimately show ?thesis
      using Some f UeIP_Release_total [OF a(2), of "ue_pools upi ! p"] by (auto simp: ReleaseUEIP_def findPoolByAddr_def)
  qed
qed

text \<open>Giving a dynamic address back frees it in the pool it came from.\<close>

lemma UeIP_Release_taken:
  assumes "net_pool u" and "length addr = 4" and "IPNet_Contains (ueSubNet u) addr" and "addr_val addr \<notin> free_set (pool u)"
    and "UeIP_Release u addr = Ok v"
  shows "net_pool v \<and> same_net u v \<and> free_set (pool v) = insert (addr_val addr) (free_set (pool u))"
proof -
  obtain w where w: "get32 (Slice addr []) = (Ok w :: (ueip_error, u32) outcome)"
    using get32_4 [OF assms(2)] by blast
  obtain ok p where fr: "Free (pool u) (uint w) = (ok, p)" by fastforce
  with assms(5) w have v: "v = u\<lparr>pool := p\<rparr>" by (simp add: UeIP_Release_def)
  have "pool_inv (pool u)" "pool_first (pool u) \<le> uint w" "uint w \<le> pool_last (pool u)" "uint w \<notin> free_set (pool u)"
    using assms addr_val_word [OF w] by (auto simp: net_pool_def ueip_inv_def)
  from Free_taken [OF this fr] assms(1) addr_val_word [OF w] show ?thesis
    by (auto simp: v net_pool_def ueip_inv_def same_net_def)
qed

lemma books_frame:
  assumes "books upi0 upi held" and "upi' = upi\<lparr>ue_pools := pools\<rparr>" "length pools = length (ue_pools upi)"
    and "\<forall>p\<in>dynamic_set upi0. net_pool (pools ! p) \<and> same_net (ue_pools upi ! p) (pools ! p) \<and>
      free_set (pool (pools ! p)) = free_set (pool (ue_pools upi0 ! p)) - addr_val ` set (dynamic_addrs held')"
    and "set held' \<subseteq> set held" "distinct (dynamic_addrs held')"
  shows "books upi0 upi' held'"
proof -
  have "upi_inv upi'"
    using assms(1,2) by (auto simp: books_def intro: inv_same_topology)
  moreover have "node_pools st upi' a = node_pools st upi a" for st a
    by (simp add: assms(2) node_pools_def)
  moreover have "same_net (ue_pools upi0 ! p) (pools ! p)" if "p \<in> dynamic_set upi0" for p
    using assms(1,4) that by (auto simp: books_def intro: same_net_trans)
  moreover have "pools_ok (dynamic_set upi0) upi'"
    using booksD(1) [OF assms(1)] assms(4) by (auto simp: pools_ok_def assms(2,3))
  moreover have "\<forall>(a, addr, st)\<in>set held'. a \<in> snd ` set (UPFs upi0) \<and> length addr = 4 \<and>
      (st \<or> (\<exists>p\<in>set (node_pools False upi0 a). addr_val addr \<in> free_set (pool (ue_pools upi0 ! p))))"
    using assms(1,5) unfolding books_def by (elim conjE, intro ballI) (erule (1) bspec [OF _ subsetD])
  ultimately show ?thesis
    using assms(1,4,6) unfolding books_def by (simp add: assms(2,3))
qed

lemma books_release:
  assumes "configured upi0" and "books upi0 upi held" and "(a, addr, st) \<in> set held" and "ReleaseUEIP a addr st upi = Ok upi'"
  shows "books upi0 upi' (remove1 (a, addr, st) held)"
proof -
  let ?held = "remove1 (a, addr, st) held" and ?find = "List.find (pool_contains upi addr) (node_pools st upi0 a)"
  have a: "a \<in> snd ` set (UPFs upi0)" "length addr = 4"
    and d: "\<not> st \<Longrightarrow> \<exists>p\<in>set (node_pools False upi0 a). addr_val addr \<in> free_set (pool (ue_pools upi0 ! p))"
    using assms(2,3) by (auto simp: books_def)
  have sub: "set ?held \<subseteq> set held" by (rule set_remove1_subset)
  have left: "set (dynamic_addrs ?held) = set (dynamic_addrs held) - (if st then {} else {addr})" "distinct (dynamic_addrs ?held)"
    using dynamic_addrs_remove1 [OF assms(3)] assms(2) by (auto simp: books_def)
  note eq = ReleaseUEIP_eq [OF assms(1-3)]
  have B: "net_pool (ue_pools upi ! q)" "free_set (pool (ue_pools upi ! q)) = free_set (pool (ue_pools upi0 ! q)) - addr_val ` set (dynamic_addrs held)"
    if "q \<in> dynamic_set upi0" for q
    using assms(2) that by (simp_all add: books_def pools_ok_def)
  show ?thesis
  proof (cases ?find)
    case None
    have st: st
    proof (rule ccontr)
      assume n: "\<not> st"
      with d obtain p where p: "p \<in> set (node_pools False upi0 a)" "addr_val addr \<in> free_set (pool (ue_pools upi0 ! p))" by blast
      moreover have "p \<in> dynamic_set upi0" using node_pools_dynamic [OF a(1)] p(1) by blast
      ultimately have "pool_contains upi addr p" using free_contained [OF assms(1,2) _ a(2)] by blast
      with None n p(1) show False by (auto simp: find_None_iff)
    qed
    with None eq assms(4) have "upi' = upi\<lparr>ue_pools := ue_pools upi\<rparr>" by simp
    from books_frame [OF assms(2) this _ _ sub left(2)] B st left(1) show ?thesis by auto
  next
    case (Some p)
    with eq assms(4) obtain u where p: "p < length (ue_pools upi)" "p \<in> set (node_pools st upi0 a)"
      and u: "UeIP_Release (ue_pools upi ! p) addr = Ok u" and upi': "upi' = upi\<lparr>ue_pools := (ue_pools upi)[p := u]\<rparr>"
      by auto
    show ?thesis
    proof (cases st)
      case True
      with p(2) have "p \<notin> dynamic_set upi0" using node_pools_static [OF assms(1) a(1)] by simp
      then have "(ue_pools upi)[p := u] ! q = ue_pools upi ! q" if "q \<in> dynamic_set upi0" for q
        using that by (metis nth_list_update_neq)
      with books_frame [OF assms(2) upi' _ _ sub left(2)] B True left(1) show ?thesis by auto
    next
      case False
      have pD: "p \<in> dynamic_set upi0" using node_pools_dynamic [OF a(1)] p(2) False by auto
      have c: "pool_contains upi addr p" using Some by (simp add: find_Some_in)
      obtain p0 where p0: "p0 \<in> dynamic_set upi0" "addr_val addr \<in> free_set (pool (ue_pools upi0 ! p0))"
        using d False node_pools_dynamic [OF a(1)] by blast
      have "p0 = p"
        using pool_unique [OF assms(1,2) p0(1) pD a(2) free_contained [OF assms(1,2) p0(1) a(2) p0(2)] c] .
      have held: "addr \<in> set (dynamic_addrs held)" using assms(3) False by (auto simp: in_dynamic_addrs)
      then have rel: "net_pool u \<and> same_net (ue_pools upi ! p) u \<and>
          free_set (pool u) = insert (addr_val addr) (free_set (pool (ue_pools upi ! p)))"
        using UeIP_Release_taken [OF B(1) [OF pD] a(2) c [unfolded pool_contains_def] _ u] B(2) [OF pD] by blast
      have img: "addr_val ` set (dynamic_addrs ?held) = addr_val ` set (dynamic_addrs held) - {addr_val addr}"
        using left(1) False held_addr_length [OF assms(2)] addr_val_inj [OF _ a(2)] by auto
      have "addr_val addr \<notin> free_set (pool (ue_pools upi0 ! q))" if "q \<in> dynamic_set upi0" "q \<noteq> p" for q
        using pool_unique [OF assms(1,2) that(1) pD a(2) free_contained [OF assms(1,2) that(1) a(2)] c] that(2) by blast
      then have "\<forall>q\<in>dynamic_set upi0. net_pool ((ue_pools upi)[p := u] ! q) \<and> same_net (ue_pools upi ! q) ((ue_pools upi)[p := u] ! q) \<and>
          free_set (pool ((ue_pools upi)[p := u] ! q)) = free_set (pool (ue_pools upi0 ! q)) - addr_val ` set (dynamic_addrs ?held)"
        using rel B p(1) p0(2) \<open>p0 = p\<close> unfolding img by (auto simp: nth_list_update)
      from books_frame [OF assms(2) upi' _ this sub left(2)] show ?thesis by simp
    qed
  qed
qed

lemma history_books:
  assumes "ue_history env upi0 upi held" and conf: "configured upi0"
  shows "books upi0 upi held"
  using assms(1)
proof (induction rule: ue_history.induct)
  case start
  show ?case by (rule books_start [OF conf])
next
  case (associate upi held a up)
  then show ?case by (simp add: books_associate)
next
  case (grant upi held rng rnd selection s upi')
  have "granted (dynamic_set upi0) upi (snd ` set (UPFs upi)) (Some s) upi'"
    by (rule SelectUPFAndAllocUEIP_granted [OF _ _ grant(2,3)]) (use grant(4) in \<open>simp_all add: books_def\<close>)
  with books_grant [OF conf grant(4)] show ?case by (cases s) auto
next
  case (refuse upi held rng rnd selection upi')
  have "granted (dynamic_set upi0) upi (snd ` set (UPFs upi)) None upi'"
    by (rule SelectUPFAndAllocUEIP_granted [OF _ _ refuse(2,3)]) (use refuse(4) in \<open>simp_all add: books_def\<close>)
  then show ?case by (auto simp: granted_def intro: books_refuse [OF refuse(4)])
next
  case (release upi held a addr st upi')
  show ?case by (rule books_release [OF conf release(4,2,3)])
qed

section \<open>Properties\<close>

text \<open>
  C4. The addresses of a whole history of sessions. However sessions are granted, refused and released over the pools
  of an accepted IPv4 configuration, while UPFs come and go: no two sessions hold the same dynamic address, the free
  addresses of every dynamic pool are exactly those it started with less the addresses that sessions hold (none is
  lost and none is handed out twice), a session's address belongs to a pool of its own anchor, and every release succeeds.
\<close>

theorem ue_addresses_accounted_for:
  assumes "v4_prefixes env" and "distinct (map fst nodes)" and "NewUserPlaneInformation env nodes links = Ok upi0"
    and "ue_history env upi0 upi held"
  shows "distinct (dynamic_addrs held) \<and>
    (\<forall>p\<in>dynamic_set upi0. free_set (pool (ue_pools upi ! p)) =
       free_set (pool (ue_pools upi0 ! p)) - addr_val ` set (dynamic_addrs held)) \<and>
    (\<forall>a addr. (a, addr, False) \<in> set held \<longrightarrow>
       (\<exists>p\<in>set (node_pools False upi0 a). addr_val addr \<in> free_set (pool (ue_pools upi0 ! p)))) \<and>
    (\<forall>(a, addr, st)\<in>set held. length addr = 4 \<and> (\<exists>upi'. ReleaseUEIP a addr st upi = Ok upi'))"
proof -
  have conf: "configured upi0"
    using new_topology [OF assms(1-3)] by (simp add: configured_def)
  note b = history_books [OF assms(4) conf]
  have "\<exists>upi'. ReleaseUEIP a addr st upi = Ok upi'" if "(a, addr, st) \<in> set held" for a addr st
    using ReleaseUEIP_eq [OF conf b that] by (auto split: option.splits)
  with booksD(2-5) [OF b] show ?thesis
    by auto
qed

definition pool_up :: UserPlaneInformation where
  "pool_up = set_associated 2 True pool_built"

text \<open>A session takes one of the two addresses between the reserved edges, another the other; the first is released.\<close>

theorem ue_addresses_accounted_for_witness:
  "\<exists>upi. ue_history pool_env pool_built upi [(2, [10, 60, 0, 2], False)] \<and>
     free_set (pool (ue_pools upi ! 0)) = free_set (pool (ue_pools pool_built ! 0)) - {171704322}"
proof -
  have pre: "v4_prefixes pool_env" "distinct (map fst pool_nodes)"
  proof -
    have "CIDRMask 30 32 = [255, 255, 255, 252]" by code_simp
    then show "v4_prefixes pool_env"
      by (auto simp: v4_prefixes_def pool_env_def intro!: exI [of _ 30])
  qed code_simp
  let ?select = "SelectUPFAndAllocUEIP pool_env (\<lambda>l. l) (\<lambda>i n. 0) demo_selection"
  have run: "case ?select pool_up of Ok (s, u) \<Rightarrow> s = Some (2, [10, 60, 0, 1], False) \<and>
      (case ?select u of Ok (s', u') \<Rightarrow> s' = Some (2, [10, 60, 0, 2], False) \<and>
         (case ReleaseUEIP 2 [10, 60, 0, 1] False u' of Ok u'' \<Rightarrow> True | _ \<Rightarrow> False) | _ \<Rightarrow> False) | _ \<Rightarrow> False"
    by code_simp
  have ok: "(case m of Ok (s, u) \<Rightarrow> P s u | _ \<Rightarrow> False) \<longleftrightarrow> (\<exists>s u. m = Ok (s, u) \<and> P s u)" for m :: "('s \<times> 'u) upi" and P
    by (auto split: outcome.splits)
  from run obtain u u' where u: "?select pool_up = Ok (Some (2, [10, 60, 0, 1], False), u)"
    and u': "?select u = Ok (Some (2, [10, 60, 0, 2], False), u')"
    and r: "case ReleaseUEIP 2 [10, 60, 0, 1] False u' of Ok u'' \<Rightarrow> True | _ \<Rightarrow> False"
    unfolding ok by blast
  from r obtain u'' where u'': "ReleaseUEIP 2 [10, 60, 0, 1] False u' = Ok u''"
    by (cases "ReleaseUEIP 2 [10, 60, 0, 1] False u'") simp_all
  have rng: "\<forall>l. set ((\<lambda>l. l) l) = set l" by simp
  have "ue_history pool_env pool_built pool_up []"
    unfolding pool_up_def by (intro ue_history.associate ue_history.start)
  from ue_history.grant [OF ue_history.grant [OF this rng u] rng u']
  have h: "ue_history pool_env pool_built u' [(2, [10, 60, 0, 2], False), (2, [10, 60, 0, 1], False)]" .
  have h': "ue_history pool_env pool_built u'' [(2, [10, 60, 0, 2], False)]"
    using ue_history.release [OF h _ u''] by simp
  have "0 \<in> dynamic_set pool_built" "addr_val [10, 60, 0, 2] = 171704322"
    by code_simp+
  with h' ue_addresses_accounted_for [OF pre pool_built_new h'] show ?thesis
    by (auto simp: dynamic_addrs_def)
qed

end
