(* ===== verification/Smf_DataPath.thy ===== *)
theory Smf_DataPath
  imports Smf_UeSelection_Props "HOL-Library.Sublist"
begin

text \<open>
  Data paths of sessions (\<^verbatim>\<open>NFs/smf/internal/context/datapath.go\<close> and \<^verbatim>\<open>GenerateDataPath\<close> of
  \<^verbatim>\<open>user_plane_information.go\<close>): doubly linked lists of nodes, whose links are the source ends of the tunnels. A
  \<open>*DataPathNode\<close> is an address in a heap, a \<open>*UPF\<close> the address of its node in the topology. A walk along a list
  that is cyclic does not end: the result of a function with such a walk is an \<open>option\<close>, and \<open>None\<close> is not to return.
  The branching point of several paths is found as in \<^verbatim>\<open>bp_manager.go\<close>.
\<close>

section \<open>Nodes\<close>

record GTPTunnel =
  SrcEndPoint :: "nat option"
  DestEndPoint :: "nat option"
  gt_TEID :: u32
  gt_PDR :: "nat option"

record DataPathNode =
  dn_UPF :: "nat option"
  UpLinkTunnel :: "GTPTunnel option"
  DownLinkTunnel :: "GTPTunnel option"
  IsBranchingPoint :: bool

record Destination =
  DestinationIP :: string
  DestinationPort :: string
  dest_Url :: string

record DataPath =
  PathID :: int
  Activated :: bool
  IsDefaultPath :: bool
  GBRFlow :: bool
  dp_Destination :: Destination
  HasBranchingPoint :: bool
  FirstDPNode :: "nat option"

type_synonym dp_heap = "DataPathNode list"

definition no_tunnel :: GTPTunnel where
  "no_tunnel = \<lparr>SrcEndPoint = None, DestEndPoint = None, gt_TEID = 0, gt_PDR = None\<rparr>"

definition dn_at :: "dp_heap \<Rightarrow> nat \<Rightarrow> ('e, DataPathNode) outcome" where
  "dn_at h a = (if a < length h then Ok (h ! a) else Panic)"

definition NewDataPathNode :: "dp_heap \<Rightarrow> nat \<times> dp_heap" where
  "NewDataPathNode h =
     (length h, h @ [\<lparr>dn_UPF = None, UpLinkTunnel = Some no_tunnel, DownLinkTunnel = Some no_tunnel, IsBranchingPoint = False\<rparr>])"

definition NewDataPath :: DataPath where
  "NewDataPath = \<lparr>PathID = 0, Activated = False, IsDefaultPath = False, GBRFlow = False,
     dp_Destination = \<lparr>DestinationIP = [], DestinationPort = [], dest_Url = []\<rparr>, HasBranchingPoint = False, FirstDPNode = None\<rparr>"

definition AddNext :: "nat \<Rightarrow> nat option \<Rightarrow> dp_heap \<Rightarrow> ('e, dp_heap) outcome" where
  "AddNext node next_node h =
     obind (dn_at h node) (\<lambda>n. obind (deref (DownLinkTunnel n)) (\<lambda>t.
       Ok (h[node := n\<lparr>DownLinkTunnel := Some (t\<lparr>SrcEndPoint := next_node\<rparr>)\<rparr>])))"

definition AddPrev :: "nat \<Rightarrow> nat option \<Rightarrow> dp_heap \<Rightarrow> ('e, dp_heap) outcome" where
  "AddPrev node prev h =
     obind (dn_at h node) (\<lambda>n. obind (deref (UpLinkTunnel n)) (\<lambda>t.
       Ok (h[node := n\<lparr>UpLinkTunnel := Some (t\<lparr>SrcEndPoint := prev\<rparr>)\<rparr>])))"

definition Next :: "dp_heap \<Rightarrow> nat \<Rightarrow> nat option" where
  "Next h node = Option.bind (DownLinkTunnel (h ! node)) SrcEndPoint"

definition Prev :: "dp_heap \<Rightarrow> nat \<Rightarrow> nat option" where
  "Prev h node = Option.bind (UpLinkTunnel (h ! node)) SrcEndPoint"

definition IsANUPF :: "dp_heap \<Rightarrow> nat \<Rightarrow> bool" where
  "IsANUPF h node = (Prev h node = None)"

definition IsAnchorUPF :: "dp_heap \<Rightarrow> nat \<Rightarrow> bool" where
  "IsAnchorUPF h node = (Next h node = None)"

section \<open>Lists of nodes\<close>

text \<open>The nodes that \<open>for node := first; node != nil; node = node.Next()\<close> visits.\<close>

partial_function (option) dp_nodes :: "dp_heap \<Rightarrow> nat option \<Rightarrow> nat list option" where
  "dp_nodes h p =
     (case p of None \<Rightarrow> Some [] | Some a \<Rightarrow> Option.bind (dp_nodes h (Next h a)) (\<lambda>l. Some (a # l)))"

declare dp_nodes.simps [code]

text \<open>A new node for a UPF behind the parent, if there is one.\<close>

definition append_node :: "nat option \<Rightarrow> nat option \<Rightarrow> dp_heap \<Rightarrow> ('e, nat \<times> dp_heap) outcome" where
  "append_node upf parent h =
     (let (a, h) = NewDataPathNode h; h = h[a := (h ! a)\<lparr>dn_UPF := upf\<rparr>]
      in case parent of
           None \<Rightarrow> Ok (a, h)
         | Some p \<Rightarrow> obind (AddPrev a (Some p) h) (\<lambda>h. obind (AddNext p (Some a) h) (\<lambda>h. Ok (a, h))))"

primrec append_nodes :: "nat option list \<Rightarrow> nat option \<Rightarrow> nat option \<Rightarrow> dp_heap \<Rightarrow> ('e, nat option \<times> dp_heap) outcome" where
  "append_nodes [] first parent h = Ok (first, h)"
| "append_nodes (upf # upfs) first parent h =
     obind (append_node upf parent h) (\<lambda>(a, h).
       append_nodes upfs (case first of None \<Rightarrow> Some a | Some _ \<Rightarrow> first) (Some a) h)"

text \<open>The loop of \<open>GenerateDataPath\<close>, which also clears the ends of the list.\<close>

primrec gen_nodes ::
    "nat \<Rightarrow> nat option list \<Rightarrow> nat option \<Rightarrow> nat option \<Rightarrow> dp_heap \<Rightarrow> (nat option \<times> dp_heap) upi" where
  "gen_nodes idx [] root prev h = Ok (root, h)"
| "gen_nodes idx (upf # upfs) root prev h =
     (let (a, h) = NewDataPathNode h; h = h[a := (h ! a)\<lparr>dn_UPF := upf\<rparr>]
      in obind (if idx = 0 then AddPrev a None h else Ok h) (\<lambda>h.
         obind (if upfs = [] then AddNext a None h else Ok h) (\<lambda>h.
         obind (case prev of None \<Rightarrow> Ok h
                | Some p \<Rightarrow> obind (AddNext p (Some a) h) (\<lambda>h. AddPrev a (Some p) h)) (\<lambda>h.
           gen_nodes (idx + 1) upfs (if idx = 0 then Some a else root) (Some a) h))))"

definition upf_ptr :: "UserPlaneInformation \<Rightarrow> nat \<Rightarrow> nat option upi" where
  "upf_ptr upi a = obind (node_at upi a) (\<lambda>n. Ok (if un_UPF n = None then None else Some a))"

definition GenerateDataPath :: "UserPlaneInformation \<Rightarrow> nat list \<Rightarrow> dp_heap \<Rightarrow> (DataPath option \<times> dp_heap) upi" where
  "GenerateDataPath upi upPath h =
     (if upPath = [] then Ok (None, h)
      else
        obind (omapM (upf_ptr upi) upPath) (\<lambda>upfs.
        obind (gen_nodes 0 upfs None None h) (\<lambda>(root, h).
          Ok (Some (NewDataPath\<lparr>FirstDPNode := root\<rparr>), h))))"

text \<open>The copy shares no node with the original.\<close>

definition CopyFirstDPNode :: "DataPath \<Rightarrow> dp_heap \<Rightarrow> ('e, nat option \<times> dp_heap) outcome option" where
  "CopyFirstDPNode path h =
     map_option (\<lambda>l. append_nodes (map (\<lambda>a. dn_UPF (h ! a)) l) None None h) (dp_nodes h (FirstDPNode path))"

section \<open>Pools of data paths\<close>

definition GetDefaultPath :: "(int \<times> DataPath) list \<Rightarrow> (int \<times> DataPath) option" where
  "GetDefaultPath paths = List.find (\<lambda>(k, p). IsDefaultPath p) paths"

definition ResetDefaultPath :: "(int \<times> DataPath) list \<Rightarrow> (int \<times> DataPath) list" where
  "ResetDefaultPath paths = map (\<lambda>(k, p). (k, p\<lparr>IsDefaultPath := False\<rparr>)) paths"

section \<open>The branching point\<close>

text \<open>A \<open>*DataPath\<close> of the manager is a key of the session's paths.\<close>

datatype BPStatus = UnInitialized | AddingPSA | AddPSASuccess | InitializedSuccess | InitializedFail

datatype AddingPSAState =
    ActivatingDataPath | EstablishingNewPSA | EstablishingULCL | UpdatingPSA2DownLink | UpdatingRANAndIUPFUpLink | Finished

record BPManager =
  bp_Status :: BPStatus
  bp_AddingPSAState :: AddingPSAState
  ActivatedPaths :: "int list"
  ActivatingPath :: "int option"
  UpdatedBranchingPoint :: "(nat \<times> nat) list"
  ULCL :: "nat option"

definition NewBPManager :: BPManager where
  "NewBPManager = \<lparr>bp_Status = UnInitialized, bp_AddingPSAState = ActivatingDataPath, ActivatedPaths = [],
     ActivatingPath = None, UpdatedBranchingPoint = [], ULCL = None\<rparr>"

definition SelectPSA2 :: "(int \<times> DataPath) list \<Rightarrow> BPManager \<Rightarrow> BPManager" where
  "SelectPSA2 paths bp =
     bp\<lparr>ActivatedPaths := map fst (filter (\<lambda>(k, p). Activated p) paths),
        ActivatingPath := (case List.find (\<lambda>(k, p). \<not> Activated p) paths of
          None \<Rightarrow> ActivatingPath bp | Some (k, p) \<Rightarrow> Some k)\<rparr>"

definition dn_NodeID :: "UserPlaneInformation \<Rightarrow> dp_heap \<Rightarrow> nat \<Rightarrow> NodeID upi" where
  "dn_NodeID upi h a = obind (dn_at h a) (\<lambda>n. obind (deref (dn_UPF n)) (\<lambda>u. omap upf_NodeID (upf_at upi u)))"

text \<open>The comparison of the activating path, node by node, with an activated one.\<close>

primrec depth_loop ::
    "UserPlaneInformation \<Rightarrow> dp_heap \<Rightarrow> nat list \<Rightarrow> nat option \<Rightarrow> nat \<Rightarrow> (nat \<times> nat) list \<Rightarrow> (nat \<times> nat) list upi" where
  "depth_loop upi h [] cur depth updated = Ok updated"
| "depth_loop upi h (b # bs) cur depth updated =
     obind (dn_NodeID upi h b) (\<lambda>id2.
     obind (deref cur) (\<lambda>a.
     obind (dn_NodeID upi h a) (\<lambda>id1.
       if id2 = id1 then
         obind (deref (dn_UPF (h ! b))) (\<lambda>u.
           depth_loop upi h bs (Next h a) (depth + 1)
             (if map_of updated u = None then updated @ [(u, depth + 1)] else updated))
       else Ok updated)))"

text \<open>The first entry, in the order of the map, of those with the greatest depth.\<close>

definition deepest :: "(nat \<times> nat) list \<Rightarrow> nat option \<Rightarrow> nat option" where
  "deepest l ulcl = fst (fold (\<lambda>(upf, depth) (best, maxDepth). if depth > maxDepth then (Some upf, depth) else (best, maxDepth))
     l (ulcl, 0))"

definition FindULCL ::
    "UserPlaneInformation \<Rightarrow> dp_heap \<Rightarrow> (int \<times> DataPath) list \<Rightarrow> ((nat \<times> nat) list \<Rightarrow> (nat \<times> nat) list) \<Rightarrow> BPManager \<Rightarrow>
     BPManager upi option" where
  "FindULCL upi h paths rng bp =
     (if ActivatedPaths bp = [] then Some (Ok (bp\<lparr>UpdatedBranchingPoint := []\<rparr>))
      else case Option.bind (ActivatingPath bp) (map_of paths) of
        None \<Rightarrow> Some Panic
      | Some path \<Rightarrow>
          map_option (\<lambda>nodes.
            obind (ofold (\<lambda>k updated. obind (deref (map_of paths k)) (\<lambda>p. depth_loop upi h nodes (FirstDPNode p) 0 updated))
                (ActivatedPaths bp) []) (\<lambda>updated.
              Ok (bp\<lparr>UpdatedBranchingPoint := updated, ULCL := deepest (rng updated) (ULCL bp)\<rparr>)))
            (dp_nodes h (FirstDPNode path)))"

section \<open>What is built\<close>

text \<open>A list from \<open>p\<close> on that is linked in both directions, with \<open>prev\<close> in front of it.\<close>

primrec dlist :: "dp_heap \<Rightarrow> nat option \<Rightarrow> nat option \<Rightarrow> nat list \<Rightarrow> bool" where
  "dlist h p prev [] \<longleftrightarrow> p = None"
| "dlist h p prev (a # l) \<longleftrightarrow> p = Some a \<and> a < length h \<and> Prev h a = prev \<and> dlist h (Next h a) (Some a) l"

definition linked_node :: "nat option \<Rightarrow> nat option \<Rightarrow> nat option \<Rightarrow> DataPathNode" where
  "linked_node upf prev next_node =
     \<lparr>dn_UPF = upf, UpLinkTunnel = Some (no_tunnel\<lparr>SrcEndPoint := prev\<rparr>),
      DownLinkTunnel = Some (no_tunnel\<lparr>SrcEndPoint := next_node\<rparr>), IsBranchingPoint = False\<rparr>"

primrec nodes_from :: "nat \<Rightarrow> nat option \<Rightarrow> nat option list \<Rightarrow> dp_heap" where
  "nodes_from k prev [] = []"
| "nodes_from k prev (u # us) = linked_node u prev (if us = [] then None else Some (k + 1)) # nodes_from (k + 1) (Some k) us"

lemma length_nodes_from [simp]: "length (nodes_from k prev us) = length us"
  by (induction us arbitrary: k prev) auto

lemma linked_node_update:
  "linked_node u p n\<lparr>DownLinkTunnel := Some (no_tunnel\<lparr>SrcEndPoint := n'\<rparr>)\<rparr> = linked_node u p n'"
  "linked_node u p n\<lparr>UpLinkTunnel := Some (no_tunnel\<lparr>SrcEndPoint := p'\<rparr>)\<rparr> = linked_node u p' n"
  "linked_node u p n\<lparr>dn_UPF := u'\<rparr> = linked_node u' p n"
  by (simp_all add: linked_node_def)

lemma new_node: "\<lparr>dn_UPF = u, UpLinkTunnel = Some no_tunnel, DownLinkTunnel = Some no_tunnel, IsBranchingPoint = False\<rparr> = linked_node u None None"
  by (simp add: linked_node_def no_tunnel_def)

lemma add_ends:
  "AddNext (length h) n (h @ linked_node u p n0 # r) = Ok (h @ linked_node u p n # r)"
  "AddPrev (length h) p (h @ linked_node u p0 n # r) = Ok (h @ linked_node u p n # r)"
  by (simp_all add: AddNext_def AddPrev_def dn_at_def linked_node_def)

lemma add_prev_next [simp]:
  "AddPrev (Suc (length h)) p (h @ [m, linked_node u p0 n]) = Ok (h @ [m, linked_node u p n])"
  "AddNext (Suc (length h)) n (h @ [m, linked_node u p n0]) = Ok (h @ [m, linked_node u p n])"
  using add_ends(2) [of "h @ [m]" p u p0 n "[]"] add_ends(1) [of "h @ [m]" n u p n0 "[]"] by simp_all

lemmas node_simps = NewDataPathNode_def new_node linked_node_update nth_append list_update_append Let_def

lemma add_ends_simps [simp]:
  "AddPrev (length h) None (h @ [linked_node u None n]) = Ok (h @ [linked_node u None n])"
  "AddNext (length h) None (h @ [linked_node u p None]) = Ok (h @ [linked_node u p None])"
  "AddNext (length h) n (h @ [linked_node u0 p0 n0, m]) = Ok (h @ [linked_node u0 p0 n, m])"
  using add_ends(2) [of h None u None n "[]"] add_ends(1) [of h None u p None "[]"] add_ends(1) [of h n u0 p0 n0 "[m]"] by simp_all

lemma append_node_simps [simp]:
  "append_node u None h = Ok (length h, h @ [linked_node u None None])"
  "append_node u (Some (length h)) (h @ [linked_node u0 p0 None]) =
     Ok (Suc (length h), h @ [linked_node u0 p0 (Some (Suc (length h))), linked_node u (Some (length h)) None])"
  by (simp_all add: append_node_def node_simps)

lemma append_nodes_behind:
  "append_nodes us first (Some (length h)) (h @ [linked_node u0 p0 None]) =
     Ok (if first = None \<and> us \<noteq> [] then Some (Suc (length h)) else first,
       h @ linked_node u0 p0 (if us = [] then None else Some (Suc (length h))) # nodes_from (Suc (length h)) (Some (length h)) us)"
proof (induction us arbitrary: first h u0 p0)
  case (Cons u us)
  from Cons.IH [of "case first of None \<Rightarrow> Some (Suc (length h)) | Some _ \<Rightarrow> first" "h @ [linked_node u0 p0 (Some (Suc (length h)))]" u "Some (length h)"]
  show ?case
    by (auto split: option.splits)
qed simp

lemma append_nodes_eq:
  "append_nodes us None None h = Ok (if us = [] then None else Some (length h), h @ nodes_from (length h) None us)"
proof (cases us)
  case (Cons u us')
  then show ?thesis
    by (simp add: append_nodes_behind)
qed simp

text \<open>\<open>GenerateDataPath\<close> builds its list as the other loops do.\<close>

lemma gen_nodes_behind:
  "0 < idx \<Longrightarrow> gen_nodes idx us root (Some (length h)) (h @ [linked_node u0 p0 None]) =
     Ok (root, h @ linked_node u0 p0 (if us = [] then None else Some (Suc (length h))) # nodes_from (Suc (length h)) (Some (length h)) us)"
proof (induction us arbitrary: idx h u0 p0)
  case (Cons u us)
  with Cons.IH [of "idx + 1" "h @ [linked_node u0 p0 (Some (Suc (length h)))]" u "Some (length h)"] show ?case
    by (auto simp: node_simps)
qed simp

lemma gen_nodes_eq: "us \<noteq> [] \<Longrightarrow> gen_nodes 0 us None None h = append_nodes us None None h"
proof (cases us)
  case (Cons u us')
  with gen_nodes_behind [of 1 us' "Some (length h)" h u None] show ?thesis
    by (simp add: append_nodes_eq node_simps)
qed simp

lemma dlist_nodes_from:
  "dlist (h @ nodes_from (length h) prev us) (if us = [] then None else Some (length h)) prev [length h ..< length h + length us] \<and>
   map (\<lambda>a. dn_UPF ((h @ nodes_from (length h) prev us) ! a)) [length h ..< length h + length us] = us"
proof (induction us arbitrary: h prev)
  case (Cons u us)
  let ?n = "linked_node u prev (if us = [] then None else Some (Suc (length h)))"
  have "[length h ..< length h + length (u # us)] = length h # [length (h @ [?n]) ..< length (h @ [?n]) + length us]"
    by (simp add: upt_conv_Cons del: upt_Suc)
  moreover have "h @ nodes_from (length h) prev (u # us) = (h @ [?n]) @ nodes_from (length (h @ [?n])) (Some (length h)) us"
    by simp
  moreover have "Prev ((h @ [?n]) @ r) (length h) = prev" "dn_UPF (((h @ [?n]) @ r) ! length h) = u"
      "Next ((h @ [?n]) @ r) (length h) = (if us = [] then None else Some (length (h @ [?n])))" for r
    by (simp_all add: Next_def Prev_def linked_node_def)
  ultimately show ?case
    using Cons.IH [of "h @ [?n]" "Some (length h)"] by (simp only: dlist.simps list.map) simp
qed simp

lemma dlist_dp_nodes: "dlist h p prev l \<Longrightarrow> dp_nodes h p = Some l"
proof (induction l arbitrary: p prev)
  case Nil
  then show ?case by (subst dp_nodes.simps) simp
next
  case (Cons a l)
  then have "dp_nodes h (Next h a) = Some l" by auto
  with Cons.prems show ?case by (subst dp_nodes.simps) simp
qed

lemma dlist_distinct_next:
  "dlist h p prev l \<Longrightarrow> i + 1 < length l \<Longrightarrow> Next h (l ! i) = Some (l ! (i + 1)) \<and> Prev h (l ! (i + 1)) = Some (l ! i)"
proof (induction l arbitrary: p prev i)
  case (Cons a l)
  then show ?case
    by (cases l; cases i) auto
qed simp

lemma append_nodes_list:
  "\<exists>first h' l. append_nodes us None None h = Ok (first, h') \<and> dlist h' first None l \<and> map (\<lambda>a. dn_UPF (h' ! a)) l = us \<and>
     set l = {length h ..< length h'} \<and> take (length h) h' = h"
  using dlist_nodes_from [of h None us] by (auto simp: append_nodes_eq)

lemma dlist_ends:
  "dlist h p prev l \<Longrightarrow> l \<noteq> [] \<Longrightarrow> p = Some (hd l) \<and> Prev h (hd l) = prev \<and> Next h (last l) = None"
  by (induction l arbitrary: p prev) (auto split: if_splits)

section \<open>Finding the branching point\<close>

primrec enter :: "nat \<Rightarrow> nat list \<Rightarrow> (nat \<times> nat) list \<Rightarrow> (nat \<times> nat) list" where
  "enter k [] updated = updated"
| "enter k (u # us) updated = enter (k + 1) us (if map_of updated u = None then updated @ [(u, k)] else updated)"

lemma enter_append: "enter k (xs @ ys) updated = enter (k + length xs) ys (enter k xs updated)"
  by (induction xs arbitrary: k updated) auto

definition node_upf :: "dp_heap \<Rightarrow> nat \<Rightarrow> nat" where
  "node_upf h a = the (dn_UPF (h ! a))"

lemma dn_NodeID_Ok: "dn_NodeID upi h a = Ok i \<Longrightarrow> dn_UPF (h ! a) = Some (node_upf h a)"
  by (auto simp: dn_NodeID_def dn_at_def node_upf_def go_simps split: if_splits)

lemma depth_loop_eq:
  "omapM (dn_NodeID upi h) bs = Ok ids2 \<Longrightarrow> dlist h cur prev l \<Longrightarrow> omapM (dn_NodeID upi h) l = Ok ids1 \<Longrightarrow>
   depth_loop upi h bs cur d updated =
     (if strict_prefix ids1 ids2 then Panic
      else Ok (enter (d + 1) (take (length (longest_common_prefix ids1 ids2)) (map (node_upf h) bs)) updated))"
proof (induction bs arbitrary: cur prev l ids1 ids2 d updated)
  case Nil
  then show ?case by simp
next
  case (Cons b bs)
  from Cons.prems(1) obtain j js where j: "dn_NodeID upi h b = Ok j" "omapM (dn_NodeID upi h) bs = Ok js" "ids2 = j # js"
    by (auto simp: go_simps)
  show ?case
  proof (cases l)
    case Nil
    with Cons.prems j show ?thesis by simp
  next
    case (Cons a l')
    with \<open>omapM (dn_NodeID upi h) l = Ok ids1\<close> obtain i ks where
      i: "dn_NodeID upi h a = Ok i" "omapM (dn_NodeID upi h) l' = Ok ks" "ids1 = i # ks"
      by (auto simp: go_simps)
    from Cons \<open>dlist h cur prev l\<close> have cur: "cur = Some a" "dlist h (Next h a) (Some a) l'"
      by auto
    show ?thesis
      using Cons.IH [OF j(2) cur(2) i(2)] j i cur(1) dn_NodeID_Ok [OF j(1)] by auto
  qed
qed

text \<open>The entries of the first \<open>m\<close> UPFs of a path.\<close>

definition marks :: "nat list \<Rightarrow> nat \<Rightarrow> (nat \<times> nat) list" where
  "marks us m = map (\<lambda>i. (us ! i, Suc i)) [0 ..< m]"

lemma marks_Suc: "marks us (Suc m) = marks us m @ [(us ! m, Suc m)]"
  by (simp add: marks_def)

lemma map_of_marks: "distinct us \<Longrightarrow> m \<le> length us \<Longrightarrow> i < length us \<Longrightarrow> map_of (marks us m) (us ! i) = None \<longleftrightarrow> m \<le> i"
  unfolding marks_def map_of_eq_None_iff by (auto simp: image_image nth_eq_iff_index_eq)

lemma enter_marks:
  "distinct us \<Longrightarrow> m \<le> length us \<Longrightarrow> n \<le> length us \<Longrightarrow> enter 1 (take n us) (marks us m) = marks us (max m n)"
proof (induction n)
  case (Suc n)
  then have "enter 1 (take (Suc n) us) (marks us m) =
      (if map_of (marks us (max m n)) (us ! n) = None then marks us (max m n) @ [(us ! n, Suc n)] else marks us (max m n))"
    by (simp add: take_Suc_conv_app_nth enter_append)
  also have "\<dots> = marks us (max m (Suc n))"
  proof (cases "m \<le> n")
    case True
    with Suc.prems map_of_marks [of us n n] show ?thesis by (simp add: marks_Suc max_absorb2)
  next
    case False
    with Suc.prems map_of_marks [of us m n] show ?thesis by (simp add: max_absorb1)
  qed
  finally show ?case .
qed simp

lemma deepest_unique:
  "\<forall>(v, d)\<in>set l. d \<le> (D :: nat) \<and> (d = D \<longrightarrow> v = u) \<Longrightarrow> k \<le> D \<Longrightarrow> (k = D \<longrightarrow> b = Some u) \<Longrightarrow> (k < D \<longrightarrow> (u, D) \<in> set l) \<Longrightarrow>
   fst (fold (\<lambda>(upf, depth) (best, maxDepth). if depth > maxDepth then (Some upf, depth) else (best, maxDepth)) l (b, k)) = Some u"
  (is "_ \<Longrightarrow> _ \<Longrightarrow> _ \<Longrightarrow> _ \<Longrightarrow> fst (fold ?f l (b, k)) = _")
proof (induction l arbitrary: b k)
  case (Cons x l)
  obtain v d where x: "x = (v, d)" by (cases x)
  show ?case
  proof (cases "d > k")
    case True
    have "fst (fold ?f l (Some v, d)) = Some u"
      by (rule Cons.IH) (use Cons.prems x True in auto)
    with True x show ?thesis by simp
  next
    case False
    have "fst (fold ?f l (b, k)) = Some u"
      by (rule Cons.IH) (use Cons.prems x False in auto)
    with False x show ?thesis by simp
  qed
qed auto

lemma deepest_marks:
  assumes "set l = set (marks us m)"
  shows "deepest l ulcl = (if m = 0 then ulcl else Some (us ! (m - 1)))"
proof (cases "m = 0")
  case True
  with assms show ?thesis by (simp add: marks_def deepest_def)
next
  case False
  have set: "set (marks us m) = {(us ! i, Suc i) | i. i < m}"
    by (auto simp: marks_def)
  have "fst (fold (\<lambda>(upf, depth) (best, maxDepth). if depth > maxDepth then (Some upf, depth) else (best, maxDepth)) l (ulcl, 0))
      = Some (us ! (m - 1))"
    by (rule deepest_unique [where D = m]) (use False assms set in auto)
  with False show ?thesis by (simp add: deepest_def)
qed

text \<open>A data path that a walk can follow, with the identifiers of its UPFs.\<close>

definition walked :: "UserPlaneInformation \<Rightarrow> dp_heap \<Rightarrow> DataPath \<Rightarrow> nat list \<Rightarrow> NodeID list \<Rightarrow> bool" where
  "walked upi h path l ids \<longleftrightarrow> dlist h (FirstDPNode path) None l \<and> omapM (dn_NodeID upi h) l = Ok ids"

definition common_prefixes :: "NodeID list list \<Rightarrow> NodeID list \<Rightarrow> nat list" where
  "common_prefixes idss ids2 = map (\<lambda>ids1. length (longest_common_prefix ids1 ids2)) idss"

lemma activated_loop:
  assumes "walked upi h path bs ids2" and "distinct (map (node_upf h) bs)"
  shows "list_all2 (\<lambda>k ids1. \<exists>p l. map_of paths k = Some p \<and> walked upi h p l ids1) ks idss \<Longrightarrow> m \<le> length bs \<Longrightarrow>
    ofold (\<lambda>k updated. obind (deref (map_of paths k)) (\<lambda>p. depth_loop upi h bs (FirstDPNode p) 0 updated)) ks
        (marks (map (node_upf h) bs) m) =
      (if \<exists>ids1\<in>set idss. strict_prefix ids1 ids2 then Panic
       else Ok (marks (map (node_upf h) bs) (Max (set (m # common_prefixes idss ids2)))))"
proof (induction ks idss arbitrary: m rule: list_all2_induct)
  case Nil
  then show ?case by (simp add: common_prefixes_def)
next
  case (Cons k ks ids1 idss)
  then obtain p l where p: "map_of paths k = Some p" "dlist h (FirstDPNode p) None l" "omapM (dn_NodeID upi h) l = Ok ids1"
    by (auto simp: walked_def)
  have bs: "omapM (dn_NodeID upi h) bs = Ok ids2" "length ids2 = length bs"
    using assms(1) omapM_eq_Ok_length by (auto simp: walked_def)
  let ?n = "length (longest_common_prefix ids1 ids2)" and ?us = "map (node_upf h) bs"
  have n: "?n \<le> length bs"
    using longest_common_prefix_prefix2 [of ids1 ids2] bs(2) by (metis prefix_length_le)
  have "Max (set (max m ?n # common_prefixes idss ids2)) = Max (set (m # common_prefixes (ids1 # idss) ids2))"
    by (simp add: common_prefixes_def Max_insert2) (cases "idss = []"; simp add: max.assoc)
  with depth_loop_eq [OF bs(1) p(2,3), of 0] enter_marks [OF assms(2), of m ?n] Cons.IH [of "max m ?n"] Cons.prems n p(1)
  show ?case
    by auto
qed

section \<open>Properties\<close>

text \<open>
  C8. The data path generated for a path of the topology is a list linked in both directions whose nodes are, in order, the
  UPFs of the path, first the one at the access network and last the anchor; nodes that existed are not touched. A copy has
  the same UPFs in the same order on new nodes.
\<close>

theorem generated_data_path:
  assumes "upPath \<noteq> []" and "\<forall>a\<in>set upPath. a < length (upi_store upi) \<and> un_UPF (upi_store upi ! a) \<noteq> None"
  shows "\<exists>path h' l first h'' l'. GenerateDataPath upi upPath h = Ok (Some path, h') \<and>
    dp_nodes h' (FirstDPNode path) = Some l \<and> map (\<lambda>a. dn_UPF (h' ! a)) l = map Some upPath \<and>
    (\<forall>i. i + 1 < length l \<longrightarrow> Next h' (l ! i) = Some (l ! (i + 1)) \<and> Prev h' (l ! (i + 1)) = Some (l ! i)) \<and>
    IsANUPF h' (hd l) \<and> IsAnchorUPF h' (last l) \<and> take (length h) h' = h \<and>
    CopyFirstDPNode path h' = (Some (Ok (first, h'')) :: (nat option \<times> dp_heap) upi option) \<and> dp_nodes h'' first = Some l' \<and>
    map (\<lambda>a. dn_UPF (h'' ! a)) l' = map Some upPath \<and> set l \<inter> set l' = {} \<and> take (length h') h'' = h'"
proof -
  have "omapM (upf_ptr upi) upPath = Ok (map Some upPath)"
    by (rule omapM_Ok) (use assms(2) in \<open>auto simp: upf_ptr_def node_at_def\<close>)
  moreover obtain first h' l where
    l: "append_nodes (map Some upPath) None None h = (Ok (first, h') :: (nat option \<times> dp_heap) upi)" "dlist h' first None l"
    "map (\<lambda>a. dn_UPF (h' ! a)) l = map Some upPath" "set l = {length h ..< length h'}" "take (length h) h' = h"
    using append_nodes_list by blast
  ultimately have gen: "GenerateDataPath upi upPath h = Ok (Some (NewDataPath\<lparr>FirstDPNode := first\<rparr>), h')"
    using assms(1) by (simp add: GenerateDataPath_def gen_nodes_eq)
  obtain first' h'' l' where
    l': "append_nodes (map Some upPath) None None h' = (Ok (first', h'') :: (nat option \<times> dp_heap) upi)" "dlist h'' first' None l'"
    "map (\<lambda>a. dn_UPF (h'' ! a)) l' = map Some upPath" "set l' = {length h' ..< length h''}" "take (length h') h'' = h'"
    using append_nodes_list by blast
  have "l \<noteq> []"
    using l(3) assms(1) by auto
  with dlist_ends [OF l(2)] have "IsANUPF h' (hd l)" "IsAnchorUPF h' (last l)"
    by (simp_all add: IsANUPF_def IsAnchorUPF_def)
  moreover have "CopyFirstDPNode (NewDataPath\<lparr>FirstDPNode := first\<rparr>) h' = (Some (Ok (first', h'')) :: (nat option \<times> dp_heap) upi option)"
    using dlist_dp_nodes [OF l(2)] l(3) l'(1) by (simp add: CopyFirstDPNode_def)
  moreover have "set l \<inter> set l' = {}"
    using l(4) l'(4) by auto
  ultimately show ?thesis
    using gen dlist_dp_nodes [OF l(2)] dlist_dp_nodes [OF l'(2)] l(3,5) l'(3,5) dlist_distinct_next [OF l(2)]
    by (intro exI [of _ "NewDataPath\<lparr>FirstDPNode := first\<rparr>"] exI) auto
qed

text \<open>
  C9. The branching point. With at least one activated path, the search panics exactly when an activated path is a proper
  prefix of the activating one: it then compares the UPF of a node that is not there. Otherwise it finds the
  last UPF that the activating path shares, from the access network on, with the activated path it follows longest, in
  whatever order the table is visited, and leaves the old one when there is none.
\<close>

theorem branching_point_found:
  assumes "ActivatedPaths bp \<noteq> []" and "ActivatingPath bp = Some k" and "map_of paths k = Some path" and "walked upi h path bs ids2"
    and "distinct (map (node_upf h) bs)" and "\<forall>l. set (rng l) = set l"
    and "list_all2 (\<lambda>k ids1. \<exists>p l. map_of paths k = Some p \<and> walked upi h p l ids1) (ActivatedPaths bp) idss"
  defines "n \<equiv> Max (set (common_prefixes idss ids2))"
  shows "if \<exists>ids1\<in>set idss. strict_prefix ids1 ids2 then FindULCL upi h paths rng bp = Some Panic
    else \<exists>bp'. FindULCL upi h paths rng bp = Some (Ok bp') \<and>
      ULCL bp' = (if n = 0 then ULCL bp else Some (node_upf h (bs ! (n - 1))))"
proof -
  have nodes: "dp_nodes h (FirstDPNode path) = Some bs"
    using assms(4) dlist_dp_nodes by (auto simp: walked_def)
  have len: "length ids2 = length bs"
    using assms(4) omapM_eq_Ok_length by (auto simp: walked_def)
  have ne: "idss \<noteq> []"
    using assms(1,7) by auto
  have "n \<in> set (common_prefixes idss ids2)"
    unfolding n_def by (rule Max_in) (use ne in \<open>auto simp: common_prefixes_def\<close>)
  then have le: "n \<le> length bs"
    using len by (auto simp: common_prefixes_def) (metis longest_common_prefix_prefix2 prefix_length_le)
  have "Max (set (0 # common_prefixes idss ids2)) = n"
    using ne unfolding n_def by (simp add: common_prefixes_def)
  with activated_loop [OF assms(4,5,7), of 0] have loop:
    "ofold (\<lambda>k updated. obind (deref (map_of paths k)) (\<lambda>p. depth_loop upi h bs (FirstDPNode p) 0 updated)) (ActivatedPaths bp) [] =
      (if \<exists>ids1\<in>set idss. strict_prefix ids1 ids2 then Panic else Ok (marks (map (node_upf h) bs) n))"
    by (simp add: marks_def)
  have "deepest (rng (marks (map (node_upf h) bs) n)) (ULCL bp) = (if n = 0 then ULCL bp else Some (node_upf h (bs ! (n - 1))))"
    using deepest_marks [of "rng (marks (map (node_upf h) bs) n)" "map (node_upf h) bs" n "ULCL bp"] assms(6) le by simp
  with loop nodes assms(1-3) show ?thesis
    by (simp add: FindULCL_def)
qed

theorem generated_data_path_witness:
  "\<exists>path h' l. GenerateDataPath demo_topology [1, 2] [] = Ok (Some path, h') \<and>
     dp_nodes h' (FirstDPNode path) = Some l \<and> map (\<lambda>a. dn_UPF (h' ! a)) l = [Some 1, Some 2]"
proof -
  have "[1, 2] \<noteq> ([] :: nat list)" "\<forall>a\<in>set [1, 2]. a < length (upi_store demo_topology) \<and> un_UPF (upi_store demo_topology ! a) \<noteq> None"
    by (simp_all add: demo_topology_def demo_node_def)
  from generated_data_path [OF this, of "[]"] show ?thesis
    by auto
qed

text \<open>An activated path over I-UPF and PSA, and one that ends at I-UPF.\<close>

definition fork_heap :: dp_heap where
  "fork_heap = nodes_from 0 None [Some 1] @ nodes_from 1 None [Some 1, Some 2]"

definition fork_paths :: "bool \<Rightarrow> (int \<times> DataPath) list" where
  "fork_paths long = [(1, NewDataPath\<lparr>Activated := long, FirstDPNode := Some 1\<rparr>), (2, NewDataPath\<lparr>Activated := \<not> long, FirstDPNode := Some 0\<rparr>)]"

definition fork_bp :: "bool \<Rightarrow> BPManager" where
  "fork_bp long = SelectPSA2 (fork_paths long) NewBPManager"

theorem branching_point_found_witness:
  "\<exists>bp'. FindULCL pool_built fork_heap (fork_paths True) rev (fork_bp True) = Some (Ok bp') \<and> ULCL bp' = Some 1"
proof -
  let ?id = "\<lambda>name. \<lparr>NodeIdType = NodeIdTypeFqdn, nid_IP = None, FQDN = name\<rparr>"
  let ?path = "NewDataPath\<lparr>FirstDPNode := Some 0\<rparr>" and ?long = "NewDataPath\<lparr>Activated := True, FirstDPNode := Some 1\<rparr>"
  have bp: "ActivatedPaths (fork_bp True) = [1]" "ActivatingPath (fork_bp True) = Some 2"
    "map_of (fork_paths True) 1 = Some ?long" "map_of (fork_paths True) 2 = Some ?path"
    by (simp_all add: fork_bp_def SelectPSA2_def fork_paths_def NewDataPath_def NewBPManager_def)
  have ids: "omapM (dn_NodeID pool_built fork_heap) [0] = Ok [?id ''I-UPF'']"
    "omapM (dn_NodeID pool_built fork_heap) [1, 2] = Ok [?id ''I-UPF'', ?id ''PSA'']"
    by code_simp+
  have w: "walked pool_built fork_heap ?path [0] [?id ''I-UPF'']" "walked pool_built fork_heap ?long [1, 2] [?id ''I-UPF'', ?id ''PSA'']"
    using ids by (simp_all add: walked_def fork_heap_def linked_node_def Next_def Prev_def NewDataPath_def)
  have one: "node_upf fork_heap 0 = 1"
    by code_simp
  have a: "list_all2 (\<lambda>k ids1. \<exists>p l. map_of (fork_paths True) k = Some p \<and> walked pool_built fork_heap p l ids1)
      (ActivatedPaths (fork_bp True)) [[?id ''I-UPF'', ?id ''PSA'']]"
    using w(2) bp(1,3) by auto
  have "ActivatedPaths (fork_bp True) \<noteq> []" "distinct (map (node_upf fork_heap) [0])" "\<forall>l. set (rev l) = set l"
    using bp(1) by simp_all
  from branching_point_found [OF this(1) bp(2,4) w(1) this(2) _ a, of rev] one show ?thesis
    by (simp add: common_prefixes_def)
qed

text \<open>The same two paths, with the longer one to be activated: the search panics.\<close>

theorem branching_point_panics:
  "FindULCL pool_built fork_heap (fork_paths False) rng (fork_bp False) = Some Panic"
  by code_simp

end
