(* ===== verification/Smf_Rules.thy ===== *)
theory Smf_Rules
  imports Smf_DataPath
begin

text \<open>
  The rules that the SMF keeps for its UPFs (\<^verbatim>\<open>NFs/smf/internal/context/pfcp_rules.go\<close>, the rule pools of
  \<^verbatim>\<open>upf.go\<close>, \<^verbatim>\<open>pfcp_session_context.go\<close>): packet detection, forwarding, buffering, QoS and usage rules, which data
  paths, sessions and UPFs share through pointers. A \<open>*PDR\<close>, \<open>*FAR\<close>, \<open>*BAR\<close>, \<open>*QER\<close> or \<open>*URR\<close> is an address in the
  store of its kind; what only a rule points to (its PDI, its forwarding parameters) is a part of it.

  \<open>idgenerator\<close> of \<open>github.com/free5gc/util\<close> and \<open>net.ResolveIPAddr\<close> are fields of \<open>act_env\<close>. An operation that
  fails has changed the state up to then: an error carries the state it leaves.
\<close>

section \<open>Rules\<close>

datatype RuleState = RULE_INITIAL | RULE_CREATE | RULE_UPDATE | RULE_REMOVE | RULE_QUERY

text \<open>The interface values of TS 29.244, 8.2.2 and 8.2.24; the zero value is the access side.\<close>

datatype InterfaceValue = InterfaceAccess | InterfaceCore

datatype OuterHeader = GtpUUdpIpv4

record FTEID =
  ft_V4 :: bool
  ft_Ipv4Address :: "bytes option"
  ft_Teid :: u32

record NetworkInstance =
  ni_NetworkInstance :: string
  ni_FQDNEncoding :: bool

record UEIPAddress =
  ua_V4 :: bool
  ua_Sd :: bool
  ua_Ipv4Address :: "bytes option"

record SDFFilter =
  sdf_Fd :: bool
  LengthOfFlowDescription :: u16
  FlowDescription :: string

record PDI =
  SourceInterface :: InterfaceValue
  LocalFTeid :: "FTEID option"
  pdi_NetworkInstance :: "NetworkInstance option"
  pdi_UEIPAddress :: "UEIPAddress option"
  pdi_SDFFilter :: "SDFFilter option"
  ApplicationID :: string

record PDR =
  PDRID :: u16
  Precedence :: u32
  pdr_PDI :: PDI
  OuterHeaderRemoval :: "OuterHeader option"
  pdr_FAR :: "nat option"
  pdr_URR :: "nat list"
  pdr_QER :: "nat list"
  pdr_State :: RuleState

record ReportingTriggers =
  Perio :: bool
  Volth :: bool
  Volqu :: bool
  Start :: bool

record MeasurementInformation =
  Mnop :: bool
  Mbqe :: bool

record URR =
  URRID :: u32
  MeasureMethod :: string
  ReportingTrigger :: ReportingTriggers
  MeasurementPeriod :: int
  urr_MeasurementInformation :: MeasurementInformation
  VolumeThreshold :: u64
  VolumeQuota :: u64
  urr_State :: RuleState

record ApplyActionFlags =
  Buff :: bool
  Drop :: bool
  Dupl :: bool
  Forw :: bool
  Nocp :: bool

record OuterHeaderCreation =
  ohc_Description :: OuterHeader
  ohc_Ipv4Address :: "bytes option"
  ohc_Teid :: u32

record ForwardingParameters =
  DestinationInterface :: InterfaceValue
  fp_NetworkInstance :: "NetworkInstance option"
  fp_OuterHeaderCreation :: "OuterHeaderCreation option"
  ForwardingPolicyID :: string
  SendEndMarker :: bool

record FAR =
  FARID :: u32
  far_ApplyAction :: ApplyActionFlags
  far_ForwardingParameters :: "ForwardingParameters option"
  far_BAR :: "nat option"
  far_State :: RuleState

record BAR =
  BARID :: u8
  bar_State :: RuleState

text \<open>Gates as whether they are open; rates in kbps, uplink first.\<close>

record QER =
  QERID :: u32
  QFI :: u8
  GateStatus :: "(bool \<times> bool) option"
  MBR :: "(u64 \<times> u64) option"
  GBR :: "(u64 \<times> u64) option"
  qer_State :: RuleState

definition no_PDI :: PDI where
  "no_PDI = \<lparr>SourceInterface = InterfaceAccess, LocalFTeid = None, pdi_NetworkInstance = None, pdi_UEIPAddress = None,
     pdi_SDFFilter = None, ApplicationID = []\<rparr>"

definition no_action :: ApplyActionFlags where
  "no_action = \<lparr>Buff = False, Drop = False, Dupl = False, Forw = False, Nocp = False\<rparr>"

definition no_forwarding :: ForwardingParameters where
  "no_forwarding = \<lparr>DestinationInterface = InterfaceAccess, fp_NetworkInstance = None, fp_OuterHeaderCreation = None,
     ForwardingPolicyID = [], SendEndMarker = False\<rparr>"

section \<open>Options of usage rules\<close>

definition NewMeasureInformation :: "bool \<Rightarrow> bool \<Rightarrow> URR \<Rightarrow> URR" where
  "NewMeasureInformation isMeasurePkt isMeasureBeforeQos urr =
     urr\<lparr>urr_MeasurementInformation := \<lparr>Mnop = isMeasurePkt, Mbqe = isMeasureBeforeQos\<rparr>\<rparr>"

definition NewMeasurementPeriod :: "int \<Rightarrow> URR \<Rightarrow> URR" where
  "NewMeasurementPeriod time urr =
     urr\<lparr>ReportingTrigger := (ReportingTrigger urr)\<lparr>Perio := True\<rparr>, MeasurementPeriod := time\<rparr>"

definition NewVolumeThreshold :: "u64 \<Rightarrow> URR \<Rightarrow> URR" where
  "NewVolumeThreshold threshold urr =
     urr\<lparr>ReportingTrigger := (ReportingTrigger urr)\<lparr>Volth := True\<rparr>, VolumeThreshold := threshold\<rparr>"

definition NewVolumeQuota :: "u64 \<Rightarrow> URR \<Rightarrow> URR" where
  "NewVolumeQuota quota urr =
     urr\<lparr>ReportingTrigger := (ReportingTrigger urr)\<lparr>Volqu := True\<rparr>, VolumeQuota := quota\<rparr>"

definition SetStartOfSDFTrigger :: "URR \<Rightarrow> URR" where
  "SetStartOfSDFTrigger urr = urr\<lparr>ReportingTrigger := (ReportingTrigger urr)\<lparr>Start := True\<rparr>\<rparr>"

section \<open>The state\<close>

text \<open>The generators and pools of one UPF.\<close>

record 'g upf_rules =
  pdrPool :: "(u16 \<times> nat) list"
  farPool :: "(u32 \<times> nat) list"
  barPool :: "(u8 \<times> nat) list"
  qerPool :: "(u32 \<times> nat) list"
  urrPool :: "(u32 \<times> nat) list"
  pdrIDGenerator :: 'g
  farIDGenerator :: 'g
  barIDGenerator :: 'g
  qerIDGenerator :: 'g
  urrIDGenerator :: 'g

record PFCPSessionContext =
  PDRs :: "(u16 \<times> nat) list"
  pc_NodeID :: NodeID
  pc_LocalSEID :: u64
  pc_RemoteSEID :: u64

record Ambr =
  ambr_Uplink :: string
  ambr_Downlink :: string

record SessionRule =
  AuthSessAmbr :: "Ambr option"
  DefQosQFI :: u8

record ANInformation =
  an_IPAddress :: "bytes option"
  an_TEID :: u32

record 'g UPTunnel =
  PathIDGenerator :: 'g
  DataPathPool :: "(int \<times> DataPath) list"
  tn_ANInformation :: ANInformation

datatype UrrType = N3N6_MBQE_URR | N3N6_MAQE_URR | N3N9_MBQE_URR | N3N9_MAQE_URR | N9N6_MBQE_URR | N9N6_MAQE_URR | NOT_FOUND_URR

datatype ChargingLevel = PduSessionCharging | FlowCharging

datatype ChargingMethod = NoCharging | OnlineCharging | OfflineCharging

record ChargingInfo =
  ci_ChargingMethod :: ChargingMethod
  ci_ChargingLevel :: ChargingLevel
  ci_RatingGroup :: int
  ci_UpfId :: string

text \<open>What the code of data paths uses of a session.\<close>

record 'g SMContext =
  sc_Ref :: string
  sc_Dnn :: string
  LocalULTeid :: u32
  LocalDLTeid :: u32
  LocalULTeidForSplitPDUSession :: u32
  LocalDLTeidForSplitPDUSession :: u32
  sc_PDUAddress :: "bytes option"
  SelectedPDUSessionType :: u8
  sc_Tunnel :: "'g UPTunnel option"
  DCTunnel :: "'g UPTunnel option"
  PFCPContext :: "(string \<times> PFCPSessionContext) list"
  SessionRules :: "(string \<times> SessionRule option) list"
  SelectedSessionRuleID :: string
  AMBRQerMap :: "(string \<times> u32) list"
  QerUpfMap :: "(string \<times> u32) list"
  UrrIDGenerator :: 'g
  UrrIdMap :: "(UrrType \<times> u32) list"
  UrrUpfMap :: "(string \<times> nat option) list"
  UrrReportTime :: int
  UrrReportThreshold :: u64
  sc_ChargingInfo :: "(u32 \<times> ChargingInfo) list"

record 'g smf =
  s_upi :: UserPlaneInformation
  s_rules :: "nat \<Rightarrow> 'g upf_rules"
  s_nodes :: dp_heap
  s_pdrs :: "PDR list"
  s_fars :: "FAR list"
  s_bars :: "BAR list"
  s_qers :: "QER list"
  s_urrs :: "URR list"
  LocalSEIDCount :: u64
  seidSMContextMap :: "(u64 \<times> string) list"
  s_ctx :: "'g SMContext"

record 'g act_env = up_env +
  gen_New :: "int \<Rightarrow> int \<Rightarrow> 'g"
  gen_Allocate :: "'g \<Rightarrow> int option \<times> 'g"
  gen_FreeID :: "int \<Rightarrow> 'g \<Rightarrow> 'g"
  ResolveIPAddr :: "string \<Rightarrow> bytes option"
  NwInstFqdnEncoding :: bool

datatype act_error = UpfError upi_error | NoFreeID | NoPFCPContext string u16 | NoInterface | NoUnit | AddressNotMatched

section \<open>Steps\<close>

type_synonym ('g, 'a) act = "'g smf \<Rightarrow> (act_error \<times> 'g smf, 'a \<times> 'g smf) outcome"

definition areturn :: "'a \<Rightarrow> ('g, 'a) act" where
  "areturn x s = Ok (x, s)"

definition abind :: "('g, 'a) act \<Rightarrow> ('a \<Rightarrow> ('g, 'b) act) \<Rightarrow> ('g, 'b) act" where
  "abind m f s = obind (m s) (\<lambda>(x, s). f x s)"

definition athen :: "('g, unit) act \<Rightarrow> ('g, 'b) act \<Rightarrow> ('g, 'b) act" where
  "athen m k = abind m (\<lambda>_. k)"

definition afail :: "act_error \<Rightarrow> ('g, 'a) act" where
  "afail e s = Err (e, s)"

definition apanic :: "('g, 'a) act" where
  "apanic s = Panic"

definition aget :: "('g smf \<Rightarrow> 'a) \<Rightarrow> ('g, 'a) act" where
  "aget f s = Ok (f s, s)"

definition amod :: "('g smf \<Rightarrow> 'g smf) \<Rightarrow> ('g, unit) act" where
  "amod f s = Ok ((), f s)"

definition aderef :: "'a option \<Rightarrow> ('g, 'a) act" where
  "aderef p = (case p of None \<Rightarrow> apanic | Some x \<Rightarrow> areturn x)"

text \<open>A call whose error is logged and dropped.\<close>

definition alogged :: "('g, unit) act \<Rightarrow> ('g, unit) act" where
  "alogged m s = (case m s of Err (e, s) \<Rightarrow> Ok ((), s) | r \<Rightarrow> r)"

text \<open>A call whose error ends the caller, after the state has been changed by \<open>f\<close>.\<close>

definition aon_error :: "('g smf \<Rightarrow> 'g smf) \<Rightarrow> ('g, 'a) act \<Rightarrow> ('g, 'a) act" where
  "aon_error f m s = (case m s of Err (e, s) \<Rightarrow> Err (e, f s) | r \<Rightarrow> r)"

definition acall :: "('g smf \<Rightarrow> 'a upi) \<Rightarrow> ('g, 'a) act" where
  "acall f s = (case f s of Ok x \<Rightarrow> Ok (x, s) | Err e \<Rightarrow> Err (UpfError e, s) | Panic \<Rightarrow> Panic)"

primrec aeach :: "('a \<Rightarrow> ('g, unit) act) \<Rightarrow> 'a list \<Rightarrow> ('g, unit) act" where
  "aeach f [] = areturn ()"
| "aeach f (x # xs) = athen (f x) (aeach f xs)"

text \<open>The loop \<open>for node := first; node != nil; node = node.Next()\<close>.\<close>

partial_function (option) walk ::
    "(nat \<Rightarrow> ('g, unit) act) \<Rightarrow> nat option \<Rightarrow> 'g smf \<Rightarrow> (act_error \<times> 'g smf, unit \<times> 'g smf) outcome option" where
  "walk body p s =
     (case p of None \<Rightarrow> Some (Ok ((), s))
      | Some a \<Rightarrow>
          (case body a s of
             Ok (_, s') \<Rightarrow> walk body (Next (s_nodes s') a) s'
           | Err e \<Rightarrow> Some (Err e)
           | Panic \<Rightarrow> Some Panic))"

declare walk.simps [code]

section \<open>Identifiers and pools\<close>

definition mod_rules :: "nat \<Rightarrow> ('g upf_rules \<Rightarrow> 'g upf_rules) \<Rightarrow> 'g smf \<Rightarrow> 'g smf" where
  "mod_rules u f s = s\<lparr>s_rules := (s_rules s)(u := f (s_rules s u))\<rparr>"

definition mod_ctx :: "('g SMContext \<Rightarrow> 'g SMContext) \<Rightarrow> 'g smf \<Rightarrow> 'g smf" where
  "mod_ctx f s = s\<lparr>s_ctx := f (s_ctx s)\<rparr>"

definition associated :: "nat \<Rightarrow> ('g, unit) act" where
  "associated u = acall (\<lambda>s. obind (upf_at (s_upi s) u) IsAssociated)"

text \<open>\<open>Allocate\<close> of the generator that \<open>sel\<close> and \<open>upd\<close> read and write.\<close>

definition take_id ::
    "('g, 'z) act_env_scheme \<Rightarrow> ('g upf_rules \<Rightarrow> 'g) \<Rightarrow> (('g \<Rightarrow> 'g) \<Rightarrow> 'g upf_rules \<Rightarrow> 'g upf_rules) \<Rightarrow> nat \<Rightarrow> ('g, int) act" where
  "take_id env sel upd u s =
     (let (i, g) = gen_Allocate env (sel (s_rules s u)); s = mod_rules u (upd (\<lambda>_. g)) s
      in case i of None \<Rightarrow> Err (NoFreeID, s) | Some i \<Rightarrow> Ok (i, s))"

definition free_id ::
    "('g, 'z) act_env_scheme \<Rightarrow> (('g \<Rightarrow> 'g) \<Rightarrow> 'g upf_rules \<Rightarrow> 'g upf_rules) \<Rightarrow> int \<Rightarrow> nat \<Rightarrow> ('g, unit) act" where
  "free_id env upd i u = amod (mod_rules u (upd (gen_FreeID env i)))"

definition pdrID :: "('g, 'z) act_env_scheme \<Rightarrow> nat \<Rightarrow> ('g, u16) act" where
  "pdrID env u = athen (associated u) (abind (take_id env pdrIDGenerator pdrIDGenerator_update u) (\<lambda>i. areturn (word_of_int i)))"

definition farID :: "('g, 'z) act_env_scheme \<Rightarrow> nat \<Rightarrow> ('g, u32) act" where
  "farID env u = athen (associated u) (abind (take_id env farIDGenerator farIDGenerator_update u) (\<lambda>i. areturn (word_of_int i)))"

definition barID :: "('g, 'z) act_env_scheme \<Rightarrow> nat \<Rightarrow> ('g, u8) act" where
  "barID env u = athen (associated u) (abind (take_id env barIDGenerator barIDGenerator_update u) (\<lambda>i. areturn (word_of_int i)))"

definition qerID :: "('g, 'z) act_env_scheme \<Rightarrow> nat \<Rightarrow> ('g, u32) act" where
  "qerID env u = athen (associated u) (abind (take_id env qerIDGenerator qerIDGenerator_update u) (\<lambda>i. areturn (word_of_int i)))"

definition urrID :: "('g, 'z) act_env_scheme \<Rightarrow> nat \<Rightarrow> ('g, u32) act" where
  "urrID env u = abind (take_id env urrIDGenerator urrIDGenerator_update u) (\<lambda>i. areturn (word_of_int i))"

definition AddFAR :: "('g, 'z) act_env_scheme \<Rightarrow> nat \<Rightarrow> ('g, nat) act" where
  "AddFAR env u =
     athen (associated u) (abind (farID env u) (\<lambda>i.
     abind (aget (\<lambda>s. length (s_fars s))) (\<lambda>f.
     athen (amod (\<lambda>s. s\<lparr>s_fars := s_fars s @ [\<lparr>FARID = i, far_ApplyAction = no_action, far_ForwardingParameters = None,
       far_BAR = None, far_State = RULE_INITIAL\<rparr>]\<rparr>))
     (athen (amod (mod_rules u (farPool_update (AList.update i f)))) (areturn f)))))"

definition AddPDR :: "('g, 'z) act_env_scheme \<Rightarrow> nat \<Rightarrow> ('g, nat) act" where
  "AddPDR env u =
     athen (associated u) (abind (pdrID env u) (\<lambda>i. abind (AddFAR env u) (\<lambda>f.
     abind (aget (\<lambda>s. length (s_pdrs s))) (\<lambda>p.
     athen (amod (\<lambda>s. s\<lparr>s_pdrs := s_pdrs s @ [\<lparr>PDRID = i, Precedence = 0, pdr_PDI = no_PDI, OuterHeaderRemoval = None,
       pdr_FAR = Some f, pdr_URR = [], pdr_QER = [], pdr_State = RULE_INITIAL\<rparr>]\<rparr>))
     (athen (amod (mod_rules u (pdrPool_update (AList.update i p)))) (areturn p))))))"

definition AddBAR :: "('g, 'z) act_env_scheme \<Rightarrow> nat \<Rightarrow> ('g, nat) act" where
  "AddBAR env u =
     athen (associated u) (abind (barID env u) (\<lambda>i.
     abind (aget (\<lambda>s. length (s_bars s))) (\<lambda>b.
     athen (amod (\<lambda>s. s\<lparr>s_bars := s_bars s @ [\<lparr>BARID = i, bar_State = RULE_INITIAL\<rparr>]\<rparr>))
     (athen (amod (mod_rules u (barPool_update (AList.update i b)))) (areturn b)))))"

definition AddQER :: "('g, 'z) act_env_scheme \<Rightarrow> nat \<Rightarrow> ('g, nat) act" where
  "AddQER env u =
     athen (associated u) (abind (qerID env u) (\<lambda>i.
     abind (aget (\<lambda>s. length (s_qers s))) (\<lambda>q.
     athen (amod (\<lambda>s. s\<lparr>s_qers := s_qers s @ [\<lparr>QERID = i, QFI = 0, GateStatus = None, MBR = None, GBR = None,
       qer_State = RULE_INITIAL\<rparr>]\<rparr>))
     (athen (amod (mod_rules u (qerPool_update (AList.update i q)))) (areturn q)))))"

definition AddURR :: "('g, 'z) act_env_scheme \<Rightarrow> nat \<Rightarrow> u32 \<Rightarrow> (URR \<Rightarrow> URR) list \<Rightarrow> ('g, nat) act" where
  "AddURR env u i opts =
     athen (associated u) (abind (if i = 0 then urrID env u else areturn i) (\<lambda>i.
     abind (aget (\<lambda>s. length (s_urrs s))) (\<lambda>r.
     athen (amod (\<lambda>s. s\<lparr>s_urrs := s_urrs s @ [fold (\<lambda>opt urr. opt urr) opts
       \<lparr>URRID = i, MeasureMethod = ''vol'', ReportingTrigger = \<lparr>Perio = False, Volth = False, Volqu = False, Start = False\<rparr>,
        MeasurementPeriod = 0, urr_MeasurementInformation = \<lparr>Mnop = True, Mbqe = False\<rparr>, VolumeThreshold = 0, VolumeQuota = 0,
        urr_State = RULE_INITIAL\<rparr>]\<rparr>))
     (athen (amod (\<lambda>s. mod_rules u (urrPool_update (AList.update (URRID (s_urrs s ! r)) r)) s)) (areturn r)))))"

definition GetQERById :: "nat \<Rightarrow> u32 \<Rightarrow> 'g smf \<Rightarrow> nat option" where
  "GetQERById u qerId s = map_of (qerPool (s_rules s u)) qerId"

definition UPF_RemovePDR :: "('g, 'z) act_env_scheme \<Rightarrow> nat \<Rightarrow> nat \<Rightarrow> ('g, unit) act" where
  "UPF_RemovePDR env u p =
     athen (associated u) (abind (aget (\<lambda>s. PDRID (s_pdrs s ! p))) (\<lambda>i.
     athen (free_id env pdrIDGenerator_update (uint i) u) (amod (mod_rules u (pdrPool_update (AList.delete i))))))"

definition UPF_RemoveFAR :: "('g, 'z) act_env_scheme \<Rightarrow> nat \<Rightarrow> nat \<Rightarrow> ('g, unit) act" where
  "UPF_RemoveFAR env u f =
     athen (associated u) (abind (aget (\<lambda>s. FARID (s_fars s ! f))) (\<lambda>i.
     athen (free_id env farIDGenerator_update (uint i) u) (amod (mod_rules u (farPool_update (AList.delete i))))))"

definition UPF_RemoveBAR :: "('g, 'z) act_env_scheme \<Rightarrow> nat \<Rightarrow> nat \<Rightarrow> ('g, unit) act" where
  "UPF_RemoveBAR env u b =
     athen (associated u) (abind (aget (\<lambda>s. BARID (s_bars s ! b))) (\<lambda>i.
     athen (free_id env barIDGenerator_update (uint i) u) (amod (mod_rules u (barPool_update (AList.delete i))))))"

definition UPF_RemoveQER :: "('g, 'z) act_env_scheme \<Rightarrow> nat \<Rightarrow> nat \<Rightarrow> ('g, unit) act" where
  "UPF_RemoveQER env u q =
     athen (associated u) (abind (aget (\<lambda>s. QERID (s_qers s ! q))) (\<lambda>i.
     athen (free_id env qerIDGenerator_update (uint i) u) (amod (mod_rules u (qerPool_update (AList.delete i))))))"

text \<open>The generators and pools of a new UPF, as \<open>NewUPF\<close> sets them up.\<close>

definition new_rules :: "('g, 'z) act_env_scheme \<Rightarrow> 'g upf_rules" where
  "new_rules env = \<lparr>pdrPool = [], farPool = [], barPool = [], qerPool = [], urrPool = [],
     pdrIDGenerator = gen_New env 1 65535, farIDGenerator = gen_New env 1 4294967295, barIDGenerator = gen_New env 1 255,
     qerIDGenerator = gen_New env 1 4294967295, urrIDGenerator = gen_New env 1 4294967295\<rparr>"

section \<open>Usage rules of a packet detection rule\<close>

definition isUrrExist :: "URR list \<Rightarrow> nat list \<Rightarrow> nat \<Rightarrow> bool" where
  "isUrrExist h urrs urr = list_ex (\<lambda>r. URRID (h ! urr) = URRID (h ! r)) urrs"

definition AppendURRs :: "nat \<Rightarrow> nat list \<Rightarrow> 'g smf \<Rightarrow> 'g smf" where
  "AppendURRs p urrs s =
     s\<lparr>s_pdrs := (s_pdrs s)[p := (s_pdrs s ! p)\<lparr>pdr_URR :=
       fold (\<lambda>r l. if isUrrExist (s_urrs s) l r then l else l @ [r]) urrs (pdr_URR (s_pdrs s ! p))\<rparr>]\<rparr>"

section \<open>Addresses and rates\<close>

definition PDUSessionTypeIPv4 :: u8 where "PDUSessionTypeIPv4 = 1"
definition PDUSessionTypeIPv6 :: u8 where "PDUSessionTypeIPv6 = 2"
definition PDUSessionTypeIPv4IPv6 :: u8 where "PDUSessionTypeIPv4IPv6 = 3"

definition To16 :: "bytes \<Rightarrow> bytes option" where
  "To16 ip = (if length ip = 4 then Some (replicate 10 0 @ [255, 255] @ ip) else if length ip = 16 then Some ip else None)"

definition Interface_IP :: "('g, 'z) act_env_scheme \<Rightarrow> UPFInterfaceInfo \<Rightarrow> u8 \<Rightarrow> bytes option option" where
  "Interface_IP env i pduSessType =
     (if (pduSessType = PDUSessionTypeIPv4 \<or> pduSessType = PDUSessionTypeIPv4IPv6) \<and> IPv4EndPointAddresses i \<noteq> []
      then Some (Some (hd (IPv4EndPointAddresses i)))
      else if (pduSessType = PDUSessionTypeIPv6 \<or> pduSessType = PDUSessionTypeIPv4IPv6) \<and> IPv6EndPointAddresses i \<noteq> []
      then Some (Some (hd (IPv6EndPointAddresses i)))
      else if EndpointFQDN i \<noteq> [] then
        (case ResolveIPAddr env (EndpointFQDN i) of
           None \<Rightarrow> None
         | Some ip \<Rightarrow>
             Some (if pduSessType = PDUSessionTypeIPv4 then To4 ip
                   else if pduSessType = PDUSessionTypeIPv6 then To16 ip
                   else case To4 ip of Some v4 \<Rightarrow> Some v4 | None \<Rightarrow> To16 ip))
      else None)"

text \<open>\<open>int\<close> has 64 bits; a text that is not a number gives rate 0 and no error.\<close>

definition BitRateTokbps :: "string \<Rightarrow> u64 option" where
  "BitRateTokbps bitrate =
     (let s = Split bitrate CHR '' '' in
      case Atoi (hd s) of
        None \<Rightarrow> Some 0
      | Some digit \<Rightarrow>
          if length s = 1 then None
          else Some (if s ! 1 = ''bps'' then word_of_int (sgn digit * (\<bar>digit\<bar> div 1000))
                     else if s ! 1 = ''Kbps'' then word_of_int digit
                     else if s ! 1 = ''Mbps'' then word_of_int (digit * 1000)
                     else if s ! 1 = ''Gbps'' then word_of_int (digit * 1000000)
                     else if s ! 1 = ''Tbps'' then word_of_int (digit * 1000000000)
                     else 0))"

section \<open>PFCP sessions\<close>

definition AllocateLocalSEID :: "('g, u64) act" where
  "AllocateLocalSEID =
     athen (amod (\<lambda>s. s\<lparr>LocalSEIDCount := LocalSEIDCount s + 1\<rparr>)) (aget LocalSEIDCount)"

definition upf_ip :: "('g, 'z) act_env_scheme \<Rightarrow> UPF \<Rightarrow> string" where
  "upf_ip env upf = IP_String env (ResolveNodeIdToIp env (upf_NodeID upf))"

definition PutPDRtoPFCPSession :: "('g, 'z) act_env_scheme \<Rightarrow> UPF \<Rightarrow> nat \<Rightarrow> ('g, unit) act" where
  "PutPDRtoPFCPSession env upf p =
     abind (aget (\<lambda>s. (map_of (PFCPContext (s_ctx s)) (upf_ip env upf), PDRID (s_pdrs s ! p)))) (\<lambda>(c, i).
       case c of
         Some c \<Rightarrow> amod (mod_ctx (PFCPContext_update (AList.update (upf_ip env upf) (c\<lparr>PDRs := AList.update i p (PDRs c)\<rparr>))))
       | None \<Rightarrow> afail (NoPFCPContext (upf_ip env upf) i))"

definition RemovePDRfromPFCPSession :: "('g, 'z) act_env_scheme \<Rightarrow> UPF \<Rightarrow> nat \<Rightarrow> ('g, unit) act" where
  "RemovePDRfromPFCPSession env upf p =
     abind (aget (\<lambda>s. (map_of (PFCPContext (s_ctx s)) (upf_ip env upf), PDRID (s_pdrs s ! p)))) (\<lambda>(c, i).
       abind (aderef c) (\<lambda>c. amod (mod_ctx (PFCPContext_update (AList.update (upf_ip env upf) (c\<lparr>PDRs := AList.delete i (PDRs c)\<rparr>))))))"

end
