(* ===== verification/Smf_Activation.thy ===== *)
theory Smf_Activation
  imports Smf_Rules
begin

text \<open>
  Activation and deactivation of data paths (\<^verbatim>\<open>NFs/smf/internal/context/datapath.go\<close>): every node of a path gets a
  packet detection and a forwarding rule per direction, which lead from tunnel to tunnel along the path. The functions
  for the second tunnel of dual connectivity differ in the tunnel endpoint identifiers, the access network's end, the
  match of inner downlink rules, and in that they go on after an error.
\<close>

section \<open>Tunnels of a node\<close>

datatype direction = UpLink | DownLink

definition tunnel :: "direction \<Rightarrow> DataPathNode \<Rightarrow> GTPTunnel option" where
  "tunnel d n = (case d of UpLink \<Rightarrow> UpLinkTunnel n | DownLink \<Rightarrow> DownLinkTunnel n)"

definition mod_tunnel :: "direction \<Rightarrow> (GTPTunnel \<Rightarrow> GTPTunnel) \<Rightarrow> nat \<Rightarrow> 'g smf \<Rightarrow> 'g smf" where
  "mod_tunnel d f a s =
     s\<lparr>s_nodes := (s_nodes s)[a := (case d of
         UpLink \<Rightarrow> (s_nodes s ! a)\<lparr>UpLinkTunnel := map_option f (UpLinkTunnel (s_nodes s ! a))\<rparr>
       | DownLink \<Rightarrow> (s_nodes s ! a)\<lparr>DownLinkTunnel := map_option f (DownLinkTunnel (s_nodes s ! a))\<rparr>)]\<rparr>"

definition neighbour :: "direction \<Rightarrow> dp_heap \<Rightarrow> nat \<Rightarrow> nat option" where
  "neighbour d h a = (case d of UpLink \<Rightarrow> Prev h a | DownLink \<Rightarrow> Next h a)"

text \<open>The node, its UPF, its tunnel; a nil pointer panics.\<close>

definition a_node :: "nat \<Rightarrow> ('g, DataPathNode) act" where
  "a_node a = acall (\<lambda>s. dn_at (s_nodes s) a)"

definition a_upf :: "nat option \<Rightarrow> ('g, nat \<times> UPF) act" where
  "a_upf p = abind (aderef p) (\<lambda>u. abind (acall (\<lambda>s. upf_at (s_upi s) u)) (\<lambda>upf. areturn (u, upf)))"

definition activate_tunnel :: "('g, 'z) act_env_scheme \<Rightarrow> direction \<Rightarrow> ('g SMContext \<Rightarrow> u32) \<Rightarrow> nat \<Rightarrow> ('g, unit) act" where
  "activate_tunnel env d teid a =
     abind (a_node a) (\<lambda>n.
     abind (aderef (tunnel d n)) (\<lambda>_.
     athen (amod (\<lambda>s. mod_tunnel d (\<lambda>t. t\<lparr>SrcEndPoint := neighbour d (s_nodes s) a, DestEndPoint := Some a\<rparr>) a s))
     (abind (a_upf (dn_UPF n)) (\<lambda>(u, upf).
     abind (aon_error (mod_tunnel d (\<lambda>t. t\<lparr>gt_PDR := None\<rparr>) a) (AddPDR env u)) (\<lambda>p.
     athen (amod (mod_tunnel d (\<lambda>t. t\<lparr>gt_PDR := Some p\<rparr>) a))
     (athen (PutPDRtoPFCPSession env upf p)
       (amod (\<lambda>s. mod_tunnel d (\<lambda>t. t\<lparr>gt_TEID := teid (s_ctx s)\<rparr>) a s))))))))"

definition ActivateUpLinkTunnel :: "('g, 'z) act_env_scheme \<Rightarrow> nat \<Rightarrow> ('g, unit) act" where
  "ActivateUpLinkTunnel env = activate_tunnel env UpLink LocalULTeid"

definition ActivateUpLinkDcTunnel :: "('g, 'z) act_env_scheme \<Rightarrow> nat \<Rightarrow> ('g, unit) act" where
  "ActivateUpLinkDcTunnel env = activate_tunnel env UpLink LocalULTeidForSplitPDUSession"

definition ActivateDownLinkTunnel :: "('g, 'z) act_env_scheme \<Rightarrow> nat \<Rightarrow> ('g, unit) act" where
  "ActivateDownLinkTunnel env = activate_tunnel env DownLink LocalDLTeid"

definition ActivateDownLinkDcTunnel :: "('g, 'z) act_env_scheme \<Rightarrow> nat \<Rightarrow> ('g, unit) act" where
  "ActivateDownLinkDcTunnel env = activate_tunnel env DownLink LocalDLTeidForSplitPDUSession"

text \<open>All four \<open>Deactivate\<close> functions have this body; the pointers in the tunnel stay.\<close>

definition deactivate_tunnel :: "('g, 'z) act_env_scheme \<Rightarrow> direction \<Rightarrow> nat \<Rightarrow> ('g, unit) act" where
  "deactivate_tunnel env d a =
     abind (a_node a) (\<lambda>n.
     abind (aderef (tunnel d n)) (\<lambda>t.
       case gt_PDR t of
         None \<Rightarrow> areturn ()
       | Some p \<Rightarrow>
           abind (a_upf (dn_UPF n)) (\<lambda>(u, upf).
           athen (RemovePDRfromPFCPSession env upf p)
           (athen (alogged (UPF_RemovePDR env u p))
           (abind (aget (\<lambda>s. s_pdrs s ! p)) (\<lambda>pdr.
           athen (case pdr_FAR pdr of
               None \<Rightarrow> areturn ()
             | Some f \<Rightarrow>
                 athen (alogged (UPF_RemoveFAR env u f))
                 (abind (aget (\<lambda>s. far_BAR (s_fars s ! f))) (\<lambda>bar.
                   case bar of None \<Rightarrow> areturn () | Some b \<Rightarrow> alogged (UPF_RemoveBAR env u b))))
           (aeach (\<lambda>q. alogged (UPF_RemoveQER env u q)) (pdr_QER pdr))))))))"

definition DeactivateUpLinkTunnel :: "('g, 'z) act_env_scheme \<Rightarrow> nat \<Rightarrow> ('g, unit) act" where
  "DeactivateUpLinkTunnel env = deactivate_tunnel env UpLink"

definition DeactivateUpLinkDcTunnel :: "('g, 'z) act_env_scheme \<Rightarrow> nat \<Rightarrow> ('g, unit) act" where
  "DeactivateUpLinkDcTunnel env = deactivate_tunnel env UpLink"

definition DeactivateDownLinkTunnel :: "('g, 'z) act_env_scheme \<Rightarrow> nat \<Rightarrow> ('g, unit) act" where
  "DeactivateDownLinkTunnel env = deactivate_tunnel env DownLink"

definition DeactivateDownLinkDcTunnel :: "('g, 'z) act_env_scheme \<Rightarrow> nat \<Rightarrow> ('g, unit) act" where
  "DeactivateDownLinkDcTunnel env = deactivate_tunnel env DownLink"

section \<open>Usage rules of a path\<close>

definition getUrrIdKey :: "string \<Rightarrow> u32 \<Rightarrow> string" where
  "getUrrIdKey uuid urrId = uuid @ '':'' @ Itoa (unat urrId)"

text \<open>\<open>AppendURRs\<close> on the rule of a tunnel, if there is one.\<close>

definition append_urr :: "direction \<Rightarrow> nat \<Rightarrow> DataPathNode \<Rightarrow> 'g smf \<Rightarrow> 'g smf" where
  "append_urr d r n s = (case Option.bind (tunnel d n) gt_PDR of None \<Rightarrow> s | Some p \<Rightarrow> AppendURRs p [r] s)"

definition addUrrToNode :: "('g, 'z) act_env_scheme \<Rightarrow> DataPathNode \<Rightarrow> u32 \<Rightarrow> bool \<Rightarrow> bool \<Rightarrow> ('g, unit) act" where
  "addUrrToNode env n urrId isMeasurePkt isMeasureBeforeQos =
     abind (a_upf (dn_UPF n)) (\<lambda>(u, upf).
     abind (aget (\<lambda>s. (map_of (UrrUpfMap (s_ctx s)) (getUrrIdKey (upf_uuid upf) urrId), s_ctx s))) (\<lambda>(found, c).
       alogged (abind (case found of
           Some r \<Rightarrow> areturn r
         | None \<Rightarrow> abind (AddURR env u urrId [NewMeasureInformation isMeasurePkt isMeasureBeforeQos,
             NewMeasurementPeriod (UrrReportTime c), NewVolumeThreshold (UrrReportThreshold c)]) (\<lambda>r. areturn (Some r))) (\<lambda>r.
         case r of
           None \<Rightarrow> areturn ()
         | Some r \<Rightarrow> amod (\<lambda>s. append_urr DownLink r n (append_urr UpLink r n s))))))"

definition urr_id :: "UrrType \<Rightarrow> 'g smf \<Rightarrow> u32" where
  "urr_id t s = (case map_of (UrrIdMap (s_ctx s)) t of None \<Rightarrow> 0 | Some i \<Rightarrow> i)"

definition add_urrs :: "('g, 'z) act_env_scheme \<Rightarrow> nat \<Rightarrow> ('g, unit) act" where
  "add_urrs env a =
     abind (a_node a) (\<lambda>n.
     abind (aget (\<lambda>s. if IsANUPF (s_nodes s) a
         then (if Next (s_nodes s) a = None then (urr_id N3N6_MBQE_URR s, urr_id N3N6_MAQE_URR s)
               else (urr_id N3N9_MBQE_URR s, urr_id N3N9_MAQE_URR s))
         else (urr_id N9N6_MBQE_URR s, urr_id N9N6_MAQE_URR s))) (\<lambda>(mbqe, maqe).
     athen (addUrrToNode env n mbqe True True) (addUrrToNode env n maqe True False)))"

type_synonym 'g ended = "(act_error \<times> 'g smf, unit \<times> 'g smf) outcome option"

definition addUrrToPath :: "('g, 'z) act_env_scheme \<Rightarrow> DataPath \<Rightarrow> 'g smf \<Rightarrow> 'g ended" where
  "addUrrToPath env path s =
     (if UrrReportTime (s_ctx s) = 0 \<and> UrrReportThreshold (s_ctx s) = 0 then Some (Ok ((), s))
      else walk (add_urrs env) (FirstDPNode path) s)"

section \<open>QoS rules of a node\<close>

definition SelectedSessionRule :: "'g SMContext \<Rightarrow> SessionRule option" where
  "SelectedSessionRule c =
     (if SelectedSessionRuleID c = [] then None
      else case map_of (SessionRules c) (SelectedSessionRuleID c) of None \<Rightarrow> None | Some r \<Rightarrow> r)"

definition getQosIdKey :: "string \<Rightarrow> u8 \<Rightarrow> string" where
  "getQosIdKey uuid qfi = uuid @ '':'' @ Itoa (unat qfi)"

definition mod_qer :: "nat \<Rightarrow> (QER \<Rightarrow> QER) \<Rightarrow> 'g smf \<Rightarrow> 'g smf" where
  "mod_qer q f s = s\<lparr>s_qers := (s_qers s)[q := f (s_qers s ! q)]\<rparr>"

definition a_rate :: "string \<Rightarrow> ('g, u64) act" where
  "a_rate r = (case BitRateTokbps r of None \<Rightarrow> afail NoUnit | Some k \<Rightarrow> areturn k)"

definition ambr_qer :: "('g, 'z) act_env_scheme \<Rightarrow> SessionRule option \<Rightarrow> nat \<times> UPF \<Rightarrow> ('g, nat option) act" where
  "ambr_qer env rule = (\<lambda>(u, upf).
     abind (aget (\<lambda>s. map_of (AMBRQerMap (s_ctx s)) (upf_uuid upf))) (\<lambda>found.
       case found of
         None \<Rightarrow>
           abind (AddQER env u) (\<lambda>q.
           abind (aderef rule) (\<lambda>rule.
           abind (aderef (AuthSessAmbr rule)) (\<lambda>ambr.
           abind (a_rate (ambr_Uplink ambr)) (\<lambda>ul.
           abind (a_rate (ambr_Downlink ambr)) (\<lambda>dl.
           athen (amod (mod_qer q (\<lambda>qer. qer\<lparr>QFI := DefQosQFI rule, GateStatus := Some (True, True), MBR := Some (ul, dl)\<rparr>)))
           (athen (amod (\<lambda>s. mod_ctx (AMBRQerMap_update (AList.update (upf_uuid upf) (QERID (s_qers s ! q)))) s))
             (areturn (Some q))))))))
       | Some i \<Rightarrow> aget (\<lambda>s. map_of (qerPool (s_rules s u)) i)))"

definition default_qer :: "('g, 'z) act_env_scheme \<Rightarrow> SessionRule option \<Rightarrow> bool \<Rightarrow> nat \<times> UPF \<Rightarrow> ('g, nat option) act" where
  "default_qer env rule isDefault = (\<lambda>(u, upf).
     if \<not> isDefault then areturn None
     else
       abind (aderef rule) (\<lambda>rule.
       let id = getQosIdKey (upf_uuid upf) (DefQosQFI rule) in
       abind (aget (\<lambda>s. map_of (QerUpfMap (s_ctx s)) id)) (\<lambda>found.
         case found of
           None \<Rightarrow>
             abind (AddQER env u) (\<lambda>q.
             athen (amod (mod_qer q (\<lambda>qer. qer\<lparr>QFI := DefQosQFI rule, GateStatus := Some (True, True)\<rparr>)))
             (athen (amod (\<lambda>s. mod_ctx (QerUpfMap_update (AList.update id (QERID (s_qers s ! q)))) s))
               (areturn (Some q))))
         | Some i \<Rightarrow> aget (\<lambda>s. map_of (qerPool (s_rules s u)) i))))"

section \<open>Rules of a node\<close>

definition mod_pdr :: "nat \<Rightarrow> (PDR \<Rightarrow> PDR) \<Rightarrow> 'g smf \<Rightarrow> 'g smf" where
  "mod_pdr p f s = s\<lparr>s_pdrs := (s_pdrs s)[p := f (s_pdrs s ! p)]\<rparr>"

definition mod_far :: "nat \<Rightarrow> (FAR \<Rightarrow> FAR) \<Rightarrow> 'g smf \<Rightarrow> 'g smf" where
  "mod_far f g s = s\<lparr>s_fars := (s_fars s)[f := g (s_fars s ! f)]\<rparr>"

text \<open>The address of a UPF for the session; \<open>IP\<close> panics on a nil interface.\<close>

definition interface_ip :: "('g, 'z) act_env_scheme \<Rightarrow> UPFInterfaceInfo option \<Rightarrow> ('g, bytes option) act" where
  "interface_ip env iface =
     abind (aderef iface) (\<lambda>i. abind (aget (\<lambda>s. Interface_IP env i (SelectedPDUSessionType (s_ctx s)))) (\<lambda>ip.
       case ip of None \<Rightarrow> afail AddressNotMatched | Some ip \<Rightarrow> areturn ip))"

definition network_instance :: "('g, 'z) act_env_scheme \<Rightarrow> 'g SMContext \<Rightarrow> NetworkInstance" where
  "network_instance env c = \<lparr>ni_NetworkInstance = sc_Dnn c, ni_FQDNEncoding = NwInstFqdnEncoding env\<rparr>"

definition ue_address :: "'g SMContext \<Rightarrow> bool \<Rightarrow> UEIPAddress" where
  "ue_address c sd = \<lparr>ua_V4 = True, ua_Sd = sd, ua_Ipv4Address = Option.bind (sc_PDUAddress c) To4\<rparr>"

definition set_qers_precedence :: "nat option \<Rightarrow> nat option \<Rightarrow> bool \<Rightarrow> u32 \<Rightarrow> PDR \<Rightarrow> PDR" where
  "set_qers_precedence defaultQER ambrQER gbr precedence pdr =
     pdr\<lparr>pdr_QER := pdr_QER pdr @ (case defaultQER of None \<Rightarrow> [] | Some q \<Rightarrow> [q]) @
           (case ambrQER of None \<Rightarrow> [] | Some q \<Rightarrow> if gbr then [] else [q]),
         Precedence := precedence\<rparr>"

definition ul_PDI :: "('g, 'z) act_env_scheme \<Rightarrow> 'g SMContext \<Rightarrow> bytes option \<Rightarrow> u32 \<Rightarrow> PDI" where
  "ul_PDI env c upIP teid =
     \<lparr>SourceInterface = InterfaceAccess, LocalFTeid = Some \<lparr>ft_V4 = True, ft_Ipv4Address = upIP, ft_Teid = teid\<rparr>,
      pdi_NetworkInstance = Some (network_instance env c), pdi_UEIPAddress = Some (ue_address c False),
      pdi_SDFFilter = None, ApplicationID = []\<rparr>"

definition forward :: ApplyActionFlags where
  "forward = \<lparr>Buff = False, Drop = False, Dupl = False, Forw = True, Nocp = False\<rparr>"

definition gtp_header :: "bytes option \<Rightarrow> u32 \<Rightarrow> OuterHeaderCreation" where
  "gtp_header ip teid = \<lparr>ohc_Description = GtpUUdpIpv4, ohc_Ipv4Address = ip, ohc_Teid = teid\<rparr>"

definition ul_params :: "('g, 'z) act_env_scheme \<Rightarrow> 'g SMContext \<Rightarrow> ForwardingParameters" where
  "ul_params env c = no_forwarding\<lparr>DestinationInterface := InterfaceCore, fp_NetworkInstance := Some (network_instance env c)\<rparr>"

definition setup_uplink ::
    "('g, 'z) act_env_scheme \<Rightarrow> DataPath \<Rightarrow> u32 \<Rightarrow> nat option \<Rightarrow> nat option \<Rightarrow> nat \<Rightarrow> GTPTunnel \<Rightarrow> ('g, unit) act" where
  "setup_uplink env path precedence defaultQER ambrQER a t =
     abind (aderef (DestEndPoint t)) (\<lambda>dest.
     abind (a_node dest) (\<lambda>dn.
     abind (aderef (gt_PDR t)) (\<lambda>p.
     athen (amod (mod_pdr p (set_qers_precedence defaultQER ambrQER (GBRFlow path) precedence)))
     (abind (a_upf (dn_UPF dn)) (\<lambda>(_, upf).
     abind (aget (\<lambda>s. (s_nodes s, s_ctx s))) (\<lambda>(h, c).
     abind (case GetInterface upf (if IsANUPF h a then ''N3'' else ''N9'') (sc_Dnn c) of
         None \<Rightarrow> afail NoInterface | Some i \<Rightarrow> interface_ip env (Some i)) (\<lambda>upIP.
     athen (amod (mod_pdr p (\<lambda>pdr. pdr\<lparr>pdr_PDI := ul_PDI env c upIP (gt_TEID t), OuterHeaderRemoval := Some GtpUUdpIpv4\<rparr>)))
     (abind (aget (\<lambda>s. pdr_FAR (s_pdrs s ! p))) (\<lambda>far.
     abind (aderef far) (\<lambda>f.
     athen (amod (mod_far f (\<lambda>far. far\<lparr>far_ApplyAction := forward, far_ForwardingParameters := Some (ul_params env c)\<rparr>)))
     (case Next h a of
        None \<Rightarrow> areturn ()
      | Some b \<Rightarrow>
          abind (a_node b) (\<lambda>nb.
          abind (aderef (UpLinkTunnel nb)) (\<lambda>tb.
          abind (aderef (DestEndPoint tb)) (\<lambda>db.
          abind (a_node db) (\<lambda>ndb.
          abind (a_upf (dn_UPF ndb)) (\<lambda>(_, upf).
          abind (interface_ip env (GetInterface upf ''N9'' (sc_Dnn c))) (\<lambda>upIP.
            amod (mod_far f (\<lambda>far. far\<lparr>far_ForwardingParameters :=
              Some ((ul_params env c)\<lparr>fp_OuterHeaderCreation := Some (gtp_header upIP (gt_TEID tb))\<rparr>)\<rparr>)))))))))))))))))))"

definition dl_anchor_PDI :: "('g, 'z) act_env_scheme \<Rightarrow> 'g SMContext \<Rightarrow> PDI" where
  "dl_anchor_PDI env c = no_PDI\<lparr>SourceInterface := InterfaceCore, pdi_NetworkInstance := Some (network_instance env c),
     pdi_UEIPAddress := Some (ue_address c True)\<rparr>"

definition dl_PDI :: "bool \<Rightarrow> ('g, 'z) act_env_scheme \<Rightarrow> 'g SMContext \<Rightarrow> bytes option \<Rightarrow> u32 \<Rightarrow> PDI" where
  "dl_PDI dc env c upIP teid =
     (if dc then no_PDI else dl_anchor_PDI env c)
     \<lparr>SourceInterface := InterfaceCore, LocalFTeid := Some \<lparr>ft_V4 = True, ft_Ipv4Address = upIP, ft_Teid = teid\<rparr>\<rparr>"

definition dl_params :: "bytes option \<Rightarrow> u32 \<Rightarrow> ForwardingParameters" where
  "dl_params upIP teid = no_forwarding\<lparr>fp_OuterHeaderCreation := Some (gtp_header upIP teid)\<rparr>"

definition an_params :: "('g, 'z) act_env_scheme \<Rightarrow> 'g SMContext \<Rightarrow> ANInformation \<Rightarrow> ForwardingParameters" where
  "an_params env c an =
     (case an_IPAddress an of
        None \<Rightarrow> no_forwarding
      | Some ip \<Rightarrow> no_forwarding\<lparr>fp_NetworkInstance := Some (network_instance env c),
          fp_OuterHeaderCreation := Some (gtp_header (To4 ip) (an_TEID an))\<rparr>)"

definition an_tunnel :: "bool \<Rightarrow> 'g SMContext \<Rightarrow> 'g UPTunnel option" where
  "an_tunnel dc c = (if dc then DCTunnel c else sc_Tunnel c)"

definition match_downlink :: "bool \<Rightarrow> ('g, 'z) act_env_scheme \<Rightarrow> nat \<Rightarrow> GTPTunnel \<Rightarrow> DataPathNode \<Rightarrow> nat \<Rightarrow> ('g, unit) act" where
  "match_downlink dc env a t dn p =
     abind (aget (\<lambda>s. (s_nodes s, s_ctx s))) (\<lambda>(h, c).
       if IsAnchorUPF h a then amod (mod_pdr p (\<lambda>pdr. pdr\<lparr>pdr_PDI := dl_anchor_PDI env c\<rparr>))
       else athen (amod (mod_pdr p (\<lambda>pdr. pdr\<lparr>OuterHeaderRemoval := Some GtpUUdpIpv4\<rparr>)))
         (abind (a_upf (dn_UPF dn)) (\<lambda>(_, upf).
          abind (interface_ip env (GetInterface upf ''N9'' (sc_Dnn c))) (\<lambda>upIP.
            amod (mod_pdr p (\<lambda>pdr. pdr\<lparr>pdr_PDI := dl_PDI dc env c upIP (gt_TEID t)\<rparr>))))))"

definition setup_downlink ::
    "bool \<Rightarrow> ('g, 'z) act_env_scheme \<Rightarrow> DataPath \<Rightarrow> u32 \<Rightarrow> nat option \<Rightarrow> nat option \<Rightarrow> nat \<Rightarrow> GTPTunnel \<Rightarrow> ('g, unit) act" where
  "setup_downlink dc env path precedence defaultQER ambrQER a t =
     abind (aderef (DestEndPoint t)) (\<lambda>dest.
     abind (a_node dest) (\<lambda>dn.
     abind (aderef (gt_PDR t)) (\<lambda>p.
     athen (amod (mod_pdr p (set_qers_precedence defaultQER ambrQER (GBRFlow path) precedence)))
     (abind (aget (\<lambda>s. (s_nodes s, s_ctx s))) (\<lambda>(h, c).
     athen (match_downlink dc env a t dn p)
     (abind (aget (\<lambda>s. pdr_FAR (s_pdrs s ! p))) (\<lambda>far.
       case Prev h a of
         Some b \<Rightarrow>
           abind (a_node b) (\<lambda>nb.
           abind (aderef far) (\<lambda>f.
           athen (amod (mod_far f (\<lambda>far. far\<lparr>far_ApplyAction := forward\<rparr>)))
           (abind (a_upf (dn_UPF nb)) (\<lambda>(_, upf).
            abind (interface_ip env (GetInterface upf ''N9'' (sc_Dnn c))) (\<lambda>upIP.
            abind (aderef (DownLinkTunnel nb)) (\<lambda>tb.
              amod (mod_far f (\<lambda>far. far\<lparr>far_ForwardingParameters := Some (dl_params upIP (gt_TEID tb))\<rparr>))))))))
       | None \<Rightarrow>
           abind (aderef (FirstDPNode path)) (\<lambda>b.
           abind (a_node b) (\<lambda>nb.
           abind (aderef (DownLinkTunnel nb)) (\<lambda>tb.
           abind (aderef (gt_PDR tb)) (\<lambda>p.
           abind (aget (\<lambda>s. pdr_FAR (s_pdrs s ! p))) (\<lambda>far.
           abind (aderef far) (\<lambda>f.
           athen (amod (mod_far f (\<lambda>far. far\<lparr>far_ForwardingParameters := Some no_forwarding\<rparr>)))
           (abind (aderef (an_tunnel dc c)) (\<lambda>tn.
              amod (mod_far f (\<lambda>far. far\<lparr>far_ForwardingParameters := Some (an_params env c (tn_ANInformation tn))\<rparr>)))))))))))))))))"

definition setup_node :: "bool \<Rightarrow> ('g, 'z) act_env_scheme \<Rightarrow> DataPath \<Rightarrow> u32 \<Rightarrow> SessionRule option \<Rightarrow> nat \<Rightarrow> ('g, unit) act" where
  "setup_node dc env path precedence rule a =
     abind (a_node a) (\<lambda>n.
     abind (a_upf (dn_UPF n)) (\<lambda>u.
     abind (ambr_qer env rule u) (\<lambda>ambrQER.
     abind (default_qer env rule (IsDefaultPath path) u) (\<lambda>defaultQER.
     athen (case UpLinkTunnel n of None \<Rightarrow> areturn () | Some t \<Rightarrow> setup_uplink env path precedence defaultQER ambrQER a t)
     (case DownLinkTunnel n of None \<Rightarrow> areturn () | Some t \<Rightarrow> setup_downlink dc env path precedence defaultQER ambrQER a t)))))"

section \<open>Paths\<close>

definition allocate_seid :: "('g, 'z) act_env_scheme \<Rightarrow> nat \<Rightarrow> ('g, unit) act" where
  "allocate_seid env a =
     abind (a_node a) (\<lambda>n.
     abind (a_upf (dn_UPF n)) (\<lambda>(_, upf).
     abind (aget (\<lambda>s. map_of (PFCPContext (s_ctx s)) (upf_ip env upf))) (\<lambda>found.
       case found of
         Some _ \<Rightarrow> areturn ()
       | None \<Rightarrow>
           abind AllocateLocalSEID (\<lambda>seid.
           athen (amod (mod_ctx (PFCPContext_update (AList.update (upf_ip env upf)
             \<lparr>PDRs = [], pc_NodeID = upf_NodeID upf, pc_LocalSEID = seid, pc_RemoteSEID = 0\<rparr>))))
           (amod (\<lambda>s. s\<lparr>seidSMContextMap := AList.update seid (sc_Ref (s_ctx s)) (seidSMContextMap s)\<rparr>))))))"

definition AllocateLocalSEIDForDataPath :: "('g, 'z) act_env_scheme \<Rightarrow> DataPath \<Rightarrow> 'g smf \<Rightarrow> 'g ended" where
  "AllocateLocalSEIDForDataPath env path s = walk (allocate_seid env) (FirstDPNode path) s"

text \<open>One loop after the other; an early return of one ends the function.\<close>

definition next_loop :: "('g smf \<Rightarrow> 'g ended) \<Rightarrow> ('g smf \<Rightarrow> 'g ended) \<Rightarrow> 'g smf \<Rightarrow> 'g ended" where
  "next_loop m k s = (case m s of Some (Ok (_, s)) \<Rightarrow> k s | r \<Rightarrow> r)"

text \<open>\<open>Activated\<close> is set when all loops are done.\<close>

definition path_after :: "DataPath \<Rightarrow> 'g ended \<Rightarrow> (DataPath \<times> 'g smf) upi option" where
  "path_after path r =
     map_option (\<lambda>r. case r of Ok (_, s) \<Rightarrow> Ok (path\<lparr>Activated := True\<rparr>, s) | Err (e, s) \<Rightarrow> Ok (path, s) | Panic \<Rightarrow> Panic) r"

definition setup_path :: "bool \<Rightarrow> ('g, 'z) act_env_scheme \<Rightarrow> DataPath \<Rightarrow> u32 \<Rightarrow> 'g smf \<Rightarrow> 'g ended" where
  "setup_path dc env path precedence =
     next_loop (addUrrToPath env path)
       (\<lambda>s. walk (setup_node dc env path precedence (SelectedSessionRule (s_ctx s))) (FirstDPNode path) s)"

definition ActivateTunnelAndPDR ::
    "('g, 'z) act_env_scheme \<Rightarrow> DataPath \<Rightarrow> u32 \<Rightarrow> 'g smf \<Rightarrow> (DataPath \<times> 'g smf) upi option" where
  "ActivateTunnelAndPDR env path precedence s =
     path_after path
       (next_loop (AllocateLocalSEIDForDataPath env path)
         (next_loop (walk (\<lambda>a. athen (ActivateUpLinkTunnel env a) (ActivateDownLinkTunnel env a)) (FirstDPNode path))
           (setup_path False env path precedence)) s)"

definition ActivateDcTunnelAndPDR ::
    "('g, 'z) act_env_scheme \<Rightarrow> DataPath \<Rightarrow> u32 \<Rightarrow> 'g smf \<Rightarrow> (DataPath \<times> 'g smf) upi option" where
  "ActivateDcTunnelAndPDR env path precedence s =
     path_after path
       (next_loop (AllocateLocalSEIDForDataPath env path)
         (next_loop (walk (\<lambda>a. athen (alogged (ActivateUpLinkDcTunnel env a)) (alogged (ActivateDownLinkDcTunnel env a))) (FirstDPNode path))
           (setup_path True env path precedence)) s)"

definition deactivate_path ::
    "(nat \<Rightarrow> ('g, unit) act) \<Rightarrow> DataPath \<Rightarrow> 'g smf \<Rightarrow> (act_error \<times> 'g smf, DataPath \<times> 'g smf) outcome option" where
  "deactivate_path body path s =
     map_option (\<lambda>targetNodes. obind (aeach body targetNodes s) (\<lambda>(_, s). Ok (path\<lparr>Activated := False\<rparr>, s)))
       (dp_nodes (s_nodes s) (FirstDPNode path))"

definition DeactivateTunnelAndPDR ::
    "('g, 'z) act_env_scheme \<Rightarrow> DataPath \<Rightarrow> 'g smf \<Rightarrow> (act_error \<times> 'g smf, DataPath \<times> 'g smf) outcome option" where
  "DeactivateTunnelAndPDR env =
     deactivate_path (\<lambda>a. athen (DeactivateUpLinkTunnel env a) (DeactivateDownLinkTunnel env a))"

definition DeactivateDcTunnelAndPDR ::
    "('g, 'z) act_env_scheme \<Rightarrow> DataPath \<Rightarrow> 'g smf \<Rightarrow> (act_error \<times> 'g smf, DataPath \<times> 'g smf) outcome option" where
  "DeactivateDcTunnelAndPDR env =
     deactivate_path (\<lambda>a. athen (DeactivateUpLinkDcTunnel env a) (DeactivateDownLinkDcTunnel env a))"

end
