(* ===== verification/Smf_Activation_Tunnels.thy ===== *)
theory Smf_Activation_Tunnels
  imports Smf_Activation
begin

text \<open>
  The first loops of the activation of a data path: total correctness of steps as a weakest precondition calculus
  (\<open>runs\<close>, with the collection \<open>wp_simps\<close>), what is relied on of identifier generators, the PFCP sessions of a path and
  the tunnels of its nodes.
\<close>

section \<open>Total correctness of steps\<close>

named_theorems wp_simps \<open>weakest preconditions of steps\<close>

definition runs :: "('g, 'a) act \<Rightarrow> 'g smf \<Rightarrow> ('a \<Rightarrow> 'g smf \<Rightarrow> bool) \<Rightarrow> bool" where
  "runs m s Q \<longleftrightarrow> (\<exists>x s'. m s = Ok (x, s') \<and> Q x s')"

lemma runs_basic [wp_simps]:
  "runs (areturn x) s Q \<longleftrightarrow> Q x s"
  "runs (aget f) s Q \<longleftrightarrow> Q (f s) s"
  "runs (amod g) s R \<longleftrightarrow> R () (g s)"
  "runs (abind m k) s Q \<longleftrightarrow> runs m s (\<lambda>x s. runs (k x) s Q)"
  "runs (athen n k') s Q \<longleftrightarrow> runs n s (\<lambda>_ s. runs k' s Q)"
  "runs (aderef p) s Q \<longleftrightarrow> p \<noteq> None \<and> Q (the p) s"
  "runs (aon_error g m) s T \<longleftrightarrow> runs m s T"
  by (auto simp: runs_def areturn_def aget_def amod_def abind_def athen_def aderef_def aon_error_def apanic_def go_simps
      split: option.split outcome.split prod.splits)

lemma runs_acall [wp_simps]: "runs (acall f) s Q \<longleftrightarrow> (\<exists>x. f s = Ok x \<and> Q x s)"
  by (auto simp: runs_def acall_def split: outcome.splits)

lemma runs_aeach [wp_simps]:
  "runs (aeach f []) s Q \<longleftrightarrow> Q () s"
  "runs (aeach f (x # xs)) s Q \<longleftrightarrow> runs (f x) s (\<lambda>_ s. runs (aeach f xs) s Q)"
  by (simp_all add: wp_simps)

lemma runs_afail [wp_simps]: "\<not> runs (afail e) s Q"
  by (simp add: runs_def afail_def)

lemma runs_mono: "runs m s Q \<Longrightarrow> (\<And>x s'. Q x s' \<Longrightarrow> R x s') \<Longrightarrow> runs m s R"
  by (auto simp: runs_def)

lemma runs_alogged: "runs m s Q \<Longrightarrow> runs (alogged m) s Q"
  by (auto simp: runs_def alogged_def)

lemma walk_runs:
  assumes "dlist (s_nodes s) p prev l" and "I [] s"
    and step: "\<And>pre a rest s. l = pre @ a # rest \<Longrightarrow> I pre s \<Longrightarrow> runs (body a) s (\<lambda>_. I (pre @ [a]))"
    and links: "\<And>pre t a. I pre t \<Longrightarrow> Next (s_nodes t) a = Next (s_nodes s) a"
  shows "\<exists>s'. walk body p s = Some (Ok ((), s')) \<and> I l s'"
proof -
  have "\<exists>s'. walk body p t = Some (Ok ((), s')) \<and> I (pre @ rest) s'"
    if "dlist (s_nodes s) p prev rest" "I pre t" "l = pre @ rest" for pre rest t p prev
    using that
  proof (induction rest arbitrary: pre t p prev)
    case Nil
    then show ?case by (simp add: walk.simps)
  next
    case (Cons a rest)
    from step [of pre a rest t] Cons.prems obtain t' where t': "body a t = Ok ((), t')" "I (pre @ [a]) t'"
      by (auto simp: runs_def)
    have "dlist (s_nodes s) (Next (s_nodes t') a) (Some a) rest"
      using Cons.prems links [OF t'(2)] by simp
    from Cons.IH [OF this t'(2)] Cons.prems t'(1) show ?case
      by (auto simp: walk.simps [of body "Some a"])
  qed
  from this [OF assms(1,2)] show ?thesis by simp
qed


section \<open>Identifiers\<close>

text \<open>
  What is relied on of \<open>idgenerator\<close>: an allocated identifier is in the range and was not in use, allocation fails only
  when the whole range is, and a freed identifier is not in use any more.
\<close>

definition id_generator :: "('g, 'z) act_env_scheme \<Rightarrow> ('g \<Rightarrow> int set) \<Rightarrow> ('g \<Rightarrow> int set) \<Rightarrow> bool" where
  "id_generator env ids used \<longleftrightarrow>
     (\<forall>lo hi. ids (gen_New env lo hi) = {lo..hi} \<and> used (gen_New env lo hi) = {}) \<and>
     (\<forall>g. case gen_Allocate env g of
        (None, g') \<Rightarrow> used g = ids g \<and> used g' = used g \<and> ids g' = ids g
      | (Some i, g') \<Rightarrow> i \<in> ids g - used g \<and> used g' = insert i (used g) \<and> ids g' = ids g) \<and>
     (\<forall>g i. used (gen_FreeID env i g) = used g - {i} \<and> ids (gen_FreeID env i g) = ids g)"

definition took :: "('g \<Rightarrow> int set) \<Rightarrow> ('g \<Rightarrow> int set) \<Rightarrow> 'g \<Rightarrow> int \<Rightarrow> 'g \<Rightarrow> bool" where
  "took ids used g i g' \<longleftrightarrow> i \<in> ids g - used g \<and> used g' = insert i (used g) \<and> ids g' = ids g"

definition new_pdr :: "int \<Rightarrow> nat \<Rightarrow> PDR" where
  "new_pdr i f = \<lparr>PDRID = word_of_int i, Precedence = 0, pdr_PDI = no_PDI, OuterHeaderRemoval = None,
     pdr_FAR = Some f, pdr_URR = [], pdr_QER = [], pdr_State = RULE_INITIAL\<rparr>"

definition new_far :: "int \<Rightarrow> FAR" where
  "new_far i = \<lparr>FARID = word_of_int i, far_ApplyAction = no_action, far_ForwardingParameters = None,
     far_BAR = None, far_State = RULE_INITIAL\<rparr>"

lemma new_rule_simps [simp]:
  "PDRID (new_pdr i f) = word_of_int i" "pdr_FAR (new_pdr i f) = Some f" "FARID (new_far i) = word_of_int i" "far_BAR (new_far i) = None"
  by (simp_all add: new_pdr_def new_far_def)

lemma allocate_took:
  assumes "id_generator env ids used" and "1 \<le> card (ids g - used g)"
  shows "\<exists>i g'. gen_Allocate env g = (Some i, g') \<and> took ids used g i g'"
proof -
  obtain r g' where r: "gen_Allocate env g = (r, g')"
    by (cases "gen_Allocate env g")
  moreover have "case gen_Allocate env g of
        (None, g') \<Rightarrow> used g = ids g \<and> used g' = used g \<and> ids g' = ids g
      | (Some i, g') \<Rightarrow> i \<in> ids g - used g \<and> used g' = insert i (used g) \<and> ids g' = ids g"
    using assms(1) unfolding id_generator_def by (elim conjE) (erule allE [of _ g])
  moreover have "used g \<noteq> ids g"
    using assms(2) by auto
  ultimately show ?thesis
    by (cases r) (auto simp: took_def)
qed

lemma took_free: "took ids used g i g' \<Longrightarrow> n + 1 \<le> card (ids g - used g) \<Longrightarrow> n \<le> card (ids g' - used g')"
  by (cases "finite (ids g - used g)") (auto simp: took_def Diff_insert [of "ids g" i])

lemma runs_associated [wp_simps]:
  "runs (associated u) s Q \<longleftrightarrow> (\<exists>upf. upf_at (s_upi s) u = Ok upf \<and> upf_associated upf) \<and> Q () s"
  by (auto simp: associated_def wp_simps go_simps IsAssociated_def split: if_splits)

lemma runs_take_id:
  "gen_Allocate env (sel (s_rules s u)) = (Some i, g) \<Longrightarrow>
   runs (take_id env sel upd u) s Q \<longleftrightarrow> Q i (mod_rules u (upd (\<lambda>_. g)) s)"
  by (simp add: runs_def take_id_def)

lemma mod_rules_simps [simp]:
  "s_upi (mod_rules u f s) = s_upi s" "s_nodes (mod_rules u f s) = s_nodes s" "s_pdrs (mod_rules u f s) = s_pdrs s"
  "s_fars (mod_rules u f s) = s_fars s" "s_qers (mod_rules u f s) = s_qers s" "s_urrs (mod_rules u f s) = s_urrs s"
  "s_ctx (mod_rules u f s) = s_ctx s" "s_rules (mod_rules u f s) = (s_rules s)(u := f (s_rules s u))"
  by (simp_all add: mod_rules_def)

lemma mod_ctx_simps [simp]:
  "s_upi (mod_ctx f s) = s_upi s" "s_nodes (mod_ctx f s) = s_nodes s" "s_pdrs (mod_ctx f s) = s_pdrs s"
  "s_fars (mod_ctx f s) = s_fars s" "s_qers (mod_ctx f s) = s_qers s" "s_urrs (mod_ctx f s) = s_urrs s"
  "s_ctx (mod_ctx f s) = f (s_ctx s)" "s_rules (mod_ctx f s) = s_rules s"
  by (simp_all add: mod_ctx_def)

lemma AddFAR_runs:
  assumes "upf_at (s_upi s) u = Ok upf" and "upf_associated upf" and "gen_Allocate env (farIDGenerator (s_rules s u)) = (Some j, g)"
  shows "runs (AddFAR env u) s Q \<longleftrightarrow> Q (length (s_fars s))
    (s\<lparr>s_fars := s_fars s @ [new_far j],
       s_rules := (s_rules s)(u := (s_rules s u)\<lparr>farIDGenerator := g, farPool := AList.update (word_of_int j) (length (s_fars s)) (farPool (s_rules s u))\<rparr>)\<rparr>)"
proof -
  have "runs (farID env u) s R \<longleftrightarrow> R (word_of_int j) (mod_rules u (farIDGenerator_update (\<lambda>_. g)) s)" for R
    using assms by (simp add: farID_def wp_simps runs_take_id)
  then show ?thesis
    using assms by (cases "s_rules s u") (simp add: AddFAR_def wp_simps new_far_def mod_rules_def)
qed

lemma AddPDR_runs:
  assumes "upf_at (s_upi s) u = Ok upf" and "upf_associated upf" and "gen_Allocate env (pdrIDGenerator (s_rules s u)) = (Some i, g)"
    and "gen_Allocate env (farIDGenerator (s_rules s u)) = (Some j, g')"
  shows "runs (AddPDR env u) s Q \<longleftrightarrow> Q (length (s_pdrs s))
    (s\<lparr>s_pdrs := s_pdrs s @ [new_pdr i (length (s_fars s))], s_fars := s_fars s @ [new_far j],
       s_rules := (s_rules s)(u := (s_rules s u)
         \<lparr>pdrIDGenerator := g, farIDGenerator := g',
          pdrPool := AList.update (word_of_int i) (length (s_pdrs s)) (pdrPool (s_rules s u)),
          farPool := AList.update (word_of_int j) (length (s_fars s)) (farPool (s_rules s u))\<rparr>)\<rparr>)"
proof -
  have "runs (pdrID env u) s R \<longleftrightarrow> R (word_of_int i) (mod_rules u (pdrIDGenerator_update (\<lambda>_. g)) s)" for R
    using assms by (simp add: pdrID_def wp_simps runs_take_id)
  moreover have "runs (AddFAR env u) (mod_rules u (pdrIDGenerator_update (\<lambda>_. g)) s) R \<longleftrightarrow> R (length (s_fars s))
    (s\<lparr>s_fars := s_fars s @ [new_far j], s_rules := (s_rules s)(u := (s_rules s u)\<lparr>pdrIDGenerator := g, farIDGenerator := g',
       farPool := AList.update (word_of_int j) (length (s_fars s)) (farPool (s_rules s u))\<rparr>)\<rparr>)" for R
    using AddFAR_runs [of "mod_rules u (pdrIDGenerator_update (\<lambda>_. g)) s" u upf env j g'] assms
    by (simp add: mod_rules_def)
  ultimately show ?thesis
    using assms by (cases s, cases "s_rules s u") (simp add: AddPDR_def wp_simps new_pdr_def mod_rules_def)
qed

section \<open>Tunnels\<close>

definition set_tunnel :: "direction \<Rightarrow> GTPTunnel \<Rightarrow> DataPathNode \<Rightarrow> DataPathNode" where
  "set_tunnel d t n = (case d of UpLink \<Rightarrow> n\<lparr>UpLinkTunnel := Some t\<rparr> | DownLink \<Rightarrow> n\<lparr>DownLinkTunnel := Some t\<rparr>)"

lemma mod_tunnel_set:
  "tunnel d (s_nodes s ! a) = Some t \<Longrightarrow> mod_tunnel d f a s = s\<lparr>s_nodes := (s_nodes s)[a := set_tunnel d (f t) (s_nodes s ! a)]\<rparr>"
  by (cases d) (simp_all add: mod_tunnel_def set_tunnel_def tunnel_def)

lemma set_tunnel_simps [simp]:
  "tunnel d (set_tunnel d t n) = Some t" "set_tunnel d t (set_tunnel d t' n) = set_tunnel d t n"
  "dn_UPF (set_tunnel d t n) = dn_UPF n"
  by (cases d; simp add: tunnel_def set_tunnel_def)+

lemma tunnel_UpDown [simp]: "tunnel UpLink n = UpLinkTunnel n" "tunnel DownLink n = DownLinkTunnel n"
  by (simp_all add: tunnel_def)

lemma runs_a_upf [wp_simps]:
  "runs (a_upf p) s Q \<longleftrightarrow> (\<exists>u upf. p = Some u \<and> upf_at (s_upi s) u = Ok upf \<and> Q (u, upf) s)"
  by (auto simp: a_upf_def wp_simps)

lemma runs_a_node [wp_simps]: "runs (a_node a) s Q \<longleftrightarrow> a < length (s_nodes s) \<and> Q (s_nodes s ! a) s"
  by (auto simp: a_node_def wp_simps dn_at_def)

lemma mod_ctx_PFCPContext:
  "mod_ctx (PFCPContext_update f) s = s\<lparr>s_ctx := (s_ctx s)\<lparr>PFCPContext := f (PFCPContext (s_ctx s))\<rparr>\<rparr>"
  by (cases "s_ctx s") (simp add: mod_ctx_def)

lemma activate_tunnel_runs:
  assumes a: "a < length (s_nodes s)" "tunnel d (s_nodes s ! a) = Some t" "dn_UPF (s_nodes s ! a) = Some u"
    and upf: "upf_at (s_upi s) u = Ok upf" "upf_associated upf" "map_of (PFCPContext (s_ctx s)) (upf_ip env upf) = Some pc"
    and al: "gen_Allocate env (pdrIDGenerator (s_rules s u)) = (Some i, g)" "gen_Allocate env (farIDGenerator (s_rules s u)) = (Some j, g')"
    and teid: "\<And>c x. teid (c\<lparr>PFCPContext := x\<rparr>) = teid c"
  shows "runs (activate_tunnel env d teid a) s Q \<longleftrightarrow> Q ()
    (s\<lparr>s_nodes := (s_nodes s)[a := set_tunnel d \<lparr>SrcEndPoint = neighbour d (s_nodes s) a, DestEndPoint = Some a,
         gt_TEID = teid (s_ctx s), gt_PDR = Some (length (s_pdrs s))\<rparr> (s_nodes s ! a)],
       s_pdrs := s_pdrs s @ [new_pdr i (length (s_fars s))], s_fars := s_fars s @ [new_far j],
       s_rules := (s_rules s)(u := (s_rules s u)
         \<lparr>pdrIDGenerator := g, farIDGenerator := g',
          pdrPool := AList.update (word_of_int i) (length (s_pdrs s)) (pdrPool (s_rules s u)),
          farPool := AList.update (word_of_int j) (length (s_fars s)) (farPool (s_rules s u))\<rparr>),
       s_ctx := (s_ctx s)\<lparr>PFCPContext := AList.update (upf_ip env upf)
         (pc\<lparr>PDRs := AList.update (word_of_int i) (length (s_pdrs s)) (PDRs pc)\<rparr>) (PFCPContext (s_ctx s))\<rparr>\<rparr>)"
proof -
  let ?s = "mod_tunnel d (\<lambda>t. t\<lparr>SrcEndPoint := neighbour d (s_nodes s) a, DestEndPoint := Some a\<rparr>) a s"
  have s: "?s = s\<lparr>s_nodes := (s_nodes s)[a := set_tunnel d (t\<lparr>SrcEndPoint := neighbour d (s_nodes s) a, DestEndPoint := Some a\<rparr>) (s_nodes s ! a)]\<rparr>"
    using a(2) by (rule mod_tunnel_set)
  have "upf_at (s_upi ?s) u = Ok upf" "gen_Allocate env (pdrIDGenerator (s_rules ?s u)) = (Some i, g)"
    "gen_Allocate env (farIDGenerator (s_rules ?s u)) = (Some j, g')"
    using upf al unfolding s by simp_all
  note add = AddPDR_runs [OF this(1) upf(2) this(2,3)]
  show ?thesis
    using a upf teid
    by (simp add: activate_tunnel_def wp_simps add, cases s, cases t) (simp add: s mod_tunnel_set PutPDRtoPFCPSession_def wp_simps mod_ctx_PFCPContext)
qed

section \<open>The first loop\<close>

definition UPF_of :: "'g smf \<Rightarrow> nat \<Rightarrow> UPF" where
  "UPF_of s a = the (un_UPF (upi_store (s_upi s) ! node_upf (s_nodes s) a))"

abbreviation rules_at :: "'g smf \<Rightarrow> nat \<Rightarrow> 'g upf_rules" where
  "rules_at s a \<equiv> s_rules s (node_upf (s_nodes s) a)"

abbreviation pfcp_at :: "('g, 'z) act_env_scheme \<Rightarrow> 'g smf \<Rightarrow> 'g smf \<Rightarrow> nat \<Rightarrow> PFCPSessionContext option" where
  "pfcp_at env s0 s a \<equiv> map_of (PFCPContext (s_ctx s)) (upf_ip env (UPF_of s0 a))"

text \<open>A node that can be activated: its tunnels are there and its UPF is associated.\<close>

definition served :: "'g smf \<Rightarrow> nat \<Rightarrow> bool" where
  "served s a \<longleftrightarrow> a < length (s_nodes s) \<and> UpLinkTunnel (s_nodes s ! a) \<noteq> None \<and> DownLinkTunnel (s_nodes s ! a) \<noteq> None \<and>
     dn_UPF (s_nodes s ! a) = Some (node_upf (s_nodes s) a) \<and> upf_at (s_upi s) (node_upf (s_nodes s) a) = Ok (UPF_of s a) \<and>
     upf_associated (UPF_of s a)"

text \<open>The \<open>k\<close>-th node of a path after its tunnels have been activated.\<close>

definition node_tunneled ::
    "('g, 'z) act_env_scheme \<Rightarrow> ('g \<Rightarrow> int set) \<Rightarrow> ('g \<Rightarrow> int set) \<Rightarrow> 'g smf \<Rightarrow> 'g smf \<Rightarrow> nat \<Rightarrow> nat \<Rightarrow> bool" where
  "node_tunneled env ids used s0 s k a \<longleftrightarrow>
     (let n = length (s_pdrs s0) + 2 * k; m = length (s_fars s0) + 2 * k; r = rules_at s0 a; r' = rules_at s a in
      s_nodes s ! a = (s_nodes s0 ! a)
        \<lparr>UpLinkTunnel := Some \<lparr>SrcEndPoint = Prev (s_nodes s0) a, DestEndPoint = Some a, gt_TEID = LocalULTeid (s_ctx s0), gt_PDR = Some n\<rparr>,
         DownLinkTunnel := Some \<lparr>SrcEndPoint = Next (s_nodes s0) a, DestEndPoint = Some a, gt_TEID = LocalDLTeid (s_ctx s0), gt_PDR = Some (Suc n)\<rparr>\<rparr> \<and>
      pdr_FAR (s_pdrs s ! n) = Some m \<and> pdr_FAR (s_pdrs s ! Suc n) = Some (Suc m) \<and>
      far_BAR (s_fars s ! m) = None \<and> far_BAR (s_fars s ! Suc m) = None \<and>
      (\<exists>i1 i2 j1 j2 pc h h'.
         took ids used (pdrIDGenerator r) i1 h \<and> took ids used h i2 (pdrIDGenerator r') \<and>
         took ids used (farIDGenerator r) j1 h' \<and> took ids used h' j2 (farIDGenerator r') \<and>
         PDRID (s_pdrs s ! n) = word_of_int i1 \<and> PDRID (s_pdrs s ! Suc n) = word_of_int i2 \<and>
         FARID (s_fars s ! m) = word_of_int j1 \<and> FARID (s_fars s ! Suc m) = word_of_int j2 \<and>
         pdrPool r' = AList.update (word_of_int i2) (Suc n) (AList.update (word_of_int i1) n (pdrPool r)) \<and>
         farPool r' = AList.update (word_of_int j2) (Suc m) (AList.update (word_of_int j1) m (farPool r)) \<and>
         pfcp_at env s0 s0 a = Some pc \<and>
         pfcp_at env s0 s a = Some (pc\<lparr>PDRs := AList.update (word_of_int i2) (Suc n) (AList.update (word_of_int i1) n (PDRs pc))\<rparr>)))"

definition tunneled ::
    "('g, 'z) act_env_scheme \<Rightarrow> ('g \<Rightarrow> int set) \<Rightarrow> ('g \<Rightarrow> int set) \<Rightarrow> 'g smf \<Rightarrow> nat list \<Rightarrow> 'g smf \<Rightarrow> bool" where
  "tunneled env ids used s0 l s \<longleftrightarrow>
     s_upi s = s_upi s0 \<and> length (s_nodes s) = length (s_nodes s0) \<and>
     length (s_pdrs s) = length (s_pdrs s0) + 2 * length l \<and> length (s_fars s) = length (s_fars s0) + 2 * length l \<and>
     (\<forall>a. a \<notin> set l \<longrightarrow> s_nodes s ! a = s_nodes s0 ! a) \<and>
     (\<forall>k < length l. node_tunneled env ids used s0 s k (l ! k))"

text \<open>What the first loop leaves as it was.\<close>

definition untouched :: "('g, 'z) act_env_scheme \<Rightarrow> 'g smf \<Rightarrow> nat list \<Rightarrow> 'g smf \<Rightarrow> bool" where
  "untouched env s0 l s \<longleftrightarrow>
     (s_ctx s)\<lparr>PFCPContext := []\<rparr> = (s_ctx s0)\<lparr>PFCPContext := []\<rparr> \<and>
     take (length (s_pdrs s0)) (s_pdrs s) = s_pdrs s0 \<and> take (length (s_fars s0)) (s_fars s) = s_fars s0 \<and>
     (\<forall>u. qerIDGenerator (s_rules s u) = qerIDGenerator (s_rules s0 u)) \<and>
     (\<forall>u. u \<notin> node_upf (s_nodes s0) ` set l \<longrightarrow> s_rules s u = s_rules s0 u) \<and>
     (\<forall>ip. ip \<notin> (\<lambda>a. upf_ip env (UPF_of s0 a)) ` set l \<longrightarrow> map_of (PFCPContext (s_ctx s)) ip = map_of (PFCPContext (s_ctx s0)) ip)"

lemma served_upf_ip: "served s a \<Longrightarrow> served s b \<Longrightarrow> node_upf (s_nodes s) a = node_upf (s_nodes s) b \<Longrightarrow> UPF_of s a = UPF_of s b"
  by (simp add: UPF_of_def)

lemma two_ids:
  assumes "id_generator env ids used" and "2 \<le> card (ids g - used g)"
  shows "\<exists>i1 h i2 g'. gen_Allocate env g = (Some i1, h) \<and> gen_Allocate env h = (Some i2, g') \<and> took ids used g i1 h \<and> took ids used h i2 g'"
proof -
  obtain i1 h where h: "gen_Allocate env g = (Some i1, h)" "took ids used g i1 h"
    using allocate_took [OF assms(1), of g] order.trans [OF _ assms(2), of 1] by auto
  have "1 \<le> card (ids h - used h)"
    using took_free [OF h(2), of 1] assms(2) by simp
  with allocate_took [OF assms(1)] h show ?thesis by blast
qed

lemma same_but_PFCPContext:
  "c\<lparr>PFCPContext := []\<rparr> = c'\<lparr>PFCPContext := []\<rparr> \<Longrightarrow> LocalULTeid c = LocalULTeid c' \<and> LocalDLTeid c = LocalDLTeid c'"
  by (cases c; cases c') simp

lemma node_tunneled_frame:
  assumes "node_tunneled env ids used s0 s k b" and "s_nodes s' ! b = s_nodes s ! b"
    and "\<And>p. p = length (s_pdrs s0) + 2 * k \<or> p = Suc (length (s_pdrs s0) + 2 * k) \<Longrightarrow>
      PDRID (s_pdrs s' ! p) = PDRID (s_pdrs s ! p) \<and> pdr_FAR (s_pdrs s' ! p) = pdr_FAR (s_pdrs s ! p)"
    and "\<And>f. f = length (s_fars s0) + 2 * k \<or> f = Suc (length (s_fars s0) + 2 * k) \<Longrightarrow>
      FARID (s_fars s' ! f) = FARID (s_fars s ! f) \<and> far_BAR (s_fars s' ! f) = far_BAR (s_fars s ! f)"
    and "pdrPool (rules_at s' b) = pdrPool (rules_at s b)" "farPool (rules_at s' b) = farPool (rules_at s b)"
      "pdrIDGenerator (rules_at s' b) = pdrIDGenerator (rules_at s b)" "farIDGenerator (rules_at s' b) = farIDGenerator (rules_at s b)"
      "pfcp_at env s0 s' b = pfcp_at env s0 s b"
  shows "node_tunneled env ids used s0 s' k b"
  using assms(1) unfolding node_tunneled_def Let_def assms(2,5-9)
  by (simp add: assms(3,4))

lemma activate_node_runs:
  assumes gen: "id_generator env ids used"
    and inv: "tunneled env ids used s0 pre s" "untouched env s0 pre s"
    and a: "served s0 a" "upf_ip env (UPF_of s0 a) \<notin> (\<lambda>a. upf_ip env (UPF_of s0 a)) ` set pre" "\<forall>b\<in>set pre. served s0 b"
    and pc: "pfcp_at env s0 s0 a = Some pc"
    and free: "2 \<le> card (ids (pdrIDGenerator (rules_at s0 a)) - used (pdrIDGenerator (rules_at s0 a)))"
      "2 \<le> card (ids (farIDGenerator (rules_at s0 a)) - used (farIDGenerator (rules_at s0 a)))"
  shows "runs (athen (ActivateUpLinkTunnel env a) (ActivateDownLinkTunnel env a)) s
    (\<lambda>_ s'. tunneled env ids used s0 (pre @ [a]) s' \<and> untouched env s0 (pre @ [a]) s')"
proof -
  let ?u = "node_upf (s_nodes s0) a" and ?upf = "UPF_of s0 a"
  have new: "a \<notin> set pre" "?u \<notin> node_upf (s_nodes s0) ` set pre"
    using a(2) by (auto simp: image_iff UPF_of_def)
  have r: "s_rules s ?u = rules_at s0 a" "s_nodes s ! a = s_nodes s0 ! a" "pfcp_at env s0 s a = Some pc"
    using inv new a(2) pc by (simp_all add: tunneled_def untouched_def)
  obtain i1 h i2 g where i: "gen_Allocate env (pdrIDGenerator (s_rules s ?u)) = (Some i1, h)" "gen_Allocate env h = (Some i2, g)"
      "took ids used (pdrIDGenerator (rules_at s0 a)) i1 h" "took ids used h i2 g"
    using two_ids [OF gen free(1)] r(1) by auto
  obtain j1 h' j2 g' where j: "gen_Allocate env (farIDGenerator (s_rules s ?u)) = (Some j1, h')" "gen_Allocate env h' = (Some j2, g')"
      "took ids used (farIDGenerator (rules_at s0 a)) j1 h'" "took ids used h' j2 g'"
    using two_ids [OF gen free(2)] r(1) by auto
  obtain t t' where t: "tunnel UpLink (s_nodes s ! a) = Some t" "tunnel DownLink (s_nodes s ! a) = Some t'"
    using a(1) r(2) by (auto simp: served_def)
  have s: "a < length (s_nodes s)" "dn_UPF (s_nodes s ! a) = Some ?u" "upf_at (s_upi s) ?u = Ok ?upf" "upf_associated ?upf"
    using a(1) inv(1) r(2) by (simp_all add: served_def tunneled_def)
  note up = activate_tunnel_runs [OF s(1) t(1) s(2-4) r(3) i(1) j(1), of LocalULTeid]
  define s1 where "s1 = s\<lparr>s_nodes := (s_nodes s)[a := set_tunnel UpLink \<lparr>SrcEndPoint = neighbour UpLink (s_nodes s) a, DestEndPoint = Some a,
         gt_TEID = LocalULTeid (s_ctx s), gt_PDR = Some (length (s_pdrs s))\<rparr> (s_nodes s ! a)],
       s_pdrs := s_pdrs s @ [new_pdr i1 (length (s_fars s))], s_fars := s_fars s @ [new_far j1],
       s_rules := (s_rules s)(?u := (s_rules s ?u)
         \<lparr>pdrIDGenerator := h, farIDGenerator := h',
          pdrPool := AList.update (word_of_int i1) (length (s_pdrs s)) (pdrPool (s_rules s ?u)),
          farPool := AList.update (word_of_int j1) (length (s_fars s)) (farPool (s_rules s ?u))\<rparr>),
       s_ctx := (s_ctx s)\<lparr>PFCPContext := AList.update (upf_ip env ?upf)
         (pc\<lparr>PDRs := AList.update (word_of_int i1) (length (s_pdrs s)) (PDRs pc)\<rparr>) (PFCPContext (s_ctx s))\<rparr>\<rparr>"
  have s1: "a < length (s_nodes s1)" "tunnel DownLink (s_nodes s1 ! a) = Some t'" "dn_UPF (s_nodes s1 ! a) = Some ?u" "upf_at (s_upi s1) ?u = Ok ?upf"
    "pfcp_at env s0 s1 a = Some (pc\<lparr>PDRs := AList.update (word_of_int i1) (length (s_pdrs s)) (PDRs pc)\<rparr>)"
    "gen_Allocate env (pdrIDGenerator (s_rules s1 ?u)) = (Some i2, g)" "gen_Allocate env (farIDGenerator (s_rules s1 ?u)) = (Some j2, g')"
    using s i j t by (simp_all add: s1_def update_conv' set_tunnel_def)
  note down = activate_tunnel_runs [OF s1(1-4) s(4) s1(5-7), of LocalDLTeid]
  define s2 where "s2 = s1\<lparr>s_nodes := (s_nodes s1)[a := set_tunnel DownLink \<lparr>SrcEndPoint = neighbour DownLink (s_nodes s1) a, DestEndPoint = Some a,
         gt_TEID = LocalDLTeid (s_ctx s1), gt_PDR = Some (length (s_pdrs s1))\<rparr> (s_nodes s1 ! a)],
       s_pdrs := s_pdrs s1 @ [new_pdr i2 (length (s_fars s1))], s_fars := s_fars s1 @ [new_far j2],
       s_rules := (s_rules s1)(?u := (s_rules s1 ?u)
         \<lparr>pdrIDGenerator := g, farIDGenerator := g',
          pdrPool := AList.update (word_of_int i2) (length (s_pdrs s1)) (pdrPool (s_rules s1 ?u)),
          farPool := AList.update (word_of_int j2) (length (s_fars s1)) (farPool (s_rules s1 ?u))\<rparr>),
       s_ctx := (s_ctx s1)\<lparr>PFCPContext := AList.update (upf_ip env ?upf)
         (pc\<lparr>PDRs := AList.update (word_of_int i2) (length (s_pdrs s1)) (AList.update (word_of_int i1) (length (s_pdrs s)) (PDRs pc))\<rparr>) (PFCPContext (s_ctx s1))\<rparr>\<rparr>"
  have "runs (athen (ActivateUpLinkTunnel env a) (ActivateDownLinkTunnel env a)) s Q \<longleftrightarrow> Q () s2" for Q
    using up [of "\<lambda>_ s. runs (activate_tunnel env DownLink LocalDLTeid a) s Q"] down [of Q]
    by (simp add: ActivateUpLinkTunnel_def ActivateDownLinkTunnel_def runs_basic s1_def [symmetric] s2_def [symmetric])
  moreover have "tunneled env ids used s0 (pre @ [a]) s2"
  proof -
    have len: "length (s_pdrs s) = length (s_pdrs s0) + 2 * length pre" "length (s_fars s) = length (s_fars s0) + 2 * length pre"
      using inv(1) by (simp_all add: tunneled_def)
    have "LocalULTeid (s_ctx s) = LocalULTeid (s_ctx s0)" "LocalDLTeid (s_ctx s) = LocalDLTeid (s_ctx s0)"
      using same_but_PFCPContext inv(2) unfolding untouched_def by blast+
    then have "node_tunneled env ids used s0 s2 (length pre) a"
      using len i(3,4) j(3,4) pc s(1) r
      by (simp add: node_tunneled_def s2_def s1_def Let_def nth_append set_tunnel_def neighbour_def Next_def Prev_def update_conv' node_upf_def)
        blast
    moreover have "node_tunneled env ids used s0 s2 k (pre ! k)" if "k < length pre" for k
    proof -
      have b: "node_tunneled env ids used s0 s k (pre ! k)"
        using inv(1) that by (simp add: tunneled_def)
      then have "node_upf (s_nodes s) (pre ! k) = node_upf (s_nodes s0) (pre ! k)"
        by (auto simp: node_tunneled_def node_upf_def Let_def)
      then have ne: "pre ! k \<noteq> a" "node_upf (s_nodes s) (pre ! k) \<noteq> ?u" "upf_ip env (UPF_of s0 (pre ! k)) \<noteq> upf_ip env ?upf"
        using new a(2) nth_mem [OF that] by (auto, (metis imageI)+)
      from b show ?thesis
        by (rule node_tunneled_frame)
          (use that len ne in \<open>auto simp: s2_def s1_def nth_append node_upf_def update_conv'\<close>)
    qed
    ultimately show ?thesis
      using inv(1) len by (auto simp: tunneled_def nth_append less_Suc_eq s2_def s1_def)
  qed
  moreover have "untouched env s0 (pre @ [a]) s2"
    using inv(1,2) r(1) by (auto simp: untouched_def tunneled_def s2_def s1_def update_conv')
  ultimately show ?thesis
    by simp
qed

section \<open>PFCP sessions\<close>

text \<open>After \<open>AllocateLocalSEIDForDataPath\<close>, with old sessions kept and new ones empty.\<close>

definition seids_ready :: "('g, 'z) act_env_scheme \<Rightarrow> 'g smf \<Rightarrow> nat list \<Rightarrow> 'g smf \<Rightarrow> bool" where
  "seids_ready env s0 l s \<longleftrightarrow>
     s_upi s = s_upi s0 \<and> s_nodes s = s_nodes s0 \<and> s_pdrs s = s_pdrs s0 \<and> s_fars s = s_fars s0 \<and> s_rules s = s_rules s0 \<and>
     (s_ctx s)\<lparr>PFCPContext := []\<rparr> = (s_ctx s0)\<lparr>PFCPContext := []\<rparr> \<and> (\<forall>a\<in>set l. pfcp_at env s0 s a \<noteq> None) \<and>
     (\<forall>ip. map_of (PFCPContext (s_ctx s)) ip = map_of (PFCPContext (s_ctx s0)) ip \<or>
        map_of (PFCPContext (s_ctx s0)) ip = None \<and> map_option PDRs (map_of (PFCPContext (s_ctx s)) ip) = Some [])"

lemma seids_allocated:
  assumes "dlist (s_nodes s) (FirstDPNode path) None l" and "\<forall>a\<in>set l. served s a"
  shows "\<exists>s'. AllocateLocalSEIDForDataPath env path s = Some (Ok ((), s')) \<and> seids_ready env s l s'"
  unfolding AllocateLocalSEIDForDataPath_def using assms(1)
proof (rule walk_runs)
  show "seids_ready env s [] s"
    by (simp add: seids_ready_def)
  show "runs (allocate_seid env a) t (\<lambda>_. seids_ready env s (pre @ [a]))" if "l = pre @ a # rest" "seids_ready env s pre t" for pre a rest t
  proof (cases "pfcp_at env s t a")
    case None
    moreover from None that(2) have "pfcp_at env s s a = None"
      unfolding seids_ready_def by (metis option.distinct(1) option.map(1))
    ultimately show ?thesis
      using that assms(2)
      by (auto simp: allocate_seid_def wp_simps served_def seids_ready_def AllocateLocalSEID_def mod_ctx_PFCPContext update_conv' split: if_splits)
  next
    case (Some pc)
    then show ?thesis
      using that assms(2) by (auto simp: allocate_seid_def wp_simps served_def seids_ready_def)
  qed
qed (simp add: seids_ready_def)

lemma tunnels_activated:
  assumes gen: "id_generator env ids used" and l: "dlist (s_nodes s) (FirstDPNode path) None l" "\<forall>a\<in>set l. served s a"
    and ips: "distinct (map (\<lambda>a. upf_ip env (UPF_of s a)) l)" "\<forall>a\<in>set l. pfcp_at env s s a \<noteq> None"
    and free: "\<forall>a\<in>set l. 2 \<le> card (ids (pdrIDGenerator (rules_at s a)) - used (pdrIDGenerator (rules_at s a))) \<and>
      2 \<le> card (ids (farIDGenerator (rules_at s a)) - used (farIDGenerator (rules_at s a)))"
  shows "\<exists>s'. walk (\<lambda>a. athen (ActivateUpLinkTunnel env a) (ActivateDownLinkTunnel env a)) (FirstDPNode path) s = Some (Ok ((), s')) \<and>
    tunneled env ids used s l s' \<and> untouched env s l s'"
  using l(1)
proof (rule walk_runs)
  show "tunneled env ids used s [] s \<and> untouched env s [] s"
    by (simp add: tunneled_def untouched_def)
  show "runs (athen (ActivateUpLinkTunnel env a) (ActivateDownLinkTunnel env a)) t
      (\<lambda>_ t. tunneled env ids used s (pre @ [a]) t \<and> untouched env s (pre @ [a]) t)"
    if "l = pre @ a # rest" "tunneled env ids used s pre t \<and> untouched env s pre t" for pre a rest t
    using activate_node_runs [OF gen, of s pre t a] that l(2) ips free by auto
  show "Next (s_nodes t) a = Next (s_nodes s) a" if "tunneled env ids used s pre t \<and> untouched env s pre t" for pre t a
  proof (cases "a \<in> set pre")
    case True
    then show ?thesis
      using that by (auto simp: tunneled_def node_tunneled_def Let_def in_set_conv_nth Next_def)
  next
    case False
    then show ?thesis
      using that by (simp add: tunneled_def Next_def)
  qed
qed

end
