(* ===== verification/Smf_Activation_Props.thy ===== *)
theory Smf_Activation_Props
  imports Smf_Activation_Tunnels
begin

text \<open>
  The later loops of the activation of a data path, which set up usage rules, QoS rules and the matches and actions of every
  node, and the property of the whole: the rules of an activated path forward packets along it.
\<close>

section \<open>What later loops keep\<close>

definition fixed :: "'g SMContext \<Rightarrow> 'g SMContext" where
  "fixed c = c\<lparr>AMBRQerMap := [], QerUpfMap := []\<rparr>"

lemma fixed_eqD:
  assumes "fixed c = fixed c'"
  shows "sc_Dnn c = sc_Dnn c'" "SelectedPDUSessionType c = SelectedPDUSessionType c'" "sc_PDUAddress c = sc_PDUAddress c'"
    "sc_Tunnel c = sc_Tunnel c'" "PFCPContext c = PFCPContext c'" "SelectedSessionRule c = SelectedSessionRule c'"
  using assms by (cases c; cases c'; simp add: fixed_def SelectedSessionRule_def)+

definition same_rules :: "'g upf_rules \<Rightarrow> 'g upf_rules \<Rightarrow> bool" where
  "same_rules r r' \<longleftrightarrow> pdrPool r' = pdrPool r \<and> farPool r' = farPool r \<and>
     pdrIDGenerator r' = pdrIDGenerator r \<and> farIDGenerator r' = farIDGenerator r"

definition quiet :: "'g smf \<Rightarrow> 'g smf \<Rightarrow> bool" where
  "quiet s s' \<longleftrightarrow>
     s_upi s' = s_upi s \<and> s_nodes s' = s_nodes s \<and> map PDRID (s_pdrs s') = map PDRID (s_pdrs s) \<and>
     map pdr_FAR (s_pdrs s') = map pdr_FAR (s_pdrs s) \<and> map FARID (s_fars s') = map FARID (s_fars s) \<and>
     map far_BAR (s_fars s') = map far_BAR (s_fars s) \<and> (\<forall>u. same_rules (s_rules s u) (s_rules s' u)) \<and> fixed (s_ctx s') = fixed (s_ctx s)"

lemma quiet_refl [simp]: "quiet s s"
  by (simp add: quiet_def same_rules_def)

lemma quiet_trans: "quiet s s' \<Longrightarrow> quiet s' s'' \<Longrightarrow> quiet s s''"
  by (simp add: quiet_def same_rules_def)

lemma quiet_nth:
  assumes "quiet s s'"
  shows "length (s_pdrs s') = length (s_pdrs s)" "length (s_fars s') = length (s_fars s)"
    "p < length (s_pdrs s) \<Longrightarrow> PDRID (s_pdrs s' ! p) = PDRID (s_pdrs s ! p) \<and> pdr_FAR (s_pdrs s' ! p) = pdr_FAR (s_pdrs s ! p)"
    "f < length (s_fars s) \<Longrightarrow> FARID (s_fars s' ! f) = FARID (s_fars s ! f) \<and> far_BAR (s_fars s' ! f) = far_BAR (s_fars s ! f)"
  using assms unfolding quiet_def by (metis length_map, metis length_map, metis length_map nth_map, metis length_map nth_map)

lemma tunneled_quiet:
  assumes "tunneled env ids used s0 l s" and "quiet s s'"
  shows "tunneled env ids used s0 l s'"
proof -
  have pf: "PFCPContext (s_ctx s') = PFCPContext (s_ctx s)"
    using assms(2) fixed_eqD(5) unfolding quiet_def by blast
  have "node_tunneled env ids used s0 s' k (l ! k)" if "k < length l" for k
  proof (rule node_tunneled_frame)
    show "node_tunneled env ids used s0 s k (l ! k)"
      using assms(1) that by (simp add: tunneled_def)
  qed (use assms that quiet_nth [OF assms(2)] pf in \<open>auto simp: quiet_def same_rules_def tunneled_def\<close>)
  then show ?thesis
    using assms quiet_nth(1,2) [OF assms(2)] by (simp add: tunneled_def quiet_def)
qed

section \<open>Usage rules\<close>

definition urr_upd :: "URR list \<Rightarrow> nat \<Rightarrow> (u32 \<times> nat) list \<Rightarrow> 'g \<Rightarrow> 'g smf \<Rightarrow> 'g smf" where
  "urr_upd urrs u y g s = s\<lparr>s_urrs := urrs, s_rules := (s_rules s)(u := (s_rules s u)\<lparr>urrPool := y, urrIDGenerator := g\<rparr>)\<rparr>"

lemma urr_upd_simps:
  "mod_rules u (urrPool_update f) (s\<lparr>s_urrs := urrs\<rparr>) = urr_upd urrs u (f (urrPool (s_rules s u))) (urrIDGenerator (s_rules s u)) s"
  "mod_rules u (urrIDGenerator_update (\<lambda>_. g)) s = urr_upd (s_urrs s) u (urrPool (s_rules s u)) g s"
  "urr_upd urrs u y g (urr_upd urrs' u y' g' s) = urr_upd urrs u y g s"
  "urrPool (s_rules (urr_upd urrs u y g s) u) = y" "urrIDGenerator (s_rules (urr_upd urrs u y g s) u) = g"
  "s_urrs (urr_upd urrs u y g s) = urrs"
  by (cases "s_rules s u"; simp add: urr_upd_def mod_rules_def)+

lemma AddURR_cases:
  assumes "upf_at (s_upi s) u = Ok upf" and "upf_associated upf"
  shows "(\<exists>r urrs y g. AddURR env u i opts s = Ok (r, urr_upd urrs u y g s)) \<or> (\<exists>urrs y g. AddURR env u i opts s = Err (NoFreeID, urr_upd urrs u y g s))"
proof -
  obtain r g where "gen_Allocate env (urrIDGenerator (s_rules s u)) = (r, g)"
    by (cases "gen_Allocate env (urrIDGenerator (s_rules s u))")
  with assms show ?thesis
    by (cases "i = 0"; cases r)
      (auto simp: AddURR_def abind_def athen_def associated_def acall_def IsAssociated_def areturn_def aget_def amod_def urrID_def
        take_id_def Let_def urr_upd_simps)
qed

definition urr_frame :: "nat set \<Rightarrow> 'g smf \<Rightarrow> 'g smf \<Rightarrow> bool" where
  "urr_frame P s s' \<longleftrightarrow> quiet s s' \<and> s_fars s' = s_fars s \<and> s_ctx s' = s_ctx s \<and>
     (\<forall>u. qerIDGenerator (s_rules s' u) = qerIDGenerator (s_rules s u)) \<and> (\<forall>p. p \<notin> P \<longrightarrow> s_pdrs s' ! p = s_pdrs s ! p)"

lemma urr_frame_trans: "urr_frame P s s' \<Longrightarrow> urr_frame Q s' s'' \<Longrightarrow> urr_frame (P \<union> Q) s s''"
  by (auto simp: urr_frame_def intro: quiet_trans)

lemma urr_frame_mono: "urr_frame P s s' \<Longrightarrow> P \<subseteq> Q \<Longrightarrow> urr_frame Q s s'"
  by (auto simp: urr_frame_def)

lemma urr_frame_upd: "urr_frame {} s (urr_upd urrs u y g s)"
  by (simp add: urr_frame_def quiet_def same_rules_def urr_upd_def)

lemma map_update_same: "f (xs ! i) = f x \<Longrightarrow> map f (xs[i := x]) = map f xs"
  by (cases "i < length xs") (simp_all add: map_update list_update_same_conv list_update_beyond)

lemma append_urr_frame: "urr_frame {p. Option.bind (tunnel d n) gt_PDR = Some p} s (append_urr d r n s)"
  by (auto simp: append_urr_def AppendURRs_def urr_frame_def quiet_def same_rules_def map_update_same split: option.splits)

definition node_pdrs :: "DataPathNode \<Rightarrow> nat set" where
  "node_pdrs n = {p. Option.bind (UpLinkTunnel n) gt_PDR = Some p} \<union> {p. Option.bind (DownLinkTunnel n) gt_PDR = Some p}"

lemma append_urrs_frame: "urr_frame (node_pdrs n) s (append_urr DownLink r n (append_urr UpLink r n s))"
  using urr_frame_trans [OF append_urr_frame [of UpLink n s r] append_urr_frame [of DownLink n _ r]] by (simp add: node_pdrs_def)

lemma addUrrToNode_runs:
  assumes "dn_UPF n = Some u" and "upf_at (s_upi s) u = Ok upf" and "upf_associated upf"
  shows "runs (addUrrToNode env n i b b') s (\<lambda>_. urr_frame (node_pdrs n) s)"
proof -
  have fr: "urr_frame (node_pdrs n) s (append_urr DownLink r n (append_urr UpLink r n (urr_upd urrs u y g s)))" for r urrs y g
    using urr_frame_trans [OF urr_frame_upd [of s urrs u y g] append_urrs_frame [of n _ r]] by simp
  show ?thesis
  proof (cases "map_of (UrrUpfMap (s_ctx s)) (getUrrIdKey (upf_uuid upf) i)")
    case None
    consider r urrs y g where "AddURR env u i [NewMeasureInformation b b',
        NewMeasurementPeriod (UrrReportTime (s_ctx s)), NewVolumeThreshold (UrrReportThreshold (s_ctx s))] s = Ok (r, urr_upd urrs u y g s)"
      | urrs y g where "AddURR env u i [NewMeasureInformation b b',
        NewMeasurementPeriod (UrrReportTime (s_ctx s)), NewVolumeThreshold (UrrReportThreshold (s_ctx s))] s = Err (NoFreeID, urr_upd urrs u y g s)"
      using AddURR_cases [OF assms(2,3)] by metis
    then show ?thesis
      using None assms(1,2) fr urr_frame_mono [OF urr_frame_upd]
      by cases (simp_all add: addUrrToNode_def wp_simps, simp_all add: runs_def alogged_def abind_def areturn_def amod_def)
  next
    case (Some r)
    then show ?thesis
      using assms(1,2) append_urrs_frame
      by (cases r) (simp_all add: addUrrToNode_def wp_simps, simp_all add: runs_def alogged_def abind_def areturn_def amod_def urr_frame_def)
  qed
qed

lemma add_urrs_runs:
  assumes "a < length (s_nodes s)" and "dn_UPF (s_nodes s ! a) = Some u" and "upf_at (s_upi s) u = Ok upf" and "upf_associated upf"
  shows "runs (add_urrs env a) s (\<lambda>_. urr_frame (node_pdrs (s_nodes s ! a)) s)"
proof -
  have "runs (athen (addUrrToNode env (s_nodes s ! a) i True True) (addUrrToNode env (s_nodes s ! a) i' True False)) s
      (\<lambda>_. urr_frame (node_pdrs (s_nodes s ! a)) s)" for i i'
    unfolding runs_basic
  proof (rule runs_mono [OF addUrrToNode_runs [OF assms(2-4)]])
    fix s' assume s': "urr_frame (node_pdrs (s_nodes s ! a)) s s'"
    then have "upf_at (s_upi s') u = Ok upf"
      using assms(3) by (simp add: urr_frame_def quiet_def)
    from runs_mono [OF addUrrToNode_runs [OF assms(2) this assms(4)]] urr_frame_trans [OF s']
    show "runs (addUrrToNode env (s_nodes s ! a) i' True False) s' (\<lambda>_. urr_frame (node_pdrs (s_nodes s ! a)) s)"
      by (metis (no_types, lifting) sup.idem)
  qed
  with assms(1) show ?thesis
    by (simp add: add_urrs_def runs_basic(2,4) runs_a_node split: prod.split)
qed

lemma urrs_added:
  assumes l: "dlist (s_nodes s) (FirstDPNode path) None l"
    and n: "\<And>a. a \<in> set l \<Longrightarrow> a < length (s_nodes s) \<and> dn_UPF (s_nodes s ! a) = Some (U a) \<and> upf_at (s_upi s) (U a) = Ok (F a) \<and> upf_associated (F a)"
  shows "\<exists>s'. addUrrToPath env path s = Some (Ok ((), s')) \<and> urr_frame (\<Union>a\<in>set l. node_pdrs (s_nodes s ! a)) s s'"
proof (cases "UrrReportTime (s_ctx s) = 0 \<and> UrrReportThreshold (s_ctx s) = 0")
  case True
  then show ?thesis
    by (simp add: addUrrToPath_def urr_frame_def)
next
  case False
  have "\<exists>s'. walk (add_urrs env) (FirstDPNode path) s = Some (Ok ((), s')) \<and> urr_frame (\<Union>a\<in>set l. node_pdrs (s_nodes s ! a)) s s'"
    using l
  proof (rule walk_runs)
    show "urr_frame (\<Union>a\<in>set []. node_pdrs (s_nodes s ! a)) s s"
      by (simp add: urr_frame_def)
    show "runs (add_urrs env a) t (\<lambda>_. urr_frame (\<Union>a\<in>set (pre @ [a]). node_pdrs (s_nodes s ! a)) s)"
      if "l = pre @ a # rest" and t: "urr_frame (\<Union>a\<in>set pre. node_pdrs (s_nodes s ! a)) s t" for pre a rest t
    proof -
      have nt: "s_nodes t = s_nodes s" "s_upi t = s_upi s"
        using t by (simp_all add: urr_frame_def quiet_def)
      have "runs (add_urrs env a) t (\<lambda>_. urr_frame (node_pdrs (s_nodes t ! a)) t)"
        by (rule add_urrs_runs) (use n [of a] that(1) nt in auto)
      then show ?thesis
        by (rule runs_mono) (use urr_frame_trans [OF t] nt in \<open>simp add: Un_commute\<close>)
    qed
  qed (simp add: urr_frame_def quiet_def)
  with False show ?thesis
    by (auto simp: addUrrToPath_def)
qed

section \<open>Rules of a node\<close>

definition iface_addr :: "('g, 'z) act_env_scheme \<Rightarrow> 'g SMContext \<Rightarrow> UPF \<Rightarrow> string \<Rightarrow> bytes option option" where
  "iface_addr env c upf ty = Option.bind (GetInterface upf ty (sc_Dnn c)) (\<lambda>i. Interface_IP env i (SelectedPDUSessionType c))"

lemma iface_addr_Some:
  assumes "iface_addr env (s_ctx s) upf ty = Some ip"
  shows "\<exists>i. GetInterface upf ty (sc_Dnn (s_ctx s)) = Some i \<and> Interface_IP env i (SelectedPDUSessionType (s_ctx s)) = Some ip"
  using assms by (auto simp: iface_addr_def split: bind_splits)

lemma runs_interface_ip:
  "Interface_IP env i (SelectedPDUSessionType (s_ctx s)) = Some ip \<Longrightarrow> runs (interface_ip env (Some i)) s Q \<longleftrightarrow> Q ip s"
  by (simp add: interface_ip_def wp_simps)

lemma mod_pdr_simps [simp]:
  "s_upi (mod_pdr p f s) = s_upi s" "s_nodes (mod_pdr p f s) = s_nodes s" "s_ctx (mod_pdr p f s) = s_ctx s" "s_rules (mod_pdr p f s) = s_rules s"
  "s_fars (mod_pdr p f s) = s_fars s" "s_pdrs (mod_pdr p f s) = (s_pdrs s)[p := f (s_pdrs s ! p)]"
  by (simp_all add: mod_pdr_def)

lemma mod_far_simps [simp]:
  "s_upi (mod_far f g s) = s_upi s" "s_nodes (mod_far f g s) = s_nodes s" "s_ctx (mod_far f g s) = s_ctx s" "s_rules (mod_far f g s) = s_rules s"
  "s_pdrs (mod_far f g s) = s_pdrs s" "s_fars (mod_far f g s) = (s_fars s)[f := g (s_fars s ! f)]"
  by (simp_all add: mod_far_def)

text \<open>The forwarding parameters towards the next node of the path.\<close>

definition up_params :: "('g, 'z) act_env_scheme \<Rightarrow> 'g smf \<Rightarrow> nat \<Rightarrow> ForwardingParameters" where
  "up_params env s a =
     (case Next (s_nodes s) a of
        None \<Rightarrow> ul_params env (s_ctx s)
      | Some b \<Rightarrow> (ul_params env (s_ctx s))\<lparr>fp_OuterHeaderCreation := Some (gtp_header
          (the (iface_addr env (s_ctx s) (UPF_of s b) ''N9'')) (gt_TEID (the (UpLinkTunnel (s_nodes s ! b)))))\<rparr>)"

definition up_pdr :: "('g, 'z) act_env_scheme \<Rightarrow> 'g smf \<Rightarrow> nat \<Rightarrow> PDR \<Rightarrow> PDR" where
  "up_pdr env s a pdr = pdr\<lparr>pdr_PDI := ul_PDI env (s_ctx s)
       (the (iface_addr env (s_ctx s) (UPF_of s a) (if IsANUPF (s_nodes s) a then ''N3'' else ''N9''))) (gt_TEID (the (UpLinkTunnel (s_nodes s ! a)))),
     OuterHeaderRemoval := Some GtpUUdpIpv4\<rparr>"

text \<open>A node whose tunnels are set up, with the rules \<open>p\<close> and \<open>f\<close> of one direction.\<close>

definition wired :: "direction \<Rightarrow> 'g smf \<Rightarrow> nat \<Rightarrow> nat \<Rightarrow> nat \<Rightarrow> bool" where
  "wired d s a p f \<longleftrightarrow> a < length (s_nodes s) \<and> dn_UPF (s_nodes s ! a) = Some (node_upf (s_nodes s) a) \<and>
     upf_at (s_upi s) (node_upf (s_nodes s) a) = Ok (UPF_of s a) \<and>
     (\<exists>t. tunnel d (s_nodes s ! a) = Some t \<and> DestEndPoint t = Some a \<and> gt_PDR t = Some p) \<and>
     p < length (s_pdrs s) \<and> pdr_FAR (s_pdrs s ! p) = Some f \<and> f < length (s_fars s)"

lemma setup_uplink_runs:
  assumes a: "wired UpLink s a p f" "UpLinkTunnel (s_nodes s ! a) = Some t"
    and ip: "iface_addr env (s_ctx s) (UPF_of s a) (if IsANUPF (s_nodes s) a then ''N3'' else ''N9'') \<noteq> None"
    and nx: "\<And>b. Next (s_nodes s) a = Some b \<Longrightarrow> (\<exists>p f. wired UpLink s b p f) \<and> iface_addr env (s_ctx s) (UPF_of s b) ''N9'' \<noteq> None"
  shows "runs (setup_uplink env path precedence dq aq a t) s Q \<longleftrightarrow> Q ()
    (mod_far f (\<lambda>far. far\<lparr>far_ApplyAction := forward, far_ForwardingParameters := Some (up_params env s a)\<rparr>)
      (mod_pdr p (\<lambda>pdr. up_pdr env s a (set_qers_precedence dq aq (GBRFlow path) precedence pdr)) s))"
proof -
  obtain ip' i where i: "iface_addr env (s_ctx s) (UPF_of s a) (if IsANUPF (s_nodes s) a then ''N3'' else ''N9'') = Some ip'"
    "GetInterface (UPF_of s a) (if IsANUPF (s_nodes s) a then ''N3'' else ''N9'') (sc_Dnn (s_ctx s)) = Some i"
    "Interface_IP env i (SelectedPDUSessionType (s_ctx s)) = Some ip'"
    using ip iface_addr_Some by blast
  note wp = wp_simps wired_def runs_interface_ip
  show ?thesis
  proof (cases "Next (s_nodes s) a")
    case None
    then show ?thesis
      using a i by (simp add: setup_uplink_def wp up_params_def up_pdr_def mod_pdr_def mod_far_def set_qers_precedence_def)
  next
    case (Some b)
    then obtain p' f' where b: "wired UpLink s b p' f'" "iface_addr env (s_ctx s) (UPF_of s b) ''N9'' \<noteq> None"
      using nx by blast
    then obtain ip2 i2 where i2: "iface_addr env (s_ctx s) (UPF_of s b) ''N9'' = Some ip2"
      "GetInterface (UPF_of s b) ''N9'' (sc_Dnn (s_ctx s)) = Some i2" "Interface_IP env i2 (SelectedPDUSessionType (s_ctx s)) = Some ip2"
      using iface_addr_Some by blast
    obtain tb where "UpLinkTunnel (s_nodes s ! b) = Some tb" "DestEndPoint tb = Some b"
      using b(1) by (auto simp: wired_def)
    then show ?thesis
      using a i i2 b(1) Some
      by (simp add: setup_uplink_def wp up_params_def up_pdr_def mod_pdr_def mod_far_def set_qers_precedence_def)
  qed
qed

definition down_pdr :: "bool \<Rightarrow> ('g, 'z) act_env_scheme \<Rightarrow> 'g smf \<Rightarrow> nat \<Rightarrow> PDR \<Rightarrow> PDR" where
  "down_pdr dc env s a pdr =
     (if IsAnchorUPF (s_nodes s) a then pdr\<lparr>pdr_PDI := dl_anchor_PDI env (s_ctx s)\<rparr>
      else pdr\<lparr>OuterHeaderRemoval := Some GtpUUdpIpv4, pdr_PDI := dl_PDI dc env (s_ctx s)
          (the (iface_addr env (s_ctx s) (UPF_of s a) ''N9'')) (gt_TEID (the (DownLinkTunnel (s_nodes s ! a))))\<rparr>)"

definition down_far :: "bool \<Rightarrow> ('g, 'z) act_env_scheme \<Rightarrow> 'g smf \<Rightarrow> nat \<Rightarrow> FAR \<Rightarrow> FAR" where
  "down_far dc env s a far =
     (case Prev (s_nodes s) a of
        Some b \<Rightarrow> far\<lparr>far_ApplyAction := forward, far_ForwardingParameters := Some (dl_params
          (the (iface_addr env (s_ctx s) (UPF_of s b) ''N9'')) (gt_TEID (the (DownLinkTunnel (s_nodes s ! b)))))\<rparr>
      | None \<Rightarrow> far\<lparr>far_ForwardingParameters := Some (an_params env (s_ctx s) (tn_ANInformation (the (an_tunnel dc (s_ctx s)))))\<rparr>)"

lemma setup_downlink_runs:
  assumes a: "wired DownLink s a p f" "DownLinkTunnel (s_nodes s ! a) = Some t"
    and ip: "\<not> IsAnchorUPF (s_nodes s) a \<Longrightarrow> iface_addr env (s_ctx s) (UPF_of s a) ''N9'' \<noteq> None"
    and pv: "\<And>b. Prev (s_nodes s) a = Some b \<Longrightarrow> (\<exists>p f. wired DownLink s b p f) \<and> iface_addr env (s_ctx s) (UPF_of s b) ''N9'' \<noteq> None"
    and an: "Prev (s_nodes s) a = None \<Longrightarrow> FirstDPNode path = Some a \<and> an_tunnel dc (s_ctx s) \<noteq> None"
  shows "runs (setup_downlink dc env path precedence dq aq a t) s Q \<longleftrightarrow> Q ()
    (mod_far f (down_far dc env s a) (mod_pdr p (\<lambda>pdr. down_pdr dc env s a (set_qers_precedence dq aq (GBRFlow path) precedence pdr)) s))"
proof -
  let ?qp = "set_qers_precedence dq aq (GBRFlow path) precedence"
  let ?s1 = "mod_pdr p (\<lambda>pdr. down_pdr dc env s a (?qp pdr)) s"
  note wp = wp_simps wired_def runs_interface_ip
  have match: "runs (match_downlink dc env a t (s_nodes s ! a) p) (mod_pdr p ?qp s) R \<longleftrightarrow> R () ?s1" for R
  proof (cases "IsAnchorUPF (s_nodes s) a")
    case True
    then show ?thesis
      using a by (simp add: match_downlink_def wp down_pdr_def mod_pdr_def)
  next
    case False
    then obtain ip' i where "iface_addr env (s_ctx s) (UPF_of s a) ''N9'' = Some ip'"
      "GetInterface (UPF_of s a) ''N9'' (sc_Dnn (s_ctx s)) = Some i" "Interface_IP env i (SelectedPDUSessionType (s_ctx s)) = Some ip'"
      using ip iface_addr_Some by blast
    then show ?thesis
      using a False by (simp add: match_downlink_def wp down_pdr_def mod_pdr_def set_qers_precedence_def)
  qed
  have s1: "pdr_FAR (s_pdrs ?s1 ! p) = Some f" "s_ctx ?s1 = s_ctx s" "s_nodes ?s1 = s_nodes s"
    using a by (simp_all add: wired_def down_pdr_def set_qers_precedence_def)
  show ?thesis
  proof (cases "Prev (s_nodes s) a")
    case None
    then show ?thesis
      using a an match s1 by (simp add: setup_downlink_def wp, simp add: down_far_def mod_far_def)
  next
    case (Some b)
    then obtain p' f' where b: "wired DownLink s b p' f'" "iface_addr env (s_ctx s) (UPF_of s b) ''N9'' \<noteq> None"
      using pv by blast
    then obtain ip2 i2 where i2: "iface_addr env (s_ctx s) (UPF_of s b) ''N9'' = Some ip2"
      "GetInterface (UPF_of s b) ''N9'' (sc_Dnn (s_ctx s)) = Some i2" "Interface_IP env i2 (SelectedPDUSessionType (s_ctx s)) = Some ip2"
      using iface_addr_Some by blast
    obtain tb where "DownLinkTunnel (s_nodes s ! b) = Some tb" "DestEndPoint tb = Some b"
      using b(1) by (auto simp: wired_def)
    then show ?thesis
      using a i2 b(1) Some match s1
      by (simp add: setup_downlink_def wp, simp add: down_far_def mod_far_def)
  qed
qed

section \<open>QoS rules\<close>

text \<open>A step at the UPF \<open>u\<close> that changes nothing but QoS rules.\<close>

definition qer_frame :: "nat \<Rightarrow> 'g smf \<Rightarrow> 'g smf \<Rightarrow> bool" where
  "qer_frame u s s' \<longleftrightarrow> s_upi s' = s_upi s \<and> s_nodes s' = s_nodes s \<and> s_pdrs s' = s_pdrs s \<and> s_fars s' = s_fars s \<and>
     (\<forall>v. same_rules (s_rules s v) (s_rules s' v)) \<and> (\<forall>v. v \<noteq> u \<longrightarrow> s_rules s' v = s_rules s v) \<and> fixed (s_ctx s') = fixed (s_ctx s)"

definition qer_ids :: "('g \<Rightarrow> int set) \<Rightarrow> ('g \<Rightarrow> int set) \<Rightarrow> nat \<Rightarrow> 'g smf \<Rightarrow> nat" where
  "qer_ids ids used u s = card (ids (qerIDGenerator (s_rules s u)) - used (qerIDGenerator (s_rules s u)))"

lemma qer_frame_quiet: "qer_frame u s s' \<Longrightarrow> quiet s s'"
  by (simp add: qer_frame_def quiet_def)

lemma qer_frame_trans: "qer_frame u s s' \<Longrightarrow> qer_frame u s' s'' \<Longrightarrow> qer_frame u s s''"
  by (simp add: qer_frame_def same_rules_def)

lemma AddQER_runs:
  assumes "id_generator env ids used" and "upf_at (s_upi s) u = Ok upf" and "upf_associated upf" and "Suc n \<le> qer_ids ids used u s"
  shows "runs (AddQER env u) s (\<lambda>_ s'. qer_frame u s s' \<and> s_ctx s' = s_ctx s \<and> n \<le> qer_ids ids used u s')"
proof -
  have "1 \<le> card (ids (qerIDGenerator (s_rules s u)) - used (qerIDGenerator (s_rules s u)))"
    using assms(4) unfolding qer_ids_def by linarith
  then obtain i g where g: "gen_Allocate env (qerIDGenerator (s_rules s u)) = (Some i, g)" "took ids used (qerIDGenerator (s_rules s u)) i g"
    using allocate_took [OF assms(1)] by blast
  have "n \<le> card (ids g - used g)"
    using took_free [OF g(2)] assms(4) by (simp add: qer_ids_def)
  moreover have "runs (qerID env u) s R \<longleftrightarrow> R (word_of_int i) (mod_rules u (qerIDGenerator_update (\<lambda>_. g)) s)" for R
    using assms(2,3) g(1) by (simp add: qerID_def wp_simps runs_take_id)
  ultimately show ?thesis
    using assms(2,3)
    by (cases "s_rules s u") (simp add: AddQER_def wp_simps mod_rules_def qer_frame_def same_rules_def qer_ids_def)
qed

definition rates_known :: "SessionRule option \<Rightarrow> bool" where
  "rates_known rule \<longleftrightarrow> (\<exists>r ambr. rule = Some r \<and> AuthSessAmbr r = Some ambr \<and>
     BitRateTokbps (ambr_Uplink ambr) \<noteq> None \<and> BitRateTokbps (ambr_Downlink ambr) \<noteq> None)"

lemma runs_a_rate [wp_simps]: "runs (a_rate r) s Q \<longleftrightarrow> (\<exists>k. BitRateTokbps r = Some k \<and> Q k s)"
  by (auto simp: a_rate_def wp_simps split: option.split)

lemma qer_frame_mods:
  "qer_frame u s s' \<Longrightarrow> qer_frame u s (mod_qer q f s')" "qer_ids ids used u (mod_qer q f s') = qer_ids ids used u s'"
  "qer_frame u s s' \<Longrightarrow> qer_frame u s (mod_ctx (AMBRQerMap_update h) s')" "qer_ids ids used u (mod_ctx (AMBRQerMap_update h) s') = qer_ids ids used u s'"
  "qer_frame u s s' \<Longrightarrow> qer_frame u s (mod_ctx (QerUpfMap_update h') s')" "qer_ids ids used u (mod_ctx (QerUpfMap_update h') s') = qer_ids ids used u s'"
  by (cases "s_ctx s'"; simp add: qer_frame_def mod_qer_def mod_ctx_def qer_ids_def fixed_def)+

lemma qers_run:
  assumes gen: "id_generator env ids used" and u: "upf_at (s_upi s) u = Ok upf" "upf_associated upf" and n: "Suc n \<le> qer_ids ids used u s"
    and rule: "rates_known rule"
  shows "runs (ambr_qer env rule (u, upf)) s (\<lambda>_ s'. qer_frame u s s' \<and> n \<le> qer_ids ids used u s')"
    and "runs (default_qer env rule d (u, upf)) s (\<lambda>_ s'. qer_frame u s s' \<and> n \<le> qer_ids ids used u s')"
proof -
  obtain r ambr ul dl where r: "rule = Some r" "AuthSessAmbr r = Some ambr" "BitRateTokbps (ambr_Uplink ambr) = Some ul" "BitRateTokbps (ambr_Downlink ambr) = Some dl"
    using rule by (auto simp: rates_known_def)
  have refl: "qer_frame u s s"
    by (simp add: qer_frame_def same_rules_def)
  note add = AddQER_runs [OF gen u n]
  show "runs (ambr_qer env rule (u, upf)) s (\<lambda>_ s'. qer_frame u s s' \<and> n \<le> qer_ids ids used u s')"
  proof (cases "map_of (AMBRQerMap (s_ctx s)) (upf_uuid upf)")
    case None
    then show ?thesis
      using runs_mono [OF add] r by (simp add: ambr_qer_def wp_simps qer_frame_mods)
  next
    case (Some i)
    then show ?thesis
      using refl n by (simp add: ambr_qer_def wp_simps)
  qed
  show "runs (default_qer env rule d (u, upf)) s (\<lambda>_ s'. qer_frame u s s' \<and> n \<le> qer_ids ids used u s')"
  proof (cases "d \<and> map_of (QerUpfMap (s_ctx s)) (getQosIdKey (upf_uuid upf) (DefQosQFI r)) = None")
    case True
    then show ?thesis
      using runs_mono [OF add] r by (simp add: default_qer_def wp_simps qer_frame_mods Let_def)
  next
    case False
    then show ?thesis
      using refl n r by (auto simp: default_qer_def wp_simps Let_def)
  qed
qed

section \<open>The last loop\<close>

lemma quiet_values:
  assumes "quiet s s'"
  shows "wired d s' a p f \<longleftrightarrow> wired d s a p f" "UPF_of s' a = UPF_of s a" "iface_addr env (s_ctx s') = iface_addr env (s_ctx s)"
    "up_pdr env s' a = up_pdr env s a" "up_params env s' a = up_params env s a"
    "down_pdr dc env s' a = down_pdr dc env s a" "down_far False env s' a = down_far False env s a"
proof -
  have s: "s_nodes s' = s_nodes s" "s_upi s' = s_upi s" "fixed (s_ctx s') = fixed (s_ctx s)"
    using assms by (simp_all add: quiet_def)
  note c = fixed_eqD [OF s(3)]
  show u: "UPF_of s' b = UPF_of s b" for b
    by (simp add: UPF_of_def s)
  show i: "iface_addr env (s_ctx s') = iface_addr env (s_ctx s)"
    by (simp add: iface_addr_def c fun_eq_iff)
  show "wired d s' a p f \<longleftrightarrow> wired d s a p f"
    using quiet_nth [OF assms] by (auto simp: wired_def s u)
  have n: "network_instance env (s_ctx s') = network_instance env (s_ctx s)" "ue_address (s_ctx s') = ue_address (s_ctx s)"
    by (simp_all add: network_instance_def ue_address_def c fun_eq_iff)
  show "up_pdr env s' a = up_pdr env s a" "up_params env s' a = up_params env s a"
    by (simp_all add: up_pdr_def up_params_def ul_PDI_def ul_params_def s u i n fun_eq_iff split: option.split)
  have a: "dl_anchor_PDI env (s_ctx s') = dl_anchor_PDI env (s_ctx s)" "an_params env (s_ctx s') = an_params env (s_ctx s)"
    by (simp_all add: dl_anchor_PDI_def an_params_def n fun_eq_iff split: option.split)
  then have "dl_PDI dc env (s_ctx s') = dl_PDI dc env (s_ctx s)"
    by (simp add: dl_PDI_def fun_eq_iff)
  with a show "down_pdr dc env s' a = down_pdr dc env s a" "down_far False env s' a = down_far False env s a"
    by (simp_all add: down_pdr_def down_far_def an_tunnel_def c s u i fun_eq_iff split: option.split)
qed

definition touches :: "nat \<Rightarrow> nat set \<Rightarrow> nat set \<Rightarrow> 'g smf \<Rightarrow> 'g smf \<Rightarrow> bool" where
  "touches u P F s s' \<longleftrightarrow> quiet s s' \<and> (\<forall>v. v \<noteq> u \<longrightarrow> s_rules s' v = s_rules s v) \<and>
     (\<forall>p. p \<notin> P \<longrightarrow> s_pdrs s' ! p = s_pdrs s ! p) \<and> (\<forall>f. f \<notin> F \<longrightarrow> s_fars s' ! f = s_fars s ! f)"

lemma mods_quiet:
  assumes "\<And>pdr. PDRID (P pdr) = PDRID pdr \<and> pdr_FAR (P pdr) = pdr_FAR pdr" and "\<And>far. FARID (F far) = FARID far \<and> far_BAR (F far) = far_BAR far"
  shows "touches u {p} {f} s (mod_far f F (mod_pdr p P s))"
  using assms by (simp add: touches_def quiet_def same_rules_def map_update_same)

lemma keep_ids:
  "PDRID (up_pdr env s a (set_qers_precedence dq aq gbr precedence pdr)) = PDRID pdr \<and>
   pdr_FAR (up_pdr env s a (set_qers_precedence dq aq gbr precedence pdr)) = pdr_FAR pdr"
  "PDRID (down_pdr dc env s a (set_qers_precedence dq aq gbr precedence pdr)) = PDRID pdr \<and>
   pdr_FAR (down_pdr dc env s a (set_qers_precedence dq aq gbr precedence pdr)) = pdr_FAR pdr"
  "FARID (down_far dc env s a far) = FARID far \<and> far_BAR (down_far dc env s a far) = far_BAR far"
  by (simp_all add: up_pdr_def down_pdr_def down_far_def set_qers_precedence_def split: option.split)

text \<open>The rules of a node as they are meant to be.\<close>

definition rules_set ::
    "('g, 'z) act_env_scheme \<Rightarrow> u32 \<Rightarrow> 'g smf \<Rightarrow> 'g smf \<Rightarrow> nat \<Rightarrow> nat \<Rightarrow> nat \<Rightarrow> nat \<Rightarrow> nat \<Rightarrow> bool" where
  "rules_set env precedence s0 s a p f q g \<longleftrightarrow>
     (\<exists>pdr. s_pdrs s ! p = up_pdr env s0 a pdr \<and> Precedence pdr = precedence) \<and>
     (\<exists>far. s_fars s ! f = far\<lparr>far_ApplyAction := forward, far_ForwardingParameters := Some (up_params env s0 a)\<rparr>) \<and>
     (\<exists>pdr. s_pdrs s ! q = down_pdr False env s0 a pdr \<and> Precedence pdr = precedence) \<and>
     (\<exists>far. s_fars s ! g = down_far False env s0 a far)"

lemma setup_node_runs:
  assumes gen: "id_generator env ids used" and rule: "rates_known rule"
    and w: "wired UpLink s a p f" "wired DownLink s a q g" "p \<noteq> q" "f \<noteq> g" "upf_associated (UPF_of s a)"
      "2 \<le> qer_ids ids used (node_upf (s_nodes s) a) s"
    and ip: "iface_addr env (s_ctx s) (UPF_of s a) (if IsANUPF (s_nodes s) a then ''N3'' else ''N9'') \<noteq> None"
      "\<not> IsAnchorUPF (s_nodes s) a \<Longrightarrow> iface_addr env (s_ctx s) (UPF_of s a) ''N9'' \<noteq> None"
    and nx: "\<And>b. Next (s_nodes s) a = Some b \<Longrightarrow> (\<exists>p f. wired UpLink s b p f) \<and> iface_addr env (s_ctx s) (UPF_of s b) ''N9'' \<noteq> None"
    and pv: "\<And>b. Prev (s_nodes s) a = Some b \<Longrightarrow> (\<exists>p f. wired DownLink s b p f) \<and> iface_addr env (s_ctx s) (UPF_of s b) ''N9'' \<noteq> None"
    and an: "Prev (s_nodes s) a = None \<Longrightarrow> FirstDPNode path = Some a" "sc_Tunnel (s_ctx s) \<noteq> None"
  shows "runs (setup_node False env path precedence rule a) s
    (\<lambda>_ s'. touches (node_upf (s_nodes s) a) {p, q} {f, g} s s' \<and> rules_set env precedence s s' a p f q g)"
proof -
  let ?u = "node_upf (s_nodes s) a"
  obtain t t' where t: "UpLinkTunnel (s_nodes s ! a) = Some t" "DownLinkTunnel (s_nodes s ! a) = Some t'"
    using w(1,2) by (auto simp: wired_def)
  have u: "upf_at (s_upi s) ?u = Ok (UPF_of s a)" "dn_UPF (s_nodes s ! a) = Some ?u" "a < length (s_nodes s)"
    using w(1) by (simp_all add: wired_def)
  have links: "runs (athen (setup_uplink env path precedence dq aq a t) (setup_downlink False env path precedence dq aq a t')) s2
    (\<lambda>_ s'. touches ?u {p, q} {f, g} s s' \<and> rules_set env precedence s s' a p f q g)" if s2: "qer_frame ?u s s2" for s2 dq aq
  proof -
    let ?up = "\<lambda>pdr. up_pdr env s a (set_qers_precedence dq aq (GBRFlow path) precedence pdr)"
    let ?uf = "\<lambda>far. far\<lparr>far_ApplyAction := forward, far_ForwardingParameters := Some (up_params env s a)\<rparr>"
    let ?dp = "\<lambda>pdr. down_pdr False env s a (set_qers_precedence dq aq (GBRFlow path) precedence pdr)"
    define s3 where "s3 = mod_far f ?uf (mod_pdr p ?up s2)"
    have q2: "quiet s s2" and n2: "s_nodes s2 = s_nodes s"
      using s2 qer_frame_quiet by (auto simp: qer_frame_def)
    have t3: "touches ?u {p} {f} s2 s3"
      unfolding s3_def by (rule mods_quiet) (simp_all add: keep_ids)
    then have q3: "quiet s s3" and n3: "s_nodes s3 = s_nodes s"
      using quiet_trans [OF q2] n2 by (auto simp: touches_def quiet_def)
    note v2 = quiet_values [OF q2] and v3 = quiet_values [OF q3]
    have up: "runs (setup_uplink env path precedence dq aq a t) s2 Q \<longleftrightarrow> Q () s3" for Q
      using setup_uplink_runs [of s2 a p f t env path precedence dq aq Q] w(1) t(1) ip(1) nx by (simp add: v2 n2 s3_def)
    have "an_tunnel False (s_ctx s3) \<noteq> None"
      using an(2) fixed_eqD(4) q3 by (metis an_tunnel_def quiet_def)
    then have down: "runs (setup_downlink False env path precedence dq aq a t') s3 Q \<longleftrightarrow> Q () (mod_far g (down_far False env s a) (mod_pdr q ?dp s3))" for Q
      using setup_downlink_runs [of s3 a q g t' env path False precedence dq aq Q] w(2) t(2) ip(2) pv an(1) by (simp add: v3 n3)
    have t4: "touches ?u {q} {g} s3 (mod_far g (down_far False env s a) (mod_pdr q ?dp s3))"
      by (rule mods_quiet) (simp_all add: keep_ids)
    have "touches ?u {p, q} {f, g} s (mod_far g (down_far False env s a) (mod_pdr q ?dp s3))"
      using s2 t3 t4 quiet_trans [OF q3] by (simp add: touches_def qer_frame_def)
    moreover have "rules_set env precedence s (mod_far g (down_far False env s a) (mod_pdr q ?dp s3)) a p f q g"
      using w(1-4) quiet_nth(1,2) [OF q2]
      by (auto simp: rules_set_def s3_def wired_def nth_list_update set_qers_precedence_def)
    ultimately show ?thesis
      by (simp add: runs_basic up down)
  qed
  have "runs (ambr_qer env rule (?u, UPF_of s a)) s (\<lambda>aq s1. runs (default_qer env rule (IsDefaultPath path) (?u, UPF_of s a)) s1 (\<lambda>dq s2.
      runs (athen (setup_uplink env path precedence dq aq a t) (setup_downlink False env path precedence dq aq a t')) s2
        (\<lambda>_ s'. touches ?u {p, q} {f, g} s s' \<and> rules_set env precedence s s' a p f q g)))"
  proof (rule runs_mono [OF qers_run(1) [OF gen u(1) w(5) _ rule, of 1]])
    show "Suc 1 \<le> qer_ids ids used ?u s"
      using w(6) by simp
    fix aq s1 assume s1: "qer_frame ?u s s1 \<and> 1 \<le> qer_ids ids used ?u s1"
    then have s1': "upf_at (s_upi s1) ?u = Ok (UPF_of s a)" "Suc 0 \<le> qer_ids ids used ?u s1"
      using u(1) by (simp_all add: qer_frame_def)
    show "runs (default_qer env rule (IsDefaultPath path) (?u, UPF_of s a)) s1 (\<lambda>dq s2.
        runs (athen (setup_uplink env path precedence dq aq a t) (setup_downlink False env path precedence dq aq a t')) s2
          (\<lambda>_ s'. touches ?u {p, q} {f, g} s s' \<and> rules_set env precedence s s' a p f q g))"
    proof (rule runs_mono [OF qers_run(2) [OF gen s1'(1) w(5) s1'(2) rule]])
      fix dq s2 assume "qer_frame ?u s1 s2 \<and> 0 \<le> qer_ids ids used ?u s2"
      with s1 have "qer_frame ?u s s2"
        using qer_frame_trans by blast
      then show "runs (athen (setup_uplink env path precedence dq aq a t) (setup_downlink False env path precedence dq aq a t')) s2
          (\<lambda>_ s'. touches ?u {p, q} {f, g} s s' \<and> rules_set env precedence s s' a p f q g)"
        by (rule links)
    qed
  qed
  with t u show ?thesis
    by (simp add: setup_node_def runs_basic(4) runs_a_node runs_a_upf)
qed

lemma dlist_first: "dlist h p prev l \<Longrightarrow> p = (if l = [] then None else Some (l ! 0))"
  by (cases l) auto

lemma dlist_neighbours:
  assumes "dlist h p prev l" and "k < length l"
  shows "Next h (l ! k) = (if Suc k < length l then Some (l ! Suc k) else None) \<and>
    Prev h (l ! k) = (if k = 0 then prev else Some (l ! (k - 1)))"
  using assms
proof (induction l arbitrary: p prev k)
  case (Cons a l)
  show ?case
  proof (cases k)
    case 0
    then show ?thesis
      using Cons.prems dlist_first [of h "Next h a" "Some a" l] by auto
  next
    case (Suc j)
    then show ?thesis
      using Cons.IH [of "Next h a" "Some a" j] Cons.prems by (cases j) auto
  qed
qed simp

text \<open>The interfaces that a path over \<open>l\<close> needs.\<close>

definition interfaces_ready :: "('g, 'z) act_env_scheme \<Rightarrow> 'g smf \<Rightarrow> nat list \<Rightarrow> bool" where
  "interfaces_ready env s l \<longleftrightarrow> iface_addr env (s_ctx s) (UPF_of s (hd l)) ''N3'' \<noteq> None \<and>
     (1 < length l \<longrightarrow> (\<forall>a\<in>set l. iface_addr env (s_ctx s) (UPF_of s a) ''N9'' \<noteq> None))"

lemma tunneled_wired:
  assumes "tunneled env ids used s0 l s" and "k < length l" and "served s0 (l ! k)"
  shows "wired UpLink s (l ! k) (length (s_pdrs s0) + 2 * k) (length (s_fars s0) + 2 * k)"
    and "wired DownLink s (l ! k) (Suc (length (s_pdrs s0) + 2 * k)) (Suc (length (s_fars s0) + 2 * k))"
    and "node_upf (s_nodes s) (l ! k) = node_upf (s_nodes s0) (l ! k)" and "UPF_of s (l ! k) = UPF_of s0 (l ! k)"
proof -
  have k: "node_tunneled env ids used s0 s k (l ! k)" and t: "s_upi s = s_upi s0" "length (s_nodes s) = length (s_nodes s0)"
    "length (s_pdrs s) = length (s_pdrs s0) + 2 * length l" "length (s_fars s) = length (s_fars s0) + 2 * length l"
    using assms(1,2) by (simp_all add: tunneled_def)
  show u: "node_upf (s_nodes s) (l ! k) = node_upf (s_nodes s0) (l ! k)"
    using k by (auto simp: node_tunneled_def Let_def node_upf_def)
  then show f: "UPF_of s (l ! k) = UPF_of s0 (l ! k)"
    by (simp add: UPF_of_def t)
  show "wired UpLink s (l ! k) (length (s_pdrs s0) + 2 * k) (length (s_fars s0) + 2 * k)"
    "wired DownLink s (l ! k) (Suc (length (s_pdrs s0) + 2 * k)) (Suc (length (s_fars s0) + 2 * k))"
    using k assms(2,3) by (auto simp: wired_def u f t served_def node_tunneled_def Let_def)
qed

lemma rules_set_kept:
  assumes "rules_set env precedence s0 s a p f q g" and "touches u P F s s'" and "p \<notin> P" "q \<notin> P" "f \<notin> F" "g \<notin> F"
  shows "rules_set env precedence s0 s' a p f q g"
  using assms by (simp add: rules_set_def touches_def)

lemma nodes_set_up:
  assumes gen: "id_generator env ids used" and rule: "rates_known rule"
    and l: "dlist (s_nodes s) (FirstDPNode path) None l" "l \<noteq> []" "\<forall>a\<in>set l. served s0 a"
      "distinct (map (\<lambda>a. upf_ip env (UPF_of s0 a)) l)"
    and t: "tunneled env ids used s0 l s" and ids: "\<forall>a\<in>set l. 2 \<le> qer_ids ids used (node_upf (s_nodes s) a) s"
    and ip: "interfaces_ready env s l" and an: "sc_Tunnel (s_ctx s) \<noteq> None"
  defines "n \<equiv> \<lambda>k. length (s_pdrs s0) + 2 * k" and "m \<equiv> \<lambda>k. length (s_fars s0) + 2 * k"
  shows "\<exists>s'. walk (setup_node False env path precedence rule) (FirstDPNode path) s = Some (Ok ((), s')) \<and> quiet s s' \<and>
    (\<forall>p < length (s_pdrs s0). s_pdrs s' ! p = s_pdrs s ! p) \<and> (\<forall>f < length (s_fars s0). s_fars s' ! f = s_fars s ! f) \<and>
    (\<forall>k < length l. rules_set env precedence s s' (l ! k) (n k) (m k) (Suc (n k)) (Suc (m k)))"
proof -
  let ?U = "node_upf (s_nodes s)"
  define I where "I = (\<lambda>pre s'. quiet s s' \<and> (\<forall>p < length (s_pdrs s0). s_pdrs s' ! p = s_pdrs s ! p) \<and>
    (\<forall>f < length (s_fars s0). s_fars s' ! f = s_fars s ! f) \<and> (\<forall>v. v \<notin> ?U ` set pre \<longrightarrow> s_rules s' v = s_rules s v) \<and>
    (\<forall>k < length pre. rules_set env precedence s s' (l ! k) (n k) (m k) (Suc (n k)) (Suc (m k))))"
  have wk: "wired UpLink s (l ! k) (n k) (m k)" "wired DownLink s (l ! k) (Suc (n k)) (Suc (m k))"
    "?U (l ! k) = node_upf (s_nodes s0) (l ! k)" "UPF_of s (l ! k) = UPF_of s0 (l ! k)" "upf_associated (UPF_of s (l ! k))"
    if "k < length l" for k
    using tunneled_wired [OF t that] l(3) nth_mem [OF that] unfolding n_def m_def by (auto simp: served_def)
  have "\<exists>s'. walk (setup_node False env path precedence rule) (FirstDPNode path) s = Some (Ok ((), s')) \<and> I l s'"
    using l(1)
  proof (rule walk_runs)
    show "I [] s"
      by (simp add: I_def)
    show "Next (s_nodes t) a = Next (s_nodes s) a" if "I pre t" for pre t a
      using that by (simp add: I_def quiet_def)
    show "runs (setup_node False env path precedence rule a) s1 (\<lambda>_. I (pre @ [a]))" if pre: "l = pre @ a # rest" and I: "I pre s1" for pre a rest s1
    proof -
      let ?k = "length pre"
      have k: "?k < length l" "l ! ?k = a"
        using pre by auto
      have q: "quiet s s1" and n1: "s_nodes s1 = s_nodes s"
        using I by (simp_all add: I_def quiet_def)
      note v = quiet_values [OF q]
      have u: "?U a \<notin> ?U ` set pre"
      proof
        assume "?U a \<in> ?U ` set pre"
        then obtain j where j: "j < ?k" "?U (l ! j) = ?U a"
          using pre by (auto simp: in_set_conv_nth nth_append)
        then have "UPF_of s (l ! j) = UPF_of s (l ! ?k)"
          using k(2) by (simp add: UPF_of_def)
        then have "upf_ip env (UPF_of s0 (l ! j)) = upf_ip env (UPF_of s0 (l ! ?k))"
          using wk(4) [of j] wk(4) [OF k(1)] j(1) k(1) by simp
        then show False
          using nth_eq_iff_index_eq [OF l(4), of j ?k] j(1) k(1) by simp
      qed
      have links: "Next (s_nodes s1) a = (if Suc ?k < length l then Some (l ! Suc ?k) else None)"
        "Prev (s_nodes s1) a = (if ?k = 0 then None else Some (l ! (?k - 1)))"
        using dlist_neighbours [OF l(1) k(1)] k(2) n1 by auto
      have addr: "iface_addr env (s_ctx s1) (UPF_of s1 (l ! 0)) ''N3'' \<noteq> None"
        "\<And>j. 1 < length l \<Longrightarrow> j < length l \<Longrightarrow> iface_addr env (s_ctx s1) (UPF_of s1 (l ! j)) ''N9'' \<noteq> None"
        using ip by (simp_all add: interfaces_ready_def v hd_conv_nth [OF l(2)])
      have "runs (setup_node False env path precedence rule a) s1
        (\<lambda>_ s'. touches (node_upf (s_nodes s1) a) {n ?k, Suc (n ?k)} {m ?k, Suc (m ?k)} s1 s' \<and>
          rules_set env precedence s1 s' a (n ?k) (m ?k) (Suc (n ?k)) (Suc (m ?k)))"
      proof (rule setup_node_runs [OF gen rule])
        show "wired UpLink s1 a (n ?k) (m ?k)" "wired DownLink s1 a (Suc (n ?k)) (Suc (m ?k))" "upf_associated (UPF_of s1 a)"
          using wk [OF k(1)] k(2) v by simp_all
        show "2 \<le> qer_ids ids used (node_upf (s_nodes s1) a) s1"
          using I u ids pre n1 by (simp add: I_def qer_ids_def)
        show "iface_addr env (s_ctx s1) (UPF_of s1 a) (if IsANUPF (s_nodes s1) a then ''N3'' else ''N9'') \<noteq> None"
          using addr(1) addr(2) [of ?k] k by (cases "?k = 0") (simp_all add: IsANUPF_def links)
        show "iface_addr env (s_ctx s1) (UPF_of s1 a) ''N9'' \<noteq> None" if "\<not> IsAnchorUPF (s_nodes s1) a"
          using that addr(2) [of ?k] k by (simp add: IsAnchorUPF_def links split: if_splits)
        show "(\<exists>p f. wired UpLink s1 b p f) \<and> iface_addr env (s_ctx s1) (UPF_of s1 b) ''N9'' \<noteq> None" if "Next (s_nodes s1) a = Some b" for b
          using that addr(2) [of "Suc ?k"] wk(1) [of "Suc ?k"] v(1) by (auto simp: links split: if_splits)
        show "(\<exists>p f. wired DownLink s1 b p f) \<and> iface_addr env (s_ctx s1) (UPF_of s1 b) ''N9'' \<noteq> None" if "Prev (s_nodes s1) a = Some b" for b
          using that addr(2) [of "?k - 1"] wk(2) [of "?k - 1"] k(1) v(1) by (cases pre) (auto simp: links split: if_splits)
        show "FirstDPNode path = Some a" if "Prev (s_nodes s1) a = None"
          using that k dlist_first [OF l(1)] l(2) by (simp add: links split: if_splits)
        show "sc_Tunnel (s_ctx s1) \<noteq> None"
          using an q fixed_eqD(4) unfolding quiet_def by metis
      qed simp_all
      then show ?thesis
      proof (rule runs_mono)
        fix s' assume s': "touches (node_upf (s_nodes s1) a) {n ?k, Suc (n ?k)} {m ?k, Suc (m ?k)} s1 s' \<and>
          rules_set env precedence s1 s' a (n ?k) (m ?k) (Suc (n ?k)) (Suc (m ?k))"
        have "rules_set env precedence s s' (l ! j) (n j) (m j) (Suc (n j)) (Suc (m j))" if "j < ?k" for j
        proof (rule rules_set_kept)
          show "rules_set env precedence s s1 (l ! j) (n j) (m j) (Suc (n j)) (Suc (m j))"
            using I that by (simp add: I_def)
          show "touches (node_upf (s_nodes s1) a) {n ?k, Suc (n ?k)} {m ?k, Suc (m ?k)} s1 s'"
            using s' by simp
        qed (use that in \<open>auto simp: n_def m_def\<close>)
        moreover have "rules_set env precedence s s' a (n ?k) (m ?k) (Suc (n ?k)) (Suc (m ?k))"
          using s' by (simp add: rules_set_def v)
        ultimately show "I (pre @ [a]) s'"
          using I s' k(2) quiet_trans [OF q] n1
          by (auto simp: I_def touches_def less_Suc_eq n_def m_def)
      qed
    qed
  qed
  then show ?thesis
    unfolding I_def by blast
qed

section \<open>Activated paths\<close>

definition ids_left :: "('g \<Rightarrow> int set) \<Rightarrow> ('g \<Rightarrow> int set) \<Rightarrow> 'g upf_rules \<Rightarrow> bool" where
  "ids_left ids used r \<longleftrightarrow> 2 \<le> card (ids (pdrIDGenerator r) - used (pdrIDGenerator r)) \<and>
     2 \<le> card (ids (farIDGenerator r) - used (farIDGenerator r)) \<and> 2 \<le> card (ids (qerIDGenerator r) - used (qerIDGenerator r))"

definition id_ranges :: "('g \<Rightarrow> int set) \<Rightarrow> 'g upf_rules \<Rightarrow> bool" where
  "id_ranges ids r \<longleftrightarrow> ids (pdrIDGenerator r) = {1..65535} \<and> ids (farIDGenerator r) = {1..4294967295}"

text \<open>A path over the nodes \<open>l\<close> for which nothing is missing.\<close>

definition activatable ::
    "('g, 'z) act_env_scheme \<Rightarrow> ('g \<Rightarrow> int set) \<Rightarrow> ('g \<Rightarrow> int set) \<Rightarrow> 'g smf \<Rightarrow> DataPath \<Rightarrow> nat list \<Rightarrow> bool" where
  "activatable env ids used s path l \<longleftrightarrow>
     l \<noteq> [] \<and> dlist (s_nodes s) (FirstDPNode path) None l \<and> 
     (\<forall>a\<in>set l. served s a \<and> id_ranges ids (rules_at s a) \<and> ids_left ids used (rules_at s a)) \<and>
     distinct (map (\<lambda>a. upf_ip env (UPF_of s a)) l) \<and> interfaces_ready env s l \<and>
     rates_known (SelectedSessionRule (s_ctx s)) \<and> sc_Tunnel (s_ctx s) \<noteq> None"

lemma same_but_PFCPContext':
  assumes "c\<lparr>PFCPContext := []\<rparr> = c'\<lparr>PFCPContext := []\<rparr>"
  shows "fixed (c\<lparr>PFCPContext := x\<rparr>) = fixed (c'\<lparr>PFCPContext := x\<rparr>)" "sc_Dnn c = sc_Dnn c'" "SelectedPDUSessionType c = SelectedPDUSessionType c'"
    "SelectedSessionRule c = SelectedSessionRule c'" "sc_Tunnel c = sc_Tunnel c'" "sc_PDUAddress c = sc_PDUAddress c'"
  using assms by (cases c; cases c'; simp add: fixed_def SelectedSessionRule_def)+

lemma dlist_cong:
  "length h' = length h \<Longrightarrow> \<forall>a\<in>set l. Next h' a = Next h a \<and> Prev h' a = Prev h a \<Longrightarrow> dlist h' p prev l = dlist h p prev l"
  by (induction l arbitrary: p prev) auto

lemma tunneled_node:
  assumes "tunneled env ids used s0 l s" and "a \<in> set l"
  shows "Next (s_nodes s) a = Next (s_nodes s0) a" "Prev (s_nodes s) a = Prev (s_nodes s0) a" "dn_UPF (s_nodes s ! a) = dn_UPF (s_nodes s0 ! a)"
    "node_pdrs (s_nodes s ! a) \<subseteq> {length (s_pdrs s0)..}"
  using assms by (auto simp: tunneled_def node_tunneled_def Let_def in_set_conv_nth Next_def Prev_def node_pdrs_def)

lemma take_eqI: "length xs \<le> length ys \<Longrightarrow> (\<And>i. i < length xs \<Longrightarrow> ys ! i = xs ! i) \<Longrightarrow> take (length xs) ys = xs"
  by (simp add: list_eq_iff_nth_eq)

lemma activation:
  assumes gen: "id_generator env ids used" and act: "activatable env ids used s path l"
  shows "\<exists>s0 s2 s'. ActivateTunnelAndPDR env path precedence s = Some (Ok (path\<lparr>Activated := True\<rparr>, s')) \<and>
    seids_ready env s l s0 \<and> tunneled env ids used s0 l s2 \<and> quiet s2 s' \<and> (s_ctx s2)\<lparr>PFCPContext := []\<rparr> = (s_ctx s)\<lparr>PFCPContext := []\<rparr> \<and>
    take (length (s_pdrs s)) (s_pdrs s') = s_pdrs s \<and> take (length (s_fars s)) (s_fars s') = s_fars s \<and>
    (\<forall>v. v \<notin> node_upf (s_nodes s) ` set l \<longrightarrow> same_rules (s_rules s v) (s_rules s' v)) \<and>
    (\<forall>ip. ip \<notin> (\<lambda>a. upf_ip env (UPF_of s a)) ` set l \<longrightarrow> map_of (PFCPContext (s_ctx s')) ip = map_of (PFCPContext (s_ctx s0)) ip) \<and>
    (\<forall>k < length l. rules_set env precedence s2 s' (l ! k) (length (s_pdrs s) + 2 * k) (length (s_fars s) + 2 * k)
       (Suc (length (s_pdrs s) + 2 * k)) (Suc (length (s_fars s) + 2 * k)))"
proof -
  have a: "l \<noteq> []" "dlist (s_nodes s) (FirstDPNode path) None l" "\<forall>a\<in>set l. served s a" "\<forall>a\<in>set l. ids_left ids used (rules_at s a)"
    "distinct (map (\<lambda>a. upf_ip env (UPF_of s a)) l)" "interfaces_ready env s l" "rates_known (SelectedSessionRule (s_ctx s))" "sc_Tunnel (s_ctx s) \<noteq> None"
    using act by (simp_all add: activatable_def)
  obtain s0 where s0: "AllocateLocalSEIDForDataPath env path s = Some (Ok ((), s0))" "seids_ready env s l s0"
    using seids_allocated [OF a(2,3)] by blast
  then have e0: "s_nodes s0 = s_nodes s" "s_upi s0 = s_upi s" "s_rules s0 = s_rules s" "s_pdrs s0 = s_pdrs s" "s_fars s0 = s_fars s"
    "(s_ctx s0)\<lparr>PFCPContext := []\<rparr> = (s_ctx s)\<lparr>PFCPContext := []\<rparr>" "\<forall>a\<in>set l. pfcp_at env s0 s0 a \<noteq> None"
    by (simp_all add: seids_ready_def UPF_of_def)
  have eq0: "served s0 b = served s b" "UPF_of s0 b = UPF_of s b" for b
    by (simp_all add: served_def UPF_of_def e0)
  obtain s1 where s1: "walk (\<lambda>a. athen (ActivateUpLinkTunnel env a) (ActivateDownLinkTunnel env a)) (FirstDPNode path) s0 = Some (Ok ((), s1))"
      "tunneled env ids used s0 l s1" "untouched env s0 l s1"
    using tunnels_activated [OF gen, of s0 path l] a(2-5) e0 by (auto simp: eq0 ids_left_def)
  have d1: "dlist (s_nodes s1) (FirstDPNode path) None l"
    using dlist_cong [of "s_nodes s1" "s_nodes s0" l] tunneled_node(1,2) [OF s1(2)] s1(2) a(2) e0(1) by (auto simp: tunneled_def)
  have "a < length (s_nodes s1) \<and> dn_UPF (s_nodes s1 ! a) = Some (node_upf (s_nodes s0) a) \<and>
      upf_at (s_upi s1) (node_upf (s_nodes s0) a) = Ok (UPF_of s0 a) \<and> upf_associated (UPF_of s0 a)" if "a \<in> set l" for a
    using tunneled_node(3) [OF s1(2) that] s1(2) a(3) that by (simp add: tunneled_def served_def e0(1,2) eq0(2))
  from urrs_added [OF d1 this] obtain s2 where s2: "addUrrToPath env path s1 = Some (Ok ((), s2))"
      "urr_frame (\<Union>a\<in>set l. node_pdrs (s_nodes s1 ! a)) s1 s2"
    by blast
  have t2: "tunneled env ids used s0 l s2"
    using tunneled_quiet [OF s1(2)] s2(2) by (simp add: urr_frame_def)
  have c2: "(s_ctx s2)\<lparr>PFCPContext := []\<rparr> = (s_ctx s)\<lparr>PFCPContext := []\<rparr>" "s_ctx s2 = s_ctx s1" "s_nodes s2 = s_nodes s1"
    using s2(2) s1(3) e0(6) by (simp_all add: urr_frame_def untouched_def quiet_def)
  have nth: "node_upf (s_nodes s2) b = node_upf (s_nodes s) b" "UPF_of s2 b = UPF_of s b" if b: "b \<in> set l" for b
  proof -
    obtain k where "k < length l" "b = l ! k"
      using b by (auto simp: in_set_conv_nth)
    with tunneled_wired(3,4) [OF t2, of k] a(3) b
    show "node_upf (s_nodes s2) b = node_upf (s_nodes s) b" "UPF_of s2 b = UPF_of s b"
      by (simp_all add: eq0 e0)
  qed
  have iface: "iface_addr env (s_ctx s2) = iface_addr env (s_ctx s)"
    using same_but_PFCPContext' [OF c2(1)] by (simp add: iface_addr_def fun_eq_iff)
  have "qerIDGenerator (s_rules s2 v) = qerIDGenerator (s_rules s v)" for v
    using s2(2) s1(3) e0(3) by (simp add: urr_frame_def untouched_def)
  then have q2: "\<forall>b\<in>set l. 2 \<le> qer_ids ids used (node_upf (s_nodes s2) b) s2"
    using a(4) nth by (simp add: qer_ids_def ids_left_def)
  obtain s' where s': "walk (setup_node False env path precedence (SelectedSessionRule (s_ctx s2))) (FirstDPNode path) s2 = Some (Ok ((), s'))"
      "quiet s2 s'" "\<forall>p < length (s_pdrs s0). s_pdrs s' ! p = s_pdrs s2 ! p" "\<forall>f < length (s_fars s0). s_fars s' ! f = s_fars s2 ! f"
      "\<forall>k < length l. rules_set env precedence s2 s' (l ! k) (length (s_pdrs s0) + 2 * k) (length (s_fars s0) + 2 * k)
         (Suc (length (s_pdrs s0) + 2 * k)) (Suc (length (s_fars s0) + 2 * k))"
    using nodes_set_up [OF gen, of "SelectedSessionRule (s_ctx s2)" s2 path l s0 precedence] t2 q2 d1 a same_but_PFCPContext' [OF c2(1)] c2(3)
    by (auto simp: eq0 interfaces_ready_def iface nth)
  have "ActivateTunnelAndPDR env path precedence s = Some (Ok (path\<lparr>Activated := True\<rparr>, s'))"
    using s0(1) s1(1) s2(1) s'(1) by (simp add: ActivateTunnelAndPDR_def next_loop_def setup_path_def path_after_def)
  moreover have "take (length (s_pdrs s)) (s_pdrs s') = s_pdrs s" "take (length (s_fars s)) (s_fars s') = s_fars s"
  proof -
    have old: "p \<notin> (\<Union>a\<in>set l. node_pdrs (s_nodes s1 ! a))" if "p < length (s_pdrs s0)" for p
      using tunneled_node(4) [OF s1(2)] that by fastforce
    have tk: "take (length (s_pdrs s0)) (s_pdrs s1) = s_pdrs s0" "take (length (s_fars s0)) (s_fars s1) = s_fars s0"
      using s1(3) by (simp_all add: untouched_def)
    have "s_pdrs s1 ! p = s_pdrs s0 ! p" if "p < length (s_pdrs s0)" for p
      using arg_cong [OF tk(1), of "\<lambda>l. l ! p"] that by simp
    moreover have "s_fars s1 ! f = s_fars s0 ! f" if "f < length (s_fars s0)" for f
      using arg_cong [OF tk(2), of "\<lambda>l. l ! f"] that by simp
    moreover have "s_fars s2 = s_fars s1" "p < length (s_pdrs s0) \<Longrightarrow> s_pdrs s2 ! p = s_pdrs s1 ! p" for p
      using s2(2) old by (simp_all add: urr_frame_def)
    moreover have "length (s_pdrs s') = length (s_pdrs s0) + 2 * length l" "length (s_fars s') = length (s_fars s0) + 2 * length l"
      using t2 quiet_nth(1,2) [OF s'(2)] by (simp_all add: tunneled_def)
    ultimately show "take (length (s_pdrs s)) (s_pdrs s') = s_pdrs s" "take (length (s_fars s)) (s_fars s') = s_fars s"
      using s'(3,4) unfolding e0(4,5) by (auto intro!: take_eqI)
  qed
  moreover have "\<forall>v. v \<notin> node_upf (s_nodes s) ` set l \<longrightarrow> same_rules (s_rules s v) (s_rules s' v)"
    using s1(3) s2(2) s'(2) by (simp add: untouched_def urr_frame_def quiet_def same_rules_def e0)
  moreover have "PFCPContext (s_ctx s') = PFCPContext (s_ctx s1)"
    using s'(2) fixed_eqD(5) c2(2) unfolding quiet_def by metis
  then have "\<forall>ip. ip \<notin> (\<lambda>a. upf_ip env (UPF_of s a)) ` set l \<longrightarrow> map_of (PFCPContext (s_ctx s')) ip = map_of (PFCPContext (s_ctx s0)) ip"
    using s1(3) by (simp add: untouched_def eq0)
  ultimately show ?thesis
    using s0(2) t2 s'(2,5) c2(1) e0(4,5) by metis
qed

definition node_pdr :: "direction \<Rightarrow> 'g smf \<Rightarrow> nat \<Rightarrow> PDR" where
  "node_pdr d s a = s_pdrs s ! the (gt_PDR (the (tunnel d (s_nodes s ! a))))"

definition node_far :: "direction \<Rightarrow> 'g smf \<Rightarrow> nat \<Rightarrow> FAR" where
  "node_far d s a = s_fars s ! the (pdr_FAR (node_pdr d s a))"

definition out_header :: "direction \<Rightarrow> 'g smf \<Rightarrow> nat \<Rightarrow> OuterHeaderCreation option" where
  "out_header d s a = Option.bind (far_ForwardingParameters (node_far d s a)) fp_OuterHeaderCreation"

text \<open>What \<open>a\<close> forwards in a direction is what \<open>b\<close> detects in it.\<close>

definition forwards_to :: "direction \<Rightarrow> 'g smf \<Rightarrow> nat \<Rightarrow> nat \<Rightarrow> bool" where
  "forwards_to d s a b \<longleftrightarrow> Forw (far_ApplyAction (node_far d s a)) \<and>
     (\<exists>h t. out_header d s a = Some h \<and> LocalFTeid (pdr_PDI (node_pdr d s b)) = Some t \<and>
        ohc_Ipv4Address h = ft_Ipv4Address t \<and> ohc_Teid h = ft_Teid t)"

lemma rules_set_nodes:
  assumes t: "tunneled env ids used s0 l s'" and k: "k < length l"
    and r: "rules_set env precedence s2 s' (l ! k) (length (s_pdrs s0) + 2 * k) (length (s_fars s0) + 2 * k)
      (Suc (length (s_pdrs s0) + 2 * k)) (Suc (length (s_fars s0) + 2 * k))"
  shows "\<exists>pdr. node_pdr UpLink s' (l ! k) = up_pdr env s2 (l ! k) pdr \<and> Precedence pdr = precedence"
    and "\<exists>far. node_far UpLink s' (l ! k) = far\<lparr>far_ApplyAction := forward, far_ForwardingParameters := Some (up_params env s2 (l ! k))\<rparr>"
    and "\<exists>pdr. node_pdr DownLink s' (l ! k) = down_pdr False env s2 (l ! k) pdr \<and> Precedence pdr = precedence"
    and "\<exists>far. node_far DownLink s' (l ! k) = down_far False env s2 (l ! k) far"
  using t k r by (auto simp: tunneled_def node_tunneled_def Let_def rules_set_def node_far_def node_pdr_def)

lemma tunneled_teid:
  assumes "tunneled env ids used s0 l s" and "k < length l"
  shows "gt_TEID (the (UpLinkTunnel (s_nodes s ! (l ! k)))) = LocalULTeid (s_ctx s0)"
    and "gt_TEID (the (DownLinkTunnel (s_nodes s ! (l ! k)))) = LocalDLTeid (s_ctx s0)"
  using assms by (auto simp: tunneled_def node_tunneled_def Let_def)

text \<open>The matches and parameters of the rules of the \<open>k\<close>-th node, in terms of the session.\<close>

definition hop_values :: "('g, 'z) act_env_scheme \<Rightarrow> 'g smf \<Rightarrow> nat list \<Rightarrow> nat \<Rightarrow> 'g smf \<Rightarrow> bool" where
  "hop_values env s l k s' \<longleftrightarrow>
     (let c = s_ctx s; addr = (\<lambda>j ty. the (iface_addr env c (UPF_of s (l ! j)) ty)); a = l ! k in
      pdr_PDI (node_pdr UpLink s' a) = ul_PDI env c (addr k (if k = 0 then ''N3'' else ''N9'')) (LocalULTeid c) \<and>
      far_ApplyAction (node_far UpLink s' a) = forward \<and>
      far_ForwardingParameters (node_far UpLink s' a) = Some (if Suc k < length l
        then (ul_params env c)\<lparr>fp_OuterHeaderCreation := Some (gtp_header (addr (Suc k) ''N9'') (LocalULTeid c))\<rparr> else ul_params env c) \<and>
      pdr_PDI (node_pdr DownLink s' a) =
        (if Suc k < length l then dl_PDI False env c (addr k ''N9'') (LocalDLTeid c) else dl_anchor_PDI env c) \<and>
      (k \<noteq> 0 \<longrightarrow> far_ApplyAction (node_far DownLink s' a) = forward) \<and>
      far_ForwardingParameters (node_far DownLink s' a) = Some (if k = 0 then an_params env c (tn_ANInformation (the (sc_Tunnel c)))
        else dl_params (addr (k - 1) ''N9'') (LocalDLTeid c)))"

lemma hop_values_set:
  assumes t: "tunneled env ids used s0 l s2" "quiet s2 s'" and k: "k < length l"
    and r: "rules_set env precedence s2 s' (l ! k) (length (s_pdrs s0) + 2 * k) (length (s_fars s0) + 2 * k)
      (Suc (length (s_pdrs s0) + 2 * k)) (Suc (length (s_fars s0) + 2 * k))"
    and s0: "seids_ready env s l s0" and c: "(s_ctx s2)\<lparr>PFCPContext := []\<rparr> = (s_ctx s)\<lparr>PFCPContext := []\<rparr>"
    and l: "dlist (s_nodes s) p None l" "\<forall>a\<in>set l. served s a"
  shows "hop_values env s l k s' \<and> (\<forall>d. Precedence (node_pdr d s' (l ! k)) = precedence)"
proof -
  have e: "s_nodes s0 = s_nodes s" "s_upi s0 = s_upi s" "(s_ctx s0)\<lparr>PFCPContext := []\<rparr> = (s_ctx s)\<lparr>PFCPContext := []\<rparr>"
    using s0 by (simp_all add: seids_ready_def)
  note same = same_but_PFCPContext' [OF c] and teids = same_but_PFCPContext [OF e(3)]
  have u: "UPF_of s2 (l ! j) = UPF_of s (l ! j)" if "j < length l" for j
    using tunneled_wired(4) [OF t(1) that] l(2) nth_mem [OF that] by (simp add: e UPF_of_def served_def)
  have links: "Next (s_nodes s2) (l ! k) = (if Suc k < length l then Some (l ! Suc k) else None)"
    "Prev (s_nodes s2) (l ! k) = (if k = 0 then None else Some (l ! (k - 1)))"
    using tunneled_node(1,2) [OF t(1) nth_mem [OF k]] dlist_neighbours [OF l(1) k] by (simp_all add: e)
  have v: "iface_addr env (s_ctx s2) = iface_addr env (s_ctx s)" "ul_PDI env (s_ctx s2) = ul_PDI env (s_ctx s)"
    "ul_params env (s_ctx s2) = ul_params env (s_ctx s)" "dl_anchor_PDI env (s_ctx s2) = dl_anchor_PDI env (s_ctx s)"
    "dl_PDI False env (s_ctx s2) = dl_PDI False env (s_ctx s)" "an_params env (s_ctx s2) = an_params env (s_ctx s)"
    by (simp_all add: iface_addr_def ul_PDI_def ul_params_def dl_anchor_PDI_def dl_PDI_def an_params_def network_instance_def ue_address_def same fun_eq_iff split: option.split)
  note teid = tunneled_teid [OF t(1)]
  obtain pdr far pdr' far' where n:
    "node_pdr UpLink s' (l ! k) = up_pdr env s2 (l ! k) pdr" "Precedence pdr = precedence"
    "node_far UpLink s' (l ! k) = far\<lparr>far_ApplyAction := forward, far_ForwardingParameters := Some (up_params env s2 (l ! k))\<rparr>"
    "node_pdr DownLink s' (l ! k) = down_pdr False env s2 (l ! k) pdr'" "Precedence pdr' = precedence"
    "node_far DownLink s' (l ! k) = down_far False env s2 (l ! k) far'"
    using rules_set_nodes [OF tunneled_quiet [OF t] k r] by blast
  have "Precedence (node_pdr d s' (l ! k)) = precedence" for d
    by (cases d) (simp_all add: n up_pdr_def down_pdr_def)
  moreover have "hop_values env s l k s'"
    using k u [OF k] u [of "Suc k"] u [of "k - 1"] teid [OF k] teid [of "Suc k"] teid [of "k - 1"] teids
    by (simp add: hop_values_def Let_def n up_pdr_def up_params_def down_pdr_def down_far_def links v IsANUPF_def IsAnchorUPF_def an_tunnel_def same(5))
  ultimately show ?thesis
    by blast
qed

lemma word_of_id:
  assumes "took ids used g i h" and "took ids used h j g'" and "ids g = {1..65535}"
  shows "(word_of_int i :: u16) \<noteq> word_of_int j"
proof -
  have "1 \<le> i" "i \<le> 65535" "1 \<le> j" "j \<le> 65535" "i \<noteq> j"
    using assms by (auto simp: took_def)
  then have "uint (word_of_int i :: u16) = i" "uint (word_of_int j :: u16) = j"
    by (simp_all add: uint_word_of_int)
  with \<open>i \<noteq> j\<close> show ?thesis
    by metis
qed

lemma registered:
  assumes t: "tunneled env ids used s0 l s'" and s0: "seids_ready env s l s0" and a: "a \<in> set l" and r: "id_ranges ids (rules_at s a)"
  shows "\<exists>pc. pfcp_at env s s' a = Some pc \<and> map_of (PDRs pc) (PDRID (node_pdr d s' a)) = gt_PDR (the (tunnel d (s_nodes s' ! a)))"
proof -
  obtain k where k: "k < length l" "a = l ! k"
    using a by (auto simp: in_set_conv_nth)
  have e: "s_nodes s0 = s_nodes s" "s_upi s0 = s_upi s" "s_rules s0 = s_rules s"
    using s0 by (simp_all add: seids_ready_def)
  have "node_tunneled env ids used s0 s' k a"
    using t k by (simp add: tunneled_def)
  with r word_of_id [where ids = ids and used = used] show ?thesis
    unfolding node_tunneled_def Let_def e
    by (cases d) (auto simp: node_pdr_def update_conv' UPF_of_def e id_ranges_def)
qed

text \<open>
  C6. Activation of a data path for which nothing is missing (UPFs associated, interfaces configured, identifiers left, a
  session rule with readable rates) ends, sets up the rules of every node and marks the path as activated. The rules fit
  together: along the path, in both directions, the outer header that a node's forwarding rule creates is the tunnel endpoint
  that the next node's detection rule matches. The path begins at the N3 address of the first UPF with the session's
  uplink identifier and leaves the last one without a tunnel; downlink packets are matched by the UE's address there and
  leave the first UPF towards the access network, if its address is known. Every detection rule is registered in the PFCP session of
  its UPF, and rules that existed are not changed.
\<close>

theorem activated_path_forwards:
  assumes "id_generator env ids used" and "activatable env ids used s path l"
  shows "\<exists>s'. ActivateTunnelAndPDR env path precedence s = Some (Ok (path\<lparr>Activated := True\<rparr>, s')) \<and>
    (\<forall>k. Suc k < length l \<longrightarrow> forwards_to UpLink s' (l ! k) (l ! Suc k) \<and> forwards_to DownLink s' (l ! Suc k) (l ! k)) \<and>
    LocalFTeid (pdr_PDI (node_pdr UpLink s' (hd l))) = Some \<lparr>ft_V4 = True,
      ft_Ipv4Address = the (iface_addr env (s_ctx s) (UPF_of s (hd l)) ''N3''), ft_Teid = LocalULTeid (s_ctx s)\<rparr> \<and>
    Forw (far_ApplyAction (node_far UpLink s' (last l))) \<and> out_header UpLink s' (last l) = None \<and>
    pdr_PDI (node_pdr DownLink s' (last l)) = dl_anchor_PDI env (s_ctx s) \<and>
    out_header DownLink s' (hd l) = (let an = tn_ANInformation (the (sc_Tunnel (s_ctx s))) in
      map_option (\<lambda>ip. gtp_header (To4 ip) (an_TEID an)) (an_IPAddress an)) \<and>
    (\<forall>a\<in>set l. \<forall>d. Precedence (node_pdr d s' a) = precedence \<and> (\<exists>pc. pfcp_at env s s' a = Some pc \<and>
      map_of (PDRs pc) (PDRID (node_pdr d s' a)) = gt_PDR (the (tunnel d (s_nodes s' ! a))))) \<and>
    take (length (s_pdrs s)) (s_pdrs s') = s_pdrs s \<and> take (length (s_fars s)) (s_fars s') = s_fars s"
proof -
  have l: "l \<noteq> []" "dlist (s_nodes s) (FirstDPNode path) None l" "\<forall>a\<in>set l. served s a" "\<forall>a\<in>set l. id_ranges ids (rules_at s a)"
    using assms(2) by (simp_all add: activatable_def)
  obtain s0 s2 s' where act: "ActivateTunnelAndPDR env path precedence s = Some (Ok (path\<lparr>Activated := True\<rparr>, s'))"
    and s: "seids_ready env s l s0" "tunneled env ids used s0 l s2" "quiet s2 s'" "(s_ctx s2)\<lparr>PFCPContext := []\<rparr> = (s_ctx s)\<lparr>PFCPContext := []\<rparr>"
      "take (length (s_pdrs s)) (s_pdrs s') = s_pdrs s" "take (length (s_fars s)) (s_fars s') = s_fars s"
      "\<forall>k < length l. rules_set env precedence s2 s' (l ! k) (length (s_pdrs s) + 2 * k) (length (s_fars s) + 2 * k)
         (Suc (length (s_pdrs s) + 2 * k)) (Suc (length (s_fars s) + 2 * k))"
    using activation [OF assms] by blast
  have "s_pdrs s0 = s_pdrs s" "s_fars s0 = s_fars s"
    using s(1) by (simp_all add: seids_ready_def)
  then have hop: "hop_values env s l k s'" "Precedence (node_pdr d s' (l ! k)) = precedence" if "k < length l" for k d
    using hop_values_set [OF s(2,3) that _ s(1,4) l(2,3)] s(7) that by auto
  have 0: "0 < length l" "hd l = l ! 0" "last l = l ! (length l - 1)" "length l - 1 < length l"
    using l(1) by (simp_all add: hd_conv_nth last_conv_nth)
  have "forwards_to UpLink s' (l ! k) (l ! Suc k)" "forwards_to DownLink s' (l ! Suc k) (l ! k)" if "Suc k < length l" for k
    using hop(1) [of k] hop(1) [OF that] that
    by (simp_all add: forwards_to_def hop_values_def Let_def out_header_def ul_PDI_def dl_PDI_def dl_params_def gtp_header_def forward_def)
  moreover have "Precedence (node_pdr d s' a) = precedence \<and> (\<exists>pc. pfcp_at env s s' a = Some pc \<and>
      map_of (PDRs pc) (PDRID (node_pdr d s' a)) = gt_PDR (the (tunnel d (s_nodes s' ! a))))" if "a \<in> set l" for a d
    using registered [OF tunneled_quiet [OF s(2,3)] s(1) that] hop(2) l(4) that by (auto simp: in_set_conv_nth)
  ultimately show ?thesis
    using act s(5,6) hop(1) [OF 0(1)] hop(1) [OF 0(4)] 0
    by (auto simp: hop_values_def Let_def out_header_def ul_PDI_def ul_params_def no_forwarding_def an_params_def forward_def split: option.split)
qed

section \<open>An example\<close>

text \<open>A generator that hands out the least identifier not in use.\<close>

type_synonym list_gen = "int \<times> int \<times> int list"

definition lg_ids :: "list_gen \<Rightarrow> int set" where
  "lg_ids = (\<lambda>(lo, hi, us). {lo..hi})"

definition lg_used :: "list_gen \<Rightarrow> int set" where
  "lg_used = (\<lambda>(lo, hi, us). set us \<inter> {lo..hi})"

definition lg_Allocate :: "list_gen \<Rightarrow> int option \<times> list_gen" where
  "lg_Allocate = (\<lambda>(lo, hi, us). case List.find (\<lambda>i. i \<notin> set us) [lo..lo + int (length us)] of
     None \<Rightarrow> (None, (lo, hi, us)) | Some i \<Rightarrow> if i \<le> hi then (Some i, (lo, hi, i # us)) else (None, (lo, hi, us)))"

definition demo_act :: "list_gen act_env" where
  "demo_act = up_env.extend pool_env \<lparr>gen_New = \<lambda>lo hi. (lo, hi, []), gen_Allocate = lg_Allocate,
     gen_FreeID = \<lambda>i (lo, hi, us). (lo, hi, removeAll i us), ResolveIPAddr = \<lambda>_. None, NwInstFqdnEncoding = True\<rparr>"

lemma upto_find: "List.find P [i..j] = Some x \<Longrightarrow> P x \<and> i \<le> x \<and> x \<le> j \<and> (\<forall>y. i \<le> y \<longrightarrow> y < x \<longrightarrow> \<not> P y)"
proof (induction i j rule: upto.induct)
  case (1 i j)
  show ?case
  proof (cases "i \<le> j \<and> \<not> P i")
    case True
    then have "List.find P [i + 1..j] = Some x"
      using 1(2) by (simp add: upto.simps [of i j])
    with 1(1) True have IH: "P x \<and> i + 1 \<le> x \<and> x \<le> j \<and> (\<forall>y. i + 1 \<le> y \<longrightarrow> y < x \<longrightarrow> \<not> P y)"
      by blast
    have "y = i \<or> i + 1 \<le> y" if "i \<le> y" for y
      using that by auto
    with IH True show ?thesis
      by (metis add.commute order.trans zle_add1_eq_le zless_imp_add1_zle less_le_not_le linorder_not_le)
  next
    case False
    then show ?thesis
      using 1(2) by (cases "i \<le> j") (auto simp: upto.simps [of i j])
  qed
qed

lemma lg_finds: "List.find (\<lambda>i. i \<notin> set us) [lo..lo + int (length us)] \<noteq> None"
proof
  assume "List.find (\<lambda>i. i \<notin> set us) [lo..lo + int (length us)] = None"
  then have "{lo..lo + int (length us)} \<subseteq> set us"
    by (auto simp: find_None_iff)
  then have "card {lo..lo + int (length us)} \<le> length us"
    by (meson List.finite_set card_length card_mono order.trans)
  then show False
    by simp
qed

lemma lg_generator: "id_generator demo_act lg_ids lg_used"
proof -
  have al: "case lg_Allocate g of
        (None, g') \<Rightarrow> lg_used g = lg_ids g \<and> lg_used g' = lg_used g \<and> lg_ids g' = lg_ids g
      | (Some i, g') \<Rightarrow> i \<in> lg_ids g - lg_used g \<and> lg_used g' = insert i (lg_used g) \<and> lg_ids g' = lg_ids g" for g
  proof -
    obtain lo hi us where g: "g = (lo, hi, us)"
      by (cases g)
    obtain i where "List.find (\<lambda>i. i \<notin> set us) [lo..lo + int (length us)] = Some i"
      using lg_finds by blast
    with upto_find [OF this] show ?thesis
      by (auto simp: g lg_Allocate_def lg_used_def lg_ids_def)
  qed
  have env: "gen_New demo_act = (\<lambda>lo hi. (lo, hi, []))" "gen_Allocate demo_act = lg_Allocate"
    "gen_FreeID demo_act = (\<lambda>i (lo, hi, us). (lo, hi, removeAll i us))"
    by (simp_all add: demo_act_def up_env.defs)
  have "lg_used (gen_FreeID demo_act i g) = lg_used g - {i} \<and> lg_ids (gen_FreeID demo_act i g) = lg_ids g" for i g
    by (cases g) (auto simp: env lg_used_def lg_ids_def)
  moreover have "lg_ids (gen_New demo_act lo hi) = {lo..hi} \<and> lg_used (gen_New demo_act lo hi) = {}" for lo hi
    by (simp add: env lg_used_def lg_ids_def)
  ultimately show ?thesis
    unfolding id_generator_def env(2) using al by blast
qed

definition demo_interface :: "bytes \<Rightarrow> UPFInterfaceInfo" where
  "demo_interface ip = \<lparr>NetworkInstances = [''internet''], IPv4EndPointAddresses = [ip], IPv6EndPointAddresses = [], EndpointFQDN = []\<rparr>"

definition demo_associated :: "bytes \<Rightarrow> UPNode \<Rightarrow> UPNode" where
  "demo_associated ip n = n\<lparr>un_UPF := map_option (\<lambda>upf. upf\<lparr>upf_associated := True, N3Interfaces := [demo_interface ip],
     N9Interfaces := [demo_interface ip]\<rparr>) (un_UPF n)\<rparr>"

definition demo_upi :: UserPlaneInformation where
  "demo_upi = pool_built\<lparr>upi_store := map (\<lambda>(i, n). demo_associated [10, 0, 0, of_nat i] n) (enumerate 0 (upi_store pool_built))\<rparr>"

definition demo_ctx :: "list_gen SMContext" where
  "demo_ctx = \<lparr>sc_Ref = ''s1'', sc_Dnn = ''internet'', LocalULTeid = 7, LocalDLTeid = 8, LocalULTeidForSplitPDUSession = 9,
     LocalDLTeidForSplitPDUSession = 10, sc_PDUAddress = Some [10, 60, 0, 1], SelectedPDUSessionType = 1,
     sc_Tunnel = Some \<lparr>PathIDGenerator = (1, 100, []), DataPathPool = [], tn_ANInformation = \<lparr>an_IPAddress = Some [10, 1, 1, 1], an_TEID = 3\<rparr>\<rparr>,
     DCTunnel = None, PFCPContext = [],
     SessionRules = [(''r'', Some \<lparr>AuthSessAmbr = Some \<lparr>ambr_Uplink = ''1 Gbps'', ambr_Downlink = ''2 Mbps''\<rparr>, DefQosQFI = 1\<rparr>)],
     SelectedSessionRuleID = ''r'', AMBRQerMap = [], QerUpfMap = [], UrrIDGenerator = (1, 100, []), UrrIdMap = [], UrrUpfMap = [],
     UrrReportTime = 10, UrrReportThreshold = 0, sc_ChargingInfo = []\<rparr>"

text \<open>Three paths over the same two UPFs, none of them activated.\<close>

definition demo_smf :: "list_gen smf" where
  "demo_smf = \<lparr>s_upi = demo_upi, s_rules = (\<lambda>_. new_rules demo_act),
     s_nodes = nodes_from 0 None [Some 1, Some 2] @ nodes_from 2 None [Some 1, Some 2] @ nodes_from 4 None [Some 1, Some 2],
     s_pdrs = [], s_fars = [], s_bars = [], s_qers = [], s_urrs = [], LocalSEIDCount = 0, seidSMContextMap = [], s_ctx = demo_ctx\<rparr>"

definition demo_path :: "nat \<Rightarrow> DataPath" where
  "demo_path a = NewDataPath\<lparr>FirstDPNode := Some a\<rparr>"

lemma demo_activatable: "activatable demo_act lg_ids lg_used demo_smf (demo_path 0) [0, 1]"
proof -
  have "dlist (s_nodes demo_smf) (FirstDPNode (demo_path 0)) None [0, 1]" "served demo_smf 0 \<and> served demo_smf 1"
    "distinct (map (\<lambda>a. upf_ip demo_act (UPF_of demo_smf a)) [0, 1])" "interfaces_ready demo_act demo_smf [0, 1]"
    "sc_Tunnel (s_ctx demo_smf) \<noteq> None"
    by code_simp+
  moreover have "BitRateTokbps ''1 Gbps'' \<noteq> None \<and> BitRateTokbps ''2 Mbps'' \<noteq> None"
    by code_simp
  then have "rates_known (SelectedSessionRule (s_ctx demo_smf))"
    by (simp add: rates_known_def SelectedSessionRule_def demo_smf_def demo_ctx_def)
  ultimately show ?thesis
    by (simp add: activatable_def id_ranges_def ids_left_def demo_smf_def new_rules_def demo_act_def up_env.defs lg_ids_def lg_used_def)
qed

theorem activated_path_forwards_witness:
  "\<exists>s'. ActivateTunnelAndPDR demo_act (demo_path 0) 255 demo_smf = Some (Ok ((demo_path 0)\<lparr>Activated := True\<rparr>, s')) \<and>
     forwards_to UpLink s' 0 1 \<and> forwards_to DownLink s' 1 0 \<and> out_header UpLink s' 1 = None \<and>
     out_header DownLink s' 0 = Some (gtp_header (Some [10, 1, 1, 1]) 3)"
proof -
  have an: "tn_ANInformation (the (sc_Tunnel (s_ctx demo_smf))) = \<lparr>an_IPAddress = Some [10, 1, 1, 1], an_TEID = 3\<rparr>"
    by (simp add: demo_smf_def demo_ctx_def)
  from activated_path_forwards [OF lg_generator demo_activatable, of 255] show ?thesis
    by (auto simp: an Let_def less_Suc_eq)
qed

end
