(* ===== verification/Smf_Deactivation.thy ===== *)
theory Smf_Deactivation
  imports Smf_Activation_Props
begin

text \<open>
  Deactivation of data paths: the detection and forwarding rules that activation took are given back. QoS rules are removed
  too, although other paths of the session still refer to them; usage rules stay.
\<close>

section \<open>Steps\<close>

text \<open>The rules \<open>i\<close> and \<open>j\<close> of one direction are given back to the UPF \<open>u\<close>, QoS rules aside.\<close>

definition released :: "('g, 'z) act_env_scheme \<Rightarrow> nat \<Rightarrow> string \<Rightarrow> u16 \<Rightarrow> u32 \<Rightarrow> 'g smf \<Rightarrow> 'g smf \<Rightarrow> bool" where
  "released env u ip i j s s' \<longleftrightarrow>
     s_upi s' = s_upi s \<and> s_nodes s' = s_nodes s \<and> s_pdrs s' = s_pdrs s \<and> s_fars s' = s_fars s \<and> (\<forall>v. v \<noteq> u \<longrightarrow> s_rules s' v = s_rules s v) \<and>
     pdrPool (s_rules s' u) = AList.delete i (pdrPool (s_rules s u)) \<and> farPool (s_rules s' u) = AList.delete j (farPool (s_rules s u)) \<and>
     pdrIDGenerator (s_rules s' u) = gen_FreeID env (uint i) (pdrIDGenerator (s_rules s u)) \<and>
     farIDGenerator (s_rules s' u) = gen_FreeID env (uint j) (farIDGenerator (s_rules s u)) \<and>
     (\<forall>x. x \<noteq> ip \<longrightarrow> map_of (PFCPContext (s_ctx s')) x = map_of (PFCPContext (s_ctx s)) x) \<and>
     map_of (PFCPContext (s_ctx s')) ip = map_option (\<lambda>pc. pc\<lparr>PDRs := AList.delete i (PDRs pc)\<rparr>) (map_of (PFCPContext (s_ctx s)) ip)"

definition qer_only :: "nat \<Rightarrow> 'g smf \<Rightarrow> 'g smf \<Rightarrow> bool" where
  "qer_only u s s' \<longleftrightarrow> qer_frame u s s' \<and> s_ctx s' = s_ctx s"

text \<open>
  Of the QoS rules exactly those in \<open>R\<close>, each given by its UPF and its identifier, are gone from the pools. What the session
  remembers of its QoS rules stays, and so do all usage rules.
\<close>

definition qos_removed :: "(nat \<times> u32) set \<Rightarrow> 'g smf \<Rightarrow> 'g smf \<Rightarrow> bool" where
  "qos_removed R s s' \<longleftrightarrow> s_qers s' = s_qers s \<and> AMBRQerMap (s_ctx s') = AMBRQerMap (s_ctx s) \<and> QerUpfMap (s_ctx s') = QerUpfMap (s_ctx s) \<and>
     (\<forall>v. urrPool (s_rules s' v) = urrPool (s_rules s v) \<and>
       map_of (qerPool (s_rules s' v)) = (\<lambda>i. if (v, i) \<in> R then None else map_of (qerPool (s_rules s v)) i))"

lemma qos_removed_refl: "qos_removed {} s s"
  by (simp add: qos_removed_def)

lemma qos_removed_trans: "qos_removed R s s1 \<Longrightarrow> qos_removed R' s1 s2 \<Longrightarrow> qos_removed (R \<union> R') s s2"
  by (auto simp: qos_removed_def fun_eq_iff)

definition qers_at :: "nat \<Rightarrow> nat list \<Rightarrow> 'g smf \<Rightarrow> (nat \<times> u32) set" where
  "qers_at u qs s = {u} \<times> (\<lambda>q. QERID (s_qers s ! q)) ` set qs"

lemma qers_at_Nil: "qers_at u [] s = {}"
  by (simp add: qers_at_def)

lemma qers_at_Cons: "qers_at u (q # qs) s = {(u, QERID (s_qers s ! q))} \<union> qers_at u qs s"
  by (auto simp: qers_at_def)

lemma RemoveQERs_run:
  assumes "upf_at (s_upi s) u = Ok upf" and "upf_associated upf"
  shows "runs (aeach (\<lambda>q. alogged (UPF_RemoveQER env u q)) qs) s (\<lambda>_ s'. qer_only u s s' \<and> qos_removed (qers_at u qs s) s s')"
  using assms(1)
proof (induction qs arbitrary: s)
  case Nil
  then show ?case
    by (simp add: wp_simps qer_only_def qer_frame_def same_rules_def qers_at_Nil qos_removed_refl)
next
  case (Cons q qs)
  let ?R = "{(u, QERID (s_qers s ! q))}"
  have "runs (UPF_RemoveQER env u q) s (\<lambda>_ s'. qer_only u s s' \<and> qos_removed ?R s s')"
    using Cons.prems assms(2)
    by (simp add: UPF_RemoveQER_def free_id_def wp_simps qer_only_def qer_frame_def qos_removed_def)
      (cases "s_rules s u", simp add: same_rules_def delete_conv' fun_eq_iff)
  then have "runs (alogged (UPF_RemoveQER env u q)) s (\<lambda>_ s'. qer_only u s s' \<and> qos_removed ?R s s')"
    by (rule runs_alogged)
  then show ?case
    unfolding runs_aeach
  proof (rule runs_mono)
    fix s1 assume s1: "qer_only u s s1 \<and> qos_removed ?R s s1"
    then have "upf_at (s_upi s1) u = Ok upf"
      using Cons.prems by (simp add: qer_only_def qer_frame_def)
    moreover have "qers_at u qs s1 = qers_at u qs s"
      using s1 by (simp add: qers_at_def qos_removed_def)
    ultimately show "runs (aeach (\<lambda>q. alogged (UPF_RemoveQER env u q)) qs) s1
        (\<lambda>_ s'. qer_only u s s' \<and> qos_removed (qers_at u (q # qs) s) s s')"
      using Cons.IH [of s1] s1 qer_frame_trans qos_removed_trans [of ?R s s1 "qers_at u qs s"]
      by (auto simp: qer_only_def qers_at_Cons elim!: runs_mono)
  qed
qed

lemma deactivate_tunnel_runs:
  assumes w: "wired d s a p f" "upf_associated (UPF_of s a)" "far_BAR (s_fars s ! f) = None"
    and pc: "map_of (PFCPContext (s_ctx s)) (upf_ip env (UPF_of s a)) = Some pc"
  shows "runs (deactivate_tunnel env d a) s
    (\<lambda>_ s'. released env (node_upf (s_nodes s) a) (upf_ip env (UPF_of s a)) (PDRID (s_pdrs s ! p)) (FARID (s_fars s ! f)) s s' \<and>
      qos_removed (qers_at (node_upf (s_nodes s) a) (pdr_QER (s_pdrs s ! p)) s) s s')"
proof -
  let ?u = "node_upf (s_nodes s) a" and ?ip = "upf_ip env (UPF_of s a)" and ?i = "PDRID (s_pdrs s ! p)" and ?j = "FARID (s_fars s ! f)"
  obtain t where t: "tunnel d (s_nodes s ! a) = Some t" "gt_PDR t = Some p"
    using w(1) by (auto simp: wired_def)
  define s1 where "s1 = mod_ctx (PFCPContext_update (AList.update ?ip (pc\<lparr>PDRs := AList.delete ?i (PDRs pc)\<rparr>))) s"
  define s2 where "s2 = mod_rules ?u (pdrPool_update (AList.delete ?i)) (mod_rules ?u (pdrIDGenerator_update (gen_FreeID env (uint ?i))) s1)"
  define s3 where "s3 = mod_rules ?u (farPool_update (AList.delete ?j)) (mod_rules ?u (farIDGenerator_update (gen_FreeID env (uint ?j))) s2)"
  have eq: "s_upi s3 = s_upi s" "s_upi s2 = s_upi s" "s_upi s1 = s_upi s" "s_pdrs s1 = s_pdrs s" "s_pdrs s2 = s_pdrs s" "s_fars s2 = s_fars s" "s_fars s3 = s_fars s"
    by (simp_all add: s1_def s2_def s3_def)
  have u: "upf_at (s_upi s) ?u = Ok (UPF_of s a)"
    using w(1) by (simp add: wired_def)
  have pfcp: "runs (RemovePDRfromPFCPSession env (UPF_of s a) p) s Q \<longleftrightarrow> Q () s1" for Q
    using pc by (simp add: RemovePDRfromPFCPSession_def wp_simps s1_def)
  have "alogged (UPF_RemovePDR env ?u p) s1 = Ok ((), s2)" "alogged (UPF_RemoveFAR env ?u f) s2 = Ok ((), s3)"
    using u w(2) by (simp_all add: alogged_def UPF_RemovePDR_def UPF_RemoveFAR_def free_id_def athen_def abind_def associated_def acall_def
        IsAssociated_def aget_def amod_def eq s2_def [symmetric]) (simp_all add: s2_def s3_def eq)
  then have pools: "runs (alogged (UPF_RemovePDR env ?u p)) s1 Q \<longleftrightarrow> Q () s2" "runs (alogged (UPF_RemoveFAR env ?u f)) s2 Q \<longleftrightarrow> Q () s3" for Q
    by (simp_all add: runs_def)
  have "released env ?u ?ip ?i ?j s s3"
    using pc by (cases "s_rules s ?u") (simp add: released_def s1_def s2_def s3_def mod_ctx_PFCPContext update_conv')
  then have rel: "released env ?u ?ip ?i ?j s s4" if "qer_only ?u s3 s4" for s4
    using that by (simp add: released_def qer_only_def qer_frame_def same_rules_def)
  have "qos_removed {} s s3" and q3: "qers_at ?u (pdr_QER (s_pdrs s ! p)) s3 = qers_at ?u (pdr_QER (s_pdrs s ! p)) s"
    by (cases "s_rules s ?u"; simp add: qos_removed_def qers_at_def s1_def s2_def s3_def)+
  then have "qos_removed (qers_at ?u (pdr_QER (s_pdrs s ! p)) s) s s4" if "qos_removed (qers_at ?u (pdr_QER (s_pdrs s ! p)) s) s3 s4" for s4
    using qos_removed_trans [OF _ that, of "{}" s] by simp
  with rel have "runs (aeach (\<lambda>q. alogged (UPF_RemoveQER env ?u q)) (pdr_QER (s_pdrs s ! p))) s3
      (\<lambda>_ s'. released env ?u ?ip ?i ?j s s' \<and> qos_removed (qers_at ?u (pdr_QER (s_pdrs s ! p)) s) s s')"
    using RemoveQERs_run [of s3 ?u "UPF_of s a" env "pdr_QER (s_pdrs s ! p)"] u w(2) eq q3 by (auto elim!: runs_mono)
  then show ?thesis
    using w t u by (simp add: deactivate_tunnel_def wp_simps wired_def eq pfcp pools)
qed

section \<open>Nodes\<close>

text \<open>The identifiers in use at a UPF are those of its pools.\<close>

definition rule_books :: "('g \<Rightarrow> int set) \<Rightarrow> 'g upf_rules \<Rightarrow> bool" where
  "rule_books used r \<longleftrightarrow> used (pdrIDGenerator r) = uint ` fst ` set (pdrPool r) \<and> used (farIDGenerator r) = uint ` fst ` set (farPool r)"

definition restored :: "('g \<Rightarrow> int set) \<Rightarrow> 'g upf_rules \<Rightarrow> 'g upf_rules \<Rightarrow> bool" where
  "restored used r r' \<longleftrightarrow> map_of (pdrPool r') = map_of (pdrPool r) \<and> map_of (farPool r') = map_of (farPool r) \<and>
     used (pdrIDGenerator r') = used (pdrIDGenerator r) \<and> used (farIDGenerator r') = used (farIDGenerator r)"

lemma pool_restored:
  fixes al :: "('w::len word \<times> nat) list"
  assumes gen: "id_generator env ids used" and t: "took ids used g i h" "took ids used h j g'"
    and r: "ids g = {1..2 ^ LENGTH('w) - 1}" "used g = uint ` fst ` set al"
    and d: "fst ` set bl \<subseteq> fst ` set al"
  defines "v \<equiv> word_of_int i" and "w \<equiv> word_of_int j"
  shows "map_of (AList.delete w (AList.delete v (AList.update w y (AList.update v x bl)))) = map_of bl"
    and "used (gen_FreeID env (uint w) (gen_FreeID env (uint v) g')) = used g"
proof -
  have "1 \<le> i" "i < 2 ^ LENGTH('w)" "1 \<le> j" "j < 2 ^ LENGTH('w)" and new: "i \<notin> used g" "j \<notin> used g" "used g' = insert j (insert i (used g))"
    using t r(1) by (auto simp: took_def)
  then have uv: "uint v = i" "uint w = j"
    by (simp_all add: v_def w_def uint_word_of_int)
  have "v \<notin> fst ` set al" "w \<notin> fst ` set al"
    using new(1,2) r(2) uv by (metis imageI)+
  then have "map_of bl v = None" "map_of bl w = None"
    using d by (auto simp: map_of_eq_None_iff)
  then show "map_of (AList.delete w (AList.delete v (AList.update w y (AList.update v x bl)))) = map_of bl"
    by (auto simp: delete_conv' update_conv' fun_eq_iff)
  show "used (gen_FreeID env (uint w) (gen_FreeID env (uint v) g')) = used g"
    using gen new uv by (auto simp: id_generator_def)
qed

text \<open>The QoS rules of the nodes \<open>l\<close>: those that their rules name in either direction.\<close>

definition named_qers :: "'g smf \<Rightarrow> nat list \<Rightarrow> (nat \<times> u32) set" where
  "named_qers s l = (\<Union>a\<in>set l. \<Union>d\<in>{UpLink, DownLink}. qers_at (node_upf (s_nodes s) a) (pdr_QER (node_pdr d s a)) s)"

lemma wired_pdr: "wired d s a p f \<Longrightarrow> node_pdr d s a = s_pdrs s ! p"
  by (auto simp: wired_def node_pdr_def)

definition node_released :: "('g, 'z) act_env_scheme \<Rightarrow> nat \<Rightarrow> string \<Rightarrow> PDR \<Rightarrow> FAR \<Rightarrow> PDR \<Rightarrow> FAR \<Rightarrow> 'g smf \<Rightarrow> 'g smf \<Rightarrow> bool" where
  "node_released env u ip p f q g s s' \<longleftrightarrow>
     (\<exists>s1. released env u ip (PDRID p) (FARID f) s s1 \<and> released env u ip (PDRID q) (FARID g) s1 s')"

lemma deactivate_node_runs:
  assumes w: "wired UpLink s a p f" "wired DownLink s a q g" "upf_associated (UPF_of s a)" "far_BAR (s_fars s ! f) = None" "far_BAR (s_fars s ! g) = None"
    and pc: "map_of (PFCPContext (s_ctx s)) (upf_ip env (UPF_of s a)) = Some pc"
  shows "runs (athen (DeactivateUpLinkTunnel env a) (DeactivateDownLinkTunnel env a)) s
    (\<lambda>_ s'. node_released env (node_upf (s_nodes s) a) (upf_ip env (UPF_of s a)) (s_pdrs s ! p) (s_fars s ! f) (s_pdrs s ! q) (s_fars s ! g) s s' \<and>
      qos_removed (named_qers s [a]) s s')"
  unfolding DeactivateUpLinkTunnel_def DeactivateDownLinkTunnel_def runs_basic
proof (rule runs_mono [OF deactivate_tunnel_runs [OF w(1,3,4) pc]])
  let ?u = "node_upf (s_nodes s) a" and ?ip = "upf_ip env (UPF_of s a)"
  fix s1 assume s1: "released env ?u ?ip (PDRID (s_pdrs s ! p)) (FARID (s_fars s ! f)) s s1 \<and>
    qos_removed (qers_at ?u (pdr_QER (s_pdrs s ! p)) s) s s1"
  then have eq: "s_nodes s1 = s_nodes s" "s_pdrs s1 = s_pdrs s" "s_fars s1 = s_fars s" "UPF_of s1 a = UPF_of s a" "s_upi s1 = s_upi s"
    by (simp_all add: released_def UPF_of_def)
  have "wired DownLink s1 a q g"
    using w(2) by (simp add: wired_def eq)
  moreover obtain pc' where "map_of (PFCPContext (s_ctx s1)) (upf_ip env (UPF_of s1 a)) = Some pc'"
    using s1 pc by (simp add: released_def eq)
  ultimately have "runs (deactivate_tunnel env DownLink a) s1 (\<lambda>_ s'. released env ?u ?ip (PDRID (s_pdrs s ! q)) (FARID (s_fars s ! g)) s1 s' \<and>
      qos_removed (qers_at ?u (pdr_QER (s_pdrs s ! q)) s1) s1 s')"
    using deactivate_tunnel_runs [of DownLink s1 a q g env pc'] w(3,5) by (simp add: eq)
  moreover have "named_qers s [a] = qers_at ?u (pdr_QER (s_pdrs s ! p)) s \<union> qers_at ?u (pdr_QER (s_pdrs s ! q)) s1"
    using s1 wired_pdr [OF w(1)] wired_pdr [OF w(2)] by (simp add: named_qers_def qers_at_def qos_removed_def)
  ultimately show "runs (deactivate_tunnel env DownLink a) s1
    (\<lambda>_ s'. node_released env ?u ?ip (s_pdrs s ! p) (s_fars s ! f) (s_pdrs s ! q) (s_fars s ! g) s s' \<and> qos_removed (named_qers s [a]) s s')"
    using s1 qos_removed_trans unfolding node_released_def by (auto elim!: runs_mono)
qed

text \<open>After the rules of a node have been given back, its UPF and its PFCP session are as before the activation.\<close>

definition node_restored :: "('g, 'z) act_env_scheme \<Rightarrow> ('g \<Rightarrow> int set) \<Rightarrow> 'g smf \<Rightarrow> nat \<Rightarrow> 'g smf \<Rightarrow> bool" where
  "node_restored env used s0 a s \<longleftrightarrow> restored used (rules_at s0 a) (s_rules s (node_upf (s_nodes s0) a)) \<and>
     (\<exists>pc0 pc. pfcp_at env s0 s0 a = Some pc0 \<and> pfcp_at env s0 s a = Some pc \<and> map_of (PDRs pc) = map_of (PDRs pc0))"

lemma node_given_back:
  assumes gen: "id_generator env ids used" and n: "node_tunneled env ids used s0 s k a"
    and r: "id_ranges ids (rules_at s0 a)" "rule_books used (rules_at s0 a)"
      "\<And>pc. pfcp_at env s0 s0 a = Some pc \<Longrightarrow> fst ` set (PDRs pc) \<subseteq> fst ` set (pdrPool (rules_at s0 a))"
    and t: "node_upf (s_nodes s) a = node_upf (s_nodes s0) a"
      "s_rules t (node_upf (s_nodes s0) a) = s_rules s (node_upf (s_nodes s0) a)" "pfcp_at env s0 t a = pfcp_at env s0 s a"
    and rel: "released env (node_upf (s_nodes s0) a) (upf_ip env (UPF_of s0 a)) (PDRID (s_pdrs s ! (length (s_pdrs s0) + 2 * k)))
        (FARID (s_fars s ! (length (s_fars s0) + 2 * k))) t t1"
      "released env (node_upf (s_nodes s0) a) (upf_ip env (UPF_of s0 a)) (PDRID (s_pdrs s ! Suc (length (s_pdrs s0) + 2 * k)))
        (FARID (s_fars s ! Suc (length (s_fars s0) + 2 * k))) t1 t2"
  shows "node_restored env used s0 a t2"
proof -
  let ?r = "rules_at s0 a"
  obtain i1 i2 j1 j2 pc h h' where x:
    "took ids used (pdrIDGenerator ?r) i1 h" "took ids used h i2 (pdrIDGenerator (rules_at s a))"
    "took ids used (farIDGenerator ?r) j1 h'" "took ids used h' j2 (farIDGenerator (rules_at s a))"
    "PDRID (s_pdrs s ! (length (s_pdrs s0) + 2 * k)) = word_of_int i1" "PDRID (s_pdrs s ! Suc (length (s_pdrs s0) + 2 * k)) = word_of_int i2"
    "FARID (s_fars s ! (length (s_fars s0) + 2 * k)) = word_of_int j1" "FARID (s_fars s ! Suc (length (s_fars s0) + 2 * k)) = word_of_int j2"
    "pdrPool (rules_at s a) = AList.update (word_of_int i2) (Suc (length (s_pdrs s0) + 2 * k))
      (AList.update (word_of_int i1) (length (s_pdrs s0) + 2 * k) (pdrPool ?r))"
    "farPool (rules_at s a) = AList.update (word_of_int j2) (Suc (length (s_fars s0) + 2 * k))
      (AList.update (word_of_int j1) (length (s_fars s0) + 2 * k) (farPool ?r))"
    "pfcp_at env s0 s0 a = Some pc" "pfcp_at env s0 s a = Some (pc\<lparr>PDRs := AList.update (word_of_int i2) (Suc (length (s_pdrs s0) + 2 * k))
      (AList.update (word_of_int i1) (length (s_pdrs s0) + 2 * k) (PDRs pc))\<rparr>)"
    using n unfolding node_tunneled_def Let_def by blast
  have b: "ids (pdrIDGenerator ?r) = {1..2 ^ LENGTH(16) - 1}" "ids (farIDGenerator ?r) = {1..2 ^ LENGTH(32) - 1}"
    "used (pdrIDGenerator ?r) = uint ` fst ` set (pdrPool ?r)" "used (farIDGenerator ?r) = uint ` fst ` set (farPool ?r)"
    using r(1,2) by (simp_all add: id_ranges_def rule_books_def)
  note p = pool_restored [OF gen x(1,2) b(1,3)] and f = pool_restored [OF gen x(3,4) b(2,4) subset_refl]
  have "restored used ?r (s_rules t2 (node_upf (s_nodes s0) a))"
    using rel p [OF subset_refl] f by (simp add: restored_def released_def t(2) x(5-8) x(9,10) [unfolded t(1)] t(1))
  moreover have "pfcp_at env s0 t2 a = Some (pc\<lparr>PDRs := AList.delete (word_of_int i2) (AList.delete (word_of_int i1)
      (AList.update (word_of_int i2) (Suc (length (s_pdrs s0) + 2 * k)) (AList.update (word_of_int i1) (length (s_pdrs s0) + 2 * k) (PDRs pc))))\<rparr>)"
    using rel by (simp add: released_def x t(3))
  ultimately show ?thesis
    using p(1) [OF r(3) [OF x(11)]] x(11) by (simp add: node_restored_def)
qed

section \<open>Paths\<close>

lemma aeach_runs:
  assumes "I [] s" and step: "\<And>pre a rest s. l = pre @ a # rest \<Longrightarrow> I pre s \<Longrightarrow> runs (f a) s (\<lambda>_. I (pre @ [a]))"
  shows "runs (aeach f l) s (\<lambda>_. I l)"
proof -
  have "runs (aeach f rest) t (\<lambda>_. I l)" if "l = pre @ rest" "I pre t" for pre rest t
    using that
  proof (induction rest arbitrary: pre t)
    case Nil
    then show ?case by (simp add: wp_simps)
  next
    case (Cons a rest)
    show ?case
      unfolding runs_aeach
      by (rule runs_mono [OF step [OF Cons.prems]]) (use Cons.IH Cons.prems in simp)
  qed
  from this [of "[]" l s] assms(1) show ?thesis by simp
qed

text \<open>The nodes \<open>pre\<close> of a path have been deactivated since \<open>s\<close>.\<close>

definition given_back :: "('g, 'z) act_env_scheme \<Rightarrow> ('g \<Rightarrow> int set) \<Rightarrow> 'g smf \<Rightarrow> 'g smf \<Rightarrow> nat list \<Rightarrow> 'g smf \<Rightarrow> bool" where
  "given_back env used s0 s pre t \<longleftrightarrow>
     s_upi t = s_upi s \<and> s_nodes t = s_nodes s \<and> s_pdrs t = s_pdrs s \<and> s_fars t = s_fars s \<and>
     (\<forall>v. v \<notin> node_upf (s_nodes s0) ` set pre \<longrightarrow> s_rules t v = s_rules s v) \<and>
     (\<forall>ip. ip \<notin> (\<lambda>a. upf_ip env (UPF_of s0 a)) ` set pre \<longrightarrow> map_of (PFCPContext (s_ctx t)) ip = map_of (PFCPContext (s_ctx s)) ip) \<and>
     (\<forall>a\<in>set pre. node_restored env used s0 a t)"

lemma deactivate_nodes:
  assumes gen: "id_generator env ids used" and t: "tunneled env ids used s0 l s" and l: "\<forall>a\<in>set l. served s0 a"
      "distinct (map (\<lambda>a. upf_ip env (UPF_of s0 a)) l)"
    and r: "\<forall>a\<in>set l. id_ranges ids (rules_at s0 a) \<and> rule_books used (rules_at s0 a) \<and>
      (\<forall>pc. pfcp_at env s0 s0 a = Some pc \<longrightarrow> fst ` set (PDRs pc) \<subseteq> fst ` set (pdrPool (rules_at s0 a)))"
  shows "runs (aeach (\<lambda>a. athen (DeactivateUpLinkTunnel env a) (DeactivateDownLinkTunnel env a)) l) s (\<lambda>_. given_back env used s0 s l)"
proof (rule aeach_runs)
  show "given_back env used s0 s [] s"
    by (simp add: given_back_def)
  fix pre a rest t0 assume pre: "l = pre @ a # rest" and I: "given_back env used s0 s pre t0"
  let ?k = "length pre" and ?u = "node_upf (s_nodes s0) a" and ?ip = "upf_ip env (UPF_of s0 a)"
  have k: "?k < length l" "l ! ?k = a" "a \<in> set l"
    using pre by auto
  note w = tunneled_wired [OF t k(1), unfolded k(2)]
  have n: "node_tunneled env ids used s0 s ?k a"
    using t k by (auto simp: tunneled_def)
  have new: "?ip \<notin> (\<lambda>a. upf_ip env (UPF_of s0 a)) ` set pre" "?u \<notin> node_upf (s_nodes s0) ` set pre"
    using l(2) pre by (auto simp: UPF_of_def)
  have eq: "s_upi t0 = s_upi s" "s_nodes t0 = s_nodes s" "s_pdrs t0 = s_pdrs s" "s_fars t0 = s_fars s" "s_rules t0 ?u = s_rules s ?u"
    "pfcp_at env s0 t0 a = pfcp_at env s0 s a"
    using I new by (simp_all add: given_back_def)
  have u: "UPF_of t0 a = UPF_of s0 a" "node_upf (s_nodes s) a = ?u" "upf_associated (UPF_of s0 a)"
    using w(3,4) l(1) k(3) by (simp_all add: UPF_of_def eq served_def)
  have "pfcp_at env s0 s a \<noteq> None" "far_BAR (s_fars s ! (length (s_fars s0) + 2 * ?k)) = None" "far_BAR (s_fars s ! Suc (length (s_fars s0) + 2 * ?k)) = None"
    using n by (auto simp: node_tunneled_def Let_def)
  then obtain pc where pc: "map_of (PFCPContext (s_ctx t0)) (upf_ip env (UPF_of t0 a)) = Some pc"
    "far_BAR (s_fars t0 ! (length (s_fars s0) + 2 * ?k)) = None" "far_BAR (s_fars t0 ! Suc (length (s_fars s0) + 2 * ?k)) = None"
    by (auto simp: eq u)
  have "wired UpLink t0 a (length (s_pdrs s0) + 2 * ?k) (length (s_fars s0) + 2 * ?k)"
    "wired DownLink t0 a (Suc (length (s_pdrs s0) + 2 * ?k)) (Suc (length (s_fars s0) + 2 * ?k))"
    using w(1,2) l(1) k(3) by (simp_all add: wired_def UPF_of_def eq)
  note run = deactivate_node_runs [OF this _ pc(2,3,1)]
  show "runs (athen (DeactivateUpLinkTunnel env a) (DeactivateDownLinkTunnel env a)) t0 (\<lambda>_. given_back env used s0 s (pre @ [a]))"
  proof (rule runs_mono [OF run], goal_cases)
    case 1
    then show ?case by (simp add: u)
  next
    case (2 x t2)
    then obtain t1 where rel:
      "released env ?u ?ip (PDRID (s_pdrs s ! (length (s_pdrs s0) + 2 * ?k))) (FARID (s_fars s ! (length (s_fars s0) + 2 * ?k))) t0 t1"
      "released env ?u ?ip (PDRID (s_pdrs s ! Suc (length (s_pdrs s0) + 2 * ?k))) (FARID (s_fars s ! Suc (length (s_fars s0) + 2 * ?k))) t1 t2"
      by (auto simp: eq u node_released_def)
    have "node_restored env used s0 a t2"
      by (rule node_given_back [OF gen n _ _ _ u(2) eq(5,6) rel]) (use r k(3) in auto)
    moreover have "node_restored env used s0 b t2" if "b \<in> set pre" for b
    proof -
      have "node_upf (s_nodes s0) b \<noteq> ?u" "upf_ip env (UPF_of s0 b) \<noteq> ?ip"
        using new that by (metis imageI)+
      then show ?thesis
        using I that rel by (simp add: given_back_def node_restored_def released_def)
    qed
    ultimately show ?case
      using I rel by (simp add: given_back_def released_def)
  qed
qed

text \<open>A path over the nodes \<open>l\<close> that is set up: every node has its rules in both directions and a PFCP session.\<close>

definition node_set_up :: "('g, 'z) act_env_scheme \<Rightarrow> 'g smf \<Rightarrow> nat \<Rightarrow> bool" where
  "node_set_up env s a \<longleftrightarrow> upf_associated (UPF_of s a) \<and> map_of (PFCPContext (s_ctx s)) (upf_ip env (UPF_of s a)) \<noteq> None \<and>
     (\<exists>p f q g. wired UpLink s a p f \<and> wired DownLink s a q g \<and> far_BAR (s_fars s ! f) = None \<and> far_BAR (s_fars s ! g) = None)"

definition deactivatable :: "('g, 'z) act_env_scheme \<Rightarrow> 'g smf \<Rightarrow> DataPath \<Rightarrow> nat list \<Rightarrow> bool" where
  "deactivatable env s path l \<longleftrightarrow> dlist (s_nodes s) (FirstDPNode path) None l \<and> (\<forall>a\<in>set l. node_set_up env s a)"

text \<open>What deactivation keeps of the state, besides the QoS rules that it removes.\<close>

definition qos_frame :: "(nat \<times> u32) set \<Rightarrow> 'g smf \<Rightarrow> 'g smf \<Rightarrow> bool" where
  "qos_frame R s s' \<longleftrightarrow> qos_removed R s s' \<and> s_upi s' = s_upi s \<and> s_nodes s' = s_nodes s \<and> s_pdrs s' = s_pdrs s \<and> s_fars s' = s_fars s \<and>
     (\<forall>ip. map_of (PFCPContext (s_ctx s')) ip = None \<longleftrightarrow> map_of (PFCPContext (s_ctx s)) ip = None)"

lemma released_frame:
  assumes "node_released env u ip p f q g s s'" and "qos_removed R s s'"
  shows "qos_frame R s s'"
proof -
  have pf: "map_of (PFCPContext (s_ctx s2)) x = None \<longleftrightarrow> map_of (PFCPContext (s_ctx s1)) x = None" if "released env u ip i j s1 s2" for i j s1 s2 x
    using that by (cases "x = ip") (simp_all add: released_def)
  obtain s1 where s1: "released env u ip (PDRID p) (FARID f) s s1" "released env u ip (PDRID q) (FARID g) s1 s'"
    using assms(1) by (auto simp: node_released_def)
  from pf [OF s1(1)] pf [OF s1(2)] show ?thesis
    using s1 assms(2) by (simp add: qos_frame_def released_def)
qed

lemma qos_frame_values:
  assumes "qos_frame R s s'"
  shows "node_set_up env s' a \<longleftrightarrow> node_set_up env s a" and "named_qers s' l = named_qers s l"
  using assms by (simp_all add: qos_frame_def qos_removed_def node_set_up_def wired_def UPF_of_def named_qers_def qers_at_def node_pdr_def)

lemma node_set_up_runs:
  assumes "node_set_up env s a"
  shows "runs (athen (DeactivateUpLinkTunnel env a) (DeactivateDownLinkTunnel env a)) s (\<lambda>_. qos_frame (named_qers s [a]) s)"
proof -
  obtain p f q g pc where "wired UpLink s a p f" "wired DownLink s a q g" "upf_associated (UPF_of s a)" "far_BAR (s_fars s ! f) = None" "far_BAR (s_fars s ! g) = None"
      "map_of (PFCPContext (s_ctx s)) (upf_ip env (UPF_of s a)) = Some pc"
    using assms by (auto simp: node_set_up_def)
  then show ?thesis
    by (rule runs_mono [OF deactivate_node_runs]) (blast intro: released_frame)
qed

lemma deactivation:
  assumes "deactivatable env s path l"
  shows "\<exists>s'. DeactivateTunnelAndPDR env path s = Some (Ok (path\<lparr>Activated := False\<rparr>, s')) \<and> qos_frame (named_qers s l) s s'"
proof -
  have "runs (aeach (\<lambda>a. athen (DeactivateUpLinkTunnel env a) (DeactivateDownLinkTunnel env a)) l) s (\<lambda>_. qos_frame (named_qers s l) s)"
  proof (rule aeach_runs)
    show "qos_frame (named_qers s []) s s"
      by (simp add: qos_frame_def named_qers_def qos_removed_refl)
    fix pre a rest t assume pre: "l = pre @ a # rest" and I: "qos_frame (named_qers s pre) s t"
    have "node_set_up env t a"
      using assms pre qos_frame_values(1) [OF I, of env a] by (simp add: deactivatable_def)
    then have "runs (athen (DeactivateUpLinkTunnel env a) (DeactivateDownLinkTunnel env a)) t (\<lambda>_. qos_frame (named_qers s [a]) t)"
      using node_set_up_runs [of env t a] qos_frame_values(2) [OF I] by simp
    moreover have "named_qers s (pre @ [a]) = named_qers s pre \<union> named_qers s [a]"
      by (simp add: named_qers_def Un_commute)
    ultimately show "runs (athen (DeactivateUpLinkTunnel env a) (DeactivateDownLinkTunnel env a)) t (\<lambda>_. qos_frame (named_qers s (pre @ [a])) s)"
      using I qos_removed_trans by (auto simp: qos_frame_def elim!: runs_mono)
  qed
  then show ?thesis
    using assms dlist_dp_nodes by (fastforce simp: runs_def DeactivateTunnelAndPDR_def deactivate_path_def deactivatable_def)
qed

lemma tunneled_set_up:
  assumes "tunneled env ids used s0 l s" and "\<forall>a\<in>set l. served s0 a" and "a \<in> set l"
  shows "node_set_up env s a"
proof -
  obtain k where k: "k < length l" "l ! k = a"
    using assms(3) by (auto simp: in_set_conv_nth)
  note w = tunneled_wired [OF assms(1) k(1), unfolded k(2)]
  have "node_tunneled env ids used s0 s k a"
    using assms(1) k by (auto simp: tunneled_def)
  then have "pfcp_at env s0 s a \<noteq> None" "far_BAR (s_fars s ! (length (s_fars s0) + 2 * k)) = None" "far_BAR (s_fars s ! Suc (length (s_fars s0) + 2 * k)) = None"
    by (auto simp: node_tunneled_def Let_def)
  then show ?thesis
    using w assms(2,3) unfolding node_set_up_def served_def by metis
qed

text \<open>
  C7. Deactivation gives back what activation took. Where the identifiers in use at the UPFs of a path are those of their pools and
  the path can be activated, deactivating it again ends without a panic; then the pools of detection and forwarding rules of every UPF and
  the identifiers in use there are what they were before, and so are the rules registered in every PFCP session of the session,
  with nothing registered in those that were opened for the path. Of the QoS rules exactly those named by the rules of the path are
  removed from the pools of its UPFs. Usage rules are not given back: their pools stay as activation has left them.
\<close>

theorem deactivation_gives_back:
  assumes "id_generator env ids used" and "activatable env ids used s path l"
    and "\<forall>a\<in>set l. rule_books used (rules_at s a) \<and>
      (\<forall>pc. pfcp_at env s s a = Some pc \<longrightarrow> fst ` set (PDRs pc) \<subseteq> fst ` set (pdrPool (rules_at s a)))"
  shows "\<exists>s' s''. ActivateTunnelAndPDR env path precedence s = Some (Ok (path\<lparr>Activated := True\<rparr>, s')) \<and>
    DeactivateTunnelAndPDR env (path\<lparr>Activated := True\<rparr>) s' = Some (Ok (path\<lparr>Activated := False\<rparr>, s'')) \<and>
    (\<forall>v. map_of (pdrPool (s_rules s'' v)) = map_of (pdrPool (s_rules s v)) \<and> map_of (farPool (s_rules s'' v)) = map_of (farPool (s_rules s v)) \<and>
      used (pdrIDGenerator (s_rules s'' v)) = used (pdrIDGenerator (s_rules s v)) \<and>
      used (farIDGenerator (s_rules s'' v)) = used (farIDGenerator (s_rules s v)) \<and>
      map_of (qerPool (s_rules s'' v)) = (\<lambda>i. if (v, i) \<in> named_qers s' l then None else map_of (qerPool (s_rules s' v)) i) \<and>
      urrPool (s_rules s'' v) = urrPool (s_rules s' v)) \<and>
    (\<forall>ip. let before = map_option (map_of \<circ> PDRs) (map_of (PFCPContext (s_ctx s)) ip);
           after = map_option (map_of \<circ> PDRs) (map_of (PFCPContext (s_ctx s'')) ip)
      in after = before \<or> before = None \<and> after = Some Map.empty)"
proof -
  have l: "dlist (s_nodes s) (FirstDPNode path) None l" "\<forall>a\<in>set l. served s a" "distinct (map (\<lambda>a. upf_ip env (UPF_of s a)) l)"
    "\<forall>a\<in>set l. id_ranges ids (rules_at s a)"
    using assms(2) by (simp_all add: activatable_def)
  obtain s0 s2 s' where act: "ActivateTunnelAndPDR env path precedence s = Some (Ok (path\<lparr>Activated := True\<rparr>, s'))"
    and s: "seids_ready env s l s0" "tunneled env ids used s0 l s2" "quiet s2 s'"
      "\<forall>v. v \<notin> node_upf (s_nodes s) ` set l \<longrightarrow> same_rules (s_rules s v) (s_rules s' v)"
      "\<forall>ip. ip \<notin> (\<lambda>a. upf_ip env (UPF_of s a)) ` set l \<longrightarrow> map_of (PFCPContext (s_ctx s')) ip = map_of (PFCPContext (s_ctx s0)) ip"
    using activation [OF assms(1,2)] by blast
  have e: "s_nodes s0 = s_nodes s" "s_upi s0 = s_upi s" "s_rules s0 = s_rules s"
    and pf: "map_of (PFCPContext (s_ctx s0)) ip = map_of (PFCPContext (s_ctx s)) ip \<or>
      map_of (PFCPContext (s_ctx s)) ip = None \<and> map_option PDRs (map_of (PFCPContext (s_ctx s0)) ip) = Some []" for ip
    using s(1) by (simp_all add: seids_ready_def)
  have eq: "served s0 b = served s b" "UPF_of s0 b = UPF_of s b" for b
    by (simp_all add: served_def UPF_of_def e)
  have t: "tunneled env ids used s0 l s'"
    by (rule tunneled_quiet [OF s(2,3)])
  have "fst ` set (PDRs pc) \<subseteq> fst ` set (pdrPool (rules_at s a))" if a: "a \<in> set l" "pfcp_at env s s0 a = Some pc" for a pc
  proof -
    consider "pfcp_at env s s a = Some pc" | "PDRs pc = []"
      using pf [of "upf_ip env (UPF_of s a)"] a(2) by auto
    then show ?thesis
      using assms(3) a(1) by cases auto
  qed
  then have "runs (aeach (\<lambda>a. athen (DeactivateUpLinkTunnel env a) (DeactivateDownLinkTunnel env a)) l) s' (\<lambda>_. given_back env used s0 s' l)"
    using deactivate_nodes [OF assms(1) t] l(2-4) assms(3) by (simp add: eq e)
  then obtain s'' where gb: "aeach (\<lambda>a. athen (DeactivateUpLinkTunnel env a) (DeactivateDownLinkTunnel env a)) l s' = Ok ((), s'')"
    "given_back env used s0 s' l s''"
    by (auto simp: runs_def)
  have dl: "dlist (s_nodes s') (FirstDPNode path) None l"
    using dlist_cong [of "s_nodes s'" "s_nodes s0" l] tunneled_node(1,2) [OF t] t l(1) e by (auto simp: tunneled_def)
  then have de: "DeactivateTunnelAndPDR env (path\<lparr>Activated := True\<rparr>) s' = Some (Ok (path\<lparr>Activated := False\<rparr>, s''))"
    using gb(1) dlist_dp_nodes by (simp add: DeactivateTunnelAndPDR_def deactivate_path_def)
  have "deactivatable env s' (path\<lparr>Activated := True\<rparr>) l"
    using dl tunneled_set_up [OF t] l(2) by (simp add: deactivatable_def eq)
  then have "qos_removed (named_qers s' l) s' s''"
    using deactivation [of env s' "path\<lparr>Activated := True\<rparr>" l] de by (auto simp: qos_frame_def)
  moreover have "restored used (s_rules s v) (s_rules s'' v)" for v
    using gb(2) s(4) by (cases "v \<in> node_upf (s_nodes s) ` set l") (auto simp: given_back_def node_restored_def restored_def same_rules_def e)
  moreover have "let before = map_option (map_of \<circ> PDRs) (map_of (PFCPContext (s_ctx s)) ip);
        after = map_option (map_of \<circ> PDRs) (map_of (PFCPContext (s_ctx s'')) ip)
      in after = before \<or> before = None \<and> after = Some Map.empty" for ip
  proof -
    have "map_option (map_of \<circ> PDRs) (map_of (PFCPContext (s_ctx s'')) ip) = map_option (map_of \<circ> PDRs) (map_of (PFCPContext (s_ctx s0)) ip)"
      using gb(2) s(5) by (cases "ip \<in> (\<lambda>a. upf_ip env (UPF_of s a)) ` set l") (auto simp: given_back_def node_restored_def eq)
    then show ?thesis
      using pf [of ip] by (auto simp: Let_def)
  qed
  ultimately show ?thesis
    using act de unfolding restored_def qos_removed_def by blast
qed

theorem deactivation_gives_back_witness:
  "\<exists>s' s''. ActivateTunnelAndPDR demo_act (demo_path 0) 255 demo_smf = Some (Ok ((demo_path 0)\<lparr>Activated := True\<rparr>, s')) \<and>
     DeactivateTunnelAndPDR demo_act ((demo_path 0)\<lparr>Activated := True\<rparr>) s' = Some (Ok ((demo_path 0)\<lparr>Activated := False\<rparr>, s'')) \<and>
     map_of (pdrPool (s_rules s'' 1)) = Map.empty \<and> lg_used (pdrIDGenerator (s_rules s'' 1)) = {}"
proof -
  have r: "s_rules demo_smf v = new_rules demo_act" "PFCPContext (s_ctx demo_smf) = []" for v
    by (simp_all add: demo_smf_def demo_ctx_def)
  have new: "pdrPool (new_rules demo_act) = []" "lg_used (pdrIDGenerator (new_rules demo_act)) = {}" "rule_books lg_used (new_rules demo_act)"
    by (simp_all add: rule_books_def new_rules_def demo_act_def up_env.defs lg_used_def)
  then have "\<forall>a\<in>set [0, 1]. rule_books lg_used (rules_at demo_smf a) \<and>
      (\<forall>pc. pfcp_at demo_act demo_smf demo_smf a = Some pc \<longrightarrow> fst ` set (PDRs pc) \<subseteq> fst ` set (pdrPool (rules_at demo_smf a)))"
    by (simp add: r)
  from deactivation_gives_back [OF lg_generator demo_activatable this, of 255] show ?thesis
    by (simp only: r new) auto
qed

section \<open>Shared QoS rules\<close>

text \<open>
  C31. The paths of a session share the QoS rules of a UPF, and deactivating one path takes them from the others. Deactivation of
  any path that is set up ends without a panic, and the QoS rules that the rules of the path name are then gone from the pools of their
  UPFs, and no others; the rules of all paths still name what they named before, and the session still remembers the identifiers. So
  wherever the session remembers a removed rule as the one that limits its rate at a UPF, or as the one of its default flow, a path set up
  there afterwards gets neither the old rule nor a new one.
\<close>

theorem shared_qos_rule_removed:
  assumes "deactivatable env s path l"
  shows "\<exists>s'. DeactivateTunnelAndPDR env path s = Some (Ok (path\<lparr>Activated := False\<rparr>, s')) \<and>
    s_pdrs s' = s_pdrs s \<and> s_qers s' = s_qers s \<and>
    (\<forall>u. map_of (qerPool (s_rules s' u)) = (\<lambda>i. if (u, i) \<in> named_qers s l then None else map_of (qerPool (s_rules s u)) i)) \<and>
    (\<forall>(u, i)\<in>named_qers s l. \<forall>upf.
      (map_of (AMBRQerMap (s_ctx s)) (upf_uuid upf) = Some i \<longrightarrow> (\<forall>rule. ambr_qer env rule (u, upf) s' = Ok (None, s'))) \<and>
      (\<forall>rule. map_of (QerUpfMap (s_ctx s)) (getQosIdKey (upf_uuid upf) (DefQosQFI rule)) = Some i \<longrightarrow>
        default_qer env (Some rule) True (u, upf) s' = Ok (None, s')))"
proof -
  obtain s' where s': "DeactivateTunnelAndPDR env path s = Some (Ok (path\<lparr>Activated := False\<rparr>, s'))" "qos_frame (named_qers s l) s s'"
    using deactivation [OF assms] by blast
  then have q: "AMBRQerMap (s_ctx s') = AMBRQerMap (s_ctx s)" "QerUpfMap (s_ctx s') = QerUpfMap (s_ctx s)" "s_pdrs s' = s_pdrs s" "s_qers s' = s_qers s"
    "\<And>u. map_of (qerPool (s_rules s' u)) = (\<lambda>i. if (u, i) \<in> named_qers s l then None else map_of (qerPool (s_rules s u)) i)"
    by (simp_all add: qos_frame_def qos_removed_def)
  then have "ambr_qer env rule (u, upf) s' = Ok (None, s')" if "(u, i) \<in> named_qers s l" "map_of (AMBRQerMap (s_ctx s)) (upf_uuid upf) = Some i" for u i upf rule
    using that by (simp add: ambr_qer_def abind_def aget_def)
  moreover have "default_qer env (Some rule) True (u, upf) s' = Ok (None, s')" if "(u, i) \<in> named_qers s l"
      "map_of (QerUpfMap (s_ctx s)) (getQosIdKey (upf_uuid upf) (DefQosQFI rule)) = Some i" for u i upf rule
    using that q by (simp add: default_qer_def abind_def aget_def aderef_def areturn_def Let_def)
  ultimately show ?thesis
    using s'(1) q(3-5) by blast
qed

text \<open>One UPF, and two paths of one session over it.\<close>

definition qos_smf :: "list_gen smf" where
  "qos_smf = demo_smf\<lparr>
     s_upi := empty_upi\<lparr>upi_store := [\<lparr>un_Name = ''UPF'', un_Type = UPNODE_UPF, un_NodeID = no_node_id, un_ANIP = None, Links = [],
       un_UPF = Some \<lparr>upf_uuid = ''1'', upf_NodeID = no_node_id, upf_Addr = [], upf_associated = True, SNssaiInfos = [],
         N3Interfaces = [demo_interface [10, 0, 0, 1]], N9Interfaces = []\<rparr>\<rparr>]\<rparr>,
     s_nodes := [linked_node (Some 0) None None, linked_node (Some 0) None None],
     s_ctx := demo_ctx\<lparr>UrrReportTime := 0\<rparr>\<rparr>"

definition activated :: "nat \<Rightarrow> 'g act_env \<Rightarrow> 'g smf \<Rightarrow> 'g smf" where
  "activated a env s = (case ActivateTunnelAndPDR env (demo_path a) 255 s of Some (Ok (path, s')) \<Rightarrow> s' | _ \<Rightarrow> s)"

definition qos_active :: "list_gen smf" where
  "qos_active = activated 1 demo_act (activated 0 demo_act qos_smf)"

lemma wired_exec:
  "wired d s a p f \<longleftrightarrow> a < length (s_nodes s) \<and> dn_UPF (s_nodes s ! a) = Some (node_upf (s_nodes s) a) \<and>
     upf_at (s_upi s) (node_upf (s_nodes s) a) = Ok (UPF_of s a) \<and>
     (case tunnel d (s_nodes s ! a) of None \<Rightarrow> False | Some t \<Rightarrow> DestEndPoint t = Some a \<and> gt_PDR t = Some p) \<and>
     p < length (s_pdrs s) \<and> pdr_FAR (s_pdrs s ! p) = Some f \<and> f < length (s_fars s)"
  by (auto simp: wired_def split: option.splits)

definition holds_active :: "(list_gen smf \<Rightarrow> bool) \<Rightarrow> bool" where
  "holds_active P = (case ActivateTunnelAndPDR demo_act (demo_path 0) 255 qos_smf of
     Some (Ok (_, s)) \<Rightarrow> (case ActivateTunnelAndPDR demo_act (demo_path 1) 255 s of Some (Ok (_, s)) \<Rightarrow> P s | _ \<Rightarrow> False) | _ \<Rightarrow> False)"

lemma holds_activeD: "holds_active P \<Longrightarrow> P qos_active"
  by (auto simp: holds_active_def qos_active_def activated_def split: option.splits outcome.splits prod.splits)

definition qos_shared :: "list_gen smf \<Rightarrow> bool" where
  "qos_shared s \<longleftrightarrow> dlist (s_nodes s) (FirstDPNode (demo_path 1)) None [1] \<and> upf_associated (UPF_of s 1) \<and>
     map_option pc_LocalSEID (map_of (PFCPContext (s_ctx s)) (upf_ip demo_act (UPF_of s 1))) \<noteq> None \<and>
     far_BAR (s_fars s ! 2) = None \<and> far_BAR (s_fars s ! 3) = None \<and>
     pdr_QER (s_pdrs s ! 0) = [0] \<and> map_of (qerPool (s_rules s 0)) 1 = Some 0 \<and>
     map_of (AMBRQerMap (s_ctx s)) (upf_uuid (UPF_of s 0)) = Some 1 \<and>
     node_upf (s_nodes s) 1 = 0 \<and> pdr_QER (node_pdr UpLink s 1) = [0] \<and> QERID (s_qers s ! 0) = 1"

lemma qos_active_wired: "wired UpLink qos_active 1 2 2 \<and> wired DownLink qos_active 1 3 3"
  unfolding wired_exec by (rule holds_activeD) code_simp

lemma qos_active_shared: "qos_shared qos_active"
  by (rule holds_activeD) code_simp

theorem shared_qos_rule_removed_witness:
  "\<exists>s'. DeactivateTunnelAndPDR demo_act (demo_path 1) qos_active = Some (Ok ((demo_path 1)\<lparr>Activated := False\<rparr>, s')) \<and>
     pdr_QER (s_pdrs qos_active ! 0) = [0] \<and> map_of (qerPool (s_rules qos_active 0)) 1 = Some 0 \<and>
     pdr_QER (s_pdrs s' ! 0) = [0] \<and> map_of (qerPool (s_rules s' 0)) 1 = None \<and>
     ambr_qer demo_act None (0, UPF_of qos_active 0) s' = Ok (None, s')"
proof -
  have "deactivatable demo_act qos_active (demo_path 1) [1]"
    using qos_active_wired qos_active_shared unfolding deactivatable_def node_set_up_def qos_shared_def by auto
  moreover have "(0, 1) \<in> named_qers qos_active [1]"
    using qos_active_shared by (simp add: qos_shared_def named_qers_def qers_at_def)
  ultimately show ?thesis
    using shared_qos_rule_removed [of demo_act qos_active "demo_path 1" "[1]"] qos_active_shared unfolding qos_shared_def by fastforce
qed

end
