(* ===== verification/Spec2Isabelle.thy ===== *)
theory Spec2Isabelle
  imports Smf_UeIPPool Tngf_Ike_Build Tngf_Radius Upf_Server_Props Chf_CdrFile Chf_Ber_Roundtrip
    Nssf_Availability_Props Upf_Perio Upf_FlowDesc Smf_UeAddresses Smf_Deactivation
begin

text \<open>
  A verification library for free5GC, a 5G core network in Go (\<^verbatim>\<open>src/base/free5gc\<close>). The network functions under
  \<^verbatim>\<open>NFs/\<close> are separate processes that talk HTTP, PFCP, NGAP and IKE to each other. Modelled are the parts in
  which they keep state of their own or read what others send: in the SMF the identifier and address pools and
  the user plane topology from which a session gets its data path, its anchor UPF and its address; in the UPF the
  PFCP server that the SMF commands, with sessions, remote nodes, transactions, usage reports, periodic reporting
  and flow descriptions; in the TNGF the IKEv2 and RADIUS messages of trusted access; in the CHF the files and the BER
  encoding of charging records; in the NSSF the choice of slices and the availability data behind it.

  \<^bold>\<open>Shared theories.\<close>
  \<^item> \<open>Go_Prelude\<close>: \<open>outcome\<close>, the result of a Go call (\<open>Ok\<close>, \<open>Err\<close>, \<open>Panic\<close>), its sequencing \<open>obind\<close>, slices with
    capacity, and the collection \<open>go_simps\<close>. \<open>Go_Bytes\<close>: \<open>encoding/binary\<close> and the locale \<open>slice_loop\<close> of decoders
    that cut one element after the other off a buffer. \<open>Go_Range\<close>: pointers and \<open>for range\<close> loops with early exit.
    \<open>Go_Strings\<close>, \<open>Go_Net\<close>: what is used of \<open>strings\<close>, \<open>strconv\<close> and \<open>net\<close>.

  \<^bold>\<open>SMF\<close> (\<^verbatim>\<open>NFs/smf/internal/context\<close>).
  \<^item> \<open>Smf_Pool\<close>: \<open>LazyReusePool\<close> of \<^verbatim>\<open>pool/lazyReusePool.go\<close>, a list of free segments. The locale \<open>id_pool\<close> states
    what a client relies on and is interpreted on the pool; over all histories identifiers are exclusive.
  \<^item> \<open>Smf_UeIPPool\<close>: \<^verbatim>\<open>ue_ip_pool.go\<close>, IPv4 pools over it; overlap of pools, the range of a prefix.
  \<^item> \<open>Smf_UserPlane\<close>: \<^verbatim>\<open>user_plane_information.go\<close> with what it uses of \<^verbatim>\<open>upf.go\<close>, \<^verbatim>\<open>snssai.go\<close> and the configuration.
    A \<open>*UPNode\<close> or \<open>*UeIPPool\<close> is an address in a store, so links, caches and pools are shared as in the code.
    \<open>Smf_Paths\<close>: the depth-first search and the caches of default paths; the search ends and finds a path exactly
    when there is one. \<open>Smf_Topology\<close>: the invariant of links and tables under construction, extension and deletion,
    and that cached paths to UPFs stay current. \<open>Smf_UeSelection\<close>, \<open>Smf_UeSelection_Props\<close>: the breadth-first search
    for an anchor, the choice of a pool. \<open>Smf_UeAddresses\<close>: over any history of sessions the books of every dynamic
    pool balance and no two sessions hold the same address. This composes pool, configuration, topology and selection.
  \<^item> \<open>Smf_DataPath\<close>: the nodes of \<^verbatim>\<open>datapath.go\<close>, doubly linked lists in a heap, made from the paths of the topology, and the
    branching points of \<^verbatim>\<open>bp_manager.go\<close>. \<open>Smf_Rules\<close>: the rules of \<^verbatim>\<open>pfcp_rules.go\<close>, the pools of rules of \<^verbatim>\<open>upf.go\<close> and the
    PFCP contexts of a session, as state-and-error steps \<open>act\<close>; the law \<open>id_generator\<close> is what the pools need of their
    numbers. \<open>Smf_Activation\<close>, \<open>Smf_Activation_Tunnels\<close>, \<open>Smf_Activation_Props\<close>: activation of a path; its rules lead every
    packet from one tunnel to the next, in both directions. \<open>Smf_Deactivation\<close>: deactivation gives back the detection
    and forwarding rules that activation took, and removes the QoS rules that the paths of a session share.

  \<^bold>\<open>UPF\<close> (\<^verbatim>\<open>NFs/upf/internal\<close>).
  \<^item> \<open>Upf_Report\<close>: \<^verbatim>\<open>report/report.go\<close>. \<open>Upf_Session\<close>: the methods of \<open>Sess\<close> in \<^verbatim>\<open>pfcp/node.go\<close> over a \<open>Driver\<close>; the locale
    \<open>removing_driver\<close> says which drivers can always remove rules and holds for the \<open>Empty\<close> one. \<open>Upf_Node\<close>: session
    table and remote nodes; the locale \<open>seid_table\<close> of tables indexed by session identifiers is interpreted on both.
    \<open>Upf_Transaction\<close>, \<open>Upf_Server\<close>: transactions, every handler and one turn of the server loop. \<open>Upf_Server_Inv\<close>,
    \<open>Upf_Server_Props\<close>: the invariant over all histories, the exact panic conditions, at-most-once handling, answers from the store.
  \<^item> \<open>Upf_Perio\<close>: \<^verbatim>\<open>forwarder/perio/server.go\<close>, goroutines and the bounded channel as a step relation; exactly
    when it can finish stopping a ticker. An event is served in one step; that the queries and notifications it makes may block is left out.
    \<open>Upf_FlowDesc\<close>: \<^verbatim>\<open>forwarder/flowdesc.go\<close>, the parser of packet filters: which texts of the grammar it reads and which it refuses.

  \<^bold>\<open>TNGF\<close> (\<^verbatim>\<open>NFs/tngf/pkg\<close>).
  \<^item> \<open>Tngf_Ike_Types\<close>, \<open>Tngf_Ike_Payloads\<close>, \<open>Tngf_Ike_SA\<close>, \<open>Tngf_Eap\<close>, \<open>Tngf_Ike_Message\<close>, \<open>Tngf_Ike_Build\<close>: the sixteen
    payloads of \<^verbatim>\<open>ike/message\<close>, their round trips and panics. \<open>Tngf_Radius\<close>: \<^verbatim>\<open>radius/message\<close> and its key handling.

  \<^bold>\<open>CHF\<close> (\<^verbatim>\<open>NFs/chf/cdr\<close>).
  \<^item> \<open>Chf_CdrFile\<close>: \<^verbatim>\<open>cdrFile/cdrFile.go\<close>. \<open>Chf_Ber\<close>, \<open>Chf_Ber_Decode\<close>, \<open>Chf_Ber_Primitives\<close>, \<open>Chf_Ber_Roundtrip\<close>: \<^verbatim>\<open>asn\<close>, with
    what \<open>reflect\<close> shows of values and types as datatypes; the round trip for every nesting of the values it can code.

  \<^bold>\<open>NSSF\<close> (\<^verbatim>\<open>NFs/nssf\<close>).
  \<^item> \<open>Nssf_Config\<close>: the configuration and \<^verbatim>\<open>util/util.go\<close>. \<open>Nssf_Selection\<close>, \<open>Nssf_Selection_Props\<close>: both selection procedures;
    every requested slice is accounted for, allowed slices are entitled. \<open>Nssf_Availability\<close>, \<open>Nssf_Availability_Props\<close>:
    availability and subscriptions; the locale \<open>amf_store\<close> is the map that the AMF list refines.

  \<^bold>\<open>Parameters.\<close> Code outside the repository is an argument: the accessors of go-pfcp (\<open>ie_api\<close>, \<open>pfcp_env\<close>), \<open>net.ParseCIDR\<close>,
  \<open>net.ParseIP\<close> and name resolution, node identifiers and UUIDs (\<open>up_env\<close>), the generator of rule numbers (\<open>act_env\<close>), md5 and hmac, \<open>openapi.SnssaiEqualFold\<close>, JSON and JSON
  patches (\<open>json_env\<close>), \<open>rand.Intn\<close>, the orders in which maps are visited, the answers of the data plane. What is relied on of
  them are hypotheses of the properties, such as \<open>v4_prefixes\<close>; witnesses instantiate them.

  \<^bold>\<open>Bounds.\<close> Integers have their width, except the Go \<open>int\<close>s of identifier pools, which range over 32-bit numbers. Properties carry the bounds the code itself has: 2^63 entries of the
  session table, 2^24 octets of a BER value, 2^16 octets of a CDR header, 2^32 subscription numbers, 512 queued events.
  No loop uses fuel: searches terminate because unvisited nodes decrease, decoders because the buffer does.
  Walks over linked lists, which may be cyclic, are option-valued partial functions, and the properties say when they end.
  Operations under a mutex are atomic, and so is the handling of one NSSF request, whose helpers lock one by one; goroutines and timers are steps, and histories are sequences of steps.

  \<^bold>\<open>Not modelled.\<close> The gtp5g driver (netlink and kernel state); handlers of NAS, NGAP and HTTP messages in AMF, SMF, AUSF,
  UDM, UDR, PCF, NEF, NRF and N3IWF, which work on structures of packages that are not in the repository or on
  documents of MongoDB; generated dispatchers; cryptography; configuration files, logging and start-up. In the SMF
  the export of the topology, the handlers of PCC, charging and QoS rules and the session messages are left out.
\<close>

end
